(* ===== verification/Prelude.thy ===== *)
theory Prelude
  imports Main "HOL-Library.Sublist" "HOL-Library.AList"
begin

text \<open>
  The prelude of the development: Python's string, list and dictionary operations as the
  sources use them, and the generic facts about them that the components share.

  A Python string is a \<^typ>\<open>string\<close>, the list of its characters.  The characters of
  Isabelle are bytes, so a string is either one of code points below 256 or, where a text
  holds other characters (a dash in a marker), the bytes of its UTF-8 form; every operation
  modelled here (splitting on ASCII characters, prefixes, stripping of ASCII white space)
  gives the same result on both readings.  A Python \<^verbatim>\<open>dict\<close> whose order matters is an
  association list with the entries in insertion order, as \<^verbatim>\<open>dict\<close> keeps them.
\<close>

named_theorems pystr \<open>the string operations unfolded\<close>
named_theorems sumres \<open>facts about the results of fallible functions\<close>

section \<open>Results of fallible functions\<close>

text \<open>
  A function that may raise returns \<open>'e + 'a\<close>; \<open>bindE\<close> is sequencing: an exception of
  the first statement ends the block.
\<close>

definition bindE :: "'e + 'a \<Rightarrow> ('a \<Rightarrow> 'e + 'b) \<Rightarrow> 'e + 'b" where
  "bindE m k = (case m of Inl e \<Rightarrow> Inl e | Inr a \<Rightarrow> k a)"

lemma bindE_simps [simp]:
  "bindE (Inl e) k = Inl e"
  "bindE (Inr a) k = k a"
  by (simp_all add: bindE_def)

lemma bindE_eq_Inr_iff [sumres]:
  "bindE m k = Inr b \<longleftrightarrow> (\<exists>a. m = Inr a \<and> k a = Inr b)"
  by (cases m) auto

lemma bindE_InrE: "bindE m f = Inr y \<Longrightarrow> (\<And>x. m = Inr x \<Longrightarrow> f x = Inr y \<Longrightarrow> P) \<Longrightarrow> P"
  by (auto simp: sumres)

lemma bindE_eq_Inl_iff [sumres]:
  "bindE m k = Inl e \<longleftrightarrow> m = Inl e \<or> (\<exists>a. m = Inr a \<and> k a = Inl e)"
  by (cases m) auto

lemma bindE_cong [fundef_cong]:
  "m = m' \<Longrightarrow> (\<And>a. m' = Inr a \<Longrightarrow> k a = k' a) \<Longrightarrow> bindE m k = bindE m' k'"
  by (cases m') auto

text \<open>A loop whose body may raise: the list of results, or the first exception.\<close>

fun mapE :: "('a \<Rightarrow> 'e + 'b) \<Rightarrow> 'a list \<Rightarrow> 'e + 'b list" where
  "mapE f [] = Inr []"
| "mapE f (x # xs) = bindE (f x) (\<lambda>y. bindE (mapE f xs) (\<lambda>ys. Inr (y # ys)))"

lemma mapE_cong [fundef_cong]: "xs = ys \<Longrightarrow> (\<And>x. x \<in> set ys \<Longrightarrow> f x = g x) \<Longrightarrow> mapE f xs = mapE g ys"
  by (induction ys arbitrary: xs) auto

lemma mapE_Inr [simp]: "mapE (\<lambda>x. Inr (f x)) xs = Inr (map f xs)"
  by (induction xs) auto

lemma mapE_length: "mapE f xs = Inr ys \<Longrightarrow> length ys = length xs"
  by (induction xs arbitrary: ys) (auto simp: sumres)

text \<open>\<^verbatim>\<open>[x for x in xs if P(x)]\<close> and \<^verbatim>\<open>any(P(x) for x in xs)\<close>, which stops at the first.\<close>

fun filterE :: "('a \<Rightarrow> 'e + bool) \<Rightarrow> 'a list \<Rightarrow> 'e + 'a list" where
  "filterE P [] = Inr []"
| "filterE P (x # xs) = bindE (P x) (\<lambda>b. bindE (filterE P xs) (\<lambda>ys. Inr (if b then x # ys else ys)))"

fun anyE :: "('a \<Rightarrow> 'e + bool) \<Rightarrow> 'a list \<Rightarrow> 'e + bool" where
  "anyE P [] = Inr False"
| "anyE P (x # xs) = bindE (P x) (\<lambda>b. if b then Inr True else anyE P xs)"

section \<open>Characters\<close>

definition is_digit :: "char \<Rightarrow> bool" where
  "is_digit c \<longleftrightarrow> 48 \<le> (of_char c :: nat) \<and> of_char c \<le> (57 :: nat)"

definition is_lower :: "char \<Rightarrow> bool" where
  "is_lower c \<longleftrightarrow> 97 \<le> (of_char c :: nat) \<and> of_char c \<le> (122 :: nat)"

definition is_upper :: "char \<Rightarrow> bool" where
  "is_upper c \<longleftrightarrow> 65 \<le> (of_char c :: nat) \<and> of_char c \<le> (90 :: nat)"

definition is_alnum :: "char \<Rightarrow> bool" where
  "is_alnum c \<longleftrightarrow> is_digit c \<or> is_lower c \<or> is_upper c"

text \<open>White space, as \<^verbatim>\<open>str.strip()\<close> and the \<^verbatim>\<open>\s\<close> of a pattern know it among ASCII
  characters: tab to carriage return, the four separators, and space.\<close>

definition is_ws :: "char \<Rightarrow> bool" where
  "is_ws c \<longleftrightarrow> (let n = of_char c :: nat in (9 \<le> n \<and> n \<le> 13) \<or> (28 \<le> n \<and> n \<le> 32))"

abbreviation newline :: char where "newline \<equiv> CHR 0x0A"
abbreviation tab :: char where "tab \<equiv> CHR 0x09"

lemma is_ws_newline [simp]: "is_ws newline" by (simp add: is_ws_def)
lemma is_ws_space [simp]: "is_ws (CHR '' '')" by (simp add: is_ws_def)
lemma is_ws_tab [simp]: "is_ws tab" by (simp add: is_ws_def)

section \<open>Strings\<close>

definition startswith :: "string \<Rightarrow> string \<Rightarrow> bool" where
  "startswith s p \<longleftrightarrow> take (length p) s = p"

definition endswith :: "string \<Rightarrow> string \<Rightarrow> bool" where
  "endswith s p \<longleftrightarrow> length p \<le> length s \<and> drop (length s - length p) s = p"

definition removeprefix :: "string \<Rightarrow> string \<Rightarrow> string" where
  "removeprefix s p = (if startswith s p then drop (length p) s else s)"

definition removesuffix :: "string \<Rightarrow> string \<Rightarrow> string" where
  "removesuffix s p =
     (if p \<noteq> [] \<and> endswith s p then take (length s - length p) s else s)"

lemma startswith_append [simp]: "startswith (p @ s) p"
  by (simp add: startswith_def)

lemma startswith_iff: "startswith s p \<longleftrightarrow> (\<exists>t. s = p @ t)"
  by (metis append_take_drop_id startswith_append startswith_def)

lemma endswith_iff: "endswith s p \<longleftrightarrow> (\<exists>t. s = t @ p)"
  unfolding endswith_def
  by (metis append_take_drop_id diff_le_self append_eq_conv_conj length_append add_diff_cancel_right' le_add2)

lemma removeprefix_append [simp]: "removeprefix (p @ s) p = s"
  by (simp add: removeprefix_def)

text \<open>\<^verbatim>\<open>p in s\<close> for strings.\<close>

fun contains_sub :: "string \<Rightarrow> string \<Rightarrow> bool" where
  "contains_sub p [] = (p = [])"
| "contains_sub p (c # s) = (startswith (c # s) p \<or> contains_sub p s)"

lemma contains_sub_iff: "contains_sub p s \<longleftrightarrow> (\<exists>u v. s = u @ p @ v)"
proof (induction s)
  case Nil
  then show ?case by auto
next
  case (Cons c s)
  show ?case
    by (metis (no_types, lifting) Cons append_Cons append_Nil contains_sub.simps(2)
        list.exhaust list.inject startswith_iff)
qed

definition lstrip_by :: "(char \<Rightarrow> bool) \<Rightarrow> string \<Rightarrow> string" where
  "lstrip_by P s = dropWhile P s"

definition rstrip_by :: "(char \<Rightarrow> bool) \<Rightarrow> string \<Rightarrow> string" where
  "rstrip_by P s = rev (dropWhile P (rev s))"

definition strip_by :: "(char \<Rightarrow> bool) \<Rightarrow> string \<Rightarrow> string" where
  "strip_by P s = rstrip_by P (lstrip_by P s)"

abbreviation strip :: "string \<Rightarrow> string" where "strip \<equiv> strip_by is_ws"
abbreviation lstrip :: "string \<Rightarrow> string" where "lstrip \<equiv> lstrip_by is_ws"
abbreviation rstrip :: "string \<Rightarrow> string" where "rstrip \<equiv> rstrip_by is_ws"

lemma rstrip_by_append1 [simp]:
  "rstrip_by P (s @ [c]) = (if P c then rstrip_by P s else s @ [c])"
  by (simp add: rstrip_by_def)

lemma rstrip_by_Nil [simp]: "rstrip_by P [] = []"
  by (simp add: rstrip_by_def)

lemma rstrip_by_idem [simp]: "rstrip_by P (rstrip_by P s) = rstrip_by P s"
  by (simp add: rstrip_by_def)

lemma lstrip_by_idem [simp]: "lstrip_by P (lstrip_by P s) = lstrip_by P s"
  by (simp add: lstrip_by_def)

lemma strip_by_Nil_iff: "strip_by P s = [] \<longleftrightarrow> (\<forall>c \<in> set s. P c)"
proof -
  have "rstrip_by P t = [] \<longleftrightarrow> (\<forall>c \<in> set t. P c)" for t
    by (simp add: rstrip_by_def dropWhile_eq_Nil_conv)
  then show ?thesis
    by (metis (full_types) dropWhile_eq_Nil_conv empty_iff hd_dropWhile hd_in_set list.set(1)
        lstrip_by_def strip_by_def)
qed

text \<open>ASCII lower case.\<close>

definition lower_char :: "char \<Rightarrow> char" where
  "lower_char c = (if is_upper c then char_of (of_char c + 32 :: nat) else c)"

definition lower :: "string \<Rightarrow> string" where
  "lower s = map lower_char s"

lemma length_lower [simp]: "length (lower s) = length s"
  by (simp add: lower_def)

text \<open>\<^verbatim>\<open>s.split(c)\<close> for a separator of one character: always at least one part.\<close>

fun split_on :: "char \<Rightarrow> string \<Rightarrow> string list" where
  "split_on c [] = [[]]"
| "split_on c (x # xs) =
     (if x = c then [] # split_on c xs
      else (case split_on c xs of [] \<Rightarrow> [[x]] | p # ps \<Rightarrow> (x # p) # ps))"

text \<open>\<^verbatim>\<open>s.splitlines()\<close>: the lines, at every boundary Python knows below code point 256 (a carriage
  return and a line feed after it are one), with no empty line after a last boundary; and with
  \<^verbatim>\<open>keepends\<close>.\<close>

definition line_end :: "char \<Rightarrow> bool" where
  "line_end c \<longleftrightarrow> (of_char c :: nat) \<in> {10, 11, 12, 13, 28, 29, 30, 133}"

fun splitlines_keep :: "string \<Rightarrow> string list" where
  "splitlines_keep [] = []"
| "splitlines_keep [c] = [[c]]"
| "splitlines_keep (c # d # s) =
     (if c = CHR 0x0D \<and> d = newline then [c, d] # splitlines_keep s
      else if line_end c then [c] # splitlines_keep (d # s)
      else (case splitlines_keep (d # s) of [] \<Rightarrow> [[c]] | l # ls \<Rightarrow> (c # l) # ls))"

definition splitlines :: "string \<Rightarrow> string list" where
  "splitlines s = map (\<lambda>l. takeWhile (\<lambda>c. \<not> line_end c) l) (splitlines_keep s)"

text \<open>\<^verbatim>\<open>s.split()\<close>.\<close>

function split_ws :: "string \<Rightarrow> string list" where
  "split_ws s =
     (let t = lstrip s
      in if t = [] then [] else takeWhile (\<lambda>c. \<not> is_ws c) t # split_ws (dropWhile (\<lambda>c. \<not> is_ws c) t))"
  by pat_completeness auto
termination
proof (relation "measure length")
  fix s t :: string assume t: "t = lstrip s" "t \<noteq> []"
  have "length (dropWhile (\<lambda>c. \<not> is_ws c) t) < length t"
  proof (cases t)
    case (Cons c u)
    have "\<not> is_ws c" using hd_dropWhile [of is_ws s] t Cons by (metis list.sel(1) lstrip_by_def)
    with Cons show ?thesis by (simp add: le_imp_less_Suc length_dropWhile_le)
  qed (use t in simp)
  also have "length t \<le> length s" by (simp add: t(1) lstrip_by_def length_dropWhile_le)
  finally show "(dropWhile (\<lambda>c. \<not> is_ws c) t, s) \<in> measure length" by simp
qed simp

declare split_ws.simps [simp del]

text \<open>\<^verbatim>\<open>s.replace(old, new)\<close> for a non-empty \<open>old\<close>: from the left, without overlap.\<close>

function replace_all :: "string \<Rightarrow> string \<Rightarrow> string \<Rightarrow> string" where
  "replace_all old new s =
     (if old = [] \<or> s = [] then s
      else if startswith s old then new @ replace_all old new (drop (length old) s)
      else hd s # replace_all old new (tl s))"
  by pat_completeness auto
termination
  by (relation "measure (\<lambda>(old, new, s). length s)") (auto simp: length_greater_0_conv)

declare replace_all.simps [simp del]

text \<open>\<^verbatim>\<open>sep.join(parts)\<close>.\<close>

fun join :: "string \<Rightarrow> string list \<Rightarrow> string" where
  "join sep [] = []"
| "join sep [p] = p"
| "join sep (p # ps) = p @ sep @ join sep ps"

lemma split_on_ne [simp]: "split_on c s \<noteq> []"
  by (induction s) (auto split: list.splits)

lemma join_Cons: "ps \<noteq> [] \<Longrightarrow> join sep (p # ps) = p @ sep @ join sep ps"
  by (cases ps) auto

lemma join_Cons_char [simp]: "join sep ((x # p) # ps) = x # join sep (p # ps)"
  by (cases ps) auto

lemma join_split [simp]: "join [c] (split_on c s) = s"
proof (induction s)
  case (Cons x xs)
  then show ?case
    by (cases "split_on c xs") (auto simp: join_Cons split: list.splits)
qed simp

lemma split_on_parts: "p \<in> set (split_on c s) \<Longrightarrow> c \<notin> set p"
  by (induction s arbitrary: p) (auto split: list.splits if_splits)

lemma split_on_free: "c \<notin> set s \<Longrightarrow> split_on c s = [s]"
  by (induction s) auto

lemma split_on_app: "c \<notin> set p \<Longrightarrow> split_on c (p @ c # s) = p # split_on c s"
  by (induction p) auto

lemma split_on_sep: "split_on c (p @ c # s) = split_on c p @ split_on c s"
  by (induction p) (auto split: list.splits)

lemma split_join:
  "ps \<noteq> [] \<Longrightarrow> \<forall>p \<in> set ps. c \<notin> set p \<Longrightarrow> split_on c (join [c] ps) = ps"
proof (induction ps)
  case (Cons p ps)
  then show ?case
    by (cases "ps = []") (auto simp: join_Cons split_on_free split_on_app)
qed simp

text \<open>
  \<^verbatim>\<open>s.partition(c)\<close> and \<^verbatim>\<open>s.rpartition(c)\<close>: the part before the first (last) \<open>c\<close>,
  whether there is one, and the part after it.
\<close>

fun partition1 :: "char \<Rightarrow> string \<Rightarrow> string \<times> bool \<times> string" where
  "partition1 c [] = ([], False, [])"
| "partition1 c (x # xs) =
     (if x = c then ([], True, xs)
      else (case partition1 c xs of (b, f, a) \<Rightarrow> (x # b, f, a)))"

definition rpartition1 :: "char \<Rightarrow> string \<Rightarrow> string \<times> bool \<times> string" where
  "rpartition1 c s =
     (case partition1 c (rev s) of
        (b, True, a) \<Rightarrow> (rev a, True, rev b)
      | (b, False, a) \<Rightarrow> ([], False, rev b))"

lemma partition1_free: "c \<notin> set s \<Longrightarrow> partition1 c s = (s, False, [])"
  by (induction s) auto

lemma partition1_app: "c \<notin> set p \<Longrightarrow> partition1 c (p @ c # s) = (p, True, s)"
  by (induction p) auto

lemma rpartition1_app: "c \<notin> set s \<Longrightarrow> rpartition1 c (p @ c # s) = (p, True, s)"
  by (simp add: rpartition1_def partition1_app)

lemma partition1_found:
  "partition1 c s = (b, f, a) \<Longrightarrow> c \<notin> set b \<and> (if f then s = b @ c # a else s = b \<and> a = [])"
  by (induction s arbitrary: b f a) (auto split: prod.splits if_splits)

lemma partition1_length: "partition1 c s = (b, f, a) \<Longrightarrow> length a \<le> length s"
  using partition1_found [of c s b f a] by (cases f) auto

text \<open>Splitting a non-empty string in two.\<close>

lemma ex_split_Cons:
  "(\<exists>u v. x # xs = u @ v \<and> Q u v) \<longleftrightarrow> Q [] (x # xs) \<or> (\<exists>u v. xs = u @ v \<and> Q (x # u) v)"
  (is "?L \<longleftrightarrow> ?R")
proof
  assume ?L
  then obtain u v where "x # xs = u @ v" "Q u v" by blast
  then show ?R by (cases u) auto
next
  assume ?R
  then show ?L by (metis append_Cons append_Nil)
qed

section \<open>Decimal numbers\<close>

definition digit_val :: "char \<Rightarrow> nat" where
  "digit_val c = of_char c - 48"

definition int_of_digits :: "string \<Rightarrow> nat" where
  "int_of_digits s = foldl (\<lambda>n c. 10 * n + digit_val c) 0 s"

text \<open>\<^verbatim>\<open>str(n)\<close>.\<close>

fun show_nat :: "nat \<Rightarrow> string" where
  "show_nat n =
     (if n < 10 then [char_of (48 + n)] else show_nat (n div 10) @ [char_of (48 + n mod 10)])"

declare show_nat.simps [simp del]

lemma digit_val_char [simp]: "(n :: nat) < 10 \<Longrightarrow> digit_val (char_of (48 + n)) = n"
  by (simp add: digit_val_def)

lemma is_digit_char [simp]: "(n :: nat) < 10 \<Longrightarrow> is_digit (char_of (48 + n))"
  by (simp add: is_digit_def)

lemma show_nat_ne [simp]: "show_nat n \<noteq> []"
  by (subst show_nat.simps) simp

lemma show_nat_digits: "\<forall>c \<in> set (show_nat n). is_digit c"
proof (induction n rule: show_nat.induct)
  case (1 n)
  then show ?case by (cases "n < 10") (auto simp: show_nat.simps [of n])
qed

lemma int_of_digits_show [simp]: "int_of_digits (show_nat n) = n"
proof (induction n rule: show_nat.induct)
  case (1 n)
  then show ?case
    by (cases "n < 10") (simp_all add: show_nat.simps [of n] int_of_digits_def)
qed

lemma show_nat_inj [simp]: "show_nat m = show_nat n \<longleftrightarrow> m = n"
  by (metis int_of_digits_show)

definition show_int :: "int \<Rightarrow> string" where
  "show_int i = (if i < 0 then ''-'' @ show_nat (nat (- i)) else show_nat (nat i))"

text \<open>\<^verbatim>\<open>int(s)\<close> for a string: white space around it, a sign, single underscores between digits.\<close>

fun digits_ok :: "string \<Rightarrow> bool" where
  "digits_ok [] = False"
| "digits_ok [c] = is_digit c"
| "digits_ok (c # d # s) = (is_digit c \<and> (digits_ok (d # s) \<or> (d = CHR ''_'' \<and> digits_ok s)))"

definition int_of_text :: "string \<Rightarrow> int option" where
  "int_of_text s =
     (let t = strip s;
          neg = (t \<noteq> [] \<and> hd t = CHR ''-'');
          u = (if neg \<or> (t \<noteq> [] \<and> hd t = CHR ''+'') then tl t else t);
          n = int (int_of_digits (filter (\<lambda>c. c \<noteq> CHR ''_'') u))
      in if digits_ok u then Some (if neg then - n else n) else None)"

section \<open>Lists and dictionaries\<close>

text \<open>\<^verbatim>\<open>list(dict.fromkeys(xs))\<close>: duplicates dropped, the first occurrence kept.\<close>

fun dedup :: "'a list \<Rightarrow> 'a list" where
  "dedup [] = []"
| "dedup (x # xs) = x # filter (\<lambda>y. y \<noteq> x) (dedup xs)"

lemma set_dedup [simp]: "set (dedup xs) = set xs"
  by (induction xs) auto

lemma distinct_dedup [simp]: "distinct (dedup xs)"
  by (induction xs) auto

text \<open>\<^verbatim>\<open>xs.index(x)\<close>, when \<open>x\<close> occurs.\<close>

fun index_of :: "'a \<Rightarrow> 'a list \<Rightarrow> nat option" where
  "index_of x [] = None"
| "index_of x (y # ys) = (if x = y then Some 0 else map_option Suc (index_of x ys))"

lemma index_of_None_iff [simp]: "index_of x xs = None \<longleftrightarrow> x \<notin> set xs"
  by (induction xs) auto

lemma index_of_app: "x \<notin> set us \<Longrightarrow> index_of x (us @ x # vs) = Some (length us)"
  by (induction us) auto

lemma index_of_Some:
  "index_of x xs = Some i \<Longrightarrow> i < length xs \<and> xs ! i = x \<and> x \<notin> set (take i xs)"
  by (induction xs arbitrary: i) (auto split: if_splits)

text \<open>\<^verbatim>\<open>d[k] = v\<close> on a dictionary in insertion order is \<^const>\<open>AList.update\<close>; \<^verbatim>\<open>d.get(k)\<close>
  is \<^const>\<open>map_of\<close>.\<close>

lemma snd_update_subset: "snd ` set (AList.update k v d) \<subseteq> insert v (snd ` set d)"
  by (induction d) auto

lemma update_new: "k \<notin> fst ` set d \<Longrightarrow> AList.update k v d = d @ [(k, v)]"
  by (induction d) auto

lemma map_of_update [simp]: "map_of (AList.update k v d) = (map_of d)(k \<mapsto> v)"
  by (rule update_conv')

text \<open>The dictionary a comprehension or a display builds from its entries in order: a later entry
  for a key overwrites the value and keeps the place.\<close>

definition dict_of :: "('k \<times> 'v) list \<Rightarrow> ('k \<times> 'v) list" where
  "dict_of kvs = fold (\<lambda>(k, v). AList.update k v) kvs []"

lemma map_of_fold_update: "map_of (fold (\<lambda>(k, v). AList.update k v) kvs d) = map_of d ++ map_of (rev kvs)"
proof (induction kvs arbitrary: d)
  case (Cons kv kvs)
  then show ?case by (cases kv) (simp add: map_add_def fun_eq_iff split: option.split)
qed simp

lemma map_of_dict_of [simp]: "map_of (dict_of kvs) = map_of (rev kvs)"
  by (simp add: dict_of_def map_of_fold_update)

lemma map_of_rev_distinct: "distinct (map fst kvs) \<Longrightarrow> map_of (rev kvs) = map_of kvs"
  by (subst map_of_inject_set) (simp_all add: rev_map [symmetric])

lemma distinct_dict_of: "distinct (map fst (dict_of kvs))"
proof -
  have "distinct (map fst d) \<Longrightarrow> distinct (map fst (fold (\<lambda>(k, v). AList.update k v) kvs d))" for d :: "('a \<times> 'b) list"
    by (induction kvs arbitrary: d) (auto simp: distinct_update)
  then show ?thesis by (simp add: dict_of_def)
qed

end
