(* ===== verification/Wildcards.thy ===== *)
theory Wildcards
  imports Prelude
begin

text \<open>
  Wildcard patterns: the path globs of \<^verbatim>\<open>scaffold/globs.py\<close>, translated to a regular
  expression the way \<^verbatim>\<open>_translate\<close> and \<^verbatim>\<open>glob_to_regex\<close> do, and the standard library's
  \<^verbatim>\<open>fnmatch.fnmatchcase\<close>, which the auto-merge decision uses.

  A translated glob is the list of the pieces of the regular expression (\<open>gtok\<close>);
  \<open>regex_text\<close> is its text.  \<open>gmatch\<close> is the matcher of the compiled expression
  anchored at both ends (\<^verbatim>\<open>re.match\<close> of a pattern ending in \<^verbatim>\<open>\Z\<close>): the pieces consume
  the string from left to right, a repeated piece any number of characters of its class.
  Python's \<^verbatim>\<open>.\<close> is any character but a newline.
\<close>

section \<open>Pieces of a translated glob and their matcher\<close>

datatype gtok =
    DirOpt         \<comment> \<open>\<^verbatim>\<open>(?:.*/)?\<close>\<close>
  | DotStar        \<comment> \<open>\<^verbatim>\<open>.*\<close>\<close>
  | SegStar        \<comment> \<open>\<^verbatim>\<open>[^/]*\<close>\<close>
  | SegOne         \<comment> \<open>\<^verbatim>\<open>[^/]\<close>\<close>
  | Lit char       \<comment> \<open>\<^verbatim>\<open>re.escape(c)\<close>\<close>

text \<open>What one piece may consume.\<close>

fun gtok_lang :: "gtok \<Rightarrow> string \<Rightarrow> bool" where
  "gtok_lang DirOpt u \<longleftrightarrow> u = [] \<or> (\<exists>d. u = d @ ''/'' \<and> newline \<notin> set d)"
| "gtok_lang DotStar u \<longleftrightarrow> newline \<notin> set u"
| "gtok_lang SegStar u \<longleftrightarrow> CHR ''/'' \<notin> set u"
| "gtok_lang SegOne u \<longleftrightarrow> (\<exists>c. u = [c] \<and> c \<noteq> CHR ''/'')"
| "gtok_lang (Lit c) u \<longleftrightarrow> u = [c]"

fun glang :: "gtok list \<Rightarrow> string \<Rightarrow> bool" where
  "glang [] s \<longleftrightarrow> s = []"
| "glang (t # ts) s \<longleftrightarrow> (\<exists>u v. s = u @ v \<and> gtok_lang t u \<and> glang ts v)"

text \<open>The executable matcher: \<open>star_then P k s\<close> tries \<open>k\<close> after every run of characters
  that satisfy \<open>P\<close>.\<close>

fun star_then :: "(char \<Rightarrow> bool) \<Rightarrow> (string \<Rightarrow> bool) \<Rightarrow> string \<Rightarrow> bool" where
  "star_then P k [] = k []"
| "star_then P k (x # xs) = (k (x # xs) \<or> (P x \<and> star_then P k xs))"

fun gmatch :: "gtok list \<Rightarrow> string \<Rightarrow> bool" where
  "gmatch [] s = (s = [])"
| "gmatch (DirOpt # ts) s =
     (gmatch ts s \<or>
      star_then (\<lambda>c. c \<noteq> newline)
        (\<lambda>r. case r of [] \<Rightarrow> False | x # xs \<Rightarrow> x = CHR ''/'' \<and> gmatch ts xs) s)"
| "gmatch (DotStar # ts) s = star_then (\<lambda>c. c \<noteq> newline) (gmatch ts) s"
| "gmatch (SegStar # ts) s = star_then (\<lambda>c. c \<noteq> CHR ''/'') (gmatch ts) s"
| "gmatch (SegOne # ts) s = (case s of [] \<Rightarrow> False | x # xs \<Rightarrow> x \<noteq> CHR ''/'' \<and> gmatch ts xs)"
| "gmatch (Lit c # ts) s = (case s of [] \<Rightarrow> False | x # xs \<Rightarrow> x = c \<and> gmatch ts xs)"

lemma star_then_iff:
  "star_then P k s \<longleftrightarrow> (\<exists>u v. s = u @ v \<and> (\<forall>c \<in> set u. P c) \<and> k v)"
proof (induction s)
  case Nil
  then show ?case by auto
next
  case (Cons x xs)
  show ?case
    by (simp only: ex_split_Cons star_then.simps Cons.IH) auto
qed

lemma dir_then_iff:
  "(\<exists>u v. s = u @ v \<and> (\<forall>c \<in> set u. c \<noteq> newline) \<and>
      (case v of [] \<Rightarrow> False | x # xs \<Rightarrow> x = CHR ''/'' \<and> k xs)) \<longleftrightarrow>
   (\<exists>d v. s = (d @ ''/'') @ v \<and> newline \<notin> set d \<and> k v)"
  (is "?L \<longleftrightarrow> ?R")
proof
  assume ?L
  then obtain u v where "s = u @ v" "\<forall>c \<in> set u. c \<noteq> newline"
    "case v of [] \<Rightarrow> False | x # xs \<Rightarrow> x = CHR ''/'' \<and> k xs" by blast
  then have "s = (u @ ''/'') @ tl v" "newline \<notin> set u" "k (tl v)"
    by (cases v; auto)+
  then show ?R by blast
next
  assume ?R
  then obtain d v where "s = d @ (CHR ''/'' # v)" "newline \<notin> set d" "k v" by auto
  then show ?L by (intro exI [of _ d] exI [of _ "CHR ''/'' # v"]) auto
qed

theorem gmatch_glang: "gmatch ts s \<longleftrightarrow> glang ts s"
proof (induction ts arbitrary: s)
  case Nil
  then show ?case by simp
next
  case (Cons t ts)
  then show ?case
  proof (cases t)
    case DirOpt
    have "gmatch (DirOpt # ts) s \<longleftrightarrow>
        glang ts s \<or> (\<exists>d v. s = (d @ ''/'') @ v \<and> newline \<notin> set d \<and> glang ts v)"
      using dir_then_iff [of s "glang ts"] by (simp add: star_then_iff Cons.IH)
    also have "\<dots> \<longleftrightarrow> glang (DirOpt # ts) s"
      by (simp only: glang.simps gtok_lang.simps) (metis append_Nil)
    finally show ?thesis by (simp add: DirOpt)
  next
    case DotStar
    then show ?thesis by (simp add: star_then_iff Cons.IH) metis
  next
    case SegStar
    then show ?thesis by (simp add: star_then_iff Cons.IH) metis
  next
    case SegOne
    then show ?thesis by (cases s) (auto simp: Cons.IH ex_split_Cons)
  next
    case (Lit c)
    then show ?thesis by (cases s) (auto simp: Cons.IH ex_split_Cons)
  qed
qed

lemma glang_append: "glang (ts @ us) s \<longleftrightarrow> (\<exists>u v. s = u @ v \<and> glang ts u \<and> glang us v)"
proof (induction ts arbitrary: s)
  case Nil
  then show ?case by simp
next
  case (Cons t ts)
  show ?case
    by (simp only: append_Cons glang.simps Cons.IH) (metis append_assoc)
qed

section \<open>scaffold/globs.py\<close>

text \<open>\<^verbatim>\<open>_translate\<close>: the pieces of a glob, read from left to right.\<close>

fun translate :: "string \<Rightarrow> gtok list" where
  "translate [] = []"
| "translate (c # g) =
     (if c = CHR ''*'' then
        (case g of
           [] \<Rightarrow> [SegStar]
         | d # g' \<Rightarrow>
             if d = CHR ''*'' then
               (case g' of
                  [] \<Rightarrow> [DotStar]
                | e # g'' \<Rightarrow> if e = CHR ''/'' then DirOpt # translate g'' else DotStar # translate g')
             else SegStar # translate g)
      else if c = CHR ''?'' then SegOne # translate g
      else Lit c # translate g)"

text \<open>\<^verbatim>\<open>match\<close>, \<^verbatim>\<open>match_any\<close> and \<^verbatim>\<open>select\<close>.\<close>

definition glob_match :: "string \<Rightarrow> string \<Rightarrow> bool" where
  "glob_match glob path = gmatch (translate glob) path"

definition match_any :: "string list \<Rightarrow> string \<Rightarrow> bool" where
  "match_any globs path = list_ex (\<lambda>g. glob_match g path) globs"

definition glob_select :: "string list \<Rightarrow> string list \<Rightarrow> string list" where
  "glob_select globs paths = filter (match_any globs) paths"

text \<open>\<^verbatim>\<open>glob_to_regex\<close>: its own loop, without the \<^verbatim>\<open>**/\<close> case.\<close>

fun regex_pieces :: "string \<Rightarrow> gtok list" where
  "regex_pieces [] = []"
| "regex_pieces (c # g) =
     (if c = CHR ''*'' then
        (case g of
           [] \<Rightarrow> [SegStar]
         | d # g' \<Rightarrow> if d = CHR ''*'' then DotStar # regex_pieces g' else SegStar # regex_pieces g)
      else if c = CHR ''?'' then SegOne # regex_pieces g
      else Lit c # regex_pieces g)"

text \<open>The characters \<^verbatim>\<open>re.escape\<close> puts a backslash before.\<close>

definition re_special :: "char \<Rightarrow> bool" where
  "re_special c \<longleftrightarrow> c \<in> set (''()[]{}?*+-|^$.&~#'' @ [CHR 0x5C, CHR '' '', CHR 0x09, CHR 0x0A, CHR 0x0D, CHR 0x0B, CHR 0x0C])"

fun gtok_text :: "gtok \<Rightarrow> string" where
  "gtok_text DirOpt = ''(?:.*/)?''"
| "gtok_text DotStar = ''.*''"
| "gtok_text SegStar = ''[^/]*''"
| "gtok_text SegOne = ''[^/]''"
| "gtok_text (Lit c) = (if re_special c then [CHR 0x5C, c] else [c])"

definition glob_to_regex :: "string \<Rightarrow> string" where
  "glob_to_regex glob = concat (map gtok_text (regex_pieces glob)) @ ''$''"

subsection \<open>What a glob matches\<close>

lemma glang_DirOpt:
  "glang (DirOpt # ts) r \<longleftrightarrow>
     glang ts r \<or> (\<exists>d q. r = d @ ''/'' @ q \<and> newline \<notin> set d \<and> glang ts q)"
  by (simp only: glang.simps gtok_lang.simps) (metis append_Nil append_assoc)

lemma translate_plain:
  "CHR ''*'' \<notin> set g \<Longrightarrow> CHR ''?'' \<notin> set g \<Longrightarrow> translate g = map Lit g"
  by (induction g) auto

lemma glang_lits: "glang (map Lit g) s \<longleftrightarrow> s = g"
  by (induction g arbitrary: s) auto

lemma translate_star2_dir: "translate (''**/'' @ g) = DirOpt # translate g"
  by simp

lemma translate_append_plain:
  "CHR ''*'' \<notin> set p \<Longrightarrow> CHR ''?'' \<notin> set p \<Longrightarrow> translate (p @ g) = map Lit p @ translate g"
  by (induction p) auto

text \<open>A piece that stays inside a segment; a translated glob without \<^verbatim>\<open>**\<close> has only those.\<close>

fun seg_tok :: "gtok \<Rightarrow> bool" where
  "seg_tok DirOpt = False"
| "seg_tok DotStar = False"
| "seg_tok _ = True"

fun slashes :: "gtok list \<Rightarrow> nat" where
  "slashes [] = 0"
| "slashes (t # ts) = (if t = Lit (CHR ''/'') then Suc (slashes ts) else slashes ts)"

lemma glang_slashes:
  "list_all seg_tok ts \<Longrightarrow> glang ts s \<Longrightarrow> count_list s (CHR ''/'') = slashes ts"
proof (induction ts arbitrary: s)
  case Nil
  then show ?case by simp
next
  case (Cons t ts)
  then obtain u v where s: "s = u @ v" "gtok_lang t u" and v: "count_list v (CHR ''/'') = slashes ts"
    by auto
  have "count_list u (CHR ''/'') = (if t = Lit (CHR ''/'') then 1 else 0)"
    using s(2) Cons.prems(1) by (cases t) (auto simp: count_list_0_iff)
  with s v show ?case by simp
qed

text \<open>A glob without \<^verbatim>\<open>**\<close> is translated character by character.\<close>

definition one_tok :: "char \<Rightarrow> gtok" where
  "one_tok c = (if c = CHR ''*'' then SegStar else if c = CHR ''?'' then SegOne else Lit c)"

lemma translate_step:
  "c = CHR ''*'' \<Longrightarrow> (case g of [] \<Rightarrow> True | d # _ \<Rightarrow> d \<noteq> CHR ''*'') \<Longrightarrow>
   translate (c # g) = one_tok c # translate g"
  "c \<noteq> CHR ''*'' \<Longrightarrow> translate (c # g) = one_tok c # translate g"
  by (subst translate.simps(2), cases g; simp add: one_tok_def del: translate.simps(2))+

lemma translate_single: "\<not> contains_sub ''**'' g \<Longrightarrow> translate g = map one_tok g"
proof (induction g)
  case Nil
  then show ?case by simp
next
  case (Cons c g)
  from Cons.prems have "c = CHR ''*'' \<Longrightarrow> (case g of [] \<Rightarrow> True | d # _ \<Rightarrow> d \<noteq> CHR ''*'')"
    by (auto simp: startswith_def split: list.splits)
  then have "translate (c # g) = one_tok c # translate g"
    using translate_step [of c g] by blast
  moreover from Cons.prems have "translate g = map one_tok g" by (simp add: Cons.IH)
  ultimately show ?case by simp
qed

lemma slashes_single: "slashes (map one_tok g) = count_list g (CHR ''/'')"
  by (induction g) (auto simp: one_tok_def)

lemma seg_single: "list_all seg_tok (map one_tok g)"
  by (induction g) (auto simp: one_tok_def)

lemma glob_match_plain:
  "CHR ''*'' \<notin> set g \<Longrightarrow> CHR ''?'' \<notin> set g \<Longrightarrow> glob_match g path \<longleftrightarrow> path = g"
  by (simp add: glob_match_def gmatch_glang translate_plain glang_lits)

text \<open>
  A glob without \<^verbatim>\<open>**\<close> never crosses a directory: whatever it matches has exactly the
  glob's own number of path separators.
\<close>

theorem glob_stays_in_segment:
  assumes "\<not> contains_sub ''**'' glob" and "glob_match glob path"
  shows "count_list path (CHR ''/'') = count_list glob (CHR ''/'')"
  using assms glang_slashes [OF seg_single]
  by (simp add: glob_match_def gmatch_glang translate_single slashes_single)

theorem glob_stays_in_segment_witness:
  "count_list ''app/web/x.js'' (CHR ''/'') = count_list ''app/*/?.js'' (CHR ''/'')"
  by (rule glob_stays_in_segment) (simp_all add: startswith_def glob_match_def)

text \<open>
  A \<^verbatim>\<open>**/\<close> after a literal directory prefix (or at the start) matches no directory at
  all, or any run of directories (a newline apart, which Python's \<^verbatim>\<open>.\<close> does not match).
\<close>

theorem glob_double_star_dir:
  "CHR ''*'' \<notin> set pre \<Longrightarrow> CHR ''?'' \<notin> set pre \<Longrightarrow>
   glob_match (pre @ ''**/'' @ g) path \<longleftrightarrow>
     (\<exists>rest. path = pre @ rest \<and>
        (glob_match g rest \<or>
         (\<exists>d q. rest = d @ ''/'' @ q \<and> newline \<notin> set d \<and> glob_match g q)))"
proof -
  assume pre: "CHR ''*'' \<notin> set pre" "CHR ''?'' \<notin> set pre"
  have "translate (pre @ ''**/'' @ g) = map Lit pre @ DirOpt # translate g"
    using translate_append_plain [OF pre, of "''**/'' @ g"] by (simp only: translate_star2_dir)
  then have "glob_match (pre @ ''**/'' @ g) path \<longleftrightarrow>
      (\<exists>u v. path = u @ v \<and> u = pre \<and> glang (DirOpt # translate g) v)"
    by (simp only: glob_match_def gmatch_glang glang_append glang_lits)
  also have "\<dots> \<longleftrightarrow> (\<exists>rest. path = pre @ rest \<and> glang (DirOpt # translate g) rest)"
    by auto
  also have "\<dots> \<longleftrightarrow> (\<exists>rest. path = pre @ rest \<and> (glang (translate g) rest \<or>
        (\<exists>d q. rest = d @ ''/'' @ q \<and> newline \<notin> set d \<and> glang (translate g) q)))"
    by (simp only: glang_DirOpt)
  finally show ?thesis by (simp add: glob_match_def gmatch_glang)
qed

theorem glob_double_star_dir_witness:
  "glob_match (''a/'' @ ''**/'' @ ''b.js'') ''a/x/y/b.js'' \<longleftrightarrow>
     (\<exists>rest. ''a/x/y/b.js'' = ''a/'' @ rest \<and>
        (glob_match ''b.js'' rest \<or>
         (\<exists>d q. rest = d @ ''/'' @ q \<and> newline \<notin> set d \<and> glob_match ''b.js'' q)))"
  by (rule glob_double_star_dir) simp_all

section \<open>The standard library's fnmatch.fnmatchcase\<close>

text \<open>
  A pattern is \<^verbatim>\<open>*\<close>, \<^verbatim>\<open>?\<close>, a bracket expression closed by \<^verbatim>\<open>]\<close> (negated by a leading
  \<^verbatim>\<open>!\<close>; a \<^verbatim>\<open>]\<close> right after the opening is a member), or a character that stands for itself.
\<close>

datatype ftok = FStar | FAny | FSet bool "(char \<times> char) list" | FLit char

text \<open>The members of a bracket expression: single characters and ranges \<^verbatim>\<open>a-z\<close>.\<close>

fun set_items :: "string \<Rightarrow> (char \<times> char) list" where
  "set_items [] = []"
| "set_items [a] = [(a, a)]"
| "set_items [a, b] = [(a, a), (b, b)]"
| "set_items (a # b # c # s) =
     (if b = CHR ''-'' then (a, c) # set_items s else (a, a) # set_items (b # c # s))"

text \<open>The body of a bracket expression that begins after the \<^verbatim>\<open>[\<close>, and what follows its
  \<^verbatim>\<open>]\<close>; none when it is never closed.\<close>

definition bracket :: "string \<Rightarrow> (bool \<times> string \<times> string) option" where
  "bracket s =
     (let (neg, s1) = (case s of c # t \<Rightarrow> if c = CHR ''!'' then (True, t) else (False, s) | [] \<Rightarrow> (False, s));
          (lead, s2) = (case s1 of c # t \<Rightarrow> if c = CHR '']'' then ([c], t) else ([], s1) | [] \<Rightarrow> ([], s1))
      in case partition1 (CHR '']'') s2 of
           (b, True, a) \<Rightarrow> Some (neg, lead @ b, a)
         | (_, False, _) \<Rightarrow> None)"

lemma bracket_length: "bracket s = Some (n, b, a) \<Longrightarrow> length a \<le> length s"
  by (auto simp: bracket_def Let_def split: list.splits if_splits prod.splits bool.splits
      dest!: partition1_length)

function fpieces :: "string \<Rightarrow> ftok list" where
  "fpieces [] = []"
| "fpieces (c # p) =
     (if c = CHR ''*'' then FStar # fpieces p
      else if c = CHR ''?'' then FAny # fpieces p
      else if c = CHR ''['' then
        (case bracket p of
           Some (n, b, a) \<Rightarrow> FSet n (set_items b) # fpieces a
         | None \<Rightarrow> FLit c # fpieces p)
      else FLit c # fpieces p)"
  by pat_completeness auto
termination
  by (relation "measure length") (auto dest: bracket_length simp: less_Suc_eq_le)

fun fmatch :: "ftok list \<Rightarrow> string \<Rightarrow> bool" where
  "fmatch [] s = (s = [])"
| "fmatch (FStar # ts) s = star_then (\<lambda>_. True) (fmatch ts) s"
| "fmatch (FAny # ts) s = (case s of [] \<Rightarrow> False | _ # xs \<Rightarrow> fmatch ts xs)"
| "fmatch (FSet n items # ts) s =
     (case s of [] \<Rightarrow> False
      | x # xs \<Rightarrow>
          list_ex (\<lambda>(a, b). (of_char a :: nat) \<le> of_char x \<and> (of_char x :: nat) \<le> of_char b) items \<noteq> n
          \<and> fmatch ts xs)"
| "fmatch (FLit c # ts) s = (case s of [] \<Rightarrow> False | x # xs \<Rightarrow> x = c \<and> fmatch ts xs)"

definition fnmatchcase :: "string \<Rightarrow> string \<Rightarrow> bool" where
  "fnmatchcase name pat = fmatch (fpieces pat) name"

end
