(* ===== verification/CiVerdict.thy ===== *)
theory CiVerdict
  imports Wildcards
begin

text \<open>
  \<^verbatim>\<open>ci/verdict.py\<close>: the auto-merge decision for one Dependabot pull request, from
  fetch-metadata's outputs.  The verdicts are a datatype (the module's string constants), the
  ecosystem, update type and group stay the strings fetch-metadata writes.
\<close>

datatype verdict = AUTO | REVIEW | RELOCK | CLOSE

datatype policy = DECISION_TABLE | ALL_POLICY

definition MAJOR :: string where "MAJOR = ''version-update:semver-major''"

definition MINOR_PATCH :: "string list" where
  "MINOR_PATCH = [''version-update:semver-minor'', ''version-update:semver-patch'']"

definition PILOT_PATTERNS :: "string list" where "PILOT_PATTERNS = [''frappe/pilot*'']"

definition TEST_UTILS :: string where "TEST_UTILS = ''agritheory/test_utils''"

definition ROLLOUT_INPUTS :: "string list" where
  "ROLLOUT_INPUTS = [''frappe-nix'', ''standards-profile'']"

text \<open>\<^verbatim>\<open>names\<close>: the comma-separated dependency names.\<close>

definition names :: "string \<Rightarrow> string list" where
  "names raw = filter (\<lambda>n. n \<noteq> []) (map strip (split_on (CHR '','') raw))"

definition matches :: "string \<Rightarrow> string list \<Rightarrow> bool" where
  "matches name patterns = list_ex (\<lambda>p. fnmatchcase (lower name) (lower p)) patterns"

definition minor_or_patch :: "string \<Rightarrow> string \<Rightarrow> bool" where
  "minor_or_patch update_type grp =
     (if update_type = MAJOR then False
      else update_type \<in> set MINOR_PATCH \<or> (update_type = [] \<and> grp \<noteq> []))"

definition moves_frappe_nix :: "string \<Rightarrow> string list \<Rightarrow> string \<Rightarrow> bool" where
  "moves_frappe_nix ecosystem deps frappe_nix_repo =
     (ecosystem = ''github_actions'' \<and> frappe_nix_repo \<noteq> [] \<and>
      list_ex (\<lambda>d. lower d = lower frappe_nix_repo) deps)"

text \<open>\<^verbatim>\<open>"/" + directory.strip("/") if directory else "/"\<close>.\<close>

definition norm_directory :: "string \<Rightarrow> string" where
  "norm_directory directory =
     (if directory \<noteq> [] then ''/'' @ strip_by (\<lambda>c. c = CHR ''/'') directory else ''/'')"

text \<open>The decision table, branch by branch.\<close>

definition table ::
  "string \<Rightarrow> string \<Rightarrow> string \<Rightarrow> string \<Rightarrow> string \<Rightarrow> string list \<Rightarrow> string \<Rightarrow> verdict" where
  "table ecosystem update_type grp dependency_names directory docs_patterns frappe_nix_repo =
     (let deps = names dependency_names; dir = norm_directory directory in
      if ecosystem = ''github_actions'' then
        if moves_frappe_nix ecosystem deps frappe_nix_repo then REVIEW
        else if grp \<in> {''docs-actions'', ''pilot''} then REVIEW
        else if list_ex (\<lambda>d. matches d docs_patterns \<or> matches d PILOT_PATTERNS) deps then REVIEW
        else if grp = ''actions'' \<or> (grp = [] \<and> deps \<noteq> []) then AUTO
        else REVIEW
      else if ecosystem = ''npm_and_yarn'' then
        if dir = ''/docs-site'' then REVIEW
        else if minor_or_patch update_type grp then AUTO else REVIEW
      else if ecosystem = ''uv'' then
        if minor_or_patch update_type grp then AUTO else REVIEW
      else if ecosystem = ''pre_commit'' then
        if grp = ''test-utils'' \<or> list_ex (\<lambda>d. contains_sub TEST_UTILS (lower d)) deps then REVIEW
        else if grp = ''hooks'' \<or> (grp = [] \<and> deps \<noteq> []) then AUTO
        else REVIEW
      else if ecosystem = ''nix'' then
        if list_ex (\<lambda>d. d \<in> set ROLLOUT_INPUTS) deps then CLOSE
        else RELOCK
      else if ecosystem = ''submodules'' then AUTO
      else REVIEW)"

definition decide ::
  "string \<Rightarrow> string \<Rightarrow> string \<Rightarrow> string \<Rightarrow> string \<Rightarrow> string list \<Rightarrow> string \<Rightarrow> policy \<Rightarrow> verdict" where
  "decide ecosystem update_type grp dependency_names directory docs_patterns frappe_nix_repo policy =
     (let decision = table ecosystem update_type grp dependency_names directory docs_patterns
                       frappe_nix_repo
      in if policy = ALL_POLICY \<and> decision = REVIEW \<and>
            \<not> moves_frappe_nix ecosystem (names dependency_names) frappe_nix_repo
         then AUTO else decision)"

text \<open>\<^verbatim>\<open>nix_verdict\<close>: what a \<^verbatim>\<open>relock\<close> verdict becomes once the relock ran; the string
  \<^verbatim>\<open>"wait"\<close> is \<^const>\<open>None\<close>.\<close>

definition nix_verdict :: "string \<Rightarrow> verdict option" where
  "nix_verdict relock_state =
     (if relock_state = ''empty'' then Some AUTO
      else if relock_state = ''rollout-input-moved'' then Some CLOSE
      else None)"

section \<open>What merges on its own\<close>

definition ecosystems :: "string list" where
  "ecosystems = [''github_actions'', ''npm_and_yarn'', ''uv'', ''pre_commit'', ''nix'', ''submodules'']"

lemma decide_table:
  "decide eco upd grp deps dir docs fnrepo DECISION_TABLE = table eco upd grp deps dir docs fnrepo"
  by (simp add: decide_def)

lemma table_ecosystem:
  "table ''github_actions'' upd grp deps dir docs fnrepo =
     (if moves_frappe_nix ''github_actions'' (names deps) fnrepo then REVIEW
      else if grp = ''docs-actions'' \<or> grp = ''pilot'' then REVIEW
      else if list_ex (\<lambda>d. matches d docs \<or> matches d PILOT_PATTERNS) (names deps) then REVIEW
      else if grp = ''actions'' \<or> (grp = [] \<and> names deps \<noteq> []) then AUTO else REVIEW)"
  "table ''npm_and_yarn'' upd grp deps dir docs fnrepo =
     (if norm_directory dir = ''/docs-site'' then REVIEW
      else if minor_or_patch upd grp then AUTO else REVIEW)"
  "table ''uv'' upd grp deps dir docs fnrepo = (if minor_or_patch upd grp then AUTO else REVIEW)"
  "table ''pre_commit'' upd grp deps dir docs fnrepo =
     (if grp = ''test-utils'' \<or> list_ex (\<lambda>d. contains_sub TEST_UTILS (lower d)) (names deps)
      then REVIEW
      else if grp = ''hooks'' \<or> (grp = [] \<and> names deps \<noteq> []) then AUTO else REVIEW)"
  "table ''nix'' upd grp deps dir docs fnrepo =
     (if list_ex (\<lambda>d. d \<in> set ROLLOUT_INPUTS) (names deps) then CLOSE else RELOCK)"
  "table ''submodules'' upd grp deps dir docs fnrepo = AUTO"
  by (simp_all add: table_def Let_def)

lemma table_other:
  "eco \<notin> set ecosystems \<Longrightarrow> table eco upd grp deps dir docs fnrepo = REVIEW"
  by (simp add: table_def Let_def ecosystems_def)


text \<open>
  A bump of the frappe-nix pin is left to a person under either policy, whatever its
  group, update type or the other dependencies of the pull request are.
\<close>

theorem frappe_nix_pin_never_auto:
  assumes "d \<in> set (names deps)" and "lower d = lower fnrepo" and "fnrepo \<noteq> []"
  shows "decide ''github_actions'' upd grp deps dir docs fnrepo policy = REVIEW"
proof -
  have "moves_frappe_nix ''github_actions'' (names deps) fnrepo"
    using assms by (auto simp: moves_frappe_nix_def list_ex_iff)
  then show ?thesis by (simp add: decide_def table_ecosystem)
qed

theorem frappe_nix_pin_never_auto_witness:
  "decide ''github_actions'' MAJOR ''actions'' ''actions/checkout, avunu/frappe-nix'' ''/''
     [] ''Avunu/frappe-nix'' ALL_POLICY = REVIEW"
  by (rule frappe_nix_pin_never_auto [where d = "''avunu/frappe-nix''"])
    code_simp+

text \<open>
  The \<^verbatim>\<open>all\<close> policy turns reviews into automatic merges and changes nothing else: a nix
  bump is never merged directly under any policy (it waits for its relock or is closed), and
  every other verdict is the table's or \<^verbatim>\<open>auto\<close>.
\<close>

theorem policy_all_only_relaxes_review:
  "decide eco upd grp deps dir docs fnrepo ALL_POLICY =
     (case decide eco upd grp deps dir docs fnrepo DECISION_TABLE of
        REVIEW \<Rightarrow> if moves_frappe_nix eco (names deps) fnrepo then REVIEW else AUTO
      | v \<Rightarrow> v) \<and>
   decide ''nix'' upd grp deps dir docs fnrepo p =
     (if ''frappe-nix'' \<in> set (names deps) \<or> ''standards-profile'' \<in> set (names deps)
      then CLOSE else RELOCK)"
proof
  show "decide eco upd grp deps dir docs fnrepo ALL_POLICY =
     (case decide eco upd grp deps dir docs fnrepo DECISION_TABLE of
        REVIEW \<Rightarrow> if moves_frappe_nix eco (names deps) fnrepo then REVIEW else AUTO
      | v \<Rightarrow> v)"
    by (simp add: decide_def Let_def split: verdict.splits)
  show "decide ''nix'' upd grp deps dir docs fnrepo p =
     (if ''frappe-nix'' \<in> set (names deps) \<or> ''standards-profile'' \<in> set (names deps)
      then CLOSE else RELOCK)"
    by (auto simp: decide_def table_ecosystem list_ex_iff ROLLOUT_INPUTS_def)
qed

end
