(* ===== verification/Effects.thy ===== *)
theory Effects
  imports Prelude
begin

text \<open>
  Programs with effects: a statement takes the state, may raise, and returns the new state.
  An exception keeps the effects made before it, as in Python.  Loops over lists and
  \<^verbatim>\<open>try ... except\<close> are combinators; \<open>keeps\<close> is the Hoare-style statement that a program
  preserves a predicate of the state on every exit, with one rule per combinator in the
  collection \<open>keeps_rules\<close>.
\<close>

section \<open>Exceptions\<close>

text \<open>The exceptions of the sources.  \<^verbatim>\<open>FrappeNixError\<close> is the base class itself, where a source raises it.  A \<^verbatim>\<open>GitHubError\<close> carries the HTTP status when there is
  one; the others carry the leading words of their message.\<close>

datatype exn =
    ConfigError string
  | EnvError string
  | FrappeNixError string
  | GitHubError "nat option"
  | ValueError string
  | RuntimeError string
  | KeyError
  | TypeError
  | AttributeError
  | IndexError
  | OSError

text \<open>\<^verbatim>\<open>GitHubError\<close> is a subclass of \<^verbatim>\<open>EnvError\<close>.\<close>

definition is_env_error :: "exn \<Rightarrow> bool" where
  "is_env_error e = (case e of EnvError _ \<Rightarrow> True | GitHubError _ \<Rightarrow> True | _ \<Rightarrow> False)"

definition is_frappe_nix_error :: "exn \<Rightarrow> bool" where
  "is_frappe_nix_error e = (case e of ConfigError _ \<Rightarrow> True | FrappeNixError _ \<Rightarrow> True | _ \<Rightarrow> is_env_error e)"

section \<open>Programs\<close>

type_synonym ('s, 'a) prog = "'s \<Rightarrow> (exn + 'a) \<times> 's"

definition ret :: "'a \<Rightarrow> ('s, 'a) prog" where
  "ret a = (\<lambda>s. (Inr a, s))"

definition raise :: "exn \<Rightarrow> ('s, 'a) prog" where
  "raise e = (\<lambda>s. (Inl e, s))"

definition bindP :: "('s, 'a) prog \<Rightarrow> ('a \<Rightarrow> ('s, 'b) prog) \<Rightarrow> ('s, 'b) prog" where
  "bindP m k = (\<lambda>s. case m s of (Inl e, s') \<Rightarrow> (Inl e, s') | (Inr a, s') \<Rightarrow> k a s')"

text \<open>\<^verbatim>\<open>try: m  except e: h e\<close>.\<close>

definition catch :: "('s, 'a) prog \<Rightarrow> (exn \<Rightarrow> ('s, 'a) prog) \<Rightarrow> ('s, 'a) prog" where
  "catch m h = (\<lambda>s. case m s of (Inl e, s') \<Rightarrow> h e s' | (Inr a, s') \<Rightarrow> (Inr a, s'))"

text \<open>A pure computation that may raise.\<close>

definition liftE :: "exn + 'a \<Rightarrow> ('s, 'a) prog" where
  "liftE r = (\<lambda>s. (r, s))"

text \<open>\<^verbatim>\<open>for x in xs: acc = body(x, acc)\<close>.\<close>

fun foldP :: "('x \<Rightarrow> 'a \<Rightarrow> ('s, 'a) prog) \<Rightarrow> 'x list \<Rightarrow> 'a \<Rightarrow> ('s, 'a) prog" where
  "foldP f [] a = ret a"
| "foldP f (x # xs) a = bindP (f x a) (\<lambda>b. foldP f xs b)"

fun foldE :: "('x \<Rightarrow> 'a \<Rightarrow> exn + 'a) \<Rightarrow> 'x list \<Rightarrow> 'a \<Rightarrow> exn + 'a" where
  "foldE f [] a = Inr a"
| "foldE f (x # xs) a = bindE (f x a) (\<lambda>b. foldE f xs b)"

lemma foldE_cong [fundef_cong]:
  "xs = ys \<Longrightarrow> a = b \<Longrightarrow> (\<And>x c. x \<in> set ys \<Longrightarrow> f x c = g x c) \<Longrightarrow> foldE f xs a = foldE g ys b"
proof (induction ys arbitrary: xs a b)
  case (Cons y ys)
  then show ?case by (cases "g y b") auto
qed simp

lemma foldE_keeps:
  assumes "\<And>x a b. x \<in> set xs \<Longrightarrow> f x a = Inr b \<Longrightarrow> Q a \<Longrightarrow> Q b" "foldE f xs a = Inr b" "Q a"
  shows "Q b"
  using assms by (induction xs arbitrary: a) (auto elim!: bindE_InrE)

named_theorems run \<open>running a program on a state\<close>

lemma ret_apply [run]: "ret a s = (Inr a, s)" by (simp add: ret_def)
lemma raise_apply [run]: "raise e s = (Inl e, s)" by (simp add: raise_def)
lemma liftE_apply [run]: "liftE r s = (r, s)" by (simp add: liftE_def)

lemma ret_eq: "ret a s = (r, s') \<longleftrightarrow> r = Inr a \<and> s' = s" by (auto simp: ret_def)

lemma bindP_ret [simp]: "bindP (ret a) k = k a" by (simp add: bindP_def ret_def raise_def fun_eq_iff)
lemma bindP_raise [simp]: "bindP (raise e) k = raise e" by (simp add: bindP_def ret_def raise_def fun_eq_iff)
lemma bindP_liftE [simp]:
  "bindP (liftE (Inr a)) k = k a"
  "bindP (liftE (Inl e)) k = raise e"
  by (simp_all add: bindP_def liftE_def raise_def fun_eq_iff)
lemma bindP_right_ret [simp]: "bindP m ret = m"
  by (simp add: bindP_def ret_def fun_eq_iff split: prod.splits sum.splits)
lemma bindP_assoc: "bindP (bindP m f) g = bindP m (\<lambda>x. bindP (f x) g)"
  by (simp add: bindP_def fun_eq_iff split: prod.splits sum.splits)
lemma catch_ret [simp]: "catch (ret a) h = ret a" by (simp add: catch_def ret_def fun_eq_iff)
lemma catch_raise [simp]: "catch (raise e) h = h e" by (simp add: catch_def raise_def fun_eq_iff)

lemma bindP_eq_Inr_iff [sumres]:
  "bindP m k s = (Inr b, s') \<longleftrightarrow> (\<exists>a t. m s = (Inr a, t) \<and> k a t = (Inr b, s'))"
  by (auto simp: bindP_def split: prod.splits sum.splits)

lemma bindP_eq_Inl_iff [sumres]:
  "bindP m k s = (Inl e, s') \<longleftrightarrow>
     m s = (Inl e, s') \<or> (\<exists>a t. m s = (Inr a, t) \<and> k a t = (Inl e, s'))"
  by (auto simp: bindP_def split: prod.splits sum.splits)

lemma catch_eq_iff [sumres]:
  "catch m h s = (r, s') \<longleftrightarrow>
     (\<exists>a. m s = (Inr a, s') \<and> r = Inr a) \<or> (\<exists>e t. m s = (Inl e, t) \<and> h e t = (r, s'))"
  by (auto simp: catch_def split: prod.splits sum.splits)

text \<open>\<^verbatim>\<open>try: m  except E: failed\<close>, then the rest: the state the rest starts from, or the last one,
  is the one \<open>m\<close> left.\<close>

lemma try_exit:
  assumes eq: "bindP (catch (bindP m (\<lambda>_. ret True)) h) k s = (r, s')"
    and h: "\<And>e. h e = ret False \<or> h e = raise e"
  shows "(\<exists>ok. k ok (snd (m s)) = (r, s')) \<or> s' = snd (m s)"
proof -
  obtain x t where m: "m s = (x, t)" by fastforce
  show ?thesis
  proof (cases x)
    case (Inl e)
    with m eq have "bindP (h e) k t = (r, s')" by (simp add: bindP_def catch_def)
    with h [of e] m show ?thesis by (auto simp: run)
  next
    case (Inr a)
    with m eq have "k True t = (r, s')" by (simp add: bindP_def catch_def ret_def)
    with m show ?thesis by auto
  qed
qed

section \<open>Preserved predicates\<close>

definition keeps :: "('s \<Rightarrow> bool) \<Rightarrow> ('s, 'a) prog \<Rightarrow> bool" where
  "keeps I m \<longleftrightarrow> (\<forall>s. I s \<longrightarrow> I (snd (m s)))"

named_theorems keeps_rules \<open>a program preserves a predicate of the state\<close>

lemma keepsD: "keeps I m \<Longrightarrow> m s = (r, s') \<Longrightarrow> I s \<Longrightarrow> I s'"
  by (metis keeps_def snd_conv)

lemma keeps_ret [keeps_rules]: "keeps I (ret a)" by (simp add: keeps_def run)
lemma keeps_raise [keeps_rules]: "keeps I (raise e)" by (simp add: keeps_def run)
lemma keeps_liftE [keeps_rules]: "keeps I (liftE r)" by (simp add: keeps_def run)

lemma keeps_bindP [keeps_rules]:
  "keeps I m \<Longrightarrow> (\<And>a. keeps I (k a)) \<Longrightarrow> keeps I (bindP m k)"
  by (fastforce simp: keeps_def bindP_def split: prod.splits sum.splits dest: spec)

lemma keeps_catch [keeps_rules]:
  "keeps I m \<Longrightarrow> (\<And>e. keeps I (h e)) \<Longrightarrow> keeps I (catch m h)"
  by (fastforce simp: keeps_def catch_def split: prod.splits sum.splits dest: spec)

lemma keeps_if [keeps_rules]: "(b \<Longrightarrow> keeps I m) \<Longrightarrow> (\<not> b \<Longrightarrow> keeps I n) \<Longrightarrow> keeps I (if b then m else n)"
  by simp

lemma keeps_option [keeps_rules]:
  "(x = None \<Longrightarrow> keeps I m) \<Longrightarrow> (\<And>a. x = Some a \<Longrightarrow> keeps I (k a)) \<Longrightarrow>
   keeps I (case x of None \<Rightarrow> m | Some a \<Rightarrow> k a)"
  by (cases x) auto

lemma keeps_sum: "(\<And>a. keeps I (f a)) \<Longrightarrow> (\<And>b. keeps I (g b)) \<Longrightarrow> keeps I (case x of Inl a \<Rightarrow> f a | Inr b \<Rightarrow> g b)"
  by (cases x) auto

lemma keeps_split [keeps_rules]: "(\<And>a b. keeps I (f a b)) \<Longrightarrow> keeps I (case p of (a, b) \<Rightarrow> f a b)"
  by (cases p) simp

lemma keeps_split2 [keeps_rules]:
  "(\<And>a b. keeps I (f a b y)) \<Longrightarrow> keeps I ((case p of (a, b) \<Rightarrow> f a b) y)"
  by (cases p) simp

lemma keeps_foldP [keeps_rules]: "(\<And>x a. keeps I (f x a)) \<Longrightarrow> keeps I (foldP f xs a)"
proof (induction xs arbitrary: a)
  case Nil
  then show ?case by (simp add: keeps_ret)
next
  case (Cons x xs)
  then show ?case by (simp add: keeps_bindP)
qed

text \<open>\<^verbatim>\<open>try: m  finally: k\<close>.\<close>

definition finallyP :: "('s, 'a) prog \<Rightarrow> ('s, unit) prog \<Rightarrow> ('s, 'a) prog" where
  "finallyP m k = (\<lambda>s. case m s of (r, t) \<Rightarrow> (case k t of (Inl e, u) \<Rightarrow> (Inl e, u) | (Inr _, u) \<Rightarrow> (r, u)))"

lemma keeps_finallyP [keeps_rules]: "keeps I m \<Longrightarrow> keeps I k \<Longrightarrow> keeps I (finallyP m k)"
  by (fastforce simp: keeps_def finallyP_def split: prod.splits sum.splits dest: spec)

section \<open>Two states side by side\<close>

definition on_fst :: "('s, 'a) prog \<Rightarrow> ('s \<times> 't, 'a) prog" where
  "on_fst m = (\<lambda>(s, t). case m s of (r, s') \<Rightarrow> (r, (s', t)))"

definition on_snd :: "('t, 'a) prog \<Rightarrow> ('s \<times> 't, 'a) prog" where
  "on_snd m = (\<lambda>(s, t). case m t of (r, t') \<Rightarrow> (r, (s, t')))"

lemma keeps_on_fst [keeps_rules]: "keeps I m \<Longrightarrow> keeps (\<lambda>s. I (fst s)) (on_fst m)"
  by (fastforce simp: keeps_def on_fst_def split: prod.splits dest: spec)

lemma keeps_on_snd [keeps_rules]: "keeps (\<lambda>s. I (fst s)) (on_snd m)"
  by (simp add: keeps_def on_snd_def split: prod.splits)

lemma on_fst_InrD: "on_fst m s = (Inr a, s') \<Longrightarrow> m (fst s) = (Inr a, fst s')"
  by (auto simp: on_fst_def split: prod.splits)

lemma finallyP_InrD: "finallyP m k s = (Inr a, s') \<Longrightarrow> \<exists>t. m s = (Inr a, t) \<and> k t = (Inr (), s')"
  by (auto simp: finallyP_def split: prod.splits sum.splits)

definition get_state :: "('s, 's) prog" where "get_state = (\<lambda>s. (Inr s, s))"
definition set_state :: "'s \<Rightarrow> ('s, unit) prog" where "set_state s = (\<lambda>_. (Inr (), s))"

lemma keeps_get_state [keeps_rules]: "keeps I get_state" by (simp add: keeps_def get_state_def)

section \<open>Results\<close>

text \<open>Every result of a program that returns satisfies \<open>P\<close>.\<close>

definition yields :: "('a \<Rightarrow> bool) \<Rightarrow> ('s, 'a) prog \<Rightarrow> bool" where
  "yields P m \<longleftrightarrow> (\<forall>s a s'. m s = (Inr a, s') \<longrightarrow> P a)"

named_theorems yields_rules \<open>a property of every result of a program\<close>

lemma yieldsD: "yields P m \<Longrightarrow> m s = (Inr a, s') \<Longrightarrow> P a" unfolding yields_def by blast

lemma yields_ret [yields_rules]: "P a \<Longrightarrow> yields P (ret a)" by (simp add: yields_def ret_eq)
lemma yields_raise [yields_rules]: "yields P (raise e)" by (simp add: yields_def raise_def)

lemma yields_bindP [yields_rules]: "(\<And>a. yields P (k a)) \<Longrightarrow> yields P (bindP m k)"
  by (fastforce simp: yields_def sumres)

lemma yields_bindP_of: "yields Q m \<Longrightarrow> (\<And>a. Q a \<Longrightarrow> yields P (k a)) \<Longrightarrow> yields P (bindP m k)"
  by (fastforce simp: yields_def sumres)

lemma yields_catch [yields_rules]: "yields P m \<Longrightarrow> (\<And>e. yields P (h e)) \<Longrightarrow> yields P (catch m h)"
  by (fastforce simp: yields_def sumres)

lemma yields_if [yields_rules]: "(b \<Longrightarrow> yields P m) \<Longrightarrow> (\<not> b \<Longrightarrow> yields P n) \<Longrightarrow> yields P (if b then m else n)" by simp

lemma yields_option [yields_rules]:
  "(x = None \<Longrightarrow> yields P m) \<Longrightarrow> (\<And>a. x = Some a \<Longrightarrow> yields P (k a)) \<Longrightarrow> yields P (case x of None \<Rightarrow> m | Some a \<Rightarrow> k a)"
  by (cases x) auto

lemma yields_split [yields_rules]: "(\<And>a b. p = (a, b) \<Longrightarrow> yields P (f a b)) \<Longrightarrow> yields P (case p of (a, b) \<Rightarrow> f a b)"
  by (cases p) simp

lemma yields_on_fst [yields_rules]: "yields P m \<Longrightarrow> yields P (on_fst m)"
  unfolding yields_def by (blast dest: on_fst_InrD)

end
