(* ===== verification/PyJson.thy ===== *)
theory PyJson
  imports Complex_Main Effects
begin

text \<open>
  Python values as \<^verbatim>\<open>json.loads\<close> and \<^verbatim>\<open>tomllib.loads\<close> return them, and the operations the
  sources use on them: truth value, equality, \<^verbatim>\<open>d.get(k)\<close>, iteration, type tests.  A
  dictionary keeps its insertion order; a float is the rational it denotes (no NaN or
  infinity).
\<close>

datatype json =
    JNull
  | JBool bool
  | JInt int
  | JFloat rat
  | JStr string
  | JArr "json list"
  | JObj "(string \<times> json) list"

text \<open>Dictionaries have distinct keys, at every depth.\<close>

fun wf_json :: "json \<Rightarrow> bool" where
  "wf_json (JArr xs) \<longleftrightarrow> (\<forall>x \<in> set xs. wf_json x)"
| "wf_json (JObj kvs) \<longleftrightarrow> distinct (map fst kvs) \<and> (\<forall>kv \<in> set kvs. wf_json (snd kv))"
| "wf_json _ \<longleftrightarrow> True"

text \<open>\<^verbatim>\<open>bool(v)\<close> and \<^verbatim>\<open>v or d\<close>.\<close>

fun truthy :: "json \<Rightarrow> bool" where
  "truthy JNull = False"
| "truthy (JBool b) = b"
| "truthy (JInt i) = (i \<noteq> 0)"
| "truthy (JFloat r) = (r \<noteq> 0)"
| "truthy (JStr s) = (s \<noteq> [])"
| "truthy (JArr xs) = (xs \<noteq> [])"
| "truthy (JObj kvs) = (kvs \<noteq> [])"

definition jor :: "json \<Rightarrow> json \<Rightarrow> json" where
  "jor v d = (if truthy v then v else d)"

text \<open>Type tests.  A \<^verbatim>\<open>bool\<close> is an \<^verbatim>\<open>int\<close> for \<^verbatim>\<open>isinstance\<close>.\<close>

definition is_dict :: "json \<Rightarrow> bool" where
  "is_dict v = (case v of JObj _ \<Rightarrow> True | _ \<Rightarrow> False)"

definition is_list :: "json \<Rightarrow> bool" where
  "is_list v = (case v of JArr _ \<Rightarrow> True | _ \<Rightarrow> False)"

definition is_str :: "json \<Rightarrow> bool" where
  "is_str v = (case v of JStr _ \<Rightarrow> True | _ \<Rightarrow> False)"

definition is_number :: "json \<Rightarrow> bool" where
  "is_number v = (case v of JInt _ \<Rightarrow> True | JFloat _ \<Rightarrow> True | _ \<Rightarrow> False)"

text \<open>The number a value is in a comparison: \<^verbatim>\<open>True\<close> is 1 and \<^verbatim>\<open>False\<close> is 0.\<close>

fun num_of :: "json \<Rightarrow> rat option" where
  "num_of (JBool b) = Some (if b then 1 else 0)"
| "num_of (JInt i) = Some (of_int i)"
| "num_of (JFloat r) = Some r"
| "num_of _ = None"

lemma json_size_arr: "x \<in> set xs \<Longrightarrow> size x < size (JArr xs)"
  by (induction xs) auto

lemma json_size_obj: "(k, v) \<in> set kvs \<Longrightarrow> size v < size (JObj kvs)"
  by (induction kvs) auto

text \<open>\<^verbatim>\<open>a == b\<close>: numbers by value whatever their type, dictionaries without regard to order.\<close>

function py_eq :: "json \<Rightarrow> json \<Rightarrow> bool" where
  "py_eq a b =
     (case (num_of a, num_of b) of
        (Some x, Some y) \<Rightarrow> x = y
      | _ \<Rightarrow>
        (case (a, b) of
           (JNull, JNull) \<Rightarrow> True
         | (JStr s, JStr t) \<Rightarrow> s = t
         | (JArr xs, JArr ys) \<Rightarrow> length xs = length ys \<and> (\<forall>(x, y) \<in> set (zip xs ys). py_eq x y)
         | (JObj kvs, JObj lvs) \<Rightarrow>
             length kvs = length lvs \<and>
             (\<forall>(k, v) \<in> set kvs. case map_of lvs k of None \<Rightarrow> False | Some w \<Rightarrow> py_eq v w)
         | _ \<Rightarrow> False))"
  by pat_completeness auto
termination
  by (relation "measure (\<lambda>(a, b). size a)")
    (auto dest!: set_zip_leftD json_size_arr json_size_obj simp del: json.size)

declare py_eq.simps [simp del]

text \<open>\<^verbatim>\<open>v.get(k, d)\<close>: only a dictionary has it.\<close>

definition dget :: "json \<Rightarrow> string \<Rightarrow> json \<Rightarrow> exn + json" where
  "dget v k d =
     (case v of
        JObj kvs \<Rightarrow> Inr (case map_of kvs k of Some x \<Rightarrow> x | None \<Rightarrow> d)
      | _ \<Rightarrow> Inl AttributeError)"

text \<open>\<^verbatim>\<open>v[k]\<close> for a string \<open>k\<close>.\<close>

definition ditem :: "json \<Rightarrow> string \<Rightarrow> exn + json" where
  "ditem v k =
     (case v of
        JObj kvs \<Rightarrow> (case map_of kvs k of Some x \<Rightarrow> Inr x | None \<Rightarrow> Inl KeyError)
      | _ \<Rightarrow> Inl TypeError)"

text \<open>\<^verbatim>\<open>k in v\<close>.\<close>

definition py_in :: "json \<Rightarrow> json \<Rightarrow> exn + bool" where
  "py_in k v =
     (case v of
        JObj d \<Rightarrow> Inr (case k of JStr s \<Rightarrow> map_of d s \<noteq> None | _ \<Rightarrow> False)
      | JArr xs \<Rightarrow> Inr (list_ex (py_eq k) xs)
      | JStr t \<Rightarrow> (case k of JStr s \<Rightarrow> Inr (contains_sub s t) | _ \<Rightarrow> Inl TypeError)
      | _ \<Rightarrow> Inl TypeError)"

text \<open>\<^verbatim>\<open>for x in v\<close>.\<close>

definition iter :: "json \<Rightarrow> exn + json list" where
  "iter v =
     (case v of
        JArr xs \<Rightarrow> Inr xs
      | JObj kvs \<Rightarrow> Inr (map (JStr \<circ> fst) kvs)
      | JStr s \<Rightarrow> Inr (map (\<lambda>c. JStr [c]) s)
      | _ \<Rightarrow> Inl TypeError)"

lemma dget_obj [simp]:
  "dget (JObj kvs) k d = Inr (case map_of kvs k of Some x \<Rightarrow> x | None \<Rightarrow> d)"
  by (simp add: dget_def)

lemma iter_arr [simp]: "iter (JArr xs) = Inr xs"
  by (simp add: iter_def)

lemma py_eq_refl: "wf_json v \<Longrightarrow> py_eq v v"
proof (induction v)
  case (JArr xs)
  then show ?case by (auto simp: py_eq.simps [of "JArr xs" "JArr xs"] zip_same)
next
  case (JObj kvs)
  have "py_eq w w" if "(k, w) \<in> set kvs" for k w
    using JObj that by (auto intro: JObj.IH [of "(k, w)" w])
  moreover have "map_of kvs k = Some w" if "(k, w) \<in> set kvs" for k w
    using JObj.prems that by (auto intro: map_of_is_SomeI)
  ultimately show ?case by (auto simp: py_eq.simps [of "JObj kvs" "JObj kvs"])
qed (simp_all add: py_eq.simps)

lemma py_eq_str [simp]: "py_eq (JStr s) v \<longleftrightarrow> v = JStr s"
  by (cases v) (auto simp: py_eq.simps [of "JStr s"])

lemma py_eq_str' [simp]: "py_eq v (JStr s) \<longleftrightarrow> v = JStr s"
  by (cases v) (auto simp: py_eq.simps [of _ "JStr s"])

lemma py_eq_null [simp]: "py_eq JNull v \<longleftrightarrow> v = JNull"
  by (cases v) (auto simp: py_eq.simps [of JNull])

text \<open>\<^verbatim>\<open>int(v)\<close>.\<close>

definition py_int :: "json \<Rightarrow> exn + int" where
  "py_int v =
     (case v of JInt i \<Rightarrow> Inr i
      | JBool b \<Rightarrow> Inr (if b then 1 else 0)
      | JFloat r \<Rightarrow> Inr (if r < 0 then - \<lfloor>- r\<rfloor> else \<lfloor>r\<rfloor>)
      | JStr s \<Rightarrow> (case int_of_text s of
            Some n \<Rightarrow> Inr n
          | None \<Rightarrow> Inl (ValueError ''invalid literal for int()''))
      | _ \<Rightarrow> Inl TypeError)"

end
