(* ===== verification/PyJsonText.thy ===== *)
theory PyJsonText
  imports PyJson
begin

text \<open>
  \<^verbatim>\<open>json.loads\<close> of the standard library: the text of a JSON document as a value.  The
  strings here are read as UTF-8 bytes (a \<^verbatim>\<open>\u\<close> escape becomes the bytes of its
  character).  Not modelled: the literals \<^verbatim>\<open>NaN\<close> and \<^verbatim>\<open>Infinity\<close>, and lone surrogate
  escapes.  The parser runs on fuel; \<open>loads\<close> starts it with more than one unit for each
  character of the text, and every level and every member it reads consumes a character.
\<close>

definition is_json_ws :: "char \<Rightarrow> bool" where
  "is_json_ws c \<longleftrightarrow> c = CHR '' '' \<or> c = tab \<or> c = newline \<or> c = CHR 0x0D"

abbreviation skip_ws :: "string \<Rightarrow> string" where
  "skip_ws \<equiv> dropWhile is_json_ws"

definition hex_val :: "char \<Rightarrow> nat option" where
  "hex_val c =
     (let n = of_char c :: nat in
      if is_digit c then Some (n - 48)
      else if 97 \<le> n \<and> n \<le> 102 then Some (n - 87)
      else if 65 \<le> n \<and> n \<le> 70 then Some (n - 55)
      else None)"

definition hex4 :: "string \<Rightarrow> nat option" where
  "hex4 s =
     (case map hex_val (take 4 s) of
        [Some a, Some b, Some c, Some d] \<Rightarrow> Some (((a * 16 + b) * 16 + c) * 16 + d)
      | _ \<Rightarrow> None)"

definition utf8 :: "nat \<Rightarrow> string" where
  "utf8 n =
     (if n < 128 then [char_of n]
      else if n < 2048 then [char_of (192 + n div 64), char_of (128 + n mod 64)]
      else if n < 65536 then
        [char_of (224 + n div 4096), char_of (128 + n div 64 mod 64), char_of (128 + n mod 64)]
      else [char_of (240 + n div 262144), char_of (128 + n div 4096 mod 64),
            char_of (128 + n div 64 mod 64), char_of (128 + n mod 64)])"

text \<open>What follows a backslash: the characters it stands for and how many were read.\<close>

definition escape :: "string \<Rightarrow> (string \<times> nat) option" where
  "escape s =
     (case s of
        [] \<Rightarrow> None
      | c # t \<Rightarrow>
          if c = CHR 0x22 \<or> c = CHR 0x5C \<or> c = CHR ''/'' then Some ([c], 1)
          else if c = CHR ''b'' then Some ([CHR 0x08], 1)
          else if c = CHR ''f'' then Some ([CHR 0x0C], 1)
          else if c = CHR ''n'' then Some ([newline], 1)
          else if c = CHR ''r'' then Some ([CHR 0x0D], 1)
          else if c = CHR ''t'' then Some ([tab], 1)
          else if c = CHR ''u'' then
            (case hex4 t of
               None \<Rightarrow> None
             | Some n \<Rightarrow>
                 if 0xD800 \<le> n \<and> n < 0xDC00 then
                   (if take 2 (drop 4 t) = [CHR 0x5C, CHR ''u''] then
                      (case hex4 (drop 6 t) of
                         Some m \<Rightarrow>
                           if 0xDC00 \<le> m \<and> m < 0xE000
                           then Some (utf8 (0x10000 + (n - 0xD800) * 1024 + (m - 0xDC00)), 11)
                           else None
                       | None \<Rightarrow> None)
                    else None)
                 else if 0xDC00 \<le> n \<and> n < 0xE000 then None
                 else Some (utf8 n, 5))
          else None)"

text \<open>The rest of a string literal, after its opening quote.\<close>

function pstr :: "string \<Rightarrow> (string \<times> string) option" where
  "pstr [] = None"
| "pstr (c # s) =
     (if c = CHR 0x22 then Some ([], s)
      else if c = CHR 0x5C then
        (case escape s of
           None \<Rightarrow> None
         | Some (cs, n) \<Rightarrow> map_option (\<lambda>(r, t). (cs @ r, t)) (pstr (drop n s)))
      else if (of_char c :: nat) < 32 then None
      else map_option (\<lambda>(r, t). (c # r, t)) (pstr s))"
  by pat_completeness auto
termination
  by (relation "measure length") auto

text \<open>A number: sign, integer part without leading zeros, fraction, exponent.\<close>

definition pexp :: "string \<Rightarrow> (int \<times> string) option" where
  "pexp s =
     (case s of
        e # t \<Rightarrow>
          if e = CHR ''e'' \<or> e = CHR ''E'' then
            (let (neg, u) = (case t of c # v \<Rightarrow> if c = CHR ''-'' then (True, v)
                                                else if c = CHR ''+'' then (False, v) else (False, t)
                             | [] \<Rightarrow> (False, t));
                 ds = takeWhile is_digit u
             in if ds = [] then None
                else Some ((if neg then - 1 else 1) * int (int_of_digits ds), dropWhile is_digit u))
          else None
      | [] \<Rightarrow> None)"

definition pow10 :: "int \<Rightarrow> rat" where
  "pow10 e = (if 0 \<le> e then 10 ^ nat e else 1 / 10 ^ nat (- e))"

definition pnum :: "string \<Rightarrow> (json \<times> string) option" where
  "pnum s =
     (let (sg, s1) = (case s of c # t \<Rightarrow> if c = CHR ''-'' then (- 1, t) else (1, s) | [] \<Rightarrow> (1, s));
          ds = (case s1 of c # t \<Rightarrow> if c = CHR ''0'' then [c] else takeWhile is_digit s1 | [] \<Rightarrow> []);
          s2 = drop (length ds) s1;
          (fr, s3) = (case s2 of c # t \<Rightarrow>
                         if c = CHR ''.'' \<and> takeWhile is_digit t \<noteq> []
                         then (takeWhile is_digit t, dropWhile is_digit t) else ([], s2)
                      | [] \<Rightarrow> ([], s2))
      in if ds = [] then None
         else (case pexp s3 of
                 None \<Rightarrow>
                   if fr = [] then Some (JInt (sg * int (int_of_digits ds)), s3)
                   else Some (JFloat (of_int sg * (of_nat (int_of_digits (ds @ fr)) / 10 ^ length fr)), s3)
               | Some (e, s4) \<Rightarrow>
                   Some (JFloat (of_int sg * (of_nat (int_of_digits (ds @ fr)) / 10 ^ length fr) * pow10 e), s4)))"

text \<open>Values, the elements after a \<^verbatim>\<open>[\<close> and the members after a \<^verbatim>\<open>{\<close>.  A repeated key keeps
  its place and takes the last value, as a \<^verbatim>\<open>dict\<close> does.\<close>

fun pval :: "nat \<Rightarrow> string \<Rightarrow> (json \<times> string) option"
  and pelems :: "nat \<Rightarrow> string \<Rightarrow> (json list \<times> string) option"
  and pmembers :: "nat \<Rightarrow> string \<Rightarrow> ((string \<times> json) list \<times> string) option" where
  "pval 0 s = None"
| "pval (Suc n) s =
     (case s of
        [] \<Rightarrow> None
      | c # t \<Rightarrow>
          if c = CHR 0x22 then map_option (\<lambda>(r, u). (JStr r, u)) (pstr t)
          else if c = CHR ''['' then
            (case skip_ws t of
               d # u \<Rightarrow> if d = CHR '']'' then Some (JArr [], u)
                       else map_option (\<lambda>(xs, r). (JArr xs, r)) (pelems n (skip_ws t))
             | [] \<Rightarrow> None)
          else if c = CHR ''{'' then
            (case skip_ws t of
               d # u \<Rightarrow> if d = CHR ''}'' then Some (JObj [], u)
                       else map_option (\<lambda>(kvs, r). (JObj (fold (\<lambda>(k, v) d. AList.update k v d) kvs []), r))
                              (pmembers n (skip_ws t))
             | [] \<Rightarrow> None)
          else if startswith s ''null'' then Some (JNull, drop 4 s)
          else if startswith s ''true'' then Some (JBool True, drop 4 s)
          else if startswith s ''false'' then Some (JBool False, drop 5 s)
          else pnum s)"
| "pelems 0 s = None"
| "pelems (Suc n) s =
     (case pval n s of
        None \<Rightarrow> None
      | Some (v, t) \<Rightarrow>
          (case skip_ws t of
             c # u \<Rightarrow>
               if c = CHR '']'' then Some ([v], u)
               else if c = CHR '','' then map_option (\<lambda>(xs, r). (v # xs, r)) (pelems n (skip_ws u))
               else None
           | [] \<Rightarrow> None))"
| "pmembers 0 s = None"
| "pmembers (Suc n) s =
     (case s of
        q # t \<Rightarrow>
          if q \<noteq> CHR 0x22 then None
          else (case pstr t of
                  None \<Rightarrow> None
                | Some (k, t1) \<Rightarrow>
                    (case skip_ws t1 of
                       col # t2 \<Rightarrow>
                         if col \<noteq> CHR '':'' then None
                         else (case pval n (skip_ws t2) of
                                 None \<Rightarrow> None
                               | Some (v, t3) \<Rightarrow>
                                   (case skip_ws t3 of
                                      c # u \<Rightarrow>
                                        if c = CHR ''}'' then Some ([(k, v)], u)
                                        else if c = CHR '','' then
                                          map_option (\<lambda>(kvs, r). ((k, v) # kvs, r)) (pmembers n (skip_ws u))
                                        else None
                                    | [] \<Rightarrow> None))
                     | [] \<Rightarrow> None))
      | [] \<Rightarrow> None)"

definition loads :: "string \<Rightarrow> json option" where
  "loads s =
     (case pval (2 * length s + 2) (skip_ws s) of
        Some (v, r) \<Rightarrow> if skip_ws r = [] then Some v else None
      | None \<Rightarrow> None)"

end
