(* ===== verification/CiGithub.thy ===== *)
theory CiGithub
  imports PyJsonText CiVerdict
begin

text \<open>
  \<^verbatim>\<open>common/github.py\<close> (every GitHub call, through the \<^verbatim>\<open>gh\<close> program) and
  \<^verbatim>\<open>ci/automerge.py\<close> (an auto-merge verdict applied under the safety rule).

  The \<^verbatim>\<open>gh\<close> program is a parameter: from the state of the world, the argument list and
  the standard input it gives the exit code, the two outputs and the next state, or nothing
  when the program is not on \<^verbatim>\<open>PATH\<close>.  The state of a program here is the world and the log
  of the calls made, so that a property can say which calls a run makes.
\<close>

section \<open>common/github.py\<close>

record proc_result =
  code :: int
  stdout :: string
  stderr :: string

type_synonym gh_call = "string list \<times> json option"

type_synonym 'w gh = "'w \<Rightarrow> string list \<Rightarrow> json option \<Rightarrow> proc_result option \<times> 'w"

record 'w ghst =
  world :: 'w
  calls :: "gh_call list"

text \<open>\<^verbatim>\<open>subprocess.run\<close>: one call, logged.\<close>

definition run_gh :: "'w gh \<Rightarrow> string list \<Rightarrow> json option \<Rightarrow> ('w ghst, proc_result) prog" where
  "run_gh gh argv stdin =
     (\<lambda>s. case gh (world s) argv stdin of
        (r, w) \<Rightarrow>
          ((case r of None \<Rightarrow> Inl (EnvError ''gh is not on PATH'') | Some p \<Rightarrow> Inr p),
           s\<lparr>world := w, calls := calls s @ [(argv, stdin)]\<rparr>))"

text \<open>The status gh prints on its error output, \<^verbatim>\<open>(HTTP 404)\<close>: the first one.\<close>

fun http_status :: "string \<Rightarrow> nat option" where
  "http_status [] = None"
| "http_status (c # s) =
     (if startswith (c # s) ''(HTTP '' then
        (let t = drop 5 s in
         if length t \<ge> 4 \<and> list_all is_digit (take 3 t) \<and> t ! 3 = CHR '')''
         then Some (int_of_digits (take 3 t)) else http_status s)
      else http_status s)"

text \<open>A paginated answer is a list of pages, joined into one list.\<close>

definition join_pages :: "bool \<Rightarrow> json \<Rightarrow> json" where
  "join_pages paginate data =
     (case data of
        JArr pages \<Rightarrow>
          if paginate \<and> list_all is_list pages
          then JArr (concat (map (\<lambda>p. case p of JArr xs \<Rightarrow> xs | _ \<Rightarrow> []) pages)) else data
      | _ \<Rightarrow> data)"

text \<open>\<^verbatim>\<open>Transport.request\<close>: the status and the data of a REST call.\<close>

definition transport_request ::
  "'w gh \<Rightarrow> string \<Rightarrow> string \<Rightarrow> json option \<Rightarrow> bool \<Rightarrow> ('w ghst, nat \<times> json) prog" where
  "transport_request gh method endpoint body paginate =
     bindP (run_gh gh
              ([''gh'', ''api'', ''--method'', method, endpoint] @
               (if paginate then [''--paginate'', ''--slurp''] else []) @
               (if body \<noteq> None then [''--input'', ''-''] else [])) body)
       (\<lambda>p. if code p \<noteq> 0 then raise (GitHubError (http_status (stderr p)))
            else if strip (stdout p) = [] then ret (204, JNull)
            else (case loads (stdout p) of
                    None \<Rightarrow> raise (GitHubError None)
                  | Some data \<Rightarrow> ret (200, join_pages paginate data)))"

text \<open>\<^verbatim>\<open>request\<close>, \<^verbatim>\<open>get\<close>, \<^verbatim>\<open>get_or_none\<close> and \<^verbatim>\<open>cli\<close>.\<close>

definition request ::
  "'w gh \<Rightarrow> string \<Rightarrow> string \<Rightarrow> json option \<Rightarrow> bool \<Rightarrow> ('w ghst, json) prog" where
  "request gh method endpoint body paginate =
     bindP (transport_request gh method endpoint body paginate) (\<lambda>r. ret (snd r))"

definition gh_get :: "'w gh \<Rightarrow> string \<Rightarrow> bool \<Rightarrow> ('w ghst, json) prog" where
  "gh_get gh endpoint paginate = request gh ''GET'' endpoint None paginate"

definition get_or_none :: "'w gh \<Rightarrow> string \<Rightarrow> ('w ghst, json) prog" where
  "get_or_none gh endpoint =
     catch (gh_get gh endpoint False)
       (\<lambda>e. if e = GitHubError (Some 404) then ret JNull else raise e)"

definition cli :: "'w gh \<Rightarrow> string list \<Rightarrow> ('w ghst, proc_result) prog" where
  "cli gh args = run_gh gh (''gh'' # args) None"

text \<open>Adding to a Python set: only hashable values.\<close>

definition set_add :: "json \<Rightarrow> json list \<Rightarrow> exn + json list" where
  "set_add v vs = (if is_dict v \<or> is_list v then Inl TypeError else Inr (vs @ [v]))"

text \<open>The contexts a branch's rules require, and those of its classic protection.\<close>

definition rule_contexts :: "json \<Rightarrow> json list \<Rightarrow> exn + json list" where
  "rule_contexts rules acc =
     bindE (iter rules) (\<lambda>rs.
       foldE (\<lambda>rule acc.
         bindE (dget rule ''type'' JNull) (\<lambda>ty.
           if ty \<noteq> JStr ''required_status_checks'' then Inr acc
           else bindE (dget rule ''parameters'' JNull) (\<lambda>ps.
             bindE (dget (jor ps (JObj [])) ''required_status_checks'' (JArr [])) (\<lambda>cs.
               bindE (iter cs) (\<lambda>checks.
                 foldE (\<lambda>check acc.
                   bindE (dget check ''context'' JNull) (\<lambda>c.
                     if truthy c then set_add c acc else Inr acc)) checks acc))))) rs acc)"

definition protection_contexts :: "json \<Rightarrow> json list \<Rightarrow> exn + json list" where
  "protection_contexts info acc =
     bindE (dget info ''protection'' JNull) (\<lambda>p.
     bindE (dget (jor p (JObj [])) ''required_status_checks'' JNull) (\<lambda>rc.
     let checks = jor rc (JObj []) in
     bindE (dget checks ''contexts'' (JArr [])) (\<lambda>cj. bindE (iter cj) (\<lambda>cs.
     bindE (foldE (\<lambda>c acc. if truthy c then set_add c acc else Inr acc) cs acc) (\<lambda>acc.
     bindE (dget checks ''checks'' (JArr [])) (\<lambda>kj. bindE (iter kj) (\<lambda>ks.
       foldE (\<lambda>k acc. bindE (dget k ''context'' JNull) (\<lambda>c.
         if truthy c then set_add c acc else Inr acc)) ks acc)))))))"

text \<open>\<^verbatim>\<open>required_contexts\<close>: a failed read leaves its part out; \<open>known\<close> says whether either
  could be read.\<close>

definition ignore_github_error ::
  "('s, 'a) prog \<Rightarrow> 'a \<Rightarrow> ('s, 'a) prog" where
  "ignore_github_error m d =
     catch m (\<lambda>e. case e of GitHubError _ \<Rightarrow> ret d | _ \<Rightarrow> raise e)"

definition required_contexts ::
  "'w gh \<Rightarrow> string \<Rightarrow> string \<Rightarrow> ('w ghst, json list \<times> bool) prog" where
  "required_contexts gh repo branch =
     bindP (ignore_github_error
              (bindP (gh_get gh (''repos/'' @ repo @ ''/rules/branches/'' @ branch) True)
                 (\<lambda>rules. bindP (liftE (rule_contexts (jor rules (JArr [])) []))
                    (\<lambda>cs. ret (cs, True))))
              ([], False))
       (\<lambda>(cs, known).
          ignore_github_error
            (bindP (gh_get gh (''repos/'' @ repo @ ''/branches/'' @ branch) False)
               (\<lambda>info. bindP (liftE (protection_contexts (jor info (JObj [])) cs))
                  (\<lambda>cs'. ret (cs', True))))
            (cs, known))"

definition gate_contexts :: "string list \<Rightarrow> string list" where
  "gate_contexts gates = map (\<lambda>g. ''ci / '' @ g) gates"

definition gates_protected ::
  "'w gh \<Rightarrow> string \<Rightarrow> string \<Rightarrow> string list \<Rightarrow> ('w ghst, bool) prog" where
  "gates_protected gh repo branch gates =
     bindP (required_contexts gh repo branch)
       (\<lambda>(contexts, known).
          ret (known \<and> gate_contexts gates \<noteq> [] \<and>
               list_all (\<lambda>g. JStr g \<in> set contexts) (gate_contexts gates)))"

lemma keeps_ignore [keeps_rules]: "keeps I m \<Longrightarrow> keeps I (ignore_github_error m d)"
  unfolding ignore_github_error_def
  by (rule keeps_catch) (auto split: exn.split intro: keeps_rules)

section \<open>ci/automerge.py\<close>

definition LABELS :: "string \<rightharpoonup> string \<times> string" where
  "LABELS = map_of
     [(''dependencies'', (''0366d6'', ''Dependency updates'')),
      (''needs-review'', (''d93f0b'', ''Not merged automatically; a person reviews it'')),
      (''screenshots'', (''c5def5'', ''Screenshot refresh from nightly''))]"

definition ensure_label :: "'w gh \<Rightarrow> string \<Rightarrow> string \<Rightarrow> ('w ghst, unit) prog" where
  "ensure_label gh name repo =
     (case LABELS name of
        None \<Rightarrow> raise KeyError
      | Some (color, description) \<Rightarrow>
          bindP (cli gh ([''label'', ''create'', name, ''--color'', color, ''--description'',
                          description, ''--force''] @
                         (if repo \<noteq> [] then [''--repo'', repo] else [])))
            (\<lambda>_. ret ()))"

definition add_label :: "'w gh \<Rightarrow> string \<Rightarrow> string \<Rightarrow> string \<Rightarrow> ('w ghst, unit) prog" where
  "add_label gh pr_url name repo =
     bindP (ensure_label gh name repo)
       (\<lambda>_. bindP (cli gh [''pr'', ''edit'', pr_url, ''--add-label'', name]) (\<lambda>_. ret ()))"

definition auto_merge_enabled :: "'w gh \<Rightarrow> string \<Rightarrow> ('w ghst, bool) prog" where
  "auto_merge_enabled gh pr_url =
     bindP (cli gh [''pr'', ''view'', pr_url, ''--json'', ''autoMergeRequest''])
       (\<lambda>r. ret (if code r \<noteq> 0 \<or> strip (stdout r) = [] then False
                 else (case loads (stdout r) of
                         None \<Rightarrow> False
                       | Some v \<Rightarrow> (case dget v ''autoMergeRequest'' JNull of
                                      Inl _ \<Rightarrow> False | Inr x \<Rightarrow> truthy x))))"

datatype merge_state = MERGING | NEEDS_REVIEW | WAITING | CLOSED

definition enable ::
  "'w gh \<Rightarrow> string \<Rightarrow> string \<Rightarrow> string \<Rightarrow> string list \<Rightarrow> string \<Rightarrow> ('w ghst, merge_state) prog" where
  "enable gh pr_url repo integration gates merge_method =
     bindP (gates_protected gh repo integration gates)
       (\<lambda>ok.
          if \<not> ok then bindP (add_label gh pr_url ''needs-review'' repo) (\<lambda>_. ret NEEDS_REVIEW)
          else bindP (auto_merge_enabled gh pr_url)
            (\<lambda>on.
               if on then ret MERGING
               else bindP (cli gh [''pr'', ''merge'', ''--auto'', ''--'' @ merge_method, pr_url])
                 (\<lambda>r. if code r \<noteq> 0
                      then bindP (add_label gh pr_url ''needs-review'' repo) (\<lambda>_. ret NEEDS_REVIEW)
                      else ret MERGING)))"

definition close_pr :: "'w gh \<Rightarrow> string \<Rightarrow> string list \<Rightarrow> ('w ghst, unit) prog" where
  "close_pr gh pr_url moved =
     (let what = (if join '' and '' moved \<noteq> [] then join '' and '' moved
                  else ''frappe-nix or standards-profile'');
          body = what @ '' moves through `frappe-nix repo rollout` (or a manual `nix flake update` and'' @
            '' `frappe-init --sync` commit): its bump can rewrite workflow files, which this workflow'' @
            '' cannot push. Closing.''
      in bindP (cli gh [''pr'', ''comment'', pr_url, ''--body'', body])
           (\<lambda>_. bindP (cli gh [''pr'', ''close'', pr_url]) (\<lambda>_. ret ())))"

text \<open>\<^verbatim>\<open>apply\<close>: acting on a verdict; a relock verdict is resolved from the relock's state first.\<close>

definition apply_verdict ::
  "'w gh \<Rightarrow> verdict \<Rightarrow> string \<Rightarrow> string \<Rightarrow> string \<Rightarrow> string list \<Rightarrow> string \<Rightarrow> string \<Rightarrow> string list
     \<Rightarrow> ('w ghst, merge_state) prog" where
  "apply_verdict gh decision pr_url repo integration gates merge_method relock_state moved =
     (case (if decision = RELOCK then nix_verdict relock_state else Some decision) of
        None \<Rightarrow> ret WAITING
      | Some CLOSE \<Rightarrow> bindP (close_pr gh pr_url moved) (\<lambda>_. ret CLOSED)
      | Some AUTO \<Rightarrow> enable gh pr_url repo integration gates merge_method
      | Some _ \<Rightarrow> bindP (add_label gh pr_url ''needs-review'' repo) (\<lambda>_. ret NEEDS_REVIEW))"

section \<open>The safety rule of auto-merge\<close>

text \<open>The calls that change what merges.\<close>

definition is_merge :: "gh_call \<Rightarrow> bool" where
  "is_merge c \<longleftrightarrow> take 3 (fst c) = [''gh'', ''pr'', ''merge'']"

text \<open>The logged calls of a class are exactly \<open>ms\<close>: kept by every program that makes no call of
  the class.\<close>

definition logged :: "(gh_call \<Rightarrow> bool) \<Rightarrow> gh_call list \<Rightarrow> 'w ghst \<Rightarrow> bool" where
  "logged P ms s \<longleftrightarrow> filter P (calls s) = ms"

abbreviation merges_logged :: "gh_call list \<Rightarrow> 'w ghst \<Rightarrow> bool" where
  "merges_logged \<equiv> logged is_merge"

lemma calls_run_gh: "calls (snd (run_gh gh argv stdin s)) = calls s @ [(argv, stdin)]"
  by (simp add: run_gh_def split: prod.splits)

lemma keeps_run_gh:
  "\<not> P (argv, stdin) \<Longrightarrow> keeps (logged P ms) (run_gh gh argv stdin)"
  by (simp add: keeps_def logged_def calls_run_gh)

lemma keeps_transport [keeps_rules]:
  "keeps (merges_logged ms) (transport_request gh m e b p)"
  unfolding transport_request_def
  by (intro keeps_rules keeps_run_gh) (simp add: is_merge_def)

lemma keeps_get [keeps_rules]: "keeps (merges_logged ms) (gh_get gh e p)"
  unfolding gh_get_def request_def by (intro keeps_rules)

lemma keeps_cli: "args = [] \<or> take 2 args \<noteq> [''pr'', ''merge''] \<Longrightarrow> keeps (merges_logged ms) (cli gh args)"
  unfolding cli_def by (rule keeps_run_gh) (auto simp: is_merge_def numeral_3_eq_3 numeral_2_eq_2)

lemma keeps_gates_protected [keeps_rules]: "keeps (merges_logged ms) (gates_protected gh r b gs)"
  unfolding gates_protected_def required_contexts_def by (intro keeps_rules)

lemma keeps_add_label [keeps_rules]: "keeps (merges_logged ms) (add_label gh u n r)"
  unfolding add_label_def ensure_label_def by (intro keeps_rules keeps_cli) simp_all

lemma keeps_auto_merge_enabled [keeps_rules]:
  "keeps (merges_logged ms) (auto_merge_enabled gh u)"
  unfolding auto_merge_enabled_def by (intro keeps_rules keeps_cli) simp

lemma enable_merges_protected:
  assumes run: "enable gh pr_url repo integration gates meth s = (r, s')"
    and merged: "filter is_merge (calls s') \<noteq> filter is_merge (calls s)"
  shows "fst (gates_protected gh repo integration gates s) = Inr True"
proof (rule ccontr)
  let ?I = "merges_logged (filter is_merge (calls s))"
  assume no: "fst (gates_protected gh repo integration gates s) \<noteq> Inr True"
  obtain g t where g: "gates_protected gh repo integration gates s = (g, t)" by fastforce
  have t: "?I t" by (rule keepsD [OF keeps_gates_protected g]) (simp add: logged_def)
  have "?I s'"
  proof (cases g)
    case (Inl e)
    with run g t show ?thesis by (simp add: enable_def bindP_def)
  next
    case (Inr ok)
    with no g have "\<not> ok" by simp
    with run g Inr have "bindP (add_label gh pr_url ''needs-review'' repo) (\<lambda>_. ret NEEDS_REVIEW) t = (r, s')"
      by (simp add: enable_def bindP_def)
    moreover have "keeps ?I (bindP (add_label gh pr_url ''needs-review'' repo) (\<lambda>_. ret NEEDS_REVIEW))"
      by (intro keeps_rules)
    ultimately show ?thesis using t by (blast intro: keepsD)
  qed
  with merged show False by (simp add: logged_def)
qed

lemma keeps_close_pr [keeps_rules]: "keeps (merges_logged ms) (close_pr gh u mv)"
  unfolding close_pr_def Let_def by (intro keeps_rules keeps_cli) simp_all

lemma apply_merges_enable:
  assumes "apply_verdict gh d pr_url repo integration gates meth st mv s = (r, s')"
    and "filter is_merge (calls s') \<noteq> filter is_merge (calls s)"
  shows "(d = AUTO \<or> d = RELOCK \<and> nix_verdict st = Some AUTO) \<and>
    enable gh pr_url repo integration gates meth s = (r, s')"
proof -
  let ?I = "merges_logged (filter is_merge (calls s))"
  have "?I s" "\<not> ?I s'" using assms(2) by (auto simp: logged_def)
  then have no: "\<not> (keeps ?I m \<and> m s = (r, s'))" for m :: "('a ghst, merge_state) prog"
    by (blast dest: keepsD)
  have k: "keeps ?I (bindP (close_pr gh pr_url mv) (\<lambda>_. ret CLOSED))"
    "keeps ?I (bindP (add_label gh pr_url ''needs-review'' repo) (\<lambda>_. ret NEEDS_REVIEW))"
    "keeps ?I (ret WAITING)"
    by (intro keeps_rules)+
  have "bindP (close_pr gh pr_url mv) (\<lambda>_. ret CLOSED) s \<noteq> (r, s')"
    "bindP (add_label gh pr_url ''needs-review'' repo) (\<lambda>_. ret NEEDS_REVIEW) s \<noteq> (r, s')"
    "ret WAITING s \<noteq> (r, s')"
    using no k by auto
  with assms(1) have v: "(if d = RELOCK then nix_verdict st else Some d) = Some AUTO"
    and "enable gh pr_url repo integration gates meth s = (r, s')"
    unfolding apply_verdict_def by (simp_all split: option.splits verdict.splits if_splits)
  moreover from v have "d = AUTO \<or> d = RELOCK \<and> nix_verdict st = Some AUTO"
    by (cases d) simp_all
  ultimately show ?thesis by simp
qed

text \<open>
  C1. Auto-merge is only ever requested behind the safety rule: when acting on a verdict adds a
  \<^verbatim>\<open>gh pr merge\<close> call to the log, the verdict was \<^verbatim>\<open>auto\<close> (or a relock that had nothing to
  relock), and the run's own reading of the branch's rules and protection found every enabled
  gate's context required there.
\<close>

theorem merge_requires_protected_gates:
  assumes "apply_verdict gh d pr_url repo integration gates meth st mv s = (r, s')"
    and "filter is_merge (calls s') \<noteq> filter is_merge (calls s)"
  shows "(d = AUTO \<or> d = RELOCK \<and> st = ''empty'') \<and>
    fst (gates_protected gh repo integration gates s) = Inr True"
  using apply_merges_enable [OF assms] enable_merges_protected assms(2)
  by (auto simp: nix_verdict_def split: if_splits)

text \<open>A GitHub where \<^verbatim>\<open>main\<close> requires the check \<^verbatim>\<open>ci / lint\<close>: every read answers with that rule,
  every other call succeeds.\<close>

definition sample_rules :: string where
  "sample_rules =
     (let q = [CHR 0x22] in
      ''[[{'' @ q @ ''type'' @ q @ '':'' @ q @ ''required_status_checks'' @ q @ '','' @
      q @ ''parameters'' @ q @ '':{'' @ q @ ''required_status_checks'' @ q @ '':[{'' @
      q @ ''context'' @ q @ '':'' @ q @ ''ci / lint'' @ q @ ''}]}}]]'')"

definition sample_gh :: "unit gh" where
  "sample_gh w argv stdin =
     (Some (if ''--paginate'' \<in> set argv then \<lparr>code = 0, stdout = sample_rules, stderr = []\<rparr>
            else \<lparr>code = 0, stdout = [], stderr = []\<rparr>), ())"

theorem merge_requires_protected_gates_witness:
  "(AUTO = AUTO \<or> AUTO = RELOCK \<and> [] = ''empty'') \<and>
   fst (gates_protected sample_gh ''o/r'' ''main'' [''lint''] \<lparr>world = (), calls = []\<rparr>) = Inr True"
  by (rule merge_requires_protected_gates [OF prod.collapse [symmetric],
        where pr_url = "''u''" and meth = "''squash''" and mv = "[]"])
    code_simp

end
