(* ===== verification/CiRelease.thy ===== *)
theory CiRelease
  imports CiGithub
begin

text \<open>
  \<^verbatim>\<open>ci/release.py\<close> (the dispatches of the release flow, the bot-PR sweep and the fast-forward
  of the release branch), \<^verbatim>\<open>ci/branches.py\<close> (bot pull requests kept up to date) and
  \<^verbatim>\<open>ci/relock.py\<close>'s input check.  The GitHub API is the parameter \<^verbatim>\<open>gh\<close> of \<^verbatim>\<open>CiGithub\<close>.
\<close>

section \<open>ci/release.py\<close>

definition CI_CONTEXTS :: "(string \<times> string) list" where
  "CI_CONTEXTS = [(''ci / lint'', ''ci.yml''), (''ci / pr-policy'', ''pr-policy.yml'')]"

definition BOTS :: "string list" where
  "BOTS = [''app/dependabot'', ''dependabot[bot]'', ''app/github-actions'', ''github-actions[bot]'']"

text \<open>A JSON value used as a string (an argument of \<^verbatim>\<open>gh\<close>, or a string method's subject), and
  \<^verbatim>\<open>v in s\<close> for a set of strings.\<close>

definition as_str :: "exn \<Rightarrow> json \<Rightarrow> exn + string" where
  "as_str e v = (case v of JStr s \<Rightarrow> Inr s | _ \<Rightarrow> Inl e)"

lemma as_str_Inr [simp]: "as_str e v = Inr s \<longleftrightarrow> v = JStr s"
  by (cases v) (auto simp: as_str_def)

definition in_strs :: "json \<Rightarrow> string list \<Rightarrow> exn + bool" where
  "in_strs v ss =
     (case v of JStr s \<Rightarrow> Inr (s \<in> set ss)
      | JArr _ \<Rightarrow> Inl TypeError | JObj _ \<Rightarrow> Inl TypeError | _ \<Rightarrow> Inr False)"

definition release_branches :: "string \<Rightarrow> string \<Rightarrow> string list" where
  "release_branches integration package =
     (let b = ''release-please--branches--'' @ integration in
      if package \<noteq> [] then [b, b @ ''--components--'' @ package] else [b])"

definition url_space :: "string \<Rightarrow> string" where
  "url_space s = concat (map (\<lambda>c. if c = CHR '' '' then ''%20'' else [c]) s)"

definition has_check :: "'w gh \<Rightarrow> string \<Rightarrow> string \<Rightarrow> string \<Rightarrow> ('w ghst, bool) prog" where
  "has_check gh repo sha context =
     bindP (gh_get gh (''repos/'' @ repo @ ''/commits/'' @ sha @ ''/check-runs?check_name='' @ url_space context) False)
       (\<lambda>data. bindP (liftE (dget (jor data (JObj [])) ''total_count'' JNull)) (\<lambda>n.
          if truthy n then ret True
          else bindP (liftE (dget (jor data (JObj [])) ''check_runs'' JNull)) (\<lambda>c. ret (truthy c))))"

definition workflow_exists :: "'w gh \<Rightarrow> string \<Rightarrow> string \<Rightarrow> string \<Rightarrow> ('w ghst, bool) prog" where
  "workflow_exists gh repo workflow sha =
     bindP (get_or_none gh (''repos/'' @ repo @ ''/contents/.github/workflows/'' @ workflow @ ''?ref='' @ sha))
       (\<lambda>v. ret (v \<noteq> JNull))"

text \<open>\<^verbatim>\<open>ensure_ci\<close>: each workflow whose context is absent on \<open>sha\<close> is dispatched; the ones
  dispatched are the result.\<close>

definition ensure_ci ::
  "'w gh \<Rightarrow> string \<Rightarrow> string \<Rightarrow> string \<Rightarrow> (string \<times> string) list \<Rightarrow> ('w ghst, string list) prog" where
  "ensure_ci gh repo ref sha contexts =
     foldP (\<lambda>(context, workflow) out.
       bindP (has_check gh repo sha context) (\<lambda>have.
         if have then ret out
         else bindP (workflow_exists gh repo workflow sha) (\<lambda>ex.
           if \<not> ex then ret out
           else bindP (cli gh [''workflow'', ''run'', workflow, ''--repo'', repo, ''--ref'', ref]) (\<lambda>res.
             ret (if code res \<noteq> 0 then out else out @ [workflow])))))
       contexts []"

definition pr_list :: "'w gh \<Rightarrow> string list \<Rightarrow> ('w ghst, json list) prog" where
  "pr_list gh args =
     bindP (cli gh ([''pr'', ''list''] @ args)) (\<lambda>res.
       if code res \<noteq> 0 then raise (GitHubError None)
       else (case loads (if stdout res \<noteq> [] then stdout res else ''[]'') of
               None \<Rightarrow> raise (ValueError ''JSONDecodeError'')
             | Some v \<Rightarrow> liftE (iter v)))"

definition dispatch_ci ::
  "'w gh \<Rightarrow> string \<Rightarrow> string \<Rightarrow> string \<Rightarrow> (string \<times> string) list \<Rightarrow> ('w ghst, string list) prog" where
  "dispatch_ci gh repo integration package contexts =
     bindP (pr_list gh [''--repo'', repo, ''--base'', integration, ''--label'', ''autorelease: pending'',
                        ''--state'', ''open'', ''--json'', ''number,headRefName,headRefOid'']) (\<lambda>prs.
       foldP (\<lambda>pr out.
         bindP (liftE (dget pr ''headRefName'' JNull)) (\<lambda>h.
         bindP (liftE (in_strs h (release_branches integration package))) (\<lambda>ok.
           if \<not> ok then ret out
           else bindP (liftE (ditem pr ''headRefName'')) (\<lambda>r. bindP (liftE (as_str TypeError r)) (\<lambda>ref.
                bindP (liftE (ditem pr ''headRefOid'')) (\<lambda>o'. bindP (liftE (as_str TypeError o')) (\<lambda>sha.
                bindP (ensure_ci gh repo ref sha contexts) (\<lambda>more. ret (out @ more)))))))))
         prs [])"

definition sweep :: "'w gh \<Rightarrow> string \<Rightarrow> ('w ghst, string list) prog" where
  "sweep gh repo =
     bindP (pr_list gh [''--repo'', repo, ''--state'', ''open'', ''--json'',
                        ''number,author,headRefName,headRefOid'']) (\<lambda>prs.
       foldP (\<lambda>pr out.
         bindP (liftE (dget pr ''author'' JNull)) (\<lambda>a.
         bindP (liftE (dget (jor a (JObj [])) ''login'' (JStr []))) (\<lambda>author.
         bindP (liftE (in_strs author BOTS)) (\<lambda>bot.
           if \<not> bot then ret out
           else bindP (liftE (ditem pr ''headRefName'')) (\<lambda>r. bindP (liftE (as_str TypeError r)) (\<lambda>ref.
                bindP (liftE (ditem pr ''headRefOid'')) (\<lambda>o'. bindP (liftE (as_str TypeError o')) (\<lambda>sha.
                bindP (ensure_ci gh repo ref sha CI_CONTEXTS) (\<lambda>more. ret (out @ more))))))))))
         prs [])"

subsection \<open>The fast-forward of the release branch\<close>

record fast_forward =
  ff_repo :: string
  ff_branch :: string
  ff_sha :: string
  ff_tag :: string
  version_scheme :: string
  tag_prefix :: string
  frappe_major :: nat
  pilot_assets :: bool
  dry_run :: bool

text \<open>\<^verbatim>\<open>_write\<close>: a dry run only prints the call.\<close>

definition ff_write ::
  "'w gh \<Rightarrow> fast_forward \<Rightarrow> string \<Rightarrow> string \<Rightarrow> json \<Rightarrow> ('w ghst, unit) prog" where
  "ff_write gh f method endpoint body =
     (if dry_run f then ret ()
      else bindP (request gh method endpoint (Some body) False) (\<lambda>_. ret ()))"

definition get_object :: "json \<Rightarrow> exn + json" where
  "get_object v = bindE (dget (jor v (JObj [])) ''object'' JNull) (\<lambda>ob. Inr (jor ob (JObj [])))"

text \<open>\<^verbatim>\<open>peeled\<close>: the commit a tag names; an annotated tag is followed at most ten times.\<close>

fun peel :: "'w gh \<Rightarrow> string \<Rightarrow> nat \<Rightarrow> json \<Rightarrow> ('w ghst, json) prog" where
  "peel gh repo 0 ob = ret (JStr [])"
| "peel gh repo (Suc n) ob =
     bindP (liftE (dget ob ''type'' JNull)) (\<lambda>ty.
       if ty \<noteq> JStr ''tag'' then liftE (dget ob ''sha'' (JStr []))
       else bindP (liftE (ditem ob ''sha'')) (\<lambda>x. bindP (liftE (as_str TypeError x)) (\<lambda>sha.
         bindP (gh_get gh (''repos/'' @ repo @ ''/git/tags/'' @ sha) False) (\<lambda>v.
           bindP (liftE (get_object v)) (\<lambda>ob'. peel gh repo n ob')))))"

definition peeled :: "'w gh \<Rightarrow> fast_forward \<Rightarrow> string \<Rightarrow> ('w ghst, json) prog" where
  "peeled gh f tag =
     bindP (gh_get gh (''repos/'' @ ff_repo f @ ''/git/ref/tags/'' @ tag) False) (\<lambda>v.
       bindP (liftE (get_object v)) (\<lambda>ob. peel gh (ff_repo f) 10 ob))"

definition scheme_ok :: "fast_forward \<Rightarrow> bool" where
  "scheme_ok f =
     (version_scheme f \<noteq> ''frappe-major'' \<or>
      startswith (ff_tag f) (tag_prefix f @ show_nat (frappe_major f) @ ''.''))"

definition ff_endpoint :: "fast_forward \<Rightarrow> string" where
  "ff_endpoint f = ''repos/'' @ ff_repo f @ ''/git/ref/heads/'' @ ff_branch f"

text \<open>The write: a \<^verbatim>\<open>PATCH\<close> without force where the branch exists, else the branch is made.\<close>

definition ff_move :: "'w gh \<Rightarrow> fast_forward \<Rightarrow> ('w ghst, unit) prog" where
  "ff_move gh f =
     bindP (get_or_none gh (ff_endpoint f)) (\<lambda>cur.
       if cur \<noteq> JNull then
         ff_write gh f ''PATCH'' (''repos/'' @ ff_repo f @ ''/git/refs/heads/'' @ ff_branch f)
           (JObj [(''sha'', JStr (ff_sha f)), (''force'', JBool False)])
       else
         ff_write gh f ''POST'' (''repos/'' @ ff_repo f @ ''/git/refs'')
           (JObj [(''ref'', JStr (''refs/heads/'' @ ff_branch f)), (''sha'', JStr (ff_sha f))]))"

text \<open>What the branch is at after the write: read back, or in a dry run what the write would leave.\<close>

definition ff_head :: "'w gh \<Rightarrow> fast_forward \<Rightarrow> ('w ghst, json) prog" where
  "ff_head gh f =
     (if dry_run f then ret (JStr (ff_sha f))
      else bindP (get_or_none gh (ff_endpoint f)) (\<lambda>v.
        bindP (liftE (get_object v)) (\<lambda>ob. liftE (dget ob ''sha'' (JStr [])))))"

definition ff_assets :: "'w gh \<Rightarrow> fast_forward \<Rightarrow> ('w ghst, nat) prog" where
  "ff_assets gh f =
     (if pilot_assets f \<and> \<not> dry_run f then
        bindP (cli gh [''workflow'', ''run'', ''assets.yml'', ''--repo'', ff_repo f, ''--ref'', ff_branch f])
          (\<lambda>res. ret (if code res \<noteq> 0 then 1 else 0))
      else ret 0)"

definition ff_run :: "'w gh \<Rightarrow> fast_forward \<Rightarrow> ('w ghst, nat) prog" where
  "ff_run gh f =
     (if \<not> scheme_ok f then ret 1
      else bindP (catch (bindP (ff_move gh f) (\<lambda>_. ret True))
                    (\<lambda>e. if e = GitHubError (Some 403) then ret False
                         else raise e))
        (\<lambda>moved.
           if \<not> moved then ret 1
           else bindP (ff_head gh f) (\<lambda>head.
             bindP (peeled gh f (ff_tag f)) (\<lambda>tagged.
               if \<not> truthy head \<or> \<not> py_eq head tagged then ret 1
               else ff_assets gh f))))"

section \<open>The release branch\<close>

text \<open>
  The guard of the release branch: when \<^verbatim>\<open>FastForward.run\<close> succeeds outside a dry run, the
  tag fits the version scheme, and the branch's head as read back after the write is a commit
  and the very one the peeled tag names.
\<close>

theorem fast_forward_guard:
  assumes "ff_run gh f s = (Inr 0, s')" and "\<not> dry_run f"
  shows "scheme_ok f \<and>
    (\<exists>t u v head tagged.
       snd (ff_move gh f s) = t \<and> ff_head gh f t = (Inr head, u) \<and>
       peeled gh f (ff_tag f) u = (Inr tagged, v) \<and> truthy head \<and> py_eq head tagged)"
proof -
  have ok: "scheme_ok f" using assms(1) by (auto simp: ff_run_def run split: if_splits)
  with assms(1) obtain moved t where
    m: "catch (bindP (ff_move gh f) (\<lambda>_. ret True))
          (\<lambda>e. if e = GitHubError (Some 403) then ret False else raise e) s = (Inr moved, t)"
    and k: "(if \<not> moved then ret 1
           else bindP (ff_head gh f) (\<lambda>head. bindP (peeled gh f (ff_tag f)) (\<lambda>tagged.
               if \<not> truthy head \<or> \<not> py_eq head tagged then ret 1 else ff_assets gh f))) t = (Inr 0, s')"
    by (auto simp: ff_run_def bindP_eq_Inr_iff)
  from k have moved by (auto simp: run split: if_splits)
  with k obtain head u tagged v where
    "ff_head gh f t = (Inr head, u)" "peeled gh f (ff_tag f) u = (Inr tagged, v)"
    "truthy head" "py_eq head tagged"
    by (auto simp: bindP_eq_Inr_iff run split: if_splits)
  moreover from m \<open>moved\<close> have "snd (ff_move gh f s) = t"
    by (auto simp: catch_eq_iff bindP_eq_Inr_iff run split: if_splits)
  ultimately show ?thesis using ok by blast
qed

text \<open>A GitHub whose release branch and tag are both at the commit \<^verbatim>\<open>c0\<close>.\<close>

definition object_json :: string where
  "object_json =
     (let q = [CHR 0x22] in
      ''{'' @ q @ ''object'' @ q @ '':{'' @ q @ ''type'' @ q @ '':'' @ q @ ''commit'' @ q @ '','' @
      q @ ''sha'' @ q @ '':'' @ q @ ''c0'' @ q @ ''}}'')"

definition commit_gh :: "unit gh" where
  "commit_gh w argv stdin = (Some \<lparr>code = 0, stdout = object_json, stderr = []\<rparr>, ())"

definition sample_ff :: fast_forward where
  "sample_ff = \<lparr>ff_repo = ''o/r'', ff_branch = ''version-15'', ff_sha = ''c0'', ff_tag = ''v15.2.0'',
     version_scheme = ''frappe-major'', tag_prefix = ''v'', frappe_major = 15,
     pilot_assets = False, dry_run = False\<rparr>"

theorem fast_forward_guard_witness:
  "scheme_ok sample_ff \<and>
    (\<exists>t u v head tagged.
       snd (ff_move commit_gh sample_ff \<lparr>world = (), calls = []\<rparr>) = t \<and>
       ff_head commit_gh sample_ff t = (Inr head, u) \<and>
       peeled commit_gh sample_ff (ff_tag sample_ff) u = (Inr tagged, v) \<and>
       truthy head \<and> py_eq head tagged)"
proof (rule fast_forward_guard)
  show "ff_run commit_gh sample_ff \<lparr>world = (), calls = []\<rparr> =
      (Inr 0, snd (ff_run commit_gh sample_ff \<lparr>world = (), calls = []\<rparr>))"
    by code_simp
  show "\<not> dry_run sample_ff" by (simp add: sample_ff_def)
qed

text \<open>The calls that are not reads: everything but \<^verbatim>\<open>gh api --method GET\<close>.\<close>

definition is_write :: "gh_call \<Rightarrow> bool" where
  "is_write c \<longleftrightarrow> take 4 (fst c) \<noteq> [''gh'', ''api'', ''--method'', ''GET'']"

definition ff_allowed :: "fast_forward \<Rightarrow> gh_call list" where
  "ff_allowed f =
     [([''gh'', ''api'', ''--method'', ''PATCH'', ''repos/'' @ ff_repo f @ ''/git/refs/heads/'' @ ff_branch f,
        ''--input'', ''-''],
       Some (JObj [(''sha'', JStr (ff_sha f)), (''force'', JBool False)])),
      ([''gh'', ''api'', ''--method'', ''POST'', ''repos/'' @ ff_repo f @ ''/git/refs'', ''--input'', ''-''],
       Some (JObj [(''ref'', JStr (''refs/heads/'' @ ff_branch f)), (''sha'', JStr (ff_sha f))])),
      ([''gh'', ''workflow'', ''run'', ''assets.yml'', ''--repo'', ff_repo f, ''--ref'', ff_branch f], None)]"

definition writes_in :: "gh_call list \<Rightarrow> 'w ghst \<Rightarrow> bool" where
  "writes_in cs s \<longleftrightarrow> (\<forall>c \<in> set (calls s). is_write c \<longrightarrow> c \<in> set cs)"

lemma keeps_writes_run:
  "is_write (argv, stdin) \<Longrightarrow> (argv, stdin) \<in> set cs \<Longrightarrow> keeps (writes_in cs) (run_gh gh argv stdin)"
  "\<not> is_write (argv, stdin) \<Longrightarrow> keeps (writes_in cs) (run_gh gh argv stdin)"
  by (auto simp: keeps_def writes_in_def calls_run_gh)

lemma keeps_writes_get [keeps_rules]: "keeps (writes_in cs) (gh_get gh e p)"
  unfolding gh_get_def request_def transport_request_def
  by (intro keeps_rules keeps_writes_run) (simp add: is_write_def)

lemma keeps_writes_get_or_none [keeps_rules]: "keeps (writes_in cs) (get_or_none gh e)"
  unfolding get_or_none_def by (intro keeps_rules)

lemma keeps_peel [keeps_rules]: "keeps (writes_in cs) (peel gh r n ob)"
  by (induction n arbitrary: ob) (simp add: keeps_ret, unfold peel.simps, intro keeps_rules, blast)

lemma keeps_peeled [keeps_rules]: "keeps (writes_in cs) (peeled gh f t)"
  unfolding peeled_def by (intro keeps_rules)

lemma keeps_ff_move [keeps_rules]: "keeps (writes_in (ff_allowed f)) (ff_move gh f)"
  unfolding ff_move_def ff_write_def request_def transport_request_def
  by (intro keeps_rules keeps_writes_run(1)) (simp_all add: is_write_def ff_allowed_def)

lemma keeps_ff_head [keeps_rules]: "keeps (writes_in cs) (ff_head gh f)"
  unfolding ff_head_def by (intro keeps_rules)

lemma keeps_ff_assets [keeps_rules]: "keeps (writes_in (ff_allowed f)) (ff_assets gh f)"
  unfolding ff_assets_def cli_def
  by (intro keeps_rules keeps_writes_run(1)) (simp_all add: is_write_def ff_allowed_def)

text \<open>
  The release branch is never forced: whatever GitHub answers, the only calls of
  \<^verbatim>\<open>FastForward.run\<close> that are not reads are the move of the branch to the release commit with
  \<^verbatim>\<open>force\<close> false, its creation there, and the dispatch of \<^verbatim>\<open>assets.yml\<close>; and a tag outside the
  version scheme makes no call at all.
\<close>

theorem fast_forward_never_forces:
  "set (filter is_write (calls (snd (ff_run gh f \<lparr>world = w, calls = []\<rparr>))))
     \<subseteq> (if scheme_ok f then set (ff_allowed f) else {})"
proof (cases "scheme_ok f")
  case False
  then show ?thesis by (simp add: ff_run_def run)
next
  case True
  have "keeps (writes_in (ff_allowed f)) (ff_run gh f)"
    unfolding ff_run_def by (intro keeps_rules)
  moreover have "writes_in (ff_allowed f) \<lparr>world = w, calls = []\<rparr>" by (simp add: writes_in_def)
  ultimately have "writes_in (ff_allowed f) (snd (ff_run gh f \<lparr>world = w, calls = []\<rparr>))"
    by (simp add: keeps_def)
  with True show ?thesis by (auto simp: writes_in_def)
qed

section \<open>ci/branches.py\<close>

definition DEPENDABOT_LOGINS :: "string list" where
  "DEPENDABOT_LOGINS = [''app/dependabot'', ''dependabot[bot]'']"

definition BOT_BRANCHES :: string where "BOT_BRANCHES = ''standards/''"

definition RELEASE_PREFIX :: string where "RELEASE_PREFIX = ''release-please--''"

definition RELEASE_LABELS :: "string list" where
  "RELEASE_LABELS = [''autorelease: pending'', ''autorelease: tagged'']"

text \<open>\<^verbatim>\<open>any(...)\<close> over the labels: the first that counts ends the search.\<close>

fun any_label :: "json list \<Rightarrow> exn + bool" where
  "any_label [] = Inr False"
| "any_label (l # ls) =
     bindE (dget l ''name'' JNull) (\<lambda>n.
     bindE (in_strs (jor n (JStr [])) RELEASE_LABELS) (\<lambda>b.
       if b then Inr True else any_label ls))"

definition is_bot_pr :: "json \<Rightarrow> exn + bool" where
  "is_bot_pr pr =
     bindE (dget pr ''author'' JNull) (\<lambda>a. let author = jor a (JObj []) in
     bindE (dget author ''login'' (JStr [])) (\<lambda>login.
     bindE (dget pr ''headRefName'' JNull) (\<lambda>h. let head = jor h (JStr []) in
     bindE (dget pr ''isCrossRepository'' JNull) (\<lambda>cross.
       if truthy cross then Inr False
       else bindE (as_str AttributeError head) (\<lambda>hd'.
         if startswith hd' RELEASE_PREFIX then Inr False
         else bindE (dget pr ''labels'' JNull) (\<lambda>ls. bindE (iter (jor ls (JArr []))) (\<lambda>labels.
           bindE (any_label labels) (\<lambda>released.
             if released then Inr False
             else bindE (in_strs login DEPENDABOT_LOGINS) (\<lambda>dep.
               if dep then Inr True
               else bindE (dget author ''is_bot'' JNull) (\<lambda>ib.
                 bindE (if truthy ib then Inr True
                        else bindE (in_strs login BOTS) (\<lambda>b. if b then Inr True
                          else bindE (as_str AttributeError login) (\<lambda>l.
                            Inr (startswith l ''app/'' \<or> endswith l ''[bot]'')))) (\<lambda>bot.
                   Inr (bot \<and> startswith hd' BOT_BRANCHES)))))))))))) "

definition behind_by :: "'w gh \<Rightarrow> string \<Rightarrow> string \<Rightarrow> string \<Rightarrow> ('w ghst, int) prog" where
  "behind_by gh repo integration sha =
     bindP (gh_get gh (''repos/'' @ repo @ ''/compare/'' @ integration @ ''...'' @ sha) False) (\<lambda>d.
       bindP (liftE (dget (jor d (JObj [])) ''behind_by'' JNull)) (\<lambda>b.
         liftE (py_int (jor b (JInt 0)))))"

record updater =
  u_repo :: string
  u_integration :: string
  u_dispatch_ci :: bool
  u_contexts :: "(string \<times> string) list"
  u_limit :: nat

text \<open>\<^verbatim>\<open>open_prs\<close>: the open pull requests into the integration branch, by number.\<close>

definition pr_number :: "json \<Rightarrow> exn + int" where
  "pr_number pr = bindE (dget pr ''number'' (JInt 0))
     (\<lambda>n. case n of JInt i \<Rightarrow> Inr i | _ \<Rightarrow> Inl TypeError)"

definition pr_number_item :: "json \<Rightarrow> exn + int" where
  "pr_number_item pr = bindE (ditem pr ''number'')
     (\<lambda>n. case n of JInt i \<Rightarrow> Inr i | _ \<Rightarrow> Inl TypeError)"

definition open_prs :: "'w gh \<Rightarrow> updater \<Rightarrow> ('w ghst, json list) prog" where
  "open_prs gh u =
     bindP (cli gh [''pr'', ''list'', ''--repo'', u_repo u, ''--base'', u_integration u, ''--state'', ''open'',
                    ''--limit'', ''200'', ''--json'',
                    ''number,author,headRefName,headRefOid,isCrossRepository,labels'']) (\<lambda>res.
       if code res \<noteq> 0 then raise (GitHubError None)
       else (case loads (if stdout res \<noteq> [] then stdout res else ''[]'') of
               None \<Rightarrow> raise (ValueError ''JSONDecodeError'')
             | Some v \<Rightarrow> bindP (liftE (iter v)) (\<lambda>prs.
                 bindP (liftE (mapE pr_number prs)) (\<lambda>ns.
                   ret (map snd (sort_key fst (zip ns prs)))))))"

fun wait_new_head ::
  "'w gh \<Rightarrow> updater \<Rightarrow> string \<Rightarrow> json \<Rightarrow> nat \<Rightarrow> ('w ghst, unit) prog" where
  "wait_new_head gh u num pr 0 = ret ()"
| "wait_new_head gh u num pr (Suc tries) =
     bindP (gh_get gh (''repos/'' @ u_repo u @ ''/pulls/'' @ num) False) (\<lambda>v.
     bindP (liftE (dget (jor v (JObj [])) ''head'' JNull)) (\<lambda>h.
     bindP (liftE (dget (jor h (JObj [])) ''sha'' (JStr []))) (\<lambda>head.
     bindP (liftE (ditem pr ''headRefOid'')) (\<lambda>old.
       if truthy head \<and> \<not> py_eq head old then
         bindP (liftE (ditem pr ''headRefName'')) (\<lambda>r. bindP (liftE (as_str TypeError r)) (\<lambda>ref.
         bindP (liftE (as_str TypeError head)) (\<lambda>sha.
         bindP (ensure_ci gh (u_repo u) ref sha (u_contexts u)) (\<lambda>_. ret ()))))
       else wait_new_head gh u num pr tries))))"

datatype update_result = REFUSED | UPDATED

definition update_branch :: "'w gh \<Rightarrow> updater \<Rightarrow> json \<Rightarrow> ('w ghst, update_result) prog" where
  "update_branch gh u pr =
     bindP (liftE (pr_number_item pr)) (\<lambda>n. let num = show_int n in
     bindP (liftE (ditem pr ''headRefOid'')) (\<lambda>sha.
     bindP (catch
              (bindP (request gh ''PUT'' (''repos/'' @ u_repo u @ ''/pulls/'' @ num @ ''/update-branch'')
                        (Some (JObj [(''expected_head_sha'', sha)])) False) (\<lambda>_. ret True))
              (\<lambda>e. case e of GitHubError _ \<Rightarrow> ret False | _ \<Rightarrow> raise e))
       (\<lambda>ok. if \<not> ok then ret REFUSED
             else if u_dispatch_ci u then bindP (wait_new_head gh u num pr 10) (\<lambda>_. ret UPDATED)
             else ret UPDATED)))"

text \<open>\<^verbatim>\<open>run\<close>: the loop over the open pull requests; \<open>acted\<close> counts the updates tried.\<close>

fun update_loop ::
  "'w gh \<Rightarrow> updater \<Rightarrow> json list \<Rightarrow> nat \<Rightarrow> (int \<times> update_result) list
     \<Rightarrow> ('w ghst, (int \<times> update_result) list) prog" where
  "update_loop gh u [] acted done' = ret done'"
| "update_loop gh u (pr # prs) acted done' =
     bindP (liftE (is_bot_pr pr)) (\<lambda>bot.
       if \<not> bot then update_loop gh u prs acted done'
       else bindP (liftE (pr_number_item pr)) (\<lambda>n.
            bindP (liftE (ditem pr ''headRefOid'')) (\<lambda>o'. bindP (liftE (as_str TypeError o')) (\<lambda>sha.
            bindP (behind_by gh (u_repo u) (u_integration u) sha) (\<lambda>behind.
              if behind = 0 then update_loop gh u prs acted done'
              else if acted \<ge> u_limit u then ret done'
              else bindP (update_branch gh u pr) (\<lambda>r.
                     update_loop gh u prs (Suc acted) (AList.update n r done')))))))"

definition update_run :: "'w gh \<Rightarrow> updater \<Rightarrow> ('w ghst, (int \<times> update_result) list) prog" where
  "update_run gh u = bindP (open_prs gh u) (\<lambda>prs. update_loop gh u prs 0 [])"

section \<open>Which pull requests are updated\<close>

definition is_put :: "gh_call \<Rightarrow> bool" where
  "is_put c \<longleftrightarrow> take 4 (fst c) = [''gh'', ''api'', ''--method'', ''PUT'']"

text \<open>The update call of a pull request.\<close>

definition put_call :: "updater \<Rightarrow> json \<Rightarrow> gh_call" where
  "put_call u pr =
     (case (pr_number_item pr, ditem pr ''headRefOid'') of
        (Inr n, Inr sha) \<Rightarrow>
          ([''gh'', ''api'', ''--method'', ''PUT'',
            ''repos/'' @ u_repo u @ ''/pulls/'' @ show_int n @ ''/update-branch'', ''--input'', ''-''],
           Some (JObj [(''expected_head_sha'', sha)]))
      | _ \<Rightarrow> ([], None))"

abbreviation puts_logged :: "gh_call list \<Rightarrow> 'w ghst \<Rightarrow> bool" where
  "puts_logged \<equiv> logged is_put"

lemma keeps_put_get [keeps_rules]: "keeps (puts_logged ms) (gh_get gh e p)"
  unfolding gh_get_def request_def transport_request_def
  by (intro keeps_rules keeps_run_gh) (simp add: is_put_def)

lemma keeps_put_get_or_none [keeps_rules]: "keeps (puts_logged ms) (get_or_none gh e)"
  unfolding get_or_none_def by (intro keeps_rules)

lemma keeps_put_cli: "args = [] \<or> hd args \<noteq> ''api'' \<Longrightarrow> keeps (puts_logged ms) (cli gh args)"
  unfolding cli_def by (rule keeps_run_gh) (cases args; auto simp: is_put_def)

lemma keeps_put_ensure_ci [keeps_rules]: "keeps (puts_logged ms) (ensure_ci gh r ref sha cs)"
  unfolding ensure_ci_def has_check_def workflow_exists_def
  by (intro keeps_rules keeps_put_cli) simp

lemma keeps_put_wait [keeps_rules]: "keeps (puts_logged ms) (wait_new_head gh u num pr n)"
  by (induction n) (simp add: keeps_ret, unfold wait_new_head.simps, intro keeps_rules)

lemma keeps_put_behind [keeps_rules]: "keeps (puts_logged ms) (behind_by gh r i sha)"
  unfolding behind_by_def by (intro keeps_rules)

lemma keeps_put_open_prs [keeps_rules]: "keeps (puts_logged ms) (open_prs gh u)"
  unfolding open_prs_def
  by (intro keeps_rules keeps_put_cli) simp

text \<open>One update makes at most its own call, whatever its outcome.\<close>

lemma transport_put:
  "filter is_put (calls (snd (request gh ''PUT'' e (Some b) False s))) =
     filter is_put (calls s) @ [([''gh'', ''api'', ''--method'', ''PUT'', e, ''--input'', ''-''], Some b)]"
proof -
  let ?c = "([''gh'', ''api'', ''--method'', ''PUT'', e, ''--input'', ''-''], Some b)"
  have "\<exists>r. snd (request gh ''PUT'' e (Some b) False s) = snd (run_gh gh (fst ?c) (Some b) s)"
    by (simp add: request_def transport_request_def bindP_def ret_def raise_def
        split: prod.splits sum.splits if_splits option.splits)
  then show ?thesis by (simp add: calls_run_gh) (simp add: is_put_def)
qed

lemma update_branch_puts:
  assumes "update_branch gh u pr s = (r, s')"
  shows "filter is_put (calls s') = filter is_put (calls s) \<or>
    filter is_put (calls s') = filter is_put (calls s) @ [put_call u pr]"
proof (cases "pr_number_item pr")
  case (Inl e)
  with assms show ?thesis by (auto simp: update_branch_def bindP_def run)
next
  case n: (Inr n)
  show ?thesis
  proof (cases "ditem pr ''headRefOid''")
    case (Inl e)
    with assms n show ?thesis by (auto simp: update_branch_def bindP_def run)
  next
    case (Inr sha)
    let ?req = "request gh ''PUT'' (''repos/'' @ u_repo u @ ''/pulls/'' @ show_int n @ ''/update-branch'')
      (Some (JObj [(''expected_head_sha'', sha)])) False"
    let ?t = "snd (?req s)"
    have t: "puts_logged (filter is_put (calls s) @ [put_call u pr]) ?t"
      by (simp add: logged_def transport_put put_call_def n Inr)
    let ?k = "\<lambda>ok. if \<not> ok then ret REFUSED
      else if u_dispatch_ci u then bindP (wait_new_head gh u (show_int n) pr 10) (\<lambda>_. ret UPDATED)
      else ret UPDATED"
    have k: "keeps (puts_logged ms) (?k ok)" for ms ok by (intro keeps_rules)
    have ub: "bindP (catch (bindP ?req (\<lambda>_. ret True))
        (\<lambda>e. case e of GitHubError _ \<Rightarrow> ret False | _ \<Rightarrow> raise e)) ?k s = (r, s')"
      using assms by (simp only: update_branch_def n Inr Let_def bindP_liftE)
    have "(\<exists>ok. ?k ok ?t = (r, s')) \<or> s' = ?t"
      by (rule try_exit [OF ub]) (simp split: exn.split)
    then have "puts_logged (filter is_put (calls s) @ [put_call u pr]) s'"
    proof (elim disjE exE)
      fix ok assume e: "?k ok ?t = (r, s')"
      show ?thesis by (rule keepsD [where I = "puts_logged (filter is_put (calls s) @ [put_call u pr])", OF k e t])
    next
      assume "s' = ?t"
      with t show ?thesis by (simp only:)
    qed
    then show ?thesis by (simp only: logged_def simp_thms)
  qed
qed

lemma update_loop_puts:
  "update_loop gh u prs acted d s = (r, s') \<Longrightarrow>
   \<exists>chosen. subseq chosen prs \<and> length chosen \<le> u_limit u - acted \<and>
     list_all (\<lambda>p. is_bot_pr p = Inr True) chosen \<and>
     filter is_put (calls s') = filter is_put (calls s) @ map (put_call u) chosen"
proof (induction prs arbitrary: acted d s)
  case Nil
  then show ?case by (intro exI [of _ "[]"]) (auto simp: run)
next
  case (Cons pr prs)
  have skip: ?case if "update_loop gh u prs acted d t = (r, s')"
    "filter is_put (calls t) = filter is_put (calls s)" for t
    using Cons.IH [OF that(1)] that(2) by (metis list_emb_Cons)
  have stop: ?case if "filter is_put (calls s') = filter is_put (calls s)"
    using that by (intro exI [of _ "[]"]) auto
  show ?case
  proof (cases "is_bot_pr pr = Inr True \<and> (\<exists>n sha. pr_number_item pr = Inr n \<and>
      bindE (ditem pr ''headRefOid'') (as_str TypeError) = Inr sha)")
    case False
    then have "s' = s \<or> update_loop gh u prs acted d s = (r, s')"
      using Cons.prems
      by (auto simp: bindP_def run bindE_def split: sum.splits if_splits)
    then show ?thesis using skip stop by auto
  next
    case True
    then obtain n sha where bot: "is_bot_pr pr = Inr True" and n: "pr_number_item pr = Inr n"
      and sha: "ditem pr ''headRefOid'' = Inr (JStr sha)"
      by (auto simp: bindE_eq_Inr_iff)
    obtain b t where b: "behind_by gh (u_repo u) (u_integration u) sha s = (b, t)" by fastforce
    have t: "filter is_put (calls t) = filter is_put (calls s)"
      using keepsD [OF keeps_put_behind b, of "filter is_put (calls s)"] by (simp add: logged_def)
    have rest: "(case b of Inl e \<Rightarrow> (Inl e, t) | Inr i \<Rightarrow>
        (if i = 0 then update_loop gh u prs acted d t else if u_limit u \<le> acted then (Inr d, t)
         else bindP (update_branch gh u pr) (\<lambda>x. update_loop gh u prs (Suc acted) (AList.update n x d)) t))
        = (r, s')"
      using Cons.prems bot n sha b
      by (simp add: as_str_def bindP_def [of "behind_by gh (u_repo u) (u_integration u) sha"] ret_apply
          split: sum.splits if_splits)
    show ?thesis
    proof (cases "\<exists>i. b = Inr i \<and> i \<noteq> 0 \<and> acted < u_limit u")
      case False
      with rest show ?thesis using skip [OF _ t] stop t by (auto split: sum.splits if_splits)
    next
      case True
      with rest have "bindP (update_branch gh u pr)
          (\<lambda>x. update_loop gh u prs (Suc acted) (AList.update n x d)) t = (r, s')" by auto
      then consider e where "update_branch gh u pr t = (Inl e, s')"
        | x v where "update_branch gh u pr t = (Inr x, v)"
          "update_loop gh u prs (Suc acted) (AList.update n x d) v = (r, s')"
        by (auto simp: bindP_def split: prod.splits sum.splits)
      then show ?thesis
      proof cases
        case 1
        from update_branch_puts [OF this] show ?thesis
        proof
          assume "filter is_put (calls s') = filter is_put (calls t) @ [put_call u pr]"
          with t bot True show ?thesis by (intro exI [of _ "[pr]"]) auto
        qed (use stop t in simp)
      next
        case 2
        from Cons.IH [OF 2(2)] obtain ch where ch: "subseq ch prs" "length ch \<le> u_limit u - Suc acted"
          "list_all (\<lambda>p. is_bot_pr p = Inr True) ch"
          "filter is_put (calls s') = filter is_put (calls v) @ map (put_call u) ch" by blast
        from update_branch_puts [OF 2(1)] show ?thesis
        proof
          assume "filter is_put (calls v) = filter is_put (calls t)"
          with ch t show ?thesis by (intro exI [of _ ch]) auto
        next
          assume "filter is_put (calls v) = filter is_put (calls t) @ [put_call u pr]"
          with ch t bot True show ?thesis by (intro exI [of _ "pr # ch"]) auto
        qed
      qed
    qed
  qed
qed

text \<open>
  A run of the updater touches only bot maintenance pull requests, in the order of the
  list and at most \<open>limit\<close> of them, however the calls end: its \<^verbatim>\<open>update-branch\<close> calls are
  exactly those of a selection of the listed pull requests, each with the head commit the list
  gave as \<^verbatim>\<open>expected_head_sha\<close>.
\<close>

theorem update_run_only_bot_prs:
  "\<exists>prs chosen. (fst (open_prs gh u s) = Inr prs \<or> prs = []) \<and>
     subseq chosen prs \<and> length chosen \<le> u_limit u \<and>
     filter (\<lambda>p. is_bot_pr p = Inr True) chosen = chosen \<and>
     filter is_put (calls (snd (update_run gh u s))) =
       filter is_put (calls s) @ map (put_call u) chosen"
proof -
  obtain r t where o: "open_prs gh u s = (r, t)" by fastforce
  have t: "filter is_put (calls t) = filter is_put (calls s)"
    using keepsD [OF keeps_put_open_prs o, of "filter is_put (calls s)"] by (simp add: logged_def)
  show ?thesis
  proof (cases r)
    case (Inl e)
    with o t show ?thesis
      by (intro exI [of _ "[]"] conjI) (auto simp: update_run_def bindP_def)
  next
    case (Inr prs)
    obtain q s' where l: "update_loop gh u prs 0 [] t = (q, s')" by fastforce
    from update_loop_puts [OF l] obtain ch where ch: "subseq ch prs" "length ch \<le> u_limit u"
      "list_all (\<lambda>p. is_bot_pr p = Inr True) ch"
      "filter is_put (calls s') = filter is_put (calls t) @ map (put_call u) ch" by auto
    with o t Inr l show ?thesis
      by (intro exI [of _ prs] exI [of _ ch] conjI)
        (auto simp: update_run_def bindP_def list_all_iff filter_id_conv)
  qed
qed

section \<open>ci/relock.py\<close>

definition lock_doc :: "string \<Rightarrow> exn + json" where
  "lock_doc text =
     (case loads text of
        None \<Rightarrow> Inl (ConfigError ''not JSON'')
      | Some doc \<Rightarrow>
          (case doc of
             JObj kvs \<Rightarrow> if ''nodes'' \<in> set (map fst kvs) then Inr doc
                         else Inl (ConfigError ''not a flake.lock'')
           | _ \<Rightarrow> Inl (ConfigError ''not a flake.lock'')))"

text \<open>\<^verbatim>\<open>input_node\<close>: the locked table of a root input; a \<^verbatim>\<open>follows\<close> is a marked list.\<close>

definition relock_input :: "json \<Rightarrow> string \<Rightarrow> exn + json" where
  "relock_input doc name =
     bindE (dget doc ''nodes'' (JObj [])) (\<lambda>nodes.
     bindE (dget doc ''root'' (JStr ''root'')) (\<lambda>r. bindE (as_str TypeError r) (\<lambda>root.
     bindE (dget nodes root (JObj [])) (\<lambda>rn.
     bindE (dget rn ''inputs'' (JObj [])) (\<lambda>ins.
     bindE (dget ins name JNull) (\<lambda>ref.
       case ref of
         JNull \<Rightarrow> Inr JNull
       | JArr xs \<Rightarrow> Inr (JArr (JStr ''follows'' # xs))
       | _ \<Rightarrow> bindE (as_str TypeError ref) (\<lambda>n.
                bindE (dget nodes n (JObj [])) (\<lambda>nd. dget nd ''locked'' JNull))))))))"

definition moved_inputs :: "string \<Rightarrow> string \<Rightarrow> exn + string list" where
  "moved_inputs base_lock head_lock =
     bindE (if strip base_lock \<noteq> [] then lock_doc base_lock else Inr (JObj [(''nodes'', JObj [])])) (\<lambda>base.
     bindE (lock_doc head_lock) (\<lambda>head.
     bindE (mapE (\<lambda>n. bindE (relock_input base n) (\<lambda>a. bindE (relock_input head n) (\<lambda>b.
                        Inr (n, py_eq a b)))) ROLLOUT_INPUTS) (\<lambda>rs.
       Inr (map fst (filter (\<lambda>(_, same). \<not> same) rs)))))"

text \<open>\<^verbatim>\<open>WORKFLOW.search\<close>: \<^verbatim>\<open>.github/workflows/\<close> at the start or after a slash.\<close>

definition is_workflow_path :: "string \<Rightarrow> bool" where
  "is_workflow_path p \<longleftrightarrow>
     startswith p ''.github/workflows/'' \<or> contains_sub ''/.github/workflows/'' p"

definition workflow_paths :: "string list \<Rightarrow> string list" where
  "workflow_paths paths = filter is_workflow_path paths"

end
