(* ===== verification/PortLease.thy ===== *)
theory PortLease
  imports Prelude
begin

text \<open>
  \<^verbatim>\<open>lib/port-lease.py\<close>: a development bench leases its TCP ports for as long as it runs.

  First the claims on ports: the two backends of the code (a listening socket in the abstract
  namespace; a lock on a file) and the laws they share, stated as the locale \<open>port_claims\<close>
  and proved of both.  Then the walk of \<^verbatim>\<open>hold\<close> over the wanted ports, written over the
  operations of a backend, with its properties proved in the locale.  What the kernel says of
  a TCP address is a parameter.
\<close>

section \<open>Identities, wants, reasons\<close>

record ident =
  bench_id :: string
  bench_name :: string
  bench_root :: string
  pid :: nat

record want =
  w_key :: string
  w_label :: string
  w_host :: string
  w_port :: nat

definition SPAN :: nat where "SPAN = 100"

definition NOT_UP :: nat where "NOT_UP = 3"

text \<open>\<^verbatim>\<open>parse_want\<close>: \<^verbatim>\<open>KEY[/LABEL]=HOST:PORT\<close>; none is the \<^verbatim>\<open>ArgumentTypeError\<close>.\<close>

definition parse_want :: "string \<Rightarrow> want option" where
  "parse_want text =
     (let (name, sep, addr) = partition1 (CHR ''='') text;
          (host, colon, port) = rpartition1 (CHR '':'') addr
      in if \<not> (sep \<and> colon \<and> host \<noteq> [] \<and> port \<noteq> [] \<and> list_all is_digit port \<and> name \<noteq> []) then None
         else (let (key, _, label) = partition1 (CHR ''/'') name
               in Some \<lparr>w_key = key, w_label = (if label \<noteq> [] then label else key),
                        w_host = host, w_port = int_of_digits port\<rparr>))"

text \<open>Why a port is not taken, as \<^verbatim>\<open>describe\<close> says it.\<close>

datatype reason = HeldBy ident | OutsideProcess | FreeNow

section \<open>The claims on ports\<close>

text \<open>The operations of a backend on its state: a claim by an identity, its release, and who
  answers for a port.\<close>

record 's port_ops =
  op_claim :: "ident \<Rightarrow> nat \<Rightarrow> 's \<Rightarrow> bool \<times> 's"
  op_release :: "nat \<Rightarrow> 's \<Rightarrow> 's"
  op_holder :: "nat \<Rightarrow> 's \<Rightarrow> ident option"

locale port_claims =
  fixes ops :: "'s port_ops"
    and held :: "'s \<Rightarrow> nat \<Rightarrow> ident option"
    and inv :: "'s \<Rightarrow> bool"
  assumes claim_iff: "inv s \<Longrightarrow> fst (op_claim ops i p s) \<longleftrightarrow> held s p = None"
    and claim_held: "inv s \<Longrightarrow>
      held (snd (op_claim ops i p s)) = (if held s p = None then (held s)(p \<mapsto> i) else held s)"
    and claim_inv: "inv s \<Longrightarrow> inv (snd (op_claim ops i p s))"
    and release_held: "inv s \<Longrightarrow> held (op_release ops p s) = (held s)(p := None)"
    and release_inv: "inv s \<Longrightarrow> inv (op_release ops p s)"
    and holder_held: "inv s \<Longrightarrow> op_holder ops p s = Some i \<Longrightarrow> held s p = Some i"
begin

lemma claim_release:
  "inv s \<Longrightarrow> op_claim ops i p s = (True, s') \<Longrightarrow> held (op_release ops p s') = held s"
  using claim_iff [of s i p] claim_held [of s i p] claim_inv [of s i p]
  by (auto simp: release_held)

end

subsection \<open>Abstract sockets (Linux)\<close>

text \<open>
  The sockets bound in the abstract namespace, by name: the identity of the process and
  whether it accepts connections yet (\<^verbatim>\<open>serve\<close> does; during the walk a connection waits in
  the queue until the reader's two seconds are up, and \<^verbatim>\<open>holder\<close> answers nothing).
\<close>

type_synonym sockets = "string \<rightharpoonup> ident \<times> bool"

definition claim_name :: "nat \<Rightarrow> string" where
  "claim_name port = CHR 0x00 # ''frappe-nix/port/'' @ show_nat port"

definition abstract_claim :: "ident \<Rightarrow> nat \<Rightarrow> sockets \<Rightarrow> bool \<times> sockets" where
  "abstract_claim i port s =
     (case s (claim_name port) of
        Some _ \<Rightarrow> (False, s)
      | None \<Rightarrow> (True, s(claim_name port \<mapsto> (i, False))))"

definition abstract_release :: "nat \<Rightarrow> sockets \<Rightarrow> sockets" where
  "abstract_release port s = s(claim_name port := None)"

definition abstract_holder :: "nat \<Rightarrow> sockets \<Rightarrow> ident option" where
  "abstract_holder port s =
     (case s (claim_name port) of
        Some (i, True) \<Rightarrow> Some i
      | _ \<Rightarrow> None)"

definition abstract_ops :: "sockets port_ops" where
  "abstract_ops = \<lparr>op_claim = abstract_claim, op_release = abstract_release,
     op_holder = abstract_holder\<rparr>"

definition abstract_held :: "sockets \<Rightarrow> nat \<Rightarrow> ident option" where
  "abstract_held s port = map_option fst (s (claim_name port))"

lemma claim_name_inj [simp]: "claim_name p = claim_name q \<longleftrightarrow> p = q"
  by (simp add: claim_name_def)

interpretation abs: port_claims abstract_ops abstract_held "\<lambda>_. True"
proof
  fix s :: sockets and i j :: ident and p :: nat
  show "fst (op_claim abstract_ops i p s) \<longleftrightarrow> abstract_held s p = None"
    by (simp add: abstract_ops_def abstract_held_def abstract_claim_def split: option.split)
  show "abstract_held (snd (op_claim abstract_ops i p s)) =
      (if abstract_held s p = None then (abstract_held s)(p \<mapsto> i) else abstract_held s)"
    by (auto simp: abstract_ops_def abstract_held_def abstract_claim_def fun_eq_iff split: option.split)
  show "abstract_held (op_release abstract_ops p s) = (abstract_held s)(p := None)"
    by (auto simp: abstract_ops_def abstract_held_def abstract_release_def fun_eq_iff)
  show "op_holder abstract_ops p s = Some i \<Longrightarrow> abstract_held s p = Some i"
    by (auto simp: abstract_ops_def abstract_held_def abstract_holder_def split: option.splits bool.splits)
qed simp_all

subsection \<open>Locked files (elsewhere)\<close>

text \<open>
  The lock files by name: the text last written to each, and the process whose lock it is
  under.  A file stays, with its text, when the lock on it ends.
\<close>

record lock_file =
  lf_text :: "ident option"
  lf_locked :: "ident option"

type_synonym lock_dir = "string \<rightharpoonup> lock_file"

definition lock_path :: "nat \<Rightarrow> string" where
  "lock_path port = show_nat port @ ''.lock''"

definition flock_claim :: "ident \<Rightarrow> nat \<Rightarrow> lock_dir \<Rightarrow> bool \<times> lock_dir" where
  "flock_claim i port d =
     (let f = (case d (lock_path port) of Some f \<Rightarrow> f | None \<Rightarrow> \<lparr>lf_text = None, lf_locked = None\<rparr>)
      in case lf_locked f of
           Some _ \<Rightarrow> (False, d)
         | None \<Rightarrow> (True, d(lock_path port \<mapsto> \<lparr>lf_text = Some i, lf_locked = Some i\<rparr>)))"

definition flock_release :: "nat \<Rightarrow> lock_dir \<Rightarrow> lock_dir" where
  "flock_release port d =
     (case d (lock_path port) of
        None \<Rightarrow> d
      | Some f \<Rightarrow> d(lock_path port \<mapsto> f\<lparr>lf_locked := None\<rparr>))"

definition flock_holder :: "nat \<Rightarrow> lock_dir \<Rightarrow> ident option" where
  "flock_holder port d =
     (case d (lock_path port) of
        None \<Rightarrow> None
      | Some f \<Rightarrow> (case lf_locked f of None \<Rightarrow> None | Some _ \<Rightarrow> lf_text f))"

definition flock_ops :: "lock_dir port_ops" where
  "flock_ops = \<lparr>op_claim = flock_claim, op_release = flock_release, op_holder = flock_holder\<rparr>"

definition flock_held :: "lock_dir \<Rightarrow> nat \<Rightarrow> ident option" where
  "flock_held d port = (case d (lock_path port) of None \<Rightarrow> None | Some f \<Rightarrow> lf_locked f)"

text \<open>A file under a lock holds its locker's text: what every claim writes.\<close>

definition flock_inv :: "lock_dir \<Rightarrow> bool" where
  "flock_inv d \<longleftrightarrow> (\<forall>n f. d n = Some f \<longrightarrow> lf_locked f \<noteq> None \<longrightarrow> lf_text f = lf_locked f)"

lemma lock_path_inj [simp]: "lock_path p = lock_path q \<longleftrightarrow> p = q"
  by (simp add: lock_path_def)

interpretation flock: port_claims flock_ops flock_held flock_inv
proof
  fix d :: lock_dir and i j :: ident and p :: nat
  show "fst (op_claim flock_ops i p d) \<longleftrightarrow> flock_held d p = None"
    by (simp add: flock_ops_def flock_held_def flock_claim_def split: option.split)
  show "flock_held (snd (op_claim flock_ops i p d)) =
      (if flock_held d p = None then (flock_held d)(p \<mapsto> i) else flock_held d)"
    by (auto simp: flock_ops_def flock_held_def flock_claim_def fun_eq_iff split: option.split)
  show "flock_inv d \<Longrightarrow> flock_inv (snd (op_claim flock_ops i p d))"
    by (auto simp: flock_ops_def flock_inv_def flock_claim_def split: option.split)
  show "flock_held (op_release flock_ops p d) = (flock_held d)(p := None)"
    by (auto simp: flock_ops_def flock_held_def flock_release_def fun_eq_iff split: option.split)
  show "flock_inv d \<Longrightarrow> flock_inv (op_release flock_ops p d)"
    by (auto simp: flock_ops_def flock_inv_def flock_release_def split: option.split)
  show "flock_inv d \<Longrightarrow> op_holder flock_ops p d = Some i \<Longrightarrow> flock_held d p = Some i"
    by (auto simp: flock_ops_def flock_inv_def flock_held_def flock_holder_def split: option.splits)
qed

section \<open>The walk of hold\<close>

text \<open>\<^verbatim>\<open>tcp_free\<close>: the name resolution and the trial bind are the kernel's.\<close>

definition tcp_free :: "(string \<Rightarrow> nat \<Rightarrow> 'a option) \<Rightarrow> ('a \<Rightarrow> bool) \<Rightarrow> string \<Rightarrow> nat \<Rightarrow> bool" where
  "tcp_free resolve bindable host port =
     (case resolve host port of None \<Rightarrow> False | Some addr \<Rightarrow> bindable addr)"

definition describe ::
  "'s port_ops \<Rightarrow> (string \<Rightarrow> nat \<Rightarrow> bool) \<Rightarrow> nat \<Rightarrow> string \<Rightarrow> 's \<Rightarrow> reason" where
  "describe ops free port host s =
     (case op_holder ops port s of
        Some i \<Rightarrow> HeldBy i
      | None \<Rightarrow> if \<not> free host port then OutsideProcess else FreeNow)"

text \<open>
  The walk for one wanted port over the ports still to try: the port claimed, if any, the
  reason the first one tried was refused for, and the state.  A port this bench has already
  is passed over.
\<close>

definition first_reason :: "reason option \<Rightarrow> reason \<Rightarrow> reason option" where
  "first_reason fh r = (case fh of None \<Rightarrow> Some r | Some _ \<Rightarrow> fh)"

fun walk ::
  "'s port_ops \<Rightarrow> (string \<Rightarrow> nat \<Rightarrow> bool) \<Rightarrow> ident \<Rightarrow> string \<Rightarrow> nat list \<Rightarrow> nat list
     \<Rightarrow> reason option \<Rightarrow> 's \<Rightarrow> (nat option \<times> reason option) \<times> 's" where
  "walk ops free i host mine [] fh s = ((None, fh), s)"
| "walk ops free i host mine (p # ps) fh s =
     (if p \<in> set mine then walk ops free i host mine ps fh s
      else (case op_claim ops i p s of
              (True, s') \<Rightarrow>
                if free host p then ((Some p, fh), s')
                else walk ops free i host mine ps (first_reason fh OutsideProcess) (op_release ops p s')
            | (False, s') \<Rightarrow>
                walk ops free i host mine ps (first_reason fh (describe ops free p host s')) s'))"

record leases =
  claims :: "nat list"
  got :: "(string \<times> nat) list"
  moved :: "(string \<times> nat) list"
  taken :: "(want \<times> reason option) list"

definition no_leases :: leases where
  "no_leases = \<lparr>claims = [], got = [], moved = [], taken = []\<rparr>"

text \<open>The ports tried for a want: its own only when it is strict or pinned, else \<open>span\<close> from it
  on, up to 65535.\<close>

definition last_port :: "bool \<Rightarrow> string list \<Rightarrow> nat \<Rightarrow> want \<Rightarrow> nat" where
  "last_port strict pins span w =
     (if strict \<or> w_key w \<in> set pins then w_port w else min (w_port w + span - 1) 65535)"

definition candidates :: "bool \<Rightarrow> string list \<Rightarrow> nat \<Rightarrow> want \<Rightarrow> nat list" where
  "candidates strict pins span w =
     [w_port w ..< last_port strict pins span w + 1]"

definition lease_one ::
  "'s port_ops \<Rightarrow> (string \<Rightarrow> nat \<Rightarrow> bool) \<Rightarrow> ident \<Rightarrow> bool \<Rightarrow> string list \<Rightarrow> nat \<Rightarrow> want
     \<Rightarrow> leases \<times> 's \<Rightarrow> leases \<times> 's" where
  "lease_one ops free i strict pins span w = (\<lambda>(l, s).
     case walk ops free i (w_host w) (map snd (got l)) (candidates strict pins span w) None s of
       ((Some p, _), s') \<Rightarrow>
         (l\<lparr>claims := claims l @ [p], got := AList.update (w_key w) p (got l),
            moved := (if p \<noteq> w_port w then AList.update (w_key w) (w_port w) (moved l) else moved l)\<rparr>, s')
     | ((None, fh), s') \<Rightarrow> (l\<lparr>taken := taken l @ [(w, fh)]\<rparr>, s'))"

definition lease_all ::
  "'s port_ops \<Rightarrow> (string \<Rightarrow> nat \<Rightarrow> bool) \<Rightarrow> ident \<Rightarrow> bool \<Rightarrow> string list \<Rightarrow> nat \<Rightarrow> want list
     \<Rightarrow> 's \<Rightarrow> leases \<times> 's" where
  "lease_all ops free i strict pins span wants s =
     fold (lease_one ops free i strict pins span) wants (no_leases, s)"

definition release_all :: "'s port_ops \<Rightarrow> nat list \<Rightarrow> 's \<Rightarrow> 's" where
  "release_all ops ps s = fold (op_release ops) ps s"

text \<open>The walk as \<^verbatim>\<open>hold\<close> ends it: with ports taken, or in a dry run, every claim is released;
  the result says which wants were refused.\<close>

datatype hold_result = Refused "(want \<times> reason option) list" | DryRunOk | Holding leases

definition hold_ports ::
  "'s port_ops \<Rightarrow> (string \<Rightarrow> nat \<Rightarrow> bool) \<Rightarrow> ident \<Rightarrow> bool \<Rightarrow> string list \<Rightarrow> nat \<Rightarrow> bool \<Rightarrow> want list
     \<Rightarrow> 's \<Rightarrow> hold_result \<times> 's" where
  "hold_ports ops free i strict pins span dry wants s =
     (let (l, s') = lease_all ops free i strict pins span wants s
      in if taken l \<noteq> [] then (Refused (taken l), release_all ops (claims l) s')
         else if dry then (DryRunOk, release_all ops (claims l) s')
         else (Holding l, s'))"

section \<open>What the walk gives\<close>

context port_claims
begin

definition usable :: "(string \<Rightarrow> nat \<Rightarrow> bool) \<Rightarrow> string \<Rightarrow> nat list \<Rightarrow> 's \<Rightarrow> nat \<Rightarrow> bool" where
  "usable free host mine s q \<longleftrightarrow> q \<notin> set mine \<and> held s q = None \<and> free host q"

lemma usable_cong: "held s = held t \<Longrightarrow> usable free host mine s = usable free host mine t"
  by (simp add: usable_def fun_eq_iff)

lemma walk_find:
  "inv s \<Longrightarrow> walk ops free i host mine ps fh s = ((r, fh'), s') \<Longrightarrow>
   inv s' \<and> r = find (usable free host mine s) ps \<and>
   held s' = (case r of None \<Rightarrow> held s | Some p \<Rightarrow> (held s)(p \<mapsto> i))"
proof (induction ps arbitrary: fh s)
  case Nil
  then show ?case by auto
next
  case (Cons p ps)
  obtain ok t where t: "op_claim ops i p s = (ok, t)" by fastforce
  have it: "inv t" and ht: "ok \<longleftrightarrow> held s p = None"
    "held t = (if held s p = None then (held s)(p \<mapsto> i) else held s)"
    using Cons.prems(1) claim_iff [of s i p] claim_held [of s i p] claim_inv [of s i p] t by simp_all
  consider "p \<in> set mine" | "p \<notin> set mine" "ok" "free host p" | "p \<notin> set mine" "ok" "\<not> free host p"
    | "p \<notin> set mine" "\<not> ok" by blast
  then show ?case
  proof cases
    case 1
    with Cons show ?thesis by (simp add: usable_def)
  next
    case 2
    with Cons.prems t ht it show ?thesis by (auto simp: usable_def)
  next
    case 3
    let ?u = "op_release ops p t"
    have u: "inv ?u" "held ?u = held s"
      using it t 3 Cons.prems(1) claim_release release_inv by simp_all
    have "walk ops free i host mine ps (first_reason fh OutsideProcess) ?u = ((r, fh'), s')"
      using Cons.prems(2) t 3 by simp
    from Cons.IH [OF u(1) this] have "inv s' \<and> r = find (usable free host mine s) ps \<and>
        held s' = (case r of None \<Rightarrow> held s | Some p \<Rightarrow> (held s)(p \<mapsto> i))"
      by (simp only: u(2) usable_cong [OF u(2)])
    moreover have "\<not> usable free host mine s p" using 3 by (simp add: usable_def)
    ultimately show ?thesis by simp
  next
    case 4
    then have h: "held t = held s" "held s p \<noteq> None" using ht by auto
    have "walk ops free i host mine ps (first_reason fh (describe ops free p host t)) t = ((r, fh'), s')"
      using Cons.prems(2) t 4 by simp
    from Cons.IH [OF it this] have "inv s' \<and> r = find (usable free host mine s) ps \<and>
        held s' = (case r of None \<Rightarrow> held s | Some p \<Rightarrow> (held s)(p \<mapsto> i))"
      by (simp only: h(1) usable_cong [OF h(1)])
    moreover have "\<not> usable free host mine s p" using h(2) by (simp add: usable_def)
    ultimately show ?thesis by simp
  qed
qed

lemma release_all_held:
  "inv s \<Longrightarrow> inv (release_all ops ps s) \<and>
     held (release_all ops ps s) = (\<lambda>p. if p \<in> set ps then None else held s p)"
  by (induction ps arbitrary: s) (auto simp: release_all_def release_held release_inv fun_eq_iff)

text \<open>What holds of the leases while the wants are worked through: \<open>s0\<close> is the state at the start,
  \<open>ws\<close> the wants done.\<close>

definition got_right :: "(string \<Rightarrow> nat \<Rightarrow> bool) \<Rightarrow> bool \<Rightarrow> string list \<Rightarrow> nat \<Rightarrow> 's \<Rightarrow> leases \<Rightarrow> want \<Rightarrow> bool" where
  "got_right free strict pins span s l w \<longleftrightarrow>
     (\<exists>p. map_of (got l) (w_key w) = Some p \<and> p \<in> set (candidates strict pins span w) \<and>
        free (w_host w) p \<and> p \<in> set (claims l) \<and>
        (\<forall>q \<in> {w_port w ..< p}. held s q \<noteq> None \<or> \<not> free (w_host w) q))"

text \<open>Every port tried for a want is claimed by somebody, this bench included, or bound.\<close>

definition none_left :: "(string \<Rightarrow> nat \<Rightarrow> bool) \<Rightarrow> bool \<Rightarrow> string list \<Rightarrow> nat \<Rightarrow> 's \<Rightarrow> want \<Rightarrow> bool" where
  "none_left free strict pins span s w \<longleftrightarrow>
     (\<forall>q \<in> set (candidates strict pins span w). held s q \<noteq> None \<or> \<not> free (w_host w) q)"

definition lease_inv where
  "lease_inv free i strict pins span s0 ws l s \<longleftrightarrow>
     inv s \<and> distinct (claims l) \<and> (\<forall>p \<in> set (claims l). held s0 p = None) \<and>
     held s = (\<lambda>p. if p \<in> set (claims l) then Some i else held s0 p) \<and>
     map snd (got l) = claims l \<and> fst ` set (got l) \<subseteq> w_key ` set ws \<and>
     (\<forall>p \<in> set (claims l). \<exists>v \<in> set ws. (w_key v, p) \<in> set (got l) \<and>
        p \<in> set (candidates strict pins span v)) \<and>
     (\<forall>(w, r) \<in> set (taken l). w \<in> set ws \<and> w_key w \<notin> fst ` set (got l) \<and> none_left free strict pins span s w) \<and>
     (taken l = [] \<longrightarrow> (\<forall>w \<in> set ws. got_right free strict pins span s l w))"

lemma none_left_mono:
  "none_left free strict pins span s w \<Longrightarrow> (\<And>q. held s q \<noteq> None \<Longrightarrow> held s' q \<noteq> None) \<Longrightarrow>
   none_left free strict pins span s' w"
  unfolding none_left_def by blast

lemma taken_mono:
  "lease_inv free i strict pins span s0 ws l s \<Longrightarrow> (\<And>q. held s q \<noteq> None \<Longrightarrow> held s' q \<noteq> None) \<Longrightarrow>
   (v, r) \<in> set (taken l) \<Longrightarrow> v \<in> set ws \<and> w_key v \<notin> fst ` set (got l) \<and> none_left free strict pins span s' v"
  unfolding lease_inv_def using none_left_mono [of free strict pins span s v s'] by blast

lemma candidates_before:
  "q \<in> {w_port w ..< p} \<Longrightarrow> p \<in> set (candidates strict pins span w) \<Longrightarrow>
   \<exists>us vs. candidates strict pins span w = us @ p # vs \<and> q \<in> set us"
proof -
  assume q: "q \<in> {w_port w ..< p}" and p: "p \<in> set (candidates strict pins span w)"
  then obtain n where c: "candidates strict pins span w = [w_port w ..< n]" "p < n"
    by (auto simp: candidates_def simp del: upt_Suc)
  have "[w_port w ..< n] = [w_port w ..< p] @ p # [Suc p ..< n]"
    using q c(2) upt_add_eq_append [of "w_port w" p "n - p"] by (simp add: upt_conv_Cons)
  with q c(1) show ?thesis by auto
qed

lemma find_first:
  "find P xs = Some p \<Longrightarrow> xs = us @ p # vs \<Longrightarrow> distinct xs \<Longrightarrow> q \<in> set us \<Longrightarrow> \<not> P q"
  by (induction us arbitrary: xs) (auto split: if_splits)

lemma lease_one_inv:
  assumes I: "lease_inv free i strict pins span s0 ws l s"
    and new: "w_key w \<notin> w_key ` set ws"
    and step: "lease_one ops free i strict pins span w (l, s) = (l', s')"
  shows "lease_inv free i strict pins span s0 (ws @ [w]) l' s'"
proof -
  obtain r fh where wk: "walk ops free i (w_host w) (map snd (got l)) (candidates strict pins span w) None s
      = ((r, fh), s')"
    and l': "l' = (case r of Some p \<Rightarrow>
         l\<lparr>claims := claims l @ [p], got := AList.update (w_key w) p (got l),
            moved := (if p \<noteq> w_port w then AList.update (w_key w) (w_port w) (moved l) else moved l)\<rparr>
       | None \<Rightarrow> l\<lparr>taken := taken l @ [(w, fh)]\<rparr>)"
    using step by (auto simp: lease_one_def split: prod.splits option.splits)
  have i: "inv s" using I by (simp add: lease_inv_def)
  note f = walk_find [OF i wk]
  let ?c = "candidates strict pins span w"
  have mine: "held s q \<noteq> None" if q: "q \<in> set (map snd (got l))" for q
  proof -
    have "q \<in> set (claims l)" using q I by (simp only: lease_inv_def)
    then show ?thesis using I by (simp add: lease_inv_def)
  qed
  show ?thesis
  proof (cases r)
    case None
    have "find (usable free (w_host w) (map snd (got l)) s) ?c = None" using f None by simp
    then have "none_left free strict pins span s w"
      unfolding none_left_def using mine by (auto simp: find_None_iff usable_def)
    moreover have hs: "held s' = held s" using f None by simp
    moreover have "w_key w \<notin> fst ` set (got l)" using new I by (auto simp: lease_inv_def)
    ultimately have "\<forall>(v, r) \<in> set (taken l'). v \<in> set (ws @ [w]) \<and> w_key v \<notin> fst ` set (got l) \<and>
        none_left free strict pins span s' v"
      using taken_mono [OF I, of s'] none_left_mono [of free strict pins span s w s'] l' None by auto
    with f I l' None show ?thesis by (simp add: lease_inv_def) blast
  next
    case (Some p)
    have fd: "find (usable free (w_host w) (map snd (got l)) s) ?c = Some p" using f Some by simp
    then have u: "usable free (w_host w) (map snd (got l)) s p" and pc: "p \<in> set ?c"
      by (auto simp: find_Some_iff)
    have fresh: "p \<notin> set (claims l)" "held s0 p = None"
      using u I by (auto simp: usable_def lease_inv_def split: if_splits)
    have hs: "held s' = (held s)(p \<mapsto> i)" using f Some by simp
    have before: "held s' q \<noteq> None \<or> \<not> free (w_host w) q" if q: "q \<in> {w_port w ..< p}" for q
    proof -
      obtain us vs where c: "?c = us @ p # vs" "q \<in> set us" using candidates_before [OF q pc] by blast
      have "distinct ?c" by (simp only: candidates_def distinct_upt)
      then have "\<not> usable free (w_host w) (map snd (got l)) s q"
        by (rule find_first [OF fd c(1) _ c(2)])
      then show ?thesis using mine hs by (auto simp: usable_def)
    qed
    have mono: "got_right free strict pins span s l v \<Longrightarrow> v \<in> set ws \<Longrightarrow>
        got_right free strict pins span s' l' v" for v
    proof -
      assume g: "got_right free strict pins span s l v" and v: "v \<in> set ws"
      have "w_key v \<noteq> w_key w" using new v by (metis imageI)
      then have m: "map_of (got l') (w_key v) = map_of (got l) (w_key v)" using l' Some by simp
      have c: "set (claims l) \<subseteq> set (claims l')" using l' Some by auto
      have h: "held s q \<noteq> None \<Longrightarrow> held s' q \<noteq> None" for q using hs by simp
      from g m c h show ?thesis unfolding got_right_def by (metis subsetD)
    qed
    have "got_right free strict pins span s' l' w"
      unfolding got_right_def using l' Some pc before u by (auto simp: usable_def)
    then have right: "\<forall>v \<in> set (ws @ [w]). got_right free strict pins span s' l' v" if "taken l' = []"
      using mono I that l' Some by (auto simp: lease_inv_def)
    have "w_key w \<notin> fst ` set (got l)" using new I by (auto simp: lease_inv_def)
    then have cg: "claims l' = claims l @ [p]" "got l' = got l @ [(w_key w, p)]"
      using l' Some by (simp_all add: update_new)
    then have "map snd (got l') = claims l'" "fst ` set (got l') \<subseteq> w_key ` set (ws @ [w])"
      "distinct (claims l')" "\<forall>p \<in> set (claims l'). held s0 p = None"
      "held s' = (\<lambda>q. if q \<in> set (claims l') then Some i else held s0 q)"
      "\<forall>p \<in> set (claims l'). \<exists>v \<in> set (ws @ [w]). (w_key v, p) \<in> set (got l') \<and>
        p \<in> set (candidates strict pins span v)"
      using I fresh hs pc by (auto simp: lease_inv_def fun_eq_iff)
    moreover have "\<forall>(v, r) \<in> set (taken l'). v \<in> set (ws @ [w]) \<and> w_key v \<notin> fst ` set (got l') \<and>
        none_left free strict pins span s' v"
    proof clarify
      fix v r assume "(v, r) \<in> set (taken l')"
      then have "(v, r) \<in> set (taken l)" using l' Some by simp
      from taken_mono [OF I _ this, of s'] hs
      have v: "v \<in> set ws" "w_key v \<notin> fst ` set (got l)" "none_left free strict pins span s' v" by auto
      then have "w_key v \<noteq> w_key w" using new by (metis imageI)
      with v cg show "v \<in> set (ws @ [w]) \<and> w_key v \<notin> fst ` set (got l') \<and>
          none_left free strict pins span s' v" by simp
    qed
    ultimately show ?thesis using right f by (simp add: lease_inv_def)
  qed
qed

lemma lease_all_inv:
  assumes "inv s" "distinct (map w_key wants)" "lease_all ops free i strict pins span wants s = (l, s')"
  shows "lease_inv free i strict pins span s wants l s'"
proof -
  have "lease_inv free i strict pins span s0 ws l s \<Longrightarrow> distinct (map w_key (ws @ us)) \<Longrightarrow>
      fold (lease_one ops free i strict pins span) us (l, s) = (l', s') \<Longrightarrow>
      lease_inv free i strict pins span s0 (ws @ us) l' s'" for s0 ws us l s l' s'
  proof (induction us arbitrary: ws l s)
    case (Cons u us)
    obtain m t where m: "lease_one ops free i strict pins span u (l, s) = (m, t)" by fastforce
    have "w_key u \<notin> w_key ` set ws" using Cons.prems(2) by auto
    from lease_one_inv [OF Cons.prems(1) this m]
    have "lease_inv free i strict pins span s0 (ws @ [u]) m t" .
    from Cons.IH [OF this] Cons.prems(2,3) m show ?case by simp
  qed simp
  from this [of s "[]" no_leases s wants l s'] assms show ?thesis
    by (simp add: lease_inv_def no_leases_def lease_all_def)
qed

lemma hold_ports_atomic:
  assumes "inv s" "distinct (map w_key wants)"
    and "hold_ports ops free i strict pins span dry wants s = (r, s')" "\<And>l. r \<noteq> Holding l"
  shows "inv s' \<and> held s' = held s"
proof -
  obtain l t where l: "lease_all ops free i strict pins span wants s = (l, t)" by fastforce
  have I: "lease_inv free i strict pins span s wants l t"
    by (rule lease_all_inv [OF assms(1,2) l])
  have "s' = release_all ops (claims l) t"
    using assms(3,4) l by (auto simp: hold_ports_def split: if_splits)
  with release_all_held [of t "claims l"] I show ?thesis by (auto simp: lease_inv_def fun_eq_iff)
qed

lemma hold_ports_refused:
  assumes "inv s" "distinct (map w_key wants)"
    and "hold_ports ops free i strict pins span dry wants s = (Refused ts, s')"
    and "(w, why) \<in> set ts" "q \<in> set (candidates strict pins span w)" "free (w_host w) q"
  shows "held s q \<noteq> None \<or>
    (\<exists>v \<in> set wants. w_key v \<noteq> w_key w \<and> q \<in> set (candidates strict pins span v))"
proof -
  obtain l t where l: "lease_all ops free i strict pins span wants s = (l, t)" by fastforce
  have I: "lease_inv free i strict pins span s wants l t"
    by (rule lease_all_inv [OF assms(1,2) l])
  have "taken l = ts" using assms(3) l by (auto simp: hold_ports_def split: if_splits)
  then have w: "w_key w \<notin> fst ` set (got l)" "none_left free strict pins span t w"
    using I assms(4) by (auto simp: lease_inv_def)
  then have "held t q \<noteq> None" using assms(5,6) by (auto simp: none_left_def)
  then consider "held s q \<noteq> None" | "q \<in> set (claims l)" using I by (auto simp: lease_inv_def split: if_splits)
  then show ?thesis
  proof cases
    case 2
    then obtain v where v: "v \<in> set wants" "(w_key v, q) \<in> set (got l)" "q \<in> set (candidates strict pins span v)"
      using I unfolding lease_inv_def by blast
    with w(1) have "w_key v \<noteq> w_key w" by (metis fst_conv imageI)
    with v show ?thesis by blast
  qed simp
qed

lemma hold_ports_holding:
  assumes "inv s" "distinct (map w_key wants)"
    and "hold_ports ops free i strict pins span dry wants s = (Holding l, s')"
  shows "distinct (map snd (got l))"
    and "held s' = (\<lambda>p. if p \<in> set (map snd (got l)) then Some i else held s p)"
    and "\<forall>p \<in> set (map snd (got l)). held s p = None"
    and "w \<in> set wants \<Longrightarrow> \<exists>p. map_of (got l) (w_key w) = Some p \<and>
      p \<in> set (candidates strict pins span w) \<and> free (w_host w) p \<and>
      (\<forall>q \<in> {w_port w ..< p}. held s' q \<noteq> None \<or> \<not> free (w_host w) q)"
proof -
  have l: "lease_all ops free i strict pins span wants s = (l, s')" and t: "taken l = []"
    using assms(3) by (auto simp: hold_ports_def split: prod.splits if_splits)
  have I: "lease_inv free i strict pins span s wants l s'"
    by (rule lease_all_inv [OF assms(1,2) l])
  then have m: "map snd (got l) = claims l" by (simp add: lease_inv_def)
  show "distinct (map snd (got l))" "\<forall>p \<in> set (map snd (got l)). held s p = None"
    "held s' = (\<lambda>p. if p \<in> set (map snd (got l)) then Some i else held s p)"
    unfolding m using I by (simp_all add: lease_inv_def)
  show "w \<in> set wants \<Longrightarrow> \<exists>p. map_of (got l) (w_key w) = Some p \<and>
      p \<in> set (candidates strict pins span w) \<and> free (w_host w) p \<and>
      (\<forall>q \<in> {w_port w ..< p}. held s' q \<noteq> None \<or> \<not> free (w_host w) q)"
    using I t unfolding lease_inv_def got_right_def by blast
qed

end

lemma candidates_bounds:
  "p \<in> set (candidates strict pins span w) \<Longrightarrow>
     w_port w \<le> p \<and> (if strict \<or> w_key w \<in> set pins then p = w_port w
       else p < w_port w + max 1 span \<and> p \<le> 65535)"
  by (auto simp: candidates_def last_port_def split: if_splits)

section \<open>Properties\<close>

text \<open>C3. A walk that does not end in a lease leaves no claim behind: whatever backend is used, after
  a refusal or a dry run every port is held by whoever held it before (lock files keep their
  text, but no lock).\<close>

theorem hold_ports_all_or_nothing:
  assumes "distinct (map w_key wants)" "flock_inv d"
  shows "(let (r, s') = hold_ports abstract_ops free i strict pins span dry wants s
          in (\<forall>l. r \<noteq> Holding l) \<longrightarrow> abstract_held s' = abstract_held s) \<and>
    (let (r, d') = hold_ports flock_ops free i strict pins span dry wants d
     in (\<forall>l. r \<noteq> Holding l) \<longrightarrow> flock_inv d' \<and> flock_held d' = flock_held d)"
  using abs.hold_ports_atomic [OF _ assms(1)] flock.hold_ports_atomic [OF assms(2,1)]
  by (auto split: prod.split)

definition sample_ident :: "nat \<Rightarrow> ident" where
  "sample_ident n = \<lparr>bench_id = ''b'', bench_name = ''bench'', bench_root = ''/srv/b'', pid = n\<rparr>"

definition web_want :: want where
  "web_want = \<lparr>w_key = ''web'', w_label = ''nginx'', w_host = ''127.0.0.1'', w_port = 8000\<rparr>"

definition mail_want :: want where
  "mail_want = \<lparr>w_key = ''mail'', w_label = ''mailpit'', w_host = ''127.0.0.1'', w_port = 8001\<rparr>"

definition other_bench :: sockets where
  "other_bench = [claim_name 8001 \<mapsto> (sample_ident 7, True)]"

lemma sample_refused:
  "fst (hold_ports abstract_ops (\<lambda>_ _. True) (sample_ident 9) True [] 100 False [web_want, mail_want] other_bench)
     = Refused [(mail_want, Some (HeldBy (sample_ident 7)))]"
  by (simp add: hold_ports_def lease_all_def lease_one_def candidates_def last_port_def web_want_def
      mail_want_def no_leases_def other_bench_def abstract_ops_def abstract_claim_def describe_def
      first_reason_def abstract_holder_def)

theorem hold_ports_all_or_nothing_witness:
  "abstract_held (snd (hold_ports abstract_ops (\<lambda>_ _. True) (sample_ident 9) True [] 100 False
     [web_want, mail_want] other_bench)) = abstract_held other_bench"
proof -
  have "flock_inv Map.empty" "distinct (map w_key [web_want, mail_want])"
    by (simp_all add: flock_inv_def web_want_def mail_want_def)
  from hold_ports_all_or_nothing [OF this(2,1), of "\<lambda>_ _. True" "sample_ident 9" True "[]" 100 False
      other_bench] sample_refused
  show ?thesis by (auto split: prod.splits)
qed

text \<open>A lease is what the bench may use: no two wants share a port, no port was another
  bench's, the bench holds exactly these ports besides what was held, and every want has the first
  port of its range (its own port alone when it is strict or pinned) that is neither claimed nor
  bound.\<close>

theorem hold_ports_lease:
  assumes "distinct (map w_key wants)"
    and "hold_ports abstract_ops free i strict pins span dry wants s = (Holding l, s')"
  shows "distinct (map snd (got l)) \<and> (\<forall>p \<in> snd ` set (got l). abstract_held s p = None) \<and>
    abstract_held s' = (\<lambda>p. if p \<in> snd ` set (got l) then Some i else abstract_held s p) \<and>
    (\<forall>w \<in> set wants. \<exists>p. map_of (got l) (w_key w) = Some p \<and> free (w_host w) p \<and> w_port w \<le> p \<and>
       (if strict \<or> w_key w \<in> set pins then p = w_port w else p < w_port w + max 1 span \<and> p \<le> 65535) \<and>
       (\<forall>q \<in> {w_port w ..< p}. abstract_held s' q \<noteq> None \<or> \<not> free (w_host w) q))"
proof -
  note h = abs.hold_ports_holding [OF TrueI assms]
  show ?thesis
    using h(1-3) h(4) candidates_bounds [of _ strict pins span]
    unfolding set_map by (intro conjI ballI) (blast | metis)+
qed

lemma sample_lease:
  "\<exists>l s'. hold_ports abstract_ops (\<lambda>_ _. True) (sample_ident 9) False [] 100 False [web_want, mail_want] other_bench
     = (Holding l, s') \<and> got l = [(''web'', 8000), (''mail'', 8002)]"
  by (simp add: hold_ports_def lease_all_def lease_one_def candidates_def last_port_def web_want_def
      mail_want_def no_leases_def other_bench_def abstract_ops_def abstract_claim_def describe_def
      first_reason_def abstract_holder_def upt_conv_Cons del: upt_Suc)

theorem hold_ports_lease_witness:
  "\<exists>s'. abstract_held s' 8002 = Some (sample_ident 9) \<and> abstract_held s' 8001 = Some (sample_ident 7)"
proof -
  have d: "distinct (map w_key [web_want, mail_want])" by (simp add: web_want_def mail_want_def)
  obtain l s' where h: "hold_ports abstract_ops (\<lambda>_ _. True) (sample_ident 9) False [] 100 False
      [web_want, mail_want] other_bench = (Holding l, s')" "got l = [(''web'', 8000), (''mail'', 8002)]"
    using sample_lease by blast
  from hold_ports_lease [OF d h(1)] h(2) show ?thesis
    by (intro exI [of _ s']) (simp add: abstract_held_def other_bench_def)
qed

text \<open>A refusal is never for want of looking: of every port in the range of a refused want,
  one is claimed by some bench already, or bound, or in the range of another want of this bench (which
  may have got it).\<close>

theorem hold_ports_refuses_only_exhausted:
  assumes "distinct (map w_key wants)" "flock_inv d"
    and "hold_ports flock_ops free i strict pins span dry wants d = (Refused ts, d')"
    and "(w, why) \<in> set ts" "q \<in> set (candidates strict pins span w)"
  shows "flock_held d q \<noteq> None \<or> \<not> free (w_host w) q \<or>
    (\<exists>v \<in> set wants. w_key v \<noteq> w_key w \<and> q \<in> set (candidates strict pins span v))"
  using flock.hold_ports_refused [OF assms(2,1,3-5)] by blast

definition other_locked :: lock_dir where
  "other_locked = [lock_path 8001 \<mapsto> \<lparr>lf_text = Some (sample_ident 7), lf_locked = Some (sample_ident 7)\<rparr>]"

lemma sample_flock_refused:
  "\<exists>d'. hold_ports flock_ops (\<lambda>_ _. True) (sample_ident 9) True [] 100 False [web_want, mail_want] other_locked
     = (Refused [(mail_want, Some (HeldBy (sample_ident 7)))], d')"
  by (simp add: hold_ports_def lease_all_def lease_one_def candidates_def last_port_def web_want_def
      mail_want_def no_leases_def other_locked_def flock_ops_def flock_claim_def describe_def
      first_reason_def flock_holder_def)

theorem hold_ports_refuses_only_exhausted_witness:
  "flock_held other_locked 8001 \<noteq> None"
proof -
  have "flock_inv other_locked" "distinct (map w_key [web_want, mail_want])"
    by (simp_all add: flock_inv_def other_locked_def web_want_def mail_want_def)
  moreover have "8001 \<in> set (candidates True [] 100 mail_want)" "8001 \<notin> set (candidates True [] 100 web_want)"
    by (simp_all add: candidates_def last_port_def mail_want_def web_want_def)
  moreover obtain d' where "hold_ports flock_ops (\<lambda>_ _. True) (sample_ident 9) True [] 100 False
      [web_want, mail_want] other_locked = (Refused [(mail_want, Some (HeldBy (sample_ident 7)))], d')"
    using sample_flock_refused by blast
  ultimately show ?thesis
    using hold_ports_refuses_only_exhausted [of "[web_want, mail_want]" other_locked "\<lambda>_ _. True"
        "sample_ident 9" True "[]" 100 False "[(mail_want, Some (HeldBy (sample_ident 7)))]" d' mail_want
        "Some (HeldBy (sample_ident 7))" 8001]
    by auto
qed

text \<open>A want written \<^verbatim>\<open>KEY/LABEL=HOST:PORT\<close> is read back as it was: the host may hold
  any character, colons and equals signs included.\<close>

theorem parse_want_of_text:
  assumes "CHR ''='' \<notin> set (key @ label)" "CHR ''/'' \<notin> set key" "label \<noteq> []" "host \<noteq> []"
  shows "parse_want (key @ ''/'' @ label @ ''='' @ host @ '':'' @ show_nat port) =
    Some \<lparr>w_key = key, w_label = label, w_host = host, w_port = port\<rparr>"
proof -
  have "partition1 (CHR ''='') ((key @ ''/'' @ label) @ CHR ''='' # host @ '':'' @ show_nat port)
      = (key @ ''/'' @ label, True, host @ '':'' @ show_nat port)"
    using assms(1) by (intro partition1_app) simp
  moreover have "CHR '':'' \<notin> set (show_nat port)" using show_nat_digits [of port] by (auto simp: is_digit_def)
  then have "rpartition1 (CHR '':'') (host @ CHR '':'' # show_nat port) = (host, True, show_nat port)"
    by (rule rpartition1_app)
  moreover have "partition1 (CHR ''/'') (key @ CHR ''/'' # label) = (key, True, label)"
    using assms(2) by (rule partition1_app)
  ultimately show ?thesis
    using assms(3,4) show_nat_digits [of port] by (simp add: parse_want_def list_all_iff)
qed

theorem parse_want_of_text_witness:
  "parse_want (''web'' @ ''/'' @ ''nginx'' @ ''='' @ ''::1'' @ '':'' @ show_nat 8000) =
    Some \<lparr>w_key = ''web'', w_label = ''nginx'', w_host = ''::1'', w_port = 8000\<rparr>"
  using parse_want_of_text [of "''web''" "''nginx''" "''::1''" 8000] by simp

end
