(* ===== verification/PortBench.thy ===== *)
theory PortBench
  imports PortLease PyJson
begin

text \<open>
  \<^verbatim>\<open>lib/port-lease.py\<close>, the commands: what a refusal says, the \<^verbatim>\<open>ports.json\<close> a lease writes,
  \<^verbatim>\<open>show\<close> and \<^verbatim>\<open>who\<close>; and the life of the holders of a host as a step relation over the
  runtime locks, the \<^verbatim>\<open>ports.json\<close> files and the claims, with what \<^verbatim>\<open>ready\<close> and \<^verbatim>\<open>live\<close>
  tell a reader in every reachable state.
\<close>

section \<open>What a refusal says\<close>

datatype message =
    CannotStart "want list"
  | TakenBy want "reason option"
  | AnotherBench
  | WebPortIsBase int
  | PickOffset int
  | PickBench
  | NoFreePort want nat "reason option"

definition refused_wants ::
  "bool \<Rightarrow> string list \<Rightarrow> (want \<times> reason option) list \<Rightarrow> (want \<times> reason option) list" where
  "refused_wants strict pins tk = filter (\<lambda>(w, r). strict \<or> w_key w \<in> set pins) tk"

definition refusal_messages ::
  "bool \<Rightarrow> string list \<Rightarrow> nat \<Rightarrow> int option \<Rightarrow> int option \<Rightarrow> (want \<times> reason option) list \<Rightarrow> message list" where
  "refusal_messages strict pins spn offset base tk =
     (let refused = refused_wants strict pins tk;
          on_base = (base \<noteq> None \<and> list_ex (\<lambda>(w, r). w_key w \<in> set pins) refused)
      in (if refused \<noteq> [] then
            CannotStart (map fst refused) # map (\<lambda>(w, r). TakenBy w r) refused @ [AnotherBench] @
            (if on_base then [WebPortIsBase (the base)] else []) @
            (case offset of Some n \<Rightarrow> [PickOffset n] | None \<Rightarrow> if on_base then [] else [PickBench])
          else []) @
         map (\<lambda>(w, r). NoFreePort w (min (w_port w + spn - 1) 65535) r)
           (filter (\<lambda>t. t \<notin> set refused) tk))"

section \<open>ports.json\<close>

text \<open>The record, by Python's dictionary display: \<^verbatim>\<open>**identity\<close>, then the runtime, \<^verbatim>\<open>**got\<close> and
  the rest, a later key overwriting an earlier one.\<close>

definition json_ports :: "(string \<times> nat) list \<Rightarrow> json" where
  "json_ports kvs = JObj (dict_of (map (\<lambda>(k, p). (k, JInt (int p))) kvs))"

definition ports_record ::
  "ident \<Rightarrow> string \<Rightarrow> leases \<Rightarrow> want list \<Rightarrow> string list \<Rightarrow> json" where
  "ports_record i runtime l wants render =
     JObj (dict_of
       ([(''bench_id'', JStr (bench_id i)), (''name'', JStr (bench_name i)), (''root'', JStr (bench_root i)),
         (''pid'', JInt (int (pid i))), (''runtime'', JStr runtime)] @
        map (\<lambda>(k, p). (k, JInt (int p))) (got l) @
        [(''preferred'', json_ports (map (\<lambda>w. (w_key w, w_port w)) wants)),
         (''moved'', json_ports (moved l)),
         (''identity'', JBool (render \<noteq> []))]))"

text \<open>\<^verbatim>\<open>alive\<close>: whether the kernel knows the process (\<^verbatim>\<open>PermissionError\<close> counts) is the parameter.\<close>

definition alive :: "(int \<Rightarrow> bool) \<Rightarrow> json \<Rightarrow> bool" where
  "alive knows p =
     (case p of
        JInt n \<Rightarrow> n > 0 \<and> knows n
      | JBool b \<Rightarrow> b \<and> knows 1
      | _ \<Rightarrow> False)"

text \<open>The file is None when it cannot be read or is no JSON.\<close>

definition live :: "(int \<Rightarrow> bool) \<Rightarrow> json option \<Rightarrow> bool \<Rightarrow> json option" where
  "live knows file lock_held =
     (case file of
        Some (JObj d) \<Rightarrow>
          if \<not> alive knows (case map_of d ''pid'' of Some p \<Rightarrow> p | None \<Rightarrow> JNull) \<or> \<not> lock_held
          then None else Some (JObj d)
      | _ \<Rightarrow> None)"

definition ready :: "json option \<Rightarrow> bool \<Rightarrow> nat" where
  "ready file lock_held =
     (case file of
        Some (JObj d) \<Rightarrow> if lock_held then 0 else 1
      | _ \<Rightarrow> 1)"

section \<open>show\<close>

text \<open>A line of the output: a text, a JSON value printed, or the parts of a line of the list.\<close>

datatype line =
    Text string
  | Json json
  | Bench json
  | Port json json "json option"

definition split_preferred :: "string \<Rightarrow> exn + string \<times> string" where
  "split_preferred p =
     (case partition1 (CHR ''='') p of
        (k, True, v) \<Rightarrow> Inr (k, v)
      | _ \<Rightarrow> Inl (ValueError ''dictionary update sequence''))"

definition int_text :: "string \<Rightarrow> exn + int" where
  "int_text v =
     (case int_of_text v of Some n \<Rightarrow> Inr n | None \<Rightarrow> Inl (ValueError ''invalid literal for int()''))"

definition show_not_up :: "(string \<times> string) list \<Rightarrow> bool \<Rightarrow> string \<Rightarrow> exn + nat \<times> line list" where
  "show_not_up preferred as_json key =
     (if key \<noteq> [] then
        Inr (NOT_UP, case map_of preferred key of Some v \<Rightarrow> [Text v] | None \<Rightarrow> [])
      else if as_json then
        bindE (mapE (\<lambda>(k, v). bindE (int_text v) (\<lambda>n. Inr (k, JInt n))) preferred)
          (\<lambda>kvs. Inr (NOT_UP, [Json (JObj kvs)]))
      else Inr (NOT_UP, map (\<lambda>(k, v). Text (k @ '' '' @ v)) preferred))"

definition key_item :: "json \<Rightarrow> json \<Rightarrow> exn + json" where
  "key_item v k = (case k of JStr s \<Rightarrow> ditem v s | _ \<Rightarrow> Inl TypeError)"

definition show_line :: "json \<Rightarrow> json \<Rightarrow> exn + line" where
  "show_line data k =
     bindE (dget data ''moved'' (JObj [])) (\<lambda>mv.
     bindE (py_in k mv) (\<lambda>was_moved.
     bindE (if was_moved then bindE (bindE (ditem data ''moved'') (\<lambda>m. key_item m k)) (\<lambda>x. Inr (Some x))
            else Inr None) (\<lambda>note.
     bindE (key_item data k) (\<lambda>p. Inr (Port k p note)))))"

definition show_up :: "json \<Rightarrow> bool \<Rightarrow> string \<Rightarrow> exn + nat \<times> line list" where
  "show_up data as_json key =
     (if as_json then Inr (0, [Json data])
      else if key \<noteq> [] then
        bindE (py_in (JStr key) data) (\<lambda>b.
          if \<not> b then Inr (1, [])
          else bindE (ditem data key) (\<lambda>v.
            Inr (0, [case v of JStr s \<Rightarrow> Text s | _ \<Rightarrow> Json v])))
      else
        bindE (ditem data ''bench_id'') (\<lambda>b.
        bindE (dget data ''preferred'' (JObj [])) (\<lambda>pr.
        bindE (iter pr) (\<lambda>ks.
        bindE (mapE (show_line data) ks) (\<lambda>ls. Inr (0, Bench b # ls))))))"

definition show_ports ::
  "json option \<Rightarrow> string list \<Rightarrow> bool \<Rightarrow> string \<Rightarrow> exn + nat \<times> line list" where
  "show_ports data preferred as_json key =
     bindE (mapE split_preferred preferred) (\<lambda>kvs.
       case data of
         None \<Rightarrow> show_not_up (dict_of kvs) as_json key
       | Some d \<Rightarrow> show_up d as_json key)"

text \<open>\<^verbatim>\<open>who\<close>: the holder of a port, or whether something else has it.\<close>

definition who_port ::
  "'s port_ops \<Rightarrow> (string \<Rightarrow> nat \<Rightarrow> bool) \<Rightarrow> nat \<Rightarrow> string \<Rightarrow> 's \<Rightarrow> reason" where
  "who_port ops free port host s =
     (case op_holder ops port s of
        Some i \<Rightarrow> HeldBy i
      | None \<Rightarrow> if \<not> free host port then OutsideProcess else FreeNow)"

text \<open>\<^verbatim>\<open>answering\<close>'s reading of what the server sent: the body of a 200, or the status line.\<close>

fun partition_sub :: "string \<Rightarrow> string \<Rightarrow> string \<times> bool \<times> string" where
  "partition_sub sep [] = ([], sep = [], [])"
| "partition_sub sep (c # s) =
     (if startswith (c # s) sep then ([], True, drop (length sep) (c # s))
      else (case partition_sub sep s of (b, f, a) \<Rightarrow> (c # b, f, a)))"

definition answer_of :: "string \<Rightarrow> string + string" where
  "answer_of data =
     (let crlf = [CHR 0x0D, newline];
          (head, _, body) = partition_sub (crlf @ crlf) data;
          status = fst (partition_sub crlf head)
      in if contains_sub '' 200 '' status then Inr (strip body) else Inl status)"

section \<open>Lemmas on the commands\<close>

definition reserved_keys :: "string list" where
  "reserved_keys = [''preferred'', ''moved'', ''identity'']"

lemma ports_record_key:
  "k \<notin> set reserved_keys \<Longrightarrow> distinct (map fst (got l)) \<Longrightarrow> map_of (got l) k = Some p \<Longrightarrow>
   ditem (ports_record i runtime l wants render) k = Inr (JInt (int p))"
proof -
  assume k: "k \<notin> set reserved_keys" and d: "distinct (map fst (got l))" and g: "map_of (got l) k = Some p"
  let ?g = "map (\<lambda>(k, p). (k, JInt (int p))) (got l)"
  have "map fst ?g = map fst (got l)" by (auto simp: comp_def split_beta)
  then have "map_of (rev ?g) k = map_of ?g k" using d by (simp only: map_of_rev_distinct)
  also have "\<dots> = Some (JInt (int p))" using g by (simp add: map_of_map)
  finally show ?thesis
    using k by (simp add: ports_record_def ditem_def reserved_keys_def map_add_def rev_map)
qed

section \<open>The holders of a host\<close>

text \<open>
  Where a \<^verbatim>\<open>hold\<close> is: it has the runtime's lock; it has dropped a file left there and walks over
  the ports, with the claims it has; it has written \<^verbatim>\<open>ports.json\<close> and serves; its file is gone and
  its claims end with it.
\<close>

datatype phase =
    Locked (phase_runtime: string)
  | Walking (phase_runtime: string) (phase_ports: "nat list")
  | Serving (phase_runtime: string) (phase_ports: "nat list")
  | Stopping (phase_runtime: string) (phase_ports: "nat list")
  where "phase_ports (Locked r) = []"

text \<open>The host: its processes, who holds each runtime's lock, the \<^verbatim>\<open>ports.json\<close> of each runtime (the
  writer and the ports it got), and who holds the claim on each port.\<close>

record host =
  procs :: "nat \<Rightarrow> phase option"
  rlock :: "string \<Rightarrow> nat option"
  pfile :: "string \<Rightarrow> (nat \<times> nat list) option"
  pclaims :: "nat \<Rightarrow> nat option"

text \<open>A process ends, however: the kernel drops its claims and its lock; its file stays.\<close>

definition exit_proc :: "nat \<Rightarrow> host \<Rightarrow> host" where
  "exit_proc p w = w\<lparr>procs := (procs w)(p := None),
     rlock := (\<lambda>r. if rlock w r = Some p then None else rlock w r),
     pclaims := (\<lambda>q. if pclaims w q = Some p then None else pclaims w q)\<rparr>"

text \<open>The \<^verbatim>\<open>finally\<close> of \<^verbatim>\<open>serve\<close>: the file goes if it is this process's.\<close>

definition drop_own :: "nat \<Rightarrow> string \<Rightarrow> host \<Rightarrow> host" where
  "drop_own p r w = (case pfile w r of
      Some (p', cs) \<Rightarrow> if p' = p then w\<lparr>pfile := (pfile w)(r := None)\<rparr> else w
    | None \<Rightarrow> w)"

inductive step :: "host \<Rightarrow> host \<Rightarrow> bool" where
  take_lock: "procs w p = None \<Longrightarrow> rlock w r = None \<Longrightarrow>
    step w (w\<lparr>procs := (procs w)(p \<mapsto> Locked r), rlock := (rlock w)(r \<mapsto> p)\<rparr>)"
| drop_stale: "procs w p = Some (Locked r) \<Longrightarrow>
    step w (w\<lparr>procs := (procs w)(p \<mapsto> Walking r []), pfile := (pfile w)(r := None)\<rparr>)"
| take_port: "procs w p = Some (Walking r cs) \<Longrightarrow> pclaims w q = None \<Longrightarrow>
    step w (w\<lparr>procs := (procs w)(p \<mapsto> Walking r (cs @ [q])), pclaims := (pclaims w)(q \<mapsto> p)\<rparr>)"
| give_back: "procs w p = Some (Walking r cs) \<Longrightarrow> q \<in> set cs \<Longrightarrow>
    step w (w\<lparr>procs := (procs w)(p \<mapsto> Walking r (removeAll q cs)), pclaims := (pclaims w)(q := None)\<rparr>)"
| refuse: "procs w p = Some (Walking r cs) \<Longrightarrow> step w (exit_proc p w)"
| publish: "procs w p = Some (Walking r cs) \<Longrightarrow>
    step w (w\<lparr>procs := (procs w)(p \<mapsto> Serving r cs), pfile := (pfile w)(r \<mapsto> (p, cs))\<rparr>)"
| stop: "procs w p = Some (Serving r cs) \<Longrightarrow>
    step w (drop_own p r (w\<lparr>procs := (procs w)(p \<mapsto> Stopping r cs)\<rparr>))"
| finish: "procs w p = Some (Stopping r cs) \<Longrightarrow> step w (exit_proc p w)"
| kill: "procs w p = Some ph \<Longrightarrow> step w (exit_proc p w)"

definition boot :: "(string \<Rightarrow> (nat \<times> nat list) option) \<Rightarrow> host" where
  "boot files = \<lparr>procs = Map.empty, rlock = Map.empty, pfile = files, pclaims = Map.empty\<rparr>"

inductive reach :: "(string \<Rightarrow> (nat \<times> nat list) option) \<Rightarrow> host \<Rightarrow> bool" for files where
  reach_boot: "reach files (boot files)"
| reach_step: "reach files w \<Longrightarrow> step w w' \<Longrightarrow> reach files w'"

inductive_cases step_cases: "step w w'"

text \<open>The invariant: locks and claims are those of the processes, and a file beside a holder past the
  start of its walk is the one it wrote.\<close>

definition runtime_of :: "phase option \<Rightarrow> string option" where
  "runtime_of x = map_option phase_runtime x"

definition ports_of :: "phase option \<Rightarrow> nat set" where
  "ports_of x = (case x of None \<Rightarrow> {} | Some ph \<Rightarrow> set (phase_ports ph))"

fun file_ok :: "(string \<Rightarrow> (nat \<times> nat list) option) \<Rightarrow> nat \<Rightarrow> phase option \<Rightarrow> bool" where
  "file_ok files p (Some (Walking r cs)) = (files r = None)"
| "file_ok files p (Some (Serving r cs)) = (files r = Some (p, cs))"
| "file_ok files p (Some (Stopping r cs)) = (files r = None)"
| "file_ok files p _ = True"

definition locks_ok :: "host \<Rightarrow> bool" where
  "locks_ok w \<longleftrightarrow> (\<forall>r p. rlock w r = Some p \<longleftrightarrow> runtime_of (procs w p) = Some r)"

definition claims_ok :: "host \<Rightarrow> bool" where
  "claims_ok w \<longleftrightarrow> (\<forall>q p. pclaims w q = Some p \<longleftrightarrow> q \<in> ports_of (procs w p))"

definition files_ok :: "host \<Rightarrow> bool" where
  "files_ok w \<longleftrightarrow> (\<forall>p. file_ok (pfile w) p (procs w p))"

lemma runtime_of_simps [simp]: "runtime_of None = None" "runtime_of (Some ph) = Some (phase_runtime ph)"
  by (simp_all add: runtime_of_def)

lemma ports_of_simps [simp]: "ports_of None = {}" "ports_of (Some ph) = set (phase_ports ph)"
  by (simp_all add: ports_of_def)

lemma file_ok_other:
  "runtime_of x \<noteq> Some r \<Longrightarrow> file_ok (files(r := f)) p x = file_ok files p x"
  by (cases "(files, p, x)" rule: file_ok.cases) (auto simp: runtime_of_def)

lemma locks_okD: "locks_ok w \<Longrightarrow> runtime_of (procs w p) = Some r \<Longrightarrow> rlock w r = Some p"
  by (simp add: locks_ok_def)

lemma claims_okD: "claims_ok w \<Longrightarrow> q \<in> ports_of (procs w p) \<Longrightarrow> pclaims w q = Some p"
  by (simp add: claims_ok_def)

lemma files_ok_upd:
  assumes "locks_ok w" "files_ok w" "procs w p = Some a" "phase_runtime a = r"
    "file_ok ((pfile w)(r := f)) p (Some b)"
  shows "files_ok (w\<lparr>procs := (procs w)(p \<mapsto> b), pfile := (pfile w)(r := f)\<rparr>)"
proof -
  have "runtime_of (procs w p') \<noteq> Some r" if "p' \<noteq> p" for p'
  proof -
    have "rlock w r = Some p" using assms by (simp add: locks_ok_def)
    then show ?thesis using locks_okD [OF assms(1), of p' r] that by auto
  qed
  then show ?thesis using assms(2,5) by (auto simp: files_ok_def file_ok_other)
qed

lemma exit_ok:
  assumes "locks_ok w" "claims_ok w" "files_ok w"
  shows "locks_ok (exit_proc p w)" "claims_ok (exit_proc p w)" "files_ok (exit_proc p w)"
proof -
  have "runtime_of (procs w q) = Some r \<longleftrightarrow> rlock w r = Some q" for r q using assms(1) by (simp add: locks_ok_def)
  then show "locks_ok (exit_proc p w)" by (auto simp: locks_ok_def exit_proc_def)
  have "n \<in> ports_of (procs w q) \<longleftrightarrow> pclaims w n = Some q" for n q using assms(2) by (simp add: claims_ok_def)
  then show "claims_ok (exit_proc p w)" by (auto simp: claims_ok_def exit_proc_def)
  show "files_ok (exit_proc p w)"
    using assms(3) by (simp add: files_ok_def exit_proc_def)
qed

lemma locks_ok_phase:
  "locks_ok w \<Longrightarrow> procs w p = Some a \<Longrightarrow> phase_runtime b = phase_runtime a \<Longrightarrow>
   procs w' = (procs w)(p \<mapsto> b) \<Longrightarrow> rlock w' = rlock w \<Longrightarrow> locks_ok w'"
  by (simp add: locks_ok_def)

lemma claims_ok_phase:
  "claims_ok w \<Longrightarrow> procs w p = Some a \<Longrightarrow> phase_ports b = phase_ports a \<Longrightarrow>
   procs w' = (procs w)(p \<mapsto> b) \<Longrightarrow> pclaims w' = pclaims w \<Longrightarrow> claims_ok w'"
  by (simp add: claims_ok_def)

definition host_inv :: "host \<Rightarrow> bool" where
  "host_inv w \<longleftrightarrow> locks_ok w \<and> claims_ok w \<and> files_ok w"

lemma host_inv_step: "step w w' \<Longrightarrow> host_inv w \<Longrightarrow> host_inv w'"
proof (induction rule: step.induct)
  case (take_lock w p r)
  then have r: "runtime_of (procs w p') \<noteq> Some r" for p'
    using locks_okD [of w p' r] by (auto simp: host_inv_def)
  show ?case using take_lock r
    by (auto simp: host_inv_def locks_ok_def claims_ok_def files_ok_def)
next
  case (drop_stale w p r)
  then show ?case
    using files_ok_upd [of w p "Locked r" r None "Walking r []"]
      locks_ok_phase [of w p "Locked r" "Walking r []"] claims_ok_phase [of w p "Locked r" "Walking r []"]
    by (simp add: host_inv_def)
next
  case (take_port w p r cs q)
  then have "files_ok (w\<lparr>procs := (procs w)(p \<mapsto> Walking r (cs @ [q])), pclaims := (pclaims w)(q \<mapsto> p)\<rparr>)"
    by (auto simp: host_inv_def files_ok_def dest: spec [of _ p])
  moreover have "claims_ok (w\<lparr>procs := (procs w)(p \<mapsto> Walking r (cs @ [q])), pclaims := (pclaims w)(q \<mapsto> p)\<rparr>)"
    using take_port claims_okD [of w q]
    by (auto simp: host_inv_def claims_ok_def)
  ultimately show ?case
    using take_port locks_ok_phase [of w p "Walking r cs" "Walking r (cs @ [q])"] by (simp add: host_inv_def)
next
  case (give_back w p r cs q)
  then have "files_ok (w\<lparr>procs := (procs w)(p \<mapsto> Walking r (removeAll q cs)), pclaims := (pclaims w)(q := None)\<rparr>)"
    by (auto simp: host_inv_def files_ok_def dest: spec [of _ p])
  moreover have "claims_ok (w\<lparr>procs := (procs w)(p \<mapsto> Walking r (removeAll q cs)), pclaims := (pclaims w)(q := None)\<rparr>)"
  proof -
    have e: "n \<in> ports_of (procs w p') \<longleftrightarrow> pclaims w n = Some p'" for n p'
      using give_back by (simp add: host_inv_def claims_ok_def)
    have "n \<in> set cs \<longleftrightarrow> pclaims w n = Some p" for n using e [of n p] give_back by simp
    with give_back(2) e show ?thesis by (auto simp: claims_ok_def)
  qed
  ultimately show ?case
    using give_back locks_ok_phase [of w p "Walking r cs" "Walking r (removeAll q cs)"] by (simp add: host_inv_def)
next
  case (publish w p r cs)
  then show ?case
    using files_ok_upd [of w p "Walking r cs" r "Some (p, cs)" "Serving r cs"]
      locks_ok_phase [of w p "Walking r cs" "Serving r cs"] claims_ok_phase [of w p "Walking r cs" "Serving r cs"]
    by (simp add: host_inv_def)
next
  case (stop w p r cs)
  then have "pfile w r = Some (p, cs)" by (auto simp: host_inv_def files_ok_def dest: spec [of _ p])
  then show ?case
    using stop files_ok_upd [of w p "Serving r cs" r None "Stopping r cs"]
      locks_ok_phase [of w p "Serving r cs" "Stopping r cs"] claims_ok_phase [of w p "Serving r cs" "Stopping r cs"]
    by (simp add: host_inv_def drop_own_def)
qed (simp_all add: host_inv_def exit_ok)

lemma reach_inv: "reach files w \<Longrightarrow> host_inv w"
proof (induction rule: reach.induct)
  case reach_boot
  then show ?case
    by (simp add: host_inv_def boot_def locks_ok_def claims_ok_def files_ok_def)
qed (rule host_inv_step)

section \<open>Properties\<close>

text \<open>What a reader of a runtime's directory sees: the file, and whether the lock is held.\<close>

definition file_json :: "host \<Rightarrow> string \<Rightarrow> json option" where
  "file_json w r = map_option (\<lambda>(p, cs). JObj [(''pid'', JInt (int p))]) (pfile w r)"

lemma ready_iff: "ready (file_json w r) (rlock w r \<noteq> None) = 0 \<longleftrightarrow> pfile w r \<noteq> None \<and> rlock w r \<noteq> None"
  by (cases "pfile w r") (auto simp: ready_def file_json_def)

text \<open>What \<^verbatim>\<open>ready\<close> answers, whatever processes were started, stopped or killed and whatever files
  they left: the lease it reports is that of the running holder of the runtime, every port in the
  file is claimed by it, and no other ready runtime has one of them; or the holder has the lock but
  has not dropped the file of a killed one yet.\<close>

theorem ready_is_a_lease:
  assumes "reach files w" "ready (file_json w r) (rlock w r \<noteq> None) = 0"
  shows "\<exists>p cs. rlock w r = Some p \<and>
    (procs w p = Some (Locked r) \<or>
     (procs w p = Some (Serving r cs) \<and> pfile w r = Some (p, cs) \<and> (\<forall>q \<in> set cs. pclaims w q = Some p)))"
proof -
  have I: "locks_ok w" "claims_ok w" "files_ok w" using reach_inv [OF assms(1)] by (auto simp: host_inv_def)
  obtain p f where p: "rlock w r = Some p" "pfile w r = Some f" using assms(2) unfolding ready_iff by blast
  then obtain ph where ph: "procs w p = Some ph" "phase_runtime ph = r"
    using I(1) by (cases "procs w p") (auto simp: locks_ok_def)
  have "file_ok (pfile w) p (Some ph)" using I(3) ph(1) unfolding files_ok_def by metis
  then consider "ph = Locked r" | cs where "ph = Serving r cs" "pfile w r = Some (p, cs)"
    using p ph(2) by (cases ph) auto
  then show ?thesis
  proof cases
    case 2
    then have "\<forall>q \<in> set cs. pclaims w q = Some p" using I(2) ph(1) by (auto simp: claims_ok_def)
    with 2 p ph show ?thesis by blast
  qed (use p ph in blast)
qed

definition left_behind :: "string \<Rightarrow> (nat \<times> nat list) option" where
  "left_behind = [''/run/bench'' \<mapsto> (41, [8000])]"

text \<open>A bench up: its holder has the lock, has dropped what was left, and serves one port.\<close>

definition bench_up :: host where
  "bench_up = \<lparr>procs = [42 \<mapsto> Serving ''/run/bench'' [8000]], rlock = [''/run/bench'' \<mapsto> 42],
     pfile = [''/run/bench'' \<mapsto> (42, [8000])], pclaims = [8000 \<mapsto> 42]\<rparr>"

lemma just_locked:
  "reach left_behind (boot left_behind\<lparr>procs := [42 \<mapsto> Locked ''/run/bench''], rlock := [''/run/bench'' \<mapsto> 42]\<rparr>)"
  using step.take_lock [of "boot left_behind" 42 "''/run/bench''"] reach_boot [of left_behind]
    reach_step by (fastforce simp: boot_def)

lemma bench_up_reachable: "reach left_behind bench_up"
proof -
  let ?r = "''/run/bench''"
  let ?w1 = "boot left_behind\<lparr>procs := [42 \<mapsto> Locked ?r], rlock := [?r \<mapsto> 42]\<rparr>"
  let ?w2 = "?w1\<lparr>procs := [42 \<mapsto> Walking ?r []], pfile := Map.empty\<rparr>"
  let ?w3 = "?w2\<lparr>procs := [42 \<mapsto> Walking ?r [8000]], pclaims := [8000 \<mapsto> 42]\<rparr>"
  have "step ?w1 ?w2"
    using step.drop_stale [of ?w1 42 ?r] by (simp add: boot_def left_behind_def)
  moreover have "step ?w2 ?w3"
    using step.take_port [of ?w2 42 ?r "[]" 8000] by (simp add: boot_def)
  moreover have "step ?w3 bench_up"
    using step.publish [of ?w3 42 ?r "[8000]"] by (simp add: boot_def bench_up_def)
  ultimately show ?thesis using just_locked by (blast intro: reach_step)
qed

theorem ready_is_a_lease_witness:
  "ready (file_json bench_up ''/run/bench'') (rlock bench_up ''/run/bench'' \<noteq> None) = 0 \<and>
   (\<exists>p cs. rlock bench_up ''/run/bench'' = Some p \<and>
    (procs bench_up p = Some (Locked ''/run/bench'') \<or>
     (procs bench_up p = Some (Serving ''/run/bench'' cs) \<and> pfile bench_up ''/run/bench'' = Some (p, cs) \<and>
      (\<forall>q \<in> set cs. pclaims bench_up q = Some p))))"
proof -
  have "ready (file_json bench_up ''/run/bench'') (rlock bench_up ''/run/bench'' \<noteq> None) = 0"
    by (simp add: ready_def file_json_def bench_up_def)
  with ready_is_a_lease [OF bench_up_reachable this] show ?thesis by simp
qed

text \<open>The window: from the moment a holder has the lock until it drops the file a killed one
  left, \<^verbatim>\<open>ready\<close> answers 0 for ports that no process holds, although its description says such a
  file never counts.\<close>

theorem ready_on_a_stale_file:
  "\<exists>w p cs q. reach left_behind w \<and> ready (file_json w ''/run/bench'') (rlock w ''/run/bench'' \<noteq> None) = 0 \<and>
     pfile w ''/run/bench'' = Some (p, cs) \<and> procs w p = None \<and> q \<in> set cs \<and> pclaims w q = None"
proof -
  let ?w = "boot left_behind\<lparr>procs := [42 \<mapsto> Locked ''/run/bench''], rlock := [''/run/bench'' \<mapsto> 42]\<rparr>"
  have "ready (file_json ?w ''/run/bench'') (rlock ?w ''/run/bench'' \<noteq> None) = 0 \<and>
     pfile ?w ''/run/bench'' = Some (41, [8000]) \<and> procs ?w 41 = None \<and> pclaims ?w 8000 = None"
    by (simp add: ready_def file_json_def boot_def left_behind_def)
  with just_locked show ?thesis by (metis list.set_intros(1))
qed

text \<open>C4. Two benches that are up never share a port, and no port of one was published by the
  other.\<close>

theorem benches_up_disjoint:
  assumes "reach files w" "procs w p1 = Some (Serving r1 cs1)" "procs w p2 = Some (Serving r2 cs2)" "p1 \<noteq> p2"
  shows "r1 \<noteq> r2 \<and> set cs1 \<inter> set cs2 = {} \<and> pfile w r1 = Some (p1, cs1) \<and> pfile w r2 = Some (p2, cs2)"
proof -
  have I: "locks_ok w" "claims_ok w" "files_ok w" using reach_inv [OF assms(1)] by (auto simp: host_inv_def)
  have "rlock w r1 = Some p1" "rlock w r2 = Some p2" using locks_okD [OF I(1)] assms(2,3) by simp_all
  moreover have "file_ok (pfile w) p1 (Some (Serving r1 cs1))" "file_ok (pfile w) p2 (Some (Serving r2 cs2))"
    using I(3) assms(2,3) unfolding files_ok_def by metis+
  moreover have "set cs1 \<inter> set cs2 = {}"
  proof (rule ccontr)
    assume "set cs1 \<inter> set cs2 \<noteq> {}"
    then obtain q where "q \<in> set cs1" "q \<in> set cs2" by blast
    then have "pclaims w q = Some p1" "pclaims w q = Some p2" using claims_okD [OF I(2)] assms(2,3) by simp_all
    with assms(4) show False by simp
  qed
  ultimately show ?thesis using assms(4) by auto
qed

definition two_up :: host where
  "two_up = \<lparr>procs = [42 \<mapsto> Serving ''/run/bench'' [8000], 43 \<mapsto> Serving ''/run/b2'' [8001]],
     rlock = [''/run/bench'' \<mapsto> 42, ''/run/b2'' \<mapsto> 43],
     pfile = [''/run/bench'' \<mapsto> (42, [8000]), ''/run/b2'' \<mapsto> (43, [8001])], pclaims = [8000 \<mapsto> 42, 8001 \<mapsto> 43]\<rparr>"

lemma two_up_reachable: "reach left_behind two_up"
proof -
  let ?w1 = "bench_up\<lparr>procs := (procs bench_up)(43 \<mapsto> Locked ''/run/b2''), rlock := (rlock bench_up)(''/run/b2'' \<mapsto> 43)\<rparr>"
  let ?w2 = "?w1\<lparr>procs := (procs bench_up)(43 \<mapsto> Walking ''/run/b2'' []), pfile := (pfile bench_up)(''/run/b2'' := None)\<rparr>"
  let ?w3 = "?w2\<lparr>procs := (procs bench_up)(43 \<mapsto> Walking ''/run/b2'' [8001]), pclaims := (pclaims bench_up)(8001 \<mapsto> 43)\<rparr>"
  have "step bench_up ?w1"
    using step.take_lock [of bench_up 43 "''/run/b2''"] by (simp add: bench_up_def)
  moreover have "step ?w1 ?w2"
    using step.drop_stale [of ?w1 43 "''/run/b2''"] by (simp add: bench_up_def)
  moreover have "step ?w2 ?w3"
    using step.take_port [of ?w2 43 "''/run/b2''" "[]" 8001] by (simp add: bench_up_def)
  moreover have "step ?w3 two_up"
    using step.publish [of ?w3 43 "''/run/b2''" "[8001]"] by (simp add: bench_up_def two_up_def fun_upd_twist)
  ultimately show ?thesis using bench_up_reachable by (blast intro: reach_step)
qed

theorem benches_up_disjoint_witness: "set [8000 :: nat] \<inter> set [8001] = {}"
  using benches_up_disjoint [OF two_up_reachable, of 42 "''/run/bench''" "[8000]" 43 "''/run/b2''" "[8001]"]
  by (simp add: two_up_def)

text \<open>What \<^verbatim>\<open>frappe-nix-ports KEY\<close> prints for a bench that is up is the port leased for that key:
  the record the holder writes keeps every leased port, unless the key is one of the record's own
  last entries (\<^verbatim>\<open>preferred\<close>, \<^verbatim>\<open>moved\<close>, \<^verbatim>\<open>identity\<close>).\<close>

theorem show_prints_the_lease:
  assumes "k \<noteq> []" "k \<notin> {''preferred'', ''moved'', ''identity''}" "distinct (map fst (got l))"
    and "map_of (got l) k = Some p"
  shows "show_ports (Some (ports_record i runtime l wants render)) [] False k = Inr (0, [Json (JInt (int p))])"
proof -
  have d: "ditem (ports_record i runtime l wants render) k = Inr (JInt (int p))"
    using ports_record_key assms by (simp add: reserved_keys_def)
  then have "py_in (JStr k) (ports_record i runtime l wants render) = Inr True"
    by (auto simp: py_in_def ditem_def ports_record_def split: option.splits)
  with d assms(1) show ?thesis by (simp add: show_ports_def show_up_def)
qed

theorem show_prints_the_lease_witness:
  "show_ports (Some (ports_record (sample_ident 9) ''/run/b''
      \<lparr>claims = [8003], got = [(''web'', 8003)], moved = [(''web'', 8000)], taken = []\<rparr> [web_want] []))
     [] False ''web'' = Inr (0, [Json (JInt 8003)])"
  using show_prints_the_lease [of "''web''" "\<lparr>claims = [8003], got = [(''web'', 8003)],
    moved = [(''web'', 8000)], taken = []\<rparr>" 8003 "sample_ident 9" "''/run/b''" "[web_want]" "[]"] by simp

end
