(* ===== verification/Runner.thy ===== *)
theory Runner
  imports Complex_Main Prelude
begin

text \<open>
  \<^verbatim>\<open>runtime/src/frappe_runtime/runner.py\<close>: the production process, which runs the web app,
  realtime, the jobs and the scheduler together and restarts itself in place.  Modelled: the
  options, the counts of the traffic and their updates, the routing of an ASGI scope, the watch that
  restarts the process, the reload on a source change, the job threads' polling and the joint wait,
  the scheduler's retries, and the shutdown state machine of \<^verbatim>\<open>Runner.drain\<close> with every signal
  source as a step relation.  Times are rationals in seconds.  uvicorn, RQ, watchdog and Frappe are
  not modelled: a thread's end, a poll's result and a start's outcome are inputs.
\<close>

section \<open>The options\<close>

record config =
  c_host :: string
  c_port :: nat
  c_queue :: "string option"
  c_web_threads :: nat
  c_job_threads :: nat
  restart_after_requests :: nat
  restart_after_jobs :: nat
  restart_idle_seconds :: rat
  request_drain_seconds :: rat
  job_drain_seconds :: rat
  c_dev :: bool
  c_serve_assets :: bool
  c_uds :: "string option"

text \<open>A text or a list that Python tests for its truth: None and the empty one are false.\<close>

definition given :: "string option \<Rightarrow> bool" where
  "given x = (case x of None \<Rightarrow> False | Some s \<Rightarrow> s \<noteq> [])"

definition queue_names :: "config \<Rightarrow> string list option" where
  "queue_names c =
     (if given (c_queue c) then Some (map strip (split_on (CHR '','') (the (c_queue c)))) else None)"

definition has_restart_limit :: "config \<Rightarrow> bool" where
  "has_restart_limit c \<longleftrightarrow>
     restart_after_requests c \<noteq> 0 \<or> restart_after_jobs c \<noteq> 0 \<or> restart_idle_seconds c \<noteq> 0"

text \<open>The binding of the web server: a unix socket wins over host and port, and its peers are
  trusted with the forwarded headers.\<close>

datatype binding = Uds string | HostPort string nat

definition web_binding :: "config \<Rightarrow> binding" where
  "web_binding c = (if given (c_uds c) then Uds (the (c_uds c)) else HostPort (c_host c) (c_port c))"

definition forwarded_allow_ips :: "binding \<Rightarrow> string option" where
  "forwarded_allow_ips b = (case b of Uds _ \<Rightarrow> Some ''*'' | HostPort _ _ \<Rightarrow> None)"

text \<open>What \<^verbatim>\<open>load\<close> puts into the environment before it imports the app.\<close>

definition load_env :: "config \<Rightarrow> (string \<times> string) list \<Rightarrow> (string \<times> string) list" where
  "load_env c env =
     (let e1 = (if c_dev c \<or> c_serve_assets c then AList.update ''FRAPPE_SERVE_ASSETS'' ''1'' env else env)
      in if c_web_threads c \<noteq> 0 then AList.update ''FRAPPE_WEB_THREADS'' (show_nat (c_web_threads c)) e1
         else e1)"

definition sites_path :: "(string \<times> string) list \<Rightarrow> string" where
  "sites_path env = (case map_of env ''SITES_PATH'' of Some p \<Rightarrow> if p \<noteq> [] then p else ''.'' | None \<Rightarrow> ''.'')"

section \<open>The traffic\<close>

record traffic =
  n_web :: nat
  n_realtime :: nat
  n_jobs :: nat
  in_flight :: nat
  last_web :: rat

definition new_traffic :: "rat \<Rightarrow> traffic" where
  "new_traffic now = \<lparr>n_web = 0, n_realtime = 0, n_jobs = 0, in_flight = 0, last_web = now\<rparr>"

text \<open>The two ends of \<^verbatim>\<open>with busy()\<close>.\<close>

definition busy_enter :: "traffic \<Rightarrow> traffic" where
  "busy_enter t = t\<lparr>in_flight := in_flight t + 1\<rparr>"

definition busy_exit :: "traffic \<Rightarrow> traffic" where
  "busy_exit t = t\<lparr>in_flight := in_flight t - 1\<rparr>"

datatype counter = Web | Realtime | Jobs

definition count :: "counter \<Rightarrow> traffic \<Rightarrow> traffic" where
  "count n t = (case n of
      Web \<Rightarrow> t\<lparr>n_web := n_web t + 1\<rparr>
    | Realtime \<Rightarrow> t\<lparr>n_realtime := n_realtime t + 1\<rparr>
    | Jobs \<Rightarrow> t\<lparr>n_jobs := n_jobs t + 1\<rparr>)"

definition count_web :: "rat \<Rightarrow> nat \<Rightarrow> traffic \<Rightarrow> traffic" where
  "count_web now status t =
     (let t1 = t\<lparr>last_web := now\<rparr>
      in if 200 \<le> status \<and> status < 300 then t1\<lparr>n_web := n_web t1 + 1\<rparr> else t1)"

definition idle_seconds :: "rat \<Rightarrow> traffic \<Rightarrow> rat" where
  "idle_seconds now t = now - last_web t"

definition any_count :: "traffic \<Rightarrow> bool" where
  "any_count t \<longleftrightarrow> n_web t \<noteq> 0 \<or> n_realtime t \<noteq> 0 \<or> n_jobs t \<noteq> 0"

section \<open>Requests\<close>

text \<open>\<^verbatim>\<open>StatusRecorder\<close>: the status of the last \<^verbatim>\<open>http.response.start\<close> sent.\<close>

datatype asgi_message = ResponseStart nat | OtherMessage

definition record_status :: "nat \<Rightarrow> asgi_message \<Rightarrow> nat" where
  "record_status old m = (case m of ResponseStart n \<Rightarrow> n | OtherMessage \<Rightarrow> old)"

text \<open>\<^verbatim>\<open>TrafficMiddleware.__call__\<close>: how a scope is served.\<close>

datatype scope = Lifespan | Websocket | Http string
datatype served = ServeLifespan | ServeRealtime | ServeHealth | ServeWeb

definition SOCKETIO_PATH :: string where "SOCKETIO_PATH = ''/socket.io''"
definition HEALTH_CHECK_PATHS :: "string list" where "HEALTH_CHECK_PATHS = [''/api/method/ping'']"

definition serve :: "scope \<Rightarrow> served" where
  "serve s = (case s of
      Lifespan \<Rightarrow> ServeLifespan
    | Websocket \<Rightarrow> ServeRealtime
    | Http path \<Rightarrow>
        if startswith path SOCKETIO_PATH then ServeRealtime
        else if path \<in> set HEALTH_CHECK_PATHS then ServeHealth
        else ServeWeb)"

text \<open>
  The events of the process as they reach the counts.  \<open>ReqBegin\<close> and \<open>ReqEnd\<close> are the two ends of a
  scope's call, \<open>ReqSend\<close> a message sent through the recorder; a job's end says whether it raised
  (\<^verbatim>\<open>execute_job\<close> counts only a call that returned).
\<close>

datatype event =
    ReqBegin nat scope
  | ReqSend nat asgi_message
  | ReqEnd nat
  | JobBegin nat
  | JobEnd nat bool

record process =
  p_traffic :: traffic
  p_open :: "(nat \<times> nat) list"
  p_jobs :: "nat list"

text \<open>The requests whose recorder is open, with the status so far, and the jobs in progress.  A scope
  that is not served as a web request opens none.\<close>

definition on_event :: "rat \<Rightarrow> event \<Rightarrow> process \<Rightarrow> process" where
  "on_event now e s = (case e of
      ReqBegin i sc \<Rightarrow> (case serve sc of
          ServeWeb \<Rightarrow> s\<lparr>p_traffic := busy_enter (p_traffic s), p_open := (i, 0) # p_open s\<rparr>
        | ServeRealtime \<Rightarrow> s\<lparr>p_traffic := count Realtime (p_traffic s)\<rparr>
        | _ \<Rightarrow> s)
    | ReqSend i m \<Rightarrow> (case map_of (p_open s) i of
          Some st \<Rightarrow> s\<lparr>p_open := AList.update i (record_status st m) (p_open s)\<rparr>
        | None \<Rightarrow> s)
    | ReqEnd i \<Rightarrow> (case map_of (p_open s) i of
          Some st \<Rightarrow> s\<lparr>p_traffic := busy_exit (count_web now st (p_traffic s)),
                       p_open := AList.delete i (p_open s)\<rparr>
        | None \<Rightarrow> s)
    | JobBegin j \<Rightarrow> s\<lparr>p_traffic := busy_enter (p_traffic s), p_jobs := j # p_jobs s\<rparr>
    | JobEnd j ok \<Rightarrow>
        if j \<in> set (p_jobs s) then
          s\<lparr>p_traffic := (let t = busy_exit (p_traffic s) in if ok then count Jobs t else t),
            p_jobs := remove1 j (p_jobs s)\<rparr>
        else s)"

fun run_events :: "(rat \<times> event) list \<Rightarrow> process \<Rightarrow> process" where
  "run_events [] s = s"
| "run_events ((now, e) # es) s = run_events es (on_event now e s)"

definition new_process :: "rat \<Rightarrow> process" where
  "new_process now = \<lparr>p_traffic = new_traffic now, p_open = [], p_jobs = []\<rparr>"

section \<open>The restart watch\<close>

definition is_limit_reached :: "config \<Rightarrow> traffic \<Rightarrow> bool" where
  "is_limit_reached c t \<longleftrightarrow>
     (restart_after_requests c \<noteq> 0 \<and> n_web t \<ge> restart_after_requests c) \<or>
     (restart_after_jobs c \<noteq> 0 \<and> n_jobs t \<ge> restart_after_jobs c)"

definition is_idle :: "config \<Rightarrow> rat \<Rightarrow> traffic \<Rightarrow> bool" where
  "is_idle c now t \<longleftrightarrow>
     restart_idle_seconds c \<noteq> 0 \<and> any_count t \<and> idle_seconds now t \<ge> restart_idle_seconds c"

text \<open>The rounds of \<^verbatim>\<open>_watch\<close>: what each finds (whether the process drains, the traffic, the time); it
  ends with a SIGHUP (the round's number) or without one.\<close>

fun watch :: "config \<Rightarrow> (bool \<times> traffic \<times> rat) list \<Rightarrow> nat option" where
  "watch c [] = None"
| "watch c ((draining, t, now) # rounds) =
     (if draining then None
      else if in_flight t \<noteq> 0 then map_option Suc (watch c rounds)
      else if is_limit_reached c t \<or> is_idle c now t then Some 0
      else map_option Suc (watch c rounds))"

section \<open>Jobs\<close>

text \<open>\<^verbatim>\<open>dequeue_job_and_maintain_ttl\<close>: short polls, the stop flag looked at before each.\<close>

datatype 'j dequeued = GotJob 'j | StopRequested | StillPolling

fun dequeue :: "(bool \<times> 'j option) list \<Rightarrow> 'j dequeued" where
  "dequeue [] = StillPolling"
| "dequeue ((stop, polled) # rest) =
     (if stop then StopRequested
      else case polled of Some j \<Rightarrow> GotJob j | None \<Rightarrow> dequeue rest)"

text \<open>\<^verbatim>\<open>JobThread.wait\<close>: a thread by the time it ends (None: never).  The time after, and whether the
  runner goes on without it.\<close>

definition alive_at :: "rat \<Rightarrow> rat option \<Rightarrow> bool" where
  "alive_at now e = (case e of None \<Rightarrow> True | Some x \<Rightarrow> now < x)"

definition join_until :: "rat \<Rightarrow> rat \<Rightarrow> rat option \<Rightarrow> rat" where
  "join_until now timeout e = (case e of None \<Rightarrow> now + timeout | Some x \<Rightarrow> min (max now x) (now + timeout))"

definition job_wait :: "rat \<Rightarrow> rat \<Rightarrow> rat option \<Rightarrow> rat \<times> bool" where
  "job_wait timeout now e =
     (if \<not> alive_at now e then (now, False)
      else let now' = join_until now timeout e in (now', alive_at now' e))"

fun jobs_wait :: "rat \<Rightarrow> rat \<Rightarrow> rat option list \<Rightarrow> rat \<times> bool list" where
  "jobs_wait deadline now [] = (now, [])"
| "jobs_wait deadline now (e # es) =
     (let (now', left) = job_wait (max 0 (deadline - now)) now e;
          (fin, ls) = jobs_wait deadline now' es
      in (fin, left # ls))"

definition background_wait :: "rat \<Rightarrow> rat \<Rightarrow> rat option list \<Rightarrow> rat \<times> bool list" where
  "background_wait timeout now es = jobs_wait (now + timeout) now es"

section \<open>The scheduler\<close>

text \<open>A try of \<^verbatim>\<open>start_scheduler\<close> returns (the lock is busy) or raises; each is logged once.\<close>

datatype sched_try = Returned | Raised
datatype sched_log = LogBusy | LogFailed

record scheduler =
  lock_busy :: bool
  start_failed :: bool

definition sched_step :: "sched_try \<Rightarrow> scheduler \<Rightarrow> sched_log list \<times> scheduler" where
  "sched_step r s = (case r of
      Raised \<Rightarrow> if start_failed s then ([], s) else ([LogFailed], s\<lparr>start_failed := True\<rparr>)
    | Returned \<Rightarrow> if lock_busy s then ([], s) else ([LogBusy], s\<lparr>lock_busy := True\<rparr>))"

fun sched_run :: "sched_try list \<Rightarrow> scheduler \<Rightarrow> sched_log list \<times> scheduler" where
  "sched_run [] s = ([], s)"
| "sched_run (r # rs) s =
     (let (l, s') = sched_step r s; (ls, s'') = sched_run rs s' in (l @ ls, s''))"

section \<open>The reload on a source change\<close>

record fs_event =
  src_path :: string
  dest_path :: string
  is_directory :: bool
  event_type :: string

definition CHANGES :: "string list" where
  "CHANGES = [''created'', ''modified'', ''moved'', ''deleted'']"

definition event_path :: "fs_event \<Rightarrow> string" where
  "event_path e = (if dest_path e \<noteq> [] then dest_path e else src_path e)"

definition is_source_change :: "fs_event \<Rightarrow> bool" where
  "is_source_change e \<longleftrightarrow>
     \<not> (is_directory e \<or> event_type e \<notin> set CHANGES \<or> \<not> endswith (event_path e) ''.py'')"

text \<open>\<^verbatim>\<open>dispatch\<close>: the new \<^verbatim>\<open>fired\<close> flag and whether the reload's timer starts.\<close>

definition dispatch_source :: "fs_event \<Rightarrow> bool \<Rightarrow> bool \<Rightarrow> bool \<times> bool" where
  "dispatch_source e draining fired =
     (if \<not> is_source_change e then (fired, False)
      else if draining \<or> fired then (fired, False)
      else (True, True))"

section \<open>Shutdown and restart\<close>

datatype sig = SIGHUP | SIGINT | SIGTERM

text \<open>The state \<^verbatim>\<open>drain\<close> works on: the two flags, how often the jobs were told to stop and the
  realtime clients disconnected, and the signals uvicorn was given.\<close>

record runner =
  draining :: bool
  restarting :: bool
  jobs_stops :: nat
  realtime_closes :: nat
  web_stops :: "sig list"

definition new_runner :: runner where
  "new_runner = \<lparr>draining = False, restarting = False, jobs_stops = 0, realtime_closes = 0, web_stops = []\<rparr>"

definition drain :: "sig \<Rightarrow> runner \<Rightarrow> runner" where
  "drain sig s =
     (let s1 = (if sig \<noteq> SIGHUP then s\<lparr>restarting := False\<rparr>
                else if \<not> draining s then s\<lparr>restarting := True\<rparr> else s);
          s2 = (if \<not> draining s1 then
                  s1\<lparr>draining := True, jobs_stops := jobs_stops s1 + 1,
                     realtime_closes := realtime_closes s1 + 1\<rparr>
                else s1)
      in s2\<lparr>web_stops := web_stops s2 @ [sig]\<rparr>)"

text \<open>The end of \<^verbatim>\<open>Runner.run\<close>: the jobs are stopped again and waited for, then the process starts
  again in place or ends.\<close>

datatype ending = ReExec | Exit

definition run_end :: "config \<Rightarrow> rat \<Rightarrow> rat option list \<Rightarrow> runner \<Rightarrow> ending \<times> rat \<times> bool list" where
  "run_end c now threads s =
     (let (fin, left) = background_wait (job_drain_seconds c) now threads
      in (if restarting s then ReExec else Exit, fin, left))"

text \<open>
  The process and everything that sends it a signal: an operator, the restart watch (one SIGHUP,
  after a round that found it not draining), the source watch (a change starts one timer, the timer
  one SIGHUP unless it finds the process draining).  Either may find the process not draining and
  send the signal when it drains, so those steps do not ask for the flag.  A signal sent is handled
  later, in any order.
\<close>

record life =
  l_runner :: runner
  l_pending :: "sig list"
  l_handled :: "sig list"
  watch_done :: bool
  fired :: bool
  l_timer :: bool

definition new_life :: life where
  "new_life = \<lparr>l_runner = new_runner, l_pending = [], l_handled = [], watch_done = False, fired = False, l_timer = False\<rparr>"

inductive lstep :: "config \<Rightarrow> life \<Rightarrow> life \<Rightarrow> bool" for c where
  operator: "lstep c s (s\<lparr>l_pending := l_pending s @ [sig]\<rparr>)"
| watch_fires: "has_restart_limit c \<Longrightarrow> \<not> watch_done s \<Longrightarrow>
    watch c [(False, t, now)] = Some 0 \<Longrightarrow>
    lstep c s (s\<lparr>l_pending := l_pending s @ [SIGHUP], watch_done := True\<rparr>)"
| watch_ends: "draining (l_runner s) \<Longrightarrow> lstep c s (s\<lparr>watch_done := True\<rparr>)"
| source: "c_dev c \<Longrightarrow> dispatch_source e (draining (l_runner s)) (fired s) = (f, start) \<Longrightarrow>
    lstep c s (s\<lparr>fired := f, l_timer := l_timer s \<or> start\<rparr>)"
| timer_fires: "l_timer s \<Longrightarrow>
    lstep c s (s\<lparr>l_timer := False, l_pending := l_pending s @ [SIGHUP]\<rparr>)"
| timer_ends: "l_timer s \<Longrightarrow> draining (l_runner s) \<Longrightarrow> lstep c s (s\<lparr>l_timer := False\<rparr>)"
| handle: "sig \<in> set (l_pending s) \<Longrightarrow>
    lstep c s (s\<lparr>l_runner := drain sig (l_runner s), l_pending := remove1 sig (l_pending s),
                 l_handled := l_handled s @ [sig]\<rparr>)"

inductive lives :: "config \<Rightarrow> life \<Rightarrow> bool" for c where
  lives_new: "lives c new_life"
| lives_step: "lives c s \<Longrightarrow> lstep c s s' \<Longrightarrow> lives c s'"

inductive_cases lstep_cases: "lstep c s s'"

section \<open>Lemmas\<close>

lemma drain_simps [simp]:
  "draining (drain sig s)"
  "restarting (drain sig s) \<longleftrightarrow> sig = SIGHUP \<and> (restarting s \<or> \<not> draining s)"
  "web_stops (drain sig s) = web_stops s @ [sig]"
  "jobs_stops (drain sig s) = (if draining s then jobs_stops s else jobs_stops s + 1)"
  "realtime_closes (drain sig s) = (if draining s then realtime_closes s else realtime_closes s + 1)"
  by (auto simp: drain_def Let_def)

definition runner_of :: "sig list \<Rightarrow> runner \<Rightarrow> bool" where
  "runner_of h s \<longleftrightarrow> web_stops s = h \<and> (draining s \<longleftrightarrow> h \<noteq> []) \<and>
     (restarting s \<longleftrightarrow> h \<noteq> [] \<and> (\<forall>sig \<in> set h. sig = SIGHUP)) \<and>
     jobs_stops s = (if h = [] then 0 else 1) \<and> realtime_closes s = (if h = [] then 0 else 1)"

lemma runner_of_drain: "runner_of h s \<Longrightarrow> runner_of (h @ [sig]) (drain sig s)"
  by (auto simp: runner_of_def)

lemma lives_runner: "lives c s \<Longrightarrow> runner_of (l_handled s) (l_runner s)"
proof (induction rule: lives.induct)
  case lives_new
  then show ?case by (simp add: new_life_def new_runner_def runner_of_def)
next
  case (lives_step s s')
  from lives_step(2,3) show ?case by cases (simp_all add: runner_of_drain)
qed

lemma update_length: "(k, v') \<in> set d \<Longrightarrow> length (AList.update k v d) = length d"
  by (induction d) auto

lemma delete_length:
  assumes "distinct (map fst d)" "k \<in> fst ` set d"
  shows "length (AList.delete k d) = length d - 1"
proof -
  have "map fst (AList.delete k d) = remove1 k (map fst d)"
    using assms(1) by (simp add: delete_keys distinct_remove1_removeAll)
  then have "length (map fst (AList.delete k d)) = length (map fst d) - 1"
    using assms(2) by (simp add: length_remove1)
  then show ?thesis by simp
qed

text \<open>The identities of the requests still to begin.\<close>

fun begin_of :: "event \<Rightarrow> nat list" where
  "begin_of (ReqBegin i sc) = [i]"
| "begin_of _ = []"

fun begins :: "(rat \<times> event) list \<Rightarrow> nat list" where
  "begins [] = []"
| "begins ((now, e) # es) = begin_of e @ begins es"

definition exact :: "process \<Rightarrow> bool" where
  "exact s \<longleftrightarrow> distinct (map fst (p_open s)) \<and> in_flight (p_traffic s) = length (p_open s) + length (p_jobs s)"

lemma traffic_simps [simp]:
  "in_flight (count n t) = in_flight t"
  "in_flight (count_web now st t) = in_flight t"
  "in_flight (busy_enter t) = in_flight t + 1"
  "in_flight (busy_exit t) = in_flight t - 1"
  by (simp_all add: count_def count_web_def busy_enter_def busy_exit_def Let_def split: counter.split)

lemma exact_event:
  assumes "exact s" "\<And>i sc. e = ReqBegin i sc \<Longrightarrow> i \<notin> fst ` set (p_open s)"
  shows "exact (on_event now e s)"
proof (cases e)
  case (ReqBegin i sc)
  with assms show ?thesis by (auto simp: on_event_def exact_def split: served.split)
next
  case (ReqSend i m)
  with assms show ?thesis
    by (auto simp: on_event_def exact_def distinct_update update_length split: option.split dest: map_of_SomeD)
next
  case (ReqEnd i)
  show ?thesis
  proof (cases "map_of (p_open s) i")
    case None
    with ReqEnd assms show ?thesis by (simp add: on_event_def)
  next
    case (Some st)
    then have i: "i \<in> fst ` set (p_open s)" by (force dest: map_of_SomeD)
    then have "p_open s \<noteq> []" by auto
    then show ?thesis
      using ReqEnd Some assms(1) delete_length [OF _ i]
      by (simp add: on_event_def exact_def distinct_delete Suc_diff_le Suc_leI)
  qed
next
  case (JobBegin j)
  with assms show ?thesis by (simp add: on_event_def exact_def)
next
  case (JobEnd j ok)
  show ?thesis
  proof (cases "j \<in> set (p_jobs s)")
    case True
    then obtain k where "length (p_jobs s) = Suc k" using length_pos_if_in_set by (metis Suc_pred)
    with JobEnd True assms show ?thesis by (simp add: on_event_def exact_def Let_def length_remove1)
  qed (use JobEnd assms in \<open>simp add: on_event_def\<close>)
qed

lemma map_of_in_fst: "map_of d k = Some v \<Longrightarrow> k \<in> fst ` set d"
  by (metis map_of_SomeD fst_conv imageI)

lemma on_event_open: "fst ` set (p_open (on_event now e s)) \<subseteq> fst ` set (p_open s) \<union> set (begin_of e)"
proof (cases e)
  case (ReqEnd i)
  then show ?thesis using dom_delete_subset [of i "p_open s"] by (auto simp: on_event_def split: option.split)
qed (auto simp: on_event_def Let_def dom_update dest: map_of_in_fst split: option.split served.split)

lemma exact_run:
  "exact s \<Longrightarrow> distinct (begins es) \<Longrightarrow> set (begins es) \<inter> fst ` set (p_open s) = {} \<Longrightarrow> exact (run_events es s)"
proof (induction es arbitrary: s)
  case (Cons x es)
  obtain now e where x: "x = (now, e)" by fastforce
  have "exact (on_event now e s)"
    using Cons.prems x by (intro exact_event) auto
  moreover have "set (begins es) \<inter> fst ` set (p_open (on_event now e s)) = {}"
    using Cons.prems(2,3) x on_event_open [of now e s] by (simp only: begins.simps distinct_append set_append) blast
  moreover have "distinct (begins es)" using Cons.prems(2) x by simp
  ultimately show ?case using Cons.IH x by simp
qed simp

section \<open>Properties\<close>


definition sample_config :: config where
  "sample_config = \<lparr>c_host = ''127.0.0.1'', c_port = 8000, c_queue = None, c_web_threads = 0,
     c_job_threads = 1, restart_after_requests = 5000, restart_after_jobs = 500, restart_idle_seconds = 300,
     request_drain_seconds = 60, job_drain_seconds = 600, c_dev = True, c_serve_assets = False, c_uds = None\<rparr>"


text \<open>The restart watch sends its SIGHUP only between two pieces of work: in a round that found the
  process not draining and nothing in flight, with a limit reached or the process idle after some
  work.  It needs a limit that is set, and an unused process never restarts.\<close>

theorem watch_fires_between_work:
  assumes "watch c rounds = Some n"
  shows "n < length rounds \<and> (\<forall>k \<le> n. \<not> fst (rounds ! k)) \<and> has_restart_limit c \<and>
    (case rounds ! n of (_, t, now) \<Rightarrow> in_flight t = 0 \<and> any_count t \<and>
      (is_limit_reached c t \<or> idle_seconds now t \<ge> restart_idle_seconds c))"
  using assms
proof (induction rounds arbitrary: n)
  case (Cons x rounds)
  obtain d t now where x: "x = (d, t, now)" by (cases x) auto
  show ?case
  proof (cases n)
    case 0
    with Cons.prems x show ?thesis
      by (auto simp: is_limit_reached_def is_idle_def any_count_def has_restart_limit_def split: if_splits)
  next
    case (Suc m)
    with Cons.prems x have w: "watch c rounds = Some m" "\<not> d" by (auto split: if_splits)
    have "\<not> fst ((x # rounds) ! k)" if "k \<le> n" for k
      using that Suc Cons.IH [OF w(1)] x w(2) by (cases k) auto
    with Cons.IH [OF w(1)] Suc show ?thesis by auto
  qed
qed simp

theorem watch_fires_between_work_witness:
  "watch sample_config [(False, (new_traffic 0)\<lparr>n_web := 5000, in_flight := 1\<rparr>, 1),
      (False, (new_traffic 0)\<lparr>n_web := 5000\<rparr>, 11)] = Some 1 \<and> has_restart_limit sample_config"
proof -
  have w: "watch sample_config [(False, (new_traffic 0)\<lparr>n_web := 5000, in_flight := 1\<rparr>, 1),
      (False, (new_traffic 0)\<lparr>n_web := 5000\<rparr>, 11)] = Some 1"
    by (simp add: sample_config_def new_traffic_def is_limit_reached_def)
  with watch_fires_between_work [OF w] show ?thesis by blast
qed

text \<open>The count the watch relies on is exact: after any interleaving of requests, messages and jobs
  (a request's identity used once), the work in flight is the number of open web requests plus the
  number of jobs in progress; realtime polls and health checks are none of it.\<close>

theorem in_flight_exact:
  assumes "distinct (begins es)"
  shows "let s = run_events es (new_process now)
    in in_flight (p_traffic s) = length (p_open s) + length (p_jobs s)"
  using exact_run [of "new_process now" es] assms
  by (simp add: exact_def new_process_def new_traffic_def Let_def)

theorem in_flight_exact_witness:
  "let s = run_events [(1, ReqBegin 1 (Http ''/api/method/ping'')), (2, ReqBegin 2 (Http ''/app'')), (2, JobBegin 7),
      (3, ReqSend 2 (ResponseStart 200)), (4, ReqEnd 2)] (new_process 0)
   in in_flight (p_traffic s) = 1 \<and> n_web (p_traffic s) = 1"
  using in_flight_exact [of "[(1, ReqBegin 1 (Http ''/api/method/ping'')), (2, ReqBegin 2 (Http ''/app'')), (2, JobBegin 7),
      (3, ReqSend 2 (ResponseStart 200)), (4, ReqEnd 2)]" 0]
  by (simp add: Let_def on_event_def serve_def SOCKETIO_PATH_def startswith_def HEALTH_CHECK_PATHS_def
      new_process_def new_traffic_def busy_enter_def busy_exit_def count_web_def record_status_def)

lemma jobs_wait_deadline:
  "now \<le> deadline \<Longrightarrow> jobs_wait deadline now es = (fin, left) \<Longrightarrow>
   now \<le> fin \<and> fin \<le> deadline \<and> left = map (alive_at deadline) es"
proof (induction es arbitrary: now left)
  case (Cons e es)
  obtain now' l where w: "job_wait (max 0 (deadline - now)) now e = (now', l)" by fastforce
  have n: "now \<le> now'" "now' \<le> deadline" "l = alive_at deadline e"
    using w Cons.prems(1)
    by (auto simp: job_wait_def alive_at_def join_until_def Let_def split: option.splits if_splits)
  obtain ls where ls: "jobs_wait deadline now' es = (fin, ls)" "left = l # ls"
    using Cons.prems(2) w by (auto split: prod.splits)
  from Cons.IH [OF n(2) ls(1)] n ls(2) show ?case by auto
qed simp

text \<open>C8. The wait for the jobs at the fin: all threads together get the drain time, never more, and the
  runner goes on without exactly the threads whose job lasts beyond it.\<close>

theorem job_drain_is_joint:
  assumes "0 \<le> job_drain_seconds c"
  shows "case run_end c now es s of (e, fin, left) \<Rightarrow>
    now \<le> fin \<and> fin \<le> now + job_drain_seconds c \<and>
    left = map (alive_at (now + job_drain_seconds c)) es"
proof -
  obtain fin left where w: "jobs_wait (now + job_drain_seconds c) now es = (fin, left)" by fastforce
  with jobs_wait_deadline [OF _ w] assms show ?thesis by (simp add: run_end_def background_wait_def)
qed

theorem job_drain_is_joint_witness:
  "snd (snd (run_end sample_config 0 [Some 30, None, Some 600] new_runner)) = [False, True, False]"
  using job_drain_is_joint [of sample_config 0 "[Some 30, None, Some 600]" new_runner]
  by (auto simp: sample_config_def alive_at_def split: prod.splits)

text \<open>The scheduler never goes silent and never floods: over any number of tries it logs a busy lock
  once if some try found it busy, a failed start once if some try raised, and nothing else.\<close>

theorem scheduler_logs_once:
  "case sched_run rs \<lparr>lock_busy = False, start_failed = False\<rparr> of (logs, s) \<Rightarrow>
     distinct logs \<and> (LogBusy \<in> set logs \<longleftrightarrow> Returned \<in> set rs) \<and> (LogFailed \<in> set logs \<longleftrightarrow> Raised \<in> set rs)"
proof -
  have "case sched_run rs s of (logs, s') \<Rightarrow> distinct logs \<and>
      (LogBusy \<in> set logs \<longleftrightarrow> Returned \<in> set rs \<and> \<not> lock_busy s) \<and>
      (LogFailed \<in> set logs \<longleftrightarrow> Raised \<in> set rs \<and> \<not> start_failed s)" for s
  proof (induction rs arbitrary: s)
    case (Cons r rs)
    show ?case
      using Cons [of "snd (sched_step r s)"]
      by (cases r) (auto simp: sched_step_def split: prod.splits if_splits)
  qed simp
  from this [of "\<lparr>lock_busy = False, start_failed = False\<rparr>"] show ?thesis by simp
qed

end
