(* ===== verification/PyUrl.thy ===== *)
theory PyUrl
  imports Effects
begin

text \<open>
  \<^verbatim>\<open>urllib.parse.urlsplit\<close> as far as the sources use it: the scheme, the network location, the
  path, and the host name and port read from the location.  Whether the address in square brackets is an IP address
  (\<^verbatim>\<open>ipaddress\<close>) is the parameter \<open>ip_ok\<close>.
\<close>

definition c0_or_space :: "char \<Rightarrow> bool" where
  "c0_or_space c \<longleftrightarrow> (of_char c :: nat) \<le> 32"

definition scheme_char :: "char \<Rightarrow> bool" where
  "scheme_char c \<longleftrightarrow> is_alnum c \<or> c \<in> {CHR ''+'', CHR ''-'', CHR ''.''}"

definition url_clean :: "string \<Rightarrow> string" where
  "url_clean url = filter (\<lambda>c. c \<notin> {tab, newline, CHR 0x0D}) (lstrip_by c0_or_space url)"

text \<open>The scheme in lower case, and the rest.\<close>

definition split_scheme :: "string \<Rightarrow> string \<times> string" where
  "split_scheme url =
     (case partition1 (CHR '':'') url of
        (s, True, rest) \<Rightarrow>
          if s \<noteq> [] \<and> (is_lower (hd s) \<or> is_upper (hd s)) \<and> list_all scheme_char s then (lower s, rest)
          else ([], url)
      | _ \<Rightarrow> ([], url))"

definition split_netloc :: "string \<Rightarrow> string" where
  "split_netloc url =
     (if startswith url ''//'' then takeWhile (\<lambda>c. c \<notin> {CHR ''/'', CHR ''?'', CHR ''#''}) (drop 2 url)
      else [])"

definition brackets_ok :: "(string \<Rightarrow> bool) \<Rightarrow> string \<Rightarrow> bool" where
  "brackets_ok ip_ok netloc \<longleftrightarrow>
     (CHR ''['' \<in> set netloc \<longleftrightarrow> CHR '']'' \<in> set netloc) \<and> (CHR ''['' \<in> set netloc \<longrightarrow> ip_ok netloc)"

record url_parts =
  scheme :: string
  netloc :: string
  u_path :: string

definition urlsplit :: "(string \<Rightarrow> bool) \<Rightarrow> string \<Rightarrow> exn + url_parts" where
  "urlsplit ip_ok url =
     (let (s, rest) = split_scheme (url_clean url); n = split_netloc rest
      in if \<not> brackets_ok ip_ok n then Inl (ValueError ''Invalid IPv6 URL'')
         else Inr \<lparr>scheme = s, netloc = n,
           u_path = takeWhile (\<lambda>c. c \<notin> {CHR ''#'', CHR ''?''})
             (if startswith rest ''//'' then drop (2 + length n) rest else rest)\<rparr>)"

text \<open>\<^verbatim>\<open>_hostinfo\<close>: the host and the port as written, after the user information.\<close>

definition hostinfo :: "string \<Rightarrow> string \<times> string" where
  "hostinfo n =
     (let h = (case rpartition1 (CHR ''@'') n of (_, _, a) \<Rightarrow> a)
      in case partition1 (CHR ''['') h of
           (_, True, bracketed) \<Rightarrow>
             (case partition1 (CHR '']'') bracketed of
                (host, _, rest) \<Rightarrow> (host, case partition1 (CHR '':'') rest of (_, _, p) \<Rightarrow> p))
         | _ \<Rightarrow> (case partition1 (CHR '':'') h of (host, _, p) \<Rightarrow> (host, p)))"

definition url_hostname :: "url_parts \<Rightarrow> string option" where
  "url_hostname u =
     (case hostinfo (netloc u) of (host, _) \<Rightarrow>
        if host = [] then None
        else (case partition1 (CHR ''%'') host of
                (h, f, z) \<Rightarrow> Some (lower h @ (if f then ''%'' else []) @ z)))"

definition url_port :: "url_parts \<Rightarrow> exn + nat option" where
  "url_port u =
     (case hostinfo (netloc u) of (_, p) \<Rightarrow>
        if p = [] then Inr None
        else if list_all is_digit p \<and> int_of_digits p \<le> 65535 then Inr (Some (int_of_digits p))
        else Inl (ValueError ''Port''))"

end
