(* ===== verification/RealtimeAuth.thy ===== *)
theory RealtimeAuth
  imports PyUrl PyJson
begin

text \<open>
  The connect path of the realtime server: \<^verbatim>\<open>runtime/src/frappe_runtime/util.py\<close> (which site a
  request belongs to), \<^verbatim>\<open>config.py\<close>, \<^verbatim>\<open>auth.py\<close> (the checks before a connection is accepted and
  the headers sent to the web process) and \<^verbatim>\<open>statics.py\<close> (which file a \<^verbatim>\<open>/files\<close> request reads).
  Parameters: the file system (which paths are files, what a path resolves to), the answers of the
  web process, the cookie parser of the standard library, and \<^verbatim>\<open>ip_ok\<close> of \<^verbatim>\<open>PyUrl\<close>.
\<close>

section \<open>config.py\<close>

definition DEFAULT_SOCKETIO_PORT :: int where "DEFAULT_SOCKETIO_PORT = 9000"
definition DEFAULT_REDIS_QUEUE :: string where "DEFAULT_REDIS_QUEUE = ''redis://127.0.0.1:11311''"
definition DEFAULT_WORKER_THREADS :: int where "DEFAULT_WORKER_THREADS = 4"

record realtime_config =
  r_port :: int
  redis_queue :: json
  r_uds :: json
  default_site :: string
  developer_mode :: bool
  webserver_port :: "int option"
  webserver_host :: string
  worker_threads :: int
  r_sites_path :: string
  embedded :: bool
  redis_manager :: bool

type_synonym environ = "string \<rightharpoonup> string"

definition conf_get :: "(string \<rightharpoonup> json) \<Rightarrow> string \<Rightarrow> json" where
  "conf_get conf k = (case conf k of Some v \<Rightarrow> v | None \<Rightarrow> JNull)"

text \<open>\<^verbatim>\<open>_env_or_conf\<close>: the environment first.\<close>

definition env_or_conf :: "environ \<Rightarrow> (string \<rightharpoonup> json) \<Rightarrow> string \<Rightarrow> string \<Rightarrow> json" where
  "env_or_conf env conf var key =
     (case env var of
        Some v \<Rightarrow> if v \<noteq> [] then JStr v else conf_get conf key
      | None \<Rightarrow> conf_get conf key)"

text \<open>A text of the config used as one: a value that is no text is not modelled (TypeError).\<close>

definition conf_text :: "json \<Rightarrow> exn + string" where
  "conf_text v = (if \<not> truthy v then Inr [] else case v of JStr s \<Rightarrow> Inr s | _ \<Rightarrow> Inl TypeError)"

definition get_config ::
  "environ \<Rightarrow> (string \<rightharpoonup> json) \<Rightarrow> string \<Rightarrow> bool \<Rightarrow> exn + realtime_config" where
  "get_config env conf sites_path is_embedded =
     bindE (py_int (jor (env_or_conf env conf ''FRAPPE_SOCKETIO_PORT'' ''socketio_port'')
              (JInt DEFAULT_SOCKETIO_PORT))) (\<lambda>port.
     bindE (conf_text (env_or_conf env conf ''FRAPPE_SITE'' ''default_site'')) (\<lambda>site.
     bindE (if truthy (conf_get conf ''webserver_port'')
            then bindE (py_int (conf_get conf ''webserver_port'')) (\<lambda>n. Inr (Some n)) else Inr None) (\<lambda>wport.
     bindE (conf_text (conf_get conf ''webserver_host'')) (\<lambda>whost.
     bindE (py_int (jor (conf_get conf ''socketio_worker_threads'') (JInt DEFAULT_WORKER_THREADS))) (\<lambda>threads.
       Inr \<lparr>r_port = port,
            redis_queue = jor (env_or_conf env conf ''FRAPPE_REDIS_QUEUE'' ''redis_queue'') (JStr DEFAULT_REDIS_QUEUE),
            r_uds = jor (env_or_conf env conf ''FRAPPE_SOCKETIO_UDS'' ''socketio_uds'') JNull,
            default_site = site,
            developer_mode = truthy (conf_get conf ''developer_mode''),
            webserver_port = wport, webserver_host = whost, worker_threads = threads,
            r_sites_path = sites_path, embedded = is_embedded,
            redis_manager = truthy (conf_get conf ''socketio_redis_manager'')\<rparr>)))))"

section \<open>util.py\<close>

definition upper_char :: "char \<Rightarrow> char" where
  "upper_char c = (if is_lower c then char_of (of_char c - 32 :: nat) else c)"

definition header_key :: "string \<Rightarrow> string" where
  "header_key name = ''HTTP_'' @ map (\<lambda>c. if c = CHR ''-'' then CHR ''_'' else upper_char c) name"

definition read_header :: "environ \<Rightarrow> string \<Rightarrow> string option" where
  "read_header environ name = environ (header_key name)"

definition nonempty :: "string option \<Rightarrow> bool" where
  "nonempty x \<longleftrightarrow> (case x of None \<Rightarrow> False | Some s \<Rightarrow> s \<noteq> [])"

definition get_hostname :: "(string \<Rightarrow> bool) \<Rightarrow> string option \<Rightarrow> exn + string option" where
  "get_hostname ip_ok url =
     (case url of
        None \<Rightarrow> Inr None
      | Some u \<Rightarrow>
          if u = [] then Inr None
          else bindE (urlsplit ip_ok (if contains_sub ''://'' u then u else ''//'' @ u))
                 (\<lambda>p. Inr (url_hostname p)))"

text \<open>\<^verbatim>\<open>is_site\<close>: the file system tells whether \<^verbatim>\<open><sites_path>/<name>/site_config.json\<close> is a file.\<close>

definition is_site :: "(string \<Rightarrow> bool) \<Rightarrow> string option \<Rightarrow> bool" where
  "is_site has_config name \<longleftrightarrow> (case name of None \<Rightarrow> False | Some n \<Rightarrow> n \<noteq> [] \<and> has_config n)"

definition opt_or :: "string option \<Rightarrow> 'e + string option \<Rightarrow> 'e + string option" where
  "opt_or x y = (if nonempty x then Inr x else y)"

definition resolve_site_name ::
  "(string \<Rightarrow> bool) \<Rightarrow> (string \<Rightarrow> bool) \<Rightarrow> environ \<Rightarrow> realtime_config \<Rightarrow> exn + string option" where
  "resolve_site_name ip_ok has_config environ c =
     (let h = read_header environ ''X-Frappe-Site-Name''
      in if nonempty h then get_hostname ip_ok h
         else bindE (get_hostname ip_ok (read_header environ ''Origin'')) (\<lambda>o1.
              bindE (opt_or o1 (get_hostname ip_ok (read_header environ ''Host''))) (\<lambda>candidate.
                if default_site c \<noteq> [] \<and> \<not> is_site has_config candidate then Inr (Some (default_site c))
                else Inr candidate)))"

text \<open>\<^verbatim>\<open>default_site_middleware\<close>: the environ the app is called with.\<close>

definition default_site_environ ::
  "(string \<Rightarrow> bool) \<Rightarrow> (string \<Rightarrow> bool) \<Rightarrow> realtime_config \<Rightarrow> environ \<Rightarrow> exn + environ" where
  "default_site_environ ip_ok has_config c environ =
     (if default_site c = [] then Inr environ
      else if nonempty (environ ''HTTP_X_FRAPPE_SITE_NAME'') then Inr environ
      else bindE (get_hostname ip_ok (environ ''HTTP_HOST'')) (\<lambda>h.
        if \<not> is_site has_config h then Inr (environ(''HTTP_X_FRAPPE_SITE_NAME'' \<mapsto> default_site c))
        else Inr environ))"

text \<open>\<^verbatim>\<open>enter_sites_dir\<close>: the working directory and the environment; the file system answers for a path
  in a working directory.\<close>

definition enter_sites_dir ::
  "(string \<Rightarrow> string \<Rightarrow> bool) \<Rightarrow> (string \<Rightarrow> string \<Rightarrow> bool) \<Rightarrow> (string \<Rightarrow> string \<Rightarrow> string) \<Rightarrow>
   string \<times> environ \<Rightarrow> string \<times> environ" where
  "enter_sites_dir isdir isfile abspath = (\<lambda>(cwd, env).
     let sp = env ''SITES_PATH''
     in if nonempty sp \<and> isdir cwd (the sp) then
          (abspath cwd (the sp), env(''SITES_PATH'' \<mapsto> abspath cwd (the sp)))
        else if isdir cwd ''sites'' \<and> \<not> isfile cwd ''apps.txt'' then (abspath cwd ''sites'', env)
        else (cwd, env))"

definition get_url ::
  "(string \<Rightarrow> bool) \<Rightarrow> string option \<Rightarrow> string \<Rightarrow> realtime_config \<Rightarrow> exn + string" where
  "get_url ip_ok origin path c =
     (case webserver_port c of
        Some port \<Rightarrow>
          if webserver_host c \<noteq> [] \<and> port \<noteq> 0 then
            (let b = webserver_host c; base = (if contains_sub ''://'' b then b else ''http://'' @ b)
             in bindE (urlsplit ip_ok base) (\<lambda>p. bindE (url_port p) (\<lambda>q.
                  Inr (scheme p @ ''://'' @ netloc p @
                    (if q = None then '':'' @ show_int port else []) @ path))))
          else if developer_mode c \<and> port \<noteq> 0 then
            (let parts = split_on (CHR '':'') (case origin of Some s \<Rightarrow> s | None \<Rightarrow> []);
                 protocol = parts ! 0; host = (if length parts > 1 then parts ! 1 else [])
             in Inr (protocol @ '':'' @ host @ '':'' @ show_int port @ path))
          else Inr ((case origin of Some s \<Rightarrow> s | None \<Rightarrow> []) @ path)
      | None \<Rightarrow> Inr ((case origin of Some s \<Rightarrow> s | None \<Rightarrow> []) @ path))"

section \<open>auth.py\<close>

record credentials =
  cr_sid :: "string option"
  cr_authorization :: "string option"

definition credential_headers :: "credentials \<Rightarrow> (string \<times> string) list" where
  "credential_headers c =
     (if nonempty (cr_authorization c) then [(''Authorization'', the (cr_authorization c))]
      else if nonempty (cr_sid c) then [(''Cookie'', ''sid='' @ the (cr_sid c))]
      else [])"

text \<open>A connection is refused with a message.  Another exception of the checks (a host that is no URL)
  is refused as well, by the server; both are the left side.\<close>

datatype refusal = Rejected string | Failed exn

definition check :: "bool \<Rightarrow> string \<Rightarrow> refusal + unit" where
  "check b message = (if b then Inr () else Inl (Rejected message))"

fun lift_exn :: "exn + 'a \<Rightarrow> refusal + 'a" where
  "lift_exn (Inl e) = Inl (Failed e)"
| "lift_exn (Inr a) = Inr a"

definition validate_site ::
  "(string \<Rightarrow> bool) \<Rightarrow> (string \<Rightarrow> bool) \<Rightarrow> environ \<Rightarrow> string \<Rightarrow> realtime_config \<Rightarrow> refusal + string" where
  "validate_site ip_ok has_config environ namespace c =
     bindE (lift_exn (resolve_site_name ip_ok has_config environ c)) (\<lambda>site.
     bindE (check (nonempty site \<and> lstrip_by (\<lambda>x. x = CHR ''/'') namespace = the site) ''Invalid namespace'') (\<lambda>_.
       Inr (the site)))"

definition validate_origin :: "(string \<Rightarrow> bool) \<Rightarrow> environ \<Rightarrow> refusal + unit" where
  "validate_origin ip_ok environ =
     (let host = read_header environ ''Host''; origin = read_header environ ''Origin''
      in bindE (check (nonempty host) ''Invalid origin'') (\<lambda>_.
         if \<not> nonempty origin then Inr ()
         else bindE (lift_exn (get_hostname ip_ok host)) (\<lambda>h.
              bindE (lift_exn (get_hostname ip_ok origin)) (\<lambda>oh.
                check (h = oh) ''Invalid origin''))))"

definition read_sid :: "(string \<Rightarrow> string option) \<Rightarrow> string option \<Rightarrow> string option" where
  "read_sid cookie_sid h = (if nonempty h then cookie_sid (the h) else None)"

definition read_credentials :: "(string \<Rightarrow> string option) \<Rightarrow> environ \<Rightarrow> refusal + credentials" where
  "read_credentials cookie_sid environ =
     (let cookie = read_header environ ''Cookie''; authorization = read_header environ ''Authorization''
      in bindE (check (nonempty cookie \<or> nonempty authorization)
            ''Missing cookie and authorization header. Either one needed.'') (\<lambda>_.
         let cr = \<lparr>cr_sid = read_sid cookie_sid cookie, cr_authorization = authorization\<rparr>
         in bindE (check (nonempty (cr_sid cr) \<or> nonempty (cr_authorization cr))
               ''No authentication method used. Use cookie or authorization header.'') (\<lambda>_. Inr cr)))"

text \<open>\<^verbatim>\<open>_auth_headers\<close> and the headers of the request of \<^verbatim>\<open>_make_request\<close> (the embedded one carries
  the origin).\<close>

definition auth_headers :: "credentials \<Rightarrow> string \<Rightarrow> string \<Rightarrow> (string \<times> string) list" where
  "auth_headers cr site secret =
     AList.update ''X-Frappe-Socket-Secret'' secret
       (AList.update ''X-Frappe-Site-Name'' site (credential_headers cr))"

definition request_headers ::
  "environ \<Rightarrow> credentials \<Rightarrow> realtime_config \<Rightarrow> string \<Rightarrow> string \<Rightarrow> (string \<times> string) list" where
  "request_headers environ cr c site secret =
     (let hs = auth_headers cr site secret; origin = read_header environ ''Origin''
      in if embedded c \<and> nonempty origin then AList.update ''Origin'' (the origin) hs else hs)"

record session =
  s_site :: string
  s_user :: string
  user_type :: json
  installed_apps :: json
  s_headers :: "(string \<times> string) list"
  tracked :: "(string \<times> string) list"

text \<open>\<^verbatim>\<open>_get_user_info\<close>: the answers of the web process to the calls of \<open>get_user_info\<close>, by the
  headers and the number of the call; an answer with a user that is not Guest and no installed apps
  is asked for once more.\<close>

definition message_of :: "exn + json \<Rightarrow> exn + json" where
  "message_of r = bindE r (\<lambda>b. bindE (dget b ''message'' JNull) (\<lambda>m. Inr (jor m (JObj []))))"

definition user_answer ::
  "((string \<times> string) list \<Rightarrow> nat \<Rightarrow> exn + json) \<Rightarrow> (string \<times> string) list \<Rightarrow> exn + json" where
  "user_answer web hs =
     bindE (message_of (web hs 0)) (\<lambda>m.
     bindE (dget m ''user'' JNull) (\<lambda>u.
     bindE (dget m ''installed_apps'' JNull) (\<lambda>apps.
       if truthy u \<and> \<not> py_eq u (JStr ''Guest'') \<and> \<not> truthy apps then message_of (web hs 1) else Inr m)))"

definition get_user_info ::
  "((string \<times> string) list \<Rightarrow> nat \<Rightarrow> exn + json) \<Rightarrow> (string \<times> string) list \<Rightarrow> refusal + json" where
  "get_user_info web hs =
     (case user_answer web hs of
        Inl e \<Rightarrow> Inl (Rejected ''Unauthorized'')
      | Inr m \<Rightarrow> bindE (lift_exn (dget m ''user'' JNull)) (\<lambda>u.
          bindE (check (truthy u) ''Unauthorized'') (\<lambda>_. Inr m)))"

definition make_session :: "string \<Rightarrow> json \<Rightarrow> (string \<times> string) list \<Rightarrow> refusal + session" where
  "make_session site info hs =
     bindE (lift_exn (ditem info ''user'')) (\<lambda>u.
     bindE (lift_exn (conf_text u)) (\<lambda>user.
     bindE (lift_exn (dget info ''user_type'' JNull)) (\<lambda>ut.
     bindE (lift_exn (dget info ''installed_apps'' JNull)) (\<lambda>apps.
       Inr \<lparr>s_site = site, s_user = user, user_type = ut, installed_apps = jor apps (JArr []),
            s_headers = hs, tracked = []\<rparr>))))"

definition authenticate ::
  "(string \<Rightarrow> bool) \<Rightarrow> (string \<Rightarrow> bool) \<Rightarrow> (string \<Rightarrow> string option) \<Rightarrow> string \<Rightarrow>
   ((string \<times> string) list \<Rightarrow> nat \<Rightarrow> exn + json) \<Rightarrow> environ \<Rightarrow> string \<Rightarrow> realtime_config \<Rightarrow> refusal + session" where
  "authenticate ip_ok has_config cookie_sid secret web environ namespace c =
     bindE (validate_site ip_ok has_config environ namespace c) (\<lambda>site.
     bindE (validate_origin ip_ok environ) (\<lambda>_.
     bindE (read_credentials cookie_sid environ) (\<lambda>cr.
     let hs = request_headers environ cr c site secret
     in bindE (get_user_info web hs) (\<lambda>info. make_session site info hs))))"

text \<open>\<^verbatim>\<open>Session.has_permission\<close>: a failed request is no permission.\<close>

definition has_permission :: "(string \<Rightarrow> string \<Rightarrow> exn + json) \<Rightarrow> string \<Rightarrow> string \<Rightarrow> exn + bool" where
  "has_permission ask doctype name =
     (case ask doctype name of
        Inl e \<Rightarrow> Inr False
      | Inr body \<Rightarrow> bindE (dget body ''message'' JNull) (\<lambda>m. Inr (truthy m)))"

section \<open>statics.py\<close>

definition basename :: "string \<Rightarrow> string" where
  "basename p = (case rpartition1 (CHR ''/'') p of (_, _, b) \<Rightarrow> b)"

text \<open>\<^verbatim>\<open>loader\<close> of \<^verbatim>\<open>SiteFilesMiddleware\<close>: the file served, if any.  The site is Frappe's pinned site,
  the header's or the Host's, read by Frappe's \<open>get_site_name\<close>; \<open>resolve\<close> is the path with its
  symbolic links and dots resolved.\<close>

definition path_parts :: "string \<Rightarrow> string list" where
  "path_parts p = filter (\<lambda>x. x \<noteq> [] \<and> x \<noteq> ''.'') (split_on (CHR ''/'') p)"

definition is_relative_to :: "string \<Rightarrow> string \<Rightarrow> bool" where
  "is_relative_to p d \<longleftrightarrow>
     startswith p ''/'' = startswith d ''/'' \<and> take (length (path_parts d)) (path_parts p) = path_parts d"

definition pick_site :: "string option \<Rightarrow> environ \<Rightarrow> string option" where
  "pick_site pinned environ =
     (if nonempty pinned then pinned
      else if nonempty (environ ''HTTP_X_FRAPPE_SITE_NAME'') then environ ''HTTP_X_FRAPPE_SITE_NAME''
      else environ ''HTTP_HOST'')"

definition site_file ::
  "(string option \<Rightarrow> string) \<Rightarrow> (string \<Rightarrow> string) \<Rightarrow> (string \<Rightarrow> bool) \<Rightarrow> (string \<Rightarrow> bool) \<Rightarrow>
   string option \<Rightarrow> environ \<Rightarrow> string \<Rightarrow> string \<Rightarrow> string option" where
  "site_file get_site_name resolve isfile has_config pinned environ directory path =
     (let site = get_site_name (pick_site pinned environ)
      in if basename site \<noteq> site \<or> \<not> is_site has_config (Some site) then None
         else let files = directory @ ''/'' @ site @ ''/public/files'';
                  file = resolve (if startswith path ''/'' then path else files @ ''/'' @ path)
              in if \<not> is_relative_to file files \<or> \<not> isfile file then None else Some file)"

section \<open>Lemmas\<close>

lemma lift_exn_Inr [simp]: "lift_exn r = Inr a \<longleftrightarrow> r = Inr a"
  by (cases r) auto

lemma check_Inr [simp]: "check b m = Inr u \<longleftrightarrow> b"
  by (simp add: check_def)

lemma path_parts_sep: "path_parts (p @ CHR ''/'' # q) = path_parts p @ path_parts q"
  by (simp add: path_parts_def split_on_sep)

lemma basename_slash: "basename s = s \<Longrightarrow> CHR ''/'' \<notin> set s"
proof
  assume b: "basename s = s" and m: "CHR ''/'' \<in> set s"
  obtain x f a where p: "partition1 (CHR ''/'') (rev s) = (x, f, a)" by (metis prod.exhaust)
  from partition1_found [OF p] m have "f" "CHR ''/'' \<notin> set x"
    by (auto split: if_splits dest: arg_cong [of _ _ set])
  with b p m show False by (simp add: basename_def rpartition1_def) (metis set_rev)
qed

lemma path_parts_free: "CHR ''/'' \<notin> set s \<Longrightarrow> path_parts s = (if s = [] \<or> s = ''.'' then [] else [s])"
  by (simp add: path_parts_def split_on_free)

lemma url_hostname_ne: "url_hostname u \<noteq> Some []"
  by (auto simp: url_hostname_def lower_def split: prod.splits if_splits dest!: partition1_found)

lemma get_hostname_ne: "get_hostname ip_ok x \<noteq> Inr (Some [])"
  using url_hostname_ne by (auto simp: get_hostname_def sumres split: option.splits)

lemma header_keys:
  "header_key ''X-Frappe-Site-Name'' = ''HTTP_X_FRAPPE_SITE_NAME''" "header_key ''Host'' = ''HTTP_HOST''"
  "header_key ''Origin'' = ''HTTP_ORIGIN''"
  by code_simp+

lemma get_user_info_user:
  "get_user_info web hs = Inr info \<Longrightarrow> \<exists>u. dget info ''user'' JNull = Inr u \<and> truthy u"
  by (auto simp: get_user_info_def sumres split: sum.splits)

lemma ditem_dget: "ditem v k = Inr x \<Longrightarrow> dget v k d = Inr x"
  by (auto simp: ditem_def dget_def split: json.splits option.splits)

lemma conf_text_ne: "conf_text v = Inr s \<Longrightarrow> truthy v \<Longrightarrow> s \<noteq> []"
  by (cases v) (auto simp: conf_text_def)

lemma make_session_user:
  assumes "make_session site info hs = Inr s" "dget info ''user'' JNull = Inr u" "truthy u"
  shows "s_user s \<noteq> []"
proof -
  obtain v w where "ditem info ''user'' = Inr v" "conf_text v = Inr w" "s_user s = w"
    using assms(1) by (auto simp: make_session_def sumres)
  with assms(2,3) ditem_dget [of info "''user''" v JNull] conf_text_ne [of v w] show ?thesis by simp
qed

section \<open>Properties\<close>


definition sample_realtime :: realtime_config where
  "sample_realtime = \<lparr>r_port = 9000, redis_queue = JStr DEFAULT_REDIS_QUEUE, r_uds = JNull,
     default_site = ''main.lan'', developer_mode = True, webserver_port = Some 8000, webserver_host = ''localhost'',
     worker_threads = 4, r_sites_path = ''/bench/sites'', embedded = False, redis_manager = False\<rparr>"

definition sample_environ :: environ where
  "sample_environ = [''HTTP_HOST'' \<mapsto> ''localhost:8000'', ''HTTP_ORIGIN'' \<mapsto> ''http://LocalHost'',
     ''HTTP_COOKIE'' \<mapsto> ''sid=s1'']"

definition sample_web :: "(string \<times> string) list \<Rightarrow> nat \<Rightarrow> exn + json" where
  "sample_web hs n = Inr (JObj [(''message'', JObj [(''user'', JStr ''a@b.c''), (''installed_apps'', JArr [JStr ''frappe''])])])"

lemma sample_accepted:
  "authenticate (\<lambda>_. True) (\<lambda>n. n = ''main.lan'') (\<lambda>h. Some (drop 4 h)) ''k'' sample_web sample_environ ''/main.lan''
     sample_realtime =
   Inr \<lparr>s_site = ''main.lan'', s_user = ''a@b.c'', user_type = JNull, installed_apps = JArr [JStr ''frappe''],
        s_headers = [(''Cookie'', ''sid=s1''), (''X-Frappe-Site-Name'', ''main.lan''), (''X-Frappe-Socket-Secret'', ''k'')],
        tracked = []\<rparr>"
  by code_simp


text \<open>The site the web process serves a request as: the header's, else the Host's (the documented order
  of \<^verbatim>\<open>frappe.app.init_request\<close>, with no pinned site).\<close>

definition web_site :: "(string \<Rightarrow> bool) \<Rightarrow> environ \<Rightarrow> exn + string option" where
  "web_site ip_ok environ =
     (if nonempty (environ ''HTTP_X_FRAPPE_SITE_NAME'') then Inr (environ ''HTTP_X_FRAPPE_SITE_NAME'')
      else get_hostname ip_ok (environ ''HTTP_HOST''))"

text \<open>The socket lands on the site the page came from: without a proxy's header, and from a page of
  the same host, the site the realtime server resolves is the site the web process serves after the
  default-site middleware.\<close>

theorem socket_and_page_same_site:
  assumes "\<not> nonempty (environ ''HTTP_X_FRAPPE_SITE_NAME'')"
    and "get_hostname ip_ok (environ ''HTTP_ORIGIN'') \<in> {Inr None, get_hostname ip_ok (environ ''HTTP_HOST'')}"
    and "default_site_environ ip_ok has_config c environ = Inr environ'"
    and "get_hostname ip_ok (environ ''HTTP_HOST'') = Inr h"
  shows "resolve_site_name ip_ok has_config environ c = web_site ip_ok environ'"
proof -
  have o: "get_hostname ip_ok (environ ''HTTP_ORIGIN'') = Inr None \<or> get_hostname ip_ok (environ ''HTTP_ORIGIN'') = Inr h"
    using assms(2,4) by auto
  have "h \<noteq> Some []" using assms(4) get_hostname_ne [of ip_ok "environ ''HTTP_HOST''"] by auto
  then have h: "nonempty h \<or> h = None" by (auto simp: nonempty_def split: option.split)
  have "resolve_site_name ip_ok has_config environ c =
      Inr (if default_site c \<noteq> [] \<and> \<not> is_site has_config h then Some (default_site c) else h)"
    using assms(1,4) o h
    by (auto simp: resolve_site_name_def Let_def read_header_def header_keys opt_or_def nonempty_def
        split: option.splits)
  also have "\<dots> = web_site ip_ok environ'"
    using assms(1,3,4) by (auto simp: default_site_environ_def web_site_def nonempty_def split: if_splits)
  finally show ?thesis .
qed

theorem socket_and_page_same_site_witness:
  "resolve_site_name (\<lambda>_. True) (\<lambda>n. n = ''main.lan'') sample_environ sample_realtime = Inr (Some ''main.lan'')"
proof -
  have h: "get_hostname (\<lambda>_. True) (sample_environ ''HTTP_HOST'') = Inr (Some ''localhost'')"
    "get_hostname (\<lambda>_. True) (sample_environ ''HTTP_ORIGIN'') = Inr (Some ''localhost'')"
    "\<not> nonempty (sample_environ ''HTTP_X_FRAPPE_SITE_NAME'')"
    by code_simp+
  have e: "default_site_environ (\<lambda>_. True) (\<lambda>n. n = ''main.lan'') sample_realtime sample_environ =
      Inr (sample_environ(''HTTP_X_FRAPPE_SITE_NAME'' \<mapsto> ''main.lan''))"
    using h by (simp add: default_site_environ_def sample_realtime_def is_site_def)
  have o: "get_hostname (\<lambda>_. True) (sample_environ ''HTTP_ORIGIN'') \<in> {Inr None, get_hostname (\<lambda>_. True) (sample_environ ''HTTP_HOST'')}"
    using h by simp
  from socket_and_page_same_site [OF h(3) o e h(1)] show ?thesis by (simp add: web_site_def nonempty_def)
qed

text \<open>A \<^verbatim>\<open>/files\<close> request reads only public files of a site of this bench: whatever the headers and
  the path, the file served resolves to one below \<^verbatim>\<open><sites>/<site>/public/files\<close>, where the site is
  a single name with a site config.\<close>

theorem site_file_confined:
  assumes "site_file get_site_name resolve isfile has_config pinned environ directory path = Some f"
  shows "\<exists>site rest. CHR ''/'' \<notin> set site \<and> has_config site \<and> isfile f \<and>
    path_parts f = path_parts directory @ path_parts site @ [''public'', ''files''] @ rest"
proof -
  let ?site = "get_site_name (pick_site pinned environ)"
  let ?files = "directory @ ''/'' @ ?site @ ''/public/files''"
  have b: "basename ?site = ?site" and c: "is_site has_config (Some ?site)"
    and f: "is_relative_to f ?files" "isfile f"
    using assms unfolding site_file_def Let_def by (auto split: if_splits)
  have p: "path_parts ?files = path_parts directory @ path_parts ?site @ [''public'', ''files'']"
    by (simp add: path_parts_sep) (simp add: path_parts_def)
  have "path_parts f = path_parts ?files @ drop (length (path_parts ?files)) (path_parts f)"
    using f(1) unfolding is_relative_to_def by (metis append_take_drop_id)
  then have "path_parts f = path_parts directory @ path_parts ?site @ [''public'', ''files''] @
      drop (length (path_parts ?files)) (path_parts f)" by (simp only: p append_assoc)
  moreover have "has_config ?site" using c by (simp add: is_site_def)
  ultimately show ?thesis using basename_slash [OF b] f(2) by blast
qed

theorem site_file_confined_witness:
  "CHR ''/'' \<notin> set ''main.lan'' \<and> site_file (\<lambda>x. case x of Some s \<Rightarrow> s | None \<Rightarrow> []) (\<lambda>p. p) (\<lambda>p. True) (\<lambda>n. n = ''main.lan'') None
     [''HTTP_X_FRAPPE_SITE_NAME'' \<mapsto> ''main.lan''] ''/b'' ''logo.png'' = Some ''/b/main.lan/public/files/logo.png''"
proof -
  have f: "site_file (\<lambda>x. case x of Some s \<Rightarrow> s | None \<Rightarrow> []) (\<lambda>p. p) (\<lambda>p. True) (\<lambda>n. n = ''main.lan'') None
     [''HTTP_X_FRAPPE_SITE_NAME'' \<mapsto> ''main.lan''] ''/b'' ''logo.png'' = Some ''/b/main.lan/public/files/logo.png''"
    by code_simp
  from site_file_confined [OF f] f show ?thesis by auto
qed

text \<open>Starting again in place is safe: the re-exec keeps the working directory and the environment,
  and entering the sites directory from there changes nothing, when absolute paths keep their meaning
  and the sites directory holds \<^verbatim>\<open>apps.txt\<close> or is named by \<^verbatim>\<open>SITES_PATH\<close>.\<close>

theorem enter_sites_dir_again:
  assumes "\<And>d p. abspath d (abspath cwd p) = abspath cwd p" "\<And>d p. isdir d (abspath cwd p) = isdir cwd p"
    and "\<And>p. p \<noteq> [] \<Longrightarrow> abspath cwd p \<noteq> []"
    and "isdir cwd ''sites'' \<Longrightarrow> isfile (abspath cwd ''sites'') ''apps.txt''"
    and "nonempty (env ''SITES_PATH'') \<Longrightarrow> \<not> isdir cwd (the (env ''SITES_PATH'')) \<Longrightarrow>
      \<not> isdir (abspath cwd ''sites'') (the (env ''SITES_PATH''))"
  shows "enter_sites_dir isdir isfile abspath (enter_sites_dir isdir isfile abspath (cwd, env)) =
    enter_sites_dir isdir isfile abspath (cwd, env)"
  using assms by (auto simp: enter_sites_dir_def Let_def nonempty_def fun_upd_idem split: option.splits)

definition sample_abspath :: "string \<Rightarrow> string \<Rightarrow> string" where
  "sample_abspath d p = (if startswith p ''/'' then p else d @ ''/'' @ p)"

theorem enter_sites_dir_again_witness:
  "enter_sites_dir (\<lambda>d p. sample_abspath d p = ''/b/sites'') (\<lambda>d p. p = ''apps.txt'') sample_abspath
     (enter_sites_dir (\<lambda>d p. sample_abspath d p = ''/b/sites'') (\<lambda>d p. p = ''apps.txt'') sample_abspath
       (''/b'', [''SITES_PATH'' \<mapsto> ''sites''])) = (''/b/sites'', [''SITES_PATH'' \<mapsto> ''/b/sites''])"
proof -
  have a: "sample_abspath d (sample_abspath ''/b'' p) = sample_abspath ''/b'' p" for d p
    by (simp add: sample_abspath_def startswith_def)
  have n: "p \<noteq> [] \<Longrightarrow> sample_abspath ''/b'' p \<noteq> []" for p by (simp add: sample_abspath_def)
  have s: "sample_abspath ''/b'' ''sites'' = ''/b/sites''" by (simp add: sample_abspath_def startswith_def)
  have "enter_sites_dir (\<lambda>d p. sample_abspath d p = ''/b/sites'') (\<lambda>d p. p = ''apps.txt'') sample_abspath
     (enter_sites_dir (\<lambda>d p. sample_abspath d p = ''/b/sites'') (\<lambda>d p. p = ''apps.txt'') sample_abspath
       (''/b'', [''SITES_PATH'' \<mapsto> ''sites''])) =
     enter_sites_dir (\<lambda>d p. sample_abspath d p = ''/b/sites'') (\<lambda>d p. p = ''apps.txt'') sample_abspath
       (''/b'', [''SITES_PATH'' \<mapsto> ''sites''])"
    by (rule enter_sites_dir_again) (simp_all add: a n s nonempty_def)
  also have "\<dots> = (''/b/sites'', [''SITES_PATH'' \<mapsto> ''/b/sites''])"
    by (simp add: enter_sites_dir_def nonempty_def s)
  finally show ?thesis .
qed

end
