(* ===== verification/Realtime.thy ===== *)
theory Realtime
  imports RealtimeAuth PyJsonText
begin

text \<open>
  The realtime server after a connection is accepted: \<^verbatim>\<open>runtime/src/frappe_runtime/registry.py\<close>
  (who registered which handler), \<^verbatim>\<open>dispatch.py\<close> (which handlers an event runs), \<^verbatim>\<open>socket.py\<close> and
  \<^verbatim>\<open>handlers.py\<close> (the rooms a client joins, the documents it has open) and \<^verbatim>\<open>bridge.py\<close> (messages
  from redis).  python-socketio is the parameter \<open>io\<close>: operations on a state of its own; the calls
  made to it and the permission answers are logged.  The arguments of a client's events are texts.
\<close>

section \<open>registry.py\<close>

record handler =
  h_event :: string
  h_fn :: nat
  h_context :: bool
  h_guest :: bool
  h_app :: string

record registry =
  r_handlers :: "(string \<times> handler list) list"
  current_app :: string

definition CORE_APP :: string where "CORE_APP = ''frappe''"

definition new_registry :: registry where
  "new_registry = \<lparr>r_handlers = [], current_app = CORE_APP\<rparr>"

text \<open>\<^verbatim>\<open>handlers_for\<close> and \<^verbatim>\<open>events\<close>.\<close>

definition handlers_for :: "registry \<Rightarrow> string \<Rightarrow> handler list" where
  "handlers_for r event = (case map_of (r_handlers r) event of Some hs \<Rightarrow> hs | None \<Rightarrow> [])"

definition events :: "registry \<Rightarrow> string list" where
  "events r = map fst (r_handlers r)"

text \<open>\<^verbatim>\<open>on\<close> of a function, with whether it is async: a registration is refused when it asks for the
  Frappe context and is async.\<close>

record registration =
  g_event :: string
  g_fn :: nat
  g_async :: bool
  g_context :: bool
  g_guest :: bool

definition reg_on :: "registration \<Rightarrow> registry \<Rightarrow> exn + registry" where
  "reg_on g r =
     (if g_context g \<and> g_async g then Inl TypeError
      else Inr (r\<lparr>r_handlers := AList.update (g_event g)
        (handlers_for r (g_event g) @
          [\<lparr>h_event = g_event g, h_fn = g_fn g, h_context = g_context g, h_guest = g_guest g,
            h_app = current_app r\<rparr>]) (r_handlers r)\<rparr>))"

text \<open>\<^verbatim>\<open>discover_app_handlers\<close>: every app but Frappe; its module is imported if it has one (None: it has
  none), its registrations are tagged with the app, and the tag is put back also when the import
  raises (which ends the discovery).\<close>

definition import_app :: "string \<Rightarrow> registration list \<Rightarrow> registry \<Rightarrow> exn + registry" where
  "import_app app gs r =
     bindE (foldE reg_on gs (r\<lparr>current_app := app\<rparr>)) (\<lambda>r'. Inr (r'\<lparr>current_app := current_app r\<rparr>))"

definition discover_app_handlers ::
  "(string \<Rightarrow> registration list option) \<Rightarrow> string list \<Rightarrow> registry \<Rightarrow> exn + registry" where
  "discover_app_handlers mods apps r =
     foldE (\<lambda>app r. if app = CORE_APP then Inr r
       else case mods app of None \<Rightarrow> Inr r | Some gs \<Rightarrow> import_app app gs r) apps r"

section \<open>dispatch.py\<close>

definition RESERVED_EVENTS :: "string list" where "RESERVED_EVENTS = [''connect'', ''disconnect'']"

text \<open>\<^verbatim>\<open>_run_handlers\<close>: the handlers of the event in the order of registration; a handler whose app is
  not installed on the site is skipped, one that is not for guests is skipped for a guest, and an
  exception ends only the handler.  \<open>call\<close> runs one handler: whether it raised, and the new state.\<close>

definition runs_for :: "session \<Rightarrow> handler \<Rightarrow> exn + bool" where
  "runs_for s h =
     bindE (py_in (JStr (h_app h)) (installed_apps s)) (\<lambda>inst.
       Inr (inst \<and> (s_user s \<noteq> ''Guest'' \<or> h_guest h)))"

fun run_handlers :: "(handler \<Rightarrow> 's \<Rightarrow> bool \<times> 's) \<Rightarrow> session \<Rightarrow> handler list \<Rightarrow> 's \<Rightarrow> (exn + unit) \<times> 's" where
  "run_handlers call ss [] s = (Inr (), s)"
| "run_handlers call ss (h # hs) s =
     (case runs_for ss h of
        Inl e \<Rightarrow> (Inl e, s)
      | Inr b \<Rightarrow> if \<not> b then run_handlers call ss hs s
                else run_handlers call ss hs (snd (call h s)))"

text \<open>An event: nothing without handlers, nothing without a session.\<close>

definition dispatch_event ::
  "(handler \<Rightarrow> 's \<Rightarrow> bool \<times> 's) \<Rightarrow> registry \<Rightarrow> ('s \<Rightarrow> session option) \<Rightarrow> string \<Rightarrow> 's \<Rightarrow> (exn + unit) \<times> 's" where
  "dispatch_event call r get_session event s =
     (let hs = handlers_for r event
      in if hs = [] then (Inr (), s)
         else case get_session s of
                None \<Rightarrow> (Inr (), s)
              | Some ss \<Rightarrow> run_handlers call ss hs s)"

text \<open>\<^verbatim>\<open>wire\<close>: the events that get a dispatcher of their own besides the two of the life cycle.\<close>

definition wired_events :: "registry \<Rightarrow> string list" where
  "wired_events r = filter (\<lambda>e. e \<notin> set RESERVED_EVENTS) (events r)"

section \<open>socket.py\<close>

record 'w sio =
  io_connected :: "'w \<Rightarrow> bool"
  io_enter :: "string \<Rightarrow> 'w \<Rightarrow> 'w"
  io_leave :: "string \<Rightarrow> 'w \<Rightarrow> 'w"
  io_emit :: "string \<Rightarrow> json \<Rightarrow> string \<Rightarrow> 'w \<Rightarrow> 'w"
  io_save :: "session \<Rightarrow> 'w \<Rightarrow> 'w"
  io_participants :: "string \<Rightarrow> 'w \<Rightarrow> string list"
  io_user :: "string \<Rightarrow> 'w \<Rightarrow> string option"
  io_permission :: "string \<Rightarrow> string \<Rightarrow> 'w \<Rightarrow> bool \<times> 'w"

text \<open>The calls that matter to a client: rooms entered and left, events sent, sessions saved, and the
  permission answers.\<close>

datatype call =
    Enter string
  | Leave string
  | Emit string json string
  | Save "(string \<times> string) list"
  | Asked string string bool

record 'w socket =
  so_sid :: string
  so_session :: session
  so_world :: 'w
  so_log :: "call list"

definition io_call :: "call \<Rightarrow> ('w \<Rightarrow> 'w) \<Rightarrow> 'w socket \<Rightarrow> 'w socket" where
  "io_call c f s = s\<lparr>so_world := f (so_world s), so_log := so_log s @ [c]\<rparr>"

definition so_user :: "'w socket \<Rightarrow> string" where
  "so_user s = s_user (so_session s)"

definition so_join :: "'w sio \<Rightarrow> string \<Rightarrow> 'w socket \<Rightarrow> 'w socket" where
  "so_join io room s =
     (if \<not> io_connected io (so_world s) then s else io_call (Enter room) (io_enter io room) s)"

definition so_leave :: "'w sio \<Rightarrow> string \<Rightarrow> 'w socket \<Rightarrow> 'w socket" where
  "so_leave io room s =
     (if \<not> io_connected io (so_world s) then s else io_call (Leave room) (io_leave io room) s)"

definition so_emit :: "'w sio \<Rightarrow> string \<Rightarrow> json \<Rightarrow> string option \<Rightarrow> 'w socket \<Rightarrow> 'w socket" where
  "so_emit io event d room s =
     (let target = (if nonempty room then the room else so_sid s)
      in io_call (Emit event d target) (io_emit io event d target) s)"

text \<open>\<^verbatim>\<open>set\<close> of the one key the handlers use, \<^verbatim>\<open>subscribed_documents\<close>.\<close>

definition so_set_tracked :: "'w sio \<Rightarrow> (string \<times> string) list \<Rightarrow> 'w socket \<Rightarrow> 'w socket" where
  "so_set_tracked io v s =
     (let s1 = s\<lparr>so_session := (so_session s)\<lparr>tracked := v\<rparr>\<rparr>
      in if \<not> io_connected io (so_world s1) then s1
         else io_call (Save v) (io_save io (so_session s1)) s1)"

definition so_permission :: "'w sio \<Rightarrow> string \<Rightarrow> string \<Rightarrow> 'w socket \<Rightarrow> bool \<times> 'w socket" where
  "so_permission io doctype name s =
     (let (b, w) = io_permission io doctype name (so_world s)
      in (b, s\<lparr>so_world := w, so_log := so_log s @ [Asked doctype name b]\<rparr>))"

section \<open>handlers.py\<close>

definition WEBSITE_ROOM :: string where "WEBSITE_ROOM = ''website''"
definition SITE_ROOM :: string where "SITE_ROOM = ''all''"

definition user_room :: "string \<Rightarrow> string" where "user_room user = ''user:'' @ user"
definition doctype_room :: "string \<Rightarrow> string" where "doctype_room doctype = ''doctype:'' @ doctype"
definition doc_room :: "string \<Rightarrow> string \<Rightarrow> string" where
  "doc_room doctype docname = ''doc:'' @ doctype @ ''/'' @ docname"
definition task_room :: "string \<Rightarrow> string" where "task_room task_id = ''task_progress:'' @ task_id"
definition open_doc_room :: "string \<Rightarrow> string \<Rightarrow> string" where
  "open_doc_room doctype docname = ''open_doc:'' @ doctype @ ''/'' @ docname"

definition on_connect :: "'w sio \<Rightarrow> 'w socket \<Rightarrow> 'w socket" where
  "on_connect io s =
     (let s1 = so_join io WEBSITE_ROOM (so_join io (user_room (so_user s)) s)
      in if py_eq (jor (user_type (so_session s)) (JStr [])) (JStr ''System User'')
         then so_join io SITE_ROOM s1 else s1)"

definition ping :: "'w sio \<Rightarrow> 'w socket \<Rightarrow> 'w socket" where
  "ping io s = so_emit io ''pong'' JNull None s"

definition doctype_subscribe :: "'w sio \<Rightarrow> string \<Rightarrow> 'w socket \<Rightarrow> 'w socket" where
  "doctype_subscribe io doctype s =
     (let (b, s1) = so_permission io doctype [] s
      in if b then so_join io (doctype_room doctype) s1 else s1)"

definition doctype_unsubscribe :: "'w sio \<Rightarrow> string \<Rightarrow> 'w socket \<Rightarrow> 'w socket" where
  "doctype_unsubscribe io doctype s = so_leave io (doctype_room doctype) s"

definition task_subscribe :: "'w sio \<Rightarrow> string \<Rightarrow> 'w socket \<Rightarrow> 'w socket" where
  "task_subscribe io task_id s = so_join io (task_room task_id) s"

definition task_unsubscribe :: "'w sio \<Rightarrow> string \<Rightarrow> 'w socket \<Rightarrow> 'w socket" where
  "task_unsubscribe io task_id s = so_leave io (task_room task_id) s"

definition progress_subscribe :: "'w sio \<Rightarrow> string \<Rightarrow> 'w socket \<Rightarrow> 'w socket" where
  "progress_subscribe io task_id s = so_join io (task_room task_id) s"

definition doc_subscribe :: "'w sio \<Rightarrow> string \<Rightarrow> string \<Rightarrow> 'w socket \<Rightarrow> 'w socket" where
  "doc_subscribe io doctype docname s =
     (let (b, s1) = so_permission io doctype docname s
      in if b then so_join io (doc_room doctype docname) s1 else s1)"

definition doc_unsubscribe :: "'w sio \<Rightarrow> string \<Rightarrow> string \<Rightarrow> 'w socket \<Rightarrow> 'w socket" where
  "doc_unsubscribe io doctype docname s = so_leave io (doc_room doctype docname) s"

text \<open>\<^verbatim>\<open>notify_doc_viewers\<close>: the users of the sockets that have the document open.\<close>

definition viewers :: "'w sio \<Rightarrow> string \<Rightarrow> 'w \<Rightarrow> string list" where
  "viewers io room w = concat (map (\<lambda>sid. case io_user io sid w of
      Some u \<Rightarrow> if u \<noteq> [] then [u] else [] | None \<Rightarrow> []) (io_participants io room w))"

definition notify_doc_viewers :: "'w sio \<Rightarrow> string \<Rightarrow> string \<Rightarrow> 'w socket \<Rightarrow> 'w socket" where
  "notify_doc_viewers io doctype docname s =
     (if doctype = [] \<or> docname = [] then s
      else let room = open_doc_room doctype docname; users = viewers io room (so_world s)
           in if length users = 1 \<and> users ! 0 = so_user s then s
              else so_emit io ''doc_viewers''
                (JObj [(''doctype'', JStr doctype), (''docname'', JStr docname),
                       (''users'', JArr (map JStr (dedup users)))]) (Some room) s)"

definition doc_open :: "'w sio \<Rightarrow> string \<Rightarrow> string \<Rightarrow> 'w socket \<Rightarrow> 'w socket" where
  "doc_open io doctype docname s =
     (let (b, s1) = so_permission io doctype docname s
      in if \<not> b then s1
         else let s2 = so_join io (open_doc_room doctype docname) s1;
                  t = tracked (so_session s2); pair = (doctype, docname);
                  s3 = (if pair \<notin> set t then so_set_tracked io (t @ [pair]) s2 else s2)
              in notify_doc_viewers io doctype docname s3)"

definition doc_close :: "'w sio \<Rightarrow> string \<Rightarrow> string \<Rightarrow> 'w socket \<Rightarrow> 'w socket" where
  "doc_close io doctype docname s =
     (let s1 = so_leave io (open_doc_room doctype docname) s;
          t = filter (\<lambda>p. \<not> (fst p = doctype \<and> snd p = docname)) (tracked (so_session s1));
          s2 = so_set_tracked io t s1
      in notify_doc_viewers io doctype docname s2)"

definition on_disconnect :: "'w sio \<Rightarrow> 'w socket \<Rightarrow> 'w socket" where
  "on_disconnect io s =
     fold (\<lambda>(doctype, docname). notify_doc_viewers io doctype docname) (tracked (so_session s)) s"

text \<open>The events of a client, served by the core handlers.\<close>

datatype client_event =
    Ping
  | DoctypeSubscribe string
  | DoctypeUnsubscribe string
  | TaskSubscribe string
  | TaskUnsubscribe string
  | ProgressSubscribe string
  | DocSubscribe string string
  | DocUnsubscribe string string
  | DocOpen string string
  | DocClose string string

fun on_client :: "'w sio \<Rightarrow> client_event \<Rightarrow> 'w socket \<Rightarrow> 'w socket" where
  "on_client io Ping = ping io"
| "on_client io (DoctypeSubscribe d) = doctype_subscribe io d"
| "on_client io (DoctypeUnsubscribe d) = doctype_unsubscribe io d"
| "on_client io (TaskSubscribe t) = task_subscribe io t"
| "on_client io (TaskUnsubscribe t) = task_unsubscribe io t"
| "on_client io (ProgressSubscribe t) = progress_subscribe io t"
| "on_client io (DocSubscribe d n) = doc_subscribe io d n"
| "on_client io (DocUnsubscribe d n) = doc_unsubscribe io d n"
| "on_client io (DocOpen d n) = doc_open io d n"
| "on_client io (DocClose d n) = doc_close io d n"

text \<open>A connection: what others do to the shared state between two events is \<open>env\<close>.\<close>

fun connection :: "'w sio \<Rightarrow> (('w \<Rightarrow> 'w) \<times> client_event) list \<Rightarrow> 'w socket \<Rightarrow> 'w socket" where
  "connection io [] s = s"
| "connection io ((env, e) # es) s =
     connection io es (on_client io e (s\<lparr>so_world := env (so_world s)\<rparr>))"

section \<open>bridge.py\<close>

record emission =
  e_event :: json
  e_message :: json
  e_room :: "json option"
  e_namespace :: string

text \<open>\<^verbatim>\<open>from_raw\<close>: the event, the message, the room and the namespace.\<close>

definition from_raw :: "string option \<Rightarrow> exn + json \<times> json \<times> json \<times> json" where
  "from_raw raw =
     (case raw of
        None \<Rightarrow> Inl TypeError
      | Some text \<Rightarrow>
          bindE (case loads text of Some d \<Rightarrow> Inr d | None \<Rightarrow> Inl (ValueError ''JSON'')) (\<lambda>d.
          bindE (ditem d ''event'') (\<lambda>event.
          bindE (dget d ''message'' JNull) (\<lambda>message.
          bindE (dget d ''room'' JNull) (\<lambda>room.
          bindE (dget d ''namespace'' JNull) (\<lambda>ns. Inr (event, message, room, ns)))))))"

definition caught :: "exn \<Rightarrow> bool" where
  "caught e = (case e of ValueError _ \<Rightarrow> True | TypeError \<Rightarrow> True | KeyError \<Rightarrow> True | _ \<Rightarrow> False)"

text \<open>\<^verbatim>\<open>_handle\<close>: what is sent, given the namespaces connected.\<close>

definition bridge_handle :: "string list \<Rightarrow> string option \<Rightarrow> exn + emission list" where
  "bridge_handle namespaces raw =
     (case from_raw raw of
        Inl e \<Rightarrow> if caught e then Inr [] else Inl e
      | Inr (event, message, room, ns) \<Rightarrow>
          if truthy room then
            if \<not> truthy ns then Inr []
            else case ns of
                   JStr n \<Rightarrow> Inr [\<lparr>e_event = event, e_message = message, e_room = Some room,
                                  e_namespace = ''/'' @ n\<rparr>]
                 | _ \<Rightarrow> Inl TypeError
          else Inr (map (\<lambda>n. \<lparr>e_event = event, e_message = message, e_room = None, e_namespace = n\<rparr>) namespaces))"

section \<open>Lemmas\<close>

text \<open>The rooms that carry documents, and the answers that allow one.\<close>

definition guarded_room :: "string \<Rightarrow> bool" where
  "guarded_room r \<longleftrightarrow> startswith r ''doctype:'' \<or> startswith r ''doc:'' \<or> startswith r ''open_doc:''"

definition allowed :: "call set \<Rightarrow> string \<Rightarrow> bool" where
  "allowed seen r \<longleftrightarrow> (\<exists>d n. Asked d n True \<in> seen \<and>
     (r = doctype_room d \<and> n = [] \<or> r = doc_room d n \<or> r = open_doc_room d n))"

fun rooms_from :: "call set \<Rightarrow> call list \<Rightarrow> bool" where
  "rooms_from seen [] = True"
| "rooms_from seen (c # cs) =
     ((case c of Enter r \<Rightarrow> guarded_room r \<longrightarrow> allowed seen r | _ \<Rightarrow> True) \<and> rooms_from (insert c seen) cs)"

abbreviation rooms_ok :: "call list \<Rightarrow> bool" where
  "rooms_ok \<equiv> rooms_from {}"

lemma rooms_from_append [simp]:
  "rooms_from seen (xs @ ys) \<longleftrightarrow> rooms_from seen xs \<and> rooms_from (seen \<union> set xs) ys"
  by (induction xs arbitrary: seen) auto

lemma allowed_insert [simp]: "allowed (insert (Asked d n True) seen) (doc_room d n)"
  "allowed (insert (Asked d n True) seen) (open_doc_room d n)"
  "allowed (insert (Asked d [] True) seen) (doctype_room d)"
  by (auto simp: allowed_def)

lemma unguarded [simp]:
  "\<not> guarded_room (user_room u)" "\<not> guarded_room WEBSITE_ROOM" "\<not> guarded_room SITE_ROOM"
  "\<not> guarded_room (task_room t)"
  by (simp_all add: guarded_room_def user_room_def WEBSITE_ROOM_def SITE_ROOM_def task_room_def startswith_def)

text \<open>The log, the session and the identity after each operation.\<close>

lemma so_ops [simp]:
  "so_log (so_join io r s) = so_log s @ (if io_connected io (so_world s) then [Enter r] else [])"
  "so_log (so_leave io r s) = so_log s @ (if io_connected io (so_world s) then [Leave r] else [])"
  "so_log (so_emit io e d room s) = so_log s @ [Emit e d (if nonempty room then the room else so_sid s)]"
  "so_log (so_set_tracked io v s) = so_log s @ (if io_connected io (so_world s) then [Save v] else [])"
  "so_session (so_join io r s) = so_session s"
  "so_session (so_leave io r s) = so_session s"
  "so_session (so_emit io e d room s) = so_session s"
  "so_session (so_set_tracked io v s) = (so_session s)\<lparr>tracked := v\<rparr>"
  by (simp_all add: so_join_def so_leave_def so_emit_def so_set_tracked_def io_call_def Let_def)

lemma so_permission_log:
  "so_permission io d n s = (b, s') \<Longrightarrow> so_log s' = so_log s @ [Asked d n b] \<and> so_session s' = so_session s"
  by (auto simp: so_permission_def Let_def split: prod.splits)

lemma notify_log:
  "\<exists>cs. so_log (notify_doc_viewers io d n s) = so_log s @ cs \<and> (\<forall>c \<in> set cs. \<exists>e v room. c = Emit e v room)"
  by (auto simp: notify_doc_viewers_def Let_def)

lemma notify_session [simp]: "so_session (notify_doc_viewers io d n s) = so_session s"
  by (simp add: notify_doc_viewers_def Let_def)

lemma rooms_ok_notify [simp]: "rooms_ok (so_log (notify_doc_viewers io d n s)) \<longleftrightarrow> rooms_ok (so_log s)"
  by (auto simp: notify_doc_viewers_def Let_def)

lemma set_log_notify: "set (so_log s) \<subseteq> set (so_log (notify_doc_viewers io d n s))"
  by (auto simp: notify_doc_viewers_def Let_def)

text \<open>What holds of a connection: rooms entered were allowed, and the documents tracked are distinct
  and were permitted.\<close>

definition socket_inv :: "'w socket \<Rightarrow> bool" where
  "socket_inv s \<longleftrightarrow> rooms_ok (so_log s) \<and> distinct (tracked (so_session s)) \<and>
     (\<forall>(d, n) \<in> set (tracked (so_session s)). Asked d n True \<in> set (so_log s))"

lemma socket_inv_notify: "socket_inv s \<Longrightarrow> socket_inv (notify_doc_viewers io d n s)"
  using set_log_notify [of s io d n] unfolding socket_inv_def by (simp add: split_beta) blast

lemma socket_inv_open: "socket_inv s \<Longrightarrow> socket_inv (doc_open io d n s)"
proof -
  assume I: "socket_inv s"
  obtain b s1 where p: "so_permission io d n s = (b, s1)" by fastforce
  note l = so_permission_log [OF p]
  show ?thesis
  proof (cases b)
    case False
    with I p l show ?thesis by (auto simp: doc_open_def socket_inv_def)
  next
    case True
    let ?s2 = "so_join io (open_doc_room d n) s1"
    let ?s3 = "if (d, n) \<notin> set (tracked (so_session s1)) then so_set_tracked io (tracked (so_session s1) @ [(d, n)]) ?s2 else ?s2"
    have "rooms_ok (so_log ?s2)" using I l True by (simp add: socket_inv_def)
    then have "rooms_ok (so_log ?s3)" by simp
    moreover have "distinct (tracked (so_session ?s3))" using I l by (simp add: socket_inv_def)
    moreover have "\<forall>(d, n) \<in> set (tracked (so_session ?s3)). Asked d n True \<in> set (so_log ?s3)"
      using I l True by (auto simp: socket_inv_def)
    ultimately have "socket_inv ?s3" unfolding socket_inv_def by blast
    then have "socket_inv (notify_doc_viewers io d n ?s3)" by (rule socket_inv_notify)
    moreover have "doc_open io d n s = notify_doc_viewers io d n ?s3"
      using p True by (simp add: doc_open_def Let_def)
    ultimately show ?thesis by simp
  qed
qed

lemma socket_inv_close: "socket_inv s \<Longrightarrow> socket_inv (doc_close io d n s)"
proof -
  assume I: "socket_inv s"
  let ?t = "filter (\<lambda>p. \<not> (fst p = d \<and> snd p = n)) (tracked (so_session s))"
  let ?s2 = "so_set_tracked io ?t (so_leave io (open_doc_room d n) s)"
  have "rooms_ok (so_log ?s2)" "distinct (tracked (so_session ?s2))"
    "\<forall>(d, n) \<in> set (tracked (so_session ?s2)). Asked d n True \<in> set (so_log ?s2)"
    using I by (auto simp: socket_inv_def)
  then have "socket_inv ?s2" unfolding socket_inv_def by blast
  then show ?thesis by (simp add: doc_close_def Let_def socket_inv_notify)
qed

lemma socket_inv_client: "socket_inv s \<Longrightarrow> socket_inv (on_client io e s)"
proof (cases e)
  case (DoctypeSubscribe d)
  assume I: "socket_inv s"
  obtain b s1 where p: "so_permission io d [] s = (b, s1)" by fastforce
  from I so_permission_log [OF p] p DoctypeSubscribe show ?thesis
    by (auto simp: doctype_subscribe_def socket_inv_def)
next
  case (DocSubscribe d n)
  assume I: "socket_inv s"
  obtain b s1 where p: "so_permission io d n s = (b, s1)" by fastforce
  from I so_permission_log [OF p] p DocSubscribe show ?thesis
    by (auto simp: doc_subscribe_def socket_inv_def)
next
  case (DocOpen d n)
  then show "socket_inv s \<Longrightarrow> ?thesis" by (simp add: socket_inv_open)
next
  case (DocClose d n)
  then show "socket_inv s \<Longrightarrow> ?thesis" by (simp add: socket_inv_close)
qed (auto simp: ping_def doctype_unsubscribe_def
    task_subscribe_def task_unsubscribe_def progress_subscribe_def doc_unsubscribe_def socket_inv_def)

lemma socket_inv_connection: "socket_inv s \<Longrightarrow> socket_inv (connection io es s)"
proof (induction io es s rule: connection.induct)
  case (2 io env e es s)
  have "socket_inv (s\<lparr>so_world := env (so_world s)\<rparr>)" using 2(2) by (simp add: socket_inv_def)
  with 2(1) show ?case by (simp add: socket_inv_client)
qed simp

section \<open>Properties\<close>

text \<open>A connection as it starts: the session is new and \<^verbatim>\<open>on_connect\<close> has run.\<close>

definition start_socket :: "'w sio \<Rightarrow> string \<Rightarrow> session \<Rightarrow> 'w \<Rightarrow> 'w socket" where
  "start_socket io sid ss w = on_connect io \<lparr>so_sid = sid, so_session = ss, so_world = w, so_log = []\<rparr>"


definition sample_io :: "nat sio" where
  "sample_io = \<lparr>io_connected = (\<lambda>w. True), io_enter = (\<lambda>r w. w + 1), io_leave = (\<lambda>r w. w), io_emit = (\<lambda>e d r w. w),
     io_save = (\<lambda>s w. w), io_participants = (\<lambda>r w. [''s1'', ''s2'']), io_user = (\<lambda>sid w. Some sid),
     io_permission = (\<lambda>d n w. (n = ''D1'', w))\<rparr>"

definition sample_session :: session where
  "sample_session = \<lparr>s_site = ''main.lan'', s_user = ''a@b.c'', user_type = JStr ''Website User'',
     installed_apps = JArr [JStr ''frappe''], s_headers = [], tracked = []\<rparr>"

lemma sample_log:
  "so_log (connection sample_io [(\<lambda>w. w, DocSubscribe ''Note'' ''D2''), (\<lambda>w. w, DocSubscribe ''Note'' ''D1'')]
     (start_socket sample_io ''s1'' sample_session 0)) =
   [Enter (user_room ''a@b.c''), Enter WEBSITE_ROOM, Asked ''Note'' ''D2'' False, Asked ''Note'' ''D1'' True] @
   Enter (doc_room ''Note'' ''D1'') # []"
  by (simp add: start_socket_def on_connect_def sample_io_def sample_session_def so_join_def so_user_def io_call_def
      Let_def jor_def doc_subscribe_def so_permission_def)


text \<open>Open documents are tracked right: at any time of a connection the documents tracked are
  distinct and each was permitted; closing one drops exactly it; and at the end every document still
  open, and no other, has its viewers told.\<close>

theorem open_documents_tracked:
  assumes "tracked ss = []" "s = connection io es (start_socket io sid ss w)"
  shows "distinct (tracked (so_session s)) \<and> (\<forall>(d, n) \<in> set (tracked (so_session s)). Asked d n True \<in> set (so_log s)) \<and>
    tracked (so_session (doc_close io d n s)) = removeAll (d, n) (tracked (so_session s)) \<and>
    on_disconnect io (doc_close io d n s) =
      fold (\<lambda>(d, n). notify_doc_viewers io d n) (removeAll (d, n) (tracked (so_session s))) (doc_close io d n s)"
proof -
  have "socket_inv (start_socket io sid ss w)"
    using assms(1) by (auto simp: start_socket_def on_connect_def socket_inv_def Let_def)
  then have "socket_inv s" unfolding assms(2) by (rule socket_inv_connection)
  moreover have "tracked (so_session (doc_close io d n s)) = removeAll (d, n) (tracked (so_session s))"
    by (simp add: doc_close_def Let_def removeAll_filter_not_eq) (rule filter_cong, auto)
  ultimately show ?thesis by (simp add: socket_inv_def on_disconnect_def)
qed

theorem open_documents_tracked_witness:
  "tracked (so_session (connection sample_io [(\<lambda>w. w, DocOpen ''Note'' ''D1''), (\<lambda>w. w, DocOpen ''Note'' ''D1'')]
     (start_socket sample_io ''s1'' sample_session 0))) = [(''Note'', ''D1'')] \<and>
   distinct (tracked (so_session (connection sample_io [(\<lambda>w. w, DocOpen ''Note'' ''D1''), (\<lambda>w. w, DocOpen ''Note'' ''D1'')]
     (start_socket sample_io ''s1'' sample_session 0))))"
proof -
  have t: "tracked sample_session = []" by (simp add: sample_session_def)
  show ?thesis
    using open_documents_tracked [OF t refl, of sample_io "[(\<lambda>w. w, DocOpen ''Note'' ''D1''), (\<lambda>w. w, DocOpen ''Note'' ''D1'')]" "''s1''" 0]
    by (simp add: start_socket_def on_connect_def sample_io_def sample_session_def Let_def jor_def doc_open_def
        so_permission_def)
qed

text \<open>An event runs exactly the handlers that may run, in the order of registration: those whose app
  is installed on the site, less, for a guest, those not open to guests; a handler that raises does
  not keep the others from running.\<close>

theorem event_runs_the_right_handlers:
  assumes "installed_apps ss = JArr (map JStr apps)" "get_session s = Some ss"
  shows "dispatch_event call r get_session event s = (Inr (),
    fold (\<lambda>h s. snd (call h s))
      (filter (\<lambda>h. h_app h \<in> set apps \<and> (s_user ss \<noteq> ''Guest'' \<or> h_guest h)) (handlers_for r event)) s)"
proof -
  have "runs_for ss h = Inr (h_app h \<in> set apps \<and> (s_user ss \<noteq> ''Guest'' \<or> h_guest h))" for h
    using assms(1) by (auto simp: runs_for_def py_in_def list_ex_iff)
  then have "run_handlers call ss hs t = (Inr (), fold (\<lambda>h s. snd (call h s))
      (filter (\<lambda>h. h_app h \<in> set apps \<and> (s_user ss \<noteq> ''Guest'' \<or> h_guest h)) hs) t)" for hs t
    by (induction hs arbitrary: t) auto
  with assms(2) show ?thesis by (simp add: dispatch_event_def Let_def)
qed

definition sample_handler :: "nat \<Rightarrow> string \<Rightarrow> bool \<Rightarrow> handler" where
  "sample_handler n app guest = \<lparr>h_event = ''ping'', h_fn = n, h_context = False, h_guest = guest, h_app = app\<rparr>"

theorem event_runs_the_right_handlers_witness:
  "dispatch_event (\<lambda>h s. (True, s @ [h_fn h]))
     \<lparr>r_handlers = [(''ping'', [sample_handler 1 ''frappe'' True, sample_handler 2 ''hrms'' True, sample_handler 3 ''frappe'' False])],
       current_app = CORE_APP\<rparr>
     (\<lambda>s. Some (sample_session\<lparr>s_user := ''Guest''\<rparr>)) ''ping'' [] = (Inr (), [1])"
proof -
  have "installed_apps (sample_session\<lparr>s_user := ''Guest''\<rparr>) = JArr (map JStr [''frappe''])"
    by (simp add: sample_session_def)
  from event_runs_the_right_handlers [OF this, of "\<lambda>s. Some (sample_session\<lparr>s_user := ''Guest''\<rparr>)" "[]"
      "\<lambda>h s. (True, s @ [h_fn h])"
      "\<lparr>r_handlers = [(''ping'', [sample_handler 1 ''frappe'' True, sample_handler 2 ''hrms'' True, sample_handler 3 ''frappe'' False])],
        current_app = CORE_APP\<rparr>" "''ping''"]
  show ?thesis by (simp add: sample_session_def sample_handler_def handlers_for_def)
qed

text \<open>The handlers the discovery adds for an event, by the modules of the apps.\<close>

definition handler_of :: "string \<Rightarrow> registration \<Rightarrow> handler" where
  "handler_of app g = \<lparr>h_event = g_event g, h_fn = g_fn g, h_context = g_context g, h_guest = g_guest g, h_app = app\<rparr>"

definition module_handlers :: "(string \<Rightarrow> registration list option) \<Rightarrow> string \<Rightarrow> string \<Rightarrow> handler list" where
  "module_handlers mods event app =
     (if app = CORE_APP then [] else case mods app of None \<Rightarrow> []
      | Some gs \<Rightarrow> map (handler_of app) (filter (\<lambda>g. g_event g = event) gs))"

lemma reg_on_handlers:
  "reg_on g r = Inr r' \<Longrightarrow> current_app r' = current_app r \<and>
   handlers_for r' event = handlers_for r event @ (if g_event g = event then [handler_of (current_app r) g] else [])"
  by (auto simp: reg_on_def handlers_for_def handler_of_def split: if_splits)

lemma fold_reg_on:
  "foldE reg_on gs r = Inr r' \<Longrightarrow> current_app r' = current_app r \<and>
   handlers_for r' event = handlers_for r event @ map (handler_of (current_app r)) (filter (\<lambda>g. g_event g = event) gs)"
proof (induction gs arbitrary: r)
  case (Cons g gs)
  then obtain r1 where g: "reg_on g r = Inr r1" "foldE reg_on gs r1 = Inr r'" by (auto simp: sumres)
  from Cons.IH [OF g(2)] reg_on_handlers [OF g(1), of event] show ?case by simp
qed simp

text \<open>Every handler is tagged with the app whose module registered it: the discovery leaves the
  handlers there were, adds those of each app's module in the order of the apps and of the module,
  with that app as the owner (so a handler runs only on sites with that app), skips Frappe itself,
  and ends with the tag it began with.\<close>

theorem discovered_handlers_owned:
  assumes "discover_app_handlers mods apps r = Inr r'"
  shows "current_app r' = current_app r \<and>
    handlers_for r' event = handlers_for r event @ concat (map (module_handlers mods event) apps)"
  using assms
proof (induction apps arbitrary: r)
  case Nil
  then show ?case by (simp add: discover_app_handlers_def)
next
  case (Cons app apps)
  let ?f = "\<lambda>app r. if app = CORE_APP then Inr r
       else case mods app of None \<Rightarrow> Inr r | Some gs \<Rightarrow> import_app app gs r"
  obtain r1 where r1: "?f app r = Inr r1" and rest: "discover_app_handlers mods apps r1 = Inr r'"
    using Cons.prems unfolding discover_app_handlers_def foldE.simps bindE_eq_Inr_iff by blast
  have "current_app r1 = current_app r \<and> handlers_for r1 event = handlers_for r event @ module_handlers mods event app"
  proof (cases "app = CORE_APP \<or> mods app = None")
    case True
    with r1 show ?thesis by (auto simp: module_handlers_def)
  next
    case False
    then obtain gs where gs: "mods app = Some gs" "app \<noteq> CORE_APP" by blast
    with r1 obtain r2 where r2: "foldE reg_on gs (r\<lparr>current_app := app\<rparr>) = Inr r2" "r1 = r2\<lparr>current_app := current_app r\<rparr>"
      by (auto simp: import_app_def sumres)
    from fold_reg_on [OF r2(1), of event] r2(2) gs show ?thesis
      by (simp add: module_handlers_def handlers_for_def)
  qed
  with Cons.IH [OF rest] show ?case by simp
qed

definition sample_registration :: "string \<Rightarrow> nat \<Rightarrow> registration" where
  "sample_registration event n = \<lparr>g_event = event, g_fn = n, g_async = True, g_context = False, g_guest = False\<rparr>"

theorem discovered_handlers_owned_witness:
  "\<exists>r'. discover_app_handlers (\<lambda>a. if a = ''hrms'' then Some [sample_registration ''ping'' 5] else None)
     [''frappe'', ''hrms'', ''crm''] new_registry = Inr r' \<and> map h_app (handlers_for r' ''ping'') = [''hrms'']"
proof -
  let ?m = "\<lambda>a. if a = ''hrms'' then Some [sample_registration ''ping'' 5] else None"
  obtain r' where r: "discover_app_handlers ?m [''frappe'', ''hrms'', ''crm''] new_registry = Inr r'"
    by (simp add: discover_app_handlers_def CORE_APP_def import_app_def reg_on_def sample_registration_def)
  from discovered_handlers_owned [OF r, of "''ping''"] r show ?thesis
    by (simp add: handlers_for_def new_registry_def module_handlers_def CORE_APP_def handler_of_def sample_registration_def)
qed

text \<open>The bridge sends what a message says and nothing more: one emission to the room of the
  message's own namespace, or, with no room, the event once to each connected namespace; a malformed
  message, or one with a room and no namespace, sends nothing.\<close>

theorem bridge_sends_what_the_message_says:
  assumes "bridge_handle namespaces raw = Inr es"
  shows "case from_raw raw of
      Inl e \<Rightarrow> es = []
    | Inr (event, message, room, ns) \<Rightarrow>
        if truthy room
        then if truthy ns
          then \<exists>n. ns = JStr n \<and>
            es = [\<lparr>e_event = event, e_message = message, e_room = Some room, e_namespace = CHR ''/'' # n\<rparr>]
          else es = []
        else map e_namespace es = namespaces \<and>
          (\<forall>e \<in> set es. e_event e = event \<and> e_message e = message \<and> e_room e = None)"
  using assms
  by (auto simp: bridge_handle_def comp_def split: sum.splits if_splits json.splits)

theorem bridge_sends_what_the_message_says_witness:
  "\<exists>es. bridge_handle [''/a'', ''/b''] (Some ''{\"event\": \"build\"}'') = Inr es \<and> map e_namespace es = [''/a'', ''/b'']"
proof -
  have b: "bridge_handle [''/a'', ''/b''] (Some ''{\"event\": \"build\"}'') =
      Inr [\<lparr>e_event = JStr ''build'', e_message = JNull, e_room = None, e_namespace = ''/a''\<rparr>,
           \<lparr>e_event = JStr ''build'', e_message = JNull, e_room = None, e_namespace = ''/b''\<rparr>]"
    by code_simp
  have f: "from_raw (Some ''{\"event\": \"build\"}'') = Inr (JStr ''build'', JNull, JNull, JNull)"
    by code_simp
  from bridge_sends_what_the_message_says [OF b] f b show ?thesis by auto
qed

text \<open>The bridge does not survive every malformed message: one whose room is set and whose namespace
  is a number raises out of the handler (and ends the subscription), though the description says
  malformed messages are skipped without crashing.\<close>

theorem bridge_raises_on_a_numeric_namespace:
  "bridge_handle namespaces (Some ''{\"event\": \"e\", \"room\": \"r\", \"namespace\": 5}'') = Inl TypeError"
proof -
  have "from_raw (Some ''{\"event\": \"e\", \"room\": \"r\", \"namespace\": 5}'') =
      Inr (JStr ''e'', JNull, JStr ''r'', JInt 5)" by code_simp
  then show ?thesis by (simp add: bridge_handle_def)
qed

end
