(* ===== verification/PyRegex.thy ===== *)
theory PyRegex
  imports Prelude
begin

text \<open>
  The regular expressions of Python's \<^verbatim>\<open>re\<close> the sources use, without groups: an expression is a
  value, its language the set of texts it matches in full, and \<open>fullmatch\<close> decides it by
  derivatives.  \<^verbatim>\<open>re.search\<close> and \<^verbatim>\<open>re.match\<close> are the full match of the expression with anything
  around it.
\<close>

datatype rx =
    Empty
  | Eps
  | Cls "char \<Rightarrow> bool"
  | Seq rx rx
  | Alt rx rx
  | Star rx

inductive_set star_lang :: "string set \<Rightarrow> string set" for L where
  star_Nil: "[] \<in> star_lang L"
| star_app: "u \<in> L \<Longrightarrow> v \<in> star_lang L \<Longrightarrow> u @ v \<in> star_lang L"

fun rx_lang :: "rx \<Rightarrow> string set" where
  "rx_lang Empty = {}"
| "rx_lang Eps = {[]}"
| "rx_lang (Cls P) = {[c] |c. P c}"
| "rx_lang (Seq r s) = {u @ v |u v. u \<in> rx_lang r \<and> v \<in> rx_lang s}"
| "rx_lang (Alt r s) = rx_lang r \<union> rx_lang s"
| "rx_lang (Star r) = star_lang (rx_lang r)"

fun nullable :: "rx \<Rightarrow> bool" where
  "nullable Empty = False"
| "nullable Eps = True"
| "nullable (Cls P) = False"
| "nullable (Seq r s) = (nullable r \<and> nullable s)"
| "nullable (Alt r s) = (nullable r \<or> nullable s)"
| "nullable (Star r) = True"

text \<open>The derivative by a character; expressions that match nothing are dropped on the way.\<close>

fun mk_seq :: "rx \<Rightarrow> rx \<Rightarrow> rx" where
  "mk_seq Empty s = Empty"
| "mk_seq Eps s = s"
| "mk_seq r s = Seq r s"

fun mk_alt :: "rx \<Rightarrow> rx \<Rightarrow> rx" where
  "mk_alt Empty s = s"
| "mk_alt r Empty = r"
| "mk_alt r s = Alt r s"

fun deriv :: "char \<Rightarrow> rx \<Rightarrow> rx" where
  "deriv c Empty = Empty"
| "deriv c Eps = Empty"
| "deriv c (Cls P) = (if P c then Eps else Empty)"
| "deriv c (Seq r s) =
     (if nullable r then mk_alt (mk_seq (deriv c r) s) (deriv c s) else mk_seq (deriv c r) s)"
| "deriv c (Alt r s) = mk_alt (deriv c r) (deriv c s)"
| "deriv c (Star r) = mk_seq (deriv c r) (Star r)"

fun fullmatch :: "rx \<Rightarrow> string \<Rightarrow> bool" where
  "fullmatch r [] = nullable r"
| "fullmatch r (c # s) = fullmatch (deriv c r) s"

section \<open>The matcher decides the language\<close>

lemma nullable_iff: "nullable r \<longleftrightarrow> [] \<in> rx_lang r"
  by (induction r) (auto intro: star_Nil)

lemma mk_seq_lang: "rx_lang (mk_seq r s) = rx_lang (Seq r s)"
  by (cases r) auto

lemma mk_alt_lang: "rx_lang (mk_alt r s) = rx_lang r \<union> rx_lang s"
  by (cases "(r, s)" rule: mk_alt.cases) auto

lemma star_Cons: "c # s \<in> star_lang L \<Longrightarrow> \<exists>u v. s = u @ v \<and> c # u \<in> L \<and> v \<in> star_lang L"
proof (induction "c # s" arbitrary: s rule: star_lang.induct)
  case (star_app u v)
  then show ?case by (cases u) auto
qed

lemma deriv_lang: "s \<in> rx_lang (deriv c r) \<longleftrightarrow> c # s \<in> rx_lang r"
proof (induction r arbitrary: s)
  case (Seq r1 r2)
  have "c # s \<in> rx_lang (Seq r1 r2) \<longleftrightarrow>
      ([] \<in> rx_lang r1 \<and> c # s \<in> rx_lang r2) \<or> (\<exists>u v. s = u @ v \<and> c # u \<in> rx_lang r1 \<and> v \<in> rx_lang r2)"
    using ex_split_Cons [of c s "\<lambda>u v. u \<in> rx_lang r1 \<and> v \<in> rx_lang r2"] by simp
  then show ?case using Seq by (auto simp: mk_seq_lang mk_alt_lang nullable_iff)
next
  case (Star r)
  have "c # s \<in> star_lang (rx_lang r) \<longleftrightarrow> (\<exists>u v. s = u @ v \<and> c # u \<in> rx_lang r \<and> v \<in> star_lang (rx_lang r))"
    using star_Cons [of c s "rx_lang r"] star_app [of _ "rx_lang r"] by fastforce
  then show ?case using Star by (auto simp: mk_seq_lang)
qed (auto simp: mk_alt_lang)

theorem fullmatch_iff: "fullmatch r s \<longleftrightarrow> s \<in> rx_lang r"
  by (induction s arbitrary: r) (auto simp: nullable_iff deriv_lang)

section \<open>Expressions\<close>

definition anything :: rx where "anything = Star (Cls (\<lambda>c. True))"

definition rsearch :: "rx \<Rightarrow> string \<Rightarrow> bool" where
  "rsearch r s = fullmatch (Seq anything (Seq r anything)) s"

definition rmatch :: "rx \<Rightarrow> string \<Rightarrow> bool" where
  "rmatch r s = fullmatch (Seq r anything) s"

fun lit :: "string \<Rightarrow> rx" where
  "lit [] = Eps"
| "lit [c] = Cls (\<lambda>d. d = c)"
| "lit (c # s) = Seq (Cls (\<lambda>d. d = c)) (lit s)"

definition plus :: "rx \<Rightarrow> rx" where "plus r = Seq r (Star r)"
definition opt :: "rx \<Rightarrow> rx" where "opt r = Alt Eps r"

fun times :: "nat \<Rightarrow> rx \<Rightarrow> rx" where
  "times 0 r = Eps"
| "times (Suc n) r = Seq r (times n r)"

abbreviation ws :: rx where "ws \<equiv> Cls is_ws"
abbreviation not_ws :: rx where "not_ws \<equiv> Cls (\<lambda>c. \<not> is_ws c)"
abbreviation dot :: rx where "dot \<equiv> Cls (\<lambda>c. c \<noteq> newline)"

definition word_char :: "char \<Rightarrow> bool" where
  "word_char c \<longleftrightarrow> is_alnum c \<or> c = CHR ''_''"

lemma anything_lang [simp]: "rx_lang anything = UNIV"
proof -
  have "s \<in> star_lang {[c] |c. True}" for s :: string
  proof (induction s)
    case (Cons c s)
    have "[c] @ s \<in> star_lang {[c] |c. True}" by (rule star_app) (use Cons in auto)
    then show ?case by simp
  qed (rule star_Nil)
  then show ?thesis by (auto simp: anything_def)
qed

lemma lit_lang [simp]: "rx_lang (lit s) = {s}"
  by (induction s rule: lit.induct) auto

lemma rsearch_iff: "rsearch r s \<longleftrightarrow> (\<exists>u v w. s = u @ v @ w \<and> v \<in> rx_lang r)"
  by (auto simp: rsearch_def fullmatch_iff)

lemma rmatch_iff: "rmatch r s \<longleftrightarrow> (\<exists>v w. s = v @ w \<and> v \<in> rx_lang r)"
  by (auto simp: rmatch_def fullmatch_iff)

lemma star_cls: "s \<in> star_lang {[c] |c. P c} \<longleftrightarrow> (\<forall>c \<in> set s. P c)"
proof
  assume "s \<in> star_lang {[c] |c. P c}"
  then show "\<forall>c \<in> set s. P c" by (induction rule: star_lang.induct) auto
next
  assume "\<forall>c \<in> set s. P c"
  then show "s \<in> star_lang {[c] |c. P c}"
  proof (induction s)
    case (Cons c s)
    have "[c] @ s \<in> star_lang {[c] |c. P c}" by (rule star_app) (use Cons in auto)
    then show ?case by simp
  qed (rule star_Nil)
qed

lemma plus_cls: "s \<in> rx_lang (plus (Cls P)) \<longleftrightarrow> s \<noteq> [] \<and> (\<forall>c \<in> set s. P c)"
proof -
  have "(\<exists>u v. s = u @ v \<and> (\<exists>c. u = [c] \<and> P c) \<and> (\<forall>c \<in> set v. P c)) \<longleftrightarrow> s \<noteq> [] \<and> (\<forall>c \<in> set s. P c)"
    by (cases s) (auto intro: exI [of _ "[hd s]"])
  then show ?thesis by (simp add: plus_def star_cls)
qed

end
