(* ===== verification/FlakeLock.thy ===== *)
theory FlakeLock
  imports PyJsonText PyUrl PyRegex
begin

text \<open>
  \<^verbatim>\<open>common/flakelock.py\<close>: the nodes of a \<^verbatim>\<open>flake.lock\<close>, the paths its \<^verbatim>\<open>follows\<close> name, and the pins
  it locks.  The recursion of \<^verbatim>\<open>node_at\<close> over \<^verbatim>\<open>follows\<close> paths need not end (a lock may follow itself);
  it runs to a depth \<open>n\<close>, and past it raises, as Python does past its recursion limit
  (\<^verbatim>\<open>RecursionError\<close>, a \<^verbatim>\<open>RuntimeError\<close>).
\<close>

definition NAME :: rx where
  "NAME = plus (Cls (\<lambda>c. is_alnum c \<or> c \<in> {CHR ''_'', CHR ''.'', CHR ''-''}))"

definition GITLAB_OWNER :: rx where
  "GITLAB_OWNER = Seq NAME (Star (Seq (Alt (lit ''/'') (lit ''%2F'')) NAME))"

definition HOST :: rx where
  "HOST = Seq (plus (Cls (\<lambda>c. is_alnum c \<or> c \<in> {CHR ''.'', CHR ''-''})))
     (opt (Seq (lit '':'') (plus (Cls is_digit))))"

definition hex_char :: "char \<Rightarrow> bool" where
  "hex_char c \<longleftrightarrow> is_digit c \<or> (is_lower c \<and> (of_char c :: nat) \<le> 102)"

definition REV :: rx where "REV = times 40 (Cls hex_char)"

definition FRAPPE_NIX_PINS :: "(string \<times> string \<times> string) list" where
  "FRAPPE_NIX_PINS = [(''frappe-semgrep-rules'', ''frappe'', ''semgrep-rules''),
     (''marketplace'', ''frappe'', ''marketplace''), (''pilot'', ''frappe'', ''pilot'')]"

definition PROFILE_INPUT :: string where "PROFILE_INPUT = ''standards-profile''"
definition PIN_TYPES :: "string list" where "PIN_TYPES = [''github'', ''gitlab'', ''git'']"

record pin =
  pin_input :: string
  pin_type :: string
  pin_rev :: string
  pin_nar_hash :: string
  pin_owner :: string
  pin_repo :: string
  pin_host :: string
  pin_url :: string

definition slash :: "char \<Rightarrow> bool" where "slash c \<longleftrightarrow> c = CHR ''/''"

text \<open>\<^verbatim>\<open>url.rstrip("/").rsplit("/", 1)[-1].removesuffix(".git") or "source"\<close>.\<close>

definition git_name :: "string \<Rightarrow> string" where
  "git_name url =
     (let last = (case rpartition1 (CHR ''/'') (rstrip_by slash url) of (_, _, a) \<Rightarrow> a);
          stem = removesuffix last ''.git''
      in if stem \<noteq> [] then stem else ''source'')"

definition pin_name :: "pin \<Rightarrow> string" where
  "pin_name p = (if pin_type p = ''git'' then git_name (pin_url p) else pin_repo p)"

definition pin_label :: "pin \<Rightarrow> string" where
  "pin_label p =
     (if pin_type p = ''git'' then pin_url p
      else replace_all ''%2F'' ''/'' (pin_owner p) @ ''/'' @ pin_repo p)"

text \<open>\<^verbatim>\<open>urllib.parse.quote(s, safe="")\<close>.\<close>

definition hex_upper :: "nat \<Rightarrow> char" where
  "hex_upper n = (if n < 10 then char_of (48 + n) else char_of (55 + n))"

definition quote_all :: "string \<Rightarrow> string" where
  "quote_all s = concat (map (\<lambda>c.
     if is_alnum c \<or> c \<in> {CHR ''_'', CHR ''.'', CHR ''-'', CHR ''~''} then [c]
     else [CHR ''%'', hex_upper (of_char c div 16), hex_upper (of_char c mod 16)]) s)"

definition tarball_url :: "pin \<Rightarrow> exn + string" where
  "tarball_url p =
     (if pin_type p = ''github'' \<and> lower (pin_host p) \<in> {[], ''github.com''} then
        Inr (''https://codeload.github.com/'' @ pin_owner p @ ''/'' @ pin_repo p @ ''/tar.gz/'' @ pin_rev p)
      else if pin_type p = ''github'' then
        Inr (''https://'' @ pin_host p @ ''/api/v3/repos/'' @ pin_owner p @ ''/'' @ pin_repo p @ ''/tarball/'' @ pin_rev p)
      else if pin_type p = ''gitlab'' then
        Inr (''https://'' @ pin_host p @ ''/api/v4/projects/'' @
          quote_all (replace_all ''%2F'' ''/'' (pin_owner p) @ ''/'' @ pin_repo p) @
          ''/repository/archive.tar.gz?sha='' @ pin_rev p)
      else Inl (ValueError ''a pin has no tarball''))"

section \<open>Nodes\<close>

definition parse_lock :: "string \<Rightarrow> exn + json" where
  "parse_lock text =
     (case loads text of
        None \<Rightarrow> Inl (EnvError ''unreadable'')
      | Some lock \<Rightarrow>
          (case lock of
             JObj d \<Rightarrow>
               (case (map_of d ''nodes'', map_of d ''root'') of
                  (Some (JObj ns), Some (JStr r)) \<Rightarrow>
                    if list_all (\<lambda>(k, v). is_dict v) ns then Inr lock
                    else Inl (EnvError ''not a flake lock file'')
                | _ \<Rightarrow> Inl (EnvError ''not a flake lock file''))
           | _ \<Rightarrow> Inl (EnvError ''not a flake lock file'')))"

definition lock_nodes :: "json \<Rightarrow> (string \<times> json) list" where
  "lock_nodes lock = (case lock of JObj d \<Rightarrow> (case map_of d ''nodes'' of Some (JObj ns) \<Rightarrow> ns | _ \<Rightarrow> []) | _ \<Rightarrow> [])"

definition lock_root :: "json \<Rightarrow> json" where
  "lock_root lock = (case lock of JObj d \<Rightarrow> (case map_of d ''root'' of Some r \<Rightarrow> r | None \<Rightarrow> JNull) | _ \<Rightarrow> JNull)"

text \<open>A node of the lock, its dictionary.\<close>

type_synonym node = "(string \<times> json) list"

definition lock_node :: "json \<Rightarrow> json \<Rightarrow> exn + node" where
  "lock_node lock name =
     (case (case name of JStr n \<Rightarrow> map_of (lock_nodes lock) n | _ \<Rightarrow> None) of
        Some (JObj nd) \<Rightarrow> Inr nd
      | _ \<Rightarrow> Inl (EnvError ''not a flake lock file''))"

definition node_inputs :: "node \<Rightarrow> exn + node" where
  "node_inputs nd =
     (case map_of nd ''inputs'' of
        None \<Rightarrow> Inr []
      | Some (JObj is) \<Rightarrow> Inr is
      | Some _ \<Rightarrow> Inl (EnvError ''not a flake lock file''))"

text \<open>\<^verbatim>\<open>inputs.get(step)\<close>: a list or a dictionary is no key (TypeError), another value no key of the table.\<close>

definition input_ref :: "node \<Rightarrow> json \<Rightarrow> exn + json" where
  "input_ref is st =
     (case st of
        JStr s \<Rightarrow> Inr (case map_of is s of Some ref \<Rightarrow> ref | None \<Rightarrow> JNull)
      | JArr _ \<Rightarrow> Inl TypeError
      | JObj _ \<Rightarrow> Inl TypeError
      | _ \<Rightarrow> Inr JNull)"

text \<open>The steps of a path: \<open>follow\<close> is \<^verbatim>\<open>node_at\<close> for the path a \<^verbatim>\<open>follows\<close> names.\<close>

fun follow_steps ::
  "json \<Rightarrow> (json list \<Rightarrow> exn + (json \<times> node) option) \<Rightarrow> json list \<Rightarrow> json \<Rightarrow> exn + json option" where
  "follow_steps lock follow [] name = Inr (Some name)"
| "follow_steps lock follow (st # path) name =
     bindE (lock_node lock name) (\<lambda>nd.
     bindE (node_inputs nd) (\<lambda>is.
     bindE (input_ref is st) (\<lambda>ref.
       case ref of
         JNull \<Rightarrow> Inr None
       | JArr p \<Rightarrow> bindE (follow p) (\<lambda>found.
           case found of None \<Rightarrow> Inr None | Some (n, _) \<Rightarrow> follow_steps lock follow path n)
       | _ \<Rightarrow> follow_steps lock follow path ref)))"

fun node_at :: "nat \<Rightarrow> json \<Rightarrow> json list \<Rightarrow> exn + (json \<times> node) option" where
  "node_at 0 lock path = Inl (RuntimeError ''RecursionError'')"
| "node_at (Suc n) lock path =
     bindE (follow_steps lock (node_at n lock) path (lock_root lock)) (\<lambda>found.
       case found of
         None \<Rightarrow> Inr None
       | Some name \<Rightarrow> bindE (lock_node lock name) (\<lambda>nd. Inr (Some (name, nd))))"

definition is_pin :: "string \<Rightarrow> bool" where
  "is_pin name \<longleftrightarrow> map_of FRAPPE_NIX_PINS name \<noteq> None"

definition lock_input_node :: "nat \<Rightarrow> json \<Rightarrow> string \<Rightarrow> exn + (json \<times> node) option" where
  "lock_input_node n lock name =
     bindE (if is_pin name then bindE (node_at n lock [JStr ''frappe-nix'']) (\<lambda>f. Inr (f \<noteq> None)) else Inr False)
       (\<lambda>theirs.
         if theirs then node_at n lock [JStr ''frappe-nix'', JStr name]
         else if name = PROFILE_INPUT then node_at n lock [JStr name]
         else bindE (node_at n lock [JStr name]) (\<lambda>found.
           case found of Some f \<Rightarrow> Inr (Some f) | None \<Rightarrow> node_at n lock [JStr ''frappe-nix'', JStr name]))"

text \<open>The revision of a node found, when it has one.\<close>

definition node_rev :: "(json \<times> node) option \<Rightarrow> string option" where
  "node_rev found =
     (case found of
        Some (_, nd) \<Rightarrow> (case map_of nd ''locked'' of
            Some (JObj l) \<Rightarrow> (case map_of l ''rev'' of Some (JStr r) \<Rightarrow> Some r | _ \<Rightarrow> None)
          | _ \<Rightarrow> None)
      | None \<Rightarrow> None)"

definition frappe_nix_rev :: "nat \<Rightarrow> json \<Rightarrow> exn + string option" where
  "frappe_nix_rev n lock = bindE (node_at n lock [JStr ''frappe-nix'']) (\<lambda>f. Inr (node_rev f))"

definition locked_rev :: "nat \<Rightarrow> json \<Rightarrow> string \<Rightarrow> exn + string option" where
  "locked_rev n lock name = bindE (lock_input_node n lock name) (\<lambda>f. Inr (node_rev f))"

section \<open>Pins\<close>

definition field :: "node \<Rightarrow> string \<Rightarrow> exn + string" where
  "field locked key = (case map_of locked key of Some (JStr v) \<Rightarrow> Inr v | _ \<Rightarrow> Inl (EnvError ''no locked field''))"

definition safe_name :: "string \<Rightarrow> bool" where
  "safe_name s \<longleftrightarrow> fullmatch NAME s \<and> \<not> startswith s ''.''"

definition config_check :: "bool \<Rightarrow> exn + unit" where
  "config_check b = (if b then Inr () else Inl (ConfigError ''input''))"

definition git_pin :: "(string \<Rightarrow> bool) \<Rightarrow> string \<Rightarrow> string \<Rightarrow> string \<Rightarrow> node \<Rightarrow> exn + pin" where
  "git_pin ip_ok name commit nar_hash locked =
     bindE (field locked ''url'') (\<lambda>url.
     bindE (urlsplit ip_ok (removeprefix url ''git+'')) (\<lambda>parts.
     bindE (config_check (scheme parts \<in> {''https'', ''http'', ''ssh'', ''file''} \<and> strip_by slash (u_path parts) \<noteq> [])) (\<lambda>_.
     let p = \<lparr>pin_input = name, pin_type = ''git'', pin_rev = commit, pin_nar_hash = nar_hash, pin_owner = [],
              pin_repo = [], pin_host = [], pin_url = removeprefix url ''git+''\<rparr>
     in bindE (config_check (safe_name (pin_name p))) (\<lambda>_. Inr p))))"

definition forge_pin :: "string \<Rightarrow> string \<Rightarrow> string \<Rightarrow> string \<Rightarrow> node \<Rightarrow> exn + pin" where
  "forge_pin name kind commit nar_hash locked =
     bindE (field locked ''owner'') (\<lambda>owner.
     bindE (field locked ''repo'') (\<lambda>repo.
     let h = (case map_of locked ''host'' of Some v \<Rightarrow> v | None \<Rightarrow> JNull);
         host = (if truthy h then h else JStr (if kind = ''gitlab'' then ''gitlab.com'' else ''github.com''))
     in bindE (config_check (fullmatch (if kind = ''gitlab'' then GITLAB_OWNER else NAME) owner \<and>
                 \<not> startswith owner ''.'')) (\<lambda>_.
        bindE (config_check (safe_name repo)) (\<lambda>_.
        bindE (case host of JStr hs \<Rightarrow> if fullmatch HOST hs then Inr hs else Inl (ConfigError ''input'')
               | _ \<Rightarrow> Inl (ConfigError ''input'')) (\<lambda>hs.
        bindE (config_check (case map_of FRAPPE_NIX_PINS name of
                 None \<Rightarrow> True
               | Some expected \<Rightarrow> kind = ''github'' \<and> lower hs = ''github.com'' \<and> (lower owner, lower repo) = expected)) (\<lambda>_.
          Inr \<lparr>pin_input = name, pin_type = kind, pin_rev = commit, pin_nar_hash = nar_hash, pin_owner = owner,
               pin_repo = repo, pin_host = hs, pin_url = []\<rparr>))))))"

definition locked_kind :: "node \<Rightarrow> exn + string" where
  "locked_kind locked =
     (case map_of locked ''type'' of
        Some (JStr kind) \<Rightarrow> if kind \<in> set PIN_TYPES then Inr kind else Inl (ConfigError ''input'')
      | _ \<Rightarrow> Inl (ConfigError ''input''))"

definition locked_table :: "node \<Rightarrow> exn + node" where
  "locked_table nd =
     (case map_of nd ''locked'' of
        None \<Rightarrow> Inr []
      | Some (JObj locked) \<Rightarrow> Inr locked
      | Some _ \<Rightarrow> Inl (ConfigError ''input''))"

definition locked_pin :: "(string \<Rightarrow> bool) \<Rightarrow> nat \<Rightarrow> json \<Rightarrow> string \<Rightarrow> exn + pin" where
  "locked_pin ip_ok n lock name =
     bindE (lock_input_node n lock name) (\<lambda>found.
       case found of
         None \<Rightarrow> Inl (ConfigError ''flake.lock has no input'')
       | Some (_, nd) \<Rightarrow>
           bindE (locked_table nd) (\<lambda>locked.
           bindE (locked_kind locked) (\<lambda>kind.
           bindE (field locked ''rev'') (\<lambda>commit.
           bindE (field locked ''narHash'') (\<lambda>nar_hash.
           bindE (config_check (fullmatch REV commit)) (\<lambda>_.
             if kind = ''git'' then git_pin ip_ok name commit nar_hash locked
             else forge_pin name kind commit nar_hash locked))))))"

section \<open>Lemmas\<close>

lemma config_check_Inr [simp]: "config_check b = Inr u \<longleftrightarrow> b"
  by (simp add: config_check_def)

lemma safe_name_chars: "safe_name s \<Longrightarrow> s \<noteq> [] \<and> CHR ''/'' \<notin> set s \<and> s \<notin> {''.'', ''..''}"
  by (auto simp: safe_name_def NAME_def fullmatch_iff plus_cls startswith_def is_alnum_def is_digit_def
      is_lower_def is_upper_def)

lemma times_cls: "s \<in> rx_lang (times n (Cls P)) \<longleftrightarrow> length s = n \<and> (\<forall>c \<in> set s. P c)"
proof (induction n arbitrary: s)
  case (Suc n)
  have "s \<in> rx_lang (times (Suc n) (Cls P)) \<longleftrightarrow> (\<exists>c v. s = c # v \<and> P c \<and> v \<in> rx_lang (times n (Cls P)))"
    by auto (metis append_Cons append_Nil)
  then show ?case using Suc by (cases s) auto
qed auto

lemma git_pin_name: "git_pin ip_ok name commit nar_hash locked = Inr p \<Longrightarrow>
    safe_name (pin_name p) \<and> pin_rev p = commit \<and> pin_type p = ''git'' \<and> pin_input p = name"
  by (auto simp: git_pin_def Let_def sumres)

lemma forge_pin_name: "forge_pin name kind commit nar_hash locked = Inr p \<Longrightarrow> kind \<noteq> ''git'' \<Longrightarrow>
    safe_name (pin_name p) \<and> pin_rev p = commit \<and> pin_type p = kind \<and>
    (\<forall>expected. map_of FRAPPE_NIX_PINS name = Some expected \<longrightarrow> kind = ''github'' \<and> lower (pin_host p) = ''github.com'' \<and>
       (lower (pin_owner p), lower (pin_repo p)) = expected)"
  by (auto simp: forge_pin_def Let_def sumres pin_name_def split: json.splits if_splits)

text \<open>More depth never changes an answer.\<close>

definition not_too_deep :: "exn + 'a \<Rightarrow> bool" where
  "not_too_deep r \<longleftrightarrow> r \<noteq> Inl (RuntimeError ''RecursionError'')"

lemma follow_steps_mono:
  assumes "\<And>p. not_too_deep (f p) \<Longrightarrow> g p = f p" "not_too_deep (follow_steps lock f path name)"
  shows "follow_steps lock g path name = follow_steps lock f path name"
  using assms(2)
proof (induction path arbitrary: name)
  case (Cons st path)
  show ?case
  proof (cases "bindE (lock_node lock name) (\<lambda>nd. bindE (node_inputs nd) (\<lambda>is. input_ref is st))")
    case (Inl e)
    then show ?thesis by (auto simp: sumres)
  next
    case (Inr ref)
    then obtain nd "is" where n: "lock_node lock name = Inr nd" "node_inputs nd = Inr is" "input_ref is st = Inr ref"
      by (auto simp: sumres)
    have e: "follow_steps lock h (st # path) name =
        (case ref of
           JNull \<Rightarrow> Inr None
         | JArr p \<Rightarrow> bindE (h p) (\<lambda>found.
             case found of None \<Rightarrow> Inr None | Some (n, _) \<Rightarrow> follow_steps lock h path n)
         | _ \<Rightarrow> follow_steps lock h path ref)" for h
      by (simp only: follow_steps.simps n bindE_simps)
    show ?thesis
    proof (cases ref)
      case (JArr p)
      then have d: "not_too_deep (bindE (f p) (\<lambda>found.
             case found of None \<Rightarrow> Inr None | Some (n, _) \<Rightarrow> follow_steps lock f path n))"
        using Cons.prems e [of f] by simp
      then have "not_too_deep (f p)" by (cases "f p") (auto simp: not_too_deep_def)
      then have "g p = f p" by (rule assms(1))
      show ?thesis
      proof (cases "\<exists>m nd. f p = Inr (Some (m, nd))")
        case True
        then obtain m nd where fp: "f p = Inr (Some (m, nd))" by blast
        have "follow_steps lock g path m = follow_steps lock f path m"
          using d fp by (intro Cons.IH) simp
        then show ?thesis unfolding e by (simp add: JArr \<open>g p = f p\<close> fp)
      next
        case False
        then have "f p = Inr None \<or> (\<exists>x. f p = Inl x)" by (cases "f p") (auto, metis option.exhaust surj_pair)
        then show ?thesis unfolding e by (auto simp: JArr \<open>g p = f p\<close>)
      qed
    qed (use Cons.prems Cons.IH [of ref] in \<open>simp_all only: e json.case\<close>)
  qed
qed simp

lemma node_at_mono: "not_too_deep (node_at n lock path) \<Longrightarrow> n \<le> m \<Longrightarrow> node_at m lock path = node_at n lock path"
proof (induction n arbitrary: m path)
  case 0
  then show ?case by (simp add: not_too_deep_def)
next
  case (Suc n)
  then obtain k where m: "m = Suc k" "n \<le> k" by (cases m) auto
  have "not_too_deep (follow_steps lock (node_at n lock) path (lock_root lock))"
    using Suc.prems(1) by (auto simp: not_too_deep_def)
  then have "follow_steps lock (node_at k lock) path (lock_root lock) =
      follow_steps lock (node_at n lock) path (lock_root lock)"
    by (rule follow_steps_mono [rotated]) (rule Suc.IH [OF _ m(2)])
  then show ?case by (simp add: m)
qed

section \<open>Properties\<close>


definition sample_lock :: "node \<Rightarrow> json" where
  "sample_lock locked = JObj [(''root'', JStr ''root''), (''nodes'', JObj
     [(''root'', JObj [(''inputs'', JObj [(''frappe-nix'', JStr ''fnx''), (''pilot'', JStr ''evil'')])]),
      (''evil'', JObj []),
      (''fnx'', JObj [(''inputs'', JObj [(''pilot'', JStr ''p'')])]),
      (''p'', JObj [(''locked'', JObj locked)])])]"

definition sample_github :: node where
  "sample_github = [(''type'', JStr ''github''), (''owner'', JStr ''Frappe''), (''repo'', JStr ''pilot''),
     (''rev'', JStr (replicate 40 (CHR ''a''))), (''narHash'', JStr ''sha256-x'')]"

definition sample_git :: node where
  "sample_git = [(''type'', JStr ''git''), (''url'', JStr ''https://example.org/mine/rules.git''),
     (''rev'', JStr (replicate 40 (CHR ''a''))), (''narHash'', JStr ''sha256-x'')]"

lemma sample_locked:
  "locked_pin (\<lambda>_. True) 5 (sample_lock sample_github) ''pilot'' =
     Inr \<lparr>pin_input = ''pilot'', pin_type = ''github'', pin_rev = replicate 40 (CHR ''a''), pin_nar_hash = ''sha256-x'',
       pin_owner = ''Frappe'', pin_repo = ''pilot'', pin_host = ''github.com'', pin_url = []\<rparr>"
  by code_simp


text \<open>The rule on frappe-nix's own inputs has a hole: a lock that retargets one of them at another
  repository as a \<^verbatim>\<open>git\<close> input is accepted, though the module says a lock that retargets one is
  refused (the repository is compared for \<^verbatim>\<open>github\<close> and \<^verbatim>\<open>gitlab\<close> nodes only).\<close>

theorem retargeted_git_pin_accepted:
  "\<exists>p. locked_pin (\<lambda>_. True) 5 (sample_lock sample_git) ''pilot'' = Inr p \<and> pin_type p = ''git'' \<and>
     pin_url p = ''https://example.org/mine/rules.git'' \<and> map_of FRAPPE_NIX_PINS ''pilot'' = Some (''frappe'', ''pilot'')"
proof -
  have "locked_pin (\<lambda>_. True) 5 (sample_lock sample_git) ''pilot'' =
     Inr \<lparr>pin_input = ''pilot'', pin_type = ''git'', pin_rev = replicate 40 (CHR ''a''), pin_nar_hash = ''sha256-x'',
       pin_owner = [], pin_repo = [], pin_host = [], pin_url = ''https://example.org/mine/rules.git''\<rparr>"
    by code_simp
  then show ?thesis by (simp add: FRAPPE_NIX_PINS_def)
qed

end
