(* ===== verification/Nar.thy ===== *)
theory Nar
  imports Effects "HOL-Library.Word" "HOL-Library.List_Lexorder"
begin

unbundle bit_operations_syntax

text \<open>
  \<^verbatim>\<open>common/nar.py\<close>: the Nix archive of a tree, the bytes hashed for a pin, and Nix's base 32.  A byte
  is an \<open>8 word\<close>; what is hashed is the bytes of the updates in their order.  The tree is what the
  file system answers: its entries in whatever order it lists them.  SHA-256 and base 64 (hashlib and
  base64) are parameters.
\<close>

type_synonym byte = "8 word"

definition ascii :: "string \<Rightarrow> byte list" where
  "ascii s = map (\<lambda>c. word_of_nat (of_char c)) s"

datatype fs_node =
    Symlink "byte list"
  | Directory "(byte list \<times> fs_node) list"
  | Regular bool "byte list"
  | Special

section \<open>The serialisation\<close>

text \<open>\<^verbatim>\<open>n.to_bytes(8, "little")\<close>, and the padding \<^verbatim>\<open>b"\0" * (-n % 8)\<close>.\<close>

definition to_bytes8 :: "nat \<Rightarrow> exn + byte list" where
  "to_bytes8 n =
     (if n < 2 ^ 64 then Inr (map (\<lambda>i. word_of_nat (n div 256 ^ i)) [0..<8]) else Inl (ValueError ''int too big to convert''))"

definition padding :: "nat \<Rightarrow> byte list" where
  "padding n = replicate (nat (- int n mod 8)) 0"

definition nar_str :: "byte list \<Rightarrow> exn + byte list" where
  "nar_str data = bindE (to_bytes8 (length data)) (\<lambda>n. Inr (n @ data @ padding (length data)))"

text \<open>Several updates after one another, and the fixed strings.\<close>

fun updates :: "(exn + byte list) list \<Rightarrow> exn + byte list" where
  "updates [] = Inr []"
| "updates (u # us) = bindE u (\<lambda>x. bindE (updates us) (\<lambda>y. Inr (x @ y)))"

definition tok :: "string \<Rightarrow> exn + byte list" where
  "tok s = nar_str (ascii s)"

definition nar_entry :: "byte list \<times> (exn + byte list) \<Rightarrow> (exn + byte list) list" where
  "nar_entry e = [tok ''entry'', tok ''('', tok ''name'', nar_str (fst e), tok ''node'', snd e, tok '')'']"

fun nar_dump :: "fs_node \<Rightarrow> exn + byte list" where
  "nar_dump (Symlink target) =
     updates [tok ''('', tok ''type'', tok ''symlink'', tok ''target'', nar_str target, tok '')'']"
| "nar_dump (Directory es) =
     updates ([tok ''('', tok ''type'', tok ''directory''] @
       concat (map nar_entry (sort_key fst (map (\<lambda>(n, c). (n, nar_dump c)) es))) @ [tok '')''])"
| "nar_dump (Regular executable contents) =
     updates ([tok ''('', tok ''type'', tok ''regular''] @
       (if executable then [tok ''executable'', tok ''''] else []) @
       [tok ''contents'', nar_str contents, tok '')''])"
| "nar_dump Special = Inl (ValueError ''not a file, directory or symlink'')"

definition nar_bytes :: "fs_node \<Rightarrow> exn + byte list" where
  "nar_bytes t = updates [tok ''nix-archive-1'', nar_dump t]"

definition nar_hash :: "(byte list \<Rightarrow> byte list) \<Rightarrow> (byte list \<Rightarrow> string) \<Rightarrow> fs_node \<Rightarrow> exn + string" where
  "nar_hash sha256 b64encode t = bindE (nar_bytes t) (\<lambda>bs. Inr (''sha256-'' @ b64encode (sha256 bs)))"

section \<open>Base 32 and the store path\<close>

definition NIX32 :: string where "NIX32 = ''0123456789abcdfghijklmnpqrsvwxyz''"

text \<open>The digit at place \<open>n\<close>, on Python's integers.\<close>

definition nix32_digit :: "byte list \<Rightarrow> nat \<Rightarrow> nat" where
  "nix32_digit data n =
     (let b = n * 5; i = b div 8; j = b mod 8;
          c = drop_bit j (unat (data ! i));
          d = (if i + 1 < length data then c OR push_bit (8 - j) (unat (data ! (i + 1))) else c)
      in d AND 0x1F)"

definition nix32_length :: "nat \<Rightarrow> nat" where
  "nix32_length n = nat ((int n * 8 - 1) div 5 + 1)"

definition nix32 :: "byte list \<Rightarrow> string" where
  "nix32 data = map (\<lambda>n. NIX32 ! nix32_digit data n) (rev [0..<nix32_length (length data)])"

text \<open>\<^verbatim>\<open>bytes.hex()\<close>, and \<^verbatim>\<open>compressed[i % 20] ^= byte\<close> over the digest.\<close>

definition hex_digit :: "nat \<Rightarrow> char" where "hex_digit n = ''0123456789abcdef'' ! n"

definition hex :: "byte list \<Rightarrow> string" where
  "hex bs = concat (map (\<lambda>b. [hex_digit (unat b div 16), hex_digit (unat b mod 16)]) bs)"

definition compress20 :: "byte list \<Rightarrow> byte list" where
  "compress20 full =
     fold (\<lambda>(i, b) c. c[i mod 20 := (c ! (i mod 20)) XOR b]) (zip [0..<length full] full) (replicate 20 0)"

definition store_path ::
  "(byte list \<Rightarrow> byte list) \<Rightarrow> (string \<Rightarrow> exn + byte list) \<Rightarrow> string \<Rightarrow> string \<Rightarrow> string \<Rightarrow> exn + string" where
  "store_path sha256 b64decode sri name store_dir =
     (case partition1 (CHR ''-'') sri of (algo, _, b64) \<Rightarrow>
       if algo \<noteq> ''sha256'' then Inl (ValueError ''only sha256 NAR hashes are supported'')
       else bindE (b64decode b64) (\<lambda>digest.
         let fingerprint = ''source:sha256:'' @ hex digest @ '':'' @ store_dir @ '':'' @ name
         in Inr (store_dir @ ''/'' @ nix32 (compress20 (sha256 (ascii fingerprint))) @ ''-'' @ name)))"

section \<open>Reading back\<close>

text \<open>A serialised string determines the string and what follows it.\<close>

lemma to_bytes8_length: "to_bytes8 n = Inr x \<Longrightarrow> length x = 8"
  by (auto simp: to_bytes8_def split: if_splits)

lemma digits_eq: "(m :: nat) < B ^ k \<Longrightarrow> n < B ^ k \<Longrightarrow>
   (\<And>i. i < k \<Longrightarrow> m div B ^ i mod B = n div B ^ i mod B) \<Longrightarrow> m = n"
proof (induction k arbitrary: m n)
  case (Suc k)
  have a: "m div B < B ^ k" "n div B < B ^ k" using Suc.prems(1,2) by (auto simp: less_mult_imp_div_less mult.commute)
  have "m div B = n div B"
  proof (rule Suc.IH [OF a])
    fix i assume "i < k"
    with Suc.prems(3) [of "Suc i"] show "m div B div B ^ i mod B = n div B div B ^ i mod B"
      by (simp add: div_mult2_eq)
  qed
  moreover have "m mod B = n mod B" using Suc.prems(3) [of 0] by simp
  ultimately show ?case by (metis div_mult_mod_eq)
qed simp

lemma to_bytes8_inj: "to_bytes8 m = Inr x \<Longrightarrow> to_bytes8 n = Inr x \<Longrightarrow> m = n"
proof -
  assume m: "to_bytes8 m = Inr x" and n: "to_bytes8 n = Inr x"
  have b: "m < 256 ^ 8" "n < 256 ^ 8" using m n by (auto simp: to_bytes8_def split: if_splits)
  have "map (\<lambda>i. word_of_nat (m div 256 ^ i)) [0..<8] = map (\<lambda>i. (word_of_nat (n div 256 ^ i) :: byte)) [0..<8]"
    using m n unfolding to_bytes8_def by (metis Inr_inject sum.distinct(1))
  then have w: "\<forall>i \<in> set [0..<8]. (word_of_nat (m div 256 ^ i) :: byte) = word_of_nat (n div 256 ^ i)"
    by (simp only: map_eq_conv)
  have "m div 256 ^ i mod 256 = n div 256 ^ i mod 256" if "i < 8" for i
  proof -
    have "(word_of_nat (m div 256 ^ i) :: byte) = word_of_nat (n div 256 ^ i)" using w that by (simp only: set_upt) simp
    from arg_cong [OF this, of unat] show ?thesis by (simp add: unat_of_nat)
  qed
  with b show ?thesis by (rule digits_eq)
qed

lemma nar_str_parts:
  "nar_str d = Inr x \<Longrightarrow> \<exists>m. to_bytes8 (length d) = Inr m \<and> length m = 8 \<and> x = m @ d @ padding (length d)"
  by (cases "to_bytes8 (length d)") (auto simp: nar_str_def dest: to_bytes8_length)

lemma nar_str_prefix:
  assumes "nar_str d = Inr x" "nar_str e = Inr y" "x @ u = y @ v"
  shows "d = e \<and> u = v"
proof -
  obtain m where m: "to_bytes8 (length d) = Inr m" "length m = 8" "x = m @ d @ padding (length d)"
    using nar_str_parts [OF assms(1)] by blast
  obtain n where n: "to_bytes8 (length e) = Inr n" "length n = 8" "y = n @ e @ padding (length e)"
    using nar_str_parts [OF assms(2)] by blast
  have "m @ (d @ padding (length d) @ u) = n @ (e @ padding (length e) @ v)" using assms(3) m(3) n(3) by simp
  then have 1: "m = n" "d @ padding (length d) @ u = e @ padding (length e) @ v"
    using append_eq_append_conv [of m n] m(2) n(2) by auto
  have l: "length d = length e" using to_bytes8_inj [of "length d" n "length e"] m(1) n(1) 1(1) by simp
  have 2: "d = e" "padding (length d) @ u = padding (length e) @ v" using 1(2) l append_eq_append_conv by blast+
  then show ?thesis using l by simp
qed

text \<open>Strings are told apart by what they say, whatever follows.\<close>

lemma ascii_inj [simp]: "ascii s = ascii t \<longleftrightarrow> s = t"
proof -
  have "inj (\<lambda>c :: char. (word_of_nat (of_char c) :: byte))"
  proof (rule injI)
    fix c d :: char
    assume "(word_of_nat (of_char c) :: byte) = word_of_nat (of_char d)"
    then have "unat (word_of_nat (of_char c) :: byte) = unat (word_of_nat (of_char d) :: byte)" by simp
    then have "(of_char c :: nat) mod 256 = of_char d mod 256" by (simp add: unat_of_nat)
    then show "c = d" by simp
  qed
  then show ?thesis by (simp add: ascii_def inj_map_eq_map)
qed

lemma updates_Cons: "updates (a # us) = Inr z \<Longrightarrow> \<exists>x y. a = Inr x \<and> updates us = Inr y \<and> z = x @ y"
  by (cases a; cases "updates us") simp_all

lemma updates_append: "updates (as @ bs) = Inr z \<Longrightarrow> \<exists>x y. updates as = Inr x \<and> updates bs = Inr y \<and> z = x @ y"
proof (induction as arbitrary: z)
  case (Cons a as)
  obtain x y where "a = Inr x" "updates (as @ bs) = Inr y" "z = x @ y"
    using updates_Cons [of a "as @ bs" z] Cons.prems by auto
  with Cons.IH [of y] show ?case by auto
qed simp

text \<open>Two ways of writing of which no two results read alike, whatever follows them, unless \<open>P\<close>.\<close>

definition same :: "exn + byte list \<Rightarrow> exn + byte list \<Rightarrow> bool \<Rightarrow> bool" where
  "same a b P \<longleftrightarrow> (\<forall>x y u v. a = Inr x \<longrightarrow> b = Inr y \<longrightarrow> x @ u = y @ v \<longrightarrow> P \<and> u = v)"

lemma sameD: "same a b P \<Longrightarrow> a = Inr x \<Longrightarrow> b = Inr y \<Longrightarrow> x @ u = y @ v \<Longrightarrow> P \<and> u = v"
  unfolding same_def by blast

lemma same_str: "same (nar_str d) (nar_str e) (d = e)"
  using nar_str_prefix unfolding same_def by blast

lemma same_tok: "same (tok s) (tok t) (s = t)"
  using same_str [of "ascii s" "ascii t"] by (simp add: tok_def)

lemma same_Nil: "P \<Longrightarrow> same (updates []) (updates []) P"
  by (simp add: same_def)

lemma same_Cons:
  assumes a: "same a b Q" and r: "Q \<Longrightarrow> same (updates us) (updates ws) P"
  shows "same (updates (a # us)) (updates (b # ws)) P"
  unfolding same_def
proof (intro allI impI)
  fix x y u v
  assume x: "updates (a # us) = Inr x" and y: "updates (b # ws) = Inr y" and e: "x @ u = y @ v"
  obtain x1 x2 where x': "a = Inr x1" "updates us = Inr x2" "x = x1 @ x2" using updates_Cons [OF x] by blast
  obtain y1 y2 where y': "b = Inr y1" "updates ws = Inr y2" "y = y1 @ y2" using updates_Cons [OF y] by blast
  have "Q \<and> x2 @ u = y2 @ v" using sameD [OF a x'(1) y'(1), of "x2 @ u" "y2 @ v"] e x'(3) y'(3) by simp
  then show "P \<and> u = v" using sameD [OF r x'(2) y'(2)] by blast
qed

lemma same_word: "(s = t \<Longrightarrow> same (updates us) (updates ws) P) \<Longrightarrow> same (updates (tok s # us)) (updates (tok t # ws)) P"
  by (rule same_Cons [OF same_tok])

lemma same_text: "(d = e \<Longrightarrow> same (updates us) (updates ws) P) \<Longrightarrow> same (updates (nar_str d # us)) (updates (nar_str e # ws)) P"
  by (rule same_Cons [OF same_str])

lemma same_trans: "same a b Q \<Longrightarrow> (Q \<Longrightarrow> P) \<Longrightarrow> same a b P"
  unfolding same_def by blast

text \<open>The tree with its entries in the order written.\<close>

fun nar_norm :: "fs_node \<Rightarrow> fs_node" where
  "nar_norm (Directory es) = Directory (sort_key fst (map (\<lambda>(n, c). (n, nar_norm c)) es))"
| "nar_norm t = t"

lemma insort_key_map: "insort_key fst (k, f c) (map (\<lambda>(n, c). (n, f c)) es) = map (\<lambda>(n, c). (n, f c)) (insort_key fst (k, c) es)"
  by (induction es) auto

lemma sort_pairs_map: "sort_key fst (map (\<lambda>(n, c). (n, f c)) es) = map (\<lambda>(n, c). (n, f c)) (sort_key fst es)"
  by (induction es) (auto simp: sort_key_def insort_key_map)

lemma same_entries:
  assumes "\<And>n c b. (n, c) \<in> set es \<Longrightarrow> same (nar_dump c) (nar_dump b) (nar_norm c = nar_norm b)"
  shows "same (updates (concat (map nar_entry (map (\<lambda>(n, c). (n, nar_dump c)) es)) @ [tok '')'']))
    (updates (concat (map nar_entry (map (\<lambda>(n, c). (n, nar_dump c)) fs)) @ [tok '')'']))
    (map (\<lambda>(n, c). (n, nar_norm c)) es = map (\<lambda>(n, c). (n, nar_norm c)) fs)"
  using assms
proof (induction es arbitrary: fs)
  case Nil
  show ?case by (cases fs) (auto simp: nar_entry_def simp del: updates.simps intro!: same_word same_Nil)
next
  case (Cons e es)
  obtain n c where e: "e = (n, c)" by fastforce
  show ?case
  proof (cases fs)
    case Nil
    then show ?thesis by (auto simp: nar_entry_def e simp del: updates.simps intro!: same_word)
  next
    case (Cons f fs')
    obtain m b where f: "f = (m, b)" by fastforce
    have i: "same (updates (concat (map nar_entry (map (\<lambda>(n, c). (n, nar_dump c)) es)) @ [tok '')'']))
        (updates (concat (map nar_entry (map (\<lambda>(n, c). (n, nar_dump c)) fs')) @ [tok '')'']))
        (map (\<lambda>(n, c). (n, nar_norm c)) es = map (\<lambda>(n, c). (n, nar_norm c)) fs')"
      by (rule Cons.IH) (use Cons.prems in auto)
    have d: "same (nar_dump c) (nar_dump b) (nar_norm c = nar_norm b)" using Cons.prems [of n c b] e by simp
    show ?thesis
      unfolding Cons e f nar_entry_def list.map concat.simps prod.case fst_conv snd_conv append.simps
      by (intro same_word same_text, rule same_Cons [OF d], intro same_word, rule same_trans [OF i [unfolded nar_entry_def]]) auto
  qed
qed

lemma same_dump: "same (nar_dump a) (nar_dump b) (nar_norm a = nar_norm b)"
proof (induction a arbitrary: b)
  case (Symlink target)
  show ?case by (cases b) (auto simp del: updates.simps intro!: same_word same_text same_Nil simp: same_def [of _ "Inl _"])
next
  case (Directory es)
  have i: "same (nar_dump c) (nar_dump b') (nar_norm c = nar_norm b')" if "(n, c) \<in> set (sort_key fst es)" for n c b'
    using Directory.IH [of "(n, c)" c] that by simp
  show ?case
  proof (cases b)
    case b: (Directory fs)
    show ?thesis
      unfolding b nar_dump.simps append.simps sort_pairs_map
      by (intro same_word, rule same_trans [OF same_entries [OF i]]) (auto simp: sort_pairs_map)
  qed (auto simp del: updates.simps intro!: same_word same_text same_Nil simp: same_def [of _ "Inl _"])
next
  case (Regular executable contents)
  show ?case
    by (cases b) (auto simp del: updates.simps intro!: same_word same_text same_Nil simp: same_def [of _ "Inl _"])
next
  case Special
  show ?case by (simp add: same_def)
qed

section \<open>Base 32\<close>

text \<open>The number the bytes stand for, the least significant byte first.\<close>

primrec le_value :: "byte list \<Rightarrow> nat" where
  "le_value [] = 0"
| "le_value (b # bs) = unat b + 256 * le_value bs"

lemma unat_byte: "unat (b :: byte) < 256"
  using unsigned_less [of b] by simp

lemma le_value_drop: "le_value data div 256 ^ i = le_value (drop i data)"
proof (induction i arbitrary: data)
  case (Suc i)
  show ?case
  proof (cases data)
    case (Cons b bs)
    have "le_value data div 256 = le_value bs" using unat_byte [of b] Cons by simp
    then show ?thesis using Suc [of bs] Cons by (simp add: div_mult2_eq)
  qed simp
qed simp

lemma le_value_nth: "i < length data \<Longrightarrow> le_value (drop i data) = unat (data ! i) + 256 * le_value (drop (Suc i) data)"
  by (simp add: Cons_nth_drop_Suc [symmetric])

lemma or_add_nat: "(x :: nat) < 2 ^ k \<Longrightarrow> x OR push_bit k y = x + push_bit k y"
proof -
  assume x: "x < 2 ^ k"
  have "x AND push_bit k y = 0"
  proof (rule bit_eqI)
    fix n
    have "take_bit k x = x" using x by (simp add: take_bit_nat_eq_self)
    then have "bit x n \<Longrightarrow> n < k" by (metis bit_take_bit_iff)
    then show "bit (x AND push_bit k y) n \<longleftrightarrow> bit 0 n" by (auto simp: bit_and_iff bit_push_bit_iff)
  qed
  then show ?thesis by (simp add: disjunctive_add_eq_or)
qed

lemma nix32_digit_value:
  assumes "n * 5 < 8 * length data"
  shows "nix32_digit data n = le_value data div 32 ^ n mod 32"
proof -
  define i j where "i = n * 5 div 8" and "j = n * 5 mod 8"
  have i: "i < length data" and j: "j < 8" using assms by (auto simp: i_def j_def)
  have "(32 :: nat) ^ n = 2 ^ (5 * n)" by (simp add: power_mult)
  also have "5 * n = 8 * i + j" by (simp add: i_def j_def)
  also have "(2 :: nat) ^ (8 * i + j) = 256 ^ i * 2 ^ j" by (simp add: power_add power_mult)
  finally have "le_value data div 32 ^ n = le_value (drop i data) div 2 ^ j"
    by (simp add: div_mult2_eq le_value_drop)
  also have "\<dots> = (unat (data ! i) + 256 * le_value (drop (Suc i) data)) div 2 ^ j" using le_value_nth [OF i] by simp
  also have "256 * le_value (drop (Suc i) data) = 2 ^ j * (2 ^ (8 - j) * le_value (drop (Suc i) data))"
    using j by (simp add: mult.assoc [symmetric] power_add [symmetric])
  also have "(unat (data ! i) + 2 ^ j * (2 ^ (8 - j) * le_value (drop (Suc i) data))) div 2 ^ j =
      unat (data ! i) div 2 ^ j + 2 ^ (8 - j) * le_value (drop (Suc i) data)" by simp
  finally have v: "le_value data div 32 ^ n = unat (data ! i) div 2 ^ j + 2 ^ (8 - j) * le_value (drop (Suc i) data)" .
  have b: "unat (data ! i) div 2 ^ j < 2 ^ (8 - j)"
    using unat_byte [of "data ! i"] j by (simp add: div_less_iff_less_mult power_add [symmetric])
  have m: "c AND 0x1F = c mod 32" for c :: nat
    using take_bit_eq_mask [of 5 c] by (simp add: take_bit_eq_mod mask_eq_exp_minus_1)
  have c: "drop_bit j (unat (data ! i)) = unat (data ! i) div 2 ^ j" by (simp add: drop_bit_eq_div)
  show ?thesis
  proof (cases "i + 1 < length data")
    case True
    have "le_value (drop (Suc i) data) = unat (data ! (i + 1)) + 256 * le_value (drop (Suc (Suc i)) data)"
      using le_value_nth [of "Suc i" data] True by simp
    then have "2 ^ (8 - j) * le_value (drop (Suc i) data) =
        2 ^ (8 - j) * unat (data ! (i + 1)) + 32 * (2 ^ (8 - j) * 8 * le_value (drop (Suc (Suc i)) data))"
      by (simp add: algebra_simps)
    then have "(2 ^ (8 - j) * le_value (drop (Suc i) data)) mod 32 = (2 ^ (8 - j) * unat (data ! (i + 1))) mod 32"
      by (simp only: mod_mult_self2)
    then have "le_value data div 32 ^ n mod 32 = (unat (data ! i) div 2 ^ j + 2 ^ (8 - j) * unat (data ! (i + 1))) mod 32"
      unfolding v by (metis mod_add_right_eq)
    then show ?thesis
      using True or_add_nat [OF b] by (simp add: nix32_digit_def Let_def i_def [symmetric] j_def [symmetric] c m push_bit_eq_mult mult.commute)
  next
    case False
    then have "le_value (drop (Suc i) data) = 0" by simp
    then show ?thesis using False v by (simp add: nix32_digit_def Let_def i_def [symmetric] j_def [symmetric] c m)
  qed
qed

lemma le_value_less: "le_value bs < 256 ^ length bs"
proof (induction bs)
  case (Cons b bs)
  then have "le_value bs + 1 \<le> 256 ^ length bs" by simp
  then have "256 * (le_value bs + 1) \<le> 256 * 256 ^ length bs" by (rule mult_le_mono2)
  then show ?case using unat_byte [of b] by simp
qed simp

lemma le_value_inj: "length a = length b \<Longrightarrow> le_value a = le_value b \<Longrightarrow> a = b"
proof (induction a b rule: list_induct2)
  case (Cons x xs y ys)
  have "unat x = le_value (x # xs) mod 256" "unat y = le_value (y # ys) mod 256"
    "le_value xs = le_value (x # xs) div 256" "le_value ys = le_value (y # ys) div 256"
    using unat_byte [of x] unat_byte [of y] by simp_all
  then show ?case using Cons by (metis word_unat_eq_iff)
qed simp

lemma nix32_length_bounds: "n \<ge> 1 \<Longrightarrow> k < nix32_length n \<longleftrightarrow> k * 5 < 8 * n"
  unfolding nix32_length_def by (auto simp: zless_nat_eq_int_zless; linarith)

lemma nix32_length_0 [simp]: "nix32_length 0 = 0" by (simp add: nix32_length_def)

lemma nix32_value: "nix32 data = map (\<lambda>n. NIX32 ! (le_value data div 32 ^ n mod 32)) (rev [0..<nix32_length (length data)])"
proof (cases "data = []")
  case False
  then have "length data \<ge> 1" by (cases data) auto
  then show ?thesis unfolding nix32_def
    using nix32_digit_value [of _ data] nix32_length_bounds [of "length data"] by (intro map_cong) auto
qed (simp add: nix32_def)

lemma NIX32_length: "length NIX32 = 32" and NIX32_distinct: "distinct NIX32"
  by (simp_all add: NIX32_def)

text \<open>Nix's base 32: each character is a digit of the number the bytes stand for (least significant byte
  first), most significant digit first, and the digits are enough: two byte strings of one length with the same
  base 32 are the same.  A 20 byte hash has 32 characters.\<close>

theorem nix32_is_base_32:
  "nix32 a = map (\<lambda>n. NIX32 ! (le_value a div 32 ^ n mod 32)) (rev [0..<nix32_length (length a)]) \<and>
   nix32_length 20 = 32 \<and>
   (length a = length b \<longrightarrow> nix32 a = nix32 b \<longrightarrow> a = b)"
proof (intro conjI impI)
  show "nix32 a = map (\<lambda>n. NIX32 ! (le_value a div 32 ^ n mod 32)) (rev [0..<nix32_length (length a)])"
    by (rule nix32_value)
  show "nix32_length 20 = 32" by (simp add: nix32_length_def)
  assume l: "length a = length b" and e: "nix32 a = nix32 b"
  show "a = b"
  proof (cases "a = []")
    case False
    then have p: "length b \<ge> 1" using l by (cases a) auto
    let ?k = "nix32_length (length b)"
    have "8 * length b \<le> 5 * ?k" using nix32_length_bounds [OF p, of ?k] by simp
    then have "(256 :: nat) ^ length b \<le> 32 ^ ?k"
      using power_increasing [of "8 * length b" "5 * ?k" "2 :: nat"] by (simp add: power_mult)
    then have less: "le_value a < 32 ^ ?k" "le_value b < 32 ^ ?k"
      using le_value_less [of a] le_value_less [of b] l by auto
    have "map (\<lambda>n. NIX32 ! (le_value a div 32 ^ n mod 32)) (rev [0..<?k]) = map (\<lambda>n. NIX32 ! (le_value b div 32 ^ n mod 32)) (rev [0..<?k])"
      using e l by (simp only: nix32_value)
    then have "\<forall>n < ?k. NIX32 ! (le_value a div 32 ^ n mod 32) = NIX32 ! (le_value b div 32 ^ n mod 32)"
      by (auto simp only: map_eq_conv set_rev set_upt atLeastLessThan_iff)
    then have "\<And>n. n < ?k \<Longrightarrow> le_value a div 32 ^ n mod 32 = le_value b div 32 ^ n mod 32"
      using NIX32_distinct NIX32_length by (simp add: nth_eq_iff_index_eq)
    then have "le_value a = le_value b" by (rule digits_eq [OF less])
    then show ?thesis by (rule le_value_inj [OF l])
  qed (use l in simp)
qed

lemma nix32_is_base_32_witness: "nix32 [1] \<noteq> nix32 [2]"
  using nix32_is_base_32 [of "[1]" "[2]"] by auto

section \<open>The archive determines the tree\<close>

text \<open>C10. The serialisation hashed for a pin determines the tree: two trees (of any entries in any order) with
  the same bytes are, their entries sorted by name, the same tree, contents, executable bits and link
  targets included.  So a pin's hash stands for one tree as far as SHA-256 is collision free.\<close>

theorem nar_determines_the_tree:
  assumes "nar_bytes s = Inr bs" "nar_bytes t = Inr bs"
  shows "nar_norm s = nar_norm t"
proof -
  obtain h x where s: "tok ''nix-archive-1'' = Inr h" "nar_dump s = Inr x" "bs = h @ x"
    using assms(1) by (auto simp: nar_bytes_def sumres)
  obtain y where t: "nar_dump t = Inr y" "bs = h @ y"
    using assms(2) s(1) by (auto simp: nar_bytes_def sumres)
  from sameD [OF same_dump s(2) t(1), of "[]" "[]"] s(3) t(2) show ?thesis by simp
qed

lemma nar_determines_the_tree_witness:
  "nar_norm (Directory [(ascii ''b'', Regular False []), (ascii ''a'', Symlink [])]) =
   nar_norm (Directory [(ascii ''a'', Symlink []), (ascii ''b'', Regular False [])])"
proof -
  let ?s = "Directory [(ascii ''b'', Regular False []), (ascii ''a'', Symlink [])]"
  let ?t = "Directory [(ascii ''a'', Symlink []), (ascii ''b'', Regular False [])]"
  have lt: "ascii ''a'' \<le> ascii ''b''" "\<not> ascii ''b'' \<le> ascii ''a''" by (simp_all add: ascii_def)
  then have "nar_dump ?s = nar_dump ?t" by simp
  moreover have "\<exists>bs. nar_bytes ?t = Inr bs"
    using lt by (simp add: nar_bytes_def nar_entry_def tok_def nar_str_def to_bytes8_def ascii_def)
  ultimately show ?thesis
    using nar_determines_the_tree [of ?s _ ?t] by (auto simp: nar_bytes_def simp del: nar_dump.simps nar_norm.simps)
qed

end
