(* ===== verification/Report.thy ===== *)
theory Report
  imports PyJson
begin

text \<open>
  \<^verbatim>\<open>common/report.py\<close> (exit codes, findings and the workflow commands that report them) and the
  parts of \<^verbatim>\<open>scaffold/engine.py\<close> every managed file goes through: the decision whether a file has
  drifted (\<^verbatim>\<open>Item\<close>, \<^verbatim>\<open>Plan.code\<close>) and the check that a managed path stays inside the app (\<^verbatim>\<open>inside\<close>).
\<close>

section \<open>Exit codes\<close>

definition CLEAN :: nat where "CLEAN = 0"
definition DRIFT :: nat where "DRIFT = 1"
definition INVALID :: nat where "INVALID = 2"
definition ENVIRONMENT :: nat where "ENVIRONMENT = 3"

definition STATUS :: "(nat \<times> string) list" where
  "STATUS = [(CLEAN, ''clean''), (DRIFT, ''drift''), (INVALID, ''invalid''), (ENVIRONMENT, ''error'')]"

lemmas codes = CLEAN_def DRIFT_def INVALID_def ENVIRONMENT_def

definition worst :: "nat list \<Rightarrow> nat" where
  "worst cs = fold max cs CLEAN"

section \<open>Findings\<close>

record finding =
  f_path :: string
  f_strategy :: string
  f_problem :: string
  f_diff :: string
  f_module :: string

definition escape_data :: "string \<Rightarrow> string" where
  "escape_data text = replace_all [newline] ''%0A'' (replace_all [CHR 0x0D] ''%0D'' (replace_all ''%'' ''%25'' text))"

definition escape_property :: "string \<Rightarrow> string" where
  "escape_property text = replace_all '','' ''%2C'' (replace_all '':'' ''%3A'' (escape_data text))"

definition annotation :: "finding \<Rightarrow> string" where
  "annotation f = ''::error file='' @ escape_property (f_path f) @ ''::'' @ escape_data (f_problem f)"

definition finding_json :: "finding \<Rightarrow> json" where
  "finding_json f = JObj [(''path'', JStr (f_path f)), (''strategy'', JStr (f_strategy f)),
     (''module'', JStr (f_module f)), (''problem'', JStr (f_problem f)), (''diff'', JStr (f_diff f))]"

definition finding_text :: "finding \<Rightarrow> string list" where
  "finding_text f = (f_path f @ '' ('' @ f_strategy f @ ''): '' @ f_problem f) #
     (if f_diff f \<noteq> [] then [rstrip_by (\<lambda>c. c = newline) (f_diff f)] else [])"

text \<open>\<^verbatim>\<open>render\<close>: a JSON document, or lines; \<open>token\<close> is the random token of the GitHub format.\<close>

datatype report = JsonReport json | TextReport "string list"

definition render_report :: "string \<Rightarrow> finding list \<Rightarrow> string \<Rightarrow> nat \<Rightarrow> json \<Rightarrow> exn + report" where
  "render_report token findings fmt code frappe_nix =
     (if fmt = ''json'' then
        Inr (JsonReport (JObj [(''status'', JStr (case map_of STATUS code of Some s \<Rightarrow> s | None \<Rightarrow> ''error'')),
          (''frappe_nix'', jor frappe_nix (JObj [])), (''files'', JArr (map finding_json findings))]))
      else if fmt \<notin> {''text'', ''github''} then Inl (ConfigError ''unknown report format'')
      else let text = concat (map finding_text findings);
               body = (if fmt = ''github'' \<and> text \<noteq> [] then
                         [''::stop-commands::'' @ token] @ text @ [''::'' @ token @ ''::''] @ map annotation findings
                       else text)
           in Inr (TextReport (body @
             [if findings \<noteq> [] then ''frappe-nix: '' @ show_nat (length findings) @ '' file(s) drifted''
              else ''frappe-nix: clean''])))"

section \<open>Items\<close>

record item =
  i_path :: string
  i_strategy :: string
  i_current :: "string option"
  i_wanted :: "string option"
  i_problem :: string
  i_code :: nat
  i_command :: "string option"
  i_phase :: json
  i_module :: string

definition changes :: "item \<Rightarrow> bool" where
  "changes i \<longleftrightarrow> i_code i = DRIFT \<and> (i_wanted i \<noteq> i_current i \<or> i_command i \<noteq> None)"

text \<open>The \<^verbatim>\<open>item\<close> function of \<^verbatim>\<open>_entry_item\<close>, for the file as it is and as it should be.\<close>

definition make_item ::
  "string \<Rightarrow> string \<Rightarrow> string option \<Rightarrow> string option \<Rightarrow> string \<Rightarrow> nat option \<Rightarrow> string option \<Rightarrow> item" where
  "make_item path strategy current wanted problem code command =
     (let c = (case code of Some c \<Rightarrow> c
               | None \<Rightarrow> if wanted \<noteq> current \<or> command \<notin> {None, Some []} then DRIFT else CLEAN);
          p = (if c = DRIFT \<and> problem = [] then
                 (if current = None then ''missing'' else ''differs from the rendered file'') else problem)
      in \<lparr>i_path = path, i_strategy = strategy, i_current = current, i_wanted = wanted, i_problem = p,
          i_code = c, i_command = command, i_phase = JStr ''b'', i_module = []\<rparr>)"

definition plan_problems :: "item list \<Rightarrow> item list" where
  "plan_problems items = filter (\<lambda>i. i_code i \<noteq> CLEAN) items"

definition plan_code :: "item list \<Rightarrow> nat" where
  "plan_code items = (if items = [] then CLEAN else Max (set (map i_code items)))"

section \<open>Managed paths\<close>

definition UNMANAGED_DIRS :: "string list" where
  "UNMANAGED_DIRS = [''.git'', ''.direnv'', ''.frappe-nix'', ''.venv'', ''node_modules'']"

text \<open>\<^verbatim>\<open>PurePosixPath(path).parts\<close>: the root, if any, and the components.\<close>

definition posix_parts :: "string \<Rightarrow> string list" where
  "posix_parts path =
     (let rest = filter (\<lambda>x. x \<noteq> [] \<and> x \<noteq> ''.'') (split_on (CHR ''/'') path)
      in if startswith path ''//'' \<and> \<not> startswith path ''///'' then ''//'' # rest
         else if startswith path ''/'' then ''/'' # rest
         else rest)"

definition unmanaged_part :: "string \<Rightarrow> bool" where
  "unmanaged_part part \<longleftrightarrow> lower (rstrip_by (\<lambda>c. c \<in> {CHR ''.'', CHR '' ''}) part) \<in> set UNMANAGED_DIRS"

definition unmanaged_dir :: "string \<Rightarrow> string option" where
  "unmanaged_dir path = find unmanaged_part (posix_parts path)"

definition control_char :: "char \<Rightarrow> bool" where
  "control_char c \<longleftrightarrow> (of_char c :: nat) < 32 \<or> of_char c = (127 :: nat)"

text \<open>\<^verbatim>\<open>inside\<close>: whether the components so far are a symbolic link is the file system's answer.\<close>

fun no_links :: "(string list \<Rightarrow> bool) \<Rightarrow> bool \<Rightarrow> string list \<Rightarrow> string list \<Rightarrow> bool" where
  "no_links is_link link_ok cur [] = True"
| "no_links is_link link_ok cur (part # parts) =
     (\<not> (is_link (cur @ [part]) \<and> \<not> (parts = [] \<and> link_ok)) \<and> no_links is_link link_ok (cur @ [part]) parts)"

definition inside :: "(string list \<Rightarrow> bool) \<Rightarrow> bool \<Rightarrow> string \<Rightarrow> exn + unit" where
  "inside is_link link_ok path =
     (let parts = posix_parts path
      in if parts = [] \<or> startswith path ''/'' \<or> ''..'' \<in> set parts then Inl (ConfigError ''not a path inside the app'')
         else if list_ex control_char path then Inl (ConfigError ''a control character'')
         else if unmanaged_dir path \<noteq> None then Inl (ConfigError ''inside a directory sync never reads'')
         else if \<not> no_links is_link link_ok [] parts then Inl (ConfigError ''a symlink'')
         else Inr ())"

definition read_managed :: "(string list \<Rightarrow> bool) \<Rightarrow> (string \<Rightarrow> string option) \<Rightarrow> string \<Rightarrow> exn + string option" where
  "read_managed is_link file path = bindE (inside is_link False path) (\<lambda>_. Inr (file path))"

section \<open>Lemmas\<close>

lemma replace_char: "replace_all [c] new s = concat (map (\<lambda>x. if x = c then new else [x]) s)"
proof (induction s)
  case Nil
  then show ?case by (simp add: replace_all.simps)
next
  case (Cons x s)
  then show ?case by (subst replace_all.simps) (simp add: startswith_def)
qed

lemma concat_map_concat: "concat (map f (concat xss)) = concat (map (\<lambda>xs. concat (map f xs)) xss)"
  by (induction xss) auto

definition esc :: "char \<Rightarrow> string" where
  "esc c = (if c = CHR ''%'' then ''%25'' else if c = CHR 0x0D then ''%0D'' else if c = newline then ''%0A'' else [c])"

lemma escape_data_esc: "escape_data s = concat (map esc s)"
  by (simp add: escape_data_def replace_char concat_map_concat)
    (rule arg_cong [of _ _ concat], rule map_cong, simp_all add: esc_def)

definition escp :: "char \<Rightarrow> string" where
  "escp c = (if c = CHR '':'' then ''%3A'' else if c = CHR '','' then ''%2C'' else esc c)"

lemma escape_property_escp: "escape_property s = concat (map escp s)"
  by (simp add: escape_property_def escape_data_esc replace_char concat_map_concat)
    (rule arg_cong [of _ _ concat], rule map_cong, simp_all add: escp_def esc_def)

lemma esc_chars: "x \<in> set (esc c) \<Longrightarrow> x \<noteq> newline \<and> x \<noteq> CHR 0x0D"
  by (auto simp: esc_def split: if_splits)

lemma escp_chars: "x \<in> set (escp c) \<Longrightarrow> x \<noteq> newline \<and> x \<noteq> CHR 0x0D \<and> x \<noteq> CHR '':'' \<and> x \<noteq> CHR '',''"
  by (auto simp: escp_def esc_def split: if_splits)

lemma worst_Max: "worst cs = Max (insert CLEAN (set cs))"
  using Max.set_eq_fold [of CLEAN cs] by (simp add: worst_def)

lemma no_links_iff:
  "no_links is_link link_ok cur parts \<longleftrightarrow>
     (\<forall>us v vs. parts = us @ v # vs \<longrightarrow> is_link (cur @ us @ [v]) \<longrightarrow> vs = [] \<and> link_ok)"
proof (induction parts arbitrary: cur)
  case (Cons p ps)
  show ?case
  proof
    assume n: "no_links is_link link_ok cur (p # ps)"
    show "\<forall>us v vs. p # ps = us @ v # vs \<longrightarrow> is_link (cur @ us @ [v]) \<longrightarrow> vs = [] \<and> link_ok"
    proof (intro allI impI)
      fix us v vs assume e: "p # ps = us @ v # vs" and l: "is_link (cur @ us @ [v])"
      show "vs = [] \<and> link_ok"
      proof (cases us)
        case Nil
        with e l n show ?thesis by simp
      next
        case (Cons u us')
        with e have "ps = us' @ v # vs" "u = p" by simp_all
        with Cons l n Cons.IH [of "cur @ [p]"] show ?thesis by simp
      qed
    qed
  next
    assume a: "\<forall>us v vs. p # ps = us @ v # vs \<longrightarrow> is_link (cur @ us @ [v]) \<longrightarrow> vs = [] \<and> link_ok"
    have "is_link (cur @ [p]) \<longrightarrow> ps = [] \<and> link_ok" using spec [OF a, of "[]"] by simp
    moreover have "no_links is_link link_ok (cur @ [p]) ps"
      unfolding Cons.IH
    proof (intro allI impI)
      fix us v vs assume "ps = us @ v # vs" "is_link ((cur @ [p]) @ us @ [v])"
      then show "vs = [] \<and> link_ok" using spec [OF a, of "p # us"] by simp
    qed
    ultimately show "no_links is_link link_ok cur (p # ps)" by simp
  qed
qed simp

section \<open>Properties\<close>

text \<open>An annotation is one workflow command whatever the path and the problem hold: it has no line
  break, and nothing in the path ends its property.\<close>

theorem annotation_is_one_command:
  "newline \<notin> set (annotation f) \<and> CHR 0x0D \<notin> set (annotation f) \<and>
   CHR '':'' \<notin> set (escape_property (f_path f)) \<and> CHR '','' \<notin> set (escape_property (f_path f)) \<and>
   annotation f = ''::error file='' @ escape_property (f_path f) @ ''::'' @ escape_data (f_problem f)"
  using esc_chars escp_chars
  by (auto simp: annotation_def escape_data_esc escape_property_escp)

text \<open>A managed path that is accepted stays inside the app: it is relative and without \<^verbatim>\<open>..\<close>, has no
  control character, no component of it is one of the directories sync never touches (however it
  is cased, or with dots and spaces after it), and no part of it is a symbolic link (the last one only
  where a link may be deleted).\<close>

theorem inside_is_inside:
  assumes "inside is_link link_ok path = Inr ()"
  shows "\<not> startswith path ''/'' \<and> ''..'' \<notin> set (posix_parts path) \<and> (\<forall>c \<in> set path. \<not> control_char c) \<and>
    (\<forall>part \<in> set (posix_parts path). lower (rstrip_by (\<lambda>c. c \<in> {CHR ''.'', CHR '' ''}) part) \<notin> set UNMANAGED_DIRS) \<and>
    (\<forall>us v vs. posix_parts path = us @ v # vs \<longrightarrow> is_link (us @ [v]) \<longrightarrow> vs = [] \<and> link_ok)"
  using assms
  by (auto simp: inside_def Let_def unmanaged_dir_def find_None_iff unmanaged_part_def list_ex_iff no_links_iff
      split: if_splits)

theorem inside_is_inside_witness:
  "inside (\<lambda>ps. ps = [''tools'', ''link'']) False ''tools/x.nix'' = Inr () \<and> ''..'' \<notin> set (posix_parts ''tools/x.nix'')"
proof -
  have i: "inside (\<lambda>ps. ps = [''tools'', ''link'']) False ''tools/x.nix'' = Inr ()" by code_simp
  with inside_is_inside [OF i] show ?thesis by blast
qed

end
