(* ===== verification/Managed.thy ===== *)
theory Managed
  imports Report PyRegex
begin

text \<open>
  The files sync manages in part: \<^verbatim>\<open>scaffold/blocks.py\<close> (the block of \<^verbatim>\<open>.gitignore\<close>, the version block of
  \<^verbatim>\<open>__init__.py\<close>) and \<^verbatim>\<open>scaffold/regions.py\<close> (the local regions of a whole file).  What the engine
  needs of such a strategy is the locale \<open>managed_text\<close>: what it writes holds the managed part, writing
  again changes nothing, and what is the app's stays.  The strategies interpret it.
\<close>

section \<open>The contract\<close>

text \<open>\<open>put b cur\<close> is the text for the managed content \<open>b\<close> and the file as it is; \<open>ok\<close> the contents a
  strategy is given; \<open>theirs\<close> the app's part of a text.\<close>

locale managed_text =
  fixes put :: "'b \<Rightarrow> string option \<Rightarrow> exn + string"
    and ok :: "'b \<Rightarrow> bool"
    and theirs :: "string option \<Rightarrow> 'x"
  assumes put_again: "ok b \<Longrightarrow> put b cur = Inr t \<Longrightarrow> put b (Some t) = Inr t"
    and put_theirs: "ok b \<Longrightarrow> put b cur = Inr t \<Longrightarrow> theirs (Some t) = theirs cur"
begin

text \<open>The item of a file under the strategy.\<close>

definition item_of :: "string \<Rightarrow> string \<Rightarrow> 'b \<Rightarrow> string option \<Rightarrow> exn + item" where
  "item_of path strategy b cur = bindE (put b cur) (\<lambda>t. Inr (make_item path strategy cur (Some t) [] None None))"

text \<open>A file written once is clean at the next check, and stays so.\<close>

lemma settles:
  "ok b \<Longrightarrow> item_of path strategy b cur = Inr i \<Longrightarrow>
   item_of path strategy b (i_wanted i) = Inr (make_item path strategy (i_wanted i) (i_wanted i) [] None None) \<and>
   i_code (make_item path strategy (i_wanted i) (i_wanted i) [] None None) = CLEAN"
  by (auto simp: item_of_def sumres make_item_def Let_def codes dest: put_again)

text \<open>Any sequence of syncs, whatever the managed contents, leaves the app's part.\<close>

fun puts :: "'b list \<Rightarrow> string option \<Rightarrow> exn + string option" where
  "puts [] cur = Inr cur"
| "puts (b # bs) cur = bindE (put b cur) (\<lambda>t. puts bs (Some t))"

lemma puts_theirs: "list_all ok bs \<Longrightarrow> puts bs cur = Inr t \<Longrightarrow> theirs t = theirs cur"
proof (induction bs arbitrary: cur)
  case (Cons b bs)
  then obtain u where "put b cur = Inr u" "puts bs (Some u) = Inr t" by (auto simp: sumres)
  with Cons put_theirs [of b cur u] show ?case by simp
qed simp

end

section \<open>The block of .gitignore\<close>

definition GITIGNORE_BEGIN :: string where
  "GITIGNORE_BEGIN = ''# >>> frappe-nix >>> (managed block '' @ [CHR 0xE2, CHR 0x80, CHR 0x94] @
     '' edits here are overwritten)''"

definition GITIGNORE_END :: string where "GITIGNORE_END = ''# <<< frappe-nix <<<''"

abbreviation is_nl :: "char \<Rightarrow> bool" where "is_nl \<equiv> (\<lambda>c. c = newline)"

definition gitignore_block :: "string \<Rightarrow> string" where
  "gitignore_block body = GITIGNORE_BEGIN @ [newline] @ body @ [newline] @ GITIGNORE_END @ [newline]"

definition gitignore :: "string \<Rightarrow> string option \<Rightarrow> exn + string" where
  "gitignore body0 current =
     (let body = rstrip_by is_nl body0 in
      case current of
        None \<Rightarrow> Inr (gitignore_block body)
      | Some cur \<Rightarrow>
          let lines = split_on newline cur in
          case index_of GITIGNORE_BEGIN lines of
            Some start \<Rightarrow>
              (case index_of GITIGNORE_END (drop start lines) of
                 None \<Rightarrow> Inl (ConfigError ''the frappe-nix block is never closed'')
               | Some n \<Rightarrow> Inr (join [newline] (take (start + 1) lines @ [body] @ drop (start + n) lines)))
          | None \<Rightarrow>
              Inr ((if endswith cur [newline] \<or> cur = [] then cur else cur @ [newline]) @ gitignore_block body))"

text \<open>The app's part: the lines before the block and after it (all of them when there is none), less
  the empty line a final line break leaves.\<close>

definition gitignore_ok :: "string \<Rightarrow> bool" where
  "gitignore_ok body \<longleftrightarrow> GITIGNORE_END \<notin> set (split_on newline (rstrip_by is_nl body))"

definition drop_last_empty :: "string list \<Rightarrow> string list" where
  "drop_last_empty ls = (if ls \<noteq> [] \<and> last ls = [] then butlast ls else ls)"

definition gitignore_theirs :: "string option \<Rightarrow> string list" where
  "gitignore_theirs current =
     (case current of
        None \<Rightarrow> []
      | Some cur \<Rightarrow>
          let lines = split_on newline cur in
          drop_last_empty (case index_of GITIGNORE_BEGIN lines of
                 None \<Rightarrow> lines
               | Some start \<Rightarrow> (case index_of GITIGNORE_END (drop start lines) of
                   None \<Rightarrow> lines
                 | Some n \<Rightarrow> take start lines @ drop (start + n + 1) lines)))"

lemma markers:
  "newline \<notin> set GITIGNORE_BEGIN" "newline \<notin> set GITIGNORE_END" "GITIGNORE_BEGIN \<noteq> GITIGNORE_END"
  "GITIGNORE_BEGIN \<noteq> []" "GITIGNORE_END \<noteq> []"
  by (simp_all add: GITIGNORE_BEGIN_def GITIGNORE_END_def)

lemma join_app: "xs \<noteq> [] \<Longrightarrow> ys \<noteq> [] \<Longrightarrow> join sep (xs @ ys) = join sep xs @ sep @ join sep ys"
proof (induction xs)
  case (Cons x xs)
  then show ?case by (cases "xs = []") (simp_all add: join_Cons)
qed simp

text \<open>A text in which the block stands: the lines before it, its body, the lines after it.\<close>

definition blocked :: "string list \<Rightarrow> string \<Rightarrow> string list \<Rightarrow> string" where
  "blocked us body vs = join [newline] (us @ [GITIGNORE_BEGIN, body, GITIGNORE_END] @ vs)"

definition plain_lines :: "string list \<Rightarrow> bool" where
  "plain_lines ls \<longleftrightarrow> (\<forall>l \<in> set ls. newline \<notin> set l)"

lemma split_blocked:
  "plain_lines us \<Longrightarrow> plain_lines vs \<Longrightarrow>
   split_on newline (blocked us body vs) = us @ [GITIGNORE_BEGIN] @ split_on newline body @ [GITIGNORE_END] @ vs"
proof -
  assume us: "plain_lines us" and vs: "plain_lines vs"
  have "blocked us body vs = join [newline] (us @ [GITIGNORE_BEGIN]) @ newline # body @ newline # join [newline] (GITIGNORE_END # vs)"
    unfolding blocked_def using join_app [of "us @ [GITIGNORE_BEGIN]" "body # GITIGNORE_END # vs" "[newline]"]
    by (simp add: join_Cons)
  moreover have "split_on newline (join [newline] (us @ [GITIGNORE_BEGIN])) = us @ [GITIGNORE_BEGIN]"
    using us markers by (intro split_join) (auto simp: plain_lines_def)
  moreover have "split_on newline (join [newline] (GITIGNORE_END # vs)) = GITIGNORE_END # vs"
    using vs markers by (intro split_join) (auto simp: plain_lines_def)
  ultimately show ?thesis by (simp add: split_on_sep)
qed

lemma index_after: "x \<notin> set us \<Longrightarrow> index_of x (us @ ys) = map_option (\<lambda>n. length us + n) (index_of x ys)"
proof (induction us)
  case Nil
  show ?case by (simp add: option.map_ident)
next
  case (Cons u us)
  then show ?case by (simp add: option.map_comp comp_def)
qed

lemma blocked_index:
  assumes "plain_lines us" "plain_lines vs" "GITIGNORE_BEGIN \<notin> set us" "GITIGNORE_END \<notin> set (split_on newline body)"
  shows "index_of GITIGNORE_BEGIN (split_on newline (blocked us body vs)) = Some (length us)"
    "index_of GITIGNORE_END (drop (length us) (split_on newline (blocked us body vs))) =
       Some (1 + length (split_on newline body))"
  using assms markers
  by (simp_all add: split_blocked index_after index_of_app)

lemma gitignore_blocked:
  assumes "plain_lines us" "plain_lines vs" "GITIGNORE_BEGIN \<notin> set us" "GITIGNORE_END \<notin> set (split_on newline body)"
  shows "gitignore body0 (Some (blocked us body vs)) = Inr (blocked us (rstrip_by is_nl body0) vs)"
    "gitignore_theirs (Some (blocked us body vs)) =
       drop_last_empty (us @ vs)"
proof -
  let ?L = "split_on newline (blocked us body vs)"
  have "take (length us + 1) ?L = us @ [GITIGNORE_BEGIN]"
    "drop (length us + (1 + length (split_on newline body))) ?L = GITIGNORE_END # vs"
    by (simp_all add: split_blocked assms)
  then show "gitignore body0 (Some (blocked us body vs)) = Inr (blocked us (rstrip_by is_nl body0) vs)"
    unfolding gitignore_def Let_def
    by (simp only: option.case blocked_index [OF assms]) (simp add: blocked_def)
  have "take (length us) ?L = us" "drop (length us + (1 + length (split_on newline body)) + 1) ?L = vs"
    by (simp_all add: split_blocked assms)
  then show "gitignore_theirs (Some (blocked us body vs)) =
       drop_last_empty (us @ vs)"
    unfolding gitignore_theirs_def Let_def
    by (simp only: option.case blocked_index [OF assms])
qed

lemma last_split: "last (split_on c s) = [] \<longleftrightarrow> s = [] \<or> endswith s [c]"
proof (cases "s = [] \<or> endswith s [c]")
  case True
  then show ?thesis
  proof
    assume "endswith s [c]"
    then obtain h where "s = h @ [c]" by (auto simp: endswith_iff)
    then show ?thesis using split_on_sep [of c h "[]"] by (simp add: endswith_iff)
  qed simp
next
  case False
  then obtain h d where s: "s = h @ [d]" by (metis rev_exhaust)
  with False have d: "d \<noteq> c" by (auto simp: endswith_iff)
  have "last (split_on c (h @ [d])) \<noteq> []"
    using d by (induction h) (auto split: list.splits if_splits)
  with s False show ?thesis by simp
qed

lemma plain_split: "plain_lines (split_on newline s)"
  by (auto simp: plain_lines_def dest: split_on_parts)

lemma plain_sub: "plain_lines ls \<Longrightarrow> set us \<subseteq> set ls \<Longrightarrow> plain_lines us"
  by (auto simp: plain_lines_def)

text \<open>Whatever the file was, the text written is the app's lines around the block.\<close>

lemma block_as_blocked:
  "h @ [newline] @ gitignore_block body = blocked (split_on newline h) body [[]]"
  "gitignore_block body = blocked [] body [[]]"
proof -
  have "blocked (split_on newline h) body [[]] =
      join [newline] (split_on newline h) @ [newline] @ join [newline] [GITIGNORE_BEGIN, body, GITIGNORE_END, []]"
    unfolding blocked_def by (subst join_app [symmetric]) simp_all
  then show "h @ [newline] @ gitignore_block body = blocked (split_on newline h) body [[]]"
    by (simp add: gitignore_block_def)
qed (simp add: gitignore_block_def blocked_def)

lemma gitignore_shape:
  assumes "gitignore body0 cur = Inr t"
  shows "\<exists>us vs. t = blocked us (rstrip_by is_nl body0) vs \<and> plain_lines us \<and> plain_lines vs \<and>
    GITIGNORE_BEGIN \<notin> set us \<and> gitignore_theirs cur = drop_last_empty (us @ vs)"
proof (cases cur)
  case None
  with assms show ?thesis
    by (intro exI [of _ "[]"] exI [of _ "[[]]"])
      (simp add: gitignore_def block_as_blocked(2) plain_lines_def gitignore_theirs_def drop_last_empty_def)
next
  case (Some c)
  let ?L = "split_on newline c"
  show ?thesis
  proof (cases "index_of GITIGNORE_BEGIN ?L")
    case None
    then have nb: "GITIGNORE_BEGIN \<notin> set ?L" by simp
    have th: "gitignore_theirs cur = drop_last_empty ?L"
      using Some by (simp add: gitignore_theirs_def Let_def None del: index_of_None_iff)
    show ?thesis
    proof (cases "c = [] \<or> endswith c [newline]")
      case True
      then consider "c = []" | h where "c = h @ [newline]" by (auto simp: endswith_iff)
      then show ?thesis
      proof cases
        case 1
        with assms Some None th show ?thesis
          by (intro exI [of _ "[]"] exI [of _ "[[]]"])
            (simp add: gitignore_def Let_def block_as_blocked(2) plain_lines_def drop_last_empty_def del: index_of_None_iff)
      next
        case 2
        then have L: "?L = split_on newline h @ [[]]" using split_on_sep [of newline h "[]"] by simp
        have "t = blocked (split_on newline h) (rstrip_by is_nl body0) [[]]"
          using assms Some None 2 True by (simp add: gitignore_def Let_def block_as_blocked(1) [symmetric] del: index_of_None_iff)
        moreover have "GITIGNORE_BEGIN \<notin> set (split_on newline h)" using nb L by simp
        moreover have "gitignore_theirs cur = drop_last_empty (split_on newline h @ [[]])" using th L by simp
        ultimately show ?thesis
          using plain_split [of h] by (intro exI [of _ "split_on newline h"] exI [of _ "[[]]"]) (simp add: plain_lines_def)
      qed
    next
      case False
      have "t = blocked ?L (rstrip_by is_nl body0) [[]]"
        using assms Some None False by (simp add: gitignore_def Let_def block_as_blocked(1) [symmetric] del: index_of_None_iff)
      moreover have "gitignore_theirs cur = drop_last_empty (?L @ [[]])"
        using th False last_split [of newline c] by (simp add: drop_last_empty_def)
      ultimately show ?thesis
        using nb plain_split [of c] by (intro exI [of _ ?L] exI [of _ "[[]]"]) (simp add: plain_lines_def)
    qed
  next
    case (Some start)
    then obtain n where n: "index_of GITIGNORE_END (drop start ?L) = Some n"
      using assms \<open>cur = Some c\<close> by (auto simp: gitignore_def Let_def split: option.splits)
    let ?us = "take start ?L" and ?vs = "drop (start + n + 1) ?L"
    have b: "start < length ?L" "?L ! start = GITIGNORE_BEGIN" "GITIGNORE_BEGIN \<notin> set ?us"
      using index_of_Some [OF Some] by blast+
    have e: "n < length (drop start ?L)" "drop start ?L ! n = GITIGNORE_END"
      using index_of_Some [OF n] by blast+
    have "take (start + 1) ?L = ?us @ [GITIGNORE_BEGIN]"
      using b(1,2) by (simp add: take_Suc_conv_app_nth)
    moreover have "drop (start + n) ?L = GITIGNORE_END # ?vs"
      using e Cons_nth_drop_Suc [of "start + n" ?L] by simp
    ultimately have "t = blocked ?us (rstrip_by is_nl body0) ?vs"
      using assms Some n \<open>cur = Some c\<close> by (simp add: gitignore_def Let_def blocked_def)
    moreover have "gitignore_theirs cur = drop_last_empty (?us @ ?vs)"
      using Some n \<open>cur = Some c\<close> by (simp add: gitignore_theirs_def Let_def)
    moreover have "plain_lines ?us" "plain_lines ?vs"
      using plain_sub [OF plain_split [of c]] by (simp_all add: set_take_subset set_drop_subset)
    ultimately show ?thesis using b(3) by blast
  qed
qed

interpretation gitignore: managed_text gitignore gitignore_ok gitignore_theirs
proof
  fix b cur t assume ok: "gitignore_ok b" and t: "gitignore b cur = Inr t"
  obtain us vs where s: "t = blocked us (rstrip_by is_nl b) vs" "plain_lines us" "plain_lines vs"
    "GITIGNORE_BEGIN \<notin> set us" "gitignore_theirs cur = drop_last_empty (us @ vs)"
    using gitignore_shape [OF t] by blast
  have "GITIGNORE_END \<notin> set (split_on newline (rstrip_by is_nl b))" using ok by (simp add: gitignore_ok_def)
  note g = gitignore_blocked [OF s(2-4) this]
  show "gitignore b (Some t) = Inr t" using g(1) [of b] s(1) by simp
  show "gitignore_theirs (Some t) = gitignore_theirs cur"
    using g(2) s(1,5) by (simp add: drop_last_empty_def Let_def)
qed

section \<open>The version block of __init__.py\<close>

definition INIT_BEGIN :: string where "INIT_BEGIN = ''# x-release-please-start-version''"
definition INIT_END :: string where "INIT_END = ''# x-release-please-end''"

text \<open>\<^verbatim>\<open>^__version__\s*=\s*(['"])(?P<v>[^'"]*)\1\s*(#.*)?$\<close> on a stripped line: the version.\<close>

definition quote_char :: "char \<Rightarrow> bool" where
  "quote_char c \<longleftrightarrow> (of_char c :: nat) \<in> {34, 39}"

definition version_of :: "string \<Rightarrow> string option" where
  "version_of line =
     (if \<not> startswith line ''__version__'' then None
      else case lstrip (drop 11 line) of
        [] \<Rightarrow> None
      | e # r1 \<Rightarrow>
          if e \<noteq> CHR ''='' then None
          else case lstrip r1 of
            [] \<Rightarrow> None
          | q # r2 \<Rightarrow>
              if \<not> quote_char q then None
              else let v = takeWhile (\<lambda>c. \<not> quote_char c) r2
                   in case drop (length v) r2 of
                        [] \<Rightarrow> None
                      | q' # r3 \<Rightarrow>
                          if q' = q \<and> (lstrip r3 = [] \<or> (hd (lstrip r3) = CHR ''#'' \<and> newline \<notin> set (lstrip r3)))
                          then Some v else None)"

text \<open>The loop over the lines: the version found, the lines kept, where the block goes, and whether it
  is inside a block.\<close>

record init_scan =
  is_version :: "string option"
  is_kept :: "string list"
  is_at :: "nat option"
  is_inside :: bool

definition mark_at :: "init_scan \<Rightarrow> init_scan" where
  "mark_at s = (if is_at s = None then s\<lparr>is_at := Some (length (is_kept s))\<rparr> else s)"

definition init_line :: "string \<Rightarrow> init_scan \<Rightarrow> init_scan" where
  "init_line line s =
     (let st = strip line in
      if st = INIT_BEGIN then mark_at (s\<lparr>is_inside := True\<rparr>)
      else if st = INIT_END \<and> is_inside s then s\<lparr>is_inside := False\<rparr>
      else case version_of st of
             Some v \<Rightarrow> mark_at (if is_version s = None then s\<lparr>is_version := Some v\<rparr> else s)
           | None \<Rightarrow> s\<lparr>is_kept := is_kept s @ [line]\<rparr>)"

definition init_start :: init_scan where
  "init_start = \<lparr>is_version = None, is_kept = [], is_at = None, is_inside = False\<rparr>"

text \<open>\<^verbatim>\<open>while at > 0 and not kept[at - 1].strip(): at -= 1\<close>, from the end.\<close>

definition before_blank :: "string list \<Rightarrow> nat" where
  "before_blank kept = length (rev (dropWhile (\<lambda>l. strip l = []) (rev kept)))"

definition version_line :: "string \<Rightarrow> string" where
  "version_line v = ''__version__ = \"'' @ v @ ''\"''"

definition init_lines :: "string option \<Rightarrow> string list" where
  "init_lines current =
     (let ls = split_on newline (case current of Some c \<Rightarrow> c | None \<Rightarrow> [])
      in if last ls = [] then butlast ls else ls)"

definition init_py :: "string option \<Rightarrow> string \<Rightarrow> string \<times> string list" where
  "init_py current default_version =
     (let s = fold init_line (init_lines current) init_start;
          v = (case is_version s of Some v \<Rightarrow> if v \<noteq> [] then v else default_version | None \<Rightarrow> default_version);
          kept = is_kept s;
          pos = (case is_at s of Some n \<Rightarrow> n | None \<Rightarrow> before_blank kept);
          out = take pos kept @ [INIT_BEGIN, version_line v, INIT_END] @ drop pos kept
      in (join [newline] out @ [newline],
          filter (\<lambda>l. strip l \<noteq> [] \<and> \<not> startswith (lstrip l) ''#'') kept))"

definition init_py_unblocked :: "string \<Rightarrow> string" where
  "init_py_unblocked current =
     join [newline] (filter (\<lambda>l. strip l \<notin> {INIT_BEGIN, INIT_END}) (split_on newline current))"

definition version_ok :: "string \<Rightarrow> bool" where
  "version_ok v \<longleftrightarrow> (\<forall>c \<in> set v. \<not> quote_char c \<and> c \<noteq> newline)"

definition init_theirs :: "string option \<Rightarrow> string list" where
  "init_theirs current = is_kept (fold init_line (init_lines current) init_start)"

definition put_init :: "string \<Rightarrow> string option \<Rightarrow> exn + string" where
  "put_init default_version current = Inr (fst (init_py current default_version))"

text \<open>A line the loop keeps, and the loop over lines outside a block.\<close>

definition keepable :: "string \<Rightarrow> bool" where
  "keepable l \<longleftrightarrow> strip l \<noteq> INIT_BEGIN \<and> version_of (strip l) = None \<and> newline \<notin> set l"

lemma dropWhile_first: "s \<noteq> [] \<Longrightarrow> \<not> P (hd s) \<Longrightarrow> dropWhile P s = s"
  by (cases s) auto

lemma strip_ends: "s \<noteq> [] \<Longrightarrow> \<not> is_ws (hd s) \<Longrightarrow> \<not> is_ws (last s) \<Longrightarrow> strip s = s"
  by (simp add: strip_by_def rstrip_by_def lstrip_by_def dropWhile_first hd_rev)

lemma strip_subset: "set (strip s) \<subseteq> set s"
proof -
  have d: "set (dropWhile P xs) \<subseteq> set xs" for P and xs :: string by (auto dest: set_dropWhileD)
  have "set (strip s) \<subseteq> set (dropWhile is_ws s)"
    using d [of is_ws "rev (dropWhile is_ws s)"] by (simp add: strip_by_def rstrip_by_def lstrip_by_def)
  then show ?thesis using d [of is_ws s] by blast
qed

lemma strip_marks: "strip INIT_BEGIN = INIT_BEGIN" "strip INIT_END = INIT_END" "strip (version_line v) = version_line v"
  by (rule strip_ends; simp add: INIT_BEGIN_def INIT_END_def version_line_def is_ws_def)+

lemma version_of_line: "version_ok v \<Longrightarrow> version_of (version_line v) = Some v"
proof -
  assume v: "version_ok v"
  have "takeWhile (\<lambda>c. \<not> quote_char c) (v @ ''\"'') = v"
    using v by (subst takeWhile_append2) (auto simp: version_ok_def quote_char_def)
  then show ?thesis
    by (simp add: version_of_def version_line_def startswith_def lstrip_by_def is_ws_def quote_char_def)
qed

lemma version_of_ok: "version_of st = Some v \<Longrightarrow> newline \<notin> set st \<Longrightarrow> version_ok v"
proof -
  assume v: "version_of st = Some v" and n: "newline \<notin> set st"
  obtain q r2 where r: "v = takeWhile (\<lambda>c. \<not> quote_char c) r2" "set r2 \<subseteq> set st"
  proof -
    have "\<exists>r2. v = takeWhile (\<lambda>c. \<not> quote_char c) r2 \<and> set r2 \<subseteq> set st"
      using v unfolding version_of_def lstrip_by_def
      by (auto simp: Let_def split: if_splits list.splits)
        (metis (no_types, lifting) in_set_dropD set_ConsD set_dropWhileD list.set_intros(2) subsetI)+
    then show ?thesis using that by blast
  qed
  then show ?thesis using n by (auto simp: version_ok_def dest: set_takeWhileD)
qed

lemma fold_keepable:
  "list_all keepable ls \<Longrightarrow> \<not> is_inside s \<Longrightarrow> fold init_line ls s = s\<lparr>is_kept := is_kept s @ ls\<rparr>"
  by (induction ls arbitrary: s) (auto simp: init_line_def keepable_def Let_def)

text \<open>The state after any lines that hold no line break.\<close>

definition scan_ok :: "init_scan \<Rightarrow> bool" where
  "scan_ok s \<longleftrightarrow> list_all keepable (is_kept s) \<and> (\<forall>v. is_version s = Some v \<longrightarrow> version_ok v) \<and>
     (\<forall>n. is_at s = Some n \<longrightarrow> n \<le> length (is_kept s))"

lemma scan_ok_line: "newline \<notin> set line \<Longrightarrow> scan_ok s \<Longrightarrow> scan_ok (init_line line s)"
  using version_of_ok [of "strip line"] strip_subset [of line]
  by (auto simp: init_line_def mark_at_def scan_ok_def keepable_def Let_def split: option.split)

lemma scan_ok_fold: "plain_lines ls \<Longrightarrow> scan_ok s \<Longrightarrow> scan_ok (fold init_line ls s)"
  by (induction ls arbitrary: s) (auto simp: plain_lines_def scan_ok_line)

lemma plain_init_lines: "plain_lines (init_lines current)"
  using plain_split [of "case current of Some c \<Rightarrow> c | None \<Rightarrow> []"]
  by (auto simp: init_lines_def Let_def plain_lines_def dest: in_set_butlastD)

lemma init_again:
  assumes "list_all keepable kept" "version_ok v" "n \<le> length kept"
  shows "fold init_line (init_lines (Some (join [newline] (take n kept @ [INIT_BEGIN, version_line v, INIT_END] @ drop n kept) @ [newline])))
      init_start = \<lparr>is_version = Some v, is_kept = kept, is_at = Some n, is_inside = False\<rparr>"
proof -
  let ?out = "take n kept @ [INIT_BEGIN, version_line v, INIT_END] @ drop n kept"
  have "\<forall>l \<in> set ?out. newline \<notin> set l"
    using assms by (auto simp: list_all_iff keepable_def version_ok_def INIT_BEGIN_def INIT_END_def version_line_def
        dest: in_set_takeD in_set_dropD)
  then have "split_on newline (join [newline] ?out @ [newline]) = ?out @ [[]]"
    using split_on_sep [of newline "join [newline] ?out" "[]"] split_join [of ?out newline] by simp
  then have l: "init_lines (Some (join [newline] ?out @ [newline])) = ?out"
    by (simp add: init_lines_def butlast_append)
  have k: "list_all keepable (take n kept)" "list_all keepable (drop n kept)"
    using assms(1) by (auto simp: list_all_iff dest: in_set_takeD in_set_dropD)
  have ne: "INIT_BEGIN \<noteq> INIT_END" "version_line v \<noteq> INIT_BEGIN" "version_line v \<noteq> INIT_END"
    by (simp_all add: INIT_BEGIN_def INIT_END_def version_line_def)
  have b: "init_line INIT_BEGIN s = mark_at (s\<lparr>is_inside := True\<rparr>)" for s
    by (simp add: init_line_def strip_marks)
  have m: "init_line (version_line v) s = mark_at (if is_version s = None then s\<lparr>is_version := Some v\<rparr> else s)" for s
    using ne by (simp add: init_line_def strip_marks version_of_line [OF assms(2)])
  have e: "is_inside s \<Longrightarrow> init_line INIT_END s = s\<lparr>is_inside := False\<rparr>" for s
    using ne(1) by (auto simp: init_line_def strip_marks)
  show ?thesis
    unfolding l using assms(3) k
    by (simp add: fold_keepable b m e mark_at_def init_start_def)
qed

lemma before_blank_le: "before_blank kept \<le> length kept"
  using length_dropWhile_le [of "\<lambda>l. strip l = []" "rev kept"] by (simp add: before_blank_def)

lemma init_py_shape:
  assumes "version_ok dv"
  shows "\<exists>n v. fst (init_py cur dv) = join [newline] (take n (init_theirs cur) @ [INIT_BEGIN, version_line v, INIT_END] @ drop n (init_theirs cur)) @ [newline] \<and>
    n \<le> length (init_theirs cur) \<and> version_ok v \<and> (v = [] \<longrightarrow> dv = []) \<and> list_all keepable (init_theirs cur) \<and>
    (\<forall>w. is_version (fold init_line (init_lines cur) init_start) = Some w \<and> w \<noteq> [] \<longrightarrow> v = w)"
proof -
  let ?s = "fold init_line (init_lines cur) init_start"
  have ok: "scan_ok ?s"
    by (rule scan_ok_fold [OF plain_init_lines]) (simp add: init_start_def scan_ok_def)
  let ?n = "case is_at ?s of Some n \<Rightarrow> n | None \<Rightarrow> before_blank (is_kept ?s)"
  let ?v = "case is_version ?s of Some v \<Rightarrow> if v \<noteq> [] then v else dv | None \<Rightarrow> dv"
  have "?n \<le> length (is_kept ?s)" using ok before_blank_le by (auto simp: scan_ok_def split: option.split)
  moreover have "version_ok ?v" "?v = [] \<longrightarrow> dv = []" using ok assms by (auto simp: scan_ok_def split: option.split)
  ultimately show ?thesis
    using ok unfolding init_theirs_def init_py_def Let_def
    by (intro exI [of _ ?n] exI [of _ ?v]) (auto simp: scan_ok_def)
qed

interpretation init_py: managed_text put_init version_ok init_theirs
proof
  fix dv cur t assume ok: "version_ok dv" and "put_init dv cur = Inr t"
  then have t: "t = fst (init_py cur dv)" by (simp add: put_init_def)
  obtain n v where s: "t = join [newline] (take n (init_theirs cur) @ [INIT_BEGIN, version_line v, INIT_END] @ drop n (init_theirs cur)) @ [newline]"
    "n \<le> length (init_theirs cur)" "version_ok v" "v = [] \<longrightarrow> dv = []" "list_all keepable (init_theirs cur)"
    using init_py_shape [OF ok, of cur] t by blast
  note a = init_again [OF s(5) s(3) s(2), folded s(1)]
  show "init_theirs (Some t) = init_theirs cur" using a by (simp add: init_theirs_def)
  show "put_init dv (Some t) = Inr t"
    unfolding put_init_def init_py_def Let_def a using s(1,4) by (cases "v = []") simp_all
qed

section \<open>What the strategies promise\<close>

lemma gitignore_closed:
  "gitignore body cur = Inl e \<longleftrightarrow>
   e = ConfigError ''the frappe-nix block is never closed'' \<and>
   (\<exists>c n. cur = Some c \<and> index_of GITIGNORE_BEGIN (split_on newline c) = Some n \<and>
     GITIGNORE_END \<notin> set (drop n (split_on newline c)))"
proof (cases cur)
  case None
  then show ?thesis by (simp add: gitignore_def Let_def)
next
  case (Some c)
  let ?L = "split_on newline c"
  show ?thesis
  proof (cases "index_of GITIGNORE_BEGIN ?L")
    case None
    with Some show ?thesis by (simp add: gitignore_def Let_def del: index_of_None_iff)
  next
    case (Some n)
    then show ?thesis
      using \<open>cur = Some c\<close>
      by (cases "index_of GITIGNORE_END (drop n ?L)")
        (auto simp: gitignore_def Let_def index_of_None_iff [symmetric] simp del: index_of_None_iff)
  qed
qed

text \<open>Syncing .gitignore over any file, from a body that does not hold the end marker: the text holds
  the block with that body between the app's lines, whose order and text are kept to the line; a second sync
  with the same body changes nothing; and the only file refused is one whose block never closes.\<close>

theorem gitignore_keeps_the_app:
  assumes "gitignore_ok body"
  shows "case gitignore body cur of
      Inl e \<Rightarrow> \<exists>c n. cur = Some c \<and> index_of GITIGNORE_BEGIN (split_on newline c) = Some n \<and>
                 GITIGNORE_END \<notin> set (drop n (split_on newline c))
    | Inr t \<Rightarrow> (\<exists>us vs. t = join [newline] (us @ [GITIGNORE_BEGIN, rstrip_by is_nl body, GITIGNORE_END] @ vs) \<and>
                 gitignore_theirs cur = drop_last_empty (us @ vs)) \<and>
               gitignore_theirs (Some t) = gitignore_theirs cur \<and>
               gitignore body (Some t) = Inr t"
proof (cases "gitignore body cur")
  case (Inl e)
  then show ?thesis using gitignore_closed [of body cur e] by auto
next
  case (Inr t)
  with gitignore_shape [OF Inr] gitignore.put_again [OF assms Inr] gitignore.put_theirs [OF assms Inr]
  show ?thesis by (auto simp: blocked_def)
qed

lemma gitignore_keeps_the_app_witness:
  "\<exists>t. gitignore ''/result'' (Some ''*.pyc'') = Inr t \<and> gitignore_theirs (Some t) = [''*.pyc'']"
proof -
  have ok: "gitignore_ok ''/result''" by (simp add: gitignore_ok_def GITIGNORE_END_def rstrip_by_def)
  have i: "index_of GITIGNORE_BEGIN [''*.pyc''] = None" by (simp add: GITIGNORE_BEGIN_def)
  have s: "split_on newline ''*.pyc'' = [''*.pyc'']" by simp
  have th: "gitignore_theirs (Some ''*.pyc'') = [''*.pyc'']"
    unfolding gitignore_theirs_def Let_def option.case s i by (simp add: drop_last_empty_def)
  show ?thesis
  proof (cases "gitignore ''/result'' (Some ''*.pyc'')")
    case (Inl e)
    with gitignore_keeps_the_app [OF ok, of "Some ''*.pyc''"] i s show ?thesis by (auto simp del: index_of_None_iff)
  next
    case (Inr t)
    with gitignore_keeps_the_app [OF ok, of "Some ''*.pyc''"] th show ?thesis by simp
  qed
qed

text \<open>Syncing an app's \<^verbatim>\<open>__init__.py\<close>: the file written is the app's other lines with one version block put
  among them, those lines kept in order; the version is the file's own first version when it has a non-empty
  one, and the default otherwise; a second sync changes nothing.\<close>

theorem init_py_keeps_the_app:
  assumes "version_ok dv"
  shows "(\<exists>n v. fst (init_py cur dv) =
        join [newline] (take n (init_theirs cur) @ [INIT_BEGIN, version_line v, INIT_END] @ drop n (init_theirs cur)) @ [newline] \<and>
      (v = (case is_version (fold init_line (init_lines cur) init_start) of
              Some w \<Rightarrow> if w \<noteq> [] then w else dv | None \<Rightarrow> dv))) \<and>
    init_theirs (Some (fst (init_py cur dv))) = init_theirs cur \<and>
    fst (init_py (Some (fst (init_py cur dv))) dv) = fst (init_py cur dv)"
proof (intro conjI)
  show "\<exists>n v. fst (init_py cur dv) =
        join [newline] (take n (init_theirs cur) @ [INIT_BEGIN, version_line v, INIT_END] @ drop n (init_theirs cur)) @ [newline] \<and>
      (v = (case is_version (fold init_line (init_lines cur) init_start) of
              Some w \<Rightarrow> if w \<noteq> [] then w else dv | None \<Rightarrow> dv))"
    unfolding init_py_def init_theirs_def Let_def by auto
  have p: "put_init dv cur = Inr (fst (init_py cur dv))" by (simp add: put_init_def)
  show "init_theirs (Some (fst (init_py cur dv))) = init_theirs cur" by (rule init_py.put_theirs [OF assms p])
  show "fst (init_py (Some (fst (init_py cur dv))) dv) = fst (init_py cur dv)"
    using init_py.put_again [OF assms p] by (simp add: put_init_def)
qed

lemma init_py_keeps_the_app_witness:
  "init_theirs (Some (fst (init_py (Some ''import x'') ''0.0.1''))) = [''import x'']"
proof -
  have "version_ok ''0.0.1''" by (simp add: version_ok_def quote_char_def)
  from init_py_keeps_the_app [OF this, of "Some ''import x''"] show ?thesis
    by (simp add: init_theirs_def init_lines_def init_start_def init_line_def INIT_BEGIN_def INIT_END_def
      strip_by_def rstrip_by_def lstrip_by_def is_ws_def version_of_def startswith_def Let_def)
qed

end
