(* ===== verification/Regions.thy ===== *)
theory Regions
  imports Managed
begin

text \<open>
  \<^verbatim>\<open>scaffold/regions.py\<close>: the local regions of a \<^verbatim>\<open>whole\<close> file, which the app may edit.  A template
  fixes the regions; sync renders it and puts back what the file has between each pair of markers.
  The strategy interprets the contract of \<^verbatim>\<open>Managed\<close>.
\<close>

section \<open>The code\<close>

text \<open>\<^verbatim>\<open>^[ \t]*# frappe-nix:local-(?P<kind>begin|end) (?P<name>[A-Za-z0-9_-]+)[ \t]*$\<close>: whether a line is
  a marker, a begin one (\<open>True\<close>) or an end one, and its name.\<close>

definition blank :: "char \<Rightarrow> bool" where
  "blank c \<longleftrightarrow> c = CHR '' '' \<or> c = tab"

definition region_name :: "string \<Rightarrow> bool" where
  "region_name s \<longleftrightarrow> s \<noteq> [] \<and> list_all (\<lambda>c. is_alnum c \<or> c = CHR ''_'' \<or> c = CHR ''-'') s"

definition marker :: "string \<Rightarrow> (bool \<times> string) option" where
  "marker line =
     (let s = strip_by blank line; b = ''# frappe-nix:local-begin ''; e = ''# frappe-nix:local-end ''
      in if startswith s b \<and> region_name (drop (length b) s) then Some (True, drop (length b) s)
         else if startswith s e \<and> region_name (drop (length e) s) then Some (False, drop (length e) s)
         else None)"

text \<open>\<^verbatim>\<open>parse\<close>: the lines of each closed region so far and the open one with its lines.  (The code puts
  a region into its dictionary when it opens; a region still open at the end is an error, and none
  opens inside another, so the dictionary it returns is this one.)\<close>

fun parse_lines ::
  "(string \<Rightarrow> bool) \<Rightarrow> string list \<Rightarrow> (string \<times> string list) list \<Rightarrow> (string \<times> string list) option
     \<Rightarrow> exn + (string \<times> string list) list" where
  "parse_lines allowed [] out cur =
     (case cur of None \<Rightarrow> Inr out | Some _ \<Rightarrow> Inl (ConfigError ''never closed''))"
| "parse_lines allowed (l # ls) out cur =
     (case marker l of
        None \<Rightarrow> parse_lines allowed ls out (map_option (\<lambda>(n, body). (n, body @ [l])) cur)
      | Some (True, n) \<Rightarrow>
          if cur \<noteq> None then Inl (ConfigError ''begins inside'')
          else if \<not> allowed n then Inl (ConfigError ''unknown local region'')
          else if n \<in> fst ` set out then Inl (ConfigError ''appears twice'')
          else parse_lines allowed ls out (Some (n, []))
      | Some (False, n) \<Rightarrow>
          (case cur of
             Some (m, body) \<Rightarrow>
               if m \<noteq> n then Inl (ConfigError ''does not close an open region'')
               else parse_lines allowed ls (out @ [(m, body)]) None
           | None \<Rightarrow> Inl (ConfigError ''does not close an open region'')))"

definition parse_regions :: "string \<Rightarrow> string list \<Rightarrow> exn + (string \<times> string list) list" where
  "parse_regions text allowed = parse_lines (\<lambda>n. n \<in> set allowed) (splitlines text) [] None"

definition region_body :: "(string \<times> string list) list \<Rightarrow> string \<Rightarrow> string list" where
  "region_body d n = (case map_of d n of Some ls \<Rightarrow> ls | None \<Rightarrow> [])"

text \<open>\<^verbatim>\<open>splice\<close>: the rendered lines, with their line ends, and the region they are in.\<close>

fun splice_lines :: "(string \<Rightarrow> string list) \<Rightarrow> string list \<Rightarrow> string option \<Rightarrow> string list" where
  "splice_lines body [] reg = []"
| "splice_lines body (line # ls) reg =
     (case reg of
        Some n \<Rightarrow>
          (case marker (rstrip_by is_nl line) of
             Some (False, _) \<Rightarrow> map (\<lambda>b. b @ [newline]) (body n) @ line # splice_lines body ls None
           | _ \<Rightarrow> splice_lines body ls reg)
      | None \<Rightarrow>
          line # splice_lines body ls
            (case marker (rstrip_by is_nl line) of Some (True, n) \<Rightarrow> Some n | _ \<Rightarrow> None))"

definition splice_file :: "string \<Rightarrow> string option \<Rightarrow> string list \<Rightarrow> exn + string" where
  "splice_file rendered current allowed =
     (if allowed = [] then Inr rendered
      else bindE (case current of Some c \<Rightarrow> parse_regions c allowed | None \<Rightarrow> Inr []) (\<lambda>bodies.
        Inr (concat (splice_lines (region_body bodies) (splitlines_keep rendered) None))))"

definition region_bodies :: "string \<Rightarrow> string list \<Rightarrow> exn + string" where
  "region_bodies text allowed =
     bindE (parse_regions text allowed) (\<lambda>d. Inr (join [newline] (map (\<lambda>(n, ls). join [newline] ls) d)))"

definition filled :: "string \<Rightarrow> string list \<Rightarrow> exn + string list" where
  "filled text allowed =
     bindE (parse_regions text allowed) (\<lambda>d.
       Inr (map fst (filter (\<lambda>(n, ls). list_ex (\<lambda>l. strip l \<noteq> []) ls) d)))"

section \<open>Lines\<close>

text \<open>A text all of whose lines end in a line feed, from its lines.\<close>

definition unlines :: "string list \<Rightarrow> string" where
  "unlines ls = concat (map (\<lambda>l. l @ [newline]) ls)"

definition no_ends :: "string list \<Rightarrow> bool" where
  "no_ends ls \<longleftrightarrow> (\<forall>l \<in> set ls. \<forall>c \<in> set l. \<not> line_end c)"

lemma line_end_nl [simp]: "line_end newline" by (simp add: line_end_def)

lemma splitlines_keep_line:
  "\<forall>c \<in> set l. \<not> line_end c \<Longrightarrow> splitlines_keep (l @ newline # s) = (l @ [newline]) # splitlines_keep s"
proof (induction l)
  case Nil
  then show ?case by (cases s) (simp_all add: line_end_def)
next
  case (Cons c l)
  have "c \<noteq> CHR 0x0D" using Cons.prems by (auto simp: line_end_def)
  with Cons show ?case by (cases l) auto
qed

lemma splitlines_keep_unlines: "no_ends ls \<Longrightarrow> splitlines_keep (unlines ls) = map (\<lambda>l. l @ [newline]) ls"
  by (induction ls) (auto simp: unlines_def no_ends_def splitlines_keep_line)

lemma splitlines_unlines: "no_ends ls \<Longrightarrow> splitlines (unlines ls) = ls"
proof -
  assume n: "no_ends ls"
  have "takeWhile (\<lambda>c. \<not> line_end c) (l @ [newline]) = l" if "l \<in> set ls" for l
    using n that by (subst takeWhile_append2) (auto simp: no_ends_def)
  then show ?thesis by (simp add: splitlines_def splitlines_keep_unlines [OF n] map_idI)
qed

lemma no_ends_splitlines: "no_ends (splitlines s)"
  by (auto simp: no_ends_def splitlines_def dest: set_takeWhileD)

lemma rstrip_line:
  "\<forall>c \<in> set l. \<not> line_end c \<Longrightarrow> rstrip_by is_nl l = l"
  "\<forall>c \<in> set l. \<not> line_end c \<Longrightarrow> rstrip_by is_nl (l @ [newline]) = l"
  by (cases l rule: rev_cases; auto simp: rstrip_by_def)+

section \<open>Parsing what was spliced\<close>

lemma parse_any: "parse_lines allowed ls out cur = Inr d \<Longrightarrow> parse_lines (\<lambda>n. True) ls out cur = Inr d"
  by (induction ls arbitrary: out cur)
    (auto split: option.splits prod.splits bool.splits if_splits)

lemma parse_names:
  "parse_lines allowed ls out cur = Inr d \<Longrightarrow> (\<And>n b. cur = Some (n, b) \<Longrightarrow> allowed n) \<Longrightarrow>
   fst ` set out \<subseteq> Collect allowed \<Longrightarrow> fst ` set d \<subseteq> Collect allowed"
proof (induction ls arbitrary: out cur)
  case (Cons l ls)
  show ?case
  proof (cases "marker l")
    case None
    with Cons.prems show ?thesis by (intro Cons.IH [of out "map_option (\<lambda>(n, body). (n, body @ [l])) cur"]) auto
  next
    case (Some k)
    obtain b n where k: "k = (b, n)" by fastforce
    show ?thesis
    proof (cases b)
      case True
      with Cons.prems Some k show ?thesis by (intro Cons.IH [of out "Some (n, [])"]) (auto split: if_splits)
    next
      case False
      with Cons.prems Some k obtain m body where c: "cur = Some (m, body)" "m = n"
        by (auto split: option.splits if_splits)
      with False Cons.prems Some k show ?thesis by (intro Cons.IH [of "out @ [(m, body)]" None]) auto
    qed
  qed
qed (auto split: option.splits)

text \<open>The lines of the regions are lines of the text, and no markers.\<close>

definition body_lines :: "(string \<times> string list) list \<Rightarrow> string set" where
  "body_lines d = \<Union> ((set \<circ> snd) ` set d)"

definition cur_lines :: "(string \<times> string list) option \<Rightarrow> string set" where
  "cur_lines cur = (case cur of None \<Rightarrow> {} | Some (n, ls) \<Rightarrow> set ls)"

lemma parse_bodies:
  "parse_lines allowed ls out cur = Inr d \<Longrightarrow>
   body_lines d \<subseteq> body_lines out \<union> cur_lines cur \<union> {l \<in> set ls. marker l = None}"
proof (induction ls arbitrary: out cur)
  case (Cons l ls)
  show ?case
  proof (cases "marker l")
    case None
    with Cons.prems have p: "parse_lines allowed ls out (map_option (\<lambda>(n, body). (n, body @ [l])) cur) = Inr d" by simp
    have "cur_lines (map_option (\<lambda>(n, body). (n, body @ [l])) cur) \<subseteq> insert l (cur_lines cur)"
      by (auto simp: cur_lines_def split: option.splits)
    with Cons.IH [OF p] None show ?thesis by auto
  next
    case (Some k)
    obtain b n where k: "k = (b, n)" by fastforce
    show ?thesis
    proof (cases b)
      case True
      with Cons.prems Some k have "parse_lines allowed ls out (Some (n, [])) = Inr d" by (auto split: if_splits)
      from Cons.IH [OF this] show ?thesis by (auto simp: cur_lines_def)
    next
      case False
      with Cons.prems Some k obtain m body where c: "cur = Some (m, body)" "parse_lines allowed ls (out @ [(m, body)]) None = Inr d"
        by (auto split: option.splits if_splits)
      from Cons.IH [OF this(2)] c(1) show ?thesis by (auto simp: cur_lines_def body_lines_def)
    qed
  qed
qed (auto split: option.splits)

lemma parse_body_run:
  "\<forall>l \<in> set bs. marker l = None \<Longrightarrow>
   parse_lines allowed (bs @ ls) out (Some (n, pre)) = parse_lines allowed ls out (Some (n, pre @ bs))"
  by (induction bs arbitrary: pre) auto

text \<open>The lines of the text spliced, without their ends.\<close>

fun spliced :: "(string \<Rightarrow> string list) \<Rightarrow> string list \<Rightarrow> string option \<Rightarrow> string list" where
  "spliced body [] reg = []"
| "spliced body (l # ls) reg =
     (case reg of
        Some n \<Rightarrow>
          (case marker l of
             Some (False, _) \<Rightarrow> body n @ l # spliced body ls None
           | _ \<Rightarrow> spliced body ls reg)
      | None \<Rightarrow> l # spliced body ls (case marker l of Some (True, n) \<Rightarrow> Some n | _ \<Rightarrow> None))"

lemma splice_lines_spliced:
  "no_ends ls \<Longrightarrow> splice_lines body (map (\<lambda>l. l @ [newline]) ls) reg = map (\<lambda>l. l @ [newline]) (spliced body ls reg)"
  by (induction ls arbitrary: reg)
    (auto simp: no_ends_def rstrip_line split: option.splits prod.splits bool.splits)

lemma spliced_lines: "set (spliced body ls reg) \<subseteq> set ls \<union> (\<Union>n. set (body n))"
  by (induction ls arbitrary: reg) (auto split: option.splits prod.splits bool.splits)

lemma parse_spliced:
  assumes "\<And>n. \<forall>l \<in> set (body n). marker l = None"
  shows "parse_lines allowed ls out cur = Inr d \<Longrightarrow> map fst out' = map fst out \<Longrightarrow>
    \<exists>ns. map fst d = map fst out @ ns \<and>
      parse_lines allowed (spliced body ls (map_option fst cur)) out' (map_option (\<lambda>(n, b). (n, [])) cur) =
        Inr (out' @ map (\<lambda>n. (n, body n)) ns)"
proof (induction ls arbitrary: out out' cur)
  case Nil
  then show ?case by (auto split: option.splits)
next
  case (Cons l ls)
  show ?case
  proof (cases "marker l")
    case None
    with Cons.prems(1) have p: "parse_lines allowed ls out (map_option (\<lambda>(n, b). (n, b @ [l])) cur) = Inr d" by simp
    from Cons.IH [OF p Cons.prems(2)] None show ?thesis by (cases cur) auto
  next
    case (Some k)
    obtain b n where k: "k = (b, n)" by fastforce
    show ?thesis
    proof (cases b)
      case True
      with Cons.prems(1) Some k have c: "cur = None" "allowed n" "n \<notin> fst ` set out"
        "parse_lines allowed ls out (Some (n, [])) = Inr d" by (auto split: if_splits)
      have "n \<notin> fst ` set out'" using c(3) Cons.prems(2) by (metis set_map)
      with Cons.IH [OF c(4) Cons.prems(2)] c True Some k show ?thesis by auto
    next
      case False
      with Cons.prems(1) Some k obtain bd where c: "cur = Some (n, bd)" "parse_lines allowed ls (out @ [(n, bd)]) None = Inr d"
        by (auto split: option.splits if_splits)
      have "map fst (out' @ [(n, body n)]) = map fst (out @ [(n, bd)])" using Cons.prems(2) by simp
      from Cons.IH [OF c(2) this] c(1) False Some k show ?thesis
        by (auto simp: parse_body_run [OF assms])
    qed
  qed
qed

lemma spliced_cong:
  "parse_lines allowed ls out cur = Inr d \<Longrightarrow> (\<forall>n \<in> fst ` set d. f n = g n) \<Longrightarrow>
   spliced f ls (map_option fst cur) = spliced g ls (map_option fst cur) \<and> fst ` set out \<subseteq> fst ` set d"
proof (induction ls arbitrary: out cur)
  case Nil
  then show ?case by (auto split: option.splits)
next
  case (Cons l ls)
  show ?case
  proof (cases "marker l")
    case None
    with Cons.prems(1) have p: "parse_lines allowed ls out (map_option (\<lambda>(n, b). (n, b @ [l])) cur) = Inr d" by simp
    from Cons.IH [OF p Cons.prems(2)] None show ?thesis by (cases cur) auto
  next
    case (Some k)
    obtain b n where k: "k = (b, n)" by fastforce
    show ?thesis
    proof (cases b)
      case True
      with Cons.prems(1) Some k have c: "cur = None" "parse_lines allowed ls out (Some (n, [])) = Inr d"
        by (auto split: if_splits)
      from Cons.IH [OF c(2) Cons.prems(2)] c True Some k show ?thesis by auto
    next
      case False
      with Cons.prems(1) Some k obtain bd where c: "cur = Some (n, bd)" "parse_lines allowed ls (out @ [(n, bd)]) None = Inr d"
        by (auto split: option.splits if_splits)
      from Cons.IH [OF c(2) Cons.prems(2)] have i: "spliced f ls None = spliced g ls None" "insert n (fst ` set out) \<subseteq> fst ` set d"
        by auto
      then have "f n = g n" using Cons.prems(2) by auto
      with i c(1) False Some k show ?thesis by auto
    qed
  qed
qed

section \<open>The whole file with local regions\<close>

text \<open>A template: lines that end in line feeds, in which every region the file may have stands once.\<close>

definition template_ok :: "string \<Rightarrow> string list \<Rightarrow> bool" where
  "template_ok rendered allowed \<longleftrightarrow>
     allowed \<noteq> [] \<and> rendered = unlines (splitlines rendered) \<and>
     (case parse_regions rendered allowed of Inr d \<Rightarrow> set (map fst d) = set allowed | Inl _ \<Rightarrow> False)"

definition put_whole :: "string \<times> string list \<Rightarrow> string option \<Rightarrow> exn + string" where
  "put_whole b current = splice_file (fst b) current (snd b)"

definition whole_ok :: "string \<times> string list \<Rightarrow> bool" where
  "whole_ok b \<longleftrightarrow> template_ok (fst b) (snd b)"

text \<open>The app's part: the lines of each region, whatever the regions are called.\<close>

definition whole_theirs :: "string option \<Rightarrow> string \<Rightarrow> string list" where
  "whole_theirs current n =
     (case current of
        None \<Rightarrow> []
      | Some c \<Rightarrow> (case parse_lines (\<lambda>_. True) (splitlines c) [] None of Inr d \<Rightarrow> region_body d n | Inl _ \<Rightarrow> []))"

lemma region_body_in: "region_body d n \<noteq> [] \<Longrightarrow> (n, region_body d n) \<in> set d"
  by (auto simp: region_body_def dest: map_of_SomeD split: option.splits)

lemma region_body_out: "n \<notin> fst ` set d \<Longrightarrow> region_body d n = []"
  using region_body_in [of d n] by force

lemma region_body_map: "region_body (map (\<lambda>n. (n, f n)) ns) n = (if n \<in> set ns then f n else [])"
  by (simp add: region_body_def map_of_map_restrict restrict_map_def)

lemma parse_regions_body:
  assumes "parse_regions c allowed = Inr d" "l \<in> set (region_body d n)"
  shows "marker l = None" "\<forall>x \<in> set l. \<not> line_end x"
proof -
  have "(n, region_body d n) \<in> set d" using assms(2) by (intro region_body_in) auto
  then have "l \<in> body_lines d" using assms(2) by (force simp: body_lines_def)
  then have "l \<in> {l \<in> set (splitlines c). marker l = None}"
    using parse_bodies [OF assms(1) [unfolded parse_regions_def]] by (auto simp: body_lines_def cur_lines_def)
  then show "marker l = None" "\<forall>x \<in> set l. \<not> line_end x"
    using no_ends_splitlines [of c] by (auto simp: no_ends_def)
qed

lemma parse_regions_names: "parse_regions c allowed = Inr d \<Longrightarrow> fst ` set d \<subseteq> set allowed"
  using parse_names [of "\<lambda>n. n \<in> set allowed" "splitlines c" "[]" None d] by (auto simp: parse_regions_def)

text \<open>What sync writes over a template, region by region.\<close>

lemma splice_shape:
  assumes ok: "template_ok rendered allowed" and t: "splice_file rendered cur allowed = Inr t"
  obtains bodies ds where
    "cur = None \<and> bodies = [] \<or> (\<exists>c. cur = Some c \<and> parse_regions c allowed = Inr bodies)"
    "set ds = set allowed"
    "t = unlines (spliced (region_body bodies) (splitlines rendered) None)"
    "parse_regions t allowed = Inr (map (\<lambda>n. (n, region_body bodies n)) ds)"
    "\<And>g. (\<And>n. n \<in> set allowed \<Longrightarrow> g n = region_body bodies n) \<Longrightarrow>
       spliced g (splitlines rendered) None = spliced (region_body bodies) (splitlines rendered) None"
proof -
  let ?L = "splitlines rendered"
  obtain d where d: "parse_lines (\<lambda>n. n \<in> set allowed) ?L [] None = Inr d" "set (map fst d) = set allowed"
    using ok by (auto simp: template_ok_def parse_regions_def split: sum.splits)
  from ok have a: "allowed \<noteq> []" "rendered = unlines ?L" by (auto simp: template_ok_def)
  obtain bodies where b: "(case cur of Some c \<Rightarrow> parse_regions c allowed | None \<Rightarrow> Inr []) = Inr bodies"
    and t': "t = concat (splice_lines (region_body bodies) (splitlines_keep rendered) None)"
    using t a(1) by (auto simp: splice_file_def sumres)
  have b': "cur = None \<and> bodies = [] \<or> (\<exists>c. cur = Some c \<and> parse_regions c allowed = Inr bodies)"
    using b by (auto split: option.splits)
  have body: "marker l = None \<and> (\<forall>x \<in> set l. \<not> line_end x)" if "l \<in> set (region_body bodies n)" for l n
    using b'
  proof
    assume "\<exists>c. cur = Some c \<and> parse_regions c allowed = Inr bodies"
    then show ?thesis using that parse_regions_body by blast
  next
    assume "cur = None \<and> bodies = []"
    then show ?thesis using that by (simp add: region_body_def)
  qed
  let ?S = "spliced (region_body bodies) ?L None"
  have n: "no_ends ?L" by (rule no_ends_splitlines)
  have "splitlines_keep rendered = map (\<lambda>l. l @ [newline]) ?L"
    using splitlines_keep_unlines [OF n] a(2) by simp
  then have tu: "t = unlines ?S" using t' splice_lines_spliced [OF n] by (simp add: unlines_def)
  have "no_ends ?S" using spliced_lines [of "region_body bodies" ?L None] n body by (fastforce simp: no_ends_def)
  then have "splitlines t = ?S" using tu splitlines_unlines by simp
  moreover have "parse_lines (\<lambda>n. n \<in> set allowed) ?S [] None = Inr (map (\<lambda>n. (n, region_body bodies n)) (map fst d))"
    using parse_spliced [OF _ d(1), of "region_body bodies" "[]"] body by simp
  ultimately have p: "parse_regions t allowed = Inr (map (\<lambda>n. (n, region_body bodies n)) (map fst d))"
    by (auto simp: parse_regions_def)
  have "spliced g ?L None = ?S" if "\<And>n. n \<in> set allowed \<Longrightarrow> g n = region_body bodies n" for g
    using spliced_cong [OF d(1), of g "region_body bodies"] d(2) that by auto
  with that [OF b' d(2) tu p] show ?thesis by blast
qed

interpretation whole: managed_text put_whole whole_ok whole_theirs
proof
  fix b cur t assume "whole_ok b" "put_whole b cur = Inr t"
  then have ok: "template_ok (fst b) (snd b)" and s: "splice_file (fst b) cur (snd b) = Inr t"
    by (simp_all add: whole_ok_def put_whole_def)
  obtain bodies ds where *: "cur = None \<and> bodies = [] \<or> (\<exists>c. cur = Some c \<and> parse_regions c (snd b) = Inr bodies)"
    "set ds = set (snd b)" "t = unlines (spliced (region_body bodies) (splitlines (fst b)) None)"
    "parse_regions t (snd b) = Inr (map (\<lambda>n. (n, region_body bodies n)) ds)"
    "\<And>g. (\<And>n. n \<in> set (snd b) \<Longrightarrow> g n = region_body bodies n) \<Longrightarrow>
       spliced g (splitlines (fst b)) None = spliced (region_body bodies) (splitlines (fst b)) None"
    by (rule splice_shape [OF ok s]) blast
  have n: "no_ends (splitlines (fst b))" by (rule no_ends_splitlines)
  have "fst b = unlines (splitlines (fst b))" using ok by (simp add: template_ok_def)
  then have k: "splitlines_keep (fst b) = map (\<lambda>l. l @ [newline]) (splitlines (fst b))"
    using splitlines_keep_unlines [OF n] by simp
  let ?g = "region_body (map (\<lambda>n. (n, region_body bodies n)) ds)"
  have "spliced ?g (splitlines (fst b)) None = spliced (region_body bodies) (splitlines (fst b)) None"
    by (rule *(5)) (simp add: region_body_map *(2))
  then show "put_whole b (Some t) = Inr t"
    using *(3,4) ok by (simp add: put_whole_def splice_file_def template_ok_def k splice_lines_spliced [OF n] unlines_def)
  show "whole_theirs (Some t) = whole_theirs cur"
  proof
    fix n
    have "whole_theirs (Some t) n = ?g n"
      using *(4) parse_any by (fastforce simp: whole_theirs_def parse_regions_def)
    also have "\<dots> = region_body bodies n"
    proof (cases "n \<in> set ds")
      case False
      then have "n \<notin> fst ` set bodies" using *(1,2) parse_regions_names by fastforce
      then show ?thesis using False by (simp add: region_body_map region_body_out)
    qed (simp add: region_body_map)
    also have "\<dots> = whole_theirs cur n"
      using *(1) parse_any by (fastforce simp: whole_theirs_def parse_regions_def region_body_def)
    finally show "whole_theirs (Some t) n = whole_theirs cur n" .
  qed
qed

text \<open>C11. Syncing a whole file from a template in which each of its regions stands once: a file whose
  markers are right is rewritten to a text whose regions hold, region by region, exactly the lines they held,
  and which a second sync leaves as it is; and a file whose markers are wrong is refused, never overwritten.\<close>

theorem whole_file_keeps_regions:
  assumes "template_ok rendered allowed"
  shows "case parse_regions cur allowed of
      Inl e \<Rightarrow> splice_file rendered (Some cur) allowed = Inl e
    | Inr d \<Rightarrow> \<exists>t d'. splice_file rendered (Some cur) allowed = Inr t \<and> parse_regions t allowed = Inr d' \<and>
        set (map fst d') = set allowed \<and> (\<forall>n. region_body d' n = region_body d n) \<and>
        splice_file rendered (Some t) allowed = Inr t"
proof (cases "parse_regions cur allowed")
  case (Inl e)
  then show ?thesis using assms by (simp add: splice_file_def template_ok_def)
next
  case (Inr d)
  then obtain t where t: "splice_file rendered (Some cur) allowed = Inr t"
    using assms by (simp add: splice_file_def template_ok_def)
  obtain bodies ds where *: "parse_regions cur allowed = Inr bodies" "set ds = set allowed"
    "parse_regions t allowed = Inr (map (\<lambda>n. (n, region_body bodies n)) ds)"
    using splice_shape [OF assms t] by (metis option.distinct(1) option.inject)
  have "n \<notin> set ds \<Longrightarrow> region_body bodies n = []" for n
    using parse_regions_names [OF *(1)] *(2) region_body_out [of n bodies] by auto
  moreover have "splice_file rendered (Some t) allowed = Inr t"
    using whole.put_again [of "(rendered, allowed)" "Some cur" t] t assms by (simp add: whole_ok_def put_whole_def)
  ultimately show ?thesis
    using Inr t * by (auto simp: region_body_map image_iff)
qed

lemma whole_file_keeps_regions_witness:
  "\<exists>t. splice_file (unlines [''a'', ''# frappe-nix:local-begin env'', ''# frappe-nix:local-end env''])
      (Some (unlines [''# frappe-nix:local-begin env'', ''X=1'', ''# frappe-nix:local-end env''])) [''env''] = Inr t"
proof -
  let ?r = "unlines [''a'', ''# frappe-nix:local-begin env'', ''# frappe-nix:local-end env'']"
  let ?c = "unlines [''# frappe-nix:local-begin env'', ''X=1'', ''# frappe-nix:local-end env'']"
  have m: "marker ''a'' = None" "marker ''X=1'' = None"
    "marker ''# frappe-nix:local-begin env'' = Some (True, ''env'')"
    "marker ''# frappe-nix:local-end env'' = Some (False, ''env'')"
    by (simp_all add: marker_def strip_by_def rstrip_by_def lstrip_by_def blank_def startswith_def region_name_def is_alnum_def is_lower_def is_upper_def is_digit_def Let_def)
  have s: "splitlines ?r = [''a'', ''# frappe-nix:local-begin env'', ''# frappe-nix:local-end env'']"
    "splitlines ?c = [''# frappe-nix:local-begin env'', ''X=1'', ''# frappe-nix:local-end env'']"
    by (intro splitlines_unlines; simp add: no_ends_def line_end_def)+
  have "template_ok ?r [''env'']"
    by (simp add: template_ok_def s parse_regions_def m)
  from whole_file_keeps_regions [OF this, of ?c] show ?thesis
    by (simp add: parse_regions_def s m) blast
qed

end
