(* ===== verification/Pyproject.thy ===== *)
theory Pyproject
  imports PyJson PyRegex
begin

text \<open>
  \<^verbatim>\<open>common/pyproject.py\<close>: \<^verbatim>\<open>pyproject.toml\<close> and its \<^verbatim>\<open>[tool.frappe-nix]\<close> table.  The TOML parser
  (tomllib) is a parameter: it gives the document of a text, or nothing when the text is malformed.
  A work-tree file is missing, unreadable (not UTF-8, no permission) or a text.
\<close>

datatype work_file = Missing | Unreadable | Text string

definition TABLE :: string where "TABLE = ''frappe-nix''"

definition read_pyproject :: "work_file \<Rightarrow> exn + string" where
  "read_pyproject f =
     (case f of
        Missing \<Rightarrow> Inl (EnvError ''does not exist'')
      | Unreadable \<Rightarrow> Inl (EnvError ''is unreadable'')
      | Text s \<Rightarrow> Inr s)"

definition parse_pyproject :: "(string \<Rightarrow> json option) \<Rightarrow> string \<Rightarrow> exn + json" where
  "parse_pyproject toml text = (case toml text of None \<Rightarrow> Inl (ConfigError ''malformed'') | Some d \<Rightarrow> Inr d)"

definition load_pyproject :: "(string \<Rightarrow> json option) \<Rightarrow> work_file \<Rightarrow> exn + json" where
  "load_pyproject toml f = bindE (read_pyproject f) (parse_pyproject toml)"

text \<open>\<^verbatim>\<open>[ \t\n\v\f\r]*\[{1,2}tool\.frappe-nix[].].*\<close>, on the whole line.\<close>

definition space6 :: "char \<Rightarrow> bool" where
  "space6 c \<longleftrightarrow> c = CHR '' '' \<or> (9 \<le> (of_char c :: nat) \<and> (of_char c :: nat) \<le> 13)"

definition OPT_IN_LINE :: rx where
  "OPT_IN_LINE = Seq (Star (Cls space6)) (Seq (Seq (lit ''['') (opt (lit ''[''))) (Seq (lit ''tool.frappe-nix'')
     (Seq (Cls (\<lambda>c. c = CHR '']'' \<or> c = CHR ''.'')) anything)))"

definition opt_in_line :: "string \<Rightarrow> bool" where
  "opt_in_line text \<longleftrightarrow> list_ex (fullmatch OPT_IN_LINE) (split_on newline text)"

definition tool_frappe_nix :: "json \<Rightarrow> exn + json option" where
  "tool_frappe_nix doc =
     bindE (dget doc ''tool'' (JObj [])) (\<lambda>tool.
       case (case tool of JObj d \<Rightarrow> map_of d TABLE | _ \<Rightarrow> None) of
         None \<Rightarrow> Inr None
       | Some JNull \<Rightarrow> Inr None
       | Some (JObj t) \<Rightarrow> Inr (Some (JObj t))
       | Some _ \<Rightarrow> Inl (ConfigError ''[tool.frappe-nix] must be a table''))"

definition opted_in :: "json \<Rightarrow> exn + bool" where
  "opted_in doc = bindE (tool_frappe_nix doc) (\<lambda>t. Inr (t \<noteq> None))"

definition check_opt_in_spelling :: "string \<Rightarrow> json \<Rightarrow> exn + unit" where
  "check_opt_in_spelling text doc =
     bindE (tool_frappe_nix doc) (\<lambda>t.
       if t \<noteq> None \<and> \<not> opt_in_line text then Inl (ConfigError ''write the table as a header'')
       else if opt_in_line text \<and> t = None then Inl (ConfigError ''a line opens a table TOML does not see'')
       else Inr ())"

definition project_name :: "json \<Rightarrow> exn + string option" where
  "project_name doc =
     bindE (dget doc ''project'' JNull) (\<lambda>project.
       Inr (case project of
              JObj d \<Rightarrow> (case map_of d ''name'' of Some (JStr s) \<Rightarrow> if s \<noteq> [] then Some s else None | _ \<Rightarrow> None)
            | _ \<Rightarrow> None))"

text \<open>What an opt-in line is.\<close>

lemma header_lang:
  "l \<in> rx_lang (Seq (Star (Cls P)) (Seq (Seq (lit a) (opt (lit a))) (Seq (lit w) (Seq (Cls Q) anything)))) \<longleftrightarrow>
   (\<exists>u b c v. l = u @ b @ w @ c # v \<and> (\<forall>x \<in> set u. P x) \<and> (b = a \<or> b = a @ a) \<and> Q c)"
proof -
  have 1: "x \<in> rx_lang (Seq (lit a) (opt (lit a))) \<longleftrightarrow> x = a \<or> x = a @ a" for x
    by (auto simp: opt_def)
  have 2: "x \<in> rx_lang (Seq (lit w) (Seq (Cls Q) anything)) \<longleftrightarrow> (\<exists>c v. x = w @ c # v \<and> Q c)" for x
  proof -
    have "(\<exists>u v. y = u @ v \<and> (\<exists>c. u = [c] \<and> Q c)) \<longleftrightarrow> (\<exists>c v. y = c # v \<and> Q c)" for y
      by (cases y) (auto intro: exI [of _ "[hd y]"])
    then show ?thesis by auto
  qed
  have 3: "x \<in> rx_lang (Star (Cls P)) \<longleftrightarrow> (\<forall>c \<in> set x. P c)" for x
    by (simp add: star_cls)
  have s: "x \<in> rx_lang (Seq r s) \<longleftrightarrow> (\<exists>u v. x = u @ v \<and> u \<in> rx_lang r \<and> v \<in> rx_lang s)" for x r s by simp
  show ?thesis
    unfolding s [of l] s [of _ "Seq (lit a) (opt (lit a))" "Seq (lit w) (Seq (Cls Q) anything)"] 1 2 3 by blast
qed

lemma opt_in_line_iff:
  "opt_in_line text \<longleftrightarrow> (\<exists>l \<in> set (split_on newline text). \<exists>u b c v. l = u @ b @ ''tool.frappe-nix'' @ c # v \<and>
     (\<forall>x \<in> set u. space6 x) \<and> (b = ''['' \<or> b = ''['' @ ''['') \<and> (c = CHR '']'' \<or> c = CHR ''.''))"
  unfolding opt_in_line_def list_ex_iff fullmatch_iff OPT_IN_LINE_def header_lang ..

text \<open>A \<^verbatim>\<open>pyproject.toml\<close> whose spelling passes is one the dev shell (which matches lines) and the tools
  (which parse TOML) agree about: the parsed document has the table exactly when some line of the text opens it.\<close>

theorem opt_in_agreement:
  assumes "check_opt_in_spelling text doc = Inr ()"
  shows "opted_in doc = Inr (\<exists>l \<in> set (split_on newline text). fullmatch OPT_IN_LINE l)"
  using assms by (cases "tool_frappe_nix doc")
    (auto simp: check_opt_in_spelling_def opted_in_def opt_in_line_def list_ex_iff split: if_splits)

lemma opt_in_agreement_witness:
  "opted_in (JObj [(''tool'', JObj [(''frappe-nix'', JObj [])])]) =
   Inr (\<exists>l \<in> set (split_on newline ''[tool.frappe-nix]''). fullmatch OPT_IN_LINE l)"
proof (rule opt_in_agreement)
  have "opt_in_line ''[tool.frappe-nix]''"
    unfolding opt_in_line_iff
    by (rule bexI [of _ "''[tool.frappe-nix]''"], rule exI [of _ "[]"], rule exI [of _ "''[''"]) simp_all
  then show "check_opt_in_spelling ''[tool.frappe-nix]'' (JObj [(''tool'', JObj [(''frappe-nix'', JObj [])])]) = Inr ()"
    by (simp add: check_opt_in_spelling_def tool_frappe_nix_def TABLE_def)
qed

end
