(* ===== verification/Ratchet.thy ===== *)
theory Ratchet
  imports Pyproject PyJsonText "HOL-Library.List_Lexorder" "HOL-Library.Char_ord" "HOL-Library.Product_Lexorder"
begin

text \<open>
  \<^verbatim>\<open>commands/ratchet.py\<close>: the values of an app that only shrink (rules R1 to R7), compared between a
  base commit and the work tree.  Git, the TOML parser and the resolution of the configuration are
  parameters; a finding is a constructor with the values its message shows.
\<close>

section \<open>What the run reads\<close>

record world =
  shown :: "string \<Rightarrow> string option"
  work :: "string \<Rightarrow> work_file"
  tracked_files :: "string list"
  ty_grep :: "bool \<Rightarrow> string option"

text \<open>\<open>shown p\<close> is \<^verbatim>\<open>git show <base>:./p\<close> (nothing when git fails), \<open>ty_grep b\<close> the output of the
  \<^verbatim>\<open>git grep\<close> on the base (\<open>True\<close>) or the work tree.  Modules and configuration, resolved.\<close>

type_synonym settings = "(string \<Rightarrow> bool) \<times> json"

record tools =
  toml :: "string \<Rightarrow> json option"
  resolve_doc :: "json \<Rightarrow> exn + settings"
  float_text :: "rat \<Rightarrow> string"

datatype notice = NotAdopted | BaseUnresolved | Renamed string string

type_synonym bkey = "json \<times> json \<times> json"

datatype violation =
    R1 rat "rat option"
  | R7 json
  | R2_format string string
  | R2_count nat nat
  | R3_new bkey
  | R3_count bkey int int
  | R4 json
  | R6 json
  | R5_rule string nat
  | R5_reason string nat string

section \<open>Reading the documents\<close>

definition toml_or_empty :: "tools \<Rightarrow> string option \<Rightarrow> json" where
  "toml_or_empty T text =
     (case text of None \<Rightarrow> JObj [] | Some s \<Rightarrow>
        if s = [] then JObj [] else (case toml T s of Some d \<Rightarrow> d | None \<Rightarrow> JObj []))"

definition fail_under :: "json \<Rightarrow> exn + rat option" where
  "fail_under doc =
     bindE (dget doc ''tool'' (JObj [])) (\<lambda>t.
     bindE (dget t ''coverage'' (JObj [])) (\<lambda>c.
     bindE (dget c ''report'' (JObj [])) (\<lambda>r.
     bindE (dget r ''fail_under'' JNull) (\<lambda>v. Inr (num_of v)))))"

definition own_table :: "json \<Rightarrow> exn + json" where
  "own_table doc = bindE (tool_frappe_nix doc) (\<lambda>t. Inr (case t of Some d \<Rightarrow> d | None \<Rightarrow> JObj []))"

text \<open>A set of Python values: equal numbers are one element; a list or a dictionary has no hash.\<close>

definition canon :: "json \<Rightarrow> json" where
  "canon v = (case num_of v of Some r \<Rightarrow> JFloat r | None \<Rightarrow> v)"

definition hashable :: "json \<Rightarrow> bool" where
  "hashable v = (case v of JArr _ \<Rightarrow> False | JObj _ \<Rightarrow> False | _ \<Rightarrow> True)"

definition member :: "json \<Rightarrow> json list \<Rightarrow> bool" where
  "member v vs \<longleftrightarrow> canon v \<in> set (map canon vs)"

definition set_add :: "json \<Rightarrow> json list \<Rightarrow> json list" where
  "set_add v vs = (if member v vs then vs else vs @ [v])"

fun add_fields :: "string \<Rightarrow> json list \<Rightarrow> json list \<Rightarrow> exn + json list" where
  "add_fields fld [] out = Inr out"
| "add_fields fld (e # es) out =
     (case e of
        JObj d \<Rightarrow>
          (case map_of d fld of
             Some v \<Rightarrow>
               if \<not> truthy v then add_fields fld es out
               else if \<not> hashable v then Inl TypeError
               else add_fields fld es (set_add v out)
           | None \<Rightarrow> add_fields fld es out)
      | _ \<Rightarrow> add_fields fld es out)"

definition items :: "json \<Rightarrow> string \<Rightarrow> string \<Rightarrow> exn + json list" where
  "items doc key fld =
     bindE (own_table doc) (\<lambda>t. bindE (dget t key (JArr [])) (\<lambda>v. bindE (iter v) (\<lambda>es. add_fields fld es [])))"

definition package :: "json \<Rightarrow> exn + string option" where
  "package doc =
     bindE (dget doc ''project'' (JObj [])) (\<lambda>p. bindE (dget p ''name'' JNull) (\<lambda>n.
       Inr (case n of
              JStr s \<Rightarrow> if s \<noteq> [] then Some (map (\<lambda>c. if c = CHR ''-'' then CHR ''_'' else c) s) else None
            | _ \<Rightarrow> None)))"

text \<open>The renamer: the identity unless both names are there and differ.  (\<^verbatim>\<open>str\<close> methods are not there
  on another value.)\<close>

definition renames :: "string option \<Rightarrow> string option \<Rightarrow> (string \<times> string) option" where
  "renames old new =
     (case (old, new) of
        (Some o', Some n) \<Rightarrow> if o' \<noteq> [] \<and> n \<noteq> [] \<and> o' \<noteq> n then Some (o', n) else None
      | _ \<Rightarrow> None)"

definition rename_text :: "string \<Rightarrow> string \<Rightarrow> string \<Rightarrow> string" where
  "rename_text old new s =
     (if s = old then new
      else if startswith s (old @ ''.'') \<or> startswith s (old @ ''/'') then new @ drop (length old) s
      else s)"

definition ren :: "(string \<times> string) option \<Rightarrow> json \<Rightarrow> exn + json" where
  "ren r v =
     (case r of
        None \<Rightarrow> Inr v
      | Some (old, new) \<Rightarrow> (case v of JStr s \<Rightarrow> Inr (JStr (rename_text old new s)) | _ \<Rightarrow> Inl AttributeError))"

definition base_items :: "(string \<times> string) option \<Rightarrow> json \<Rightarrow> string \<Rightarrow> string \<Rightarrow> exn + json list" where
  "base_items r doc key fld = bindE (items doc key fld) (mapE (ren r))"

text \<open>\<^verbatim>\<open>sorted(head - base)\<close>: texts by code point, numbers by value, no order between the two.\<close>

definition text_of :: "json \<Rightarrow> string" where
  "text_of v = (case v of JStr s \<Rightarrow> s | _ \<Rightarrow> [])"

definition number_of :: "json \<Rightarrow> rat" where
  "number_of v = (case num_of v of Some r \<Rightarrow> r | None \<Rightarrow> 0)"

definition sorted_values :: "json list \<Rightarrow> exn + json list" where
  "sorted_values vs =
     (if length vs \<le> 1 then Inr vs
      else if list_all is_str vs then Inr (sort_key text_of vs)
      else if list_all (\<lambda>v. num_of v \<noteq> None) vs then Inr (sort_key number_of vs)
      else Inl TypeError)"

definition new_items :: "json list \<Rightarrow> json list \<Rightarrow> exn + json list" where
  "new_items head base = sorted_values (filter (\<lambda>v. \<not> member v base) head)"

section \<open>R1, R4, R6, R7\<close>

definition r1 :: "rat option \<Rightarrow> rat option \<Rightarrow> violation list" where
  "r1 h b =
     (case b of None \<Rightarrow> []
      | Some x \<Rightarrow> (case h of None \<Rightarrow> [R1 x None] | Some y \<Rightarrow> if y < x then [R1 x h] else []))"

definition only_shrinks ::
  "(json \<Rightarrow> violation) \<Rightarrow> (string \<times> string) option \<Rightarrow> json \<Rightarrow> json \<Rightarrow> string \<Rightarrow> string \<Rightarrow> exn + violation list" where
  "only_shrinks con r head base key fld =
     bindE (items head key fld) (\<lambda>h. bindE (base_items r base key fld) (\<lambda>b.
     bindE (new_items h b) (\<lambda>new. Inr (map con new))))"

section \<open>R2: the type checker's ignores\<close>

text \<open>\<^verbatim>\<open>#\s*ty:\s*ignore\<close> at the head of a text, and how often it is in one (two finds never overlap).\<close>

definition ty_at :: "string \<Rightarrow> bool" where
  "ty_at s \<longleftrightarrow> startswith s ''#'' \<and> startswith (lstrip (drop 1 s)) ''ty:'' \<and>
     startswith (lstrip (drop 3 (lstrip (drop 1 s)))) ''ignore''"

fun ty_finds :: "string \<Rightarrow> nat" where
  "ty_finds [] = 0"
| "ty_finds (c # s) = (if ty_at (c # s) then 1 else 0) + ty_finds s"

text \<open>\<^verbatim>\<open>#\s*ty:\s*ignore\[[a-z0-9-]+(,\s*[a-z0-9-]+)*\]\s+#\s+\S.{9,}\<close>\<close>

definition rule_rx :: rx where
  "rule_rx = plus (Cls (\<lambda>c. is_lower c \<or> is_digit c \<or> c = CHR ''-''))"

definition TY_OK :: rx where
  "TY_OK = Seq (lit ''#'') (Seq (Star ws) (Seq (lit ''ty:'') (Seq (Star ws) (Seq (lit ''ignore['')
     (Seq (Seq rule_rx (Star (Seq (lit '','') (Seq (Star ws) rule_rx)))) (Seq (lit '']'') (Seq (plus ws)
     (Seq (lit ''#'') (Seq (plus ws) (Seq not_ws (Seq (times 9 dot) (Star dot))))))))))))"

definition ty_lines :: "string option \<Rightarrow> string list" where
  "ty_lines out = (case out of None \<Rightarrow> [] | Some s \<Rightarrow> filter (\<lambda>l. l \<noteq> []) (splitlines s))"

definition ty_count :: "string list \<Rightarrow> nat" where
  "ty_count ls = sum_list (map ty_finds ls)"

definition r2_format :: "string \<Rightarrow> violation list" where
  "r2_format line =
     (case partition1 (CHR '':'') line of (path, _, rest) \<Rightarrow>
        (case partition1 (CHR '':'') rest of (lineno, _, text) \<Rightarrow>
           if rsearch TY_OK text then [] else [R2_format path lineno]))"

definition r2 :: "world \<Rightarrow> bool \<Rightarrow> bool \<Rightarrow> violation list" where
  "r2 W head_on base_on =
     (if \<not> head_on then []
      else let lines = ty_lines (ty_grep W False)
           in concat (map r2_format lines) @
              (if base_on \<and> ty_count (ty_lines (ty_grep W True)) < ty_count lines
               then [R2_count (ty_count lines) (ty_count (ty_lines (ty_grep W True)))] else []))"

section \<open>R3: the semgrep baseline\<close>

definition canon_key :: "bkey \<Rightarrow> bkey" where
  "canon_key = (\<lambda>(a, b, c). (canon a, canon b, canon c))"

fun counter_get :: "bkey \<Rightarrow> (bkey \<times> int) list \<Rightarrow> int option" where
  "counter_get k [] = None"
| "counter_get k ((k', n) # rest) = (if canon_key k' = canon_key k then Some n else counter_get k rest)"

fun counter_add :: "bkey \<Rightarrow> int \<Rightarrow> (bkey \<times> int) list \<Rightarrow> (bkey \<times> int) list" where
  "counter_add k n [] = [(k, n)]"
| "counter_add k n ((k', m) # rest) =
     (if canon_key k' = canon_key k then (k', m + n) # rest else (k', m) # counter_add k n rest)"

fun baseline_add :: "json list \<Rightarrow> (bkey \<times> int) list \<Rightarrow> exn + (bkey \<times> int) list" where
  "baseline_add [] out = Inr out"
| "baseline_add (e # es) out =
     (if \<not> is_dict e then baseline_add es out
      else bindE (dget e ''rule'' JNull) (\<lambda>rule. bindE (dget e ''path'' JNull) (\<lambda>path.
           bindE (dget e ''line_sha1'' JNull) (\<lambda>sha.
             if \<not> (hashable rule \<and> hashable path \<and> hashable sha) then Inl TypeError
             else bindE (dget e ''count'' (JInt 1)) (\<lambda>c. bindE (py_int (jor c (JInt 1))) (\<lambda>n.
               baseline_add es (counter_add (rule, path, sha) n out)))))))"

definition baseline :: "string option \<Rightarrow> exn + (bkey \<times> int) list" where
  "baseline text =
     (case text of
        None \<Rightarrow> Inr []
      | Some s \<Rightarrow>
          if s = [] then Inr []
          else (case loads s of
                  None \<Rightarrow> Inr []
                | Some doc \<Rightarrow>
                    if is_dict doc then bindE (dget doc ''findings'' (JArr [])) (\<lambda>v. bindE (iter v) (\<lambda>es. baseline_add es []))
                    else Inr []))"

fun base_counter :: "(string \<times> string) option \<Rightarrow> (bkey \<times> int) list \<Rightarrow> (bkey \<times> int) list \<Rightarrow> exn + (bkey \<times> int) list" where
  "base_counter r [] out = Inr out"
| "base_counter r (((rule, path, sha), n) # rest) out =
     bindE (ren r path) (\<lambda>p. base_counter r rest (counter_add (rule, p, sha) n out))"

definition str_of :: "(rat \<Rightarrow> string) \<Rightarrow> json \<Rightarrow> string" where
  "str_of ft v =
     (case v of JStr s \<Rightarrow> s | JNull \<Rightarrow> ''None'' | JBool b \<Rightarrow> if b then ''True'' else ''False''
      | JInt i \<Rightarrow> show_int i | JFloat r \<Rightarrow> ft r | _ \<Rightarrow> [])"

definition r3_key :: "(bkey \<times> int) list \<Rightarrow> bkey \<times> int \<Rightarrow> violation list" where
  "r3_key bb e =
     (case e of (k, n) \<Rightarrow>
        (case counter_get k bb of
           None \<Rightarrow> [R3_new k]
         | Some m \<Rightarrow> if m < n then [R3_count k m n] else []))"

definition r3_counts :: "(rat \<Rightarrow> string) \<Rightarrow> (bkey \<times> int) list \<Rightarrow> (bkey \<times> int) list \<Rightarrow> violation list" where
  "r3_counts ft hb bb =
     concat (map (r3_key bb) (sort_key (\<lambda>((a, b, c), n). [str_of ft a, str_of ft b, str_of ft c]) hb))"

definition BASELINE :: string where "BASELINE = ''marketplace/semgrep-baseline.json''"

definition head_baseline :: "work_file \<Rightarrow> exn + string option" where
  "head_baseline f =
     (case f of Missing \<Rightarrow> Inr None | Unreadable \<Rightarrow> Inl (ValueError ''decode'') | Text s \<Rightarrow> Inr (Some s))"

definition r3 :: "tools \<Rightarrow> world \<Rightarrow> (string \<times> string) option \<Rightarrow> exn + violation list" where
  "r3 T W r =
     bindE (head_baseline (work W BASELINE)) (\<lambda>text. bindE (baseline text) (\<lambda>hb.
     bindE (baseline (shown W BASELINE)) (\<lambda>b. bindE (base_counter r b []) (\<lambda>bb.
       Inr (r3_counts (float_text T) hb bb)))))"

section \<open>R5: nosemgrep names its rule and its reason\<close>

text \<open>\<^verbatim>\<open>(?:#|//)\s*nosemgrep\b(?P<rest>.*)$\<close> in a line: what is before the leftmost one and what is
  after it.\<close>

definition nosem_after :: "string \<Rightarrow> string option" where
  "nosem_after t =
     (if startswith (lstrip t) ''nosemgrep'' \<and> (drop 9 (lstrip t) = [] \<or> \<not> word_char (hd (drop 9 (lstrip t))))
      then Some (drop 9 (lstrip t)) else None)"

definition nosem_at :: "string \<Rightarrow> string option" where
  "nosem_at s =
     (if startswith s ''#'' then nosem_after (drop 1 s)
      else if startswith s ''//'' then nosem_after (drop 2 s) else None)"

fun nosem_search :: "string \<Rightarrow> string \<Rightarrow> (string \<times> string) option" where
  "nosem_search before [] = None"
| "nosem_search before (c # s) =
     (case nosem_at (c # s) of Some rest \<Rightarrow> Some (before, rest) | None \<Rightarrow> nosem_search (before @ [c]) s)"

text \<open>\<^verbatim>\<open>^:\s*(?P<rules>[\w.-]+(?:\s*,\s*[\w.-]+)*)(?P<tail>.*)$\<close>: the rules and the tail.\<close>

definition rule_char :: "char \<Rightarrow> bool" where
  "rule_char c \<longleftrightarrow> word_char c \<or> c = CHR ''.'' \<or> c = CHR ''-''"

function more_rules :: "string \<Rightarrow> string" where
  "more_rules t =
     (let u = lstrip t; v = lstrip (drop 1 u); w = takeWhile rule_char v
      in if startswith u '','' \<and> w \<noteq> [] then more_rules (drop (length w) v) else t)"
  by pat_completeness auto
termination
proof (relation "measure length", simp, goal_cases)
  case (1 t u v w)
  have "length (lstrip s) \<le> length s" for s by (simp add: lstrip_by_def length_dropWhile_le)
  from this [of t] this [of "drop 1 u"] have "length v \<le> length u - 1" "length u \<le> length t" using 1 by auto
  moreover have "u \<noteq> []" "w \<noteq> []" using 1 by (auto simp: startswith_def)
  ultimately show ?case by (cases u; cases w) auto
qed

declare more_rules.simps [simp del]

definition nosem_rule :: "string \<Rightarrow> (string \<times> string) option" where
  "nosem_rule rest =
     (if \<not> startswith rest '':'' then None
      else let t = lstrip (drop 1 rest); w = takeWhile rule_char t
           in if w = [] then None
              else let tail = more_rules (drop (length w) t) in Some (take (length t - length tail) t, tail))"

text \<open>A comment on the line before, and the reason given: after the rules, in a comment before, or on the
  previous line.  (\<^verbatim>\<open>strip\<close> also takes the dash that is not ASCII.)\<close>

definition COMMENT :: rx where
  "COMMENT = Seq (Alt (lit ''#'') (lit ''//'')) (Seq (Star ws) not_ws)"

definition strip_tail :: "string \<Rightarrow> string" where
  "strip_tail t = strip_by (\<lambda>c. c \<in> set '' -:#/'') t"

definition justified :: "string \<Rightarrow> string \<Rightarrow> string \<Rightarrow> bool" where
  "justified before tail prev \<longleftrightarrow>
     3 \<le> length (strip_tail tail) \<or> rsearch COMMENT before \<or>
     (rmatch (Seq (Star ws) COMMENT) prev \<and> \<not> contains_sub ''nosemgrep'' prev)"

definition r5_line :: "string \<Rightarrow> nat \<Rightarrow> string \<Rightarrow> string \<Rightarrow> violation list" where
  "r5_line path number prev line =
     (case nosem_search [] line of
        None \<Rightarrow> []
      | Some (before, rest) \<Rightarrow>
          (case nosem_rule rest of
             None \<Rightarrow> [R5_rule path number]
           | Some (rules, tail) \<Rightarrow> if justified before tail prev then [] else [R5_reason path number rules]))"

fun r5_lines :: "string \<Rightarrow> nat \<Rightarrow> string \<Rightarrow> string list \<Rightarrow> violation list" where
  "r5_lines path n prev [] = []"
| "r5_lines path n prev (l # ls) = r5_line path n prev l @ r5_lines path (n + 1) l ls"

definition SOURCE :: "string list" where
  "SOURCE = [''.py'', ''.js'', ''.mjs'', ''.cjs'', ''.ts'', ''.tsx'', ''.vue'']"

definition is_source :: "string \<Rightarrow> bool" where
  "is_source path \<longleftrightarrow> list_ex (\<lambda>e. endswith path e \<or> endswith path (e @ [newline])) SOURCE"

definition r5_file :: "world \<Rightarrow> string \<Rightarrow> violation list" where
  "r5_file W path =
     (if \<not> is_source path \<or> contains_sub ''node_modules/'' path then []
      else (case work W path of Text s \<Rightarrow> r5_lines path 1 [] (splitlines s) | _ \<Rightarrow> []))"

definition nosemgrep_problems :: "world \<Rightarrow> violation list" where
  "nosemgrep_problems W = concat (map (r5_file W) (tracked_files W))"

section \<open>The run\<close>

definition flag_at :: "json \<Rightarrow> string \<Rightarrow> string \<Rightarrow> bool \<Rightarrow> exn + bool" where
  "flag_at cfg table key d =
     bindE (dget cfg table (JObj [])) (\<lambda>t. bindE (dget t key (JBool d)) (\<lambda>v. Inr (truthy v)))"

definition coverage_on :: "settings \<Rightarrow> exn + bool" where
  "coverage_on s =
     (if \<not> fst s ''tests'' then Inr False
      else bindE (dget (snd s) ''tests'' (JObj [])) (\<lambda>t. bindE (dget t ''coverage'' (JObj [])) (\<lambda>c.
        bindE (dget c ''enable'' (JBool True)) (\<lambda>v. Inr (truthy v)))))"

definition testmap_on :: "settings \<Rightarrow> exn + bool" where
  "testmap_on s = (if \<not> fst s ''tests'' then Inr False else flag_at (snd s) ''tests'' ''testmap'' True)"

definition checkjs_on :: "settings \<Rightarrow> exn + bool" where
  "checkjs_on s = (if \<not> fst s ''typescript'' then Inr False else flag_at (snd s) ''typescript'' ''check-js'' False)"

definition both :: "(settings \<Rightarrow> exn + bool) \<Rightarrow> settings \<Rightarrow> settings \<Rightarrow> exn + bool" where
  "both on h b = bindE (on h) (\<lambda>x. if x then on b else Inr False)"

definition guarded :: "exn + bool \<Rightarrow> exn + violation list \<Rightarrow> exn + violation list" where
  "guarded c vs = bindE c (\<lambda>x. if x then vs else Inr [])"

definition is_tool_error :: "exn \<Rightarrow> bool" where
  "is_tool_error e = (case e of ConfigError _ \<Rightarrow> True | FrappeNixError _ \<Rightarrow> True | _ \<Rightarrow> is_env_error e)"

definition base_settings :: "tools \<Rightarrow> settings \<Rightarrow> json \<Rightarrow> exn + settings \<times> notice list" where
  "base_settings T head base_doc =
     (case resolve_doc T base_doc of
        Inr s \<Rightarrow> Inr (s, [])
      | Inl e \<Rightarrow> if is_tool_error e then Inr (head, [BaseUnresolved]) else Inl e)"

definition compare :: "tools \<Rightarrow> world \<Rightarrow> json \<Rightarrow> json \<Rightarrow> settings \<Rightarrow> settings \<Rightarrow> (string \<times> string) option \<Rightarrow> exn + violation list" where
  "compare T W hd' bd h b r =
     bindE (guarded (both coverage_on h b)
       (bindE (fail_under hd') (\<lambda>x. bindE (fail_under bd) (\<lambda>y.
        bindE (only_shrinks R7 r hd' bd ''coverage-omit'' ''glob'') (\<lambda>vs. Inr (r1 x y @ vs)))))) (\<lambda>cov.
     bindE (guarded (both (\<lambda>s. Inr (fst s ''listing'')) h b) (r3 T W r)) (\<lambda>sem.
     bindE (guarded (both testmap_on h b) (only_shrinks R4 r hd' bd ''untested'' ''target'')) (\<lambda>unt.
     bindE (guarded (both checkjs_on h b) (only_shrinks R6 r hd' bd ''unchecked-js'' ''path'')) (\<lambda>unc.
       Inr (cov @ r2 W (fst h ''python-types'') (fst b ''python-types'') @ sem @ unt @ unc @
            (if fst h ''semgrep'' \<or> fst h ''listing'' then nosemgrep_problems W else []))))))"

definition violations :: "tools \<Rightarrow> world \<Rightarrow> exn + violation list \<times> notice list" where
  "violations T W =
     (let base_doc = toml_or_empty T (shown W ''pyproject.toml'') in
      bindE (opted_in base_doc) (\<lambda>adopted.
        if \<not> adopted then Inr ([], [NotAdopted])
        else bindE (load_pyproject (toml T) (work W ''pyproject.toml'')) (\<lambda>head_doc.
             bindE (resolve_doc T head_doc) (\<lambda>h.
             bindE (base_settings T h base_doc) (\<lambda>(b, notes).
             bindE (package base_doc) (\<lambda>old. bindE (package head_doc) (\<lambda>new.
               let r = renames old new in
               bindE (compare T W head_doc base_doc h b r) (\<lambda>vs.
                 Inr (vs, notes @ (case r of Some (o', n) \<Rightarrow> [Renamed o' n] | None \<Rightarrow> []))))))))))"

text \<open>\<^verbatim>\<open>run\<close>: the exit code.\<close>

definition ratchet_exit :: "violation list \<Rightarrow> nat" where
  "ratchet_exit vs = (if vs \<noteq> [] then 1 else 0)"

section \<open>What a run without a violation shows\<close>

lemma mset_sort_set: "set (sort_key f xs) = set xs" by simp

lemma sorted_values_Nil: "sorted_values vs = Inr [] \<longleftrightarrow> vs = []"
proof
  assume e: "sorted_values vs = Inr []"
  have "sort_key f vs = [] \<Longrightarrow> vs = []" for f :: "json \<Rightarrow> string" by (metis set_empty set_sort)
  moreover have "sort_key f vs = [] \<Longrightarrow> vs = []" for f :: "json \<Rightarrow> rat" by (metis set_empty set_sort)
  ultimately show "vs = []" using e by (auto simp: sorted_values_def split: if_splits)
qed (simp add: sorted_values_def)

lemma sorted_values_ne: "sorted_values vs = Inr us \<Longrightarrow> us = [] \<longleftrightarrow> vs = []"
  using sorted_values_Nil [of vs] by (auto simp: sorted_values_def split: if_splits)

definition stays_within :: "(string \<times> string) option \<Rightarrow> json \<Rightarrow> json \<Rightarrow> string \<Rightarrow> string \<Rightarrow> bool" where
  "stays_within r head base key fld \<longleftrightarrow>
     (\<exists>hs bs. items head key fld = Inr hs \<and> base_items r base key fld = Inr bs \<and> canon ` set hs \<subseteq> canon ` set bs)"

lemma only_shrinks_Nil: "only_shrinks con r head base key fld = Inr vs \<Longrightarrow> vs = [] \<longleftrightarrow> stays_within r head base key fld"
proof -
  assume "only_shrinks con r head base key fld = Inr vs"
  then obtain hs bs new where *: "items head key fld = Inr hs" "base_items r base key fld = Inr bs"
    "new_items hs bs = Inr new" "vs = map con new"
    by (auto simp: only_shrinks_def sumres)
  have "new = [] \<longleftrightarrow> filter (\<lambda>v. \<not> member v bs) hs = []"
    using *(3) sorted_values_ne by (simp add: new_items_def)
  also have "\<dots> \<longleftrightarrow> canon ` set hs \<subseteq> canon ` set bs" by (auto simp: filter_empty_conv member_def)
  finally show ?thesis using * by (auto simp: stays_within_def)
qed

text \<open>The threshold of \<^verbatim>\<open>fail_under\<close>.\<close>

definition no_lower :: "json \<Rightarrow> json \<Rightarrow> bool" where
  "no_lower head base \<longleftrightarrow>
     (\<forall>x. fail_under base = Inr (Some x) \<longrightarrow> (\<exists>y. fail_under head = Inr (Some y) \<and> x \<le> y))"

lemma r1_Nil: "r1 h b = [] \<longleftrightarrow> (\<forall>x. b = Some x \<longrightarrow> (\<exists>y. h = Some y \<and> x \<le> y))"
  by (auto simp: r1_def split: option.splits)

lemma r2_format_Nil: "r2_format line = [] \<longleftrightarrow>
    rsearch TY_OK (snd (snd (partition1 (CHR '':'') (snd (snd (partition1 (CHR '':'') line))))))"
  by (auto simp: r2_format_def split: prod.splits)

definition baseline_within :: "(bkey \<times> int) list \<Rightarrow> (bkey \<times> int) list \<Rightarrow> bool" where
  "baseline_within hb bb \<longleftrightarrow> (\<forall>(k, n) \<in> set hb. \<exists>m. counter_get k bb = Some m \<and> n \<le> m)"

lemma r3_counts_Nil: "r3_counts ft hb bb = [] \<longleftrightarrow> baseline_within hb bb"
proof -
  have "r3_key bb e = [] \<longleftrightarrow> (case e of (k, n) \<Rightarrow> \<exists>m. counter_get k bb = Some m \<and> n \<le> m)" for e
    by (auto simp: r3_key_def split: option.splits prod.splits)
  then show ?thesis by (simp add: r3_counts_def baseline_within_def)
qed

definition threshold_part :: "(string \<times> string) option \<Rightarrow> json \<Rightarrow> json \<Rightarrow> bool" where
  "threshold_part r head base \<longleftrightarrow> no_lower head base \<and> stays_within r head base ''coverage-omit'' ''glob''"

definition types_part :: "world \<Rightarrow> bool \<Rightarrow> bool" where
  "types_part W base_on \<longleftrightarrow>
     (\<forall>line \<in> set (ty_lines (ty_grep W False)). r2_format line = []) \<and>
     (base_on \<longrightarrow> ty_count (ty_lines (ty_grep W False)) \<le> ty_count (ty_lines (ty_grep W True)))"

definition baseline_part :: "world \<Rightarrow> (string \<times> string) option \<Rightarrow> bool" where
  "baseline_part W r \<longleftrightarrow>
     (\<exists>text hb b bb. head_baseline (work W BASELINE) = Inr text \<and> baseline text = Inr hb \<and>
        baseline (shown W BASELINE) = Inr b \<and> base_counter r b [] = Inr bb \<and> baseline_within hb bb)"

lemma guarded_Inr: "guarded c vs = Inr us \<longleftrightarrow> (c = Inr True \<and> vs = Inr us) \<or> (c = Inr False \<and> us = [])"
  by (cases c) (auto simp: guarded_def)

lemma r3_Nil: "r3 T W r = Inr vs \<Longrightarrow> vs = [] \<longleftrightarrow> baseline_part W r"
  using r3_counts_Nil by (auto simp: r3_def baseline_part_def sumres)

lemma r2_Nil: "r2 W h b = [] \<longleftrightarrow> (h \<longrightarrow> types_part W b)"
  by (auto simp: r2_def types_part_def Let_def)

text \<open>C12. The ratchet's verdict: a comparison that ends without an error reports no violation exactly when, for
  each rule whose module is on (in head and base, where the rule compares): the coverage threshold is not lower
  and no omitted glob is new; every type-checker ignore names its rule and gives its reason and there are no more
  of them; the baseline has no new entry and no higher count; no untested target and no unchecked path is new; and
  every nosemgrep is justified.\<close>

theorem ratchet_verdict:
  assumes "compare T W head base h b r = Inr vs"
  shows "vs = [] \<longleftrightarrow>
    (both coverage_on h b = Inr True \<longrightarrow> threshold_part r head base) \<and>
    (fst h ''python-types'' \<longrightarrow> types_part W (fst b ''python-types'')) \<and>
    (fst h ''listing'' \<and> fst b ''listing'' \<longrightarrow> baseline_part W r) \<and>
    (both testmap_on h b = Inr True \<longrightarrow> stays_within r head base ''untested'' ''target'') \<and>
    (both checkjs_on h b = Inr True \<longrightarrow> stays_within r head base ''unchecked-js'' ''path'') \<and>
    (fst h ''semgrep'' \<or> fst h ''listing'' \<longrightarrow> nosemgrep_problems W = [])"
proof -
  obtain cov sem unt unc where *:
    "guarded (both coverage_on h b) (bindE (fail_under head) (\<lambda>x. bindE (fail_under base) (\<lambda>y.
        bindE (only_shrinks R7 r head base ''coverage-omit'' ''glob'') (\<lambda>vs. Inr (r1 x y @ vs))))) = Inr cov"
    "guarded (both (\<lambda>s. Inr (fst s ''listing'')) h b) (r3 T W r) = Inr sem"
    "guarded (both testmap_on h b) (only_shrinks R4 r head base ''untested'' ''target'') = Inr unt"
    "guarded (both checkjs_on h b) (only_shrinks R6 r head base ''unchecked-js'' ''path'') = Inr unc"
    "vs = cov @ r2 W (fst h ''python-types'') (fst b ''python-types'') @ sem @ unt @ unc @
            (if fst h ''semgrep'' \<or> fst h ''listing'' then nosemgrep_problems W else [])"
    using assms unfolding compare_def by (auto simp: sumres)
  have "cov = [] \<longleftrightarrow> (both coverage_on h b = Inr True \<longrightarrow> threshold_part r head base)"
    using *(1) only_shrinks_Nil [of R7 r head base]
    by (auto simp: guarded_Inr sumres threshold_part_def r1_Nil no_lower_def)
  moreover have "sem = [] \<longleftrightarrow> (fst h ''listing'' \<and> fst b ''listing'' \<longrightarrow> baseline_part W r)"
    using *(2) r3_Nil [of T W r] by (auto simp: guarded_Inr both_def split: if_splits)
  moreover have "unt = [] \<longleftrightarrow> (both testmap_on h b = Inr True \<longrightarrow> stays_within r head base ''untested'' ''target'')"
    using *(3) only_shrinks_Nil [of R4 r head base "''untested''" "''target''" unt] by (auto simp: guarded_Inr)
  moreover have "unc = [] \<longleftrightarrow> (both checkjs_on h b = Inr True \<longrightarrow> stays_within r head base ''unchecked-js'' ''path'')"
    using *(4) only_shrinks_Nil [of R6 r head base "''unchecked-js''" "''path''" unc] by (auto simp: guarded_Inr)
  ultimately show ?thesis unfolding *(5) by (simp add: r2_Nil) blast
qed

lemma both_same: "on s = Inr x \<Longrightarrow> both on s s = Inr x"
  by (simp add: both_def)

section \<open>A history of merges\<close>

text \<open>What a whole history keeps: the threshold, and the exclusions.\<close>

definition tight :: "json \<Rightarrow> json \<Rightarrow> bool" where
  "tight base head \<longleftrightarrow> threshold_part None head base \<and> stays_within None head base ''untested'' ''target'' \<and>
     stays_within None head base ''unchecked-js'' ''path''"

lemma base_items_None: "base_items None doc key fld = items doc key fld"
  by (cases "items doc key fld") (simp_all add: base_items_def ren_def [abs_def])

lemma stays_within_trans:
  "stays_within None b a key fld \<Longrightarrow> stays_within None c b key fld \<Longrightarrow> stays_within None c a key fld"
  unfolding stays_within_def base_items_None by auto

lemma transp_tight: "transp tight"
proof (rule transpI)
  fix a b c assume "tight a b" "tight b c"
  moreover from this have "no_lower c a" unfolding tight_def threshold_part_def no_lower_def by fastforce
  ultimately show "tight a c" unfolding tight_def threshold_part_def using stays_within_trans by blast
qed

text \<open>The ratchet over a history: when every step of a history of merges passes the comparison with the
  package's name and the modules (tests, coverage, the test map, checked JavaScript) the same throughout, then
  from any point of the history to any later one the coverage threshold has not gone down, and no omitted glob,
  untested target or unchecked path is new.\<close>

theorem ratchet_history:
  assumes "successively (\<lambda>base head. \<exists>W. compare T W head base s s None = Inr []) docs"
    and "coverage_on s = Inr True" "testmap_on s = Inr True" "checkjs_on s = Inr True"
    and "i < j" "j < length docs"
  shows "no_lower (docs ! j) (docs ! i) \<and>
    (\<forall>(key, fld) \<in> {(''coverage-omit'', ''glob''), (''untested'', ''target''), (''unchecked-js'', ''path'')}.
       \<exists>hs bs. items (docs ! j) key fld = Inr hs \<and> items (docs ! i) key fld = Inr bs \<and> canon ` set hs \<subseteq> canon ` set bs)"
proof -
  have "tight base head" if "\<exists>W. compare T W head base s s None = Inr []" for base head
    using that ratchet_verdict [of T _ head base s s None "[]"] assms(2-4)
    by (auto simp: tight_def both_same)
  then have "successively tight docs" using assms(1) successively_mono by blast
  then have "sorted_wrt tight docs" by (simp only: successively_conv_sorted_wrt [OF transp_tight])
  then have "tight (docs ! i) (docs ! j)" using assms(5,6) by (rule sorted_wrt_nth_less)
  then show ?thesis
    by (auto simp: tight_def threshold_part_def stays_within_def base_items_None)
qed

text \<open>A sample: an app with one omitted glob that drops it and raises its threshold.\<close>

definition sample_doc :: "int \<Rightarrow> json list \<Rightarrow> json" where
  "sample_doc n omit = JObj [(''tool'', JObj [(''coverage'', JObj [(''report'', JObj [(''fail_under'', JInt n)])]),
     (''frappe-nix'', JObj [(''coverage-omit'', JArr omit)])])]"

definition sample_settings :: settings where
  "sample_settings = ((\<lambda>m. m \<in> {''tests'', ''typescript''}), JObj [(''typescript'', JObj [(''check-js'', JBool True)])])"

definition sample_tools :: tools where
  "sample_tools = \<lparr>toml = (\<lambda>_. None), resolve_doc = (\<lambda>_. Inr sample_settings), float_text = (\<lambda>_. [])\<rparr>"

definition sample_world :: world where
  "sample_world = \<lparr>shown = (\<lambda>_. None), work = (\<lambda>_. Missing), tracked_files = [], ty_grep = (\<lambda>_. None)\<rparr>"

lemma sample_on: "coverage_on sample_settings = Inr True" "testmap_on sample_settings = Inr True"
  "checkjs_on sample_settings = Inr True"
  by (simp_all add: coverage_on_def testmap_on_def checkjs_on_def flag_at_def sample_settings_def)

lemma sample_passes:
  "compare sample_tools sample_world (sample_doc 80 []) (sample_doc 70 [JObj [(''glob'', JStr ''a'')]])
     sample_settings sample_settings None = Inr []"
  unfolding compare_def both_same [where on = coverage_on, OF sample_on(1)]
    both_same [where on = testmap_on, OF sample_on(2)] both_same [where on = checkjs_on, OF sample_on(3)]
  by (simp add: guarded_def both_def sample_settings_def fail_under_def sample_doc_def only_shrinks_def items_def
    own_table_def tool_frappe_nix_def TABLE_def base_items_def new_items_def sorted_values_def set_add_def member_def
    ren_def r1_def r2_def hashable_def)

lemma ratchet_verdict_witness:
  "threshold_part None (sample_doc 80 []) (sample_doc 70 [JObj [(''glob'', JStr ''a'')]])"
  using ratchet_verdict [OF sample_passes] sample_on by (simp add: both_same)

lemma ratchet_history_witness:
  "no_lower (sample_doc 80 []) (sample_doc 70 [JObj [(''glob'', JStr ''a'')]])"
proof -
  let ?docs = "[sample_doc 70 [JObj [(''glob'', JStr ''a'')]], sample_doc 80 []]"
  have "successively (\<lambda>base head. \<exists>W. compare sample_tools W head base sample_settings sample_settings None = Inr []) ?docs"
    using sample_passes by auto
  from ratchet_history [OF this sample_on, of 0 1] show ?thesis by simp
qed

end
