(* ===== verification/Schema.thy ===== *)
theory Schema
  imports PyJson "HOL-Library.List_Lexorder" "HOL-Library.Char_ord"
begin

text \<open>
  \<^verbatim>\<open>common/schema.py\<close>: the validator of TOML documents against the shipped JSON schemas, their defaults,
  and the schema of a dotted key.  A schema is a JSON value; the files under \<^verbatim>\<open>data/schema\<close>, the text a
  value is shown as (\<^verbatim>\<open>json.dumps\<close>) and \<^verbatim>\<open>re.search\<close> are parameters.  The recursion of the code is on
  fuel, Python's own recursion limit: running out is its RecursionError.
\<close>

record schema_env =
  v_load :: "string \<Rightarrow> exn + json"
  v_show :: "json \<Rightarrow> string"
  v_search :: "string \<Rightarrow> string \<Rightarrow> bool"
  v_where :: string
  v_app_only :: bool

definition TOO_DEEP :: exn where "TOO_DEEP = RuntimeError ''maximum recursion depth exceeded''"

definition ANNOTATIONS :: "string list" where
  "ANNOTATIONS = [''$schema'', ''$id'', ''$defs'', ''$comment'', ''title'', ''description'', ''default'',
     ''examples'', ''x-app-only'']"

definition KEYWORDS :: "string list" where
  "KEYWORDS = [''$ref'', ''type'', ''const'', ''enum'', ''minimum'', ''maximum'', ''pattern'', ''minLength'',
     ''minItems'', ''uniqueItems'', ''required'', ''properties'', ''additionalProperties'', ''propertyNames'',
     ''items'', ''anyOf'']"

definition has_type :: "string \<Rightarrow> json \<Rightarrow> exn + bool" where
  "has_type t v =
     (if t = ''object'' then Inr (is_dict v)
      else if t = ''array'' then Inr (is_list v)
      else if t = ''string'' then Inr (is_str v)
      else if t = ''integer'' then Inr (case v of JInt _ \<Rightarrow> True | _ \<Rightarrow> False)
      else if t = ''number'' then Inr (is_number v)
      else if t = ''boolean'' then Inr (case v of JBool _ \<Rightarrow> True | _ \<Rightarrow> False)
      else if t = ''null'' then Inr (v = JNull)
      else Inl KeyError)"

section \<open>References\<close>

text \<open>\<^verbatim>\<open>_resolve\<close>: the file, then the parts of the pointer.\<close>

fun walk_pointer :: "string list \<Rightarrow> json \<Rightarrow> exn + json" where
  "walk_pointer [] node = Inr node"
| "walk_pointer (part # parts) node =
     (let key = replace_all ''~0'' ''~'' (replace_all ''~1'' ''/'' part) in
      case node of
        JObj kvs \<Rightarrow>
          (case map_of kvs key of
             Some child \<Rightarrow> walk_pointer parts child
           | None \<Rightarrow> Inl (RuntimeError ''$ref names nothing''))
      | _ \<Rightarrow> Inl (RuntimeError ''$ref names nothing''))"

definition resolve_ref :: "schema_env \<Rightarrow> json \<Rightarrow> string \<Rightarrow> exn + json \<times> string" where
  "resolve_ref E ref base =
     (case ref of
        JStr r \<Rightarrow>
          (case partition1 (CHR ''#'') r of (file, _, pointer) \<Rightarrow>
            let f = (if file = [] then base else file) in
            bindE (v_load E f) (\<lambda>node.
            bindE (walk_pointer (filter (\<lambda>p. p \<noteq> []) (split_on (CHR ''/'') pointer)) node) (\<lambda>n. Inr (n, f))))
      | _ \<Rightarrow> Inl AttributeError)"

text \<open>\<^verbatim>\<open>deref\<close>: at most 32 references in a row.  A schema is an object.\<close>

fun deref_in :: "schema_env \<Rightarrow> nat \<Rightarrow> json \<Rightarrow> string \<Rightarrow> exn + (string \<times> json) list \<times> string" where
  "deref_in E k node base =
     (case node of
        JObj kvs \<Rightarrow>
          (case map_of kvs ''$ref'' of
             None \<Rightarrow> Inr (kvs, base)
           | Some ref \<Rightarrow>
               bindE (resolve_ref E ref base) (\<lambda>(node', base').
                 case k of 0 \<Rightarrow> Inl (RuntimeError ''$ref cycle'') | Suc k' \<Rightarrow> deref_in E k' node' base'))
      | _ \<Rightarrow> Inl TypeError)"

declare deref_in.simps [simp del]

definition deref :: "schema_env \<Rightarrow> json \<Rightarrow> string \<Rightarrow> exn + (string \<times> json) list \<times> string" where
  "deref E node base = deref_in E 32 node base"

text \<open>\<^verbatim>\<open>_ecma\<close>: a \<^verbatim>\<open>$\<close> that no backslash precedes becomes the end of the value.\<close>

fun ecma_from :: "bool \<Rightarrow> string \<Rightarrow> string" where
  "ecma_from escaped [] = []"
| "ecma_from escaped (c # s) =
     (if c = CHR ''$'' \<and> \<not> escaped then CHR 0x5C # CHR ''Z'' # ecma_from False s
      else c # ecma_from (c = CHR 0x5C) s)"

definition ecma :: "string \<Rightarrow> string" where "ecma p = ecma_from False p"

section \<open>The keywords on one value\<close>

definition at_path :: "schema_env \<Rightarrow> string \<Rightarrow> string" where
  "at_path E path = (if path \<noteq> [] then v_where E @ path else v_where E)"

definition str_list :: "json list \<Rightarrow> exn + string list" where
  "str_list vs = mapE (\<lambda>v. case v of JStr s \<Rightarrow> Inr s | _ \<Rightarrow> Inl TypeError) vs"

definition kw_types :: "json \<Rightarrow> exn + string list" where
  "kw_types t = (case t of JArr ts \<Rightarrow> str_list ts | _ \<Rightarrow> str_list [t])"

fun any_type :: "string list \<Rightarrow> json \<Rightarrow> exn + bool" where
  "any_type [] v = Inr False"
| "any_type (t # ts) v = bindE (has_type t v) (\<lambda>b. if b then Inr True else any_type ts v)"

definition kw_const :: "schema_env \<Rightarrow> string \<Rightarrow> json \<Rightarrow> json \<Rightarrow> exn + string list" where
  "kw_const E path v c =
     Inr (if py_eq v c then [] else [at_path E path @ '': must be '' @ v_show E c])"

definition kw_enum :: "schema_env \<Rightarrow> string \<Rightarrow> json \<Rightarrow> json \<Rightarrow> exn + string list" where
  "kw_enum E path v vs =
     bindE (py_in v vs) (\<lambda>b. Inr (if b then [] else [at_path E path @ '': must be one of '' @ v_show E vs]))"

definition kw_bound :: "schema_env \<Rightarrow> string \<Rightarrow> bool \<Rightarrow> json \<Rightarrow> json \<Rightarrow> exn + string list" where
  "kw_bound E path least v b =
     (if \<not> is_number v then Inr []
      else case (num_of v, num_of b) of
        (Some x, Some y) \<Rightarrow>
          Inr (if least \<and> x < y then [at_path E path @ '': must be at least '' @ v_show E b]
               else if \<not> least \<and> y < x then [at_path E path @ '': must be at most '' @ v_show E b] else [])
      | _ \<Rightarrow> Inl TypeError)"

definition kw_min_length :: "schema_env \<Rightarrow> string \<Rightarrow> json \<Rightarrow> json \<Rightarrow> exn + string list" where
  "kw_min_length E path v n =
     (case v of
        JStr s \<Rightarrow>
          (case num_of n of
             Some m \<Rightarrow> Inr (if of_nat (length s) < m
               then [at_path E path @ '': must be at least '' @ v_show E n @ '' characters''] else [])
           | None \<Rightarrow> Inl TypeError)
      | _ \<Rightarrow> Inr [])"

definition kw_pattern :: "schema_env \<Rightarrow> string \<Rightarrow> json \<Rightarrow> json \<Rightarrow> exn + string list" where
  "kw_pattern E path v p =
     (case v of
        JStr s \<Rightarrow>
          (case p of
             JStr r \<Rightarrow> Inr (if v_search E (ecma r) s then []
               else [at_path E path @ '': '' @ v_show E v @ '' does not match '' @ r])
           | _ \<Rightarrow> Inl TypeError)
      | _ \<Rightarrow> Inr [])"

definition kw_min_items :: "schema_env \<Rightarrow> string \<Rightarrow> json \<Rightarrow> json \<Rightarrow> exn + string list" where
  "kw_min_items E path v n =
     (case v of
        JArr xs \<Rightarrow>
          (case num_of n of
             Some m \<Rightarrow> Inr (if of_nat (length xs) < m
               then [at_path E path @ '': needs at least '' @ v_show E n @ '' item(s)''] else [])
           | None \<Rightarrow> Inl TypeError)
      | _ \<Rightarrow> Inr [])"

text \<open>\<^verbatim>\<open>json.dumps(v, sort_keys=True)\<close> tells two values apart up to the order of keys.\<close>

fun sorted_keys :: "json \<Rightarrow> json" where
  "sorted_keys (JArr xs) = JArr (map sorted_keys xs)"
| "sorted_keys (JObj kvs) = JObj (map (\<lambda>k. (k, the (map_of (map (\<lambda>(k, v). (k, sorted_keys v)) kvs) k)))
     (sort (map fst kvs)))"
| "sorted_keys v = v"

definition kw_unique :: "schema_env \<Rightarrow> string \<Rightarrow> json \<Rightarrow> json \<Rightarrow> exn + string list" where
  "kw_unique E path v u =
     (case v of
        JArr xs \<Rightarrow> Inr (if truthy u \<and> \<not> distinct (map sorted_keys xs) then [at_path E path @ '': items must be unique''] else [])
      | _ \<Rightarrow> Inr [])"

text \<open>A keyword of the schema, when it is there.\<close>

definition on_kw :: "(string \<times> json) list \<Rightarrow> string \<Rightarrow> (json \<Rightarrow> exn + string list) \<Rightarrow> exn + string list" where
  "on_kw kvs k f = (case map_of kvs k of None \<Rightarrow> Inr [] | Some a \<Rightarrow> f a)"

text \<open>Several checks after one another.\<close>

fun all_errors :: "(exn + string list) list \<Rightarrow> exn + string list" where
  "all_errors [] = Inr []"
| "all_errors (c # cs) = bindE c (\<lambda>x. bindE (all_errors cs) (\<lambda>y. Inr (x @ y)))"

section \<open>Recursion into the value\<close>

type_synonym checker = "json \<Rightarrow> json \<Rightarrow> string \<Rightarrow> string \<Rightarrow> exn + string list"

fun item_errors :: "checker \<Rightarrow> json \<Rightarrow> string \<Rightarrow> string \<Rightarrow> nat \<Rightarrow> json list \<Rightarrow> (exn + string list) list" where
  "item_errors rec s path base i [] = []"
| "item_errors rec s path base i (x # xs) =
     rec x s (path @ ''['' @ show_nat i @ '']'') base # item_errors rec s path base (i + 1) xs"

definition kw_items :: "checker \<Rightarrow> string \<Rightarrow> string \<Rightarrow> json \<Rightarrow> json \<Rightarrow> exn + string list" where
  "kw_items rec path base v s =
     (case v of JArr xs \<Rightarrow> all_errors (item_errors rec s path base 0 xs) | _ \<Rightarrow> Inr [])"

definition sub_path :: "string \<Rightarrow> string \<Rightarrow> string" where "sub_path path key = path @ ''.'' @ key"

definition kw_required :: "schema_env \<Rightarrow> string \<Rightarrow> (string \<times> json) list \<Rightarrow> json \<Rightarrow> exn + string list" where
  "kw_required E path obj keys =
     bindE (iter keys) (\<lambda>ks. bindE (str_list ks) (\<lambda>ns.
       Inr (map (\<lambda>k. at_path E path @ '': '' @ k @ '' is required'') (filter (\<lambda>k. map_of obj k = None) ns))))"

definition name_errors :: "schema_env \<Rightarrow> checker \<Rightarrow> json option \<Rightarrow> string \<Rightarrow> string \<Rightarrow> string \<Rightarrow> exn + string list" where
  "name_errors E rec names path base key =
     (case names of
        None \<Rightarrow> Inr []
      | Some JNull \<Rightarrow> Inr []
      | Some s \<Rightarrow>
          (let sub = sub_path path key; here = at_path E sub
           in bindE (rec (JStr key) s sub base) (\<lambda>es. Inr (map (replace_all here (here @ '' (key)'')) es))))"

definition key_errors ::
  "schema_env \<Rightarrow> checker \<Rightarrow> (string \<times> json) list \<Rightarrow> json \<Rightarrow> string \<Rightarrow> string \<Rightarrow> string \<times> json \<Rightarrow> exn + string list" where
  "key_errors E rec props extra path base kv =
     (case kv of (key, item) \<Rightarrow>
       let sub = sub_path path key in
       case map_of props key of
         Some s \<Rightarrow>
           bindE (deref E s base) (\<lambda>(child, cbase).
             if (case map_of child ''x-app-only'' of Some a \<Rightarrow> truthy a | None \<Rightarrow> False) \<and> \<not> v_app_only E
             then Inr [at_path E sub @ '': an app-only key; set it in the app''@ CHR 0x27 # ''s [tool.frappe-nix]'']
             else rec item (JObj child) sub cbase)
       | None \<Rightarrow>
           if extra = JBool False then Inr [at_path E sub @ '': unknown key'']
           else if is_dict extra then rec item extra sub base
           else Inr [])"

definition props_of :: "(string \<times> json) list \<Rightarrow> exn + (string \<times> json) list" where
  "props_of kvs = (case map_of kvs ''properties'' of None \<Rightarrow> Inr [] | Some (JObj ps) \<Rightarrow> Inr ps | Some _ \<Rightarrow> Inl TypeError)"

definition extra_of :: "(string \<times> json) list \<Rightarrow> json" where
  "extra_of kvs = (case map_of kvs ''additionalProperties'' of None \<Rightarrow> JBool True | Some e \<Rightarrow> e)"

definition object_errors ::
  "schema_env \<Rightarrow> checker \<Rightarrow> (string \<times> json) list \<Rightarrow> string \<Rightarrow> string \<Rightarrow> json \<Rightarrow> exn + string list" where
  "object_errors E rec kvs path base v =
     (case v of
        JObj obj \<Rightarrow>
          bindE (props_of kvs) (\<lambda>props.
            all_errors (on_kw kvs ''required'' (kw_required E path obj) #
              concat (map (\<lambda>kv. [name_errors E rec (map_of kvs ''propertyNames'') path base (fst kv),
                               key_errors E rec props (extra_of kvs) path base kv]) obj)))
      | _ \<Rightarrow> Inr [])"

text \<open>\<^verbatim>\<open>anyOf\<close>: nothing when a branch has no error, else the branch that explains best: the first of those
  with the least (an error that says \<^verbatim>\<open>expected\<close>, number of errors).\<close>

definition branch_key :: "string list \<Rightarrow> bool \<times> nat" where
  "branch_key es = (list_ex (contains_sub ''expected'') es, length es)"

definition key_less :: "bool \<times> nat \<Rightarrow> bool \<times> nat \<Rightarrow> bool" where
  "key_less a b \<longleftrightarrow> (\<not> fst a \<and> fst b) \<or> (fst a = fst b \<and> snd a < snd b)"

fun best_branch :: "string list \<Rightarrow> string list list \<Rightarrow> string list" where
  "best_branch b [] = b"
| "best_branch b (es # bs) = best_branch (if key_less (branch_key es) (branch_key b) then es else b) bs"

definition kw_any_of :: "checker \<Rightarrow> string \<Rightarrow> string \<Rightarrow> json \<Rightarrow> json \<Rightarrow> exn + string list" where
  "kw_any_of rec path base v subs =
     bindE (iter subs) (\<lambda>ss. bindE (mapE (\<lambda>s. rec v s path base) ss) (\<lambda>branches.
       if \<exists>es \<in> set branches. es = [] then Inr []
       else case branches of [] \<Rightarrow> Inl (ValueError ''min() of an empty sequence'') | b # bs \<Rightarrow> Inr (best_branch b bs)))"

text \<open>\<^verbatim>\<open>Validator.errors\<close>.\<close>

definition unknown_keywords :: "(string \<times> json) list \<Rightarrow> string list" where
  "unknown_keywords kvs = filter (\<lambda>k. k \<notin> set KEYWORDS \<and> k \<notin> set ANNOTATIONS) (map fst kvs)"

definition type_errors :: "schema_env \<Rightarrow> string \<Rightarrow> json \<Rightarrow> json \<Rightarrow> exn + string list" where
  "type_errors E path v t =
     bindE (kw_types t) (\<lambda>ts. bindE (any_type ts v) (\<lambda>b.
       Inr (if b then [] else [at_path E path @ '': expected '' @ join '' or '' ts @ '', got '' @ v_show E v])))"

definition schema_check :: "schema_env \<Rightarrow> checker \<Rightarrow> (string \<times> json) list \<Rightarrow> string \<Rightarrow> string \<Rightarrow> json \<Rightarrow> exn + string list" where
  "schema_check E rec kvs path base v =
     (if unknown_keywords kvs \<noteq> [] then Inl (RuntimeError ''keyword(s) not supported'')
      else bindE (on_kw kvs ''type'' (type_errors E path v)) (\<lambda>typed.
        if typed \<noteq> [] then Inr typed
        else bindE (on_kw kvs ''anyOf'' (kw_any_of rec path base v)) (\<lambda>any.
          if any \<noteq> [] then Inr any
          else all_errors
            [on_kw kvs ''const'' (kw_const E path v), on_kw kvs ''enum'' (kw_enum E path v),
             on_kw kvs ''minimum'' (kw_bound E path True v), on_kw kvs ''maximum'' (kw_bound E path False v),
             on_kw kvs ''minLength'' (kw_min_length E path v), on_kw kvs ''pattern'' (kw_pattern E path v),
             on_kw kvs ''minItems'' (kw_min_items E path v), on_kw kvs ''uniqueItems'' (kw_unique E path v),
             on_kw kvs ''items'' (kw_items rec path base v), object_errors E rec kvs path base v])))"

primrec errors :: "schema_env \<Rightarrow> nat \<Rightarrow> checker" where
  "errors E 0 = (\<lambda>v s path base. Inl TOO_DEEP)"
| "errors E (Suc n) = (\<lambda>v s path base.
     bindE (deref E s base) (\<lambda>(kvs, b). schema_check E (errors E n) kvs path b v))"

definition validate :: "schema_env \<Rightarrow> nat \<Rightarrow> string \<Rightarrow> json \<Rightarrow> exn + string list" where
  "validate E n name v = bindE (v_load E name) (\<lambda>s. errors E n v s [] name)"

section \<open>Defaults and dotted keys\<close>

fun merge_values :: "(string \<times> (exn + json option)) list \<Rightarrow> exn + (string \<times> json) list" where
  "merge_values [] = Inr []"
| "merge_values ((k, r) # rest) =
     bindE r (\<lambda>v. bindE (merge_values rest) (\<lambda>out.
       Inr (case v of None \<Rightarrow> out | Some JNull \<Rightarrow> out | Some x \<Rightarrow> (k, x) # out)))"

primrec defaults_in :: "schema_env \<Rightarrow> nat \<Rightarrow> json \<Rightarrow> string \<Rightarrow> exn + json option" where
  "defaults_in E 0 = (\<lambda>s base. Inl TOO_DEEP)"
| "defaults_in E (Suc n) = (\<lambda>s base.
     bindE (deref E s base) (\<lambda>(kvs, b).
       case map_of kvs ''properties'' of
         None \<Rightarrow> Inr (map_of kvs ''default'')
       | Some (JObj ps) \<Rightarrow>
           bindE (merge_values (map (\<lambda>(k, sub). (k, defaults_in E n sub b)) ps)) (\<lambda>out.
             let all = (case map_of kvs ''default'' of
                   Some (JObj d) \<Rightarrow> fold (\<lambda>(k, v). AList.update k v) out d
                 | _ \<Rightarrow> out)
             in Inr (if all \<noteq> [] \<or> map_of kvs ''default'' \<noteq> None then Some (JObj all) else None))
       | Some _ \<Rightarrow> Inl AttributeError))"

definition defaults :: "schema_env \<Rightarrow> nat \<Rightarrow> string \<Rightarrow> exn + json" where
  "defaults E n name =
     bindE (v_load E name) (\<lambda>s. bindE (defaults_in E n s name) (\<lambda>d.
       Inr (jor (case d of Some v \<Rightarrow> v | None \<Rightarrow> JNull) (JObj []))))"

fun key_node :: "schema_env \<Rightarrow> (string \<times> json) list \<Rightarrow> string \<Rightarrow> string list \<Rightarrow> exn + (string \<times> json) list option" where
  "key_node E kvs base [] = Inr (Some kvs)"
| "key_node E kvs base (part # parts) =
     bindE (props_of kvs) (\<lambda>props.
       case map_of props part of
         Some s \<Rightarrow> bindE (deref E s base) (\<lambda>(c, b). key_node E c b parts)
       | None \<Rightarrow>
           (case map_of kvs ''additionalProperties'' of
              Some (JObj x) \<Rightarrow> bindE (deref E (JObj x) base) (\<lambda>(c, b). key_node E c b parts)
            | _ \<Rightarrow> Inr None))"

definition schema_at :: "schema_env \<Rightarrow> string \<Rightarrow> string \<Rightarrow> exn + (string \<times> json) list option" where
  "schema_at E name key =
     bindE (v_load E name) (\<lambda>s. bindE (deref E s name) (\<lambda>(kvs, b). key_node E kvs b (split_on (CHR ''.'') key)))"

section \<open>The fuel is only a limit\<close>

text \<open>A result that is not the recursion error is the result with any more fuel.\<close>

definition limited :: "exn + 'a \<Rightarrow> exn + 'a \<Rightarrow> bool" where
  "limited a b \<longleftrightarrow> a = Inl TOO_DEEP \<or> a = b"

named_theorems limited_rules \<open>a computation with less fuel gives the same or the recursion error\<close>

lemma limited_refl [limited_rules]: "limited a a" by (simp add: limited_def)

lemma limited_bind [limited_rules]:
  assumes "limited a b" "\<And>x. limited (f x) (g x)" shows "limited (bindE a f) (bindE b g)"
proof (cases a)
  case (Inr x)
  then show ?thesis using assms(1) assms(2) [of x] by (auto simp: limited_def)
qed (use assms(1) in \<open>auto simp: limited_def\<close>)

lemma limited_all: "list_all2 limited cs ds \<Longrightarrow> limited (all_errors cs) (all_errors ds)"
  by (induction rule: list_all2_induct) (auto intro!: limited_rules)

lemma limited_mapE: "(\<And>x. limited (f x) (g x)) \<Longrightarrow> limited (mapE f xs) (mapE g xs)"
  by (induction xs) (auto intro!: limited_rules)

lemma limited_on_kw: "(\<And>a. limited (f a) (g a)) \<Longrightarrow> limited (on_kw kvs k f) (on_kw kvs k g)"
  by (auto simp: on_kw_def limited_refl split: option.split)

definition limited_checker :: "checker \<Rightarrow> checker \<Rightarrow> bool" where
  "limited_checker r q \<longleftrightarrow> (\<forall>v s path base. limited (r v s path base) (q v s path base))"

lemma limited_items: "limited_checker r q \<Longrightarrow> limited (kw_items r path base v s) (kw_items q path base v s)"
proof -
  assume l: "limited_checker r q"
  then have "list_all2 limited (item_errors r s path base i xs) (item_errors q s path base i xs)" for i xs
    by (induction xs arbitrary: i) (auto simp: limited_checker_def)
  then show ?thesis by (auto simp: kw_items_def limited_refl intro: limited_all split: json.split)
qed

lemma limited_names: "limited_checker r q \<Longrightarrow> limited (name_errors E r names path base key) (name_errors E q names path base key)"
  by (auto simp: name_errors_def limited_checker_def Let_def intro!: limited_rules split: option.split json.split)

lemma limited_key: "limited_checker r q \<Longrightarrow> limited (key_errors E r props extra path base kv) (key_errors E q props extra path base kv)"
  by (auto simp: key_errors_def limited_checker_def Let_def intro!: limited_rules split: option.split prod.split)

lemma limited_object: "limited_checker r q \<Longrightarrow> limited (object_errors E r kvs path base v) (object_errors E q kvs path base v)"
proof -
  assume l: "limited_checker r q"
  have "list_all2 limited (concat (map (\<lambda>kv. [name_errors E r names path base (fst kv), key_errors E r props extra path base kv]) obj))
      (concat (map (\<lambda>kv. [name_errors E q names path base (fst kv), key_errors E q props extra path base kv]) obj))"
    for names props extra obj
    by (induction obj) (auto intro: limited_names [OF l] limited_key [OF l])
  then show ?thesis
    by (auto simp: object_errors_def limited_refl intro!: limited_bind limited_all split: json.split)
qed

lemma limited_check: "limited_checker r q \<Longrightarrow> limited (schema_check E r kvs path base v) (schema_check E q kvs path base v)"
  unfolding schema_check_def
  by (auto simp: kw_any_of_def limited_refl limited_checker_def
      intro!: limited_bind limited_on_kw limited_all limited_items limited_object limited_mapE)

lemma errors_limited: "limited_checker (errors E n) (errors E (n + k))"
proof (induction n)
  case (Suc n)
  show ?case
    unfolding limited_checker_def errors.simps add_Suc
    by (intro allI limited_bind limited_refl) (auto intro: limited_check [OF Suc])
qed (simp add: limited_checker_def limited_def)

section \<open>What a valid document is\<close>

text \<open>The meaning of one keyword of a schema, for a value.\<close>

definition types_in :: "json \<Rightarrow> string list" where
  "types_in t = (case kw_types t of Inr ts \<Rightarrow> ts | Inl _ \<Rightarrow> [])"

definition elems :: "json \<Rightarrow> json list" where
  "elems v = (case iter v of Inr xs \<Rightarrow> xs | Inl _ \<Rightarrow> [])"

definition members :: "json \<Rightarrow> (string \<times> json) list" where
  "members v = (case v of JObj kvs \<Rightarrow> kvs | _ \<Rightarrow> [])"

definition list_items :: "json \<Rightarrow> json list" where
  "list_items v = (case v of JArr xs \<Rightarrow> xs | _ \<Rightarrow> [])"

definition app_only :: "schema_env \<Rightarrow> json \<Rightarrow> string \<Rightarrow> bool" where
  "app_only E s base =
     (case deref E s base of
        Inr (c, _) \<Rightarrow> (case map_of c ''x-app-only'' of Some a \<Rightarrow> truthy a | None \<Rightarrow> False) \<and> \<not> v_app_only E
      | Inl _ \<Rightarrow> False)"

definition props_in :: "(string \<times> json) list \<Rightarrow> (string \<times> json) list" where
  "props_in kvs = (case props_of kvs of Inr ps \<Rightarrow> ps | Inl _ \<Rightarrow> [])"

definition kw_holds ::
  "schema_env \<Rightarrow> (json \<Rightarrow> json \<Rightarrow> string \<Rightarrow> bool) \<Rightarrow> (string \<times> json) list \<Rightarrow> string \<Rightarrow> json \<Rightarrow> string \<Rightarrow> json \<Rightarrow> bool" where
  "kw_holds E rec kvs base v k a =
     (if k = ''type'' then \<exists>t \<in> set (types_in a). has_type t v = Inr True
      else if k = ''anyOf'' then \<exists>s \<in> set (elems a). rec v s base
      else if k = ''const'' then py_eq v a
      else if k = ''enum'' then py_in v a = Inr True
      else if k = ''minimum'' then is_number v \<longrightarrow> the (num_of a) \<le> the (num_of v)
      else if k = ''maximum'' then is_number v \<longrightarrow> the (num_of v) \<le> the (num_of a)
      else if k = ''minLength'' then (case v of JStr s \<Rightarrow> the (num_of a) \<le> of_nat (length s) | _ \<Rightarrow> True)
      else if k = ''pattern'' then (case (v, a) of (JStr s, JStr r) \<Rightarrow> v_search E (ecma r) s | _ \<Rightarrow> True)
      else if k = ''minItems'' then (case v of JArr xs \<Rightarrow> the (num_of a) \<le> of_nat (length xs) | _ \<Rightarrow> True)
      else if k = ''uniqueItems'' then truthy a \<longrightarrow> distinct (map sorted_keys (list_items v))
      else if k = ''items'' then \<forall>x \<in> set (list_items v). rec x a base
      else if k = ''required'' then is_dict v \<longrightarrow> (\<forall>n \<in> set (elems a). \<forall>s. n = JStr s \<longrightarrow> map_of (members v) s \<noteq> None)
      else if k = ''propertyNames'' then a \<noteq> JNull \<longrightarrow> (\<forall>(n, _) \<in> set (members v). rec (JStr n) a base)
      else if k = ''properties'' then \<forall>(n, x) \<in> set (members v).
        (case map_of (props_in kvs) n of Some s \<Rightarrow> \<not> app_only E s base \<and> rec x s base | None \<Rightarrow> True)
      else if k = ''additionalProperties'' then \<forall>(n, x) \<in> set (members v).
        map_of (props_in kvs) n = None \<longrightarrow> a \<noteq> JBool False \<and> (is_dict a \<longrightarrow> rec x a base)
      else True)"

primrec conforms :: "schema_env \<Rightarrow> nat \<Rightarrow> json \<Rightarrow> json \<Rightarrow> string \<Rightarrow> bool" where
  "conforms E 0 = (\<lambda>v s base. False)"
| "conforms E (Suc n) = (\<lambda>v s base.
     (case deref E s base of
        Inr (kvs, b) \<Rightarrow> \<forall>k \<in> set KEYWORDS. (case map_of kvs k of None \<Rightarrow> True | Some a \<Rightarrow> kw_holds E (conforms E n) kvs b v k a)
      | Inl _ \<Rightarrow> False))"

lemma all_errors_Inr:
  "all_errors cs = Inr es \<Longrightarrow> (\<forall>c \<in> set cs. \<exists>x. c = Inr x) \<and> (es = [] \<longleftrightarrow> (\<forall>c \<in> set cs. c = Inr []))"
proof (induction cs arbitrary: es)
  case (Cons c cs)
  then obtain x y where "c = Inr x" "all_errors cs = Inr y" "es = x @ y" by (auto simp: sumres)
  with Cons.IH [of y] show ?case by auto
qed simp

lemma mapE_Inr_all: "mapE f xs = Inr ys \<Longrightarrow> list_all2 (\<lambda>x y. f x = Inr y) xs ys"
  by (induction xs arbitrary: ys) (auto simp: sumres)

text \<open>A checker and a predicate that agree wherever the checker ends.\<close>

definition agrees :: "checker \<Rightarrow> (json \<Rightarrow> json \<Rightarrow> string \<Rightarrow> bool) \<Rightarrow> bool" where
  "agrees rec ok \<longleftrightarrow> (\<forall>v s path base es. rec v s path base = Inr es \<longrightarrow> (es = [] \<longleftrightarrow> ok v s base))"

lemma agreesD: "agrees rec ok \<Longrightarrow> rec v s path base = Inr es \<Longrightarrow> es = [] \<longleftrightarrow> ok v s base"
  unfolding agrees_def by blast

lemma any_type_Inr: "any_type ts v = Inr b \<Longrightarrow> b \<longleftrightarrow> (\<exists>t \<in> set ts. has_type t v = Inr True)"
proof (induction ts)
  case (Cons t ts)
  then obtain c where c: "has_type t v = Inr c" by (auto simp: sumres)
  with Cons show ?case by (cases c) auto
qed simp

lemma type_errors_Inr: "type_errors E path v t = Inr es \<Longrightarrow> es = [] \<longleftrightarrow> (\<exists>x \<in> set (types_in t). has_type x v = Inr True)"
proof -
  assume "type_errors E path v t = Inr es"
  then obtain ts b where *: "kw_types t = Inr ts" "any_type ts v = Inr b"
    "es = (if b then [] else [at_path E path @ '': expected '' @ join '' or '' ts @ '', got '' @ v_show E v])"
    by (auto simp: type_errors_def sumres)
  with any_type_Inr [OF *(2)] show ?thesis by (auto simp: types_in_def)
qed

lemma best_branch_in: "best_branch b bs \<in> insert b (set bs)"
  by (induction bs arbitrary: b) (auto split: if_splits)

lemma best_branch_ne: "b \<noteq> [] \<Longrightarrow> [] \<notin> set bs \<Longrightarrow> best_branch b bs \<noteq> []"
  using best_branch_in [of b bs] by auto

lemma kw_any_of_Inr:
  assumes "agrees rec ok" "kw_any_of rec path base v subs = Inr es"
  shows "es = [] \<longleftrightarrow> (\<exists>s \<in> set (elems subs). ok v s base)"
proof -
  obtain ss bs where *: "iter subs = Inr ss" "mapE (\<lambda>s. rec v s path base) ss = Inr bs"
    "(if \<exists>es \<in> set bs. es = [] then Inr []
      else case bs of [] \<Rightarrow> Inl (ValueError ''min() of an empty sequence'') | b # bs \<Rightarrow> Inr (best_branch b bs)) = Inr es"
    using assms(2) by (auto simp: kw_any_of_def sumres)
  have l: "list_all2 (\<lambda>s e. e = [] \<longleftrightarrow> ok v s base) ss bs"
    by (rule list_all2_mono [OF mapE_Inr_all [OF *(2)]]) (rule agreesD [OF assms(1)])
  have e: "(\<exists>e \<in> set bs. e = []) \<longleftrightarrow> (\<exists>s \<in> set ss. ok v s base)"
    using l by (induction rule: list_all2_induct) auto
  have "es = [] \<longleftrightarrow> (\<exists>e \<in> set bs. e = [])"
    using *(3) best_branch_ne by (auto split: if_splits list.splits)
  then show ?thesis using e *(1) by (simp add: elems_def)
qed

lemma item_errors_all:
  assumes "agrees rec ok" "\<forall>c \<in> set (item_errors rec s path base i xs). \<exists>x. c = Inr x"
  shows "(\<forall>c \<in> set (item_errors rec s path base i xs). c = Inr []) \<longleftrightarrow> (\<forall>x \<in> set xs. ok x s base)"
  using assms(2)
proof (induction xs arbitrary: i)
  case (Cons x xs)
  then obtain es where "rec x s (path @ ''['' @ show_nat i @ '']'') base = Inr es" by auto
  with Cons agreesD [OF assms(1) this] show ?case by auto
qed simp

lemma kw_items_Inr: "agrees rec ok \<Longrightarrow> kw_items rec path base v s = Inr es \<Longrightarrow> es = [] \<longleftrightarrow> (\<forall>x \<in> set (list_items v). ok x s base)"
  using all_errors_Inr item_errors_all
  by (auto simp: kw_items_def list_items_def split: json.splits)

lemma name_errors_Inr:
  "agrees rec ok \<Longrightarrow> name_errors E rec names path base key = Inr es \<Longrightarrow>
   es = [] \<longleftrightarrow> (case names of None \<Rightarrow> True | Some s \<Rightarrow> s \<noteq> JNull \<longrightarrow> ok (JStr key) s base)"
  using agreesD [of rec ok "JStr key"]
  by (auto simp: name_errors_def Let_def sumres split: option.splits json.splits)

lemma deref_again: "deref E s base = Inr (c, b) \<Longrightarrow> deref E (JObj c) b = Inr (c, b)"
proof -
  have "deref_in E k s base = Inr (c, b) \<Longrightarrow> map_of c ''$ref'' = None" for k s base
  proof (induction k arbitrary: s base)
    case 0
    then show ?case by (auto simp: deref_in.simps [of E 0] sumres split: json.splits option.splits prod.splits)
  next
    case (Suc k)
    then show ?case by (auto simp: deref_in.simps [of E "Suc k"] sumres split: json.splits option.splits prod.splits)
  qed
  then show "deref E s base = Inr (c, b) \<Longrightarrow> ?thesis" unfolding deref_def by (subst deref_in.simps) simp
qed

lemma conforms_deref: "deref E s base = Inr (c, b) \<Longrightarrow> conforms E n v (JObj c) b = conforms E n v s base"
  by (cases n) (simp_all add: deref_again)

lemma key_errors_Inr:
  assumes a: "agrees rec ok" and d: "\<And>s c b x. deref E s base = Inr (c, b) \<Longrightarrow> ok x (JObj c) b = ok x s base"
    and k: "key_errors E rec props extra path base (key, item) = Inr es"
  shows "es = [] \<longleftrightarrow>
    (case map_of props key of
       Some s \<Rightarrow> \<not> app_only E s base \<and> ok item s base
     | None \<Rightarrow> extra \<noteq> JBool False \<and> (is_dict extra \<longrightarrow> ok item extra base))"
proof (cases "map_of props key")
  case None
  with k agreesD [OF a, of item extra] show ?thesis by (auto simp: key_errors_def Let_def split: if_splits)
next
  case (Some s)
  then obtain c b where c: "deref E s base = Inr (c, b)" using k by (auto simp: key_errors_def Let_def sumres)
  with k Some agreesD [OF a, of item "JObj c"] d [OF c, of item] show ?thesis
    by (auto simp: key_errors_def Let_def app_only_def split: if_splits)
qed

lemma kw_required_Inr:
  "kw_required E path obj keys = Inr es \<Longrightarrow>
   es = [] \<longleftrightarrow> (\<forall>n \<in> set (elems keys). \<forall>s. n = JStr s \<longrightarrow> map_of obj s \<noteq> None)"
proof -
  assume "kw_required E path obj keys = Inr es"
  then obtain ks ns where *: "iter keys = Inr ks" "str_list ks = Inr ns"
    "es = map (\<lambda>k. at_path E path @ '': '' @ k @ '' is required'') (filter (\<lambda>k. map_of obj k = None) ns)"
    by (auto simp: kw_required_def sumres)
  have "list_all2 (\<lambda>k n. k = JStr n) ks ns"
    using mapE_Inr_all [OF *(2) [unfolded str_list_def]] by (rule list_all2_mono) (auto split: json.splits)
  then have "(\<forall>n \<in> set ns. map_of obj n \<noteq> None) \<longleftrightarrow> (\<forall>n \<in> set ks. \<forall>s. n = JStr s \<longrightarrow> map_of obj s \<noteq> None)"
    by (induction rule: list_all2_induct) auto
  with * show ?thesis by (auto simp: elems_def filter_empty_conv)
qed

text \<open>A keyword that may be missing.\<close>

definition kw_or :: "(string \<times> json) list \<Rightarrow> string \<Rightarrow> (json \<Rightarrow> bool) \<Rightarrow> bool" where
  "kw_or kvs k P = (case map_of kvs k of None \<Rightarrow> True | Some a \<Rightarrow> P a)"

lemma on_kw_Inr: "on_kw kvs k f = Inr es \<Longrightarrow> (\<And>a es. f a = Inr es \<Longrightarrow> es = [] \<longleftrightarrow> P a) \<Longrightarrow> es = [] \<longleftrightarrow> kw_or kvs k P"
  by (auto simp: on_kw_def kw_or_def split: option.splits)

lemma object_errors_Inr:
  assumes a: "agrees rec ok" and d: "\<And>s c b x. deref E s base = Inr (c, b) \<Longrightarrow> ok x (JObj c) b = ok x s base"
    and o: "object_errors E rec kvs path base v = Inr es"
  shows "es = [] \<longleftrightarrow> kw_or kvs ''required'' (kw_holds E ok kvs base v ''required'') \<and>
    kw_or kvs ''propertyNames'' (kw_holds E ok kvs base v ''propertyNames'') \<and>
    kw_or kvs ''properties'' (kw_holds E ok kvs base v ''properties'') \<and>
    kw_or kvs ''additionalProperties'' (kw_holds E ok kvs base v ''additionalProperties'')"
proof (cases v)
  case (JObj obj)
  let ?nm = "\<lambda>kv. name_errors E rec (map_of kvs ''propertyNames'') path base (fst kv)"
  obtain props where props: "props_of kvs = Inr props" using o JObj by (auto simp: object_errors_def sumres)
  let ?ke = "\<lambda>kv. key_errors E rec props (extra_of kvs) path base kv"
  have all: "all_errors (on_kw kvs ''required'' (kw_required E path obj) # concat (map (\<lambda>kv. [?nm kv, ?ke kv]) obj)) = Inr es"
    using o JObj props by (simp add: object_errors_def)
  obtain rq where rq: "on_kw kvs ''required'' (kw_required E path obj) = Inr rq"
    using all_errors_Inr [OF all] by auto
  have A1: "(\<exists>x. ?nm kv = Inr x) \<and> (\<exists>x. ?ke kv = Inr x)" if "kv \<in> set obj" for kv
    using all_errors_Inr [OF all] that by simp
  have A2: "es = [] \<longleftrightarrow> rq = [] \<and> (\<forall>kv \<in> set obj. ?nm kv = Inr [] \<and> ?ke kv = Inr [])"
    using all_errors_Inr [OF all] rq by simp
  have 1: "rq = [] \<longleftrightarrow> kw_or kvs ''required'' (kw_holds E ok kvs base v ''required'')"
    by (rule on_kw_Inr [OF rq]) (simp add: kw_holds_def JObj members_def is_dict_def kw_required_Inr)
  have 2: "?nm kv = Inr [] \<longleftrightarrow> kw_or kvs ''propertyNames'' (\<lambda>s. s \<noteq> JNull \<longrightarrow> ok (JStr (fst kv)) s base)" if kv: "kv \<in> set obj" for kv
  proof -
    obtain x where "?nm kv = Inr x" using A1 [OF kv] by blast
    with name_errors_Inr [OF a this] show ?thesis by (auto simp: kw_or_def)
  qed
  have 3: "?ke kv = Inr [] \<longleftrightarrow> (case map_of props (fst kv) of
       Some s \<Rightarrow> \<not> app_only E s base \<and> ok (snd kv) s base
     | None \<Rightarrow> extra_of kvs \<noteq> JBool False \<and> (is_dict (extra_of kvs) \<longrightarrow> ok (snd kv) (extra_of kvs) base))" if kv: "kv \<in> set obj" for kv
  proof -
    obtain x where x: "?ke kv = Inr x" using A1 [OF kv] by blast
    obtain k i where kv: "kv = (k, i)" by fastforce
    from key_errors_Inr [OF a d x [unfolded kv]] x show ?thesis unfolding kv fst_conv snd_conv by simp
  qed
  have p: "kw_or kvs ''properties'' (kw_holds E ok kvs base v ''properties'') \<longleftrightarrow>
     (\<forall>kv \<in> set obj. case map_of props (fst kv) of Some s \<Rightarrow> \<not> app_only E s base \<and> ok (snd kv) s base | None \<Rightarrow> True)"
    using props by (auto simp: kw_or_def kw_holds_def JObj members_def props_in_def props_of_def split: option.splits json.splits)
  have x: "kw_or kvs ''additionalProperties'' (kw_holds E ok kvs base v ''additionalProperties'') \<longleftrightarrow>
     (\<forall>kv \<in> set obj. map_of props (fst kv) = None \<longrightarrow>
       extra_of kvs \<noteq> JBool False \<and> (is_dict (extra_of kvs) \<longrightarrow> ok (snd kv) (extra_of kvs) base))"
    using props by (auto simp: kw_or_def kw_holds_def JObj members_def props_in_def extra_of_def is_dict_def split: option.splits)
  have n: "kw_or kvs ''propertyNames'' (kw_holds E ok kvs base v ''propertyNames'') \<longleftrightarrow>
     (\<forall>kv \<in> set obj. kw_or kvs ''propertyNames'' (\<lambda>s. s \<noteq> JNull \<longrightarrow> ok (JStr (fst kv)) s base))"
    by (auto simp: kw_or_def kw_holds_def JObj members_def split: option.splits)
  have 4: "?nm kv = Inr [] \<and> ?ke kv = Inr [] \<longleftrightarrow>
      kw_or kvs ''propertyNames'' (\<lambda>s. s \<noteq> JNull \<longrightarrow> ok (JStr (fst kv)) s base) \<and>
      (case map_of props (fst kv) of Some s \<Rightarrow> \<not> app_only E s base \<and> ok (snd kv) s base | None \<Rightarrow> True) \<and>
      (map_of props (fst kv) = None \<longrightarrow> extra_of kvs \<noteq> JBool False \<and> (is_dict (extra_of kvs) \<longrightarrow> ok (snd kv) (extra_of kvs) base))"
    if "kv \<in> set obj" for kv
    unfolding 2 [OF that] 3 [OF that] by (cases "map_of props (fst kv)") simp_all
  show ?thesis unfolding A2 1 p x n using 4 by blast
qed (use o in \<open>auto simp: object_errors_def kw_or_def kw_holds_def members_def is_dict_def split: option.split\<close>)

text \<open>The keywords on scalars.\<close>

lemma simple_keywords:
  "kw_const E path v a = Inr es \<Longrightarrow> es = [] \<longleftrightarrow> kw_holds E ok kvs base v ''const'' a"
  "kw_enum E path v a = Inr es \<Longrightarrow> es = [] \<longleftrightarrow> kw_holds E ok kvs base v ''enum'' a"
  "kw_bound E path True v a = Inr es \<Longrightarrow> es = [] \<longleftrightarrow> kw_holds E ok kvs base v ''minimum'' a"
  "kw_bound E path False v a = Inr es \<Longrightarrow> es = [] \<longleftrightarrow> kw_holds E ok kvs base v ''maximum'' a"
  "kw_min_length E path v a = Inr es \<Longrightarrow> es = [] \<longleftrightarrow> kw_holds E ok kvs base v ''minLength'' a"
  "kw_pattern E path v a = Inr es \<Longrightarrow> es = [] \<longleftrightarrow> kw_holds E ok kvs base v ''pattern'' a"
  "kw_min_items E path v a = Inr es \<Longrightarrow> es = [] \<longleftrightarrow> kw_holds E ok kvs base v ''minItems'' a"
  "kw_unique E path v a = Inr es \<Longrightarrow> es = [] \<longleftrightarrow> kw_holds E ok kvs base v ''uniqueItems'' a"
  by (auto simp: kw_const_def kw_enum_def kw_bound_def kw_min_length_def kw_pattern_def kw_min_items_def
      kw_unique_def kw_holds_def list_items_def sumres split: option.splits json.splits if_splits)

lemma ball_ten: "(\<forall>x \<in> set [a, b, c, d, e, f, g, h, i, j]. P x) \<longleftrightarrow> P a \<and> P b \<and> P c \<and> P d \<and> P e \<and> P f \<and> P g \<and> P h \<and> P i \<and> P j"
  by simp

lemma ball_nine: "(\<forall>x \<in> {a, b, c, d, e, f, g, h, i}. P x) \<longleftrightarrow> P a \<and> P b \<and> P c \<and> P d \<and> P e \<and> P f \<and> P g \<and> P h \<and> P i"
  by simp

lemma check_agrees:
  assumes a: "agrees rec ok" and d: "\<And>s base c b x. deref E s base = Inr (c, b) \<Longrightarrow> ok x (JObj c) b = ok x s base"
    and c: "schema_check E rec kvs path base v = Inr es"
  shows "es = [] \<longleftrightarrow> (\<forall>k \<in> set KEYWORDS. kw_or kvs k (kw_holds E ok kvs base v k))"
proof -
  have kws: "(\<forall>k \<in> set KEYWORDS. kw_or kvs k (kw_holds E ok kvs base v k)) \<longleftrightarrow>
     kw_or kvs ''type'' (kw_holds E ok kvs base v ''type'') \<and> kw_or kvs ''anyOf'' (kw_holds E ok kvs base v ''anyOf'') \<and>
     (\<forall>k \<in> {''const'', ''enum'', ''minimum'', ''maximum'', ''minLength'', ''pattern'', ''minItems'', ''uniqueItems'', ''items''}.
        kw_or kvs k (kw_holds E ok kvs base v k)) \<and>
     kw_or kvs ''required'' (kw_holds E ok kvs base v ''required'') \<and>
     kw_or kvs ''propertyNames'' (kw_holds E ok kvs base v ''propertyNames'') \<and>
     kw_or kvs ''properties'' (kw_holds E ok kvs base v ''properties'') \<and>
     kw_or kvs ''additionalProperties'' (kw_holds E ok kvs base v ''additionalProperties'') \<and>
     kw_or kvs ''$ref'' (kw_holds E ok kvs base v ''$ref'')"
    unfolding KEYWORDS_def by (simp only: list.set ball_simps) blast
  have r: "kw_or kvs ''$ref'' (kw_holds E ok kvs base v ''$ref'')"
    by (simp add: kw_or_def kw_holds_def split: option.split)
  obtain ty where ty: "on_kw kvs ''type'' (type_errors E path v) = Inr ty" using c by (auto simp: schema_check_def sumres split: if_splits)
  have 1: "ty = [] \<longleftrightarrow> kw_or kvs ''type'' (kw_holds E ok kvs base v ''type'')"
    by (rule on_kw_Inr [OF ty]) (simp add: kw_holds_def type_errors_Inr)
  show ?thesis
  proof (cases "ty = []")
    case False
    with c ty have "es = ty" by (auto simp: schema_check_def split: if_splits)
    with 1 kws False show ?thesis by blast
  next
    case True
    obtain an where an: "on_kw kvs ''anyOf'' (kw_any_of rec path base v) = Inr an"
      using c ty True by (auto simp: schema_check_def sumres split: if_splits)
    have 2: "an = [] \<longleftrightarrow> kw_or kvs ''anyOf'' (kw_holds E ok kvs base v ''anyOf'')"
      by (rule on_kw_Inr [OF an]) (simp add: kw_holds_def kw_any_of_Inr [OF a])
    show ?thesis
    proof (cases "an = []")
      case False
      with c ty True an have "es = an" by (auto simp: schema_check_def split: if_splits)
      with 2 kws False show ?thesis by blast
    next
      case an': True
      let ?cs = "[on_kw kvs ''const'' (kw_const E path v), on_kw kvs ''enum'' (kw_enum E path v),
             on_kw kvs ''minimum'' (kw_bound E path True v), on_kw kvs ''maximum'' (kw_bound E path False v),
             on_kw kvs ''minLength'' (kw_min_length E path v), on_kw kvs ''pattern'' (kw_pattern E path v),
             on_kw kvs ''minItems'' (kw_min_items E path v), on_kw kvs ''uniqueItems'' (kw_unique E path v),
             on_kw kvs ''items'' (kw_items rec path base v), object_errors E rec kvs path base v]"
      have "all_errors ?cs = Inr es" using c ty True an an' by (simp add: schema_check_def split: if_splits)
      note A = all_errors_Inr [OF this]
      have k: "on_kw kvs kw f = Inr [] \<longleftrightarrow> kw_or kvs kw (kw_holds E ok kvs base v kw)"
        if m: "on_kw kvs kw f \<in> set ?cs" and f: "\<And>x es. f x = Inr es \<Longrightarrow> es = [] \<longleftrightarrow> kw_holds E ok kvs base v kw x" for kw f
      proof -
        obtain x where "on_kw kvs kw f = Inr x" using bspec [OF conjunct1 [OF A] m] by blast
        with on_kw_Inr [OF this f] show ?thesis by simp
      qed
      have items: "es = [] \<longleftrightarrow> kw_holds E ok kvs base v ''items'' x" if "kw_items rec path base v x = Inr es" for x es
        using kw_items_Inr [OF a that] by (simp add: kw_holds_def)
      have o: "object_errors E rec kvs path base v = Inr [] \<longleftrightarrow> kw_or kvs ''required'' (kw_holds E ok kvs base v ''required'') \<and>
         kw_or kvs ''propertyNames'' (kw_holds E ok kvs base v ''propertyNames'') \<and>
         kw_or kvs ''properties'' (kw_holds E ok kvs base v ''properties'') \<and>
         kw_or kvs ''additionalProperties'' (kw_holds E ok kvs base v ''additionalProperties'')"
      proof -
        obtain x where "object_errors E rec kvs path base v = Inr x" using A by auto
        with object_errors_Inr [OF a d this] show ?thesis by simp
      qed
      have k1: "on_kw kvs ''const'' (kw_const E path v) = Inr [] \<longleftrightarrow> kw_or kvs ''const'' (kw_holds E ok kvs base v ''const'')"
        by (rule k [OF _ simple_keywords(1)]) simp_all
      have k2: "on_kw kvs ''enum'' (kw_enum E path v) = Inr [] \<longleftrightarrow> kw_or kvs ''enum'' (kw_holds E ok kvs base v ''enum'')"
        by (rule k [OF _ simple_keywords(2)]) simp_all
      have k3: "on_kw kvs ''minimum'' (kw_bound E path True v) = Inr [] \<longleftrightarrow> kw_or kvs ''minimum'' (kw_holds E ok kvs base v ''minimum'')"
        by (rule k [OF _ simple_keywords(3)]) simp_all
      have k4: "on_kw kvs ''maximum'' (kw_bound E path False v) = Inr [] \<longleftrightarrow> kw_or kvs ''maximum'' (kw_holds E ok kvs base v ''maximum'')"
        by (rule k [OF _ simple_keywords(4)]) simp_all
      have k5: "on_kw kvs ''minLength'' (kw_min_length E path v) = Inr [] \<longleftrightarrow> kw_or kvs ''minLength'' (kw_holds E ok kvs base v ''minLength'')"
        by (rule k [OF _ simple_keywords(5)]) simp_all
      have k6: "on_kw kvs ''pattern'' (kw_pattern E path v) = Inr [] \<longleftrightarrow> kw_or kvs ''pattern'' (kw_holds E ok kvs base v ''pattern'')"
        by (rule k [OF _ simple_keywords(6)]) simp_all
      have k7: "on_kw kvs ''minItems'' (kw_min_items E path v) = Inr [] \<longleftrightarrow> kw_or kvs ''minItems'' (kw_holds E ok kvs base v ''minItems'')"
        by (rule k [OF _ simple_keywords(7)]) simp_all
      have k8: "on_kw kvs ''uniqueItems'' (kw_unique E path v) = Inr [] \<longleftrightarrow> kw_or kvs ''uniqueItems'' (kw_holds E ok kvs base v ''uniqueItems'')"
        by (rule k [OF _ simple_keywords(8)]) simp_all
      have k9: "on_kw kvs ''items'' (kw_items rec path base v) = Inr [] \<longleftrightarrow> kw_or kvs ''items'' (kw_holds E ok kvs base v ''items'')"
        by (rule k [OF _ items]) simp_all
      have "es = [] \<longleftrightarrow> (\<forall>c \<in> set ?cs. c = Inr [])" using A by blast
      also have "\<dots> \<longleftrightarrow> (\<forall>k \<in> {''const'', ''enum'', ''minimum'', ''maximum'', ''minLength'', ''pattern'', ''minItems'', ''uniqueItems'', ''items''}.
          kw_or kvs k (kw_holds E ok kvs base v k)) \<and> object_errors E rec kvs path base v = Inr []"
        unfolding ball_ten ball_nine k1 k2 k3 k4 k5 k6 k7 k8 k9 conj_assoc ..
      finally have e: "es = [] \<longleftrightarrow> (\<forall>k \<in> {''const'', ''enum'', ''minimum'', ''maximum'', ''minLength'', ''pattern'', ''minItems'', ''uniqueItems'', ''items''}.
          kw_or kvs k (kw_holds E ok kvs base v k)) \<and> object_errors E rec kvs path base v = Inr []" .
      have T: "kw_or kvs ''type'' (kw_holds E ok kvs base v ''type'')" using 1 True by (rule iffD1)
      have Y: "kw_or kvs ''anyOf'' (kw_holds E ok kvs base v ''anyOf'')" using 2 an' by (rule iffD1)
      show ?thesis unfolding kws e o by (simp only: T Y r simp_thms)
    qed
  qed
qed

lemma errors_agree: "agrees (errors E n) (conforms E n)"
proof (induction n)
  case (Suc n)
  show ?case
    unfolding agrees_def
  proof (intro allI impI)
    fix v s path base es
    assume "errors E (Suc n) v s path base = Inr es"
    then obtain kvs b where *: "deref E s base = Inr (kvs, b)" "schema_check E (errors E n) kvs path b v = Inr es"
      by (auto simp: sumres)
    from check_agrees [OF Suc conforms_deref *(2)] *(1) show "es = [] \<longleftrightarrow> conforms E (Suc n) v s base"
      by (simp add: kw_or_def)
  qed
qed (simp add: agrees_def)

text \<open>C13. The validator decides conformance: when it ends, it reports no error exactly when the value
  conforms to the schema, that is, when every keyword of the schema (and of every subschema that applies,
  through references) holds of the value by its own meaning: the short cuts after a wrong type or a failed
  \<^verbatim>\<open>anyOf\<close> and the choice of the branch reported never change the verdict.\<close>

theorem validator_decides_conformance:
  assumes "v_load E name = Inr s" "validate E n name v = Inr es"
  shows "es = [] \<longleftrightarrow> conforms E n v s name"
  using agreesD [OF errors_agree] assms by (simp add: validate_def)

section \<open>Validation ends\<close>

text \<open>A schema in which no object has a \<^verbatim>\<open>$ref\<close>.\<close>

fun no_refs :: "json \<Rightarrow> bool" where
  "no_refs (JObj kvs) \<longleftrightarrow> ''$ref'' \<notin> fst ` set kvs \<and> (\<forall>kv \<in> set kvs. no_refs (snd kv))"
| "no_refs (JArr xs) \<longleftrightarrow> (\<forall>x \<in> set xs. no_refs x)"
| "no_refs _ \<longleftrightarrow> True"

definition ends :: "exn + 'a \<Rightarrow> bool" where "ends r \<longleftrightarrow> r \<noteq> Inl TOO_DEEP"

named_theorems ends_rules \<open>a computation does not run out of fuel\<close>

lemma ends_Inr [ends_rules]: "ends (Inr x)" by (simp add: ends_def)

lemma ends_value [ends_rules]: "ends (Inl (ValueError m))" by (simp add: ends_def TOO_DEEP_def)

lemma ends_bind [ends_rules]: "ends a \<Longrightarrow> (\<And>x. a = Inr x \<Longrightarrow> ends (f x)) \<Longrightarrow> ends (bindE a f)"
  by (cases a) (auto simp: ends_def)

lemma ends_all [ends_rules]: "(\<And>c. c \<in> set cs \<Longrightarrow> ends c) \<Longrightarrow> ends (all_errors cs)"
  by (induction cs) (auto intro!: ends_rules)

lemma ends_mapE [ends_rules]: "(\<And>x. x \<in> set xs \<Longrightarrow> ends (f x)) \<Longrightarrow> ends (mapE f xs)"
  by (induction xs) (auto intro!: ends_rules)

lemma ends_on_kw [ends_rules]: "(\<And>a. map_of kvs k = Some a \<Longrightarrow> ends (f a)) \<Longrightarrow> ends (on_kw kvs k f)"
  by (auto simp: on_kw_def ends_Inr split: option.split)

lemma ends_plain [ends_rules]:
  "ends (has_type t v)" "ends (iter v)" "ends (py_in v w)" "ends (kw_const E path v a)" "ends (kw_bound E path b v a)"
  "ends (kw_min_length E path v a)" "ends (kw_pattern E path v a)" "ends (kw_min_items E path v a)"
  "ends (kw_unique E path v a)" "ends (props_of kvs)"
  by (auto simp: ends_def TOO_DEEP_def has_type_def iter_def py_in_def kw_const_def kw_bound_def kw_min_length_def
      kw_pattern_def kw_min_items_def kw_unique_def props_of_def split: json.splits option.splits)

lemma ends_str_list [ends_rules]: "ends (str_list vs)"
  unfolding str_list_def by (rule ends_mapE) (auto simp: ends_def TOO_DEEP_def split: json.split)

lemma ends_any_type [ends_rules]: "ends (any_type ts v)"
  by (induction ts) (auto intro!: ends_rules)

lemma ends_type_errors [ends_rules]: "ends (type_errors E path v t)"
  unfolding type_errors_def kw_types_def by (auto intro!: ends_rules split: json.split)

lemma ends_enum [ends_rules]: "ends (kw_enum E path v a)"
  unfolding kw_enum_def by (auto intro!: ends_rules)

lemma ends_required [ends_rules]: "ends (kw_required E path obj a)"
  unfolding kw_required_def by (auto intro!: ends_rules)

lemma item_errors_in: "c \<in> set (item_errors rec s path base i xs) \<Longrightarrow> \<exists>x p. c = rec x s p base"
  by (induction xs arbitrary: i) auto

lemma deref_plain: "no_refs s \<Longrightarrow> deref E s base = (case s of JObj kvs \<Rightarrow> Inr (kvs, base) | _ \<Rightarrow> Inl TypeError)"
proof (cases s)
  case (JObj kvs)
  assume "no_refs s"
  then have "map_of kvs ''$ref'' = None" using JObj by (simp add: map_of_eq_None_iff)
  then show ?thesis using JObj by (simp add: deref_def deref_in.simps [of E 32])
qed (simp_all add: deref_def deref_in.simps [of E 32])

text \<open>How deep a schema nests.\<close>

fun depth :: "json \<Rightarrow> nat" where
  "depth (JArr xs) = Suc (sum_list (map depth xs))"
| "depth (JObj kvs) = Suc (sum_list (map (\<lambda>kv. depth (snd kv)) kvs))"
| "depth _ = 0"

lemma sub_obj: "map_of kvs k = Some a \<Longrightarrow> no_refs (JObj kvs) \<Longrightarrow> depth a < depth (JObj kvs) \<and> no_refs a"
proof -
  assume "map_of kvs k = Some a" and n: "no_refs (JObj kvs)"
  then have m: "(k, a) \<in> set kvs" by (auto dest: map_of_SomeD)
  have "depth a \<le> sum_list (map (\<lambda>kv. depth (snd kv)) kvs)"
    using member_le_sum_list [of "depth a" "map (\<lambda>kv. depth (snd kv)) kvs"] m by (force simp: image_iff)
  then show ?thesis using m n by auto
qed

lemma sub_iter: "iter a = Inr xs \<Longrightarrow> x \<in> set xs \<Longrightarrow> no_refs a \<Longrightarrow> depth x \<le> depth a \<and> no_refs x"
proof (cases a)
  case (JArr ys)
  assume "iter a = Inr xs" "x \<in> set xs" "no_refs a"
  then show ?thesis using JArr member_le_sum_list [of "depth x" "map depth ys"] by auto
qed (auto simp: iter_def)

definition ends_below :: "checker \<Rightarrow> nat \<Rightarrow> bool" where
  "ends_below rec n \<longleftrightarrow> (\<forall>v s path base. no_refs s \<longrightarrow> depth s < n \<longrightarrow> ends (rec v s path base))"

lemma ends_names:
  "ends_below rec n \<Longrightarrow> (\<And>s. names = Some s \<Longrightarrow> no_refs s \<and> depth s < n) \<Longrightarrow> ends (name_errors E rec names path base key)"
  by (cases names) (auto simp: name_errors_def Let_def ends_below_def intro!: ends_rules split: json.split)

lemma ends_key:
  assumes r: "ends_below rec n" and p: "\<And>k s. map_of props k = Some s \<Longrightarrow> no_refs s \<and> depth s < n"
    and x: "is_dict extra \<Longrightarrow> no_refs extra \<and> depth extra < n"
  shows "ends (key_errors E rec props extra path base kv)"
proof (cases kv)
  case (Pair key item)
  show ?thesis
  proof (cases "map_of props key")
    case None
    then show ?thesis using r x by (auto simp: Pair key_errors_def Let_def ends_below_def intro!: ends_rules)
  next
    case (Some s)
    then have s: "no_refs s" "depth s < n" using p by blast+
    show ?thesis
    proof (cases s)
      case (JObj c)
      have "ends (rec item (JObj c) (sub_path path key) base)" using r s JObj unfolding ends_below_def by blast
      then show ?thesis using Some s JObj
        by (auto simp: Pair key_errors_def Let_def deref_plain intro!: ends_rules)
    qed (use Some s in \<open>simp_all add: Pair key_errors_def Let_def deref_plain ends_def TOO_DEEP_def\<close>)
  qed
qed

lemma ends_object:
  assumes r: "ends_below rec n" and k: "no_refs (JObj kvs)" "depth (JObj kvs) \<le> n"
  shows "ends (object_errors E rec kvs path base v)"
proof -
  have sub: "no_refs a \<and> depth a < n" if "map_of kvs w = Some a" for w a
    using sub_obj [OF that k(1)] k(2) by simp
  have "ends (key_errors E rec props (extra_of kvs) path base kv)" if p: "props_of kvs = Inr props" for props kv
  proof (rule ends_key [OF r])
    fix w s assume s: "map_of props w = Some s"
    show "no_refs s \<and> depth s < n"
    proof (cases "map_of kvs ''properties''")
      case None
      then show ?thesis using p s by (simp add: props_of_def)
    next
      case (Some ps)
      then have "ps = JObj props" using p by (auto simp: props_of_def split: json.splits)
      then show ?thesis using sub_obj [OF s] sub [OF Some] by fastforce
    qed
  next
    assume "is_dict (extra_of kvs)"
    then show "no_refs (extra_of kvs) \<and> depth (extra_of kvs) < n"
      using sub [of "''additionalProperties''"] by (auto simp: extra_of_def is_dict_def split: option.splits)
  qed
  then show ?thesis
    using ends_names [OF r, of "map_of kvs ''propertyNames''"] sub
    by (auto simp: object_errors_def intro!: ends_rules split: json.split)
qed

lemma ends_check:
  assumes r: "ends_below rec n" and k: "no_refs (JObj kvs)" "depth (JObj kvs) \<le> n"
  shows "ends (schema_check E rec kvs path base v)"
proof -
  have sub: "no_refs a \<and> depth a < n" if "map_of kvs w = Some a" for w a
    using sub_obj [OF that k(1)] k(2) by simp
  have any: "ends (kw_any_of rec path base v a)" if "map_of kvs w = Some a" for w a
  proof -
    have "ends (rec v s path base)" if "iter a = Inr ss" "s \<in> set ss" for s ss
      using sub_iter [OF that] sub [OF \<open>map_of kvs w = Some a\<close>] r unfolding ends_below_def by fastforce
    then show ?thesis unfolding kw_any_of_def
      by (auto intro!: ends_rules split: list.split)
  qed
  have items: "ends (kw_items rec path base v a)" if "map_of kvs w = Some a" for w a
    using sub [OF that] r item_errors_in unfolding kw_items_def ends_below_def
    by (fastforce intro!: ends_rules split: json.split)
  show ?thesis
  proof (cases "unknown_keywords kvs = []")
    case True
    then show ?thesis unfolding schema_check_def using any items ends_object [OF r k]
      by (auto intro!: ends_bind ends_on_kw ends_type_errors ends_Inr ends_plain ends_enum)
  qed (simp add: schema_check_def ends_def TOO_DEEP_def)
qed

lemma errors_end: "ends_below (errors E n) n"
proof (induction n)
  case (Suc n)
  show ?case unfolding ends_below_def
  proof (intro allI impI)
    fix v s path base assume s: "no_refs s" "depth s < Suc n"
    show "ends (errors E (Suc n) v s path base)"
    proof (cases s)
      case (JObj kvs)
      have "ends (schema_check E (errors E n) kvs path base v)" using s JObj by (intro ends_check [OF Suc]) auto
      then show ?thesis using s JObj by (simp add: deref_plain)
    qed (use s in \<open>simp_all add: deref_plain ends_def TOO_DEEP_def\<close>)
  qed
qed (simp add: ends_below_def)


section \<open>Samples\<close>

definition sample_env :: schema_env where
  "sample_env = \<lparr>v_load = (\<lambda>_. Inr (JObj [(''type'', JStr ''object''), (''required'', JArr [JStr ''a''])])),
     v_show = (\<lambda>_. []), v_search = (\<lambda>_ _. True), v_where = ''doc'', v_app_only = True\<rparr>"

lemma validator_decides_conformance_witness:
  "conforms sample_env 2 (JObj [(''a'', JInt 1)]) (JObj [(''type'', JStr ''object''), (''required'', JArr [JStr ''a''])]) ''s''"
proof -
  have "validate sample_env 2 ''s'' (JObj [(''a'', JInt 1)]) = Inr []"
    by (simp add: validate_def sample_env_def numeral_2_eq_2 deref_plain schema_check_def unknown_keywords_def KEYWORDS_def
        on_kw_def type_errors_def kw_types_def str_list_def has_type_def is_dict_def object_errors_def props_of_def
        kw_required_def extra_of_def name_errors_def key_errors_def Let_def)
  with validator_decides_conformance [of sample_env "''s''" _ 2 "JObj [(''a'', JInt 1)]" "[]"] show ?thesis
    by (simp add: sample_env_def)
qed


end
