(* ===== verification/Config.thy ===== *)
theory Config
  imports Schema FlakeLock Report Pyproject
begin

text \<open>
  \<^verbatim>\<open>common/config.py\<close>: the resolution of an app's configuration.  The layers (a built-in profile, the
  organisation's profile, the app's table) are validated, merged and completed with the schemas'
  defaults, and the module switches are settled.  Parameters: the profiles shipped and their version
  order, the version specifiers (packaging), the TOML parser, git's origin, the pinned profile tree.
\<close>

section \<open>Modules and keys\<close>

definition MODULES :: "string list" where
  "MODULES = [''dev-shell'', ''editorconfig'', ''metadata'', ''python-lint'', ''ssort'', ''python-types'', ''js'',
     ''typescript'', ''stylelint'', ''tests'', ''semgrep'', ''workflow-lint'', ''shell-lint'', ''nix-lint'', ''hygiene'',
     ''commits'', ''releases'', ''dependabot'', ''ci'', ''repo-policy'', ''vite-register'', ''pilot-assets'', ''listing'',
     ''readme'', ''icons'', ''screenshots'', ''demo'', ''test-utils'', ''docs-site'']"

definition NEEDS :: "(string \<times> string list) list" where
  "NEEDS = [(''releases'', [''commits'']), (''pilot-assets'', [''ci'', ''releases'']), (''listing'', [''metadata'']),
     (''readme'', [''listing'']), (''screenshots'', [''demo'']), (''docs-site'', [''dependabot''])]"

definition GITHUB_ONLY :: "string list" where
  "GITHUB_ONLY = [''ci'', ''releases'', ''dependabot'', ''repo-policy'', ''pilot-assets'', ''docs-site'']"

definition PROFILE_ONLY :: "string list" where
  "PROFILE_ONLY = [''name'', ''description'', ''extends'', ''requires-frappe-nix'', ''retire'', ''replace-apps'', ''extra-files'']"

definition APP_ONLY :: "string list" where
  "APP_ONLY = [''profile'', ''frappe-major'', ''siblings'', ''repo'', ''integration-branch'', ''retire-keep'', ''site'',
     ''nightly-suites'', ''generated'', ''build'', ''shell-checks'', ''frappe-node-modules'', ''untested'', ''coverage-omit'',
     ''unchecked-js'', ''override-doctype-class'']"

definition RESOLVED_FROM_PROFILE :: "string list" where
  "RESOLVED_FROM_PROFILE = [''retire'', ''replace-apps'', ''extra-files'']"

definition ORG_PROFILE_PREFIXES :: "string list" where
  "ORG_PROFILE_PREFIXES = [''github:'', ''gitlab:'', ''git+https://'']"

definition needs_of :: "string \<Rightarrow> string list" where
  "needs_of m = (case map_of NEEDS m of Some ns \<Rightarrow> ns | None \<Rightarrow> [])"

section \<open>The merge of two layers\<close>

type_synonym jtable = "(string \<times> json) list"

definition entry :: "jtable \<Rightarrow> string \<Rightarrow> json" where
  "entry t k = (case map_of t k of Some v \<Rightarrow> v | None \<Rightarrow> JNull)"

definition set_all :: "jtable \<Rightarrow> jtable \<Rightarrow> jtable" where
  "set_all kvs t = fold (\<lambda>(k, v). AList.update k v) kvs t"

function merge_docs :: "json \<Rightarrow> json \<Rightarrow> json" where
  "merge_docs base over =
     (case (base, over) of
        (JObj b, JObj kvs) \<Rightarrow> JObj (set_all (map (\<lambda>(k, v). (k, merge_docs (entry b k) v)) kvs) b)
      | _ \<Rightarrow> over)"
  by pat_completeness auto
termination
  by (relation "measure (\<lambda>(b, ov). size ov)") (auto dest!: json_size_obj simp del: json.size)

declare merge_docs.simps [simp del]

text \<open>The dotted keys the merge writes a label for, in its order (\<^verbatim>\<open>_record\<close> and \<^verbatim>\<open>_merge\<close>).\<close>

definition dotted :: "string \<Rightarrow> string \<Rightarrow> string" where
  "dotted pre k = (if pre \<noteq> [] then pre @ ''.'' @ k else k)"

function record_keys :: "string \<Rightarrow> json \<Rightarrow> string list" where
  "record_keys pre v =
     (case v of
        JObj kvs \<Rightarrow> concat (map (\<lambda>(k, w). if is_dict w \<and> truthy w then record_keys (dotted pre k) w else [dotted pre k]) kvs)
      | _ \<Rightarrow> [])"
  by pat_completeness auto
termination
  by (relation "measure (\<lambda>(p, v). size v)") (auto dest!: json_size_obj simp del: json.size)

declare record_keys.simps [simp del]

function merge_keys :: "string \<Rightarrow> json \<Rightarrow> json \<Rightarrow> string list" where
  "merge_keys pre base over =
     (case (base, over) of
        (JObj b, JObj kvs) \<Rightarrow> concat (map (\<lambda>(k, v). merge_keys (dotted pre k) (entry b k) v) kvs)
      | (_, JObj kvs) \<Rightarrow> record_keys pre over
      | _ \<Rightarrow> [pre])"
  by pat_completeness auto
termination
  by (relation "measure (\<lambda>(p, b, ov). size ov)") (auto dest!: json_size_obj simp del: json.size)

declare merge_keys.simps [simp del]

definition record_sources :: "string \<Rightarrow> string list \<Rightarrow> (string \<times> string) list \<Rightarrow> (string \<times> string) list" where
  "record_sources label ks sources = fold (\<lambda>k. AList.update k label) ks sources"

text \<open>\<^verbatim>\<open>_fill_defaults\<close>.\<close>

function fill_defaults :: "json \<Rightarrow> json \<Rightarrow> json" where
  "fill_defaults cfg dflt =
     (case (cfg, dflt) of
        (JObj c, JObj d) \<Rightarrow>
          JObj (set_all (map (\<lambda>(k, v). (k, case map_of c k of Some x \<Rightarrow> fill_defaults x v | None \<Rightarrow> v)) d) c)
      | _ \<Rightarrow> cfg)"
  by pat_completeness auto
termination
  by (relation "measure (\<lambda>(c, d). size d)") (auto dest!: json_size_obj simp del: json.size)

declare fill_defaults.simps [simp del]

section \<open>Module switches\<close>

text \<open>A key of a module's table.  (The schemas hold every module's value to a table.)\<close>

definition setting :: "json \<Rightarrow> string \<Rightarrow> string \<Rightarrow> json" where
  "setting doc table key =
     (case doc of JObj d \<Rightarrow> (case entry d table of JObj t \<Rightarrow> entry t key | _ \<Rightarrow> JNull) | _ \<Rightarrow> JNull)"

definition switch :: "json \<Rightarrow> string \<Rightarrow> bool" where
  "switch cfg m \<longleftrightarrow> truthy (setting cfg m ''enable'') \<and> setting cfg m ''tool'' \<noteq> JStr ''none''"

definition app_turns_off :: "json \<Rightarrow> string \<Rightarrow> bool" where
  "app_turns_off app m \<longleftrightarrow> setting app m ''enable'' = JBool False \<or> setting app m ''tool'' = JStr ''none''"

definition app_enables :: "json \<Rightarrow> string \<Rightarrow> bool" where
  "app_enables app m \<longleftrightarrow> setting app m ''enable'' = JBool True"

text \<open>The needs of a module that is on: whether it is turned off with one the host turned off.\<close>

fun check_needs :: "json \<Rightarrow> bool \<Rightarrow> (string \<Rightarrow> bool) \<Rightarrow> string set \<Rightarrow> string \<Rightarrow> string list \<Rightarrow> exn + bool" where
  "check_needs app provisional on off m [] = Inr False"
| "check_needs app provisional on off m (n # ns) =
     (if on n then check_needs app provisional on off m ns
      else if n \<in> off \<and> \<not> app_enables app m then Inr True
      else if provisional \<and> \<not> app_turns_off app n then check_needs app provisional on off m ns
      else Inl (ConfigError ''module needs module, which is off''))"

fun module_pass ::
  "json \<Rightarrow> bool \<Rightarrow> string list \<Rightarrow> (string \<Rightarrow> bool) \<Rightarrow> string set \<Rightarrow> exn + (string \<Rightarrow> bool) \<times> string set \<times> bool" where
  "module_pass app provisional [] on off = Inr (on, off, False)"
| "module_pass app provisional (m # ms) on off =
     (if \<not> on m then module_pass app provisional ms on off
      else bindE (check_needs app provisional on off m (needs_of m)) (\<lambda>turned_off.
        if turned_off
        then bindE (module_pass app provisional ms (on(m := False)) (insert m off)) (\<lambda>(o', off', _). Inr (o', off', True))
        else module_pass app provisional ms on off))"

definition count_on :: "(string \<Rightarrow> bool) \<Rightarrow> nat" where
  "count_on on = length (filter on MODULES)"

lemma module_pass_on:
  "module_pass app prov ms on off = Inr (on', off', c) \<Longrightarrow>
   (\<forall>m. on' m \<longrightarrow> on m) \<and> (c \<longrightarrow> (\<exists>m \<in> set ms. on m \<and> \<not> on' m)) \<and> off \<subseteq> off'"
proof (induction ms arbitrary: on off c)
  case (Cons m ms)
  show ?case
  proof (cases "on m")
    case False
    with Cons show ?thesis by fastforce
  next
    case True
    then obtain t where t: "check_needs app prov on off m (needs_of m) = Inr t" using Cons.prems by (auto simp: sumres)
    show ?thesis
    proof (cases t)
      case False
      with Cons t True show ?thesis by fastforce
    next
      case True': True
      with t True Cons.prems obtain c' where p: "module_pass app prov ms (on(m := False)) (insert m off) = Inr (on', off', c')"
        by (auto simp: sumres)
      from Cons.IH [OF p] True show ?thesis by (auto split: if_splits)
    qed
  qed
qed simp

function settle :: "json \<Rightarrow> bool \<Rightarrow> (string \<Rightarrow> bool) \<Rightarrow> string set \<Rightarrow> exn + (string \<Rightarrow> bool)" where
  "settle app provisional on off =
     (case module_pass app provisional MODULES on off of
        Inl e \<Rightarrow> Inl e
      | Inr (on', off', changed) \<Rightarrow> if changed then settle app provisional on' off' else Inr on')"
  by pat_completeness auto
termination
proof (relation "measure (\<lambda>(app, prov, on, off). count_on on)", simp, goal_cases)
  case (1 app prov on off r on' r' off' changed)
  then have "module_pass app prov MODULES on off = Inr (on', off', True)" by auto
  from module_pass_on [OF this] obtain m where m: "m \<in> set MODULES" "on m" "\<not> on' m" and sub: "\<forall>m. on' m \<longrightarrow> on m"
    by auto
  have "length (filter on' xs) \<le> length (filter on xs)" for xs using sub by (induction xs) auto
  moreover have "m \<in> set xs \<Longrightarrow> length (filter on' xs) < length (filter on xs)" for xs
    using calculation m(2,3) sub by (induction xs) (auto simp: less_Suc_eq_le)
  ultimately show ?case using m(1) by (simp add: count_on_def)
qed

declare settle.simps [simp del]

text \<open>\<^verbatim>\<open>_modules\<close>: the switches, the configuration with publishing turned off elsewhere, and the modules
  the host turned off.\<close>

definition switches :: "json \<Rightarrow> string \<Rightarrow> bool" where
  "switches cfg m \<longleftrightarrow> m \<in> set MODULES \<and> switch cfg m"

definition set_setting :: "json \<Rightarrow> string \<Rightarrow> string \<Rightarrow> json \<Rightarrow> json" where
  "set_setting doc table key v =
     (case doc of
        JObj d \<Rightarrow> (case entry d table of JObj t \<Rightarrow> JObj (AList.update table (JObj (AList.update key v t)) d) | _ \<Rightarrow> doc)
      | _ \<Rightarrow> doc)"

definition host_off :: "json \<Rightarrow> string list" where
  "host_off cfg = filter (switch cfg) GITHUB_ONLY"

definition modules_of :: "json \<Rightarrow> json \<Rightarrow> bool \<Rightarrow> bool \<Rightarrow> exn + (string \<Rightarrow> bool) \<times> json \<times> string list" where
  "modules_of cfg app on_github provisional =
     (if \<not> switch cfg ''dev-shell'' then Inl (ConfigError ''module dev-shell is required'')
      else if on_github then bindE (settle app provisional (switches cfg) {}) (\<lambda>on. Inr (on, cfg, []))
      else if list_ex (app_enables app) GITHUB_ONLY then Inl (ConfigError ''module is GitHub-only'')
      else if setting app ''listing'' ''publish'' = JBool True then Inl (ConfigError ''listing.publish is GitHub-only'')
      else let off = host_off cfg;
               cfg' = (if truthy (setting cfg ''listing'' ''publish'') then set_setting cfg ''listing'' ''publish'' (JBool False) else cfg)
           in bindE (settle app provisional (\<lambda>m. switches cfg m \<and> m \<notin> set GITHUB_ONLY) (set off)) (\<lambda>on.
                Inr (on, cfg', off)))"

section \<open>Profiles\<close>

datatype profile_dir = InApp "string list" | Pinned string | Given string

record config_env =
  ce_schema :: schema_env
  ce_fuel :: nat
  ce_snapshots :: "string list"
  ce_builtin :: "string \<Rightarrow> json"
  ce_toml :: "string \<Rightarrow> json option"
  ce_admits :: "string \<Rightarrow> bool option"
  ce_link :: "string list \<Rightarrow> bool"
  ce_lock :: work_file
  ce_depth :: nat
  ce_pin :: "exn + string"
  ce_profile :: "profile_dir \<Rightarrow> bool \<times> work_file"
  ce_origin :: "(string \<times> string) option"

text \<open>\<open>ce_snapshots\<close> are the shipped \<^verbatim>\<open>recommended@<minor>\<close> stems, oldest first.\<close>

definition builtin_names :: "config_env \<Rightarrow> string list" where
  "builtin_names e = ''minimal'' # ce_snapshots e"

definition builtin_name :: "config_env \<Rightarrow> string \<Rightarrow> exn + string" where
  "builtin_name e name =
     (if name = ''recommended'' then
        (if ce_snapshots e = [] then Inl (ConfigError ''frappe-nix ships no recommended snapshot'') else Inr (last (ce_snapshots e)))
      else if name \<in> set (builtin_names e) then Inr name
      else Inl (ConfigError ''no built-in profile''))"

definition builtin_profile :: "config_env \<Rightarrow> string \<Rightarrow> exn + string \<times> json" where
  "builtin_profile e name = bindE (builtin_name e name) (\<lambda>stem. Inr (stem, ce_builtin e stem))"

definition is_builtin :: "string \<Rightarrow> bool" where
  "is_builtin profile \<longleftrightarrow> profile = ''minimal'' \<or> profile = ''recommended'' \<or> startswith profile ''recommended@''"

definition PROFILE_SCHEMA :: string where "PROFILE_SCHEMA = ''profile.schema.json''"
definition APP_SCHEMA :: string where "APP_SCHEMA = ''tool-frappe-nix.schema.json''"

definition table_of :: "json \<Rightarrow> exn + jtable" where
  "table_of v = (case v of JObj t \<Rightarrow> Inr t | _ \<Rightarrow> Inl AttributeError)"

definition without :: "string list \<Rightarrow> jtable \<Rightarrow> jtable" where
  "without ks t = filter (\<lambda>(k, v). k \<notin> set ks) t"

definition invalid_when :: "string list \<Rightarrow> string \<Rightarrow> exn + unit" where
  "invalid_when errs what = (if errs \<noteq> [] then Inl (ConfigError what) else Inr ())"

definition validate_profile :: "config_env \<Rightarrow> json \<Rightarrow> string \<Rightarrow> bool \<Rightarrow> exn + unit" where
  "validate_profile e doc label org =
     bindE (table_of doc) (\<lambda>t.
       let own = map (\<lambda>k. label @ ''.'' @ k @ '': an app-only key'') (filter (\<lambda>k. k \<in> set APP_ONLY) (map fst t)) @
           (if org \<and> map_of t ''extends'' = None then [label @ '': extends is required in an org profile''] else []) @
           (if \<not> org \<and> map_of t ''extends'' \<noteq> None then [label @ '': a built-in profile has no extends''] else [])
       in bindE (validate (ce_schema e\<lparr>v_where := label, v_app_only := False\<rparr>) (ce_fuel e) PROFILE_SCHEMA (JObj (without APP_ONLY t)))
            (\<lambda>errs. invalid_when (own @ errs) ''invalid profile''))"

definition validate_app :: "config_env \<Rightarrow> json \<Rightarrow> exn + unit" where
  "validate_app e app =
     bindE (table_of app) (\<lambda>t.
       let own = map (\<lambda>k. ''[tool.frappe-nix].'' @ k @ '': a profile-only key'') (filter (\<lambda>k. k \<in> set PROFILE_ONLY) (map fst t))
       in bindE (validate (ce_schema e\<lparr>v_where := ''[tool.frappe-nix]'', v_app_only := True\<rparr>) (ce_fuel e) APP_SCHEMA
              (JObj (without PROFILE_ONLY t)))
            (\<lambda>errs. invalid_when (own @ errs) ''invalid configuration''))"

definition read_profile_dir :: "config_env \<Rightarrow> profile_dir \<Rightarrow> exn + json" where
  "read_profile_dir e dir =
     (case ce_profile e dir of
        (True, _) \<Rightarrow> Inl (ConfigError ''profile.toml is a symlink'')
      | (False, Missing) \<Rightarrow> Inl (ConfigError ''does not exist'')
      | (False, Unreadable) \<Rightarrow> Inl (EnvError ''is unreadable'')
      | (False, Text s) \<Rightarrow> (case ce_toml e s of None \<Rightarrow> Inl (ConfigError ''malformed'') | Some d \<Rightarrow> Inr d))"

fun first_link :: "(string list \<Rightarrow> bool) \<Rightarrow> string list \<Rightarrow> string list \<Rightarrow> bool" where
  "first_link is_link cur [] = False"
| "first_link is_link cur (part # parts) = (is_link (cur @ [part]) \<or> first_link is_link (cur @ [part]) parts)"

definition load_lock :: "work_file \<Rightarrow> exn + json" where
  "load_lock f =
     (case f of Missing \<Rightarrow> Inl (EnvError ''does not exist'') | Unreadable \<Rightarrow> Inl (EnvError ''is unreadable'') | Text s \<Rightarrow> parse_lock s)"

definition org_profile_dir :: "config_env \<Rightarrow> string \<Rightarrow> exn + profile_dir \<times> string" where
  "org_profile_dir e profile =
     (if startswith profile ''./'' then
        (let parts = posix_parts profile in
         if ''..'' \<in> set parts \<or> startswith profile ''/'' then Inl (ConfigError ''an in-repo profile must stay inside the app'')
         else if first_link (ce_link e) [] parts then Inl (ConfigError ''is a symlink'')
         else Inr (InApp parts, []))
      else if \<not> list_ex (startswith profile) ORG_PROFILE_PREFIXES then Inl (ConfigError ''not a built-in, a URL or ./<dir>'')
      else bindE (load_lock (ce_lock e)) (\<lambda>lock.
           bindE (lock_input_node (ce_depth e) lock PROFILE_INPUT) (\<lambda>found.
             if found = None then Inl (ConfigError ''is not locked'')
             else bindE (ce_pin e) (\<lambda>dir.
                  bindE (locked_rev (ce_depth e) lock PROFILE_INPUT) (\<lambda>rev.
                    Inr (Pinned dir, case rev of Some r \<Rightarrow> r | None \<Rightarrow> []))))))"

definition check_requires :: "config_env \<Rightarrow> json \<Rightarrow> exn + unit" where
  "check_requires e spec =
     (if \<not> truthy spec then Inr ()
      else case spec of
        JStr s \<Rightarrow> (case ce_admits e s of
            None \<Rightarrow> Inl (ConfigError ''requires-frappe-nix is not a version specifier'')
          | Some ok \<Rightarrow> if ok then Inr () else Inl (EnvError ''requires another frappe-nix''))
      | _ \<Rightarrow> Inl TypeError)"

section \<open>The repository\<close>

definition repo_default :: "config_env \<Rightarrow> bool \<Rightarrow> json \<Rightarrow> string option \<Rightarrow> string option \<times> string option" where
  "repo_default e has_root cfg app =
     (case (if has_root then ce_origin e else None) of
        Some (host, path) \<Rightarrow> (Some path, Some host)
      | None \<Rightarrow>
          (case (setting cfg ''org'' ''github-owner'', app) of
             (JStr owner, Some a) \<Rightarrow> if owner \<noteq> [] \<and> a \<noteq> [] then (Some (owner @ ''/'' @ a), Some ''github.com'') else (None, None)
           | _ \<Rightarrow> (None, None)))"

definition repo_of :: "config_env \<Rightarrow> bool \<Rightarrow> json \<Rightarrow> string option \<Rightarrow> exn + string option \<times> string option" where
  "repo_of e has_root cfg app =
     (case setting (JObj [(''cfg'', cfg)]) ''cfg'' ''repo'' of
        JStr explicit \<Rightarrow>
          if explicit = [] then Inr (repo_default e has_root cfg app) else
          (let parts = split_on (CHR ''/'') explicit;
               host = (if 2 < length parts \<and> CHR ''.'' \<in> set (hd parts) then lower (hd parts) else ''github.com'')
           in Inr (Some (if host = ''github.com'' then explicit else join ''/'' (tl parts)), Some host))
      | v \<Rightarrow> if truthy v then Inl AttributeError else Inr (repo_default e has_root cfg app))"

section \<open>Resolving a document\<close>

record resolved =
  r_cfg :: json
  r_modules :: "string \<Rightarrow> bool"
  r_profile :: "string \<times> string \<times> string"
  r_sources :: "(string \<times> string) list"
  r_host :: "string option"
  r_host_off :: "string list"

text \<open>What the caller gives beside the document: whether there is an app's directory, a local profile
  directory, a profile document read already, the host's answer, and a provisional resolution.\<close>

record resolve_request =
  q_root :: bool
  q_profile_dir :: "profile_dir option"
  q_profile_doc :: "json option"
  q_on_github :: "bool option"
  q_provisional :: bool

definition org_document :: "config_env \<Rightarrow> resolve_request \<Rightarrow> string \<Rightarrow> exn + json \<times> string" where
  "org_document e q name =
     (case q_profile_doc q of
        Some d \<Rightarrow> Inr (d, [])
      | None \<Rightarrow>
          bindE (case q_profile_dir q of
                   Some dir \<Rightarrow> Inr (dir, [])
                 | None \<Rightarrow> if \<not> q_root q then Inl (ConfigError ''needs the directory of the app to be read'')
                          else org_profile_dir e name) (\<lambda>(dir, rev).
          bindE (read_profile_dir e dir) (\<lambda>d. Inr (d, rev))))"

definition layer_keys :: "string list" where
  "layer_keys = [''schema'', ''name'', ''description'', ''extends'', ''requires-frappe-nix'']"

definition merge_layer :: "string \<times> jtable \<Rightarrow> json \<times> (string \<times> string) list \<Rightarrow> json \<times> (string \<times> string) list" where
  "merge_layer l s =
     (let body = JObj (without layer_keys (snd l))
      in (merge_docs (fst s) body, record_sources (fst l) (merge_keys [] (fst s) body) (snd s)))"

definition merge_layers :: "(string \<times> jtable) list \<Rightarrow> json \<times> (string \<times> string) list" where
  "merge_layers layers = fold merge_layer layers (JObj [], [])"

definition put_key :: "string \<Rightarrow> json \<Rightarrow> json \<Rightarrow> json" where
  "put_key k v doc = (case doc of JObj d \<Rightarrow> JObj (AList.update k v d) | _ \<Rightarrow> doc)"

definition doc_get :: "json \<Rightarrow> string \<Rightarrow> json option" where
  "doc_get doc k = (case doc of JObj d \<Rightarrow> map_of d k | _ \<Rightarrow> None)"

text \<open>The keys set after the merge: the copyright holder, the integration branch, the site, the repository.\<close>

definition fill_holder :: "json \<Rightarrow> exn + json" where
  "fill_holder cfg =
     bindE (ditem cfg ''org'') (\<lambda>org. bindE (table_of org) (\<lambda>t.
       Inr (if truthy (entry t ''copyright-holder'') then cfg
            else put_key ''org'' (JObj (AList.update ''copyright-holder''
              (case map_of t ''publisher'' of Some p \<Rightarrow> p | None \<Rightarrow> JStr []) t)) cfg)))"

definition fill_branch :: "json \<Rightarrow> exn + json" where
  "fill_branch cfg =
     (if doc_get cfg ''integration-branch'' \<noteq> None then Inr cfg
      else bindE (ditem cfg ''releases'') (\<lambda>r. bindE (ditem r ''branching'') (\<lambda>b.
        Inr (put_key ''integration-branch'' (JStr (if b = JStr ''main+tags'' then ''main'' else ''develop'')) cfg))))"

definition fill_site :: "string option \<Rightarrow> json \<Rightarrow> json" where
  "fill_site app cfg =
     (case app of
        Some a \<Rightarrow> if doc_get cfg ''site'' = None
          then put_key ''site'' (JStr (map (\<lambda>c. if c = CHR ''_'' then CHR ''-'' else c) a @ ''.localhost'')) cfg else cfg
      | None \<Rightarrow> cfg)"

definition finish ::
  "config_env \<Rightarrow> resolve_request \<Rightarrow> json \<Rightarrow> jtable \<Rightarrow> string \<Rightarrow> json option \<Rightarrow> json \<Rightarrow>
     exn + json \<times> string option \<times> (string \<Rightarrow> bool) \<times> string list" where
  "finish e q doc app name org merged =
     bindE (ditem (JObj app) ''schema'') (\<lambda>version.
     bindE (defaults (ce_schema e) (ce_fuel e) PROFILE_SCHEMA) (\<lambda>pd.
     bindE (defaults (ce_schema e) (ce_fuel e) APP_SCHEMA) (\<lambda>ad.
     let lists = map (\<lambda>k. (k, case org of Some d \<Rightarrow> (case doc_get d k of Some v \<Rightarrow> v | None \<Rightarrow> JArr []) | None \<Rightarrow> JArr [])) RESOLVED_FROM_PROFILE;
         cfg1 = fold (\<lambda>(k, v). put_key k v) lists (put_key ''schema'' version merged);
         cfg2 = put_key ''profile'' (JStr name) (fill_defaults (fill_defaults cfg1 pd) ad)
     in bindE (fill_holder cfg2) (\<lambda>cfg3. bindE (fill_branch cfg3) (\<lambda>cfg4.
        bindE (project_name doc) (\<lambda>app_name.
        let cfg5 = fill_site app_name cfg4 in
        bindE (repo_of e (q_root q) cfg5 app_name) (\<lambda>(path, host).
        let cfg6 = (case path of Some p \<Rightarrow> if p \<noteq> [] then put_key ''repo'' (JStr p) cfg5 else cfg5 | None \<Rightarrow> cfg5);
            github = (case q_on_github q of Some b \<Rightarrow> b | None \<Rightarrow> host \<in> {None, Some ''github.com''})
        in bindE (modules_of cfg6 (JObj app) github (q_provisional q)) (\<lambda>(on, cfg, off). Inr (cfg, host, on, off)))))))))"

definition app_table :: "json \<Rightarrow> exn + jtable" where
  "app_table doc =
     bindE (tool_frappe_nix doc) (\<lambda>t. case t of None \<Rightarrow> Inl (ConfigError ''not opted in'') | Some a \<Rightarrow> table_of a)"

text \<open>The layers, lowest first, with the organisation's document when there is one.\<close>

definition layers_of ::
  "config_env \<Rightarrow> resolve_request \<Rightarrow> jtable \<Rightarrow> string \<Rightarrow> exn + (string \<times> jtable) list \<times> json option \<times> string \<times> string \<times> string" where
  "layers_of e q app name =
     (if is_builtin name then
        bindE (builtin_profile e name) (\<lambda>(stem, base). bindE (validate_profile e base stem False) (\<lambda>_. bindE (table_of base) (\<lambda>b.
          Inr ([(''builtin:'' @ stem, b), (''app'', app)], None, stem, ''builtin'', []))))
      else
        bindE (org_document e q name) (\<lambda>(org, rev).
        let label = ''org:'' @ name @ (if rev \<noteq> [] then ''@'' @ rev else []) in
        bindE (validate_profile e org (''profile '' @ name) True) (\<lambda>_. bindE (table_of org) (\<lambda>o'.
        bindE (check_requires e (entry o' ''requires-frappe-nix'')) (\<lambda>_.
        bindE (ditem org ''extends'') (\<lambda>ext. case ext of
          JStr x \<Rightarrow>
            bindE (builtin_profile e x) (\<lambda>(stem, base). bindE (ditem org ''name'') (\<lambda>n.
            bindE (validate_profile e base stem False) (\<lambda>_. bindE (table_of base) (\<lambda>b.
              Inr ([(''builtin:'' @ stem, b), (label, o'), (''app'', app)], Some org,
                   (case n of JStr s \<Rightarrow> s | _ \<Rightarrow> []), name, rev)))))
        | _ \<Rightarrow> Inl (ConfigError ''no built-in profile'')))))))"

definition resolve_doc :: "config_env \<Rightarrow> resolve_request \<Rightarrow> json \<Rightarrow> exn + resolved" where
  "resolve_doc e q doc =
     bindE (app_table doc) (\<lambda>app.
     bindE (validate_app e (JObj app)) (\<lambda>_.
     bindE (case entry app ''profile'' of JStr s \<Rightarrow> Inr s | JNull \<Rightarrow> Inr ''minimal'' | _ \<Rightarrow> Inl AttributeError) (\<lambda>name.
     bindE (layers_of e q app name) (\<lambda>(layers, org, profile).
     let (merged, sources) = merge_layers layers in
     bindE (finish e q doc app name org merged) (\<lambda>(cfg, host, on, off).
       Inr \<lparr>r_cfg = cfg, r_modules = on, r_profile = profile, r_sources = sources, r_host = host, r_host_off = off\<rparr>)))))"

definition resolve_app :: "config_env \<Rightarrow> resolve_request \<Rightarrow> work_file \<Rightarrow> exn + resolved" where
  "resolve_app e q f =
     bindE (read_pyproject f) (\<lambda>text. bindE (parse_pyproject (ce_toml e) text) (\<lambda>doc.
     bindE (check_opt_in_spelling text doc) (\<lambda>_. resolve_doc e (q\<lparr>q_root := True\<rparr>) doc)))"

text \<open>\<^verbatim>\<open>Resolved.source\<close> and \<^verbatim>\<open>Resolved.get\<close>.\<close>

definition source_of :: "resolved \<Rightarrow> string \<Rightarrow> string" where
  "source_of r key =
     (let parts = split_on (CHR ''.'') key;
          tries = map (\<lambda>n. map_of (r_sources r) (join ''.'' (take n parts))) (rev [1..<Suc (length parts)])
      in case find (\<lambda>s. s \<notin> {None, Some []}) tries of Some (Some s) \<Rightarrow> s | _ \<Rightarrow> ''default'')"

fun value_at :: "json \<Rightarrow> string list \<Rightarrow> json" where
  "value_at v [] = v"
| "value_at v (part # parts) =
     (case v of JObj d \<Rightarrow> (case map_of d part of Some w \<Rightarrow> value_at w parts | None \<Rightarrow> JNull) | _ \<Rightarrow> JNull)"

definition profile_value :: "resolved \<Rightarrow> json" where
  "profile_value r = (case r_profile r of (n, s, v) \<Rightarrow> JObj [(''name'', JStr n), (''source'', JStr s), (''rev'', JStr v)])"

definition modules_value :: "resolved \<Rightarrow> json" where
  "modules_value r = JObj (map (\<lambda>m. (m, JBool (r_modules r m))) MODULES)"

definition config_get :: "config_env \<Rightarrow> resolved \<Rightarrow> string \<Rightarrow> exn + json" where
  "config_get e r key =
     (case partition1 (CHR ''.'') key of (first, _, rest) \<Rightarrow>
        if first = ''modules'' \<or> first = ''profile'' then
          (let v = (if first = ''modules'' then modules_value r else profile_value r) in
           if rest = [] then Inr v
           else case doc_get v rest of Some w \<Rightarrow> Inr w | None \<Rightarrow> Inl (ConfigError ''no key''))
        else if first \<in> set RESOLVED_FROM_PROFILE then
          (if rest \<noteq> [] then Inl (ConfigError ''no key'')
           else Inr (case doc_get (r_cfg r) first of Some v \<Rightarrow> v | None \<Rightarrow> JArr []))
        else bindE (schema_at (ce_schema e) APP_SCHEMA key) (\<lambda>node.
          if node = None then Inl (ConfigError ''has no key'')
          else Inr (value_at (r_cfg r) (split_on (CHR ''.'') key))))"

section \<open>The modules that end up on\<close>

lemma check_needs_met: "check_needs app False on off m ns = Inr False \<Longrightarrow> \<forall>n \<in> set ns. on n"
  by (induction ns) (auto split: if_splits)

lemma check_needs_off:
  "check_needs app prov on off m ns = Inr True \<Longrightarrow> (\<exists>n \<in> set ns. \<not> on n \<and> n \<in> off) \<and> \<not> app_enables app m"
  by (induction ns) (auto split: if_splits)

text \<open>A pass that changes nothing found every need met.\<close>

lemma module_pass_met:
  "module_pass app False ms on off = Inr (on', off', False) \<Longrightarrow>
   on' = on \<and> (\<forall>m \<in> set ms. on m \<longrightarrow> (\<forall>n \<in> set (needs_of m). on n))"
proof (induction ms arbitrary: on off)
  case (Cons m ms)
  show ?case
  proof (cases "on m")
    case True
    then obtain t where t: "check_needs app False on off m (needs_of m) = Inr t" using Cons.prems by (auto simp: sumres)
    with Cons.prems True have "\<not> t" by (auto simp: sumres)
    with t Cons True check_needs_met show ?thesis by fastforce
  next
    case False
    with Cons.prems Cons.IH [of on off] show ?thesis by simp
  qed
qed simp

text \<open>Why a module may be off: the host turned it off, or it needs a module that is off.\<close>

definition off_reason :: "json \<Rightarrow> (string \<Rightarrow> bool) \<Rightarrow> string \<Rightarrow> bool" where
  "off_reason app on m \<longleftrightarrow> \<not> app_enables app m \<and> (\<exists>n \<in> set (needs_of m). \<not> on n)"

lemma module_pass_reason:
  "module_pass app prov ms on off = Inr (on', off', c) \<Longrightarrow> on m \<Longrightarrow> \<not> on' m \<Longrightarrow> off_reason app on' m"
proof (induction ms arbitrary: on off c)
  case (Cons k ms)
  show ?case
  proof (cases "on k")
    case True
    then obtain t where t: "check_needs app prov on off k (needs_of k) = Inr t" using Cons.prems by (auto simp: sumres)
    show ?thesis
    proof (cases t)
      case True': True
      with t True Cons.prems obtain c' where p: "module_pass app prov ms (on(k := False)) (insert k off) = Inr (on', off', c')"
        by (auto simp: sumres)
      show ?thesis
      proof (cases "m = k")
        case True
        from check_needs_off t True' have "(\<exists>n \<in> set (needs_of k). \<not> on n) \<and> \<not> app_enables app k" by metis
        with module_pass_on [OF p] True show ?thesis by (auto simp: off_reason_def split: if_splits)
      qed (use Cons.IH [OF p] Cons.prems in simp)
    qed (use Cons t True in auto)
  qed (use Cons in auto)
qed simp

lemma off_reason_mono: "off_reason app on m \<Longrightarrow> \<forall>n. on' n \<longrightarrow> on n \<Longrightarrow> off_reason app on' m"
  by (auto simp: off_reason_def)

lemma settle_on:
  "settle app prov on off = Inr on' \<Longrightarrow> (\<forall>m. on' m \<longrightarrow> on m) \<and> (\<forall>m. on m \<and> \<not> on' m \<longrightarrow> off_reason app on' m)"
proof (induction app prov on off rule: settle.induct)
  case (1 app prov on off)
  from 1(2) obtain o1 off1 c where p: "module_pass app prov MODULES on off = Inr (o1, off1, c)"
    by (subst (asm) settle.simps) (auto split: sum.splits)
  note o1 = module_pass_on [OF p] module_pass_reason [OF p]
  show ?case
  proof (cases c)
    case True
    with 1(2) p have s: "settle app prov o1 off1 = Inr on'" by (subst (asm) settle.simps) simp
    from 1(1) [OF p refl refl True s] o1 off_reason_mono show ?thesis by metis
  next
    case False
    with 1(2) p have "on' = o1" by (subst (asm) settle.simps) simp
    with o1 show ?thesis by auto
  qed
qed

lemma settle_met:
  "settle app False on off = Inr on' \<Longrightarrow> m \<in> set MODULES \<Longrightarrow> on' m \<Longrightarrow> \<forall>n \<in> set (needs_of m). on' n"
proof (induction app "False" on off rule: settle.induct)
  case (1 app on off)
  from 1(2) obtain o1 off1 c where p: "module_pass app False MODULES on off = Inr (o1, off1, c)"
    by (subst (asm) settle.simps) (auto split: sum.splits)
  show ?case
  proof (cases c)
    case True
    with 1(2) p have s: "settle app False o1 off1 = Inr on'" by (subst (asm) settle.simps) simp
    from 1(1) [OF p refl refl True s 1(3,4)] show ?thesis .
  next
    case False
    with 1(2) p have "on' = o1" by (subst (asm) settle.simps) simp
    moreover from p False have "module_pass app False MODULES on off = Inr (o1, off1, False)" by simp
    note module_pass_met [OF this]
    ultimately show ?thesis using 1(3,4) by blast
  qed
qed

text \<open>Without a host to turn modules off, a settled set is the set of switches.\<close>

lemma module_pass_none_off:
  "module_pass app prov ms on {} = Inr r \<Longrightarrow> r = (on, {}, False)"
proof (induction ms)
  case (Cons m ms)
  have "check_needs app prov on {} m ns = Inr t \<Longrightarrow> \<not> t" for ns t by (induction ns) (auto split: if_splits)
  with Cons show ?case by (auto simp: sumres split: if_splits)
qed simp

lemma settle_none_off:
  assumes "settle app prov on {} = Inr on'"
  shows "on' = on"
proof -
  from assms obtain r where r: "module_pass app prov MODULES on {} = Inr r"
    by (subst (asm) settle.simps) (auto split: sum.splits)
  with module_pass_none_off have "r = (on, {}, False)" by metis
  with assms r show ?thesis by (subst (asm) settle.simps) simp
qed

lemma dev_shell_needs [simp]: "needs_of ''dev-shell'' = []"
  by (simp add: needs_of_def NEEDS_def)

lemma dev_shell_module [simp]: "''dev-shell'' \<in> set MODULES" "''dev-shell'' \<notin> set GITHUB_ONLY"
  by (simp_all add: MODULES_def GITHUB_ONLY_def)

text \<open>
  C16. What \<^verbatim>\<open>_modules\<close> promises of a resolution that succeeds (not provisional): dev-shell is on; every module
  that is on is switched on by the configuration, has every module it needs on, and off GitHub is none of the
  modules that only work there.  A switched-on module is off for one of two reasons only: the host turned it off,
  or it needs a module that is off and the app did not ask for it by name; so on GitHub exactly the switches are
  on, and a module the app enables by name and the configuration switches on is on.
\<close>

theorem modules_settled:
  assumes "modules_of cfg app on_github False = Inr (on, cfg', off)"
  shows "on ''dev-shell'' \<and>
    (\<forall>m. on m \<longrightarrow> switches cfg m \<and> (\<forall>n \<in> set (needs_of m). on n) \<and> (on_github \<or> m \<notin> set GITHUB_ONLY)) \<and>
    (\<forall>m. switches cfg m \<and> \<not> on m \<longrightarrow>
       \<not> on_github \<and> (m \<in> set off \<or> off_reason app on m) \<and> \<not> app_enables app m) \<and>
    set off = (if on_github then {} else {m \<in> set GITHUB_ONLY. switches cfg m})"
proof (cases on_github)
  case True
  with assms have s: "settle app False (switches cfg) {} = Inr on" "off = []" "switch cfg ''dev-shell''"
    by (auto simp: modules_of_def sumres split: if_splits)
  with settle_none_off have e: "on = switches cfg" by metis
  have "\<forall>m. on m \<longrightarrow> (\<forall>n \<in> set (needs_of m). on n)"
    using settle_met [OF s(1)] unfolding e switches_def by blast
  moreover have "on ''dev-shell''" using s(3) e by (simp only: switches_def dev_shell_module simp_thms)
  moreover have "\<forall>m. (on m \<longrightarrow> switches cfg m) \<and> (switches cfg m \<longrightarrow> on m)" using e by blast
  moreover have "set off = {}" using s(2) by simp
  ultimately show ?thesis using True by presburger
next
  case False
  with assms have s: "settle app False (\<lambda>m. switches cfg m \<and> m \<notin> set GITHUB_ONLY) (set (host_off cfg)) = Inr on"
      "off = host_off cfg" "switch cfg ''dev-shell''" "\<forall>m \<in> set GITHUB_ONLY. \<not> app_enables app m"
    by (auto simp: modules_of_def sumres Let_def list_ex_iff split: if_splits)
  note on = settle_on [OF s(1)] settle_met [OF s(1)]
  have sub: "set GITHUB_ONLY \<subseteq> set MODULES" by (auto simp: GITHUB_ONLY_def MODULES_def)
  have off: "set off = {m \<in> set GITHUB_ONLY. switches cfg m}"
    using s(2) sub by (auto simp: host_off_def switches_def)
  have "\<not> off_reason app on ''dev-shell''" by (simp add: off_reason_def)
  with on(1) s(3) have "on ''dev-shell''" using switches_def dev_shell_module by blast
  moreover have "\<forall>m. on m \<longrightarrow> switches cfg m \<and> (\<forall>n \<in> set (needs_of m). on n) \<and> m \<notin> set GITHUB_ONLY"
    using on by (meson switches_def)
  moreover have "(m \<in> set off \<or> off_reason app on m) \<and> \<not> app_enables app m" if "switches cfg m" "\<not> on m" for m
    using on(1) off s(4) that by (auto simp: off_reason_def)
  ultimately show ?thesis using False off by simp
qed

section \<open>Whose setting wins\<close>

text \<open>The value at a path of keys, and the paths whose value the finish of a resolution sets itself.\<close>

fun found :: "json \<Rightarrow> string list \<Rightarrow> json option" where
  "found v [] = Some v"
| "found v (k # ks) = (case v of JObj d \<Rightarrow> (case map_of d k of Some w \<Rightarrow> found w ks | None \<Rightarrow> None) | _ \<Rightarrow> None)"

definition set_by_finish :: "string list \<Rightarrow> bool" where
  "set_by_finish p \<longleftrightarrow> hd p \<in> set (''schema'' # ''profile'' # ''repo'' # RESOLVED_FROM_PROFILE) \<or>
     p = [''org'', ''copyright-holder''] \<or> take 2 p = [''listing'', ''publish'']"

lemma found_Cons: "found v (k # ks) = Some x \<longleftrightarrow> (\<exists>d w. v = JObj d \<and> map_of d k = Some w \<and> found w ks = Some x)"
  by (auto split: json.splits option.splits)

lemma found_obj: "found (JObj d) (k # ks) = (case map_of d k of Some w \<Rightarrow> found w ks | None \<Rightarrow> None)"
  by simp

declare found.simps(2) [simp del] found_obj [simp]

lemma is_dict_iff: "is_dict v \<longleftrightarrow> (\<exists>d. v = JObj d)"
  by (simp add: is_dict_def split: json.splits)

lemma map_of_set_all: "map_of (set_all kvs t) = map_of t ++ map_of (rev kvs)"
  by (simp add: set_all_def map_of_fold_update)

lemma map_of_pairs: "map_of (map (\<lambda>(k, v). (k, f k v)) kvs) k = map_option (f k) (map_of kvs k)"
  by (induction kvs) auto

lemma map_fst_pairs [simp]: "map fst (map (\<lambda>(k, v). (k, f k v)) kvs) = map fst kvs"
  by (induction kvs) auto

lemma map_of_rev_pairs:
  assumes "distinct (map fst kvs)"
  shows "map_of (rev (map (\<lambda>(k, v). (k, f k v)) kvs)) k = map_option (f k) (map_of kvs k)"
proof -
  have "distinct (map fst (map (\<lambda>(k, v). (k, f k v)) kvs))" using assms by (simp only: map_fst_pairs)
  from map_of_rev_distinct [OF this] show ?thesis by (simp only: map_of_pairs)
qed

lemma pairs_value: "(k, y) \<in> set (map (\<lambda>(k, v). (k, f k v)) kvs) \<Longrightarrow> \<exists>v. y = f k v"
  by auto

lemma wf_table: "wf_json (JObj d) \<Longrightarrow> map_of d k = Some w \<Longrightarrow> distinct (map fst d) \<and> wf_json w"
  by (auto dest!: map_of_SomeD)

lemma merge_docs_obj: "merge_docs (JObj b) (JObj kvs) = JObj (set_all (map (\<lambda>(k, v). (k, merge_docs (entry b k) v)) kvs) b)"
  by (subst merge_docs.simps) simp

lemma merge_docs_flat: "\<not> is_dict base \<or> \<not> is_dict ov \<Longrightarrow> merge_docs base ov = ov"
  by (subst merge_docs.simps) (auto simp: is_dict_def split: json.splits)

text \<open>The upper layer's leaves win the merge.\<close>

lemma found_merge: "wf_json ov \<Longrightarrow> found ov p = Some v \<Longrightarrow> \<not> is_dict v \<Longrightarrow> found (merge_docs base ov) p = Some v"
proof (induction p arbitrary: base ov)
  case (Cons k ks)
  then obtain kvs w where w: "ov = JObj kvs" "map_of kvs k = Some w" "found w ks = Some v"
    unfolding found_Cons by blast
  show ?case
  proof (cases base)
    case (JObj b)
    have "map_of (rev (map (\<lambda>(k, v). (k, merge_docs (entry b k) v)) kvs)) k = Some (merge_docs (entry b k) w)"
      using wf_table [OF Cons.prems(1) [unfolded w(1)] w(2)] w(2)
      by (simp only: map_of_rev_pairs option.map)
    then show ?thesis
      using JObj w(1) Cons.IH [OF conjunct2 [OF wf_table [OF Cons.prems(1) [unfolded w(1)] w(2)]] w(3) Cons.prems(3)]
      by (simp add: merge_docs_obj map_of_set_all)
  qed (use Cons.prems in \<open>simp_all add: merge_docs_flat is_dict_def\<close>)
qed (simp add: merge_docs_flat)

text \<open>What the upper layer leaves alone stays.\<close>

lemma found_merge_kept: "wf_json ov \<Longrightarrow> is_dict ov \<Longrightarrow> found base p = Some v \<Longrightarrow> p \<noteq> [] \<Longrightarrow>
  \<forall>n \<le> length p. \<forall>x. found ov (take n p) = Some x \<longrightarrow> is_dict x \<and> n < length p \<Longrightarrow> found (merge_docs base ov) p = Some v"
proof (induction p arbitrary: base ov)
  case (Cons k ks)
  then obtain b w kvs where b: "base = JObj b" "map_of b k = Some w" "found w ks = Some v" "ov = JObj kvs"
    unfolding found_Cons is_dict_iff by blast
  have sub: "\<forall>n \<le> length ks. \<forall>x. found u (take n ks) = Some x \<longrightarrow> is_dict x \<and> n < length ks" if u: "map_of kvs k = Some u" for u
  proof (intro allI impI)
    fix n x assume n: "n \<le> length ks" "found u (take n ks) = Some x"
    then have "found ov (take (Suc n) (k # ks)) = Some x" using b u by simp
    with Cons.prems(5) n(1) show "is_dict x \<and> n < length ks" by fastforce
  qed
  show ?case
  proof (cases "map_of kvs k")
    case None
    then have "map_of (rev (map (\<lambda>(k, v). (k, merge_docs (entry b k) v)) kvs)) k = None"
      by (simp add: map_of_eq_None_iff) force
    then show ?thesis using b by (simp add: merge_docs_obj map_of_set_all map_add_def)
  next
    case (Some u)
    have wf: "distinct (map fst kvs)" "wf_json u" using Cons.prems(1) b(4) Some wf_table by blast+
    have "map_of (rev (map (\<lambda>(k, v). (k, merge_docs (entry b k) v)) kvs)) k = Some (merge_docs w u)"
      using wf(1) Some b(2) by (simp only: map_of_rev_pairs option.map entry_def option.case)
    moreover have "is_dict u \<and> ks \<noteq> []" using sub [OF Some] by (auto dest: spec [of _ 0])
    with Cons.IH [OF wf(2) _ b(3)] sub [OF Some] have "found (merge_docs w u) ks = Some v" by blast
    ultimately show ?thesis using b by (simp add: merge_docs_obj map_of_set_all)
  qed
qed simp

text \<open>A default never replaces a value.\<close>

lemma fill_flat: "\<not> is_dict c \<or> \<not> is_dict d \<Longrightarrow> fill_defaults c d = c"
  by (subst fill_defaults.simps) (auto simp: is_dict_iff split: json.splits)

lemma found_fill: "found c p = Some v \<Longrightarrow> \<not> is_dict v \<Longrightarrow> found (fill_defaults c d) p = Some v"
proof (induction p arbitrary: c d)
  case Nil
  then show ?case by (simp add: fill_flat)
next
  case (Cons k ks)
  then obtain b w where b: "c = JObj b" "map_of b k = Some w" "found w ks = Some v"
    unfolding found_Cons by blast
  show ?case
  proof (cases d)
    case (JObj ds)
    let ?new = "map (\<lambda>(k, v). (k, case map_of b k of Some x \<Rightarrow> fill_defaults x v | None \<Rightarrow> v)) ds"
    have e: "fill_defaults c d = JObj (set_all ?new b)" using b JObj by (subst fill_defaults.simps) simp
    show ?thesis
    proof (cases "map_of (rev ?new) k")
      case (Some y)
      from pairs_value [OF map_of_SomeD [OF Some, unfolded set_rev]] obtain z where
        "y = (case map_of b k of Some x \<Rightarrow> fill_defaults x z | None \<Rightarrow> z)" by blast
      then have "y = fill_defaults w z" unfolding b(2) by (simp only: option.case)
      then have "found y ks = Some v" using Cons.IH [OF b(3) Cons.prems(2)] by simp
      then show ?thesis unfolding e using Some by (simp add: map_of_set_all)
    next
      case None
      then show ?thesis unfolding e using b(2,3) by (simp add: map_of_set_all map_add_def)
    qed
  qed (use Cons.prems in \<open>simp_all add: fill_flat is_dict_def\<close>)
qed

lemma found_put: "found (put_key k v doc) (k' # ks) =
    (if is_dict doc \<and> k' = k then found v ks else found doc (k' # ks))"
  by (auto simp: put_key_def is_dict_def found.simps(2) split: json.splits)

text \<open>The finish of a resolution keeps every value but those it sets.\<close>

lemma found_put_other: "p \<noteq> [] \<Longrightarrow> hd p \<noteq> k \<Longrightarrow> found (put_key k v doc) p = found doc p"
  by (cases p) (simp_all add: found_put)

lemma found_put_new: "doc_get doc k = None \<Longrightarrow> found doc p = Some w \<Longrightarrow> p \<noteq> [] \<Longrightarrow> found (put_key k v doc) p = Some w"
  by (cases p) (auto simp: found_put doc_get_def found_Cons split: json.splits)

lemma found_fold_put:
  "p \<noteq> [] \<Longrightarrow> hd p \<notin> set (map fst kvs) \<Longrightarrow> found (fold (\<lambda>(k, v). put_key k v) kvs doc) p = found doc p"
  by (induction kvs arbitrary: doc) (auto simp: found_put_other)

lemma found_truthy: "found v p = Some x \<Longrightarrow> p \<noteq> [] \<Longrightarrow> is_dict v \<and> truthy v"
  by (cases p) (auto simp: found_Cons is_dict_def)

lemma found_put_inner:
  assumes "found (JObj d) p = Some v" "map_of d k = Some (JObj t)" "p \<noteq> [k]" "p \<noteq> []"
    "take 2 p = [k, k2] \<Longrightarrow> p \<noteq> [k, k2] \<and> (\<forall>x. map_of t k2 = Some x \<longrightarrow> is_dict x \<longrightarrow> \<not> truthy x)"
  shows "found (put_key k (JObj (AList.update k2 w t)) (JObj d)) p = Some v"
proof (cases p)
  case (Cons a ks)
  show ?thesis
  proof (cases "a = k")
    case True
    with assms Cons obtain b js where b: "ks = b # js" "found (JObj t) (b # js) = Some v"
      by (cases ks) auto
    show ?thesis
    proof (cases "b = k2")
      case True': True
      have u: "p \<noteq> [k, k2] \<and> (\<forall>x. map_of t k2 = Some x \<longrightarrow> is_dict x \<longrightarrow> \<not> truthy x)"
        using assms(5) Cons True b True' by simp
      with Cons True b True' obtain c cs where js: "js = c # cs" by (cases js) auto
      with b(2) True' obtain x where "map_of t k2 = Some x" "found x (c # cs) = Some v"
        by (auto split: option.splits)
      with u found_truthy show ?thesis by blast
    qed (use b Cons True in \<open>simp add: put_key_def\<close>)
  qed (use assms Cons in \<open>simp add: put_key_def\<close>)
qed (use assms in simp)

lemma table_of_Inr: "table_of v = Inr t \<longleftrightarrow> v = JObj t"
  by (auto simp: table_of_def split: json.splits)

lemma found_fill_holder:
  assumes "fill_holder cfg = Inr cfg'" "found cfg p = Some v" "\<not> is_dict v" "p \<noteq> []" "p \<noteq> [''org'', ''copyright-holder'']"
  shows "found cfg' p = Some v"
proof -
  from assms(1) obtain org t where o: "ditem cfg ''org'' = Inr org" "org = JObj t"
      "cfg' = (if truthy (entry t ''copyright-holder'') then cfg
            else put_key ''org'' (JObj (AList.update ''copyright-holder''
              (case map_of t ''publisher'' of Some p \<Rightarrow> p | None \<Rightarrow> JStr []) t)) cfg)"
    unfolding fill_holder_def bindE_eq_Inr_iff table_of_Inr by blast
  then obtain d where d: "cfg = JObj d" "map_of d ''org'' = Some (JObj t)"
    by (auto simp: ditem_def split: json.splits option.splits)
  have ne: "p \<noteq> [''org'']" using assms(2,3) d by (auto simp: is_dict_def)
  show ?thesis
  proof (cases "truthy (entry t ''copyright-holder'')")
    case False
    then have "\<forall>x. map_of t ''copyright-holder'' = Some x \<longrightarrow> is_dict x \<longrightarrow> \<not> truthy x"
      by (auto simp: entry_def)
    from found_put_inner [OF assms(2) [unfolded d(1)] d(2) ne assms(4)] assms(5) this
    have "found (put_key ''org'' (JObj (AList.update ''copyright-holder'' w t)) (JObj d)) p = Some v" for w
      by blast
    then show ?thesis using o(3) False d(1) by simp
  qed (use o(3) assms(2) in simp)
qed

lemma found_fill_branch: "fill_branch cfg = Inr cfg' \<Longrightarrow> found cfg p = Some v \<Longrightarrow> p \<noteq> [] \<Longrightarrow> found cfg' p = Some v"
  unfolding fill_branch_def by (auto simp: sumres found_put_new split: if_splits)

lemma found_fill_site: "found cfg p = Some v \<Longrightarrow> p \<noteq> [] \<Longrightarrow> found (fill_site app cfg) p = Some v"
  unfolding fill_site_def by (auto simp: found_put_new split: option.splits)

lemma found_set_setting:
  assumes "found cfg p = Some v" "\<not> is_dict v" "p \<noteq> []" "take 2 p \<noteq> [tb, key]"
  shows "found (set_setting cfg tb key w) p = Some v"
proof (cases "\<exists>d t. cfg = JObj d \<and> map_of d tb = Some (JObj t)")
  case True
  then obtain d t where d: "cfg = JObj d" "map_of d tb = Some (JObj t)" by blast
  have "p \<noteq> [tb]" using assms(1,2) d by (auto simp: is_dict_def)
  then have "found (put_key tb (JObj (AList.update key w t)) (JObj d)) p = Some v"
    using found_put_inner assms d by blast
  then show ?thesis using d by (simp add: set_setting_def put_key_def entry_def)
next
  case False
  then have "set_setting cfg tb key w = cfg"
    by (auto simp: set_setting_def entry_def split: json.splits option.splits)
  with assms(1) show ?thesis by simp
qed

lemma found_modules_of:
  assumes "modules_of cfg app gh prov = Inr (on, cfg', off)" "found cfg p = Some v" "\<not> is_dict v" "p \<noteq> []"
    "take 2 p \<noteq> [''listing'', ''publish'']"
  shows "found cfg' p = Some v"
proof -
  have "cfg' = cfg \<or> cfg' = set_setting cfg ''listing'' ''publish'' (JBool False)"
    using assms(1) unfolding modules_of_def Let_def by (auto simp: bindE_eq_Inr_iff split: if_splits)
  with found_set_setting [OF assms(2-5)] assms(2) show ?thesis by blast
qed

section \<open>Which layer a setting is from\<close>

definition under :: "string \<Rightarrow> string list \<Rightarrow> string" where
  "under pre p = (if p = [] then pre else dotted pre (join ''.'' p))"

lemma under_Cons: "k \<noteq> [] \<Longrightarrow> under pre (k # ks) = under (dotted pre k) ks"
  by (cases ks) (simp_all add: under_def dotted_def)

lemma record_keys_leaf:
  "found v p = Some x \<Longrightarrow> \<not> is_dict x \<Longrightarrow> p \<noteq> [] \<Longrightarrow> [] \<notin> set p \<Longrightarrow> under pre p \<in> set (record_keys pre v)"
proof (induction p arbitrary: pre v)
  case (Cons k ks)
  then obtain kvs w where w: "v = JObj kvs" "map_of kvs k = Some w" "found w ks = Some x"
    unfolding found_Cons by blast
  have k: "k \<noteq> []" "[] \<notin> set ks" using Cons.prems(4) by auto
  have "under (dotted pre k) ks \<in> set (if is_dict w \<and> truthy w then record_keys (dotted pre k) w else [dotted pre k])"
  proof (cases "ks = []")
    case True
    with w(3) Cons.prems(2) show ?thesis by (simp add: under_def)
  next
    case False
    from Cons.IH [OF w(3) Cons.prems(2) False k(2)] found_truthy [OF w(3) False] show ?thesis by simp
  qed
  with map_of_SomeD [OF w(2)] show ?case
    unfolding w(1) under_Cons [OF k(1)] record_keys.simps [of pre "JObj kvs"] by (simp only: json.case set_concat set_map) force
qed simp

lemma merge_keys_leaf:
  "found ov p = Some x \<Longrightarrow> \<not> is_dict x \<Longrightarrow> [] \<notin> set p \<Longrightarrow> under pre p \<in> set (merge_keys pre base ov)"
proof (induction p arbitrary: pre base ov)
  case Nil
  then show ?case by (subst merge_keys.simps) (auto simp: under_def is_dict_iff split: json.splits)
next
  case (Cons k ks)
  then obtain kvs w where w: "ov = JObj kvs" "map_of kvs k = Some w" "found w ks = Some x"
    unfolding found_Cons by blast
  have k: "k \<noteq> []" "[] \<notin> set ks" using Cons.prems(3) by auto
  show ?case
  proof (cases "is_dict base")
    case True
    then obtain b where b: "base = JObj b" by (auto simp: is_dict_iff)
    have "under (dotted pre k) ks \<in> set (merge_keys (dotted pre k) (entry b k) w)"
      using Cons.IH [OF w(3) Cons.prems(2) k(2)] .
    with map_of_SomeD [OF w(2)] show ?thesis
      unfolding w(1) b under_Cons [OF k(1)] merge_keys.simps [of pre "JObj b" "JObj kvs"]
      by (simp only: json.case prod.case set_concat set_map) force
  next
    case False
    then have "merge_keys pre base ov = record_keys pre ov"
      unfolding w(1) by (subst merge_keys.simps) (auto simp: is_dict_def split: json.splits)
    with record_keys_leaf [OF Cons.prems(1,2) _ Cons.prems(3)] show ?thesis by simp
  qed
qed

lemma map_of_record: "map_of (record_sources l ks s) x = (if x \<in> set ks then Some l else map_of s x)"
  unfolding record_sources_def by (induction ks arbitrary: s) auto

lemma merge_layers_last:
  assumes "wf_json (JObj t)" "found (JObj t) p = Some v" "\<not> is_dict v" "p \<noteq> []" "[] \<notin> set p" "hd p \<notin> set layer_keys"
    "merge_layers (ls @ [(l, t)]) = (doc, sources)"
  shows "found doc p = Some v \<and> map_of sources (join ''.'' p) = Some l"
proof -
  let ?body = "JObj (without layer_keys t)"
  obtain base s where b: "merge_layers ls = (base, s)" by fastforce
  have d: "doc = merge_docs base ?body" "sources = record_sources l (merge_keys [] base ?body) s"
    using assms(7) b by (simp_all add: merge_layers_def merge_layer_def Let_def)
  have map: "map_of (without ks t) k = (if k \<in> set ks then None else map_of t k)" for ks k
    unfolding without_def by (induction t) auto
  have "distinct (map fst (filter P t))" if "distinct (map fst t)" for P
    using that by (induction t) auto
  then have wf: "wf_json ?body" using assms(1) by (auto simp: without_def)
  obtain k ks where p: "p = k # ks" using assms(4) by (cases p) auto
  have f: "found ?body p = Some v" using assms(2,6) map [of layer_keys] unfolding p by simp
  have "under [] p = join ''.'' p" using assms(4) by (simp add: under_def dotted_def)
  with merge_keys_leaf [OF f assms(3,5), of "[]" base] have "join ''.'' p \<in> set (merge_keys [] base ?body)" by simp
  with found_merge [OF wf f assms(3)] d map_of_record show ?thesis by metis
qed

lemma found_finish:
  assumes "finish e q doc app name org merged = Inr (cfg, host, on, off)" "found merged p = Some v" "\<not> is_dict v"
    "p \<noteq> []" "\<not> set_by_finish p"
  shows "found cfg p = Some v"
proof -
  define lists where "lists = map (\<lambda>k. (k, case org of Some d \<Rightarrow> (case doc_get d k of Some v \<Rightarrow> v | None \<Rightarrow> JArr []) | None \<Rightarrow> JArr []))
    RESOLVED_FROM_PROFILE"
  obtain version pd ad cfg3 cfg4 app_name pth h cfg6 gh where c:
      "fill_holder (put_key ''profile'' (JStr name) (fill_defaults (fill_defaults
         (fold (\<lambda>(k, v). put_key k v) lists (put_key ''schema'' version merged)) pd) ad)) = Inr cfg3"
      "fill_branch cfg3 = Inr cfg4"
      "cfg6 = (case pth of Some p \<Rightarrow> if p \<noteq> [] then put_key ''repo'' (JStr p) (fill_site app_name cfg4) else fill_site app_name cfg4
        | None \<Rightarrow> fill_site app_name cfg4)"
      "modules_of cfg6 (JObj app) gh (q_provisional q) = Inr (on, cfg, off)"
    using assms(1) unfolding finish_def Let_def lists_def
    by (auto simp: bindE_eq_Inr_iff split: prod.splits)
  have hd: "hd p \<noteq> ''schema''" "hd p \<noteq> ''profile''" "hd p \<noteq> ''repo''" "hd p \<notin> set (map fst lists)"
    using assms(5) by (simp_all add: set_by_finish_def lists_def comp_def)
  have "found (put_key ''profile'' (JStr name) (fill_defaults (fill_defaults
         (fold (\<lambda>(k, v). put_key k v) lists (put_key ''schema'' version merged)) pd) ad)) p = Some v"
    using assms(2,3,4) hd by (simp only: found_put_other found_fold_put found_fill not_False_eq_True)
  from found_fill_holder [OF c(1) this assms(3,4)] assms(5) have "found cfg3 p = Some v" by (simp add: set_by_finish_def)
  from found_fill_branch [OF c(2) this assms(4)] have "found cfg4 p = Some v" .
  then have "found (fill_site app_name cfg4) p = Some v" using found_fill_site assms(4) by simp
  then have "found cfg6 p = Some v" unfolding c(3) using assms(4) hd by (simp add: found_put_other split: option.split)
  from found_modules_of [OF c(4) this assms(3,4)] assms(5) show ?thesis by (simp add: set_by_finish_def)
qed

lemma layers_of_app: "layers_of e q app name = Inr (layers, r) \<Longrightarrow> \<exists>ls. layers = ls @ [(''app'', app)]"
  unfolding layers_of_def Let_def
  by (auto elim!: bindE_InrE split: if_splits json.splits prod.splits)

lemma source_of_exact: "map_of (r_sources r) key = Some s \<Longrightarrow> s \<noteq> [] \<Longrightarrow> source_of r key = s"
  by (simp add: source_of_def Let_def Suc_le_eq)

text \<open>
  C15. The app's table wins.  Where a resolution succeeds and the app's table sets a value (not a table) at a path
  of keys, that value is attributed to the app layer, whatever the profiles below say; and it is the value of the
  resolved configuration, through the defaults of both schemas and the keys filled in afterwards, unless the path
  is one of those the resolution sets itself (the schema, the profile's name and its lists, the repository, an
  empty copyright holder, publishing off GitHub).
\<close>

theorem app_setting_wins:
  assumes "resolve_doc e q doc = Inr r" "app_table doc = Inr app" "wf_json (JObj app)"
    "found (JObj app) p = Some v" "\<not> is_dict v" "p \<noteq> []" "[] \<notin> set p" "hd p \<notin> set layer_keys"
  shows "source_of r (join ''.'' p) = ''app'' \<and> (\<not> set_by_finish p \<longrightarrow> found (r_cfg r) p = Some v)"
proof -
  from assms(1) obtain app' name layers org prof merged sources cfg host on off where d:
      "app_table doc = Inr app'" "layers_of e q app' name = Inr (layers, org, prof)"
      "merge_layers layers = (merged, sources)"
      "finish e q doc app' name org merged = Inr (cfg, host, on, off)"
      "r = \<lparr>r_cfg = cfg, r_modules = on, r_profile = prof, r_sources = sources, r_host = host, r_host_off = off\<rparr>"
    unfolding resolve_doc_def by (auto elim!: bindE_InrE split: prod.splits)
  have "app' = app" using d(1) assms(2) by simp
  with layers_of_app [OF d(2)] obtain ls where "layers = ls @ [(''app'', app)]" by blast
  with merge_layers_last [OF assms(3-8)] d(3)
  have m: "found merged p = Some v" "map_of sources (join ''.'' p) = Some ''app''" by blast+
  have "source_of r (join ''.'' p) = ''app''" using m(2) d(5) by (intro source_of_exact) simp_all
  moreover have "found (r_cfg r) p = Some v" if "\<not> set_by_finish p"
    using found_finish [OF d(4) m(1) assms(5,6) that] d(5) by simp
  ultimately show ?thesis by simp
qed

definition sample_cfg :: json where
  "sample_cfg = JObj [(''dev-shell'', JObj [(''enable'', JBool True)]), (''ci'', JObj [(''enable'', JBool True)])]"

lemma modules_settled_witness:
  "\<exists>on. modules_of sample_cfg (JObj []) False False = Inr (on, sample_cfg, [''ci'']) \<and> on ''dev-shell'' \<and> \<not> on ''ci''"
proof -
  have "case modules_of sample_cfg (JObj []) False False of Inr (on, c, off) \<Rightarrow> c = sample_cfg \<and> off = [''ci''] | _ \<Rightarrow> False"
    by code_simp
  then obtain on where m: "modules_of sample_cfg (JObj []) False False = Inr (on, sample_cfg, [''ci''])"
    by (auto split: sum.splits prod.splits)
  have "''ci'' \<in> set GITHUB_ONLY" by code_simp
  with modules_settled [OF m] m show ?thesis by blast
qed

definition sample_config :: config_env where
  "sample_config =
     \<lparr>ce_schema = \<lparr>v_load = \<lambda>_. Inr (JObj []), v_show = \<lambda>_. [], v_search = \<lambda>_ _. False, v_where = [], v_app_only = False\<rparr>,
      ce_fuel = 3, ce_snapshots = [],
      ce_builtin = \<lambda>_. JObj [(''dev-shell'', JObj [(''enable'', JBool True)]), (''org'', JObj [(''copyright-holder'', JStr ''x'')]),
        (''releases'', JObj [(''branching'', JStr ''develop'')]), (''js'', JObj [(''enable'', JBool True)])],
      ce_toml = \<lambda>_. None, ce_admits = \<lambda>_. None, ce_link = \<lambda>_. False, ce_lock = Missing, ce_depth = 1, ce_pin = Inl KeyError,
      ce_profile = \<lambda>_. (False, Missing), ce_origin = None\<rparr>"

definition sample_request :: resolve_request where
  "sample_request = \<lparr>q_root = False, q_profile_dir = None, q_profile_doc = None, q_on_github = None, q_provisional = False\<rparr>"

definition sample_app :: jtable where
  "sample_app = [(''schema'', JInt 1), (''js'', JObj [(''enable'', JBool False)])]"

definition sample_doc :: json where
  "sample_doc = JObj [(''project'', JObj [(''name'', JStr ''app'')]), (''tool'', JObj [(''frappe-nix'', JObj sample_app)])]"

lemma app_setting_wins_witness:
  "\<exists>r. resolve_doc sample_config sample_request sample_doc = Inr r \<and> source_of r ''js.enable'' = ''app'' \<and>
     found (r_cfg r) [''js'', ''enable''] = Some (JBool False)"
proof -
  have "case resolve_doc sample_config sample_request sample_doc of Inr _ \<Rightarrow> True | _ \<Rightarrow> False" by code_simp
  then obtain r where r: "resolve_doc sample_config sample_request sample_doc = Inr r" by (auto split: sum.splits)
  have "app_table sample_doc = Inr sample_app" "wf_json (JObj sample_app)"
      "found (JObj sample_app) [''js'', ''enable''] = Some (JBool False)" "hd [''js'', ''enable''] \<notin> set layer_keys"
      "\<not> set_by_finish [''js'', ''enable'']" "join ''.'' [''js'', ''enable''] = ''js.enable''"
    by code_simp+
  with app_setting_wins [OF r, of sample_app "[''js'', ''enable'']" "JBool False"] r show ?thesis
    by (simp add: is_dict_def)
qed

end
