(* ===== verification/Floors.thy ===== *)
theory Floors
  imports PyRegex PyJson Pyproject "HOL-Library.List_Lexorder" "HOL-Library.Char_ord"
begin

text \<open>
  \<^verbatim>\<open>scaffold/floors.py\<close>: the versions dependabot moves and sync never lowers.  \<open>ver\<close> is packaging's
  \<^verbatim>\<open>Version\<close> (with its order), a parameter, as is the TOML parser of a lock.  The groups of the
  regular expressions are cut out by hand: each has one way to match.
\<close>

section \<open>Searching\<close>

text \<open>The leftmost place a pattern matches at; and of those at the start of a line (\<^verbatim>\<open>re.M\<close>).\<close>

fun first_match :: "(string \<Rightarrow> 'a option) \<Rightarrow> string \<Rightarrow> 'a option" where
  "first_match f [] = f []"
| "first_match f (c # s) = (case f (c # s) of Some x \<Rightarrow> Some x | None \<Rightarrow> first_match f s)"

fun line_match :: "bool \<Rightarrow> (string \<Rightarrow> 'a option) \<Rightarrow> string \<Rightarrow> 'a option" where
  "line_match at_start f [] = (if at_start then f [] else None)"
| "line_match at_start f (c # s) =
     (case (if at_start then f (c # s) else None) of
        Some x \<Rightarrow> Some x
      | None \<Rightarrow> line_match (c = newline) f s)"

text \<open>What follows a fixed text.\<close>

definition after :: "string \<Rightarrow> string \<Rightarrow> string option" where
  "after p s = (if startswith s p then Some (drop (length p) s) else None)"

section \<open>Versions\<close>

definition version :: "(string \<Rightarrow> 'v::linorder option) \<Rightarrow> string \<Rightarrow> 'v option" where
  "version ver text = ver (removeprefix (strip text) ''v'')"

definition meets :: "'v::linorder option \<Rightarrow> 'v option \<Rightarrow> bool" where
  "meets have want = (case (have, want) of (Some h, Some w) \<Rightarrow> w \<le> h | _ \<Rightarrow> False)"

definition at_least :: "(string \<Rightarrow> 'v::linorder option) \<Rightarrow> string \<Rightarrow> string \<Rightarrow> bool" where
  "at_least ver text flr = meets (version ver text) (version ver flr)"

text \<open>The \<^verbatim>\<open>rev:\<close> of the hook of a repository.\<close>

definition rev_char :: "char \<Rightarrow> bool" where
  "rev_char c \<longleftrightarrow> \<not> is_ws c \<and> c \<notin> {CHR 0x27, CHR 0x22, CHR ''#''}"

definition unquote :: "string \<Rightarrow> string" where
  "unquote s = (case s of c # t \<Rightarrow> if c = CHR 0x27 \<or> c = CHR 0x22 then t else s | [] \<Rightarrow> [])"

definition hook_rev :: "string \<Rightarrow> string \<Rightarrow> string option" where
  "hook_rev url s =
     Option.bind (after ''-'' (lstrip s)) (\<lambda>s1.
     Option.bind (after ''repo:'' (lstrip s1)) (\<lambda>s2.
     Option.bind (after url (lstrip s2)) (\<lambda>s3.
       if newline \<notin> set (takeWhile is_ws s3) then None
       else Option.bind (after ''rev:'' (lstrip s3)) (\<lambda>s4.
         let v = takeWhile rev_char (unquote (lstrip s4)) in if v = [] then None else Some v))))"

definition rev_of :: "(string \<Rightarrow> 'v::linorder option) \<Rightarrow> string option \<Rightarrow> string \<Rightarrow> string \<Rightarrow> string" where
  "rev_of ver current url flr =
     (case current of
        Some c \<Rightarrow>
          if c = [] then flr
          else (case line_match True (hook_rev url) c of
                  Some m \<Rightarrow> if at_least ver m flr then m else flr
                | None \<Rightarrow> flr)
      | None \<Rightarrow> flr)"

text \<open>The pin of an action: its commit, and the version in the comment after it.\<close>

definition is_hex :: "char \<Rightarrow> bool" where
  "is_hex c \<longleftrightarrow> is_digit c \<or> c \<in> set ''abcdef''"

definition is_blank :: "char \<Rightarrow> bool" where "is_blank c \<longleftrightarrow> c = CHR '' '' \<or> c = tab"

definition pin_comment :: "string \<Rightarrow> string" where
  "pin_comment s =
     (if takeWhile is_blank s = [] then []
      else case after ''#'' (dropWhile is_blank s) of
             Some t \<Rightarrow> takeWhile (\<lambda>c. \<not> is_ws c) (dropWhile is_blank t)
           | None \<Rightarrow> [])"

definition action_pin :: "string \<Rightarrow> string \<Rightarrow> (string \<times> string) option" where
  "action_pin action s =
     Option.bind (after (action @ ''@'') s) (\<lambda>t.
       let sha = take 40 t in
       if length sha = 40 \<and> list_all is_hex sha then Some (sha, pin_comment (drop 40 t)) else None)"

definition floor_pin :: "string option \<Rightarrow> string \<Rightarrow> string \<Rightarrow> string \<Rightarrow> string" where
  "floor_pin current action sha ver =
     (let new = action @ ''@'' @ sha @ '' # '' @ ver in
      case current of
        Some c \<Rightarrow>
          if c = [] then new
          else (case first_match (action_pin action) c of
                  Some (s, v) \<Rightarrow> action @ ''@'' @ s @ (if v \<noteq> [] then '' # '' @ v else [])
                | None \<Rightarrow> new)
      | None \<Rightarrow> new)"

section \<open>npm ranges\<close>

definition digits :: rx where "digits = plus (Cls is_digit)"

definition VERSION :: rx where
  "VERSION =
     Seq digits (Seq (opt (Seq (lit ''.'') digits)) (Seq (opt (Seq (lit ''.'') digits))
       (opt (Seq (Cls (\<lambda>c. c = CHR ''-'' \<or> c = CHR ''+''))
              (plus (Cls (\<lambda>c. is_alnum c \<or> c = CHR ''.'' \<or> c = CHR ''-'')))))))"

text \<open>\<^verbatim>\<open>_RANGE\<close>: the operator and the version.\<close>

definition range_op :: "string \<Rightarrow> string \<times> string" where
  "range_op s =
     (case find (startswith s) [''^'', ''~'', ''>='', ''=''] of
        Some op \<Rightarrow> (op, drop (length op) s)
      | None \<Rightarrow> ([], s))"

definition npm_range :: "string \<Rightarrow> (string \<times> string) option" where
  "npm_range spec =
     (let (op, rest) = range_op (lstrip spec);
          v = rstrip (removeprefix (lstrip rest) ''v'')
      in if fullmatch VERSION v then Some (op, v) else None)"

definition range_minimum :: "(string \<Rightarrow> 'v::linorder option) \<Rightarrow> string \<Rightarrow> 'v option" where
  "range_minimum ver spec = (case npm_range spec of Some (_, v) \<Rightarrow> version ver v | None \<Rightarrow> None)"

text \<open>\<^verbatim>\<open>_ALIAS\<close>: the package and the range of an npm alias.\<close>

definition pkg_char :: "char \<Rightarrow> bool" where
  "pkg_char c \<longleftrightarrow> \<not> is_ws c \<and> c \<noteq> CHR ''/'' \<and> c \<noteq> CHR ''@''"

definition pkg_name :: "string \<Rightarrow> (string \<times> string) option" where
  "pkg_name s =
     (let n = takeWhile pkg_char s in if n = [] then None else Some (n, dropWhile pkg_char s))"

definition alias_pkg :: "string \<Rightarrow> (string \<times> string) option" where
  "alias_pkg s =
     (case after ''@'' s of
        None \<Rightarrow> pkg_name s
      | Some t \<Rightarrow>
          Option.bind (pkg_name t) (\<lambda>(scope, u).
          Option.bind (after ''/'' u) (\<lambda>w.
          Option.bind (pkg_name w) (\<lambda>(n, x). Some (''@'' @ scope @ ''/'' @ n, x)))))"

definition npm_alias :: "string \<Rightarrow> (string \<times> string) option" where
  "npm_alias s =
     Option.bind (after ''npm:'' s) (\<lambda>t.
     Option.bind (alias_pkg t) (\<lambda>(pkg, u).
     Option.bind (after ''@'' u) (\<lambda>r.
       let rest = (if r \<noteq> [] \<and> last r = newline then butlast r else r) in
       if rest = [] \<or> newline \<in> set rest then None else Some (pkg, rest))))"

definition caret :: "string \<Rightarrow> string" where
  "caret flr =
     (case npm_alias flr of
        Some (pkg, rest) \<Rightarrow> ''npm:'' @ pkg @ ''@^'' @ rest
      | None \<Rightarrow> ''^'' @ flr)"

lemma pkg_name_some: "pkg_name s = Some (n, u) \<Longrightarrow> s = n @ u \<and> n \<noteq> [] \<and> list_all pkg_char n"
  by (auto simp: pkg_name_def Let_def list_all_iff dest: set_takeWhileD split: if_splits)

lemma after_some: "after p s = Some t \<longleftrightarrow> s = p @ t"
  by (auto simp: after_def startswith_iff)

lemma after_char [simp]: "after [c] (d # s) = (if d = c then Some s else None)"
  by (auto simp: after_def startswith_iff)

lemma alias_pkg_some: "alias_pkg s = Some (p, u) \<Longrightarrow> s = p @ u \<and> p \<noteq> []"
  by (auto simp: alias_pkg_def after_some Option.bind_eq_Some_conv dest!: pkg_name_some split: option.splits)

lemma npm_alias_some:
  "npm_alias s = Some (p, rest) \<Longrightarrow> (s = ''npm:'' @ p @ ''@'' @ rest \<or> s = ''npm:'' @ p @ ''@'' @ rest @ [newline]) \<and>
     rest \<noteq> [] \<and> newline \<notin> set rest"
  by (auto simp: npm_alias_def after_some Option.bind_eq_Some_conv Let_def dest!: alias_pkg_some split: if_splits)
    (metis append_butlast_last_id)+

function range_ok :: "(string \<Rightarrow> 'v::linorder option) \<Rightarrow> string \<Rightarrow> string \<Rightarrow> bool" where
  "range_ok ver spec flr =
     (case npm_alias flr of
        Some (pkg, rest) \<Rightarrow>
          (case npm_alias spec of
             Some (p, r) \<Rightarrow> p = pkg \<and> range_ok ver r rest
           | None \<Rightarrow> False)
      | None \<Rightarrow>
          (case npm_range spec of
             None \<Rightarrow> False
           | Some (op, v) \<Rightarrow> op \<in> {[], ''^'', ''=''} \<and> meets (version ver v) (version ver flr)))"
  by pat_completeness auto
termination
  by (relation "measure (\<lambda>(ver, spec, flr). length flr)") (auto dest!: npm_alias_some)

declare range_ok.simps [simp del]

section \<open>A lock\<close>

definition lock_entry :: "json \<Rightarrow> (string \<times> json) list" where
  "lock_entry p =
     (case p of
        JObj d \<Rightarrow> (case map_of d ''name'' of
            Some (JStr n) \<Rightarrow> [(n, case map_of d ''version'' of Some v \<Rightarrow> v | None \<Rightarrow> JStr [])]
          | _ \<Rightarrow> [])
      | _ \<Rightarrow> [])"

definition lock_versions :: "(string \<Rightarrow> json option) \<Rightarrow> work_file \<Rightarrow> exn + (string \<times> json) list" where
  "lock_versions toml f =
     (case f of
        Missing \<Rightarrow> Inr []
      | Unreadable \<Rightarrow> Inl (ConfigError ''uv.lock'')
      | Text s \<Rightarrow>
          (case toml s of
             None \<Rightarrow> Inl (ConfigError ''uv.lock'')
           | Some doc \<Rightarrow>
               bindE (dget doc ''package'' (JArr [])) (\<lambda>ps. bindE (iter ps) (\<lambda>xs.
                 Inr (dict_of (concat (map lock_entry xs)))))))"

definition lock_shortfalls ::
  "(string \<Rightarrow> 'v::linorder option) \<Rightarrow> (string \<Rightarrow> json option) \<Rightarrow> work_file \<Rightarrow> (string \<times> string) list \<Rightarrow> exn + string list" where
  "lock_shortfalls ver toml f floors =
     bindE (lock_versions toml f) (\<lambda>locked.
     bindE (mapE (\<lambda>(pkg, flr).
         case (case map_of locked pkg of Some v \<Rightarrow> v | None \<Rightarrow> JStr []) of
           JStr v \<Rightarrow> Inr (if at_least ver v flr then [] else [pkg])
         | _ \<Rightarrow> Inl AttributeError) floors) (\<lambda>xs. Inr (sort (concat xs))))"

section \<open>The range sync writes meets its floor\<close>

fun rx_all :: "(char \<Rightarrow> bool) \<Rightarrow> rx \<Rightarrow> bool" where
  "rx_all Q (Cls P) \<longleftrightarrow> (\<forall>c. P c \<longrightarrow> Q c)"
| "rx_all Q (Seq r s) \<longleftrightarrow> rx_all Q r \<and> rx_all Q s"
| "rx_all Q (Alt r s) \<longleftrightarrow> rx_all Q r \<and> rx_all Q s"
| "rx_all Q (Star r) \<longleftrightarrow> rx_all Q r"
| "rx_all Q _ \<longleftrightarrow> True"

lemma rx_all_lang: "s \<in> rx_lang r \<Longrightarrow> rx_all Q r \<Longrightarrow> c \<in> set s \<Longrightarrow> Q c"
proof (induction r arbitrary: s)
  case (Star r)
  from Star.prems(1) have "s \<in> star_lang (rx_lang r)" by simp
  then show ?case using Star.prems(3)
  proof (induction rule: star_lang.induct)
    case (star_app u v)
    then show ?case using Star.IH [of u] Star.prems(2) by auto
  qed simp
qed auto

lemma version_chars:
  assumes "fullmatch VERSION r"
  shows "(\<forall>c \<in> set r. \<not> is_ws c \<and> c \<noteq> CHR ''@'') \<and> r \<noteq> [] \<and> is_digit (hd r)"
proof -
  have nws: "\<not> is_ws c \<and> c \<noteq> CHR ''@''" if "is_digit c \<or> is_alnum c \<or> c = CHR ''.'' \<or> c = CHR ''-'' \<or> c = CHR ''+''" for c
    using that by (auto simp: is_ws_def is_digit_def is_alnum_def is_lower_def is_upper_def)
  have "rx_all (\<lambda>c. \<not> is_ws c \<and> c \<noteq> CHR ''@'') VERSION"
    using nws by (simp add: VERSION_def digits_def plus_def opt_def)
  moreover have "r \<in> rx_lang VERSION" using assms by (simp add: fullmatch_iff)
  ultimately have "\<forall>c \<in> set r. \<not> is_ws c \<and> c \<noteq> CHR ''@''" using rx_all_lang [of r VERSION "\<lambda>c. \<not> is_ws c \<and> c \<noteq> CHR ''@''"] by blast
  moreover have "\<exists>u v. r = u @ v \<and> u \<in> rx_lang digits"
    using \<open>r \<in> rx_lang VERSION\<close> unfolding VERSION_def rx_lang.simps(4) by blast
  then have "r \<noteq> [] \<and> is_digit (hd r)" by (auto simp: digits_def plus_cls)
  ultimately show ?thesis by simp
qed

lemma strip_none: "\<forall>c \<in> set s. \<not> P c \<Longrightarrow> lstrip_by P s = s \<and> rstrip_by P s = s"
proof -
  have d: "\<forall>c \<in> set l. \<not> P c \<Longrightarrow> dropWhile P l = l" for l by (cases l) auto
  assume "\<forall>c \<in> set s. \<not> P c"
  then show ?thesis using d [of s] d [of "rev s"] by (simp add: lstrip_by_def rstrip_by_def)
qed

definition plain_floor :: "(string \<Rightarrow> 'v::linorder option) \<Rightarrow> string \<Rightarrow> bool" where
  "plain_floor ver r \<longleftrightarrow> fullmatch VERSION r \<and> version ver r \<noteq> None"

definition is_floor :: "(string \<Rightarrow> 'v::linorder option) \<Rightarrow> string \<Rightarrow> bool" where
  "is_floor ver flr \<longleftrightarrow> (case npm_alias flr of Some (_, r) \<Rightarrow> plain_floor ver r | None \<Rightarrow> plain_floor ver flr)"

lemma not_digits [simp]: "\<not> is_digit (CHR ''n'')" "\<not> is_digit (CHR ''v'')"
  by (simp_all add: is_digit_def)

lemma plain_not_alias: "fullmatch VERSION r \<Longrightarrow> npm_alias r = None \<and> npm_alias (CHR ''^'' # r) = None"
proof -
  assume "fullmatch VERSION r"
  then have "is_digit (hd r)" using version_chars by blast
  then have "after ''npm:'' r = None" by (auto simp: after_def startswith_iff)
  moreover have "after ''npm:'' (CHR ''^'' # r) = None" by (auto simp: after_def startswith_iff)
  ultimately show ?thesis by (simp add: npm_alias_def)
qed

lemma caret_range: "fullmatch VERSION r \<Longrightarrow> npm_range (CHR ''^'' # r) = Some (''^'', r)"
proof -
  assume v: "fullmatch VERSION r"
  note c = version_chars [OF v]
  have "lstrip (CHR ''^'' # r) = CHR ''^'' # r" by (simp add: lstrip_by_def is_ws_def)
  moreover have "lstrip r = r" "rstrip r = r" using strip_none [of r is_ws] c by blast+
  moreover have "removeprefix r ''v'' = r"
  proof -
    have "is_digit (hd r)" using c by blast
    then have "\<not> startswith r ''v''" by (auto simp: startswith_iff)
    then show ?thesis by (simp add: removeprefix_def)
  qed
  ultimately show ?thesis using v by (simp add: npm_range_def range_op_def startswith_def)
qed

lemma plain_caret_meets: "plain_floor ver r \<Longrightarrow> range_ok ver (CHR ''^'' # r) r"
  by (subst range_ok.simps) (auto simp: plain_floor_def plain_not_alias caret_range meets_def split: option.splits)

lemma pkg_name_again:
  "pkg_name (n @ u) = Some (n, u) \<Longrightarrow> u \<noteq> [] \<Longrightarrow> w \<noteq> [] \<Longrightarrow> hd w = hd u \<Longrightarrow> pkg_name (n @ w) = Some (n, w)"
proof -
  assume a: "pkg_name (n @ u) = Some (n, u)" "u \<noteq> []" "w \<noteq> []" "hd w = hd u"
  then have n: "takeWhile pkg_char (n @ u) = n" "dropWhile pkg_char (n @ u) = u" "n \<noteq> []"
    by (auto simp: pkg_name_def Let_def split: if_splits)
  have "\<not> pkg_char (hd u)" using n(2) a(2) hd_dropWhile by metis
  moreover have "\<forall>c \<in> set n. pkg_char c" using n(1) set_takeWhileD by metis
  ultimately have "takeWhile pkg_char (n @ w) = n" "dropWhile pkg_char (n @ w) = w"
    using a(3,4) by (cases w; simp add: takeWhile_append dropWhile_append; auto)+
  then show ?thesis using n(3) by (simp add: pkg_name_def Let_def)
qed

lemma alias_pkg_again:
  assumes "alias_pkg t = Some (p, u)" "u \<noteq> []" "w \<noteq> []" "hd w = hd u"
  shows "alias_pkg (p @ w) = Some (p, w)"
proof (cases "after ''@'' t")
  case None
  then have n: "pkg_name t = Some (p, u)" using assms(1) by (simp add: alias_pkg_def)
  note s = pkg_name_some [OF n]
  have "pkg_char (hd p)" using s by (cases p) auto
  then have "after ''@'' (p @ w) = None" using s by (cases p) (auto simp: after_def startswith_iff pkg_char_def)
  then show ?thesis using pkg_name_again [of p u w] n s assms by (simp add: alias_pkg_def)
next
  case (Some t')
  obtain scope v x n where a: "pkg_name t' = Some (scope, v)" "v = CHR ''/'' # x" "pkg_name x = Some (n, u)"
      "p = ''@'' @ scope @ ''/'' @ n"
    using assms(1) unfolding alias_pkg_def Some option.case by (auto simp: Option.bind_eq_Some_conv after_some)
  note s = pkg_name_some [OF a(1)] pkg_name_some [OF a(3)]
  have 1: "pkg_name (scope @ CHR ''/'' # n @ w) = Some (scope, CHR ''/'' # n @ w)"
    using pkg_name_again [of scope v "CHR ''/'' # n @ w"] a(1,2) s by simp
  have 2: "pkg_name (n @ w) = Some (n, w)" using pkg_name_again [of n u w] a(3) s assms by simp
  have "after ''@'' (p @ w) = Some (scope @ CHR ''/'' # n @ w)" by (simp add: a(4) after_some)
  then show ?thesis unfolding alias_pkg_def by (simp add: 1 2) (simp add: a(4))
qed

lemma caret_meets: "is_floor ver flr \<Longrightarrow> range_ok ver (caret flr) flr"
proof (cases "npm_alias flr")
  case None
  then show ?thesis if "is_floor ver flr"
    using that plain_caret_meets by (simp add: is_floor_def caret_def)
next
  case (Some pr)
  then obtain p r where a: "npm_alias flr = Some (p, r)" by fastforce
  assume "is_floor ver flr"
  with a have v: "plain_floor ver r" by (simp add: is_floor_def)
  obtain t u where t: "alias_pkg t = Some (p, CHR ''@'' # u)"
    using a by (auto simp: npm_alias_def after_some Option.bind_eq_Some_conv Let_def split: if_splits)
  note c = version_chars [OF v [unfolded plain_floor_def, THEN conjunct1]]
  have nl: "newline \<notin> set r" using c is_ws_newline by blast
  have "alias_pkg (p @ CHR ''@'' # CHR ''^'' # r) = Some (p, CHR ''@'' # CHR ''^'' # r)"
    using alias_pkg_again [OF t] by simp
  moreover have "r \<noteq> []" using c by blast
  with nl have "last (CHR ''^'' # r) \<noteq> newline" using last_in_set [of r] by (metis last_ConsR)
  moreover have "caret flr = ''npm:'' @ p @ CHR ''@'' # CHR ''^'' # r" by (simp add: caret_def a)
  then have "after ''npm:'' (caret flr) = Some (p @ CHR ''@'' # CHR ''^'' # r)" by (simp only: after_some)
  ultimately have "npm_alias (caret flr) = Some (p, CHR ''^'' # r)"
    using nl unfolding npm_alias_def by (simp add: Let_def)
  then show ?thesis using plain_caret_meets [OF v] a by (subst range_ok.simps) simp
qed

end
