(* ===== verification/PackageJson.thy ===== *)
theory PackageJson
  imports Floors Config
begin

text \<open>
  \<^verbatim>\<open>scaffold/package_json.py\<close>: the merge of the managed keys into an app's \<^verbatim>\<open>package.json\<close> (and its
  stylelint file), the rules on the keys that stay the app's, and the check of a \<^verbatim>\<open>yarn.lock\<close>.  A document
  is the list of its keys and values in order.  Parameters: packaging's versions and the text of a float.
\<close>

section \<open>The context\<close>

record conf =
  k_cfg :: json
  k_modules :: "string \<Rightarrow> bool"

record past =
  h_confs :: "conf list"
  h_truncated :: bool
  h_unknown :: string

record pkg_ctx =
  x_app :: string
  x_app_hyphen :: string
  x_version :: "string option"
  x_tagline :: string
  x_conf :: conf
  x_org :: jtable
  x_ts_projects :: bool
  x_solution :: string
  x_unit_tests :: bool
  x_scss :: "string list"
  x_vite :: bool
  x_vue_sfc :: bool
  x_nested :: bool
  x_floors :: "string \<Rightarrow> (string \<times> string) list"
  x_major :: nat
  x_branch :: string
  x_history :: past
  x_previous :: "conf option"
  x_shipped :: bool

abbreviation on_module :: "pkg_ctx \<Rightarrow> string \<Rightarrow> bool" where "on_module x m \<equiv> k_modules (x_conf x) m"
abbreviation cfg_of :: "pkg_ctx \<Rightarrow> json" where "cfg_of x \<equiv> k_cfg (x_conf x)"

text \<open>\<^verbatim>\<open>cfg.get(table, {}).get(key, default)\<close>.\<close>

definition setting_or :: "json \<Rightarrow> string \<Rightarrow> string \<Rightarrow> json \<Rightarrow> json" where
  "setting_or cfg tbl key d =
     (case cfg of JObj c \<Rightarrow> (case map_of c tbl of Some (JObj t) \<Rightarrow> (case map_of t key of Some v \<Rightarrow> v | None \<Rightarrow> d) | _ \<Rightarrow> d) | _ \<Rightarrow> d)"

text \<open>\<^verbatim>\<open>context.ever\<close>: whether some committed configuration has a property; what a shallow clone or a lost
  profile hides is an error, not an answer.\<close>

definition ever :: "past \<Rightarrow> (conf \<Rightarrow> bool) \<Rightarrow> exn + bool" where
  "ever h P =
     (if list_ex P (h_confs h) then Inr True
      else if h_truncated h then Inl (EnvError ''shallow'')
      else if h_unknown h \<noteq> [] then Inl (EnvError (h_unknown h))
      else Inr False)"

definition js_oxc :: "conf \<Rightarrow> bool" where
  "js_oxc k \<longleftrightarrow> k_modules k ''js'' \<and> setting_or (k_cfg k) ''js'' ''tool'' (JStr ''oxc'') = JStr ''oxc''"

definition on_in :: "conf \<Rightarrow> string \<Rightarrow> bool" where
  "on_in k m = (if m = ''js'' then js_oxc k else k_modules k m)"

definition was_on :: "pkg_ctx \<Rightarrow> string \<Rightarrow> exn + bool" where
  "was_on x m = ever (x_history x) (\<lambda>h. on_in h m)"

definition turns_off :: "pkg_ctx \<Rightarrow> string \<Rightarrow> bool" where
  "turns_off x m = (case x_previous x of Some k \<Rightarrow> on_in k m | None \<Rightarrow> False)"

section \<open>Constants\<close>

definition VITE_REGISTER :: string where "VITE_REGISTER = ''node scripts/vite-register.mjs''"

definition DEP_MAPS :: "string list" where
  "DEP_MAPS = [''dependencies'', ''devDependencies'', ''peerDependencies'', ''optionalDependencies'']"

definition RETIRED_SCRIPTS :: "string list" where "RETIRED_SCRIPTS = [''update-assets.mjs'']"

definition CHECK_PARTS :: "string list" where
  "CHECK_PARTS = [''format:check'', ''lint'', ''lint:css'', ''typecheck'', ''test:unit'']"

definition RESERVED_PREFIX :: string where "RESERVED_PREFIX = ''frappe-nix:''"

definition TOP_ORDER :: "string list" where
  "TOP_ORDER = [''name'', ''version'', ''private'', ''description'', ''license'', ''author'', ''type'', ''scripts'',
     ''devDependencies'', ''engines'', ''packageManager'', ''frappe'']"

text \<open>A pattern with \<^verbatim>\<open>$\<close> also matches before a last newline.\<close>

definition chomped :: "rx \<Rightarrow> string \<Rightarrow> bool" where
  "chomped r s \<longleftrightarrow> fullmatch (Seq r (opt (Cls (\<lambda>c. c = newline)))) s"

definition FORBIDDEN_DEP :: rx where
  "FORBIDDEN_DEP =
     Alt (Seq (lit ''eslint'') (Star dot)) (Alt (Seq (lit ''prettier'') (Star dot))
       (Alt (Seq (lit ''@typescript-eslint/'') (plus dot)) (Seq (lit ''eslint-config-'') (plus dot))))"

definition NON_REGISTRY :: rx where
  "NON_REGISTRY =
     Alt (Seq (lit ''http'') (Seq (opt (lit ''s'')) (lit ''://'')))
       (Alt (Seq (lit ''git'') (Seq (opt (Seq (lit ''+'') (plus (Cls is_lower)))) (lit '':'')))
         (Alt (lit ''github:'') (Alt (lit ''file:'') (lit ''link:''))))"

definition RETIRED_STEP :: rx where
  "RETIRED_STEP = Seq (lit ''node'') (Seq (plus ws) (Seq (opt (lit ''./'')) (lit ''update-assets.mjs'')))"

section \<open>Steps of a script\<close>

function split_text :: "string \<Rightarrow> string \<Rightarrow> string list" where
  "split_text sep s =
     (if sep = [] \<or> s = [] then [s]
      else if startswith s sep then [] # split_text sep (drop (length sep) s)
      else (case split_text sep (tl s) of [] \<Rightarrow> [[hd s]] | p # ps \<Rightarrow> (hd s # p) # ps))"
  by pat_completeness auto
termination
  by (relation "measure (\<lambda>(sep, s). length s)") (auto simp: length_greater_0_conv)

declare split_text.simps [simp del]

definition drop_retired_steps :: "string \<Rightarrow> string option" where
  "drop_retired_steps script =
     (let parts = map strip (split_text ''&&'' script);
          kept = filter (\<lambda>p. \<not> chomped RETIRED_STEP p) parts
      in if length kept = length parts then Some script
         else if kept \<noteq> [] then Some (join '' && '' kept) else None)"

text \<open>\<^verbatim>\<open>_REGISTER_STEP.search\<close> on a text without trailing blanks: what is before the step.\<close>

definition before_step :: "string \<Rightarrow> string option" where
  "before_step text =
     (if endswith text VITE_REGISTER
      then (let u = rstrip (removesuffix text VITE_REGISTER) in
            if endswith u ''&&'' then Some (rstrip (removesuffix u ''&&'')) else None)
      else None)"

datatype shell_mode = Plain | Quoted char | Escaped

text \<open>\<^verbatim>\<open>_depths\<close>: \<^const>\<open>None\<close> is the code's -1.\<close>

fun depths_from :: "nat \<Rightarrow> shell_mode \<Rightarrow> string \<Rightarrow> nat option list" where
  "depths_from d m [] = []"
| "depths_from d m (c # s) =
     (case m of
        Escaped \<Rightarrow> None # depths_from d Plain s
      | Quoted q \<Rightarrow> None # depths_from d (if c = q then Plain else Quoted q) s
      | Plain \<Rightarrow>
          if c = CHR 0x5C then None # depths_from d Escaped s
          else if c = CHR 0x27 \<or> c = CHR 0x22 then None # depths_from d (Quoted c) s
          else if c = CHR ''('' then Some (d + 1) # depths_from (d + 1) Plain s
          else if c = CHR '')'' then Some d # depths_from (d - 1) Plain s
          else Some d # depths_from d Plain s)"

definition depths :: "string \<Rightarrow> nat option list" where "depths s = depths_from 0 Plain s"

definition top_level :: "string \<Rightarrow> string" where
  "top_level s = map (\<lambda>(c, d). if d = Some 0 then c else CHR '' '') (zip s (depths s))"

definition DIR_CHANGE :: rx where
  "DIR_CHANGE =
     Seq (Alt Eps (Seq anything (Alt (lit ''&&'') (Alt (lit ''||'') (Alt (lit '';'') (lit ''|''))))))
       (Seq (Star ws) (Seq (Alt (lit ''cd'') (lit ''pushd'')) (opt (Seq ws anything))))"

definition changes_dir :: "string \<Rightarrow> bool" where
  "changes_dir script = fullmatch DIR_CHANGE (top_level script)"

definition one_group :: "string \<Rightarrow> bool" where
  "one_group s \<longleftrightarrow> startswith s ''('' \<and> endswith s '')'' \<and> Some 0 \<notin> set (depths s) \<and> last (depths s) = Some 1"

definition registered_build :: "string \<Rightarrow> string" where
  "registered_build build =
     (let text = rstrip build in
      case before_step text of
        Some base \<Rightarrow> if changes_dir base then ''('' @ base @ '') && '' @ VITE_REGISTER else build
      | None \<Rightarrow>
          if endswith text VITE_REGISTER then build
          else if changes_dir text then ''('' @ text @ '') && '' @ VITE_REGISTER
          else text @ '' && '' @ VITE_REGISTER)"

definition unregistered_build :: "string \<Rightarrow> string" where
  "unregistered_build build =
     (let text = rstrip build;
          base = (case before_step text of Some b \<Rightarrow> b | None \<Rightarrow> text)
      in if one_group base \<and> changes_dir (butlast (tl base)) then butlast (tl base) else base)"

section \<open>What the modules manage\<close>

definition package_created :: "pkg_ctx \<Rightarrow> string option \<Rightarrow> jtable" where
  "package_created x seed =
     (let v = (case seed of Some a \<Rightarrow> if a \<noteq> [] then Some a else x_version x | None \<Rightarrow> x_version x) in
      [(''name'', JStr (x_app_hyphen x)),
       (''version'', JStr (case v of Some a \<Rightarrow> if a \<noteq> [] then a else ''0.1.0'' | None \<Rightarrow> ''0.1.0'')),
       (''private'', JBool True), (''description'', JStr (x_tagline x))] @
      (if truthy (entry (x_org x) ''license'') then [(''license'', entry (x_org x) ''license'')] else []) @
      (if truthy (entry (x_org x) ''publisher'') then [(''author'', entry (x_org x) ''publisher'')] else []))"

definition has_ts :: "pkg_ctx \<Rightarrow> bool" where
  "has_ts x \<longleftrightarrow> x_ts_projects x \<or> truthy (setting (cfg_of x) ''typescript'' ''spa'')"

definition dict_update :: "(string \<times> 'v) list \<Rightarrow> (string \<times> 'v) list \<Rightarrow> (string \<times> 'v) list" where
  "dict_update kvs d = fold (\<lambda>(k, v). AList.update k v) kvs d"

definition dev_floors :: "pkg_ctx \<Rightarrow> (string \<times> (string \<times> string) list) list" where
  "dev_floors x =
     (let f = x_floors x;
          ts0 = (if has_ts x then f ''npm-ts'' else []);
          ts1 = (if ts0 \<noteq> [] \<and> setting_or (cfg_of x) ''typescript'' ''preset'' (JStr ''frappe-types'') = JStr ''frappe-types''
                 then dict_update (f ''npm-frappe-types'') ts0 else ts0);
          ts2 = (if ts1 \<noteq> [] \<and> x_vue_sfc x then dict_update (f ''npm-vue'') ts1 else ts1)
      in [(''js'', f ''npm-js''), (''typescript'', ts2), (''stylelint'', if x_scss x \<noteq> [] then f ''npm-scss'' else [])])"

text \<open>\<^verbatim>\<open>_number\<close>.  (The schema holds the setting to a number.)\<close>

definition number_text :: "(rat \<Rightarrow> string) \<Rightarrow> json \<Rightarrow> exn + string" where
  "number_text float_text v =
     (case v of
        JInt i \<Rightarrow> Inr (show_int i)
      | JFloat r \<Rightarrow> Inr (if r = of_int \<lfloor>r\<rfloor> then show_int \<lfloor>r\<rfloor> else float_text r)
      | JBool b \<Rightarrow> Inr (if b then ''1'' else ''0'')
      | _ \<Rightarrow> Inl TypeError)"

definition c8_live :: "pkg_ctx \<Rightarrow> bool" where
  "c8_live x \<longleftrightarrow> on_module x ''vite-register'' \<and> x_vite x \<and> x_shipped x"

definition retires_update_assets :: "pkg_ctx \<Rightarrow> bool" where
  "retires_update_assets x \<longleftrightarrow> on_module x ''vite-register'' \<and> (x_shipped x \<or> \<not> x_vite x)"

definition spa_check :: "json \<Rightarrow> exn + string" where
  "spa_check s = bindE (ditem s ''check'') (\<lambda>c. case c of JStr t \<Rightarrow> Inr t | _ \<Rightarrow> Inl TypeError)"

definition unit_script :: "(rat \<Rightarrow> string) \<Rightarrow> pkg_ctx \<Rightarrow> exn + string option" where
  "unit_script float_text x =
     (if truthy (setting_or (cfg_of x) ''tests'' ''js-unit'' (JBool True)) \<and> x_unit_tests x
      then bindE (number_text float_text (setting_or (cfg_of x) ''tests'' ''js-coverage-min'' (JInt 50))) (\<lambda>n.
             Inr (Some (''node --test --experimental-test-coverage --test-coverage-include='' @ [CHR 0x27] @ x_app x @
               ''/public/js/**'' @ [CHR 0x27] @ '' --test-coverage-lines='' @ n @ '' '' @ [CHR 0x27] @ ''test/unit/**/*.test.ts'' @ [CHR 0x27])))
      else Inr None)"

definition python_lint_script :: string where
  "python_lint_script =
     ''uv run --frozen --project tools ruff check . && uv run --frozen --project tools ruff format --check .''"

definition python_types_script :: string where
  "python_types_script =
     ''uv run --frozen --project tools ty check --python '' @ [CHR 0x22] @ ''${FRAPPE_BENCH_ROOT:-.frappe-nix/bench}/env'' @ [CHR 0x22]"

definition package_scripts ::
  "(rat \<Rightarrow> string) \<Rightarrow> pkg_ctx \<Rightarrow> exn + (string \<times> (string \<times> string option) list) list" where
  "package_scripts float_text x =
     bindE (iter (setting_or (cfg_of x) ''typescript'' ''spa'' (JArr []))) (\<lambda>spa.
     bindE (mapE spa_check spa) (\<lambda>checks.
     bindE (unit_script float_text x) (\<lambda>unit.
     let parts = (if x_ts_projects x then [''tsc --build '' @ x_solution x] else []) @ checks;
         css = join '' && '' (map (\<lambda>g. ''stylelint '' @ [CHR 0x22] @ g @ [CHR 0x22]) (x_scss x))
     in Inr [(''js'', [(''format'', Some ''oxfmt''), (''format:check'', Some ''oxfmt --check''), (''lint'', Some ''oxlint'')]),
          (''stylelint'', [(''lint:css'', if css \<noteq> [] then Some css else None)]),
          (''typescript'', [(''typecheck'', if parts \<noteq> [] then Some (join '' && '' parts) else None)]),
          (''tests'', [(''test:unit'', unit)]),
          (''python-lint'', [(''lint:py'', Some python_lint_script)]),
          (''python-types'', [(''typecheck:py'', Some python_types_script)])])))"

definition check_script :: "jtable \<Rightarrow> string option" where
  "check_script present =
     (let parts = filter (\<lambda>n. is_str (entry present n)) CHECK_PARTS
      in if parts \<noteq> [] then Some (join '' && '' (map (\<lambda>n. ''yarn -s '' @ n) parts)) else None)"

definition non_empty :: "json \<Rightarrow> json option" where "non_empty v = (if truthy v then Some v else None)"

definition metadata_keys :: "pkg_ctx \<Rightarrow> (string \<times> json option) list" where
  "metadata_keys x =
     [(''private'', Some (JBool True)),
      (''type'', non_empty (setting (cfg_of x) ''metadata'' ''package-type'')),
      (''license'', non_empty (entry (x_org x) ''license'')),
      (''author'', non_empty (entry (x_org x) ''publisher'')),
      (''engines.node'', non_empty (setting (cfg_of x) ''metadata'' ''node-engine'')),
      (''packageManager'', non_empty (setting (cfg_of x) ''metadata'' ''package-manager'')),
      (''frappe'', Some (JObj [(''major'', JStr (show_nat (x_major x))), (''branch'', JStr (x_branch x))]))]"

section \<open>Reads and writes of a table\<close>

definition get_key :: "jtable \<Rightarrow> string \<Rightarrow> json" where
  "get_key doc dotted_key =
     (case partition1 (CHR ''.'') dotted_key of (h, _, rest) \<Rightarrow>
        if rest = [] then entry doc h
        else (case entry doc h of JObj sub \<Rightarrow> entry sub rest | _ \<Rightarrow> JNull))"

definition set_key :: "string \<Rightarrow> json \<Rightarrow> jtable \<Rightarrow> jtable" where
  "set_key dotted_key v doc =
     (case partition1 (CHR ''.'') dotted_key of (h, _, rest) \<Rightarrow>
        if rest = [] then AList.update h v doc
        else AList.update h (JObj (AList.update rest v (case entry doc h of JObj sub \<Rightarrow> sub | _ \<Rightarrow> []))) doc)"

definition drop_key :: "string \<Rightarrow> jtable \<Rightarrow> jtable" where
  "drop_key dotted_key doc =
     (case partition1 (CHR ''.'') dotted_key of (h, _, rest) \<Rightarrow>
        if rest = [] then AList.delete h doc
        else (case entry doc h of
                JObj sub \<Rightarrow>
                  (let sub' = AList.delete rest sub
                   in if sub' = [] then AList.delete h doc else AList.update h (JObj sub') doc)
              | _ \<Rightarrow> doc))"

fun insert_before :: "string \<Rightarrow> json \<Rightarrow> string list \<Rightarrow> jtable \<Rightarrow> jtable" where
  "insert_before key v later [] = [(key, v)]"
| "insert_before key v later ((k, w) # t) =
     (if k \<in> set later then (key, v) # (k, w) # t else (k, w) # insert_before key v later t)"

definition put_in :: "string \<Rightarrow> json \<Rightarrow> string list \<Rightarrow> jtable \<Rightarrow> jtable" where
  "put_in key v order t =
     (if key \<in> fst ` set t \<or> key \<notin> set order then AList.update key v t
      else insert_before key v (tl (dropWhile (\<lambda>k. k \<noteq> key) order)) t)"

text \<open>\<^verbatim>\<open>_dict\<close>: the document with a table at a key.\<close>

definition ensure_dict :: "string \<Rightarrow> jtable \<Rightarrow> jtable" where
  "ensure_dict key doc = (if is_dict (entry doc key) then doc else put_in key (JObj []) TOP_ORDER doc)"

definition dict_at :: "jtable \<Rightarrow> string \<Rightarrow> jtable" where
  "dict_at doc key = (case entry doc key of JObj t \<Rightarrow> t | _ \<Rightarrow> [])"

section \<open>The merge\<close>

text \<open>The document and the warnings of what is left to the app.\<close>

type_synonym merged = "jtable \<times> string list"

definition warn :: "pkg_ctx \<Rightarrow> string \<Rightarrow> string \<Rightarrow> merged \<Rightarrow> merged" where
  "warn x m what s = (if turns_off x m then (fst s, snd s @ [what]) else s)"

text \<open>\<^verbatim>\<open>retract\<close>.\<close>

definition retract :: "pkg_ctx \<Rightarrow> string \<Rightarrow> json \<Rightarrow> string \<Rightarrow> merged \<Rightarrow> merged" where
  "retract x key wanted m s =
     (let have = get_key (fst s) key in
      if have = JNull then s
      else if py_eq have wanted then (drop_key key (fst s), snd s)
      else warn x m key s)"

definition metadata_step :: "pkg_ctx \<Rightarrow> string \<times> json option \<Rightarrow> merged \<Rightarrow> exn + merged" where
  "metadata_step x kv s =
     (case kv of (key, value) \<Rightarrow>
        case value of
          None \<Rightarrow> Inr s
        | Some v \<Rightarrow>
            if on_module x ''metadata'' then
              (let h = fst (partition1 (CHR ''.'') key);
                   doc = (if h \<notin> fst ` set (fst s)
                          then put_in h (if CHR ''.'' \<in> set key then JObj [] else v) TOP_ORDER (fst s) else fst s)
               in Inr (set_key key v doc, snd s))
            else bindE (was_on x ''metadata'') (\<lambda>was. Inr (if was then retract x key v ''metadata'' s else s)))"

definition module_on :: "pkg_ctx \<Rightarrow> string \<Rightarrow> bool" where
  "module_on x m = on_in (x_conf x) m"

text \<open>One managed script of a module.\<close>

definition script_step ::
  "pkg_ctx \<Rightarrow> string list \<Rightarrow> string \<Rightarrow> string \<times> string option \<Rightarrow> merged \<Rightarrow> exn + merged" where
  "script_step x order m kv s =
     (case kv of (key, value) \<Rightarrow>
        if module_on x m then
          (let doc = ensure_dict ''scripts'' (fst s); sc = dict_at doc ''scripts'';
               sc' = (case value of None \<Rightarrow> AList.delete key sc | Some v \<Rightarrow> put_in key (JStr v) order sc)
           in Inr (AList.update ''scripts'' (JObj sc') doc, snd s))
        else
          (case (entry (fst s) ''scripts'', value) of
             (JObj sc, Some v) \<Rightarrow>
               if key \<notin> fst ` set sc then Inr s
               else bindE (was_on x m) (\<lambda>was.
                 if \<not> was then Inr s
                 else if entry sc key = JStr v
                 then Inr (AList.update ''scripts'' (JObj (AList.delete key sc)) (fst s), snd s)
                 else Inr (warn x m (''scripts.'' @ key) s))
           | _ \<Rightarrow> Inr s))"

definition scripts_step ::
  "pkg_ctx \<Rightarrow> string list \<Rightarrow> string \<times> (string \<times> string option) list \<Rightarrow> merged \<Rightarrow> exn + merged" where
  "scripts_step x order mt s = foldE (script_step x order (fst mt)) (snd mt) s"

text \<open>The steps of a retired file are dropped from every script.\<close>

definition retire_steps :: "jtable \<Rightarrow> jtable" where
  "retire_steps sc =
     concat (map (\<lambda>(k, v). case v of
         JStr s \<Rightarrow> (case drop_retired_steps s of None \<Rightarrow> [] | Some kept \<Rightarrow> [(k, JStr kept)])
       | _ \<Rightarrow> [(k, v)]) sc)"

definition build_step :: "pkg_ctx \<Rightarrow> jtable \<Rightarrow> exn + jtable" where
  "build_step x sc =
     (case entry sc ''build'' of
        JStr build \<Rightarrow>
          if c8_live x then Inr (AList.update ''build'' (JStr (registered_build build)) sc)
          else if \<not> on_module x ''vite-register'' \<and> endswith (rstrip build) ('' && '' @ VITE_REGISTER)
          then bindE (was_on x ''vite-register'') (\<lambda>was.
                 Inr (if was then AList.update ''build'' (JStr (unregistered_build build)) sc else sc))
          else Inr sc
      | _ \<Rightarrow> Inr sc)"

text \<open>\<^verbatim>\<open>scripts.check\<close>: js manages it; with js off, one that sync rendered goes with it.  (A value that has no hash
  in Python raises.)\<close>

definition rendered_checks :: "jtable \<Rightarrow> (string \<times> string option) list \<Rightarrow> jtable \<Rightarrow> string option list" where
  "rendered_checks before js sc =
     (let js' = map (\<lambda>(k, v). (k, case v of Some t \<Rightarrow> JStr t | None \<Rightarrow> JNull)) js
      in [check_script before, check_script (dict_update js' before), check_script (dict_update js' sc)])"

definition check_step ::
  "pkg_ctx \<Rightarrow> string list \<Rightarrow> (string \<times> string option) list \<Rightarrow> jtable \<Rightarrow> jtable \<Rightarrow> exn + jtable \<times> bool" where
  "check_step x order js before sc =
     (if js_oxc (x_conf x) then
        Inr (case check_script sc of None \<Rightarrow> AList.delete ''check'' sc | Some c \<Rightarrow> put_in ''check'' (JStr c) order sc, False)
      else if ''check'' \<in> fst ` set sc then
        bindE (was_on x ''js'') (\<lambda>was.
          if \<not> was then Inr (sc, False)
          else bindE (case entry sc ''check'' of
                  JStr c \<Rightarrow> Inr (Some c \<in> set (rendered_checks before js sc))
                | JNull \<Rightarrow> Inr (None \<in> set (rendered_checks before js sc))
                | JArr _ \<Rightarrow> Inl TypeError
                | JObj _ \<Rightarrow> Inl TypeError
                | _ \<Rightarrow> Inr False) (\<lambda>ours. Inr (if ours then (AList.delete ''check'' sc, False) else (sc, True))))
      else Inr (sc, False))"

definition after_scripts ::
  "pkg_ctx \<Rightarrow> string list \<Rightarrow> (string \<times> string option) list \<Rightarrow> jtable \<Rightarrow> merged \<Rightarrow> exn + merged" where
  "after_scripts x order js before s =
     (case entry (fst s) ''scripts'' of
        JObj sc \<Rightarrow>
          bindE (build_step x (if retires_update_assets x then retire_steps sc else sc)) (\<lambda>sc1.
          bindE (check_step x order js before sc1) (\<lambda>(sc2, left).
            let s' = (AList.update ''scripts'' (JObj sc2) (fst s), snd s)
            in Inr (if left then warn x ''js'' ''scripts.check'' s' else s')))
      | _ \<Rightarrow> Inr s)"

text \<open>One floor of a module's \<^verbatim>\<open>devDependencies\<close>; \<open>live\<close> is whether there was a table when the module's turn came.\<close>

definition dev_step ::
  "(string \<Rightarrow> 'v::linorder option) \<Rightarrow> pkg_ctx \<Rightarrow> string list \<Rightarrow> string \<Rightarrow> bool \<Rightarrow> string \<times> string \<Rightarrow> merged \<Rightarrow> exn + merged" where
  "dev_step ver x order m live pf s =
     (case pf of (pkg, flr) \<Rightarrow>
        let have = (if live then entry (dict_at (fst s) ''devDependencies'') pkg else JNull);
            ok = (case have of JStr h \<Rightarrow> range_ok ver h flr | _ \<Rightarrow> False)
        in if module_on x m then
             (if ok \<or> (case have of JStr h \<Rightarrow> rmatch NON_REGISTRY h | _ \<Rightarrow> False) then Inr s
              else let doc = ensure_dict ''devDependencies'' (fst s)
                   in Inr (AList.update ''devDependencies''
                             (JObj (put_in pkg (JStr (caret flr)) order (dict_at doc ''devDependencies''))) doc, snd s))
           else if live \<and> have \<noteq> JNull then
             bindE (was_on x m) (\<lambda>was.
               if \<not> was then Inr s
               else if ok then Inr (AList.update ''devDependencies''
                      (JObj (AList.delete pkg (dict_at (fst s) ''devDependencies''))) (fst s), snd s)
               else Inr (warn x m (''devDependencies.'' @ pkg) s))
           else Inr s)"

definition devs_step ::
  "(string \<Rightarrow> 'v::linorder option) \<Rightarrow> pkg_ctx \<Rightarrow> string list \<Rightarrow> string \<times> (string \<times> string) list \<Rightarrow> merged \<Rightarrow> exn + merged" where
  "devs_step ver x order mt s =
     foldE (dev_step ver x order (fst mt) (is_dict (entry (fst s) ''devDependencies''))) (snd mt) s"

definition drop_empty :: "string \<Rightarrow> bool \<Rightarrow> jtable \<Rightarrow> jtable" where
  "drop_empty key ours doc = (if entry doc key = JObj [] \<and> ours then AList.delete key doc else doc)"

definition package_merge ::
  "(string \<Rightarrow> 'v::linorder option) \<Rightarrow> (rat \<Rightarrow> string) \<Rightarrow> jtable option \<Rightarrow> pkg_ctx \<Rightarrow> string option \<Rightarrow> exn + merged" where
  "package_merge ver float_text current x seed =
     (let doc0 = (case current of Some d \<Rightarrow> d | None \<Rightarrow> package_created x seed);
          doc1 = (case seed of Some v \<Rightarrow> if v \<noteq> [] then AList.update ''version'' (JStr v) doc0 else doc0 | None \<Rightarrow> doc0)
      in bindE (foldE (metadata_step x) (metadata_keys x) (doc1, [])) (\<lambda>s1.
         bindE (package_scripts float_text x) (\<lambda>scripts.
         let order = concat (map (map fst \<circ> snd) scripts) @ [''check''];
             js = (case map_of scripts ''js'' of Some t \<Rightarrow> t | None \<Rightarrow> [])
         in bindE (foldE (scripts_step x order) scripts s1) (\<lambda>s2.
         bindE (after_scripts x order js (dict_at (fst s1) ''scripts'') s2) (\<lambda>s3.
         let doc3 = drop_empty ''scripts''
               (case current of None \<Rightarrow> True | Some c \<Rightarrow> ''scripts'' \<notin> fst ` set c) (fst s3)
         in bindE (foldE (devs_step ver x (concat (map (map fst \<circ> snd) (dev_floors x)))) (dev_floors x) (doc3, snd s3)) (\<lambda>s4.
            Inr (drop_empty ''devDependencies''
              (case current of None \<Rightarrow> True
               | Some c \<Rightarrow> ''devDependencies'' \<notin> fst ` set c \<or> truthy (entry c ''devDependencies'')) (fst s4), snd s4)))))))"

section \<open>Rules on the keys that are the app's\<close>

definition builds :: "pkg_ctx \<Rightarrow> bool" where
  "builds x \<longleftrightarrow> x_vite x \<or> x_nested x \<or> truthy (setting (cfg_of x) ''typescript'' ''spa'') \<or>
     truthy (case doc_get (cfg_of x) ''build'' of Some v \<Rightarrow> v | None \<Rightarrow> JNull)"

datatype pkg_problem =
    BuildUnwanted
  | BuildWanted
  | RegisterMissing
  | ReservedScript string
  | RetiredScript string
  | ForbiddenDep string string

definition problem_code :: "pkg_problem \<Rightarrow> nat" where
  "problem_code p = (if p = RegisterMissing then DRIFT else INVALID)"

definition script_problems :: "pkg_ctx \<Rightarrow> string \<times> json \<Rightarrow> pkg_problem list" where
  "script_problems x kv =
     (case kv of (key, v) \<Rightarrow>
        (if startswith key RESERVED_PREFIX then [ReservedScript key] else []) @
        (if retires_update_assets x \<and> (case v of JStr s \<Rightarrow> list_ex (\<lambda>f. contains_sub f s) RETIRED_SCRIPTS | _ \<Rightarrow> False)
         then [RetiredScript key] else []))"

definition package_problems :: "jtable \<Rightarrow> pkg_ctx \<Rightarrow> pkg_problem list" where
  "package_problems doc x =
     (let sc = dict_at doc ''scripts''; has_build = (''build'' \<in> fst ` set sc) in
      (if on_module x ''metadata'' \<and> has_build \<and> \<not> builds x then [BuildUnwanted] else []) @
      (if on_module x ''metadata'' \<and> truthy (case doc_get (cfg_of x) ''build'' of Some v \<Rightarrow> v | None \<Rightarrow> JNull) \<and> \<not> has_build
       then [BuildWanted] else []) @
      (if c8_live x \<and> \<not> has_build then [RegisterMissing] else []) @
      concat (map (script_problems x) sc) @
      (if js_oxc (x_conf x)
       then concat (map (\<lambda>name. map (ForbiddenDep name) (filter (chomped FORBIDDEN_DEP) (map fst (dict_at doc name)))) DEP_MAPS)
       else []))"

section \<open>The stylelint file\<close>

definition dist_glob :: "pkg_ctx \<Rightarrow> json" where "dist_glob x = JStr (x_app x @ ''/public/dist/**'')"

definition stylelint_created :: "pkg_ctx \<Rightarrow> jtable" where
  "stylelint_created x =
     [(''extends'', JArr [JStr ''stylelint-config-standard-scss'']), (''ignoreFiles'', JArr [dist_glob x])]"

definition stylelint_merge :: "jtable option \<Rightarrow> pkg_ctx \<Rightarrow> jtable" where
  "stylelint_merge current x =
     (let doc0 = (case current of Some d \<Rightarrow> d | None \<Rightarrow> stylelint_created x);
          doc1 = AList.update ''extends'' (JArr [JStr ''stylelint-config-standard-scss'']) doc0;
          ignore = (case entry doc1 ''ignoreFiles'' of JStr s \<Rightarrow> [JStr s] | JArr xs \<Rightarrow> xs | _ \<Rightarrow> [])
      in AList.update ''ignoreFiles'' (JArr (if list_ex (py_eq (dist_glob x)) ignore then ignore else ignore @ [dist_glob x])) doc1)"

section \<open>A yarn.lock\<close>

definition UNLOCKED :: rx where
  "UNLOCKED = Alt (lit ''link:'') (Alt (lit ''portal:'') (lit ''workspace:''))"

text \<open>\<^verbatim>\<open>s.replace(old, new, 1)\<close>.\<close>

fun replace_first :: "string \<Rightarrow> string \<Rightarrow> string \<Rightarrow> string" where
  "replace_first old new [] = (if old = [] then new else [])"
| "replace_first old new (c # s) =
     (if startswith (c # s) old then new @ drop (length old) (c # s) else c # replace_first old new s)"

definition yarn_lock_line :: "bool \<Rightarrow> string \<Rightarrow> string list" where
  "yarn_lock_line berry line =
     (case line of
        [] \<Rightarrow> []
      | c # _ \<Rightarrow>
          if c \<in> {CHR '' '', tab, CHR ''#''} \<or> \<not> endswith line '':'' then []
          else map (\<lambda>part. let key = strip_by (\<lambda>c. c = CHR 0x22) (strip part)
                           in if berry then replace_first ''@npm:'' ''@'' key else key)
                 (split_on (CHR '','') (butlast line)))"

definition yarn_lock_keys :: "string \<Rightarrow> string list" where
  "yarn_lock_keys text =
     (let berry = list_ex (\<lambda>l. startswith l ''__metadata:'') (split_on newline text)
      in concat (map (yarn_lock_line berry) (splitlines text)))"

definition yarn_lock_wants :: "string list \<Rightarrow> json \<Rightarrow> string list" where
  "yarn_lock_wants local deps =
     (case deps of
        JObj d \<Rightarrow> concat (map (\<lambda>(pkg, spec). case spec of
            JStr s \<Rightarrow> if rmatch UNLOCKED s \<or> pkg \<in> set local then [] else [pkg @ ''@'' @ s]
          | _ \<Rightarrow> []) d)
      | _ \<Rightarrow> [])"

definition yarn_lock_missing :: "json \<Rightarrow> string \<Rightarrow> string list \<Rightarrow> string list" where
  "yarn_lock_missing package lock local =
     (case package of
        JObj p \<Rightarrow>
          sort (dedup (filter (\<lambda>k. k \<notin> set (yarn_lock_keys lock))
            (concat (map (\<lambda>name. yarn_lock_wants local (entry p name)) [''dependencies'', ''devDependencies'', ''optionalDependencies'']))))
      | _ \<Rightarrow> [])"

section \<open>Reads after writes\<close>

named_theorems table_ops

lemma map_of_insert_before: "key \<notin> fst ` set t \<Longrightarrow> map_of (insert_before key v later t) = (map_of t)(key \<mapsto> v)"
  by (induction t rule: insert_before.induct) (auto simp: fun_eq_iff)

lemma map_of_put_in [table_ops]: "map_of (put_in key v order t) = (map_of t)(key \<mapsto> v)"
  by (simp add: put_in_def map_of_insert_before)

lemma map_of_del [table_ops]: "map_of (AList.delete k t) = (map_of t)(k := None)"
  by (rule delete_conv')

lemma entry_upd [table_ops]: "entry (AList.update k v t) j = (if j = k then v else entry t j)"
  by (simp add: entry_def)

lemma dict_at_upd [table_ops]:
  "dict_at (AList.update k v t) j = (if j = k then (case v of JObj s \<Rightarrow> s | _ \<Rightarrow> []) else dict_at t j)"
  by (simp add: dict_at_def table_ops)

lemma dict_at_put [table_ops]:
  "dict_at (put_in k v order t) j = (if j = k then (case v of JObj s \<Rightarrow> s | _ \<Rightarrow> []) else dict_at t j)"
  by (simp add: dict_at_def entry_def table_ops)

lemma dict_at_del [table_ops]: "dict_at (AList.delete k t) j = (if j = k then [] else dict_at t j)"
  by (simp add: dict_at_def entry_def table_ops)

lemma dict_at_ensure [table_ops]: "dict_at (ensure_dict k t) j = dict_at t j"
  by (auto simp: ensure_dict_def table_ops) (simp add: dict_at_def is_dict_def split: json.splits)

lemma dict_at_obj [table_ops]: "entry d k = JObj t \<Longrightarrow> dict_at d k = t"
  by (simp add: dict_at_def)

lemma map_of_ensure: "j \<noteq> k \<Longrightarrow> map_of (ensure_dict k t) j = map_of t j"
  by (simp add: ensure_dict_def table_ops)

section \<open>What the merge leaves alone\<close>

text \<open>The top-level keys, the scripts and the floors the merge may write.\<close>

definition managed_top :: "string set" where
  "managed_top = {''private'', ''type'', ''license'', ''author'', ''engines'', ''packageManager'', ''frappe'', ''scripts'',
     ''devDependencies''}"

definition managed_scripts :: "string set" where
  "managed_scripts = {''format'', ''format:check'', ''lint'', ''lint:css'', ''typecheck'', ''test:unit'', ''lint:py'',
     ''typecheck:py'', ''check'', ''build''}"

definition managed_devs :: "pkg_ctx \<Rightarrow> string set" where
  "managed_devs x = \<Union> ((set \<circ> map fst \<circ> snd) ` set (dev_floors x))"

definition untouched :: "string set \<Rightarrow> pkg_ctx \<Rightarrow> jtable \<Rightarrow> jtable \<Rightarrow> bool" where
  "untouched T x a b \<longleftrightarrow>
     (\<forall>k. k \<notin> T \<longrightarrow> map_of b k = map_of a k) \<and>
     (\<not> retires_update_assets x \<longrightarrow>
        (\<forall>k. k \<notin> managed_scripts \<longrightarrow> map_of (dict_at b ''scripts'') k = map_of (dict_at a ''scripts'') k)) \<and>
     (\<forall>k. k \<notin> managed_devs x \<longrightarrow> map_of (dict_at b ''devDependencies'') k = map_of (dict_at a ''devDependencies'') k)"

lemma untouched_refl [simp]: "untouched T x a a" by (simp add: untouched_def)

lemma untouched_trans: "untouched T x a b \<Longrightarrow> untouched T x b c \<Longrightarrow> untouched T x a c"
  by (simp add: untouched_def)

text \<open>A write of one managed top-level key; of the scripts; of the floors.\<close>

lemma untouched_top:
  assumes "\<forall>k. k \<noteq> h \<longrightarrow> map_of b k = map_of a k" "h \<in> T - {''scripts'', ''devDependencies''}"
  shows "untouched T x a b"
proof -
  have "dict_at b ''scripts'' = dict_at a ''scripts''" "dict_at b ''devDependencies'' = dict_at a ''devDependencies''"
    using assms unfolding dict_at_def entry_def by auto
  then show ?thesis using assms by (auto simp: untouched_def)
qed

lemma untouched_scripts:
  assumes "\<forall>k. k \<noteq> ''scripts'' \<longrightarrow> map_of b k = map_of a k"
    "\<not> retires_update_assets x \<Longrightarrow>
       \<forall>k. k \<notin> managed_scripts \<longrightarrow> map_of (dict_at b ''scripts'') k = map_of (dict_at a ''scripts'') k"
    "''scripts'' \<in> T"
  shows "untouched T x a b"
proof -
  have "dict_at b ''devDependencies'' = dict_at a ''devDependencies''"
    using assms(1) unfolding dict_at_def entry_def by auto
  moreover have "k \<noteq> ''scripts''" if "k \<notin> T" for k using that assms(3) by blast
  ultimately show ?thesis using assms(1,2) by (auto simp: untouched_def)
qed

lemma untouched_devs:
  assumes "\<forall>k. k \<noteq> ''devDependencies'' \<longrightarrow> map_of b k = map_of a k"
    "\<forall>k. k \<notin> managed_devs x \<longrightarrow> map_of (dict_at b ''devDependencies'') k = map_of (dict_at a ''devDependencies'') k"
    "''devDependencies'' \<in> T"
  shows "untouched T x a b"
proof -
  have "dict_at b ''scripts'' = dict_at a ''scripts''"
    using assms(1) unfolding dict_at_def entry_def by auto
  moreover have "k \<noteq> ''devDependencies''" if "k \<notin> T" for k using that assms(3) by blast
  ultimately show ?thesis using assms(1,2) by (auto simp: untouched_def)
qed

lemma warn_doc [simp]: "fst (warn x m w s) = fst s"
  by (simp add: warn_def)

lemma set_key_top: "k \<noteq> fst (partition1 (CHR ''.'') key) \<Longrightarrow> map_of (set_key key v d) k = map_of d k"
  by (cases "partition1 (CHR ''.'') key") (simp add: set_key_def)

lemma drop_key_top: "k \<noteq> fst (partition1 (CHR ''.'') key) \<Longrightarrow> map_of (drop_key key d) k = map_of d k"
  by (cases "partition1 (CHR ''.'') key") (simp add: drop_key_def table_ops Let_def split: json.splits)

lemma metadata_heads:
  "(key, v) \<in> set (metadata_keys x) \<Longrightarrow> fst (partition1 (CHR ''.'') key) \<in> managed_top - {''scripts'', ''devDependencies''}"
  by (auto simp: metadata_keys_def managed_top_def)

lemma metadata_step_untouched:
  assumes "kv \<in> set (metadata_keys x)" "metadata_step x kv s = Inr s'"
  shows "untouched managed_top x (fst s) (fst s')"
proof -
  obtain key val where kv: "kv = (key, val)" by fastforce
  let ?h = "fst (partition1 (CHR ''.'') key)"
  from assms(1) kv metadata_heads have h: "?h \<in> managed_top - {''scripts'', ''devDependencies''}" by blast
  have "\<forall>k. k \<noteq> ?h \<longrightarrow> map_of (fst s') k = map_of (fst s) k"
    using assms(2) unfolding kv metadata_step_def retract_def
    by (auto simp: Let_def set_key_top drop_key_top table_ops elim!: bindE_InrE split: option.splits if_splits)
  from untouched_top [OF this h] show ?thesis .
qed

lemma package_scripts_keys:
  assumes "package_scripts ft x = Inr scripts" "(m, tbl) \<in> set scripts" "(k, v) \<in> set tbl"
  shows "k \<in> managed_scripts - {''check'', ''build''}"
  using assms unfolding package_scripts_def Let_def
  by (auto simp: managed_scripts_def elim!: bindE_InrE)

lemma script_step_untouched:
  assumes "script_step x order m (key, val) s = Inr s'" "key \<in> managed_scripts" "''scripts'' \<in> T"
  shows "untouched T x (fst s) (fst s')"
proof (rule untouched_scripts)
  show "\<forall>k. k \<noteq> ''scripts'' \<longrightarrow> map_of (fst s') k = map_of (fst s) k"
    using assms(1) unfolding script_step_def
    by (auto simp: Let_def table_ops map_of_ensure elim!: bindE_InrE split: option.splits json.splits if_splits)
  show "\<forall>k. k \<notin> managed_scripts \<longrightarrow> map_of (dict_at (fst s') ''scripts'') k = map_of (dict_at (fst s) ''scripts'') k"
    using assms unfolding script_step_def
    by (auto simp: Let_def table_ops elim!: bindE_InrE split: option.splits json.splits if_splits)
qed (rule assms(3))

lemma build_step_keys: "build_step x sc = Inr sc' \<Longrightarrow> k \<noteq> ''build'' \<Longrightarrow> map_of sc' k = map_of sc k"
  unfolding build_step_def by (auto elim!: bindE_InrE split: json.splits if_splits)

lemma check_step_keys: "check_step x order js before sc = Inr (sc', l) \<Longrightarrow> k \<noteq> ''check'' \<Longrightarrow> map_of sc' k = map_of sc k"
  unfolding check_step_def by (auto simp: table_ops elim!: bindE_InrE split: option.splits if_splits)

lemma after_scripts_untouched:
  assumes "after_scripts x order js before s = Inr s'" "''scripts'' \<in> T"
  shows "untouched T x (fst s) (fst s')"
proof (cases "\<exists>sc. entry (fst s) ''scripts'' = JObj sc")
  case True
  then obtain sc where sc: "entry (fst s) ''scripts'' = JObj sc" by blast
  from assms obtain sc1 sc2 l where c:
      "build_step x (if retires_update_assets x then retire_steps sc else sc) = Inr sc1"
      "check_step x order js before sc1 = Inr (sc2, l)" "fst s' = AList.update ''scripts'' (JObj sc2) (fst s)"
    unfolding after_scripts_def sc by (auto simp: Let_def elim!: bindE_InrE split: if_splits)
  have "map_of sc2 k = map_of sc k" if "k \<notin> managed_scripts" "\<not> retires_update_assets x" for k
    using that build_step_keys [OF c(1), of k] check_step_keys [OF c(2), of k] by (simp add: managed_scripts_def)
  then show ?thesis using sc
    by (intro untouched_scripts) (simp_all add: c(3) table_ops assms(2))
next
  case False
  with assms have "s' = s" unfolding after_scripts_def by (auto split: json.splits)
  then show ?thesis by simp
qed

lemma dev_step_untouched:
  assumes "dev_step ver x order m live (pkg, flr) s = Inr s'" "pkg \<in> managed_devs x" "''devDependencies'' \<in> T"
  shows "untouched T x (fst s) (fst s')"
proof (rule untouched_devs)
  show "\<forall>k. k \<noteq> ''devDependencies'' \<longrightarrow> map_of (fst s') k = map_of (fst s) k"
    using assms(1) unfolding dev_step_def Let_def
    by (auto simp: map_of_ensure elim!: bindE_InrE split: if_splits)
  show "\<forall>k. k \<notin> managed_devs x \<longrightarrow> map_of (dict_at (fst s') ''devDependencies'') k = map_of (dict_at (fst s) ''devDependencies'') k"
    using assms unfolding dev_step_def Let_def
    by (auto simp: table_ops elim!: bindE_InrE split: if_splits)
qed (rule assms(3))

lemma drop_empty_top: "k \<noteq> key \<Longrightarrow> map_of (drop_empty key ours a) k = map_of a k"
  by (simp add: drop_empty_def table_ops)

lemma drop_empty_dict [table_ops]: "dict_at (drop_empty key ours a) k = dict_at a k"
  by (auto simp: drop_empty_def table_ops)

lemma drop_empty_untouched:
  "''scripts'' \<in> T \<Longrightarrow> untouched T x a (drop_empty ''scripts'' ours a)"
  "''devDependencies'' \<in> T \<Longrightarrow> untouched T x a (drop_empty ''devDependencies'' ours a)"
  by (rule untouched_scripts; simp add: drop_empty_top table_ops) (rule untouched_devs; simp add: drop_empty_top table_ops)

text \<open>The document a merge starts from: the app's, or the created one; with the version while it is seeded.\<close>

definition merge_start :: "jtable option \<Rightarrow> pkg_ctx \<Rightarrow> string option \<Rightarrow> jtable" where
  "merge_start current x seed =
     (let doc0 = (case current of Some d \<Rightarrow> d | None \<Rightarrow> package_created x seed)
      in case seed of Some v \<Rightarrow> if v \<noteq> [] then AList.update ''version'' (JStr v) doc0 else doc0 | None \<Rightarrow> doc0)"

lemma package_merge_runs:
  assumes "package_merge ver ft current x seed = Inr (doc, left)"
  obtains s1 scripts js s2 s3 s4 where
    "foldE (metadata_step x) (metadata_keys x) (merge_start current x seed, []) = Inr s1"
    "package_scripts ft x = Inr scripts"
    "foldE (scripts_step x (concat (map (map fst \<circ> snd) scripts) @ [''check''])) scripts s1 = Inr s2"
    "after_scripts x (concat (map (map fst \<circ> snd) scripts) @ [''check'']) js (dict_at (fst s1) ''scripts'') s2 = Inr s3"
    "foldE (devs_step ver x (concat (map (map fst \<circ> snd) (dev_floors x)))) (dev_floors x)
       (drop_empty ''scripts'' (case current of None \<Rightarrow> True | Some c \<Rightarrow> ''scripts'' \<notin> fst ` set c) (fst s3), snd s3) = Inr s4"
    "doc = drop_empty ''devDependencies'' (case current of None \<Rightarrow> True
       | Some c \<Rightarrow> ''devDependencies'' \<notin> fst ` set c \<or> truthy (entry c ''devDependencies'')) (fst s4)"
  using assms unfolding package_merge_def Let_def merge_start_def [unfolded Let_def, symmetric] bindE_eq_Inr_iff
  by blast

text \<open>From the end of the metadata on, only the scripts and the development dependencies are written.\<close>

lemma merge_tail_untouched:
  assumes "package_scripts ft x = Inr scripts"
    "foldE (scripts_step x order) scripts s1 = Inr s2"
    "after_scripts x order js before s2 = Inr s3"
    "foldE (devs_step ver x dorder) (dev_floors x) (drop_empty ''scripts'' o1 (fst s3), snd s3) = Inr s4"
    "''scripts'' \<in> T" "''devDependencies'' \<in> T"
  shows "untouched T x (fst s1) (drop_empty ''devDependencies'' o2 (fst s4))"
proof -
  let ?Q = "\<lambda>s. untouched T x (fst s1) (fst s)"
  have step: "?Q s \<Longrightarrow> untouched T x (fst s) (fst s') \<Longrightarrow> ?Q s'" for s s' :: merged using untouched_trans by blast
  have s: "?Q b" if "mt \<in> set scripts" "scripts_step x order mt a = Inr b" "?Q a" for mt order a b
  proof -
    obtain m tbl where mt: "mt = (m, tbl)" by fastforce
    show ?thesis
    proof (rule foldE_keeps [where Q = ?Q, OF _ that(2) [unfolded scripts_step_def] that(3)])
      fix kv c d assume k: "kv \<in> set (snd mt)" "script_step x order (fst mt) kv c = Inr d" "?Q c"
      obtain key v where kv: "kv = (key, v)" by fastforce
      have "key \<in> managed_scripts" using package_scripts_keys [OF assms(1)] that(1) k(1) unfolding mt kv by auto
      with script_step_untouched [OF k(2) [unfolded kv]] step k(3) assms(5) show "?Q d" by blast
    qed
  qed
  have 2: "?Q s2" by (rule foldE_keeps [where Q = ?Q, OF _ assms(2)]) (use s in blast, simp)
  have 3: "?Q s3" using step [OF 2] after_scripts_untouched [OF assms(3,5)] by blast
  have d: "?Q b" if "mt \<in> set (dev_floors x)" "devs_step ver x order mt a = Inr b" "?Q a" for mt order a b
  proof (rule foldE_keeps [where Q = ?Q, OF _ that(2) [unfolded devs_step_def] that(3)])
    fix pf c d assume k: "pf \<in> set (snd mt)"
      "dev_step ver x order (fst mt) (is_dict (entry (fst a) ''devDependencies'')) pf c = Inr d" "?Q c"
    obtain pkg flr where pf: "pf = (pkg, flr)" by fastforce
    have "pkg \<in> managed_devs x" using that(1) k(1) unfolding managed_devs_def pf by force
    with dev_step_untouched [OF k(2) [unfolded pf]] step k(3) assms(6) show "?Q d" by blast
  qed
  have "?Q s4"
    by (rule foldE_keeps [where Q = ?Q, OF _ assms(4)]) (use d in blast, use 3 untouched_trans drop_empty_untouched(1) assms(5) in auto)
  then show ?thesis using untouched_trans drop_empty_untouched(2) assms(6) by blast
qed

text \<open>
  C17. What the merge of \<^verbatim>\<open>package.json\<close> leaves alone, whatever the context: every top-level key but the managed
  ones keeps its value (the version too, unless it is being seeded), every script but the managed ones does while
  no retired script is being dropped, and every development dependency without a floor does.
\<close>

theorem package_merge_keeps_the_app:
  assumes "package_merge ver ft current x seed = Inr (doc, left)"
  shows "(\<forall>k. k \<notin> managed_top \<longrightarrow> map_of doc k = map_of (merge_start current x seed) k) \<and>
    (\<not> retires_update_assets x \<longrightarrow> (\<forall>k. k \<notin> managed_scripts \<longrightarrow>
       map_of (dict_at doc ''scripts'') k = map_of (dict_at (merge_start current x seed) ''scripts'') k)) \<and>
    (\<forall>k. k \<notin> managed_devs x \<longrightarrow>
       map_of (dict_at doc ''devDependencies'') k = map_of (dict_at (merge_start current x seed) ''devDependencies'') k)"
proof -
  let ?a = "merge_start current x seed"
  obtain s1 scripts js s2 s3 s4 where r:
    "foldE (metadata_step x) (metadata_keys x) (?a, []) = Inr s1"
    "package_scripts ft x = Inr scripts"
    "foldE (scripts_step x (concat (map (map fst \<circ> snd) scripts) @ [''check''])) scripts s1 = Inr s2"
    "after_scripts x (concat (map (map fst \<circ> snd) scripts) @ [''check'']) js (dict_at (fst s1) ''scripts'') s2 = Inr s3"
    "foldE (devs_step ver x (concat (map (map fst \<circ> snd) (dev_floors x)))) (dev_floors x)
       (drop_empty ''scripts'' (case current of None \<Rightarrow> True | Some c \<Rightarrow> ''scripts'' \<notin> fst ` set c) (fst s3), snd s3) = Inr s4"
    "doc = drop_empty ''devDependencies'' (case current of None \<Rightarrow> True
       | Some c \<Rightarrow> ''devDependencies'' \<notin> fst ` set c \<or> truthy (entry c ''devDependencies'')) (fst s4)"
    by (rule package_merge_runs [OF assms])
  let ?Q = "\<lambda>s. untouched managed_top x ?a (fst s)"
  have "?Q s1"
    by (rule foldE_keeps [where Q = ?Q, OF _ r(1)]) (use metadata_step_untouched untouched_trans in blast, simp)
  moreover have "untouched managed_top x (fst s1) doc"
    unfolding r(6) by (rule merge_tail_untouched [OF r(2-5)]) (simp_all add: managed_top_def)
  ultimately have "untouched managed_top x ?a doc" by (rule untouched_trans)
  then show ?thesis by (simp add: untouched_def)
qed

section \<open>What the merge manages\<close>

text \<open>In a loop over distinct items, what each iteration establishes for its item and the others keep holds of
  all of them at the end.\<close>

lemma foldE_each:
  assumes "foldE f xs a = Inr b" "distinct xs"
    "\<And>x a b. x \<in> set xs \<Longrightarrow> f x a = Inr b \<Longrightarrow> P x b"
    "\<And>x y a b. x \<in> set xs \<Longrightarrow> y \<in> set xs \<Longrightarrow> x \<noteq> y \<Longrightarrow> f y a = Inr b \<Longrightarrow> P x a \<Longrightarrow> P x b"
  shows "\<forall>x \<in> set xs. P x b"
  using assms
proof (induction xs arbitrary: a)
  case (Cons x xs)
  from Cons.prems(1) obtain c where c: "f x a = Inr c" "foldE f xs c = Inr b" by (auto elim!: bindE_InrE)
  have "\<forall>y \<in> set xs. P y b"
  proof (rule Cons.IH [OF c(2)])
    show "distinct xs" using Cons.prems(2) by simp
    show "P y d" if "y \<in> set xs" "f y c = Inr d" for y c d using Cons.prems(3) [of y c d] that by simp
    show "P y d" if "y \<in> set xs" "z \<in> set xs" "y \<noteq> z" "f z c = Inr d" "P y c" for y z c d
      using Cons.prems(4) [of y z c d] that by simp
  qed
  moreover have "P x c" using Cons.prems(3) c(1) by simp
  then have "P x b"
    by (rule foldE_keeps [where Q = "P x", OF _ c(2), rotated]) (use Cons.prems(2,4) in auto)
  ultimately show ?case by simp
qed simp

text \<open>The metadata.\<close>

lemma get_set_key: "get_key (set_key key v d) key = v"
  by (cases "partition1 (CHR ''.'') key") (auto simp: get_key_def set_key_def table_ops)

lemma get_key_cong: "map_of d (fst (partition1 (CHR ''.'') key)) = map_of e (fst (partition1 (CHR ''.'') key)) \<Longrightarrow>
    get_key d key = get_key e key"
  by (cases "partition1 (CHR ''.'') key") (auto simp: get_key_def entry_def)

definition meta_set :: "pkg_ctx \<Rightarrow> string \<times> json option \<Rightarrow> merged \<Rightarrow> bool" where
  "meta_set x kv s \<longleftrightarrow> (on_module x ''metadata'' \<longrightarrow> (\<forall>v. snd kv = Some v \<longrightarrow> get_key (fst s) (fst kv) = v))"

lemma metadata_distinct: "distinct (map (\<lambda>kv. fst (partition1 (CHR ''.'') (fst kv))) (metadata_keys x))"
  by (simp add: metadata_keys_def)

lemma metadata_step_other:
  "metadata_step x kv s = Inr s' \<Longrightarrow> k \<noteq> fst (partition1 (CHR ''.'') (fst kv)) \<Longrightarrow> map_of (fst s') k = map_of (fst s) k"
  unfolding metadata_step_def retract_def
  by (cases kv) (auto simp: Let_def set_key_top drop_key_top table_ops elim!: bindE_InrE split: option.splits if_splits)

lemma metadata_all_set:
  assumes "foldE (metadata_step x) (metadata_keys x) s = Inr s'"
  shows "\<forall>kv \<in> set (metadata_keys x). meta_set x kv s'"
proof (rule foldE_each [OF assms])
  show "distinct (metadata_keys x)" using metadata_distinct [of x] unfolding distinct_map by blast
  show "meta_set x kv b" if "metadata_step x kv a = Inr b" for kv a b
    using that by (auto simp: meta_set_def metadata_step_def get_set_key Let_def split: prod.splits)
  show "meta_set x kv b" if "kv \<in> set (metadata_keys x)" "jw \<in> set (metadata_keys x)" "kv \<noteq> jw"
      "metadata_step x jw a = Inr b" "meta_set x kv a" for kv jw a b
  proof -
    have "fst (partition1 (CHR ''.'') (fst kv)) \<noteq> fst (partition1 (CHR ''.'') (fst jw))"
      using metadata_distinct that(1,2,3) unfolding distinct_map inj_on_def by blast
    from metadata_step_other [OF that(4) this] have "get_key (fst b) (fst kv) = get_key (fst a) (fst kv)"
      by (rule get_key_cong)
    with that(5) show ?thesis by (simp add: meta_set_def)
  qed
qed

text \<open>The scripts.\<close>

definition script_set :: "pkg_ctx \<Rightarrow> string \<Rightarrow> string \<times> string option \<Rightarrow> merged \<Rightarrow> bool" where
  "script_set x m kv s \<longleftrightarrow> (module_on x m \<longrightarrow> map_of (dict_at (fst s) ''scripts'') (fst kv) = map_option JStr (snd kv))"

lemma script_step_sets: "script_step x order m kv s = Inr s' \<Longrightarrow> script_set x m kv s'"
  by (cases kv) (auto simp: script_set_def script_step_def Let_def table_ops split: option.splits)

lemma script_step_other:
  "script_step x order m kv s = Inr s' \<Longrightarrow> k \<noteq> fst kv \<Longrightarrow>
   map_of (dict_at (fst s') ''scripts'') k = map_of (dict_at (fst s) ''scripts'') k"
  unfolding script_step_def
  by (cases kv) (auto simp: Let_def table_ops elim!: bindE_InrE split: option.splits json.splits if_splits)

lemma package_scripts_distinct:
  "package_scripts ft x = Inr scripts \<Longrightarrow> distinct (concat (map (map fst \<circ> snd) scripts)) \<and> distinct (map fst scripts)"
  unfolding package_scripts_def Let_def by (auto elim!: bindE_InrE)

lemma keys_apart:
  assumes "distinct (concat (map (map fst \<circ> snd) ms))" "mt \<in> set ms" "nt \<in> set ms" "kv \<in> set (snd mt)" "jw \<in> set (snd nt)"
    "fst kv = fst jw"
  shows "kv = jw \<and> mt = nt"
proof -
  have m: "mt = nt"
  proof (rule ccontr)
    assume "mt \<noteq> nt"
    with assms(1-3) have "set (map fst (snd mt)) \<inter> set (map fst (snd nt)) = {}"
    proof (induction ms)
      case (Cons a ms)
      then show ?case by (auto simp: disjoint_iff)
    qed simp
    with assms(4-6) show False by force
  qed
  have "distinct (map fst (snd mt))" using assms(1,2) by (induction ms) auto
  then have "kv = jw" using assms(4-6) m by (metis eq_key_imp_eq_value prod.collapse)
  with m show ?thesis by simp
qed

text \<open>A loop over the modules of a loop over their keys.\<close>

lemma foldE_tables:
  assumes "foldE (\<lambda>mt a. foldE (f mt a) (snd mt) a) ms a = Inr b" "distinct (concat (map (map fst \<circ> snd) ms))" "distinct (map fst ms)"
    "\<And>mt kv c a b. mt \<in> set ms \<Longrightarrow> kv \<in> set (snd mt) \<Longrightarrow> f mt c kv a = Inr b \<Longrightarrow> P mt kv b"
    "\<And>mt kv nt jw c a b. mt \<in> set ms \<Longrightarrow> kv \<in> set (snd mt) \<Longrightarrow> nt \<in> set ms \<Longrightarrow> jw \<in> set (snd nt) \<Longrightarrow>
       fst kv \<noteq> fst jw \<Longrightarrow> f nt c jw a = Inr b \<Longrightarrow> P mt kv a \<Longrightarrow> P mt kv b"
  shows "\<forall>mt \<in> set ms. \<forall>kv \<in> set (snd mt). P mt kv b"
proof (rule foldE_each [OF assms(1)])
  show "distinct ms" using assms(3) by (simp add: distinct_map)
  show "\<forall>kv \<in> set (snd mt). P mt kv d" if m: "mt \<in> set ms" "foldE (f mt c) (snd mt) c = Inr d" for mt c d
  proof (rule foldE_each [OF m(2)])
    show d: "distinct (snd mt)" using assms(2) m(1) by (induction ms) (auto simp: distinct_map)
    show "P mt kv e" if "kv \<in> set (snd mt)" "f mt c kv a = Inr e" for kv a e
      using assms(4) m(1) that by blast
    show "P mt kv e" if k: "kv \<in> set (snd mt)" "jw \<in> set (snd mt)" "kv \<noteq> jw" "f mt c jw a = Inr e" "P mt kv a" for kv jw a e
      using assms(5) [OF m(1) k(1) m(1) k(2) _ k(4,5)] keys_apart [OF assms(2) m(1) m(1) k(1,2)] k(3) by blast
  qed
  show "\<forall>kv \<in> set (snd mt). P mt kv d"
    if m: "mt \<in> set ms" "nt \<in> set ms" "mt \<noteq> nt" "foldE (f nt c) (snd nt) c = Inr d" "\<forall>kv \<in> set (snd mt). P mt kv c" for mt nt c d
  proof
    fix kv assume kv: "kv \<in> set (snd mt)"
    show "P mt kv d"
    proof (rule foldE_keeps [where Q = "P mt kv", OF _ m(4)])
      show "P mt kv e" if k: "jw \<in> set (snd nt)" "f nt c jw a = Inr e" "P mt kv a" for jw a e
        using assms(5) [OF m(1) kv m(2) k(1) _ k(2,3)] keys_apart [OF assms(2) m(1,2) kv k(1)] m(3) by blast
      show "P mt kv c" using m(5) kv by blast
    qed
  qed
qed

lemma scripts_all_set:
  assumes "package_scripts ft x = Inr scripts" "foldE (scripts_step x order) scripts s = Inr s'"
  shows "\<forall>mt \<in> set scripts. \<forall>kv \<in> set (snd mt). script_set x (fst mt) kv s'"
proof -
  have "foldE (\<lambda>mt a. foldE (script_step x order (fst mt)) (snd mt) a) scripts s = Inr s'"
    using assms(2) unfolding scripts_step_def .
  then show ?thesis
  proof (rule foldE_tables [where f = "\<lambda>mt c. script_step x order (fst mt)" and P = "\<lambda>mt kv. script_set x (fst mt) kv"])
    show "script_set x (fst mt) kv b" if "script_step x order (fst mt) kv a = Inr b" for mt kv a b
      using that by (rule script_step_sets)
    show "script_set x (fst mt) kv b"
      if "script_step x order (fst nt) jw a = Inr b" "fst kv \<noteq> fst jw" "script_set x (fst mt) kv a" for mt kv nt jw a b
      using script_step_other [OF that(1,2)] that(3) by (simp add: script_set_def)
  qed (use package_scripts_distinct [OF assms(1)] in blast)+
qed

lemma after_scripts_cases:
  assumes "after_scripts x order js before s = Inr s'" "entry (fst s) ''scripts'' = JObj sc"
  obtains sc1 sc2 l where "build_step x (if retires_update_assets x then retire_steps sc else sc) = Inr sc1"
    "check_step x order js before sc1 = Inr (sc2, l)" "fst s' = AList.update ''scripts'' (JObj sc2) (fst s)"
  using assms unfolding after_scripts_def by (auto simp: Let_def elim!: bindE_InrE split: if_splits)

lemma after_scripts_other:
  assumes "after_scripts x order js before s = Inr s'" "k \<notin> {''check'', ''build''}" "\<not> retires_update_assets x"
  shows "map_of (dict_at (fst s') ''scripts'') k = map_of (dict_at (fst s) ''scripts'') k"
proof (cases "\<exists>sc. entry (fst s) ''scripts'' = JObj sc")
  case True
  then obtain sc where sc: "entry (fst s) ''scripts'' = JObj sc" by blast
  obtain sc1 sc2 l where c: "build_step x (if retires_update_assets x then retire_steps sc else sc) = Inr sc1"
    "check_step x order js before sc1 = Inr (sc2, l)" "fst s' = AList.update ''scripts'' (JObj sc2) (fst s)"
    by (rule after_scripts_cases [OF assms(1) sc])
  show ?thesis using build_step_keys [OF c(1), of k] check_step_keys [OF c(2), of k] assms(2,3) sc
    by (simp add: c(3) table_ops)
next
  case False
  with assms(1) have "s' = s" unfolding after_scripts_def by (auto split: json.splits)
  then show ?thesis by simp
qed

lemma check_script_cong: "(\<And>n. n \<noteq> ''check'' \<Longrightarrow> map_of a n = map_of b n) \<Longrightarrow> check_script a = check_script b"
  by (simp add: check_script_def entry_def CHECK_PARTS_def)

lemma check_step_sets:
  assumes "check_step x order js before sc = Inr (sc', l)" "js_oxc (x_conf x)"
  shows "map_of sc' ''check'' = map_option JStr (check_script sc')"
proof -
  have "check_script sc' = check_script sc" using check_step_keys [OF assms(1)] by (rule check_script_cong)
  with assms show ?thesis by (auto simp: check_step_def table_ops split: option.splits)
qed

lemma after_scripts_check:
  assumes "after_scripts x order js before s = Inr s'" "js_oxc (x_conf x)" "is_dict (entry (fst s) ''scripts'')"
  shows "map_of (dict_at (fst s') ''scripts'') ''check'' = map_option JStr (check_script (dict_at (fst s') ''scripts''))"
proof -
  obtain sc where sc: "entry (fst s) ''scripts'' = JObj sc" using assms(3) by (auto simp: is_dict_iff)
  obtain sc1 sc2 l where "check_step x order js before sc1 = Inr (sc2, l)" "fst s' = AList.update ''scripts'' (JObj sc2) (fst s)"
    by (rule after_scripts_cases [OF assms(1) sc])
  then show ?thesis using check_step_sets assms(2) by (simp add: table_ops)
qed

text \<open>The build.\<close>

lemma rstrip_solid: "u \<noteq> [] \<Longrightarrow> \<not> is_ws (last u) \<Longrightarrow> rstrip u = u"
  by (cases u rule: rev_cases) simp_all

lemma rstrip_step [simp]: "rstrip (u @ VITE_REGISTER) = u @ VITE_REGISTER"
  by (rule rstrip_solid) (simp_all add: VITE_REGISTER_def is_ws_def)

lemma rstrip_steps: "rstrip (''('' @ u @ '') && '' @ VITE_REGISTER) = ''('' @ u @ '') && '' @ VITE_REGISTER"
    "rstrip (u @ '' && '' @ VITE_REGISTER) = u @ '' && '' @ VITE_REGISTER"
  using rstrip_step [of "''('' @ u @ '') && ''"] rstrip_step [of "u @ '' && ''"] by simp_all

lemma before_step_ends: "before_step text = Some b \<Longrightarrow> endswith text VITE_REGISTER"
  by (simp add: before_step_def split: if_splits)

lemma ends_step: "endswith (''('' @ u @ '') && '' @ VITE_REGISTER) VITE_REGISTER" "endswith (u @ '' && '' @ VITE_REGISTER) VITE_REGISTER"
  unfolding endswith_iff by (rule exI [of _ "''('' @ u @ '') && ''"], simp) (rule exI [of _ "u @ '' && ''"], simp)

lemma registered_ends: "endswith (rstrip (registered_build b)) VITE_REGISTER"
  unfolding registered_build_def Let_def
  by (auto simp only: rstrip_steps ends_step before_step_ends split: option.splits if_splits)

lemma build_step_registers:
  assumes "build_step x sc = Inr sc'" "c8_live x" "map_of sc' ''build'' = Some (JStr b)"
  shows "endswith (rstrip b) VITE_REGISTER"
  using assms registered_ends unfolding build_step_def by (auto simp: entry_def split: json.splits option.splits)

lemma after_scripts_build:
  assumes "after_scripts x order js before s = Inr s'" "c8_live x" "map_of (dict_at (fst s') ''scripts'') ''build'' = Some (JStr b)"
  shows "endswith (rstrip b) VITE_REGISTER"
proof (cases "\<exists>sc. entry (fst s) ''scripts'' = JObj sc")
  case True
  then obtain sc where sc: "entry (fst s) ''scripts'' = JObj sc" by blast
  obtain sc1 sc2 l where c: "build_step x (if retires_update_assets x then retire_steps sc else sc) = Inr sc1"
    "check_step x order js before sc1 = Inr (sc2, l)" "fst s' = AList.update ''scripts'' (JObj sc2) (fst s)"
    by (rule after_scripts_cases [OF assms(1) sc])
  have "map_of sc1 ''build'' = Some (JStr b)" using check_step_keys [OF c(2), of "''build''"] assms(3) by (simp add: c(3) table_ops)
  with build_step_registers [OF c(1) assms(2)] show ?thesis by blast
next
  case False
  with assms(1) have "s' = s" unfolding after_scripts_def by (auto split: json.splits)
  moreover have "dict_at (fst s) ''scripts'' = []" using False by (cases "entry (fst s) ''scripts''") (auto simp: dict_at_def)
  ultimately show ?thesis using assms(3) by simp
qed

text \<open>The floors.\<close>

definition dev_held :: "(string \<Rightarrow> 'v::linorder option) \<Rightarrow> pkg_ctx \<Rightarrow> string \<Rightarrow> string \<times> string \<Rightarrow> merged \<Rightarrow> bool" where
  "dev_held ver x m pf s \<longleftrightarrow>
     (module_on x m \<longrightarrow> (\<exists>h. map_of (dict_at (fst s) ''devDependencies'') (fst pf) = Some (JStr h) \<and>
        (rmatch NON_REGISTRY h \<or> range_ok ver h (snd pf))))"

lemma entry_str: "entry t k = JStr h \<Longrightarrow> map_of t k = Some (JStr h)"
  by (auto simp: entry_def split: option.splits)

lemma dev_step_holds:
  assumes "dev_step ver x order m live pf s = Inr s'" "is_floor ver (snd pf)"
  shows "dev_held ver x m pf s'"
proof -
  obtain pkg flr where pf: "pf = (pkg, flr)" by fastforce
  show ?thesis
  proof (cases "module_on x m")
    case True
    let ?have = "if live then entry (dict_at (fst s) ''devDependencies'') pkg else JNull"
    let ?fine = "(case ?have of JStr h \<Rightarrow> range_ok ver h flr | _ \<Rightarrow> False) \<or> (case ?have of JStr h \<Rightarrow> rmatch NON_REGISTRY h | _ \<Rightarrow> False)"
    show ?thesis
    proof (cases ?fine)
      case fine: True
      with True assms(1) have "s' = s" unfolding pf dev_step_def Let_def by simp
      moreover from fine obtain h where "?have = JStr h" "range_ok ver h flr \<or> rmatch NON_REGISTRY h"
        by (cases ?have) auto
      ultimately show ?thesis unfolding dev_held_def pf by (auto dest!: entry_str split: if_splits)
    next
      case False
      with True assms(1) have "map_of (dict_at (fst s') ''devDependencies'') pkg = Some (JStr (caret flr))"
        unfolding pf dev_step_def Let_def by (auto simp: table_ops)
      with caret_meets assms(2) show ?thesis unfolding dev_held_def pf by auto
    qed
  qed (simp add: dev_held_def)
qed

lemma dev_step_other:
  "dev_step ver x order m live pf s = Inr s' \<Longrightarrow> k \<noteq> fst pf \<Longrightarrow>
   map_of (dict_at (fst s') ''devDependencies'') k = map_of (dict_at (fst s) ''devDependencies'') k"
  unfolding dev_step_def Let_def
  by (cases pf) (auto simp: table_ops elim!: bindE_InrE split: if_splits)

lemma dev_step_scripts: "dev_step ver x order m live pf s = Inr s' \<Longrightarrow> dict_at (fst s') ''scripts'' = dict_at (fst s) ''scripts''"
  unfolding dev_step_def Let_def
  by (cases pf) (auto simp: table_ops elim!: bindE_InrE split: if_splits)

lemma devs_scripts: "foldE (devs_step ver x order) ms s = Inr s' \<Longrightarrow> dict_at (fst s') ''scripts'' = dict_at (fst s) ''scripts''"
  by (rule foldE_keeps [where Q = "\<lambda>a. dict_at (fst a) ''scripts'' = dict_at (fst s) ''scripts''"])
    (auto simp: devs_step_def elim!: foldE_keeps [where Q = "\<lambda>a. dict_at (fst a) ''scripts'' = dict_at (fst s) ''scripts''", rotated]
      dest: dev_step_scripts)

lemma devs_all_held:
  assumes "foldE (devs_step ver x order) ms s = Inr s'" "distinct (concat (map (map fst \<circ> snd) ms))" "distinct (map fst ms)"
    "\<forall>mt \<in> set ms. \<forall>pf \<in> set (snd mt). is_floor ver (snd pf)"
  shows "\<forall>mt \<in> set ms. \<forall>pf \<in> set (snd mt). dev_held ver x (fst mt) pf s'"
proof -
  have "foldE (\<lambda>mt a. foldE (dev_step ver x order (fst mt) (is_dict (entry (fst a) ''devDependencies''))) (snd mt) a) ms s = Inr s'"
    using assms(1) unfolding devs_step_def .
  then show ?thesis
  proof (rule foldE_tables [where f = "\<lambda>mt c. dev_step ver x order (fst mt) (is_dict (entry (fst c) ''devDependencies''))"
        and P = "\<lambda>mt pf. dev_held ver x (fst mt) pf"])
    show "dev_held ver x (fst mt) pf b" if "mt \<in> set ms" "pf \<in> set (snd mt)"
        "dev_step ver x order (fst mt) (is_dict (entry (fst c) ''devDependencies'')) pf a = Inr b" for mt pf c a b
      using dev_step_holds [OF that(3)] assms(4) that(1,2) by blast
    show "dev_held ver x (fst mt) pf b"
      if "dev_step ver x order (fst nt) (is_dict (entry (fst c) ''devDependencies'')) qf a = Inr b" "fst pf \<noteq> fst qf"
        "dev_held ver x (fst mt) pf a" for mt pf nt qf c a b
      using dev_step_other [OF that(1,2)] that(3) by (simp add: dev_held_def)
  qed (rule assms(2,3))+
qed

lemma dev_floors_modules: "distinct (map fst (dev_floors x))"
  by (simp add: dev_floors_def Let_def)

lemma js_scripts_dict:
  assumes "package_scripts ft x = Inr scripts" "\<forall>mt \<in> set scripts. \<forall>kv \<in> set (snd mt). script_set x (fst mt) kv s" "js_oxc (x_conf x)"
  shows "is_dict (entry (fst s) ''scripts'')"
proof -
  have "\<exists>tbl. (''js'', (''format'', Some ''oxfmt'') # tbl) \<in> set scripts"
    using assms(1) unfolding package_scripts_def Let_def by (auto elim!: bindE_InrE)
  with assms(2) have "script_set x ''js'' (''format'', Some ''oxfmt'') s" by fastforce
  with assms(3) have "dict_at (fst s) ''scripts'' \<noteq> []" by (auto simp: script_set_def module_on_def on_in_def)
  then show ?thesis by (auto simp: dict_at_def is_dict_def split: json.splits)
qed

text \<open>
  What the merge of \<^verbatim>\<open>package.json\<close> guarantees when it succeeds, from whatever document: with metadata on, its
  keys have the managed values; every script of a module that is on has the managed text (or is gone, where the
  module has none), unless retired steps are being dropped; with js on, \<^verbatim>\<open>scripts.check\<close> runs exactly the parts
  the merged scripts have; a Vite app's build ends with the registration step; and every floor of a module that
  is on is met by the range of its package (or that is not a registry range, the app's choice).
\<close>

theorem package_merge_manages:
  assumes "package_merge ver ft current x seed = Inr (doc, left)" "package_scripts ft x = Inr scripts"
    "\<forall>mt \<in> set (dev_floors x). \<forall>pf \<in> set (snd mt). is_floor ver (snd pf)"
    "distinct (concat (map (map fst \<circ> snd) (dev_floors x)))"
  shows "(on_module x ''metadata'' \<longrightarrow> (\<forall>(key, v) \<in> set (metadata_keys x). \<forall>w. v = Some w \<longrightarrow> get_key doc key = w)) \<and>
    (\<not> retires_update_assets x \<longrightarrow> (\<forall>(m, tbl) \<in> set scripts. module_on x m \<longrightarrow>
       (\<forall>(key, v) \<in> set tbl. map_of (dict_at doc ''scripts'') key = map_option JStr v))) \<and>
    (js_oxc (x_conf x) \<longrightarrow>
       map_of (dict_at doc ''scripts'') ''check'' = map_option JStr (check_script (dict_at doc ''scripts''))) \<and>
    (c8_live x \<longrightarrow> (\<forall>b. map_of (dict_at doc ''scripts'') ''build'' = Some (JStr b) \<longrightarrow> endswith (rstrip b) VITE_REGISTER)) \<and>
    (\<forall>(m, tbl) \<in> set (dev_floors x). module_on x m \<longrightarrow> (\<forall>(pkg, flr) \<in> set tbl.
       \<exists>h. map_of (dict_at doc ''devDependencies'') pkg = Some (JStr h) \<and> (rmatch NON_REGISTRY h \<or> range_ok ver h flr)))"
proof -
  obtain s1 sc js s2 s3 s4 where r:
    "foldE (metadata_step x) (metadata_keys x) (merge_start current x seed, []) = Inr s1"
    "package_scripts ft x = Inr sc"
    "foldE (scripts_step x (concat (map (map fst \<circ> snd) sc) @ [''check''])) sc s1 = Inr s2"
    "after_scripts x (concat (map (map fst \<circ> snd) sc) @ [''check'']) js (dict_at (fst s1) ''scripts'') s2 = Inr s3"
    "foldE (devs_step ver x (concat (map (map fst \<circ> snd) (dev_floors x)))) (dev_floors x)
       (drop_empty ''scripts'' (case current of None \<Rightarrow> True | Some c \<Rightarrow> ''scripts'' \<notin> fst ` set c) (fst s3), snd s3) = Inr s4"
    "doc = drop_empty ''devDependencies'' (case current of None \<Rightarrow> True
       | Some c \<Rightarrow> ''devDependencies'' \<notin> fst ` set c \<or> truthy (entry c ''devDependencies'')) (fst s4)"
    by (rule package_merge_runs [OF assms(1)])
  have sc: "sc = scripts" using r(2) assms(2) by simp
  have same: "dict_at doc ''scripts'' = dict_at (fst s3) ''scripts''"
    using devs_scripts [OF r(5)] by (simp add: r(6) drop_empty_dict)
  note set2 = scripts_all_set [OF r(2,3)]
  have meta: "get_key doc key = w" if "on_module x ''metadata''" "(key, Some w) \<in> set (metadata_keys x)" for key w
  proof -
    have "untouched {''scripts'', ''devDependencies''} x (fst s1) doc"
      unfolding r(6) by (rule merge_tail_untouched [OF r(2-5)]) simp_all
    moreover have "fst (partition1 (CHR ''.'') key) \<notin> {''scripts'', ''devDependencies''}" using metadata_heads [OF that(2)] by blast
    ultimately have "get_key doc key = get_key (fst s1) key" by (intro get_key_cong) (simp add: untouched_def)
    moreover have "meta_set x (key, Some w) s1" using metadata_all_set [OF r(1)] that(2) by blast
    ultimately show ?thesis using that(1) by (simp add: meta_set_def)
  qed
  have scr: "map_of (dict_at doc ''scripts'') key = map_option JStr v"
    if n: "\<not> retires_update_assets x" "(m, tbl) \<in> set scripts" "module_on x m" "(key, v) \<in> set tbl" for m tbl key v
  proof -
    have "key \<notin> {''check'', ''build''}" using package_scripts_keys [OF assms(2) n(2,4)] by blast
    from after_scripts_other [OF r(4) this n(1)] have "map_of (dict_at doc ''scripts'') key = map_of (dict_at (fst s2) ''scripts'') key"
      unfolding same .
    moreover have "script_set x m (key, v) s2" using set2 n(2,4) unfolding sc by fastforce
    ultimately show ?thesis using n(3) by (simp add: script_set_def)
  qed
  have chk: "js_oxc (x_conf x) \<longrightarrow>
       map_of (dict_at doc ''scripts'') ''check'' = map_option JStr (check_script (dict_at doc ''scripts''))"
    using after_scripts_check [OF r(4)] js_scripts_dict [OF r(2) set2] unfolding same by blast
  have bld: "c8_live x \<longrightarrow> (\<forall>b. map_of (dict_at doc ''scripts'') ''build'' = Some (JStr b) \<longrightarrow> endswith (rstrip b) VITE_REGISTER)"
    using after_scripts_build [OF r(4)] unfolding same by blast
  have dev: "\<exists>h. map_of (dict_at doc ''devDependencies'') pkg = Some (JStr h) \<and> (rmatch NON_REGISTRY h \<or> range_ok ver h flr)"
    if "(m, tbl) \<in> set (dev_floors x)" "module_on x m" "(pkg, flr) \<in> set tbl" for m tbl pkg flr
  proof -
    have "dev_held ver x m (pkg, flr) s4"
      using devs_all_held [OF r(5) assms(4) dev_floors_modules assms(3)] that(1,3) by fastforce
    then show ?thesis using that(2) unfolding r(6) dev_held_def drop_empty_dict by simp
  qed
  show ?thesis using meta scr chk bld dev by (intro conjI) blast+
qed

section \<open>The registration step of a build\<close>

text \<open>A script whose unquoted closing parentheses all close something; and one whose groups are all closed (a
  further one would close nothing).\<close>

definition closes_ok :: "nat \<Rightarrow> shell_mode \<Rightarrow> string \<Rightarrow> bool" where
  "closes_ok d m s \<longleftrightarrow> (\<forall>p \<in> set (zip s (depths_from d m s)). fst p = CHR '')'' \<longrightarrow> snd p \<noteq> Some 0)"

definition balanced :: "string \<Rightarrow> bool" where
  "balanced s \<longleftrightarrow> closes_ok 0 Plain s \<and> last (depths (s @ '')'')) = Some 0"

lemma length_depths [simp]: "length (depths_from d m s) = length s"
proof (induction s arbitrary: d m)
  case (Cons c s)
  then show ?case by (cases m) simp_all
qed simp

lemma depths_ne [simp]: "depths_from d m (s @ [c]) \<noteq> []"
  by (simp flip: length_0_conv)

lemma closes_Cons:
  "closes_ok d m (c # s) \<longleftrightarrow>
     (case m of
        Escaped \<Rightarrow> closes_ok d Plain s
      | Quoted q \<Rightarrow> closes_ok d (if c = q then Plain else Quoted q) s
      | Plain \<Rightarrow>
          if c = CHR 0x5C then closes_ok d Escaped s
          else if c = CHR 0x27 \<or> c = CHR 0x22 then closes_ok d (Quoted c) s
          else if c = CHR ''('' then closes_ok (d + 1) Plain s
          else if c = CHR '')'' then d \<noteq> 0 \<and> closes_ok (d - 1) Plain s
          else closes_ok d Plain s)"
  by (auto simp: closes_ok_def split: shell_mode.split)

text \<open>One group deeper, nothing is at the top level and every depth is one more.\<close>

lemma deeper:
  "closes_ok d m s \<Longrightarrow>
   Some 0 \<notin> set (depths_from (Suc d) m (s @ [c])) \<and>
   last (depths_from (Suc d) m (s @ [c])) = map_option Suc (last (depths_from d m (s @ [c])))"
proof (induction s arbitrary: d m)
  case Nil
  then show ?case by (auto split: shell_mode.split)
next
  case (Cons a s)
  show ?case
  proof (cases m)
    case Plain
    with Cons.prems have p: "closes_ok d Plain (a # s)" by simp
    consider "a = CHR 0x5C" | "a = CHR 0x27 \<or> a = CHR 0x22" | "a = CHR ''(''" | "a = CHR '')''"
      | "a \<noteq> CHR 0x5C" "a \<noteq> CHR 0x27" "a \<noteq> CHR 0x22" "a \<noteq> CHR ''(''" "a \<noteq> CHR '')''" by blast
    then show ?thesis
    proof cases
      case 4
      with p obtain e where e: "d = Suc e" "closes_ok e Plain s" by (cases d) (auto simp: closes_Cons)
      with Cons.IH [OF e(2)] 4 Plain show ?thesis by simp
    qed (use p Cons.IH Plain in \<open>auto simp: closes_Cons\<close>)
  qed (use Cons in \<open>auto simp: closes_Cons\<close>)
qed

lemma top_level_group:
  assumes "closes_ok 0 Plain s"
  shows "set (top_level (''('' @ s @ '')'')) \<subseteq> {CHR '' ''}"
proof -
  have d: "depths (''('' @ s @ '')'') = Some 1 # depths_from (Suc 0) Plain (s @ '')'')" by (simp add: depths_def)
  have "Some 0 \<notin> set (depths (''('' @ s @ '')''))" unfolding d using deeper [OF assms, of "CHR '')''"] by simp
  then show ?thesis unfolding top_level_def by (auto dest: set_zip_rightD)
qed

lemma dir_change_word: "s \<in> rx_lang DIR_CHANGE \<Longrightarrow> CHR ''c'' \<in> set s \<or> CHR ''p'' \<in> set s"
proof -
  assume "s \<in> rx_lang DIR_CHANGE"
  then obtain a b w e where "s = a @ b @ w @ e" "w \<in> rx_lang (Alt (lit ''cd'') (lit ''pushd''))"
    unfolding DIR_CHANGE_def rx_lang.simps(4) by blast
  then show ?thesis by auto
qed

lemma group_keeps_dir: "closes_ok 0 Plain s \<Longrightarrow> \<not> changes_dir (''('' @ s @ '')'')"
  using dir_change_word [of "top_level (''('' @ s @ '')'')"] top_level_group [of s]
  by (auto simp: changes_dir_def fullmatch_iff)

text \<open>The step is found again, with what is before it.\<close>

lemma removesuffix_app [simp]: "removesuffix (u @ v) v = u"
  by (simp add: removesuffix_def endswith_iff)

lemma before_step_app: "rstrip u = u \<Longrightarrow> before_step (u @ '' && '' @ VITE_REGISTER) = Some u"
proof -
  assume u: "rstrip u = u"
  have s: "u @ '' && '' @ VITE_REGISTER = (u @ '' && '') @ VITE_REGISTER" by simp
  have "endswith ((u @ '' && '') @ VITE_REGISTER) VITE_REGISTER" by (auto simp: endswith_iff)
  moreover have "rstrip (u @ '' && '') = (u @ '' '') @ ''&&''"
    using rstrip_by_append1 [of is_ws "u @ '' &&''" "CHR '' ''"] rstrip_solid [of "u @ '' &&''"] by (simp add: is_ws_def)
  moreover have "rstrip (u @ '' '') = u" using rstrip_by_append1 [of is_ws u "CHR '' ''"] u by simp
  ultimately show ?thesis
    unfolding s before_step_def by (simp only: removesuffix_app if_True Let_def) (auto simp: endswith_iff)
qed

lemma closes_prefix: "closes_ok d m (u @ v) \<Longrightarrow> closes_ok d m u"
proof (induction u arbitrary: d m)
  case (Cons a u)
  then show ?case by (auto simp: closes_Cons split: shell_mode.splits if_splits)
qed (simp add: closes_ok_def)

lemma before_step_prefix: "before_step t = Some b \<Longrightarrow> \<exists>v. t = b @ v"
proof -
  assume b: "before_step t = Some b"
  have r: "\<exists>v. x = rstrip x @ v" for x :: string
  proof -
    have "rev x = takeWhile is_ws (rev x) @ dropWhile is_ws (rev x)" by simp
    then have "x = rev (dropWhile is_ws (rev x)) @ rev (takeWhile is_ws (rev x))" by (metis rev_append rev_rev_ident)
    then show ?thesis by (auto simp: rstrip_by_def)
  qed
  have s: "\<exists>v. x = removesuffix x y @ v" for x y :: string
    by (auto simp: removesuffix_def endswith_iff)
  from b have "b = rstrip (removesuffix (rstrip (removesuffix t VITE_REGISTER)) ''&&'')"
    by (auto simp: before_step_def Let_def split: if_splits)
  then show ?thesis using r s by (metis append_assoc)
qed

lemma before_step_stripped: "before_step t = Some b \<Longrightarrow> rstrip b = b"
  by (auto simp: before_step_def Let_def split: if_splits)

lemma group_solid: "rstrip (''('' @ u @ '')'') = ''('' @ u @ '')''"
  by (rule rstrip_solid) (simp_all add: is_ws_def)

text \<open>The three shapes of a registered build.\<close>

lemma registered_cases:
  obtains (same) "registered_build b = b" "before_step (rstrip b) = None" "endswith (rstrip b) VITE_REGISTER"
  | (fine) base where "registered_build b = b" "before_step (rstrip b) = Some base" "\<not> changes_dir base"
  | (group) base v where "registered_build b = ''('' @ base @ '')'' @ '' && '' @ VITE_REGISTER" "changes_dir base" "rstrip b = base @ v"
      "before_step (rstrip b) = None \<longrightarrow> base = rstrip b"
  | (new) "registered_build b = rstrip b @ '' && '' @ VITE_REGISTER" "\<not> changes_dir (rstrip b)" "before_step (rstrip b) = None"
proof (cases "before_step (rstrip b)")
  case None
  show ?thesis
  proof (cases "endswith (rstrip b) VITE_REGISTER")
    case True
    with None show ?thesis by (intro same) (simp_all add: registered_build_def)
  next
    case ended: False
    show ?thesis
    proof (cases "changes_dir (rstrip b)")
      case True
      with None ended show ?thesis by (intro group [of "rstrip b" "[]"]) (simp_all add: registered_build_def)
    next
      case False
      with None ended show ?thesis by (intro new) (simp_all add: registered_build_def)
    qed
  qed
next
  case (Some base)
  then obtain v where "rstrip b = base @ v" using before_step_prefix by blast
  note v = this
  show ?thesis
  proof (cases "changes_dir base")
    case True
    with Some v show ?thesis by (intro group [of base v]) (simp_all add: registered_build_def)
  next
    case False
    with Some show ?thesis by (intro fine [of base]) (simp_all add: registered_build_def)
  qed
qed

lemma registered_app:
  assumes "rstrip u = u" "\<not> changes_dir u"
  shows "registered_build (u @ '' && '' @ VITE_REGISTER) = u @ '' && '' @ VITE_REGISTER"
  using assms unfolding registered_build_def by (simp only: Let_def rstrip_steps before_step_app option.case if_False)

lemma group_base: "''('' @ u @ '') && '' @ VITE_REGISTER = (''('' @ u @ '')'') @ '' && '' @ VITE_REGISTER"
  by simp

lemma one_group_intro: "balanced s \<Longrightarrow> one_group (''('' @ s @ '')'')"
proof -
  assume b: "balanced s"
  have d: "depths (''('' @ s @ '')'') = Some 1 # depths_from (Suc 0) Plain (s @ '')'')" by (simp add: depths_def)
  have c: "closes_ok 0 Plain s" "last (depths_from 0 Plain (s @ '')'')) = Some 0" using b by (simp_all add: balanced_def depths_def)
  have "startswith (''('' @ s @ '')'') ''(''" "endswith (''('' @ s @ '')'') '')''"
    unfolding startswith_iff endswith_iff by (rule exI, rule refl) (rule exI [of _ "''('' @ s"], simp)
  moreover have "Some 0 \<notin> set (depths (''('' @ s @ '')''))" "last (depths (''('' @ s @ '')'')) = Some 1"
    unfolding d using deeper [OF c(1), of "CHR '')''"] c(2) by simp_all
  ultimately show ?thesis by (simp only: one_group_def not_False_eq_True simp_thms)
qed

text \<open>
  The registration step of a Vite app's build, for a build whose unquoted closing parentheses all close
  something.  Registering twice is registering once; afterwards the build ends with the step, and the step runs
  in the package's own directory (what is before it does not change it); and taking the step out again gives the
  build back without trailing blanks, when it had no step, its groups are all closed, and it is not itself one
  subshell that changes directory (whose parentheses the code cannot tell from those it adds).
\<close>

theorem build_registration:
  assumes "closes_ok 0 Plain (rstrip b)"
  shows "registered_build (registered_build b) = registered_build b \<and>
    endswith (rstrip (registered_build b)) VITE_REGISTER \<and>
    (\<forall>base. before_step (rstrip (registered_build b)) = Some base \<longrightarrow> \<not> changes_dir base) \<and>
    (before_step (rstrip b) = None \<and> \<not> endswith (rstrip b) VITE_REGISTER \<and> balanced (rstrip b) \<and>
       \<not> (one_group (rstrip b) \<and> changes_dir (butlast (tl (rstrip b)))) \<longrightarrow>
     unregistered_build (registered_build b) = rstrip b)"
proof (cases rule: registered_cases [of b])
  case same
  then show ?thesis by simp
next
  case (fine base)
  then show ?thesis using before_step_ends by simp
next
  case (group base v)
  let ?g = "''('' @ base @ '')''"
  have "closes_ok 0 Plain base" using assms closes_prefix unfolding group(3) by blast
  then have d: "\<not> changes_dir ?g" by (rule group_keeps_dir)
  have r: "registered_build b = ?g @ '' && '' @ VITE_REGISTER" using group(1) by simp
  have rr: "rstrip (registered_build b) = registered_build b" unfolding r using rstrip_steps(2) [of ?g] by simp
  have s: "before_step (registered_build b) = Some ?g" unfolding r by (rule before_step_app [OF group_solid])
  have i: "registered_build (registered_build b) = registered_build b"
    unfolding r using registered_app [OF group_solid d] .
  have u: "unregistered_build (registered_build b) = rstrip b" if "before_step (rstrip b) = None" "balanced (rstrip b)"
  proof -
    have b: "base = rstrip b" using group(4) that(1) by simp
    have "one_group ?g" using one_group_intro that(2) b by simp
    moreover have "butlast (tl ?g) = base" by simp
    ultimately show ?thesis unfolding unregistered_build_def Let_def rr s option.case using group(2) b by simp
  qed
  show ?thesis using i u d unfolding rr s using ends_step(2) [of ?g] r by simp
next
  case new
  let ?t = "rstrip b"
  have r: "rstrip (registered_build b) = registered_build b" unfolding new(1) by (rule rstrip_steps)
  have s: "before_step (registered_build b) = Some ?t" unfolding new(1) by (rule before_step_app) simp
  have i: "registered_build (registered_build b) = registered_build b" unfolding new(1) by (rule registered_app) (simp_all add: new(2))
  have u: "unregistered_build (registered_build b) = ?t" if "\<not> (one_group ?t \<and> changes_dir (butlast (tl ?t)))"
    unfolding unregistered_build_def Let_def r s option.case using that by auto
  show ?thesis using i u new(2) unfolding r s using ends_step(2) [of ?t] new(1) by simp
qed

section \<open>Witnesses\<close>

definition sample_pkg_ctx :: pkg_ctx where
  "sample_pkg_ctx =
     \<lparr>x_app = ''app'', x_app_hyphen = ''app'', x_version = None, x_tagline = ''An app'',
      x_conf = \<lparr>k_cfg = JObj [], k_modules = (\<lambda>m. m \<in> {''js'', ''metadata'', ''vite-register''})\<rparr>,
      x_org = [(''license'', JStr ''MIT'')], x_ts_projects = False, x_solution = [], x_unit_tests = False, x_scss = [],
      x_vite = True, x_vue_sfc = False, x_nested = False,
      x_floors = (\<lambda>k. if k = ''npm-js'' then [(''oxlint'', ''1.2.0'')] else []), x_major = 16, x_branch = ''version-16'',
      x_history = \<lparr>h_confs = [], h_truncated = False, h_unknown = []\<rparr>, x_previous = None, x_shipped = True\<rparr>"

definition sample_package :: jtable where
  "sample_package = [(''name'', JStr ''app''), (''scripts'', JObj [(''build'', JStr ''vite build''), (''start'', JStr ''vite'')]),
     (''left'', JInt 1)]"

definition sample_merge :: "exn + merged" where
  "sample_merge = package_merge (\<lambda>_. Some (0 :: nat)) (\<lambda>_. []) (Some sample_package) sample_pkg_ctx None"

lemma sample_package_runs: "\<exists>doc left. sample_merge = Inr (doc, left)"
proof -
  have "case sample_merge of Inr _ \<Rightarrow> True | _ \<Rightarrow> False" by code_simp
  then show ?thesis by (auto split: sum.splits)
qed

lemma package_merge_keeps_the_app_witness:
  "\<exists>doc left. sample_merge = Inr (doc, left) \<and> map_of doc ''left'' = Some (JInt 1)"
proof -
  obtain doc left where m: "sample_merge = Inr (doc, left)" using sample_package_runs by blast
  have l: "''left'' \<notin> managed_top" "map_of (merge_start (Some sample_package) sample_pkg_ctx None) ''left'' = Some (JInt 1)"
    by (simp_all add: managed_top_def merge_start_def sample_package_def)
  from package_merge_keeps_the_app [OF m [unfolded sample_merge_def], THEN conjunct1, rule_format, OF l(1)]
  have "map_of doc ''left'' = Some (JInt 1)" unfolding l(2) .
  with m show ?thesis by fast
qed

lemma package_merge_manages_witness:
  "\<exists>doc left. sample_merge = Inr (doc, left) \<and> get_key doc ''license'' = JStr ''MIT''"
proof -
  obtain doc left where m: "sample_merge = Inr (doc, left)" using sample_package_runs by blast
  have "case package_scripts (\<lambda>_. []) sample_pkg_ctx of Inr _ \<Rightarrow> True | _ \<Rightarrow> False" by code_simp
  then obtain scripts where s: "package_scripts (\<lambda>_. []) sample_pkg_ctx = Inr scripts" by (auto split: sum.splits)
  have f: "\<forall>mt \<in> set (dev_floors sample_pkg_ctx). \<forall>pf \<in> set (snd mt). is_floor (\<lambda>_. Some (0 :: nat)) (snd pf)" by code_simp
  have d: "distinct (concat (map (map fst \<circ> snd) (dev_floors sample_pkg_ctx)))" by code_simp
  have "(''license'', Some (JStr ''MIT'')) \<in> set (metadata_keys sample_pkg_ctx)" "on_module sample_pkg_ctx ''metadata''" by code_simp+
  with package_merge_manages [OF m [unfolded sample_merge_def] s f d] m show ?thesis by fast
qed

lemma build_registration_witness:
  "unregistered_build (registered_build ''cd web && yarn build'') = ''cd web && yarn build''"
proof -
  have "closes_ok 0 Plain (rstrip ''cd web && yarn build'')" "before_step (rstrip ''cd web && yarn build'') = None"
      "\<not> endswith (rstrip ''cd web && yarn build'') VITE_REGISTER" "balanced (rstrip ''cd web && yarn build'')"
      "\<not> one_group (rstrip ''cd web && yarn build'')" "rstrip ''cd web && yarn build'' = ''cd web && yarn build''"
    by code_simp+
  with build_registration [of "''cd web && yarn build''"] show ?thesis by metis
qed

text \<open>Taking the step out of a build that was one subshell drops the app's own parentheses.\<close>

lemma unregistered_drops_the_group:
  "unregistered_build (registered_build ''(cd web && yarn build)'') = ''cd web && yarn build''"
  by code_simp

end
