(* ===== verification/Gate.thy ===== *)
theory Gate
  imports Wildcards Config
begin

text \<open>
  \<^verbatim>\<open>commands/gate.py\<close>: the steps of the three gates, each run or skipped and recorded, over the environment
  the steps share.  The commands, the pinned inputs, git and the file tree are operations on an outside
  world \<open>'w\<close>, a parameter; the report's text is not modelled.
\<close>

datatype status = Passed | Failed | Skipped

record step_result =
  sr_name :: string
  sr_module :: string
  sr_status :: status
  sr_reason :: string

record 'w gate_ops =
  o_self :: "string list"
  o_run :: "string list \<Rightarrow> string \<Rightarrow> (string \<times> string) list \<Rightarrow> 'w \<Rightarrow> nat option \<times> 'w"
  o_help :: "string list \<Rightarrow> (string \<times> string) list \<Rightarrow> 'w \<Rightarrow> string \<times> 'w"
  o_pin :: "string \<Rightarrow> bool \<Rightarrow> 'w \<Rightarrow> (exn + string) \<times> 'w"
  o_merge_base :: "string \<Rightarrow> 'w \<Rightarrow> (exn + string) \<times> 'w"
  o_copy :: "string \<Rightarrow> string \<Rightarrow> 'w \<Rightarrow> (exn + unit) \<times> 'w"
  o_writable :: "string \<Rightarrow> 'w \<Rightarrow> bool"
  o_exists :: "string \<Rightarrow> 'w \<Rightarrow> bool"
  o_is_file :: "string \<Rightarrow> 'w \<Rightarrow> bool"
  o_is_dir :: "string \<Rightarrow> 'w \<Rightarrow> bool"
  o_package :: "string \<Rightarrow> 'w \<Rightarrow> json option"
  o_dependabot :: "'w \<Rightarrow> json option"
  o_data :: "string \<Rightarrow> string"
  o_siblings :: "'w \<Rightarrow> exn + string list"

text \<open>The app and the options: its tracked files, and the nested frontends they show.\<close>

record gate_app =
  ga_app :: string
  ga_root :: string
  ga_cfg :: json
  ga_modules :: "string \<Rightarrow> bool"
  ga_integration :: string
  ga_tracked :: "string list"
  ga_nested :: "string list"
  ga_github :: bool
  ga_base :: "string option"
  ga_expect_rev :: string

record 'w gate_st =
  gs_world :: 'w
  gs_env :: "(string \<times> string) list"
  gs_steps :: "step_result list"

type_synonym ('w, 'a) gate = "('w gate_st, 'a) prog"

section \<open>Operations\<close>

definition on_world :: "('w \<Rightarrow> (exn + 'a) \<times> 'w) \<Rightarrow> ('w, 'a) gate" where
  "on_world f = (\<lambda>s. case f (gs_world s) of (r, w) \<Rightarrow> (r, s\<lparr>gs_world := w\<rparr>))"

definition ask :: "('w \<Rightarrow> 'a) \<Rightarrow> ('w, 'a) gate" where
  "ask f = (\<lambda>s. (Inr (f (gs_world s)), s))"

definition getenv :: "string \<Rightarrow> ('w, string) gate" where
  "getenv k = (\<lambda>s. (Inr (case map_of (gs_env s) k of Some v \<Rightarrow> v | None \<Rightarrow> []), s))"

definition setenv :: "string \<Rightarrow> string \<Rightarrow> ('w, unit) gate" where
  "setenv k v = (\<lambda>s. (Inr (), s\<lparr>gs_env := AList.update k v (gs_env s)\<rparr>))"

text \<open>\<^verbatim>\<open>Gate.run\<close>: the exit status, 127 where the program is not found.\<close>

definition run_in :: "'w gate_ops \<Rightarrow> string \<Rightarrow> (string \<times> string) list \<Rightarrow> string list \<Rightarrow> ('w, nat) gate" where
  "run_in ops cwd env cmd =
     (\<lambda>s. case o_run ops cmd cwd (fold (\<lambda>(k, v). AList.update k v) env (gs_env s)) (gs_world s) of
        (c, w) \<Rightarrow> (Inr (case c of Some n \<Rightarrow> n | None \<Rightarrow> 127), s\<lparr>gs_world := w\<rparr>))"

text \<open>\<^verbatim>\<open>Gate.step\<close> and \<^verbatim>\<open>Gate.skip\<close>: an error frappe-nix reports fails the step; any other ends the gate.\<close>

fun exn_text :: "exn \<Rightarrow> string" where
  "exn_text (ConfigError t) = t"
| "exn_text (EnvError t) = t"
| "exn_text (FrappeNixError t) = t"
| "exn_text _ = []"

definition record_step :: "string \<Rightarrow> string \<Rightarrow> status \<Rightarrow> string \<Rightarrow> ('w, unit) gate" where
  "record_step name m st why =
     (\<lambda>s. (Inr (), s\<lparr>gs_steps := gs_steps s @ [\<lparr>sr_name = name, sr_module = m, sr_status = st, sr_reason = why\<rparr>]\<rparr>))"

definition gate_step :: "string \<Rightarrow> string \<Rightarrow> ('w, status \<times> string) gate \<Rightarrow> ('w, unit) gate" where
  "gate_step name m body =
     bindP (catch body (\<lambda>e. if is_frappe_nix_error e then ret (Failed, exn_text e) else raise e))
       (\<lambda>(st, why). record_step name m st why)"

definition gate_skip :: "string \<Rightarrow> string \<Rightarrow> string \<Rightarrow> ('w, unit) gate" where
  "gate_skip name m why = record_step name m Skipped why"

definition gate_cfg :: "gate_app \<Rightarrow> string \<Rightarrow> json \<Rightarrow> json" where
  "gate_cfg a dotted_key d = (case found (ga_cfg a) (split_on (CHR ''.'') dotted_key) of Some v \<Rightarrow> v | None \<Rightarrow> d)"

definition frappe_nix :: "'w gate_ops \<Rightarrow> string list \<Rightarrow> string list" where
  "frappe_nix ops args = o_self ops @ args"

definition exit_ok :: "nat \<Rightarrow> status \<times> string" where
  "exit_ok c = (if c = 0 then (Passed, []) else (Failed, ''exit '' @ show_nat c))"

definition run_ok :: "'w gate_ops \<Rightarrow> gate_app \<Rightarrow> string list \<Rightarrow> ('w, status \<times> string) gate" where
  "run_ok ops a cmd = bindP (run_in ops (ga_root a) [] cmd) (\<lambda>c. ret (exit_ok c))"

definition path_join :: "string \<Rightarrow> string \<Rightarrow> string" where "path_join d p = d @ ''/'' @ p"

definition tools_cmd :: "gate_app \<Rightarrow> string \<Rightarrow> string list" where
  "tools_cmd a tool = [''uv'', ''run'', ''--frozen'', ''--project'', path_join (ga_root a) ''tools'', tool]"

definition scripts_in :: "'w gate_ops \<Rightarrow> string \<Rightarrow> 'w \<Rightarrow> string list" where
  "scripts_in ops dir w =
     (case o_package ops dir w of
        Some (JObj d) \<Rightarrow> (case map_of d ''scripts'' of Some (JObj t) \<Rightarrow> map fst t | _ \<Rightarrow> [])
      | _ \<Rightarrow> [])"

text \<open>The items of a list a command fails for.\<close>

definition failing :: "('x \<Rightarrow> ('w, bool) gate) \<Rightarrow> 'x list \<Rightarrow> ('w, 'x list) gate" where
  "failing bad xs = foldP (\<lambda>x acc. bindP (bad x) (\<lambda>b. ret (if b then acc @ [x] else acc))) xs []"

definition none_failed :: "string list \<Rightarrow> string \<Rightarrow> status \<times> string" where
  "none_failed failed what = (if failed \<noteq> [] then (Failed, join '', '' failed @ what) else (Passed, []))"

section \<open>The doctypes step\<close>

definition DOCTYPES :: string where "DOCTYPES = ''types/doctypes.d.ts''"

definition gen_registry :: "gate_app \<Rightarrow> string list \<Rightarrow> string \<Rightarrow> bool \<Rightarrow> string list" where
  "gen_registry a siblings bench chk =
     [''yarn'', ''-s'', ''frappe-types'', ''gen-registry'', ''--bench'', bench, ''--app'', ga_app a] @
     (if siblings \<noteq> [] then [''--include-siblings'', join '','' siblings] else []) @
     [''--out'', DOCTYPES] @ (if chk then [''--check''] else [])"

definition doctypes_off :: "gate_app \<Rightarrow> string" where
  "doctypes_off a =
     (if \<not> ga_modules a ''typescript'' then ''module typescript is off''
      else if DOCTYPES \<notin> set (ga_tracked a) then DOCTYPES @ '' is not tracked''
      else [])"

definition minibench_dest :: "gate_app \<Rightarrow> string" where
  "minibench_dest a = path_join (ga_root a) ''.dev-dist/minibench''"

definition doctypes :: "'w gate_ops \<Rightarrow> gate_app \<Rightarrow> bool \<Rightarrow> ('w, status \<times> string) gate" where
  "doctypes ops a chk =
     bindP (run_in ops (ga_root a) [] (frappe_nix ops [''minibench'', ''--mode'', ''doctypes'', ''--dest'', minibench_dest a])) (\<lambda>c.
       if c \<noteq> 0 then ret (Failed, ''minibench exit '' @ show_nat c)
       else bindP (bindP (ask (o_siblings ops)) liftE) (\<lambda>siblings. run_ok ops a (gen_registry a siblings (minibench_dest a) chk)))"

section \<open>The ratchet's base\<close>

definition ratchet_base :: "'w gate_ops \<Rightarrow> gate_app \<Rightarrow> ('w, string option \<times> string) gate" where
  "ratchet_base ops a =
     (case ga_base a of
        Some b \<Rightarrow> ret (Some b, [])
      | None \<Rightarrow>
          bindP (getenv ''GITHUB_EVENT_NAME'') (\<lambda>event.
          if event = ''push'' \<or> event = ''schedule'' then ret (None, ''no ratchet on a '' @ event)
          else if event = ''pull_request'' \<or> event = ''pull_request_target'' then
            bindP (getenv ''BASE_SHA'') (\<lambda>sha.
              if sha = [] then ret (None, ''BASE_SHA is not set'')
              else bindP (on_world (o_merge_base ops sha)) (\<lambda>b. ret (Some (strip b), [])))
          else if event = ''workflow_dispatch'' then
            bindP (getenv ''INTEGRATION'') (\<lambda>i.
              bindP (on_world (o_merge_base ops (''origin/'' @ (if i \<noteq> [] then i else ga_integration a))))
                (\<lambda>b. ret (Some (strip b), [])))
          else ret (None, ''no --base'')))"

section \<open>lint\<close>

text \<open>The name an entry is reported by (its text where it is not a string is not modelled).\<close>

definition entry_text :: "json \<Rightarrow> string" where "entry_text v = (case v of JStr s \<Rightarrow> s | _ \<Rightarrow> ''?'')"

definition cooldown_missing :: "json \<Rightarrow> string list" where
  "cooldown_missing u =
     (case u of
        JObj d \<Rightarrow> (if truthy (entry d ''cooldown'') then []
                   else [entry_text (entry d ''package-ecosystem'') @ '' '' @ entry_text (entry d ''directory'')])
      | _ \<Rightarrow> [])"

definition cooldowns :: "json option \<Rightarrow> exn + status \<times> string" where
  "cooldowns parsed =
     (case parsed of
        None \<Rightarrow> Inr (Failed, ''dependabot.yml'')
      | Some v \<Rightarrow>
          bindE (dget (jor v (JObj [])) ''updates'' JNull) (\<lambda>u. bindE (iter (jor u (JArr []))) (\<lambda>us.
            let missing = concat (map cooldown_missing us)
            in Inr (if missing \<noteq> [] then (Failed, ''dependabot entries without a cooldown: '' @ join '', '' missing) else (Passed, [])))))"

definition lint_sync :: "'w gate_ops \<Rightarrow> gate_app \<Rightarrow> ('w, unit) gate" where
  "lint_sync ops a =
     gate_step ''sync-check'' ''ci'' (run_ok ops a (frappe_nix ops
       ([''sync'', ''--check'', ''--format'', if ga_github a then ''github'' else ''text''] @
        (if ga_expect_rev a \<noteq> [] then [''--expect-rev'', ga_expect_rev a] else []))))"

definition lint_cooldown :: "'w gate_ops \<Rightarrow> gate_app \<Rightarrow> ('w, unit) gate" where
  "lint_cooldown ops a =
     (let n = ''dependabot-cooldown''; m = ''dependabot'' in
      if \<not> ga_modules a m then gate_skip n m ''module dependabot is off''
      else if ''.github/dependabot.yml'' \<notin> set (ga_tracked a) then gate_skip n m ''.github/dependabot.yml is not tracked''
      else gate_step n m (bindP (ask (o_dependabot ops)) (\<lambda>v. liftE (cooldowns v))))"

definition lint_prek :: "'w gate_ops \<Rightarrow> gate_app \<Rightarrow> bool \<Rightarrow> ('w, unit) gate" where
  "lint_prek ops a has_tools =
     (if ''.pre-commit-config.yaml'' \<notin> set (ga_tracked a) then gate_skip ''prek'' [] ''.pre-commit-config.yaml is not live''
      else if \<not> has_tools then gate_skip ''prek'' [] ''tools/pyproject.toml is not live''
      else gate_step ''prek'' [] (run_ok ops a (tools_cmd a ''prek'' @ [''run'', ''--all-files'', ''--show-diff-on-failure''])))"

definition CUSTOMIZATION_HOOKS :: "string list" where
  "CUSTOMIZATION_HOOKS = [''validate_customizations'', ''clean_customized_doctypes'']"

definition customization_hooks :: "gate_app \<Rightarrow> string list" where
  "customization_hooks a =
     filter (\<lambda>h. JStr h \<in> set (case gate_cfg a ''test-utils.hooks'' JNull of JArr xs \<Rightarrow> xs | _ \<Rightarrow> [])) CUSTOMIZATION_HOOKS"

definition customizations :: "'w gate_ops \<Rightarrow> gate_app \<Rightarrow> string list \<Rightarrow> ('w, status \<times> string) gate" where
  "customizations ops a hooks =
     bindP (run_in ops (ga_root a) [] (frappe_nix ops [''minibench'', ''--mode'', ''customizations'', ''--dest'', minibench_dest a])) (\<lambda>c.
       if c \<noteq> 0 then ret (Failed, ''minibench exit '' @ show_nat c @ '' (the bench layout guard)'')
       else bindP (failing (\<lambda>h. bindP (run_in ops (path_join (minibench_dest a) (''apps/'' @ ga_app a)) []
              (tools_cmd a ''prek'' @ [''run'', ''--hook-stage'', ''manual'', h, ''--all-files'', ''--show-diff-on-failure'']))
              (\<lambda>c. ret (c \<noteq> 0))) hooks) (\<lambda>failed. ret (none_failed failed '' failed'')))"

definition lint_customizations :: "'w gate_ops \<Rightarrow> gate_app \<Rightarrow> ('w, unit) gate" where
  "lint_customizations ops a =
     (let n = ''customizations''; m = ''test-utils''; hooks = customization_hooks a in
      if \<not> ga_modules a m then gate_skip n m ''module test-utils is off''
      else if hooks = [] then gate_skip n m ''neither customization hook is in test-utils.hooks''
      else gate_step n m (customizations ops a hooks))"

definition test_files :: "gate_app \<Rightarrow> string list" where
  "test_files a =
     filter (\<lambda>p. startswith p (ga_app a @ ''/'') \<and> fnmatchcase (last (split_on (CHR ''/'') p)) ''test_*.py'') (sort (dedup (ga_tracked a)))"

text \<open>One scan: what is reported when it fails.\<close>

definition scan_step :: "'w gate_ops \<Rightarrow> gate_app \<Rightarrow> string list \<Rightarrow> string \<Rightarrow> string list \<Rightarrow> ('w, string list) gate" where
  "scan_step ops a cmd what failed =
     bindP (run_in ops (ga_root a) [] cmd) (\<lambda>c. ret (if c \<noteq> 0 then failed @ [what] else failed))"

definition semgrep :: "'w gate_ops \<Rightarrow> gate_app \<Rightarrow> bool \<Rightarrow> ('w, status \<times> string) gate" where
  "semgrep ops a has_tools =
     (let scan = (if has_tools then tools_cmd a ''semgrep'' else [''semgrep'']) @ [''scan'', ''--error'', ''--metrics=off''] in
      bindP (if truthy (gate_cfg a ''semgrep.frappe-rules'' (JBool True)) then
               bindP (on_world (o_pin ops ''frappe-semgrep-rules'' False)) (\<lambda>rules.
                 scan_step ops a (scan @ [''--config'', path_join rules ''rules'', ga_app a]) ''frappe rules'' [])
             else ret []) (\<lambda>f1.
      bindP (if truthy (gate_cfg a ''semgrep.test-correctness'' (JBool True)) \<and> test_files a \<noteq> [] then
               scan_step ops a (scan @ [''--config'', o_data ops ''semgrep/test-correctness.yml''] @ test_files a) ''test correctness'' f1
             else ret f1) (\<lambda>f2.
      bindP (ask (o_is_dir ops (path_join (ga_root a) ''semgrep''))) (\<lambda>own.
      bindP (if own then scan_step ops a (scan @ [''--config'', ''semgrep'', ga_app a]) (''the app'' @ [CHR 0x27] @ ''s semgrep/ rules'') f2
             else ret f2) (\<lambda>f3. ret (none_failed f3 []))))))"

definition lint_semgrep :: "'w gate_ops \<Rightarrow> gate_app \<Rightarrow> bool \<Rightarrow> ('w, unit) gate" where
  "lint_semgrep ops a has_tools =
     (if \<not> ga_modules a ''semgrep'' then gate_skip ''semgrep'' ''semgrep'' ''module semgrep is off''
      else gate_step ''semgrep'' ''semgrep'' (semgrep ops a has_tools))"

definition lint_ratchet :: "'w gate_ops \<Rightarrow> gate_app \<Rightarrow> ('w, unit) gate" where
  "lint_ratchet ops a =
     bindP (ratchet_base ops a) (\<lambda>(base, why).
       case base of
         None \<Rightarrow> gate_skip ''ratchet'' [] why
       | Some b \<Rightarrow> gate_step ''ratchet'' [] (run_ok ops a (frappe_nix ops [''ratchet'', ''--base'', b])))"

text \<open>A script of the app's \<^verbatim>\<open>package.json\<close>, run when there is one.\<close>

definition lint_ci :: "'w gate_ops \<Rightarrow> gate_app \<Rightarrow> ('w, unit) gate" where
  "lint_ci ops a =
     bindP (ask (scripts_in ops (ga_root a))) (\<lambda>pkg.
       if ''ci:lint'' \<in> set pkg then gate_step ''ci-lint'' [] (run_ok ops a [''yarn'', ''-s'', ''ci:lint''])
       else gate_skip ''ci-lint'' [] ''package.json has no ci:lint script'')"

definition lint :: "'w gate_ops \<Rightarrow> gate_app \<Rightarrow> ('w, unit) gate" where
  "lint ops a =
     bindP (lint_sync ops a) (\<lambda>_. bindP (lint_cooldown ops a) (\<lambda>_.
     bindP (ask (o_is_file ops (path_join (ga_root a) ''tools/pyproject.toml''))) (\<lambda>has_tools.
     bindP (lint_prek ops a has_tools) (\<lambda>_. bindP (lint_customizations ops a) (\<lambda>_.
     bindP (lint_semgrep ops a has_tools) (\<lambda>_. bindP (lint_ratchet ops a) (\<lambda>_. lint_ci ops a)))))))"

section \<open>typecheck\<close>

definition ts_on :: "gate_app \<Rightarrow> bool" where "ts_on a \<longleftrightarrow> ga_modules a ''typescript''"

definition node_modules :: "gate_app \<Rightarrow> bool" where
  "node_modules a \<longleftrightarrow> ts_on a \<and> truthy (gate_cfg a ''frappe-node-modules'' (JBool False))"

definition frappe_path :: "'w gate_ops \<Rightarrow> gate_app \<Rightarrow> ('w, status \<times> string) gate" where
  "frappe_path ops a =
     bindP (getenv ''FRAPPE_PATH'') (\<lambda>have. bindP (ask (o_is_dir ops have)) (\<lambda>is_dir.
       if have \<noteq> [] \<and> is_dir then ret (Passed, ''FRAPPE_PATH from the environment'')
       else bindP (on_world (o_pin ops ''frappe'' (node_modules a))) (\<lambda>p.
            bindP (setenv ''FRAPPE_PATH'' p) (\<lambda>_. ret (Passed, [])))))"

definition path_name :: "string \<Rightarrow> string" where
  "path_name p = (let parts = posix_parts p in if parts = [] then [] else last parts)"

text \<open>\<^verbatim>\<open>writable_frappe\<close> (\<open>o_copy\<close> replaces what is at the destination): a read-only tree is copied, and \<^verbatim>\<open>FRAPPE_PATH\<close> names the copy from then on.\<close>

definition writable_frappe :: "'w gate_ops \<Rightarrow> gate_app \<Rightarrow> ('w, string \<times> string) gate" where
  "writable_frappe ops a =
     bindP (getenv ''FRAPPE_PATH'') (\<lambda>fp. bindP (ask (o_writable ops fp)) (\<lambda>w.
       if w then ret (fp, [])
       else (let dest = path_join (ga_root a) (''.dev-dist/frappe-path/'' @ path_name fp) in
             bindP (on_world (o_copy ops fp dest)) (\<lambda>_. bindP (setenv ''FRAPPE_PATH'' dest) (\<lambda>_.
               ret (dest, fp @ '' is read-only: installed into a copy, '' @ dest))))))"

definition frappe_node_modules :: "'w gate_ops \<Rightarrow> gate_app \<Rightarrow> ('w, status \<times> string) gate" where
  "frappe_node_modules ops a =
     bindP (writable_frappe ops a) (\<lambda>(fp, why).
     bindP (run_in ops (ga_root a) [] [''yarn'', ''--cwd'', fp, ''install'', ''--frozen-lockfile'', ''--ignore-scripts'', ''--non-interactive''])
       (\<lambda>c. ret (if c \<noteq> 0 then (Failed, ''exit '' @ show_nat c) else (Passed, why))))"

definition type_path :: "'w gate_ops \<Rightarrow> gate_app \<Rightarrow> ('w, unit) gate" where
  "type_path ops a = gate_step ''frappe-path'' [] (frappe_path ops a)"

definition type_node_modules :: "'w gate_ops \<Rightarrow> gate_app \<Rightarrow> ('w, unit) gate" where
  "type_node_modules ops a =
     (let n = ''frappe-node-modules''; m = ''typescript'' in
      if \<not> ts_on a then gate_skip n m ''module typescript is off''
      else if \<not> node_modules a then gate_skip n m ''frappe-node-modules is false''
      else bindP (getenv ''FRAPPE_PATH'') (\<lambda>p.
        if p = [] then gate_skip n m ''no FRAPPE_PATH'' else gate_step n m (frappe_node_modules ops a)))"

definition type_check :: "'w gate_ops \<Rightarrow> gate_app \<Rightarrow> string list \<Rightarrow> ('w, unit) gate" where
  "type_check ops a pkg =
     (let n = ''typecheck''; m = ''typescript'' in
      if \<not> ts_on a then gate_skip n m ''module typescript is off''
      else if ''typecheck'' \<notin> set pkg then gate_skip n m ''package.json has no typecheck script''
      else gate_step n m (run_ok ops a [''yarn'', ''-s'', ''typecheck'']))"

definition type_unchecked :: "'w gate_ops \<Rightarrow> gate_app \<Rightarrow> ('w, unit) gate" where
  "type_unchecked ops a =
     (let n = ''unchecked-js''; m = ''typescript'' in
      if \<not> (ts_on a \<and> truthy (gate_cfg a ''typescript.check-js'' (JBool False))) then gate_skip n m ''typescript.check-js is off''
      else if \<not> truthy (gate_cfg a ''unchecked-js'' (JArr [])) then gate_skip n m ''[[tool.frappe-nix.unchecked-js]] is empty''
      else gate_step n m (run_ok ops a (frappe_nix ops [''unchecked-js'', ''--stale''])))"

definition type_unit :: "'w gate_ops \<Rightarrow> gate_app \<Rightarrow> string list \<Rightarrow> ('w, unit) gate" where
  "type_unit ops a pkg =
     (let n = ''js-unit''; m = ''tests'' in
      if \<not> (ga_modules a ''tests'' \<and> truthy (gate_cfg a ''tests.js-unit'' (JBool True))) then gate_skip n m ''module tests (js-unit) is off''
      else if ''test:unit'' \<notin> set pkg then gate_skip n m ''package.json has no test:unit script''
      else gate_step n m
        (if glob_select [''test/unit/**/*.test.ts''] (ga_tracked a) = []
         then ret (Failed, ''test:unit exists, but no test/unit/**/*.test.ts is tracked'')
         else run_ok ops a [''yarn'', ''-s'', ''test:unit'']))"

definition type_nested :: "'w gate_ops \<Rightarrow> gate_app \<Rightarrow> ('w, unit) gate" where
  "type_nested ops a =
     bindP (ask (\<lambda>w. filter (\<lambda>d. ''typecheck'' \<in> set (scripts_in ops (path_join (ga_root a) d) w)) (ga_nested a))) (\<lambda>dirs.
       if dirs = [] then gate_skip ''nested'' [] ''no nested frontend has a typecheck script''
       else gate_step ''nested'' []
         (bindP (failing (\<lambda>d. bindP (run_in ops (ga_root a) [] [''yarn'', ''--cwd'', d, ''install'', ''--frozen-lockfile'']) (\<lambda>c.
              if c \<noteq> 0 then ret True
              else bindP (run_in ops (ga_root a) [] [''yarn'', ''--cwd'', d, ''typecheck'']) (\<lambda>c. ret (c \<noteq> 0)))) dirs)
            (\<lambda>failed. ret (none_failed failed []))))"

definition type_doctypes :: "'w gate_ops \<Rightarrow> gate_app \<Rightarrow> ('w, unit) gate" where
  "type_doctypes ops a =
     (if doctypes_off a \<noteq> [] then gate_skip ''doctypes'' ''typescript'' (doctypes_off a)
      else gate_step ''doctypes'' ''typescript'' (doctypes ops a True))"

definition audit_cmd :: "string list" where "audit_cmd = [''yarn'', ''-s'', ''frappe-types'', ''audit-consumer'', ''--app'', ''.'']"

text \<open>The advisory audit: its findings are reported, never a failure.\<close>

definition advisory :: "'w gate_ops \<Rightarrow> gate_app \<Rightarrow> ('w, status \<times> string) gate" where
  "advisory ops a =
     bindP (\<lambda>s. on_world (\<lambda>w. case o_help ops [''yarn'', ''-s'', ''frappe-types'', ''--help''] (gs_env s) w of (h, w') \<Rightarrow> (Inr h, w')) s) (\<lambda>help.
       if \<not> contains_sub ''audit-consumer'' help then ret (Skipped, ''this frappe-types has no audit-consumer'')
       else bindP (run_in ops (ga_root a) [] audit_cmd) (\<lambda>c.
              ret (Passed, ''advisory'' @ (if c \<noteq> 0 then '' (exit '' @ show_nat c @ '')'' else []))))"

definition type_audit :: "'w gate_ops \<Rightarrow> gate_app \<Rightarrow> ('w, unit) gate" where
  "type_audit ops a =
     (let n = ''audit-consumer''; m = ''typescript'' in
      if \<not> ts_on a then gate_skip n m ''module typescript is off''
      else if truthy (gate_cfg a ''typescript.audit-consumer'' (JBool False))
      then gate_step n m (run_ok ops a (audit_cmd @ [''--strict'', ''--types'', ''types/*.d.ts'']))
      else bindP (ask (o_exists ops (path_join (ga_root a) ''node_modules/.bin/frappe-types''))) (\<lambda>there.
        if \<not> there then gate_skip n m ''frappe-types is not installed'' else gate_step n m (advisory ops a)))"

definition type_ci :: "'w gate_ops \<Rightarrow> gate_app \<Rightarrow> string list \<Rightarrow> ('w, unit) gate" where
  "type_ci ops a pkg =
     (if ''ci:typecheck'' \<in> set pkg then gate_step ''ci-typecheck'' [] (run_ok ops a [''yarn'', ''-s'', ''ci:typecheck''])
      else gate_skip ''ci-typecheck'' [] ''package.json has no ci:typecheck script'')"

definition typecheck :: "'w gate_ops \<Rightarrow> gate_app \<Rightarrow> ('w, unit) gate" where
  "typecheck ops a =
     bindP (ask (scripts_in ops (ga_root a))) (\<lambda>pkg.
     bindP (type_path ops a) (\<lambda>_. bindP (type_node_modules ops a) (\<lambda>_. bindP (type_check ops a pkg) (\<lambda>_.
     bindP (type_unchecked ops a) (\<lambda>_. bindP (type_unit ops a pkg) (\<lambda>_. bindP (type_nested ops a) (\<lambda>_.
     bindP (type_doctypes ops a) (\<lambda>_. bindP (type_audit ops a) (\<lambda>_. type_ci ops a pkg)))))))))"

section \<open>marketplace and the command\<close>

definition marketplace :: "'w gate_ops \<Rightarrow> gate_app \<Rightarrow> ('w, unit) gate" where
  "marketplace ops a =
     (if \<not> ga_modules a ''listing'' then gate_skip ''listing'' ''listing'' ''module listing is off''
      else gate_step ''listing'' ''listing''
        (bindP (run_in ops (ga_root a) [(''EIO_BACKEND'', ''posix'')]
           (frappe_nix ops [''listing'', ''check'', ''--format'', if ga_github a then ''github'' else ''text'']))
           (\<lambda>c. ret (exit_ok c))))"

definition GATES :: "string list" where "GATES = [''lint'', ''typecheck'', ''marketplace'']"

definition gate_runner :: "string \<Rightarrow> 'w gate_ops \<Rightarrow> gate_app \<Rightarrow> ('w, unit) gate" where
  "gate_runner gate ops a =
     (if gate = ''lint'' then lint ops a else if gate = ''typecheck'' then typecheck ops a else marketplace ops a)"

definition setdefault :: "string \<Rightarrow> string \<Rightarrow> (string \<times> string) list \<Rightarrow> (string \<times> string) list" where
  "setdefault k v env = (if k \<in> fst ` set env then env else env @ [(k, v)])"

definition gate_run :: "'w gate_ops \<Rightarrow> gate_app \<Rightarrow> string \<Rightarrow> (string \<times> string) list \<Rightarrow> 'w \<Rightarrow> (exn + nat \<times> step_result list) \<times> 'w" where
  "gate_run ops a gate env w =
     (if gate \<notin> set GATES then (Inl (ConfigError ''the gate is one of lint, typecheck, marketplace''), w)
      else case gate_runner gate ops a
             \<lparr>gs_world = w, gs_env = setdefault ''EIO_BACKEND'' ''posix'' (setdefault ''UV_PYTHON'' ''3.14'' env), gs_steps = []\<rparr> of
        (Inl e, s) \<Rightarrow> (Inl e, gs_world s)
      | (Inr _, s) \<Rightarrow>
          (Inr (if list_ex (\<lambda>r. sr_status r = Failed) (gs_steps s) then DRIFT else CLEAN, gs_steps s), gs_world s))"

section \<open>What a gate records\<close>

text \<open>What a part of a gate adds to the steps, and that no failure is lost: where \<open>Q\<close> holds of the world as
  long as no command fails, it still holds after steps none of which failed.\<close>

definition off_skipped :: "gate_app \<Rightarrow> step_result \<Rightarrow> bool" where
  "off_skipped a r \<longleftrightarrow> sr_module r = [] \<or> sr_name r = ''sync-check'' \<or> ga_modules a (sr_module r) \<or> sr_status r = Skipped"

definition gspec :: "('w \<Rightarrow> bool) \<Rightarrow> gate_app \<Rightarrow> string list \<Rightarrow> ('w, 'a) gate \<Rightarrow> bool" where
  "gspec Q a ns p \<longleftrightarrow>
     (\<forall>s x s'. p s = (Inr x, s') \<longrightarrow>
        (\<exists>rs. gs_steps s' = gs_steps s @ rs \<and> map sr_name rs = ns \<and> (\<forall>r \<in> set rs. off_skipped a r) \<and>
           (Q (gs_world s) \<and> (\<forall>r \<in> set rs. sr_status r \<noteq> Failed) \<longrightarrow> Q (gs_world s'))))"

text \<open>What a step's body does: it leaves the record alone, and one that does not fail keeps \<open>Q\<close>.\<close>

definition gbody :: "('w \<Rightarrow> bool) \<Rightarrow> ('a \<Rightarrow> bool) \<Rightarrow> ('w, 'a) gate \<Rightarrow> bool" where
  "gbody Q fine b \<longleftrightarrow>
     (\<forall>s r s'. b s = (r, s') \<longrightarrow> gs_steps s' = gs_steps s \<and>
        (\<forall>x. r = Inr x \<and> fine x \<and> Q (gs_world s) \<longrightarrow> Q (gs_world s')))"

abbreviation unfailed :: "status \<times> string \<Rightarrow> bool" where "unfailed r \<equiv> fst r \<noteq> Failed"
abbreviation always :: "'a \<Rightarrow> bool" where "always x \<equiv> True"

named_theorems gate_rules

lemma gspec_bind [gate_rules]:
  assumes "gspec Q a ms m" "\<And>x. gspec Q a ks (k x)"
  shows "gspec Q a (ms @ ks) (bindP m k)"
proof -
  have "\<exists>rs. gs_steps s' = gs_steps s @ rs \<and> map sr_name rs = ms @ ks \<and> (\<forall>r \<in> set rs. off_skipped a r) \<and>
      (Q (gs_world s) \<and> (\<forall>r \<in> set rs. sr_status r \<noteq> Failed) \<longrightarrow> Q (gs_world s'))" if "bindP m k s = (Inr x, s')" for s x s'
  proof -
    from that obtain y t where y: "m s = (Inr y, t)" "k y t = (Inr x, s')" by (auto simp: sumres)
    obtain r1 where r1: "gs_steps t = gs_steps s @ r1" "map sr_name r1 = ms" "\<forall>r \<in> set r1. off_skipped a r"
        "Q (gs_world s) \<and> (\<forall>r \<in> set r1. sr_status r \<noteq> Failed) \<longrightarrow> Q (gs_world t)"
      using assms(1) y(1) unfolding gspec_def by blast
    obtain r2 where r2: "gs_steps s' = gs_steps t @ r2" "map sr_name r2 = ks" "\<forall>r \<in> set r2. off_skipped a r"
        "Q (gs_world t) \<and> (\<forall>r \<in> set r2. sr_status r \<noteq> Failed) \<longrightarrow> Q (gs_world s')"
      using assms(2) y(2) unfolding gspec_def by blast
    show ?thesis using r1 r2 by (intro exI [of _ "r1 @ r2"]) auto
  qed
  then show ?thesis by (simp add: gspec_def)
qed

lemma gspec_skip [gate_rules]: "gspec Q a [n] (gate_skip n m why)"
  by (auto simp: gspec_def gate_skip_def record_step_def off_skipped_def)

lemma gspec_step [gate_rules]:
  assumes "gbody Q unfailed b" "m = [] \<or> n = ''sync-check'' \<or> ga_modules a m"
  shows "gspec Q a [n] (gate_step n m b)"
  unfolding gspec_def gate_step_def
proof (intro allI impI)
  fix s x s' assume g: "bindP (catch b (\<lambda>e. if is_frappe_nix_error e then ret (Failed, exn_text e) else raise e))
      (\<lambda>(st, why). record_step n m st why) s = (Inr x, s')"
  obtain r t where b: "b s = (r, t)" by fastforce
  then have same: "gs_steps t = gs_steps s" "\<forall>x. r = Inr x \<and> unfailed x \<and> Q (gs_world s) \<longrightarrow> Q (gs_world t)"
    using assms(1) unfolding gbody_def by blast+
  from g b obtain st why where s': "s' = t\<lparr>gs_steps := gs_steps t @ [\<lparr>sr_name = n, sr_module = m, sr_status = st, sr_reason = why\<rparr>]\<rparr>"
      "st = Failed \<or> r = Inr (st, why)"
    by (cases r) (auto simp: bindP_def catch_def ret_def raise_def record_step_def split: if_splits)
  show "\<exists>rs. gs_steps s' = gs_steps s @ rs \<and> map sr_name rs = [n] \<and> (\<forall>r \<in> set rs. off_skipped a r) \<and>
      (Q (gs_world s) \<and> (\<forall>r \<in> set rs. sr_status r \<noteq> Failed) \<longrightarrow> Q (gs_world s'))"
    using s' same assms(2) by (intro exI [of _ "[\<lparr>sr_name = n, sr_module = m, sr_status = st, sr_reason = why\<rparr>]"])
      (auto simp: off_skipped_def)
qed

lemma gspec_if [gate_rules]: "(b \<Longrightarrow> gspec Q a ns p) \<Longrightarrow> (\<not> b \<Longrightarrow> gspec Q a ns q) \<Longrightarrow> gspec Q a ns (if b then p else q)"
  by simp

lemma gspec_cons: "gspec Q a [n] m \<Longrightarrow> (\<And>x. gspec Q a ns (k x)) \<Longrightarrow> gspec Q a (n # ns) (bindP m k)"
  using gspec_bind [of Q a "[n]" m ns k] by simp

lemma gspec_body: "gbody Q always b \<Longrightarrow> gspec Q a [] b"
  unfolding gspec_def gbody_def by fastforce

lemma gspec_pre: "gbody Q always m \<Longrightarrow> (\<And>x. gspec Q a ns (k x)) \<Longrightarrow> gspec Q a ns (bindP m k)"
  using gspec_bind [OF gspec_body] by fastforce

text \<open>Bodies.\<close>

lemma gbody_ret [gate_rules]: "gbody Q fine (ret x)" by (auto simp: gbody_def ret_def)
lemma gbody_raise [gate_rules]: "gbody Q fine (raise e)" by (auto simp: gbody_def raise_def)
lemma gbody_liftE [gate_rules]: "gbody Q fine (liftE r)" by (auto simp: gbody_def liftE_def)
lemma gbody_ask [gate_rules]: "gbody Q fine (ask f)" by (auto simp: gbody_def ask_def)
lemma gbody_getenv [gate_rules]: "gbody Q fine (getenv k)" by (auto simp: gbody_def getenv_def)
lemma gbody_setenv [gate_rules]: "gbody Q fine (setenv k v)" by (auto simp: gbody_def setenv_def)
lemma gbody_if [gate_rules]: "(b \<Longrightarrow> gbody Q fine p) \<Longrightarrow> (\<not> b \<Longrightarrow> gbody Q fine q) \<Longrightarrow> gbody Q fine (if b then p else q)"
  by simp

lemma gbody_weaken: "gbody Q always b \<Longrightarrow> gbody Q fine b" by (auto simp: gbody_def)

text \<open>A sequence: what the second part gives as fine comes from a fine first part.\<close>

lemma gbody_bind:
  assumes "gbody Q ok m" "\<And>x. gbody Q fine (k x)" "\<And>x. \<not> ok x \<Longrightarrow> (\<And>s y s'. k x s = (Inr y, s') \<Longrightarrow> \<not> fine y)"
  shows "gbody Q fine (bindP m k)"
  unfolding gbody_def
proof (intro allI impI)
  fix s r s' assume b: "bindP m k s = (r, s')"
  obtain x t where m: "m s = (x, t)" by fastforce
  show "gs_steps s' = gs_steps s \<and> (\<forall>x. r = Inr x \<and> fine x \<and> Q (gs_world s) \<longrightarrow> Q (gs_world s'))"
  proof (cases x)
    case (Inl e)
    with b m have "r = Inl e" "s' = t" by (simp_all add: bindP_def)
    with assms(1) m show ?thesis unfolding gbody_def by blast
  next
    case (Inr y)
    with b m have k: "k y t = (r, s')" by (simp add: bindP_def)
    have "gs_steps t = gs_steps s" "ok y \<and> Q (gs_world s) \<longrightarrow> Q (gs_world t)" using assms(1) m Inr unfolding gbody_def by blast+
    moreover have "gs_steps s' = gs_steps t" "\<forall>x. r = Inr x \<and> fine x \<and> Q (gs_world t) \<longrightarrow> Q (gs_world s')"
      using assms(2) k unfolding gbody_def by blast+
    ultimately show ?thesis using assms(3) [of y t _ s'] k by auto
  qed
qed

lemma gbody_seq [gate_rules]: "gbody Q always m \<Longrightarrow> (\<And>x. gbody Q fine (k x)) \<Longrightarrow> gbody Q fine (bindP m k)"
  by (rule gbody_bind) auto

text \<open>A world that watches the commands: \<open>Q\<close> survives every operation but a failing command (the advisory
  audit's aside).\<close>

locale watched_ops =
  fixes Q :: "'w \<Rightarrow> bool" and ops :: "'w gate_ops"
  assumes watch_run: "o_run ops cmd cwd env w = (c, w') \<Longrightarrow> Q w \<Longrightarrow> c = Some 0 \<or> cmd = audit_cmd \<Longrightarrow> Q w'"
    and watch_help: "o_help ops cmd env w = (h, w') \<Longrightarrow> Q w \<Longrightarrow> Q w'"
    and watch_pin: "o_pin ops n b w = (r, w') \<Longrightarrow> Q w \<Longrightarrow> Q w'"
    and watch_merge_base: "o_merge_base ops n w = (r, w') \<Longrightarrow> Q w \<Longrightarrow> Q w'"
    and watch_copy: "o_copy ops x y w = (u, w') \<Longrightarrow> Q w \<Longrightarrow> Q w'"
begin

lemma run_body: "gbody Q (\<lambda>c. c = 0) (run_in ops cwd env cmd)"
  unfolding gbody_def run_in_def by (auto split: prod.splits option.splits intro: watch_run)

lemma audit_body: "gbody Q always (run_in ops cwd env audit_cmd)"
  unfolding gbody_def run_in_def by (auto split: prod.splits intro: watch_run)

lemma pin_body [gate_rules]: "gbody Q always (on_world (o_pin ops n b))"
  unfolding gbody_def on_world_def by (auto split: prod.splits intro: watch_pin)

lemma merge_base_body [gate_rules]: "gbody Q always (on_world (o_merge_base ops n))"
  unfolding gbody_def on_world_def by (auto split: prod.splits intro: watch_merge_base)

lemma copy_body [gate_rules]: "gbody Q always (on_world (o_copy ops x y))"
  unfolding gbody_def on_world_def by (auto split: prod.splits intro: watch_copy)

lemma help_body: "gbody Q always (\<lambda>s. on_world (\<lambda>w. case o_help ops cmd (gs_env s) w of (h, w') \<Rightarrow> (Inr h, w')) s)"
  unfolding gbody_def on_world_def by (auto split: prod.splits intro: watch_help)

lemma run_then: "(\<And>c. gbody Q fine (k c)) \<Longrightarrow> (\<And>c s y s'. c \<noteq> 0 \<Longrightarrow> k c s = (Inr y, s') \<Longrightarrow> \<not> fine y) \<Longrightarrow>
    gbody Q fine (bindP (run_in ops cwd env cmd) k)"
  by (rule gbody_bind [OF run_body]) auto

lemma run_ok_body [gate_rules]: "gbody Q unfailed (run_ok ops a cmd)"
  unfolding run_ok_def by (rule run_then) (auto simp: exit_ok_def ret_apply gbody_ret split: if_splits)

lemma failing_grows: "foldP (\<lambda>x acc. bindP (bad x) (\<lambda>b. ret (if b then acc @ [x] else acc))) xs acc s = (Inr y, s') \<Longrightarrow>
    acc \<noteq> [] \<Longrightarrow> y \<noteq> []"
proof (induction xs arbitrary: acc s)
  case (Cons x xs)
  from Cons.prems(1) obtain b t where "foldP (\<lambda>x acc. bindP (bad x) (\<lambda>b. ret (if b then acc @ [x] else acc))) xs
      (if b then acc @ [x] else acc) t = (Inr y, s')"
    unfolding foldP.simps bindP_eq_Inr_iff ret_apply by blast
  from Cons.IH [OF this] Cons.prems(2) show ?case by (auto split: if_splits)
qed (simp add: run)

lemma failing_body: "(\<And>x. gbody Q (\<lambda>b. \<not> b) (bad x)) \<Longrightarrow> gbody Q (\<lambda>fs. fs = []) (failing bad xs)"
proof -
  assume bad: "\<And>x. gbody Q (\<lambda>b. \<not> b) (bad x)"
  have "gbody Q (\<lambda>fs. fs = []) (foldP (\<lambda>x acc. bindP (bad x) (\<lambda>b. ret (if b then acc @ [x] else acc))) xs acc)" for acc
  proof (induction xs arbitrary: acc)
    case (Cons x xs)
    have "gbody Q (\<lambda>a. a = []) (bindP (bad x) (\<lambda>b. ret (if b then acc @ [x] else acc)))"
      by (rule gbody_bind [OF bad]) (auto simp: gbody_ret run)
    then show ?case by (simp, intro gbody_bind [OF _ Cons.IH]) (auto dest: failing_grows)
  qed (simp add: gbody_ret)
  then show ?thesis by (simp add: failing_def)
qed

lemma failing_then: "(\<And>x. gbody Q (\<lambda>b. \<not> b) (bad x)) \<Longrightarrow>
    gbody Q unfailed (bindP (failing bad xs) (\<lambda>failed. ret (none_failed failed what)))"
  by (rule gbody_bind [OF failing_body]) (auto simp: none_failed_def run gbody_ret split: if_splits)

lemma command_fails_body: "gbody Q (\<lambda>b. \<not> b) (bindP (run_in ops cwd env cmd) (\<lambda>c. ret (c \<noteq> 0)))"
  by (rule run_then) (auto simp: run gbody_ret)

lemma doctypes_body [gate_rules]: "gbody Q unfailed (doctypes ops a chk)"
  unfolding doctypes_def by (rule run_then) (auto simp: run intro!: gate_rules)

lemma customizations_body [gate_rules]: "gbody Q unfailed (customizations ops a hooks)"
  unfolding customizations_def
  by (rule run_then) (auto simp: run simp del: neq0_conv intro!: gbody_if gbody_ret failing_then command_fails_body)

lemma scan_body: "gbody Q (\<lambda>f. f = []) (scan_step ops a cmd what failed)"
  unfolding scan_step_def by (rule run_then) (auto simp: run gbody_ret)

lemma scan_grows: "scan_step ops a cmd what failed s = (Inr f, s') \<Longrightarrow> failed \<noteq> [] \<Longrightarrow> f \<noteq> []"
  unfolding scan_step_def by (auto simp: sumres run split: if_splits)

lemma semgrep_body [gate_rules]: "gbody Q unfailed (semgrep ops a has_tools)"
  unfolding semgrep_def Let_def
proof (rule gbody_bind [where ok = "\<lambda>f. f = []"], goal_cases)
  case 1
  show ?case by (intro gate_rules scan_body)
next
  case (2 f1)
  show ?case
  proof (rule gbody_bind [where ok = "\<lambda>f. f = []"], goal_cases)
    case 1
    show ?case by (intro gate_rules scan_body)
  next
    case (2 f2)
    show ?case
      by (rule gbody_seq [OF gbody_ask], rule gbody_bind [where ok = "\<lambda>f. f = []"])
        (auto simp: none_failed_def run intro!: gate_rules scan_body split: if_splits)
  next
    case (3 f2 s y s')
    then show ?case by (auto simp: sumres run none_failed_def dest!: scan_grows split: if_splits)
  qed
next
  case (3 f1 s y s')
  then show ?case by (auto simp: sumres run none_failed_def dest!: scan_grows split: if_splits)
qed

lemma cooldowns_body [gate_rules]: "gbody Q unfailed (bindP (ask f) (\<lambda>v. liftE (cooldowns v)))"
  by (rule gate_rules)+

lemma frappe_path_body [gate_rules]: "gbody Q unfailed (frappe_path ops a)"
  unfolding frappe_path_def by (intro gate_rules)

lemma node_modules_body [gate_rules]: "gbody Q unfailed (frappe_node_modules ops a)"
  unfolding frappe_node_modules_def
proof (rule gbody_seq)
  show "gbody Q always (writable_frappe ops a)"
    unfolding writable_frappe_def Let_def by (intro gate_rules)
  show "gbody Q unfailed (case x of (fp, why) \<Rightarrow> bindP (run_in ops (ga_root a) [] [''yarn'', ''--cwd'', fp, ''install'',
      ''--frozen-lockfile'', ''--ignore-scripts'', ''--non-interactive'']) (\<lambda>c. ret (if c \<noteq> 0 then (Failed, ''exit '' @ show_nat c) else (Passed, why))))" for x
    by (cases x) (auto intro!: run_then simp: run gbody_ret)
qed

lemma advisory_body [gate_rules]: "gbody Q unfailed (advisory ops a)"
  unfolding advisory_def
  by (rule gbody_seq [OF help_body], intro gbody_if gbody_ret, rule gbody_seq [OF audit_body], rule gbody_ret)

lemma lint_spec:
  "gspec Q a [''sync-check'', ''dependabot-cooldown'', ''prek'', ''customizations'', ''semgrep'', ''ratchet'', ''ci-lint''] (lint ops a)"
proof -
  have 1: "gspec Q a [''sync-check''] (lint_sync ops a)"
    unfolding lint_sync_def by (intro gate_rules) simp
  have 2: "gspec Q a [''dependabot-cooldown''] (lint_cooldown ops a)"
    unfolding lint_cooldown_def Let_def by (intro gate_rules) simp
  have 3: "gspec Q a [''prek''] (lint_prek ops a h)" for h
    unfolding lint_prek_def by (intro gate_rules) simp
  have 4: "gspec Q a [''customizations''] (lint_customizations ops a)"
    unfolding lint_customizations_def Let_def by (intro gate_rules) simp
  have 5: "gspec Q a [''semgrep''] (lint_semgrep ops a h)" for h
    unfolding lint_semgrep_def by (intro gate_rules) simp
  have b: "gbody Q always (ratchet_base ops a)"
    unfolding ratchet_base_def by (cases "ga_base a") (simp_all add: gate_rules)
  have 6: "gspec Q a [''ratchet''] (lint_ratchet ops a)"
    unfolding lint_ratchet_def
  proof (rule gspec_pre [OF b])
    show "gspec Q a [''ratchet''] (case x of (base, why) \<Rightarrow> case base of None \<Rightarrow> gate_skip ''ratchet'' [] why
        | Some b \<Rightarrow> gate_step ''ratchet'' [] (run_ok ops a (frappe_nix ops [''ratchet'', ''--base'', b])))" for x
      by (cases x) (auto intro!: gate_rules split: option.split)
  qed
  have 7: "gspec Q a [''ci-lint''] (lint_ci ops a)"
    unfolding lint_ci_def by (rule gspec_pre [OF gbody_ask]) (intro gate_rules, simp)
  show ?thesis
    unfolding lint_def by (intro gspec_cons gspec_pre [OF gbody_ask] 1 2 3 4 5 6 7)
qed

lemma typecheck_spec:
  "gspec Q a [''frappe-path'', ''frappe-node-modules'', ''typecheck'', ''unchecked-js'', ''js-unit'', ''nested'', ''doctypes'',
     ''audit-consumer'', ''ci-typecheck''] (typecheck ops a)"
proof -
  have 1: "gspec Q a [''frappe-path''] (type_path ops a)"
    unfolding type_path_def by (intro gate_rules) simp
  have 2: "gspec Q a [''frappe-node-modules''] (type_node_modules ops a)"
    unfolding type_node_modules_def Let_def
    by (intro gspec_if gspec_skip gspec_pre [OF gbody_getenv] gspec_step node_modules_body) (simp add: ts_on_def)
  have 3: "gspec Q a [''typecheck''] (type_check ops a pkg)" for pkg
    unfolding type_check_def Let_def by (intro gate_rules) (simp add: ts_on_def)
  have 4: "gspec Q a [''unchecked-js''] (type_unchecked ops a)"
    unfolding type_unchecked_def Let_def by (intro gate_rules) (simp add: ts_on_def)
  have 5: "gspec Q a [''js-unit''] (type_unit ops a pkg)" for pkg
    unfolding type_unit_def Let_def by (intro gate_rules) simp
  have bad: "gbody Q (\<lambda>b. \<not> b) (bindP (run_in ops r [] i) (\<lambda>c. if c \<noteq> 0 then ret True
      else bindP (run_in ops r [] j) (\<lambda>c. ret (c \<noteq> 0))))" for r i j
    by (rule run_then) (auto simp: run simp del: neq0_conv intro!: gbody_if gbody_ret command_fails_body)
  have 6: "gspec Q a [''nested''] (type_nested ops a)"
    unfolding type_nested_def
    by (rule gspec_pre [OF gbody_ask], intro gspec_if gspec_skip gspec_step failing_then bad) simp
  have 7: "gspec Q a [''doctypes''] (type_doctypes ops a)"
    unfolding type_doctypes_def by (intro gate_rules) (auto simp: doctypes_off_def split: if_splits)
  have 8: "gspec Q a [''audit-consumer''] (type_audit ops a)"
    unfolding type_audit_def Let_def
    by (intro gspec_if gspec_skip gspec_pre [OF gbody_ask] gspec_step run_ok_body advisory_body) (simp_all add: ts_on_def)
  have 9: "gspec Q a [''ci-typecheck''] (type_ci ops a pkg)" for pkg
    unfolding type_ci_def by (intro gate_rules) simp
  show ?thesis
    unfolding typecheck_def by (intro gspec_pre [OF gbody_ask] gspec_cons 1 2 3 4 5 6 7 8 9)
qed

lemma marketplace_spec: "gspec Q a [''listing''] (marketplace ops a)"
proof -
  have "gbody Q unfailed (bindP (run_in ops r env cmd) (\<lambda>c. ret (exit_ok c)))" for r env cmd
    by (rule run_then) (auto simp: exit_ok_def ret_apply gbody_ret split: if_splits)
  then show ?thesis unfolding marketplace_def by (intro gspec_if gspec_skip gspec_step) simp_all
qed

end

text \<open>The steps of each gate, in order.\<close>

definition gate_steps :: "string \<Rightarrow> string list" where
  "gate_steps gate =
     (if gate = ''lint'' then [''sync-check'', ''dependabot-cooldown'', ''prek'', ''customizations'', ''semgrep'', ''ratchet'', ''ci-lint'']
      else if gate = ''typecheck'' then [''frappe-path'', ''frappe-node-modules'', ''typecheck'', ''unchecked-js'', ''js-unit'',
        ''nested'', ''doctypes'', ''audit-consumer'', ''ci-typecheck'']
      else [''listing''])"

context watched_ops
begin

lemma gate_run_spec:
  assumes "gate_run ops a gate env w = (Inr (code, steps), w')"
  shows "map sr_name steps = gate_steps gate \<and> (\<forall>r \<in> set steps. off_skipped a r) \<and>
    code = (if \<exists>r \<in> set steps. sr_status r = Failed then DRIFT else CLEAN) \<and>
    (Q w \<and> code = CLEAN \<longrightarrow> Q w')"
proof -
  let ?s = "\<lparr>gs_world = w, gs_env = setdefault ''EIO_BACKEND'' ''posix'' (setdefault ''UV_PYTHON'' ''3.14'' env), gs_steps = []\<rparr>"
  from assms obtain s' where s': "gate_runner gate ops a ?s = (Inr (), s')" "steps = gs_steps s'" "w' = gs_world s'"
      "code = (if list_ex (\<lambda>r. sr_status r = Failed) (gs_steps s') then DRIFT else CLEAN)"
    by (auto simp: gate_run_def split: if_splits prod.splits sum.splits)
  have "gspec Q a (gate_steps gate) (gate_runner gate ops a)"
    using lint_spec typecheck_spec marketplace_spec by (simp add: gate_runner_def gate_steps_def)
  with s'(1) obtain rs where rs: "gs_steps s' = gs_steps ?s @ rs" "map sr_name rs = gate_steps gate" "\<forall>r \<in> set rs. off_skipped a r"
      "Q (gs_world ?s) \<and> (\<forall>r \<in> set rs. sr_status r \<noteq> Failed) \<longrightarrow> Q (gs_world s')"
    unfolding gspec_def by blast
  have "steps = rs" using rs(1) s'(2) by simp
  moreover have "code = (if \<exists>r \<in> set steps. sr_status r = Failed then DRIFT else CLEAN)" using s'(2,4) by (simp add: list_ex_iff)
  moreover have "code = CLEAN \<longrightarrow> (\<forall>r \<in> set steps. sr_status r \<noteq> Failed)" using calculation(2) by (auto simp: codes split: if_splits)
  moreover have "Q w \<and> code = CLEAN \<longrightarrow> Q w'" using rs(4) calculation(1,3) s'(3) by simp
  ultimately show ?thesis using rs(2,3) by blast
qed

end

section \<open>A log of the commands\<close>

definition logged :: "'w gate_ops \<Rightarrow> ('w \<times> (string list \<times> nat option) list) gate_ops" where
  "logged ops =
     \<lparr>o_self = o_self ops,
      o_run = (\<lambda>cmd cwd env (w, l). case o_run ops cmd cwd env w of (c, w') \<Rightarrow> (c, (w', l @ [(cmd, c)]))),
      o_help = (\<lambda>cmd env (w, l). case o_help ops cmd env w of (h, w') \<Rightarrow> (h, (w', l))),
      o_pin = (\<lambda>n b (w, l). case o_pin ops n b w of (r, w') \<Rightarrow> (r, (w', l))),
      o_merge_base = (\<lambda>n (w, l). case o_merge_base ops n w of (r, w') \<Rightarrow> (r, (w', l))),
      o_copy = (\<lambda>x y (w, l). case o_copy ops x y w of (r, w') \<Rightarrow> (r, (w', l))),
      o_writable = (\<lambda>p (w, l). o_writable ops p w), o_exists = (\<lambda>p (w, l). o_exists ops p w),
      o_is_file = (\<lambda>p (w, l). o_is_file ops p w), o_is_dir = (\<lambda>p (w, l). o_is_dir ops p w),
      o_package = (\<lambda>d (w, l). o_package ops d w), o_dependabot = (\<lambda>(w, l). o_dependabot ops w),
      o_data = o_data ops, o_siblings = (\<lambda>(w, l). o_siblings ops w)\<rparr>"

definition no_failure :: "'w \<times> (string list \<times> nat option) list \<Rightarrow> bool" where
  "no_failure wl \<longleftrightarrow> (\<forall>p \<in> set (snd wl). snd p = Some 0 \<or> fst p = audit_cmd)"

interpretation watched: watched_ops no_failure "logged ops" for ops :: "'w gate_ops"
  by unfold_locales (auto simp: logged_def no_failure_def split: prod.splits)

text \<open>The plain operations are watched by the predicate that says nothing.\<close>

interpretation unwatched: watched_ops "\<lambda>_. True" ops for ops :: "'w gate_ops"
  by unfold_locales auto

text \<open>
  A gate that ends by itself has run to the end: it records exactly its steps, in their order, whichever of
  them failed; a step whose module is off is recorded as skipped (but the sync check, which always runs); and the
  exit code is drift exactly when some step failed.
\<close>

theorem gate_records_every_step:
  assumes "gate_run ops a gate env w = (Inr (code, steps), w')"
  shows "map sr_name steps = gate_steps gate \<and> (\<forall>r \<in> set steps. off_skipped a r) \<and>
    code = (if \<exists>r \<in> set steps. sr_status r = Failed then DRIFT else CLEAN)"
  using unwatched.gate_run_spec [OF assms] by blast

text \<open>
  C18. A clean gate is one in which no command failed: in the log of the commands it ran, every one exited 0, the
  advisory audit aside.
\<close>

theorem gate_clean_ran_clean:
  assumes "gate_run (logged ops) a gate env (w, []) = (Inr (CLEAN, steps), (w', log'))"
  shows "\<forall>(cmd, c) \<in> set log'. c = Some 0 \<or> cmd = audit_cmd"
  using watched.gate_run_spec [OF assms] by (auto simp: no_failure_def)

section \<open>The ratchet's base is no step\<close>

lemma keeps_ask [keeps_rules]: "keeps I (ask f)" by (simp add: keeps_def ask_def)
lemma keeps_getenv [keeps_rules]: "keeps I (getenv k)" by (simp add: keeps_def getenv_def)
lemma env_run [keeps_rules]: "keeps (\<lambda>s. gs_env s = env) (run_in ops cwd e cmd)"
  by (simp add: keeps_def run_in_def split: prod.splits option.splits)
lemma env_world [keeps_rules]: "keeps (\<lambda>s. gs_env s = env) (on_world f)"
  by (simp add: keeps_def on_world_def split: prod.splits)
lemma env_record [keeps_rules]: "keeps (\<lambda>s. gs_env s = env) (record_step n m st why)"
  by (simp add: keeps_def record_step_def)
lemma env_skip [keeps_rules]: "keeps (\<lambda>s. gs_env s = env) (gate_skip n m why)"
  by (simp add: gate_skip_def keeps_rules)
lemma env_step [keeps_rules]: "keeps (\<lambda>s. gs_env s = env) b \<Longrightarrow> keeps (\<lambda>s. gs_env s = env) (gate_step n m b)"
  unfolding gate_step_def by (intro keeps_rules)
lemma env_run_ok [keeps_rules]: "keeps (\<lambda>s. gs_env s = env) (run_ok ops a cmd)"
  unfolding run_ok_def by (intro keeps_rules)

lemma env_lint_sync: "keeps (\<lambda>s. gs_env s = env) (lint_sync ops a)"
  unfolding lint_sync_def by (intro keeps_rules)

lemma env_lint_cooldown: "keeps (\<lambda>s. gs_env s = env) (lint_cooldown ops a)"
  unfolding lint_cooldown_def Let_def by (intro keeps_rules)

lemma env_lint_prek: "keeps (\<lambda>s. gs_env s = env) (lint_prek ops a h)"
  unfolding lint_prek_def by (intro keeps_rules)

lemma env_lint_customizations: "keeps (\<lambda>s. gs_env s = env) (lint_customizations ops a)"
  unfolding lint_customizations_def customizations_def failing_def Let_def by (intro keeps_rules)

lemma env_scan: "keeps (\<lambda>s. gs_env s = env) (scan_step ops a cmd what failed)"
  unfolding scan_step_def by (intro keeps_rules)

lemma env_lint_semgrep: "keeps (\<lambda>s. gs_env s = env) (lint_semgrep ops a h)"
  unfolding lint_semgrep_def semgrep_def Let_def by (intro keeps_rules env_scan)

lemma ends_after:
  assumes "keeps I m" "I s" "\<And>x t. I t \<Longrightarrow> \<exists>e u. k x t = (Inl e, u)"
  shows "\<exists>e u. bindP m k s = (Inl e, u)"
proof -
  obtain r t where m: "m s = (r, t)" by fastforce
  then have "I t" using assms(1,2) keepsD by metis
  then show ?thesis using assms(3) m by (cases r) (simp_all add: bindP_def)
qed

text \<open>
  Computing the ratchet's base is no step: on a pull request whose merge base git cannot find, the lint gate
  ends with an error of its own, so the steps after it do not run and there is no result.
\<close>

theorem lint_ends_without_a_merge_base:
  assumes "ga_base a = None" "map_of env ''GITHUB_EVENT_NAME'' = Some ''pull_request''" "map_of env ''BASE_SHA'' = Some sha" "sha \<noteq> []"
    "\<forall>w. \<exists>w'. o_merge_base ops sha w = (Inl e, w')"
  shows "\<exists>e' w'. gate_run ops a ''lint'' env w = (Inl e', w')"
proof -
  let ?env = "setdefault ''EIO_BACKEND'' ''posix'' (setdefault ''UV_PYTHON'' ''3.14'' env)"
  let ?I = "\<lambda>s :: 'a gate_st. gs_env s = ?env"
  have env: "map_of ?env ''GITHUB_EVENT_NAME'' = Some ''pull_request''" "map_of ?env ''BASE_SHA'' = Some sha"
    using assms(2,3) by (simp_all add: setdefault_def map_of_append)
  have r: "\<exists>e u. bindP (lint_ratchet ops a) k t = (Inl e, u)" if "?I t" for k t
  proof -
    obtain w' where w': "o_merge_base ops sha (gs_world t) = (Inl e, w')" using assms(5) by blast
    have "ratchet_base ops a t = (Inl e, t\<lparr>gs_world := w'\<rparr>)"
      unfolding ratchet_base_def assms(1) using that env assms(4) w' by (simp add: bindP_def getenv_def on_world_def)
    then show ?thesis by (simp add: lint_ratchet_def bindP_def)
  qed
  note k = env_lint_sync env_lint_cooldown env_lint_prek env_lint_customizations env_lint_semgrep
  have 5: "\<exists>e u. bindP (lint_semgrep ops a h) (\<lambda>_. bindP (lint_ratchet ops a) k) t = (Inl e, u)" if "?I t" for h k t
    by (rule ends_after [where I = ?I, OF k(5) that], erule r)
  have 4: "\<exists>e u. bindP (lint_customizations ops a) (\<lambda>_. bindP (lint_semgrep ops a h) (\<lambda>_. bindP (lint_ratchet ops a) k)) t = (Inl e, u)"
    if "?I t" for h k t by (rule ends_after [where I = ?I, OF k(4) that], erule 5)
  have 3: "\<exists>e u. bindP (lint_prek ops a h) (\<lambda>_. bindP (lint_customizations ops a) (\<lambda>_. bindP (lint_semgrep ops a h) (\<lambda>_.
      bindP (lint_ratchet ops a) k))) t = (Inl e, u)" if "?I t" for h k t by (rule ends_after [where I = ?I, OF k(3) that], erule 4)
  have 2: "\<exists>e u. bindP (ask f) (\<lambda>h. bindP (lint_prek ops a h) (\<lambda>_. bindP (lint_customizations ops a) (\<lambda>_.
      bindP (lint_semgrep ops a h) (\<lambda>_. bindP (lint_ratchet ops a) k)))) t = (Inl e, u)" if "?I t" for f k t
    by (rule ends_after [where I = ?I, OF keeps_ask that], erule 3)
  have 1: "\<exists>e u. bindP (lint_cooldown ops a) (\<lambda>_. bindP (ask f) (\<lambda>h. bindP (lint_prek ops a h) (\<lambda>_.
      bindP (lint_customizations ops a) (\<lambda>_. bindP (lint_semgrep ops a h) (\<lambda>_. bindP (lint_ratchet ops a) k))))) t = (Inl e, u)"
    if "?I t" for f k t by (rule ends_after [where I = ?I, OF k(2) that], erule 2)
  have "\<exists>e u. lint ops a s = (Inl e, u)" if "?I s" for s
    unfolding lint_def by (rule ends_after [where I = ?I, OF k(1) that], erule 1)
  then obtain e' u where "lint ops a \<lparr>gs_world = w, gs_env = ?env, gs_steps = []\<rparr> = (Inl e', u)" by fastforce
  then show ?thesis by (simp add: gate_run_def GATES_def gate_runner_def)
qed

section \<open>Witnesses\<close>

definition sample_gate_ops :: "unit gate_ops" where
  "sample_gate_ops =
     \<lparr>o_self = [''frappe-nix''], o_run = (\<lambda>cmd cwd env w. (Some 0, ())), o_help = (\<lambda>cmd env w. ([], ())),
      o_pin = (\<lambda>n b w. (Inr ''/nix/store/x'', ())), o_merge_base = (\<lambda>n w. (Inl (EnvError ''git merge-base''), ())),
      o_copy = (\<lambda>x y w. (Inr (), ())), o_writable = (\<lambda>p w. True), o_exists = (\<lambda>p w. False), o_is_file = (\<lambda>p w. False),
      o_is_dir = (\<lambda>p w. False), o_package = (\<lambda>d w. None), o_dependabot = (\<lambda>w. None), o_data = (\<lambda>n. n), o_siblings = (\<lambda>w. Inr [])\<rparr>"

definition sample_gate_app :: gate_app where
  "sample_gate_app =
     \<lparr>ga_app = ''app'', ga_root = ''/app'', ga_cfg = JObj [], ga_modules = (\<lambda>m. m = ''listing''), ga_integration = ''develop'',
      ga_tracked = [], ga_nested = [], ga_github = True, ga_base = None, ga_expect_rev = []\<rparr>"

lemma gate_records_every_step_witness:
  "\<exists>code steps. fst (gate_run sample_gate_ops sample_gate_app ''lint'' [] ()) = Inr (code, steps) \<and> length steps = 7"
proof -
  have "case gate_run sample_gate_ops sample_gate_app ''lint'' [] () of (Inr _, _) \<Rightarrow> True | _ \<Rightarrow> False" by code_simp
  then obtain code steps where g: "gate_run sample_gate_ops sample_gate_app ''lint'' [] () = (Inr (code, steps), ())"
    by (auto split: sum.splits prod.splits)
  from gate_records_every_step [OF g] have "length steps = length (gate_steps ''lint'')" by (metis length_map)
  with g show ?thesis by (simp add: gate_steps_def)
qed

lemma gate_clean_ran_clean_witness:
  "\<exists>steps log'. gate_run (logged sample_gate_ops) sample_gate_app ''marketplace'' [] ((), []) = (Inr (CLEAN, steps), ((), log')) \<and>
     log' \<noteq> [] \<and> (\<forall>(cmd, c) \<in> set log'. c = Some 0 \<or> cmd = audit_cmd)"
proof -
  have "case gate_run (logged sample_gate_ops) sample_gate_app ''marketplace'' [] ((), []) of
      (Inr (c, _), (_, l)) \<Rightarrow> c = CLEAN \<and> l \<noteq> [] | _ \<Rightarrow> False" by code_simp
  then obtain steps log' where
      g: "gate_run (logged sample_gate_ops) sample_gate_app ''marketplace'' [] ((), []) = (Inr (CLEAN, steps), ((), log'))" "log' \<noteq> []"
    by (auto split: sum.splits prod.splits) (metis old.sum.exhaust surj_pair)
  with gate_clean_ran_clean [OF g(1)] show ?thesis by blast
qed

lemma lint_ends_without_a_merge_base_witness:
  "\<exists>e w'. gate_run sample_gate_ops sample_gate_app ''lint'' [(''GITHUB_EVENT_NAME'', ''pull_request''), (''BASE_SHA'', ''abc'')] () = (Inl e, w')"
  by (rule lint_ends_without_a_merge_base [where sha = "''abc''" and e = "EnvError ''git merge-base''"])
    (simp_all add: sample_gate_app_def sample_gate_ops_def)

end
