(* ===== verification/KnownApps.thy ===== *)
theory KnownApps
  imports Config
begin

text \<open>
  The apps beside an app: \<^verbatim>\<open>common/known_apps.py\<close> (the templates of the known apps, and a sibling
  resolved for a Frappe major), \<^verbatim>\<open>scaffold/ranges.py\<close> (the rules on the app's Frappe dependencies), and
  of \<^verbatim>\<open>scaffold/hooks.py\<close>, \<^verbatim>\<open>scaffold/context.py\<close> and \<^verbatim>\<open>common/repo.py\<close> what reads the siblings, the
  required apps and the remote.  Parameters: \<open>builtin\<close> (the shipped \<^verbatim>\<open>known-apps.json\<close>), \<open>txt\<close> (Python's
  text of a value that is not a string, which an f-string shows) and \<open>spec\<close> (packaging's
  \<^verbatim>\<open>SpecifierSet\<close>: the operators and versions of a range, none for an invalid one).
\<close>

section \<open>The known apps\<close>

definition GENERIC :: string where "GENERIC = ''*/*''"

text \<open>The table of templates: each a table of its own.\<close>

type_synonym templates = "(string \<times> jtable) list"

definition template_at :: "templates \<Rightarrow> string \<Rightarrow> jtable" where
  "template_at t k = (case map_of t k of Some e \<Rightarrow> e | None \<Rightarrow> [])"

definition merge_entry :: "string \<times> json \<Rightarrow> templates \<Rightarrow> exn + templates" where
  "merge_entry kv out =
     (case snd kv of
        JObj e \<Rightarrow> Inr (AList.update (fst kv) (set_all e (template_at out (fst kv))) out)
      | _ \<Rightarrow> Inl TypeError)"

definition merge_templates :: "json \<Rightarrow> templates \<Rightarrow> exn + templates" where
  "merge_templates layer out =
     (if truthy layer then bindE (table_of layer) (\<lambda>l. foldE merge_entry l out) else Inr out)"

definition known_merged :: "templates \<Rightarrow> json list \<Rightarrow> exn + templates" where
  "known_merged builtin layers = foldE merge_templates layers builtin"

record sibling =
  s_name :: string
  s_spelling :: string
  s_repo :: json
  s_branch :: json
  s_range :: json
  s_desk :: json
  s_flake :: json

definition fill :: "nat \<Rightarrow> string \<Rightarrow> string \<Rightarrow> json \<Rightarrow> json" where
  "fill major owner name template =
     (case template of
        JStr s \<Rightarrow> JStr (replace_all ''{name}'' name (replace_all ''{owner}'' owner
          (replace_all ''{n}'' (show_nat major) (replace_all ''{n1}'' (show_nat (major + 1)) s))))
      | _ \<Rightarrow> template)"

definition name_ok :: "string \<Rightarrow> bool" where
  "name_ok s \<longleftrightarrow> s \<noteq> [] \<and> list_all (\<lambda>c. is_alnum c \<or> c \<in> {CHR ''_'', CHR ''.'', CHR ''-''}) s"

definition rule_of :: "string \<Rightarrow> templates \<Rightarrow> exn + string \<times> string \<times> jtable" where
  "rule_of key apps =
     (case partition1 (CHR ''/'') key of (owner, sl, name) \<Rightarrow>
        if sl then
          (if \<not> name_ok owner \<or> \<not> name_ok name \<or> startswith name ''.''
           then Inl (ConfigError ''unknown sibling: write it as <owner>/<repo>'')
           else case (if template_at apps key \<noteq> [] then Some (template_at apps key) else map_of apps GENERIC) of
                  None \<Rightarrow> Inl (ConfigError ''unknown sibling: no known-apps entry and no rule'')
                | Some r \<Rightarrow> Inr (owner, name, r))
        else if key = GENERIC \<or> map_of apps key = None then Inl (ConfigError ''unknown sibling'')
        else Inr ([], key, template_at apps key))"

definition spelling_of :: "json \<Rightarrow> exn + string \<times> jtable" where
  "spelling_of sib =
     (case sib of
        JStr s \<Rightarrow> Inr (s, [])
      | JObj t \<Rightarrow> (case entry t ''repo'' of
            JStr s \<Rightarrow> if s = [] then Inl (ConfigError ''sibling needs a repo'') else Inr (s, t)
          | _ \<Rightarrow> Inl (ConfigError ''sibling needs a repo''))
      | _ \<Rightarrow> Inl (ConfigError ''sibling is neither a name nor a table''))"

text \<open>The last two parts of a spelling are its key.\<close>

definition sibling_key :: "string \<Rightarrow> string" where
  "sibling_key spelling =
     (let parts = split_on (CHR ''/'') spelling
      in if length parts \<le> 2 then spelling else join ''/'' (drop (length parts - 2) parts))"

definition text_or :: "(json \<Rightarrow> string) \<Rightarrow> json \<Rightarrow> string" where
  "text_or txt v = (case v of JStr s \<Rightarrow> s | _ \<Rightarrow> txt v)"

definition resolve_sibling :: "(json \<Rightarrow> string) \<Rightarrow> json \<Rightarrow> nat \<Rightarrow> templates \<Rightarrow> exn + sibling" where
  "resolve_sibling txt sib major apps =
     bindE (spelling_of sib) (\<lambda>(spelling, override).
     bindE (rule_of (sibling_key spelling) apps) (\<lambda>(owner, name, rule).
     let template = set_all (without [''repo''] override) rule;
         f = fill major owner name;
         repo = jor (jor (entry override ''repo'') (f (entry rule ''repo''))) (JStr []);
         branch = jor (f (entry template ''branch'')) (JStr []);
         url = entry template ''flake-url''
     in if \<not> truthy url \<and> 2 < length (split_on (CHR ''/'') spelling) \<and> \<not> truthy (entry override ''flake-url'')
        then Inl (ConfigError ''sibling is not on GitHub: give it a flake-url'')
        else Inr \<lparr>s_name = name, s_spelling = spelling, s_repo = repo, s_branch = branch,
               s_range = jor (f (entry template ''range'')) (JStr []),
               s_desk = f (entry template ''desk_global''),
               s_flake = f (if truthy url then url
                            else JStr (''github:'' @ text_or txt repo @ ''/'' @ text_or txt branch))\<rparr>))"

section \<open>Siblings and required apps\<close>

text \<open>\<^verbatim>\<open>hooks.bare\<close>, and the names of \<^verbatim>\<open>hooks.required_apps\<close> (a tuple reads as a list).\<close>

definition bare :: "string \<Rightarrow> string" where
  "bare spelling = last (split_on (CHR ''/'') spelling)"

definition required_apps :: "jtable \<Rightarrow> exn + string list" where
  "required_apps values =
     (case (case map_of values ''required_apps'' of None \<Rightarrow> JArr [] | Some v \<Rightarrow> v) of
        JArr xs \<Rightarrow> if list_all is_str xs then Inr (map (\<lambda>x. case x of JStr s \<Rightarrow> s | _ \<Rightarrow> []) xs)
                   else Inl (ConfigError ''hooks.py: required_apps must be a list of strings'')
      | _ \<Rightarrow> Inl (ConfigError ''hooks.py: required_apps must be a list of strings''))"

definition known_of :: "templates \<Rightarrow> json \<Rightarrow> exn + templates" where
  "known_of builtin cfg = bindE (dget cfg ''known-apps'' JNull) (\<lambda>k. known_merged builtin [k])"

definition siblings_of :: "(json \<Rightarrow> string) \<Rightarrow> templates \<Rightarrow> json \<Rightarrow> nat \<Rightarrow> exn + sibling list" where
  "siblings_of txt builtin cfg major =
     bindE (known_of builtin cfg) (\<lambda>apps.
     bindE (dget cfg ''siblings'' (JArr [])) (\<lambda>v.
     bindE (iter v) (\<lambda>xs. mapE (\<lambda>x. resolve_sibling txt x major apps) xs)))"

section \<open>The rules on the Frappe dependencies\<close>

definition BENCH_APPS :: "string list" where
  "BENCH_APPS = [''frappe'', ''erpnext'', ''hrms'', ''payments'']"

datatype range_problem =
    DepsMissing
  | RequiresFrappe
  | KeysAre "string list" "string list"
  | NotKnown exn
  | RangeIs string json
  | NotARange string
  | LowerBound string
  | NamesBenchApps "string list"

text \<open>The dependencies wanted: frappe and the required apps, each with the spelling that gives its range.\<close>

definition wanted_apps :: "string list \<Rightarrow> (string \<times> string) list" where
  "wanted_apps required =
     fold (\<lambda>r. AList.update (bare r) r) (filter (\<lambda>r. bare r \<noteq> ''frappe'') required) [(''frappe'', ''frappe'')]"

definition siblings_by_name :: "sibling list \<Rightarrow> (string \<times> sibling) list" where
  "siblings_by_name sibs = dict_of (map (\<lambda>s. (s_name s, s)) sibs)"

definition expected_range ::
  "(json \<Rightarrow> string) \<Rightarrow> sibling list \<Rightarrow> nat \<Rightarrow> templates \<Rightarrow> string \<times> string \<Rightarrow> exn + json" where
  "expected_range txt sibs major apps want =
     (case map_of (siblings_by_name sibs) (fst want) of
        Some s \<Rightarrow> Inr (s_range s)
      | None \<Rightarrow> bindE (resolve_sibling txt (JStr (snd want)) major apps) (\<lambda>s. Inr (s_range s)))"

definition is_lower_bound :: "string \<times> string \<Rightarrow> bool" where
  "is_lower_bound s \<longleftrightarrow> fst s \<in> {''>='', ''>'', ''=='', ''~=''}"

text \<open>One dependency with its expected range.  (The expected range is a string: the schema holds it to one.)\<close>

definition range_checks ::
  "(string \<Rightarrow> (string \<times> string) list option) \<Rightarrow> nat \<Rightarrow> string \<Rightarrow> string \<Rightarrow> json \<Rightarrow> exn + range_problem list" where
  "range_checks spec major name text expected =
     (let differs = (if expected = JStr text then [] else [RangeIs name expected]) in
      case spec text of
        None \<Rightarrow> Inr (differs @ [NotARange name])
      | Some specs \<Rightarrow>
          (case expected of
             JStr ex \<Rightarrow>
               let bounds = filter is_lower_bound specs in
               Inr (differs @
                 (if startswith ex (''>='' @ show_nat major @ ''.'') \<and> bounds \<noteq> [] \<and>
                     hd (split_on (CHR ''.'') (snd (hd bounds))) \<noteq> show_nat major
                  then [LowerBound name] else []))
           | _ \<Rightarrow> Inl AttributeError))"

definition dependency_problems ::
  "(json \<Rightarrow> string) \<Rightarrow> (string \<Rightarrow> (string \<times> string) list option) \<Rightarrow> sibling list \<Rightarrow> nat \<Rightarrow> templates \<Rightarrow> jtable \<Rightarrow>
     string \<times> string \<Rightarrow> exn + range_problem list" where
  "dependency_problems txt spec sibs major apps deps want =
     (case entry deps (fst want) of
        JStr text \<Rightarrow>
          (case expected_range txt sibs major apps want of
             Inl (ConfigError m) \<Rightarrow> Inr [NotKnown (ConfigError m)]
           | Inl e \<Rightarrow> Inl e
           | Inr ex \<Rightarrow> range_checks spec major (fst want) text ex)
      | _ \<Rightarrow> Inr [])"

definition bench_named :: "string \<Rightarrow> string list" where
  "bench_named dep =
     (let head = lower (hd (split_on (CHR '';'') (strip dep)))
      in filter (\<lambda>app. head = app \<or> list_ex (\<lambda>c. startswith head (app @ [c])) '' <>=!~[('') BENCH_APPS)"

definition bench_named_in :: "json \<Rightarrow> exn + string list" where
  "bench_named_in dep = (case dep of JStr s \<Rightarrow> Inr (bench_named s) | _ \<Rightarrow> Inl AttributeError)"

definition project_dependencies :: "json \<Rightarrow> exn + json list" where
  "project_dependencies pyproject =
     bindE (dget pyproject ''project'' (JObj [])) (\<lambda>p. bindE (dget p ''dependencies'' (JArr [])) (\<lambda>d. iter (jor d (JArr []))))"

definition frappe_dependencies :: "json \<Rightarrow> exn + json" where
  "frappe_dependencies pyproject =
     bindE (dget pyproject ''tool'' (JObj [])) (\<lambda>t. bindE (dget t ''bench'' (JObj [])) (\<lambda>b. dget b ''frappe-dependencies'' JNull))"

definition range_problems ::
  "(json \<Rightarrow> string) \<Rightarrow> (string \<Rightarrow> (string \<times> string) list option) \<Rightarrow> templates \<Rightarrow> json \<Rightarrow> string list \<Rightarrow> nat \<Rightarrow>
     sibling list \<Rightarrow> json \<Rightarrow> exn + range_problem list" where
  "range_problems txt spec builtin pyproject required major sibs known =
     bindE (known_merged builtin [known]) (\<lambda>apps.
     bindE (frappe_dependencies pyproject) (\<lambda>found.
     case found of
       JObj deps \<Rightarrow>
         let want = wanted_apps required;
             own = (if list_ex (\<lambda>r. bare r = ''frappe'') required then [RequiresFrappe] else []);
             keys = (if set (map fst deps) \<noteq> set (map fst want) then [KeysAre (map fst deps) (map fst want)] else [])
         in bindE (mapE (dependency_problems txt spec sibs major apps deps) want) (\<lambda>each.
            bindE (project_dependencies pyproject) (\<lambda>pd.
            bindE (mapE bench_named_in pd) (\<lambda>named.
              Inr (own @ keys @ concat each @
                   (if concat named \<noteq> [] then [NamesBenchApps (concat named)] else [])))))
     | _ \<Rightarrow> Inr [DepsMissing]))"

section \<open>Remotes\<close>

text \<open>\<^verbatim>\<open>parse_remote\<close>: the user, the host and the path of a URL are cut out by hand, each in the one way
  its pattern can match.\<close>

definition host_text :: "string \<Rightarrow> bool" where
  "host_text s \<longleftrightarrow> s \<noteq> [] \<and> list_all (\<lambda>c. is_alnum c \<or> c = CHR ''.'' \<or> c = CHR ''-'') s"

definition drop_user :: "string \<Rightarrow> string option" where
  "drop_user s =
     (case partition1 (CHR ''@'') s of (u, ok, h) \<Rightarrow>
        if \<not> ok then Some s else if u = [] \<or> CHR ''/'' \<in> set u then None else Some h)"

definition scp_remote :: "string \<Rightarrow> (string \<times> string) option" where
  "scp_remote url =
     (case rpartition1 (CHR '':'') url of (u, colon, path) \<Rightarrow>
        if \<not> colon \<or> path = [] \<or> startswith path ''//'' then None
        else (case drop_user u of Some h \<Rightarrow> if host_text h then Some (h, path) else None | None \<Rightarrow> None))"

definition url_schemes :: "string list" where
  "url_schemes = [''ssh://'', ''http://'', ''https://'', ''git://'']"

definition drop_port :: "string \<Rightarrow> string option" where
  "drop_port s =
     (case partition1 (CHR '':'') s of (h, colon, port) \<Rightarrow>
        if colon \<and> (port = [] \<or> \<not> list_all is_digit port) then None else Some h)"

definition url_remote :: "string \<Rightarrow> (string \<times> string) option" where
  "url_remote url =
     (case find (startswith url) url_schemes of
        None \<Rightarrow> None
      | Some p \<Rightarrow>
          (case partition1 (CHR ''/'') (drop (length p) url) of (authority, sl, path) \<Rightarrow>
             if \<not> sl \<or> path = [] \<or> newline \<in> set path then None
             else (case Option.bind (drop_user authority) drop_port of
                     Some h \<Rightarrow> if host_text h then Some (h, path) else None
                   | None \<Rightarrow> None)))"

definition parse_remote :: "string \<Rightarrow> (string \<times> string) option" where
  "parse_remote url =
     (case (case scp_remote url of Some m \<Rightarrow> Some m | None \<Rightarrow> url_remote url) of
        None \<Rightarrow> None
      | Some (host, p) \<Rightarrow>
          let slash = (\<lambda>c. c = CHR ''/'');
              path = strip_by slash (removesuffix (strip_by slash p) ''.git'')
          in if CHR ''/'' \<notin> set path \<or> list_ex (\<lambda>part. part = [] \<or> startswith part ''.'') (split_on (CHR ''/'') path) then None
             else Some (lower host, path))"

end
