(* ===== verification/TomlMerge.thy ===== *)
theory TomlMerge
  imports PackageJson KnownApps Wildcards "HOL-Library.Sublist"
begin

text \<open>
  \<^verbatim>\<open>scaffold/tomlmerge.py\<close>: the merge of the managed keys into \<^verbatim>\<open>pyproject.toml\<close>, the rules on the keys that
  stay the app's, the place of a new table in the text, and the view \<^verbatim>\<open>--check\<close> compares.  A document is the
  data tomlkit holds, each table with its keys in order; parameters are tomlkit's text of an edited
  document (\<open>dump\<close>, from the text it was parsed from and its data), of a key and of a value, its parser, and
  Python's regular expressions on the patterns built here.
\<close>

section \<open>The context\<close>

record toml_ctx =
  t_app :: string
  t_conf :: conf
  t_org :: jtable
  t_major :: nat
  t_python :: string
  t_range :: json
  t_required :: "string list"
  t_siblings :: "sibling list"
  t_history :: past
  t_previous :: "conf option"

text \<open>\<^verbatim>\<open>_get\<close>: the value at a path, null when a table or the key is missing (TOML has no null).\<close>

definition toml_get :: "json \<Rightarrow> string list \<Rightarrow> json" where
  "toml_get doc path = (case found doc path of Some v \<Rightarrow> v | None \<Rightarrow> JNull)"

definition conf_at :: "conf \<Rightarrow> string list \<Rightarrow> json" where "conf_at k path = toml_get (k_cfg k) path"

text \<open>\<^verbatim>\<open>_on\<close>.  (The defaults fill the tables it reads.)\<close>

definition toml_on :: "conf \<Rightarrow> string \<Rightarrow> bool" where
  "toml_on k m =
     (if m = ''tests'' then k_modules k ''tests'' \<and>
        truthy (case found (k_cfg k) [''tests'', ''coverage'', ''enable''] of Some v \<Rightarrow> v | None \<Rightarrow> JBool True)
      else if m = ''build-system'' then k_modules k ''metadata'' \<and> conf_at k [''metadata'', ''build-backend''] = JStr ''flit''
      else k_modules k m)"

definition toml_was_on :: "toml_ctx \<Rightarrow> string \<Rightarrow> exn + bool" where
  "toml_was_on x m = ever (t_history x) (\<lambda>h. toml_on h m)"

definition toml_turns_off :: "toml_ctx \<Rightarrow> string \<Rightarrow> bool" where
  "toml_turns_off x m = (case t_previous x of Some k \<Rightarrow> toml_on k m | None \<Rightarrow> False)"

abbreviation group_on :: "toml_ctx \<Rightarrow> string \<Rightarrow> bool" where "group_on x m \<equiv> toml_on (t_conf x) m"

section \<open>Constants\<close>

definition FRAPPE_APPS :: "string list" where
  "FRAPPE_APPS = [''frappe'', ''erpnext'', ''hrms'', ''payments'']"

definition COVERAGE_OMIT :: "string list" where
  "COVERAGE_OMIT = [''*/tests/*'', ''*/test_*.py'', ''*/patches/*'']"

definition VULTURE_EXCLUDE :: "string list" where "VULTURE_EXCLUDE = map (\<lambda>d. d @ ''/'') UNMANAGED_DIRS"

definition STATIC_ANALYSIS :: "string list" where
  "STATIC_ANALYSIS = [''tool'', ''test_utils'', ''static-analysis'']"

definition strs :: "string list \<Rightarrow> json" where "strs xs = JArr (map JStr xs)"

definition BENCH_RUFF :: "(string list \<times> json) list" where
  "BENCH_RUFF =
     [([''build-system'', ''requires''], strs [''flit_core >=3.4,<4'']),
      ([''build-system'', ''build-backend''], JStr ''flit_core.buildapi''),
      ([''tool'', ''ruff'', ''line-length''], JInt 110),
      ([''tool'', ''ruff'', ''lint'', ''select''], strs [''F'', ''E'', ''W'', ''I'', ''UP'', ''B'', ''RUF'']),
      ([''tool'', ''ruff'', ''lint'', ''typing-modules''], strs [''frappe.types.DF'']),
      ([''tool'', ''ruff'', ''format'', ''quote-style''], JStr ''double''),
      ([''tool'', ''ruff'', ''format'', ''indent-style''], JStr ''tab''),
      ([''tool'', ''ruff'', ''format'', ''docstring-code-format''], JBool True)]"

definition BENCH_IGNORE_15 :: "string list" where
  "BENCH_IGNORE_15 =
     [''B017'', ''B018'', ''B023'', ''B904'', ''E101'', ''E402'', ''E501'', ''E741'',
      ''F401'', ''F403'', ''F405'', ''F722'', ''W191'']"

definition BENCH_NEW_APP :: "nat \<Rightarrow> (string list \<times> json) list" where
  "BENCH_NEW_APP major =
     (if major \<le> 15 then BENCH_RUFF @
        [([''project'', ''requires-python''], JStr ''>=3.10''),
         ([''tool'', ''ruff'', ''target-version''], JStr ''py310''),
         ([''tool'', ''ruff'', ''lint'', ''ignore''], strs BENCH_IGNORE_15)]
      else BENCH_RUFF @
        [([''project'', ''requires-python''], JStr ''>=3.14''),
         ([''tool'', ''ruff'', ''target-version''], JStr ''py314''),
         ([''tool'', ''ruff'', ''lint'', ''ignore''],
            strs (BENCH_IGNORE_15 @ [''UP030'', ''UP031'', ''UP032'', ''UP037'', ''UP040'']))])"

definition BENCH_DEPENDENCIES :: "string list" where
  "BENCH_DEPENDENCIES = [''tool'', ''bench'', ''frappe-dependencies'']"

definition bench_baseline :: "toml_ctx \<Rightarrow> string list \<Rightarrow> json \<Rightarrow> json \<Rightarrow> bool" where
  "bench_baseline x path have rendered =
     (if path = BENCH_DEPENDENCIES then py_eq have rendered
      else case map_of (BENCH_NEW_APP (t_major x)) path of Some v \<Rightarrow> py_eq have v | None \<Rightarrow> False)"

section \<open>The managed keys\<close>

definition static_whitelist :: "toml_ctx \<Rightarrow> string list" where
  "static_whitelist x =
     map (\<lambda>n. n @ ''.*'') (dedup (''frappe'' # filter (\<lambda>n. n \<noteq> ''frappe'') (map s_name (t_siblings x))))"

text \<open>The range of one required app, and \<^verbatim>\<open>[tool.bench.frappe-dependencies]\<close>.\<close>

definition required_range ::
  "(json \<Rightarrow> string) \<Rightarrow> templates \<Rightarrow> toml_ctx \<Rightarrow> string \<Rightarrow> jtable \<Rightarrow> exn + jtable" where
  "required_range txt apps x spelling deps =
     (let name = bare spelling in
      if name = ''frappe'' then Inr deps
      else case find (\<lambda>s. s_name s = name) (t_siblings x) of
             Some s \<Rightarrow> Inr (AList.update name (s_range s) deps)
           | None \<Rightarrow> bindE (resolve_sibling txt (JStr spelling) (t_major x) apps) (\<lambda>s.
                       Inr (AList.update name (s_range s) deps)))"

definition bench_dependencies :: "(json \<Rightarrow> string) \<Rightarrow> templates \<Rightarrow> toml_ctx \<Rightarrow> exn + jtable" where
  "bench_dependencies txt apps x =
     foldE (required_range txt apps x) (t_required x) [(''frappe'', t_range x)]"

definition omit_globs :: "toml_ctx \<Rightarrow> exn + json list" where
  "omit_globs x =
     bindE (dget (k_cfg (t_conf x)) ''coverage-omit'' (JArr [])) (\<lambda>v. bindE (iter v) (\<lambda>os.
     bindE (mapE (\<lambda>ov. ditem ov ''glob'') os) (\<lambda>gs. Inr (map JStr COVERAGE_OMIT @ gs))))"

definition no_dots :: "string \<Rightarrow> string" where "no_dots s = filter (\<lambda>c. c \<noteq> CHR ''.'') s"

type_synonym managed_keys = "(string list \<times> json) list"

definition lint_keys :: "toml_ctx \<Rightarrow> managed_keys" where
  "lint_keys x =
     (let lint = (\<lambda>k. conf_at (t_conf x) [''python-lint'', k]) in
      [([''tool'', ''ruff'', ''line-length''], lint ''line-length''),
       ([''tool'', ''ruff'', ''target-version''], JStr (''py'' @ no_dots (t_python x))),
       ([''tool'', ''ruff'', ''lint'', ''select''], lint ''select''),
       ([''tool'', ''ruff'', ''lint'', ''ignore''], lint ''ignore''),
       ([''tool'', ''ruff'', ''lint'', ''typing-modules''], lint ''typing-modules''),
       ([''tool'', ''ruff'', ''format'', ''quote-style''], lint ''quote-style''),
       ([''tool'', ''ruff'', ''format'', ''indent-style''], lint ''indent-style''),
       ([''tool'', ''ruff'', ''format'', ''docstring-code-format''], JBool True)])"

definition types_keys :: "toml_ctx \<Rightarrow> managed_keys" where
  "types_keys x =
     [([''tool'', ''ty'', ''environment'', ''python-version''], JStr (t_python x)),
      ([''tool'', ''ty'', ''src'', ''include''], strs [t_app x]),
      ([''tool'', ''ty'', ''terminal'', ''error-on-warning''],
         JBool (truthy (conf_at (t_conf x) [''python-types'', ''error-on-warning''])))]"

definition coverage_keys :: "json list \<Rightarrow> managed_keys" where
  "coverage_keys omit =
     [([''tool'', ''coverage'', ''run'', ''omit''], JArr omit),
      ([''tool'', ''coverage'', ''report'', ''show_missing''], JBool True),
      ([''tool'', ''coverage'', ''report'', ''skip_covered''], JBool True),
      ([''tool'', ''coverage'', ''report'', ''precision''], JInt 1),
      ([''tool'', ''coverage'', ''report'', ''exclude_also''],
         strs [''if TYPE_CHECKING:'', ''raise NotImplementedError'', ''@(abc'' @ [CHR 0x5C] @ ''.)?abstractmethod''])]"

definition toml_groups ::
  "(json \<Rightarrow> string) \<Rightarrow> templates \<Rightarrow> toml_ctx \<Rightarrow> exn + (string \<times> managed_keys) list" where
  "toml_groups txt builtin x =
     bindE (known_of builtin (k_cfg (t_conf x))) (\<lambda>apps.
     bindE (bench_dependencies txt apps x) (\<lambda>deps.
     bindE (omit_globs x) (\<lambda>omit.
       Inr [(''metadata'', [([''project'', ''requires-python''], JStr (''>='' @ t_python x)), (BENCH_DEPENDENCIES, JObj deps)]),
            (''build-system'', [([''build-system'', ''requires''], strs [''flit_core >=3.4,<4'']),
               ([''build-system'', ''build-backend''], JStr ''flit_core.buildapi'')]),
            (''python-lint'', lint_keys x),
            (''python-types'', types_keys x),
            (''tests'', coverage_keys omit),
            (''test-utils'', [([''tool'', ''vulture'', ''exclude''], strs VULTURE_EXCLUDE)])])))"

definition managed_now :: "toml_ctx \<Rightarrow> (string \<times> managed_keys) list \<Rightarrow> managed_keys" where
  "managed_now x groups = concat (map snd (filter (\<lambda>g. group_on x (fst g)) groups))"

section \<open>Edits of the document\<close>

text \<open>The table at a path, and the document with the table at a path changed.\<close>

definition table_at :: "json \<Rightarrow> string list \<Rightarrow> jtable option" where
  "table_at doc path = (case found doc path of Some (JObj t) \<Rightarrow> Some t | _ \<Rightarrow> None)"

fun edit_at :: "string list \<Rightarrow> (jtable \<Rightarrow> jtable) \<Rightarrow> json \<Rightarrow> json" where
  "edit_at [] f (JObj t) = JObj (f t)"
| "edit_at (k # ks) f (JObj t) =
     (case map_of t k of Some v \<Rightarrow> JObj (AList.update k (edit_at ks f v) t) | None \<Rightarrow> JObj t)"
| "edit_at ks f v = v"

text \<open>\<^verbatim>\<open>prune\<close>: the tables along the first \<open>n\<close> parts of a path that are left empty go.\<close>

fun prune_tables :: "nat \<Rightarrow> string list \<Rightarrow> json \<Rightarrow> json" where
  "prune_tables 0 path doc = doc"
| "prune_tables (Suc n) path doc =
     (case (table_at doc (take (Suc n) path), table_at doc (take n path)) of
        (Some [], Some _) \<Rightarrow> prune_tables n path (edit_at (take n path) (AList.delete (path ! n)) doc)
      | _ \<Rightarrow> doc)"

definition drop_managed :: "string list \<Rightarrow> json \<Rightarrow> json" where
  "drop_managed path doc =
     prune_tables (length (butlast path)) (butlast path) (edit_at (butlast path) (AList.delete (last path)) doc)"

text \<open>\<^verbatim>\<open>_put_key\<close> on a key the table lacks.\<close>

definition put_toml :: "string list \<Rightarrow> string \<Rightarrow> json \<Rightarrow> jtable \<Rightarrow> jtable" where
  "put_toml order key v t =
     insert_before key v (if key \<in> set order then tl (dropWhile (\<lambda>k. k \<noteq> key) order) else []) t"

definition KEY_ORDER :: "string list \<Rightarrow> string list option" where
  "KEY_ORDER path = (if path = [''project''] then Some [''requires-python'', ''dynamic'', ''dependencies''] else None)"

definition key_order :: "string list \<Rightarrow> managed_keys \<Rightarrow> string list" where
  "key_order tbl keys =
     (case KEY_ORDER tbl of Some ks \<Rightarrow> ks
      | None \<Rightarrow> map (last \<circ> fst) (filter (\<lambda>pv. butlast (fst pv) = tbl) keys))"

text \<open>The keys of an exact table.\<close>

definition exact_step :: "string \<times> json \<Rightarrow> jtable \<Rightarrow> jtable" where
  "exact_step kv t =
     (if map_of t (fst kv) \<noteq> None \<and> py_eq (entry t (fst kv)) (snd kv) then t else AList.update (fst kv) (snd kv) t)"

definition exact_table :: "jtable \<Rightarrow> jtable \<Rightarrow> jtable" where
  "exact_table wanted t = fold exact_step wanted (filter (\<lambda>(k, v). k \<in> set (map fst wanted)) t)"

section \<open>The merge\<close>

text \<open>The document, the keys of the managed tables it lacks, and the keys left to the app.\<close>

type_synonym tmerge = "json \<times> (string list \<times> jtable) list \<times> (string list \<times> string) list"

definition add_missing :: "string list \<Rightarrow> jtable \<Rightarrow> (string list \<times> jtable) list \<Rightarrow> (string list \<times> jtable) list" where
  "add_missing path kvs missing =
     AList.update path (set_all kvs (case map_of missing path of Some t \<Rightarrow> t | None \<Rightarrow> [])) missing"

text \<open>One key of a group that is off.\<close>

definition retract_key :: "toml_ctx \<Rightarrow> string \<Rightarrow> string list \<Rightarrow> json \<Rightarrow> tmerge \<Rightarrow> exn + tmerge" where
  "retract_key x m path v s =
     (case s of (doc, missing, warnings) \<Rightarrow>
        let have = toml_get doc path in
        if have = JNull \<or> bench_baseline x path have v then Inr s
        else if py_eq have v then
          bindE (toml_was_on x m) (\<lambda>was. Inr (if was then (drop_managed path doc, missing, warnings) else s))
        else Inr (if toml_turns_off x m then (doc, missing, warnings @ [(path, m)]) else s))"

text \<open>One key of a group that is on.\<close>

definition set_managed :: "managed_keys \<Rightarrow> string list \<Rightarrow> json \<Rightarrow> tmerge \<Rightarrow> tmerge" where
  "set_managed keys path v s =
     (case s of (doc, missing, warnings) \<Rightarrow>
        (case v of
           JObj wanted \<Rightarrow>
             (case table_at doc path of
                None \<Rightarrow> (doc, add_missing path wanted missing, warnings)
              | Some _ \<Rightarrow> (edit_at path (exact_table wanted) doc, missing, warnings))
         | _ \<Rightarrow>
             let tbl = butlast path; key = last path in
             (case table_at doc tbl of
                None \<Rightarrow> (doc, add_missing tbl [(key, v)] missing, warnings)
              | Some t \<Rightarrow>
                  if map_of t key = None then (edit_at tbl (put_toml (key_order tbl keys) key v) doc, missing, warnings)
                  else if \<not> py_eq (entry t key) v then (edit_at tbl (AList.update key v) doc, missing, warnings)
                  else s)))"

definition FAIL_UNDER :: "string list" where "FAIL_UNDER = [''tool'', ''coverage'', ''report'', ''fail_under'']"

text \<open>The keys a group wants: with \<^verbatim>\<open>tests\<close>, a floor seeded where there is none.\<close>

definition wanted_keys :: "toml_ctx \<Rightarrow> bool \<Rightarrow> string \<Rightarrow> managed_keys \<Rightarrow> json \<Rightarrow> managed_keys" where
  "wanted_keys x seed m keys doc =
     keys @ (if group_on x m \<and> m = ''tests'' \<and> seed \<and> toml_get doc FAIL_UNDER = JNull
             then [(FAIL_UNDER, conf_at (t_conf x) [''tests'', ''coverage'', ''initial-floor''])] else [])"

definition key_step ::
  "toml_ctx \<Rightarrow> string \<Rightarrow> managed_keys \<Rightarrow> string list \<times> json \<Rightarrow> tmerge \<Rightarrow> exn + tmerge" where
  "key_step x m keys pv s =
     (if group_on x m then Inr (set_managed keys (fst pv) (snd pv) s) else retract_key x m (fst pv) (snd pv) s)"

definition group_step :: "toml_ctx \<Rightarrow> bool \<Rightarrow> string \<times> managed_keys \<Rightarrow> tmerge \<Rightarrow> exn + tmerge" where
  "group_step x seed g s =
     (case g of (m, keys) \<Rightarrow>
        foldE (key_step x m keys) (wanted_keys x seed m keys (fst s)) s)"

text \<open>The entries of the static analysis' whitelist.\<close>

definition whitelist_step :: "toml_ctx \<Rightarrow> tmerge \<Rightarrow> tmerge" where
  "whitelist_step x s =
     (if \<not> group_on x ''test-utils'' then s else
      case s of (doc, missing, warnings) \<Rightarrow>
        let required = map JStr (static_whitelist x) in
        (case table_at doc STATIC_ANALYSIS of
           None \<Rightarrow> (doc, add_missing STATIC_ANALYSIS [(''whitelist'', JArr required)] missing, warnings)
         | Some t \<Rightarrow>
             (case entry t ''whitelist'' of
                JArr have \<Rightarrow>
                  (edit_at STATIC_ANALYSIS (AList.update ''whitelist''
                     (JArr (have @ filter (\<lambda>e. \<not> list_ex (py_eq e) have) required))) doc, missing, warnings)
              | _ \<Rightarrow> (edit_at STATIC_ANALYSIS (AList.update ''whitelist'' (JArr required)) doc, missing, warnings))))"

text \<open>\<^verbatim>\<open>dynamic\<close> names the version.\<close>

definition dynamic_step :: "toml_ctx \<Rightarrow> tmerge \<Rightarrow> exn + tmerge" where
  "dynamic_step x s =
     (case s of (doc, missing, warnings) \<Rightarrow>
        (case table_at doc [''project''] of
           None \<Rightarrow> Inr s
         | Some project \<Rightarrow>
             if \<not> group_on x ''metadata'' then Inr s
             else (case map_of project ''dynamic'' of
                 None \<Rightarrow> Inr (edit_at [''project''] (put_toml (the (KEY_ORDER [''project''])) ''dynamic'' (strs [''version''])) doc,
                            missing, warnings)
               | Some d \<Rightarrow> bindE (py_in (JStr ''version'') d) (\<lambda>named.
                   if named then Inr s
                   else (case d of
                       JArr vs \<Rightarrow> Inr (edit_at [''project''] (AList.update ''dynamic'' (JArr (vs @ [JStr ''version'']))) doc,
                                     missing, warnings)
                     | _ \<Rightarrow> Inl AttributeError)))))"

definition merge_data ::
  "toml_ctx \<Rightarrow> bool \<Rightarrow> (string \<times> managed_keys) list \<Rightarrow> json \<Rightarrow> exn + tmerge" where
  "merge_data x seed groups doc =
     bindE (foldE (group_step x seed) groups (doc, [], [])) (\<lambda>s. dynamic_step x (whitelist_step x s))"

section \<open>The place of a table in the text\<close>

text \<open>\<^verbatim>\<open>_HEADER\<close>: the name between the brackets of a table's header.\<close>

definition toml_header :: "string \<Rightarrow> string option" where
  "toml_header line =
     Option.bind (after ''['' (lstrip line)) (\<lambda>s0.
     let s = removeprefix s0 ''['';
         name = takeWhile (\<lambda>c. c \<noteq> CHR '']'' \<and> c \<noteq> CHR ''['') s
     in if name = [] then None
        else Option.bind (after '']'' (drop (length name) s)) (\<lambda>r0.
          let r = lstrip (removeprefix r0 '']'')
          in if r = [] \<or> (hd r = CHR ''#'' \<and> newline \<notin> set (butlast r)) then Some (strip name) else None))"

definition toml_headers :: "string list \<Rightarrow> (nat \<times> string) list" where
  "toml_headers ls =
     concat (map (\<lambda>(i, l). case toml_header l of Some n \<Rightarrow> [(i, n)] | None \<Rightarrow> []) (enumerate 0 ls))"

definition HEAD_TABLES :: "string list" where
  "HEAD_TABLES = [''project'', ''build-system'', ''tool.bench.frappe-dependencies'']"

definition CANON_TABLES :: "string list" where
  "CANON_TABLES = [''build-system'', ''tool.bench.frappe-dependencies'', ''tool.ruff'', ''tool.ruff.lint'',
     ''tool.ruff.format'', ''tool.ty.environment'', ''tool.ty.src'', ''tool.ty.terminal'', ''tool.coverage.run'',
     ''tool.coverage.report'', ''tool.vulture'', ''tool.test_utils.static-analysis'']"

definition is_tool :: "string \<Rightarrow> bool" where
  "is_tool name \<longleftrightarrow> name = ''tool'' \<or> startswith name ''tool.''"

definition after_tools :: "(nat \<times> string) list \<Rightarrow> nat \<Rightarrow> nat" where
  "after_tools headers stop =
     (case filter (\<lambda>h. is_tool (snd h)) headers of
        [] \<Rightarrow> stop
      | tools \<Rightarrow> (case filter (\<lambda>h. fst (last tools) < fst h) headers of [] \<Rightarrow> stop | h # _ \<Rightarrow> fst h))"

definition rank_of :: "string \<Rightarrow> nat" where
  "rank_of name = (case index_of name CANON_TABLES of Some i \<Rightarrow> i | None \<Rightarrow> length CANON_TABLES)"

text \<open>What follows the last header with a property.\<close>

definition after_last :: "(nat \<times> string \<Rightarrow> bool) \<Rightarrow> (nat \<times> string) list \<Rightarrow> (nat \<times> string) list" where
  "after_last P hs = rev (takeWhile (\<lambda>h. \<not> P h) (rev hs))"

fun after_anchor :: "(nat \<times> string) list \<Rightarrow> nat \<Rightarrow> string list \<Rightarrow> nat option" where
  "after_anchor headers stop [] = None"
| "after_anchor headers stop (anchor # anchors) =
     (if list_ex (\<lambda>h. snd h = anchor) headers then
        (case dropWhile (\<lambda>h. startswith (snd h) (anchor @ ''.'')) (after_last (\<lambda>h. snd h = anchor) headers) of
           [] \<Rightarrow> Some stop
         | h # _ \<Rightarrow> Some (fst h))
      else after_anchor headers stop anchors)"

definition table_position :: "(nat \<times> string) list \<Rightarrow> string \<Rightarrow> nat \<Rightarrow> nat" where
  "table_position headers name stop =
     (if name \<in> set (tl HEAD_TABLES) then
        (case after_anchor headers stop (rev (takeWhile (\<lambda>n. n \<noteq> name) HEAD_TABLES)) of
           Some i \<Rightarrow> i
         | None \<Rightarrow> after_tools headers stop)
      else
        (case find (\<lambda>h. snd h \<in> set CANON_TABLES \<and> rank_of name < rank_of (snd h))
                (after_last (\<lambda>h. is_tool (snd h) \<and> snd h \<notin> set CANON_TABLES) headers) of
           Some h \<Rightarrow> fst h
         | None \<Rightarrow> after_tools headers stop))"

definition blank_line :: "string \<Rightarrow> bool" where "blank_line l \<longleftrightarrow> strip l = []"

definition insert_at :: "string \<Rightarrow> nat \<Rightarrow> string list \<Rightarrow> string" where
  "insert_at text n blocks =
     (let ls = splitlines_keep text;
          before = rev (dropWhile blank_line (rev (take n ls)));
          rest = drop (length before) (take n ls) @ drop n ls;
          head0 = concat before;
          head = (if head0 \<noteq> [] \<and> \<not> endswith head0 [newline] then head0 @ [newline] else head0);
          trail = lstrip_by (\<lambda>c. c = newline) (concat rest)
      in head @ (if head \<noteq> [] then [newline] else []) @ join [newline] blocks @
         (if trail \<noteq> [] then newline # trail else []))"

record tomlkit =
  tk_parse :: "string \<Rightarrow> json option"
  tk_dump :: "string \<Rightarrow> json \<Rightarrow> string"
  tk_key :: "string \<Rightarrow> string"
  tk_item :: "json \<Rightarrow> string"

definition table_text :: "tomlkit \<Rightarrow> string list \<Rightarrow> jtable \<Rightarrow> string" where
  "table_text K path kvs =
     join [newline] ((''['' @ join ''.'' path @ '']'') # map (\<lambda>(k, v). tk_key K k @ '' = '' @ tk_item K v) kvs) @ [newline]"

definition place_table :: "tomlkit \<Rightarrow> string list \<times> jtable \<Rightarrow> string \<Rightarrow> string" where
  "place_table K m text =
     (let ls = splitlines_keep text
      in insert_at text (table_position (toml_headers ls) (join ''.'' (fst m)) (length ls)) [table_text K (fst m) (snd m)])"

definition place_tables :: "tomlkit \<Rightarrow> string \<Rightarrow> (string list \<times> jtable) list \<Rightarrow> string" where
  "place_tables K text missing =
     fold (place_table K) (sort_key (\<lambda>m. rank_of (join ''.'' (fst m))) missing) text"

definition insert_tables :: "string \<Rightarrow> string list \<Rightarrow> string" where
  "insert_tables text blocks =
     (if blocks = [] then text
      else let ls = splitlines_keep text in insert_at text (after_tools (toml_headers ls) (length ls)) blocks)"

text \<open>\<^verbatim>\<open>merge\<close>: the text and the keys left to the app.\<close>

definition toml_merge ::
  "tomlkit \<Rightarrow> (json \<Rightarrow> string) \<Rightarrow> templates \<Rightarrow> toml_ctx \<Rightarrow> bool \<Rightarrow> string \<Rightarrow> exn + string \<times> (string list \<times> string) list" where
  "toml_merge K txt builtin x seed text =
     (case tk_parse K text of
        None \<Rightarrow> Inl (ValueError ''not TOML'')
      | Some doc \<Rightarrow>
          bindE (toml_groups txt builtin x) (\<lambda>groups.
          bindE (merge_data x seed groups doc) (\<lambda>(doc', missing, warnings).
            Inr (place_tables K (tk_dump K text doc') missing, warnings))))"

text \<open>A value on one line, and a new \<^verbatim>\<open>[tool.frappe-nix]\<close> table.\<close>

function value_text :: "tomlkit \<Rightarrow> json \<Rightarrow> string" where
  "value_text K v =
     (case v of
        JObj kvs \<Rightarrow>
          (let inner = join '', '' (map (\<lambda>(k, w). tk_key K k @ '' = '' @ value_text K w) kvs)
           in if inner \<noteq> [] then ''{ '' @ inner @ '' }'' else ''{}'')
      | JArr xs \<Rightarrow> ''['' @ join '', '' (map (value_text K) xs) @ '']''
      | _ \<Rightarrow> tk_item K v)"
  by pat_completeness auto
termination
  by (relation "measure (\<lambda>(K, v). size v)") (auto dest!: json_size_obj json_size_arr simp del: json.size)

declare value_text.simps [simp del]

definition add_tool_frappe_nix :: "tomlkit \<Rightarrow> string \<Rightarrow> jtable \<Rightarrow> string" where
  "add_tool_frappe_nix K text kvs =
     insert_tables text
       [join [newline] (''[tool.frappe-nix]'' # map (\<lambda>(k, v). tk_key K k @ '' = '' @ value_text K v) kvs) @ [newline]]"

section \<open>The view \<open>--check\<close> compares\<close>

definition off_view :: "toml_ctx \<Rightarrow> json \<Rightarrow> string \<times> managed_keys \<Rightarrow> jtable \<Rightarrow> exn + jtable" where
  "off_view x doc g view =
     (if group_on x (fst g) then Inr view
      else let left = map (\<lambda>(path, v). (join ''.'' path @ '' (off)'', JBool (py_eq (toml_get doc path) v)))
                 (filter (\<lambda>(path, v). \<not> bench_baseline x path (toml_get doc path) v) (snd g))
           in if list_ex (\<lambda>kv. snd kv = JBool True) left
              then bindE (toml_was_on x (fst g)) (\<lambda>was. Inr (if was then set_all left view else view))
              else Inr view)"

definition dynamic_view :: "toml_ctx \<Rightarrow> json \<Rightarrow> jtable \<Rightarrow> exn + jtable" where
  "dynamic_view x doc view =
     (if group_on x ''metadata'' then
        bindE (py_in (JStr ''version'') (jor (toml_get doc [''project'', ''dynamic'']) (JArr []))) (\<lambda>b.
          Inr (AList.update ''project.dynamic has version'' (JBool b) view))
      else Inr view)"

definition whitelist_view :: "toml_ctx \<Rightarrow> json \<Rightarrow> jtable \<Rightarrow> jtable" where
  "whitelist_view x doc view =
     (if group_on x ''test-utils'' then
        AList.update ''static-analysis whitelist''
          (JBool (case toml_get doc (STATIC_ANALYSIS @ [''whitelist'']) of
             JArr have \<Rightarrow> list_all (\<lambda>e. list_ex (py_eq (JStr e)) have) (static_whitelist x)
           | _ \<Rightarrow> False)) view
      else view)"

definition floor_view :: "toml_ctx \<Rightarrow> json \<Rightarrow> jtable \<Rightarrow> jtable" where
  "floor_view x doc view =
     (if group_on x ''tests'' then AList.update ''fail_under present'' (JBool (toml_get doc FAIL_UNDER \<noteq> JNull)) view else view)"

definition managed_view :: "toml_ctx \<Rightarrow> (string \<times> managed_keys) list \<Rightarrow> json \<Rightarrow> exn + jtable" where
  "managed_view x groups doc =
     bindE (foldE (off_view x doc) groups (dict_of (map (\<lambda>(path, v). (join ''.'' path, toml_get doc path)) (managed_now x groups))))
       (\<lambda>v1. bindE (dynamic_view x doc v1) (\<lambda>v2. Inr (floor_view x doc (whitelist_view x doc v2))))"

section \<open>Rules on the keys that are the app's\<close>

text \<open>\<^verbatim>\<open>_ruff_glob\<close>: the pattern's text, from the part of the glob left and the depth of braces.\<close>

function ruff_pieces :: "string \<Rightarrow> nat \<Rightarrow> string" where
  "ruff_pieces s dep =
     (case s of
        [] \<Rightarrow> replicate dep (CHR '')'') @ [CHR 0x5C, CHR ''Z'']
      | c # rest \<Rightarrow>
          if startswith s ''**/'' then ''(?:.*/)?'' @ ruff_pieces (drop 3 s) dep
          else if c = CHR ''*'' then ''.*'' @ ruff_pieces (drop (if startswith s ''**'' then 2 else 1) s) dep
          else if c = CHR ''?'' then ''.'' @ ruff_pieces rest dep
          else if c = CHR ''['' \<and> CHR '']'' \<in> set (tl rest) then
            (let body = take 1 rest @ takeWhile (\<lambda>d. d \<noteq> CHR '']'') (tl rest);
                 shown = (if startswith body ''!'' then CHR ''^'' # tl body else body)
             in ''['' @ replace_all [CHR 0x5C] [CHR 0x5C, CHR 0x5C] shown @ '']'' @ ruff_pieces (drop (length body + 1) rest) dep)
          else if c = CHR ''{'' then ''(?:'' @ ruff_pieces rest (dep + 1)
          else if c = CHR ''}'' \<and> 0 < dep then '')'' @ ruff_pieces rest (dep - 1)
          else if c = CHR '','' \<and> 0 < dep then ''|'' @ ruff_pieces rest dep
          else gtok_text (Lit c) @ ruff_pieces rest dep)"
  by pat_completeness auto
termination
  by (relation "measure (\<lambda>(s, d). length s)") auto

declare ruff_pieces.simps [simp del]

definition ruff_glob :: "string \<Rightarrow> string" where "ruff_glob glob = ruff_pieces glob 0"

text \<open>Whether ruff applies an entry to every module of the package; \<open>re\<close> is Python's \<^verbatim>\<open>re.match\<close>, none for a
  pattern that does not compile.\<close>

definition package_wide :: "(string \<Rightarrow> (string \<Rightarrow> bool) option) \<Rightarrow> string \<Rightarrow> string \<Rightarrow> bool" where
  "package_wide re glob app =
     (case re (ruff_glob (removeprefix (removeprefix glob ''!'') ''./'')) of
        None \<Rightarrow> False
      | Some m \<Rightarrow>
          let hit = (\<lambda>p. m p \<or> m (last (split_on (CHR ''/'') p)));
              hits = map hit [app @ ''/testmap_probe.py'', app @ ''/a/b/testmap_probe.py'']
          in if startswith glob ''!'' then \<not> list_ex id hits else list_all id hits)"

definition hides :: "json \<Rightarrow> string list \<Rightarrow> string list" where
  "hides codes rules =
     (case codes of
        JArr xs \<Rightarrow> filter (\<lambda>r. list_ex (\<lambda>c. case c of JStr s \<Rightarrow> s = ''ALL'' \<or> (s \<noteq> [] \<and> startswith r s) | _ \<Rightarrow> False) xs) rules
      | _ \<Rightarrow> [])"

datatype toml_problem =
    NamesBench "string list"
  | LicenseIs json json
  | PoetryForbidden
  | DescriptionMissing
  | FloorNotANumber
  | CoverageRunKey string
  | RuffKey string string
  | RuffIgnore string
  | IgnoresPackageWide string string "string list"
  | TyRule string json
  | TyOverrides

definition toml_problem_code :: "toml_problem \<Rightarrow> nat" where
  "toml_problem_code p =
     (case p of NamesBench _ \<Rightarrow> DRIFT | LicenseIs _ _ \<Rightarrow> DRIFT | DescriptionMissing \<Rightarrow> DRIFT | _ \<Rightarrow> INVALID)"

text \<open>The bench apps a requirement names.\<close>

definition names_app :: "string \<Rightarrow> string \<Rightarrow> bool" where
  "names_app app dep =
     (let d = lower (strip dep); r = drop (length app) d
      in startswith d app \<and> (r = [] \<or> is_ws (hd r) \<or> hd r \<in> set ''<>=!~;[(''))"

definition project_problems :: "toml_ctx \<Rightarrow> json \<Rightarrow> exn + toml_problem list" where
  "project_problems x doc =
     bindE (iter (jor (toml_get doc [''project'', ''dependencies'']) (JArr []))) (\<lambda>deps.
     let named = filter (\<lambda>app. list_ex (\<lambda>d. case d of JStr s \<Rightarrow> names_app app s | _ \<Rightarrow> False) deps)
           [''erpnext'', ''frappe'', ''hrms'', ''payments''];
         license = toml_get doc [''project'', ''license'']; want = entry (t_org x) ''license''
     in bindE (if \<not> truthy want \<or> license = JNull then Inr []
               else bindE (case license of JStr s \<Rightarrow> Inr license
                                         | _ \<Rightarrow> dget (jor license (JObj [])) ''text'' JNull) (\<lambda>text.
                    Inr (if py_eq text want then [] else [LicenseIs text want]))) (\<lambda>lic.
        Inr ((if named \<noteq> [] then [NamesBench named] else []) @ lic)))"

definition flit_problems :: "json \<Rightarrow> exn + toml_problem list" where
  "flit_problems doc =
     (let described = (case toml_get doc [''project'', ''description''] of JStr s \<Rightarrow> strip s \<noteq> [] | _ \<Rightarrow> False);
          poetry = (if toml_get doc [''tool'', ''poetry''] \<noteq> JNull then [PoetryForbidden] else [])
      in if described then Inr poetry
         else bindE (py_in (JStr ''description'') (jor (toml_get doc [''project'', ''dynamic'']) (JArr []))) (\<lambda>b.
                Inr (poetry @ (if b then [] else [DescriptionMissing]))))"

definition percent :: "json \<Rightarrow> bool" where
  "percent v \<longleftrightarrow> is_number v \<and> (case num_of v of Some r \<Rightarrow> 0 \<le> r \<and> r \<le> 100 | None \<Rightarrow> False)"

definition coverage_problems :: "json \<Rightarrow> exn + toml_problem list" where
  "coverage_problems doc =
     (let fail = toml_get doc FAIL_UNDER; run = jor (toml_get doc [''tool'', ''coverage'', ''run'']) (JObj []) in
      bindE (mapE (\<lambda>k. bindE (py_in (JStr k) run) (\<lambda>b. Inr (if b then [CoverageRunKey k] else [])))
               [''source'', ''relative_files'']) (\<lambda>ks.
        Inr ((if fail \<noteq> JNull \<and> \<not> percent fail then [FloorNotANumber] else []) @ concat ks)))"

definition ruff_ignores ::
  "(string \<Rightarrow> (string \<Rightarrow> bool) option) \<Rightarrow> toml_ctx \<Rightarrow> string \<Rightarrow> json \<Rightarrow> string \<Rightarrow> exn + toml_problem list" where
  "ruff_ignores re x tbl keys key =
     bindE (dget keys key JNull) (\<lambda>v. bindE (table_of (jor v (JObj []))) (\<lambda>kvs.
       Inr (concat (map (\<lambda>(glob, codes).
         let bad = hides codes [''F401'', ''E402'']
         in if bad \<noteq> [] \<and> package_wide re glob (t_app x) then [IgnoresPackageWide (tbl @ key) glob bad] else []) kvs))))"

definition ruff_table ::
  "(string \<Rightarrow> (string \<Rightarrow> bool) option) \<Rightarrow> toml_ctx \<Rightarrow> json list \<Rightarrow> string \<times> json \<Rightarrow> exn + toml_problem list" where
  "ruff_table re x allowed tk =
     (case tk of (tbl, keys) \<Rightarrow>
        bindE (mapE (\<lambda>k. bindE (py_in (JStr k) keys) (\<lambda>b. Inr (if b then [RuffKey tbl k] else [])))
                 [''extend-select'', ''extend-ignore'', ''unfixable'', ''isort'']) (\<lambda>forbidden.
        bindE (dget keys ''ignore'' JNull) (\<lambda>v. bindE (iter (jor v (JArr []))) (\<lambda>codes.
        let extra = filter (\<lambda>c. \<not> list_ex (py_eq c) allowed) codes in
        bindE (if extra = [] \<or> tbl \<noteq> ''[tool.ruff]'' then Inr []
               else if list_all is_str extra then Inr [RuffIgnore tbl] else Inl TypeError) (\<lambda>ign.
        bindE (mapE (ruff_ignores re x tbl keys) [''per-file-ignores'', ''extend-per-file-ignores'']) (\<lambda>wide.
          Inr (concat forbidden @ ign @ concat wide)))))))"

definition ruff_problems ::
  "(string \<Rightarrow> (string \<Rightarrow> bool) option) \<Rightarrow> toml_ctx \<Rightarrow> json \<Rightarrow> exn + toml_problem list" where
  "ruff_problems re x doc =
     bindE (iter (conf_at (t_conf x) [''python-lint'', ''ignore''])) (\<lambda>allowed.
     bindE (mapE (ruff_table re x allowed)
              [(''[tool.ruff]'', jor (toml_get doc [''tool'', ''ruff'']) (JObj [])),
               (''[tool.ruff.lint]'', jor (toml_get doc [''tool'', ''ruff'', ''lint'']) (JObj []))]) (\<lambda>ps. Inr (concat ps)))"

definition ty_problems :: "json \<Rightarrow> exn + toml_problem list" where
  "ty_problems doc =
     (let ty = jor (toml_get doc [''tool'', ''ty'']) (JObj []) in
      bindE (dget ty ''rules'' JNull) (\<lambda>v. bindE (table_of (jor v (JObj []))) (\<lambda>rules.
      bindE (py_in (JStr ''overrides'') ty) (\<lambda>b.
        Inr (map (\<lambda>(r, l). TyRule r l) (filter (\<lambda>(r, l). l \<noteq> JStr ''error'') rules) @ (if b then [TyOverrides] else []))))))"

definition toml_problems ::
  "(string \<Rightarrow> (string \<Rightarrow> bool) option) \<Rightarrow> toml_ctx \<Rightarrow> json \<Rightarrow> exn + toml_problem list" where
  "toml_problems re x doc =
     (let on = k_modules (t_conf x); part = (\<lambda>b p. if b then p else Inr []) in
      bindE (part (on ''metadata'') (project_problems x doc)) (\<lambda>p1.
      bindE (part (on ''metadata'' \<and> group_on x ''build-system'') (flit_problems doc)) (\<lambda>p2.
      bindE (part (group_on x ''tests'') (coverage_problems doc)) (\<lambda>p3.
      bindE (part (on ''python-lint'') (ruff_problems re x doc)) (\<lambda>p4.
      bindE (part (on ''python-types'') (ty_problems doc)) (\<lambda>p5.
        Inr (p1 @ p2 @ p3 @ p4 @ p5)))))))"

section \<open>Reads after edits\<close>

named_theorems doc_ops

lemma found_app: "found v (p @ q) = (case found v p of Some w \<Rightarrow> found w q | None \<Rightarrow> None)"
  by (induction p arbitrary: v) (auto simp: found.simps split: json.splits option.splits)

lemma found_flat: "found v p = Some (JObj t) \<Longrightarrow> \<not> is_dict v \<Longrightarrow> False"
  by (cases p; cases v) (auto simp: found.simps is_dict_def)

lemma update_same: "map_of t k = Some v \<Longrightarrow> AList.update k v t = t"
  by (induction t) (auto split: if_splits)

lemma table_at_Some: "table_at doc p = Some t \<longleftrightarrow> found doc p = Some (JObj t)"
  by (auto simp: table_at_def split: option.splits json.splits)

lemma edit_none: "table_at doc tbl = None \<Longrightarrow> edit_at tbl f doc = doc"
  by (induction tbl f doc rule: edit_at.induct) (auto simp: table_at_def found.simps update_same split: option.splits)

lemma found_edit_under: "table_at doc tbl = Some t \<Longrightarrow> found (edit_at tbl f doc) (tbl @ q) = found (JObj (f t)) q"
  by (induction tbl f doc rule: edit_at.induct)
    (auto simp: table_at_Some found.simps is_dict_def split: option.splits dest: found_flat)

lemma found_edit_off: "parallel tbl q \<Longrightarrow> found (edit_at tbl f doc) q = found doc q"
proof (induction tbl f doc arbitrary: q rule: edit_at.induct)
  case (2 k ks f t)
  then show ?case
    by (cases q) (auto simp: found.simps split: option.splits dest: parallel_cancel)
qed auto

lemma parallel_key:
  assumes "parallel (tbl @ [k]) q"
  shows "parallel tbl q \<or> (\<exists>j r. q = tbl @ j # r \<and> j \<noteq> k)"
proof (cases "parallel tbl q")
  case False
  with assms have "prefix tbl q" by (metis parallelE parallelI prefix_append prefix_order.trans prefixI)
  then obtain r where r: "q = tbl @ r" by (auto simp: prefix_def)
  with assms show ?thesis by (cases r) (auto simp: parallel_def)
qed simp

lemma found_edit_key:
  assumes "parallel (tbl @ [k]) q" "\<And>t j. table_at doc tbl = Some t \<Longrightarrow> j \<noteq> k \<Longrightarrow> map_of (f t) j = map_of t j"
  shows "found (edit_at tbl f doc) q = found doc q"
proof (cases "table_at doc tbl")
  case (Some t)
  from parallel_key [OF assms(1)] show ?thesis
  proof (elim disjE exE conjE)
    fix j r assume q: "q = tbl @ j # r" "j \<noteq> k"
    have "found (edit_at tbl f doc) q = found (JObj (f t)) (j # r)"
      using q(1) found_edit_under [OF Some, of f "j # r"] by simp
    also have "\<dots> = found (JObj t) (j # r)" using assms(2) [OF Some q(2)] by simp
    also have "\<dots> = found doc q" using Some q(1) by (simp add: found_app table_at_Some)
    finally show ?thesis .
  qed (rule found_edit_off)
qed (simp add: edit_none)

lemma prune_found:
  "\<not> prefix q path \<Longrightarrow> n \<le> length path \<Longrightarrow> found (prune_tables n path doc) q = found doc q"
proof (induction n path doc rule: prune_tables.induct)
  case (2 n path doc)
  show ?case
  proof (cases "table_at doc (take (Suc n) path) = Some [] \<and> table_at doc (take n path) \<noteq> None")
    case True
    then obtain u where e: "table_at doc (take (Suc n) path) = Some []" and u: "table_at doc (take n path) = Some u"
      by auto
    let ?doc = "edit_at (take n path) (AList.delete (path ! n)) doc"
    have path: "take (Suc n) path = take n path @ [path ! n]" using 2(3) by (simp add: take_Suc_conv_app_nth)
    have "found ?doc q = found doc q"
    proof (cases "parallel (take (Suc n) path) q")
      case True
      then show ?thesis unfolding path by (rule found_edit_key) (simp add: table_ops)
    next
      case False
      have "\<not> prefix q (take (Suc n) path)" using 2(2) by (meson prefix_order.trans take_is_prefix)
      with False have "prefix (take (Suc n) path) q" by (auto simp: parallel_def)
      then obtain r where r: "q = take (Suc n) path @ r" by (auto simp: prefix_def)
      with 2(2) have "r \<noteq> []" by (metis append_Nil2 take_is_prefix)
      then have "found doc q = None" using e r by (cases r) (auto simp: found_app table_at_Some)
      moreover have "found ?doc q = None"
        using found_edit_under [OF u, of "AList.delete (path ! n)" "path ! n # r"] r path by (simp add: table_ops)
      ultimately show ?thesis by simp
    qed
    moreover have "found (prune_tables n path ?doc) q = found ?doc q"
      using 2(1) [OF refl e refl u] 2(2,3) by simp
    ultimately show ?thesis using e u by simp
  next
    case False
    then show ?thesis by (auto split: option.splits list.splits)
  qed
qed simp

lemma drop_managed_found: "path \<noteq> [] \<Longrightarrow> parallel path q \<Longrightarrow> found (drop_managed path doc) q = found doc q"
proof -
  assume p: "path \<noteq> []" "parallel path q"
  then have "\<not> prefix q (butlast path)" by (metis append_butlast_last_id parallelD2 prefix_prefix)
  moreover have "found (edit_at (butlast path) (AList.delete (last path)) doc) q = found doc q"
    using p by (intro found_edit_key [where k = "last path"]) (simp_all add: table_ops)
  ultimately show ?thesis by (simp add: drop_managed_def prune_found)
qed

lemma drop_managed_gone: "path \<noteq> [] \<Longrightarrow> found (drop_managed path doc) path = None"
proof -
  assume p: "path \<noteq> []"
  then obtain tbl k where path: "path = tbl @ [k]" by (metis append_butlast_last_id)
  have "found (edit_at tbl (AList.delete k) doc) path = None"
  proof (cases "table_at doc tbl")
    case None
    then show ?thesis by (auto simp: edit_none path found_app found.simps table_at_def split: option.splits json.splits)
  next
    case (Some t)
    then show ?thesis using found_edit_under [OF Some, of _ "[k]"] by (simp add: path table_ops)
  qed
  then show ?thesis by (simp add: drop_managed_def path prune_found)
qed

section \<open>What the merge leaves alone\<close>

lemma put_toml_other: "map_of t key = None \<Longrightarrow> map_of (put_toml order key v t) = (map_of t)(key \<mapsto> v)"
  by (simp add: put_toml_def map_of_insert_before map_of_eq_None_iff)

lemma retract_key_found:
  "retract_key x m path v s = Inr s' \<Longrightarrow> path \<noteq> [] \<Longrightarrow> parallel path q \<Longrightarrow> found (fst s') q = found (fst s) q"
  by (cases s) (auto simp: retract_key_def Let_def drop_managed_found elim!: bindE_InrE split: if_splits)

lemma set_managed_found:
  "path \<noteq> [] \<Longrightarrow> parallel path q \<Longrightarrow> found (fst (set_managed keys path v s)) q = found (fst s) q"
proof -
  assume p: "path \<noteq> []" "parallel path q"
  obtain doc missing w where s: "s = (doc, missing, w)" by (cases s)
  obtain tbl k where path: "path = tbl @ [k]" using p(1) by (metis append_butlast_last_id)
  have "found (edit_at tbl (AList.update k v) doc) q = found doc q"
    by (rule found_edit_key) (use p path in auto)
  moreover have "found (edit_at tbl (put_toml order k v) doc) q = found doc q"
    if "table_at doc tbl = Some t" "map_of t k = None" for t order
    by (rule found_edit_key) (use p path that in \<open>auto simp: put_toml_other\<close>)
  ultimately show ?thesis using p(2)
    by (auto simp: set_managed_def s path found_edit_off split: json.splits option.splits)
qed

definition managed_paths :: "(string \<times> managed_keys) list \<Rightarrow> string list set" where
  "managed_paths groups =
     insert FAIL_UNDER (insert (STATIC_ANALYSIS @ [''whitelist'']) (insert [''project'', ''dynamic'']
       (\<Union>g \<in> set groups. fst ` set (snd g))))"

lemma key_step_found:
  "key_step x m keys pv s = Inr s' \<Longrightarrow> fst pv \<noteq> [] \<Longrightarrow> parallel (fst pv) q \<Longrightarrow> found (fst s') q = found (fst s) q"
  by (auto simp: key_step_def set_managed_found dest: retract_key_found split: if_splits)

lemma group_step_found:
  assumes "group_step x seed g s = Inr s'" "\<forall>pv \<in> set (snd g). fst pv \<noteq> [] \<and> parallel (fst pv) q" "parallel FAIL_UNDER q"
  shows "found (fst s') q = found (fst s) q"
proof -
  obtain m keys where g: "g = (m, keys)" by (cases g)
  have w: "\<forall>pv \<in> set (wanted_keys x seed m keys d). fst pv \<noteq> [] \<and> parallel (fst pv) q" for d
    using assms(2,3) by (auto simp: wanted_keys_def g FAIL_UNDER_def)
  show ?thesis
    by (rule foldE_keeps [OF _ assms(1) [unfolded group_step_def g prod.case], where Q = "\<lambda>s'. found (fst s') q = found (fst s) q"])
      (use w key_step_found in metis, rule refl)
qed

lemma whitelist_found:
  "parallel (STATIC_ANALYSIS @ [''whitelist'']) q \<Longrightarrow> found (fst (whitelist_step x s)) q = found (fst s) q"
  by (auto simp: whitelist_step_def Let_def split: prod.splits option.splits json.splits intro!: found_edit_key)

lemma dynamic_found:
  "dynamic_step x s = Inr s' \<Longrightarrow> parallel [''project'', ''dynamic''] q \<Longrightarrow> found (fst s') q = found (fst s) q"
proof -
  assume s: "dynamic_step x s = Inr s'" and q: "parallel [''project'', ''dynamic''] q"
  have u: "found (edit_at [''project''] (AList.update ''dynamic'' v) doc) q = found doc q" for v doc
    by (rule found_edit_key [where k = "''dynamic''"]) (use q in auto)
  have p: "found (edit_at [''project''] (put_toml order ''dynamic'' v) doc) q = found doc q"
    if "table_at doc [''project''] = Some t" "map_of t ''dynamic'' = None" for order v doc t
    by (rule found_edit_key [where k = "''dynamic''"]) (use q that in \<open>auto simp: put_toml_other\<close>)
  from s show ?thesis
    by (auto simp: dynamic_step_def p u split: prod.splits option.splits if_splits json.splits elim!: bindE_InrE)
qed

lemma merge_data_found:
  assumes "merge_data x seed groups doc = Inr (doc', missing, w)"
    "\<forall>p \<in> managed_paths groups. p \<noteq> [] \<and> parallel p q"
  shows "found doc' q = found doc q"
proof -
  from assms(1) obtain s where s: "foldE (group_step x seed) groups (doc, [], []) = Inr s"
    "dynamic_step x (whitelist_step x s) = Inr (doc', missing, w)" by (auto simp: merge_data_def elim!: bindE_InrE)
  have "found (fst s) q = found doc q"
    by (rule foldE_keeps [OF _ s(1), where Q = "\<lambda>s'. found (fst s') q = found doc q"])
      (use assms(2) in \<open>auto simp: managed_paths_def dest!: group_step_found [where q = q]\<close>)
  moreover have "found (fst (whitelist_step x s)) q = found (fst s) q"
    using assms(2) by (intro whitelist_found) (simp add: managed_paths_def)
  moreover have "found doc' q = found (fst (whitelist_step x s)) q"
    using dynamic_found [OF s(2), of q] assms(2) by (simp add: managed_paths_def)
  ultimately show ?thesis by simp
qed

section \<open>What the merge manages\<close>

text \<open>The paths of each group, and all the paths the merge may write.\<close>

definition GROUP_PATHS :: "(string \<times> string list list) list" where
  "GROUP_PATHS =
     [(''metadata'', [[''project'', ''requires-python''], BENCH_DEPENDENCIES]),
      (''build-system'', [[''build-system'', ''requires''], [''build-system'', ''build-backend'']]),
      (''python-lint'', map (\<lambda>p. ''tool'' # ''ruff'' # p)
         [[''line-length''], [''target-version''], [''lint'', ''select''], [''lint'', ''ignore''], [''lint'', ''typing-modules''],
          [''format'', ''quote-style''], [''format'', ''indent-style''], [''format'', ''docstring-code-format'']]),
      (''python-types'', map (\<lambda>p. ''tool'' # ''ty'' # p)
         [[''environment'', ''python-version''], [''src'', ''include''], [''terminal'', ''error-on-warning'']]),
      (''tests'', map (\<lambda>p. ''tool'' # ''coverage'' # p)
         [[''run'', ''omit''], [''report'', ''show_missing''], [''report'', ''skip_covered''], [''report'', ''precision''],
          [''report'', ''exclude_also'']]),
      (''test-utils'', [[''tool'', ''vulture'', ''exclude'']])]"

definition MANAGED_PATHS :: "string list list" where
  "MANAGED_PATHS = FAIL_UNDER # (STATIC_ANALYSIS @ [''whitelist'']) # [''project'', ''dynamic''] # concat (map snd GROUP_PATHS)"

lemma group_paths:
  "toml_groups txt builtin x = Inr groups \<Longrightarrow> map (\<lambda>g. (fst g, map fst (snd g))) groups = GROUP_PATHS"
  by (auto simp: toml_groups_def GROUP_PATHS_def lint_keys_def types_keys_def coverage_keys_def Let_def elim!: bindE_InrE)

lemma managed_paths_eq: "toml_groups txt builtin x = Inr groups \<Longrightarrow> managed_paths groups = set MANAGED_PATHS"
proof -
  assume "toml_groups txt builtin x = Inr groups"
  note g = group_paths [OF this, symmetric]
  show ?thesis by (auto simp: managed_paths_def MANAGED_PATHS_def g image_iff)
qed

lemma paths_sorted: "sorted_wrt parallel MANAGED_PATHS"
  by (simp add: MANAGED_PATHS_def GROUP_PATHS_def parallel_def FAIL_UNDER_def STATIC_ANALYSIS_def BENCH_DEPENDENCIES_def)

lemma paths_ne: "[] \<notin> set MANAGED_PATHS"
  by (simp add: MANAGED_PATHS_def GROUP_PATHS_def FAIL_UNDER_def STATIC_ANALYSIS_def BENCH_DEPENDENCIES_def)

lemma paths_apart: "p \<in> set MANAGED_PATHS \<Longrightarrow> q \<in> set MANAGED_PATHS \<Longrightarrow> p \<noteq> q \<Longrightarrow> parallel p q"
  using paths_sorted by (metis sorted_wrt_iff_nth_less in_set_conv_nth linorder_neqE_nat parallel_commute)

lemma names_distinct: "distinct (map fst GROUP_PATHS)" by (simp add: GROUP_PATHS_def)
lemma paths_disjoint: "\<forall>g \<in> set GROUP_PATHS. \<forall>h \<in> set GROUP_PATHS. fst g \<noteq> fst h \<longrightarrow> set (snd g) \<inter> set (snd h) = {}"
  by (simp add: GROUP_PATHS_def BENCH_DEPENDENCIES_def)

text \<open>What a step on one path leaves as it is at another: the document and the tables to come.\<close>

definition missing_at :: "(string list \<times> jtable) list \<Rightarrow> string list \<Rightarrow> json option" where
  "missing_at missing p = (case map_of missing (butlast p) of Some t \<Rightarrow> map_of t (last p) | None \<Rightarrow> None)"

definition same_at :: "string list \<Rightarrow> tmerge \<Rightarrow> tmerge \<Rightarrow> bool" where
  "same_at q s s' \<longleftrightarrow>
     found (fst s') q = found (fst s) q \<and> missing_at (fst (snd s')) q = missing_at (fst (snd s)) q"

lemma same_at_refl [simp]: "same_at q s s" by (simp add: same_at_def)
lemma same_at_trans: "same_at q s t \<Longrightarrow> same_at q t u \<Longrightarrow> same_at q s u" by (simp add: same_at_def)

lemma missing_at_add [doc_ops]:
  "missing_at (add_missing path kvs missing) q =
     (if butlast q = path then (case map_of (rev kvs) (last q) of Some v \<Rightarrow> Some v | None \<Rightarrow> missing_at missing q)
      else missing_at missing q)"
  by (auto simp: missing_at_def add_missing_def map_of_set_all map_add_def split: option.splits)

lemma parallel_butlast: "parallel p q \<Longrightarrow> q \<noteq> [] \<Longrightarrow> butlast q \<noteq> p"
  by (metis append_butlast_last_id parallelD1 prefixI)

lemma set_managed_missing:
  "path \<noteq> [] \<Longrightarrow> q \<noteq> [] \<Longrightarrow> parallel path q \<Longrightarrow>
   missing_at (fst (snd (set_managed keys path v s))) q = missing_at (fst (snd s)) q"
proof -
  assume p: "path \<noteq> []" "q \<noteq> []" "parallel path q"
  from p have "butlast q = butlast path \<Longrightarrow> last q \<noteq> last path" by (metis append_butlast_last_id parallelD1 prefix_order.refl)
  moreover note parallel_butlast [OF p(3) p(2)]
  ultimately show ?thesis
    by (cases s) (auto simp: set_managed_def Let_def doc_ops split: json.splits option.splits)
qed

lemma retract_key_missing: "retract_key x m path v s = Inr s' \<Longrightarrow> fst (snd s') = fst (snd s)"
  by (cases s) (auto simp: retract_key_def Let_def elim!: bindE_InrE split: if_splits)

lemma key_step_same:
  "key_step x m keys pv s = Inr s' \<Longrightarrow> fst pv \<noteq> [] \<Longrightarrow> q \<noteq> [] \<Longrightarrow> parallel (fst pv) q \<Longrightarrow> same_at q s s'"
  using key_step_found [of x m keys pv s s' q]
  by (auto simp: same_at_def key_step_def set_managed_missing dest: retract_key_missing split: if_splits)

lemma group_step_same:
  assumes "group_step x seed g s = Inr s'" "\<forall>pv \<in> set (snd g). fst pv \<noteq> [] \<and> parallel (fst pv) q" "parallel FAIL_UNDER q"
    "q \<noteq> []"
  shows "same_at q s s'"
proof -
  obtain m keys where g: "g = (m, keys)" by (cases g)
  have w: "\<forall>pv \<in> set (wanted_keys x seed m keys d). fst pv \<noteq> [] \<and> parallel (fst pv) q" for d
    using assms(2,3) by (auto simp: wanted_keys_def g FAIL_UNDER_def)
  show ?thesis
    by (rule foldE_keeps [OF _ assms(1) [unfolded group_step_def g prod.case], where Q = "same_at q s"])
      (use w key_step_same [OF _ _ assms(4)] same_at_trans in metis, rule same_at_refl)
qed

lemma parallel_sym: "parallel p q \<Longrightarrow> parallel q p" by (simp add: parallel_commute)

lemma whitelist_same: "parallel (STATIC_ANALYSIS @ [''whitelist'']) q \<Longrightarrow> q \<noteq> [] \<Longrightarrow> same_at q s (whitelist_step x s)"
proof -
  assume q: "parallel (STATIC_ANALYSIS @ [''whitelist'']) q" "q \<noteq> []"
  then have "butlast q = STATIC_ANALYSIS \<Longrightarrow> last q \<noteq> ''whitelist''"
    by (metis append_butlast_last_id parallelD1 prefix_order.refl)
  then have "missing_at (fst (snd (whitelist_step x s))) q = missing_at (fst (snd s)) q"
    by (auto simp: whitelist_step_def Let_def doc_ops split: prod.splits option.splits json.splits)
  with whitelist_found [OF q(1)] show ?thesis by (simp add: same_at_def)
qed

lemma dynamic_same: "dynamic_step x s = Inr s' \<Longrightarrow> parallel [''project'', ''dynamic''] q \<Longrightarrow> same_at q s s'"
proof -
  assume d: "dynamic_step x s = Inr s'" "parallel [''project'', ''dynamic''] q"
  then have "fst (snd s') = fst (snd s)"
    by (auto simp: dynamic_step_def split: prod.splits option.splits if_splits json.splits elim!: bindE_InrE)
  with dynamic_found [OF d] show ?thesis by (simp add: same_at_def)
qed

text \<open>A managed key holds its value: in the document, or in a table to come.\<close>

definition agrees :: "json \<Rightarrow> json \<Rightarrow> bool" where "agrees have want \<longleftrightarrow> have = want \<or> py_eq have want"

definition exact_at :: "json \<Rightarrow> string list \<Rightarrow> jtable \<Rightarrow> bool" where
  "exact_at doc path w \<longleftrightarrow>
     (\<exists>t. table_at doc path = Some t \<and> fst ` set t = fst ` set w \<and> (\<forall>kv \<in> set w. agrees (entry t (fst kv)) (snd kv)))"

definition key_held :: "string list \<times> json \<Rightarrow> tmerge \<Rightarrow> bool" where
  "key_held pv s =
     (case snd pv of
        JObj w \<Rightarrow> exact_at (fst s) (fst pv) w \<or> (\<forall>kv \<in> set w. missing_at (fst (snd s)) (fst pv @ [fst kv]) = Some (snd kv))
      | v \<Rightarrow> agrees (toml_get (fst s) (fst pv)) v \<or> missing_at (fst (snd s)) (fst pv) = Some v)"

lemma key_held_same:
  assumes "key_held pv s" "\<And>r. same_at (fst pv @ r) s s'"
  shows "key_held pv s'"
proof -
  have "found (fst s') (fst pv) = found (fst s) (fst pv)" "missing_at (fst (snd s')) (fst pv) = missing_at (fst (snd s)) (fst pv)"
    using assms(2) [of "[]"] by (simp_all add: same_at_def)
  moreover have "missing_at (fst (snd s')) (fst pv @ [k]) = missing_at (fst (snd s)) (fst pv @ [k])" for k
    using assms(2) [of "[k]"] by (simp add: same_at_def)
  ultimately show ?thesis using assms(1)
    by (simp add: key_held_def exact_at_def toml_get_def table_at_def split: json.splits)
qed

lemma parallel_ext: "parallel p q \<Longrightarrow> parallel p (q @ r)"
  by (metis append_Nil2 parallel_append)

lemma exact_table_props:
  assumes "distinct (map fst w)"
  shows "fst ` set (exact_table w t) = fst ` set w" (is ?A)
    and "\<forall>kv \<in> set w. agrees (entry (exact_table w t) (fst kv)) (snd kv)" (is ?B)
proof -
  have dom: "fst ` set (fold exact_step kvs u) = fst ` set u \<union> fst ` set kvs" for kvs u
    by (induction kvs arbitrary: u)
      (auto simp: exact_step_def dom_map_of_conv_image_fst [symmetric] dom_update)
  have "fst ` set (filter (\<lambda>(k, v). k \<in> fst ` set w) t) \<subseteq> fst ` set w"
    by (rule image_subsetI) (simp split: prod.splits)
  with dom [of w "filter (\<lambda>(k, v). k \<in> fst ` set w) t"] show ?A by (simp add: exact_table_def Un_absorb1)
  have other: "k \<notin> fst ` set kvs \<Longrightarrow> entry (fold exact_step kvs u) k = entry u k" for k kvs u
    by (induction kvs arbitrary: u) (auto simp: exact_step_def table_ops)
  have own: "agrees (entry (exact_step kv u) (fst kv)) (snd kv)" for kv u
    by (simp add: exact_step_def agrees_def table_ops)
  have "distinct (map fst kvs) \<Longrightarrow> \<forall>kv \<in> set kvs. agrees (entry (fold exact_step kvs u) (fst kv)) (snd kv)" for kvs u
    by (induction kvs arbitrary: u) (simp_all add: other own)
  with assms show ?B by (simp add: exact_table_def)
qed

lemma key_step_holds:
  assumes "key_step x m keys pv s = Inr s'" "group_on x m" "fst pv \<noteq> []"
    "\<And>w. snd pv = JObj w \<Longrightarrow> distinct (map fst w)"
  shows "key_held pv s'"
proof -
  obtain doc missing w where s: "s = (doc, missing, w)" by (cases s)
  obtain tbl k v where pv: "pv = (tbl @ [k], v)" using assms(3) by (metis append_butlast_last_id prod.collapse)
  have s': "s' = set_managed keys (tbl @ [k]) v s" using assms(1,2) by (simp add: key_step_def pv)
  show ?thesis
  proof (cases "\<exists>kvs. v = JObj kvs")
    case True
    then obtain kvs where v: "v = JObj kvs" by blast
    have d: "distinct (map fst kvs)" using assms(4) v pv by simp
    show ?thesis
    proof (cases "table_at doc (tbl @ [k])")
      case None
      then show ?thesis using d
        by (auto simp: key_held_def pv v s' s set_managed_def doc_ops map_of_rev_distinct butlast_append)
    next
      case (Some t)
      then have "found (edit_at (tbl @ [k]) (exact_table kvs) doc) (tbl @ [k]) = Some (JObj (exact_table kvs t))"
        using found_edit_under [OF Some, of _ "[]"] by simp
      then have "exact_at (edit_at (tbl @ [k]) (exact_table kvs) doc) (tbl @ [k]) kvs"
        using exact_table_props [OF d] by (simp add: exact_at_def table_at_Some)
      then show ?thesis using Some by (simp add: key_held_def pv v s' s set_managed_def)
    qed
  next
    case False
    then have held: "key_held pv s' \<longleftrightarrow> agrees (toml_get (fst s') (tbl @ [k])) v \<or> missing_at (fst (snd s')) (tbl @ [k]) = Some v"
      by (simp add: key_held_def pv split: json.splits)
    show ?thesis
    proof (cases "table_at doc tbl")
      case None
      with False show ?thesis unfolding held by (simp add: s' s set_managed_def doc_ops split: json.splits)
    next
      case (Some t)
      have f: "found (edit_at tbl f doc) (tbl @ [k]) = map_of (f t) k" for f
        using found_edit_under [OF Some, of f "[k]"] by (simp split: option.splits)
      have own: "found doc (tbl @ [k]) = map_of t k" using Some by (simp add: found_app table_at_Some split: option.splits)
      from False Some show ?thesis unfolding held
        by (auto simp: s' s set_managed_def toml_get_def f own put_toml_other agrees_def entry_def split: json.splits option.splits)
    qed
  qed
qed

text \<open>Across the groups.\<close>

definition group_paths_of :: "string \<times> managed_keys \<Rightarrow> string list set" where
  "group_paths_of g = fst ` set (snd g)"

lemma group_in_paths:
  assumes "toml_groups txt builtin x = Inr groups" "g \<in> set groups"
  shows "(fst g, map fst (snd g)) \<in> set GROUP_PATHS"
  using group_paths [OF assms(1)] assms(2) by (metis (no_types, lifting) image_eqI list.set_map)

lemma managed_in: "(m, ps) \<in> set GROUP_PATHS \<Longrightarrow> p \<in> set ps \<Longrightarrow> p \<in> set MANAGED_PATHS"
  unfolding MANAGED_PATHS_def by (simp add: bexI [where x = "(m, ps)"])

lemma group_path_facts:
  assumes "(m, ps) \<in> set GROUP_PATHS"
  shows "distinct ps" "FAIL_UNDER \<notin> set ps" "[''project'', ''dynamic''] \<notin> set ps" "STATIC_ANALYSIS @ [''whitelist''] \<notin> set ps"
proof -
  have "\<forall>gp \<in> set GROUP_PATHS. distinct (snd gp) \<and> FAIL_UNDER \<notin> set (snd gp) \<and> [''project'', ''dynamic''] \<notin> set (snd gp) \<and>
      STATIC_ANALYSIS @ [''whitelist''] \<notin> set (snd gp)"
    by (simp add: GROUP_PATHS_def FAIL_UNDER_def BENCH_DEPENDENCIES_def STATIC_ANALYSIS_def)
  from bspec [OF this assms] show "distinct ps" "FAIL_UNDER \<notin> set ps" "[''project'', ''dynamic''] \<notin> set ps"
    "STATIC_ANALYSIS @ [''whitelist''] \<notin> set ps" by (simp_all only: snd_conv simp_thms)
qed

lemma groups_apart:
  assumes "toml_groups txt builtin x = Inr groups" "g \<in> set groups" "h \<in> set groups" "g \<noteq> h"
    "p \<in> fst ` set (snd g)" "q \<in> fst ` set (snd h)"
  shows "parallel p q"
proof -
  have "map fst GROUP_PATHS = map fst groups" by (simp add: group_paths [OF assms(1), symmetric])
  with names_distinct have n: "distinct (map fst groups)" by simp
  have names: "fst g \<noteq> fst h" using n assms(2-4) by (metis distinct_map inj_onD)
  have g: "(fst g, map fst (snd g)) \<in> set GROUP_PATHS" and h: "(fst h, map fst (snd h)) \<in> set GROUP_PATHS"
    by (rule group_in_paths [OF assms(1) assms(2)], rule group_in_paths [OF assms(1) assms(3)])
  have "set (map fst (snd g)) \<inter> set (map fst (snd h)) = {}"
    using paths_disjoint [rule_format, OF g h] names by (simp only: fst_conv snd_conv simp_thms)
  then have "p \<noteq> q" using assms(5,6) by auto
  then show ?thesis using paths_apart managed_in [OF g] managed_in [OF h] assms(5,6) by auto
qed

lemma group_step_holds:
  assumes g: "toml_groups txt builtin x = Inr groups" "g \<in> set groups" and s: "group_step x seed g s = Inr s'"
    and own: "\<And>pv a b. pv \<in> set (snd g) \<Longrightarrow> fst pv \<noteq> [] \<Longrightarrow> key_step x (fst g) (snd g) pv a = Inr b \<Longrightarrow> P pv b"
    and stay: "\<And>pv a b. P pv a \<Longrightarrow> (\<And>r. same_at (fst pv @ r) a b) \<Longrightarrow> P pv b"
  shows "\<forall>pv \<in> set (snd g). P pv s'"
proof -
  obtain m keys where gm: "g = (m, keys)" by (cases g)
  have gp: "(fst g, map fst (snd g)) \<in> set GROUP_PATHS" by (rule group_in_paths [OF g])
  have ps: "p \<in> set MANAGED_PATHS" if "p \<in> fst ` set keys" for p
    using managed_in [OF gp] that by (simp add: gm)
  have floor: "p \<noteq> FAIL_UNDER" if "p \<in> fst ` set keys" for p
    using group_path_facts(2) [OF gp] that by (metis gm list.set_map snd_conv)
  have d: "distinct (map fst keys)" using group_path_facts [OF gp] by (simp add: gm)
  let ?ks = "wanted_keys x seed m keys (fst s)"
  have dk: "distinct ?ks" using d floor [OF imageI] by (fastforce simp: wanted_keys_def distinct_map)
  have apart: "parallel (fst pv) (fst kv)" if "pv \<in> set ?ks" "kv \<in> set keys" "pv \<noteq> kv" for pv kv
  proof -
    have "fst pv \<in> set MANAGED_PATHS" using that(1) ps by (auto simp: wanted_keys_def MANAGED_PATHS_def split: if_splits)
    moreover have "fst pv \<noteq> fst kv" using that d floor [of "fst kv"]
      by (auto simp: wanted_keys_def distinct_map inj_on_def split: if_splits)
    ultimately show ?thesis using paths_apart ps that(2) by auto
  qed
  have ne: "fst pv \<noteq> []" if "pv \<in> set ?ks" for pv
    using that ps [OF imageI] paths_ne by (fastforce simp: wanted_keys_def FAIL_UNDER_def split: if_splits)
  have "\<forall>pv \<in> set ?ks. pv \<in> set keys \<longrightarrow> P pv s'"
  proof (rule foldE_each [OF s [unfolded group_step_def gm prod.case] dk])
    fix pv a b assume pv: "pv \<in> set ?ks" "key_step x m keys pv a = Inr b"
    show "pv \<in> set keys \<longrightarrow> P pv b" using own [OF _ ne [OF pv(1)]] pv(2) by (simp add: gm)
  next
    fix pv kv a b assume k: "pv \<in> set ?ks" "kv \<in> set ?ks" "pv \<noteq> kv" "key_step x m keys kv a = Inr b"
      "pv \<in> set keys \<longrightarrow> P pv a"
    show "pv \<in> set keys \<longrightarrow> P pv b"
    proof
      assume pv: "pv \<in> set keys"
      show "P pv b"
      proof (rule stay)
        show "P pv a" using k(5) pv by simp
        show "same_at (fst pv @ r) a b" for r
          by (rule key_step_same [OF k(4) ne [OF k(2)]]) (use ne [OF k(1)] apart [OF k(2) pv] k(3) in \<open>auto intro: parallel_ext\<close>)
      qed
    qed
  qed
  then show ?thesis by (auto simp: gm wanted_keys_def)
qed

lemma groups_hold:
  assumes g: "toml_groups txt builtin x = Inr groups" and f: "foldE (group_step x seed) groups s = Inr s'"
    and own: "\<And>g pv a b. g \<in> set groups \<Longrightarrow> pv \<in> set (snd g) \<Longrightarrow> fst pv \<noteq> [] \<Longrightarrow>
      key_step x (fst g) (snd g) pv a = Inr b \<Longrightarrow> P g pv b"
    and stay: "\<And>g pv a b. P g pv a \<Longrightarrow> (\<And>r. same_at (fst pv @ r) a b) \<Longrightarrow> P g pv b"
  shows "\<forall>g \<in> set groups. \<forall>pv \<in> set (snd g). P g pv s'"
proof (rule foldE_each [OF f])
  have "map fst GROUP_PATHS = map fst groups" by (simp add: group_paths [OF g, symmetric])
  with names_distinct show "distinct groups" by (metis distinct_map)
next
  fix h a b assume h: "h \<in> set groups" "group_step x seed h a = Inr b"
  show "\<forall>pv \<in> set (snd h). P h pv b"
  proof (rule group_step_holds [OF g h])
    show "P h pv d" if "pv \<in> set (snd h)" "fst pv \<noteq> []" "key_step x (fst h) (snd h) pv c = Inr d" for pv c d
      using own [OF h(1) that] .
    show "P h pv d" if "P h pv c" "\<And>r. same_at (fst pv @ r) c d" for pv c d using stay [OF that] .
  qed
next
  fix h k a b assume h: "h \<in> set groups" "k \<in> set groups" "h \<noteq> k" "group_step x seed k a = Inr b"
    "\<forall>pv \<in> set (snd h). P h pv a"
  have pk: "p \<in> set MANAGED_PATHS" if "p \<in> fst ` set (snd k)" for p
    using managed_in [OF group_in_paths [OF g h(2)]] that by simp
  have ph: "p \<in> set MANAGED_PATHS" if "p \<in> fst ` set (snd h)" for p
    using managed_in [OF group_in_paths [OF g h(1)]] that by simp
  have floor: "p \<noteq> FAIL_UNDER" if "p \<in> fst ` set (snd h)" for p
    using group_path_facts(2) [OF group_in_paths [OF g h(1)]] that by (metis list.set_map)
  show "\<forall>pv \<in> set (snd h). P h pv b"
  proof
    fix pv assume pv: "pv \<in> set (snd h)"
    show "P h pv b"
    proof (rule stay)
      show "P h pv a" using h(5) pv by blast
      show "same_at (fst pv @ r) a b" for r
      proof (rule group_step_same [OF h(4)])
        show "\<forall>kv \<in> set (snd k). fst kv \<noteq> [] \<and> parallel (fst kv) (fst pv @ r)"
          using groups_apart [OF g h(2) h(1)] h(3) pv pk paths_ne by (metis image_eqI parallel_ext)
        show "parallel FAIL_UNDER (fst pv @ r)"
          using floor ph pv paths_apart [of FAIL_UNDER "fst pv"] by (auto simp: MANAGED_PATHS_def intro!: parallel_ext)
        show "fst pv @ r \<noteq> []" using ph pv paths_ne by (metis append_is_Nil_conv image_eqI)
      qed
    qed
  qed
qed

lemma on_keys_held:
  assumes g: "toml_groups txt builtin x = Inr groups" and f: "foldE (group_step x seed) groups s = Inr s'"
    and wf: "\<forall>g \<in> set groups. \<forall>pv \<in> set (snd g). wf_json (snd pv)"
  shows "\<forall>g \<in> set groups. \<forall>pv \<in> set (snd g). group_on x (fst g) \<longrightarrow> key_held pv s'"
proof (rule groups_hold [OF g f])
  fix h pv a b assume h: "h \<in> set groups" "pv \<in> set (snd h)" "fst pv \<noteq> []" "key_step x (fst h) (snd h) pv a = Inr b"
  from wf h have "wf_json (snd pv)" by blast
  with h show "group_on x (fst h) \<longrightarrow> key_held pv b" by (auto intro: key_step_holds)
qed (use key_held_same in blast)

lemma merge_data_runs:
  assumes "merge_data x seed groups doc = Inr s'"
  obtains s where "foldE (group_step x seed) groups (doc, [], []) = Inr s" "dynamic_step x (whitelist_step x s) = Inr s'"
  using assms by (auto simp: merge_data_def elim!: bindE_InrE)

lemma tail_same:
  assumes "dynamic_step x (whitelist_step x s) = Inr s'" "q \<noteq> []"
    "parallel (STATIC_ANALYSIS @ [''whitelist'']) q" "parallel [''project'', ''dynamic''] q"
  shows "same_at q s s'"
  using same_at_trans [OF whitelist_same [OF assms(3,2)] dynamic_same [OF assms(1,4)]] .

text \<open>A managed path of a group: not empty, and apart from the other paths the merge writes.\<close>

lemma group_path_apart:
  assumes "toml_groups txt builtin x = Inr groups" "g \<in> set groups" "p \<in> fst ` set (snd g)"
  shows "p \<in> set MANAGED_PATHS" "p \<noteq> []" "parallel FAIL_UNDER p" "parallel (STATIC_ANALYSIS @ [''whitelist'']) p"
    "parallel [''project'', ''dynamic''] p"
proof -
  note gp = group_in_paths [OF assms(1,2)]
  show m: "p \<in> set MANAGED_PATHS" using managed_in [OF gp] assms(3) by simp
  then show "p \<noteq> []" using paths_ne by metis
  have n: "p \<noteq> FAIL_UNDER" "p \<noteq> STATIC_ANALYSIS @ [''whitelist'']" "p \<noteq> [''project'', ''dynamic'']"
    using group_path_facts(2-4) [OF gp] assms(3) by (metis list.set_map)+
  show "parallel FAIL_UNDER p" by (rule paths_apart [OF _ m n(1) [symmetric]]) (simp add: MANAGED_PATHS_def)
  show "parallel (STATIC_ANALYSIS @ [''whitelist'']) p"
    by (rule paths_apart [OF _ m n(2) [symmetric]]) (simp add: MANAGED_PATHS_def)
  show "parallel [''project'', ''dynamic''] p" by (rule paths_apart [OF _ m n(3) [symmetric]]) (simp add: MANAGED_PATHS_def)
qed

lemma dynamic_named:
  assumes "dynamic_step x s = Inr s'" "group_on x ''metadata''" "table_at (fst s) [''project''] \<noteq> None"
  shows "py_in (JStr ''version'') (toml_get (fst s') [''project'', ''dynamic'']) = Inr True"
proof -
  obtain doc missing w where s: "s = (doc, missing, w)" by (cases s)
  from assms(3) obtain t where t: "table_at doc [''project''] = Some t" by (auto simp: s)
  have f: "found (edit_at [''project''] f doc) [''project'', ''dynamic''] = map_of (f t) ''dynamic''" for f
    using found_edit_under [OF t, of f "[''dynamic'']"] by (simp split: option.splits)
  have own: "found doc [''project'', ''dynamic''] = map_of t ''dynamic''"
    using t found_app [of doc "[''project'']" "[''dynamic'']"] by (simp add: table_at_Some split: option.splits)
  show ?thesis
  proof (cases "map_of t ''dynamic''")
    case None
    with assms t show ?thesis by (auto simp: dynamic_step_def s toml_get_def f put_toml_other py_in_def strs_def)
  next
    case (Some d)
    with assms(1,2) t obtain named where named: "py_in (JStr ''version'') d = Inr named"
      by (auto simp: dynamic_step_def s elim!: bindE_InrE)
    show ?thesis
    proof (cases named)
      case True
      with assms(1,2) t Some named have "s' = (doc, missing, w)" by (simp add: dynamic_step_def s)
      with Some named True show ?thesis by (simp add: toml_get_def own)
    next
      case False
      with assms(1,2) t Some named obtain vs where "d = JArr vs"
        "s' = (edit_at [''project''] (AList.update ''dynamic'' (JArr (vs @ [JStr ''version'']))) doc, missing, w)"
        by (auto simp: dynamic_step_def s split: json.splits)
      then show ?thesis by (simp add: toml_get_def f py_in_def)
    qed
  qed
qed

text \<open>Where the merge leaves off, a key of a group that is off is as it was, or the merge took it back: it held what
  sync renders, which is not what every new app holds, and the group was on in some commit.\<close>

definition retracted :: "toml_ctx \<Rightarrow> string \<Rightarrow> string list \<times> json \<Rightarrow> json \<Rightarrow> json \<Rightarrow> bool" where
  "retracted x m pv doc doc' \<longleftrightarrow>
     found doc' (fst pv) = None \<and> py_eq (toml_get doc (fst pv)) (snd pv) \<and>
     \<not> bench_baseline x (fst pv) (toml_get doc (fst pv)) (snd pv) \<and> toml_was_on x m = Inr True"

lemma retract_key_cases:
  assumes "retract_key x m p v s = Inr s'" "p \<noteq> []"
  shows "found (fst s') p = found (fst s) p \<or> retracted x m (p, v) (fst s) (fst s')"
  using assms by (cases s)
    (auto simp: retract_key_def Let_def retracted_def drop_managed_gone elim!: bindE_InrE split: if_splits)

lemma off_key_kept:
  assumes g: "toml_groups txt builtin x = Inr groups" "g \<in> set groups" "pv \<in> set (snd g)" and off: "\<not> group_on x (fst g)"
    and run: "merge_data x seed groups doc = Inr s'"
  shows "found (fst s') (fst pv) = found doc (fst pv) \<or> retracted x (fst g) pv doc (fst s')"
proof -
  define Q where "Q s \<longleftrightarrow> found (fst s) (fst pv) = found doc (fst pv) \<or> retracted x (fst g) pv doc (fst s)" for s :: tmerge
  have p: "fst pv \<in> fst ` set (snd g)" using g(3) by simp
  note apart = group_path_apart [OF g(1,2) p]
  have other: "Q b" if "same_at (fst pv) a b" "Q a" for a b
    using that by (simp add: Q_def same_at_def retracted_def)
  have own: "Q b" if "retract_key x (fst g) (fst pv) (snd pv) a = Inr b" "Q a" for a b
  proof (cases "retracted x (fst g) pv doc (fst a)")
    case True
    then have "toml_get (fst a) (fst pv) = JNull" by (simp add: retracted_def toml_get_def)
    then have "b = a" using that(1) by (cases a) (simp add: retract_key_def)
    with that show ?thesis by simp
  next
    case False
    with that(2) have "found (fst a) (fst pv) = found doc (fst pv)" by (simp add: Q_def)
    with retract_key_cases [OF that(1) apart(2)] show ?thesis by (auto simp: Q_def retracted_def toml_get_def)
  qed
  have step: "Q b" if h: "h \<in> set groups" "group_step x seed h a = Inr b" "Q a" for h a b
  proof (cases "h = g")
    case False
    have "same_at (fst pv) a b"
    proof (rule group_step_same [OF h(2)])
      show "\<forall>kv \<in> set (snd h). fst kv \<noteq> [] \<and> parallel (fst kv) (fst pv)"
        using group_path_apart(2) [OF g(1) h(1)] groups_apart [OF g(1) h(1) g(2) False _ p] by blast
    qed (use apart in auto)
    with h(3) other show ?thesis by blast
  next
    case True
    obtain m keys where gm: "g = (m, keys)" by (cases g)
    have w: "wanted_keys x seed m keys d = keys" for d using off by (simp add: wanted_keys_def gm)
    have f: "foldE (key_step x m keys) keys a = Inr b"
      using h(2) by (simp add: True group_step_def gm w)
    show ?thesis
    proof (rule foldE_keeps [where Q = Q, OF _ f h(3)])
      fix kv c d assume kv: "kv \<in> set keys" "key_step x m keys kv c = Inr d" "Q c"
      show "Q d"
      proof (cases "kv = pv")
        case True
        with kv off own [of c d] show ?thesis by (simp add: key_step_def gm)
      next
        case False
        have "fst kv \<noteq> fst pv"
          using False kv(1) g(3) group_path_facts(1) [OF group_in_paths [OF g(1,2)]]
          by (auto simp: gm distinct_map inj_on_def)
        then have "parallel (fst kv) (fst pv)"
          using kv(1) by (intro paths_apart apart(1) group_path_apart(1) [OF g(1,2)]) (simp add: gm)
        moreover have "fst kv \<noteq> []" using kv(1) by (intro group_path_apart(2) [OF g(1,2)]) (simp add: gm)
        ultimately have "same_at (fst pv) c d" using key_step_same [OF kv(2)] apart(2) by blast
        with kv(3) other show ?thesis by blast
      qed
    qed
  qed
  from run obtain s where s: "foldE (group_step x seed) groups (doc, [], []) = Inr s"
    "dynamic_step x (whitelist_step x s) = Inr s'" by (rule merge_data_runs)
  have "Q s" by (rule foldE_keeps [where Q = Q, OF step s(1)]) (auto simp: Q_def)
  moreover have "same_at (fst pv) s s'" by (rule tail_same [OF s(2) apart(2,4,5)])
  ultimately have "Q s'" using other by blast
  then show ?thesis by (simp add: Q_def)
qed

lemma app_path_same:
  assumes "toml_groups txt builtin x = Inr groups" "\<forall>p \<in> set MANAGED_PATHS. parallel p q"
  shows "merge_data x seed groups doc = Inr (doc', missing, w) \<Longrightarrow> found doc' q = found doc q"
    and "foldE (group_step x seed) groups (doc, [], []) = Inr s \<Longrightarrow> found (fst s) q = found doc q"
proof -
  have m: "\<forall>p \<in> managed_paths groups. p \<noteq> [] \<and> parallel p q"
    using assms(2) paths_ne by (auto simp: managed_paths_eq [OF assms(1)])
  show "merge_data x seed groups doc = Inr (doc', missing, w) \<Longrightarrow> found doc' q = found doc q"
    using merge_data_found m by blast
  show "foldE (group_step x seed) groups (doc, [], []) = Inr s \<Longrightarrow> found (fst s) q = found doc q"
    by (erule foldE_keeps [where Q = "\<lambda>s. found (fst s) q = found doc q", rotated])
      (use m in \<open>auto simp: managed_paths_def dest!: group_step_found [where q = q]\<close>)
qed

lemma name_apart: "\<forall>p \<in> set MANAGED_PATHS. parallel p [''project'', ''name'']"
  by (simp add: MANAGED_PATHS_def GROUP_PATHS_def parallel_def FAIL_UNDER_def STATIC_ANALYSIS_def BENCH_DEPENDENCIES_def)

lemma dynamic_version:
  assumes "toml_groups txt builtin x = Inr groups" "merge_data x seed groups doc = Inr s'"
    "found doc [''project'', ''name''] \<noteq> None" "group_on x ''metadata''"
  shows "py_in (JStr ''version'') (toml_get (fst s') [''project'', ''dynamic'']) = Inr True"
proof -
  from assms(2) obtain s where s: "foldE (group_step x seed) groups (doc, [], []) = Inr s"
    "dynamic_step x (whitelist_step x s) = Inr s'" by (rule merge_data_runs)
  have "found (fst (whitelist_step x s)) [''project'', ''name''] = found (fst s) [''project'', ''name'']"
    by (rule whitelist_found) (simp add: parallel_def STATIC_ANALYSIS_def)
  also have "\<dots> = found doc [''project'', ''name'']" by (rule app_path_same(2) [OF assms(1) name_apart s(1)])
  finally have "found (fst (whitelist_step x s)) [''project'', ''name''] \<noteq> None" using assms(3) by simp
  then have "table_at (fst (whitelist_step x s)) [''project''] \<noteq> None"
    using found_app [of "fst (whitelist_step x s)" "[''project'']" "[''name'']"]
    by (auto simp: table_at_def found.simps split: option.splits json.splits)
  with assms(4) show ?thesis using dynamic_named [OF s(2)] by blast
qed

text \<open>The merge sets every managed key of a module that is on: after it the key holds the value sync renders, in the
  document or in a table it is about to write, and a dependency table holds exactly its keys; the dynamic fields of
  a project with a name include the version.\<close>

theorem toml_merge_manages:
  assumes "toml_groups txt builtin x = Inr groups" "merge_data x seed groups doc = Inr s'"
    "\<forall>g \<in> set groups. \<forall>pv \<in> set (snd g). wf_json (snd pv)"
  shows "(\<forall>g \<in> set groups. group_on x (fst g) \<longrightarrow> (\<forall>pv \<in> set (snd g). key_held pv s')) \<and>
    (group_on x ''metadata'' \<and> found doc [''project'', ''name''] \<noteq> None \<longrightarrow>
      py_in (JStr ''version'') (toml_get (fst s') [''project'', ''dynamic'']) = Inr True)"
proof
  from assms(2) obtain s where s: "foldE (group_step x seed) groups (doc, [], []) = Inr s"
    "dynamic_step x (whitelist_step x s) = Inr s'" by (rule merge_data_runs)
  show "\<forall>g \<in> set groups. group_on x (fst g) \<longrightarrow> (\<forall>pv \<in> set (snd g). key_held pv s')"
  proof (intro ballI impI)
    fix g pv assume g: "g \<in> set groups" "group_on x (fst g)" "pv \<in> set (snd g)"
    have p: "fst pv \<in> fst ` set (snd g)" using g(3) by simp
    note apart = group_path_apart [OF assms(1) g(1) p]
    have "key_held pv s" using on_keys_held [OF assms(1) s(1) assms(3)] g by blast
    moreover have "same_at (fst pv @ r) s s'" for r
      by (rule tail_same [OF s(2)]) (use apart in \<open>simp_all add: parallel_ext\<close>)
    ultimately show "key_held pv s'" by (rule key_held_same)
  qed
  show "group_on x ''metadata'' \<and> found doc [''project'', ''name''] \<noteq> None \<longrightarrow>
      py_in (JStr ''version'') (toml_get (fst s') [''project'', ''dynamic'']) = Inr True"
    using dynamic_version [OF assms(1,2)] by blast
qed

text \<open>C19. The merge leaves the app's own settings alone: a path apart from every managed one reads as before, and a managed
  key of a module that is off is either as it was, or was taken back: it held exactly what sync renders, which is not
  what every new app starts with, and the module was on in a commit of the app.\<close>

theorem toml_merge_keeps_the_app:
  assumes "toml_groups txt builtin x = Inr groups" "merge_data x seed groups doc = Inr (doc', missing, w)"
  shows "(\<forall>q. (\<forall>p \<in> set MANAGED_PATHS. parallel p q) \<longrightarrow> found doc' q = found doc q) \<and>
    (\<forall>g \<in> set groups. \<not> group_on x (fst g) \<longrightarrow>
      (\<forall>pv \<in> set (snd g). found doc' (fst pv) = found doc (fst pv) \<or> retracted x (fst g) pv doc doc'))"
  using app_path_same(1) [OF assms(1) _ assms(2)] off_key_kept [OF assms(1) _ _ _ assms(2)] by simp

section \<open>At a concrete app\<close>

definition sample_builtin :: templates where
  "sample_builtin =
     [(''frappe'', [(''repo'', JStr ''frappe/frappe''), (''branch'', JStr ''version-{n}''), (''range'', JStr ''>={n}.0.0,<{n1}.0.0'')]),
      (''erpnext'', [(''repo'', JStr ''frappe/erpnext''), (''branch'', JStr ''version-{n}''), (''range'', JStr ''>={n}.0.0,<{n1}.0.0'')])]"

definition sample_toml_cfg :: json where
  "sample_toml_cfg = JObj
     [(''metadata'', JObj [(''build-backend'', JStr ''flit'')]),
      (''python-lint'', JObj [(''line-length'', JInt 110), (''select'', strs [''F'']), (''ignore'', strs [''E501'']),
         (''typing-modules'', strs [''frappe.types.DF'']), (''quote-style'', JStr ''double''), (''indent-style'', JStr ''tab'')]),
      (''python-types'', JObj [(''error-on-warning'', JBool True)]),
      (''tests'', JObj [(''coverage'', JObj [(''enable'', JBool True), (''initial-floor'', JInt 40)])])]"

definition sample_conf :: "string list \<Rightarrow> conf" where
  "sample_conf on = \<lparr>k_cfg = sample_toml_cfg, k_modules = (\<lambda>m. m \<in> set on)\<rparr>"

definition sample_toml_ctx :: toml_ctx where
  "sample_toml_ctx =
     \<lparr>t_app = ''my_app'', t_conf = sample_conf [''metadata'', ''tests''], t_org = [], t_major = 15, t_python = ''3.12'',
      t_range = JStr ''>=15.0.0,<16.0.0'', t_required = [''erpnext''], t_siblings = [],
      t_history = \<lparr>h_confs = [sample_conf [''metadata'', ''python-types'', ''test-utils'']], h_truncated = False, h_unknown = []\<rparr>,
      t_previous = None\<rparr>"

text \<open>The app's file: the managed tables are there; the type checker's key and vulture's are left from modules now off.\<close>

definition sample_toml_doc :: json where
  "sample_toml_doc = JObj
     [(''project'', JObj [(''name'', JStr ''my_app''), (''requires-python'', JStr ''>=3.10'')]),
      (''build-system'', JObj [(''requires'', strs [''setuptools''])]),
      (''tool'', JObj
        [(''bench'', JObj [(''frappe-dependencies'', JObj [(''frappe'', JStr ''>=14''), (''hrms'', JStr ''>=15'')])]),
         (''ruff'', JObj [(''line-length'', JInt 88)]),
         (''ty'', JObj [(''environment'', JObj [(''python-version'', JStr ''3.12'')]), (''mine'', JInt 1)]),
         (''vulture'', JObj [(''exclude'', strs VULTURE_EXCLUDE)]),
         (''coverage'', JObj [(''run'', JObj [(''branch'', JBool True)]), (''report'', JObj [])])])]"

definition sample_toml_groups :: "exn + (string \<times> managed_keys) list" where
  "sample_toml_groups = toml_groups (\<lambda>_. []) sample_builtin sample_toml_ctx"

lemma sample_merge_runs:
  "\<exists>groups doc' w. toml_groups (\<lambda>_. []) sample_builtin sample_toml_ctx = Inr groups \<and>
     merge_data sample_toml_ctx True groups sample_toml_doc = Inr (doc', [], w) \<and>
     (\<forall>g \<in> set groups. \<forall>pv \<in> set (snd g). wf_json (snd pv) \<and> snd pv \<noteq> JNull \<and> snd pv \<noteq> JObj []) \<and>
     found doc' [''tool'', ''ty'', ''mine''] = Some (JInt 1) \<and> found doc' [''tool'', ''vulture''] = None"
proof -
  have "case sample_toml_groups of Inl _ \<Rightarrow> False
    | Inr gs \<Rightarrow> list_all (\<lambda>g. list_all (\<lambda>pv. wf_json (snd pv) \<and> snd pv \<noteq> JNull \<and> snd pv \<noteq> JObj []) (snd g)) gs \<and>
        (case merge_data sample_toml_ctx True gs sample_toml_doc of
           Inl _ \<Rightarrow> False
         | Inr s \<Rightarrow> fst (snd s) = [] \<and> found (fst s) [''tool'', ''ty'', ''mine''] = Some (JInt 1) \<and>
             found (fst s) [''tool'', ''vulture''] = None)"
    by code_simp
  then show ?thesis
    by (auto simp: sample_toml_groups_def list_all_iff split: sum.splits prod.splits)
qed

lemma toml_merge_manages_witness:
  "\<exists>groups s'. toml_groups (\<lambda>_. []) sample_builtin sample_toml_ctx = Inr groups \<and>
     merge_data sample_toml_ctx True groups sample_toml_doc = Inr s' \<and>
     (\<forall>g \<in> set groups. group_on sample_toml_ctx (fst g) \<longrightarrow> (\<forall>pv \<in> set (snd g). key_held pv s')) \<and>
     py_in (JStr ''version'') (toml_get (fst s') [''project'', ''dynamic'']) = Inr True"
proof -
  obtain groups doc' w where r: "toml_groups (\<lambda>_. []) sample_builtin sample_toml_ctx = Inr groups"
    "merge_data sample_toml_ctx True groups sample_toml_doc = Inr (doc', [], w)"
    "\<forall>g \<in> set groups. \<forall>pv \<in> set (snd g). wf_json (snd pv) \<and> snd pv \<noteq> JNull \<and> snd pv \<noteq> JObj []"
    using sample_merge_runs by blast
  have "group_on sample_toml_ctx ''metadata'' \<and> found sample_toml_doc [''project'', ''name''] \<noteq> None" by code_simp
  with toml_merge_manages [OF r(1,2)] r show ?thesis by blast
qed

lemma toml_merge_keeps_the_app_witness:
  "\<exists>groups doc' w. toml_groups (\<lambda>_. []) sample_builtin sample_toml_ctx = Inr groups \<and>
     merge_data sample_toml_ctx True groups sample_toml_doc = Inr (doc', [], w) \<and>
     found doc' [''tool'', ''ty'', ''mine''] = found sample_toml_doc [''tool'', ''ty'', ''mine'']"
proof -
  obtain groups doc' w where r: "toml_groups (\<lambda>_. []) sample_builtin sample_toml_ctx = Inr groups"
    "merge_data sample_toml_ctx True groups sample_toml_doc = Inr (doc', [], w)" using sample_merge_runs by blast
  have "\<forall>p \<in> set MANAGED_PATHS. parallel p [''tool'', ''ty'', ''mine'']"
    by (simp add: MANAGED_PATHS_def GROUP_PATHS_def parallel_def FAIL_UNDER_def STATIC_ANALYSIS_def BENCH_DEPENDENCIES_def)
  with toml_merge_keeps_the_app [OF r] r show ?thesis by blast
qed

end
