(* ===== verification/TomlRounds.thy ===== *)
theory TomlRounds
  imports TomlMerge
begin

text \<open>
  What the merge of \<^verbatim>\<open>pyproject.toml\<close> is for: the dependency table it writes passes the rules of
  \<^verbatim>\<open>scaffold/ranges.py\<close> (the marketplace gate's and the compat hook's), and a second merge finds nothing to do.
\<close>

section \<open>The dependency table passes the rules\<close>

lemma mapE_all: "(\<And>x. x \<in> set xs \<Longrightarrow> f x = Inr (g x)) \<Longrightarrow> mapE f xs = Inr (map g xs)"
  by (induction xs) auto

lemma find_by_name:
  assumes "distinct (map s_name sibs)"
  shows "map_of (siblings_by_name sibs) n = find (\<lambda>s. s_name s = n) sibs"
proof -
  have "map_of (siblings_by_name sibs) = map_of (map (\<lambda>s. (s_name s, s)) sibs)"
    using assms by (simp add: siblings_by_name_def map_of_rev_distinct comp_def)
  moreover have "map_of (map (\<lambda>s. (s_name s, s)) xs) n = find (\<lambda>s. s_name s = n) xs" for xs
    by (induction xs) auto
  ultimately show ?thesis by simp
qed

text \<open>Each wanted app has its range in the table that is built.\<close>

definition ranged ::
  "(json \<Rightarrow> string) \<Rightarrow> templates \<Rightarrow> toml_ctx \<Rightarrow> (string \<times> string) list \<Rightarrow> jtable \<Rightarrow> bool" where
  "ranged txt apps x want deps \<longleftrightarrow>
     distinct (map fst want) \<and> distinct (map fst deps) \<and> fst ` set want = fst ` set deps \<and>
     (\<forall>n sp. map_of want n = Some sp \<longrightarrow>
        (\<exists>r. map_of deps n = Some r \<and> expected_range txt (t_siblings x) (t_major x) apps (n, sp) = Inr r))"

lemma rangedD:
  "ranged txt apps x want deps \<Longrightarrow> map_of want n = Some sp \<Longrightarrow>
   \<exists>r. map_of deps n = Some r \<and> expected_range txt (t_siblings x) (t_major x) apps (n, sp) = Inr r"
  unfolding ranged_def by blast

lemma ranged_step:
  assumes "ranged txt apps x want deps" "required_range txt apps x sp deps = Inr deps'" "bare sp \<noteq> ''frappe''"
    "distinct (map s_name (t_siblings x))"
  shows "ranged txt apps x (AList.update (bare sp) sp want) deps'"
proof -
  obtain r where r: "deps' = AList.update (bare sp) r deps"
    "expected_range txt (t_siblings x) (t_major x) apps (bare sp, sp) = Inr r"
    using assms(2,3) by (auto simp: required_range_def expected_range_def find_by_name [OF assms(4)] Let_def
        elim!: bindE_InrE split: option.splits)
  have "fst ` set (AList.update (bare sp) sp want) = insert (bare sp) (fst ` set want)"
    "fst ` set (AList.update (bare sp) r deps) = insert (bare sp) (fst ` set deps)"
    by (simp_all add: dom_map_of_conv_image_fst [symmetric])
  with assms(1) r show ?thesis by (auto simp: ranged_def distinct_update)
qed

lemma ranged_all:
  assumes "foldE (required_range txt apps x) required deps = Inr deps'" "ranged txt apps x want deps"
    "\<forall>sp \<in> set required. bare sp \<noteq> ''frappe''" "distinct (map s_name (t_siblings x))"
  shows "ranged txt apps x (fold (\<lambda>r. AList.update (bare r) r) required want) deps'"
  using assms
proof (induction required arbitrary: want deps)
  case (Cons sp required)
  then obtain d where "required_range txt apps x sp deps = Inr d" "foldE (required_range txt apps x) required d = Inr deps'"
    by (auto elim!: bindE_InrE)
  with Cons show ?case using ranged_step [OF Cons.prems(2)] by simp
qed simp

text \<open>The range a text is: a valid one, whose lower bounds are of the major it starts with.\<close>

definition proper_range :: "(string \<Rightarrow> (string \<times> string) list option) \<Rightarrow> nat \<Rightarrow> json \<Rightarrow> bool" where
  "proper_range spec major v \<longleftrightarrow>
     (\<exists>s l. v = JStr s \<and> spec s = Some l \<and>
        (startswith s (''>='' @ show_nat major @ ''.'') \<longrightarrow>
           (\<forall>b \<in> set l. is_lower_bound b \<longrightarrow> hd (split_on (CHR ''.'') (snd b)) = show_nat major)))"

lemma range_checks_proper:
  assumes "proper_range spec major (JStr s)"
  shows "range_checks spec major n s (JStr s) = Inr []"
proof -
  from assms obtain l where l: "spec s = Some l"
    "startswith s (''>='' @ show_nat major @ ''.'') \<Longrightarrow> \<forall>b \<in> set l. is_lower_bound b \<longrightarrow> hd (split_on (CHR ''.'') (snd b)) = show_nat major"
    by (auto simp: proper_range_def)
  have "hd (filter is_lower_bound l) \<in> set l \<and> is_lower_bound (hd (filter is_lower_bound l))" if "filter is_lower_bound l \<noteq> []"
    using hd_in_set [OF that] by auto
  with l show ?thesis by (auto simp: range_checks_def Let_def)
qed

text \<open>C20. What sync writes is what the gates accept: a \<^verbatim>\<open>pyproject.toml\<close> whose \<^verbatim>\<open>[tool.bench.frappe-dependencies]\<close> is
  the table the merge sets passes every rule on the app's Frappe dependencies, when the app's required apps do not
  name frappe, no sibling goes by its name or shares another's, the resolved ranges are version ranges, and the
  project's own dependencies name no bench app.\<close>

theorem synced_dependencies_pass_the_gate:
  assumes apps: "known_merged builtin [known] = Inr apps"
    and frappe: "resolve_sibling txt (JStr ''frappe'') (t_major x) apps = Inr fr" "t_range x = s_range fr"
    and deps: "bench_dependencies txt apps x = Inr deps" "\<forall>kv \<in> set deps. proper_range spec (t_major x) (snd kv)"
    and doc: "exact_at doc BENCH_DEPENDENCIES deps"
    and own: "project_dependencies doc = Inr pd" "mapE bench_named_in pd = Inr named" "concat named = []"
    and names: "\<forall>sp \<in> set (t_required x). bare sp \<noteq> ''frappe''" "distinct (map s_name (t_siblings x))"
      "\<forall>s \<in> set (t_siblings x). s_name s \<noteq> ''frappe''"
  shows "range_problems txt spec builtin doc (t_required x) (t_major x) (t_siblings x) known = Inr []"
proof -
  have none: "find (\<lambda>s. s_name s = ''frappe'') (t_siblings x) = None" using names(3) by (simp add: find_None_iff)
  have "ranged txt apps x [(''frappe'', ''frappe'')] [(''frappe'', t_range x)]"
    using frappe none by (simp add: ranged_def expected_range_def find_by_name [OF names(2)])
  from ranged_all [OF deps(1) [unfolded bench_dependencies_def] this names(1,2)]
  have r: "ranged txt apps x (wanted_apps (t_required x)) deps"
    using names(1) by (simp add: wanted_apps_def filter_id_conv)
  from doc obtain t where t: "found doc BENCH_DEPENDENCIES = Some (JObj t)" "fst ` set t = fst ` set deps"
    "\<forall>kv \<in> set deps. agrees (entry t (fst kv)) (snd kv)" by (auto simp: exact_at_def table_at_Some)
  have fd: "frappe_dependencies doc = Inr (JObj t)"
    using t(1) by (auto simp: frappe_dependencies_def BENCH_DEPENDENCIES_def found_Cons)
  have each: "dependency_problems txt spec (t_siblings x) (t_major x) apps t w = Inr []"
    if w: "w \<in> set (wanted_apps (t_required x))" for w
  proof -
    obtain n sp where ns: "w = (n, sp)" by (cases w)
    have "map_of (wanted_apps (t_required x)) n = Some sp" using w r ns by (auto simp: ranged_def intro: map_of_is_SomeI)
    from rangedD [OF r this] obtain v where
      v: "map_of deps n = Some v" "expected_range txt (t_siblings x) (t_major x) apps w = Inr v" by (auto simp: ns)
    then have mem: "(n, v) \<in> set deps" by (auto dest: map_of_SomeD)
    with deps(2) obtain s where s: "v = JStr s" "proper_range spec (t_major x) (JStr s)" by (auto simp: proper_range_def)
    have "agrees (entry t n) v" using bspec [OF t(3) mem] by simp
    then have "entry t n = JStr s" by (simp add: agrees_def s)
    with v s show ?thesis by (simp add: dependency_problems_def ns range_checks_proper)
  qed
  have "mapE (dependency_problems txt spec (t_siblings x) (t_major x) apps t) (wanted_apps (t_required x))
      = Inr (map (\<lambda>_. []) (wanted_apps (t_required x)))" by (rule mapE_all) (rule each)
  moreover have "set (map fst t) = set (map fst (wanted_apps (t_required x)))" using t(2) r by (simp add: ranged_def)
  moreover have "\<not> list_ex (\<lambda>r. bare r = ''frappe'') (t_required x)" using names(1) by (simp add: list_ex_iff)
  ultimately show ?thesis using own by (simp add: range_problems_def apps fd Let_def)
qed

section \<open>A second merge has nothing to do\<close>

lemma foldE_app: "foldE f (xs @ ys) a = bindE (foldE f xs a) (foldE f ys)"
  by (induction xs arbitrary: a) (auto simp: bindE_def split: sum.splits)

lemma foldE_stable:
  assumes "\<And>x a. x \<in> set xs \<Longrightarrow> R a \<Longrightarrow> \<exists>b. f x a = Inr b \<and> R b" "R a"
  shows "\<exists>b. foldE f xs a = Inr b \<and> R b"
  using assms
proof (induction xs arbitrary: a)
  case (Cons x xs)
  then obtain b where "f x a = Inr b" "R b" by (metis list.set_intros(1))
  with Cons.IH [of b] Cons.prems show ?case by simp
qed simp

lemma edit_same: "(\<And>t. table_at doc p = Some t \<Longrightarrow> f t = t) \<Longrightarrow> edit_at p f doc = doc"
proof (induction p f doc rule: edit_at.induct)
  case (2 k ks f t)
  then show ?case
    by (cases "map_of t k") (auto simp: table_at_def found.simps update_same)
qed (auto simp: table_at_def)

lemma exact_table_same:
  assumes "fst ` set t = fst ` set w" "\<forall>kv \<in> set w. py_eq (entry t (fst kv)) (snd kv)"
  shows "exact_table w t = t"
proof -
  have "fst kv \<in> set (map fst w)" if "kv \<in> set t" for kv using that assms(1) by (metis image_eqI list.set_map)
  then have "filter (\<lambda>(k, v). k \<in> set (map fst w)) t = t" by (auto simp only: filter_id_conv fst_conv split: prod.splits)
  moreover have "fold exact_step kvs t = t" if "set kvs \<subseteq> set w" for kvs
    using that
  proof (induction kvs)
    case (Cons kv kvs)
    then have "fst kv \<in> fst ` set t" using assms(1) by simp
    then have "map_of t (fst kv) \<noteq> None" by (metis map_of_eq_None_iff)
    with Cons assms(2) show ?case by (simp add: exact_step_def)
  qed simp
  ultimately show ?thesis by (simp add: exact_table_def)
qed

text \<open>A key of a group that is off gives a merge nothing to take back.\<close>

definition nothing_left :: "toml_ctx \<Rightarrow> string \<Rightarrow> string list \<times> json \<Rightarrow> json \<Rightarrow> bool" where
  "nothing_left x m pv doc \<longleftrightarrow>
     (let have = toml_get doc (fst pv) in
      have = JNull \<or> bench_baseline x (fst pv) have (snd pv) \<or> \<not> py_eq have (snd pv) \<or> toml_was_on x m = Inr False)"

lemma retract_leaves_nothing:
  "retract_key x m (fst pv) (snd pv) s = Inr s' \<Longrightarrow> fst pv \<noteq> [] \<Longrightarrow> nothing_left x m pv (fst s')"
  by (cases s) (auto simp: retract_key_def nothing_left_def Let_def toml_get_def drop_managed_gone elim!: bindE_InrE split: if_splits)

lemma nothing_to_retract:
  "nothing_left x m pv doc \<Longrightarrow> \<exists>w'. retract_key x m (fst pv) (snd pv) (doc, [], w) = Inr (doc, [], w')"
  by (auto simp: retract_key_def nothing_left_def Let_def)

definition key_settled :: "toml_ctx \<Rightarrow> string \<times> managed_keys \<Rightarrow> string list \<times> json \<Rightarrow> tmerge \<Rightarrow> bool" where
  "key_settled x g pv s \<longleftrightarrow> (if group_on x (fst g) then key_held pv s else nothing_left x (fst g) pv (fst s))"

text \<open>The values sync renders: dictionaries with distinct keys, no null and no empty table.\<close>

definition rendered_ok :: "json \<Rightarrow> bool" where
  "rendered_ok v \<longleftrightarrow> wf_json v \<and> v \<noteq> JNull \<and> v \<noteq> JObj []"

lemma keys_settled:
  assumes g: "toml_groups txt builtin x = Inr groups" and run: "merge_data x seed groups doc = Inr s'"
    and ok: "\<forall>g \<in> set groups. \<forall>pv \<in> set (snd g). rendered_ok (snd pv)"
  shows "\<forall>g \<in> set groups. \<forall>pv \<in> set (snd g). key_settled x g pv s'"
proof -
  from run obtain s where s: "foldE (group_step x seed) groups (doc, [], []) = Inr s"
    "dynamic_step x (whitelist_step x s) = Inr s'" by (rule merge_data_runs)
  have stay: "key_settled x h pv b" if "key_settled x h pv a" "\<And>r. same_at (fst pv @ r) a b" for h pv a b
    using that(1) key_held_same [OF _ that(2)] that(2) [of "[]"]
    by (auto simp: key_settled_def nothing_left_def same_at_def toml_get_def split: if_splits)
  have all: "\<forall>g \<in> set groups. \<forall>pv \<in> set (snd g). key_settled x g pv s"
  proof (rule groups_hold [OF g s(1)])
    fix h pv a b assume h: "h \<in> set groups" "pv \<in> set (snd h)" "fst pv \<noteq> []" "key_step x (fst h) (snd h) pv a = Inr b"
    from ok h(1,2) have "wf_json (snd pv)" unfolding rendered_ok_def by blast
    with h(3,4) show "key_settled x h pv b"
      by (auto simp: key_settled_def key_step_def dest: retract_leaves_nothing intro: key_step_holds split: if_splits)
  qed (use stay in blast)
  show ?thesis
  proof (intro ballI)
    fix h pv assume h: "h \<in> set groups" "pv \<in> set (snd h)"
    then have p: "fst pv \<in> fst ` set (snd h)" by simp
    note apart = group_path_apart [OF g h(1) p]
    show "key_settled x h pv s'"
    proof (rule stay)
      show "key_settled x h pv s" using all h by blast
      show "same_at (fst pv @ r) s s'" for r by (rule tail_same [OF s(2)]) (use apart in \<open>simp_all add: parallel_ext\<close>)
    qed
  qed
qed

lemma agrees_eq: "wf_json v \<Longrightarrow> agrees h v \<longleftrightarrow> py_eq h v" by (auto simp: agrees_def py_eq_refl)

lemma held_is_set:
  assumes "key_held pv (doc, [], w)" "rendered_ok (snd pv)" "fst pv \<noteq> []"
  shows "set_managed keys (fst pv) (snd pv) (doc, [], w') = (doc, [], w')"
proof -
  obtain tbl k v where pv: "pv = (tbl @ [k], v)" using assms(3) by (metis append_butlast_last_id prod.collapse)
  have none: "missing_at [] q = None" for q by (simp add: missing_at_def)
  show ?thesis
  proof (cases "\<exists>kvs. v = JObj kvs")
    case True
    then obtain kvs where v: "v = JObj kvs" by blast
    with assms(2) pv have kvs: "kvs \<noteq> []" "wf_json (JObj kvs)" by (auto simp: rendered_ok_def)
    with assms(1) have "exact_at doc (tbl @ [k]) kvs" by (cases kvs) (auto simp: key_held_def pv v none)
    then obtain t where t: "table_at doc (tbl @ [k]) = Some t" "fst ` set t = fst ` set kvs"
      "\<forall>kv \<in> set kvs. agrees (entry t (fst kv)) (snd kv)" by (auto simp: exact_at_def)
    have "\<forall>kv \<in> set kvs. py_eq (entry t (fst kv)) (snd kv)"
      using t(3) kvs(2) agrees_eq unfolding wf_json.simps by blast
    then have "exact_table kvs t = t" by (rule exact_table_same [OF t(2)])
    then have "edit_at (tbl @ [k]) (exact_table kvs) doc = doc" by (intro edit_same) (simp add: t(1))
    then show ?thesis by (simp add: pv v set_managed_def t(1))
  next
    case False
    with assms(1) have "agrees (toml_get doc (tbl @ [k])) v" by (auto simp: key_held_def pv none split: json.splits)
    then have eq: "py_eq (toml_get doc (tbl @ [k])) v" using assms(2) by (simp add: pv rendered_ok_def agrees_eq)
    have "toml_get doc (tbl @ [k]) \<noteq> JNull" using eq assms(2) by (auto simp: pv rendered_ok_def)
    then obtain h where h: "found doc (tbl @ [k]) = Some h" by (auto simp: toml_get_def split: option.splits)
    then obtain t where t: "table_at doc tbl = Some t" "map_of t k = Some h"
      by (auto simp: found_app table_at_def found.simps split: option.splits json.splits)
    have "py_eq (entry t k) v" using eq h t(2) by (simp add: toml_get_def entry_def)
    with False t show ?thesis by (auto simp: pv set_managed_def Let_def split: json.splits)
  qed
qed

text \<open>The floor that is seeded, the whitelist and the dynamic fields.\<close>

definition floor_there :: "tmerge \<Rightarrow> bool" where
  "floor_there s \<longleftrightarrow> toml_get (fst s) FAIL_UNDER \<noteq> JNull \<or> missing_at (fst (snd s)) FAIL_UNDER \<noteq> None"

lemma floor_there_same: "same_at FAIL_UNDER a b \<Longrightarrow> floor_there a \<Longrightarrow> floor_there b"
  by (simp add: floor_there_def same_at_def toml_get_def)

definition floor_ok :: "json \<Rightarrow> bool" where "floor_ok v \<longleftrightarrow> v \<noteq> JNull \<and> \<not> is_dict v"

lemma group_step_floor:
  assumes g: "toml_groups txt builtin x = Inr groups" "g \<in> set groups" and s: "group_step x seed g s = Inr s'"
    and on: "group_on x ''tests''" "seed" "fst g = ''tests''" and v: "floor_ok (conf_at (t_conf x) [''tests'', ''coverage'', ''initial-floor''])"
  shows "floor_there s'"
proof -
  obtain m keys where gm: "g = (m, keys)" by (cases g)
  let ?v = "conf_at (t_conf x) [''tests'', ''coverage'', ''initial-floor'']"
  have keys: "same_at FAIL_UNDER a b" if "foldE (key_step x m keys) keys a = Inr b" for a b
  proof (rule foldE_keeps [where Q = "same_at FAIL_UNDER a", OF _ that same_at_refl])
    fix kv c d assume kv: "kv \<in> set keys" "key_step x m keys kv c = Inr d" "same_at FAIL_UNDER a c"
    have "fst kv \<in> fst ` set (snd g)" using kv(1) by (simp add: gm)
    then have "same_at FAIL_UNDER c d"
      by (intro key_step_same [OF kv(2) group_path_apart(2) [OF g] _ parallel_sym [OF group_path_apart(3) [OF g]]])
        (simp_all add: FAIL_UNDER_def)
    with kv(3) show "same_at FAIL_UNDER a d" by (rule same_at_trans)
  qed
  show ?thesis
  proof (cases "toml_get (fst s) FAIL_UNDER = JNull")
    case False
    then have "foldE (key_step x m keys) keys s = Inr s'"
      using s by (simp add: group_step_def gm wanted_keys_def)
    from floor_there_same [OF keys [OF this]] False show ?thesis by (simp add: floor_there_def)
  next
    case True
    then obtain c where "key_step x m keys (FAIL_UNDER, ?v) c = Inr s'"
      using s on by (auto simp: group_step_def gm wanted_keys_def foldE_app elim!: bindE_InrE)
    then have "key_held (FAIL_UNDER, ?v) s'"
      using on(1,3) v by (intro key_step_holds) (auto simp: gm FAIL_UNDER_def floor_ok_def is_dict_def)
    then show ?thesis using v
      by (auto simp: key_held_def floor_there_def agrees_def floor_ok_def is_dict_def split: json.splits)
  qed
qed

lemma groups_floor:
  assumes g: "toml_groups txt builtin x = Inr groups" and f: "foldE (group_step x seed) groups s = Inr s'"
    and on: "group_on x ''tests''" "seed" and v: "floor_ok (conf_at (t_conf x) [''tests'', ''coverage'', ''initial-floor''])"
  shows "floor_there s'"
proof -
  have "map fst groups = map fst GROUP_PATHS" by (simp add: group_paths [OF g, symmetric])
  then have "''tests'' \<in> fst ` set groups" and n: "distinct (map fst groups)"
    by (simp_all add: GROUP_PATHS_def flip: list.set_map)
  then obtain t where t: "t \<in> set groups" "fst t = ''tests''" by auto
  have "\<forall>h \<in> set groups. h = t \<longrightarrow> floor_there s'"
  proof (rule foldE_each [where P = "\<lambda>h b. h = t \<longrightarrow> floor_there b", OF f])
    show "distinct groups" using n by (metis distinct_map)
    show "h = t \<longrightarrow> floor_there b" if "h \<in> set groups" "group_step x seed h a = Inr b" for h a b
      using group_step_floor [OF g that on(1) on(2) _ v] t(2) by blast
    show "h = t \<longrightarrow> floor_there b"
      if h: "h \<in> set groups" "k \<in> set groups" "h \<noteq> k" "group_step x seed k a = Inr b" "h = t \<longrightarrow> floor_there a" for h k a b
    proof
      assume "h = t"
      with h n t have "fst k \<noteq> ''tests''" by (metis distinct_map inj_onD)
      obtain m keys where gm: "k = (m, keys)" by (cases k)
      with \<open>fst k \<noteq> ''tests''\<close> have w: "wanted_keys x seed m keys d = keys" for d by (simp add: wanted_keys_def)
      have "same_at FAIL_UNDER a b"
      proof (rule foldE_keeps [where Q = "same_at FAIL_UNDER a", OF _ _ same_at_refl])
        show "foldE (key_step x m keys) keys a = Inr b" using h(4) by (simp add: group_step_def gm w)
        fix kv c d assume kv: "kv \<in> set keys" "key_step x m keys kv c = Inr d" "same_at FAIL_UNDER a c"
        have "fst kv \<in> fst ` set (snd k)" using kv(1) by (simp add: gm)
        then have "same_at FAIL_UNDER c d"
          by (intro key_step_same [OF kv(2) group_path_apart(2) [OF g h(2)] _ parallel_sym [OF group_path_apart(3) [OF g h(2)]]])
            (simp_all add: FAIL_UNDER_def)
        with kv(3) show "same_at FAIL_UNDER a d" by (rule same_at_trans)
      qed
      with h(5) \<open>h = t\<close> show "floor_there b" using floor_there_same by blast
    qed
  qed
  with t(1) show ?thesis by blast
qed

definition whitelisted :: "toml_ctx \<Rightarrow> json \<Rightarrow> bool" where
  "whitelisted x doc \<longleftrightarrow>
     (\<exists>have. found doc (STATIC_ANALYSIS @ [''whitelist'']) = Some (JArr have) \<and>
        (\<forall>e \<in> set (map JStr (static_whitelist x)). list_ex (py_eq e) have))"

lemma whitelist_done:
  assumes "fst (snd (whitelist_step x s)) = []" "group_on x ''test-utils''"
  shows "whitelisted x (fst (whitelist_step x s))"
proof -
  obtain d m v where s: "s = (d, m, v)" by (cases s)
  have some: "add_missing p kvs ms \<noteq> []" for p kvs ms by (cases ms) (auto simp: add_missing_def)
  from assms obtain t where t: "table_at d STATIC_ANALYSIS = Some t"
    by (cases "table_at d STATIC_ANALYSIS") (auto simp: whitelist_step_def s some)
  let ?req = "map JStr (static_whitelist x)"
  define have' where "have' = (case entry t ''whitelist'' of
      JArr xs \<Rightarrow> xs @ filter (\<lambda>e. \<not> list_ex (py_eq e) xs) ?req | _ \<Rightarrow> ?req)"
  have doc: "fst (whitelist_step x s) = edit_at STATIC_ANALYSIS (AList.update ''whitelist'' (JArr have')) d"
    using assms(2) t by (auto simp: whitelist_step_def s have'_def Let_def split: json.splits)
  have "\<forall>e \<in> set ?req. list_ex (py_eq e) have'"
    by (auto simp: have'_def list_ex_iff split: json.splits)
  with found_edit_under [OF t, of "AList.update ''whitelist'' (JArr have')" "[''whitelist'']"] show ?thesis
    by (auto simp: whitelisted_def doc)
qed

lemma whitelist_again:
  assumes "group_on x ''test-utils'' \<Longrightarrow> whitelisted x doc"
  shows "whitelist_step x (doc, [], w) = (doc, [], w)"
proof (cases "group_on x ''test-utils''")
  case True
  then obtain have' where h: "found doc (STATIC_ANALYSIS @ [''whitelist'']) = Some (JArr have')"
    "\<forall>e \<in> set (map JStr (static_whitelist x)). list_ex (py_eq e) have'" using assms by (auto simp: whitelisted_def)
  then obtain t where t: "table_at doc STATIC_ANALYSIS = Some t" "map_of t ''whitelist'' = Some (JArr have')"
    by (auto simp: found_app table_at_def found.simps split: option.splits json.splits)
  have f: "filter (\<lambda>e. \<not> list_ex (py_eq e) have') (map JStr (static_whitelist x)) = []"
    using h(2) by (simp only: filter_empty_conv) blast
  have "edit_at STATIC_ANALYSIS (AList.update ''whitelist'' (JArr have')) doc = doc"
    by (rule edit_same) (use t in \<open>simp add: update_same\<close>)
  with True t show ?thesis by (simp add: whitelist_step_def entry_def f Let_def del: filter_map)
qed (simp add: whitelist_step_def)

lemma dynamic_again:
  assumes "group_on x ''metadata'' \<Longrightarrow> py_in (JStr ''version'') (toml_get doc [''project'', ''dynamic'']) = Inr True"
  shows "dynamic_step x (doc, [], w) = Inr (doc, [], w)"
proof (cases "group_on x ''metadata'' \<and> table_at doc [''project''] \<noteq> None")
  case True
  then obtain t where t: "table_at doc [''project''] = Some t" by blast
  have "found doc [''project'', ''dynamic''] = map_of t ''dynamic''"
    using t found_app [of doc "[''project'']" "[''dynamic'']"] by (simp add: table_at_Some split: option.splits)
  moreover have "py_in (JStr ''version'') (toml_get doc [''project'', ''dynamic'']) = Inr True" using True assms by blast
  ultimately obtain d where "map_of t ''dynamic'' = Some d" "py_in (JStr ''version'') d = Inr True"
    by (auto simp: toml_get_def py_in_def split: option.splits)
  with True t show ?thesis by (simp add: dynamic_step_def)
qed (auto simp: dynamic_step_def split: option.splits)

text \<open>A merge is settled after one run: when the tables it manages are there, merging the merged document again changes
  nothing and adds nothing, whatever keys it set or took back the first time.\<close>

theorem toml_merge_settles:
  assumes g: "toml_groups txt builtin x = Inr groups" and run: "merge_data x seed groups doc = Inr (doc', [], w)"
    and ok: "\<forall>g \<in> set groups. \<forall>pv \<in> set (snd g). rendered_ok (snd pv)"
    and floor: "floor_ok (conf_at (t_conf x) [''tests'', ''coverage'', ''initial-floor''])"
    and name: "found doc [''project'', ''name''] \<noteq> None"
  shows "\<exists>w'. merge_data x seed groups doc' = Inr (doc', [], w')"
proof -
  from run obtain s where s: "foldE (group_step x seed) groups (doc, [], []) = Inr s"
    "dynamic_step x (whitelist_step x s) = Inr (doc', [], w)" by (rule merge_data_runs)
  have floor': "toml_get doc' FAIL_UNDER \<noteq> JNull" if "group_on x ''tests''" "seed"
  proof -
    have "floor_there s" by (rule groups_floor [OF g s(1) that floor])
    moreover have "same_at FAIL_UNDER s (doc', [], w)"
      by (rule tail_same [OF s(2)]) (simp_all add: FAIL_UNDER_def STATIC_ANALYSIS_def parallel_def)
    ultimately have "floor_there (doc', [], w)" using floor_there_same by blast
    then show ?thesis by (simp add: floor_there_def missing_at_def)
  qed
  let ?R = "\<lambda>s :: tmerge. \<exists>w'. s = (doc', [], w')"
  have "\<exists>b. group_step x seed h a = Inr b \<and> ?R b" if h: "h \<in> set groups" and a: "?R a" for h a
  proof -
    obtain m keys where gm: "h = (m, keys)" by (cases h)
    have k: "wanted_keys x seed m keys doc' = keys" using floor' by (auto simp: wanted_keys_def)
    have "\<exists>b. foldE (key_step x m keys) keys a = Inr b \<and> ?R b"
    proof (rule foldE_stable [where R = ?R, OF _ a])
      fix pv c assume pv: "pv \<in> set keys" and c: "?R c"
      then obtain w1 where w1: "c = (doc', [], w1)" by blast
      have hp: "pv \<in> set (snd h)" using pv by (simp add: gm)
      have ks: "key_settled x h pv (doc', [], w)" using keys_settled [OF g run ok] h hp by blast
      have ne: "fst pv \<noteq> []" using group_path_apart(2) [OF g h] hp by blast
      have rok: "rendered_ok (snd pv)" using ok h hp by blast
      show "\<exists>b. key_step x m keys pv c = Inr b \<and> ?R b"
      proof (cases "group_on x m")
        case True
        then have "key_held pv (doc', [], w)" using ks by (simp add: key_settled_def gm)
        from held_is_set [OF this rok ne] True show ?thesis by (simp add: key_step_def w1)
      next
        case False
        then have "nothing_left x m pv doc'" using ks by (simp add: key_settled_def gm)
        from nothing_to_retract [OF this, of w1] False show ?thesis by (auto simp: key_step_def w1)
      qed
    qed
    with a k show ?thesis by (auto simp: group_step_def gm)
  qed
  then obtain w1 where w1: "foldE (group_step x seed) groups (doc', [], []) = Inr (doc', [], w1)"
    using foldE_stable [of groups ?R "group_step x seed" "(doc', [], [])"] by blast
  have ms: "fst (snd (whitelist_step x s)) = []"
    using s(2) by (auto simp: dynamic_step_def split: prod.splits option.splits if_splits json.splits elim!: bindE_InrE)
  have "found doc' (STATIC_ANALYSIS @ [''whitelist'']) = found (fst (whitelist_step x s)) (STATIC_ANALYSIS @ [''whitelist''])"
    using dynamic_found [OF s(2), of "STATIC_ANALYSIS @ [''whitelist'']"] by (simp add: STATIC_ANALYSIS_def parallel_def)
  then have "whitelist_step x (doc', [], w1) = (doc', [], w1)"
    using whitelist_done [OF ms] by (intro whitelist_again) (simp add: whitelisted_def)
  moreover have "dynamic_step x (doc', [], w1) = Inr (doc', [], w1)"
    using dynamic_version [OF g run name] by (intro dynamic_again) simp
  ultimately show ?thesis by (simp add: merge_data_def w1)
qed

section \<open>At a concrete app\<close>

definition sample_spec :: "string \<Rightarrow> (string \<times> string) list option" where
  "sample_spec s = (if s = ''>=15.0.0,<16.0.0'' then Some [(''>='', ''15.0.0''), (''<'', ''16.0.0'')] else None)"

definition sample_deps :: jtable where
  "sample_deps = [(''frappe'', JStr ''>=15.0.0,<16.0.0''), (''erpnext'', JStr ''>=15.0.0,<16.0.0'')]"

definition sample_synced :: json where
  "sample_synced = JObj [(''tool'', JObj [(''bench'', JObj [(''frappe-dependencies'', JObj (rev sample_deps))])])]"

lemma synced_dependencies_pass_the_gate_witness:
  "range_problems (\<lambda>_. []) sample_spec sample_builtin sample_synced [''erpnext''] 15 [] JNull = Inr []"
proof -
  obtain fr where fr: "resolve_sibling (\<lambda>_. []) (JStr ''frappe'') 15 sample_builtin = Inr fr" "s_range fr = JStr ''>=15.0.0,<16.0.0''"
  proof -
    have "case resolve_sibling (\<lambda>_. []) (JStr ''frappe'') 15 sample_builtin of Inl _ \<Rightarrow> False
      | Inr fr \<Rightarrow> s_range fr = JStr ''>=15.0.0,<16.0.0''" by code_simp
    then show ?thesis using that by (auto split: sum.splits)
  qed
  have apps: "known_merged sample_builtin [JNull] = Inr sample_builtin" by code_simp
  have deps: "bench_dependencies (\<lambda>_. []) sample_builtin sample_toml_ctx = Inr sample_deps" by code_simp
  have ctx: "t_major sample_toml_ctx = 15" "t_required sample_toml_ctx = [''erpnext'']" "t_siblings sample_toml_ctx = []"
    "t_range sample_toml_ctx = JStr ''>=15.0.0,<16.0.0''" by (simp_all add: sample_toml_ctx_def)
  have "sample_spec ''>=15.0.0,<16.0.0'' = Some [(''>='', ''15.0.0''), (''<'', ''16.0.0'')]" by code_simp
  moreover have "hd (split_on (CHR ''.'') ''15.0.0'') = show_nat 15" "\<not> is_lower_bound (''<'', ''16.0.0'')" by code_simp+
  ultimately have "proper_range sample_spec 15 (JStr ''>=15.0.0,<16.0.0'')" unfolding proper_range_def by simp
  then have proper: "\<forall>kv \<in> set sample_deps. proper_range sample_spec (t_major sample_toml_ctx) (snd kv)"
    by (simp add: sample_deps_def ctx)
  have exact: "exact_at sample_synced BENCH_DEPENDENCIES sample_deps"
    by (simp add: exact_at_def table_at_def sample_synced_def BENCH_DEPENDENCIES_def sample_deps_def agrees_def entry_def insert_commute)
  have own: "project_dependencies sample_synced = Inr []" "mapE bench_named_in [] = Inr []" "concat [] = []"
    by (code_simp, simp_all)
  have names: "\<forall>sp \<in> set (t_required sample_toml_ctx). bare sp \<noteq> ''frappe''"
    by (simp add: ctx) code_simp
  show ?thesis
    using synced_dependencies_pass_the_gate [where x = sample_toml_ctx, unfolded ctx, OF apps fr(1) fr(2) [symmetric]
        deps proper [unfolded ctx] exact own names [unfolded ctx]] by simp
qed

lemma toml_merge_settles_witness:
  "\<exists>groups doc' w w'. toml_groups (\<lambda>_. []) sample_builtin sample_toml_ctx = Inr groups \<and>
     merge_data sample_toml_ctx True groups sample_toml_doc = Inr (doc', [], w) \<and>
     merge_data sample_toml_ctx True groups doc' = Inr (doc', [], w')"
proof -
  obtain groups doc' w where r: "toml_groups (\<lambda>_. []) sample_builtin sample_toml_ctx = Inr groups"
    "merge_data sample_toml_ctx True groups sample_toml_doc = Inr (doc', [], w)"
    "\<forall>g \<in> set groups. \<forall>pv \<in> set (snd g). rendered_ok (snd pv)"
    using sample_merge_runs unfolding rendered_ok_def by blast
  have "floor_ok (conf_at (t_conf sample_toml_ctx) [''tests'', ''coverage'', ''initial-floor''])" by code_simp
  moreover have "found sample_toml_doc [''project'', ''name''] \<noteq> None" by code_simp
  ultimately show ?thesis using toml_merge_settles [OF r] r by blast
qed

end
