(* ===== verification/RepoPolicy.thy ===== *)
theory RepoPolicy
  imports CiGithub Config "HOL-Library.List_Lexorder" "HOL-Library.Char_ord"
begin

text \<open>
  \<^verbatim>\<open>common/repo_policy.py\<close>: the settings, labels and rulesets an app's configuration asks of its repository,
  rendered from JSON with placeholders.  Parameters: the policy files, and \<open>txt\<close>, Python's text of a value
  that is not a string.
\<close>

section \<open>Placeholders\<close>

definition name_char :: "char \<Rightarrow> bool" where "name_char c \<longleftrightarrow> is_lower c \<or> c = CHR ''_''"

text \<open>A placeholder at the start of a text: its name and what follows.\<close>

definition placeholder :: "string \<Rightarrow> (string \<times> string) option" where
  "placeholder s =
     (case s of
        c # s1 \<Rightarrow>
          if c \<noteq> CHR ''{'' then None
          else (let n = takeWhile name_char s1; r = drop (length n) s1 in
            if n = [] then None
            else if startswith r ''}'' then Some (n, tl r)
            else if startswith r '' in '' then
              (let l = takeWhile name_char (drop 4 r); r' = drop (4 + length l) r
               in if l \<noteq> [] \<and> startswith r' ''}'' then Some (n @ '' in '' @ l, tl r') else None)
            else None)
      | [] \<Rightarrow> None)"

lemma placeholder_shorter:
  assumes "placeholder s = Some (n, r)"
  shows "length r < length s"
proof -
  have "length (tl (drop m t)) \<le> length t" for m :: nat and t :: string by simp
  with assms show ?thesis by (auto simp: placeholder_def Let_def less_Suc_eq_le split: list.splits if_splits)
qed

text \<open>\<^verbatim>\<open>_WHOLE\<close>: the whole value (or all but a last newline).\<close>

definition whole_placeholder :: "string \<Rightarrow> string option" where
  "whole_placeholder s =
     (case placeholder s of Some (n, r) \<Rightarrow> if r = [] \<or> r = [newline] then Some n else None | None \<Rightarrow> None)"

definition lookup_value :: "jtable \<Rightarrow> string \<Rightarrow> exn + json" where
  "lookup_value vals name =
     (case split_on (CHR '' '') name of
        [meth, _, listed] \<Rightarrow>
          (case map_of vals listed of
             None \<Rightarrow> Inl (ConfigError ''no value for a placeholder'')
           | Some v \<Rightarrow> bindE (py_in (JStr meth) v) (\<lambda>b. Inr (JBool b)))
      | _ \<Rightarrow> (case map_of vals name of None \<Rightarrow> Inl (ConfigError ''no value for a placeholder'') | Some v \<Rightarrow> Inr v))"

function fill_parts :: "(json \<Rightarrow> string) \<Rightarrow> jtable \<Rightarrow> string \<Rightarrow> exn + string" where
  "fill_parts txt vals s =
     (case placeholder s of
        Some (n, r) \<Rightarrow>
          bindE (lookup_value vals n) (\<lambda>v. bindE (fill_parts txt vals r) (\<lambda>u.
            Inr ((case v of JStr t \<Rightarrow> t | _ \<Rightarrow> txt v) @ u)))
      | None \<Rightarrow> (case s of [] \<Rightarrow> Inr [] | c # r \<Rightarrow> bindE (fill_parts txt vals r) (\<lambda>u. Inr (c # u))))"
  by pat_completeness auto
termination
  by (relation "measure (\<lambda>(t, v, s). length s)") (auto dest: placeholder_shorter)

declare fill_parts.simps [simp del]

function fill_value :: "(json \<Rightarrow> string) \<Rightarrow> jtable \<Rightarrow> json \<Rightarrow> exn + json" where
  "fill_value txt vals v =
     (case v of
        JObj kvs \<Rightarrow> bindE (mapE (\<lambda>(k, w). bindE (fill_value txt vals w) (\<lambda>w'. Inr (k, w'))) kvs) (\<lambda>kvs'. Inr (JObj kvs'))
      | JArr xs \<Rightarrow> bindE (mapE (fill_value txt vals) xs) (\<lambda>xs'. Inr (JArr xs'))
      | JStr s \<Rightarrow> (case whole_placeholder s of
            Some n \<Rightarrow> lookup_value vals n
          | None \<Rightarrow> bindE (fill_parts txt vals s) (\<lambda>t. Inr (JStr t)))
      | _ \<Rightarrow> Inr v)"
  by pat_completeness auto
termination
  by (relation "measure (\<lambda>(t, vals, v). size v)") (auto dest!: json_size_obj json_size_arr simp del: json.size)

declare fill_value.simps [simp del]

section \<open>The values\<close>

definition GATE_ORDER :: "string list" where
  "GATE_ORDER = [''pr-policy'', ''lint'', ''typecheck'', ''test'', ''marketplace'']"

definition ACTIONS_APP_ID :: int where "ACTIONS_APP_ID = 15368"

text \<open>\<^verbatim>\<open>cfg.get("repo-policy", {}).get(key, default)\<close>, and of the releases.\<close>

definition cfg_get :: "json \<Rightarrow> string \<Rightarrow> string \<Rightarrow> json \<Rightarrow> exn + json" where
  "cfg_get cfg tbl key d = bindE (dget cfg tbl (JObj [])) (\<lambda>t. dget t key d)"

definition required_check :: "string \<Rightarrow> json" where
  "required_check g = JObj [(''context'', JStr (''ci / '' @ g)), (''integration_id'', JInt ACTIONS_APP_ID)]"

definition required_checks :: "json \<Rightarrow> string list \<Rightarrow> exn + json list" where
  "required_checks cfg gates =
     bindE (cfg_get cfg ''repo-policy'' ''required-checks'' (JStr ''gates'')) (\<lambda>want.
     bindE (if want = JStr ''gates'' then Inr (map JStr gates)
            else bindE (iter want) (\<lambda>ws.
              if \<not> list_all (\<lambda>w. list_ex (py_eq w) (map JStr gates)) ws
              then Inl (ConfigError ''repo-policy.required-checks names gates that are not enabled'')
              else Inr ws)) (\<lambda>names.
       Inr (map required_check (filter (\<lambda>g. list_ex (py_eq (JStr g)) names) GATE_ORDER))))"

definition bypass_actors :: "json \<Rightarrow> exn + json" where
  "bypass_actors rb =
     (let actor = (\<lambda>ty n. JArr [JObj [(''actor_type'', JStr ty), (''actor_id'', JInt n), (''bypass_mode'', JStr ''always'')]]);
          bad = Inl (ConfigError ''repo-policy.release-bypass is github-actions or user:<id>'')
      in if rb = JStr ''github-actions'' then Inr (actor ''Integration'' ACTIONS_APP_ID)
         else case jor rb (JStr []) of
             JStr s \<Rightarrow>
               (let n = drop 5 s in
                if startswith s ''user:'' \<and> n \<noteq> [] \<and> list_all is_digit n
                then Inr (actor ''User'' (int (int_of_digits n))) else bad)
           | _ \<Rightarrow> Inl TypeError)"

definition policy_values :: "(json \<Rightarrow> string) \<Rightarrow> json \<Rightarrow> string list \<Rightarrow> json \<Rightarrow> exn + jtable" where
  "policy_values txt cfg gates documentation =
     (let rp = cfg_get cfg ''repo-policy'' in
      bindE (cfg_get cfg ''releases'' ''tag-prefix'' (JStr ''v'')) (\<lambda>prefix.
      bindE (ditem cfg ''integration-branch'') (\<lambda>branch.
      bindE (bindE (rp ''merge-methods'' (JArr [JStr ''squash''])) iter) (\<lambda>methods.
      bindE (rp ''required-approvals'' (JInt 1)) (\<lambda>approvals.
      bindE (rp ''require-code-owner-review'' (JBool False)) (\<lambda>owner.
      bindE (rp ''require-thread-resolution'' (JBool True)) (\<lambda>threads.
      bindE (rp ''delete-branch-on-merge'' (JBool True)) (\<lambda>del.
      bindE (required_checks cfg gates) (\<lambda>checks.
      bindE (bindE (rp ''release-bypass'' (JStr ''github-actions'')) bypass_actors) (\<lambda>bypass.
        Inr [(''integration_branch'', branch), (''merge_methods'', JArr methods), (''required_approvals'', approvals),
             (''require_code_owner_review'', owner), (''require_thread_resolution'', threads),
             (''delete_branch_on_merge'', del), (''required_checks'', JArr checks), (''release_bypass'', bypass),
             (''tag_prefix'', prefix),
             (''tag_pattern'', JStr (if truthy prefix then ''refs/tags/'' @ (case prefix of JStr s \<Rightarrow> s | _ \<Rightarrow> txt prefix) @ ''*''
                                     else ''refs/tags/[0-9]*'')),
             (''documentation'', documentation)]))))))))))"

section \<open>The policy of an app\<close>

record repo_policy =
  p_repository :: jtable
  p_workflow :: json
  p_alerts :: json
  p_fixes :: json
  p_labels :: "json list"
  p_rulesets :: "json list"

text \<open>The policy's files: whether a profile's override is a symlink, the override (the profile's templates), and
  the directory's own.\<close>

record policy_files =
  f_link :: "string \<Rightarrow> bool"
  f_over :: "string \<Rightarrow> work_file"
  f_dir :: "string \<Rightarrow> work_file"
  f_rulesets :: "string list"

definition SETTINGS :: string where "SETTINGS = ''repo-settings.json''"

definition read_json_file :: "work_file \<Rightarrow> exn + json" where
  "read_json_file f =
     (case f of
        Missing \<Rightarrow> Inl (ConfigError ''does not exist'')
      | Unreadable \<Rightarrow> Inl (ConfigError ''is unreadable'')
      | Text s \<Rightarrow> (case loads s of None \<Rightarrow> Inl (ConfigError ''is not JSON'') | Some v \<Rightarrow> Inr v))"

definition read_policy_file :: "policy_files \<Rightarrow> bool \<Rightarrow> string \<Rightarrow> exn + json" where
  "read_policy_file pf overrides rel =
     (if overrides \<and> f_link pf rel then Inl (ConfigError ''the profile's repo-policy file is a symlink'')
      else if overrides \<and> f_over pf rel \<noteq> Missing then read_json_file (f_over pf rel)
      else read_json_file (f_dir pf rel))"

definition LABEL_MODULES :: "(string \<times> string) list" where
  "LABEL_MODULES = [(''dependencies'', ''dependabot''), (''needs-review'', ''dependabot''), (''screenshots'', ''screenshots'')]"

text \<open>A label frappe-nix knows needs its module; another is always wanted.\<close>

definition label_wanted :: "(string \<Rightarrow> bool) \<Rightarrow> json \<Rightarrow> exn + bool" where
  "label_wanted modules label =
     bindE (dget label ''name'' (JStr [])) (\<lambda>n.
       Inr (case n of
              JStr s \<Rightarrow> (case map_of LABEL_MODULES s of Some m \<Rightarrow> modules m | None \<Rightarrow> True)
            | _ \<Rightarrow> True))"

definition list_get :: "json \<Rightarrow> string \<Rightarrow> exn + json list" where
  "list_get doc key = bindE (dget doc key (JArr [])) iter"

definition settings_policy ::
  "(json \<Rightarrow> string) \<Rightarrow> json \<Rightarrow> jtable \<Rightarrow> json \<Rightarrow> (string \<Rightarrow> bool) \<Rightarrow> exn + repo_policy" where
  "settings_policy txt doc vals cfg modules =
     (let rp = (\<lambda>k. cfg_get cfg ''repo-policy'' k (JBool True)) in
      bindE (bindE (dget doc ''repository'' (JObj [])) table_of) (\<lambda>repo0.
      bindE (rp ''manage-default-branch'') (\<lambda>d. bindE (rp ''manage-features'') (\<lambda>f. bindE (rp ''secret-scanning'') (\<lambda>ss.
      let repo1 = without ((if truthy d then [] else [''default_branch'']) @ (if truthy f then [] else [''has_wiki'', ''has_projects'']) @
            (if truthy (entry vals ''documentation'') then [] else [''homepage'']) @
            (if truthy ss then [] else [''security_and_analysis''])) repo0
      in bindE (list_get doc ''labels'') (\<lambda>ls. bindE (filterE (label_wanted modules) ls) (\<lambda>labels.
         bindE (bindE (fill_value txt vals (JObj repo1)) table_of) (\<lambda>repo2.
         bindE (bindE (dget doc ''actions_workflow_permissions'' JNull) (fill_value txt vals)) (\<lambda>wf.
         bindE (dget doc ''vulnerability_alerts'' JNull) (\<lambda>va. bindE (dget doc ''automated_security_fixes'' JNull) (\<lambda>af.
         bindE (mapE (fill_value txt vals) labels) (\<lambda>labels'.
           Inr \<lparr>p_repository = repo2, p_workflow = wf, p_alerts = va, p_fixes = af, p_labels = labels', p_rulesets = []\<rparr>))))))))))))"

text \<open>\<^verbatim>\<open>_strip_status_checks\<close>: a rule that requires no check is left out.\<close>

definition empty_checks :: "json \<Rightarrow> exn + bool" where
  "empty_checks r =
     bindE (dget r ''type'' JNull) (\<lambda>ty.
       if ty \<noteq> JStr ''required_status_checks'' then Inr False
       else bindE (ditem r ''parameters'') (\<lambda>p. bindE (ditem p ''required_status_checks'') (\<lambda>cs. Inr (\<not> truthy cs))))"

definition strip_status_checks :: "json \<Rightarrow> exn + json" where
  "strip_status_checks ruleset =
     bindE (list_get ruleset ''rules'') (\<lambda>rules.
     bindE (filterE (\<lambda>r. bindE (empty_checks r) (\<lambda>b. Inr (\<not> b))) rules) (\<lambda>kept.
     bindE (table_of ruleset) (\<lambda>t. Inr (JObj (AList.update ''rules'' (JArr kept) t)))))"

definition ruleset_names :: "string \<Rightarrow> string \<Rightarrow> (string \<Rightarrow> bool) \<Rightarrow> string list" where
  "ruleset_names phase release_branch modules =
     (if phase = ''provisional'' then [''integration-provisional.json''] else [''integration.json'']) @
     (if phase = ''full'' then
        (if release_branch \<noteq> [] then [''release-branch.json''] else []) @ (if modules ''releases'' then [''tags.json''] else [])
      else [])"

definition for_app ::
  "(json \<Rightarrow> string) \<Rightarrow> policy_files \<Rightarrow> bool \<Rightarrow> json \<Rightarrow> (string \<Rightarrow> bool) \<Rightarrow> string list \<Rightarrow> string \<Rightarrow> string \<Rightarrow> json \<Rightarrow> exn + repo_policy" where
  "for_app txt pf overrides cfg modules gates phase release_branch documentation =
     bindE (policy_values txt cfg gates documentation) (\<lambda>vals.
     bindE (read_policy_file pf overrides SETTINGS) (\<lambda>doc.
     bindE (settings_policy txt doc vals cfg modules) (\<lambda>p.
     bindE (mapE (\<lambda>n. bindE (read_policy_file pf overrides (''rulesets/'' @ n)) (\<lambda>d.
              bindE (fill_value txt vals d) strip_status_checks)) (ruleset_names phase release_branch modules)) (\<lambda>rs.
       Inr (p\<lparr>p_rulesets := rs\<rparr>)))))"

text \<open>\<^verbatim>\<open>from_dir\<close>: a whole directory's policy, every ruleset in it; \<^const>\<open>f_rulesets\<close> is \<^verbatim>\<open>ruleset_files\<close>.\<close>

definition from_dir :: "(json \<Rightarrow> string) \<Rightarrow> policy_files \<Rightarrow> jtable \<Rightarrow> exn + repo_policy" where
  "from_dir txt pf vals =
     bindE (if f_dir pf SETTINGS = Missing then Inr (JObj []) else read_json_file (f_dir pf SETTINGS)) (\<lambda>s.
     bindE (bindE (bindE (dget s ''repository'' (JObj [])) (fill_value txt vals)) table_of) (\<lambda>repo.
     bindE (bindE (dget s ''actions_workflow_permissions'' JNull) (fill_value txt vals)) (\<lambda>wf.
     bindE (dget s ''vulnerability_alerts'' JNull) (\<lambda>va. bindE (dget s ''automated_security_fixes'' JNull) (\<lambda>af.
     bindE (bindE (bindE (dget s ''labels'' (JArr [])) (fill_value txt vals)) iter) (\<lambda>labels.
     bindE (mapE (\<lambda>n. bindE (read_json_file (f_dir pf n)) (\<lambda>d. bindE (fill_value txt vals d) strip_status_checks)) (f_rulesets pf)) (\<lambda>rs.
       Inr \<lparr>p_repository = repo, p_workflow = wf, p_alerts = va, p_fixes = af, p_labels = labels, p_rulesets = rs\<rparr>)))))))"

end
