(* ===== verification/Targets.thy ===== *)
theory Targets
  imports RepoPolicy
begin

text \<open>
  \<^verbatim>\<open>commands/repo/targets.py\<close>: what the \<^verbatim>\<open>repo\<close> commands work on.  A repository is cloned and its configuration is
  resolved from the clone, or, when it has not opted in, from a profile.  \<^verbatim>\<open>git\<close> is a program like \<^verbatim>\<open>gh\<close>
  (CiGithub.thy), logged the same way; temporary directories to remove are part of the state.
\<close>

section \<open>Targets\<close>

record app_config =
  ac_app :: string
  ac_resolved :: resolved
  ac_gates :: "string list"

text \<open>\<^verbatim>\<open>branches.release\<close>: \<open>txt\<close> is Python's text of a value that is not a string.\<close>

definition text_with :: "(json \<Rightarrow> string) \<Rightarrow> json \<Rightarrow> string" where
  "text_with txt v = (case v of JStr s \<Rightarrow> s | _ \<Rightarrow> txt v)"

definition release_branch_of :: "(json \<Rightarrow> string) \<Rightarrow> json \<Rightarrow> (string \<Rightarrow> bool) \<Rightarrow> exn + string" where
  "release_branch_of txt cfg modules =
     (if \<not> modules ''releases'' then Inr []
      else bindE (bindE (ditem cfg ''releases'') (\<lambda>r. ditem r ''branching'')) (\<lambda>b.
           if b \<noteq> JStr ''develop+version'' then Inr []
           else bindE (ditem cfg ''frappe-major'') (\<lambda>m. Inr (''version-'' @ text_with txt m))))"

definition ac_integration :: "app_config \<Rightarrow> exn + json" where
  "ac_integration a = ditem (r_cfg (ac_resolved a)) ''integration-branch''"

definition ac_release_branch :: "(json \<Rightarrow> string) \<Rightarrow> app_config \<Rightarrow> exn + string" where
  "ac_release_branch txt a = release_branch_of txt (r_cfg (ac_resolved a)) (r_modules (ac_resolved a))"

record target =
  t_repo :: string
  t_entry :: json
  t_root :: "string option"
  t_opted_in :: bool
  t_app :: "app_config option"
  t_resolved :: "resolved option"
  t_gates :: "string list"
  t_profile_dir :: "string option"

definition new_target :: "string \<Rightarrow> json \<Rightarrow> target" where
  "new_target r e = \<lparr>t_repo = r, t_entry = e, t_root = None, t_opted_in = False, t_app = None, t_resolved = None,
     t_gates = [], t_profile_dir = None\<rparr>"

definition t_cfg :: "target \<Rightarrow> json" where
  "t_cfg t = (case t_resolved t of Some r \<Rightarrow> r_cfg r | None \<Rightarrow> JObj [])"

definition t_modules :: "target \<Rightarrow> string \<Rightarrow> bool" where
  "t_modules t = (case t_resolved t of Some r \<Rightarrow> r_modules r | None \<Rightarrow> (\<lambda>_. False))"

definition t_integration :: "target \<Rightarrow> exn + json" where
  "t_integration t = dget (t_cfg t) ''integration-branch'' (JStr [])"

definition t_release_branch :: "(json \<Rightarrow> string) \<Rightarrow> target \<Rightarrow> exn + string" where
  "t_release_branch txt t = release_branch_of txt (t_cfg t) (t_modules t)"

section \<open>The fleet list\<close>

text \<open>\<open>errs\<close> is the fleet schema's validator (Schema.thy models it).\<close>

definition load_fleet :: "(json \<Rightarrow> string list) \<Rightarrow> (string \<Rightarrow> work_file) \<Rightarrow> string \<Rightarrow> exn + json" where
  "load_fleet errs files path =
     (if path = [] then Inl (ConfigError ''--all needs --fleet'')
      else case files path of
          Missing \<Rightarrow> Inl (ConfigError ''--fleet: no such file'')
        | Unreadable \<Rightarrow> Inl (ConfigError ''--fleet is unreadable'')
        | Text s \<Rightarrow> (case loads s of
              None \<Rightarrow> Inl (ConfigError ''--fleet is not JSON'')
            | Some doc \<Rightarrow> if errs doc \<noteq> [] then Inl (ConfigError (join ''; '' (errs doc))) else Inr doc))"

definition str_item :: "json \<Rightarrow> string \<Rightarrow> exn + string" where
  "str_item v k = bindE (ditem v k) (\<lambda>x. case x of JStr s \<Rightarrow> Inr s | _ \<Rightarrow> Inl AttributeError)"

definition owner_repo :: "string \<Rightarrow> bool" where
  "owner_repo r \<longleftrightarrow> count_list r (CHR ''/'') = 1 \<and> list_all (\<lambda>p. p \<noteq> []) (split_on (CHR ''/'') r)"

definition fleet_entries ::
  "(json \<Rightarrow> string list) \<Rightarrow> (string \<Rightarrow> work_file) \<Rightarrow> string list \<Rightarrow> bool \<Rightarrow> string \<Rightarrow> exn + (string \<times> json) list \<times> json" where
  "fleet_entries errs files repos every path =
     bindE (if every \<or> path \<noteq> [] then load_fleet errs files path else Inr (JObj [])) (\<lambda>fleet.
     bindE (list_get fleet ''apps'') (\<lambda>apps.
     bindE (mapE (\<lambda>a. bindE (str_item a ''repo'') (\<lambda>r. Inr (r, a))) apps) (\<lambda>named.
     let by_repo = dict_of (map (\<lambda>(r, a). (lower r, a)) named) in
       if every then (if repos \<noteq> [] then Inl (ConfigError ''give repositories or --all, not both'') else Inr (named, fleet))
       else if repos = [] then Inl (ConfigError ''give one or more <owner/repo>, or --all --fleet <file>'')
       else if \<not> list_all owner_repo repos then Inl (ConfigError ''not <owner/repo>'')
       else Inr (map (\<lambda>r. (r, case map_of by_repo (lower r) of Some a \<Rightarrow> a | None \<Rightarrow> JObj [])) repos, fleet))))"

section \<open>Clones\<close>

type_synonym 'w repo_st = "'w ghst \<times> string list"

text \<open>The environment: the \<^verbatim>\<open>git\<close> program, \<^verbatim>\<open>mkdtemp\<close>, an app's \<^verbatim>\<open>pyproject.toml\<close> and its parser, \<^verbatim>\<open>appgates.load\<close>,
  \<^verbatim>\<open>config.org_profile_dir\<close> of a checkout, and \<^verbatim>\<open>config.resolve_doc\<close> with a profile's directory.\<close>

record 'w target_env =
  te_git :: "'w gh"
  te_tmp :: "'w \<Rightarrow> string \<Rightarrow> string \<times> 'w"
  te_pyproject :: "'w \<Rightarrow> string \<Rightarrow> work_file"
  te_toml :: "string \<Rightarrow> json option"
  te_load :: "'w \<Rightarrow> string \<Rightarrow> exn + app_config"
  te_org_dir :: "'w \<Rightarrow> string \<Rightarrow> string \<Rightarrow> exn + string"
  te_resolve :: "'w \<Rightarrow> string option \<Rightarrow> json \<Rightarrow> exn + resolved"

definition run_git :: "'w gh \<Rightarrow> string list \<Rightarrow> ('w ghst, proc_result) prog" where
  "run_git git args =
     (\<lambda>s. case git (world s) (''git'' # args) None of
        (r, w) \<Rightarrow>
          ((case r of None \<Rightarrow> Inl (EnvError ''git is not on PATH'') | Some p \<Rightarrow> Inr p),
           s\<lparr>world := w, calls := calls s @ [(''git'' # args, None)]\<rparr>))"

definition in_world :: "('w \<Rightarrow> 'a) \<Rightarrow> ('w ghst, 'a) prog" where
  "in_world f = (\<lambda>s. (Inr (f (world s)), s))"

definition mkdtemp :: "('w \<Rightarrow> string \<Rightarrow> string \<times> 'w) \<Rightarrow> string \<Rightarrow> ('w repo_st, string) prog" where
  "mkdtemp tmp pre =
     (\<lambda>(s, temps). case tmp (world s) pre of (d, w) \<Rightarrow> (Inr d, (s\<lparr>world := w\<rparr>, temps @ [d])))"

definition clone_args :: "string \<Rightarrow> string option \<Rightarrow> nat option \<Rightarrow> string \<Rightarrow> string list" where
  "clone_args repo branch dep dest =
     [''-c'', ''credential.helper='', ''-c'', ''credential.helper=!gh auth git-credential'', ''clone'', ''-q''] @
     (case dep of Some d \<Rightarrow> if d = 0 then [] else [''--depth'', show_nat d] | None \<Rightarrow> []) @
     (case branch of Some b \<Rightarrow> if b = [] then [] else [''--branch'', b] | None \<Rightarrow> []) @
     [''https://github.com/'' @ repo @ ''.git'', dest @ ''/repo'']"

definition clone :: "'w target_env \<Rightarrow> string \<Rightarrow> string option \<Rightarrow> nat option \<Rightarrow> ('w repo_st, string option) prog" where
  "clone E repo branch dep =
     bindP (mkdtemp (te_tmp E) ''frappe-nix-repo-'') (\<lambda>dest.
     bindP (on_fst (run_git (te_git E) (clone_args repo branch dep dest))) (\<lambda>p.
       if code p = 0 then ret (Some (dest @ ''/repo''))
       else if branch \<noteq> None \<and> branch \<noteq> Some [] \<and> contains_sub ''not found in upstream'' (stderr p) then ret None
       else raise (EnvError ''git clone failed'')))"

text \<open>\<^verbatim>\<open>git -C\<close>'s working directory is part of the call here.\<close>

definition clone_branch :: "'w target_env \<Rightarrow> string \<Rightarrow> ('w repo_st, string) prog" where
  "clone_branch E tree =
     bindP (on_fst (run_git (te_git E) [''-C'', tree, ''rev-parse'', ''--abbrev-ref'', ''HEAD''])) (\<lambda>p. ret (strip (stdout p)))"

text \<open>A profile reference: its URL and branch.\<close>

definition forge_ref :: "string \<Rightarrow> string \<Rightarrow> exn + string \<times> string option" where
  "forge_ref host rest =
     (case split_on (CHR ''/'') rest of
        owner # name # parts \<Rightarrow>
          Inr (''https://'' @ host @ ''/'' @ owner @ ''/'' @ name @ ''.git'',
               let b = join ''/'' parts in if b = [] then None else Some b)
      | _ \<Rightarrow> Inl IndexError)"

definition profile_ref :: "string \<Rightarrow> exn + string \<times> string option" where
  "profile_ref ref =
     (if startswith ref ''github:'' then forge_ref ''github.com'' (removeprefix ref ''github:'')
      else if startswith ref ''gitlab:'' then forge_ref ''gitlab.com'' (removeprefix ref ''gitlab:'')
      else if startswith ref ''git+https://'' then
        (let (base, _, query) = partition1 (CHR ''?'') (removeprefix ref ''git+'');
             kvs = concat (map (\<lambda>p. case partition1 (CHR ''='') p of (k, True, v) \<Rightarrow> [(k, v)] | _ \<Rightarrow> []) (split_on (CHR ''&'') query))
         in Inr (base, map_of (rev kvs) ''ref''))
      else Inl (ConfigError ''not a github:, gitlab: or git+https:// reference''))"

definition fetch_profile :: "'w target_env \<Rightarrow> string \<Rightarrow> ('w repo_st, string) prog" where
  "fetch_profile E ref =
     bindP (liftE (profile_ref ref)) (\<lambda>(url, branch).
     bindP (mkdtemp (te_tmp E) ''frappe-nix-profile-'') (\<lambda>dest.
     bindP (on_fst (run_git (te_git E) ([''clone'', ''-q'', ''--depth'', ''1''] @
              (case branch of Some b \<Rightarrow> if b = [] then [] else [''--branch'', b] | None \<Rightarrow> []) @ [url, dest @ ''/p'']))) (\<lambda>p.
       if code p \<noteq> 0 then raise (EnvError ''fetching the profile failed'') else ret (dest @ ''/p''))))"

text \<open>\<^verbatim>\<open>cleanup\<close>: every temporary directory, the last one first.\<close>

fun remove_last :: "('w \<Rightarrow> string \<Rightarrow> 'w) \<Rightarrow> string list \<Rightarrow> 'w \<Rightarrow> 'w" where
  "remove_last rmtree [] w = w"
| "remove_last rmtree (d # ds) w = remove_last rmtree ds (rmtree w d)"

definition cleanup :: "('w \<Rightarrow> string \<Rightarrow> 'w) \<Rightarrow> ('w repo_st, unit) prog" where
  "cleanup rmtree = (\<lambda>(s, temps). (Inr (), (s\<lparr>world := remove_last rmtree (rev temps) (world s)\<rparr>, [])))"

section \<open>Resolution\<close>

definition tree_opted_in :: "'w target_env \<Rightarrow> string \<Rightarrow> ('w repo_st, bool) prog" where
  "tree_opted_in E tree =
     bindP (on_fst (in_world (\<lambda>w. te_pyproject E w tree))) (\<lambda>f.
       case f of
         Missing \<Rightarrow> ret False
       | Unreadable \<Rightarrow> ret False
       | Text s \<Rightarrow> (case te_toml E s of None \<Rightarrow> ret False | Some doc \<Rightarrow>
           liftE (bindE (tool_frappe_nix doc) (\<lambda>t. Inr (t \<noteq> None)))))"

definition profile_table :: "string \<Rightarrow> string \<Rightarrow> json \<Rightarrow> json" where
  "profile_table repo ref integration =
     JObj [(''tool'', JObj [(''frappe-nix'', JObj ([(''schema'', JInt 1), (''profile'', JStr ref), (''frappe-major'', JInt 16),
        (''repo'', JStr repo)] @ (if truthy integration then [(''integration-branch'', integration)] else [])))])]"

definition resolve_profile ::
  "'w target_env \<Rightarrow> string \<Rightarrow> string \<Rightarrow> json \<Rightarrow> ('w repo_st, resolved \<times> string option) prog" where
  "resolve_profile E repo ref integration =
     (let doc = profile_table repo ref integration;
          resolve = (\<lambda>dir. bindP (on_fst (in_world (\<lambda>w. te_resolve E w dir doc))) liftE)
      in if is_builtin ref then bindP (resolve None) (\<lambda>r. ret (r, None))
         else bindP (fetch_profile E ref) (\<lambda>dir. bindP (resolve (Some dir)) (\<lambda>r. ret (r, Some dir))))"

definition app_at :: "'w target_env \<Rightarrow> string \<Rightarrow> ('w repo_st, app_config) prog" where
  "app_at E tree = bindP (on_fst (in_world (\<lambda>w. te_load E w tree))) liftE"

text \<open>The clone of the integration branch, when the default branch is another one.\<close>

definition integration_clone ::
  "'w target_env \<Rightarrow> string \<Rightarrow> string \<Rightarrow> app_config \<Rightarrow> ('w repo_st, string \<times> app_config) prog" where
  "integration_clone E repo tree app =
     bindP (liftE (ac_integration app)) (\<lambda>i.
       if \<not> truthy i then ret (tree, app)
       else bindP (clone_branch E tree) (\<lambda>head.
         if head = [] \<or> JStr head = i then ret (tree, app)
         else (case i of
             JStr branch \<Rightarrow>
               bindP (clone E repo (Some branch) (Some 1)) (\<lambda>other. case other of
                 None \<Rightarrow> ret (tree, app)
               | Some o_root \<Rightarrow> bindP (tree_opted_in E o_root) (\<lambda>ok.
                   if ok then bindP (app_at E o_root) (\<lambda>o_app. ret (o_root, o_app)) else ret (tree, app)))
           | _ \<Rightarrow> raise TypeError)))"

definition load_opted ::
  "'w target_env \<Rightarrow> target \<Rightarrow> string \<Rightarrow> ('w repo_st, target) prog" where
  "load_opted E t root0 =
     bindP (app_at E root0) (\<lambda>app0.
     bindP (integration_clone E (t_repo t) root0 app0) (\<lambda>(tree, app).
     let t' = t\<lparr>t_root := Some tree, t_opted_in := True, t_app := Some app, t_resolved := Some (ac_resolved app),
                t_gates := ac_gates app\<rparr>;
         source = fst (snd (r_profile (ac_resolved app)))
     in if source = ''builtin'' then ret t'
        else bindP (catch (bindP (on_fst (in_world (\<lambda>w. te_org_dir E w source tree))) (\<lambda>r. bindP (liftE r) (\<lambda>d. ret (Some d))))
                      (\<lambda>e. case e of ConfigError _ \<Rightarrow> ret None | _ \<Rightarrow> if is_env_error e then ret None else raise e))
               (\<lambda>d. ret (t'\<lparr>t_profile_dir := d\<rparr>))))"

text \<open>A repository that has not opted in: its profile, when one is named.\<close>

definition load_profile ::
  "'w target_env \<Rightarrow> target \<Rightarrow> json \<Rightarrow> json \<Rightarrow> ('w repo_st, target) prog" where
  "load_profile E t ref integration =
     (if \<not> truthy ref then ret t
      else case ref of
          JStr s \<Rightarrow> bindP (resolve_profile E (t_repo t) s integration) (\<lambda>(r, d). ret (t\<lparr>t_resolved := Some r, t_profile_dir := d\<rparr>))
        | _ \<Rightarrow> raise AttributeError)"

definition load_target ::
  "'w target_env \<Rightarrow> string \<Rightarrow> json \<Rightarrow> json \<Rightarrow> json \<Rightarrow> ('w repo_st, target) prog" where
  "load_target E repo ent fleet profile =
     bindP (clone E repo None (Some 1)) (\<lambda>c. case c of
       None \<Rightarrow> raise (EnvError ''could not clone the default branch'')
     | Some tree \<Rightarrow>
         bindP (tree_opted_in E tree) (\<lambda>ok.
           if ok then load_opted E (new_target repo ent) tree
           else bindP (liftE (dget ent ''profile'' JNull)) (\<lambda>ep. bindP (liftE (dget fleet ''profile'' JNull)) (\<lambda>fp.
                bindP (liftE (dget ent ''integration_branch'' JNull)) (\<lambda>ib.
                  load_profile E ((new_target repo ent)\<lparr>t_root := Some tree\<rparr>) (jor profile (jor ep fp)) ib)))))"

end
