(* ===== verification/RepoApply.thy ===== *)
theory RepoApply
  imports Targets Report
begin

text \<open>
  \<^verbatim>\<open>commands/repo/apply.py\<close>: what a repository has is read through GitHub, compared with its policy, and only what
  differs is written.  A program's state is the world and the log of the calls (CiGithub.thy); its value is the
  list of changes.  Parameters: \<open>gh\<close>, \<open>txt\<close> (Python's text of a value that is not a string) and \<open>dumps\<close>
  (\<^verbatim>\<open>json.dumps\<close> with sorted keys).
\<close>

section \<open>Differences\<close>

function json_diff :: "string \<Rightarrow> json \<Rightarrow> json \<Rightarrow> exn + jtable" where
  "json_diff pre want have =
     (case want of
        JObj kvs \<Rightarrow>
          foldE (\<lambda>(key, value) out.
              bindE (dget (jor have (JObj [])) key JNull) (\<lambda>cur.
                if is_dict value \<and> is_dict cur
                then bindE (json_diff (pre @ key @ ''.'') value cur) (\<lambda>d. Inr (set_all d out))
                else if \<not> py_eq cur value then Inr (AList.update (pre @ key) (JArr [cur, value]) out)
                else Inr out)) kvs []
      | _ \<Rightarrow> Inl AttributeError)"
  by pat_completeness auto
termination
  by (relation "measure (\<lambda>(p, w, h). size w)") (auto dest!: json_size_obj simp del: json.size)

declare json_diff.simps [simp del]

section \<open>A ruleset in a normal form\<close>

definition text_in :: "json \<Rightarrow> string" where "text_in v = (case v of JStr s \<Rightarrow> s | _ \<Rightarrow> [])"

text \<open>\<^verbatim>\<open>sorted\<close> on texts.  (Two values of other types raise here; GitHub gives texts.)\<close>

definition sort_texts :: "json list \<Rightarrow> exn + json list" where
  "sort_texts xs =
     (if list_all is_str xs then Inr (map JStr (sort (map text_in xs)))
      else if length xs \<le> 1 then Inr xs else Inl TypeError)"

definition sorted_by :: "('a \<Rightarrow> exn + string) \<Rightarrow> 'a list \<Rightarrow> exn + 'a list" where
  "sorted_by key xs = bindE (mapE key xs) (\<lambda>ks. Inr (map snd (sort_key fst (zip ks xs))))"

definition text_key :: "json \<Rightarrow> exn + string" where
  "text_key v = (case v of JStr s \<Rightarrow> Inr s | _ \<Rightarrow> Inl TypeError)"

definition rule_key :: "json \<Rightarrow> exn + string" where
  "rule_key rule = bindE (dget rule ''type'' (JStr [])) text_key"

definition pick_fields :: "string list \<Rightarrow> json \<Rightarrow> exn + json" where
  "pick_fields ks v = bindE (mapE (\<lambda>k. bindE (dget v k JNull) (\<lambda>x. Inr (k, x))) ks) (\<lambda>kvs. Inr (JObj kvs))"

definition normal_conditions :: "json \<Rightarrow> exn + json" where
  "normal_conditions c =
     (if \<not> is_dict c then Inr c
      else bindE (dget c ''ref_name'' JNull) (\<lambda>r. let ref = jor r (JObj []) in
           bindE (bindE (list_get ref ''include'') sort_texts) (\<lambda>inc.
           bindE (bindE (list_get ref ''exclude'') sort_texts) (\<lambda>exc.
             Inr (JObj [(''ref_name'', JObj [(''include'', JArr inc), (''exclude'', JArr exc)])])))))"

definition normal_actors :: "(json \<Rightarrow> string) \<Rightarrow> json \<Rightarrow> exn + json" where
  "normal_actors dumps v =
     bindE (iter (jor v (JArr []))) (\<lambda>as.
     bindE (mapE (pick_fields [''actor_type'', ''actor_id'', ''bypass_mode'']) as) (\<lambda>bs.
       Inr (JArr (sort_key dumps bs))))"

definition normal_field :: "(json \<Rightarrow> string) \<Rightarrow> json \<Rightarrow> string \<Rightarrow> exn + string \<times> json" where
  "normal_field dumps ruleset k =
     bindE (dget ruleset k JNull) (\<lambda>v.
     bindE (if k = ''conditions'' then normal_conditions v
            else if k = ''bypass_actors'' then normal_actors dumps v else Inr v) (\<lambda>w. Inr (k, w)))"

definition normal_checks :: "jtable \<Rightarrow> exn + jtable" where
  "normal_checks ps =
     (case entry ps ''required_status_checks'' of
        JArr cs \<Rightarrow>
          bindE (mapE (pick_fields [''context'', ''integration_id'']) cs) (\<lambda>ds.
          bindE (sorted_by (\<lambda>c. bindE (ditem c ''context'') (\<lambda>x. text_key (jor x (JStr [])))) ds) (\<lambda>es.
            Inr (AList.update ''required_status_checks'' (JArr es) ps)))
      | _ \<Rightarrow> Inr ps)"

definition normal_methods :: "jtable \<Rightarrow> exn + jtable" where
  "normal_methods ps =
     (case entry ps ''allowed_merge_methods'' of
        JArr ms \<Rightarrow> bindE (sort_texts ms) (\<lambda>s. Inr (AList.update ''allowed_merge_methods'' (JArr s) ps))
      | _ \<Rightarrow> Inr ps)"

definition normal_rule :: "(string \<times> json) list \<Rightarrow> json \<Rightarrow> exn + json" where
  "normal_rule wanted rule =
     bindE (rule_key rule) (\<lambda>key.
     let want = (case map_of wanted key of Some w \<Rightarrow> w | None \<Rightarrow> JObj []) in
     bindE (dget rule ''parameters'' JNull) (\<lambda>params.
     bindE (dget rule ''type'' JNull) (\<lambda>ty.
     bindE (py_in (JStr ''parameters'') want) (\<lambda>has.
       if params = JNull \<and> \<not> has then Inr (JObj [(''type'', ty)])
       else bindE (dget want ''parameters'' (jor params (JObj []))) (\<lambda>like.
            bindE (table_of like) (\<lambda>keys.
            bindE (pick_fields (map fst keys) (jor params (JObj []))) (\<lambda>picked.
            bindE (table_of picked) (\<lambda>ps0. bindE (normal_checks ps0) (\<lambda>ps1. bindE (normal_methods ps1) (\<lambda>ps2.
              Inr (JObj [(''type'', ty), (''parameters'', JObj ps2)])))))))))))"

definition RULESET_FIELDS :: "string list" where
  "RULESET_FIELDS = [''name'', ''target'', ''enforcement'', ''conditions'', ''bypass_actors'']"

definition normalise :: "(json \<Rightarrow> string) \<Rightarrow> json \<Rightarrow> json \<Rightarrow> exn + json" where
  "normalise dumps ruleset like0 =
     (let like = jor like0 ruleset in
      bindE (table_of like) (\<lambda>l.
      bindE (mapE (normal_field dumps ruleset) (filter (\<lambda>k. map_of l k \<noteq> None) RULESET_FIELDS)) (\<lambda>fields.
      bindE (list_get like ''rules'') (\<lambda>lr. bindE (mapE (\<lambda>r. bindE (rule_key r) (\<lambda>k. Inr (k, r))) lr) (\<lambda>wanted.
      bindE (list_get ruleset ''rules'') (\<lambda>rs. bindE (sorted_by rule_key rs) (\<lambda>sorted_rules.
      bindE (mapE (normal_rule (dict_of wanted)) sorted_rules) (\<lambda>rules.
        Inr (JObj (fields @ (if map_of l ''rules'' \<noteq> None then [(''rules'', JArr rules)] else [])))))))))))"

section \<open>Writing what differs\<close>

record change =
  ch_method :: string
  ch_endpoint :: string
  ch_body :: "json option"
  ch_diff :: jtable

definition repo_write ::
  "'w gh \<Rightarrow> bool \<Rightarrow> string \<Rightarrow> string \<Rightarrow> json option \<Rightarrow> jtable \<Rightarrow> change list \<Rightarrow> ('w ghst, change list) prog" where
  "repo_write gh dry meth endpoint body d cs =
     (let cs' = cs @ [\<lparr>ch_method = meth, ch_endpoint = endpoint, ch_body = body, ch_diff = d\<rparr>] in
      if dry then ret cs' else bindP (request gh meth endpoint body False) (\<lambda>_. ret cs'))"

definition repo_path :: "string \<Rightarrow> string \<Rightarrow> string" where "repo_path r tail = ''repos/'' @ r @ tail"

text \<open>One part of the settings: written when it differs.\<close>

definition write_diff ::
  "'w gh \<Rightarrow> bool \<Rightarrow> string \<Rightarrow> string \<Rightarrow> json \<Rightarrow> json \<Rightarrow> change list \<Rightarrow> ('w ghst, change list) prog" where
  "write_diff gh dry meth endpoint want have cs =
     bindP (liftE (json_diff [] want have)) (\<lambda>d. if d = [] then ret cs else repo_write gh dry meth endpoint (Some want) d cs)"

definition apply_repository ::
  "'w gh \<Rightarrow> bool \<Rightarrow> string \<Rightarrow> repo_policy \<Rightarrow> change list \<Rightarrow> ('w ghst, change list) prog" where
  "apply_repository gh dry r p cs =
     bindP (gh_get gh (repo_path r []) False) (\<lambda>info.
       if p_repository p = [] then ret cs
       else write_diff gh dry ''PATCH'' (repo_path r []) (JObj (p_repository p)) (jor info (JObj [])) cs)"

definition apply_workflow ::
  "'w gh \<Rightarrow> bool \<Rightarrow> string \<Rightarrow> repo_policy \<Rightarrow> change list \<Rightarrow> ('w ghst, change list) prog" where
  "apply_workflow gh dry r p cs =
     (if \<not> truthy (p_workflow p) then ret cs
      else bindP (gh_get gh (repo_path r ''/actions/permissions/workflow'') False) (\<lambda>have.
             write_diff gh dry ''PUT'' (repo_path r ''/actions/permissions/workflow'') (p_workflow p) (jor have (JObj [])) cs))"

text \<open>A switch that is on or off at an endpoint.\<close>

definition write_switch ::
  "'w gh \<Rightarrow> bool \<Rightarrow> string \<Rightarrow> json \<Rightarrow> json \<Rightarrow> json \<Rightarrow> change list \<Rightarrow> ('w ghst, change list) prog" where
  "write_switch gh dry endpoint have want shown cs =
     (if py_eq have want then ret cs
      else repo_write gh dry (if truthy want then ''PUT'' else ''DELETE'') endpoint None [(''enabled'', JArr [have, shown])] cs)"

definition apply_alerts ::
  "'w gh \<Rightarrow> bool \<Rightarrow> string \<Rightarrow> repo_policy \<Rightarrow> change list \<Rightarrow> ('w ghst, change list) prog" where
  "apply_alerts gh dry r p cs =
     (if p_alerts p = JNull then ret cs
      else bindP (catch (bindP (gh_get gh (repo_path r ''/vulnerability-alerts'') False) (\<lambda>_. ret True))
                    (\<lambda>e. if e = GitHubError (Some 404) then ret False else raise e)) (\<lambda>on.
             write_switch gh dry (repo_path r ''/vulnerability-alerts'') (JBool on) (p_alerts p) (JBool (\<not> on)) cs))"

definition apply_fixes ::
  "'w gh \<Rightarrow> bool \<Rightarrow> string \<Rightarrow> repo_policy \<Rightarrow> change list \<Rightarrow> ('w ghst, change list) prog" where
  "apply_fixes gh dry r p cs =
     (if p_fixes p = JNull then ret cs
      else bindP (get_or_none gh (repo_path r ''/automated-security-fixes'')) (\<lambda>v.
           bindP (liftE (dget (jor v (JObj [])) ''enabled'' (JBool False))) (\<lambda>have.
             write_switch gh dry (repo_path r ''/automated-security-fixes'') have (p_fixes p) (p_fixes p) cs)))"

definition lower_name :: "json \<Rightarrow> exn + string" where
  "lower_name lb = bindE (ditem lb ''name'') (\<lambda>n. case n of JStr s \<Rightarrow> Inr (lower s) | _ \<Rightarrow> Inl AttributeError)"

definition label_step ::
  "'w gh \<Rightarrow> (json \<Rightarrow> string) \<Rightarrow> bool \<Rightarrow> string \<Rightarrow> (string \<times> json) list \<Rightarrow> json \<Rightarrow> change list \<Rightarrow> ('w ghst, change list) prog" where
  "label_step gh txt dry r have label cs =
     bindP (liftE (lower_name label)) (\<lambda>key.
     case map_of have key of
       None \<Rightarrow> bindP (liftE (ditem label ''name'')) (\<lambda>n.
                 repo_write gh dry ''POST'' (repo_path r ''/labels'') (Some label) [(''label'', JArr [JNull, n])] cs)
     | Some cur \<Rightarrow>
         bindP (liftE (bindE (ditem label ''color'') (\<lambda>c. bindE (ditem label ''description'') (\<lambda>d.
                  json_diff [] (JObj [(''color'', c), (''description'', d)]) cur)))) (\<lambda>df.
           if df = [] then ret cs
           else bindP (liftE (ditem cur ''name'')) (\<lambda>n.
                  repo_write gh dry ''PATCH'' (repo_path r (''/labels/'' @ text_with txt n)) (Some label) df cs)))"

definition apply_labels ::
  "'w gh \<Rightarrow> (json \<Rightarrow> string) \<Rightarrow> bool \<Rightarrow> string \<Rightarrow> repo_policy \<Rightarrow> change list \<Rightarrow> ('w ghst, change list) prog" where
  "apply_labels gh txt dry r p cs =
     (if p_labels p = [] then ret cs
      else bindP (gh_get gh (repo_path r ''/labels'') True) (\<lambda>v.
           bindP (liftE (bindE (iter (jor v (JArr []))) (mapE (\<lambda>lb. bindE (lower_name lb) (\<lambda>k. Inr (k, lb)))))) (\<lambda>have.
             foldP (label_step gh txt dry r (dict_of have)) (p_labels p) cs)))"

definition apply_settings ::
  "'w gh \<Rightarrow> (json \<Rightarrow> string) \<Rightarrow> bool \<Rightarrow> string \<Rightarrow> repo_policy \<Rightarrow> change list \<Rightarrow> ('w ghst, change list) prog" where
  "apply_settings gh txt dry r p cs =
     bindP (apply_repository gh dry r p cs) (\<lambda>c1. bindP (apply_workflow gh dry r p c1) (\<lambda>c2.
     bindP (apply_alerts gh dry r p c2) (\<lambda>c3. bindP (apply_fixes gh dry r p c3) (\<lambda>c4. apply_labels gh txt dry r p c4))))"

text \<open>Rulesets are matched by name; one GitHub has and the policy lacks is only listed.\<close>

definition named_rulesets :: "json list \<Rightarrow> exn + (string \<times> json) list" where
  "named_rulesets existing =
     bindE (mapE (\<lambda>rs. bindE (dget rs ''name'' JNull) (\<lambda>n.
              Inr (case n of JStr s \<Rightarrow> [(s, rs)] | _ \<Rightarrow> []))) existing) (\<lambda>kvs. Inr (dict_of (concat kvs)))"

definition ruleset_name :: "json \<Rightarrow> exn + string" where
  "ruleset_name rs = bindE (ditem rs ''name'') text_key"

definition github_bypass :: "json \<Rightarrow> exn + bool" where
  "github_bypass ruleset =
     bindE (list_get ruleset ''bypass_actors'') (\<lambda>as.
     anyE (\<lambda>a. bindE (dget a ''actor_type'' JNull) (\<lambda>ty.
        if ty \<noteq> JStr ''Integration'' then Inr False
        else bindE (dget a ''actor_id'' JNull) (\<lambda>i. Inr (py_eq i (JInt ACTIONS_APP_ID))))) as)"

definition private_refused :: "bool \<Rightarrow> exn \<Rightarrow> bool" where
  "private_refused private e \<longleftrightarrow> private \<and> e = GitHubError (Some 403)"

definition ruleset_diff :: "jtable \<Rightarrow> jtable \<Rightarrow> jtable" where
  "ruleset_diff have want =
     concat (map (\<lambda>(k, w). if py_eq (entry have k) w then [] else [(k, JArr [entry have k, w])]) want)"

definition ruleset_write ::
  "'w gh \<Rightarrow> (json \<Rightarrow> string) \<Rightarrow> (json \<Rightarrow> string) \<Rightarrow> bool \<Rightarrow> string \<Rightarrow> (string \<times> json) list \<Rightarrow> json \<Rightarrow> change list \<Rightarrow>
     ('w ghst, change list) prog" where
  "ruleset_write gh txt dumps dry r by_name ruleset cs =
     bindP (liftE (ruleset_name ruleset)) (\<lambda>name.
     case map_of by_name name of
       None \<Rightarrow> repo_write gh dry ''POST'' (repo_path r ''/rulesets'') (Some ruleset) [(''ruleset'', JArr [JNull, JStr name])] cs
     | Some cur \<Rightarrow>
         bindP (liftE (ditem cur ''id'')) (\<lambda>i.
         let endpoint = repo_path r (''/rulesets/'' @ text_with txt i) in
         bindP (gh_get gh endpoint False) (\<lambda>full.
         bindP (liftE (bindE (normalise dumps (jor full (JObj [])) ruleset) (\<lambda>h. bindE (normalise dumps ruleset JNull) (\<lambda>w. Inr (h, w))))) (\<lambda>(h, w).
           if py_eq h w then ret cs
           else bindP (liftE (bindE (table_of h) (\<lambda>ht. bindE (table_of w) (\<lambda>wt. Inr (ruleset_diff ht wt))))) (\<lambda>df.
                  repo_write gh dry ''PUT'' endpoint (Some ruleset) df cs)))))"

definition ruleset_step ::
  "'w gh \<Rightarrow> (json \<Rightarrow> string) \<Rightarrow> (json \<Rightarrow> string) \<Rightarrow> bool \<Rightarrow> bool \<Rightarrow> string \<Rightarrow> (string \<times> json) list \<Rightarrow> json \<Rightarrow> change list \<Rightarrow>
     ('w ghst, change list) prog" where
  "ruleset_step gh txt dumps dry private r by_name ruleset cs =
     catch (ruleset_write gh txt dumps dry r by_name ruleset cs)
       (\<lambda>e. case e of
          GitHubError st \<Rightarrow>
            if private_refused private e then raise (FrappeNixError ''its plan does not support rulesets'')
            else bindP (liftE (github_bypass ruleset)) (\<lambda>b.
                   if st = Some 422 \<and> b then raise (FrappeNixError ''GitHub refused GitHub Actions as a bypass actor'') else raise e)
        | _ \<Rightarrow> raise e)"

definition apply_rulesets ::
  "'w gh \<Rightarrow> (json \<Rightarrow> string) \<Rightarrow> (json \<Rightarrow> string) \<Rightarrow> bool \<Rightarrow> bool \<Rightarrow> string \<Rightarrow> repo_policy \<Rightarrow> change list \<Rightarrow>
     ('w ghst, change list \<times> string list) prog" where
  "apply_rulesets gh txt dumps dry private r p cs =
     bindP (catch (gh_get gh (repo_path r ''/rulesets'') True)
              (\<lambda>e. if private_refused private e then raise (FrappeNixError ''its plan does not support rulesets'') else raise e)) (\<lambda>v.
     bindP (liftE (bindE (iter (jor v (JArr []))) named_rulesets)) (\<lambda>by_name.
     bindP (liftE (mapE ruleset_name (p_rulesets p))) (\<lambda>wanted.
     bindP (foldP (ruleset_step gh txt dumps dry private r by_name) (p_rulesets p) cs) (\<lambda>cs'.
       ret (cs', sort (filter (\<lambda>n. n \<notin> set wanted) (map fst by_name)))))))"

definition ensure_integration_branch ::
  "'w gh \<Rightarrow> (json \<Rightarrow> string) \<Rightarrow> bool \<Rightarrow> bool \<Rightarrow> string \<Rightarrow> string \<Rightarrow> change list \<Rightarrow> ('w ghst, change list) prog" where
  "ensure_integration_branch gh txt rename dry r integration cs =
     (if integration = [] then ret cs
      else bindP (get_or_none gh (repo_path r (''/branches/'' @ integration))) (\<lambda>b.
        if b \<noteq> JNull then ret cs
        else bindP (gh_get gh (repo_path r []) False) (\<lambda>info.
             bindP (liftE (dget (jor info (JObj [])) ''default_branch'' (JStr []))) (\<lambda>d.
               if \<not> rename then raise (FrappeNixError ''the integration branch does not exist'')
               else repo_write gh dry ''POST'' (repo_path r (''/branches/'' @ text_with txt d @ ''/rename''))
                      (Some (JObj [(''new_name'', JStr integration)])) [(''default_branch'', JArr [d, JStr integration])] cs))))"

section \<open>A repository\<close>

text \<open>The policy planned for a target; \<open>branch\<close> is the release branch.\<close>

definition plan_policy ::
  "(json \<Rightarrow> string) \<Rightarrow> (string option \<Rightarrow> policy_files) \<Rightarrow> target \<Rightarrow> string \<Rightarrow> json \<Rightarrow> exn + repo_policy" where
  "plan_policy txt pf t phase documentation =
     bindE (if t_opted_in t then t_release_branch txt t else Inr []) (\<lambda>branch.
       for_app txt (pf (t_profile_dir t)) (t_profile_dir t \<noteq> None) (t_cfg t) (t_modules t) (t_gates t) phase branch documentation)"

text \<open>\<open>listing\<close> is the checkout's \<^verbatim>\<open>marketplace/listing.toml\<close>, \<open>toml\<close> its parser.\<close>

definition documentation_url :: "(string \<Rightarrow> json option) \<Rightarrow> (string \<Rightarrow> work_file) \<Rightarrow> target \<Rightarrow> exn + json" where
  "documentation_url toml listing t =
     (let own = (case (t_modules t ''listing'', t_root t) of
                   (True, Some r) \<Rightarrow>
                     (case listing r of
                        Text s \<Rightarrow> (case toml s of Some doc \<Rightarrow> dget doc ''documentation'' JNull | None \<Rightarrow> Inr JNull)
                      | _ \<Rightarrow> Inr JNull)
                 | _ \<Rightarrow> Inr JNull)
      in bindE own (\<lambda>u. if is_str u \<and> truthy u then Inr u else dget (t_entry t) ''documentation'' (JStr [])))"

text \<open>The statuses \<^verbatim>\<open>ok\<close>, \<^verbatim>\<open>skipped\<close>, \<^verbatim>\<open>failed\<close> and \<^verbatim>\<open>invalid\<close>.\<close>

datatype out_status = Done | Left | Fails | Bad

record outcome =
  o_repo :: string
  o_status :: out_status
  o_changes :: "change list"
  o_unknown :: "string list"
  o_code :: nat


definition plain_outcome :: "string \<Rightarrow> out_status \<Rightarrow> nat \<Rightarrow> outcome" where
  "plain_outcome r st c = \<lparr>o_repo = r, o_status = st, o_changes = [], o_unknown = [], o_code = c\<rparr>"

record apply_args =
  aa_repos :: "string list"
  aa_all :: bool
  aa_fleet :: string
  aa_phase :: string
  aa_profile :: json
  aa_rename :: bool
  aa_self :: bool
  aa_policy_dir :: string
  aa_dry_run :: bool
  aa_settings_only :: bool
  aa_rulesets_only :: bool

text \<open>What the command is given: \<^verbatim>\<open>gh\<close>, the targets' environment, the policy's files with a profile's overrides, a
  policy directory's (none when it does not exist), the checkouts' listings, the files a fleet list may be, its
  validator, and the two text functions.\<close>

record 'w apply_env =
  ae_gh :: "'w gh"
  ae_target :: "'w target_env"
  ae_policy :: "string option \<Rightarrow> policy_files"
  ae_dir :: "string \<Rightarrow> policy_files option"
  ae_self :: policy_files
  ae_listing :: "string \<Rightarrow> work_file"
  ae_files :: "string \<Rightarrow> work_file"
  ae_fleet_errors :: "json \<Rightarrow> string list"
  ae_txt :: "json \<Rightarrow> string"
  ae_dumps :: "json \<Rightarrow> string"

definition apply_rules ::
  "'w apply_env \<Rightarrow> apply_args \<Rightarrow> bool \<Rightarrow> string \<Rightarrow> repo_policy \<Rightarrow> change list \<Rightarrow> ('w ghst, change list \<times> string list) prog" where
  "apply_rules A args private r p cs =
     (if aa_settings_only args then ret (cs, [])
      else apply_rulesets (ae_gh A) (ae_txt A) (ae_dumps A) (aa_dry_run args) private r p cs)"

text \<open>A whole policy directory on one repository.\<close>

definition apply_dir ::
  "'w apply_env \<Rightarrow> apply_args \<Rightarrow> policy_files \<Rightarrow> string \<Rightarrow> json \<Rightarrow> ('w ghst, outcome) prog" where
  "apply_dir A args pf r ent =
     bindP (liftE (from_dir (ae_txt A) pf [])) (\<lambda>p.
     bindP (if aa_rulesets_only args then ret [] else apply_settings (ae_gh A) (ae_txt A) (aa_dry_run args) r p []) (\<lambda>cs.
     bindP (liftE (dget ent ''private'' JNull)) (\<lambda>private.
     bindP (apply_rules A args (truthy private) r p cs) (\<lambda>(cs', un).
       ret ((plain_outcome r Done CLEAN)\<lparr>o_changes := cs', o_unknown := un\<rparr>)))))"

definition apply_target ::
  "'w apply_env \<Rightarrow> apply_args \<Rightarrow> target \<Rightarrow> ('w ghst, outcome) prog" where
  "apply_target A args t =
     (let r = t_repo t; gh = ae_gh A; dry = aa_dry_run args in
      bindP (liftE (bindE (documentation_url (te_toml (ae_target A)) (ae_listing A) t)
                      (plan_policy (ae_txt A) (ae_policy A) t (aa_phase args)))) (\<lambda>p.
      bindP (if aa_rulesets_only args then ret []
             else bindP (if map_of (p_repository p) ''default_branch'' = None then ret []
                         else bindP (liftE (t_integration t)) (\<lambda>i.
                              ensure_integration_branch gh (ae_txt A) (aa_rename args) dry r (text_with (ae_txt A) i) []))
                    (apply_settings gh (ae_txt A) dry r p)) (\<lambda>cs.
      bindP (if aa_settings_only args then ret (cs, [])
             else bindP (gh_get gh (repo_path r []) False) (\<lambda>info.
                  bindP (liftE (bindE (dget (jor info (JObj [])) ''private'' JNull) (\<lambda>a.
                                bindE (dget (t_entry t) ''private'' JNull) (\<lambda>b. Inr (truthy a \<or> truthy b))))) (\<lambda>private.
                    apply_rules A args private r p cs))) (\<lambda>(cs', un).
        ret ((plain_outcome r Done CLEAN)\<lparr>o_changes := cs', o_unknown := un\<rparr>)))))"

definition apply_one ::
  "'w apply_env \<Rightarrow> apply_args \<Rightarrow> policy_files option \<Rightarrow> json \<Rightarrow> string \<Rightarrow> json \<Rightarrow> ('w repo_st, outcome) prog" where
  "apply_one A args dir fleet r ent =
     (case dir of
        Some pf \<Rightarrow> on_fst (apply_dir A args pf r ent)
      | None \<Rightarrow>
          bindP (liftE (dget ent ''private'' JNull)) (\<lambda>private.
            if aa_phase args = ''full'' \<and> truthy private then ret (plain_outcome r Fails DRIFT)
            else bindP (load_target (ae_target A) r ent fleet (aa_profile args)) (\<lambda>t.
              if t_resolved t = None then ret (plain_outcome r Left CLEAN)
              else if \<not> t_modules t ''repo-policy'' then ret (plain_outcome r Left CLEAN)
              else if aa_phase args = ''full'' \<and> \<not> t_opted_in t then ret (plain_outcome r Bad INVALID)
              else on_fst (apply_target A args t))))"

definition apply_caught ::
  "'w apply_env \<Rightarrow> apply_args \<Rightarrow> policy_files option \<Rightarrow> json \<Rightarrow> string \<times> json \<Rightarrow> ('w repo_st, outcome) prog" where
  "apply_caught A args dir fleet pair =
     (case pair of (r, ent) \<Rightarrow>
        catch (apply_one A args dir fleet r ent)
          (\<lambda>e. case e of
             ConfigError _ \<Rightarrow> ret (plain_outcome r Bad INVALID)
           | _ \<Rightarrow> if is_frappe_nix_error e then ret (plain_outcome r Fails DRIFT) else raise e))"

definition SELF_REPO :: string where "SELF_REPO = ''Avunu/frappe-nix''"

definition policy_of_args :: "'w apply_env \<Rightarrow> apply_args \<Rightarrow> exn + policy_files option" where
  "policy_of_args A args =
     (if aa_self args then Inr (Some (ae_self A))
      else if aa_policy_dir args = [] then Inr None
      else case ae_dir A (aa_policy_dir args) of
          None \<Rightarrow> Inl (ConfigError ''--policy-dir: not a directory'') | Some pf \<Rightarrow> Inr (Some pf))"

text \<open>\<^verbatim>\<open>run\<close>: the exit code and the outcomes (what is printed is left out).\<close>

definition apply_run ::
  "(string \<Rightarrow> 'w \<Rightarrow> 'w) \<Rightarrow> 'w apply_env \<Rightarrow> apply_args \<Rightarrow> ('w repo_st, nat \<times> outcome list) prog" where
  "apply_run rmtree A args =
     bindP (liftE (
       if aa_settings_only args \<and> aa_rulesets_only args then Inl (ConfigError ''--settings-only and --rulesets-only exclude each other'')
       else if aa_self args \<and> aa_policy_dir args \<noteq> [] then Inl (ConfigError ''--self and --policy-dir exclude each other'')
       else bindE (policy_of_args A args) (\<lambda>dir.
            let repos = (if aa_self args \<and> aa_repos args = [] \<and> \<not> aa_all args then [SELF_REPO] else aa_repos args)
            in bindE (fleet_entries (ae_fleet_errors A) (ae_files A) repos (aa_all args) (aa_fleet args)) (\<lambda>(pairs, fleet).
                 Inr (dir, pairs, fleet))))) (\<lambda>(dir, pairs, fleet).
     finallyP (foldP (\<lambda>pair (c, outs). bindP (apply_caught A args dir fleet pair) (\<lambda>out.
                ret (max c (o_code out), outs @ [out]))) pairs (CLEAN, []))
             (cleanup (\<lambda>w d. rmtree d w)))"

section \<open>A sample\<close>

text \<open>A policy that turns the wiki off and has one ruleset, and a GitHub that has neither.\<close>

definition json_text :: "string \<Rightarrow> string" where
  "json_text s = map (\<lambda>c. if c = CHR 0x27 then CHR 0x22 else c) s"

definition sample_settings :: string where
  "sample_settings = json_text (''{'' @ [CHR 0x27] @ ''repository'' @ [CHR 0x27] @ '':{'' @ [CHR 0x27] @ ''allow_merge_commit'' @ [CHR 0x27] @ '':false}}'')"

definition sample_ruleset :: string where
  "sample_ruleset = json_text (''{'' @ [CHR 0x27] @ ''name'' @ [CHR 0x27] @ '':'' @ [CHR 0x27] @ ''main'' @ [CHR 0x27] @ ''}'')"

definition sample_files :: policy_files where
  "sample_files = \<lparr>f_link = (\<lambda>_. False), f_over = (\<lambda>_. Missing),
     f_dir = (\<lambda>n. if n = SETTINGS then Text sample_settings else Text sample_ruleset), f_rulesets = [''main.json'']\<rparr>"

definition sample_resolved :: resolved where
  "sample_resolved = \<lparr>r_cfg = JObj [(''integration-branch'', JStr ''main'')], r_modules = (\<lambda>m. m = ''repo-policy''),
     r_profile = (''minimal'', ''builtin'', []), r_sources = [], r_host = None, r_host_off = []\<rparr>"

definition sample_env :: "unit target_env" where
  "sample_env = \<lparr>te_git = sample_gh, te_tmp = (\<lambda>w p. (p, w)), te_pyproject = (\<lambda>w r. Text []),
     te_toml = (\<lambda>s. Some (JObj [(''tool'', JObj [(''frappe-nix'', JObj [])])])),
     te_load = (\<lambda>w r. Inr \<lparr>ac_app = ''app'', ac_resolved = sample_resolved, ac_gates = [''lint'']\<rparr>),
     te_org_dir = (\<lambda>w a b. Inr []), te_resolve = (\<lambda>w d doc. Inr sample_resolved)\<rparr>"

definition quiet_gh :: "unit gh" where
  "quiet_gh w argv stdin = (Some \<lparr>code = 0, stdout = [], stderr = []\<rparr>, ())"

definition sample_apply :: "unit apply_env" where
  "sample_apply = \<lparr>ae_gh = quiet_gh, ae_target = sample_env, ae_policy = (\<lambda>_. sample_files), ae_dir = (\<lambda>_. None),
     ae_self = sample_files, ae_listing = (\<lambda>_. Missing), ae_files = (\<lambda>_. Missing), ae_fleet_errors = (\<lambda>_. []),
     ae_txt = (\<lambda>_. ''?''), ae_dumps = (\<lambda>_. [])\<rparr>"

definition sample_args :: apply_args where
  "sample_args = \<lparr>aa_repos = [''o/r''], aa_all = False, aa_fleet = [], aa_phase = ''provisional'', aa_profile = JNull,
     aa_rename = False, aa_self = False, aa_policy_dir = [], aa_dry_run = False, aa_settings_only = False,
     aa_rulesets_only = False\<rparr>"

definition sample_target :: target where
  "sample_target = (new_target ''o/r'' (JObj []))\<lparr>t_resolved := Some sample_resolved, t_opted_in := True, t_gates := [''lint'']\<rparr>"

section \<open>Only reads\<close>

text \<open>The calls a run adds to the log are all of a class.\<close>

definition extends :: "(gh_call \<Rightarrow> bool) \<Rightarrow> gh_call list \<Rightarrow> 'w ghst \<Rightarrow> bool" where
  "extends Q old s \<longleftrightarrow> (\<exists>new. calls s = old @ new \<and> list_all Q new)"

lemma extends_start [simp]: "extends Q (calls s) s" by (simp add: extends_def)

lemma extends_add: "extends Q old s \<Longrightarrow> Q c \<Longrightarrow> extends Q old (s\<lparr>world := w, calls := calls s @ [c]\<rparr>)"
  by (fastforce simp: extends_def)

lemma extends_world [simp]: "extends Q old (s\<lparr>world := w\<rparr>) = extends Q old s" by (simp add: extends_def)

lemma keeps_extends_gh: "Q (argv, stdin) \<Longrightarrow> keeps (extends Q old) (run_gh gh argv stdin)"
  by (simp add: keeps_def run_gh_def extends_add split: prod.splits)

lemma keeps_extends_git: "Q (''git'' # args, None) \<Longrightarrow> keeps (extends Q old) (run_git git args)"
  by (simp add: keeps_def run_git_def extends_add split: prod.splits)

lemma keeps_in_world [keeps_rules]: "keeps I (in_world f)" by (simp add: keeps_def in_world_def)

definition api_read :: "gh_call \<Rightarrow> bool" where
  "api_read c \<longleftrightarrow> take 4 (fst c) = [''gh'', ''api'', ''--method'', ''GET'']"

definition reads :: "(gh_call \<Rightarrow> bool) \<Rightarrow> bool" where "reads Q \<longleftrightarrow> (\<forall>c. api_read c \<longrightarrow> Q c)"

lemma keeps_read [keeps_rules]: "reads Q \<Longrightarrow> keeps (extends Q old) (gh_get gh e p)"
  unfolding gh_get_def request_def transport_request_def
  by (intro keeps_rules keeps_extends_gh) (simp add: reads_def api_read_def)

lemma keeps_read_or_none [keeps_rules]: "reads Q \<Longrightarrow> keeps (extends Q old) (get_or_none gh e)"
  unfolding get_or_none_def by (intro keeps_rules)

lemma keeps_dry_write [keeps_rules]: "keeps I (repo_write gh True m e b d cs)"
  by (simp add: repo_write_def keeps_rules)

lemma keeps_dry_settings [keeps_rules]:
  assumes "reads Q"
  shows "keeps (extends Q old) (apply_settings gh txt True r p cs)"
  unfolding apply_settings_def apply_repository_def apply_workflow_def apply_alerts_def apply_fixes_def apply_labels_def
    label_step_def write_diff_def write_switch_def
  by (intro keeps_rules assms)

lemma keeps_exn [keeps_rules]: "(\<And>st. keeps I (f st)) \<Longrightarrow> keeps I g \<Longrightarrow> keeps I (case e of GitHubError st \<Rightarrow> f st | _ \<Rightarrow> g)"
  by (cases e) auto

lemma keeps_let [keeps_rules]: "keeps I (f v) \<Longrightarrow> keeps I (let x = v in f x)" by (simp add: Let_def)

lemma keeps_dry_rulesets [keeps_rules]:
  assumes "reads Q"
  shows "keeps (extends Q old) (apply_rulesets gh txt dumps True private r p cs)"
  unfolding apply_rulesets_def ruleset_step_def ruleset_write_def
  by (intro keeps_rules assms)

lemma keeps_dry_branch [keeps_rules]:
  assumes "reads Q"
  shows "keeps (extends Q old) (ensure_integration_branch gh txt rename True r i cs)"
  unfolding ensure_integration_branch_def by (intro keeps_rules assms)

text \<open>What loading a target runs: \<^verbatim>\<open>git clone\<close> and \<^verbatim>\<open>git rev-parse\<close>.\<close>

definition git_read :: "gh_call \<Rightarrow> bool" where
  "git_read c \<longleftrightarrow> take 1 (fst c) = [''git''] \<and> (''clone'' \<in> set (fst c) \<or> ''rev-parse'' \<in> set (fst c))"

lemma keeps_clone_dir [keeps_rules]: "keeps (\<lambda>s. extends Q old (fst s)) (mkdtemp tmp pre)"
  by (simp add: keeps_def mkdtemp_def split: prod.splits)

lemma keeps_cleanup [keeps_rules]: "keeps (\<lambda>s. extends Q old (fst s)) (cleanup rmtree)"
  by (simp add: keeps_def cleanup_def split: prod.splits)

lemma keeps_clone [keeps_rules]:
  assumes "\<forall>c. git_read c \<longrightarrow> Q c"
  shows "keeps (\<lambda>s. extends Q old (fst s)) (clone E repo b d)"
proof -
  have "git_read (''git'' # clone_args repo b d dest, None)" for dest by (simp add: git_read_def clone_args_def)
  with assms show ?thesis unfolding clone_def by (intro keeps_rules keeps_extends_git) blast+
qed

lemma keeps_clone_branch [keeps_rules]:
  assumes "\<forall>c. git_read c \<longrightarrow> Q c"
  shows "keeps (\<lambda>s. extends Q old (fst s)) (clone_branch E tree)"
  using assms unfolding clone_branch_def by (intro keeps_rules keeps_extends_git) (simp add: git_read_def)

lemma keeps_fetch_profile [keeps_rules]:
  assumes "\<forall>c. git_read c \<longrightarrow> Q c"
  shows "keeps (\<lambda>s. extends Q old (fst s)) (fetch_profile E ref)"
  using assms unfolding fetch_profile_def by (intro keeps_rules keeps_extends_git) (simp add: git_read_def)

lemma keeps_work_file [keeps_rules]:
  "keeps I a \<Longrightarrow> keeps I b \<Longrightarrow> (\<And>s. keeps I (c s)) \<Longrightarrow> keeps I (case f of Missing \<Rightarrow> a | Unreadable \<Rightarrow> b | Text s \<Rightarrow> c s)"
  by (cases f) auto

lemma keeps_load_target [keeps_rules]:
  assumes "\<forall>c. git_read c \<longrightarrow> Q c"
  shows "keeps (\<lambda>s. extends Q old (fst s)) (load_target E repo ent fleet profile)"
proof -
  have opted: "keeps (\<lambda>s. extends Q old (fst s)) (tree_opted_in E tree)" for tree
    unfolding tree_opted_in_def by (intro keeps_rules)
  have app: "keeps (\<lambda>s. extends Q old (fst s)) (app_at E tree)" for tree
    unfolding app_at_def by (intro keeps_rules)
  have other: "keeps (\<lambda>s. extends Q old (fst s)) (integration_clone E repo tree a)" for repo tree a
    unfolding integration_clone_def by (cases "ac_integration a") (auto intro!: keeps_rules opted app assms split: json.split)
  have own: "keeps (\<lambda>s. extends Q old (fst s)) (load_opted E t tree)" for t tree
    unfolding load_opted_def by (intro keeps_rules app other) (auto split: exn.split intro!: keeps_rules)
  have prof: "keeps (\<lambda>s. extends Q old (fst s)) (resolve_profile E repo ref i)" for repo ref i
    unfolding resolve_profile_def Let_def by (intro keeps_rules assms)
  have none: "keeps (\<lambda>s. extends Q old (fst s)) (load_profile E t ref i)" for t ref i
    unfolding load_profile_def by (cases ref) (auto intro!: keeps_rules prof)
  show ?thesis unfolding load_target_def by (intro keeps_rules opted own none assms)
qed

definition apply_reads :: "gh_call \<Rightarrow> bool" where "apply_reads c \<longleftrightarrow> api_read c \<or> git_read c"

lemma keeps_dry_apply_one:
  assumes dry: "aa_dry_run args"
  shows "keeps (\<lambda>s. extends apply_reads old (fst s)) (apply_one A args d fleet r ent)"
proof -
  have r: "reads apply_reads" and g: "\<forall>c. git_read c \<longrightarrow> apply_reads c" by (simp_all add: reads_def apply_reads_def)
  show ?thesis
    unfolding apply_one_def apply_dir_def apply_target_def apply_rules_def Let_def using dry
    by (simp only: if_True) (intro keeps_rules r g)
qed



section \<open>The changes are the writes\<close>

definition change_gh :: "change \<Rightarrow> gh_call" where
  "change_gh c =
     ([''gh'', ''api'', ''--method'', ch_method c, ch_endpoint c] @ (if ch_body c \<noteq> None then [''--input'', ''-''] else []), ch_body c)"

definition writes_of :: "'w ghst \<Rightarrow> gh_call list" where
  "writes_of s = filter (\<lambda>c. \<not> api_read c) (calls s)"

text \<open>A step records what it writes: the changes it adds to the list are the writes it adds to the log.\<close>

definition records :: "(change list \<Rightarrow> ('w ghst, change list) prog) \<Rightarrow> bool" where
  "records m \<longleftrightarrow> (\<forall>cs s cs' s'. m cs s = (Inr cs', s') \<longrightarrow>
     (\<exists>ds. cs' = cs @ ds \<and> writes_of s' = writes_of s @ map change_gh ds))"

lemma recordsD:
  "records m \<Longrightarrow> m cs s = (Inr cs', s') \<Longrightarrow> \<exists>ds. cs' = cs @ ds \<and> writes_of s' = writes_of s @ map change_gh ds"
  unfolding records_def by blast

lemma records_ret: "records ret" "records (\<lambda>cs. ret cs)" by (simp_all add: records_def run)

lemma records_raise: "records (\<lambda>cs. raise e)" by (simp add: records_def run)

lemma records_bind: "records m \<Longrightarrow> records n \<Longrightarrow> records (\<lambda>cs. bindP (m cs) n)"
  by (fastforce simp: records_def sumres)

lemma extends_writes: "extends api_read (calls s) t \<Longrightarrow> writes_of t = writes_of s"
  by (fastforce simp: extends_def writes_of_def list_all_iff filter_empty_conv)

lemma records_read:
  assumes "\<And>old. keeps (extends api_read old) r" "\<And>a. records (k a)"
  shows "records (\<lambda>cs. bindP r (\<lambda>a. k a cs))"
  unfolding records_def
proof (intro allI impI)
  fix cs s cs' s' assume "bindP r (\<lambda>a. k a cs) s = (Inr cs', s')"
  then obtain a t where r: "r s = (Inr a, t)" and k: "k a cs t = (Inr cs', s')" by (auto simp: sumres)
  from keepsD [OF assms(1) r] have "writes_of t = writes_of s" by (simp add: extends_writes)
  with recordsD [OF assms(2) k] show "\<exists>ds. cs' = cs @ ds \<and> writes_of s' = writes_of s @ map change_gh ds" by simp
qed

lemma records_if: "(b \<Longrightarrow> records m) \<Longrightarrow> (\<not> b \<Longrightarrow> records n) \<Longrightarrow> records (\<lambda>cs. if b then m cs else n cs)"
  by (cases b) auto

lemma records_option:
  "(x = None \<Longrightarrow> records m) \<Longrightarrow> (\<And>a. records (f a)) \<Longrightarrow> records (\<lambda>cs. case x of None \<Rightarrow> m cs | Some a \<Rightarrow> f a cs)"
  by (cases x) auto

lemma records_split: "(\<And>a b. records (f a b)) \<Longrightarrow> records (\<lambda>cs. case p of (a, b) \<Rightarrow> f a b cs)" by (cases p) simp

lemma records_foldP: "(\<And>x. records (f x)) \<Longrightarrow> records (foldP f xs)"
proof (induction xs)
  case Nil
  then show ?case by (simp add: records_def run)
next
  case (Cons x xs)
  then show ?case by (simp add: records_bind)
qed

text \<open>A handler that only raises.\<close>

definition raises :: "('s, 'a) prog \<Rightarrow> bool" where "raises h \<longleftrightarrow> (\<forall>s. \<exists>e t. h s = (Inl e, t))"

lemma raises_raise: "raises (raise e)" by (simp add: raises_def run)
lemma raises_if: "raises a \<Longrightarrow> raises b \<Longrightarrow> raises (if c then a else b)" by simp
lemma raises_bind: "(\<And>a. raises (k a)) \<Longrightarrow> raises (bindP (liftE r) k)"
  by (cases r) (auto simp: raises_def bindP_def liftE_def)

lemma records_catch:
  assumes m: "records m" and h: "\<And>e. raises (h e)"
  shows "records (\<lambda>cs. catch (m cs) h)"
  unfolding records_def
proof (intro allI impI)
  fix cs s cs' s' assume "catch (m cs) h s = (Inr cs', s')"
  then have "m cs s = (Inr cs', s')" using h by (auto simp: sumres raises_def) (metis Inl_Inr_False fst_conv)
  with m show "\<exists>ds. cs' = cs @ ds \<and> writes_of s' = writes_of s @ map change_gh ds" by (rule recordsD)
qed

lemma records_write:
  assumes "m \<noteq> ''GET''"
  shows "records (repo_write gh False m e b d)"
proof -
  have "writes_of s' = writes_of s @ [change_gh \<lparr>ch_method = m, ch_endpoint = e, ch_body = b, ch_diff = d\<rparr>]"
    if "request gh m e b False s = (Inr x, s')" for s x s'
  proof -
    from that obtain p where "run_gh gh ([''gh'', ''api'', ''--method'', m, e] @ (if b \<noteq> None then [''--input'', ''-''] else [])) b s = (Inr p, s')"
      by (auto simp: request_def transport_request_def sumres run split: if_splits option.splits)
    then have "calls s' = calls s @ [([''gh'', ''api'', ''--method'', m, e] @ (if b \<noteq> None then [''--input'', ''-''] else []), b)]"
      by (metis calls_run_gh snd_conv)
    with assms show ?thesis by (simp add: writes_of_def api_read_def change_gh_def)
  qed
  then show ?thesis by (fastforce simp: records_def repo_write_def sumres run)
qed

lemma reads_api: "reads api_read" by (simp add: reads_def)

lemmas record_steps = records_ret records_raise records_write records_if records_option records_split records_foldP

lemma records_write_diff: "m \<noteq> ''GET'' \<Longrightarrow> records (write_diff gh False m e want have)"
  unfolding write_diff_def by (intro records_read record_steps keeps_rules)

lemma records_write_switch: "records (write_switch gh False e have want shown)"
  unfolding write_switch_def by (intro record_steps) simp

lemma records_label_step: "records (label_step gh txt False r have label)"
  unfolding label_step_def
  by (intro records_read record_steps keeps_rules) simp_all

lemma records_settings: "records (apply_settings gh txt False r p)"
proof -
  have "records (apply_repository gh False r p)" "records (apply_workflow gh False r p)"
    "records (apply_alerts gh False r p)" "records (apply_fixes gh False r p)" "records (apply_labels gh txt False r p)"
    unfolding apply_repository_def apply_workflow_def apply_alerts_def apply_fixes_def apply_labels_def
    by (intro records_read record_steps keeps_rules reads_api records_write_diff records_write_switch records_label_step; simp)+
  then show ?thesis unfolding apply_settings_def by (intro records_bind)
qed

lemma records_ruleset_step: "records (ruleset_step gh txt dumps False private r by_name ruleset)"
proof -
  have w: "records (ruleset_write gh txt dumps False r by_name ruleset)"
    unfolding ruleset_write_def Let_def
    by (intro records_read record_steps keeps_rules reads_api) simp_all
  show ?thesis unfolding ruleset_step_def
    by (intro records_catch w) (auto split: exn.split intro!: raises_raise raises_if raises_bind)
qed

lemma records_branch: "records (ensure_integration_branch gh txt rename False r i)"
  unfolding ensure_integration_branch_def
  by (intro records_read record_steps keeps_rules reads_api) simp_all

lemma rulesets_record:
  assumes "apply_rulesets gh txt dumps False private r p cs s = (Inr (cs', un), s')"
  shows "\<exists>ds. cs' = cs @ ds \<and> writes_of s' = writes_of s @ map change_gh ds"
proof -
  let ?tail = "\<lambda>v. bindP (liftE (bindE (iter (jor v (JArr []))) named_rulesets)) (\<lambda>by_name.
     bindP (liftE (mapE ruleset_name (p_rulesets p))) (\<lambda>wanted. foldP (ruleset_step gh txt dumps False private r by_name) (p_rulesets p) cs))"
  let ?get = "catch (gh_get gh (repo_path r ''/rulesets'') True)
       (\<lambda>e. if private_refused private e then raise (FrappeNixError ''its plan does not support rulesets'') else raise e)"
  from assms obtain s1 v where "?get s = (Inr v, s1)" and "?tail v s1 = (Inr cs', s')"
    unfolding apply_rulesets_def by (fastforce simp: sumres run)
  then have "bindP ?get ?tail s = (Inr cs', s')" unfolding bindP_eq_Inr_iff by blast
  moreover have "records (\<lambda>cs. bindP ?get (\<lambda>v. bindP (liftE (bindE (iter (jor v (JArr []))) named_rulesets)) (\<lambda>by_name.
     bindP (liftE (mapE ruleset_name (p_rulesets p))) (\<lambda>wanted. foldP (ruleset_step gh txt dumps False private r by_name) (p_rulesets p) cs))))"
    by (intro records_read record_steps keeps_rules reads_api records_ruleset_step)
  ultimately show ?thesis by (rule recordsD [rotated])
qed

text \<open>
  What a run reports as changed is what it wrote: when applying a target's policy for real succeeds, the calls
  of the run that are not \<^verbatim>\<open>GET\<close>s are exactly the reported changes, in order, each with its method, endpoint and
  body, so nothing is written unreported and nothing is reported unwritten.
\<close>

theorem changes_are_the_writes:
  assumes real: "\<not> aa_dry_run args" and res: "apply_target A args t s = (Inr out, s')"
  shows "writes_of s' = writes_of s @ map change_gh (o_changes out)"
proof -
  let ?r = "t_repo t" and ?gh = "ae_gh A" and ?txt = "ae_txt A"
  have dry: "aa_dry_run args = False" using real by simp
  define first where "first p cs = (if aa_rulesets_only args then ret cs
    else bindP (if map_of (p_repository p) ''default_branch'' = None then ret cs
                else bindP (liftE (t_integration t)) (\<lambda>i.
                  ensure_integration_branch ?gh ?txt (aa_rename args) False ?r (text_with ?txt i) cs))
           (apply_settings ?gh ?txt False ?r p))" for p and cs :: "change list"
  define second where "second p cs = (if aa_settings_only args then ret (cs, [])
     else bindP (gh_get ?gh (repo_path ?r []) False) (\<lambda>info.
        bindP (liftE (bindE (dget (jor info (JObj [])) ''private'' JNull) (\<lambda>a.
                      bindE (dget (t_entry t) ''private'' JNull) (\<lambda>b. Inr (truthy a \<or> truthy b))))) (\<lambda>private.
          apply_rules A args private ?r p cs)))" for p and cs :: "change list"
  from res obtain p cs cs' un s1 where first: "first p [] s = (Inr cs, s1)" and second: "second p cs s1 = (Inr (cs', un), s')"
    and out: "o_changes out = cs'"
    unfolding apply_target_def Let_def dry first_def second_def by (auto simp: sumres run plain_outcome_def)
  have "records (first p)"
    unfolding first_def [abs_def] by (intro records_if records_ret records_bind records_settings records_read keeps_rules records_branch)
  from recordsD [OF this first] have s1: "writes_of s1 = writes_of s @ map change_gh cs" by simp
  have "\<exists>ds. cs' = cs @ ds \<and> writes_of s' = writes_of s1 @ map change_gh ds"
  proof (cases "aa_settings_only args")
    case True
    with second show ?thesis by (simp add: second_def run)
  next
    case False
    with second obtain info s2 priv where get: "gh_get ?gh (repo_path ?r []) False s1 = (Inr info, s2)"
      and rules: "apply_rulesets ?gh ?txt (ae_dumps A) False priv ?r p cs s2 = (Inr (cs', un), s')"
      unfolding second_def apply_rules_def dry by (auto simp: sumres run)
    from keepsD [OF keeps_read [OF reads_api] get] have "writes_of s2 = writes_of s1" by (simp add: extends_writes)
    with rulesets_record [OF rules] show ?thesis by simp
  qed
  with s1 out show ?thesis by auto
qed

theorem changes_are_the_writes_witness:
  "\<exists>out s'. apply_target sample_apply sample_args sample_target \<lparr>world = (), calls = []\<rparr> = (Inr out, s') \<and>
     length (o_changes out) = 2 \<and> writes_of s' = map change_gh (o_changes out)"
proof -
  let ?m = "apply_target sample_apply sample_args sample_target \<lparr>world = (), calls = []\<rparr>"
  have "case ?m of (Inr out, s') \<Rightarrow> length (o_changes out) = 2 | _ \<Rightarrow> False" by code_simp
  then obtain out s' where m: "?m = (Inr out, s')" "length (o_changes out) = 2" by (auto split: prod.splits sum.splits)
  with changes_are_the_writes [OF _ m(1)] show ?thesis by (auto simp: sample_args_def writes_of_def)
qed

section \<open>One outcome for each repository\<close>

lemma load_profile_repo: "yields (\<lambda>t'. t_repo t' = t_repo t) (load_profile E t ref i)"
  unfolding load_profile_def by (cases ref) (intro yields_rules; simp)+

lemma load_opted_repo: "yields (\<lambda>t'. t_repo t' = t_repo t) (load_opted E t tree)"
  unfolding load_opted_def Let_def by (intro yields_rules; simp)

lemma load_target_repo: "yields (\<lambda>t. t_repo t = repo) (load_target E repo ent fleet profile)"
  unfolding load_target_def
  by (intro yields_rules)
    (use load_opted_repo [of "new_target repo ent"] load_profile_repo [of "new_target repo ent\<lparr>t_root := Some tree\<rparr>" for tree]
     in \<open>simp_all add: new_target_def\<close>)

definition code_of :: "out_status \<Rightarrow> nat" where
  "code_of st = (case st of Done \<Rightarrow> CLEAN | Left \<Rightarrow> CLEAN | Fails \<Rightarrow> DRIFT | Bad \<Rightarrow> INVALID)"

definition named_outcome :: "string \<Rightarrow> outcome \<Rightarrow> bool" where
  "named_outcome r x \<longleftrightarrow> o_repo x = r \<and> o_code x = code_of (o_status x)"

lemma named_outcomes [simp]:
  "named_outcome r (plain_outcome r st (code_of st))" "code_of Done = CLEAN" "code_of Left = CLEAN" "code_of Fails = DRIFT"
  "code_of Bad = INVALID"
  "named_outcome r (plain_outcome r Done CLEAN)" "named_outcome r (plain_outcome r Left CLEAN)" "named_outcome r (plain_outcome r Fails DRIFT)"
  "named_outcome r (plain_outcome r Bad INVALID)"
  "named_outcome r (x\<lparr>o_changes := cs, o_unknown := un\<rparr>) = named_outcome r x"
  by (simp_all add: named_outcome_def plain_outcome_def code_of_def)

lemma apply_target_outcome [yields_rules]: "yields (named_outcome (t_repo t)) (apply_target A args t)"
  unfolding apply_target_def Let_def by (intro yields_rules) simp

lemma apply_dir_outcome [yields_rules]: "yields (named_outcome r) (apply_dir A args pf r ent)"
  unfolding apply_dir_def by (intro yields_rules) simp

lemma apply_one_outcome [yields_rules]: "yields (named_outcome r) (apply_one A args d fleet r ent)"
proof -
  have "yields (named_outcome r) (apply_target A args t)" if "t_repo t = r" for t
    using apply_target_outcome [of t A args] that by simp
  then show ?thesis
    unfolding apply_one_def
    by (intro yields_option yields_on_fst apply_dir_outcome yields_bindP [where m = "liftE r" for r] yields_if yields_ret
        yields_bindP_of [OF load_target_repo]) simp_all
qed

lemma apply_caught_outcome:
  assumes "apply_caught A args d fleet pair s = (Inr out, s')"
  shows "named_outcome (fst pair) out"
proof -
  have "yields (named_outcome (fst pair)) (apply_caught A args d fleet pair)"
    unfolding apply_caught_def
    by (intro yields_split yields_catch) (auto split: exn.split intro!: yields_rules)
  from yieldsD [OF this assms] show ?thesis .
qed

lemma outcomes_fold:
  assumes "foldP (\<lambda>pair (c, outs). bindP (apply_caught A args d fleet pair) (\<lambda>out. ret (max c (o_code out), outs @ [out])))
    pairs (c0, outs0) s = (Inr (c, outs), s')"
  shows "\<exists>new. outs = outs0 @ new \<and> map o_repo new = map fst pairs \<and> c = foldl max c0 (map o_code new) \<and>
    list_all (\<lambda>x. o_code x = code_of (o_status x)) new"
  using assms
proof (induction pairs arbitrary: c0 outs0 s)
  case (Cons pair pairs)
  then obtain out t where out: "apply_caught A args d fleet pair s = (Inr out, t)" and
    rest: "foldP (\<lambda>pair (c, outs). bindP (apply_caught A args d fleet pair) (\<lambda>out. ret (max c (o_code out), outs @ [out])))
      pairs (max c0 (o_code out), outs0 @ [out]) t = (Inr (c, outs), s')"
    by (auto simp: sumres ret_eq)
  from Cons.IH [OF rest] obtain new where "outs = outs0 @ out # new" "map o_repo new = map fst pairs"
    "c = foldl max (max c0 (o_code out)) (map o_code new)" "list_all (\<lambda>x. o_code x = code_of (o_status x)) new" by auto
  with apply_caught_outcome [OF out] show ?case by (intro exI [of _ "out # new"]) (simp add: named_outcome_def)
qed (simp add: run)

definition apply_pairs :: "'w apply_env \<Rightarrow> apply_args \<Rightarrow> exn + (string \<times> json) list \<times> json" where
  "apply_pairs A args =
     fleet_entries (ae_fleet_errors A) (ae_files A)
       (if aa_self args \<and> aa_repos args = [] \<and> \<not> aa_all args then [SELF_REPO] else aa_repos args) (aa_all args) (aa_fleet args)"

lemma apply_run_parts:
  assumes "apply_run rmtree A args s = (Inr (c, outs), s')"
  shows "\<exists>pairs fleet. apply_pairs A args = Inr (pairs, fleet) \<and> map o_repo outs = map fst pairs \<and>
    c = foldl max CLEAN (map o_code outs) \<and> list_all (\<lambda>x. o_code x = code_of (o_status x)) outs \<and> snd s' = []"
proof -
  from assms obtain d pairs fleet where p: "apply_pairs A args = Inr (pairs, fleet)"
    and fin: "finallyP (foldP (\<lambda>pair (c, outs). bindP (apply_caught A args d fleet pair) (\<lambda>out. ret (max c (o_code out), outs @ [out])))
      pairs (CLEAN, [])) (cleanup (\<lambda>w d. rmtree d w)) s = (Inr (c, outs), s')"
    unfolding apply_run_def apply_pairs_def Let_def by (auto simp: sumres run split: if_splits)
  from finallyP_InrD [OF fin] obtain t where f: "foldP (\<lambda>pair (c, outs). bindP (apply_caught A args d fleet pair) (\<lambda>out. ret (max c (o_code out), outs @ [out])))
      pairs (CLEAN, []) s = (Inr (c, outs), t)" and "cleanup (\<lambda>w d. rmtree d w) t = (Inr (), s')" by blast
  then have "snd s' = []" by (auto simp: cleanup_def split: prod.splits)
  with p outcomes_fold [OF f] show ?thesis by auto
qed

text \<open>
  One failing repository never hides the others: a run that ends has one outcome for each repository it was given, in
  order; the exit code is 0 exactly when every one was applied or skipped, 2 as soon as one has a configuration error and
  1 otherwise; and no temporary clone is left to remove.
\<close>

theorem every_repository_reported:
  assumes "apply_run rmtree A args s = (Inr (c, outs), s')"
  shows "(\<exists>pairs fleet. apply_pairs A args = Inr (pairs, fleet) \<and> map o_repo outs = map fst pairs) \<and>
    c = (if Bad \<in> o_status ` set outs then 2 else if Fails \<in> o_status ` set outs then 1 else 0) \<and> snd s' = []"
proof -
  from apply_run_parts [OF assms] have c: "c = foldl max 0 (map o_code outs)"
    and codes: "list_all (\<lambda>x. o_code x = code_of (o_status x)) outs" by (auto simp: CLEAN_def)
  have "foldl max a (map o_code xs) = max a (if Bad \<in> o_status ` set xs then 2 else if Fails \<in> o_status ` set xs then 1 else 0)"
    if "list_all (\<lambda>x. o_code x = code_of (o_status x)) xs" "0 \<le> a" for a and xs :: "outcome list"
    using that
  proof (induction xs arbitrary: a)
    case (Cons x xs)
    then show ?case
      by (cases "o_status x") (auto simp: code_of_def CLEAN_def DRIFT_def INVALID_def image_iff)
  qed simp
  from this [OF codes, of 0] c apply_run_parts [OF assms] show ?thesis by auto
qed

theorem every_repository_reported_witness:
  "\<exists>c outs s'. apply_run (\<lambda>_ w. w) sample_apply (sample_args\<lparr>aa_repos := [''o/r'', ''o/s'']\<rparr>) (\<lparr>world = (), calls = []\<rparr>, []) =
     (Inr (c, outs), s') \<and> map o_repo outs = [''o/r'', ''o/s''] \<and> c = 0"
proof -
  let ?a = "sample_args\<lparr>aa_repos := [''o/r'', ''o/s'']\<rparr>"
  let ?m = "apply_run (\<lambda>_ w. w) sample_apply ?a (\<lparr>world = (), calls = []\<rparr>, [])"
  have "case ?m of (Inr (c, outs), s') \<Rightarrow> map o_status outs = [Done, Done] | _ \<Rightarrow> False" by code_simp
  then obtain c outs s' where m: "?m = (Inr (c, outs), s')" "map o_status outs = [Done, Done]"
    by (auto split: prod.splits sum.splits)
  have p: "apply_pairs sample_apply ?a = Inr ([(''o/r'', JObj []), (''o/s'', JObj [])], JObj [])" by code_simp
  have st: "o_status ` set outs = {Done}" using m(2) by (metis image_set list.set(1) list.set(2) insert_absorb2)
  from every_repository_reported [OF m(1)] p st have "map o_repo outs = [''o/r'', ''o/s'']" "c = 0" by auto
  with m(1) show ?thesis by (intro exI [of _ c] exI [of _ outs] exI [of _ s']) (rule conjI, assumption, rule conjI)
qed

end
