(* ===== verification/RepoRules.thy ===== *)
theory RepoRules
  imports RepoApply "HOL-Library.Multiset"
begin

text \<open>
  The rulesets of repo-policy against GitHub's answers: a ruleset GitHub reports back as it was written compares
  equal to it, and the checks the policy requires are the ones auto-merge looks for.
\<close>

section \<open>A ruleset GitHub gives back\<close>

text \<open>A rule as GitHub answers it: the same type, and parameters that agree on every key the rule sets.\<close>

definition rule_echo :: "json \<Rightarrow> json \<Rightarrow> bool" where
  "rule_echo r r' \<longleftrightarrow>
     (case (r, r') of
        (JObj t, JObj t') \<Rightarrow>
          (\<exists>ty. map_of t ''type'' = Some (JStr ty)) \<and> map_of t' ''type'' = map_of t ''type'' \<and>
          (case map_of t ''parameters'' of
             None \<Rightarrow> map_of t' ''parameters'' = None
           | Some (JObj ps) \<Rightarrow>
               (case map_of t' ''parameters'' of Some (JObj ps') \<Rightarrow> \<forall>k \<in> fst ` set ps. map_of ps' k = map_of ps k | _ \<Rightarrow> False)
           | Some _ \<Rightarrow> False)
      | _ \<Rightarrow> False)"

definition rule_type :: "json \<Rightarrow> string" where
  "rule_type r = (case r of JObj t \<Rightarrow> (case map_of t ''type'' of Some (JStr ty) \<Rightarrow> ty | _ \<Rightarrow> []) | _ \<Rightarrow> [])"

lemma rule_echoE:
  assumes "rule_echo r r'"
  obtains t t' ty where "r = JObj t" "r' = JObj t'" "map_of t ''type'' = Some (JStr ty)" "map_of t' ''type'' = Some (JStr ty)"
    "(map_of t ''parameters'' = None \<and> map_of t' ''parameters'' = None) \<or>
     (\<exists>ps ps'. map_of t ''parameters'' = Some (JObj ps) \<and> map_of t' ''parameters'' = Some (JObj ps') \<and>
        (\<forall>k \<in> fst ` set ps. map_of ps' k = map_of ps k))"
  using assms unfolding rule_echo_def by (auto split: json.splits option.splits)

lemma rule_key_echo: "rule_echo r r' \<Longrightarrow> rule_key r = Inr (rule_type r) \<and> rule_key r' = Inr (rule_type r)"
  by (elim rule_echoE) (simp add: rule_key_def rule_type_def text_key_def)

lemma rule_type_echo: "rule_echo r r' \<Longrightarrow> rule_type r' = rule_type r"
  by (elim rule_echoE) (simp add: rule_type_def)

lemma pick_fields_cong:
  "(\<And>k. k \<in> set ks \<Longrightarrow> map_of t' k = map_of t k) \<Longrightarrow> pick_fields ks (JObj t') = pick_fields ks (JObj t)"
  unfolding pick_fields_def by (simp cong: mapE_cong)

lemma normal_rule_echo:
  assumes echo: "rule_echo r r'" and want: "map_of wanted (rule_type r) = Some r"
  shows "normal_rule wanted r' = normal_rule wanted r"
  using echo
proof (rule rule_echoE)
  fix t t' ty
  assume r: "r = JObj t" "r' = JObj t'" and ty: "map_of t ''type'' = Some (JStr ty)" "map_of t' ''type'' = Some (JStr ty)"
    and ps: "(map_of t ''parameters'' = None \<and> map_of t' ''parameters'' = None) \<or>
     (\<exists>ps ps'. map_of t ''parameters'' = Some (JObj ps) \<and> map_of t' ''parameters'' = Some (JObj ps') \<and>
        (\<forall>k \<in> fst ` set ps. map_of ps' k = map_of ps k))"
  have k: "rule_key r = Inr (rule_type r)" "rule_key r' = Inr (rule_type r)" using rule_key_echo [OF echo] by auto
  from ps show ?thesis
  proof
    assume "map_of t ''parameters'' = None \<and> map_of t' ''parameters'' = None"
    then show ?thesis using k want r ty by (simp add: normal_rule_def Let_def py_in_def)
  next
    assume "\<exists>ps ps'. map_of t ''parameters'' = Some (JObj ps) \<and> map_of t' ''parameters'' = Some (JObj ps') \<and>
        (\<forall>k \<in> fst ` set ps. map_of ps' k = map_of ps k)"
    then obtain ps ps' where p: "map_of t ''parameters'' = Some (JObj ps)" "map_of t' ''parameters'' = Some (JObj ps')"
      and same: "\<forall>k \<in> fst ` set ps. map_of ps' k = map_of ps k" by blast
    have j: "jor (JObj x) (JObj []) = JObj x" for x by (simp add: jor_def)
    have "pick_fields (map fst ps) (JObj ps') = pick_fields (map fst ps) (JObj ps)"
      using same by (intro pick_fields_cong) auto
    then show ?thesis using k want r ty p
      by (simp add: normal_rule_def Let_def py_in_def j table_of_def)
  qed
qed

text \<open>Sorting by a key the elements do not share.\<close>

lemma sort_key_map: "sort_key f (map g xs) = map g (sort_key (f \<circ> g) xs)"
proof (induction xs)
  case (Cons x xs)
  have "insort_key f (g x) (map g ys) = map g (insort_key (f \<circ> g) x ys)" for ys by (induction ys) auto
  with Cons show ?case by (simp add: comp_def)
qed simp

lemma sort_key_same: "\<forall>x \<in> set xs. f x = g x \<Longrightarrow> sort_key f xs = sort_key g xs"
proof (induction xs)
  case (Cons x xs)
  have "insort_key f x ys = insort_key g x ys" if "\<forall>y \<in> set (x # ys). f y = g y" for ys
    using that by (induction ys) auto
  with Cons show ?case by simp
qed simp

lemma sort_key_distinct:
  assumes "mset xs = mset ys" "inj_on f (set xs)"
  shows "sort_key f xs = sort_key f ys"
  by (rule sort_key_inj_key_eq) (use assms in simp_all)

lemma sorted_by_types:
  assumes "\<forall>r \<in> set rs. rule_key r = Inr (rule_type r)"
  shows "sorted_by rule_key rs = Inr (sort_key rule_type rs)"
proof -
  have "mapE rule_key rs = Inr (map rule_type rs)" using assms by (induction rs) auto
  moreover have "zip (map rule_type rs) rs = map (\<lambda>r. (rule_type r, r)) rs" by (induction rs) auto
  ultimately show ?thesis by (simp add: sorted_by_def sort_key_map comp_def)
qed

text \<open>A ruleset GitHub gives back: the same fields, and the rules, in any order.\<close>

definition ruleset_echo :: "jtable \<Rightarrow> json list \<Rightarrow> jtable \<Rightarrow> bool" where
  "ruleset_echo t rules t' \<longleftrightarrow>
     (\<forall>k \<in> set RULESET_FIELDS. map_of t k \<noteq> None \<longrightarrow> map_of t' k = map_of t k) \<and>
     (\<exists>g rules'. map_of t' ''rules'' = Some (JArr rules') \<and> mset rules' = mset (map g rules) \<and> (\<forall>r \<in> set rules. rule_echo r (g r)))"

lemma normalise_echo:
  assumes t: "map_of t ''rules'' = Some (JArr rules)" and d: "distinct (map rule_type rules)" and echo: "ruleset_echo t rules t'"
  shows "normalise dumps (JObj t') (JObj t) = normalise dumps (JObj t) JNull"
proof -
  from echo obtain g rules' where fields: "\<forall>k \<in> set RULESET_FIELDS. map_of t k \<noteq> None \<longrightarrow> map_of t' k = map_of t k"
    and t': "map_of t' ''rules'' = Some (JArr rules')" and ms: "mset rules' = mset (map g rules)"
    and g: "\<forall>r \<in> set rules. rule_echo r (g r)"
    unfolding ruleset_echo_def by blast
  have like: "jor (JObj t) (JObj t') = JObj t" "jor JNull (JObj t) = JObj t" using t by (auto simp: jor_def)
  let ?fields = "filter (\<lambda>k. map_of t k \<noteq> None) RULESET_FIELDS"
  have "normal_field dumps (JObj t') k = normal_field dumps (JObj t) k" if "k \<in> set ?fields" for k
    unfolding normal_field_def using fields that by simp
  then have f: "mapE (normal_field dumps (JObj t')) ?fields = mapE (normal_field dumps (JObj t)) ?fields"
    by (intro mapE_cong) (rule refl)
  have lists: "list_get (JObj t) ''rules'' = Inr rules" "list_get (JObj t') ''rules'' = Inr rules'"
    using t t' by (simp_all add: list_get_def)
  have key: "\<forall>r \<in> set rules. rule_key r = Inr (rule_type r)" and gkey: "\<forall>r \<in> set rules. rule_key (g r) = Inr (rule_type r)"
    using g rule_key_echo by blast+
  have gtype: "\<forall>r \<in> set rules. rule_type (g r) = rule_type r"
    using g rule_type_echo by blast
  have set': "set rules' = g ` set rules" using mset_eq_setD [OF ms] by simp
  have key': "\<forall>r \<in> set rules'. rule_key r = Inr (rule_type r)" unfolding set' using gkey gtype by simp
  have wanted: "mapE (\<lambda>r. bindE (rule_key r) (\<lambda>k. Inr (k, r))) rules = Inr (map (\<lambda>r. (rule_type r, r)) rules)"
    using key by (induction rules) auto
  let ?w = "dict_of (map (\<lambda>r. (rule_type r, r)) rules)"
  have w: "map_of ?w (rule_type r) = Some r" if "r \<in> set rules" for r
  proof -
    have "map_of (rev (map (\<lambda>r. (rule_type r, r)) rules)) (rule_type r) = Some r"
      by (rule map_of_is_SomeI) (use that d in \<open>simp_all add: rev_map [symmetric] comp_def\<close>)
    then show ?thesis by simp
  qed
  have inj: "inj_on rule_type (set rules')"
    unfolding set' using d gtype by (intro inj_onI) (auto simp: distinct_map dest: inj_onD)
  have "sort_key rule_type rules' = sort_key rule_type (map g rules)" by (rule sort_key_distinct [OF ms inj])
  also have "\<dots> = map g (sort_key rule_type rules)"
  proof -
    have "sort_key (rule_type \<circ> g) rules = sort_key rule_type rules" using gtype by (intro sort_key_same) simp
    then show ?thesis by (simp add: sort_key_map)
  qed
  finally have s: "sort_key rule_type rules' = map g (sort_key rule_type rules)" .
  have "mapE (normal_rule ?w) (map g xs) = mapE (normal_rule ?w) xs" if "set xs \<subseteq> set rules" for xs
    using that
  proof (induction xs)
    case (Cons x xs)
    then have "normal_rule ?w (g x) = normal_rule ?w x" using g w by (intro normal_rule_echo) auto
    with Cons show ?case by simp
  qed simp
  then have "mapE (normal_rule ?w) (sort_key rule_type rules') = mapE (normal_rule ?w) (sort_key rule_type rules)"
    by (simp add: s)
  then show ?thesis
    by (simp add: normalise_def Let_def like table_of_def f lists wanted sorted_by_types key key' del: not_None_eq)
qed

lemma bindP_Inr: "m s = (Inr a, t) \<Longrightarrow> bindP m k s = k a t" by (simp add: bindP_def)

text \<open>
  C22. Applying a ruleset twice changes nothing: when GitHub gives back a ruleset with the fields, the rules and the
  parameters it was written with, in whatever order and with whatever parameters of its own added, the two compare equal
  in their normal form, so the run sees no difference and writes nothing.
\<close>

theorem ruleset_echo_is_clean:
  assumes name: "map_of t ''name'' = Some (JStr name)" and rules: "map_of t ''rules'' = Some (JArr rules)"
    and types: "distinct (map rule_type rules)" and echo: "ruleset_echo t rules t'"
    and known: "map_of by_name name = Some (JObj cur)" "map_of cur ''id'' = Some i"
    and read: "gh_get gh (repo_path r (''/rulesets/'' @ text_with txt i)) False s = (Inr (JObj t'), s')"
    and normal: "normalise dumps (JObj t) JNull = Inr w" and wf: "wf_json w"
  shows "ruleset_write gh txt dumps dry r by_name (JObj t) cs s = (Inr cs, s')"
proof -
  have "map_of t' ''rules'' \<noteq> None" using echo by (auto simp: ruleset_echo_def)
  then have "t' \<noteq> []" by auto
  then have j: "jor (JObj t') (JObj []) = JObj t'" by (simp add: jor_def)
  have n: "normalise dumps (JObj t') (JObj t) = Inr w" using normalise_echo [OF rules types echo] normal by simp
  have "ruleset_name (JObj t) = Inr name" using name by (simp add: ruleset_name_def ditem_def text_key_def)
  moreover have "ditem (JObj cur) ''id'' = Inr i" using known by (simp add: ditem_def)
  ultimately show ?thesis using known(1)
    by (simp add: ruleset_write_def Let_def bindP_Inr [where m = "gh_get gh (repo_path r (''/rulesets/'' @ text_with txt i)) False", OF read, simplified] j n normal
        py_eq_refl [OF wf] ret_eq)
qed

text \<open>A GitHub that answers every paginated (or every other) call with a text.\<close>

definition answering :: "bool \<Rightarrow> string \<Rightarrow> unit gh" where
  "answering pages text w argv stdin =
     (Some \<lparr>code = 0, stdout = (if (''--paginate'' \<in> set argv) = pages then text else []), stderr = []\<rparr>, ())"

definition sample_rules_policy :: jtable where
  "sample_rules_policy = [(''name'', JStr ''main''),
     (''rules'', JArr [JObj [(''type'', JStr ''deletion'')],
        JObj [(''type'', JStr ''pull_request''), (''parameters'', JObj [(''y'', JInt 2)])]])]"

definition sample_echo :: jtable where
  "sample_echo = [(''id'', JInt 7), (''name'', JStr ''main''),
     (''rules'', JArr [JObj [(''type'', JStr ''pull_request''), (''parameters'', JObj [(''x'', JInt 1), (''y'', JInt 2)])],
        JObj [(''type'', JStr ''deletion'')]]), (''source'', JStr ''o/r'')]"

definition sample_echo_text :: string where
  "sample_echo_text = json_text (''{'' @ [CHR 0x27] @ ''id'' @ [CHR 0x27] @ '':7,'' @ [CHR 0x27] @ ''name'' @ [CHR 0x27] @ '':'' @ [CHR 0x27] @ ''main'' @ [CHR 0x27] @ '','' @ [CHR 0x27] @ ''rules'' @ [CHR 0x27] @ '':[{'' @ [CHR 0x27] @ ''type'' @ [CHR 0x27] @ '':'' @ [CHR 0x27] @ ''pull_request'' @ [CHR 0x27] @ '','' @ [CHR 0x27] @ ''parameters'' @ [CHR 0x27] @ '':{'' @ [CHR 0x27] @ ''x'' @ [CHR 0x27] @ '':1,'' @ [CHR 0x27] @ ''y'' @ [CHR 0x27] @ '':2}},{'' @ [CHR 0x27] @ ''type'' @ [CHR 0x27] @ '':'' @ [CHR 0x27] @ ''deletion'' @ [CHR 0x27] @ ''}],'' @ [CHR 0x27] @ ''source'' @ [CHR 0x27] @ '':'' @ [CHR 0x27] @ ''o/r'' @ [CHR 0x27] @ ''}'')"

definition sample_back :: "json \<Rightarrow> json" where
  "sample_back r = (if rule_type r = ''pull_request''
     then JObj [(''type'', JStr ''pull_request''), (''parameters'', JObj [(''x'', JInt 1), (''y'', JInt 2)])] else r)"

theorem ruleset_echo_is_clean_witness:
  "\<exists>s'. ruleset_write (answering False sample_echo_text) (\<lambda>_. ''7'') (\<lambda>_. []) False ''o/r'' [(''main'', JObj [(''id'', JInt 7)])]
     (JObj sample_rules_policy) [] \<lparr>world = (), calls = []\<rparr> = (Inr [], s')"
proof -
  let ?rs = "[JObj [(''type'', JStr ''deletion'')], JObj [(''type'', JStr ''pull_request''), (''parameters'', JObj [(''y'', JInt 2)])]]"
  let ?read = "gh_get (answering False sample_echo_text) (repo_path ''o/r'' (''/rulesets/'' @ text_with (\<lambda>_. ''7'') (JInt 7))) False
    \<lparr>world = (), calls = []\<rparr>"
  have "fst ?read = Inr (JObj sample_echo)" by code_simp
  then obtain s' where read: "?read = (Inr (JObj sample_echo), s')" by (metis prod.collapse)
  have "case normalise (\<lambda>_. []) (JObj sample_rules_policy) JNull of Inr w \<Rightarrow> wf_json w | _ \<Rightarrow> False" by code_simp
  then obtain w where w: "normalise (\<lambda>_. []) (JObj sample_rules_policy) JNull = Inr w" "wf_json w" by (auto split: sum.splits)
  have fields: "list_all (\<lambda>k. map_of sample_rules_policy k = None \<or> map_of sample_echo k = map_of sample_rules_policy k) RULESET_FIELDS"
    by code_simp
  have rules: "map_of sample_rules_policy ''rules'' = Some (JArr ?rs)" by (simp add: sample_rules_policy_def)
  have "map_of sample_echo ''rules'' = Some (JArr (rev (map sample_back ?rs)))" by code_simp
  moreover have "\<forall>r \<in> set ?rs. rule_echo r (sample_back r)" by (simp add: rule_echo_def sample_back_def rule_type_def)
  ultimately have "ruleset_echo sample_rules_policy ?rs sample_echo"
    using fields unfolding ruleset_echo_def list_all_iff
    by (intro conjI exI [of _ sample_back] exI [of _ "rev (map sample_back ?rs)"]) auto
  from ruleset_echo_is_clean [OF _ rules _ this _ _ read w, of "''main''" "[(''main'', JObj [(''id'', JInt 7)])]" "[(''id'', JInt 7)]"]
  show ?thesis by (auto simp: sample_rules_policy_def rule_type_def)
qed

section \<open>The checks auto-merge needs\<close>

lemma foldE_checks:
  "foldE (\<lambda>check acc. bindE (dget check ''context'' JNull) (\<lambda>c. if truthy c then set_add c acc else Inr acc))
     (map required_check gs) acc = Inr (acc @ map (\<lambda>g. JStr (''ci / '' @ g)) gs)"
  by (induction gs arbitrary: acc) (simp_all add: required_check_def set_add_def is_dict_def is_list_def)

definition checks_rule :: "json list \<Rightarrow> json" where
  "checks_rule checks = JObj [(''type'', JStr ''required_status_checks''),
     (''parameters'', JObj [(''required_status_checks'', JArr checks)])]"

definition other_rule :: "json \<Rightarrow> bool" where
  "other_rule r \<longleftrightarrow> (\<exists>t. r = JObj t \<and> map_of t ''type'' \<noteq> Some (JStr ''required_status_checks''))"

lemma rule_contexts_see:
  assumes "\<forall>x \<in> set rules. x = checks_rule (map required_check gs) \<or> other_rule x"
  shows "\<exists>cs. rule_contexts (JArr rules) acc = Inr (acc @ cs) \<and>
    (checks_rule (map required_check gs) \<in> set rules \<longrightarrow> (\<forall>g \<in> set gs. JStr (''ci / '' @ g) \<in> set cs))"
  using assms
proof (induction rules arbitrary: acc)
  case Nil
  then show ?case by (simp add: rule_contexts_def)
next
  case (Cons x xs)
  show ?case
  proof (cases "x = checks_rule (map required_check gs)")
    case True
    have j: "jor (JObj [(''required_status_checks'', v)]) d = JObj [(''required_status_checks'', v)]" for v d by (simp add: jor_def)
    from Cons obtain cs where "rule_contexts (JArr xs) (acc @ map (\<lambda>g. JStr (''ci / '' @ g)) gs) =
        Inr ((acc @ map (\<lambda>g. JStr (''ci / '' @ g)) gs) @ cs)" by (metis list.set_intros(2))
    then have "rule_contexts (JArr (x # xs)) acc = Inr (acc @ map (\<lambda>g. JStr (''ci / '' @ g)) gs @ cs)"
      by (simp add: rule_contexts_def True checks_rule_def j foldE_checks)
    then show ?thesis by auto
  next
    case False
    with Cons.prems have "other_rule x" by simp
    then obtain t where x: "x = JObj t" "map_of t ''type'' \<noteq> Some (JStr ''required_status_checks'')" by (auto simp: other_rule_def)
    then have ty: "\<exists>v. dget x ''type'' JNull = Inr v \<and> v \<noteq> JStr ''required_status_checks''" by (cases "map_of t ''type''") auto
    then have "rule_contexts (JArr (x # xs)) acc = rule_contexts (JArr xs) acc" by (auto simp: rule_contexts_def)
    with Cons False show ?thesis by (auto simp: x)
  qed
qed

lemma set_add_grows: "set_add v acc = Inr acc' \<Longrightarrow> set acc \<subseteq> set acc'"
  by (auto simp: set_add_def split: if_splits)

lemma foldE_grows:
  assumes "\<And>x a b. f x a = Inr b \<Longrightarrow> set a \<subseteq> set b" "foldE f xs a = Inr b"
  shows "set a \<subseteq> set b"
  using assms(2)
proof (induction xs arbitrary: a)
  case (Cons x xs)
  then show ?case by (auto simp: sumres dest!: assms(1))
qed simp

lemma protection_grows: "protection_contexts info acc = Inr acc' \<Longrightarrow> set acc \<subseteq> set acc'"
  unfolding protection_contexts_def Let_def
  by (elim bindE_InrE) (rule subset_trans; erule foldE_grows [rotated]; auto simp: sumres split: if_splits dest: set_add_grows)

lemma required_checks_gates:
  assumes "required_checks cfg gates = Inr checks"
    and "cfg_get cfg ''repo-policy'' ''required-checks'' (JStr ''gates'') = Inr (JStr ''gates'')"
  shows "checks = map required_check (filter (\<lambda>g. g \<in> set gates) GATE_ORDER)"
proof -
  have "list_ex (py_eq (JStr g)) (map JStr gates) \<longleftrightarrow> g \<in> set gates" for g by (auto simp: list_ex_iff)
  with assms show ?thesis by (simp add: required_checks_def)
qed

lemma yields_protection: "yields (\<lambda>acc'. set acc \<subseteq> set acc') (liftE (protection_contexts info acc))"
  by (auto simp: yields_def run dest!: protection_grows)

lemma yields_exn: "(\<And>st. yields P (f st)) \<Longrightarrow> yields P g \<Longrightarrow> yields P (case e of GitHubError st \<Rightarrow> f st | _ \<Rightarrow> g)"
  by (cases e) auto

text \<open>
  The policy and auto-merge agree: when the branch's rules, as GitHub answers them, hold the rule the policy
  renders for the enabled gates, the safety rule of auto-merge finds every gate required, whatever the branch's
  other rules and its classic protection say.
\<close>

theorem policy_protects_gates:
  assumes checks: "required_checks cfg gates = Inr checks"
    and on: "cfg_get cfg ''repo-policy'' ''required-checks'' (JStr ''gates'') = Inr (JStr ''gates'')"
    and gates: "gates \<noteq> []" "set gates \<subseteq> set GATE_ORDER"
    and read: "gh_get gh (''repos/'' @ repo @ ''/rules/branches/'' @ branch) True s = (Inr (JArr rules), s1)"
    and rules: "checks_rule checks \<in> set rules" "\<forall>x \<in> set rules. x = checks_rule checks \<or> other_rule x"
    and res: "gates_protected gh repo branch gates s = (Inr ok, s')"
  shows "ok"
proof -
  have c: "checks = map required_check (filter (\<lambda>g. g \<in> set gates) GATE_ORDER)" by (rule required_checks_gates [OF checks on])
  from rule_contexts_see [of rules "filter (\<lambda>g. g \<in> set gates) GATE_ORDER" "[]"] rules gates(2)
  obtain cs where cs: "rule_contexts (JArr rules) [] = Inr cs" and all: "\<forall>g \<in> set gates. JStr (''ci / '' @ g) \<in> set cs"
    unfolding c by (auto simp: subset_iff)
  have j: "jor (JArr rules) (JArr []) = JArr rules" using rules(1) by (cases rules) (auto simp: jor_def)
  define ep where "ep = ''repos/'' @ repo @ ''/rules/branches/'' @ branch"
  note read' = read [folded ep_def]
  let ?read = "bindP (gh_get gh ep True)
     (\<lambda>rules. bindP (liftE (rule_contexts (jor rules (JArr [])) [])) (\<lambda>cs. ret (cs, True)))"
  have "?read s = (Inr (cs, True), s1)" by (simp add: bindP_eq_Inr_iff read' j cs ret_eq run)
  then have r1: "ignore_github_error ?read ([], False) s = (Inr (cs, True), s1)"
    by (simp add: ignore_github_error_def catch_def)
  have "yields (\<lambda>x. set cs \<subseteq> set (fst x) \<and> snd x) (ignore_github_error (bindP (gh_get gh e False)
      (\<lambda>info. bindP (liftE (protection_contexts (jor info (JObj [])) cs)) (\<lambda>cs'. ret (cs', True)))) (cs, True))" for e
    unfolding ignore_github_error_def
    by (intro yields_rules yields_exn yields_bindP_of [OF yields_protection]) simp_all
  then have "set cs \<subseteq> set (fst x) \<and> snd x" if "ignore_github_error (bindP (gh_get gh e False)
      (\<lambda>info. bindP (liftE (protection_contexts (jor info (JObj [])) cs)) (\<lambda>cs'. ret (cs', True)))) (cs, True) t = (Inr x, t')" for e x t t'
    using that by (rule yieldsD)
  with res r1 all gates(1) show ?thesis
    unfolding gates_protected_def required_contexts_def ep_def [symmetric]
    by (fastforce simp: sumres run gate_contexts_def list_all_iff)
qed

definition sample_protected :: string where
  "sample_protected = json_text (''[[{'' @ [CHR 0x27] @ ''type'' @ [CHR 0x27] @ '':'' @ [CHR 0x27] @ ''deletion'' @ [CHR 0x27] @ ''},{'' @ [CHR 0x27] @ ''type'' @ [CHR 0x27] @ '':'' @ [CHR 0x27] @ ''required_status_checks'' @ [CHR 0x27] @ '','' @ [CHR 0x27] @ ''parameters'' @ [CHR 0x27] @ '':{'' @ [CHR 0x27] @ ''required_status_checks'' @ [CHR 0x27] @ '':[{'' @ [CHR 0x27] @ ''context'' @ [CHR 0x27] @ '':'' @ [CHR 0x27] @ ''ci / lint'' @ [CHR 0x27] @ '','' @ [CHR 0x27] @ ''integration_id'' @ [CHR 0x27] @ '':15368}]}}]]'')"

theorem policy_protects_gates_witness:
  "\<exists>s'. gates_protected (answering True sample_protected) ''o/r'' ''main'' [''lint''] \<lparr>world = (), calls = []\<rparr> = (Inr True, s')"
proof -
  let ?cfg = "JObj []" and ?s = "\<lparr>world = (), calls = []\<rparr>" and ?rule = "checks_rule [required_check ''lint'']"
  have checks: "required_checks ?cfg [''lint''] = Inr [required_check ''lint'']"
    "cfg_get ?cfg ''repo-policy'' ''required-checks'' (JStr ''gates'') = Inr (JStr ''gates'')" by code_simp+
  let ?read = "gh_get (answering True sample_protected) (''repos/'' @ ''o/r'' @ ''/rules/branches/'' @ ''main'') True ?s"
  have "fst ?read = Inr (JArr [JObj [(''type'', JStr ''deletion'')], ?rule])" by code_simp
  then obtain s1 where read: "?read = (Inr (JArr [JObj [(''type'', JStr ''deletion'')], ?rule]), s1)" by (metis prod.collapse)
  obtain res s' where r: "gates_protected (answering True sample_protected) ''o/r'' ''main'' [''lint''] ?s = (res, s')"
    by (meson surj_pair)
  have "\<not> isl (fst (gates_protected (answering True sample_protected) ''o/r'' ''main'' [''lint''] ?s))" by code_simp
  with r obtain b where b: "gates_protected (answering True sample_protected) ''o/r'' ''main'' [''lint''] ?s = (Inr b, s')"
    by (cases res) simp_all
  have b_true: "b"
  proof (rule policy_protects_gates [OF checks _ _ read _ _ b])
    show "set [''lint''] \<subseteq> set GATE_ORDER" by (simp add: GATE_ORDER_def)
    show "?rule \<in> set [JObj [(''type'', JStr ''deletion'')], ?rule]" by simp
    show "\<forall>x \<in> set [JObj [(''type'', JStr ''deletion'')], ?rule]. x = ?rule \<or> other_rule x" by (simp add: other_rule_def)
  qed simp
  with b show ?thesis by auto
qed

end
