(* ===== verification/RepoAudit.thy ===== *)
theory RepoAudit
  imports RepoApply FlakeLock
begin

text \<open>
  \<^verbatim>\<open>commands/repo/audit.py\<close>: the scorecard, seventeen rows.  A repository's audit keeps what more than one row
  reads in a cache, so a program's state is the log and world of CiGithub.thy with the cache beside it.
  Parameters: the programs a row runs (\<^verbatim>\<open>uv\<close>), \<^verbatim>\<open>urlopen\<close>, the checkout's files, \<^verbatim>\<open>git ls-files\<close>, packaging's
  \<^verbatim>\<open>Version\<close> with its order, and the clock.
\<close>

datatype colour = Green | Amber | Red | NA | Unknown

record row =
  row_id :: string
  row_item :: string
  row_status :: colour
  row_detail :: string

definition ITEMS :: "(string \<times> string \<times> string option) list" where
  "ITEMS =
     [(''A1'', ''default branch is the integration branch'', Some ''repo-policy''),
      (''A2'', ''release branch equals the newest release tag'', Some ''releases''),
      (''A3'', ''settings and rulesets match repo-policy/'', Some ''repo-policy''),
      (''A4'', ''managed files present, sync --check clean'', None),
      (''A5'', ''gates green on the integration branch, nightly green'', Some ''ci''),
      (''A6'', ''ty: 0 diagnostics'', Some ''python-types''),
      (''A7'', ''tsc clean, no hand-written frappe globals'', Some ''typescript''),
      (''A8'', ''coverage at or above the floor, testmap passing'', Some ''tests''),
      (''A9'', ''no legacy tooling'', None),
      (''A10'', ''dependency bumps merge with relock; frappe-nix and profile current'', Some ''dependabot''),
      (''A11'', ''a release cut by release-please'', Some ''releases''),
      (''A12'', ''README blocks in sync'', Some ''readme''),
      (''A13'', ''icons pass'', Some ''icons''),
      (''A14'', ''listing check clean, empty semgrep baseline'', Some ''listing''),
      (''A15'', ''screenshots refreshed by nightly'', Some ''screenshots''),
      (''A16'', ''registry index at the newest tag'', Some ''listing''),
      (''A17'', ''docs site served over https'', Some ''docs-site'')]"

definition STALE_DAYS :: int where "STALE_DAYS = 14"

record ('w, 'v) audit_env =
  au_apply :: "'w apply_env"
  au_exec :: "'w \<Rightarrow> string \<Rightarrow> bool \<Rightarrow> string list \<Rightarrow> (int \<times> string) option \<times> 'w"
  au_fetch :: "'w \<Rightarrow> string \<Rightarrow> string option \<times> 'w"
  au_report :: "'w \<Rightarrow> work_file"
  au_files :: "'w \<Rightarrow> string \<Rightarrow> string \<Rightarrow> work_file"
  au_ls :: "'w \<Rightarrow> string \<Rightarrow> string \<Rightarrow> exn + string list"
  au_version :: "string \<Rightarrow> 'v option"
  au_major :: "'v \<Rightarrow> int"
  au_vtext :: "'v \<Rightarrow> string"
  au_age :: "'w \<Rightarrow> string \<Rightarrow> exn + int"
  au_depth :: nat
  au_error :: "exn \<Rightarrow> string"
  au_issue_gh :: "string \<Rightarrow> 'w gh"

text \<open>\<open>au_age\<close> is the age of a time stamp in microseconds; \<open>au_error\<close> the first line of an error's text;
  \<open>au_issue_gh\<close> is \<^verbatim>\<open>gh\<close> with another token in its environment.\<close>

abbreviation au_gh :: "('w, 'v) audit_env \<Rightarrow> 'w gh" where "au_gh U \<equiv> ae_gh (au_apply U)"
abbreviation au_text :: "('w, 'v) audit_env \<Rightarrow> json \<Rightarrow> string" where "au_text U \<equiv> text_with (ae_txt (au_apply U))"

section \<open>What the rows read once\<close>

type_synonym cache = "(string \<times> (nat option + json)) list"
type_synonym ('w, 'a) aud = "('w ghst \<times> cache, 'a) prog"

definition give :: "nat option + json \<Rightarrow> ('w, json) aud" where
  "give v = (case v of Inl st \<Rightarrow> raise (GitHubError st) | Inr x \<Rightarrow> ret x)"

definition cache_put :: "string \<Rightarrow> nat option + json \<Rightarrow> ('w, unit) aud" where
  "cache_put k v = on_snd (\<lambda>c. (Inr (), AList.update k v c))"

definition once :: "string \<Rightarrow> ('w, json) aud \<Rightarrow> ('w, json) aud" where
  "once k m =
     bindP (on_snd get_state) (\<lambda>c. case map_of c k of
       Some v \<Rightarrow> give v
     | None \<Rightarrow>
         bindP (catch (bindP m (\<lambda>x. ret (Inr x))) (\<lambda>e. case e of GitHubError st \<Rightarrow> ret (Inl st) | _ \<Rightarrow> raise e)) (\<lambda>v.
         bindP (cache_put k v) (\<lambda>_. give v)))"

definition api :: "('w, 'v) audit_env \<Rightarrow> string \<Rightarrow> bool \<Rightarrow> ('w, json) aud" where
  "api U endpoint pages = on_fst (gh_get (au_gh U) endpoint pages)"

definition api_or_none :: "('w, 'v) audit_env \<Rightarrow> string \<Rightarrow> ('w, json) aud" where
  "api_or_none U endpoint = on_fst (get_or_none (au_gh U) endpoint)"

definition look :: "('w \<Rightarrow> 'a) \<Rightarrow> ('w, 'a) aud" where "look f = on_fst (in_world f)"

definition a_tree :: "target \<Rightarrow> ('w, string) aud" where
  "a_tree t = (case t_root t of None \<Rightarrow> raise (FrappeNixError ''was not cloned'') | Some r \<Rightarrow> ret r)"

definition a_file :: "('w, 'v) audit_env \<Rightarrow> target \<Rightarrow> string \<Rightarrow> ('w, work_file) aud" where
  "a_file U t path = bindP (a_tree t) (\<lambda>r. look (\<lambda>w. au_files U w r path))"

text \<open>\<^verbatim>\<open>run_tool\<close>: \<^verbatim>\<open>frappe-nix\<close> at a revision, or the running one.\<close>

definition tool_cmd :: "string list \<Rightarrow> string option \<Rightarrow> string list" where
  "tool_cmd argv spec =
     (case spec of
        Some s \<Rightarrow> if s = [] then ''frappe-nix'' # argv
                  else [''uv'', ''tool'', ''run'', ''--python'', ''3.14'', ''--from'', s, ''frappe-nix''] @ argv
      | None \<Rightarrow> ''frappe-nix'' # argv)"

definition run_tool :: "('w, 'v) audit_env \<Rightarrow> string \<Rightarrow> string list \<Rightarrow> string option \<Rightarrow> ('w ghst, int \<times> string) prog" where
  "run_tool U tree argv spec =
     (\<lambda>s. let skew = (case spec of Some p \<Rightarrow> CHR ''@'' \<in> set p | None \<Rightarrow> False); cmd = tool_cmd argv spec in
       (case au_exec U (world s) tree skew cmd of
          (r, w) \<Rightarrow> ((case r of None \<Rightarrow> Inl (FrappeNixError ''a program is not on PATH'') | Some p \<Rightarrow> Inr p),
                     s\<lparr>world := w, calls := calls s @ [(cmd, None)]\<rparr>)))"

definition fetch_url :: "('w, 'v) audit_env \<Rightarrow> string \<Rightarrow> ('w, string option) aud" where
  "fetch_url U url = on_fst (\<lambda>s. case au_fetch U (world s) url of (r, w) \<Rightarrow> (Inr r, s\<lparr>world := w\<rparr>))"

definition json_or_none :: "work_file \<Rightarrow> json" where
  "json_or_none f = (case f of Text s \<Rightarrow> (case loads s of Some v \<Rightarrow> v | None \<Rightarrow> JNull) | _ \<Rightarrow> JNull)"

text \<open>\<^verbatim>\<open>download_report\<close>: into a fresh directory; \<open>au_report\<close> is the file there afterwards.\<close>

definition download_report :: "('w, 'v) audit_env \<Rightarrow> string \<Rightarrow> string \<Rightarrow> ('w, json) aud" where
  "download_report U r run_id =
     bindP (on_fst (cli (au_gh U) [''run'', ''download'', run_id, ''-R'', r, ''-n'', ''test-report'', ''-D'', ''report'']))
       (\<lambda>p. if code p \<noteq> 0 then ret JNull else bindP (look (au_report U)) (\<lambda>f. ret (json_or_none f)))"

section \<open>Shared reads\<close>

definition lock_of :: "work_file \<Rightarrow> exn + json" where
  "lock_of f = (case f of Missing \<Rightarrow> Inl (EnvError ''does not exist'') | Unreadable \<Rightarrow> Inl (EnvError ''is unreadable'')
     | Text s \<Rightarrow> parse_lock s)"

definition locked_of :: "(json \<times> node) option \<Rightarrow> json" where
  "locked_of hit = (case hit of None \<Rightarrow> JObj [] | Some (_, nd) \<Rightarrow>
     (case map_of nd ''locked'' of Some v \<Rightarrow> jor v (JObj []) | None \<Rightarrow> JObj []))"

definition pinned_frappe_nix :: "('w, 'v) audit_env \<Rightarrow> work_file \<Rightarrow> exn + json \<times> json" where
  "pinned_frappe_nix U f =
     bindE (lock_of f) (\<lambda>lk. bindE (node_at (au_depth U) lk [JStr ''frappe-nix'']) (\<lambda>hit. Inr (lk, locked_of hit)))"

definition tool_spec :: "('w, 'v) audit_env \<Rightarrow> target \<Rightarrow> string \<Rightarrow> ('w, json) aud" where
  "tool_spec U t against =
     (if t_root t = None then ret JNull
      else bindP (a_file U t ''flake.lock'') (\<lambda>f.
        if f = Missing then ret JNull
        else bindP (liftE (bindE (pinned_frappe_nix U f) (\<lambda>(_, locked).
                bindE (dget locked ''owner'' JNull) (\<lambda>a. bindE (dget locked ''repo'' JNull) (\<lambda>b. bindE (dget locked ''rev'' JNull) (\<lambda>c. Inr (a, b, c))))))) (\<lambda>(owner, name, rv).
          if \<not> (truthy owner \<and> truthy name \<and> truthy rv) then ret JNull
          else (let base = au_text U owner @ ''/'' @ au_text U name in
            bindP (if against \<noteq> ''latest'' then ret rv
                   else bindP (api_or_none U (''repos/'' @ base @ ''/releases/latest'')) (\<lambda>rel.
                        bindP (liftE (dget (jor rel (JObj [])) ''tag_name'' JNull)) (\<lambda>tag. ret (jor tag rv)))) (\<lambda>v.
              ret (JStr (''frappe-nix-tools @ git+https://github.com/'' @ base @ ''@'' @ au_text U v @
                         ''#subdirectory=py/frappe_nix_tools'')))))))"

definition tool_key :: "string list \<Rightarrow> string" where "tool_key argv = ''tool:'' @ join '' '' argv"

definition tool_value :: "json \<Rightarrow> int \<times> string" where
  "tool_value v = (case v of JArr [JInt c, JStr out] \<Rightarrow> (c, out) | _ \<Rightarrow> (0, []))"

text \<open>\<^verbatim>\<open>tool\<close>: the result is kept as a pair; an error is not.\<close>

definition tool :: "('w, 'v) audit_env \<Rightarrow> target \<Rightarrow> string \<Rightarrow> string list \<Rightarrow> ('w, int \<times> string) aud" where
  "tool U t against argv =
     bindP (on_snd get_state) (\<lambda>c. case map_of c (tool_key argv) of
       Some (Inr v) \<Rightarrow> ret (tool_value v)
     | _ \<Rightarrow>
         bindP (a_tree t) (\<lambda>tree.
         bindP (once ''spec'' (tool_spec U t against)) (\<lambda>spec.
         bindP (on_fst (run_tool U tree argv (case spec of JStr s \<Rightarrow> Some s | _ \<Rightarrow> None))) (\<lambda>(cd, out).
         bindP (cache_put (tool_key argv) (Inr (JArr [JInt cd, JStr out]))) (\<lambda>_. ret (cd, out))))))"

definition sync_report :: "('w, 'v) audit_env \<Rightarrow> target \<Rightarrow> string \<Rightarrow> ('w, json) aud" where
  "sync_report U t against =
     once ''sync'' (bindP (tool U t against [''sync'', ''--check'', ''--format'', ''json'']) (\<lambda>(_, out).
       ret (case loads out of Some v \<Rightarrow> v | None \<Rightarrow> JNull)))"

definition info_of :: "('w, 'v) audit_env \<Rightarrow> target \<Rightarrow> ('w, json) aud" where
  "info_of U t = once ''info'' (bindP (api U (repo_path (t_repo t) []) False) (\<lambda>v. ret (jor v (JObj []))))"

definition tags_of :: "('w, 'v) audit_env \<Rightarrow> target \<Rightarrow> ('w, json) aud" where
  "tags_of U t = once ''tags'' (bindP (api U (repo_path (t_repo t) ''/tags'') True) (\<lambda>v. ret (jor v (JArr []))))"

definition release_tag ::
  "('w, 'v) audit_env \<Rightarrow> string \<Rightarrow> json \<Rightarrow> json \<Rightarrow> json \<Rightarrow> exn + ('v \<times> json) list" where
  "release_tag U pre sch major tag =
     bindE (dget tag ''name'' (JStr [])) (\<lambda>n. case n of
       JStr name \<Rightarrow>
         if \<not> startswith name pre then Inr []
         else (case au_version U (drop (length pre) name) of
             None \<Rightarrow> Inr []
           | Some v \<Rightarrow> if sch = JStr ''frappe-major'' \<and> \<not> py_eq (JInt (au_major U v)) major then Inr [] else Inr [(v, tag)])
     | _ \<Rightarrow> Inl AttributeError)"

text \<open>Newest first; \<^verbatim>\<open>sorted(reverse=True)\<close> keeps the order of equal versions.\<close>

definition release_tags :: "('w, 'v::linorder) audit_env \<Rightarrow> target \<Rightarrow> ('w, ('v \<times> json) list) aud" where
  "release_tags U t =
     bindP (liftE (bindE (dget (t_cfg t) ''releases'' (JObj [])) (\<lambda>rel.
              bindE (dget rel ''tag-prefix'' (JStr ''v'')) (\<lambda>p. bindE (dget rel ''version-scheme'' JNull) (\<lambda>s.
              bindE (dget (t_cfg t) ''frappe-major'' JNull) (\<lambda>m. Inr (p, s, m))))))) (\<lambda>(p, sch, major).
     bindP (tags_of U t) (\<lambda>ts.
     bindP (liftE (case p of
              JStr pre \<Rightarrow> bindE (iter ts) (\<lambda>tags. bindE (mapE (release_tag U pre sch major) tags) (\<lambda>vss. Inr (concat vss)))
            | _ \<Rightarrow> Inl TypeError)) (\<lambda>vs.
       ret (rev (sort_key fst (rev vs))))))"

definition latest_run :: "('w, 'v) audit_env \<Rightarrow> target \<Rightarrow> string \<Rightarrow> json \<Rightarrow> ('w, json) aud" where
  "latest_run U t workflow branch =
     once (''run:'' @ workflow @ '':'' @ au_text U branch)
       (bindP (api U (repo_path (t_repo t) (''/actions/workflows/'' @ workflow @ ''/runs?status=completed&per_page=1'' @
                (if truthy branch then ''&branch='' @ au_text U branch else []))) False) (\<lambda>v.
        liftE (bindE (dget (jor v (JObj [])) ''workflow_runs'' (JArr [])) (\<lambda>runs.
          if \<not> truthy runs then Inr JNull else case runs of JArr (x # _) \<Rightarrow> Inr x | _ \<Rightarrow> Inl KeyError))))"

definition run_jobs :: "('w, 'v) audit_env \<Rightarrow> target \<Rightarrow> json \<Rightarrow> ('w, json) aud" where
  "run_jobs U t run =
     bindP (liftE (ditem run ''id'')) (\<lambda>i.
     once (''jobs:'' @ au_text U i)
       (bindP (api U (repo_path (t_repo t) (''/actions/runs/'' @ au_text U i @ ''/jobs?per_page=100'')) False) (\<lambda>v.
        liftE (dget (jor v (JObj [])) ''jobs'' (JArr [])))))"

text \<open>The conclusions of a run's jobs by their names (of the jobs that have one).\<close>

definition job_conclusions :: "json \<Rightarrow> exn + (string \<times> json) list" where
  "job_conclusions jobs =
     bindE (iter jobs) (\<lambda>js. bindE (mapE (\<lambda>j. bindE (dget j ''name'' JNull) (\<lambda>n. bindE (dget j ''conclusion'' JNull) (\<lambda>c.
        Inr (case n of JStr s \<Rightarrow> [(s, c)] | _ \<Rightarrow> [])))) js) (\<lambda>kvs. Inr (dict_of (concat kvs))))"

definition test_report :: "('w, 'v) audit_env \<Rightarrow> target \<Rightarrow> ('w, json) aud" where
  "test_report U t =
     bindP (liftE (t_integration t)) (\<lambda>i. bindP (latest_run U t ''ci.yml'' i) (\<lambda>run.
       if \<not> truthy run then ret JNull
       else once ''report'' (bindP (liftE (ditem run ''id'')) (\<lambda>rid. download_report U (t_repo t) (au_text U rid)))))"

definition pyproject_doc :: "('w, 'v) audit_env \<Rightarrow> target \<Rightarrow> ('w, json) aud" where
  "pyproject_doc U t =
     bindP (a_file U t ''pyproject.toml'') (\<lambda>f. ret (case f of
        Text s \<Rightarrow> (case te_toml (ae_target (au_apply U)) s of Some v \<Rightarrow> v | None \<Rightarrow> JObj [])
      | _ \<Rightarrow> JObj []))"

section \<open>The rows\<close>

type_synonym verdict_row = "colour \<times> string"

definition j2 :: "json \<Rightarrow> string \<Rightarrow> string \<Rightarrow> exn + json" where
  "j2 v a b = bindE (ditem v a) (\<lambda>x. ditem x b)"

definition red_or :: "string list \<Rightarrow> colour \<times> string \<Rightarrow> colour \<times> string" where
  "red_or problems other = (if problems \<noteq> [] then (Red, join ''; '' problems) else other)"

definition a1 :: "('w, 'v) audit_env \<Rightarrow> target \<Rightarrow> ('w, verdict_row) aud" where
  "a1 U t =
     bindP (info_of U t) (\<lambda>info. bindP (liftE (dget info ''default_branch'' JNull)) (\<lambda>d. bindP (liftE (t_integration t)) (\<lambda>i.
       ret (if py_eq d i then (Green, au_text U d)
            else (Red, ''default '' @ au_text U d @ '', integration '' @ au_text U i)))))"

definition a2 :: "('w, 'v::linorder) audit_env \<Rightarrow> target \<Rightarrow> ('w, verdict_row) aud" where
  "a2 U t =
     bindP (liftE (t_release_branch (ae_txt (au_apply U)) t)) (\<lambda>vb.
     if vb = [] then ret (NA, ''no release branch under main+tags'')
     else bindP (release_tags U t) (\<lambda>newest. case newest of
         [] \<Rightarrow> ret (Amber, ''no release tag yet'')
       | (_, tag) # _ \<Rightarrow>
           bindP (api_or_none U (repo_path (t_repo t) (''/git/ref/heads/'' @ vb))) (\<lambda>ref.
             if ref = JNull then ret (Red, vb @ '' does not exist'')
             else bindP (liftE (bindE (j2 ref ''object'' ''sha'') (\<lambda>s. bindE (j2 tag ''commit'' ''sha'') (\<lambda>w.
                    bindE (ditem tag ''name'') (\<lambda>n. Inr (s, w, n)))))) (\<lambda>(sha, want, n).
                  ret (if py_eq sha want then (Green, vb @ '' = '' @ au_text U n)
                       else (Red, vb @ '' is '' @ take 12 (au_text U sha) @ '', '' @ au_text U n @ '' is '' @ take 12 (au_text U want)))))))"

definition change_call :: "change \<Rightarrow> string" where "change_call c = ch_method c @ '' '' @ ch_endpoint c"

text \<open>The settings, then the rulesets of a public repository, in a dry run.\<close>

definition a3_rules :: "('w, 'v) audit_env \<Rightarrow> target \<Rightarrow> repo_policy \<Rightarrow> change list \<Rightarrow> ('w, change list option) aud" where
  "a3_rules U t p cs =
     catch (bindP (on_fst (apply_rulesets (au_gh U) (ae_txt (au_apply U)) (ae_dumps (au_apply U)) True False (t_repo t) p cs))
             (\<lambda>(cs', _). ret (Some cs')))
       (\<lambda>e. if is_frappe_nix_error e then ret None else raise e)"

definition a3 :: "('w, 'v) audit_env \<Rightarrow> target \<Rightarrow> ('w, verdict_row) aud" where
  "a3 U t =
     (let A = au_apply U in
      bindP (info_of U t) (\<lambda>info.
      bindP (liftE (bindE (documentation_url (te_toml (ae_target A)) (ae_listing A) t)
               (plan_policy (ae_txt A) (ae_policy A) t (if t_opted_in t then ''full'' else ''provisional'')))) (\<lambda>p.
      bindP (on_fst (apply_settings (au_gh U) (ae_txt A) True (t_repo t) p [])) (\<lambda>cs.
      bindP (liftE (dget info ''private'' JNull)) (\<lambda>private.
      bindP (if truthy private then ret (Some (cs, ''rulesets n/a (private)''))
             else bindP (a3_rules U t p cs) (\<lambda>x. ret (map_option (\<lambda>cs'. (cs', [])) x))) (\<lambda>r.
        ret (case r of
               None \<Rightarrow> (Unknown, ''rulesets not readable'')
             | Some (cs', detail) \<Rightarrow>
                 if cs' \<noteq> [] then (Red, join ''; '' (map change_call cs')) else (Green, detail))))))))"

definition all_texts :: "json list \<Rightarrow> exn + string list" where
  "all_texts vs = mapE (\<lambda>v. case v of JStr s \<Rightarrow> Inr s | _ \<Rightarrow> Inl TypeError) vs"

definition a4 :: "('w, 'v) audit_env \<Rightarrow> target \<Rightarrow> string \<Rightarrow> ('w, verdict_row) aud" where
  "a4 U t against =
     bindP (sync_report U t against) (\<lambda>report.
       if report = JNull then ret (Unknown, ''sync --check gave no report'')
       else liftE (bindE (dget report ''status'' JNull) (\<lambda>st.
              if st = JStr ''clean'' then Inr (Green, [])
              else bindE (list_get report ''files'') (\<lambda>fs. bindE (mapE (\<lambda>f. ditem f ''path'') (take 5 fs)) (\<lambda>ps.
                   bindE (all_texts ps) (\<lambda>ss. Inr (Red, au_text U st @ '': '' @ join '', '' ss)))))))"

definition conclusion_of :: "json \<Rightarrow> exn + json" where "conclusion_of run = dget run ''conclusion'' JNull"

definition gate_problem :: "('w, 'v) audit_env \<Rightarrow> (string \<times> json) list \<Rightarrow> string \<Rightarrow> string list" where
  "gate_problem U jobs gate =
     (let c = map_of jobs (''ci / '' @ gate) in
      if c = Some (JStr ''success'') then []
      else [''ci / '' @ gate @ '' '' @ (case c of Some v \<Rightarrow> au_text U v | None \<Rightarrow> ''absent'')])"

definition a5_ci :: "('w, 'v) audit_env \<Rightarrow> target \<Rightarrow> json \<Rightarrow> ('w, string list) aud" where
  "a5_ci U t run =
     bindP (liftE (conclusion_of run)) (\<lambda>c.
     bindP (run_jobs U t run) (\<lambda>js. bindP (liftE (job_conclusions js)) (\<lambda>jobs.
       ret ((if c = JStr ''success'' then [] else [''ci.yml '' @ au_text U c]) @
            concat (map (gate_problem U jobs) (filter (\<lambda>g. g \<noteq> ''pr-policy'') (t_gates t)))))))"

definition a5_policy :: "('w, 'v) audit_env \<Rightarrow> target \<Rightarrow> ('w, string list) aud" where
  "a5_policy U t =
     (if \<not> t_modules t ''commits'' then ret []
      else bindP (latest_run U t ''pr-policy.yml'' JNull) (\<lambda>pr.
        if \<not> truthy pr then ret []
        else bindP (liftE (conclusion_of pr)) (\<lambda>c.
             ret (if c = JStr ''success'' then [] else [''pr-policy '' @ au_text U c]))))"

definition a5_nightly :: "('w, 'v) audit_env \<Rightarrow> target \<Rightarrow> ('w, string list) aud" where
  "a5_nightly U t =
     bindP (liftE (cfg_get (t_cfg t) ''ci'' ''nightly'' (JBool True))) (\<lambda>on.
       if \<not> truthy on then ret []
       else bindP (latest_run U t ''nightly.yml'' JNull) (\<lambda>run.
         if run = JNull then ret [''nightly never ran'']
         else bindP (liftE (conclusion_of run)) (\<lambda>c.
              ret (if c = JStr ''success'' then []
                   else [''nightly '' @ (if truthy run then au_text U c else ''never ran'')]))))"

definition a5 :: "('w, 'v) audit_env \<Rightarrow> target \<Rightarrow> ('w, verdict_row) aud" where
  "a5 U t =
     bindP (liftE (t_integration t)) (\<lambda>i. bindP (latest_run U t ''ci.yml'' i) (\<lambda>run.
       if \<not> truthy run then ret (Red, ''no completed ci.yml run on '' @ au_text U i)
       else bindP (a5_ci U t run) (\<lambda>p1. bindP (a5_policy U t) (\<lambda>p2. bindP (a5_nightly U t) (\<lambda>p3.
            ret (red_or (p1 @ p2 @ p3) (Green, [])))))))"

definition a6 :: "('w, 'v) audit_env \<Rightarrow> target \<Rightarrow> ('w, verdict_row) aud" where
  "a6 U t =
     bindP (test_report U t) (\<lambda>report. liftE (
       bindE (dget (jor report (JObj [])) ''ty'' JNull) (\<lambda>ty.
         if \<not> is_dict ty then Inr (Unknown, ''no ty result in the test report'')
         else bindE (dget ty ''diagnostics'' JNull) (\<lambda>d. bindE (dget ty ''ignores'' (JInt 0)) (\<lambda>ig.
              Inr (if py_eq d (JInt 0) then (Green, au_text U ig @ '' ignores'') else (Red, au_text U d @ '' diagnostics'')))))))"

definition json_len :: "json \<Rightarrow> exn + nat" where
  "json_len v = (case v of JArr xs \<Rightarrow> Inr (length xs) | JObj kvs \<Rightarrow> Inr (length kvs) | JStr s \<Rightarrow> Inr (length s) | _ \<Rightarrow> Inl TypeError)"

definition a7_job :: "('w, 'v) audit_env \<Rightarrow> target \<Rightarrow> ('w, string list) aud" where
  "a7_job U t =
     (if ''typecheck'' \<notin> set (t_gates t) then ret []
      else bindP (liftE (t_integration t)) (\<lambda>i. bindP (latest_run U t ''ci.yml'' i) (\<lambda>run.
           bindP (if truthy run then bindP (run_jobs U t run) (\<lambda>js. liftE (job_conclusions js)) else ret []) (\<lambda>jobs.
             ret (gate_problem U jobs ''typecheck'')))))"

definition a7 :: "('w, 'v) audit_env \<Rightarrow> target \<Rightarrow> string \<Rightarrow> ('w, verdict_row) aud" where
  "a7 U t against =
     bindP (a7_job U t) (\<lambda>p1.
     bindP (tool U t against [''compat'']) (\<lambda>(cd, _).
     let problems = p1 @ (if cd \<noteq> 0 then [''frappe-nix compat failed''] else []) in
     if problems \<noteq> [] then ret (red_or problems (Green, []))
     else liftE (bindE (cfg_get (t_cfg t) ''typescript'' ''check-js'' JNull) (\<lambda>cj.
            bindE (dget (t_cfg t) ''unchecked-js'' JNull) (\<lambda>uj.
              if truthy cj \<and> truthy uj
              then bindE (json_len uj) (\<lambda>n. Inr (Amber, show_nat n @ '' unchecked-js file(s)'')) else Inr (Green, []))))))"

text \<open>\<^verbatim>\<open>a < b\<close> of two values: numbers or texts.\<close>

definition py_less :: "json \<Rightarrow> json \<Rightarrow> exn + bool" where
  "py_less a b =
     (case (num_of a, num_of b) of
        (Some x, Some y) \<Rightarrow> Inr (x < y)
      | _ \<Rightarrow> (case (a, b) of (JStr s, JStr u) \<Rightarrow> Inr (s < u) | _ \<Rightarrow> Inl TypeError))"

definition a8 :: "('w, 'v) audit_env \<Rightarrow> target \<Rightarrow> ('w, verdict_row) aud" where
  "a8 U t =
     bindP (test_report U t) (\<lambda>report.
       if \<not> truthy report then ret (Unknown, ''no test report'')
       else liftE (
         bindE (dget report ''coverage'' JNull) (\<lambda>cov0. let cov = jor cov0 (JObj []) in
         bindE (dget cov ''percent'' JNull) (\<lambda>pc. bindE (dget cov ''fail_under'' JNull) (\<lambda>fl.
         bindE (dget report ''testmap'' JNull) (\<lambda>tm. bindE (dget (jor tm (JObj [])) ''untested'' (JArr [])) (\<lambda>un.
           if pc = JNull \<or> fl = JNull then Inr (Unknown, ''no coverage in the test report'')
           else bindE (py_less pc fl) (\<lambda>below.
             if below \<or> truthy un
             then bindE (json_len un) (\<lambda>n. Inr (Red, ''coverage '' @ au_text U pc @ '' (floor '' @ au_text U fl @ ''); untested '' @ show_nat n))
             else bindE (bindE (cfg_get (t_cfg t) ''tests'' ''coverage'' (JObj [])) (\<lambda>c. dget c ''target'' (JInt 80))) (\<lambda>tg.
                  bindE (py_less fl tg) (\<lambda>low. bindE (dget (t_cfg t) ''coverage-omit'' JNull) (\<lambda>om.
                    Inr (if low \<or> truthy om
                         then (Amber, ''coverage '' @ au_text U pc @ '', floor '' @ au_text U fl @ '' below the target '' @ au_text U tg)
                         else (Green, ''coverage '' @ au_text U pc)))))))))))))"

definition legacy_paths :: "json \<Rightarrow> exn + string list" where
  "legacy_paths report =
     bindE (list_get report ''files'') (\<lambda>fs.
     bindE (filterE (\<lambda>f. bindE (dget f ''problem'' (JStr [])) (\<lambda>p. py_in (JStr ''legacy'') p)) fs) (\<lambda>ls.
     bindE (mapE (\<lambda>f. ditem f ''path'') ls) all_texts))"

definition a9 :: "('w, 'v) audit_env \<Rightarrow> target \<Rightarrow> string \<Rightarrow> ('w, verdict_row) aud" where
  "a9 U t against =
     bindP (sync_report U t against) (\<lambda>report.
     bindP (liftE (legacy_paths (jor report (JObj [])))) (\<lambda>legacy.
     bindP (a_tree t) (\<lambda>tree.
     bindP (bindP (look (\<lambda>w. au_ls U w tree '':(glob)**/public/dist/**'')) liftE) (\<lambda>dist.
     bindP (a_file U t ''.pre-commit-config.yaml'') (\<lambda>f.
     bindP (case f of Missing \<Rightarrow> ret [] | Unreadable \<Rightarrow> raise OSError | Text s \<Rightarrow> ret s) (\<lambda>pre.
     let problems =
           (if legacy \<noteq> [] then [''legacy files: '' @ join '', '' legacy] else []) @
           (if dist \<noteq> [] then [show_nat (length dist) @ '' tracked file(s) under public/dist''] else []) @
           map (\<lambda>n. n @ '' in .pre-commit-config.yaml'') (filter (\<lambda>n. contains_sub n (lower pre)) [''pyupgrade'', ''codesorter''])
     in if problems \<noteq> [] then ret (red_or problems (Green, []))
        else bindP (pyproject_doc U t) (\<lambda>doc.
             liftE (bindE (dget doc ''tool'' (JObj [])) (\<lambda>tl. bindE (dget tl ''ruff'' (JObj [])) (\<lambda>rf.
               bindE (dget rf ''extend-exclude'' JNull) (\<lambda>ex.
                 Inr (if truthy ex then (Amber, ''tool.ruff.extend-exclude: '' @ au_text U ex) else (Green, []))))))))))))) "

text \<open>\<^verbatim>\<open>_days_since(stamp) > n\<close>.\<close>

definition DAY :: int where "DAY = 86400 * 1000000"

definition older_than :: "('w, 'v) audit_env \<Rightarrow> int \<Rightarrow> json \<Rightarrow> ('w, bool) aud" where
  "older_than U n stamp =
     (if \<not> truthy stamp then ret (n < 0)
      else case stamp of
          JStr s \<Rightarrow> bindP (bindP (look (\<lambda>w. au_age U w s)) liftE) (\<lambda>a. ret (n * DAY < a))
        | _ \<Rightarrow> raise AttributeError)"

definition text_field :: "json \<Rightarrow> string \<Rightarrow> json \<Rightarrow> exn + string" where
  "text_field v k d = bindE (dget v k d) (\<lambda>x. case x of JStr s \<Rightarrow> Inr s | _ \<Rightarrow> Inl AttributeError)"

definition merged_nix :: "json \<Rightarrow> exn + bool" where
  "merged_nix p =
     bindE (dget p ''merged_at'' JNull) (\<lambda>m.
       if \<not> truthy m then Inr False
       else bindE (dget p ''head'' (JObj [])) (\<lambda>h. bindE (text_field h ''ref'' (JStr [])) (\<lambda>r.
            Inr (startswith r ''dependabot/nix/''))))"

definition relock_commit :: "json \<Rightarrow> exn + bool" where
  "relock_commit c =
     bindE (dget c ''commit'' (JObj [])) (\<lambda>k. bindE (text_field k ''message'' (JStr [])) (\<lambda>m.
       Inr (startswith m ''chore(deps): relock and sync'')))"

definition a10_merge :: "('w, 'v) audit_env \<Rightarrow> target \<Rightarrow> ('w, string list) aud" where
  "a10_merge U t =
     bindP (api U (repo_path (t_repo t) ''/pulls?state=closed&per_page=100&sort=updated&direction=desc'') False) (\<lambda>v.
     bindP (liftE (bindE (iter (jor v (JArr []))) (filterE merged_nix))) (\<lambda>nix. case nix of
       [] \<Rightarrow> ret []
     | pr # _ \<Rightarrow>
         bindP (liftE (ditem pr ''number'')) (\<lambda>n.
         bindP (api U (repo_path (t_repo t) (''/pulls/'' @ au_text U n @ ''/commits'')) False) (\<lambda>cv.
         bindP (liftE (bindE (iter (jor cv (JArr []))) (\<lambda>cs. bindE (anyE relock_commit cs) (\<lambda>rl.
                bindE (dget pr ''merged_by'' JNull) (\<lambda>mb. bindE (text_field (jor mb (JObj [])) ''login'' (JStr [])) (\<lambda>who.
                  Inr (length cs, rl, who))))))) (\<lambda>(k, rl, who).
           ret (if \<not> (rl \<or> k = 1) \<or> \<not> (who = [] \<or> endswith who ''[bot]'')
                then [''#'' @ au_text U n @ '' merged by '' @ (if who = [] then ''?'' else who) @ (if rl then [] else '' without a relock'')]
                else []))))))"

definition a10_frappe_nix :: "('w, 'v) audit_env \<Rightarrow> target \<Rightarrow> json \<Rightarrow> ('w, string list) aud" where
  "a10_frappe_nix U t locked =
     bindP (liftE (dget locked ''owner'' JNull)) (\<lambda>owner.
       if \<not> truthy owner then ret []
       else bindP (liftE (ditem locked ''repo'')) (\<lambda>name.
         let base = ''repos/'' @ au_text U owner @ ''/'' @ au_text U name in
         bindP (api_or_none U (base @ ''/releases/latest'')) (\<lambda>l. let latest = jor l (JObj []) in
         bindP (liftE (dget latest ''tag_name'' JNull)) (\<lambda>tag.
           if \<not> truthy tag then ret []
           else bindP (api_or_none U (base @ ''/commits/'' @ au_text U tag)) (\<lambda>c.
                bindP (liftE (bindE (dget (jor c (JObj [])) ''sha'' JNull) (\<lambda>s. bindE (dget locked ''rev'' JNull) (\<lambda>r. Inr (s, r))))) (\<lambda>(sha, rv).
                  if \<not> truthy sha \<or> py_eq sha rv then ret []
                  else bindP (liftE (dget latest ''published_at'' JNull)) (\<lambda>stamp.
                       bindP (older_than U STALE_DAYS stamp) (\<lambda>old.
                         ret (if old then [''frappe-nix '' @ au_text U tag @ '' available: frappe-nix repo rollout --to '' @ au_text U tag @
                                           '' --repo '' @ t_repo t] else [])))))))))"

definition a10_profile :: "('w, 'v) audit_env \<Rightarrow> target \<Rightarrow> json \<Rightarrow> ('w, string list) aud" where
  "a10_profile U t lk =
     bindP (liftE (lock_input_node (au_depth U) lk PROFILE_INPUT)) (\<lambda>prof.
     let src = (case t_resolved t of Some r \<Rightarrow> fst (snd (r_profile r)) | None \<Rightarrow> ''builtin'') in
       if prof = None \<or> \<not> startswith src ''github:'' then ret []
       else (case split_on (CHR ''/'') (removeprefix src ''github:'') of
           owner # name # parts \<Rightarrow>
             (let ref = (if join ''/'' parts = [] then ''HEAD'' else join ''/'' parts) in
              bindP (api_or_none U (''repos/'' @ owner @ ''/'' @ name @ ''/commits/'' @ ref)) (\<lambda>h. let head = jor h (JObj []) in
              bindP (liftE (bindE (dget head ''sha'' JNull) (\<lambda>s. bindE (dget (locked_of prof) ''rev'' JNull) (\<lambda>r. Inr (s, r))))) (\<lambda>(sha, rv).
                if \<not> truthy sha \<or> py_eq sha rv then ret []
                else bindP (liftE (bindE (dget head ''commit'' JNull) (\<lambda>c. bindE (dget (jor c (JObj [])) ''committer'' (JObj [])) (\<lambda>k.
                            dget k ''date'' JNull)))) (\<lambda>date.
                     bindP (older_than U STALE_DAYS date) (\<lambda>old.
                       ret (if old then [''standards profile behind '' @ ref @ '': frappe-nix repo rollout --profile-to latest --repo '' @ t_repo t]
                            else []))))))
         | _ \<Rightarrow> raise IndexError))"

definition a10 :: "('w, 'v) audit_env \<Rightarrow> target \<Rightarrow> ('w, verdict_row) aud" where
  "a10 U t =
     bindP (a10_merge U t) (\<lambda>n1.
     bindP (a_file U t ''flake.lock'') (\<lambda>f.
     bindP (if f = Missing then ret []
            else bindP (liftE (pinned_frappe_nix U f)) (\<lambda>(lk, locked).
                 bindP (a10_frappe_nix U t locked) (\<lambda>n2. bindP (a10_profile U t lk) (\<lambda>n3. ret (n2 @ n3))))) (\<lambda>ns.
       ret (if n1 @ ns = [] then Green else Amber, join ''; '' (n1 @ ns)))))"

definition a11 :: "('w, 'v::linorder) audit_env \<Rightarrow> target \<Rightarrow> ('w, verdict_row) aud" where
  "a11 U t =
     bindP (release_tags U t) (\<lambda>newest. case newest of
       [] \<Rightarrow> ret (Red, ''no release tag'')
     | (_, tag) # _ \<Rightarrow>
         bindP (liftE (ditem tag ''name'')) (\<lambda>n. let name = au_text U n in
         bindP (api_or_none U (repo_path (t_repo t) (''/releases/tags/'' @ name))) (\<lambda>rel.
           if rel = JNull then ret (Red, name @ '' has no GitHub release'')
           else bindP (liftE (bindE (dget rel ''author'' JNull) (\<lambda>a. text_field (jor a (JObj [])) ''login'' (JStr [])))) (\<lambda>who.
                ret (if endswith who ''[bot]'' then (Green, name) else (Amber, name @ '' released by '' @ who))))))"

definition a12 :: "('w, 'v) audit_env \<Rightarrow> target \<Rightarrow> string \<Rightarrow> ('w, verdict_row) aud" where
  "a12 U t against =
     bindP (tool U t against [''listing'', ''readme'', ''--check'']) (\<lambda>(cd, _).
     bindP (a_file U t ''README.md'') (\<lambda>f.
     bindP (liftE (cfg_get (t_cfg t) ''org'' ''dev-docs-url'' (JStr []))) (\<lambda>link.
     bindP (if f = Missing \<or> \<not> truthy link then ret False
            else case (f, link) of
                (Text s, JStr l) \<Rightarrow> ret (contains_sub l s)
              | (Text s, _) \<Rightarrow> raise TypeError
              | _ \<Rightarrow> raise OSError) (\<lambda>has.
       ret (if cd \<noteq> 0 then (Red, ''listing readme --check failed'')
            else if has then (Green, []) else (Red, ''README lacks the org.dev-docs-url link''))))))"

definition a13 :: "('w, 'v) audit_env \<Rightarrow> target \<Rightarrow> string \<Rightarrow> ('w, verdict_row) aud" where
  "a13 U t against =
     bindP (tool U t against [''icon'', ''check'', ''--structural'']) (\<lambda>(cd, _).
       ret (if cd = 0 then (Green, []) else (Red, ''icon check --structural failed'')))"

definition a14 :: "('w, 'v) audit_env \<Rightarrow> target \<Rightarrow> string \<Rightarrow> ('w, verdict_row) aud" where
  "a14 U t against =
     bindP (liftE (dget (t_entry t) ''list'' (JBool True))) (\<lambda>listed.
     bindP (if \<not> truthy listed then ret []
            else bindP (tool U t against [''listing'', ''check'', ''--links-only'']) (\<lambda>(cd, _).
                 ret (if cd \<noteq> 0 then [''links''] else []))) (\<lambda>p1.
     bindP (tool U t against [''listing'', ''check'']) (\<lambda>(cd, _).
     let p2 = (if cd \<noteq> 0 then [''listing check''] else []) in
     bindP (a_file U t ''marketplace/semgrep-baseline.json'') (\<lambda>f.
     bindP (case (case f of Text s \<Rightarrow> loads s | _ \<Rightarrow> None) of
              None \<Rightarrow> ret (JArr []) | Some doc \<Rightarrow> liftE (dget doc ''findings'' (JArr []))) (\<lambda>findings.
     bindP (if truthy findings then bindP (liftE (json_len findings)) (\<lambda>n. ret [show_nat n @ '' baseline finding(s)'']) else ret []) (\<lambda>p3.
       ret (red_or (p1 @ p2 @ p3) (Green, []))))))))"

definition shots_job :: "json \<Rightarrow> exn + bool" where
  "shots_job j = bindE (dget j ''name'' JNull) (\<lambda>n. py_in (JStr ''shots'') (jor n (JStr [])))"

definition shots_label :: "json \<Rightarrow> exn + bool" where
  "shots_label p = bindE (list_get p ''labels'') (anyE (\<lambda>lb. bindE (dget lb ''name'' JNull) (\<lambda>n. Inr (n = JStr ''screenshots''))))"

definition old_shots :: "('w, 'v) audit_env \<Rightarrow> json \<Rightarrow> json list \<Rightarrow> ('w, json list) aud" where
  "old_shots U p acc =
     bindP (liftE (shots_label p)) (\<lambda>yes.
       if \<not> yes then ret acc
       else bindP (liftE (dget p ''created_at'' JNull)) (\<lambda>stamp. bindP (older_than U 7 stamp) (\<lambda>old.
            if \<not> old then ret acc else bindP (liftE (ditem p ''number'')) (\<lambda>n. ret (acc @ [n])))))"

definition a15 :: "('w, 'v) audit_env \<Rightarrow> target \<Rightarrow> ('w, verdict_row) aud" where
  "a15 U t =
     bindP (latest_run U t ''nightly.yml'' JNull) (\<lambda>run.
       if \<not> truthy run then ret (Red, ''nightly never ran'')
       else bindP (run_jobs U t run) (\<lambda>js. bindP (liftE (bindE (iter js) (filterE shots_job))) (\<lambda>shots.
            bindP (case shots of [] \<Rightarrow> ret (JStr ''absent'') | s # _ \<Rightarrow> liftE (conclusion_of s)) (\<lambda>c.
              if c \<noteq> JStr ''success'' then ret (Red, ''shots '' @ au_text U c)
              else bindP (api U (repo_path (t_repo t) ''/pulls?state=open&per_page=100'') False) (\<lambda>v.
                   bindP (liftE (iter (jor v (JArr [])))) (\<lambda>prs. bindP (foldP (old_shots U) prs []) (\<lambda>old.
                     ret (case old of [] \<Rightarrow> (Green, [])
                          | n # _ \<Rightarrow> (Amber, ''screenshots PR #'' @ au_text U n @ '' older than 7 days'')))))))))"

text \<open>The version of the first release the registry's entry lists.\<close>

definition registry_version :: "string option \<Rightarrow> exn + json" where
  "registry_version body =
     (case loads (case body of Some s \<Rightarrow> if s = [] then ''{}'' else s | None \<Rightarrow> ''{}'') of
        None \<Rightarrow> Inr JNull
      | Some d \<Rightarrow> bindE (dget d ''releases'' JNull) (\<lambda>rs.
          if \<not> truthy rs then Inr JNull
          else case rs of JArr (x # _) \<Rightarrow> dget x ''version'' JNull | JStr _ \<Rightarrow> Inl AttributeError | JObj _ \<Rightarrow> Inl KeyError | _ \<Rightarrow> Inl TypeError))"

definition a16 :: "('w, 'v::linorder) audit_env \<Rightarrow> target \<Rightarrow> ('w, verdict_row) aud" where
  "a16 U t =
     bindP (liftE (bindE (cfg_get (t_cfg t) ''listing'' ''publish'' JNull) (\<lambda>p.
              if \<not> truthy p then Inr False else bindE (dget (t_entry t) ''list'' (JBool True)) (\<lambda>l. Inr (truthy l))))) (\<lambda>published.
       if \<not> published then ret (NA, ''not published'')
       else bindP (liftE (bindE (cfg_get (t_cfg t) ''listing'' ''registry-upstream'' (JStr ''frappe/marketplace'')) (\<lambda>u.
                   bindE (case t_app t of Some a \<Rightarrow> Inr (JStr (ac_app a)) | None \<Rightarrow> dget (t_entry t) ''app'' (JStr [])) (\<lambda>a. Inr (u, a))))) (\<lambda>(u, a).
         let upstream = au_text U u; app = au_text U a; base = ''https://raw.githubusercontent.com/'' @ upstream @ ''/main/'' in
         bindP (fetch_url U (base @ ''apps.json'')) (\<lambda>index. case index of
           None \<Rightarrow> ret (Unknown, ''apps.json not readable'')
         | Some body \<Rightarrow>
             if \<not> is_str a then raise TypeError
             else if \<not> contains_sub app body then ret (Red, app @ '' is not in '' @ upstream @ '' apps.json'')
             else bindP (release_tags U t) (\<lambda>newest.
                  bindP (fetch_url U (base @ ''apps/'' @ app @ ''.json'')) (\<lambda>doc.
                  bindP (liftE (registry_version doc)) (\<lambda>version.
                  let want = (case newest of [] \<Rightarrow> JNull | (v, _) # _ \<Rightarrow> JStr (au_vtext U v)) in
                    ret (if truthy version \<and> py_eq version want then (Green, au_text U version)
                         else (Red, ''registry '' @ au_text U version @ '', latest '' @ au_text U want))))))))"

definition a17 :: "('w, 'v) audit_env \<Rightarrow> target \<Rightarrow> ('w, verdict_row) aud" where
  "a17 U t =
     bindP (api_or_none U (repo_path (t_repo t) ''/pages'')) (\<lambda>pages.
       if pages = JNull then ret (Red, ''no Pages site'')
       else bindP (api_or_none U (repo_path (t_repo t) ''/actions/variables/DOCS_SITE_ENABLED'')) (\<lambda>v.
            liftE (bindE (dget pages ''cname'' JNull) (\<lambda>cn.
              if \<not> truthy cn then Inr (Red, ''Pages needs a CNAME and https enforced'')
              else bindE (dget pages ''https_enforced'' JNull) (\<lambda>ht.
                if \<not> truthy ht then Inr (Red, ''Pages needs a CNAME and https enforced'')
                else bindE (dget (jor v (JObj [])) ''value'' JNull) (\<lambda>x.
                  Inr (if x = JStr ''true'' then (Green, au_text U cn) else (Red, ''DOCS_SITE_ENABLED is not true''))))))))"

section \<open>The audit\<close>

definition evaluate :: "('w, 'v::linorder) audit_env \<Rightarrow> target \<Rightarrow> string \<Rightarrow> string \<Rightarrow> ('w, verdict_row) aud" where
  "evaluate U t against rid =
     (case map_of
        [(''A1'', a1 U t), (''A2'', a2 U t), (''A3'', a3 U t), (''A4'', a4 U t against), (''A5'', a5 U t), (''A6'', a6 U t),
         (''A7'', a7 U t against), (''A8'', a8 U t), (''A9'', a9 U t against), (''A10'', a10 U t), (''A11'', a11 U t),
         (''A12'', a12 U t against), (''A13'', a13 U t against), (''A14'', a14 U t against), (''A15'', a15 U t),
         (''A16'', a16 U t), (''A17'', a17 U t)] rid of
        Some m \<Rightarrow> m | None \<Rightarrow> raise KeyError)"

definition audit_row ::
  "('w, 'v::linorder) audit_env \<Rightarrow> target \<Rightarrow> string \<Rightarrow> string \<times> string \<times> string option \<Rightarrow> row list \<Rightarrow> ('w, row list) aud" where
  "audit_row U t against it rows =
     (case it of (rid, item, m) \<Rightarrow>
        let put = (\<lambda>(c, d). ret (rows @ [\<lparr>row_id = rid, row_item = item, row_status = c, row_detail = d\<rparr>])) in
        if t_resolved t = None \<or> \<not> t_opted_in t then
          (if rid = ''A4'' then put (Red, ''no [tool.frappe-nix] on the integration branch'')
           else put (if t_resolved t = None then Unknown else NA, ''not opted in''))
        else if \<not> (case m of None \<Rightarrow> True | Some x \<Rightarrow> t_modules t x) then
          put (NA, (case m of Some x \<Rightarrow> x | None \<Rightarrow> []) @ '' is off'')
        else bindP (catch (evaluate U t against rid)
                      (\<lambda>e. if is_frappe_nix_error e then ret (Unknown, au_error U e) else raise e)) put)"

definition audit :: "('w, 'v::linorder) audit_env \<Rightarrow> target \<Rightarrow> string \<Rightarrow> ('w ghst, row list) prog" where
  "audit U t against = (\<lambda>s. case foldP (audit_row U t against) ITEMS [] (s, []) of (r, (s', _)) \<Rightarrow> (r, s'))"

definition colour_text :: "colour \<Rightarrow> string" where
  "colour_text c = (case c of Green \<Rightarrow> ''green'' | Amber \<Rightarrow> ''amber'' | Red \<Rightarrow> ''red'' | NA \<Rightarrow> ''n/a'' | Unknown \<Rightarrow> ''unknown'')"

definition markdown :: "string \<Rightarrow> row list \<Rightarrow> string" where
  "markdown name rows =
     join [newline] ([''## '' @ name, [], ''| Row | Item | Status | Detail |'', ''|---|---|---|---|''] @
       map (\<lambda>r. ''| '' @ row_id r @ '' | '' @ row_item r @ '' | '' @ colour_text (row_status r) @ '' | '' @
                map (\<lambda>c. if c = CHR ''|'' then CHR ''/'' else c) (row_detail r) @ '' |'') rows) @ [newline]"

text \<open>\<^verbatim>\<open>file_issue\<close>: with \<open>token\<close>, when set, in the environment of these calls only.\<close>

definition file_issue :: "('w, 'v) audit_env \<Rightarrow> string \<Rightarrow> string \<Rightarrow> string \<Rightarrow> string \<Rightarrow> ('w ghst, unit) prog" where
  "file_issue U token issue_repo name body =
     (let gh = (if token \<noteq> [] then au_issue_gh U token else au_gh U); title = ''scorecard: '' @ name in
      bindP (gh_get gh (repo_path issue_repo ''/issues?state=open&per_page=100'') True) (\<lambda>v.
      bindP (liftE (bindE (iter (jor v (JArr []))) (filterE (\<lambda>i. bindE (dget i ''title'' JNull) (\<lambda>x. Inr (x = JStr title)))))) (\<lambda>hits.
        case hits of
          [] \<Rightarrow> bindP (request gh ''POST'' (repo_path issue_repo ''/issues'') (Some (JObj [(''title'', JStr title), (''body'', JStr body)])) False) (\<lambda>_. ret ())
        | i # _ \<Rightarrow> bindP (liftE (ditem i ''number'')) (\<lambda>n.
            bindP (request gh ''PATCH'' (repo_path issue_repo (''/issues/'' @ au_text U n)) (Some (JObj [(''body'', JStr body)])) False) (\<lambda>_. ret ())))))"

record audit_args =
  ua_repos :: "string list"
  ua_all :: bool
  ua_fleet :: string
  ua_issue :: bool
  ua_issue_repo :: string
  ua_against :: string

definition bad_row :: "row \<Rightarrow> bool" where "bad_row r \<longleftrightarrow> row_status r = Amber \<or> row_status r = Red"

definition audit_step ::
  "('w, 'v::linorder) audit_env \<Rightarrow> string \<Rightarrow> audit_args \<Rightarrow> json \<Rightarrow> string \<times> json \<Rightarrow> nat \<times> (string \<times> row list) list \<Rightarrow>
     ('w repo_st, nat \<times> (string \<times> row list) list) prog" where
  "audit_step U token args fleet pair acc =
     (case (pair, acc) of ((r, ent), (c, results)) \<Rightarrow>
        bindP (load_target (ae_target (au_apply U)) r ent fleet JNull) (\<lambda>t.
        bindP (on_fst (audit U t (ua_against args))) (\<lambda>rows.
        bindP (if ua_issue args then on_fst (file_issue U token (ua_issue_repo args) r (markdown r rows)) else ret ()) (\<lambda>_.
          ret (if list_ex bad_row rows then DRIFT else c, results @ [(r, rows)])))))"

definition audit_run ::
  "('w, 'v::linorder) audit_env \<Rightarrow> ('w \<Rightarrow> string \<Rightarrow> 'w) \<Rightarrow> string \<Rightarrow> audit_args \<Rightarrow>
     ('w repo_st, nat \<times> (string \<times> row list) list) prog" where
  "audit_run U rmtree token args =
     bindP (liftE (
       if ua_issue args \<and> ua_issue_repo args = [] then Inl (ConfigError ''--issue needs --issue-repo <owner/repo>'')
       else fleet_entries (ae_fleet_errors (au_apply U)) (ae_files (au_apply U)) (ua_repos args) (ua_all args) (ua_fleet args)))
     (\<lambda>(pairs, fleet). finallyP (foldP (audit_step U token args fleet) pairs (CLEAN, [])) (cleanup rmtree))"

section \<open>The audit only reads\<close>

text \<open>The commands of frappe-nix a row runs: checks.\<close>

definition CHECKS :: "string list list" where
  "CHECKS = [[''sync'', ''--check'', ''--format'', ''json''], [''compat''], [''listing'', ''readme'', ''--check''],
     [''icon'', ''check'', ''--structural''], [''listing'', ''check'', ''--links-only''], [''listing'', ''check'']]"

definition check_call :: "gh_call \<Rightarrow> bool" where
  "check_call c \<longleftrightarrow> (\<exists>argv \<in> set CHECKS. \<exists>spec. fst c = tool_cmd argv spec)"

definition audit_reads :: "gh_call \<Rightarrow> bool" where
  "audit_reads c \<longleftrightarrow> api_read c \<or> take 3 (fst c) = [''gh'', ''run'', ''download''] \<or> check_call c"

abbreviation reading :: "gh_call list \<Rightarrow> ('w, 'a) aud \<Rightarrow> bool" where
  "reading old m \<equiv> keeps (\<lambda>s. extends audit_reads old (fst s)) m"

lemma keeps_list: "keeps I m \<Longrightarrow> (\<And>x xs. keeps I (f x xs)) \<Longrightarrow> keeps I (case v of [] \<Rightarrow> m | x # xs \<Rightarrow> f x xs)"
  by (cases v) auto

lemma keeps_json:
  "keeps I a \<Longrightarrow> (\<And>x. keeps I (b x)) \<Longrightarrow> (\<And>x. keeps I (c x)) \<Longrightarrow> (\<And>x. keeps I (d x)) \<Longrightarrow> (\<And>x. keeps I (e x)) \<Longrightarrow>
   (\<And>x. keeps I (f x)) \<Longrightarrow> (\<And>x. keeps I (g x)) \<Longrightarrow>
   keeps I (case v of JNull \<Rightarrow> a | JBool x \<Rightarrow> b x | JInt x \<Rightarrow> c x | JFloat x \<Rightarrow> d x | JStr x \<Rightarrow> e x | JArr x \<Rightarrow> f x | JObj x \<Rightarrow> g x)"
  by (cases v) auto

named_theorems reading_rules \<open>a part of the audit starts only programs that read\<close>

lemma reads_audit: "reads audit_reads" by (simp add: reads_def audit_reads_def)

lemma reading_api [reading_rules]: "reading old (api U e p)" "reading old (api_or_none U e)"
  unfolding api_def api_or_none_def by (intro keeps_rules reads_audit)+

lemma reading_look [reading_rules]: "reading old (look f)" unfolding look_def by (intro keeps_rules)

lemma reading_file [reading_rules]: "reading old (a_tree t)" "reading old (a_file U t p)"
  unfolding a_file_def a_tree_def by (intro keeps_rules reading_rules)+

lemma reading_give [reading_rules]: "reading old (give v)" unfolding give_def by (cases v) (auto intro: keeps_rules)

lemma reading_put [reading_rules]: "reading old (cache_put k v)" unfolding cache_put_def by (intro keeps_rules)

lemma reading_once [reading_rules]: "reading old m \<Longrightarrow> reading old (once k m)"
  unfolding once_def by (intro keeps_rules reading_rules)

lemma reading_fetch [reading_rules]: "reading old (fetch_url U url)"
  by (simp add: fetch_url_def keeps_def on_fst_def split: prod.splits)

lemma reading_report [reading_rules]: "reading old (download_report U r i)"
  unfolding download_report_def cli_def
  by (intro keeps_rules reading_rules keeps_extends_gh) (simp add: audit_reads_def)

lemma reading_run_tool: "argv \<in> set CHECKS \<Longrightarrow> keeps (extends audit_reads old) (run_tool U tree argv spec)"
  by (fastforce simp: keeps_def run_tool_def audit_reads_def check_call_def Let_def split: prod.splits intro!: extends_add)

lemma reading_tool [reading_rules]: "argv \<in> set CHECKS \<Longrightarrow> reading old (tool U t against argv)"
  unfolding tool_def tool_spec_def Let_def
  by (intro keeps_rules reading_rules reading_run_tool keeps_sum)

lemmas reading_steps = keeps_sum keeps_list keeps_json

lemma reading_sync [reading_rules]: "reading old (sync_report U t against)"
  unfolding sync_report_def by (intro keeps_rules reading_rules) (simp add: CHECKS_def)

lemma reading_reads [reading_rules]:
  "reading old (info_of U t)" "reading old (tags_of U t)" "reading old (latest_run U t w b)" "reading old (run_jobs U t r)"
  "reading old (pyproject_doc U t)"
  unfolding info_of_def tags_of_def latest_run_def run_jobs_def pyproject_doc_def
  by (intro keeps_rules reading_rules reading_steps)+

lemma reading_release_tags [reading_rules]: "reading old (release_tags U t)"
  unfolding release_tags_def by (intro keeps_rules reading_rules reading_steps)

lemma reading_test_report [reading_rules]: "reading old (test_report U t)"
  unfolding test_report_def by (intro keeps_rules reading_rules reading_steps)

lemma reading_older [reading_rules]: "reading old (older_than U n s)"
  unfolding older_than_def by (intro keeps_rules reading_rules reading_steps)

lemma reading_a1: "reading old (a1 U t)"
  unfolding a1_def Let_def
  by (intro keeps_rules reading_rules reading_steps)

lemma reading_a2: "reading old (a2 U t)"
  unfolding a2_def Let_def
  by (intro keeps_rules reading_rules reading_steps)

lemma reading_a3: "reading old (a3 U t)"
  unfolding a3_def a3_rules_def Let_def
  by (intro keeps_rules reading_rules reading_steps reads_audit)

lemma reading_a4: "reading old (a4 U t against)"
  unfolding a4_def Let_def
  by (intro keeps_rules reading_rules reading_steps)

lemma reading_a5: "reading old (a5 U t)"
  unfolding a5_def a5_ci_def a5_policy_def a5_nightly_def Let_def
  by (intro keeps_rules reading_rules reading_steps)

lemma reading_a6: "reading old (a6 U t)"
  unfolding a6_def Let_def
  by (intro keeps_rules reading_rules reading_steps)

lemma reading_a7: "reading old (a7 U t against)"
  unfolding a7_def a7_job_def Let_def
  by (intro keeps_rules reading_rules reading_steps) (simp_all add: CHECKS_def)

lemma reading_a8: "reading old (a8 U t)"
  unfolding a8_def Let_def
  by (intro keeps_rules reading_rules reading_steps)

lemma reading_a9: "reading old (a9 U t against)"
  unfolding a9_def Let_def
  by (intro keeps_rules reading_rules reading_steps)

lemma reading_a10: "reading old (a10 U t)"
  unfolding a10_def a10_merge_def a10_frappe_nix_def a10_profile_def Let_def
  by (intro keeps_rules reading_rules reading_steps)

lemma reading_a11: "reading old (a11 U t)"
  unfolding a11_def Let_def
  by (intro keeps_rules reading_rules reading_steps)

lemma reading_a12: "reading old (a12 U t against)"
  unfolding a12_def Let_def
  by (intro keeps_rules reading_rules reading_steps) (simp_all add: CHECKS_def)

lemma reading_a13: "reading old (a13 U t against)"
  unfolding a13_def Let_def
  by (intro keeps_rules reading_rules reading_steps) (simp_all add: CHECKS_def)

lemma reading_a14: "reading old (a14 U t against)"
  unfolding a14_def Let_def
  by (intro keeps_rules reading_rules reading_steps) (simp_all add: CHECKS_def)

lemma reading_a15: "reading old (a15 U t)"
  unfolding a15_def old_shots_def Let_def
  by (intro keeps_rules reading_rules reading_steps)

lemma reading_a16: "reading old (a16 U t)"
  unfolding a16_def Let_def
  by (intro keeps_rules reading_rules reading_steps)

lemma reading_a17: "reading old (a17 U t)"
  unfolding a17_def Let_def
  by (intro keeps_rules reading_rules reading_steps)

lemmas reading_rows = reading_a1 reading_a2 reading_a3 reading_a4 reading_a5 reading_a6 reading_a7 reading_a8 reading_a9 reading_a10
  reading_a11 reading_a12 reading_a13 reading_a14 reading_a15 reading_a16 reading_a17

lemma reading_evaluate: "reading old (evaluate U t against rid)"
proof -
  have "reading old (case map_of l rid of Some m \<Rightarrow> m | None \<Rightarrow> raise KeyError)" if "list_all (\<lambda>(k, m). reading old m) l"
    for l :: "(string \<times> ('a, verdict_row) aud) list"
    using that by (induction l) (auto simp: keeps_raise)
  note rule = this
  show ?thesis unfolding evaluate_def by (rule rule) (simp only: list.pred_inject prod.case reading_rows simp_thms)
qed

lemma reading_row: "reading old (audit_row U t against it rows)"
  unfolding audit_row_def Let_def by (intro keeps_rules reading_evaluate)

text \<open>
  An audit is read-only: however it ends, every program it started is a \<^verbatim>\<open>GET\<close> through \<^verbatim>\<open>gh api\<close>, the download
  of a run's artifact, or one of frappe-nix's checks (\<^verbatim>\<open>sync --check\<close>, \<^verbatim>\<open>compat\<close>, \<^verbatim>\<open>listing check\<close>,
  \<^verbatim>\<open>listing readme --check\<close>, \<^verbatim>\<open>icon check --structural\<close>), also in row A3, which runs the code that applies settings.
\<close>

theorem audit_only_reads:
  assumes "audit U t against s = (r, s')"
  shows "\<exists>new. calls s' = calls s @ new \<and> list_all audit_reads new"
proof -
  obtain c where "foldP (audit_row U t against) ITEMS [] (s, []) = (r, (s', c))"
    using assms unfolding audit_def by (auto split: prod.splits)
  moreover have "reading (calls s) (foldP (audit_row U t against) ITEMS [])" by (intro keeps_foldP reading_row)
  ultimately have "extends audit_reads (calls s) s'" by (auto dest: keepsD)
  then show ?thesis by (simp add: extends_def)
qed

section \<open>The shape of a scorecard\<close>

definition row_ok :: "target \<Rightarrow> string \<times> string \<times> string option \<Rightarrow> row \<Rightarrow> bool" where
  "row_ok t it r \<longleftrightarrow>
     (case it of (rid, item, m) \<Rightarrow>
        row_id r = rid \<and> row_item r = item \<and>
        (t_resolved t = None \<or> \<not> t_opted_in t \<longrightarrow>
           row_status r = (if rid = ''A4'' then Red else if t_resolved t = None then Unknown else NA)) \<and>
        (t_resolved t \<noteq> None \<and> t_opted_in t \<longrightarrow> (\<forall>x. m = Some x \<longrightarrow> \<not> t_modules t x \<longrightarrow> row_status r = NA)))"

lemma yields_row: "yields (\<lambda>rows'. \<exists>r. rows' = rows @ [r] \<and> row_ok t it r) (audit_row U t against it rows)"
  unfolding audit_row_def Let_def
  by (intro yields_rules) (auto simp: row_ok_def split: prod.splits option.splits)

lemma rows_of_fold:
  assumes "foldP (audit_row U t against) items rows s = (Inr rows', s')"
  shows "\<exists>new. rows' = rows @ new \<and> list_all2 (row_ok t) items new"
  using assms
proof (induction items arbitrary: rows s)
  case (Cons it items)
  then obtain rows1 s1 where r: "audit_row U t against it rows s = (Inr rows1, s1)"
    and rest: "foldP (audit_row U t against) items rows1 s1 = (Inr rows', s')" by (auto simp: sumres)
  from yieldsD [OF yields_row r] obtain x where "rows1 = rows @ [x]" "row_ok t it x" by blast
  with Cons.IH [OF rest] show ?case by (metis append.assoc append_Cons append_Nil list.rel_intros(2))
qed (simp add: ret_eq)

text \<open>
  C23. The type of a scorecard: an audit that ends has the seventeen rows A1 to A17, each once and in order; a row whose
  module is off is n/a whatever GitHub says; and in a repository that has not opted in, A4 is red and every other row is
  n/a, or unknown when no profile is known either.
\<close>

theorem audit_rows_complete:
  assumes "audit U t against s = (Inr rows, s')"
  shows "map (\<lambda>r. (row_id r, row_item r)) rows = map (\<lambda>(i, x, _). (i, x)) ITEMS \<and> length rows = 17 \<and>
    list_all2 (row_ok t) ITEMS rows"
proof -
  obtain c where "foldP (audit_row U t against) ITEMS [] (s, []) = (Inr rows, (s', c))"
    using assms unfolding audit_def by (auto split: prod.splits)
  from rows_of_fold [OF this] have all: "list_all2 (row_ok t) ITEMS rows" by auto
  then have "map (\<lambda>r. (row_id r, row_item r)) rows = map (\<lambda>(i, x, _). (i, x)) ITEMS"
    by (induction rule: list_all2_induct) (auto simp: row_ok_def)
  moreover have "length rows = 17" using list_all2_lengthD [OF all] by (simp add: ITEMS_def)
  ultimately show ?thesis using all by simp
qed

definition sample_audit :: "(unit, int) audit_env" where
  "sample_audit = \<lparr>au_apply = sample_apply, au_exec = (\<lambda>w d k c. (Some (0, []), w)), au_fetch = (\<lambda>w u. (None, w)),
     au_report = (\<lambda>_. Missing), au_files = (\<lambda>_ _ _. Missing), au_ls = (\<lambda>_ _ _. Inr []), au_version = (\<lambda>_. None),
     au_major = id, au_vtext = (\<lambda>_. []), au_age = (\<lambda>_ _. Inr 0), au_depth = 10, au_error = (\<lambda>_. []), au_issue_gh = (\<lambda>_. quiet_gh)\<rparr>"

definition audited :: target where
  "audited = sample_target\<lparr>t_root := Some ''tree''\<rparr>"

theorem audit_only_reads_witness:
  "\<exists>new. calls (snd (audit sample_audit audited ''pinned'' \<lparr>world = (), calls = []\<rparr>)) = new \<and> new \<noteq> [] \<and> list_all audit_reads new"
proof -
  have "calls (snd (audit sample_audit audited ''pinned'' \<lparr>world = (), calls = []\<rparr>)) \<noteq> []" by code_simp
  with audit_only_reads [OF prod.collapse [symmetric], of sample_audit audited "''pinned''" "\<lparr>world = (), calls = []\<rparr>"]
  show ?thesis by auto
qed

theorem audit_rows_complete_witness:
  "\<exists>rows s'. audit sample_audit audited ''pinned'' \<lparr>world = (), calls = []\<rparr> = (Inr rows, s') \<and> length rows = 17 \<and>
     map row_status (take 4 rows) = [Red, NA, Red, Unknown]"
proof -
  let ?m = "audit sample_audit audited ''pinned'' \<lparr>world = (), calls = []\<rparr>"
  have "case ?m of (Inr rows, s') \<Rightarrow> map row_status (take 4 rows) = [Red, NA, Red, Unknown] | _ \<Rightarrow> False" by code_simp
  then obtain rows s' where m: "?m = (Inr rows, s')" "map row_status (take 4 rows) = [Red, NA, Red, Unknown]"
    by (auto split: prod.splits sum.splits)
  with audit_rows_complete [OF m(1)] show ?thesis by auto
qed

end
