(* ===== verification/JsonFmt.thy ===== *)
theory JsonFmt
  imports PyJsonText
begin

text \<open>
  \<^verbatim>\<open>scaffold/jsonfmt.py\<close>: JSON and JSONC in the form oxfmt leaves it, and \<^verbatim>\<open>JSON.stringify\<close>'s.  \<open>fl\<close> is Python's
  text of a float.  Lengths are counted in code points, the bytes that do not continue a character.
\<close>

section \<open>json.dumps\<close>

definition hex_digit :: "nat \<Rightarrow> char" where
  "hex_digit n = char_of (if n < 10 then 48 + n else 87 + n)"

definition escaped :: "char \<Rightarrow> string" where
  "escaped c =
     (if c = CHR 0x22 \<or> c = CHR 0x5C then [CHR 0x5C, c]
      else if c = newline then [CHR 0x5C, CHR ''n'']
      else if c = CHR 0x0D then [CHR 0x5C, CHR ''r'']
      else if c = tab then [CHR 0x5C, CHR ''t'']
      else if c = CHR 0x0C then [CHR 0x5C, CHR ''f'']
      else if c = CHR 0x08 then [CHR 0x5C, CHR ''b'']
      else if (of_char c :: nat) < 32 then
        [CHR 0x5C, CHR ''u'', CHR ''0'', CHR ''0'', hex_digit (of_char c div 16), hex_digit (of_char c mod 16)]
      else [c])"

definition json_string :: "string \<Rightarrow> string" where
  "json_string s = [CHR 0x22] @ concat (map escaped s) @ [CHR 0x22]"

text \<open>\<^verbatim>\<open>_scalar\<close>: \<^verbatim>\<open>json.dumps(value, ensure_ascii=False)\<close> of a value that is no list and no dictionary.\<close>

definition scalar :: "(rat \<Rightarrow> string) \<Rightarrow> json \<Rightarrow> string" where
  "scalar fl v =
     (case v of
        JNull \<Rightarrow> ''null'' | JBool b \<Rightarrow> (if b then ''true'' else ''false'') | JInt i \<Rightarrow> show_int i
      | JFloat r \<Rightarrow> fl r | JStr s \<Rightarrow> json_string s | _ \<Rightarrow> [])"

section \<open>oxfmt's form\<close>

definition TAB_WIDTH :: nat where "TAB_WIDTH = 2"
definition PRINT_WIDTH :: nat where "PRINT_WIDTH = 110"

definition several :: "json \<Rightarrow> bool" where
  "several v = (case v of JArr xs \<Rightarrow> length xs > 1 | _ \<Rightarrow> False)"

fun breaks :: "json \<Rightarrow> bool" where
  "breaks (JObj kvs) = (kvs \<noteq> [])"
| "breaks (JArr xs) = (list_ex breaks xs \<or> (length xs > 1 \<and> list_all several xs))"
| "breaks _ = False"

fun inline_json :: "(rat \<Rightarrow> string) \<Rightarrow> json \<Rightarrow> string" where
  "inline_json fl (JArr xs) = ''['' @ join '', '' (map (inline_json fl) xs) @ '']''"
| "inline_json fl (JObj kvs) = ''{}''"
| "inline_json fl v = scalar fl v"

definition text_width :: "string \<Rightarrow> nat" where
  "text_width s = length (filter (\<lambda>c. \<not> (128 \<le> (of_char c :: nat) \<and> (of_char c :: nat) < 192)) s)"

text \<open>What follows each member: a comma, except (in JSON) after the last.\<close>

definition seps :: "bool \<Rightarrow> nat \<Rightarrow> string list" where
  "seps jsonc n = replicate (n - 1) '','' @ [if jsonc then '','' else []]"

definition tabs :: "nat \<Rightarrow> string" where "tabs n = replicate n tab"

function emit :: "(rat \<Rightarrow> string) \<Rightarrow> bool \<Rightarrow> json \<Rightarrow> nat \<Rightarrow> nat \<Rightarrow> nat \<Rightarrow> string" where
  "emit fl jsonc v level used comma =
     (case v of
        JObj kvs \<Rightarrow>
          if kvs = [] then ''{}''
          else join [newline] ([''{''] @
                 map (\<lambda>((key, child), sep).
                   let head = json_string key @ '': '' in
                     tabs (level + 1) @ head @
                     emit fl jsonc child (level + 1) ((level + 1) * TAB_WIDTH + text_width head) (length sep) @ sep)
                   (zip kvs (seps jsonc (length kvs))) @ [tabs level @ ''}''])
      | JArr xs \<Rightarrow>
          if xs = [] then ''[]''
          else if \<not> breaks v \<and> used + text_width (inline_json fl v) + comma \<le> PRINT_WIDTH then inline_json fl v
          else join [newline] ([''[''] @
                 map (\<lambda>(child, sep). tabs (level + 1) @ emit fl jsonc child (level + 1) ((level + 1) * TAB_WIDTH) (length sep) @ sep)
                   (zip xs (seps jsonc (length xs))) @ [tabs level @ '']''])
      | _ \<Rightarrow> scalar fl v)"
  by pat_completeness auto
termination
  by (relation "measure (\<lambda>(f, j, v, l, u, c). size v)")
    (auto dest!: set_zip_leftD json_size_obj json_size_arr simp del: json.size)

declare emit.simps [simp del]

definition jsonfmt_dumps :: "(rat \<Rightarrow> string) \<Rightarrow> bool \<Rightarrow> json \<Rightarrow> string" where
  "jsonfmt_dumps fl jsonc v = emit fl jsonc v 0 0 0 @ [newline]"

text \<open>\<^verbatim>\<open>json.dumps(value, indent="\t", ensure_ascii=False)\<close>.\<close>

function pretty :: "(rat \<Rightarrow> string) \<Rightarrow> json \<Rightarrow> nat \<Rightarrow> string" where
  "pretty fl v level =
     (case v of
        JObj kvs \<Rightarrow>
          if kvs = [] then ''{}''
          else ''{'' @ [newline] @ join ('','' @ [newline])
                 (map (\<lambda>(key, child). tabs (level + 1) @ json_string key @ '': '' @ pretty fl child (level + 1)) kvs) @
               [newline] @ tabs level @ ''}''
      | JArr xs \<Rightarrow>
          if xs = [] then ''[]''
          else ''['' @ [newline] @ join ('','' @ [newline]) (map (\<lambda>child. tabs (level + 1) @ pretty fl child (level + 1)) xs) @
               [newline] @ tabs level @ '']''
      | _ \<Rightarrow> scalar fl v)"
  by pat_completeness auto
termination
  by (relation "measure (\<lambda>(f, v, l). size v)") (auto dest!: json_size_obj json_size_arr simp del: json.size)

declare pretty.simps [simp del]

definition stringify :: "(rat \<Rightarrow> string) \<Rightarrow> json \<Rightarrow> string" where
  "stringify fl v = pretty fl v 0 @ [newline]"

section \<open>Reading back\<close>

lemma dict_of_distinct: "distinct (map fst kvs) \<Longrightarrow> dict_of kvs = kvs"
proof -
  have "distinct (map fst (d @ kvs)) \<Longrightarrow> fold (\<lambda>(k, v). AList.update k v) kvs d = d @ kvs" for d
  proof (induction kvs arbitrary: d)
    case (Cons kv kvs)
    then show ?case using Cons.IH [of "d @ [kv]"] by (cases kv) (auto simp: update_new)
  qed simp
  then show "distinct (map fst kvs) \<Longrightarrow> dict_of kvs = kvs" by (simp add: dict_of_def)
qed

text \<open>A text that spells a value: any white space between the tokens, strings and numbers as \<^const>\<open>scalar\<close> writes
  them.\<close>

definition ws_text :: "string \<Rightarrow> bool" where "ws_text w \<longleftrightarrow> list_all is_json_ws w"

inductive spells :: "(rat \<Rightarrow> string) \<Rightarrow> json \<Rightarrow> string \<Rightarrow> bool"
  and spells_elems :: "(rat \<Rightarrow> string) \<Rightarrow> json list \<Rightarrow> string \<Rightarrow> bool"
  and spells_members :: "(rat \<Rightarrow> string) \<Rightarrow> (string \<times> json) list \<Rightarrow> string \<Rightarrow> bool" for fl where
  spells_scalar: "\<not> is_list v \<Longrightarrow> \<not> is_dict v \<Longrightarrow> spells fl v (scalar fl v)"
| spells_nil: "spells fl (JArr []) ''[]''"
| spells_empty: "spells fl (JObj []) ''{}''"
| spells_arr: "spells_elems fl xs s \<Longrightarrow> ws_text w \<Longrightarrow> spells fl (JArr xs) (''['' @ w @ s @ '']'')"
| spells_obj: "spells_members fl kvs s \<Longrightarrow> ws_text w \<Longrightarrow> spells fl (JObj kvs) (''{'' @ w @ s @ ''}'')"
| elems_one: "spells fl v s \<Longrightarrow> ws_text w \<Longrightarrow> spells_elems fl [v] (s @ w)"
| elems_more: "spells fl v s \<Longrightarrow> ws_text w \<Longrightarrow> spells_elems fl xs u \<Longrightarrow> spells_elems fl (v # xs) (s @ '','' @ w @ u)"
| members_one: "spells fl v s \<Longrightarrow> ws_text w \<Longrightarrow> spells_members fl [(k, v)] (json_string k @ '': '' @ s @ w)"
| members_more: "spells fl v s \<Longrightarrow> ws_text w \<Longrightarrow> spells_members fl kvs u \<Longrightarrow>
    spells_members fl ((k, v) # kvs) (json_string k @ '': '' @ s @ '','' @ w @ u)"

lemma skip_ws_text: "ws_text w \<Longrightarrow> skip_ws (w @ s) = skip_ws s"
  by (induction w) (auto simp: ws_text_def)

text \<open>Strings.\<close>

lemma hex_val_digit: "n < 16 \<Longrightarrow> hex_val (hex_digit n) = Some n"
  by (auto simp: hex_val_def hex_digit_def is_digit_def Let_def)

lemma small_char: "(of_char c :: nat) < 32 \<Longrightarrow> utf8 (of_char c) = [c]"
  by (simp add: utf8_def)

lemma pstr_escaped: "pstr (escaped c @ s) = map_option (\<lambda>(r, t). (c # r, t)) (pstr s)"
proof (cases "c \<in> {CHR 0x22, CHR 0x5C, newline, CHR 0x0D, tab, CHR 0x0C, CHR 0x08}")
  case True
  then show ?thesis by (elim insertE) (simp_all add: escaped_def escape_def)
next
  case False
  show ?thesis
  proof (cases "(of_char c :: nat) < 32")
    case small: True
    let ?n = "of_char c :: nat"
    have z: "hex_val (CHR ''0'') = Some 0" by code_simp
    have "hex4 (CHR ''0'' # CHR ''0'' # hex_digit (?n div 16) # hex_digit (?n mod 16) # s) = Some ?n"
      using small z by (simp add: hex4_def hex_val_digit)
    then have "escape (CHR ''u'' # CHR ''0'' # CHR ''0'' # hex_digit (?n div 16) # hex_digit (?n mod 16) # s) = Some ([c], 5)"
      using small by (simp add: escape_def small_char)
    then show ?thesis using False small by (simp add: escaped_def)
  next
    case big: False
    then show ?thesis using False by (simp add: escaped_def)
  qed
qed

lemma pstr_string: "pstr (concat (map escaped k) @ CHR 0x22 # s) = Some (k, s)"
  by (induction k) (simp_all add: pstr_escaped)

text \<open>Numbers.\<close>

definition delim :: "string \<Rightarrow> bool" where
  "delim t \<longleftrightarrow> t = [] \<or> is_json_ws (hd t) \<or> hd t \<in> {CHR '','', CHR '']'', CHR ''}''}"

definition reads_back :: "(rat \<Rightarrow> string) \<Rightarrow> rat \<Rightarrow> bool" where
  "reads_back fl r \<longleftrightarrow> fl r \<noteq> [] \<and> (is_digit (hd (fl r)) \<or> hd (fl r) = CHR ''-'') \<and>
     (\<forall>t. delim t \<longrightarrow> pnum (fl r @ t) = Some (JFloat r, t))"

fun floats_ok :: "(rat \<Rightarrow> string) \<Rightarrow> json \<Rightarrow> bool" where
  "floats_ok fl (JFloat r) = reads_back fl r"
| "floats_ok fl (JArr xs) = list_all (floats_ok fl) xs"
| "floats_ok fl (JObj kvs) = list_all (\<lambda>kv. floats_ok fl (snd kv)) kvs"
| "floats_ok fl v = True"

lemma delim_stops: "delim t \<Longrightarrow> t = [] \<or> (\<not> is_digit (hd t) \<and> hd t \<noteq> CHR ''.'' \<and> hd t \<noteq> CHR ''e'' \<and> hd t \<noteq> CHR ''E'')"
  by (auto simp: delim_def is_json_ws_def is_digit_def)

lemma takeWhile_digits: "list_all is_digit ds \<Longrightarrow> delim t \<Longrightarrow> takeWhile is_digit (ds @ t) = ds \<and> dropWhile is_digit (ds @ t) = t"
  using delim_stops [of t] by (induction ds) (cases t, auto)

lemma show_nat_hd: "hd (show_nat n) = CHR ''0'' \<Longrightarrow> show_nat n = ''0''"
proof (induction n rule: show_nat.induct)
  case (1 n)
  show ?case
  proof (cases "n < 10")
    case True
    with 1(2) have "char_of (48 + n) = (CHR ''0'' :: char)" by (simp add: show_nat.simps [of n])
    then have "of_char (char_of (48 + n) :: char) = (48 :: nat)" by simp
    with True have "n = 0" by simp
    have "show_nat 0 = ''0''" by code_simp
    with \<open>n = 0\<close> show ?thesis by simp
  next
    case False
    with 1(2) have "hd (show_nat (n div 10)) = CHR ''0''" by (subst (asm) show_nat.simps) simp
    with 1(1) False have "show_nat (n div 10) = ''0''" by blast
    then have "int_of_digits (show_nat (n div 10)) = 0" by (simp add: int_of_digits_def digit_val_def)
    with False show ?thesis by simp
  qed
qed

definition int_digits :: "string \<Rightarrow> string" where
  "int_digits s = (case s of c # t \<Rightarrow> if c = CHR ''0'' then [c] else takeWhile is_digit s | [] \<Rightarrow> [])"

definition fraction :: "string \<Rightarrow> string \<times> string" where
  "fraction s = (case s of c # t \<Rightarrow>
      if c = CHR ''.'' \<and> takeWhile is_digit t \<noteq> [] then (takeWhile is_digit t, dropWhile is_digit t) else ([], s)
    | [] \<Rightarrow> ([], s))"

definition signed :: "int \<Rightarrow> string \<Rightarrow> (json \<times> string) option" where
  "signed sg s1 =
     (let ds = int_digits s1; (fr, s3) = fraction (drop (length ds) s1)
      in if ds = [] then None
         else (case pexp s3 of
                 None \<Rightarrow>
                   if fr = [] then Some (JInt (sg * int (int_of_digits ds)), s3)
                   else Some (JFloat (of_int sg * (of_nat (int_of_digits (ds @ fr)) / 10 ^ length fr)), s3)
               | Some (e, s4) \<Rightarrow>
                   Some (JFloat (of_int sg * (of_nat (int_of_digits (ds @ fr)) / 10 ^ length fr) * pow10 e), s4)))"

lemma pnum_signed:
  "pnum (CHR ''-'' # t) = signed (- 1) t"
  "c \<noteq> CHR ''-'' \<Longrightarrow> pnum (c # t) = signed 1 (c # t)"
  by (simp_all only: pnum_def signed_def int_digits_def fraction_def Let_def list.case prod.case simp_thms if_True if_False)

lemma signed_nat:
  assumes "delim t"
  shows "signed sg (show_nat n @ t) = Some (JInt (sg * int n), t)"
proof -
  have dig: "list_all is_digit (show_nat n)" using show_nat_digits by (simp add: list_all_iff)
  obtain c u where d: "show_nat n = c # u" by (cases "show_nat n") auto
  have "int_digits (show_nat n @ t) = show_nat n"
    using takeWhile_digits [OF dig assms] show_nat_hd [of n] d by (auto simp: int_digits_def)
  moreover have "fraction t = ([], t)" "pexp t = None"
    using delim_stops [OF assms] by (cases t; simp add: pexp_def fraction_def)+
  ultimately show ?thesis by (simp add: signed_def)
qed

lemma pnum_int:
  assumes "delim t"
  shows "pnum (show_int i @ t) = Some (JInt i, t)"
proof (cases "i < 0")
  case True
  then show ?thesis using signed_nat [OF assms] by (simp add: show_int_def pnum_signed)
next
  case False
  obtain c u where d: "show_nat (nat i) = c # u" by (cases "show_nat (nat i)") auto
  with show_nat_digits [of "nat i"] have "c \<noteq> CHR ''-''" by (auto simp: is_digit_def)
  then show ?thesis using signed_nat [OF assms, of 1 "nat i"] False d by (simp add: show_int_def pnum_signed)
qed

text \<open>Values.\<close>

definition starts_value :: "string \<Rightarrow> bool" where
  "starts_value s \<longleftrightarrow> s \<noteq> [] \<and> \<not> is_json_ws (hd s) \<and> hd s \<notin> {CHR '']'', CHR ''}'', CHR '',''}"

lemma digit_not: "is_digit c \<Longrightarrow> \<not> is_json_ws c \<and> c \<notin> {CHR '']'', CHR ''}'', CHR '','', CHR 0x22, CHR ''['', CHR ''{'', CHR ''n'', CHR ''t'', CHR ''f'', CHR ''-''}"
  by (auto simp: is_digit_def is_json_ws_def)

lemma show_int_hd: "show_int i \<noteq> [] \<and> (is_digit (hd (show_int i)) \<or> hd (show_int i) = CHR ''-'')"
proof (cases "i < 0")
  case False
  then show ?thesis using show_nat_digits [of "nat i"] by (cases "show_nat (nat i)") (auto simp: show_int_def)
qed (simp add: show_int_def)

lemma number_value:
  assumes "s \<noteq> []" "is_digit (hd s) \<or> hd s = CHR ''-''"
  shows "pval (Suc n) (s @ t) = pnum (s @ t)" "starts_value s"
proof -
  obtain c u where s: "s = c # u" using assms(1) by (cases s) auto
  have "c \<notin> {CHR 0x22, CHR ''['', CHR ''{'', CHR ''n'', CHR ''t'', CHR ''f''}" using assms(2) digit_not [of c] s by auto
  then show "pval (Suc n) (s @ t) = pnum (s @ t)" by (auto simp: s startswith_def)
  show "starts_value s" using assms(2) digit_not [of c] s by (auto simp: starts_value_def is_json_ws_def)
qed

lemma scalar_value:
  assumes "\<not> is_list v" "\<not> is_dict v" "floats_ok fl v" "delim t"
  shows "pval (Suc n) (scalar fl v @ t) = Some (v, t)"
proof (cases v)
  case (JInt i)
  then show ?thesis using number_value(1) [of "show_int i" n t] show_int_hd [of i] pnum_int [OF assms(4)] by (simp add: scalar_def)
next
  case (JFloat r)
  then have "reads_back fl r" using assms by simp
  then show ?thesis using number_value(1) [of "fl r" n t] assms(4) JFloat by (simp add: scalar_def reads_back_def)
next
  case (JStr s)
  then show ?thesis using pstr_string [of s t] by (simp add: scalar_def json_string_def)
qed (use assms in \<open>auto simp: scalar_def startswith_def is_list_def is_dict_def\<close>)

lemma scalar_starts: "\<not> is_list v \<Longrightarrow> \<not> is_dict v \<Longrightarrow> floats_ok fl v \<Longrightarrow> starts_value (scalar fl v)"
  using number_value(2) show_int_hd
  by (cases v) (auto simp: scalar_def starts_value_def is_json_ws_def is_list_def is_dict_def json_string_def reads_back_def)

lemma spells_starts:
  "spells fl v s \<Longrightarrow> floats_ok fl v \<Longrightarrow> starts_value s"
  "spells_elems fl xs s \<Longrightarrow> list_all (floats_ok fl) xs \<Longrightarrow> starts_value s \<and> xs \<noteq> []"
  "spells_members fl kvs s \<Longrightarrow> list_all (\<lambda>kv. floats_ok fl (snd kv)) kvs \<Longrightarrow> starts_value s \<and> kvs \<noteq> []"
proof (induction rule: spells_spells_elems_spells_members.inducts)
  case (spells_scalar v)
  then show ?case by (rule scalar_starts)
qed (auto simp: starts_value_def is_json_ws_def json_string_def)

lemma skip_starts: "starts_value s \<Longrightarrow> skip_ws (s @ t) = s @ t"
  by (cases s) (auto simp: starts_value_def)

lemma skip_to: "ws_text w \<Longrightarrow> starts_value s \<Longrightarrow> skip_ws (w @ s @ t) = s @ t"
  by (simp add: skip_ws_text skip_starts)

lemma skip_close: "ws_text w \<Longrightarrow> \<not> is_json_ws c \<Longrightarrow> skip_ws (w @ c # t) = c # t"
  by (simp add: skip_ws_text)

lemma closers [simp]: "\<not> is_json_ws (CHR '']'')" "\<not> is_json_ws (CHR ''}'')" "\<not> is_json_ws (CHR '','')" "\<not> is_json_ws (CHR '':'')"
  "is_json_ws (CHR '' '')"
  by (simp_all add: is_json_ws_def)

lemma delim_ws: "ws_text w \<Longrightarrow> c \<in> {CHR '','', CHR '']'', CHR ''}''} \<Longrightarrow> delim (w @ c # t)"
  by (cases w) (auto simp: delim_def ws_text_def)

lemma reads_spelling:
  "spells fl v s \<Longrightarrow> floats_ok fl v \<Longrightarrow> wf_json v \<Longrightarrow> delim t \<Longrightarrow> 2 * length s \<le> n \<Longrightarrow> pval n (s @ t) = Some (v, t)"
  "spells_elems fl xs s \<Longrightarrow> list_all (floats_ok fl) xs \<Longrightarrow> list_all wf_json xs \<Longrightarrow> 2 * length s + 1 \<le> n \<Longrightarrow>
     pelems n (s @ CHR '']'' # t) = Some (xs, t)"
  "spells_members fl kvs s \<Longrightarrow> list_all (\<lambda>kv. floats_ok fl (snd kv)) kvs \<Longrightarrow> list_all (\<lambda>kv. wf_json (snd kv)) kvs \<Longrightarrow>
     2 * length s + 1 \<le> n \<Longrightarrow> pmembers n (s @ CHR ''}'' # t) = Some (kvs, t)"
proof (induction arbitrary: n t and n t and n t rule: spells_spells_elems_spells_members.inducts)
  case (spells_scalar v)
  then have "scalar fl v \<noteq> []" using scalar_starts [of v fl] by (auto simp: starts_value_def)
  with spells_scalar obtain m where n: "n = Suc m" by (cases n) auto
  show ?case unfolding n by (rule scalar_value) fact+
next
  case spells_nil
  then show ?case by (cases n) auto
next
  case spells_empty
  then show ?case by (cases n) auto
next
  case (spells_arr xs s w)
  then obtain m where n: "n = Suc m" "2 * length s + 1 \<le> m" by (cases n) auto
  have st: "starts_value s" using spells_starts(2) [OF spells_arr(1)] spells_arr.prems by simp
  then obtain c u where s: "s = c # u" "c \<noteq> CHR '']''" by (cases s) (auto simp: starts_value_def)
  have "skip_ws (w @ s @ CHR '']'' # t) = s @ CHR '']'' # t" by (rule skip_to) fact+
  then show ?case using spells_arr.IH spells_arr.prems n s by (simp add: list_all_iff)
next
  case (spells_obj kvs s w)
  then obtain m where n: "n = Suc m" "2 * length s + 1 \<le> m" by (cases n) auto
  have st: "starts_value s" using spells_starts(3) [OF spells_obj(1)] spells_obj.prems by simp
  then obtain c u where s: "s = c # u" "c \<noteq> CHR ''}''" by (cases s) (auto simp: starts_value_def)
  have "skip_ws (w @ s @ CHR ''}'' # t) = s @ CHR ''}'' # t" by (rule skip_to) fact+
  moreover have "fold (\<lambda>(k, v) d. AList.update k v d) kvs [] = kvs"
    using dict_of_distinct [of kvs] spells_obj.prems by (simp add: dict_of_def)
  ultimately show ?case using spells_obj.IH spells_obj.prems n s by (simp add: list_all_iff)
next
  case (elems_one v s w)
  then obtain m where n: "n = Suc m" "2 * length s \<le> m" by (cases n) auto
  have "pval m (s @ w @ CHR '']'' # t) = Some (v, w @ CHR '']'' # t)"
    using elems_one n by (intro elems_one.IH) (simp_all add: delim_ws)
  then show ?case using n elems_one by (simp add: skip_close)
next
  case (elems_more v s w xs u)
  then obtain m where n: "n = Suc m" "2 * length s \<le> m" "2 * length u + 1 \<le> m" by (cases n) auto
  have v: "pval m (s @ CHR '','' # w @ u @ CHR '']'' # t) = Some (v, CHR '','' # w @ u @ CHR '']'' # t)"
    using elems_more n by (intro elems_more.IH) (simp_all add: delim_def)
  have "skip_ws (w @ u @ CHR '']'' # t) = u @ CHR '']'' # t"
    using elems_more spells_starts(2) [of fl xs u] by (intro skip_to) simp_all
  then show ?case using n v elems_more by simp
next
  case (members_one v s w k)
  then obtain m where n: "n = Suc m" "2 * length s \<le> m" by (cases n) auto
  have v: "pval m (s @ w @ CHR ''}'' # t) = Some (v, w @ CHR ''}'' # t)"
    using members_one n by (intro members_one.IH) (simp_all add: delim_ws)
  have "skip_ws (s @ w @ CHR ''}'' # t) = s @ w @ CHR ''}'' # t"
    using members_one spells_starts(1) [of fl v s] by (intro skip_starts) simp
  then show ?case using n v members_one
    by (simp add: json_string_def pstr_string skip_close)
next
  case (members_more v s w kvs u k)
  then obtain m where n: "n = Suc m" "2 * length s \<le> m" "2 * length u + 1 \<le> m" by (cases n) auto
  have v: "pval m (s @ CHR '','' # w @ u @ CHR ''}'' # t) = Some (v, CHR '','' # w @ u @ CHR ''}'' # t)"
    using members_more n by (intro members_more.IH) (simp_all add: delim_def)
  have "skip_ws (s @ CHR '','' # w @ u @ CHR ''}'' # t) = s @ CHR '','' # w @ u @ CHR ''}'' # t"
    using members_more spells_starts(1) [of fl v s] by (intro skip_starts) simp
  moreover have "skip_ws (w @ u @ CHR ''}'' # t) = u @ CHR ''}'' # t"
    using members_more spells_starts(3) [of fl kvs u] by (intro skip_to) simp_all
  ultimately show ?case using n v members_more
    by (simp add: json_string_def pstr_string)
qed

section \<open>The emitters spell their value\<close>

lemma ws_texts [simp]: "ws_text []" "ws_text (tabs n)" "ws_text (c # w) \<longleftrightarrow> is_json_ws c \<and> ws_text w" "ws_text (v @ w) \<longleftrightarrow> ws_text v \<and> ws_text w"
  "is_json_ws newline" "is_json_ws (CHR '' '')"
  by (auto simp: ws_text_def tabs_def is_json_ws_def list_all_iff)

lemma spells_trailing:
  "spells fl v s \<Longrightarrow> True"
  "spells_elems fl xs s \<Longrightarrow> ws_text w \<Longrightarrow> spells_elems fl xs (s @ w)"
  "spells_members fl kvs s \<Longrightarrow> ws_text w \<Longrightarrow> spells_members fl kvs (s @ w)"
proof (induction rule: spells_spells_elems_spells_members.inducts)
  case (elems_one v s w')
  then show ?case using elems_one(1) spells_spells_elems_spells_members.elems_one [of fl v s "w' @ w"] by simp
next
  case (elems_more v s w' xs u)
  then show ?case using spells_spells_elems_spells_members.elems_more [of fl v s w' xs "u @ w"] by simp
next
  case (members_one v s w' k)
  then show ?case using spells_spells_elems_spells_members.members_one [of fl v s "w' @ w" k] by simp
next
  case (members_more v s w' kvs u k)
  then show ?case using spells_spells_elems_spells_members.members_more [of fl v s w' kvs "u @ w" k] by simp
qed simp_all

lemma seps_more [simp]: "seps j (Suc 0) = [if j then '','' else []]" "seps j (Suc (Suc n)) = '','' # seps j (Suc n)"
  by (simp_all add: seps_def)

lemma join_wrap: "ls \<noteq> [] \<Longrightarrow> join sep ([a] @ ls @ [z]) = a @ sep @ join sep ls @ sep @ z"
proof -
  have "ls \<noteq> [] \<Longrightarrow> join sep (ls @ [z]) = join sep ls @ sep @ z"
    by (induction sep ls rule: join.induct) auto
  then show "ls \<noteq> [] \<Longrightarrow> join sep ([a] @ ls @ [z]) = a @ sep @ join sep ls @ sep @ z" by (simp add: join_Cons)
qed

lemma elems_lines:
  assumes "xs \<noteq> []" "\<And>x sep. x \<in> set xs \<Longrightarrow> spells fl x (g x sep)"
  shows "\<exists>s. join [newline] (map (\<lambda>(c, sep). tabs l @ g c sep @ sep) (zip xs (seps False (length xs)))) = tabs l @ s \<and> spells_elems fl xs s"
  using assms
proof (induction xs)
  case (Cons x xs)
  show ?case
  proof (cases xs)
    case Nil
    with Cons.prems show ?thesis using elems_one [of fl x "g x []" "[]"] by simp
  next
    case (Cons y ys)
    then obtain s where "join [newline] (map (\<lambda>(c, sep). tabs l @ g c sep @ sep) (zip xs (seps False (length xs)))) = tabs l @ s"
      "spells_elems fl xs s" using Cons.IH Cons.prems by fastforce
    moreover have "seps False (length (x # xs)) = '','' # seps False (length xs)" by (simp add: Cons)
    moreover have "zip xs (seps False (length xs)) \<noteq> []" by (simp add: Cons seps_def)
    ultimately show ?thesis using Cons.prems(2) [of x] elems_more [of fl x "g x '',''" "newline # tabs l" xs s]
      by (intro exI [of _ "g x '','' @ '','' @ (newline # tabs l) @ s"]) (simp add: join_Cons del: seps_more)
  qed
qed simp

lemma members_lines:
  assumes "kvs \<noteq> []" "\<And>k x sep. (k, x) \<in> set kvs \<Longrightarrow> spells fl x (g k x sep)"
  shows "\<exists>s. join [newline] (map (\<lambda>((k, c), sep). tabs l @ json_string k @ '': '' @ g k c sep @ sep) (zip kvs (seps False (length kvs)))) =
      tabs l @ s \<and> spells_members fl kvs s"
  using assms
proof (induction kvs)
  case (Cons kv kvs)
  obtain k x where kv: "kv = (k, x)" by fastforce
  show ?case
  proof (cases kvs)
    case Nil
    with Cons.prems kv show ?thesis using members_one [of fl x "g k x []" "[]" k] by simp
  next
    case (Cons y ys)
    then obtain s where "join [newline] (map (\<lambda>((k, c), sep). tabs l @ json_string k @ '': '' @ g k c sep @ sep) (zip kvs (seps False (length kvs)))) = tabs l @ s"
      "spells_members fl kvs s" using Cons.IH Cons.prems by fastforce
    moreover have "seps False (length (kv # kvs)) = '','' # seps False (length kvs)" by (simp add: Cons)
    moreover have "zip kvs (seps False (length kvs)) \<noteq> []" by (simp add: Cons seps_def)
    ultimately show ?thesis using Cons.prems(2) [of k x] members_more [of fl x "g k x '',''" "newline # tabs l" kvs s k]
      by (intro exI [of _ "json_string k @ '': '' @ g k x '','' @ '','' @ (newline # tabs l) @ s"]) (simp add: join_Cons kv del: seps_more)
  qed
qed simp

lemma inline_spells: "\<not> breaks v \<Longrightarrow> spells fl v (inline_json fl v)"
proof (induction v)
  case (JArr xs)
  show ?case
  proof (cases "xs = []")
    case False
    have "spells fl x (inline_json fl x)" if "x \<in> set xs" for x using JArr that by (auto simp: list_ex_iff)
    then have "spells_elems fl xs (join '', '' (map (inline_json fl) xs))"
      using False
    proof (induction xs)
      case (Cons x xs)
      show ?case
      proof (cases xs)
        case Nil
        with Cons.prems show ?thesis using elems_one [of fl x "inline_json fl x" "[]"] by simp
      next
        case (Cons y ys)
        then show ?thesis using Cons.IH Cons.prems elems_more [of fl x "inline_json fl x" "'' ''" xs "join '', '' (map (inline_json fl) xs)"]
          by simp
      qed
    qed simp
    then show ?thesis using spells_arr [of fl xs _ "[]"] by simp
  qed (simp add: spells_nil)
next
  case (JObj kvs)
  then show ?case by (simp add: spells_empty)
qed (use spells_scalar in \<open>auto simp: is_list_def is_dict_def\<close>)

lemma emit_spells: "spells fl v (emit fl False v level used comma)"
proof (induction v arbitrary: level used comma)
  case (JArr xs)
  show ?case
  proof (cases "xs = [] \<or> (\<not> breaks (JArr xs) \<and> used + text_width (inline_json fl (JArr xs)) + comma \<le> PRINT_WIDTH)")
    case True
    then show ?thesis using inline_spells [of "JArr xs" fl] by (auto simp: emit.simps [of fl False "JArr xs"] spells_nil)
  next
    case False
    then have ne: "xs \<noteq> []" by simp
    have no: "\<not> (\<not> breaks (JArr xs) \<and> used + text_width (inline_json fl (JArr xs)) + comma \<le> PRINT_WIDTH)" using False by blast
    obtain s where s: "join [newline] (map (\<lambda>(c, sep). tabs (level + 1) @ emit fl False c (level + 1) ((level + 1) * TAB_WIDTH) (length sep) @ sep)
        (zip xs (seps False (length xs)))) = tabs (level + 1) @ s" "spells_elems fl xs s"
      using elems_lines [OF ne, of fl "\<lambda>c sep. emit fl False c (level + 1) ((level + 1) * TAB_WIDTH) (length sep)" "level + 1"] JArr by blast
    have "zip xs (seps False (length xs)) \<noteq> []" using ne by (simp add: seps_def)
    then have "emit fl False (JArr xs) level used comma = ''['' @ (newline # tabs (level + 1)) @ (s @ newline # tabs level) @ '']''"
      unfolding emit.simps [of fl False "JArr xs"] json.case if_not_P [OF ne] if_not_P [OF no] using s(1) by (simp add: join_wrap del: join.simps append_Cons)
    then show ?thesis using spells_arr [OF spells_trailing(2) [OF s(2)], of "newline # tabs level" "newline # tabs (level + 1)"] by simp
  qed
next
  case (JObj kvs)
  show ?case
  proof (cases "kvs = []")
    case True
    then show ?thesis by (simp add: emit.simps spells_empty)
  next
    case False
    let ?g = "\<lambda>k c sep. emit fl False c (level + 1) ((level + 1) * TAB_WIDTH + text_width (json_string k @ '': '')) (length sep)"
    obtain s where s: "join [newline] (map (\<lambda>((k, c), sep). tabs (level + 1) @ json_string k @ '': '' @ ?g k c sep @ sep)
        (zip kvs (seps False (length kvs)))) = tabs (level + 1) @ s" "spells_members fl kvs s"
      using members_lines [OF False, of fl ?g "level + 1"] JObj by fastforce
    have "zip kvs (seps False (length kvs)) \<noteq> []" using False by (simp add: seps_def)
    then have "emit fl False (JObj kvs) level used comma = ''{'' @ (newline # tabs (level + 1)) @ (s @ newline # tabs level) @ ''}''"
      using False s(1) by (subst emit.simps) (simp add: join_wrap Let_def del: join.simps append_Cons)
    then show ?thesis using spells_obj [OF spells_trailing(3) [OF s(2)], of "newline # tabs level" "newline # tabs (level + 1)"] by simp
  qed
qed (use spells_scalar in \<open>auto simp: emit.simps is_list_def is_dict_def\<close>)

lemma elems_pretty:
  assumes "xs \<noteq> []" "\<And>x. x \<in> set xs \<Longrightarrow> spells fl x (g x)"
  shows "\<exists>s. join ('','' @ [newline]) (map (\<lambda>c. tabs l @ g c) xs) = tabs l @ s \<and> spells_elems fl xs s"
  using assms
proof (induction xs)
  case (Cons x xs)
  show ?case
  proof (cases "xs = []")
    case True
    with Cons.prems show ?thesis using elems_one [of fl x "g x" "[]"] by simp
  next
    case False
    then obtain s where "join ('','' @ [newline]) (map (\<lambda>c. tabs l @ g c) xs) = tabs l @ s" "spells_elems fl xs s"
      using Cons.IH Cons.prems by fastforce
    then show ?thesis using False Cons.prems(2) [of x] elems_more [of fl x "g x" "newline # tabs l" xs s]
      by (intro exI [of _ "g x @ '','' @ (newline # tabs l) @ s"]) (simp add: join_Cons)
  qed
qed simp

lemma members_pretty:
  assumes "kvs \<noteq> []" "\<And>k x. (k, x) \<in> set kvs \<Longrightarrow> spells fl x (g x)"
  shows "\<exists>s. join ('','' @ [newline]) (map (\<lambda>(k, c). tabs l @ json_string k @ '': '' @ g c) kvs) = tabs l @ s \<and> spells_members fl kvs s"
  using assms
proof (induction kvs)
  case (Cons kv kvs)
  obtain k x where kv: "kv = (k, x)" by fastforce
  show ?case
  proof (cases "kvs = []")
    case True
    with Cons.prems kv show ?thesis using members_one [of fl x "g x" "[]" k] by simp
  next
    case False
    then obtain s where "join ('','' @ [newline]) (map (\<lambda>(k, c). tabs l @ json_string k @ '': '' @ g c) kvs) = tabs l @ s" "spells_members fl kvs s"
      using Cons.IH Cons.prems by fastforce
    then show ?thesis using False Cons.prems(2) [of k x] members_more [of fl x "g x" "newline # tabs l" kvs s k]
      by (intro exI [of _ "json_string k @ '': '' @ g x @ '','' @ (newline # tabs l) @ s"]) (simp add: join_Cons kv)
  qed
qed simp

lemma pretty_spells: "spells fl v (pretty fl v level)"
proof (induction v arbitrary: level)
  case (JArr xs)
  show ?case
  proof (cases "xs = []")
    case False
    then obtain s where s: "join ('','' @ [newline]) (map (\<lambda>c. tabs (level + 1) @ pretty fl c (level + 1)) xs) = tabs (level + 1) @ s"
      "spells_elems fl xs s" using elems_pretty [OF False, of fl "\<lambda>c. pretty fl c (level + 1)" "level + 1"] JArr by blast
    then show ?thesis using False spells_arr [OF spells_trailing(2) [OF s(2)], of "newline # tabs level" "newline # tabs (level + 1)"]
      by (simp add: pretty.simps [of fl "JArr xs"])
  qed (simp add: pretty.simps spells_nil)
next
  case (JObj kvs)
  show ?case
  proof (cases "kvs = []")
    case False
    then obtain s where s: "join ('','' @ [newline]) (map (\<lambda>(k, c). tabs (level + 1) @ json_string k @ '': '' @ pretty fl c (level + 1)) kvs) = tabs (level + 1) @ s"
      "spells_members fl kvs s" using members_pretty [OF False, of fl "\<lambda>c. pretty fl c (level + 1)" "level + 1"] JObj by fastforce
    then show ?thesis using False spells_obj [OF spells_trailing(3) [OF s(2)], of "newline # tabs level" "newline # tabs (level + 1)"]
      by (simp add: pretty.simps [of fl "JObj kvs"])
  qed (simp add: pretty.simps spells_empty)
qed (use spells_scalar in \<open>auto simp: pretty.simps is_list_def is_dict_def\<close>)

lemma loads_spelling:
  assumes "spells fl v s" "floats_ok fl v" "wf_json v"
  shows "loads (s @ [newline]) = Some v"
proof -
  have "delim [newline]" by (simp add: delim_def)
  then have "pval (2 * length (s @ [newline]) + 2) (s @ [newline]) = Some (v, [newline])"
    by (rule reads_spelling(1) [OF assms]) simp
  moreover have "skip_ws (s @ [newline]) = s @ [newline]" using skip_starts [OF spells_starts(1)] assms by blast
  ultimately show ?thesis by (simp add: loads_def)
qed

text \<open>
  C24. What sync writes as JSON is the data it meant to write: both forms, oxfmt's with its lines and groups and
  \<^verbatim>\<open>package.json\<close>'s, are read back by \<^verbatim>\<open>json.loads\<close> as the value they were made from, whatever its depth, its strings
  and their escapes, and the width of its lines.
\<close>

theorem json_round_trip:
  assumes "wf_json v" "floats_ok fl v"
  shows "loads (jsonfmt_dumps fl False v) = Some v \<and> loads (stringify fl v) = Some v"
  using assms loads_spelling [OF emit_spells] loads_spelling [OF pretty_spells]
  by (simp add: jsonfmt_dumps_def stringify_def)

definition sample_value :: json where
  "sample_value = JObj [(''a'', JArr [JInt (- 10), JStr [CHR 0x22, newline, CHR 0x01]]), (''b'', JObj [(''c'', JBool True)]), (''d'', JNull)]"

theorem json_round_trip_witness:
  "loads (jsonfmt_dumps (\<lambda>_. []) False sample_value) = Some sample_value \<and> loads (stringify (\<lambda>_. []) sample_value) = Some sample_value"
  by (rule json_round_trip) (simp_all add: sample_value_def)

end
