(* ===== verification/Manifest.thy ===== *)
theory Manifest
  imports Config
begin

text \<open>
  \<^verbatim>\<open>scaffold/manifest.py\<close>: the manifest of the managed files as the union of its fragments, the org
  profile's \<^verbatim>\<open>[[extra-files]]\<close> and \<^verbatim>\<open>[[retire]]\<close>, and the invariant of every manifest that loads.

  The values the source stores without looking at them (a path, a template, a condition) are JSON
  values here too.
\<close>

section \<open>The code\<close>

definition STRATEGIES :: "string list" where
  "STRATEGIES = [''whole'', ''toml-merge'', ''json-merge'', ''seed'', ''blocks'']"

definition HEADERS :: "string list" where
  "HEADERS = [''yaml'', ''toml'', ''shell'', ''ini'', ''nix'', ''jsonc'', ''ts'', ''none'']"

definition HASH_HEADERS :: "string list" where
  "HASH_HEADERS = [''yaml'', ''toml'', ''shell'', ''ini'', ''nix'']"

definition ENTRY_KEYS :: "string list" where
  "ENTRY_KEYS = [''path'', ''template'', ''strategy'', ''module'', ''when'', ''uses'', ''overridable'', ''header'',
     ''header_note'', ''local_regions'', ''handler'', ''command'', ''phase'']"

definition RETIRE_KEYS :: "string list" where
  "RETIRE_KEYS = [''paths'', ''rule'', ''module'', ''with'', ''when'', ''contains'', ''except'', ''unmanaged'',
     ''only_section'', ''deps_in_project'']"

record mentry =
  e_path :: json
  e_strategy :: string
  e_fragment :: string
  e_modules :: "string list"
  e_template :: json
  e_when :: json
  e_uses :: "string list"
  e_overridable :: bool
  e_header :: string
  e_header_note :: json
  e_local_regions :: "json list"
  e_handler :: json
  e_command :: json
  e_phase :: json
  e_profile_template :: bool

record mretire =
  t_paths :: "json list"
  t_rule :: json
  t_fragment :: string
  t_module :: string
  t_also :: "string list"
  t_when :: json
  t_contains :: "json list"
  t_unless :: "json list"
  t_unmanaged :: bool
  t_only_section :: json
  t_deps_in_project :: bool

type_synonym floors = "(string \<times> (string \<times> json) list) list"

record manifest =
  m_entries :: "mentry list"
  m_retire :: "mretire list"
  m_floors :: floors

definition refuse :: "bool \<Rightarrow> string \<Rightarrow> exn + unit" where
  "refuse b why = (if b then Inl (RuntimeError why) else Inr ())"

text \<open>\<^verbatim>\<open>isinstance(x, str)\<close> for every element, and the elements.\<close>

definition all_strs :: "json list \<Rightarrow> string list option" where
  "all_strs xs = (if list_all is_str xs then Some (map (\<lambda>x. case x of JStr s \<Rightarrow> s | _ \<Rightarrow> []) xs) else None)"

definition modules_named :: "json \<Rightarrow> exn + string list" where
  "modules_named raw =
     (let names = (case raw of JArr xs \<Rightarrow> xs | _ \<Rightarrow> [raw])
      in if names = [] then Inl (RuntimeError ''module must be a module name'')
         else case all_strs names of
                None \<Rightarrow> Inl (RuntimeError ''module must be a module name'')
              | Some ns \<Rightarrow> if list_ex (\<lambda>n. n \<notin> set MODULES) ns then Inl (RuntimeError ''unknown module(s)'') else Inr ns)"

definition raw_get :: "jtable \<Rightarrow> string \<Rightarrow> json \<Rightarrow> json" where
  "raw_get raw k d = (case map_of raw k of Some v \<Rightarrow> v | None \<Rightarrow> d)"

definition no_key :: "jtable \<Rightarrow> string \<Rightarrow> bool" where
  "no_key raw k \<longleftrightarrow> map_of raw k = None"

definition in_names :: "json \<Rightarrow> string list \<Rightarrow> bool" where
  "in_names v ns \<longleftrightarrow> v \<in> JStr ` set ns"

definition name_in :: "json \<Rightarrow> string" where
  "name_in v = (case v of JStr s \<Rightarrow> s | _ \<Rightarrow> [])"

definition uses_named :: "json \<Rightarrow> exn + string list" where
  "uses_named v =
     (case (case v of JArr us \<Rightarrow> all_strs us | _ \<Rightarrow> None) of
        Some ns \<Rightarrow> Inr ns | None \<Rightarrow> Inl (RuntimeError ''uses must be a list of dotted keys''))"

definition manifest_entry :: "json \<Rightarrow> string \<Rightarrow> exn + mentry" where
  "manifest_entry v fragment =
     (case v of
        JObj raw \<Rightarrow>
          bindE (refuse (no_key raw ''path'' \<or> no_key raw ''strategy'') ''an entry needs path and strategy'') (\<lambda>_.
          bindE (refuse (\<not> set (map fst raw) \<subseteq> set ENTRY_KEYS) ''unknown key(s)'') (\<lambda>_.
          bindE (refuse (no_key raw ''module'') ''an entry needs its module'') (\<lambda>_.
          let strategy = raw_get raw ''strategy'' JNull;
              header = raw_get raw ''header'' (JStr ''none'');
              regions = raw_get raw ''local_regions'' (JArr [])
          in
          bindE (refuse (\<not> in_names strategy STRATEGIES) ''unknown strategy'') (\<lambda>_.
          bindE (refuse (\<not> in_names header HEADERS) ''unknown header'') (\<lambda>_.
          bindE (refuse (strategy = JStr ''whole'' \<and> \<not> truthy (raw_get raw ''template'' JNull))
             ''a whole file needs a template'') (\<lambda>_.
          bindE (refuse (truthy regions \<and> \<not> in_names header HASH_HEADERS) ''local regions need a # comment header'') (\<lambda>_.
          bindE (uses_named (raw_get raw ''uses'' (JArr []))) (\<lambda>us.
          bindE (modules_named (raw_get raw ''module'' JNull)) (\<lambda>ms.
          bindE (iter regions) (\<lambda>rs.
            Inr \<lparr>e_path = raw_get raw ''path'' JNull, e_strategy = name_in strategy, e_fragment = fragment,
                 e_modules = ms, e_template = raw_get raw ''template'' JNull,
                 e_when = raw_get raw ''when'' (JStr ''True''), e_uses = us,
                 e_overridable = truthy (raw_get raw ''overridable'' (JBool False)), e_header = name_in header,
                 e_header_note = raw_get raw ''header_note'' (JStr ''''), e_local_regions = rs,
                 e_handler = raw_get raw ''handler'' JNull, e_command = raw_get raw ''command'' JNull,
                 e_phase = raw_get raw ''phase'' (JStr ''b''), e_profile_template = False\<rparr>))))))))))
      | _ \<Rightarrow> Inl (RuntimeError ''an entry needs path and strategy''))"

text \<open>\<^verbatim>\<open>(x,) = xs\<close>.\<close>

definition unpack1 :: "'a list \<Rightarrow> exn + 'a" where
  "unpack1 xs = (if length xs = 1 then Inr (hd xs) else Inl (ValueError ''too many values to unpack''))"

definition manifest_retire :: "json \<Rightarrow> string \<Rightarrow> exn + mretire" where
  "manifest_retire v fragment =
     (case v of
        JObj raw \<Rightarrow>
          bindE (refuse (no_key raw ''paths'' \<or> no_key raw ''rule'' \<or> no_key raw ''module'')
             ''a retire rule needs paths, rule and module'') (\<lambda>_.
          bindE (refuse (\<not> set (map fst raw) \<subseteq> set RETIRE_KEYS) ''unknown key(s)'') (\<lambda>_.
          bindE (modules_named (raw_get raw ''module'' JNull)) (\<lambda>ms.
          bindE (unpack1 ms) (\<lambda>m.
          bindE (iter (raw_get raw ''paths'' JNull)) (\<lambda>paths.
          bindE (if truthy (raw_get raw ''with'' JNull) then modules_named (raw_get raw ''with'' JNull) else Inr []) (\<lambda>also.
          bindE (iter (raw_get raw ''contains'' (JArr []))) (\<lambda>cs.
          bindE (iter (raw_get raw ''except'' (JArr []))) (\<lambda>us.
            Inr \<lparr>t_paths = paths, t_rule = raw_get raw ''rule'' JNull, t_fragment = fragment, t_module = m, t_also = also,
                 t_when = raw_get raw ''when'' (JStr ''True''), t_contains = cs, t_unless = us,
                 t_unmanaged = truthy (raw_get raw ''unmanaged'' (JBool False)),
                 t_only_section = raw_get raw ''only_section'' JNull,
                 t_deps_in_project = truthy (raw_get raw ''deps_in_project'' (JBool False))\<rparr>))))))))
      | _ \<Rightarrow> Inl (RuntimeError ''a retire rule needs paths, rule and module''))"

text \<open>\<^verbatim>\<open>entry.path in seen\<close>: a list or a dictionary is no key.\<close>

definition seen_path :: "json \<Rightarrow> (json \<times> string) list \<Rightarrow> exn + bool" where
  "seen_path p seen = (if is_list p \<or> is_dict p then Inl TypeError else Inr (list_ex (\<lambda>kv. py_eq (fst kv) p) seen))"

definition entry_step ::
  "string \<Rightarrow> json \<Rightarrow> mentry list \<times> (json \<times> string) list \<Rightarrow> exn + mentry list \<times> (json \<times> string) list" where
  "entry_step fragment raw acc =
     bindE (manifest_entry raw fragment) (\<lambda>e.
     bindE (seen_path (e_path e) (snd acc)) (\<lambda>twice.
       if twice then Inl (RuntimeError ''is listed in two fragments'')
       else Inr (fst acc @ [e], snd acc @ [(e_path e, fragment)])))"

definition floor_step :: "string \<Rightarrow> string \<times> json \<Rightarrow> floors \<Rightarrow> exn + floors" where
  "floor_step kind = (\<lambda>(pkg, floor) fs.
     let table = (case map_of fs kind of Some t \<Rightarrow> t | None \<Rightarrow> [])
     in if map_of table pkg \<noteq> None then Inl (RuntimeError ''floor is set by two fragments'')
        else Inr (AList.update kind (table @ [(pkg, floor)]) fs))"

definition dict_items :: "json \<Rightarrow> exn + jtable" where
  "dict_items v = (case v of JObj kvs \<Rightarrow> Inr kvs | _ \<Rightarrow> Inl AttributeError)"

type_synonym manifest_acc = "mentry list \<times> (json \<times> string) list \<times> mretire list \<times> floors"

definition fragment_step :: "string \<times> json \<Rightarrow> manifest_acc \<Rightarrow> exn + manifest_acc" where
  "fragment_step = (\<lambda>(name, doc) (es, seen, rs, fs).
     case doc of
       JObj kvs \<Rightarrow>
         bindE (refuse (\<not> set (map fst kvs) \<subseteq> {''entries'', ''retire'', ''floors'', ''$comment''})
            ''expected an object with entries, retire and floors'') (\<lambda>_.
         bindE (iter (raw_get kvs ''entries'' (JArr []))) (\<lambda>raws.
         bindE (foldE (entry_step name) raws (es, seen)) (\<lambda>(es', seen').
         bindE (bindE (iter (raw_get kvs ''retire'' (JArr []))) (mapE (\<lambda>r. manifest_retire r name))) (\<lambda>retired.
         bindE (dict_items (raw_get kvs ''floors'' (JObj []))) (\<lambda>kinds.
         bindE (foldE (\<lambda>(kind, table) fs. bindE (dict_items table) (\<lambda>pkgs. foldE (floor_step kind) pkgs fs)) kinds fs) (\<lambda>fs'.
           Inr (es', seen', rs @ retired, fs')))))))
     | _ \<Rightarrow> Inl (RuntimeError ''expected an object with entries, retire and floors''))"

definition parse_manifest :: "(string \<times> json) list \<Rightarrow> exn + manifest" where
  "parse_manifest fragments =
     bindE (foldE fragment_step (sort_key fst fragments) ([], [], [], [])) (\<lambda>(es, _, rs, fs).
       Inr \<lparr>m_entries = es, m_retire = rs, m_floors = fs\<rparr>)"

text \<open>\<^verbatim>\<open>Manifest.templates\<close>, \<^verbatim>\<open>ships\<close>.\<close>

definition manifest_templates :: "manifest \<Rightarrow> (json \<times> mentry) list" where
  "manifest_templates m = fold (\<lambda>e d. AList.update (e_template e) e d) (filter (\<lambda>e. truthy (e_template e)) (m_entries m)) []"

definition ships :: "manifest \<Rightarrow> string \<Rightarrow> bool" where
  "ships m path \<longleftrightarrow> list_ex (\<lambda>e. py_eq (e_path e) (JStr path)) (m_entries m)"

text \<open>\<^verbatim>\<open>extra_entries\<close> and \<^verbatim>\<open>profile_retire\<close>, on a configuration whose profile the schema accepted: it
  makes the strategy, the module and the header strings.\<close>

definition text_key :: "json \<Rightarrow> string \<Rightarrow> exn + string" where
  "text_key raw k = bindE (ditem raw k) (\<lambda>v. case v of JStr s \<Rightarrow> Inr s | _ \<Rightarrow> Inl TypeError)"

definition extra_entry :: "nat \<Rightarrow> json \<Rightarrow> exn + mentry" where
  "extra_entry i raw =
     bindE (ditem raw ''path'') (\<lambda>path.
     bindE (text_key raw ''strategy'') (\<lambda>strategy.
     bindE (text_key raw ''module'') (\<lambda>m.
     bindE (ditem raw ''template'') (\<lambda>template.
     bindE (dget raw ''when'' (JStr ''True'')) (\<lambda>w.
     bindE (if strategy = ''whole'' then dget raw ''header'' (JStr ''none'') else Inr (JStr ''none'')) (\<lambda>h.
     bindE (case h of JStr s \<Rightarrow> Inr s | _ \<Rightarrow> Inl TypeError) (\<lambda>header.
       Inr \<lparr>e_path = path, e_strategy = strategy, e_fragment = ''profile [[extra-files]] '' @ show_nat i, e_modules = [m],
            e_template = template, e_when = w, e_uses = [], e_overridable = False, e_header = header,
            e_header_note = JStr '''', e_local_regions = [], e_handler = JNull, e_command = JNull, e_phase = JStr ''b'',
            e_profile_template = True\<rparr>)))))))"

definition extra_entries :: "json \<Rightarrow> exn + mentry list" where
  "extra_entries cfg =
     bindE (dget cfg ''extra-files'' (JArr [])) (\<lambda>v.
     bindE (iter v) (\<lambda>raws. mapE (\<lambda>(i, raw). extra_entry i raw) (enumerate 0 raws)))"

text \<open>\<open>compiles\<close> is whether \<^verbatim>\<open>re.compile\<close> accepts a pattern.\<close>

definition profile_rule :: "(json \<Rightarrow> bool) \<Rightarrow> json \<Rightarrow> exn + mretire" where
  "profile_rule compiles raw =
     bindE (dget raw ''contains'' (JArr [])) (\<lambda>c.
     bindE (iter c) (\<lambda>patterns.
     if \<not> list_all compiles patterns then Inl (ConfigError ''which is not a regular expression'')
     else bindE (bindE (ditem raw ''paths'') iter) (\<lambda>paths.
          bindE (text_key raw ''module'') (\<lambda>m.
            Inr \<lparr>t_paths = paths, t_rule = JStr ''the profile's [[retire]] rule'', t_fragment = ''profile'', t_module = m,
                 t_also = [], t_when = JStr ''True'', t_contains = patterns, t_unless = [], t_unmanaged = False,
                 t_only_section = JNull, t_deps_in_project = False\<rparr>))))"

definition profile_retire :: "(json \<Rightarrow> bool) \<Rightarrow> json \<Rightarrow> exn + mretire list" where
  "profile_retire compiles cfg =
     bindE (dget cfg ''retire'' (JArr [])) (\<lambda>v. bindE (iter v) (mapE (profile_rule compiles)))"

section \<open>What every manifest that loads satisfies\<close>

text \<open>An entry the loader accepts: the engine has a branch for its strategy, its modules exist, a whole file has a
  template, and local regions only where the marker is a comment.\<close>

definition entry_ok :: "mentry \<Rightarrow> bool" where
  "entry_ok e \<longleftrightarrow> e_strategy e \<in> set STRATEGIES \<and> e_header e \<in> set HEADERS \<and>
     e_modules e \<noteq> [] \<and> set (e_modules e) \<subseteq> set MODULES \<and>
     (e_strategy e = ''whole'' \<longrightarrow> truthy (e_template e)) \<and>
     (e_local_regions e \<noteq> [] \<longrightarrow> e_header e \<in> set HASH_HEADERS) \<and> \<not> e_profile_template e"

definition rule_ok :: "mretire \<Rightarrow> bool" where
  "rule_ok r \<longleftrightarrow> t_module r \<in> set MODULES \<and> set (t_also r) \<subseteq> set MODULES"

definition paths_distinct :: "mentry list \<Rightarrow> bool" where
  "paths_distinct es \<longleftrightarrow> sorted_wrt (\<lambda>a b. \<not> py_eq (e_path a) (e_path b)) es"

definition floors_ok :: "floors \<Rightarrow> bool" where
  "floors_ok fs \<longleftrightarrow> distinct (map fst fs) \<and> (\<forall>kt \<in> set fs. distinct (map fst (snd kt)))"

lemma refuse_Inr [simp]: "refuse b why = Inr u \<longleftrightarrow> \<not> b"
  by (simp add: refuse_def)

lemma modules_named_ok: "modules_named v = Inr ms \<Longrightarrow> ms \<noteq> [] \<and> set ms \<subseteq> set MODULES"
proof -
  define names where "names = (case v of JArr xs \<Rightarrow> xs | _ \<Rightarrow> [v])"
  assume "modules_named v = Inr ms"
  then have "names \<noteq> []" "all_strs names = Some ms" "\<not> list_ex (\<lambda>n. n \<notin> set MODULES) ms"
    unfolding modules_named_def Let_def names_def [symmetric] by (simp_all split: if_splits option.splits)
  then show ?thesis by (auto simp: all_strs_def list_ex_iff split: if_splits)
qed

lemma in_names_name_in: "in_names v ns \<Longrightarrow> name_in v \<in> set ns"
  by (auto simp: in_names_def name_in_def)

lemma iter_truthy: "iter v = Inr xs \<Longrightarrow> xs \<noteq> [] \<Longrightarrow> truthy v"
  by (auto simp: iter_def split: json.splits)

lemma manifest_entry_ok:
  assumes "manifest_entry v fragment = Inr e"
  shows "entry_ok e"
proof -
  obtain raw where v: "v = JObj raw"
    using assms by (auto simp: manifest_entry_def split: json.splits)
  define strategy header regions template wholes where
    "strategy = raw_get raw ''strategy'' JNull" and "header = raw_get raw ''header'' (JStr ''none'')" and
    "regions = raw_get raw ''local_regions'' (JArr [])" and "template = raw_get raw ''template'' JNull" and
    "wholes = ''whole''"
  note defs = this
  have "in_names strategy STRATEGIES \<and> in_names header HEADERS \<and> \<not> (strategy = JStr wholes \<and> \<not> truthy template) \<and>
      \<not> (truthy regions \<and> \<not> in_names header HASH_HEADERS) \<and>
      (\<exists>ms rs. modules_named (raw_get raw ''module'' JNull) = Inr ms \<and> iter regions = Inr rs \<and>
        e_strategy e = name_in strategy \<and> e_header e = name_in header \<and> e_modules e = ms \<and> e_template e = template \<and>
        e_local_regions e = rs \<and> e_profile_template e = False)"
    using assms unfolding v manifest_entry_def Let_def json.case defs [symmetric]
    apply (elim bindE_InrE)
    apply (drule Inr_inject)
    apply (simp only: refuse_Inr)
    apply hypsubst
    apply simp
    done
  then obtain ms rs where ok: "in_names strategy STRATEGIES" "in_names header HEADERS" "strategy = JStr wholes \<Longrightarrow> truthy template"
      "truthy regions \<Longrightarrow> in_names header HASH_HEADERS" "iter regions = Inr rs"
    and ms: "modules_named (raw_get raw ''module'' JNull) = Inr ms"
    and e: "e_strategy e = name_in strategy" "e_header e = name_in header" "e_modules e = ms" "e_template e = template"
      "e_local_regions e = rs" "\<not> e_profile_template e"
    by blast
  have "strategy = JStr wholes" if "name_in strategy = wholes"
    using ok(1) that by (auto simp: in_names_def name_in_def)
  with ok modules_named_ok [OF ms] show ?thesis
    unfolding entry_ok_def wholes_def [symmetric] e(1-5)
    using e(6) by (blast intro: in_names_name_in dest: iter_truthy)
qed

lemma unpack1_in: "unpack1 xs = Inr x \<Longrightarrow> x \<in> set xs"
  by (cases xs) (auto simp: unpack1_def split: if_splits)

lemma manifest_retire_ok: "manifest_retire v fragment = Inr r \<Longrightarrow> rule_ok r"
  unfolding manifest_retire_def
  by (auto simp: bindE_eq_Inr_iff rule_ok_def dest!: modules_named_ok unpack1_in split: json.splits if_splits)

text \<open>The loop's state.\<close>

definition acc_ok :: "manifest_acc \<Rightarrow> bool" where
  "acc_ok = (\<lambda>(es, seen, rs, fs). map e_path es = map fst seen \<and> paths_distinct es \<and>
     list_all entry_ok es \<and> list_all rule_ok rs \<and> floors_ok fs)"

lemma entry_step_ok:
  assumes "entry_step fragment raw (es, seen) = Inr (es', seen')"
    and "map e_path es = map fst seen" "paths_distinct es" "list_all entry_ok es"
  shows "map e_path es' = map fst seen' \<and> paths_distinct es' \<and> list_all entry_ok es'"
proof -
  obtain e where e: "manifest_entry raw fragment = Inr e" and seen: "seen_path (e_path e) seen = Inr False"
    and eqs: "es' = es @ [e]" "seen' = seen @ [(e_path e, fragment)]"
    using assms(1) by (auto simp: entry_step_def bindE_eq_Inr_iff split: if_splits)
  have new: "\<not> py_eq p (e_path e)" if "p \<in> set (map fst seen)" for p
    using seen that by (auto simp: seen_path_def list_ex_iff split: if_splits)
  have "\<forall>e' \<in> set es. \<not> py_eq (e_path e') (e_path e)"
    using new assms(2) by (metis image_eqI list.set_map)
  with assms(2-4) eqs manifest_entry_ok [OF e] show ?thesis
    by (simp add: paths_distinct_def sorted_wrt_append)
qed

lemma floors_update:
  assumes "floors_ok fs" "distinct (map fst t)"
  shows "floors_ok (AList.update k t fs)"
proof -
  have "distinct (map fst (snd kt))" if "kt \<in> set (AList.update k t fs)" for kt
  proof -
    have "snd kt \<in> insert t (snd ` set fs)"
      using that snd_update_subset [of k t fs] by (meson imageI subsetD)
    then show ?thesis using assms by (auto simp: floors_ok_def)
  qed
  moreover have "distinct (map fst (AList.update k t fs))"
    using assms(1) by (simp add: floors_ok_def distinct_update)
  ultimately show ?thesis by (simp add: floors_ok_def)
qed

lemma floor_step_ok:
  assumes "floor_step kind pf fs = Inr fs'" "floors_ok fs"
  shows "floors_ok fs'"
proof -
  obtain pkg floor where pf: "pf = (pkg, floor)" by fastforce
  define t where "t = (case map_of fs kind of Some t \<Rightarrow> t | None \<Rightarrow> [])"
  have new: "map_of t pkg = None" and fs': "fs' = AList.update kind (t @ [(pkg, floor)]) fs"
    using assms(1) by (auto simp: floor_step_def pf Let_def t_def split: if_splits)
  have "distinct (map fst t)"
    using assms(2) by (auto simp: t_def floors_ok_def dest: map_of_SomeD split: option.splits)
  with new have "distinct (map fst (t @ [(pkg, floor)]))"
    by (simp add: map_of_eq_None_iff)
  with assms(2) show ?thesis unfolding fs' by (rule floors_update)
qed

lemma mapE_list_all: "mapE f xs = Inr ys \<Longrightarrow> (\<And>x y. f x = Inr y \<Longrightarrow> P y) \<Longrightarrow> list_all P ys"
  by (induction xs arbitrary: ys) (auto simp: bindE_eq_Inr_iff)

lemma fragment_step_ok:
  assumes "fragment_step nd acc = Inr acc'" "acc_ok acc"
  shows "acc_ok acc'"
proof -
  obtain name doc es seen rs fs where p: "nd = (name, doc)" "acc = (es, seen, rs, fs)" by (metis prod.exhaust)
  obtain kvs where doc: "doc = JObj kvs"
    using assms(1) by (auto simp: fragment_step_def p split: json.splits)
  obtain raws es' seen' retired kinds fs' where
    es': "foldE (entry_step name) raws (es, seen) = Inr (es', seen')" and
    ret: "bindE (iter (raw_get kvs ''retire'' (JArr []))) (mapE (\<lambda>r. manifest_retire r name)) = Inr retired" and
    fs': "foldE (\<lambda>(kind, table) fs. bindE (dict_items table) (\<lambda>pkgs. foldE (floor_step kind) pkgs fs)) kinds fs = Inr fs'" and
    acc': "acc' = (es', seen', rs @ retired, fs')"
    using assms(1) by (auto simp: fragment_step_def p doc bindE_eq_Inr_iff)
  have ok: "map e_path es = map fst seen" "paths_distinct es" "list_all entry_ok es" "list_all rule_ok rs" "floors_ok fs"
    using assms(2) by (simp_all add: acc_ok_def p)
  define I where "I = (\<lambda>(es, seen). map e_path es = map fst (seen :: (json \<times> string) list) \<and> paths_distinct es \<and> list_all entry_ok es)"
  have "I (es', seen')"
  proof (rule foldE_keeps [OF _ es', where Q = I])
    show "I (es, seen)" using ok by (simp add: I_def)
    show "I d" if "I c" "entry_step name x c = Inr d" for x c d
      using that by (cases c; cases d) (auto simp: I_def dest: entry_step_ok)
  qed
  moreover have "list_all rule_ok retired"
    using ret by (auto simp: bindE_eq_Inr_iff intro: mapE_list_all manifest_retire_ok)
  moreover have "floors_ok fs'"
  proof (rule foldE_keeps [OF _ fs', where Q = floors_ok])
    show "floors_ok fs" by (rule ok(5))
    show "floors_ok d" if c: "floors_ok c" and d: "(\<lambda>(kind, table) fs. bindE (dict_items table) (\<lambda>pkgs. foldE (floor_step kind) pkgs fs)) kt c = Inr d"
      for kt c d
    proof -
      obtain kind pkgs where "foldE (floor_step kind) pkgs c = Inr d"
        using d by (cases kt) (auto simp: bindE_eq_Inr_iff)
      then show ?thesis by (rule foldE_keeps [where Q = floors_ok, rotated]) (use c floor_step_ok in blast)+
    qed
  qed
  ultimately show ?thesis using ok by (simp add: acc' acc_ok_def I_def)
qed

text \<open>C25. The packaged manifest that loads lists no path twice, each of its entries has a strategy and a
  header the engine knows, modules that exist and, for a whole file, a template, with local regions only under a
  comment header; every retire rule names existing modules; and no floor has two values.\<close>

theorem manifest_valid:
  assumes "parse_manifest fragments = Inr m"
  shows "paths_distinct (m_entries m) \<and> list_all entry_ok (m_entries m) \<and> list_all rule_ok (m_retire m) \<and>
    floors_ok (m_floors m)"
proof -
  obtain seen where "foldE fragment_step (sort_key fst fragments) ([], [], [], []) = Inr (m_entries m, seen, m_retire m, m_floors m)"
    using assms by (auto simp: parse_manifest_def bindE_eq_Inr_iff)
  then have "acc_ok (m_entries m, seen, m_retire m, m_floors m)"
  proof (rule foldE_keeps [where Q = acc_ok, rotated])
    show "acc_ok ([], [], [], [])" by (simp add: acc_ok_def paths_distinct_def floors_ok_def)
  qed (rule fragment_step_ok)
  then show ?thesis by (simp add: acc_ok_def list_all_iff)
qed

definition sample_fragments :: "(string \<times> json) list" where
  "sample_fragments =
     [(''b.json'', JObj [(''entries'', JArr [JObj [(''path'', JStr ''.envrc''), (''strategy'', JStr ''seed''),
         (''module'', JArr [JStr ''dev-shell''])]]), (''floors'', JObj [(''uv'', JObj [(''ruff'', JStr ''0.9'')])])]),
      (''a.json'', JObj [(''entries'', JArr [JObj [(''path'', JStr ''flake.nix''), (''strategy'', JStr ''whole''),
         (''module'', JStr ''dev-shell''), (''template'', JStr ''flake.nix''), (''header'', JStr ''nix'')]])])]"

theorem manifest_valid_witness:
  "\<exists>m. parse_manifest sample_fragments = Inr m \<and> paths_distinct (m_entries m) \<and> list_all entry_ok (m_entries m) \<and>
     list_all rule_ok (m_retire m) \<and> floors_ok (m_floors m)"
proof -
  have "(case parse_manifest sample_fragments of Inr m \<Rightarrow> True | Inl _ \<Rightarrow> False)"
    by code_simp
  then obtain m where "parse_manifest sample_fragments = Inr m"
    by (auto split: sum.splits)
  then show ?thesis using manifest_valid [of sample_fragments m] by blast
qed

end
