(* ===== verification/Rendering.thy ===== *)
theory Rendering
  imports Report PyRegex
begin

text \<open>
  \<^verbatim>\<open>scaffold/render.py\<close>: the managed header, the template helpers, and the evaluator of a \<^verbatim>\<open>when\<close>.

  A \<^verbatim>\<open>when\<close> is profile data a pull request can change, so it is read by a small evaluator over Python's
  syntax tree; \<^verbatim>\<open>ast.parse\<close> is the parameter \<open>parse\<close> (\<open>None\<close> where it raises \<^verbatim>\<open>SyntaxError\<close>).  The values of the
  template context are the JSON values of \<^verbatim>\<open>PyJson\<close>.  Whether \<^verbatim>\<open>is\<close> finds two equal strings or numbers to be one
  object is CPython's business and the parameter \<open>same\<close>.
\<close>

section \<open>Headers and helpers\<close>

definition MARKER :: string where "MARKER = ''frappe-nix:managed''"

definition BASE :: string where
  "BASE = MARKER @ '' '' @ [CHR 0xE2, CHR 0x80, CHR 0x94] @ '' generated by frappe-nix (`frappe-init --sync`);''"

definition header :: "string \<Rightarrow> bool \<Rightarrow> string \<Rightarrow> string" where
  "header kind loc note =
     (if kind = ''none'' then []
      else (if kind \<in> {''jsonc'', ''ts''} then ''//'' else ''#'') @ '' '' @ BASE @ '' '' @
        (if loc then ''edit only inside the frappe-nix:local region.'' else ''do not edit.'') @
        (if note \<noteq> [] then '' '' @ note else []) @ [newline])"

abbreviation backslash :: char where "backslash \<equiv> CHR 0x5C"
abbreviation dquote :: char where "dquote \<equiv> CHR 0x22"

definition nix_string :: "string \<Rightarrow> string" where
  "nix_string value =
     dquote # replace_all ''${'' (backslash # ''${'')
       (replace_all [dquote] [backslash, dquote] (replace_all [backslash] [backslash, backslash] value)) @ [dquote]"

definition nix_ident :: "string \<Rightarrow> bool" where
  "nix_ident s \<longleftrightarrow> (case s of [] \<Rightarrow> False | c # cs \<Rightarrow>
     (is_lower c \<or> is_upper c \<or> c = CHR ''_'') \<and> list_all (\<lambda>x. is_alnum x \<or> x \<in> {CHR ''_'', CHR 0x27, CHR ''-''}) cs)"

definition nix_keywords :: "string list" where
  "nix_keywords = [''assert'', ''else'', ''if'', ''in'', ''inherit'', ''let'', ''or'', ''rec'', ''then'', ''with'']"

definition nix_attr :: "string \<Rightarrow> string" where
  "nix_attr name = (if nix_ident name \<and> name \<notin> set nix_keywords then name else nix_string name)"

text \<open>\<open>to_json\<close> is \<^verbatim>\<open>json.dumps\<close> with the separators \<^verbatim>\<open>(",", ":")\<close>.\<close>

definition yaml_json :: "(json \<Rightarrow> string) \<Rightarrow> json \<Rightarrow> string" where
  "yaml_json to_json v = [CHR 0x27] @ replace_all [CHR 0x27] [CHR 0x27, CHR 0x27] (to_json v) @ [CHR 0x27]"

definition url_template :: "string \<Rightarrow> string \<Rightarrow> string \<Rightarrow> string option \<Rightarrow> string" where
  "url_template template app app_hyphen repo =
     replace_all ''{repo}'' (case repo of Some r \<Rightarrow> r | None \<Rightarrow> [])
       (replace_all ''{app}'' app (replace_all ''{app_hyphen}'' app_hyphen template))"

text \<open>The loader of an org profile's templates refuses a template reached through a link: the directory itself, or
  one of the pieces of the name.\<close>

definition loader_allows :: "(string list \<Rightarrow> bool) \<Rightarrow> string list \<Rightarrow> bool" where
  "loader_allows is_link pieces \<longleftrightarrow> \<not> is_link [] \<and> no_links is_link False [] pieces"

section \<open>The evaluator of a condition\<close>

datatype cmp_op = Eq | NotEq | Lt | LtE | Gt | GtE | In | NotIn | Is | IsNot

datatype pexpr =
    EConst json
  | EName string
  | EAttr pexpr string
  | ESub pexpr pexpr
  | EAnd "pexpr list"
  | EOr "pexpr list"
  | ENot pexpr
  | ENeg pexpr
  | ECompare pexpr "(cmp_op \<times> pexpr) list"
  | ECall pexpr "pexpr list" bool
  | ESeq "pexpr list"
  | EStarred pexpr
  | EOther

text \<open>The ordering comparisons: numbers by value, strings by code points, lists element by element.  \<open>strict\<close>
  is \<^verbatim>\<open>a < b\<close>, otherwise \<^verbatim>\<open>a <= b\<close>.\<close>

fun string_less :: "string \<Rightarrow> string \<Rightarrow> bool" where
  "string_less [] t = (t \<noteq> [])"
| "string_less (c # s) [] = False"
| "string_less (c # s) (d # t) = ((of_char c :: nat) < of_char d \<or> (c = d \<and> string_less s t))"

fun before :: "bool \<Rightarrow> json \<Rightarrow> json \<Rightarrow> bool option"
  and before_list :: "bool \<Rightarrow> json list \<Rightarrow> json list \<Rightarrow> bool option" where
  "before strict (JArr xs) b = (case b of JArr ys \<Rightarrow> before_list strict xs ys | _ \<Rightarrow> None)"
| "before strict (JStr s) b =
     (case b of JStr t \<Rightarrow> Some (string_less s t \<or> (\<not> strict \<and> s = t)) | _ \<Rightarrow> None)"
| "before strict a b =
     (case (num_of a, num_of b) of (Some x, Some y) \<Rightarrow> Some (x < y \<or> (\<not> strict \<and> x = y)) | _ \<Rightarrow> None)"
| "before_list strict [] ys = Some (ys \<noteq> [] \<or> \<not> strict)"
| "before_list strict (x # xs) [] = Some False"
| "before_list strict (x # xs) (y # ys) =
     (if py_eq x y then before_list strict xs ys else before strict x y)"

definition py_is :: "(json \<Rightarrow> json \<Rightarrow> bool) \<Rightarrow> json \<Rightarrow> json \<Rightarrow> bool" where
  "py_is same a b =
     (case (a, b) of
        (JNull, JNull) \<Rightarrow> True | (JBool x, JBool y) \<Rightarrow> x = y
      | (JNull, _) \<Rightarrow> False | (_, JNull) \<Rightarrow> False | (JBool _, _) \<Rightarrow> False | (_, JBool _) \<Rightarrow> False
      | _ \<Rightarrow> same a b)"

definition type_error :: "'a option \<Rightarrow> exn + 'a" where
  "type_error r = (case r of Some x \<Rightarrow> Inr x | None \<Rightarrow> Inl TypeError)"

definition compare_op :: "(json \<Rightarrow> json \<Rightarrow> bool) \<Rightarrow> cmp_op \<Rightarrow> json \<Rightarrow> json \<Rightarrow> exn + bool" where
  "compare_op same c a b =
     (case c of
        Eq \<Rightarrow> Inr (py_eq a b) | NotEq \<Rightarrow> Inr (\<not> py_eq a b)
      | Lt \<Rightarrow> type_error (before True a b) | LtE \<Rightarrow> type_error (before False a b)
      | Gt \<Rightarrow> type_error (before True b a) | GtE \<Rightarrow> type_error (before False b a)
      | In \<Rightarrow> py_in a b | NotIn \<Rightarrow> bindE (py_in a b) (\<lambda>r. Inr (\<not> r))
      | Is \<Rightarrow> Inr (py_is same a b) | IsNot \<Rightarrow> Inr (\<not> py_is same a b))"

definition fail :: "string \<Rightarrow> exn + 'a" where "fail why = Inl (ConfigError why)"

text \<open>\<^verbatim>\<open>except TypeError as e: raise fail(str(e))\<close>.\<close>

definition type_fails :: "exn + 'a \<Rightarrow> exn + 'a" where
  "type_fails r = (case r of Inl TypeError \<Rightarrow> fail ''type error'' | _ \<Rightarrow> r)"

definition hidden :: "json \<Rightarrow> bool" where
  "hidden key = (case key of JStr (c # _) \<Rightarrow> c = CHR ''_'' | _ \<Rightarrow> False)"

text \<open>\<^verbatim>\<open>base[key]\<close>.  \<^verbatim>\<open>KeyError\<close>, \<^verbatim>\<open>IndexError\<close> and \<^verbatim>\<open>TypeError\<close> all end in the same configuration error.\<close>

definition list_at :: "'a list \<Rightarrow> json \<Rightarrow> 'a option" where
  "list_at xs key =
     (case key of
        JInt i \<Rightarrow> (let j = (if i < 0 then i + int (length xs) else i)
                   in if 0 \<le> j \<and> j < int (length xs) then Some (xs ! nat j) else None)
      | _ \<Rightarrow> None)"

definition subscript :: "bool \<Rightarrow> json \<Rightarrow> json \<Rightarrow> exn + json" where
  "subscript attr base key =
     (if hidden key then fail ''names starting with _ are not readable''
      else if attr \<and> \<not> is_dict base then fail ''of a value that is not a table''
      else if (case key of JBool _ \<Rightarrow> True | _ \<Rightarrow> False) then fail ''of a value that has no items''
      else case base of
        JObj kvs \<Rightarrow> (case key of JStr k \<Rightarrow> (case map_of kvs k of Some v \<Rightarrow> Inr v | None \<Rightarrow> fail ''not there'')
                     | _ \<Rightarrow> fail ''not there'')
      | JArr xs \<Rightarrow> (case list_at xs key of Some v \<Rightarrow> Inr v | None \<Rightarrow> fail ''not there'')
      | JStr s \<Rightarrow> (case list_at s key of Some c \<Rightarrow> Inr (JStr [c]) | None \<Rightarrow> fail ''not there'')
      | _ \<Rightarrow> fail ''of a value that has no items'')"

definition negate :: "json \<Rightarrow> exn + json" where
  "negate v = (case v of JInt i \<Rightarrow> Inr (JInt (- i)) | JFloat r \<Rightarrow> Inr (JFloat (- r)) | _ \<Rightarrow> fail ''unary minus needs a number'')"

definition callable :: "pexpr \<Rightarrow> bool" where
  "callable f \<longleftrightarrow> f \<in> {EName ''len'', EName ''any'', EName ''all''}"

definition starred :: "pexpr \<Rightarrow> bool" where
  "starred e = (case e of EStarred _ \<Rightarrow> True | _ \<Rightarrow> False)"

definition call_builtin :: "pexpr \<Rightarrow> json list \<Rightarrow> exn + json" where
  "call_builtin f args =
     (case args of
        [v] \<Rightarrow> bindE (iter v) (\<lambda>xs.
          Inr (if f = EName ''len'' then JInt (int (length xs))
               else JBool (if f = EName ''any'' then list_ex truthy xs else list_all truthy xs)))
      | _ \<Rightarrow> Inl TypeError)"

type_synonym ctx_names = "(string \<times> json) list"

text \<open>The loops of \<^verbatim>\<open>_evaluate\<close> over operands, comparators and elements are functions of their own.\<close>

fun evaluate_expr :: "(json \<Rightarrow> json \<Rightarrow> bool) \<Rightarrow> ctx_names \<Rightarrow> pexpr \<Rightarrow> exn + json"
  and eval_and :: "(json \<Rightarrow> json \<Rightarrow> bool) \<Rightarrow> ctx_names \<Rightarrow> pexpr list \<Rightarrow> json \<Rightarrow> exn + json"
  and eval_or :: "(json \<Rightarrow> json \<Rightarrow> bool) \<Rightarrow> ctx_names \<Rightarrow> pexpr list \<Rightarrow> json \<Rightarrow> exn + json"
  and eval_compare :: "(json \<Rightarrow> json \<Rightarrow> bool) \<Rightarrow> ctx_names \<Rightarrow> json \<Rightarrow> (cmp_op \<times> pexpr) list \<Rightarrow> exn + json"
  and eval_list :: "(json \<Rightarrow> json \<Rightarrow> bool) \<Rightarrow> ctx_names \<Rightarrow> pexpr list \<Rightarrow> exn + json list" where
  "evaluate_expr same ctx (EConst v) = Inr v"
| "evaluate_expr same ctx (EName n) =
     (if hidden (JStr n) then fail ''is not in the context''
      else case map_of ctx n of Some v \<Rightarrow> Inr v | None \<Rightarrow> fail ''is not in the context'')"
| "evaluate_expr same ctx (EAttr e k) = bindE (evaluate_expr same ctx e) (\<lambda>base. subscript True base (JStr k))"
| "evaluate_expr same ctx (ESub e i) =
     bindE (evaluate_expr same ctx e) (\<lambda>base. bindE (evaluate_expr same ctx i) (\<lambda>key. subscript False base key))"
| "evaluate_expr same ctx (EAnd es) = eval_and same ctx es JNull"
| "evaluate_expr same ctx (EOr es) = eval_or same ctx es JNull"
| "evaluate_expr same ctx (ENot e) = bindE (evaluate_expr same ctx e) (\<lambda>v. Inr (JBool (\<not> truthy v)))"
| "evaluate_expr same ctx (ENeg e) = bindE (evaluate_expr same ctx e) negate"
| "evaluate_expr same ctx (ECompare e ops) = bindE (evaluate_expr same ctx e) (\<lambda>l. eval_compare same ctx l ops)"
| "evaluate_expr same ctx (ECall f args keywords) =
     (if \<not> callable f \<or> keywords then fail ''only len, any, all may be called''
      else if list_ex starred args then fail ''no * arguments''
      else type_fails (bindE (eval_list same ctx args) (call_builtin f)))"
| "evaluate_expr same ctx (ESeq es) = bindE (eval_list same ctx es) (\<lambda>vs. Inr (JArr vs))"
| "evaluate_expr same ctx (EStarred e) = fail ''Starred is not allowed''"
| "evaluate_expr same ctx EOther = fail ''is not allowed''"
| "eval_and same ctx [] v = Inr v"
| "eval_and same ctx (e # es) v =
     bindE (evaluate_expr same ctx e) (\<lambda>w. if \<not> truthy w then Inr w else eval_and same ctx es w)"
| "eval_or same ctx [] v = Inr v"
| "eval_or same ctx (e # es) v =
     bindE (evaluate_expr same ctx e) (\<lambda>w. if truthy w then Inr w else eval_or same ctx es w)"
| "eval_compare same ctx l [] = Inr (JBool True)"
| "eval_compare same ctx l ((c, e) # ops) =
     bindE (evaluate_expr same ctx e) (\<lambda>r.
     bindE (type_fails (compare_op same c l r)) (\<lambda>b.
       if \<not> b then Inr (JBool False) else eval_compare same ctx r ops))"
| "eval_list same ctx [] = Inr []"
| "eval_list same ctx (e # es) =
     bindE (evaluate_expr same ctx e) (\<lambda>v. bindE (eval_list same ctx es) (\<lambda>vs. Inr (v # vs)))"

definition evaluate_when :: "(json \<Rightarrow> json \<Rightarrow> bool) \<Rightarrow> (string \<Rightarrow> pexpr option) \<Rightarrow> json \<Rightarrow> ctx_names \<Rightarrow> exn + bool" where
  "evaluate_when same parse expr ctx =
     (case expr of
        JStr s \<Rightarrow>
          (case parse (strip s) of
             None \<Rightarrow> fail ''is not an expression''
           | Some tree \<Rightarrow> bindE (evaluate_expr same ctx tree) (\<lambda>v. Inr (truthy v)))
      | _ \<Rightarrow> Inl AttributeError)"

section \<open>What a condition can do\<close>

definition config_only :: "exn + 'a \<Rightarrow> bool" where
  "config_only r \<longleftrightarrow> (\<forall>e. r = Inl e \<longrightarrow> (\<exists>why. e = ConfigError why))"

named_theorems config_rules \<open>a result is a value or a configuration error\<close>

lemma config_fail [config_rules]: "config_only (fail why)" by (simp add: config_only_def fail_def)
lemma config_Inr [config_rules]: "config_only (Inr a)" by (simp add: config_only_def)

lemma config_bindE [config_rules]: "config_only m \<Longrightarrow> (\<And>a. m = Inr a \<Longrightarrow> config_only (k a)) \<Longrightarrow> config_only (bindE m k)"
  by (cases m) (auto simp: config_only_def)

lemma config_if [config_rules]: "(b \<Longrightarrow> config_only m) \<Longrightarrow> (\<not> b \<Longrightarrow> config_only n) \<Longrightarrow> config_only (if b then m else n)"
  by simp

lemma config_option [config_rules]:
  "(x = None \<Longrightarrow> config_only m) \<Longrightarrow> (\<And>a. x = Some a \<Longrightarrow> config_only (k a)) \<Longrightarrow>
   config_only (case x of None \<Rightarrow> m | Some a \<Rightarrow> k a)"
  by (cases x) auto

definition config_or_type :: "exn + 'a \<Rightarrow> bool" where
  "config_or_type r \<longleftrightarrow> (\<forall>e. r = Inl e \<longrightarrow> e = TypeError \<or> (\<exists>why. e = ConfigError why))"

lemma config_type_fails [config_rules]: "config_or_type r \<Longrightarrow> config_only (type_fails r)"
  by (cases r) (auto simp: config_only_def config_or_type_def type_fails_def fail_def split: exn.splits)

lemma config_subscript [config_rules]: "config_only (subscript attr base key)"
  unfolding subscript_def by (cases base; cases key) (auto intro!: config_rules)

lemma config_negate [config_rules]: "config_only (negate v)"
  unfolding negate_def by (cases v) (auto intro!: config_rules)

lemma type_compare_op: "config_or_type (compare_op same c a b)"
  by (cases c) (auto simp: compare_op_def config_or_type_def type_error_def py_in_def bindE_eq_Inl_iff
      split: option.splits json.splits)

lemma type_call_builtin: "config_or_type (call_builtin f args)"
  by (auto simp: call_builtin_def config_or_type_def iter_def bindE_eq_Inl_iff split: list.splits json.splits)

lemma type_bindE: "config_only m \<Longrightarrow> (\<And>a. config_or_type (k a)) \<Longrightarrow> config_or_type (bindE m k)"
  by (cases m) (auto simp: config_only_def config_or_type_def)

lemma evaluate_config:
  "config_only (evaluate_expr same ctx e)"
  "config_only (eval_and same ctx es v)"
  "config_only (eval_or same ctx es v)"
  "config_only (eval_compare same ctx v ops)"
  "config_only (eval_list same ctx es)"
  by (induction same ctx e and same ctx es v and same ctx es v and same ctx v ops and same ctx es
      rule: evaluate_expr_eval_and_eval_or_eval_compare_eval_list.induct)
    (auto intro!: config_rules type_bindE type_compare_op type_call_builtin )

text \<open>The context as a condition sees it: the names that do not start with an underscore.\<close>

definition visible :: "ctx_names \<Rightarrow> ctx_names" where
  "visible ctx = filter (\<lambda>(n, v). \<not> hidden (JStr n)) ctx"

lemma map_of_visible: "\<not> hidden (JStr n) \<Longrightarrow> map_of (visible ctx) n = map_of ctx n"
  by (induction ctx) (auto simp: visible_def)

lemma expr_visible:
  "evaluate_expr same (visible ctx) e = evaluate_expr same ctx e"
  "eval_and same (visible ctx) es v = eval_and same ctx es v"
  "eval_or same (visible ctx) es v = eval_or same ctx es v"
  "eval_compare same (visible ctx) v ops = eval_compare same ctx v ops"
  "eval_list same (visible ctx) es = eval_list same ctx es"
  by (induction same ctx e and same ctx es v and same ctx es v and same ctx v ops and same ctx es
      rule: evaluate_expr_eval_and_eval_or_eval_compare_eval_list.induct)
    (auto simp: map_of_visible intro!: bindE_cong)



section \<open>A Nix string literal says what it was made from\<close>

text \<open>A Nix string literal read as the Nix manual describes it: a backslash makes the next character itself (or a line
  feed, a carriage return, a tab), a quote ends the literal, and \<^verbatim>\<open>${\<close> starts an antiquotation, which is no constant
  (\<open>None\<close>); \<^verbatim>\<open>$${\<close> is no antiquotation, and a carriage return is read as a line feed.\<close>

fun nix_chars :: "string \<Rightarrow> string option" where
  "nix_chars [] = None"
| "nix_chars (c # s) =
     (if c = dquote then (if s = [] then Some [] else None)
      else if c = backslash then
        (case s of [] \<Rightarrow> None
         | d # t \<Rightarrow> map_option ((#) (if d = CHR ''n'' then newline else if d = CHR ''r'' then CHR 0x0D
                                    else if d = CHR ''t'' then tab else d)) (nix_chars t))
      else if c = CHR ''$'' then
        (case s of d # t \<Rightarrow> if d = CHR ''{'' then None else if d = CHR ''$'' then map_option ((@) ''$$'') (nix_chars t)
            else map_option ((#) c) (nix_chars s)
         | [] \<Rightarrow> None)
      else if c = CHR 0x0D then
        (case s of d # t \<Rightarrow> map_option ((#) newline) (if d = newline then nix_chars t else nix_chars s) | [] \<Rightarrow> None)
      else map_option ((#) c) (nix_chars s))"

definition nix_literal :: "string \<Rightarrow> string option" where
  "nix_literal s = (case s of c # t \<Rightarrow> if c = dquote then nix_chars t else None | [] \<Rightarrow> None)"

text \<open>The three replacements in one pass.\<close>

definition nix_char :: "char \<Rightarrow> string" where
  "nix_char c = (if c = backslash then [backslash, backslash] else if c = dquote then [backslash, dquote] else [c])"

fun nix_pass :: "string \<Rightarrow> string" where
  "nix_pass [] = []"
| "nix_pass [c] = nix_char c"
| "nix_pass (c # d # s) =
     (if c = CHR ''$'' \<and> d = CHR ''{'' then backslash # ''${'' @ nix_pass s else nix_char c @ nix_pass (d # s))"

lemma nix_two_passes:
  "replace_all [dquote] [backslash, dquote] (replace_all [backslash] [backslash, backslash] s) = concat (map nix_char s)"
  by (induction s) (simp_all add: replace_char nix_char_def)

lemma replace_dollar:
  "replace_all ''${'' new (c # s) =
     (if startswith (c # s) ''${'' then new @ replace_all ''${'' new (drop 1 s) else c # replace_all ''${'' new s)"
  by (simp add: replace_all.simps [of _ _ "c # s"])

lemma replace_dollar_Nil [simp]: "replace_all ''${'' new [] = []"
  by (simp add: replace_all.simps)

lemma nix_pass_eq: "replace_all ''${'' (backslash # ''${'') (concat (map nix_char s)) = nix_pass s"
proof (induction s rule: nix_pass.induct)
  case (3 c d s)
  have brace: "startswith (nix_char d @ u) ''{'' \<longleftrightarrow> d = CHR ''{''" for u
    by (simp add: nix_char_def startswith_def)
  show ?case
  proof (cases "c = CHR ''$'' \<and> d = CHR ''{''")
    case True
    with 3 show ?thesis by (simp add: nix_char_def replace_dollar startswith_def)
  next
    case False
    with 3 brace show ?thesis
      by (auto simp: nix_char_def replace_dollar startswith_def)
  qed
qed (simp_all add: nix_char_def replace_dollar startswith_def)

lemma nix_chars_char:
  "c \<noteq> CHR ''$'' \<Longrightarrow> c \<noteq> CHR 0x0D \<Longrightarrow> nix_chars (nix_char c @ u) = map_option ((#) c) (nix_chars u)"
  by (simp add: nix_char_def)

lemma nix_chars_dollar:
  "d \<noteq> CHR ''$'' \<Longrightarrow> d \<noteq> CHR ''{'' \<Longrightarrow> nix_chars (CHR ''$'' # d # u) = map_option ((#) (CHR ''$'')) (nix_chars (d # u))"
  by simp

lemma nix_pass_Cons:
  "\<not> (c = CHR ''$'' \<and> (\<exists>t. s = CHR ''{'' # t)) \<Longrightarrow> nix_pass (c # s) = nix_char c @ nix_pass s"
  by (cases s) auto

declare nix_chars.simps(2) [simp del] nix_pass.simps(3) [simp del]

lemma nix_pass_head:
  assumes "d \<noteq> CHR ''$'' \<and> d \<noteq> CHR ''{'' \<or> (\<exists>t. d # s = ''${'' @ t)"
  shows "\<exists>e u. nix_pass (d # s) = e # u \<and> e \<noteq> CHR ''$'' \<and> e \<noteq> CHR ''{''"
  using assms by (auto simp: nix_pass.simps(3) nix_pass_Cons nix_char_def)

lemma nix_chars_pass: "CHR 0x0D \<notin> set s \<Longrightarrow> nix_chars (nix_pass s @ [dquote]) = Some s"
proof (induction s rule: length_induct)
  case (1 s)
  have IH: "nix_chars (nix_pass t @ [dquote]) = Some t" if "length t < length s" "set t \<subseteq> set s" for t
    using 1 that by blast
  have nodollar: "nix_pass (CHR ''$'' # t) = CHR ''$'' # nix_pass t" if "\<nexists>u. t = CHR ''{'' # u" for t
    using that by (simp add: nix_pass_Cons nix_char_def)
  show ?case
  proof (cases s)
    case Nil
    then show ?thesis by (simp add: nix_chars.simps(2))
  next
    case (Cons c t)
    have t: "nix_chars (nix_pass t @ [dquote]) = Some t" by (rule IH) (auto simp: Cons)
    have cr: "c \<noteq> CHR 0x0D" using 1 Cons by auto
    consider (plain) "c \<noteq> CHR ''$''" | (brace) u where "c = CHR ''$''" "t = CHR ''{'' # u"
      | (dollar) "c = CHR ''$''" "\<nexists>u. t = CHR ''{'' # u" by blast
    then show ?thesis
    proof cases
      case plain
      then show ?thesis using t cr by (simp add: Cons nix_pass_Cons nix_chars_char)
    next
      case brace
      have "nix_chars (nix_pass u @ [dquote]) = Some u" by (rule IH) (auto simp: Cons brace)
      then show ?thesis by (simp add: Cons brace nix_pass.simps(3) nix_chars.simps(2))
    next
      case dollar
      note d = nodollar [OF dollar(2)]
      show ?thesis
      proof (cases t)
        case Nil
        then show ?thesis by (simp add: Cons dollar(1) nix_char_def nix_chars.simps(2))
      next
        case (Cons e v)
        show ?thesis
        proof (cases "e = CHR ''$'' \<and> (\<nexists>u. v = CHR ''{'' # u)")
          case True
          have "nix_chars (nix_pass v @ [dquote]) = Some v" by (rule IH) (auto simp: \<open>s = c # t\<close> Cons)
          then show ?thesis
            using True nodollar [of v] d by (simp add: \<open>s = c # t\<close> dollar(1) Cons nix_chars.simps(2))
        next
          case False
          then have "e \<noteq> CHR ''$'' \<and> e \<noteq> CHR ''{'' \<or> (\<exists>t. e # v = ''${'' @ t)"
            using dollar(2) Cons by auto
          from nix_pass_head [OF this] obtain f u where "nix_pass t = f # u" "f \<noteq> CHR ''$''" "f \<noteq> CHR ''{''"
            using Cons by blast
          then show ?thesis
            using t by (simp add: \<open>s = c # t\<close> dollar(1) d nix_chars_dollar)
        qed
      qed
    qed
  qed
qed

text \<open>C29. The Nix literal the templates write for a value, whatever the value, is one string literal with no
  antiquotation in it, and Nix reads the value back from it (a carriage return apart, which Nix reads as a line feed).\<close>

theorem nix_string_is_the_value:
  assumes "CHR 0x0D \<notin> set value"
  shows "nix_literal (nix_string value) = Some value"
  using nix_chars_pass [OF assms]
  by (simp add: nix_literal_def nix_string_def nix_two_passes nix_pass_eq)

theorem nix_string_is_the_value_witness:
  "nix_literal (nix_string [CHR ''$'', CHR ''{'', dquote, backslash, CHR ''}'']) = Some [CHR ''$'', CHR ''{'', dquote, backslash, CHR ''}'']"
  by (rule nix_string_is_the_value) simp

end
