(* ===== verification/Semantic.thy ===== *)
theory Semantic
  imports PyJsonText
begin

text \<open>
  \<^verbatim>\<open>scaffold/semantic.py\<close>: a managed file compared as data.  The YAML and TOML parsers are parameters
  (\<open>None\<close> where they raise).
\<close>

definition base_name :: "string \<Rightarrow> string" where
  "base_name path = last (split_on (CHR ''/'') path)"

definition data_kind :: "string \<Rightarrow> string option" where
  "data_kind path =
     (let name = base_name path in
      if endswith name ''.yml'' \<or> endswith name ''.yaml'' then Some ''yaml''
      else if endswith name ''.jsonc'' \<or> (startswith name ''tsconfig'' \<and> endswith (drop 8 name) ''.json'') then Some ''jsonc''
      else if endswith name ''.json'' then Some ''json''
      else if endswith name ''.toml'' then Some ''toml''
      else None)"

text \<open>The pattern of \<^verbatim>\<open>_JSONC\<close>, an alternative at a time: a string literal up to its closing quote, a block
  comment, a comma before a closing bracket.\<close>

fun literal_end :: "string \<Rightarrow> (string \<times> string) option" where
  "literal_end [] = None"
| "literal_end (c # s) =
     (if c = CHR 0x22 then Some ([c], s)
      else if c = CHR 0x5C then
        (case s of [] \<Rightarrow> None | d # t \<Rightarrow> map_option (\<lambda>(a, b). (c # d # a, b)) (literal_end t))
      else map_option (\<lambda>(a, b). (c # a, b)) (literal_end s))"

fun after_comment :: "string \<Rightarrow> string option" where
  "after_comment [] = None"
| "after_comment (c # s) = (if startswith (c # s) ''*/'' then Some (drop 1 s) else after_comment s)"

definition trailing_comma :: "string \<Rightarrow> bool" where
  "trailing_comma s \<longleftrightarrow> (case dropWhile is_ws s of c # _ \<Rightarrow> c = CHR ''}'' \<or> c = CHR '']'' | [] \<Rightarrow> False)"

lemma literal_end_app: "literal_end s = Some (a, b) \<Longrightarrow> s = a @ b"
  by (induction s arbitrary: a b rule: literal_end.induct) (auto split: if_splits list.splits)

lemma after_comment_length: "after_comment s = Some r \<Longrightarrow> length r \<le> length s"
  by (induction s) (auto split: if_splits)

function strip_jsonc :: "string \<Rightarrow> string" where
  "strip_jsonc [] = []"
| "strip_jsonc (c # s) =
     (if c = CHR 0x22 then
        (case literal_end s of Some (body, rest) \<Rightarrow> c # body @ strip_jsonc rest | None \<Rightarrow> c # strip_jsonc s)
      else if c = CHR ''/'' \<and> startswith s ''/'' then strip_jsonc (dropWhile (\<lambda>x. x \<noteq> newline) s)
      else if c = CHR ''/'' \<and> startswith s ''*'' then
        (case after_comment (drop 1 s) of Some rest \<Rightarrow> strip_jsonc rest | None \<Rightarrow> c # strip_jsonc s)
      else if c = CHR '','' \<and> trailing_comma s then strip_jsonc s
      else c # strip_jsonc s)"
  by pat_completeness auto
termination
  by (relation "measure length")
    (auto dest!: literal_end_app after_comment_length simp: less_Suc_eq_le le_trans [OF length_dropWhile_le])

definition parse_data :: "(string \<Rightarrow> json option) \<Rightarrow> (string \<Rightarrow> json option) \<Rightarrow> string \<Rightarrow> string \<Rightarrow> json option" where
  "parse_data yaml toml text fmt =
     (if fmt = ''yaml'' then yaml text
      else if fmt = ''json'' then loads text
      else if fmt = ''jsonc'' then loads (strip_jsonc text)
      else if fmt = ''toml'' then toml text
      else None)"

definition head_line :: "string \<Rightarrow> string" where
  "head_line text = hd (split_on newline text)"

definition same_data :: "(string \<Rightarrow> json option) \<Rightarrow> (string \<Rightarrow> json option) \<Rightarrow> string \<Rightarrow> string option \<Rightarrow> string \<Rightarrow> bool" where
  "same_data yaml toml path current rendered =
     (case (current, data_kind path) of
        (Some cur, Some fmt) \<Rightarrow>
          strip (head_line cur) = strip (head_line rendered) \<and>
          (case (parse_data yaml toml cur fmt, parse_data yaml toml rendered fmt) of
             (Some a, Some b) \<Rightarrow> py_eq a b | _ \<Rightarrow> False)
      | _ \<Rightarrow> False)"

end
