(* ===== verification/Engine.thy ===== *)
theory Engine
  imports Manifest Rendering Semantic Managed TomlRounds Regions JsonFmt FlakeLock
begin

text \<open>
  \<^verbatim>\<open>scaffold/engine.py\<close>: the plan of a sync.  For each entry of the manifest, the file on disk and the file sync
  wants there, or the problem it can not fix; what a module that is off, or a condition that no longer holds,
  leaves behind; the legacy files; and the plan as their list.

  The record \<open>engine\<close> holds what \<^verbatim>\<open>build\<close> has computed before its loop (the context, the configuration, the
  history) and the code that is not modelled here: Jinja's rendering, \<^verbatim>\<open>ast.parse\<close>, \<^verbatim>\<open>re\<close>, git, the README
  blocks and the texts of the problems of \<^verbatim>\<open>pyproject.toml\<close> and \<^verbatim>\<open>package.json\<close>.
\<close>

section \<open>The environment of a plan\<close>

datatype plan_notice =
    TomlLeft "string list" string
  | PackageLeft string
  | SeedStays string
  | AppsNow string

record 'v engine =
  n_is_link :: "string list \<Rightarrow> bool"
  n_file :: "string \<Rightarrow> string option"
  n_tracked :: "string list"
  n_app :: string
  n_ctx :: ctx_names
  n_org :: json
  n_conf :: conf
  n_history :: past
  n_previous :: "conf option"
  n_force :: bool
  n_vite :: bool
  n_package_live :: bool
  n_version :: string
  n_created :: "jtable option"
  n_project :: json
  n_same :: "json \<Rightarrow> json \<Rightarrow> bool"
  n_parse :: "string \<Rightarrow> pexpr option"
  n_path :: "json \<Rightarrow> exn + string"
  n_templates :: "(json \<Rightarrow> bool) option"
  n_render :: "bool \<Rightarrow> json \<Rightarrow> string option \<Rightarrow> exn + string"
  n_yaml :: "string \<Rightarrow> json option"
  n_head :: "string \<Rightarrow> string option"
  n_shallow :: bool
  n_ancestor :: "string \<Rightarrow> bool"
  n_data :: "string \<Rightarrow> string"
  n_readme :: "string option \<Rightarrow> exn + string"
  n_readme_marked :: "string \<Rightarrow> bool"
  n_readme_strip :: "string \<Rightarrow> string"
  n_baseline :: "string \<Rightarrow> string list"
  n_search :: "json \<Rightarrow> string \<Rightarrow> bool"
  n_compiles :: "json \<Rightarrow> bool"
  n_pkg :: pkg_ctx
  n_toml :: toml_ctx
  n_kit :: tomlkit
  n_text :: "json \<Rightarrow> string"
  n_builtin :: templates
  n_re :: "string \<Rightarrow> (string \<Rightarrow> bool) option"
  n_ver :: "string \<Rightarrow> 'v option"
  n_float :: "rat \<Rightarrow> string"
  n_uv_floors :: "(string \<times> string) list"
  n_toml_why :: "toml_problem \<Rightarrow> string"
  n_pkg_why :: "pkg_problem \<Rightarrow> string"

abbreviation module_live :: "'v engine \<Rightarrow> string \<Rightarrow> bool" where "module_live g m \<equiv> k_modules (n_conf g) m"

definition engine_read :: "'v engine \<Rightarrow> string \<Rightarrow> exn + string option" where
  "engine_read g path = read_managed (n_is_link g) (n_file g) path"

section \<open>Checks\<close>

text \<open>\<^verbatim>\<open>check_uses\<close>: \<^verbatim>\<open>key.split(".")[1:]\<close> followed through the tables of \<^verbatim>\<open>org\<close>.\<close>

fun org_value :: "json \<Rightarrow> string list \<Rightarrow> json" where
  "org_value v [] = v"
| "org_value v (k # ks) = org_value (case v of JObj kvs \<Rightarrow> raw_get kvs k JNull | _ \<Rightarrow> JNull) ks"

definition check_uses :: "'v engine \<Rightarrow> mentry \<Rightarrow> exn + unit" where
  "check_uses g e =
     (if list_ex (\<lambda>key. startswith key ''org.'' \<and> \<not> endswith key ''?'' \<and>
           \<not> truthy (org_value (n_org g) (tl (split_on (CHR ''.'') key)))) (e_uses e)
      then Inl (ConfigError ''needs a value of [org], which is empty'') else Inr ())"

text \<open>\<^verbatim>\<open>check_preset\<close>.\<close>

definition check_preset :: "json \<Rightarrow> (string \<Rightarrow> bool) \<Rightarrow> string list \<Rightarrow> exn + unit" where
  "check_preset cfg modules tracked =
     (if \<not> modules ''typescript'' \<or> setting_or cfg ''typescript'' ''preset'' JNull \<noteq> JStr ''inline'' then Inr ()
      else if list_ex (\<lambda>k. truthy (setting_or cfg ''typescript'' k JNull)) [''check-js'', ''audit-consumer'']
      then Inl (ConfigError ''needs the Frappe declarations of the frappe-types preset'')
      else if ''types/doctypes.d.ts'' \<in> set tracked
      then Inl (ConfigError ''types/doctypes.d.ts is checked with frappe-types gen-registry'')
      else Inr ())"

text \<open>\<^verbatim>\<open>^(github:|(git\+)?https://github\.com/)\<close>, without regard to case.\<close>

definition github_url :: "string \<Rightarrow> bool" where
  "github_url url \<longleftrightarrow>
     (let u = lower url in startswith u ''github:'' \<or> startswith u ''https://github.com/'' \<or> startswith u ''git+https://github.com/'')"

definition check_frappe_nix_url :: "json \<Rightarrow> (string \<Rightarrow> bool) \<Rightarrow> exn + unit" where
  "check_frappe_nix_url cfg modules =
     (case setting_or cfg ''dev-shell'' ''frappe-nix-url'' JNull of
        JStr url \<Rightarrow> if url \<noteq> [] \<and> modules ''ci'' \<and> \<not> github_url url then Inl (ConfigError ''is not on GitHub, and ci is on'') else Inr ()
      | _ \<Rightarrow> Inr ())"

text \<open>\<^verbatim>\<open>check_excludes\<close>: a source file of the app an exclude pattern names.\<close>

definition source_file :: "string \<Rightarrow> string \<Rightarrow> bool" where
  "source_file app p \<longleftrightarrow> startswith p (app @ ''/'') \<and>
     list_ex (\<lambda>x. endswith p x \<or> endswith p (x @ [newline])) [''.js'', ''.ts'', ''.vue'']"

definition check_excludes :: "string \<Rightarrow> string list \<Rightarrow> string list \<Rightarrow> exn + unit" where
  "check_excludes app tracked globs =
     (if list_ex (\<lambda>glob. list_ex (\<lambda>p. source_file app p \<and> glob_match glob p) tracked) globs
      then Inl (ConfigError ''exclude matches a source file'') else Inr ())"

text \<open>\<^verbatim>\<open>dependabot_ignore_notices\<close>: the ignore keys that name no managed directory.\<close>

definition ignore_notices :: "bool \<Rightarrow> string list \<Rightarrow> string list \<Rightarrow> bool \<Rightarrow> bool \<Rightarrow> string list" where
  "ignore_notices npm keys nested package_live docs =
     (if \<not> npm then []
      else let dirs = map ((@) ''/'') nested @ (if package_live then [''/''] else []) @ (if docs then [''/docs-site''] else [])
           in filter (\<lambda>k. startswith k ''npm:'' \<and> drop 4 k \<notin> set dirs) keys)"

text \<open>The \<^verbatim>\<open>[[extra-files]]\<close> may not collide with the packaged entries, and the paths as written must be inside.\<close>

definition extra_ok :: "mentry list \<Rightarrow> mentry \<Rightarrow> exn + unit" where
  "extra_ok taken e =
     (case e_path e of
        JStr p \<Rightarrow>
          if list_ex control_char p then Inl (ConfigError ''holds a control character'')
          else if list_ex (\<lambda>t. py_eq (e_path t) (JStr p)) taken \<or> p \<in> {''pyproject.toml'', ''package.json''}
          then Inl (ConfigError ''is a path frappe-nix manages'')
          else if startswith p ''/'' \<or> ''..'' \<in> set (posix_parts p) then Inl (ConfigError ''must stay inside the app'')
          else if unmanaged_dir p \<noteq> None then Inl (ConfigError ''which sync never writes'')
          else Inr ()
      | _ \<Rightarrow> Inl TypeError)"

definition entries_for :: "manifest \<Rightarrow> json \<Rightarrow> exn + mentry list" where
  "entries_for man cfg =
     bindE (extra_entries cfg) (\<lambda>extra.
     bindE (mapE (extra_ok (m_entries man)) extra) (\<lambda>_. Inr (m_entries man @ extra)))"

text \<open>\<^verbatim>\<open>check_overrides\<close>: the files of the profile's \<^verbatim>\<open>templates/\<close>, by their paths in it.\<close>

definition check_overrides :: "string list option \<Rightarrow> mentry list \<Rightarrow> exn + unit" where
  "check_overrides files entries =
     (case files of
        None \<Rightarrow> Inr ()
      | Some rels \<Rightarrow>
          let allowed = concat (map (\<lambda>e. case e_template e of
                JStr t \<Rightarrow> if t \<noteq> [] \<and> (e_overridable e \<or> e_profile_template e) then [t] else [] | _ \<Rightarrow> []) entries);
              folders = filter (\<lambda>t. endswith t ''/'') allowed
          in if list_ex (\<lambda>rel. rel \<notin> set allowed \<and> \<not> list_ex (startswith rel) folders) rels
             then Inl (ConfigError ''overrides no overridable template'') else Inr ())"

section \<open>A local region may add, never redefine\<close>

text \<open>The lines inside and outside the local regions.\<close>

definition region_mark :: "string \<Rightarrow> bool option" where
  "region_mark line =
     (let s = lstrip line in
      if startswith s ''# frappe-nix:local-begin '' then Some True
      else if startswith s ''# frappe-nix:local-end '' then Some False else None)"

fun region_parts :: "string list \<Rightarrow> bool \<Rightarrow> string list \<times> string list" where
  "region_parts [] cur = ([], [])"
| "region_parts (l # ls) cur =
     (case region_mark l of
        Some b \<Rightarrow> region_parts ls b
      | None \<Rightarrow> (case region_parts ls cur of (ins, outs) \<Rightarrow> if cur then (l # ins, outs) else (ins, l # outs)))"

text \<open>\<^verbatim>\<open>^\s*-\s+id:\s*(\S+)\<close> and \<^verbatim>\<open>^\s*-\s+package-ecosystem:\s*(\S+)\<close> for \<open>dash\<close>; \<^verbatim>\<open>^\s+directory:\s*(\S+)\<close>.\<close>

definition word_after :: "string \<Rightarrow> string \<Rightarrow> string option" where
  "word_after key s =
     (let w = takeWhile (\<lambda>c. \<not> is_ws c) (lstrip (drop (length key) s))
      in if startswith s key \<and> w \<noteq> [] then Some w else None)"

definition dash_word :: "string \<Rightarrow> string \<Rightarrow> string option" where
  "dash_word key line =
     (case lstrip line of
        c # r \<Rightarrow> if c = CHR ''-'' \<and> r \<noteq> [] \<and> is_ws (hd r) then word_after key (lstrip r) else None
      | [] \<Rightarrow> None)"

definition directory_word :: "string \<Rightarrow> string option" where
  "directory_word line = (if line \<noteq> [] \<and> is_ws (hd line) then word_after ''directory:'' (lstrip line) else None)"

text \<open>\<^verbatim>\<open>^\s*(\[[^\]]+\])\s*$\<close>.\<close>

definition section_word :: "string \<Rightarrow> string option" where
  "section_word line =
     (let s = strip line; body = butlast (tl s)
      in if length s \<ge> 3 \<and> hd s = CHR ''['' \<and> last s = CHR '']'' \<and> CHR '']'' \<notin> set body then Some s else None)"

text \<open>\<^verbatim>\<open>keys\<close>: what the lines define, the ecosystem of an update entry remembered until its directory.\<close>

definition region_key_step :: "bool \<Rightarrow> string \<Rightarrow> string list \<times> string option \<Rightarrow> string list \<times> string option" where
  "region_key_step ini line = (\<lambda>(out, eco).
     let ids = (case dash_word ''id:'' line of Some w \<Rightarrow> [''hook id '' @ w] | None \<Rightarrow> []);
         eco1 = (case dash_word ''package-ecosystem:'' line of Some w \<Rightarrow> Some w | None \<Rightarrow> eco);
         upd = (case (eco1, directory_word line) of
                  (Some x, Some w) \<Rightarrow> ([''updates entry '' @ x @ '' '' @ w], None) | _ \<Rightarrow> ([], eco1));
         sec = (if ini then (case section_word line of Some w \<Rightarrow> [''section '' @ w] | None \<Rightarrow> []) else [])
     in (out @ ids @ fst upd @ sec, snd upd))"

definition region_keys :: "bool \<Rightarrow> string list \<Rightarrow> string list" where
  "region_keys ini lines = fst (fold (region_key_step ini) lines ([], None))"

definition nix_name_char :: "char \<Rightarrow> bool" where
  "nix_name_char c \<longleftrightarrow> is_alnum c \<or> c \<in> {CHR ''_'', CHR 0x27, CHR ''-''}"

definition nix_name_start :: "char \<Rightarrow> bool" where
  "nix_name_start c \<longleftrightarrow> is_lower c \<or> is_upper c \<or> c = CHR ''_''"

text \<open>\<^verbatim>\<open>^\s*(?P<name>[A-Za-z_][A-Za-z0-9_'-]*)(?:\.[A-Za-z]+)?\s*=\<close>.\<close>

definition defined_name :: "string \<Rightarrow> string option" where
  "defined_name line =
     (let s = lstrip line; name = takeWhile nix_name_char s; r = dropWhile nix_name_char s;
          r1 = (case r of c # t \<Rightarrow> if c = CHR ''.'' \<and> t \<noteq> [] \<and> (is_lower (hd t) \<or> is_upper (hd t))
                  then dropWhile (\<lambda>c. is_lower c \<or> is_upper c) t else r | [] \<Rightarrow> r)
      in if name \<noteq> [] \<and> nix_name_start (hd name) \<and> startswith (lstrip r1) ''='' then Some name else None)"

text \<open>\<^verbatim>\<open>^\s{4}([A-Za-z_][A-Za-z0-9_'-]*) = \{\<close> from the start of each of the other lines on.\<close>

definition managed_input_name :: "string \<Rightarrow> string option" where
  "managed_input_name line =
     (let s = drop 4 line; name = takeWhile nix_name_char s
      in if length line \<ge> 4 \<and> list_all is_ws (take 4 line) \<and> name \<noteq> [] \<and> nix_name_start (hd name) \<and>
            startswith (drop (length name) s) '' = {'' then Some name else None)"

definition managed_input_names :: "string list \<Rightarrow> string list" where
  "managed_input_names outs = List.map_filter managed_input_name (map (join [newline]) (suffixes outs))"

definition MANAGED_INPUTS :: "string list" where
  "MANAGED_INPUTS = [''frappe-nix'', ''nixpkgs'', ''frappe'', PROFILE_INPUT]"

definition check_regions :: "string \<Rightarrow> mentry \<Rightarrow> exn + unit" where
  "check_regions text e =
     (let (ins, outs) = region_parts (splitlines text) False;
          ini = (e_header e = ''ini'');
          clash = filter (\<lambda>k. k \<in> set (region_keys ini outs)) (region_keys ini ins);
          inputs = (if e_header e = ''nix'' then
                      filter (\<lambda>n. n \<in> set MANAGED_INPUTS \<or> n \<in> set (managed_input_names outs))
                        (List.map_filter defined_name ins)
                    else [])
      in if clash @ inputs \<noteq> [] then Inl (ConfigError ''the local region redefines what sync manages'') else Inr ())"

section \<open>The version sync writes\<close>

definition DEFAULT_VERSION :: string where "DEFAULT_VERSION = ''0.1.0''"

definition text_at :: "json \<Rightarrow> string \<Rightarrow> string option" where
  "text_at doc k =
     (case doc of JObj kvs \<Rightarrow> (case raw_get kvs k JNull of JStr s \<Rightarrow> if s \<noteq> [] then Some s else None | _ \<Rightarrow> None) | _ \<Rightarrow> None)"

text \<open>\<open>have\<close> is \<^verbatim>\<open>context.app_version\<close>; a release manifest that is no JSON counts as none.\<close>

definition effective_version :: "string option \<Rightarrow> string option \<Rightarrow> json \<Rightarrow> string" where
  "effective_version known release_manifest package =
     (let m = (case loads (case release_manifest of Some t \<Rightarrow> if t \<noteq> [] then t else ''null'' | None \<Rightarrow> ''null'') of
                 Some d \<Rightarrow> d | None \<Rightarrow> JNull)
      in case List.map_filter id [if known = Some [] then None else known, text_at m ''.'', text_at package ''version''] of
           v # _ \<Rightarrow> v | [] \<Rightarrow> DEFAULT_VERSION)"

section \<open>The files of an entry\<close>

definition region_names :: "mentry \<Rightarrow> string list" where
  "region_names e = map name_in (e_local_regions e)"

definition managed_head :: "mentry \<Rightarrow> string" where
  "managed_head e = header (e_header e) (e_local_regions e \<noteq> []) (name_in (e_header_note e))"

text \<open>\<^verbatim>\<open>_template_dir\<close>: whether the template is the profile's.\<close>

definition template_dir :: "'v engine \<Rightarrow> mentry \<Rightarrow> exn + bool" where
  "template_dir g e =
     (let there = (case n_templates g of Some is_file \<Rightarrow> is_file (jor (e_template e) (JStr [])) | None \<Rightarrow> False)
      in if e_profile_template e then
           (if there then Inr True else Inl (ConfigError ''[[extra-files]]: the profile has no such template''))
         else Inr (e_overridable e \<and> there))"

definition render_whole :: "'v engine \<Rightarrow> mentry \<Rightarrow> string option \<Rightarrow> exn + string" where
  "render_whole g e current =
     bindE (template_dir g e) (\<lambda>dir.
     bindE (n_render g dir (jor (e_template e) (JStr [])) current) (\<lambda>text.
     bindE (if e_local_regions e = [] then Inr text
            else bindE (splice_file text current (region_names e)) (\<lambda>t. bindE (check_regions t e) (\<lambda>_. Inr t))) (\<lambda>t.
       Inr (managed_head e @ t))))"

definition seed_text :: "'v engine \<Rightarrow> mentry \<Rightarrow> exn + string" where
  "seed_text g e =
     (if e_handler e = JStr ''release-please-manifest''
      then Inr (jsonfmt_dumps (n_float g) False (JObj [(''.'', JStr (n_version g))]))
      else bindE (template_dir g e) (\<lambda>dir.
           bindE (n_render g dir (jor (e_template e) (JStr [])) None) (\<lambda>text.
             Inr (if e_profile_template e \<and> e_header e \<noteq> ''none'' then header (e_header e) False [] @ text else text))))"

text \<open>\<^verbatim>\<open>_json\<close>: a missing file is \<^verbatim>\<open>None\<close>, as \<^verbatim>\<open>null\<close> is.\<close>

definition json_file :: "string option \<Rightarrow> exn + json" where
  "json_file current =
     (case current of None \<Rightarrow> Inr JNull
      | Some t \<Rightarrow> (case loads t of Some v \<Rightarrow> Inr v | None \<Rightarrow> Inl (ConfigError ''not JSON'')))"

definition plan_item :: "mentry \<Rightarrow> string \<Rightarrow> string option \<Rightarrow> string option \<Rightarrow> string \<Rightarrow> nat \<Rightarrow> item" where
  "plan_item e path current wanted problem code =
     \<lparr>i_path = path, i_strategy = e_strategy e, i_current = current, i_wanted = wanted, i_problem = problem,
      i_code = code, i_command = None, i_phase = JStr ''b'', i_module = []\<rparr>"

text \<open>\<^verbatim>\<open>.git-blame-ignore-revs\<close>: \<^verbatim>\<open>^[0-9a-f]{40}  # \S.*$\<close>.\<close>

definition blame_line :: "string \<Rightarrow> bool" where
  "blame_line line \<longleftrightarrow>
     length line > 44 \<and> list_all hex_char (take 40 line) \<and> startswith (drop 40 line) ''  # '' \<and> \<not> is_ws (line ! 44)"

definition blame_skipped :: "string \<Rightarrow> bool" where
  "blame_skipped line \<longleftrightarrow> strip line = [] \<or> startswith line ''#''"

definition blame_problems :: "bool \<Rightarrow> (string \<Rightarrow> bool) \<Rightarrow> string \<Rightarrow> string list" where
  "blame_problems shallow ancestor text =
     (let ls = filter (\<lambda>(n, l). \<not> blame_skipped l) (enumerate 1 (splitlines text));
          shas = map (\<lambda>(n, l). take 40 l) (filter (\<lambda>(n, l). blame_line l) ls)
      in map (\<lambda>(n, l). ''line '' @ show_nat n @ '' is not `<40-hex sha>  # <subject>`: '' @ l)
           (filter (\<lambda>(n, l). \<not> blame_line l) ls) @
         (if shallow then [] else map (\<lambda>sha. sha @ '' is not reachable from HEAD'') (filter (\<lambda>sha. \<not> ancestor sha) shas)))"

definition validate_seed :: "'v engine \<Rightarrow> mentry \<Rightarrow> string \<Rightarrow> string \<Rightarrow> exn + item list" where
  "validate_seed g e path current =
     (let bad = (\<lambda>code why. (plan_item e path (Some current) (Some current) why code)\<lparr>i_strategy := ''seed''\<rparr>)
      in if e_handler e = JStr ''blame-ignore-revs'' then
           Inr (map (bad DRIFT) (blame_problems (n_shallow g) (n_ancestor g) current))
         else if e_handler e = JStr ''release-please-manifest'' then
           bindE (json_file (Some current)) (\<lambda>doc.
             Inr (case doc of
                    JObj kvs \<Rightarrow> if is_str (raw_get kvs ''.'' JNull) then [] else [bad INVALID ''must hold a version'']
                  | _ \<Rightarrow> [bad INVALID ''must hold a version'']))
         else if e_handler e = JStr ''semgrep-baseline'' then Inr (map (bad INVALID) (n_baseline g current))
         else Inr [])"

text \<open>\<^verbatim>\<open>_spa_config\<close>: \<^verbatim>\<open>tsconfig[^/]*\.json\<close> without the managed header in a Vite app.\<close>

definition root_tsconfig :: "string \<Rightarrow> bool" where
  "root_tsconfig path \<longleftrightarrow> startswith path ''tsconfig'' \<and> CHR ''/'' \<notin> set path \<and> endswith (drop 8 path) ''.json''"

definition spa_config :: "'v engine \<Rightarrow> string \<Rightarrow> string option \<Rightarrow> bool" where
  "spa_config g path current =
     (case current of None \<Rightarrow> False
      | Some c \<Rightarrow> n_vite g \<and> root_tsconfig path \<and> \<not> contains_sub MARKER (head_line c))"

definition spa_problem :: string where
  "spa_problem = ''is the app's own TypeScript config and the app has a Vite config''"

text \<open>\<^verbatim>\<open>\b(?:defaultSite|siteName)\s*=\s*"([^"]*)"\<close> and the others: searched from left to right, \<open>w\<close> being whether
  the character before is one of a word.\<close>

definition quoted_value :: "string \<Rightarrow> string option" where
  "quoted_value s =
     (case s of c # t \<Rightarrow> if c = CHR 0x22 \<and> CHR 0x22 \<in> set t then Some (takeWhile (\<lambda>x. x \<noteq> CHR 0x22) t) else None
      | [] \<Rightarrow> None)"

definition assigned :: "string \<Rightarrow> string \<Rightarrow> string option" where
  "assigned key s =
     (let r = lstrip (drop (length key) s)
      in if startswith s key \<and> startswith r ''='' then quoted_value (lstrip (tl r)) else None)"

fun bounded_match :: "(string \<Rightarrow> 'a option) \<Rightarrow> bool \<Rightarrow> string \<Rightarrow> 'a option" where
  "bounded_match f w [] = None"
| "bounded_match f w (c # s) =
     (case (if w then None else f (c # s)) of Some x \<Rightarrow> Some x | None \<Rightarrow> bounded_match f (word_char c) s)"

definition either :: "(string \<Rightarrow> 'a option) \<Rightarrow> (string \<Rightarrow> 'a option) \<Rightarrow> string \<Rightarrow> 'a option" where
  "either f h s = (case f s of Some x \<Rightarrow> Some x | None \<Rightarrow> h s)"

definition app_templates :: "string \<Rightarrow> string list" where
  "app_templates path =
     (if path = ''flake.nix'' then [''app-template/flake.nix.in'', ''app-template/flake.nix.v0.in'']
      else if path = ''.envrc'' then [''app-template/envrc''] else [])"

definition legacy_app_files :: "(string \<Rightarrow> string) \<Rightarrow> string \<Rightarrow> string \<Rightarrow> string \<Rightarrow> string list" where
  "legacy_app_files data path current app =
     (let some = (\<lambda>x. case x of Some s \<Rightarrow> s | None \<Rightarrow> []);
          site = some (bounded_match (either (assigned ''defaultSite'') (assigned ''siteName'')) False current);
          ver = some (first_match (assigned ''frappeVersion'') current);
          branch = some (first_match (\<lambda>s. let p = CHR 0x22 # ''github:frappe/frappe/'' in
                     if startswith s p then quoted_value (CHR 0x22 # drop (length p) s) else None) current)
      in map (\<lambda>t. replace_all ''@FRAPPE_BRANCH@'' branch (replace_all ''@FRAPPE_VERSION@'' ver
               (replace_all ''@SITE_NAME@'' site (replace_all ''@APP_NAME@'' app (data t))))) (app_templates path))"

definition managed_at_head :: "'v engine \<Rightarrow> string \<Rightarrow> bool" where
  "managed_at_head g path = (case n_head g path of Some t \<Rightarrow> contains_sub MARKER (head_line t) | None \<Rightarrow> False)"

definition first_opt_in :: "'v engine \<Rightarrow> mentry \<Rightarrow> string \<Rightarrow> string option \<Rightarrow> string \<Rightarrow> item option" where
  "first_opt_in g e path current wanted =
     (case current of
        None \<Rightarrow> None
      | Some c \<Rightarrow>
          if app_templates path = [] \<or> c = wanted then None
          else if contains_sub MARKER (head_line c) \<or> n_force g then None
          else if managed_at_head g path then None
          else if c \<in> set (legacy_app_files (n_data g) path c (n_app g)) then None
          else Some ((plan_item e path current current ''is the app's own and differs from what frappe-init --app writes'' INVALID)
                 \<lparr>i_phase := e_phase e\<rparr>))"

section \<open>The item of a live entry\<close>

type_synonym planned = "item list \<times> plan_notice list"

definition entry_make ::
  "mentry \<Rightarrow> string \<Rightarrow> string option \<Rightarrow> string option \<Rightarrow> string \<Rightarrow> nat option \<Rightarrow> string option \<Rightarrow> item" where
  "entry_make e path current wanted problem code command =
     (make_item path (e_strategy e) current wanted problem code command)\<lparr>i_phase := e_phase e\<rparr>"

abbreviation plain_item :: "mentry \<Rightarrow> string \<Rightarrow> string option \<Rightarrow> string option \<Rightarrow> item" where
  "plain_item e path current wanted \<equiv> entry_make e path current wanted [] None None"

text \<open>A whole file.  \<open>equal\<close> is whether it is the rendered one as data.\<close>

definition equal_data :: "'v engine \<Rightarrow> string \<Rightarrow> string option \<Rightarrow> string \<Rightarrow> bool" where
  "equal_data g path current wanted = same_data (n_yaml g) (tk_parse (n_kit g)) path current wanted"

definition whole_items :: "'v engine \<Rightarrow> mentry \<Rightarrow> string \<Rightarrow> string option \<Rightarrow> exn + planned" where
  "whole_items g e path current =
     (if spa_config g path current then Inr ([entry_make e path current current spa_problem (Some INVALID) None], [])
      else bindE (render_whole g e current) (\<lambda>wanted.
        Inr ([case first_opt_in g e path current wanted of
                Some i \<Rightarrow> i
              | None \<Rightarrow> if \<not> js_oxc (n_conf g) \<and> equal_data g path current wanted then plain_item e path current current
                        else plain_item e path current (Some wanted)], [])))"

text \<open>The blocks of a file that is the app's.  Whatever the README blocks raise is a \<^verbatim>\<open>ConfigError\<close> or goes up.\<close>

definition block_items :: "'v engine \<Rightarrow> mentry \<Rightarrow> string \<Rightarrow> string option \<Rightarrow> exn + planned" where
  "block_items g e path current =
     (if e_handler e = JStr ''gitignore'' then
        bindE (gitignore (n_data g ''templates/gitignore.block'') current) (\<lambda>wanted. Inr ([plain_item e path current (Some wanted)], []))
      else if e_handler e = JStr ''readme'' then
        (case n_readme g current of
           Inr wanted \<Rightarrow> Inr ([plain_item e path current (Some wanted)], [])
         | Inl (ConfigError why) \<Rightarrow> Inr ([plan_item e path current current why INVALID], [])
         | Inl x \<Rightarrow> Inl x)
      else if e_handler e = JStr ''init-py'' then
        (case init_py current (n_version g) of (wanted, offending) \<Rightarrow>
           Inr (plain_item e path current (Some wanted) #
                (if offending \<noteq> [] then [plan_item e path current current
                   (''only comments may sit outside the version block (marketplace rule): '' @ strip (hd offending)) DRIFT] else []), []))
      else Inl (RuntimeError ''no handler''))"

text \<open>\<^verbatim>\<open>pyproject.toml\<close>: the merged text when a managed key differs, and the rules the app has to follow.\<close>

definition toml_items :: "'v engine \<Rightarrow> mentry \<Rightarrow> string \<Rightarrow> string option \<Rightarrow> exn + planned" where
  "toml_items g e path current =
     (let text0 = (case current of Some c \<Rightarrow> c | None \<Rightarrow> []) in
      bindE (case tk_parse (n_kit g) text0 of Some d \<Rightarrow> Inr d | None \<Rightarrow> Inl (ValueError ''not TOML'')) (\<lambda>doc.
      let text = (case n_created g of Some kvs \<Rightarrow> add_tool_frappe_nix (n_kit g) text0 kvs | None \<Rightarrow> text0) in
      bindE (toml_merge (n_kit g) (n_text g) (n_builtin g) (n_toml g) True text) (\<lambda>(wanted, warnings).
      bindE (toml_groups (n_text g) (n_builtin g) (n_toml g)) (\<lambda>groups.
      bindE (managed_view (n_toml g) groups doc) (\<lambda>v1.
      bindE (case tk_parse (n_kit g) wanted of Some d \<Rightarrow> Inr d | None \<Rightarrow> Inl (ValueError ''not TOML'')) (\<lambda>doc'.
      bindE (managed_view (n_toml g) groups doc') (\<lambda>v2.
      let same = (n_created g = None \<and> py_eq (JObj v1) (JObj v2)) in
      bindE (toml_problems (n_re g) (n_toml g) doc) (\<lambda>ps.
        Inr (entry_make e path current (if same then current else Some wanted) (if same then [] else ''managed keys differ'') None None #
             map (\<lambda>p. plan_item e path current current (n_toml_why g p) (toml_problem_code p)) ps,
             map (\<lambda>(p, w). TomlLeft p w) warnings)))))))))"

text \<open>\<^verbatim>\<open>package.json\<close> and the stylelint file.  \<open>seed\<close> is whether the release manifest is still to be seeded.\<close>

definition package_items :: "'v::linorder engine \<Rightarrow> mentry \<Rightarrow> bool \<Rightarrow> string \<Rightarrow> string option \<Rightarrow> exn + planned" where
  "package_items g e seed path current =
     bindE (json_file current) (\<lambda>doc.
       case doc of
         JNull \<Rightarrow>
           if \<not> n_package_live g then Inr ([], [])
           else bindE (package_merge (n_ver g) (n_float g) None (n_pkg g) (if seed then Some (n_version g) else None)) (\<lambda>(d, warnings).
             Inr (plain_item e path current (Some (stringify (n_float g) (JObj d))) #
                  map (\<lambda>p. plan_item e path current current (n_pkg_why g p) (problem_code p)) (package_problems d (n_pkg g)),
                  map PackageLeft warnings))
       | JObj have \<Rightarrow>
           bindE (package_merge (n_ver g) (n_float g) (Some have) (n_pkg g) (if seed then Some (n_version g) else None)) (\<lambda>(d, warnings).
             Inr ((if py_eq (JObj d) (JObj have) then plain_item e path current current
                   else entry_make e path current (Some (stringify (n_float g) (JObj d))) ''managed keys differ'' None None) #
                  map (\<lambda>p. plan_item e path current current (n_pkg_why g p) (problem_code p)) (package_problems d (n_pkg g)),
                  map PackageLeft warnings))
       | _ \<Rightarrow> Inl (ConfigError ''is not a JSON object''))"

definition stylelint_items :: "'v engine \<Rightarrow> mentry \<Rightarrow> string \<Rightarrow> string option \<Rightarrow> exn + planned" where
  "stylelint_items g e path current =
     bindE (json_file current) (\<lambda>doc.
     bindE (case doc of JNull \<Rightarrow> Inr None | JObj d \<Rightarrow> Inr (Some d) | _ \<Rightarrow> Inl TypeError) (\<lambda>d.
     let merged = JObj (stylelint_merge d (n_pkg g)) in
       Inr ([plain_item e path current (if d \<noteq> None \<and> py_eq merged doc then current else Some (jsonfmt_dumps (n_float g) False merged))], [])))"

text \<open>A seed.  \<open>_yarn_lock_missing\<close> reads the workspaces' names from the tracked \<^verbatim>\<open>package.json\<close> files; a file that
  can not be read or parsed names nothing.\<close>

definition load_package :: "'v engine \<Rightarrow> exn + json" where
  "load_package g =
     bindE (engine_read g ''package.json'') (\<lambda>t.
       case t of None \<Rightarrow> Inr JNull
       | Some text \<Rightarrow> (case loads text of
             None \<Rightarrow> Inl (ConfigError ''package.json: not JSON'')
           | Some v \<Rightarrow> if is_dict v then Inr v else Inl (ConfigError ''package.json is not an object'')))"

definition workspace_name :: "'v engine \<Rightarrow> string \<Rightarrow> string list" where
  "workspace_name g path =
     (case engine_read g path of
        Inr t \<Rightarrow> (case loads (case t of Some s \<Rightarrow> if s \<noteq> [] then s else ''{}'' | None \<Rightarrow> ''{}'') of
            Some (JObj d) \<Rightarrow> (case raw_get d ''name'' JNull of JStr n \<Rightarrow> [n] | _ \<Rightarrow> [])
          | _ \<Rightarrow> [])
      | Inl _ \<Rightarrow> [])"

definition lock_missing :: "'v engine \<Rightarrow> string \<Rightarrow> string list" where
  "lock_missing g lock =
     (case load_package g of
        Inr package \<Rightarrow>
          let local = (case package of
                JObj d \<Rightarrow> if truthy (raw_get d ''workspaces'' JNull)
                  then concat (map (workspace_name g) (filter (\<lambda>p. p \<noteq> ''package.json'' \<and> endswith p ''/package.json'') (n_tracked g)))
                  else []
              | _ \<Rightarrow> [])
          in yarn_lock_missing package lock local
      | Inl _ \<Rightarrow> [])"

definition lock_problem :: "'v::linorder engine \<Rightarrow> mentry \<Rightarrow> string \<Rightarrow> string option \<Rightarrow> exn + string" where
  "lock_problem g e path current =
     bindE (if current \<noteq> None \<and> e_handler e = JStr ''uv-lock'' then
              bindE (lock_shortfalls (n_ver g) (tk_parse (n_kit g))
                       (case current of Some t \<Rightarrow> Text t | None \<Rightarrow> Missing) (n_uv_floors g)) (\<lambda>short.
                Inr (if short \<noteq> [] then ''below its floor or missing from the lock: '' @ join '', '' short else []))
            else Inr []) (\<lambda>p1.
       Inr (case current of
              Some lock \<Rightarrow> if e_handler e = JStr ''yarn-lock'' \<and> lock_missing g lock \<noteq> []
                then ''does not lock package.json's '' @ join '', '' (take 5 (lock_missing g lock)) @
                  (if length (lock_missing g lock) > 5
                   then '' and '' @ show_nat (length (lock_missing g lock) - 5) @ '' more'' else [])
                else p1
            | None \<Rightarrow> p1))"

definition seed_items :: "'v::linorder engine \<Rightarrow> mentry \<Rightarrow> string \<Rightarrow> string option \<Rightarrow> exn + planned" where
  "seed_items g e path current =
     (if truthy (e_command e) then
        bindE (lock_problem g e path current) (\<lambda>problem.
          Inr ([if current = None \<or> problem \<noteq> []
                then entry_make e path current current (if problem \<noteq> [] then problem else ''missing'') (Some DRIFT)
                       (Some (name_in (e_command e)))
                else plain_item e path current current], []))
      else case current of
        None \<Rightarrow> bindE (seed_text g e) (\<lambda>t. Inr ([plain_item e path current (Some t)], []))
      | Some c \<Rightarrow> bindE (validate_seed g e path c) (\<lambda>is. Inr (plain_item e path current current # is, [])))"

definition entry_items :: "'v::linorder engine \<Rightarrow> mentry \<Rightarrow> bool \<Rightarrow> string \<Rightarrow> exn + planned" where
  "entry_items g e seed path =
     bindE (engine_read g path) (\<lambda>current.
       if e_strategy e = ''whole'' then whole_items g e path current
       else if e_strategy e = ''blocks'' then block_items g e path current
       else if e_strategy e = ''toml-merge'' \<and> e_handler e = JStr ''pyproject'' then toml_items g e path current
       else if e_strategy e = ''json-merge'' \<and> e_handler e = JStr ''package-json'' then package_items g e seed path current
       else if e_strategy e = ''json-merge'' \<and> e_handler e = JStr ''stylelint'' then stylelint_items g e path current
       else if e_strategy e = ''seed'' then seed_items g e path current
       else Inl (RuntimeError ''no handler''))"

section \<open>What is left behind\<close>

definition was_on_entry :: "'v engine \<Rightarrow> mentry \<Rightarrow> exn + bool" where
  "was_on_entry g e = ever (n_history g) (\<lambda>h. list_ex (k_modules h) (e_modules e))"

definition on_at_head :: "'v engine \<Rightarrow> mentry \<Rightarrow> bool" where
  "on_at_head g e = (case n_previous g of Some k \<Rightarrow> list_ex (k_modules k) (e_modules e) | None \<Rightarrow> False)"

definition is_off :: "string" where "is_off = ''file should not exist (its module is off)''"

text \<open>\<^verbatim>\<open>try: would = _whole(...)  except Exception: would = None\<close>.\<close>

definition try_whole :: "'v engine \<Rightarrow> mentry \<Rightarrow> string option \<Rightarrow> string option" where
  "try_whole g e current = (case render_whole g e current of Inr t \<Rightarrow> Some t | Inl _ \<Rightarrow> None)"

definition retract_blocks :: "'v engine \<Rightarrow> mentry \<Rightarrow> string \<Rightarrow> string \<Rightarrow> exn + planned" where
  "retract_blocks g e path c =
     (if e_handler e = JStr ''init-py'' then
        (let wanted = init_py_unblocked c in
         if wanted = c then Inr ([], [])
         else bindE (was_on_entry g e) (\<lambda>was.
           Inr (if was then [plan_item e path (Some c) (Some wanted) ''the version block's markers go with releases'' DRIFT] else [], [])))
      else if e_handler e = JStr ''readme'' then
        (if \<not> n_readme_marked g c then Inr ([], [])
         else bindE (was_on_entry g e) (\<lambda>was.
           Inr (if was then [plan_item e path (Some c) (Some (n_readme_strip g c)) ''the README blocks go with readme'' DRIFT] else [], [])))
      else Inr ([], []))"

definition retract_whole :: "'v engine \<Rightarrow> mentry \<Rightarrow> string \<Rightarrow> string \<Rightarrow> exn + planned" where
  "retract_whole g e path c =
     (if managed_head e \<noteq> [] then
        (if \<not> startswith c (managed_head e) then Inr ([], [])
         else bindE (if e_local_regions e \<noteq> [] then filled c (region_names e) else Inr []) (\<lambda>full.
           Inr ([if full \<noteq> [] then plan_item e path (Some c) (Some c)
                   (''its module is off, but the local region '' @ join '', '' full @ '' holds content'') INVALID
                 else plan_item e path (Some c) None is_off DRIFT], [])))
      else bindE (was_on_entry g e) (\<lambda>was.
        if \<not> was then Inr ([], [])
        else if (case try_whole g e (Some c) of Some t \<Rightarrow> t = c \<or> equal_data g path (Some c) t | None \<Rightarrow> False)
        then Inr ([plan_item e path (Some c) None is_off DRIFT], [])
        else Inr ([], if on_at_head g e then [AppsNow path] else [])))"

definition engine_retract :: "'v engine \<Rightarrow> mentry \<Rightarrow> string \<Rightarrow> exn + planned" where
  "engine_retract g e path =
     bindE (engine_read g path) (\<lambda>current.
       case current of
         None \<Rightarrow> Inr ([], [])
       | Some c \<Rightarrow>
           if e_strategy e = ''blocks'' \<and> (e_handler e = JStr ''init-py'' \<or> e_handler e = JStr ''readme'') then retract_blocks g e path c
           else if e_strategy e = ''seed'' then
             Inr ([], if on_at_head g e \<and> \<not> truthy (e_command e) then [SeedStays path] else [])
           else if e_strategy e \<noteq> ''whole'' then Inr ([], [])
           else retract_whole g e path c)"

text \<open>\<^verbatim>\<open>_absent\<close>: an entry whose module is on and whose condition is false.\<close>

definition unedited :: "mentry \<Rightarrow> string \<Rightarrow> bool" where
  "unedited e c \<longleftrightarrow> managed_head e \<noteq> [] \<and> startswith c (managed_head e) \<and>
     (case region_bodies c (region_names e) of Inr b \<Rightarrow> strip b = [] | Inl _ \<Rightarrow> False)"

definition engine_absent :: "'v engine \<Rightarrow> mentry \<Rightarrow> string \<Rightarrow> exn + planned" where
  "engine_absent g e path =
     bindE (engine_read g path) (\<lambda>current.
       case current of
         None \<Rightarrow> Inr ([], [])
       | Some c \<Rightarrow>
           if e_strategy e = ''blocks'' then Inr ([], [])
           else if e_strategy e = ''whole'' \<and> spa_config g path current
           then Inr ([plan_item e path current current spa_problem INVALID], [])
           else if e_strategy e \<noteq> ''whole'' \<and> e_handler e \<noteq> JStr ''stylelint'' \<and>
                e_strategy e \<in> {''seed'', ''toml-merge'', ''json-merge''} then Inr ([], [])
           else bindE (if e_strategy e = ''whole'' then Inr (try_whole g e current = current \<or> unedited e c)
                       else if e_handler e = JStr ''stylelint'' then
                         bindE (json_file current) (\<lambda>d. Inr (py_eq d (JObj (stylelint_created (n_pkg g)))))
                       else Inr False) (\<lambda>ours.
             Inr ([if ours then plan_item e path current None ''should not exist (sync wrote it; its condition no longer holds)'' DRIFT
                   else plan_item e path current current ''file should not exist, and it is not what sync wrote, so sync leaves it'' DRIFT], [])))"

section \<open>Legacy files\<close>

text \<open>The package names a requirements file lists: \<^verbatim>\<open>[A-Za-z0-9][A-Za-z0-9._-]*\<close>, a run of separators made one
  hyphen.\<close>

definition name_sep :: "char \<Rightarrow> bool" where
  "name_sep c \<longleftrightarrow> c \<in> {CHR ''-'', CHR ''_'', CHR ''.''}"

fun collapse_seps :: "string \<Rightarrow> string" where
  "collapse_seps [] = []"
| "collapse_seps (c # s) =
     (if name_sep c then (case s of d # _ \<Rightarrow> if name_sep d then collapse_seps s else CHR ''-'' # collapse_seps s | [] \<Rightarrow> [CHR ''-''])
      else c # collapse_seps s)"

definition requirement_name :: "string \<Rightarrow> string list" where
  "requirement_name raw =
     (let line = strip (takeWhile (\<lambda>c. c \<noteq> CHR ''#'') raw)
      in if line = [] \<or> startswith line ''-'' \<or> \<not> is_alnum (hd line) then []
         else [lower (collapse_seps (takeWhile (\<lambda>c. is_alnum c \<or> name_sep c) line))])"

definition requirement_names :: "string \<Rightarrow> string list" where
  "requirement_names text = concat (map requirement_name (splitlines text))"

definition missing_deps :: "json \<Rightarrow> string \<Rightarrow> exn + string list" where
  "missing_deps pyproject text =
     bindE (dget pyproject ''project'' (JObj [])) (\<lambda>p.
     bindE (dget p ''dependencies'' (JArr [])) (\<lambda>deps.
     bindE (iter deps) (\<lambda>ds.
     let listed = requirement_names (join [newline] (concat (map (\<lambda>d. case d of JStr s \<Rightarrow> [s] | _ \<Rightarrow> []) ds)))
     in Inr (sort (dedup (filter (\<lambda>n. n \<notin> set listed) (requirement_names text)))))))"

definition rule_applies :: "'v engine \<Rightarrow> mretire \<Rightarrow> exn + bool" where
  "rule_applies g r =
     (if \<not> module_live g (t_module r) \<or> \<not> list_all (module_live g) (t_also r) then Inr False
      else evaluate_when (n_same g) (n_parse g) (t_when r) (n_ctx g))"

definition RETIRE :: string where "RETIRE = ''retire''"

definition retire_item :: "string \<Rightarrow> string option \<Rightarrow> string option \<Rightarrow> string \<Rightarrow> nat \<Rightarrow> string \<Rightarrow> item" where
  "retire_item path current wanted problem code m =
     \<lparr>i_path = path, i_strategy = RETIRE, i_current = current, i_wanted = wanted, i_problem = problem, i_code = code,
      i_command = None, i_phase = JStr ''b'', i_module = m\<rparr>"

text \<open>\<^verbatim>\<open>re.findall(r"^\s*\[([^\]]+)\]\s*$", text, re.M)\<close>: a match at the start of a line, with its length (the white
  space after the bracket up to the end of the text or the last line feed of the run), and the scan that goes on
  where a match ends.\<close>

definition section_at :: "string \<Rightarrow> (string \<times> nat) option" where
  "section_at s =
     (case lstrip s of
        [] \<Rightarrow> None
      | c # t \<Rightarrow>
          let body = takeWhile (\<lambda>x. x \<noteq> CHR '']'') t; rest = drop (length body) t;
              run = takeWhile is_ws (tl rest); left = drop (length run) (tl rest);
              tail = (if left = [] then length run else length (dropWhile (\<lambda>x. x \<noteq> newline) (rev run)) - 1)
          in if c = CHR ''['' \<and> body \<noteq> [] \<and> rest \<noteq> [] \<and> (left = [] \<or> newline \<in> set run)
             then Some (body, length s - length (c # t) + 2 + length body + tail) else None)"

function ini_scan :: "bool \<Rightarrow> string \<Rightarrow> string list" where
  "ini_scan b [] = []"
| "ini_scan b (c # s) =
     (case (if b then section_at (c # s) else None) of
        Some (body, n) \<Rightarrow> body # ini_scan (last (take n (c # s)) = newline) (drop (max 1 n) (c # s))
      | None \<Rightarrow> ini_scan (c = newline) s)"
  by pat_completeness auto
termination by (relation "measure (\<lambda>(b, s). length s)") auto

definition ini_sections :: "string \<Rightarrow> string list" where
  "ini_sections text = ini_scan True text"

text \<open>What one rule says of a path it matches: \<open>None\<close> to look at the next rule (\<^verbatim>\<open>continue\<close>).\<close>

definition rule_hit :: "'v engine \<Rightarrow> string list \<Rightarrow> string \<Rightarrow> bool \<Rightarrow> mretire \<Rightarrow> exn + item option" where
  "rule_hit g managed path link r =
     (let legacy = ''legacy file ('' @ name_in (t_rule r) @ '')'' in
      if \<not> match_any (map name_in (t_paths r)) path \<or> match_any (map name_in (t_unless r)) path then Inr None
      else if t_unmanaged r \<and> path \<in> set managed then Inr None
      else if link then
        Inr (if t_contains r = [] \<and> \<not> truthy (t_only_section r) \<and> \<not> t_deps_in_project r
             then Some (retire_item path (Some []) None legacy DRIFT (t_module r)) else None)
      else bindE (engine_read g path) (\<lambda>current.
        let text = (case current of Some c \<Rightarrow> c | None \<Rightarrow> []) in
        if t_contains r \<noteq> [] \<and> \<not> list_ex (\<lambda>p. n_search g p text) (t_contains r) then Inr None
        else if truthy (t_only_section r) \<and> set (map JStr (ini_sections text)) \<noteq> {t_only_section r} then Inr None
        else bindE (if t_deps_in_project r then missing_deps (n_project g) text else Inr []) (\<lambda>missing.
          Inr (Some (if missing \<noteq> [] then
              retire_item path (Some text) (Some text) (legacy @ '', but [project].dependencies lacks '' @ join '', '' missing)
                INVALID (t_module r)
            else retire_item path (Some text) None legacy DRIFT (t_module r))))))"

fun rules_hit :: "'v engine \<Rightarrow> string list \<Rightarrow> string \<Rightarrow> bool \<Rightarrow> mretire list \<Rightarrow> exn + item list" where
  "rules_hit g managed path link [] = Inr []"
| "rules_hit g managed path link (r # rs) =
     bindE (rule_hit g managed path link r) (\<lambda>hit.
       case hit of Some i \<Rightarrow> Inr [i] | None \<Rightarrow> rules_hit g managed path link rs)"

definition retired_path ::
  "'v engine \<Rightarrow> string list \<Rightarrow> string list option \<Rightarrow> string list \<Rightarrow> mretire list \<Rightarrow> string \<Rightarrow> exn + item list" where
  "retired_path g managed only keep rules path =
     (if (case only of Some ps \<Rightarrow> path \<notin> set ps | None \<Rightarrow> False) \<or> path \<in> set keep \<or> match_any keep path \<or>
         unmanaged_dir path \<noteq> None then Inr []
      else let link = n_is_link g (posix_parts path)
           in if \<not> link \<and> n_file g path = None then Inr [] else rules_hit g managed path link rules)"

definition engine_retired :: "'v engine \<Rightarrow> manifest \<Rightarrow> string list \<Rightarrow> string list option \<Rightarrow> exn + item list" where
  "engine_retired g man managed only =
     bindE (profile_retire (n_compiles g) (k_cfg (n_conf g))) (\<lambda>own.
     bindE (filterE (rule_applies g) (m_retire man @ own)) (\<lambda>rules.
     bindE (dget (k_cfg (n_conf g)) ''retire-keep'' (JArr [])) (\<lambda>v.
     bindE (iter v) (\<lambda>keep.
     bindE (mapE (retired_path g managed only (map name_in keep) rules) (n_tracked g)) (\<lambda>iss. Inr (concat iss))))))"

section \<open>The plan\<close>

definition merged_file :: "mentry \<Rightarrow> bool" where
  "merged_file e \<longleftrightarrow> e_strategy e \<in> {''toml-merge'', ''json-merge''} \<and> e_handler e \<in> {JStr ''pyproject'', JStr ''package-json''}"

definition entry_plan :: "'v::linorder engine \<Rightarrow> bool \<Rightarrow> mentry \<Rightarrow> string \<Rightarrow> exn + planned" where
  "entry_plan g seed e path =
     (let on = list_ex (module_live g) (e_modules e) in
      if merged_file e then
        bindE (if on then check_uses g e else Inr ()) (\<lambda>_. entry_items g e seed path)
      else if on then
        bindE (evaluate_when (n_same g) (n_parse g) (e_when e) (n_ctx g)) (\<lambda>holds.
          if holds then bindE (check_uses g e) (\<lambda>_. entry_items g e seed path) else engine_absent g e path)
      else engine_retract g e path)"

text \<open>\<^verbatim>\<open>it.module = it.module or ",".join(entry.modules)\<close>.\<close>

definition with_module :: "mentry \<Rightarrow> item \<Rightarrow> item" where
  "with_module e i = (if i_module i = [] then i\<lparr>i_module := join '','' (e_modules e)\<rparr> else i)"

text \<open>The loop over the entries: the items and notices so far, and the managed paths.\<close>

type_synonym plan_acc = "item list \<times> plan_notice list \<times> string list"

definition plan_step ::
  "'v::linorder engine \<Rightarrow> bool \<Rightarrow> string list \<Rightarrow> string list option \<Rightarrow> mentry \<Rightarrow> plan_acc \<Rightarrow> exn + plan_acc" where
  "plan_step g seed phases only e = (\<lambda>(items, notices, managed).
     bindE (n_path g (e_path e)) (\<lambda>path.
     bindE (inside (n_is_link g) True path) (\<lambda>_.
       if \<not> in_names (e_phase e) phases \<or> (case only of Some ps \<Rightarrow> path \<notin> set ps | None \<Rightarrow> False)
       then Inr (items, notices, managed @ [path])
       else bindE (entry_plan g seed e path) (\<lambda>(is, ns).
         Inr (items @ map (with_module e) is, notices @ ns, managed @ [path])))))"

definition build_plan ::
  "'v::linorder engine \<Rightarrow> manifest \<Rightarrow> string list option \<Rightarrow> string list \<Rightarrow> string list option \<Rightarrow> exn + planned" where
  "build_plan g man overrides phases only =
     bindE (entries_for man (k_cfg (n_conf g))) (\<lambda>entries.
     bindE (check_overrides overrides entries) (\<lambda>_.
     bindE (engine_read g ''.release-please-manifest.json'') (\<lambda>release.
     bindE (foldE (plan_step g (release = None) phases only) entries ([], [], [])) (\<lambda>(items, notices, managed).
     bindE (if ''b'' \<in> set phases then engine_retired g man managed only else Inr []) (\<lambda>gone.
       Inr (items @ gone, notices))))))"

end
