(* ===== verification/PlanSafety.thy ===== *)
theory PlanSafety
  imports Engine
begin

text \<open>
  What the plan of \<^verbatim>\<open>Engine\<close> may do to a file: an item shows the file as it is on disk, at a path inside the app; it
  deletes only what sync wrote or what a rule retires; and it replaces a \<^verbatim>\<open>flake.nix\<close> or \<^verbatim>\<open>.envrc\<close> only when that
  loses nothing of the app's.
\<close>

section \<open>What the plan may do to a file\<close>

text \<open>Every value a fallible computation returns satisfies \<open>P\<close>.\<close>

definition gives :: "('a \<Rightarrow> bool) \<Rightarrow> 'e + 'a \<Rightarrow> bool" where
  "gives P r \<longleftrightarrow> (\<forall>x. r = Inr x \<longrightarrow> P x)"

named_theorems gives_rules \<open>a property of every value a computation returns\<close>

lemma givesD: "gives P r \<Longrightarrow> r = Inr x \<Longrightarrow> P x" by (simp add: gives_def)
lemma gives_Inr [gives_rules]: "P x \<Longrightarrow> gives P (Inr x)" by (simp add: gives_def)
lemma gives_Inl [gives_rules]: "gives P (Inl e)" by (simp add: gives_def)
lemma gives_bindE [gives_rules]: "(\<And>a. m = Inr a \<Longrightarrow> gives P (k a)) \<Longrightarrow> gives P (bindE m k)"
  by (cases m) (auto simp: gives_def)
lemma gives_if [gives_rules]: "(b \<Longrightarrow> gives P m) \<Longrightarrow> (\<not> b \<Longrightarrow> gives P n) \<Longrightarrow> gives P (if b then m else n)" by simp
lemma gives_option [gives_rules]:
  "(x = None \<Longrightarrow> gives P m) \<Longrightarrow> (\<And>a. x = Some a \<Longrightarrow> gives P (k a)) \<Longrightarrow> gives P (case x of None \<Rightarrow> m | Some a \<Rightarrow> k a)"
  by (cases x) auto
lemma gives_split [gives_rules]: "(\<And>a b. gives P (f a b)) \<Longrightarrow> gives P (case p of (a, b) \<Rightarrow> f a b)"
  by (cases p) simp
lemma gives_json [gives_rules]:
  "gives P a \<Longrightarrow> (\<And>x. gives P (b x)) \<Longrightarrow> (\<And>x. gives P (c x)) \<Longrightarrow> (\<And>x. gives P (d x)) \<Longrightarrow> (\<And>x. gives P (e x)) \<Longrightarrow>
   (\<And>x. gives P (f x)) \<Longrightarrow> (\<And>x. gives P (g x)) \<Longrightarrow>
   gives P (case v of JNull \<Rightarrow> a | JBool x \<Rightarrow> b x | JInt x \<Rightarrow> c x | JFloat x \<Rightarrow> d x | JStr x \<Rightarrow> e x | JArr x \<Rightarrow> f x | JObj x \<Rightarrow> g x)"
  by (cases v) auto

text \<open>Items for one path that show the file as it is and do not delete it.\<close>

definition no_delete :: "string \<Rightarrow> string option \<Rightarrow> item list \<Rightarrow> bool" where
  "no_delete path current is \<longleftrightarrow>
     (\<forall>i \<in> set is. i_path i = path \<and> i_current i = current \<and> (i_wanted i = None \<longrightarrow> current = None))"

lemma no_delete_simps [simp]:
  "no_delete path current []"
  "no_delete path current (i # is) \<longleftrightarrow>
     (i_path i = path \<and> i_current i = current \<and> (i_wanted i = None \<longrightarrow> current = None)) \<and>
     no_delete path current is"
  "no_delete path current (is @ js) \<longleftrightarrow> no_delete path current is \<and> no_delete path current js"
  by (auto simp: no_delete_def)

lemma no_delete_map: "no_delete path current (map f xs) \<longleftrightarrow> (\<forall>x \<in> set xs. no_delete path current [f x])"
  by (simp add: no_delete_def)

lemma entry_make_sel [simp]:
  "i_path (entry_make e path current wanted problem code command) = path"
  "i_current (entry_make e path current wanted problem code command) = current"
  "i_wanted (entry_make e path current wanted problem code command) = wanted"
  "i_strategy (entry_make e path current wanted problem code command) = e_strategy e"
  by (simp_all add: entry_make_def make_item_def Let_def)

lemma plan_item_sel [simp]:
  "i_path (plan_item e path current wanted problem code) = path"
  "i_current (plan_item e path current wanted problem code) = current"
  "i_wanted (plan_item e path current wanted problem code) = wanted"
  "i_strategy (plan_item e path current wanted problem code) = e_strategy e"
  "i_code (plan_item e path current wanted problem code) = code"
  by (simp_all add: plan_item_def)

lemma first_opt_in_no_delete: "first_opt_in g e path current wanted = Some i \<Longrightarrow> no_delete path current [i]"
  by (auto simp: first_opt_in_def split: option.splits if_splits)

lemma no_delete_if: "no_delete path current (if b then is else js) \<longleftrightarrow> (if b then no_delete path current is else no_delete path current js)"
  by simp

lemma whole_no_delete: "gives (\<lambda>r. no_delete path current (fst r)) (whole_items g e path current)"
  unfolding whole_items_def
  by (intro gives_rules) (auto split: option.split dest: first_opt_in_no_delete)

lemma block_no_delete: "gives (\<lambda>r. no_delete path current (fst r)) (block_items g e path current)"
  unfolding block_items_def
  by (intro gives_rules) (auto intro!: gives_rules simp: no_delete_if split: sum.split exn.split)

lemma toml_no_delete: "gives (\<lambda>r. no_delete path current (fst r)) (toml_items g e path current)"
  unfolding toml_items_def Let_def
  by (intro gives_rules) (simp add: no_delete_map)

lemma package_no_delete: "gives (\<lambda>r. no_delete path current (fst r)) (package_items g e seed path current)"
  unfolding package_items_def
  by (intro gives_rules) (simp_all add: no_delete_map)

lemma stylelint_no_delete: "gives (\<lambda>r. no_delete path current (fst r)) (stylelint_items g e path current)"
  unfolding stylelint_items_def Let_def
  by (intro gives_rules) simp

lemma no_delete_bad [simp]: "no_delete path (Some c) [plan_item e path (Some c) (Some c) why code\<lparr>i_strategy := ''seed''\<rparr>]"
  by (simp add: no_delete_def plan_item_def RETIRE_def)

lemma validate_no_delete: "gives (no_delete path (Some c)) (validate_seed g e path c)"
  unfolding validate_seed_def Let_def
  by (intro gives_rules) (auto simp: no_delete_map simp del: no_delete_simps(2) split: json.split)

lemma seed_no_delete: "gives (\<lambda>r. no_delete path current (fst r)) (seed_items g e path current)"
  unfolding seed_items_def
  by (intro gives_rules) (auto dest: validate_no_delete [THEN givesD])

lemma engine_read_Inr: "engine_read g path = Inr c \<Longrightarrow> c = n_file g path"
  by (auto simp: engine_read_def read_managed_def bindE_eq_Inr_iff)

lemma entry_no_delete:
  "gives (\<lambda>r. no_delete path (n_file g path) (fst r)) (entry_items g e seed path)"
  unfolding entry_items_def
  by (rule gives_bindE, drule engine_read_Inr)
    (intro gives_rules whole_no_delete block_no_delete toml_no_delete package_no_delete stylelint_no_delete
      seed_no_delete; hypsubst; intro whole_no_delete block_no_delete toml_no_delete package_no_delete
      stylelint_no_delete seed_no_delete)

text \<open>What sync wrote: the file has the managed header and nothing in its local regions, or it is what the entry
  renders, byte for byte or as data, or the stylelint file as sync creates it.\<close>

definition sync_wrote :: "'v engine \<Rightarrow> mentry \<Rightarrow> string \<Rightarrow> string \<Rightarrow> bool" where
  "sync_wrote g e path c \<longleftrightarrow>
     unedited e c \<or> (managed_head e \<noteq> [] \<and> startswith c (managed_head e) \<and> filled c (region_names e) = Inr []) \<or>
     (managed_head e \<noteq> [] \<and> startswith c (managed_head e) \<and> e_local_regions e = []) \<or>
     (\<exists>t. try_whole g e (Some c) = Some t \<and> (t = c \<or> equal_data g path (Some c) t)) \<or>
     (e_handler e = JStr ''stylelint'' \<and> (\<exists>d. json_file (Some c) = Inr d \<and> py_eq d (JObj (stylelint_created (n_pkg g)))))"

definition deletes_own :: "'v engine \<Rightarrow> mentry \<Rightarrow> string \<Rightarrow> item list \<Rightarrow> bool" where
  "deletes_own g e path is \<longleftrightarrow>
     (\<forall>i \<in> set is. i_path i = path \<and> i_current i = n_file g path \<and>
        (i_wanted i = None \<longrightarrow> (\<forall>c. i_current i = Some c \<longrightarrow> sync_wrote g e path c)))"

lemma no_delete_own: "no_delete path (n_file g path) is \<Longrightarrow> deletes_own g e path is"
  by (auto simp: no_delete_def deletes_own_def)

lemma deletes_own_simps [simp]:
  "deletes_own g e path []"
  "deletes_own g e path [plan_item e path (n_file g path) wanted problem code] \<longleftrightarrow>
     (wanted = None \<longrightarrow> (\<forall>c. n_file g path = Some c \<longrightarrow> sync_wrote g e path c))"
  by (auto simp: deletes_own_def)

lemma retract_whole_own:
  assumes "n_file g path = Some c"
  shows "gives (\<lambda>r. deletes_own g e path (fst r)) (retract_whole g e path c)"
  unfolding retract_whole_def
  by (intro gives_rules) (use assms in \<open>auto simp: deletes_own_def sync_wrote_def split: option.splits\<close>)

lemma retract_blocks_own:
  "n_file g path = Some c \<Longrightarrow> gives (\<lambda>r. deletes_own g e path (fst r)) (retract_blocks g e path c)"
  unfolding retract_blocks_def Let_def
  by (intro gives_rules) (simp_all add: deletes_own_def)

lemma retract_own:
  "gives (\<lambda>r. deletes_own g e path (fst r)) (engine_retract g e path)"
  unfolding engine_retract_def
  by (rule gives_bindE, drule engine_read_Inr)
    (intro gives_rules retract_blocks_own retract_whole_own; simp)

lemma gives_bindE_of: "gives Q m \<Longrightarrow> (\<And>a. Q a \<Longrightarrow> gives P (k a)) \<Longrightarrow> gives P (bindE m k)"
  by (cases m) (auto simp: gives_def)

lemma absent_ours:
  "gives (\<lambda>ours. ours \<longrightarrow> sync_wrote g e path c)
     (if e_strategy e = ''whole'' then Inr (try_whole g e (Some c) = Some c \<or> unedited e c)
      else if e_handler e = JStr ''stylelint'' then
        bindE (json_file (Some c)) (\<lambda>d. Inr (py_eq d (JObj (stylelint_created (n_pkg g)))))
      else Inr False)"
  by (intro gives_rules impI; (unfold sync_wrote_def; blast)?; simp)

lemma absent_own:
  "gives (\<lambda>r. deletes_own g e path (fst r)) (engine_absent g e path)"
proof -
  have last: "deletes_own g e path (fst ([if ours then plan_item e path (Some c) None p1 DRIFT
       else plan_item e path (Some c) (Some c) p2 DRIFT], [] :: plan_notice list))"
    if "n_file g path = Some c" "ours \<longrightarrow> sync_wrote g e path c" for ours c p1 p2
    using that by (simp add: deletes_own_def)
  show ?thesis
    unfolding engine_absent_def
  proof (rule gives_bindE, drule engine_read_Inr, rule gives_option)
    fix a c
    assume a: "a = n_file g path" and c: "a = Some c"
    then have f: "n_file g path = Some c" by simp
    have none: "deletes_own g e path (fst ([], []))" and
      spa: "deletes_own g e path (fst ([plan_item e path (Some c) (Some c) spa_problem INVALID], []))"
      using f by (simp_all add: deletes_own_def)
    show "gives (\<lambda>r. deletes_own g e path (fst r))
       (if e_strategy e = ''blocks'' then Inr ([], []) :: exn + planned
        else if e_strategy e = ''whole'' \<and> spa_config g path a then Inr ([plan_item e path a a spa_problem INVALID], [])
        else if e_strategy e \<noteq> ''whole'' \<and> e_handler e \<noteq> JStr ''stylelint'' \<and>
                e_strategy e \<in> {''seed'', ''toml-merge'', ''json-merge''} then Inr ([], [])
        else bindE (if e_strategy e = ''whole'' then Inr (try_whole g e a = a \<or> unedited e c)
                    else if e_handler e = JStr ''stylelint'' then
                      bindE (json_file a) (\<lambda>d. Inr (py_eq d (JObj (stylelint_created (n_pkg g)))))
                    else Inr False) (\<lambda>ours.
          Inr ([if ours then plan_item e path a None ''should not exist (sync wrote it; its condition no longer holds)'' DRIFT
                else plan_item e path a a ''file should not exist, and it is not what sync wrote, so sync leaves it'' DRIFT], [])))"
      unfolding c
      apply (intro gives_if gives_Inr none spa gives_bindE_of [OF absent_ours [of g e path c]])
      by (rule last [OF f])
  qed (rule gives_Inr, simp)
qed

text \<open>What a live entry, one that retracts and one whose condition is false plan for their path.\<close>

lemma entry_plan_own:
  "gives (\<lambda>r. deletes_own g e path (fst r)) (entry_plan g seed e path)"
proof -
  have "gives (\<lambda>r. deletes_own g e path (fst r)) (entry_items g e seed path)"
    using entry_no_delete unfolding gives_def by (blast intro: no_delete_own)
  then show ?thesis
    unfolding entry_plan_def Let_def
    by (intro gives_rules retract_own absent_own)
qed

text \<open>Every item of the loop comes from an entry whose rendered path stays inside the app.\<close>

definition from_entry :: "'v engine \<Rightarrow> mentry list \<Rightarrow> item \<Rightarrow> bool" where
  "from_entry g entries i \<longleftrightarrow>
     (\<exists>e \<in> set entries. n_path g (e_path e) = Inr (i_path i) \<and> inside (n_is_link g) True (i_path i) = Inr () \<and>
        i_current i = n_file g (i_path i) \<and>
        (i_wanted i = None \<longrightarrow> (\<forall>c. i_current i = Some c \<longrightarrow> sync_wrote g e (i_path i) c)))"

lemma with_module_sel [simp]:
  "i_path (with_module e i) = i_path i" "i_current (with_module e i) = i_current i"
  "i_wanted (with_module e i) = i_wanted i" "i_strategy (with_module e i) = i_strategy i" "i_code (with_module e i) = i_code i"
  "i_command (with_module e i) = i_command i"
  by (simp_all add: with_module_def)

lemma plan_step_from:
  assumes "plan_step g seed phases only e acc = Inr acc'" "e \<in> set entries"
    "\<forall>i \<in> set (fst acc). from_entry g entries i"
  shows "\<forall>i \<in> set (fst acc'). from_entry g entries i"
proof -
  obtain items notices managed where acc: "acc = (items, notices, managed)" by (metis prod.exhaust)
  obtain path where path: "n_path g (e_path e) = Inr path" and ins: "inside (n_is_link g) True path = Inr ()"
    using assms(1) by (auto simp: plan_step_def acc bindE_eq_Inr_iff)
  consider "fst acc' = items" | r where "entry_plan g seed e path = Inr r" "fst acc' = items @ map (with_module e) (fst r)"
    using assms(1) by (fastforce simp: plan_step_def acc path ins bindE_eq_Inr_iff split: if_splits)
  then show ?thesis
  proof cases
    case 1
    with assms(3) acc show ?thesis by simp
  next
    case 2
    have "deletes_own g e path (fst r)" by (rule givesD [OF entry_plan_own 2(1)])
    then have "from_entry g entries (with_module e i)" if "i \<in> set (fst r)" for i
      using that path ins assms(2) unfolding deletes_own_def from_entry_def by (fastforce intro!: bexI [of _ e])
    with assms(3) acc 2(2) show ?thesis by auto
  qed
qed

text \<open>What the legacy files' items are.\<close>

definition legacy_item :: "'v engine \<Rightarrow> manifest \<Rightarrow> item \<Rightarrow> bool" where
  "legacy_item g man i \<longleftrightarrow> i_strategy i = RETIRE \<and> i_path i \<in> set (n_tracked g) \<and> unmanaged_dir (i_path i) = None \<and>
     (\<exists>own. profile_retire (n_compiles g) (k_cfg (n_conf g)) = Inr own \<and>
       (\<exists>r \<in> set (m_retire man @ own). rule_applies g r = Inr True \<and> match_any (map name_in (t_paths r)) (i_path i) \<and>
          \<not> match_any (map name_in (t_unless r)) (i_path i)))"

lemma rules_hit_legacy:
  "gives (\<lambda>is. \<forall>i \<in> set is. i_strategy i = RETIRE \<and> i_path i = path \<and>
      (\<exists>r \<in> set rs. match_any (map name_in (t_paths r)) path \<and> \<not> match_any (map name_in (t_unless r)) path))
     (rules_hit g managed path link rs)"
proof (induction rs)
  case Nil
  then show ?case by (simp add: gives_def)
next
  case (Cons r rs)
  have "gives (\<lambda>hit. \<forall>i. hit = Some i \<longrightarrow> i_strategy i = RETIRE \<and> i_path i = path \<and>
      match_any (map name_in (t_paths r)) path \<and> \<not> match_any (map name_in (t_unless r)) path)
     (rule_hit g managed path link r)"
    unfolding rule_hit_def Let_def
    by (intro gives_rules) (auto simp: retire_item_def split: if_splits)
  then show ?case
    unfolding rules_hit.simps
    by (rule gives_bindE_of) (use Cons.IH in \<open>auto simp: gives_def split: option.split\<close>)
qed

lemma mapE_mem: "mapE f xs = Inr ys \<Longrightarrow> y \<in> set ys \<Longrightarrow> \<exists>x \<in> set xs. f x = Inr y"
  by (induction xs arbitrary: ys) (auto simp: bindE_eq_Inr_iff)

lemma filterE_mem: "filterE P xs = Inr ys \<Longrightarrow> y \<in> set ys \<Longrightarrow> y \<in> set xs \<and> P y = Inr True"
  by (induction xs arbitrary: ys) (auto simp: bindE_eq_Inr_iff split: if_splits)

lemma retired_legacy:
  assumes "engine_retired g man managed only = Inr gone" "i \<in> set gone"
  shows "legacy_item g man i"
proof -
  obtain own rules keep iss where own: "profile_retire (n_compiles g) (k_cfg (n_conf g)) = Inr own"
    and rules: "filterE (rule_applies g) (m_retire man @ own) = Inr rules"
    and iss: "mapE (retired_path g managed only (map name_in keep) rules) (n_tracked g) = Inr iss" and gone: "gone = concat iss"
    using assms(1) by (auto simp: engine_retired_def bindE_eq_Inr_iff)
  obtain hits where "hits \<in> set iss" "i \<in> set hits" using assms(2) gone by auto
  then obtain path where path: "path \<in> set (n_tracked g)"
    "retired_path g managed only (map name_in keep) rules path = Inr hits"
    using mapE_mem [OF iss] by blast
  then have "unmanaged_dir path = None" and "rules_hit g managed path (n_is_link g (posix_parts path)) rules = Inr hits"
    using \<open>i \<in> set hits\<close> by (auto simp: retired_path_def Let_def split: if_splits)
  note un = this(1) and hit = this(2)
  from givesD [OF rules_hit_legacy hit] \<open>i \<in> set hits\<close> obtain r where
    i: "i_strategy i = RETIRE" "i_path i = path" and r: "r \<in> set rules" and
    m: "match_any (map name_in (t_paths r)) path" "\<not> match_any (map name_in (t_unless r)) path"
    by blast
  from filterE_mem [OF rules r] have "r \<in> set (m_retire man @ own)" "rule_applies g r = Inr True" by simp_all
  with own m have "\<exists>own. profile_retire (n_compiles g) (k_cfg (n_conf g)) = Inr own \<and>
       (\<exists>r \<in> set (m_retire man @ own). rule_applies g r = Inr True \<and> match_any (map name_in (t_paths r)) (i_path i) \<and>
          \<not> match_any (map name_in (t_unless r)) (i_path i))"
    unfolding i(2) by (intro exI [of _ own] conjI bexI [of _ r])
  with i path(1) un show ?thesis unfolding legacy_item_def by simp
qed


text \<open>C27. A plan that would replace a \<^verbatim>\<open>flake.nix\<close> or an \<^verbatim>\<open>.envrc\<close> the app has finds the managed header in it, now or at
  \<^verbatim>\<open>HEAD\<close>, or was forced, or the file is one that \<^verbatim>\<open>frappe-init --app\<close> wrote: an app's own Nix is never lost.\<close>

theorem first_opt_in_keeps_the_flake:
  assumes items: "entry_items g e seed path = Inr (items, notices)" "i \<in> set items" "e_strategy e = ''whole''"
    and path: "path \<in> {''flake.nix'', ''.envrc''}"
    and replaced: "i_current i = Some c" "i_wanted i \<noteq> Some c"
  shows "contains_sub MARKER (head_line c) \<or> n_force g \<or> managed_at_head g path \<or>
    c \<in> set (legacy_app_files (n_data g) path c (n_app g))"
proof -
  have cur: "n_file g path = Some c"
    using givesD [OF entry_no_delete items(1)] items(2) replaced(1) by (auto simp: no_delete_def)
  obtain current where read: "engine_read g path = Inr current"
    using items(1) unfolding entry_items_def by (elim bindE_InrE)
  then have "current = Some c" using engine_read_Inr cur by metis
  then have w: "whole_items g e path (Some c) = Inr (items, notices)"
    using items(1,3) read unfolding entry_items_def by simp
  have tpl: "app_templates path \<noteq> []" using path by (auto simp: app_templates_def)
  show ?thesis
  proof (rule ccontr)
    assume none: "\<not> ?thesis"
    have opt: "first_opt_in g e path (Some c) wanted = (if c = wanted then None else
        Some ((plan_item e path (Some c) (Some c) ''is the app's own and differs from what frappe-init --app writes'' INVALID)\<lparr>i_phase := e_phase e\<rparr>))"
      for wanted
      using none tpl by (simp add: first_opt_in_def)
    have "gives (\<lambda>r. \<forall>i \<in> set (fst r). i_wanted i = Some c) (whole_items g e path (Some c))"
      unfolding whole_items_def opt by (intro gives_rules) (auto simp: plan_item_def)
    with w items(2) replaced(2) show False by (auto simp: gives_def)
  qed
qed

section \<open>At a concrete app\<close>

definition sample_entry :: mentry where
  "sample_entry =
     \<lparr>e_path = JStr ''ci.yml'', e_strategy = ''whole'', e_fragment = ''ci.json'', e_modules = [''ci''],
      e_template = JStr ''ci.yml'', e_when = JStr ''True'', e_uses = [], e_overridable = False, e_header = ''yaml'',
      e_header_note = JStr '''', e_local_regions = [], e_handler = JNull, e_command = JNull, e_phase = JStr ''b'',
      e_profile_template = False\<rparr>"

definition sample_manifest :: manifest where
  "sample_manifest = \<lparr>m_entries = [sample_entry, sample_entry\<lparr>e_path := JStr ''flake.nix'', e_modules := [''metadata'']\<rparr>],
     m_retire = [], m_floors = []\<rparr>"

definition sample_engine :: "nat engine" where
  "sample_engine =
     \<lparr>n_is_link = (\<lambda>_. False),
      n_file = (\<lambda>p. if p = ''ci.yml'' then Some (managed_head sample_entry @ ''on: push'') else if p = ''flake.nix'' then Some (''# '' @ MARKER) else None),
      n_tracked = [''ci.yml''], n_app = ''my_app'', n_ctx = [], n_org = JObj [], n_conf = sample_conf [''metadata''],
      n_history = \<lparr>h_confs = [], h_truncated = False, h_unknown = []\<rparr>, n_previous = None, n_force = False, n_vite = False,
      n_package_live = False, n_version = ''0.1.0'', n_created = None, n_project = JObj [], n_same = (\<lambda>_ _. False),
      n_parse = (\<lambda>_. Some (EConst (JBool True))), n_path = (\<lambda>v. Inr (name_in v)), n_templates = None,
      n_render = (\<lambda>_ _ _. Inr ''on: push''), n_yaml = (\<lambda>_. None), n_head = (\<lambda>_. None), n_shallow = False,
      n_ancestor = (\<lambda>_. True), n_data = (\<lambda>_. []), n_readme = (\<lambda>_. Inr []), n_readme_marked = (\<lambda>_. False),
      n_readme_strip = id, n_baseline = (\<lambda>_. []), n_search = (\<lambda>_ _. False), n_compiles = (\<lambda>_. True),
      n_pkg = sample_pkg_ctx, n_toml = sample_toml_ctx,
      n_kit = \<lparr>tk_parse = (\<lambda>_. None), tk_dump = (\<lambda>t _. t), tk_key = id, tk_item = (\<lambda>_. [])\<rparr>,
      n_text = (\<lambda>_. []), n_builtin = sample_builtin, n_re = (\<lambda>_. None), n_ver = (\<lambda>_. None), n_float = (\<lambda>_. []),
      n_uv_floors = [], n_toml_why = (\<lambda>_. []), n_pkg_why = (\<lambda>_. [])\<rparr>"


theorem first_opt_in_keeps_the_flake_witness:
  "\<exists>items notices i c. entry_items sample_engine sample_entry False ''flake.nix'' = Inr (items, notices) \<and> i \<in> set items \<and>
     i_current i = Some c \<and> i_wanted i \<noteq> Some c \<and>
     (contains_sub MARKER (head_line c) \<or> n_force sample_engine \<or> managed_at_head sample_engine ''flake.nix'' \<or>
      c \<in> set (legacy_app_files (n_data sample_engine) ''flake.nix'' c (n_app sample_engine)))"
proof -
  have "case entry_items sample_engine sample_entry False ''flake.nix'' of Inr (items, notices) \<Rightarrow>
      (case items of i # _ \<Rightarrow> (case i_current i of Some c \<Rightarrow> i_wanted i \<noteq> Some c | None \<Rightarrow> False) | [] \<Rightarrow> False) | Inl _ \<Rightarrow> False"
    by code_simp
  then obtain i items notices c where b: "entry_items sample_engine sample_entry False ''flake.nix'' = Inr (i # items, notices)"
    and w: "i_current i = Some c" "i_wanted i \<noteq> Some c"
    by (auto split: sum.splits prod.splits list.splits option.splits)
  have "e_strategy sample_entry = ''whole''" by (simp add: sample_entry_def)
  from first_opt_in_keeps_the_flake [OF b _ this _ w] b w show ?thesis by force
qed

end
