(* ===== verification/FlakeText.thy ===== *)
theory FlakeText
  imports Engine KnownApps
begin

text \<open>
  The text of \<^verbatim>\<open>flake.nix\<close> as \<^verbatim>\<open>scaffold/engine.py\<close> reads it, the \<^verbatim>\<open>flake.lock\<close> it is compared with, and
  \<^verbatim>\<open>[tool.frappe-nix]\<close> as an existing flake makes it.  The patterns are read from left to right by functions of their own;
  \<open>txt\<close> is Python's text of a value that is not a string.
\<close>

section \<open>Comments\<close>

text \<open>\<^verbatim>\<open>"(?:\\.|[^"\\])*"|#[^\n]*\<close>, a literal kept and a comment dropped: \<open>nix_literal_end\<close> is the literal after its
  opening quote (the dot is no line feed).\<close>

fun nix_literal_end :: "string \<Rightarrow> (string \<times> string) option" where
  "nix_literal_end [] = None"
| "nix_literal_end (c # s) =
     (if c = CHR 0x22 then Some ([c], s)
      else if c = CHR 0x5C then
        (case s of [] \<Rightarrow> None | d # t \<Rightarrow> if d = newline then None
            else map_option (\<lambda>(a, b). (c # d # a, b)) (nix_literal_end t))
      else map_option (\<lambda>(a, b). (c # a, b)) (nix_literal_end s))"

lemma nix_literal_end_app: "nix_literal_end s = Some (a, b) \<Longrightarrow> s = a @ b"
  by (induction s arbitrary: a b rule: nix_literal_end.induct) (auto split: if_splits list.splits)

function strip_nix_comments :: "string \<Rightarrow> string" where
  "strip_nix_comments [] = []"
| "strip_nix_comments (c # s) =
     (if c = CHR 0x22 then
        (case nix_literal_end s of Some (body, rest) \<Rightarrow> c # body @ strip_nix_comments rest | None \<Rightarrow> c # strip_nix_comments s)
      else if c = CHR ''#'' then strip_nix_comments (dropWhile (\<lambda>x. x \<noteq> newline) s)
      else c # strip_nix_comments s)"
  by pat_completeness auto
termination
  by (relation "measure length")
    (auto dest!: nix_literal_end_app simp: less_Suc_eq_le le_trans [OF length_dropWhile_le])

section \<open>What an existing flake declares\<close>

text \<open>\<^verbatim>\<open>frappeVersion\s*=\s*"version-(\d+)"\<close>.\<close>

definition version_value :: "string \<Rightarrow> nat option" where
  "version_value s =
     (case assigned ''frappeVersion'' s of
        Some v \<Rightarrow> (let d = drop 8 v in if startswith v ''version-'' \<and> d \<noteq> [] \<and> list_all is_digit d then Some (int_of_digits d) else None)
      | None \<Rightarrow> None)"

text \<open>The text up to the first \<open>stop\<close>, and what follows it.\<close>

fun until :: "string \<Rightarrow> string \<Rightarrow> (string \<times> string) option" where
  "until stop [] = (if stop = [] then Some ([], []) else None)"
| "until stop (c # s) =
     (if startswith (c # s) stop then Some ([], drop (length stop) (c # s))
      else map_option (\<lambda>(a, b). (c # a, b)) (until stop s))"

text \<open>\<^verbatim>\<open>siblings\s*=\s*\[(?P<body>.*?)\];\<close> over all lines, and every \<^verbatim>\<open>name\s*=\s*"([^"]+)"\<close> in its body.\<close>

definition siblings_body :: "string \<Rightarrow> string option" where
  "siblings_body s =
     (let k = ''siblings''; r = lstrip (drop (length k) s); b = lstrip (tl r)
      in if startswith s k \<and> startswith r ''='' \<and> startswith b ''['' then map_option fst (until ''];'' (tl b)) else None)"

definition name_value :: "string \<Rightarrow> (string \<times> nat) option" where
  "name_value s =
     (let r = lstrip (drop 4 s); b = lstrip (tl r); v = takeWhile (\<lambda>x. x \<noteq> CHR 0x22) (tl b)
      in if startswith s ''name'' \<and> startswith r ''='' \<and> b \<noteq> [] \<and> hd b = CHR 0x22 \<and> v \<noteq> [] \<and> CHR 0x22 \<in> set (tl b)
         then Some (v, length s - length (drop (length v + 2) b)) else None)"

function find_names :: "string \<Rightarrow> string list" where
  "find_names [] = []"
| "find_names (c # s) =
     (case name_value (c # s) of
        Some (v, n) \<Rightarrow> v # find_names (drop (max 1 n) (c # s))
      | None \<Rightarrow> find_names s)"
  by pat_completeness auto
termination by (relation "measure length") auto

text \<open>The site: \<^verbatim>\<open>([^"$\\]+)\<close>.\<close>

definition site_value :: "string \<Rightarrow> string \<Rightarrow> string option" where
  "site_value key s =
     (case assigned key s of
        Some v \<Rightarrow> if v \<noteq> [] \<and> CHR ''$'' \<notin> set v \<and> CHR 0x5C \<notin> set v then Some v else None | None \<Rightarrow> None)"

definition flake_facts :: "string option \<Rightarrow> nat option \<times> string list \<times> string option" where
  "flake_facts text0 =
     (case text0 of
        None \<Rightarrow> (None, [], None)
      | Some t \<Rightarrow>
          if t = [] then (None, [], None)
          else let text = strip_nix_comments t
               in (first_match version_value text,
                   (case first_match siblings_body text of Some b \<Rightarrow> find_names b | None \<Rightarrow> []),
                   bounded_match (either (site_value ''defaultSite'') (site_value ''siteName'')) False text))"

section \<open>The inputs of a flake\<close>

text \<open>\<^verbatim>\<open>_FLAKE_NAME\<close>: a Nix identifier, or a quoted one, and what follows.\<close>

definition flake_name :: "string \<Rightarrow> (string \<times> string) option" where
  "flake_name s =
     (case s of
        [] \<Rightarrow> None
      | c # t \<Rightarrow>
          if nix_name_start c then Some (takeWhile nix_name_char s, dropWhile nix_name_char s)
          else if c = CHR 0x22 then
            (let v = takeWhile (\<lambda>x. x \<notin> {CHR 0x22, CHR 0x5C, CHR ''$''}) t; r = drop (length v) t
             in if r \<noteq> [] \<and> hd r = CHR 0x22 then Some (v, tl r) else None)
          else None)"

text \<open>\<^verbatim>\<open>(url|follows)\s*=\s*"([^"]*)";\<close>: the attribute, its value and what follows.\<close>

definition attr_named :: "string \<Rightarrow> string \<Rightarrow> (string \<times> string \<times> string) option" where
  "attr_named key s =
     (let r = lstrip (drop (length key) s); b = lstrip (tl r);
          v = takeWhile (\<lambda>x. x \<noteq> CHR 0x22) (tl b); rest = drop (length v) (tl b)
      in if startswith s key \<and> startswith r ''='' \<and> b \<noteq> [] \<and> hd b = CHR 0x22 \<and> startswith rest [CHR 0x22, CHR '';'']
         then Some (key, v, drop 2 rest) else None)"

definition attr_value :: "string \<Rightarrow> (string \<times> string \<times> string) option" where
  "attr_value = either (attr_named ''url'') (attr_named ''follows'')"

text \<open>\<^verbatim>\<open>^\s{n}\<close>: what follows \<open>n\<close> characters of white space.\<close>

definition indented :: "nat \<Rightarrow> string \<Rightarrow> string option" where
  "indented n line = (if n \<le> length line \<and> list_all is_ws (take n line) then Some (drop n line) else None)"

text \<open>\<^verbatim>\<open>_FLAKE_ATTR\<close>, \<^verbatim>\<open>_FLAKE_INPUT\<close>, \<^verbatim>\<open>_FLAKE_INLINE\<close> and \<^verbatim>\<open>_FLAKE_INNER\<close>.\<close>

definition flake_attr :: "string \<Rightarrow> (string \<times> string \<times> string) option" where
  "flake_attr line =
     Option.bind (Option.bind (indented 4 line) flake_name) (\<lambda>(name, r).
       if startswith r ''.'' then map_option (\<lambda>(a, v, _). (name, a, v)) (attr_value (tl r)) else None)"

definition flake_opens :: "string \<Rightarrow> (string \<times> string) option" where
  "flake_opens line =
     Option.bind (Option.bind (indented 4 line) flake_name) (\<lambda>(name, r).
       let e = lstrip r; b = lstrip (tl e)
       in if startswith e ''='' \<and> startswith b ''{'' then Some (name, tl b) else None)"

definition flake_inline :: "string \<Rightarrow> (string \<times> string) option" where
  "flake_inline line =
     Option.bind (flake_opens line) (\<lambda>(name, b).
       let s = rstrip b in if endswith s ''};'' then Some (name, take (length s - 2) s) else None)"

definition flake_inner :: "string \<Rightarrow> (string \<times> string) option" where
  "flake_inner line = map_option (\<lambda>(a, v, _). (a, v)) (Option.bind (indented 6 line) attr_value)"

definition closes_block :: "string \<Rightarrow> bool" where
  "closes_block line = (case indented 4 line of Some r \<Rightarrow> startswith r ''};'' | None \<Rightarrow> False)"

text \<open>\<^verbatim>\<open>_FLAKE_INLINE_ATTR.finditer\<close>: each attribute at the start of the body or after \<^verbatim>\<open>;\<close>, \<^verbatim>\<open>{\<close> or white space that no
  match before it took.\<close>

definition delimited_attr :: "bool \<Rightarrow> string \<Rightarrow> (string \<times> string \<times> string) option" where
  "delimited_attr start s =
     (case (if start then attr_value s else None) of
        Some x \<Rightarrow> Some x
      | None \<Rightarrow> (case s of c # t \<Rightarrow> if c \<in> {CHR '';'', CHR ''{''} \<or> is_ws c then attr_value t else None | [] \<Rightarrow> None))"

function inline_attrs :: "bool \<Rightarrow> string \<Rightarrow> (string \<times> string) list" where
  "inline_attrs start [] = []"
| "inline_attrs start (c # s) =
     (case delimited_attr start (c # s) of
        Some (a, v, rest) \<Rightarrow> (a, v) # inline_attrs False (drop (max 1 (length (c # s) - length rest)) (c # s))
      | None \<Rightarrow> inline_attrs False s)"
  by pat_completeness auto
termination by (relation "measure (\<lambda>(b, s). length s)") auto

text \<open>\<^verbatim>\<open>\n  inputs = \{\n(?P<body>.*?)\n  \};\n\<close>: the lines of the inputs.\<close>

definition inputs_lines :: "string \<Rightarrow> string list" where
  "inputs_lines text =
     (case Option.bind (until (newline # ''  inputs = {'' @ [newline]) text) (\<lambda>(_, r). until (newline # ''  };'' @ [newline]) r) of
        Some (body, _) \<Rightarrow> splitlines body | None \<Rightarrow> [])"

text \<open>One line of \<^verbatim>\<open>flake_input_urls\<close>: the URLs so far and the open input.\<close>

definition url_step :: "string \<Rightarrow> (string \<times> string) list \<times> string option \<Rightarrow> (string \<times> string) list \<times> string option" where
  "url_step line = (\<lambda>(out, block).
     case block of
       None \<Rightarrow>
         (case flake_attr line of
            Some (name, a, v) \<Rightarrow> (if a = ''url'' then AList.update name v out else out, None)
          | None \<Rightarrow>
              (case flake_inline line of
                 Some (name, body) \<Rightarrow>
                   (fold (\<lambda>(a, v) d. if a = ''url'' then AList.update name v d else d) (inline_attrs True body) out, None)
               | None \<Rightarrow> (case flake_opens line of Some (name, _) \<Rightarrow> (out, if name = [] then None else Some name) | None \<Rightarrow> (out, None))))
     | Some name \<Rightarrow>
         if closes_block line then (out, None)
         else case flake_inner line of
                Some (a, v) \<Rightarrow> (if a = ''url'' then AList.update name v out else out, Some name)
              | None \<Rightarrow> (out, Some name))"

definition flake_input_urls :: "string \<Rightarrow> (string \<times> string) list" where
  "flake_input_urls text = fst (fold url_step (inputs_lines text) ([], None))"

text \<open>\<^verbatim>\<open>(github|gitlab|sourcehut):([^/?]+)/([^/?]+)(?:/([^?]+))?\<close>.\<close>

definition forge_parts :: "string \<Rightarrow> string \<Rightarrow> (string \<times> string \<times> string option) option" where
  "forge_parts kind value =
     (let s = drop (length kind + 1) value; plain = (\<lambda>c. c \<noteq> CHR ''/'' \<and> c \<noteq> CHR ''?'');
          owner = takeWhile plain s; r = drop (length owner) s; repo = takeWhile plain (tl r); t = drop (length repo) (tl r)
      in if startswith value (kind @ '':'') \<and> owner \<noteq> [] \<and> startswith r ''/'' \<and> repo \<noteq> [] then
           (if t = [] then Some (owner, repo, None)
            else if hd t = CHR ''/'' \<and> tl t \<noteq> [] \<and> CHR ''?'' \<notin> set (tl t) then Some (owner, repo, Some (tl t)) else None)
         else None)"

definition FORGES :: "string list" where "FORGES = [''github'', ''gitlab'', ''sourcehut'']"

definition input_spec :: "string \<Rightarrow> string \<Rightarrow> string" where
  "input_spec attr value =
     (if attr = ''follows'' then ''follows:'' @ value
      else case List.map_filter (\<lambda>k. map_option (\<lambda>p. (k, p)) (forge_parts k value)) FORGES of
             (k, owner, repo, ref) # _ \<Rightarrow>
               k @ '':'' @ lower owner @ ''/'' @ lower repo @ (case ref of Some r \<Rightarrow> ''/'' @ r | None \<Rightarrow> [])
           | [] \<Rightarrow> value)"

text \<open>One line of \<^verbatim>\<open>flake_input_specs\<close>; \<^verbatim>\<open>setdefault\<close> keeps what is there.\<close>

type_synonym input_specs = "(string \<times> string option) list"

definition set_default :: "string \<Rightarrow> input_specs \<Rightarrow> input_specs" where
  "set_default name d = (if map_of d name = None then AList.update name None d else d)"

definition spec_step :: "string \<Rightarrow> input_specs \<times> string option \<Rightarrow> input_specs \<times> string option" where
  "spec_step line = (\<lambda>(specs, block).
     case block of
       None \<Rightarrow>
         (case flake_attr line of
            Some (name, a, v) \<Rightarrow> (AList.update name (Some (input_spec a v)) specs, None)
          | None \<Rightarrow>
              (case flake_inline line of
                 Some (name, body) \<Rightarrow>
                   (fold (\<lambda>(a, v) d. AList.update name (Some (input_spec a v)) d) (inline_attrs True body) (set_default name specs), None)
               | None \<Rightarrow>
                   (case flake_opens line of
                      Some (name, _) \<Rightarrow> (set_default name specs, if name = [] then None else Some name)
                    | None \<Rightarrow> (specs, None))))
     | Some name \<Rightarrow>
         if closes_block line then (specs, None)
         else case flake_inner line of
                Some (a, v) \<Rightarrow> (AList.update name (Some (input_spec a v)) specs, Some name)
              | None \<Rightarrow> (specs, Some name))"

definition flake_input_specs :: "string \<Rightarrow> input_specs" where
  "flake_input_specs text = sort_key fst (fst (fold spec_step (inputs_lines text) ([], None)))"

definition flake_inputs :: "string \<Rightarrow> string list" where
  "flake_inputs text = map fst (flake_input_specs text)"

section \<open>The table an existing flake makes\<close>

text \<open>\<^verbatim>\<open>github:([^/]+)/([^/?]+)(?:/([^?]+))?\<close>.\<close>

definition github_parts :: "string \<Rightarrow> (string \<times> string \<times> string option) option" where
  "github_parts url =
     (let s = drop 7 url; owner = takeWhile (\<lambda>c. c \<noteq> CHR ''/'') s; r = drop (length owner) s;
          repo = takeWhile (\<lambda>c. c \<noteq> CHR ''/'' \<and> c \<noteq> CHR ''?'') (tl r); t = drop (length repo) (tl r)
      in if startswith url ''github:'' \<and> owner \<noteq> [] \<and> startswith r ''/'' \<and> repo \<noteq> [] then
           (if t = [] then Some (owner, repo, None)
            else if hd t = CHR ''/'' \<and> tl t \<noteq> [] \<and> CHR ''?'' \<notin> set (tl t) then Some (owner, repo, Some (tl t)) else None)
         else None)"

text \<open>\<^verbatim>\<open>re.sub(r"^(gitlab:|git\+https://[^/]+/)", "", url)\<close>.\<close>

definition drop_forge :: "string \<Rightarrow> string" where
  "drop_forge url =
     (let p = ''git+https://''; s = drop (length p) url; h = takeWhile (\<lambda>c. c \<noteq> CHR ''/'') s
      in if startswith url ''gitlab:'' then drop 7 url
         else if startswith url p \<and> h \<noteq> [] \<and> length h < length s then drop (length h + 1) s
         else url)"

definition sibling_entry :: "(json \<Rightarrow> string) \<Rightarrow> string \<Rightarrow> string option \<Rightarrow> nat \<Rightarrow> templates \<Rightarrow> exn + json" where
  "sibling_entry txt name url major apps =
     (let forge = github_parts (case url of Some u \<Rightarrow> u | None \<Rightarrow> []);
          spelling = (case forge of
              Some (owner, repo, _) \<Rightarrow> if map_of apps name = None then owner @ ''/'' @ repo else name | None \<Rightarrow> name)
      in bindE (case resolve_sibling txt (JStr spelling) major apps of
                  Inr r \<Rightarrow> Inr (Some (lower (name_in (s_flake r)))) | Inl (ConfigError _) \<Rightarrow> Inr None | Inl x \<Rightarrow> Inl x) (\<lambda>rule.
         case url of
           None \<Rightarrow> Inr (JStr spelling)
         | Some u \<Rightarrow>
             if rule = Some (lower u) then Inr (JStr spelling)
             else case forge of
               Some (owner, repo, ref) \<Rightarrow>
                 Inr (JObj ((''repo'', JStr (owner @ ''/'' @ repo)) # (case ref of Some b \<Rightarrow> [(''branch'', JStr b)] | None \<Rightarrow> [])))
             | None \<Rightarrow>
                 let path = strip_by (\<lambda>c. c = CHR ''/'') (removesuffix (takeWhile (\<lambda>c. c \<noteq> CHR ''?'') (drop_forge u)) ''.git'');
                     ps = split_on (CHR ''/'') path;
                     parts = (if startswith u ''gitlab:'' \<and> length ps > 2 then butlast ps else ps)
                 in Inr (JObj [(''repo'', JStr (if length parts > 1 then join ''/'' parts else name @ ''/'' @ name)), (''flake-url'', JStr u)])))"

text \<open>The siblings \<^verbatim>\<open>hooks.py\<close> requires come first, then the other ones of the flake.\<close>

definition required_step ::
  "(json \<Rightarrow> string) \<Rightarrow> (string \<times> string) list \<Rightarrow> nat \<Rightarrow> templates \<Rightarrow> string \<Rightarrow> json list \<times> string list \<Rightarrow> exn + json list \<times> string list" where
  "required_step txt urls major apps spelling = (\<lambda>(out, seen).
     let b = bare spelling in
     if b = ''frappe'' \<or> b \<in> set seen then Inr (out, seen)
     else bindE (sibling_entry txt b (map_of urls b) major apps) (\<lambda>e.
       Inr (out @ [case e of
              JObj kvs \<Rightarrow> if CHR ''/'' \<in> set spelling then JObj (AList.update ''repo'' (JStr spelling) kvs) else e
            | _ \<Rightarrow> JStr spelling], seen @ [b])))"

definition declared_step ::
  "(json \<Rightarrow> string) \<Rightarrow> (string \<times> string) list \<Rightarrow> nat \<Rightarrow> templates \<Rightarrow> string \<Rightarrow> json list \<times> string list \<Rightarrow> exn + json list \<times> string list" where
  "declared_step txt urls major apps name = (\<lambda>(out, seen).
     if name = ''frappe'' \<or> name \<in> set seen then Inr (out, seen)
     else bindE (sibling_entry txt name (map_of urls name) major apps) (\<lambda>e. Inr (out @ [e], seen @ [name])))"

text \<open>\<^verbatim>\<open>[a-z0-9][a-z0-9.-]*\<close>.\<close>

definition site_name :: "string \<Rightarrow> bool" where
  "site_name s \<longleftrightarrow> (case s of [] \<Rightarrow> False | c # cs \<Rightarrow>
     (is_lower c \<or> is_digit c) \<and> list_all (\<lambda>x. is_lower x \<or> is_digit x \<or> x = CHR ''.'' \<or> x = CHR ''-'') cs)"

definition frappe_major :: "string option \<Rightarrow> exn + nat option" where
  "frappe_major asked =
     (case asked of
        Some v \<Rightarrow>
          if v = [] then Inr None
          else (let d = drop 8 v in
                if startswith v ''version-'' \<and> d \<noteq> [] \<and> list_all is_digit d then Inr (Some (int_of_digits d))
                else Inl (ConfigError ''--frappe-version must be version-<major>''))
      | None \<Rightarrow> Inr None)"

text \<open>\<open>has_frontend\<close> is whether the discovery finds Vite or nested frontends.\<close>

definition new_config ::
  "(json \<Rightarrow> string) \<Rightarrow> templates \<Rightarrow> string \<Rightarrow> jtable \<Rightarrow> string option \<Rightarrow> json \<Rightarrow> string option \<Rightarrow> string \<Rightarrow> string option \<Rightarrow> bool \<Rightarrow> exn + jtable" where
  "new_config txt apps app app_hooks frappe_version package flake profile site has_frontend =
     bindE (frappe_major frappe_version) (\<lambda>asked.
     let text = strip_nix_comments (case flake of Some t \<Rightarrow> t | None \<Rightarrow> []);
         (flake_major, flake_siblings, flake_site) = flake_facts (Some text)
     in case (case asked of Some 0 \<Rightarrow> flake_major | Some m \<Rightarrow> Some m | None \<Rightarrow> flake_major) of
          None \<Rightarrow> Inl (ConfigError ''nothing names the Frappe major'')
        | Some major \<Rightarrow>
            let urls = flake_input_urls text in
            bindE (required_apps app_hooks) (\<lambda>required.
            bindE (foldE (required_step txt urls major apps) required ([], [])) (\<lambda>s1.
            bindE (foldE (declared_step txt urls major apps) flake_siblings s1) (\<lambda>(siblings, _).
            if (case site of Some s \<Rightarrow> \<not> site_name s | None \<Rightarrow> False) then Inl (ConfigError ''--site is not a site name'')
            else let chosen = (case site of Some s \<Rightarrow> if s \<noteq> [] then site else flake_site | None \<Rightarrow> flake_site);
                     default_site = map (\<lambda>c. if c = CHR ''_'' then CHR ''-'' else c) app @ ''.localhost'';
                     has_build = (case raw_get (case package of JObj d \<Rightarrow> d | _ \<Rightarrow> []) ''scripts'' JNull of
                         JObj sc \<Rightarrow> map_of sc ''build'' \<noteq> None | _ \<Rightarrow> False)
                 in Inr ([(''schema'', JInt 1), (''profile'', JStr profile), (''frappe-major'', JInt (int major))] @
                     (if siblings \<noteq> [] then [(''siblings'', JArr siblings)] else []) @
                     (case chosen of Some s \<Rightarrow> if s \<noteq> [] \<and> site_name s \<and> s \<noteq> default_site then [(''site'', JStr s)] else [] | None \<Rightarrow> []) @
                     (if has_build \<and> \<not> has_frontend then [(''build'', JBool True)] else []))))))"

text \<open>\<open>head\<close> is what \<^verbatim>\<open>git symbolic-ref\<close> answers.\<close>

definition origin_default_branch :: "string option \<Rightarrow> string option" where
  "origin_default_branch head =
     (case head of Some r \<Rightarrow> (case partition1 (CHR ''/'') (strip r) of (_, sl, b) \<Rightarrow> if sl then Some b else None) | None \<Rightarrow> None)"

definition with_integration_branch :: "string option \<Rightarrow> jtable \<Rightarrow> json \<Rightarrow> jtable" where
  "with_integration_branch head created cfg =
     (let default = (if setting_or cfg ''releases'' ''branching'' JNull = JStr ''main+tags'' then ''main'' else ''develop'')
      in case origin_default_branch head of
           Some b \<Rightarrow> if b \<noteq> [] \<and> b \<noteq> default then AList.update ''integration-branch'' (JStr b) created else created
         | None \<Rightarrow> created)"

section \<open>The lock\<close>

text \<open>\<^verbatim>\<open>lock["nodes"].get(lock["root"], {}).get("inputs", {})\<close>.\<close>

definition root_inputs :: "json \<Rightarrow> exn + json" where
  "root_inputs lock =
     bindE (dget (raw_get (lock_nodes lock) (name_in (lock_root lock)) (JObj [])) ''inputs'' (JObj [])) Inr"

definition locked_spec :: "(json \<Rightarrow> string) \<Rightarrow> json \<Rightarrow> json \<Rightarrow> string option" where
  "locked_spec txt lock ref =
     (case ref of
        JArr steps \<Rightarrow> Some (''follows:'' @ join ''/'' (map (text_or txt) steps))
      | _ \<Rightarrow>
          let node = (case ref of JStr n \<Rightarrow> raw_get (lock_nodes lock) n JNull | _ \<Rightarrow> JNull)
          in case (case node of JObj nd \<Rightarrow> raw_get nd ''original'' JNull | _ \<Rightarrow> JNull) of
               JObj d \<Rightarrow>
                 (let kind = raw_get d ''type'' JNull; url = raw_get d ''url'' JNull; ref' = raw_get d ''ref'' JNull in
                  case (kind = JStr ''git'', url) of
                    (True, JStr u) \<Rightarrow>
                      (let full = u @ (if truthy ref' then (if CHR ''?'' \<in> set u then ''&'' else ''?'') @ ''ref='' @ text_or txt ref' else [])
                       in Some (if startswith full ''git+'' then full else ''git+'' @ full))
                  | _ \<Rightarrow>
                      if in_names kind FORGES then
                        (let tail = jor ref' (raw_get d ''rev'' JNull)
                         in Some (input_spec ''url'' (name_in kind @ '':'' @ text_or txt (raw_get d ''owner'' JNull) @ ''/'' @
                              text_or txt (raw_get d ''repo'' JNull) @ (if truthy tail then ''/'' @ text_or txt tail else []))))
                      else None)
             | _ \<Rightarrow> None)"

text \<open>\<^verbatim>\<open>stale_inputs\<close>: the input and what is wrong with it.\<close>

datatype stale = NoNode string | LockedFrom string string string

primrec stale_text :: "stale \<Rightarrow> string" where
  "stale_text (NoNode name) = name @ '' (no node)''"
| "stale_text (LockedFrom name h s) =
     name @ '' (locked from '' @ removeprefix h ''follows:'' @ '', flake.nix has '' @ removeprefix s ''follows:'' @ '')''"

definition stale_one :: "(json \<Rightarrow> string) \<Rightarrow> json \<Rightarrow> json \<Rightarrow> string list \<Rightarrow> string \<times> string option \<Rightarrow> exn + stale list" where
  "stale_one txt lock inputs skip ns =
     (case ns of (name, spec) \<Rightarrow>
        if name \<in> set skip then Inr []
        else bindE (py_in (JStr name) inputs) (\<lambda>there.
          if \<not> there then Inr [NoNode name]
          else bindE (ditem inputs name) (\<lambda>ref.
            case (spec, locked_spec txt lock ref) of
              (Some s, Some h) \<Rightarrow> Inr (if h \<noteq> s then [LockedFrom name h s] else [])
            | _ \<Rightarrow> Inr [])))"

definition stale_inputs :: "(json \<Rightarrow> string) \<Rightarrow> json \<Rightarrow> input_specs \<Rightarrow> string list \<Rightarrow> exn + stale list" where
  "stale_inputs txt lock wanted skip =
     bindE (root_inputs lock) (\<lambda>inputs.
     bindE (mapE (stale_one txt lock inputs skip) wanted) (\<lambda>xs. Inr (concat xs)))"

definition profile_locked :: "(json \<Rightarrow> string) \<Rightarrow> work_file \<Rightarrow> jtable \<Rightarrow> exn + bool" where
  "profile_locked txt lockfile table =
     (case raw_get table ''profile'' (JStr ''minimal'') of
        JStr profile \<Rightarrow>
          if \<not> list_ex (startswith profile) ORG_PROFILE_PREFIXES then Inr True
          else case load_lock lockfile of
            Inl x \<Rightarrow> if is_env_error x then Inr False else Inl x
          | Inr lock \<Rightarrow>
              bindE (root_inputs lock) (\<lambda>inputs.
              bindE (dget inputs PROFILE_INPUT JNull) (\<lambda>ref.
                Inr (ref \<noteq> JNull \<and> (case locked_spec txt lock ref of Some h \<Rightarrow> h = input_spec ''url'' profile | None \<Rightarrow> True))))
      | _ \<Rightarrow> Inl AttributeError)"

text \<open>\<^verbatim>\<open>locked_frappe_nix\<close>: the \<^verbatim>\<open>locked\<close> table of the frappe-nix node; \<open>n\<close> bounds the recursion through \<^verbatim>\<open>follows\<close>.\<close>

definition locked_frappe_nix :: "nat \<Rightarrow> work_file \<Rightarrow> exn + jtable" where
  "locked_frappe_nix n lockfile =
     (if lockfile = Missing then Inr []
      else case bindE (load_lock lockfile) (\<lambda>lock. node_at n lock [JStr ''frappe-nix'']) of
        Inr (Some (_, nd)) \<Rightarrow> Inr (case raw_get nd ''locked'' JNull of JObj l \<Rightarrow> l | _ \<Rightarrow> [])
      | Inr None \<Rightarrow> Inr []
      | Inl x \<Rightarrow> if is_env_error x then Inr [] else Inl x)"

section \<open>The checks of the lock\<close>

definition lock_item :: "string \<Rightarrow> string \<Rightarrow> nat \<Rightarrow> string \<Rightarrow> item" where
  "lock_item path strategy code problem =
     \<lparr>i_path = path, i_strategy = strategy, i_current = None, i_wanted = None, i_problem = problem, i_code = code,
      i_command = None, i_phase = JStr ''b'', i_module = []\<rparr>"

text \<open>\<open>skew\<close> is whether \<^verbatim>\<open>FRAPPE_NIX_ALLOW_SKEW\<close> is 1.\<close>

definition lock_problems ::
  "(json \<Rightarrow> string) \<Rightarrow> bool \<Rightarrow> exn + string option \<Rightarrow> work_file \<Rightarrow> exn + item list" where
  "lock_problems txt skew flake lockfile =
     bindE flake (\<lambda>f.
       case f of
         None \<Rightarrow> Inr []
       | Some text \<Rightarrow>
           let dev = (\<lambda>i. i\<lparr>i_module := ''dev-shell''\<rparr>) in
           if lockfile = Missing then Inr [dev (lock_item ''flake.lock'' ''lock'' DRIFT ''missing: run `frappe-init --sync`'')]
           else case load_lock lockfile of
             Inl x \<Rightarrow> if is_env_error x then Inr [dev (lock_item ''flake.lock'' ''lock'' ENVIRONMENT ''unreadable'')] else Inl x
           | Inr lock \<Rightarrow>
               bindE (stale_inputs txt lock (flake_input_specs text) (if skew then [''frappe-nix''] else [])) (\<lambda>st.
                 Inr (if st \<noteq> [] then [dev (lock_item ''flake.lock'' ''lock'' DRIFT
                        (''does not follow flake.nix: '' @ join ''; '' (map stale_text st) @ '': run `frappe-init --sync`''))] else [])))"

definition untracked_lock_problems :: "string list \<Rightarrow> item list" where
  "untracked_lock_problems paths =
     map (\<lambda>p. lock_item p ''lock'' DRIFT ''exists but is not tracked (the flake and CI see only tracked files)'') paths"

text \<open>\<^verbatim>\<open>git ls-files -z\<close>'s answer.\<close>

definition untracked_locks :: "string \<Rightarrow> string list" where
  "untracked_locks out = sort (filter (\<lambda>p. p \<noteq> []) (split_on (CHR 0x00) out))"

section \<open>Version skew\<close>

text \<open>A text without regard to case, and the pattern of a caller workflow's \<^verbatim>\<open>uses:\<close> of \<open>repo\<close>: its revision, the
  version of its comment, and what follows.\<close>

definition ci_after :: "string \<Rightarrow> string \<Rightarrow> string option" where
  "ci_after p s = (if length p \<le> length s \<and> lower (take (length p) s) = lower p then Some (drop (length p) s) else None)"

definition any_hex :: "char \<Rightarrow> bool" where "any_hex c \<longleftrightarrow> hex_char (lower_char c)"

definition version_comment :: "string \<Rightarrow> (string \<times> string) option" where
  "version_comment s =
     (let sp = (\<lambda>c. c = CHR '' '' \<or> c = tab); r = dropWhile sp s; t = dropWhile sp (tl r);
          word = takeWhile (\<lambda>c. \<not> is_ws c) t; rest = drop (length word) t
      in if s \<noteq> [] \<and> sp (hd s) \<and> startswith r ''#'' \<and> word \<noteq> []
         then Some (if lower_char (hd word) = CHR ''v'' \<and> tl word \<noteq> [] then tl word else word, rest) else None)"

definition caller_at :: "string \<Rightarrow> string \<Rightarrow> (string \<times> string \<times> string) option" where
  "caller_at repo s =
     Option.bind (ci_after (repo @ ''/.github/workflows/app-'') s) (\<lambda>s1.
     let name = takeWhile (\<lambda>c. is_alnum c \<or> c = CHR ''_'' \<or> c = CHR ''-'') s1; s2 = drop (length name) s1 in
     if name = [] then None
     else Option.bind (either (ci_after ''.yml@'') (ci_after ''.yaml@'') s2) (\<lambda>s3.
       let sha = take 40 s3; s4 = drop 40 s3 in
       if length sha < 40 \<or> \<not> list_all any_hex sha then None
       else case version_comment s4 of Some (v, rest) \<Rightarrow> Some (sha, v, rest) | None \<Rightarrow> Some (sha, [], s4)))"

function find_callers :: "string \<Rightarrow> string \<Rightarrow> (string \<times> string) list" where
  "find_callers repo [] = []"
| "find_callers repo (c # s) =
     (case caller_at repo (c # s) of
        Some (sha, v, rest) \<Rightarrow> (sha, v) # find_callers repo (drop (max 1 (length (c # s) - length rest)) (c # s))
      | None \<Rightarrow> find_callers repo s)"
  by pat_completeness auto
termination by (relation "measure (\<lambda>(r, s). length s)") auto

text \<open>\<open>ver\<close> is the version of the running tools, \<open>pinned\<close> the locked frappe-nix revision.\<close>

definition skew_problems ::
  "bool \<Rightarrow> string \<Rightarrow> string \<Rightarrow> string \<Rightarrow> string \<Rightarrow> (string \<Rightarrow> exn + string option) \<Rightarrow> string list \<Rightarrow> exn + item list" where
  "skew_problems allowed repo ver pinned expect read tracked =
     (if allowed then Inr []
      else let own = (if expect \<noteq> [] \<and> pinned \<noteq> [] \<and> expect \<noteq> pinned
             then [lock_item ''flake.lock'' ''skew'' ENVIRONMENT (''version skew: installed from '' @ expect @ '', flake.lock pins '' @ pinned)]
             else [])
           in bindE (mapE (\<lambda>path.
                 if \<not> glob_match ''.github/workflows/*.y*ml'' path then Inr []
                 else bindE (read path) (\<lambda>text.
                   Inr (case filter (\<lambda>(sha, v). sha \<noteq> pinned \<or> v \<noteq> ver)
                                (find_callers repo (case text of Some t \<Rightarrow> t | None \<Rightarrow> [])) of
                          (sha, v) # _ \<Rightarrow> [lock_item path ''skew'' ENVIRONMENT (''version skew: calls frappe-nix @'' @ take 12 sha)]
                        | [] \<Rightarrow> []))) tracked) (\<lambda>xs. Inr (own @ concat xs)))"

end
