(* ===== verification/SyncRun.thy ===== *)
theory SyncRun
  imports FlakeText
begin

text \<open>
  The work tree of an app and \<^verbatim>\<open>commands/sync.py\<close>'s \<^verbatim>\<open>_apply\<close>, which writes or deletes what a plan says.  The tree is a map from paths to
  texts and a set of links; a link is not followed.
\<close>

section \<open>The work tree\<close>

text \<open>A path is the list of its components.\<close>

record tree =
  w_files :: "(string list \<times> string) list"
  w_links :: "string list list"

definition is_link :: "tree \<Rightarrow> string list \<Rightarrow> bool" where
  "is_link w p \<longleftrightarrow> p \<in> set (w_links w)"

definition tree_file :: "tree \<Rightarrow> string \<Rightarrow> string option" where
  "tree_file w path = map_of (w_files w) (posix_parts path)"

definition is_dir :: "tree \<Rightarrow> string list \<Rightarrow> bool" where
  "is_dir w p \<longleftrightarrow> list_ex (strict_prefix p) (map fst (w_files w) @ w_links w)"

text \<open>A file or a link in the place of a parent directory.\<close>

definition blocked_dir :: "tree \<Rightarrow> string list \<Rightarrow> bool" where
  "blocked_dir w p \<longleftrightarrow> list_ex (\<lambda>q. strict_prefix q p) (map fst (w_files w) @ w_links w)"

text \<open>\<^verbatim>\<open>target.unlink(missing_ok=True)\<close> removes a file or a link; a directory, or a file where a directory should be, is an
  \<^verbatim>\<open>OSError\<close>.\<close>

definition unlink :: "string list \<Rightarrow> (tree, unit) prog" where
  "unlink p = (\<lambda>w.
     if is_dir w p \<or> blocked_dir w p then (Inl OSError, w)
     else (Inr (), w\<lparr>w_files := AList.delete p (w_files w), w_links := removeAll p (w_links w)\<rparr>))"

text \<open>\<^verbatim>\<open>target.parent.mkdir(parents=True, exist_ok=True)\<close>, the link at the target removed, \<^verbatim>\<open>target.write_text(text)\<close>.\<close>

definition write_file :: "string list \<Rightarrow> string \<Rightarrow> (tree, unit) prog" where
  "write_file p text = (\<lambda>w.
     if is_dir w p \<or> blocked_dir w p then (Inl OSError, w)
     else (Inr (), w\<lparr>w_files := AList.update p text (w_files w), w_links := removeAll p (w_links w)\<rparr>))"

section \<open>Applying a plan\<close>

definition writes :: "item \<Rightarrow> bool" where
  "writes i \<longleftrightarrow> i_code i = DRIFT \<and> i_command i \<in> {None, Some []} \<and> i_wanted i \<noteq> i_current i"

definition apply_item :: "bool \<Rightarrow> item \<Rightarrow> string list \<Rightarrow> (tree, string list) prog" where
  "apply_item dry i touched =
     (if \<not> writes i then ret touched
      else bindP get_state (\<lambda>w.
           bindP (liftE (inside (is_link w) True (i_path i))) (\<lambda>_.
           bindP (if dry then ret ()
                  else case i_wanted i of
                    None \<Rightarrow> unlink (posix_parts (i_path i))
                  | Some text \<Rightarrow> write_file (posix_parts (i_path i)) text) (\<lambda>_.
             ret (touched @ [i_path i])))))"

definition apply_items :: "bool \<Rightarrow> item list \<Rightarrow> (tree, string list) prog" where
  "apply_items dry items = foldP (apply_item dry) items []"

text \<open>What applying a plan means: the map from paths to texts with every item's file set to the text wanted, or to
  none.\<close>

definition item_effect :: "item \<Rightarrow> (string list \<Rightarrow> string option) \<Rightarrow> string list \<Rightarrow> string option" where
  "item_effect i m = m(posix_parts (i_path i) := i_wanted i)"

definition plan_effect :: "item list \<Rightarrow> (string list \<Rightarrow> string option) \<Rightarrow> string list \<Rightarrow> string option" where
  "plan_effect items m = fold item_effect (filter writes items) m"

abbreviation content :: "tree \<Rightarrow> string list \<Rightarrow> string option" where "content w \<equiv> map_of (w_files w)"

text \<open>One item: the tree it leaves is the one its effect says, or it raised and left the tree as it was.\<close>

lemma unlink_cases: "unlink p w = (r, w') \<Longrightarrow> (r = Inr () \<and> content w' = (content w)(p := None)) \<or> (w' = w \<and> (\<exists>e. r = Inl e))"
  by (auto simp: unlink_def delete_conv split: if_splits)

lemma write_cases:
  "write_file p text w = (r, w') \<Longrightarrow>
     (r = Inr () \<and> content w' = (content w)(p := Some text)) \<or> (w' = w \<and> (\<exists>e. r = Inl e))"
  by (auto simp: write_file_def split: if_splits)

lemma apply_item_cases:
  assumes "apply_item dry i touched w = (r, w')"
  shows "(r = Inr (if writes i then touched @ [i_path i] else touched) \<and>
          content w' = (if dry \<or> \<not> writes i then content w else item_effect i (content w)) \<and> (dry \<or> \<not> writes i \<longrightarrow> w' = w) \<and>
          (writes i \<longrightarrow> inside (is_link w) True (i_path i) = Inr ())) \<or>
         (w' = w \<and> (\<exists>e. r = Inl e))"
  using assms unfolding apply_item_def item_effect_def
  by (auto simp: bindP_def ret_def liftE_def get_state_def split: if_splits sum.splits prod.splits option.splits
      dest: unlink_cases write_cases)

lemma foldP_apply:
  "foldP (apply_item dry) items touched w = (r, w') \<Longrightarrow>
   \<exists>n \<le> length items. let done = filter writes (take n items) in
     content w' = (if dry then content w else plan_effect (take n items) (content w)) \<and> (dry \<longrightarrow> w' = w) \<and>
     (case r of Inr t \<Rightarrow> n = length items \<and> t = touched @ map i_path done | Inl _ \<Rightarrow> n < length items)"
proof (induction items arbitrary: touched w)
  case Nil
  then show ?case by (auto simp: ret_def plan_effect_def)
next
  case (Cons i items)
  obtain r1 w1 where one: "apply_item dry i touched w = (r1, w1)" by fastforce
  show ?case
  proof (cases r1)
    case (Inl e)
    with one Cons.prems apply_item_cases [OF one] have "r = Inl e" "w' = w"
      by (auto simp: bindP_def)
    then show ?thesis by (intro exI [of _ 0]) (simp add: plan_effect_def)
  next
    case (Inr t)
    have t: "t = (if writes i then touched @ [i_path i] else touched)"
      and w1: "content w1 = (if dry \<or> \<not> writes i then content w else item_effect i (content w))" "dry \<longrightarrow> w1 = w"
      using apply_item_cases [OF one] Inr by auto
    have rest: "foldP (apply_item dry) items t w1 = (r, w')"
      using Cons.prems one Inr by (simp add: bindP_def)
    from Cons.IH [OF rest] obtain n where n: "n \<le> length items"
      "content w' = (if dry then content w1 else plan_effect (take n items) (content w1))" "dry \<longrightarrow> w' = w1"
      "case r of Inr t' \<Rightarrow> n = length items \<and> t' = t @ map i_path (filter writes (take n items)) | Inl _ \<Rightarrow> n < length items"
      by (auto simp: Let_def)
    show ?thesis
      by (intro exI [of _ "Suc n"]) (use n t w1 in \<open>auto simp: plan_effect_def split: sum.splits\<close>)
  qed
qed


text \<open>A path is only touched when it is inside the app.\<close>

lemma foldP_inside:
  "foldP (apply_item dry) items touched w = (r, w') \<Longrightarrow> content w' p \<noteq> content w p \<Longrightarrow>
   \<exists>i \<in> set items. writes i \<and> p = posix_parts (i_path i) \<and> (\<exists>lnk. inside lnk True (i_path i) = Inr ())"
proof (induction items arbitrary: touched w)
  case Nil
  then show ?case by (auto simp: ret_def)
next
  case (Cons i items)
  obtain r1 w1 where one: "apply_item dry i touched w = (r1, w1)" by fastforce
  show ?case
  proof (cases r1)
    case (Inl e)
    with one Cons.prems apply_item_cases [OF one] show ?thesis by (auto simp: bindP_def)
  next
    case (Inr t)
    have rest: "foldP (apply_item dry) items t w1 = (r, w')"
      using Cons.prems one Inr by (simp add: bindP_def)
    show ?thesis
    proof (cases "content w' p = content w1 p")
      case True
      with Cons.prems(2) apply_item_cases [OF one] Inr have "writes i" "p = posix_parts (i_path i)"
        "inside (is_link w) True (i_path i) = Inr ()"
        by (auto simp: item_effect_def split: if_splits)
      then show ?thesis by auto
    next
      case False
      from Cons.IH [OF rest this] show ?thesis by auto
    qed
  qed
qed

lemma inside_parts:
  assumes "inside lnk link_ok path = Inr ()"
  shows "posix_parts path \<noteq> [] \<and> ''..'' \<notin> set (posix_parts path) \<and> \<not> startswith path ''/'' \<and>
    (\<forall>part \<in> set (posix_parts path). \<not> unmanaged_part part)"
proof -
  have "find unmanaged_part (posix_parts path) = None"
    using assms by (auto simp: inside_def Let_def unmanaged_dir_def split: if_splits)
  then have "\<forall>part \<in> set (posix_parts path). \<not> unmanaged_part part" by (simp add: find_None_iff)
  with assms show ?thesis by (auto simp: inside_def Let_def split: if_splits)
qed

text \<open>Whatever the plan says, applying it changes no file outside the app's own directories: a changed path has no
  \<^verbatim>\<open>..\<close>, is not absolute, and has no component that names a directory like \<^verbatim>\<open>.git\<close>.\<close>

theorem apply_stays_inside:
  assumes "apply_items dry items w = (r, w')" "content w' p \<noteq> content w p"
  shows "p \<noteq> [] \<and> ''..'' \<notin> set p \<and> (\<forall>part \<in> set p. \<not> unmanaged_part part) \<and>
    (\<exists>i \<in> set items. writes i \<and> p = posix_parts (i_path i) \<and> \<not> startswith (i_path i) ''/'')"
proof -
  obtain i lnk where i: "i \<in> set items" "writes i" and p: "p = posix_parts (i_path i)"
    and "inside lnk True (i_path i) = Inr ()"
    using foldP_inside [OF assms(1) [unfolded apply_items_def] assms(2)] by blast
  from inside_parts [OF this(4)] i show ?thesis unfolding p by (intro conjI bexI [of _ i]) simp_all
qed

definition sample_item :: "string \<Rightarrow> string option \<Rightarrow> string option \<Rightarrow> item" where
  "sample_item path current wanted =
     \<lparr>i_path = path, i_strategy = ''whole'', i_current = current, i_wanted = wanted, i_problem = ''differs'', i_code = DRIFT,
      i_command = None, i_phase = JStr ''b'', i_module = []\<rparr>"

theorem apply_stays_inside_witness:
  "\<exists>w'. apply_items False [sample_item ''ci.yml'' None (Some ''on: push'')] \<lparr>w_files = [], w_links = []\<rparr> = (Inr [''ci.yml''], w') \<and>
     content w' [''ci.yml''] \<noteq> None \<and> ''..'' \<notin> set [''ci.yml'']"
proof -
  define w where "w = \<lparr>w_files = [], w_links = []\<rparr>"
  define items where "items = [sample_item ''ci.yml'' None (Some ''on: push'')]"
  have run: "apply_items False items w = (Inr [''ci.yml''], \<lparr>w_files = [([''ci.yml''], ''on: push'')], w_links = []\<rparr>)"
    unfolding w_def items_def by code_simp
  have changed: "content \<lparr>w_files = [([''ci.yml''], ''on: push'')], w_links = []\<rparr> [''ci.yml''] \<noteq> content w [''ci.yml'']"
    by (simp add: w_def)
  from apply_stays_inside [OF run changed] have "''..'' \<notin> set [''ci.yml'']" by (elim conjE)
  with run show ?thesis unfolding items_def w_def
    by (intro exI [of _ "\<lparr>w_files = [([''ci.yml''], ''on: push'')], w_links = []\<rparr>"] conjI) simp_all
qed

end
