(* ===== verification/SyncBoot.thy ===== *)
theory SyncBoot
  imports SyncRun
begin

text \<open>
  \<^verbatim>\<open>scaffold/bootstrap.py\<close>: what \<^verbatim>\<open>sync --write\<close> runs around its plan.  The state is the work tree, the commands run, what was
  staged, the revision a dry run renders against and the recorded result.  The programs that are run (nix, uv, yarn, oxfmt, ruff, git)
  and the answers of the environment are the record \<open>sync_world\<close>; a \<^verbatim>\<open>SystemExit\<close> is the left of a sum.
\<close>

section \<open>The state and the world\<close>

text \<open>What \<^verbatim>\<open>engine.build\<close> gives that sync reads.\<close>

record sync_plan =
  p_items :: "item list"
  p_created :: "jtable option"
  p_app :: string
  p_url :: string
  p_fn_major :: nat
  p_fn_owner :: string
  p_fn_name :: string
  p_fn_rev :: string
  p_frappe :: nat
  p_siblings :: "string list"
  p_modules :: jtable
  p_cfg :: json
  p_profile :: jtable
  p_tracked :: "string list"
  p_uv_floors :: "(string \<times> string) list"
  p_previous :: "(jtable \<times> json) option"

text \<open>The arguments; \<open>a_only\<close> holds the values of \<^verbatim>\<open>--only\<close> in the order given.\<close>

record sync_args =
  a_check :: bool
  a_dry_run :: bool
  a_skip_lock :: bool
  a_offline :: bool
  a_init_listing :: bool
  a_force :: bool
  a_frappe_version :: "string option"
  a_site :: "string option"
  a_standards :: "string option"
  a_profile_path :: "string option"
  a_only :: "string list"
  a_format :: string
  a_expect_rev :: string
  a_phase :: string

type_synonym env = "(string \<times> string) list"

text \<open>\<^verbatim>\<open>args.dry_run_lock\<close>: the revision, owner and repository of the frappe-nix a dry run renders against.\<close>

type_synonym dry_lock = "string \<times> string \<times> string"

record sync_state =
  y_tree :: tree
  y_ran :: "(string list \<times> env) list"
  y_staged :: "string list list"
  y_dry_lock :: "dry_lock option"
  y_result :: "nat option"

record 'v sync_world =
  x_build :: "sync_args \<Rightarrow> string list \<Rightarrow> dry_lock option \<Rightarrow> tree \<Rightarrow> exn + sync_plan"
  x_exec :: "string list \<Rightarrow> env \<Rightarrow> tree \<Rightarrow> (int \<times> tree) option"
  x_recorded :: "string list \<Rightarrow> env \<Rightarrow> tree \<Rightarrow> string"
  x_add :: "string list \<Rightarrow> tree \<Rightarrow> exn + unit"
  x_env :: "string \<Rightarrow> string option"
  x_which :: "string \<Rightarrow> bool"
  x_branch :: "string \<Rightarrow> int option"
  x_heads :: "string \<Rightarrow> (int \<times> string) option"
  x_nix_eval :: "jtable \<Rightarrow> string option"
  x_others :: "tree \<Rightarrow> exn + string"
  x_seed :: "nat \<Rightarrow> string \<Rightarrow> (string \<times> string) option"
  x_oxfmt :: "tree \<Rightarrow> bool"
  x_resolve :: "string \<Rightarrow> string"
  x_toplevel :: "exn + unit"
  x_warn :: "sync_plan \<Rightarrow> tree \<Rightarrow> exn + unit"
  x_tools :: string
  x_depth :: nat
  x_txt :: "json \<Rightarrow> string"
  x_ver :: "string \<Rightarrow> 'v option"
  x_kit :: tomlkit
  x_diff :: "string list \<Rightarrow> string list \<Rightarrow> string"
  x_message :: "exn \<Rightarrow> string"
  x_token :: string

definition on_tree :: "(tree, 'a) prog \<Rightarrow> (sync_state, 'a) prog" where
  "on_tree m = (\<lambda>s. case m (y_tree s) of (r, t) \<Rightarrow> (r, s\<lparr>y_tree := t\<rparr>))"

definition get_tree :: "(sync_state, tree) prog" where
  "get_tree = (\<lambda>s. (Inr (y_tree s), s))"

text \<open>After a statement that may exit: its exit, or the rest.\<close>

definition bindX :: "(sync_state, nat + 'a) prog \<Rightarrow> ('a \<Rightarrow> (sync_state, nat + 'b) prog) \<Rightarrow> (sync_state, nat + 'b) prog" where
  "bindX m k = bindP m (\<lambda>r. case r of Inl c \<Rightarrow> ret (Inl c) | Inr a \<Rightarrow> k a)"

text \<open>A file of the work tree; a link to a file is not followed: what it reaches is outside the model.\<close>

definition tree_lock :: "tree \<Rightarrow> string \<Rightarrow> work_file" where
  "tree_lock t path = (case tree_file t path of Some text \<Rightarrow> Text text | None \<Rightarrow> Missing)"

definition is_file :: "tree \<Rightarrow> string \<Rightarrow> bool" where
  "is_file t path \<longleftrightarrow> tree_file t path \<noteq> None"

definition tree_read :: "tree \<Rightarrow> string \<Rightarrow> exn + string option" where
  "tree_read t path = read_managed (is_link t) (tree_file t) path"

definition lexists :: "tree \<Rightarrow> string \<Rightarrow> bool" where
  "lexists t path \<longleftrightarrow> (let p = posix_parts path in p = [] \<or> map_of (w_files t) p \<noteq> None \<or> is_link t p \<or> is_dir t p)"

section \<open>The environment\<close>

definition env_is :: "'v sync_world \<Rightarrow> string \<Rightarrow> string \<Rightarrow> bool" where
  "env_is x key v \<longleftrightarrow> x_env x key = Some v"

definition LOCK_CHANGED :: string where "LOCK_CHANGED = ''FRAPPE_NIX_SYNC_LOCK_CHANGED''"
definition RESULT :: string where "RESULT = ''FRAPPE_NIX_SYNC_RESULT''"

definition lock_changed_env :: "bool \<Rightarrow> env" where
  "lock_changed_env changed = (if changed then [(LOCK_CHANGED, ''1'')] else [])"

definition inherited_lock_change :: "'v sync_world \<Rightarrow> bool" where
  "inherited_lock_change x = env_is x LOCK_CHANGED ''1''"

definition report_result :: "'v sync_world \<Rightarrow> nat \<Rightarrow> (sync_state, unit) prog" where
  "report_result x code = (\<lambda>s.
     (Inr (), case x_env x RESULT of Some p \<Rightarrow> if p \<noteq> [] then s\<lparr>y_result := Some code\<rparr> else s | None \<Rightarrow> s))"

definition override_url :: "'v sync_world \<Rightarrow> exn + string option" where
  "override_url x =
     (case x_env x ''FRAPPE_NIX_URL_OVERRIDE'' of
        Some u \<Rightarrow>
          if u = [] then Inr None
          else if env_is x ''FRAPPE_NIX_ALLOW_SKEW'' ''1'' then Inr (Some u)
          else Inl (EnvError ''FRAPPE_NIX_URL_OVERRIDE is for self-tests'')
      | None \<Rightarrow> Inr None)"

definition nix_args :: "'v sync_world \<Rightarrow> exn + string list" where
  "nix_args x = bindE (override_url x) (\<lambda>u. Inr (case u of Some url \<Rightarrow> [''--override-input'', ''frappe-nix'', url] | None \<Rightarrow> []))"

section \<open>Running a command\<close>

definition runs :: "sync_args \<Rightarrow> bool \<Rightarrow> bool" where
  "runs a network \<longleftrightarrow> \<not> a_dry_run a \<and> \<not> (a_offline a \<and> network)"

definition runner_run ::
  "'v sync_world \<Rightarrow> sync_args \<Rightarrow> string list \<Rightarrow> env \<Rightarrow> bool \<Rightarrow> bool \<Rightarrow> (sync_state, int) prog" where
  "runner_run x a argv env must network =
     (if \<not> runs a network then ret 0
      else (\<lambda>s.
        let s1 = s\<lparr>y_ran := y_ran s @ [(argv, env)]\<rparr> in
        case x_exec x argv env (y_tree s) of
          None \<Rightarrow> (Inl (EnvError ''is not on PATH''), s1)
        | Some (code, t) \<Rightarrow>
            (if must \<and> code \<noteq> 0 then Inl (EnvError ''exited'') else Inr code, s1\<lparr>y_tree := t\<rparr>)))"

abbreviation run_it :: "'v sync_world \<Rightarrow> sync_args \<Rightarrow> string list \<Rightarrow> (sync_state, int) prog" where
  "run_it x a argv \<equiv> runner_run x a argv [] True True"

text \<open>A sync somewhere else, and the exit with its code: always an exit or an error.\<close>

definition handover :: "'v sync_world \<Rightarrow> sync_args \<Rightarrow> string list \<Rightarrow> env \<Rightarrow> (sync_state, nat) prog" where
  "handover x a argv env =
     bindP get_tree (\<lambda>t.
     bindP (runner_run x a argv env False True) (\<lambda>code.
       let recorded = (if runs a True then strip (x_recorded x argv env t) else []) in
       if recorded \<noteq> [] \<and> list_all is_digit recorded then ret (int_of_digits recorded)
       else if code = 0 then ret 0
       else raise (EnvError ''exited before the sync it runs reported a result'')))"

section \<open>The lock\<close>

definition frappe_nix_original :: "(json \<Rightarrow> string) \<Rightarrow> json \<Rightarrow> exn + string option" where
  "frappe_nix_original txt lock =
     bindE (root_inputs lock) (\<lambda>inputs.
     bindE (dget inputs ''frappe-nix'' JNull) (\<lambda>ref.
       Inr (if ref = JNull then None else locked_spec txt lock ref)))"

text \<open>\<^verbatim>\<open>set(...)\<close> of a value: its keys or elements, which must hash.\<close>

definition set_of :: "json \<Rightarrow> exn + json set" where
  "set_of v =
     bindE (iter v) (\<lambda>xs.
       if list_ex (\<lambda>y. is_dict y \<or> is_list y) xs then Inl TypeError else Inr (set xs))"

definition lock_reasons ::
  "(json \<Rightarrow> string) \<Rightarrow> work_file \<Rightarrow> input_specs \<Rightarrow> string \<Rightarrow> exn + bool \<times> bool" where
  "lock_reasons txt lockfile inputs url =
     (if lockfile = Missing then Inr (True, False)
      else case load_lock lockfile of
        Inl e \<Rightarrow> if is_env_error e then Inr (True, False) else Inl e
      | Inr lock \<Rightarrow>
          bindE (bindE (root_inputs lock) set_of) (\<lambda>have.
          bindE (if have \<noteq> JStr ` set (map fst inputs) then Inr True
                 else bindE (stale_inputs txt lock inputs [''frappe-nix'']) (\<lambda>st. Inr (st \<noteq> []))) (\<lambda>relock.
          bindE (frappe_nix_original txt lock) (\<lambda>original.
            Inr (relock, original \<noteq> None \<and> original \<noteq> Some (input_spec ''url'' url))))))"

definition locked_frappe_nix_version :: "'v sync_world \<Rightarrow> sync_args \<Rightarrow> tree \<Rightarrow> exn + string option" where
  "locked_frappe_nix_version x a t =
     (if a_dry_run a \<or> a_offline a then Inr None
      else case load_lock (tree_lock t ''flake.lock'') of
        Inl e \<Rightarrow> if is_env_error e then Inr None else Inl e
      | Inr lock \<Rightarrow>
          bindE (node_at (x_depth x) lock [JStr ''frappe-nix'']) (\<lambda>found.
            case (case found of Some (_, nd) \<Rightarrow> raw_get nd ''locked'' JNull | None \<Rightarrow> JNull) of
              JObj locked \<Rightarrow>
                if raw_get locked ''type'' JNull \<noteq> JStr ''github'' then Inr None
                else Inr (case x_nix_eval x locked of
                  Some out \<Rightarrow> if strip out \<noteq> [] then Some (strip out) else None | None \<Rightarrow> None)
            | _ \<Rightarrow> Inr None))"

text \<open>\<^verbatim>\<open>context.frappe_nix_major\<close> and \<^verbatim>\<open>default_frappe_nix_url\<close>.\<close>

definition frappe_nix_major :: "string \<Rightarrow> nat" where
  "frappe_nix_major ver =
     (let head = takeWhile (\<lambda>c. c \<noteq> CHR ''.'') ver
      in if head \<noteq> [] \<and> list_all is_digit head then max 1 (int_of_digits head) else 1)"

definition default_frappe_nix_url :: "string \<Rightarrow> string" where
  "default_frappe_nix_url ver = ''github:Avunu/frappe-nix/release-'' @ show_nat (frappe_nix_major ver)"

definition release_ref_needed :: "'v sync_world \<Rightarrow> tree \<Rightarrow> string \<Rightarrow> exn + bool" where
  "release_ref_needed x t url =
     (if url \<noteq> default_frappe_nix_url (x_tools x) then Inr False
      else if \<not> is_file t ''flake.lock'' then Inr True
      else case load_lock (tree_lock t ''flake.lock'') of
        Inl e \<Rightarrow> if is_env_error e then Inr True else Inl e
      | Inr lock \<Rightarrow>
          bindE (frappe_nix_original (x_txt x) lock) (\<lambda>original. Inr (original \<noteq> Some (input_spec ''url'' url))))"

text \<open>\<^verbatim>\<open>git ls-remote\<close>: its exit status, and the revision in its output.\<close>

definition release_branch_exists :: "'v sync_world \<Rightarrow> string \<Rightarrow> bool option" where
  "release_branch_exists x branch =
     (case x_branch x branch of
        Some c \<Rightarrow> if c = 0 then Some True else if c = 2 then Some False else None
      | None \<Rightarrow> None)"

definition head_sha :: "string \<Rightarrow> string \<Rightarrow> string option" where
  "head_sha branch line =
     (case partition1 tab line of (sha, _, ref) \<Rightarrow>
        if ref = ''refs/heads/'' @ branch \<and> length sha = 40 \<and> list_all hex_char sha then Some sha else None)"

definition release_branch_rev :: "'v sync_world \<Rightarrow> string \<Rightarrow> string option" where
  "release_branch_rev x branch =
     (case x_heads x branch of
        Some (code, out) \<Rightarrow>
          if code = 0 then (case List.map_filter (head_sha branch) (splitlines out) of sha # _ \<Rightarrow> Some sha | [] \<Rightarrow> None) else None
      | None \<Rightarrow> None)"

definition require_release_branch :: "'v sync_world \<Rightarrow> sync_args \<Rightarrow> string \<Rightarrow> tree \<Rightarrow> exn + unit" where
  "require_release_branch x a url t =
     (if a_dry_run a \<or> a_offline a then Inr ()
      else bindE (override_url x) (\<lambda>o_url.
        if o_url \<noteq> None then Inr ()
        else bindE (release_ref_needed x t url) (\<lambda>needed.
          if needed \<and> release_branch_exists x (''release-'' @ show_nat (frappe_nix_major (x_tools x))) = Some False
          then Inl (EnvError ''has no release branch yet'') else Inr ())))"

definition phase_a_lock :: "'v sync_world \<Rightarrow> sync_args \<Rightarrow> input_specs \<Rightarrow> string \<Rightarrow> (sync_state, bool) prog" where
  "phase_a_lock x a inputs url =
     bindP get_tree (\<lambda>t0.
     bindP (liftE (lock_reasons (x_txt x) (tree_lock t0 ''flake.lock'') inputs url)) (\<lambda>(relock, move).
     bindP (liftE (override_url x)) (\<lambda>o_url.
     bindP (if o_url \<noteq> None
            then bindP (liftE (nix_args x)) (\<lambda>args. bindP (run_it x a ([''nix'', ''flake'', ''lock''] @ args)) (\<lambda>_. ret ()))
            else bindP (if relock then bindP (run_it x a [''nix'', ''flake'', ''lock'']) (\<lambda>_. ret ()) else ret ()) (\<lambda>_.
                 bindP get_tree (\<lambda>t1.
                 bindP (if move then ret True
                        else if relock then bindP (liftE (lock_reasons (x_txt x) (tree_lock t1 ''flake.lock'') inputs url)) (\<lambda>r. ret (snd r))
                        else ret False) (\<lambda>again.
                   if again then bindP (run_it x a [''nix'', ''flake'', ''update'', ''frappe-nix'']) (\<lambda>_. ret ()) else ret ())))) (\<lambda>_.
     bindP get_tree (\<lambda>t2.
       ret (tree_file t0 ''flake.lock'' \<noteq> tree_file t2 ''flake.lock''))))))"

section \<open>Another release, another shell\<close>

text \<open>\<open>Some\<close> code is the exit of the sync handed over to.\<close>

definition maybe_reexec :: "'v sync_world \<Rightarrow> sync_args \<Rightarrow> string list \<Rightarrow> bool \<Rightarrow> (sync_state, nat + unit) prog" where
  "maybe_reexec x a argv lock_changed =
     bindP (liftE (override_url x)) (\<lambda>o_url.
       if o_url \<noteq> None \<or> env_is x ''FRAPPE_NIX_SYNC_REEXEC'' ''1'' then ret (Inr ())
       else bindP get_tree (\<lambda>t.
         bindP (liftE (locked_frappe_nix_version x a t)) (\<lambda>pinned.
           if pinned = None \<or> pinned = Some (x_tools x) then ret (Inr ())
           else bindP (handover x a ([''nix'', ''run'', ''--no-pure-eval'', ''.#frappe-init'', ''--'', ''--sync''] @ argv)
                  ((''FRAPPE_NIX_SYNC_REEXEC'', ''1'') # lock_changed_env lock_changed)) (\<lambda>c. ret (Inl c)))))"

definition ensure_tools :: "'v sync_world \<Rightarrow> sync_args \<Rightarrow> string list \<Rightarrow> bool \<Rightarrow> (sync_state, nat + unit) prog" where
  "ensure_tools x a argv lock_changed =
     (if a_offline a \<or> a_dry_run a \<or> (x_which x ''uv'' \<and> x_which x ''yarn'') then ret (Inr ())
      else if env_is x ''FRAPPE_NIX_SYNC_REENTERED'' ''1'' then raise (EnvError ''uv and yarn are still not on PATH inside the dev shell'')
      else bindP get_tree (\<lambda>t.
        bindP (if is_file t ''nix/uv.lock'' then ret ()
               else bindP (liftE (nix_args x)) (\<lambda>args.
                 bindP (run_it x a ([''nix'', ''run'', ''--no-pure-eval''] @ args @ [''.#relock''])) (\<lambda>_. ret ()))) (\<lambda>_.
        bindP (liftE (nix_args x)) (\<lambda>args.
        bindP (handover x a ([''nix'', ''develop'', ''--no-pure-eval''] @ args @
                 [''-c'', ''frappe-nix'', ''sync'', ''--write'', ''--phase'', ''b''] @ argv)
               ([(''FRAPPE_NIX_CI'', ''1''), (''FRAPPE_NIX_SYNC_REENTERED'', ''1'')] @ lock_changed_env lock_changed)) (\<lambda>c.
          ret (Inl c))))))"

section \<open>Node locks\<close>

definition NODE_LOCKS :: "(string \<times> string list) list" where
  "NODE_LOCKS = [(''frappe'', [''frappe/ui'']), (''erpnext'', [''erpnext/banking'']), (''hrms'', [''hrms/frontend'', ''hrms/roster''])]"

definition seed_file :: "bool \<Rightarrow> string \<Rightarrow> string \<Rightarrow> (tree, unit) prog" where
  "seed_file dry path text = (if dry then ret () else write_file (posix_parts path) text)"

definition seed_one :: "'v sync_world \<Rightarrow> bool \<Rightarrow> nat \<Rightarrow> string \<Rightarrow> string list \<Rightarrow> (tree, string list) prog" where
  "seed_one x dry major key written =
     (let base = ''nix/node-locks/'' @ key; lock = base @ ''/yarn.lock''; source = base @ ''/source.json'' in
      bindP get_state (\<lambda>t.
      bindP (liftE (inside (is_link t) False lock)) (\<lambda>_.
      bindP (liftE (inside (is_link t) False source)) (\<lambda>_.
        if lexists t lock then ret written
        else case x_seed x major key of
          None \<Rightarrow> ret written
        | Some (lock_text, source_text) \<Rightarrow>
            bindP (seed_file dry lock lock_text) (\<lambda>_.
            bindP (seed_file dry source source_text) (\<lambda>_.
              ret (written @ [lock, source])))))))"

definition seed_node_locks :: "'v sync_world \<Rightarrow> nat \<Rightarrow> string list \<Rightarrow> bool \<Rightarrow> (tree, string list) prog" where
  "seed_node_locks x major siblings dry =
     (if siblings = [] then ret []
      else foldP (seed_one x dry major)
             (concat (map (\<lambda>app. case map_of NODE_LOCKS app of Some ks \<Rightarrow> ks | None \<Rightarrow> []) (''frappe'' # siblings))) [])"

end
