(* ===== verification/SyncWrite.thy ===== *)
theory SyncWrite
  imports SyncBoot
begin

text \<open>
  \<^verbatim>\<open>commands/sync.py\<close>: \<^verbatim>\<open>--check\<close> computes the plan and reports it, \<^verbatim>\<open>--write\<close> applies it in two phases.  What is printed on the way
  (notices, the lines of each command, the diff of a dry run) is not modelled; the report of \<^verbatim>\<open>--check\<close> is the value returned.
\<close>

section \<open>Arguments\<close>

definition only_paths :: "sync_args \<Rightarrow> string list option" where
  "only_paths a =
     (let paths = filter (\<lambda>p. p \<noteq> []) (map strip (concat (map (split_on (CHR '','')) (a_only a))))
      in if paths = [] then None else Some paths)"

definition opt_flag :: "string \<Rightarrow> string option \<Rightarrow> string list" where
  "opt_flag flag v = (case v of Some s \<Rightarrow> if s \<noteq> [] then [flag, s] else [] | None \<Rightarrow> [])"

definition passthrough :: "'v sync_world \<Rightarrow> sync_args \<Rightarrow> bool \<Rightarrow> string list" where
  "passthrough x a frappe_init =
     (if a_dry_run a then [''--dry-run''] else []) @
     (if a_skip_lock a then [''--skip-lock''] else []) @
     (if a_offline a then [''--offline''] else []) @
     (if a_init_listing a then [''--init-listing''] else []) @
     (if a_force a then [''--force''] else []) @
     opt_flag (if frappe_init then ''--version'' else ''--frappe-version'') (a_frappe_version a) @
     opt_flag (if frappe_init then ''--default-site'' else ''--site'') (a_site a) @
     opt_flag ''--standards'' (a_standards a) @
     (case a_profile_path a of Some p \<Rightarrow> if p \<noteq> [] then [''--profile-path'', x_resolve x p] else [] | None \<Rightarrow> []) @
     concat (map (\<lambda>chunk. [''--only'', chunk]) (a_only a))"

definition build_it :: "'v sync_world \<Rightarrow> sync_args \<Rightarrow> string list \<Rightarrow> (sync_state, sync_plan) prog" where
  "build_it x a phases = (\<lambda>s. (x_build x a phases (y_dry_lock s) (y_tree s), s))"

section \<open>The report of --check\<close>

definition item_diff :: "'v sync_world \<Rightarrow> item \<Rightarrow> string" where
  "item_diff x i =
     (if i_wanted i = None \<and> i_current i = None then []
      else x_diff x (splitlines_keep (case i_current i of Some t \<Rightarrow> t | None \<Rightarrow> []))
                    (splitlines_keep (case i_wanted i of Some t \<Rightarrow> t | None \<Rightarrow> [])))"

definition item_finding :: "'v sync_world \<Rightarrow> item \<Rightarrow> finding" where
  "item_finding x i =
     \<lparr>f_path = i_path i, f_strategy = i_strategy i, f_problem = i_problem i,
      f_diff = (if i_wanted i \<noteq> i_current i then item_diff x i else []), f_module = i_module i\<rparr>"

definition frappe_nix_json :: "'v sync_world \<Rightarrow> json \<Rightarrow> json" where
  "frappe_nix_json x sha = JObj [(''rev'', sha), (''version'', JStr (x_tools x))]"

definition run_report :: "'v sync_world \<Rightarrow> finding list \<Rightarrow> string \<Rightarrow> nat \<Rightarrow> sync_plan \<Rightarrow> exn + report" where
  "run_report x findings fmt code plan =
     bindE (render_report (x_token x) findings fmt code (frappe_nix_json x (JStr (p_fn_rev plan)))) (\<lambda>r.
       Inr (case r of
              JsonReport (JObj d) \<Rightarrow>
                JsonReport (JObj (AList.update ''modules'' (JObj (p_modules plan)) (AList.update ''profile'' (JObj (p_profile plan)) d)))
            | other \<Rightarrow> other))"

definition created_item :: item where
  "created_item = lock_item ''pyproject.toml'' ''toml-merge'' DRIFT ''[tool.frappe-nix] is missing: --standards creates it''"

definition check_items :: "'v sync_world \<Rightarrow> sync_args \<Rightarrow> sync_plan \<Rightarrow> tree \<Rightarrow> exn + item list" where
  "check_items x a plan t =
     (let skew = env_is x ''FRAPPE_NIX_ALLOW_SKEW'' ''1'';
          items = (if p_created plan \<noteq> None then [created_item] else []) @ plan_problems (p_items plan)
      in bindE (if only_paths a \<noteq> None then Inr items
                else bindE (lock_problems (x_txt x) skew (tree_read t ''flake.nix'') (tree_lock t ''flake.lock'')) (\<lambda>ls.
                     bindE (x_others x t) (\<lambda>out. Inr (items @ ls @ untracked_lock_problems (untracked_locks out))))) (\<lambda>is.
         bindE (skew_problems skew (p_fn_owner plan @ ''/'' @ p_fn_name plan) (x_tools x) (p_fn_rev plan) (a_expect_rev a)
                  (tree_read t) (p_tracked plan)) (\<lambda>ks. Inr (is @ ks))))"

definition check_run :: "'v sync_world \<Rightarrow> sync_args \<Rightarrow> tree \<Rightarrow> exn + nat \<times> report" where
  "check_run x a t =
     (if a_profile_path a \<notin> {None, Some []} \<and> x_env x ''CI'' \<notin> {None, Some []}
      then Inl (EnvError ''--profile-path is for profile authors'')
      else bindE (x_build x a [''a'', ''b''] None t) (\<lambda>plan.
           bindE (check_items x a plan t) (\<lambda>items.
             let code = worst (map i_code items) in
             bindE (run_report x (map (item_finding x) items) (a_format a) code plan) (\<lambda>r. Inr (code, r)))))"

text \<open>\<^verbatim>\<open>^(?P<path>[^\s:;]+)(?::\d+)?: \<close>: the path a message starts with.\<close>

definition message_path :: "string \<Rightarrow> string option" where
  "message_path m =
     (let path = takeWhile (\<lambda>c. \<not> is_ws c \<and> c \<noteq> CHR '':'' \<and> c \<noteq> CHR '';'') m; r = drop (length path) m;
          d = takeWhile is_digit (tl r)
      in if path = [] then None
         else if startswith r '': '' \<or> startswith r '':'' \<and> d \<noteq> [] \<and> startswith (drop (length d) (tl r)) '': '' then Some path
         else None)"

definition error_path :: "'v sync_world \<Rightarrow> tree \<Rightarrow> exn \<Rightarrow> string" where
  "error_path x t e =
     (let other = (case e of ConfigError _ \<Rightarrow> ''pyproject.toml'' | _ \<Rightarrow> ''.'') in
      case message_path (x_message x e) of
        Some path \<Rightarrow>
          if \<not> startswith path ''/'' \<and> ''..'' \<notin> set (posix_parts path) \<and> lexists t path then path else other
      | None \<Rightarrow> other)"

definition exn_code :: "exn \<Rightarrow> nat" where
  "exn_code e = (case e of ConfigError _ \<Rightarrow> INVALID | _ \<Rightarrow> ENVIRONMENT)"

definition suppressed_rev :: "'v sync_world \<Rightarrow> tree \<Rightarrow> json" where
  "suppressed_rev x t =
     (case locked_frappe_nix (x_depth x) (tree_lock t ''flake.lock'') of
        Inr locked \<Rightarrow> jor (raw_get locked ''rev'' JNull) (JStr []) | Inl _ \<Rightarrow> JStr [])"

definition check_reported :: "'v sync_world \<Rightarrow> sync_args \<Rightarrow> tree \<Rightarrow> exn + nat \<times> report" where
  "check_reported x a t =
     (let run = bindE (x_toplevel x) (\<lambda>_. check_run x a t) in
      if a_format a = ''text'' then run
      else case run of
        Inr r \<Rightarrow> Inr r
      | Inl e \<Rightarrow>
          let known = is_frappe_nix_error e;
              code = (if known then exn_code e else ENVIRONMENT);
              problem = (if known then x_message x e else ''internal error: '' @ x_message x e);
              path = (if known then error_path x t e else ''.'')
          in bindE (render_report (x_token x)
                      [\<lparr>f_path = path, f_strategy = [], f_problem = problem, f_diff = [], f_module = []\<rparr>]
                      (a_format a) code (frappe_nix_json x (suppressed_rev x t))) (\<lambda>r. Inr (code, r)))"

section \<open>The steps of --write\<close>

definition stage :: "'v sync_world \<Rightarrow> sync_args \<Rightarrow> string list \<Rightarrow> (sync_state, unit) prog" where
  "stage x a paths =
     (if a_dry_run a \<or> paths = [] then ret ()
      else (\<lambda>s. case x_add x (sort (dedup paths)) (y_tree s) of
              Inl e \<Rightarrow> (Inl e, s)
            | Inr _ \<Rightarrow> (Inr (), s\<lparr>y_staged := y_staged s @ [sort (dedup paths)]\<rparr>)))"

definition stage_file :: "'v sync_world \<Rightarrow> sync_args \<Rightarrow> string \<Rightarrow> (sync_state, unit) prog" where
  "stage_file x a path = bindP get_tree (\<lambda>t. if is_file t path then stage x a [path] else ret ())"

definition invalid_code :: "item list \<Rightarrow> nat" where
  "invalid_code items = worst (map i_code (filter (\<lambda>i. i_code i \<ge> INVALID) items))"

definition create_table :: "'v sync_world \<Rightarrow> sync_args \<Rightarrow> sync_plan \<Rightarrow> (sync_state, unit) prog" where
  "create_table x a plan =
     (case p_created plan of
        None \<Rightarrow> ret ()
      | Some kvs \<Rightarrow>
          bindP get_tree (\<lambda>t.
          bindP (liftE (tree_read t ''pyproject.toml'')) (\<lambda>current.
            let new = add_tool_frappe_nix (x_kit x) (case current of Some s \<Rightarrow> s | None \<Rightarrow> []) kvs in
            if a_dry_run a then ret ()
            else bindP (on_tree (write_file [''pyproject.toml''] new)) (\<lambda>_. stage x a [''pyproject.toml'']))))"

definition apply_plan :: "sync_args \<Rightarrow> item list \<Rightarrow> (sync_state, string list) prog" where
  "apply_plan a items = on_tree (apply_items (a_dry_run a) items)"

definition flake_specs :: "tree \<Rightarrow> exn + input_specs" where
  "flake_specs t = (case tree_file t ''flake.nix'' of Some text \<Rightarrow> Inr (flake_input_specs text) | None \<Rightarrow> Inl OSError)"

text \<open>Lock the flake for \<open>url\<close> and stage the lock.\<close>

definition lock_step :: "'v sync_world \<Rightarrow> sync_args \<Rightarrow> string \<Rightarrow> (sync_state, bool) prog" where
  "lock_step x a url =
     bindP get_tree (\<lambda>t.
     bindP (liftE (flake_specs t)) (\<lambda>inputs.
     bindP (phase_a_lock x a inputs url) (\<lambda>changed.
     bindP (stage_file x a ''flake.lock'') (\<lambda>_. ret changed))))"

text \<open>Whether \<^verbatim>\<open>--only\<close> leaves the flake to this run.\<close>

definition flake_step :: "sync_args \<Rightarrow> bool" where
  "flake_step a \<longleftrightarrow> (case only_paths a of None \<Rightarrow> True | Some ps \<Rightarrow> ''flake.nix'' \<in> set ps \<or> ''.envrc'' \<in> set ps)"

definition dry_run_rev :: "'v sync_world \<Rightarrow> sync_args \<Rightarrow> sync_plan \<Rightarrow> (sync_state, unit) prog" where
  "dry_run_rev x a plan =
     (if a_offline a then ret ()
      else bindP (liftE (override_url x)) (\<lambda>o_url.
        if o_url \<noteq> None then ret ()
        else bindP get_tree (\<lambda>t.
        bindP (liftE (release_ref_needed x t (p_url plan))) (\<lambda>needed.
          if \<not> needed then ret ()
          else case release_branch_rev x (''release-'' @ show_nat (p_fn_major plan)) of
            Some sha \<Rightarrow> (\<lambda>s. (Inr (), s\<lparr>y_dry_lock := Some (sha, p_fn_owner plan, p_fn_name plan)\<rparr>))
          | None \<Rightarrow> ret ()))))"

definition phase_a_flake :: "'v sync_world \<Rightarrow> sync_args \<Rightarrow> sync_plan \<Rightarrow> (sync_state, nat + bool) prog" where
  "phase_a_flake x a plan =
     bindP (lock_step x a (p_url plan)) (\<lambda>changed.
     bindP (build_it x a [''a'']) (\<lambda>again.
     if invalid_code (p_items again) \<noteq> CLEAN then ret (Inl (invalid_code (p_items again)))
     else bindP (apply_plan a (p_items again)) (\<lambda>redone.
       bindP (if redone = [] then ret changed
              else bindP (stage x a redone) (\<lambda>_. bindP (lock_step x a (p_url again)) (\<lambda>c. ret (c \<or> changed)))) (\<lambda>changed'.
       bindX (maybe_reexec x a (passthrough x a True) (changed' \<or> inherited_lock_change x)) (\<lambda>_.
         ret (Inr changed'))))))"

definition phase_a :: "'v sync_world \<Rightarrow> sync_args \<Rightarrow> (sync_state, nat + bool) prog" where
  "phase_a x a =
     bindP (build_it x a [''a'']) (\<lambda>plan.
     if invalid_code (p_items plan) \<noteq> CLEAN then ret (Inl (invalid_code (p_items plan)))
     else
       bindP get_tree (\<lambda>t.
       bindP (liftE (if flake_step a then require_release_branch x a (p_url plan) t else Inr ())) (\<lambda>_.
       bindP (create_table x a plan) (\<lambda>_.
       bindP (apply_plan a (p_items plan)) (\<lambda>touched.
       bindP (stage x a touched) (\<lambda>_.
         if flake_step a \<and> \<not> a_offline a \<and> \<not> a_dry_run a then phase_a_flake x a plan
         else if flake_step a \<and> a_dry_run a then bindP (dry_run_rev x a plan) (\<lambda>_. ret (Inr False))
         else ret (Inr False)))))))"

section \<open>What needs a repository setting\<close>

definition repo_settings :: "jtable \<Rightarrow> json \<Rightarrow> string list" where
  "repo_settings modules cfg =
     (if truthy (raw_get modules ''releases'' JNull) then [''releases''] else []) @
     (if truthy (raw_get modules ''dependabot'' JNull) \<and> truthy (setting_or cfg ''dependabot'' ''auto-merge'' (JBool True))
      then [''dependabot (auto-merge)''] else [])"

definition needs_repo_settings :: "sync_plan \<Rightarrow> string list" where
  "needs_repo_settings plan =
     (let before = (case p_previous plan of Some (m, c) \<Rightarrow> repo_settings m c | None \<Rightarrow> [])
      in filter (\<lambda>m. m \<notin> set before) (repo_settings (p_modules plan) (p_cfg plan)))"

section \<open>Phase B\<close>

definition item_at :: "item list \<Rightarrow> string \<Rightarrow> item option" where
  "item_at items path = (case filter (\<lambda>i. i_path i = path) (rev items) of i # _ \<Rightarrow> Some i | [] \<Rightarrow> None)"

definition commanded :: "item \<Rightarrow> bool" where
  "commanded i \<longleftrightarrow> i_command i \<notin> {None, Some []}"

text \<open>Steps 8 and 9: the lock of the tools and the lock of the packages.\<close>

definition uv_step :: "'v::linorder sync_world \<Rightarrow> sync_args \<Rightarrow> sync_plan \<Rightarrow> string list \<Rightarrow> (sync_state, string list) prog" where
  "uv_step x a plan touched =
     (case item_at (p_items plan) ''tools/uv.lock'' of
        None \<Rightarrow> ret touched
      | Some i \<Rightarrow>
          if \<not> (commanded i \<or> ''tools/pyproject.toml'' \<in> set touched) then ret touched
          else bindP get_tree (\<lambda>t.
            bindP (liftE (lock_shortfalls (x_ver x) (tk_parse (x_kit x)) (tree_lock t ''tools/uv.lock'') (p_uv_floors plan))) (\<lambda>short.
            bindP (run_it x a ([''uv'', ''lock'', ''--project'', ''tools''] @
                     (if is_file t ''tools/uv.lock'' then concat (map (\<lambda>p. [''--upgrade-package'', p]) short) else []))) (\<lambda>_.
            bindP (stage_file x a ''tools/uv.lock'') (\<lambda>_.
              ret (touched @ [''tools/uv.lock'']))))))"

definition yarn_step :: "'v sync_world \<Rightarrow> sync_args \<Rightarrow> sync_plan \<Rightarrow> string list \<Rightarrow> (sync_state, string list) prog" where
  "yarn_step x a plan touched =
     (case item_at (p_items plan) ''yarn.lock'' of
        None \<Rightarrow> ret touched
      | Some i \<Rightarrow>
          if \<not> (commanded i \<or> ''package.json'' \<in> set touched) then ret touched
          else bindP (run_it x a [''yarn'', ''install'', ''--non-interactive'']) (\<lambda>_.
               bindP (stage_file x a ''yarn.lock'') (\<lambda>_. ret (touched @ [''yarn.lock'']))))"

text \<open>The binary that yarn installed, under the app's root.\<close>

definition OXFMT :: string where "OXFMT = ''node_modules/.bin/oxfmt''"

definition uses_oxc :: "sync_plan \<Rightarrow> bool" where
  "uses_oxc plan \<longleftrightarrow> truthy (raw_get (p_modules plan) ''js'' JNull) \<and> setting_or (p_cfg plan) ''js'' ''tool'' (JStr ''oxc'') = JStr ''oxc''"

definition format_step :: "'v sync_world \<Rightarrow> sync_args \<Rightarrow> sync_plan \<Rightarrow> string list \<Rightarrow> (sync_state, unit) prog" where
  "format_step x a plan touched =
     bindP get_tree (\<lambda>t.
     let written = filter (\<lambda>p. is_file t p \<and> \<not> endswith p ''.lock'') touched; init_py = p_app plan @ ''/__init__.py'' in
     bindP (if written \<noteq> [] \<and> x_oxfmt x t \<and> uses_oxc plan
            then bindP (runner_run x a ([OXFMT, ''--no-error-on-unmatched-pattern''] @ written) [] True False) (\<lambda>_. ret ())
            else ret ()) (\<lambda>_.
     bindP get_tree (\<lambda>t'.
       if init_py \<in> set touched \<and> truthy (raw_get (p_modules plan) ''python-lint'' JNull) \<and> is_file t' ''tools/uv.lock'' \<and> x_which x ''uv''
       then bindP (run_it x a [''uv'', ''run'', ''--frozen'', ''--project'', ''tools'', ''ruff'', ''format'', init_py]) (\<lambda>_. ret ())
       else ret ())))"

text \<open>Steps 10 and 11: the node locks and the bench's lock.\<close>

definition seed_step :: "'v sync_world \<Rightarrow> sync_args \<Rightarrow> sync_plan \<Rightarrow> string list \<Rightarrow> (sync_state, string list) prog" where
  "seed_step x a plan touched =
     (if only_paths a \<noteq> None then ret touched
      else bindP (on_tree (seed_node_locks x (p_frappe plan) (p_siblings plan) (a_dry_run a))) (\<lambda>seeded.
           bindP (stage x a seeded) (\<lambda>_. ret (touched @ seeded))))"

definition relock_step :: "'v sync_world \<Rightarrow> sync_args \<Rightarrow> bool \<Rightarrow> string list \<Rightarrow> (sync_state, string list) prog" where
  "relock_step x a lock_changed touched =
     bindP get_tree (\<lambda>t.
       if only_paths a = None \<and> \<not> a_skip_lock a \<and> (lock_changed \<or> \<not> is_file t ''nix/uv.lock'')
       then bindP (liftE (nix_args x)) (\<lambda>args.
            bindP (run_it x a ([''nix'', ''run'', ''--no-pure-eval''] @ args @ [''.#relock''])) (\<lambda>_.
              ret (touched @ [''nix/uv.lock''])))
       else ret touched)"

definition tree_exists :: "tree \<Rightarrow> string \<Rightarrow> bool" where
  "tree_exists t path \<longleftrightarrow> is_file t path \<or> is_dir t (posix_parts path)"

definition stage_all :: "'v sync_world \<Rightarrow> sync_args \<Rightarrow> string list \<Rightarrow> (sync_state, unit) prog" where
  "stage_all x a touched =
     bindP get_tree (\<lambda>t.
     bindP (if a_dry_run a \<or> only_paths a \<noteq> None then ret []
            else bindP (liftE (x_others x t)) (\<lambda>out. ret (untracked_locks out))) (\<lambda>untracked.
       stage x a (filter (tree_exists t) touched @ untracked)))"

definition left_over :: "sync_args \<Rightarrow> sync_plan \<Rightarrow> item list" where
  "left_over a plan = filter (\<lambda>i. \<not> (a_offline a \<and> commanded i)) (plan_problems (p_items plan))"

definition phase_b :: "'v::linorder sync_world \<Rightarrow> sync_args \<Rightarrow> bool \<Rightarrow> (sync_state, nat + nat) prog" where
  "phase_b x a lock_changed0 =
     (let lock_changed = lock_changed0 \<or> inherited_lock_change x in
      bindX (ensure_tools x a (passthrough x a False) lock_changed) (\<lambda>_.
      bindP (build_it x a [''b'']) (\<lambda>plan.
      bindP get_tree (\<lambda>t.
      bindP (liftE (x_warn x plan t)) (\<lambda>_.
      if invalid_code (p_items plan) \<noteq> CLEAN then ret (Inr (invalid_code (p_items plan)))
      else
        bindP (apply_plan a (p_items plan)) (\<lambda>touched.
        bindP (stage x a touched) (\<lambda>_.
        bindP (uv_step x a plan touched) (\<lambda>touched.
        bindP (yarn_step x a plan touched) (\<lambda>touched.
        bindP (format_step x a plan touched) (\<lambda>_.
        bindP (seed_step x a plan touched) (\<lambda>touched.
        bindP (relock_step x a lock_changed touched) (\<lambda>touched.
        bindP (stage_all x a touched) (\<lambda>_.
          if a_dry_run a then ret (Inr CLEAN)
          else bindP (build_it x a [''a'', ''b'']) (\<lambda>after.
            ret (Inr (worst (map i_code (left_over a after))))))))))))))))))"

section \<open>The run\<close>

definition preflight :: "'v sync_world \<Rightarrow> sync_args \<Rightarrow> (sync_state, nat) prog" where
  "preflight x a =
     bindP (build_it x a [''a'']) (\<lambda>plan.
     if invalid_code (p_items plan) \<noteq> CLEAN then ret (invalid_code (p_items plan))
     else bindP get_tree (\<lambda>t.
       bindP (liftE (if flake_step a then require_release_branch x a (p_url plan) t else Inr ())) (\<lambda>_. ret CLEAN)))"

definition exit_code :: "nat + nat \<Rightarrow> nat" where
  "exit_code r = (case r of Inl c \<Rightarrow> c | Inr c \<Rightarrow> c)"

definition sync_write :: "'v::linorder sync_world \<Rightarrow> sync_args \<Rightarrow> (sync_state, nat) prog" where
  "sync_write x a =
     bindP (liftE (override_url x)) (\<lambda>_.
     if a_phase a = ''preflight'' then preflight x a
     else bindP
       (bindX (if a_phase a = ''all'' \<or> a_phase a = ''a'' then phase_a x a else ret (Inr False)) (\<lambda>lock_changed.
          if a_phase a = ''a'' then ret (Inr CLEAN) else phase_b x a lock_changed)) (\<lambda>r. ret (exit_code r)))"

text \<open>The exit code, and the report when it is \<^verbatim>\<open>--check\<close>.\<close>

definition sync_command :: "'v::linorder sync_world \<Rightarrow> sync_args \<Rightarrow> (sync_state, nat \<times> report option) prog" where
  "sync_command x a =
     (if a_check a then bindP get_tree (\<lambda>t. bindP (liftE (check_reported x a t)) (\<lambda>(c, r). ret (c, Some r)))
      else bindP (liftE (x_toplevel x)) (\<lambda>_.
        let a' = (if env_is x ''FRAPPE_NIX_OFFLINE'' ''1'' then a\<lparr>a_offline := True\<rparr> else a)
        in bindP (sync_write x a') (\<lambda>c. ret (c, None))))"

definition sync_run :: "'v::linorder sync_world \<Rightarrow> sync_args \<Rightarrow> (sync_state, nat \<times> report option) prog" where
  "sync_run x a =
     bindP (catch (sync_command x a) (\<lambda>e.
         if is_frappe_nix_error e then bindP (report_result x (exn_code e)) (\<lambda>_. raise e) else raise e)) (\<lambda>r.
     bindP (report_result x (fst r)) (\<lambda>_. ret r))"

end
