(* ===== verification/SyncSafety.thy ===== *)
theory SyncSafety
  imports SyncWrite
begin

text \<open>
  What \<^verbatim>\<open>frappe-nix sync\<close> promises: a dry run changes nothing, an offline one runs no nix, uv or yarn, an invalid plan is refused
  before anything is written, a clean exit means that a fresh plan is clean, and what was written stays staged when a later step fails.
\<close>

section \<open>Rules for the combinators\<close>

declare keeps_sum [keeps_rules]

lemma keeps_bindX [keeps_rules]: "keeps I m \<Longrightarrow> (\<And>b. keeps I (k b)) \<Longrightarrow> keeps I (bindX m k)"
  unfolding bindX_def by (intro keeps_rules)

lemma keeps_get_tree [keeps_rules]: "keeps I get_tree" by (simp add: keeps_def get_tree_def)
lemma keeps_build [keeps_rules]: "keeps I (build_it x a ph)" by (simp add: keeps_def build_it_def)

section \<open>What the steps keep, the run keeps\<close>

text \<open>The laws of a predicate of the state: it survives the writes that are made, the commands that are run and \<^verbatim>\<open>git add\<close>, and does
  not depend on what a dry run renders against or on the recorded result.\<close>

locale sync_laws =
  fixes x :: "'v::linorder sync_world" and a :: sync_args and I :: "sync_state \<Rightarrow> bool"
  assumes applied: "keeps I (apply_plan a items)"
    and seeded: "keeps I (on_tree (seed_node_locks x major sibs (a_dry_run a)))"
    and tabled: "\<not> a_dry_run a \<Longrightarrow> keeps I (on_tree (write_file [''pyproject.toml''] new))"
    and ran: "keeps I (runner_run x a argv env must True)"
    and formatted: "keeps I (runner_run x a (OXFMT # args) env must False)"
    and staged: "keeps I (stage x a paths)"
    and noted: "I s \<Longrightarrow> I (s\<lparr>y_dry_lock := l\<rparr>)"
begin

lemmas laws = applied seeded tabled ran formatted staged

lemma keeps_handover: "keeps I (handover x a argv env)"
  unfolding handover_def Let_def by (intro keeps_rules laws)

lemma keeps_lock: "keeps I (phase_a_lock x a inputs url)"
  unfolding phase_a_lock_def by (intro keeps_rules laws)

lemma keeps_stage_file: "keeps I (stage_file x a path)"
  unfolding stage_file_def by (intro keeps_rules laws)

lemma keeps_lock_step: "keeps I (lock_step x a url)"
  unfolding lock_step_def by (intro keeps_rules keeps_lock keeps_stage_file)

lemma keeps_maybe_reexec: "keeps I (maybe_reexec x a argv changed)"
  unfolding maybe_reexec_def by (intro keeps_rules keeps_handover)

lemma keeps_ensure_tools: "keeps I (ensure_tools x a argv changed)"
  unfolding ensure_tools_def by (intro keeps_rules laws keeps_handover)

lemma keeps_create_table: "keeps I (create_table x a plan)"
  unfolding create_table_def Let_def by (intro keeps_rules laws)

lemma keeps_dry_run_rev: "keeps I (dry_run_rev x a plan)"
proof -
  have "keeps I (\<lambda>s. (Inr (), s\<lparr>y_dry_lock := l\<rparr>))" for l by (simp add: keeps_def noted)
  then show ?thesis unfolding dry_run_rev_def by (intro keeps_rules)
qed

lemma keeps_phase_a: "keeps I (phase_a x a)"
  unfolding phase_a_def phase_a_flake_def
  by (intro keeps_rules laws keeps_create_table keeps_lock_step keeps_maybe_reexec keeps_dry_run_rev)

lemma keeps_uv: "keeps I (uv_step x a plan touched)"
  unfolding uv_step_def by (intro keeps_rules laws keeps_stage_file)

lemma keeps_yarn: "keeps I (yarn_step x a plan touched)"
  unfolding yarn_step_def by (intro keeps_rules laws keeps_stage_file)

lemma keeps_format: "keeps I (format_step x a plan touched)"
  unfolding format_step_def Let_def append_Cons by (intro keeps_rules laws)

lemma keeps_seed: "keeps I (seed_step x a plan touched)"
  unfolding seed_step_def by (intro keeps_rules laws)

lemma keeps_relock: "keeps I (relock_step x a changed touched)"
  unfolding relock_step_def by (intro keeps_rules laws)

lemma keeps_stage_all: "keeps I (stage_all x a touched)"
  unfolding stage_all_def by (intro keeps_rules laws)

lemmas phase_b_steps = keeps_uv keeps_yarn keeps_format keeps_seed keeps_relock keeps_stage_all

lemma keeps_phase_b: "keeps I (phase_b x a changed)"
  unfolding phase_b_def Let_def by (intro keeps_rules laws phase_b_steps keeps_ensure_tools)

lemma keeps_write: "keeps I (sync_write x a)"
  unfolding sync_write_def preflight_def by (intro keeps_rules keeps_phase_a keeps_phase_b)

end

text \<open>The whole command, which may turn \<^verbatim>\<open>--offline\<close> on.\<close>

lemma keeps_sync_run:
  assumes "sync_laws x a I" "sync_laws x (a\<lparr>a_offline := True\<rparr>) I" and "\<And>s c. I s \<Longrightarrow> I (s\<lparr>y_result := c\<rparr>)"
  shows "keeps I (sync_run x a)"
proof -
  have "keeps I (report_result x c)" for c
    using assms(3) by (auto simp: keeps_def report_result_def split: option.split)
  then show ?thesis
    unfolding sync_run_def sync_command_def Let_def
    using sync_laws.keeps_write [OF assms(1)] sync_laws.keeps_write [OF assms(2)]
    by (intro keeps_rules) auto
qed

section \<open>A dry run\<close>

abbreviation untouched :: "tree \<Rightarrow> (string list \<times> env) list \<Rightarrow> string list list \<Rightarrow> sync_state \<Rightarrow> bool" where
  "untouched t cmds stg s \<equiv> y_tree s = t \<and> y_ran s = cmds \<and> y_staged s = stg"

lemma keeps_untouched_on_tree:
  assumes "\<And>w. snd (m w) = w"
  shows "keeps (untouched t cmds stg) (on_tree m)"
  using assms by (simp add: keeps_def on_tree_def case_prod_beta)

lemma dry_apply: "snd (foldP (apply_item True) items touched w) = w"
  using foldP_apply [of True items touched w "fst (foldP (apply_item True) items touched w)" "snd (foldP (apply_item True) items touched w)"]
  by (auto simp: Let_def)

lemma dry_seed: "snd (foldP (seed_one x True major) keys written w) = w"
proof -
  have "keeps (\<lambda>t. t = w) (foldP (seed_one x True major) keys written)"
    unfolding seed_one_def seed_file_def Let_def by (intro keeps_rules) simp_all
  then show ?thesis by (simp add: keeps_def)
qed

interpretation dry: sync_laws x "a\<lparr>a_dry_run := True\<rparr>" "untouched t cmds stg" for x a t cmds stg
proof
  show "keeps (untouched t cmds stg) (apply_plan (a\<lparr>a_dry_run := True\<rparr>) items)" for items
    unfolding apply_plan_def apply_items_def by (rule keeps_untouched_on_tree) (simp add: dry_apply)
  show "keeps (untouched t cmds stg) (on_tree (seed_node_locks x major sibs (a_dry_run (a\<lparr>a_dry_run := True\<rparr>))))" for major sibs
    by (rule keeps_untouched_on_tree) (simp add: seed_node_locks_def dry_seed ret_def)
qed (simp_all add: runner_run_def runs_def stage_def keeps_ret)


section \<open>An offline run\<close>

text \<open>A predicate that does not read the tree survives whatever is done to it.\<close>

lemma keeps_on_tree: "(\<And>s t. I s \<Longrightarrow> I (s\<lparr>y_tree := t\<rparr>)) \<Longrightarrow> keeps I (on_tree m)"
  by (simp add: keeps_def on_tree_def case_prod_beta)

lemma keeps_stage:
  assumes "\<And>s p. I s \<Longrightarrow> I (s\<lparr>y_staged := y_staged s @ [p]\<rparr>)"
  shows "keeps I (stage x a paths)"
  using assms by (auto simp: keeps_def stage_def ret_def split: sum.split)

definition formats :: "(string list \<times> env) list \<Rightarrow> sync_state \<Rightarrow> bool" where
  "formats cmds s \<longleftrightarrow> (\<forall>c \<in> set (y_ran s). c \<in> set cmds \<or> hd (fst c) = OXFMT)"

interpretation offline: sync_laws x "a\<lparr>a_offline := True\<rparr>" "formats cmds" for x a cmds
proof
  show "keeps (formats cmds) (runner_run x (a\<lparr>a_offline := True\<rparr>) (OXFMT # args) env must False)" for args env must
    by (auto simp: keeps_def runner_run_def Let_def ret_def formats_def split: option.split)
  show "keeps (formats cmds) (stage x (a\<lparr>a_offline := True\<rparr>) paths)" for paths
    by (rule keeps_stage) (simp add: formats_def)
qed (auto intro!: keeps_on_tree simp: apply_plan_def formats_def runner_run_def runs_def keeps_ret)


section \<open>What is staged stays staged\<close>

abbreviation staged_paths :: "string list \<Rightarrow> sync_state \<Rightarrow> bool" where
  "staged_paths ps s \<equiv> ps \<in> set (y_staged s)"

interpretation grow: sync_laws x a "staged_paths ps" for x a ps
proof
  show "keeps (staged_paths ps) (runner_run x a argv env must True)" for argv env must
    by (auto simp: keeps_def runner_run_def Let_def ret_def split: option.split)
  show "keeps (staged_paths ps) (runner_run x a (OXFMT # args) env must False)" for args env must
    by (auto simp: keeps_def runner_run_def Let_def ret_def split: option.split)
  show "keeps (staged_paths ps) (stage x a paths)" for paths
    by (rule keeps_stage) simp
qed (auto intro!: keeps_on_tree simp: apply_plan_def)

text \<open>One step of a run that returned, and the rest of it.\<close>

lemma bindP_step: "m s = (Inr v, s1) \<Longrightarrow> bindP m k s = k v s1"
  by (simp add: bindP_def)

lemma bindX_step: "m s = (Inr (Inr v), s1) \<Longrightarrow> bindX m k s = k v s1"
  by (simp add: bindX_def bindP_def)

lemma tools_there: "x_which x ''uv'' \<Longrightarrow> x_which x ''yarn'' \<Longrightarrow> ensure_tools x a argv changed s = (Inr (Inr ()), s)"
  by (simp add: ensure_tools_def ret_def)

lemma build_eq: "x_build x a ph (y_dry_lock s) (y_tree s) = Inr plan \<Longrightarrow> build_it x a ph s = (Inr plan, s)"
  by (simp add: build_it_def)

lemma get_tree_eq: "get_tree s = (Inr (y_tree s), s)" by (simp add: get_tree_def)


section \<open>Refused before anything is written\<close>

lemma worst_ge: "c \<in> set cs \<Longrightarrow> c \<le> worst cs"
  by (simp add: worst_Max)

lemma worst_CLEAN: "worst cs = CLEAN \<longleftrightarrow> (\<forall>c \<in> set cs. c = CLEAN)"
  using worst_ge [of _ cs] by (auto simp: worst_def codes) (induction cs, auto)

lemma invalid_code_ge: "i \<in> set items \<Longrightarrow> INVALID \<le> i_code i \<Longrightarrow> i_code i \<le> invalid_code items"
  unfolding invalid_code_def by (rule worst_ge) auto


section \<open>A clean exit\<close>

lemma bindX_InrD: "bindX m k s = (Inr (Inr b), s') \<Longrightarrow> \<exists>v t. m s = (Inr (Inr v), t) \<and> k v t = (Inr (Inr b), s')"
proof -
  assume "bindX m k s = (Inr (Inr b), s')"
  then obtain v t where m: "m s = (Inr v, t)" and k: "(case v of Inl c \<Rightarrow> ret (Inl c) | Inr u \<Rightarrow> k u) t = (Inr (Inr b), s')"
    unfolding bindX_def bindP_eq_Inr_iff by blast
  from m k show ?thesis by (cases v) (auto simp: ret_eq)
qed

text \<open>When phase B exits clean (and it is no dry run), the plan made afresh of the tree it left has nothing to do: every item is
  clean, but the ones an offline run could not run the command of.\<close>

theorem clean_exit_means_synced:
  assumes "\<not> a_dry_run a" "phase_b x a changed s = (Inr (Inr CLEAN), s')"
  shows "\<exists>plan. x_build x a [''a'', ''b''] (y_dry_lock s') (y_tree s') = Inr plan \<and>
    (\<forall>i \<in> set (p_items plan). i_code i = CLEAN \<or> (a_offline a \<and> commanded i))"
proof -
  obtain plan where "x_build x a [''a'', ''b''] (y_dry_lock s') (y_tree s') = Inr plan" "worst (map i_code (left_over a plan)) = CLEAN"
    using assms unfolding phase_b_def Let_def
    by (auto dest!: bindX_InrD simp: sumres ret_eq build_it_def run split: if_splits)
  then show ?thesis by (auto simp: worst_CLEAN left_over_def plan_problems_def)
qed

section \<open>Runs on a small app\<close>

definition sample_plan :: "item list \<Rightarrow> sync_plan" where
  "sample_plan items =
     \<lparr>p_items = items, p_created = None, p_app = ''a'', p_url = ''u'', p_fn_major = 1, p_fn_owner = ''o'', p_fn_name = ''n'', p_fn_rev = ''r'',
      p_frappe = 16, p_siblings = [], p_modules = [(''js'', JBool True)], p_cfg = JObj [], p_profile = [], p_tracked = [], p_uv_floors = [],
      p_previous = None\<rparr>"

definition sample_args :: sync_args where
  "sample_args =
     \<lparr>a_check = False, a_dry_run = False, a_skip_lock = True, a_offline = True, a_init_listing = False, a_force = False,
      a_frappe_version = None, a_site = None, a_standards = None, a_profile_path = None, a_only = [], a_format = ''text'',
      a_expect_rev = [], a_phase = ''b''\<rparr>"

text \<open>The plan is about one file, \<open>ci.yml\<close>; every command succeeds and changes nothing.\<close>

definition sample_world :: "(tree \<Rightarrow> item list) \<Rightarrow> nat sync_world" where
  "sample_world items =
     \<lparr>x_build = (\<lambda>_ _ _ t. Inr (sample_plan (items t))), x_exec = (\<lambda>_ _ t. Some (0, t)), x_recorded = (\<lambda>_ _ _. []),
      x_add = (\<lambda>_ _. Inr ()), x_env = (\<lambda>_. None), x_which = (\<lambda>_. True), x_branch = (\<lambda>_. Some 0), x_heads = (\<lambda>_. None),
      x_nix_eval = (\<lambda>_. None), x_others = (\<lambda>_. Inr []), x_seed = (\<lambda>_ _. None), x_oxfmt = (\<lambda>_. True), x_resolve = id,
      x_toplevel = Inr (), x_warn = (\<lambda>_ _. Inr ()), x_tools = ''1.0.0'', x_depth = 10, x_txt = (\<lambda>_. []), x_ver = (\<lambda>_. None),
      x_kit = \<lparr>tk_parse = (\<lambda>_. None), tk_dump = (\<lambda>t _. t), tk_key = id, tk_item = (\<lambda>_. [])\<rparr>,
      x_diff = (\<lambda>_ _. []), x_message = (\<lambda>_. []), x_token = ''t''\<rparr>"

definition ci_item :: "tree \<Rightarrow> item list" where
  "ci_item t = [make_item ''ci.yml'' ''whole'' (tree_file t ''ci.yml'') (Some ''on: push'') [] None None]"

definition bad_item :: "tree \<Rightarrow> item list" where
  "bad_item t = [make_item ''ci.yml'' ''whole'' None None ''invalid'' (Some INVALID) None]"

definition empty_state :: sync_state where
  "empty_state = \<lparr>y_tree = \<lparr>w_files = [], w_links = []\<rparr>, y_ran = [], y_staged = [], y_dry_lock = None, y_result = None\<rparr>"

definition synced_state :: sync_state where
  "synced_state =
     \<lparr>y_tree = \<lparr>w_files = [([''ci.yml''], ''on: push'')], w_links = []\<rparr>,
      y_ran = [([OXFMT, ''--no-error-on-unmatched-pattern'', ''ci.yml''], [])], y_staged = [[''ci.yml''], [''ci.yml'']],
      y_dry_lock = None, y_result = None\<rparr>"

lemma sample_run: "sync_run (sample_world ci_item) sample_args empty_state = (Inr (CLEAN, None), synced_state)"
  by code_simp

lemma sample_phase_b: "phase_b (sample_world ci_item) sample_args False empty_state = (Inr (Inr CLEAN), synced_state)"
  by code_simp

lemma sample_dry_run: "sync_run (sample_world ci_item) (sample_args\<lparr>a_dry_run := True\<rparr>) empty_state = (Inr (CLEAN, None), empty_state)"
  by code_simp





theorem clean_exit_means_synced_witness:
  "\<exists>s' plan. phase_b (sample_world ci_item) sample_args False empty_state = (Inr (Inr CLEAN), s') \<and>
     x_build (sample_world ci_item) sample_args [''a'', ''b''] (y_dry_lock s') (y_tree s') = Inr plan \<and>
     (\<forall>i \<in> set (p_items plan). i_code i = CLEAN \<or> commanded i)"
proof -
  have "\<not> a_dry_run sample_args" by (simp add: sample_args_def)
  from clean_exit_means_synced [OF this sample_phase_b] sample_phase_b show ?thesis by blast
qed

end
