(* ===== verification/Pins.thy ===== *)
theory Pins
  imports FlakeLock Nar PyUrl Report
begin

text \<open>
  \<^verbatim>\<open>common/pins.py\<close>: the tree of a locked input on disk, and the token that fetches a private one.  The network, git, tar, the store and
  the address test of \<^verbatim>\<open>ipaddress\<close> are parameters; what is sent is logged, and what lies under \<^verbatim>\<open>.dev-dist/pins\<close> is the state.
\<close>

section \<open>Where the token may go\<close>

record pin_request =
  q_url :: string
  q_auth :: "string option"

text \<open>What a server answers: the content, a redirect with its code and the URL it names (joined to the request's), another status,
  or no answer.\<close>

datatype 'c reply = Content 'c | Moved nat string | Status nat | Broken

record pins_state =
  z_sent :: "pin_request list"
  z_pins :: "(string \<times> fs_node) list"

text \<open>The tree a command makes; \<open>v_loopback\<close> is \<^verbatim>\<open>ipaddress.ip_address(h).is_loopback\<close>, nothing when it is no address.\<close>

record 'c pins_world =
  v_ip_ok :: "string \<Rightarrow> bool"
  v_loopback :: "string \<Rightarrow> bool option"
  v_token :: string
  v_template :: "string option"
  v_format :: "string \<Rightarrow> pin \<Rightarrow> exn + string"
  v_server :: "pin_request \<Rightarrow> 'c reply"
  v_unpack :: "'c \<Rightarrow> exn + fs_node"
  v_clone :: "(string \<times> string) list \<Rightarrow> pin \<Rightarrow> exn + fs_node"
  v_env :: "(string \<times> string) list"
  v_store :: "string \<Rightarrow> fs_node option"
  v_sha256 :: "byte list \<Rightarrow> byte list"
  v_b64encode :: "byte list \<Rightarrow> string"
  v_b64decode :: "string \<Rightarrow> exn + byte list"

definition may_carry_token :: "'c pins_world \<Rightarrow> string \<Rightarrow> exn + bool" where
  "may_carry_token w url =
     bindE (urlsplit (v_ip_ok w) url) (\<lambda>parts.
       Inr (if scheme parts = ''https'' then True
            else case url_hostname parts of
              Some h \<Rightarrow> scheme parts = ''http'' \<and> (h = ''localhost'' \<or> v_loopback w h = Some True)
            | None \<Rightarrow> False))"

definition url_origin :: "'c pins_world \<Rightarrow> string \<Rightarrow> exn + string \<times> string" where
  "url_origin w url = bindE (urlsplit (v_ip_ok w) url) (\<lambda>parts. Inr (lower (scheme parts), lower (netloc parts)))"

section \<open>Fetching\<close>

text \<open>\<^verbatim>\<open>_Redirects.redirect_request\<close> over urllib's own, which copies the headers and writes a space as \<^verbatim>\<open>%20\<close>.\<close>

definition redirect_request :: "'c pins_world \<Rightarrow> pin_request \<Rightarrow> string \<Rightarrow> exn + pin_request" where
  "redirect_request w req newurl =
     bindE (url_origin w (q_url req)) (\<lambda>old.
     bindE (url_origin w newurl) (\<lambda>new.
       if fst old = ''https'' \<and> fst new \<noteq> ''https'' then Inl (EnvError ''it redirects to a URL that is not https'')
       else bindE (if old \<noteq> new then Inr True else bindE (may_carry_token w newurl) (\<lambda>b. Inr (\<not> b))) (\<lambda>drops.
         Inr \<lparr>q_url = replace_all '' '' ''%20'' newurl, q_auth = (if drops then None else q_auth req)\<rparr>)))"

text \<open>urllib's opener: \<open>seen\<close> are the URLs redirected to; a URL is followed four times at most and ten of them in all, so the \<open>n\<close> of
  forty is never used up.  \<open>Inl\<close> is a status.\<close>

fun open_url :: "nat \<Rightarrow> 'c pins_world \<Rightarrow> string list \<Rightarrow> pin_request \<Rightarrow> (pins_state, nat + 'c) prog" where
  "open_url 0 w seen req = raise (EnvError ''too many redirects'')"
| "open_url (Suc n) w seen req =
     (\<lambda>s.
       let s1 = s\<lparr>z_sent := z_sent s @ [req]\<rparr> in
       case v_server w req of
         Content c \<Rightarrow> (Inr (Inr c), s1)
       | Status code \<Rightarrow> (Inr (Inl code), s1)
       | Broken \<Rightarrow> (Inl OSError, s1)
       | Moved code newurl \<Rightarrow>
           (case redirect_request w req newurl of
              Inl e \<Rightarrow> (Inl e, s1)
            | Inr req' \<Rightarrow>
                if count_list seen (q_url req') \<ge> 4 \<or> length (dedup seen) \<ge> 10 then (Inr (Inl code), s1)
                else open_url n w (q_url req' # seen) req' s1))"

definition fetch_pin :: "'c pins_world \<Rightarrow> string \<Rightarrow> (pins_state, 'c) prog" where
  "fetch_pin w url =
     bindP (catch
       (bindP (liftE (if v_token w = [] then Inr False else may_carry_token w url)) (\<lambda>carries.
          open_url 40 w [] \<lparr>q_url = url, q_auth = (if carries then Some (''Bearer '' @ v_token w) else None)\<rparr>))
       (\<lambda>e. raise (case e of OSError \<Rightarrow> EnvError ''cannot fetch'' | ValueError _ \<Rightarrow> EnvError ''cannot fetch'' | _ \<Rightarrow> e))) (\<lambda>r.
     case r of Inl _ \<Rightarrow> raise (EnvError ''cannot fetch: HTTP status'') | Inr c \<Rightarrow> ret c)"

definition pin_url_of :: "'c pins_world \<Rightarrow> pin \<Rightarrow> exn + string" where
  "pin_url_of w p =
     (case v_template w of
        Some t \<Rightarrow> if t = [] then tarball_url p
          else (case v_format w t p of
              Inl KeyError \<Rightarrow> Inl (ConfigError ''not a URL template'')
            | Inl IndexError \<Rightarrow> Inl (ConfigError ''not a URL template'')
            | Inl (ValueError _) \<Rightarrow> Inl (ConfigError ''not a URL template'')
            | r \<Rightarrow> r)
      | None \<Rightarrow> tarball_url p)"

text \<open>\<^verbatim>\<open>int(env.get("GIT_CONFIG_COUNT") or 0)\<close>: a decimal number, or 0 when it is none.\<close>

definition config_count :: "(string \<times> string) list \<Rightarrow> int" where
  "config_count env =
     (let t = strip (case map_of env ''GIT_CONFIG_COUNT'' of Some v \<Rightarrow> v | None \<Rightarrow> []);
          digits = (\<lambda>d. d \<noteq> [] \<and> list_all is_digit d)
      in if digits t then int (int_of_digits t)
         else if startswith t ''+'' \<and> digits (tl t) then int (int_of_digits (tl t))
         else if startswith t ''-'' \<and> digits (tl t) then - int (int_of_digits (tl t))
         else 0)"

definition git_env :: "'c pins_world \<Rightarrow> pin \<Rightarrow> exn + (string \<times> string) list" where
  "git_env w p =
     (let env = AList.update ''GIT_TERMINAL_PROMPT'' ''0'' (v_env w) in
      bindE (if v_token w = [] then Inr False else may_carry_token w (pin_url p)) (\<lambda>carries.
        if \<not> carries then Inr env
        else let n = config_count env in
          Inr (AList.update ''GIT_CONFIG_COUNT'' (show_int (n + 1))
                (AList.update (''GIT_CONFIG_VALUE_'' @ show_int n) (''Authorization: Bearer '' @ v_token w)
                  (AList.update (''GIT_CONFIG_KEY_'' @ show_int n) ''http.extraHeader'' env)))))"

section \<open>The tree of a pin\<close>

definition dir_at :: "fs_node option \<Rightarrow> bool" where
  "dir_at n = (case n of Some (Directory _) \<Rightarrow> True | _ \<Rightarrow> False)"

definition tree_hash :: "'c pins_world \<Rightarrow> fs_node \<Rightarrow> exn + string" where
  "tree_hash w t = nar_hash (v_sha256 w) (v_b64encode w) t"

definition pin_holds :: "'c pins_world \<Rightarrow> fs_node option \<Rightarrow> string \<Rightarrow> exn + bool" where
  "pin_holds w dest wanted =
     (case dest of
        Some (Directory es) \<Rightarrow>
          (case tree_hash w (Directory es) of
             Inr h \<Rightarrow> Inr (h = wanted)
           | Inl OSError \<Rightarrow> Inr False
           | Inl (ValueError _) \<Rightarrow> Inr False
           | Inl e \<Rightarrow> Inl e)
      | _ \<Rightarrow> Inr False)"

text \<open>The tree of a pin as it is made in the temporary directory: a copy of the store's, a clone, or the fetched tarball.\<close>

definition pin_tree :: "'c pins_world \<Rightarrow> pin \<Rightarrow> fs_node option \<Rightarrow> (pins_state, fs_node) prog" where
  "pin_tree w p in_store =
     (case in_store of
        Some (Directory es) \<Rightarrow> ret (Directory es)
      | _ \<Rightarrow>
          if pin_type p = ''git'' then liftE (bindE (git_env w p) (\<lambda>env. v_clone w env p))
          else bindP (liftE (pin_url_of w p)) (\<lambda>url. bindP (fetch_pin w url) (\<lambda>c. liftE (v_unpack w c))))"

definition pin_dir :: "pin \<Rightarrow> string" where
  "pin_dir p = pin_name p @ ''-'' @ pin_rev p"

text \<open>The store path, or the name of the directory under \<^verbatim>\<open>.dev-dist/pins\<close>.\<close>

datatype pin_at = InStore string | InPins string

definition pin_path :: "'c pins_world \<Rightarrow> string \<Rightarrow> bool \<Rightarrow> pin \<Rightarrow> (pins_state, pin_at) prog" where
  "pin_path w store_dir writable p =
     bindP (liftE (store_path (v_sha256 w) (v_b64decode w) (pin_nar_hash p) ''source'' store_dir)) (\<lambda>path.
     if dir_at (v_store w path) \<and> \<not> writable then ret (InStore path)
     else if CHR ''/'' \<in> set (pin_dir p) \<or> startswith (pin_name p) ''.'' then raise (ConfigError ''not a directory name'')
     else bindP get_state (\<lambda>s.
       bindP (liftE (pin_holds w (map_of (z_pins s) (pin_dir p)) (pin_nar_hash p))) (\<lambda>held.
       if held then ret (InPins (pin_dir p))
       else
         bindP (pin_tree w p (v_store w path)) (\<lambda>tree.
         bindP (liftE (tree_hash w tree)) (\<lambda>got.
           if got \<noteq> pin_nar_hash p then raise (EnvError ''does not match flake.lock'')
           else (\<lambda>s. (Inr (InPins (pin_dir p)), s\<lparr>z_pins := AList.update (pin_dir p) tree (z_pins s)\<rparr>)))))))"

section \<open>The token\<close>

text \<open>A request without the token, or to a URL of the first one's origin that may carry it.\<close>

definition safe_request :: "'c pins_world \<Rightarrow> string \<Rightarrow> pin_request \<Rightarrow> bool" where
  "safe_request w url q \<longleftrightarrow>
     q_auth q = None \<or> (may_carry_token w (q_url q) = Inr True \<and> url_origin w (q_url q) = url_origin w url)"

text \<open>A server's redirects are URLs: no space in them.\<close>

definition plain_redirects :: "'c pins_world \<Rightarrow> bool" where
  "plain_redirects w \<longleftrightarrow> (\<forall>q code u. v_server w q = Moved code u \<longrightarrow> CHR '' '' \<notin> set u)"

lemma replace_none: "c \<notin> set s \<Longrightarrow> replace_all [c] new s = s"
  by (induction s) (auto simp: replace_char)

lemma redirect_safe:
  assumes "redirect_request w req u = Inr req'" "safe_request w url req" "CHR '' '' \<notin> set u"
  shows "safe_request w url req'"
  using assms
  by (auto simp: redirect_request_def safe_request_def bindE_eq_Inr_iff replace_none split: if_splits)

lemma open_url_safe:
  assumes "plain_redirects w"
  shows "open_url n w seen req s = (r, s') \<Longrightarrow> safe_request w url req \<Longrightarrow>
    list_all (safe_request w url) (z_sent s) \<Longrightarrow> list_all (safe_request w url) (z_sent s')"
proof (induction n arbitrary: seen req s)
  case 0
  then show ?case by (simp add: run)
next
  case (Suc n)
  define s1 where "s1 = s\<lparr>z_sent := z_sent s @ [req]\<rparr>"
  have s1: "list_all (safe_request w url) (z_sent s1)" using Suc.prems(2,3) by (simp add: s1_def)
  show ?case
  proof (cases "v_server w req")
    case (Moved code u)
    show ?thesis
    proof (cases "redirect_request w req u")
      case (Inl e)
      with Suc.prems(1) Moved s1 show ?thesis by (simp add: Let_def s1_def)
    next
      case (Inr req')
      have "safe_request w url req'"
        using redirect_safe [OF Inr Suc.prems(2)] assms Moved by (simp add: plain_redirects_def)
      with Suc.prems(1) Moved Inr s1 Suc.IH [of "q_url req' # seen" req' s1] show ?thesis
        by (auto simp: Let_def s1_def split: if_splits)
    qed
  qed (use Suc.prems(1) s1 in \<open>simp_all add: Let_def s1_def\<close>)
qed


section \<open>The tree that is answered\<close>

lemma open_url_pins: "keeps (\<lambda>s. z_pins s = ps) (open_url n w seen req)"
proof (induction n arbitrary: seen req)
  case (Suc n)
  from Suc.IH show ?case
    by (fastforce simp: keeps_def Let_def split: reply.splits sum.splits)
qed (simp add: keeps_raise)

lemma fetch_pin_pins: "keeps (\<lambda>s. z_pins s = ps) (fetch_pin w url)"
proof -
  have "keeps (\<lambda>s. z_pins s = ps) (case r of Inl c \<Rightarrow> raise e | Inr c \<Rightarrow> ret c)" for r :: "nat + 'a" and e
    by (cases r) (simp_all add: keeps_rules)
  then show ?thesis unfolding fetch_pin_def by (intro keeps_rules open_url_pins)
qed

lemma pin_tree_pins: "keeps (\<lambda>s. z_pins s = ps) (pin_tree w p n)"
  unfolding pin_tree_def
  by (cases n; (cases "the n")?) (auto intro!: keeps_rules fetch_pin_pins split: fs_node.split)

lemma pin_holds_tree: "pin_holds w dest wanted = Inr True \<Longrightarrow> \<exists>tree. dest = Some tree \<and> tree_hash w tree = Inr wanted"
  by (auto simp: pin_holds_def split: option.splits fs_node.splits sum.splits exn.splits)

text \<open>C36. What \<^verbatim>\<open>pin_path\<close> answers holds the locked tree: a directory of the store under the path its hash implies, never one the caller
  may write to, or a directory of \<^verbatim>\<open>.dev-dist/pins\<close> whose tree has the locked hash, whatever lay there before; and an error leaves
  what lay there.\<close>

theorem pin_path_is_the_locked_tree:
  "case pin_path w store_dir writable p s of
     (Inr (InStore path), s') \<Rightarrow>
       \<not> writable \<and> dir_at (v_store w path) \<and> z_pins s' = z_pins s \<and>
       store_path (v_sha256 w) (v_b64decode w) (pin_nar_hash p) ''source'' store_dir = Inr path
   | (Inr (InPins name), s') \<Rightarrow>
       (\<exists>tree. map_of (z_pins s') name = Some tree \<and> tree_hash w tree = Inr (pin_nar_hash p)) \<and> CHR ''/'' \<notin> set name
   | (Inl e, s') \<Rightarrow> z_pins s' = z_pins s"
proof (cases "store_path (v_sha256 w) (v_b64decode w) (pin_nar_hash p) ''source'' store_dir")
  case (Inl e)
  then show ?thesis by (simp add: pin_path_def run)
next
  case (Inr path)
  define held where "held = pin_holds w (map_of (z_pins s) (pin_dir p)) (pin_nar_hash p)"
  show ?thesis
  proof (cases "dir_at (v_store w path) \<and> \<not> writable")
    case True
    with Inr show ?thesis by (simp add: pin_path_def run)
  next
    case here: False
    show ?thesis
    proof (cases "CHR ''/'' \<in> set (pin_dir p) \<or> startswith (pin_name p) ''.''")
      case True
      with Inr here show ?thesis by (simp add: pin_path_def run)
    next
      case False
      obtain rt st where tree: "pin_tree w p (v_store w path) s = (rt, st)" by fastforce
      from keepsD [OF pin_tree_pins tree] have st: "z_pins st = z_pins s" by simp
      show ?thesis
      proof (cases "held = Inr True")
        case True
        with Inr here False pin_holds_tree show ?thesis
          by (auto simp: pin_path_def bindP_def get_state_def run held_def)
      next
        case held: False
        have "pin_path w store_dir writable p s =
            (case held of Inl e \<Rightarrow> (Inl e, s) | Inr _ \<Rightarrow>
               (case rt of Inl e \<Rightarrow> (Inl e, st) | Inr t \<Rightarrow>
                 (case tree_hash w t of Inl e \<Rightarrow> (Inl e, st) | Inr got \<Rightarrow>
                   if got \<noteq> pin_nar_hash p then (Inl (EnvError ''does not match flake.lock''), st)
                   else (Inr (InPins (pin_dir p)), st\<lparr>z_pins := AList.update (pin_dir p) t (z_pins st)\<rparr>))))"
          using Inr here False held tree
          by (auto simp: pin_path_def bindP_def get_state_def run held_def [symmetric] split: sum.split)
        with False st show ?thesis by (auto simp: update_conv split: sum.splits)
      qed
    qed
  qed
qed

section \<open>A fetch that is redirected\<close>

definition sample_server :: "pin_request \<Rightarrow> string reply" where
  "sample_server q =
     (if q_url q = ''https://a/x'' then Moved 302 ''https://a/y''
      else if q_url q = ''https://a/y'' then Moved 302 ''https://b/z''
      else Content ''tarball'')"

definition sample_pins :: "string pins_world" where
  "sample_pins =
     \<lparr>v_ip_ok = (\<lambda>_. True), v_loopback = (\<lambda>_. None), v_token = ''t'', v_template = None, v_format = (\<lambda>_ _. Inr []), v_server = sample_server,
      v_unpack = (\<lambda>_. Inr (Directory [])), v_clone = (\<lambda>_ _. Inr (Directory [])), v_env = [], v_store = (\<lambda>_. None),
      v_sha256 = id, v_b64encode = (\<lambda>_. []), v_b64decode = (\<lambda>_. Inr [])\<rparr>"

text \<open>The token goes to \<^verbatim>\<open>https://a\<close> twice and not to \<^verbatim>\<open>https://b\<close>.\<close>

lemma sample_fetch:
  "fetch_pin sample_pins ''https://a/x'' \<lparr>z_sent = [], z_pins = []\<rparr> =
     (Inr ''tarball'', \<lparr>z_sent = [\<lparr>q_url = ''https://a/x'', q_auth = Some ''Bearer t''\<rparr>, \<lparr>q_url = ''https://a/y'', q_auth = Some ''Bearer t''\<rparr>,
        \<lparr>q_url = ''https://b/z'', q_auth = None\<rparr>], z_pins = []\<rparr>)"
  by code_simp


end
