(* ===== verification/Policy.thy ===== *)
theory Policy
  imports PyJsonText Wildcards Pyproject Config
begin

text \<open>
  \<^verbatim>\<open>commands/policy.py\<close>: the rules of a commit message or a pull request's title, and the check of a pull request.  git, gh and
  \<^verbatim>\<open>committed\<close> are parameters; a file handed to a program is its text.
\<close>

section \<open>The major rules of a message\<close>

datatype policy_problem =
    Bang string
  | BreakingFooter
  | ReleaseMajor nat
  | NotCommitted string
  | WrongBase string
  | StaleDispatch
  | EmptyLookup
  | NoBase string
  | CompatViolation string

text \<open>\<^verbatim>\<open>^[a-z]+(\([^)]*\))?!:\<close>.\<close>

definition bang :: "string \<Rightarrow> bool" where
  "bang subject \<longleftrightarrow>
     (let kind = takeWhile is_lower subject; r = drop (length kind) subject;
          scope = takeWhile (\<lambda>c. c \<noteq> CHR '')'') (tl r); after = drop (length scope) (tl r)
      in kind \<noteq> [] \<and> (startswith r ''!:'' \<or> startswith r ''('' \<and> startswith after '')!:''))"

definition breaking :: "string \<Rightarrow> bool" where
  "breaking line \<longleftrightarrow> startswith line ''BREAKING CHANGE:'' \<or> startswith line ''BREAKING-CHANGE:''"

text \<open>\<^verbatim>\<open>^Release-As:\s*v?(\d+)\.\d+\.\d+\S*\s*$\<close> at the start of a line: the major and what follows the version.  The white space may
  run over line ends, and must reach one or the end of the text.\<close>

definition release_as :: "string \<Rightarrow> (nat \<times> string) option" where
  "release_as s =
     (let p = ''release-as:'';
          a = lstrip (drop (length p) s);
          b = (if a \<noteq> [] \<and> lower_char (hd a) = CHR ''v'' then tl a else a);
          d1 = takeWhile is_digit b; r1 = drop (length d1) b;
          d2 = takeWhile is_digit (tl r1); r2 = drop (length d2) (tl r1);
          d3 = takeWhile is_digit (tl r2);
          rest = dropWhile (\<lambda>c. \<not> is_ws c) (tl r2)
      in if lower (take (length p) s) = p \<and> d1 \<noteq> [] \<and> startswith r1 ''.'' \<and> d2 \<noteq> [] \<and> startswith r2 ''.'' \<and> d3 \<noteq> [] \<and>
            (newline \<in> set (takeWhile is_ws rest) \<or> list_all is_ws rest)
         then Some (int_of_digits d1, rest) else None)"

function releases_from :: "bool \<Rightarrow> string \<Rightarrow> nat list" where
  "releases_from start [] = []"
| "releases_from start (c # s) =
     (case (if start then release_as (c # s) else None) of
        Some (m, rest) \<Rightarrow> m # releases_from False (drop (max 1 (length (c # s) - length rest)) (c # s))
      | None \<Rightarrow> releases_from (c = newline) s)"
  by pat_completeness auto
termination by (relation "measure (\<lambda>(b, s). length s)") auto

definition message_lines :: "string \<Rightarrow> string list" where
  "message_lines text = filter (\<lambda>l. \<not> startswith l ''#'') (splitlines text)"

definition subject_of :: "string \<Rightarrow> string" where
  "subject_of text = (case find (\<lambda>l. strip l \<noteq> []) (message_lines text) of Some l \<Rightarrow> l | None \<Rightarrow> [])"

definition message_problems :: "string \<Rightarrow> int option \<Rightarrow> bool \<Rightarrow> policy_problem list" where
  "message_problems text major no_bang =
     (if major = None \<and> \<not> no_bang then []
      else (if bang (subject_of text) then [Bang (subject_of text)] else []) @
        (if list_ex breaking (message_lines text) then [BreakingFooter] else []) @
        (case major of
           None \<Rightarrow> []
         | Some m \<Rightarrow> map ReleaseMajor (filter (\<lambda>r. int r \<noteq> m) (releases_from True (join [newline] (message_lines text))))))"

section \<open>The rules of a repository\<close>

record policy_rules =
  ru_major :: "int option"
  ru_no_bang :: bool
  ru_integration :: string
  ru_stacked :: bool
  ru_bases :: "string list"
  ru_compat :: bool

definition the_text :: "json \<Rightarrow> exn + string" where
  "the_text v = (case v of JStr s \<Rightarrow> Inr s | _ \<Rightarrow> Inl TypeError)"

definition frappe_scheme :: "json \<Rightarrow> (string \<Rightarrow> bool) \<Rightarrow> exn + int option" where
  "frappe_scheme cfg on =
     (if \<not> on ''releases'' then Inr None
      else bindE (ditem cfg ''releases'') (\<lambda>r. bindE (ditem r ''version-scheme'') (\<lambda>scheme.
        if scheme \<noteq> JStr ''frappe-major'' then Inr None
        else bindE (ditem cfg ''frappe-major'') (\<lambda>m. case m of JInt i \<Rightarrow> Inr (Some i) | _ \<Rightarrow> Inl TypeError))))"

text \<open>\<open>resolved\<close> is \<^verbatim>\<open>config.resolve\<close>'s answer: the configuration, and which modules are on.\<close>

definition rules_for :: "exn + json \<times> (string \<Rightarrow> bool) \<Rightarrow> bool \<Rightarrow> string \<Rightarrow> exn + policy_rules" where
  "rules_for resolved major_free base_branch =
     (if major_free
      then Inr \<lparr>ru_major = None, ru_no_bang = True, ru_integration = base_branch, ru_stacked = True, ru_bases = [], ru_compat = False\<rparr>
      else bindE resolved (\<lambda>(cfg, on).
        bindE (frappe_scheme cfg on) (\<lambda>major.
        bindE (dget cfg ''commits'' (JObj [])) (\<lambda>commits.
        bindE (bindE (ditem cfg ''integration-branch'') the_text) (\<lambda>integration.
        bindE (dget commits ''allow-stacked'' (JBool True)) (\<lambda>stacked.
        bindE (bindE (bindE (dget commits ''pr-allowed-bases'' (JArr [])) iter) (mapE the_text)) (\<lambda>bases.
          Inr \<lparr>ru_major = major, ru_no_bang = False, ru_integration = integration, ru_stacked = truthy stacked, ru_bases = bases,
               ru_compat = True\<rparr>)))))))"

section \<open>committed\<close>

text \<open>\<^verbatim>\<open>^subject_length\s*=.*$\<close>: what follows the setting at the start of a line.\<close>

definition length_setting :: "string \<Rightarrow> string option" where
  "length_setting s =
     (let p = ''subject_length''; r = lstrip (drop (length p) s)
      in if startswith s p \<and> startswith r ''='' then Some (dropWhile (\<lambda>c. c \<noteq> newline) r) else None)"

function off_from :: "bool \<Rightarrow> string \<Rightarrow> bool \<times> string" where
  "off_from start [] = (False, [])"
| "off_from start (c # s) =
     (case (if start then length_setting (c # s) else None) of
        Some rest \<Rightarrow> (True, ''subject_length = 0'' @ snd (off_from False (drop (max 1 (length (c # s) - length rest)) (c # s))))
      | None \<Rightarrow> (case off_from (c = newline) s of (hit, t) \<Rightarrow> (hit, c # t)))"
  by pat_completeness auto
termination by (relation "measure (\<lambda>(b, s). length s)") auto

definition any_subject_length :: "string \<Rightarrow> string" where
  "any_subject_length dumped =
     (case off_from True dumped of
        (True, t) \<Rightarrow> t
      | (False, _) \<Rightarrow> ''subject_length = 0'' @ [newline] @ dumped)"

text \<open>The world: \<^verbatim>\<open>committed\<close> with the text of its configuration file, if one is given, and its arguments (exit status, output);
  git; gh (exit status and output, nothing when it is not on PATH); and the violations \<^verbatim>\<open>frappe-nix compat\<close> finds with a head branch.\<close>

record policy_world =
  w_committed :: "string option \<Rightarrow> string list \<Rightarrow> exn + int \<times> string"
  w_git :: "string list \<Rightarrow> exn + string"
  w_gh :: "string list \<Rightarrow> (int \<times> string) option"
  w_compat :: "string \<Rightarrow> exn + string list"
  w_environ :: "string \<Rightarrow> string option"

definition run_committed :: "policy_world \<Rightarrow> string list \<Rightarrow> bool \<Rightarrow> exn + bool \<times> string" where
  "run_committed w args long_subject =
     (if \<not> long_subject then bindE (w_committed w None args) (\<lambda>(code, out). Inr (code = 0, strip out))
      else bindE (w_committed w None [''--dump-config'', ''-'']) (\<lambda>(code, out).
        if code \<noteq> 0 then Inl (EnvError ''committed --dump-config'')
        else bindE (w_committed w (Some (any_subject_length out)) args) (\<lambda>(code, out). Inr (code = 0, strip out))))"

definition gh_json :: "policy_world \<Rightarrow> string list \<Rightarrow> exn + json list" where
  "gh_json w args =
     (case w_gh w args of
        None \<Rightarrow> Inl (EnvError ''gh is not on PATH'')
      | Some (code, out) \<Rightarrow>
          if code \<noteq> 0 then Inl (EnvError ''gh'')
          else (case loads (if out = [] then ''[]'' else out) of
                  None \<Rightarrow> Inl (ValueError ''not JSON'')
                | Some (JArr xs) \<Rightarrow> Inr xs
                | Some _ \<Rightarrow> Inr []))"

definition open_pr_heads :: "policy_world \<Rightarrow> exn + json list" where
  "open_pr_heads w =
     bindE (gh_json w [''pr'', ''list'', ''--state'', ''open'', ''--limit'', ''500'', ''--json'', ''headRefName'']) (\<lambda>prs.
       mapE (\<lambda>pr. bindE (dget pr ''headRefName'' (JStr [])) (\<lambda>h. if is_dict h \<or> is_list h then Inl TypeError else Inr h)) prs)"

section \<open>The checks of a pull request\<close>

definition base_problem :: "policy_world \<Rightarrow> string \<Rightarrow> policy_rules \<Rightarrow> exn + policy_problem option" where
  "base_problem w base rules =
     (if base = ru_integration rules \<or> list_ex (fnmatchcase base) (ru_bases rules) then Inr None
      else bindE (if ru_stacked rules then open_pr_heads w else Inr []) (\<lambda>heads.
        Inr (if JStr base \<in> set heads then None else Some (WrongBase base))))"

definition rev_parse :: "policy_world \<Rightarrow> string \<Rightarrow> exn + string" where
  "rev_parse w ref = w_git w [''rev-parse'', ''--verify'', ''--quiet'', ref @ ''^{commit}'']"

definition base_ref :: "policy_world \<Rightarrow> string \<Rightarrow> exn + string" where
  "base_ref w base =
     (case rev_parse w (''origin/'' @ base) of
        Inr _ \<Rightarrow> Inr (''origin/'' @ base)
      | Inl e \<Rightarrow>
          if \<not> is_env_error e then Inl e
          else case rev_parse w base of
            Inr _ \<Rightarrow> Inr base
          | Inl e \<Rightarrow> if is_env_error e then Inl (EnvError ''the base branch is not fetched'') else Inl e)"

definition DEPENDABOT_EMAIL :: string where
  "DEPENDABOT_EMAIL = ''49699333+dependabot[bot]@users.noreply.github.com''"

definition is_dependabot :: "string \<Rightarrow> bool" where
  "is_dependabot login \<longleftrightarrow> login \<in> {''dependabot[bot]'', ''app/dependabot''}"

definition one_commit :: "policy_world \<Rightarrow> policy_rules \<Rightarrow> bool \<Rightarrow> string \<Rightarrow> exn + policy_problem list" where
  "one_commit w rules dependabot sha =
     bindE (if dependabot
            then bindE (w_git w [''log'', ''-1'', ''--format=%ae'', sha]) (\<lambda>out. Inr (strip out = DEPENDABOT_EMAIL))
            else Inr False) (\<lambda>long_subject.
     bindE (run_committed w [sha] long_subject) (\<lambda>(ok, msg).
     bindE (w_git w [''log'', ''-1'', ''--format=%B'', sha]) (\<lambda>text.
       Inr ((if ok then [] else [NotCommitted msg]) @ message_problems text (ru_major rules) (ru_no_bang rules)))))"

definition branch_commits :: "policy_world \<Rightarrow> string \<Rightarrow> string \<Rightarrow> exn + string list" where
  "branch_commits w ref head =
     bindE (w_git w [''rev-list'', ''--no-merges'', head, ''^'' @ ref]) (\<lambda>out. Inr (split_ws out))"

definition commit_problems :: "policy_world \<Rightarrow> string \<Rightarrow> string \<Rightarrow> policy_rules \<Rightarrow> bool \<Rightarrow> exn + policy_problem list" where
  "commit_problems w base head rules dependabot =
     (case base_ref w base of
        Inl e \<Rightarrow> if is_env_error e then Inr [NoBase base] else Inl e
      | Inr ref \<Rightarrow>
          bindE (branch_commits w ref head) (\<lambda>shas.
          bindE (mapE (one_commit w rules dependabot) shas) (\<lambda>ps. Inr (concat ps))))"

definition title_problems :: "policy_world \<Rightarrow> string \<Rightarrow> policy_rules \<Rightarrow> bool \<Rightarrow> exn + policy_problem list" where
  "title_problems w title rules dependabot =
     bindE (run_committed w [''--commit-file'', title @ [newline]] dependabot) (\<lambda>(ok, msg).
       Inr ((if ok then [] else [NotCommitted msg]) @ message_problems title (ru_major rules) (ru_no_bang rules)))"

text \<open>What the pull request is: from the environment, or looked up on a dispatch.\<close>

record pull =
  pu_title :: string
  pu_base :: string
  pu_head_ref :: string
  pu_author :: string

definition env_text :: "policy_world \<Rightarrow> string \<Rightarrow> string" where
  "env_text w key = (case w_environ w key of Some v \<Rightarrow> v | None \<Rightarrow> [])"

definition or_empty :: "json \<Rightarrow> exn + string" where
  "or_empty v = (if truthy v then the_text v else Inr [])"

datatype looked_up = NoPull | Refused policy_problem | Found pull

definition lookup_pull :: "policy_world \<Rightarrow> string \<Rightarrow> exn + looked_up" where
  "lookup_pull w head_sha =
     (let ref = env_text w ''REF_NAME'' in
      bindE (gh_json w [''pr'', ''list'', ''--head'', ref, ''--state'', ''open'', ''--json'', ''number,title,baseRefName,headRefOid,author'']) (\<lambda>prs.
      case prs of
        [] \<Rightarrow> Inr NoPull
      | pr # _ \<Rightarrow>
          bindE (dget pr ''headRefOid'' JNull) (\<lambda>oid.
          if oid \<noteq> JStr head_sha then Inr (Refused StaleDispatch)
          else
            bindE (bindE (dget pr ''title'' JNull) or_empty) (\<lambda>title.
            bindE (bindE (dget pr ''baseRefName'' JNull) or_empty) (\<lambda>base.
            bindE (dget pr ''author'' JNull) (\<lambda>author.
            bindE (bindE (dget (jor author (JObj [])) ''login'' JNull) or_empty) (\<lambda>login.
              Inr (if title = [] \<or> base = [] then Refused EmptyLookup
                   else Found \<lparr>pu_title = title, pu_base = base, pu_head_ref = ref, pu_author = login\<rparr>))))))))"

definition env_pull :: "policy_world \<Rightarrow> pull" where
  "env_pull w =
     \<lparr>pu_title = env_text w ''PR_TITLE'', pu_base = env_text w ''BASE_REF'',
      pu_head_ref = (if env_text w ''HEAD_REF'' \<noteq> [] then env_text w ''HEAD_REF'' else env_text w ''GITHUB_HEAD_REF''),
      pu_author = env_text w ''PR_AUTHOR''\<rparr>"

definition check_pull :: "policy_world \<Rightarrow> policy_rules \<Rightarrow> string \<Rightarrow> pull \<Rightarrow> exn + policy_problem list" where
  "check_pull w rules head_sha p =
     (if pu_base p = [] then Inl (ConfigError ''BASE_REF is empty'')
      else if head_sha = [] then Inl (ConfigError ''HEAD_SHA is empty'')
      else
        bindE (base_problem w (pu_base p) rules) (\<lambda>b.
        bindE (title_problems w (pu_title p) rules (is_dependabot (pu_author p))) (\<lambda>ts.
        bindE (commit_problems w (pu_base p) head_sha rules (is_dependabot (pu_author p))) (\<lambda>cs.
        bindE (if ru_compat rules \<and> startswith (pu_head_ref p) ''release-please--''
               then bindE (w_compat w (pu_head_ref p)) (\<lambda>vs. Inr (map CompatViolation vs)) else Inr []) (\<lambda>vs.
          Inr ((case b of Some x \<Rightarrow> [x] | None \<Rightarrow> []) @ ts @ cs @ vs))))))"

definition check_pr :: "policy_world \<Rightarrow> policy_rules \<Rightarrow> exn + policy_problem list" where
  "check_pr w rules =
     (let head_sha = env_text w ''HEAD_SHA'' in
      if env_text w ''EVENT_NAME'' = ''workflow_dispatch''
      then bindE (lookup_pull w head_sha) (\<lambda>r.
        case r of NoPull \<Rightarrow> Inr [] | Refused x \<Rightarrow> Inr [x] | Found p \<Rightarrow> check_pull w rules head_sha p)
      else check_pull w rules head_sha (env_pull w))"

section \<open>The command\<close>

text \<open>\<open>message\<close> is the text of \<^verbatim>\<open>--commit-msg-file\<close>; \<open>opted_out\<close> whether \<^verbatim>\<open>config.resolve\<close> raised \<^verbatim>\<open>NotOptedIn\<close>.\<close>

definition policy_run ::
  "policy_world \<Rightarrow> exn + json \<times> (string \<Rightarrow> bool) \<Rightarrow> bool \<Rightarrow> bool \<Rightarrow> string \<Rightarrow> string option \<Rightarrow> bool \<Rightarrow> exn + nat \<times> policy_problem list" where
  "policy_run w resolved opted_out major_free base_branch message pr =
     (let done = (\<lambda>found. Inr (if found = [] then 0 else 1, found)) in
      case message of
        Some text \<Rightarrow>
          if opted_out \<and> \<not> major_free then Inr (0, [])
          else bindE (rules_for resolved major_free base_branch) (\<lambda>rules.
                 done (message_problems text (ru_major rules) (ru_no_bang rules)))
      | None \<Rightarrow>
          if pr then bindE (rules_for resolved major_free base_branch) (\<lambda>rules. bindE (check_pr w rules) done)
          else Inl (ConfigError ''give --commit-msg-file F or --pr''))"

section \<open>What passes was checked\<close>

definition base_allowed :: "policy_world \<Rightarrow> policy_rules \<Rightarrow> string \<Rightarrow> bool" where
  "base_allowed w rules base \<longleftrightarrow>
     base = ru_integration rules \<or> list_ex (fnmatchcase base) (ru_bases rules) \<or>
     (ru_stacked rules \<and> (\<exists>heads. open_pr_heads w = Inr heads \<and> JStr base \<in> set heads))"

text \<open>A message keeps the rules: with a major, no \<^verbatim>\<open>!\<close>, no breaking footer and no release of another major.\<close>

definition message_ok :: "policy_rules \<Rightarrow> string \<Rightarrow> bool" where
  "message_ok rules text \<longleftrightarrow>
     (ru_major rules = None \<and> \<not> ru_no_bang rules) \<or>
     (\<not> bang (subject_of text) \<and> \<not> list_ex breaking (message_lines text) \<and>
      (\<forall>m. ru_major rules = Some m \<longrightarrow>
        (\<forall>r \<in> set (releases_from True (join [newline] (message_lines text))). int r = m)))"

lemma message_problems_Nil: "message_problems text (ru_major rules) (ru_no_bang rules) = [] \<longleftrightarrow> message_ok rules text"
  by (auto simp: message_problems_def message_ok_def filter_empty_conv split: option.split)

text \<open>A commit passed \<^verbatim>\<open>committed\<close>, with a subject of any length only where its author is Dependabot, and its message keeps the rules.\<close>

definition commit_ok :: "policy_world \<Rightarrow> policy_rules \<Rightarrow> bool \<Rightarrow> string \<Rightarrow> bool" where
  "commit_ok w rules dependabot sha \<longleftrightarrow>
     (\<exists>long msg text. run_committed w [sha] long = Inr (True, msg) \<and>
        (long \<longrightarrow> dependabot \<and> (\<exists>out. w_git w [''log'', ''-1'', ''--format=%ae'', sha] = Inr out \<and> strip out = DEPENDABOT_EMAIL)) \<and>
        w_git w [''log'', ''-1'', ''--format=%B'', sha] = Inr text \<and> message_ok rules text)"

definition pull_ok :: "policy_world \<Rightarrow> policy_rules \<Rightarrow> string \<Rightarrow> pull \<Rightarrow> bool" where
  "pull_ok w rules head_sha p \<longleftrightarrow>
     (let dependabot = is_dependabot (pu_author p) in
      base_allowed w rules (pu_base p) \<and> message_ok rules (pu_title p) \<and>
      (\<exists>msg. run_committed w [''--commit-file'', pu_title p @ [newline]] dependabot = Inr (True, msg)) \<and>
      (\<exists>ref shas. base_ref w (pu_base p) = Inr ref \<and> branch_commits w ref head_sha = Inr shas \<and>
         list_all (commit_ok w rules dependabot) shas) \<and>
      (if ru_compat rules \<and> startswith (pu_head_ref p) ''release-please--'' then w_compat w (pu_head_ref p) = Inr [] else True))"

lemma one_commit_Nil: "one_commit w rules dependabot sha = Inr [] \<Longrightarrow> commit_ok w rules dependabot sha"
  unfolding one_commit_def commit_ok_def bindE_eq_Inr_iff
  by (fastforce simp: message_problems_Nil bindE_eq_Inr_iff split: if_splits)

lemma concat_mapE_Nil: "mapE f xs = Inr ys \<Longrightarrow> \<forall>y \<in> set ys. y = [] \<Longrightarrow> x \<in> set xs \<Longrightarrow> f x = Inr []"
  by (induction xs arbitrary: ys) (auto simp: bindE_eq_Inr_iff)

lemma commit_problems_Nil:
  assumes "commit_problems w base head_sha rules dependabot = Inr []"
  shows "\<exists>ref shas. base_ref w base = Inr ref \<and> branch_commits w ref head_sha = Inr shas \<and> list_all (commit_ok w rules dependabot) shas"
  using assms
  by (auto simp: commit_problems_def bindE_eq_Inr_iff list_all_iff split: sum.splits if_splits
      intro!: one_commit_Nil dest: concat_mapE_Nil)

lemma base_problem_None: "base_problem w base rules = Inr None \<Longrightarrow> base_allowed w rules base"
  by (auto simp: base_problem_def base_allowed_def bindE_eq_Inr_iff split: if_splits)

lemma check_pull_Nil:
  assumes "check_pull w rules head_sha p = Inr []"
  shows "pull_ok w rules head_sha p"
proof -
  define compat where "compat = (if ru_compat rules \<and> startswith (pu_head_ref p) ''release-please--''
        then bindE (w_compat w (pu_head_ref p)) (\<lambda>vs. Inr (map CompatViolation vs)) else Inr [])"
  obtain b ts cs vs where parts: "base_problem w (pu_base p) rules = Inr b"
      "title_problems w (pu_title p) rules (is_dependabot (pu_author p)) = Inr ts"
      "commit_problems w (pu_base p) head_sha rules (is_dependabot (pu_author p)) = Inr cs" "compat = Inr vs"
    and empty: "(case b of Some x \<Rightarrow> [x] | None \<Rightarrow> []) @ ts @ cs @ vs = []"
    using assms unfolding check_pull_def compat_def [symmetric] by (auto simp: bindE_eq_Inr_iff split: if_splits)
  from empty have none: "b = None" "ts = []" "cs = []" "vs = []" by (auto split: option.splits)
  have title: "message_ok rules (pu_title p)"
    "\<exists>msg. run_committed w [''--commit-file'', pu_title p @ [newline]] (is_dependabot (pu_author p)) = Inr (True, msg)"
    using parts(2) none(2) by (auto simp: title_problems_def bindE_eq_Inr_iff message_problems_Nil split: if_splits)
  show ?thesis
    unfolding pull_ok_def Let_def
    using title parts(4) none base_problem_None [OF parts(1) [unfolded none]] commit_problems_Nil [OF parts(3) [unfolded none]]
    by (auto simp: compat_def bindE_eq_Inr_iff split: if_splits)
qed


section \<open>A pull request\<close>

definition sample_policy :: policy_world where
  "sample_policy =
     \<lparr>w_committed = (\<lambda>_ _. Inr (0, [])),
      w_git = (\<lambda>args. if hd args = ''rev-list'' then Inr ''c1'' else if args = [''log'', ''-1'', ''--format=%B'', ''c1'']
         then Inr (''feat: a'' @ [newline, newline] @ ''Release-As: 16.1.0'') else Inr []),
      w_gh = (\<lambda>_. None), w_compat = (\<lambda>_. Inr []),
      w_environ = map_of [(''HEAD_SHA'', ''c1''), (''PR_TITLE'', ''feat: a''), (''BASE_REF'', ''develop''), (''PR_AUTHOR'', ''me'')]\<rparr>"

definition frappe_rules :: "int \<Rightarrow> policy_rules" where
  "frappe_rules m =
     \<lparr>ru_major = Some m, ru_no_bang = False, ru_integration = ''develop'', ru_stacked = False, ru_bases = [], ru_compat = True\<rparr>"

lemma sample_passes_policy: "check_pr sample_policy (frappe_rules 16) = Inr []"
  by code_simp

text \<open>Under another major the same commit is refused.\<close>

lemma sample_refused_policy: "check_pr sample_policy (frappe_rules 15) = Inr [ReleaseMajor 16]"
  by code_simp


end
