(* ===== verification/History.thy ===== *)
theory History
  imports FlakeText
begin

text \<open>
  \<^verbatim>\<open>scaffold/engine.py\<close>: resolving an app's table, and what the app has committed before.  git is a record of answers, one per question; a
  state's configuration is resolved by \<open>resolve_doc\<close> of the theory \<open>Config\<close>.
\<close>

section \<open>git's answers\<close>

text \<open>\<open>hw_show\<close> is \<^verbatim>\<open>git show <sha>:./<path>\<close>, \<open>hw_tree\<close> \<^verbatim>\<open>git ls-tree <sha> -- <path>\<close>, \<open>hw_marks\<close> the same for the marks of GitHub,
  \<open>hw_log\<close> the commits that changed one of some paths, newest first, and \<open>hw_pin\<close> the tree of a locked input on disk.\<close>

record history_world =
  hw_env :: config_env
  hw_log :: "string list \<Rightarrow> exn + string list"
  hw_show :: "string \<Rightarrow> string \<Rightarrow> exn + string"
  hw_tree :: "string \<Rightarrow> string \<Rightarrow> exn + string"
  hw_blob :: "string \<Rightarrow> exn + string"
  hw_marks :: "string \<Rightarrow> exn + string"
  hw_shallow :: "exn + string"
  hw_pin :: "pin \<Rightarrow> exn + profile_dir"
  hw_ip_ok :: "string \<Rightarrow> bool"

definition as_config_error :: "exn + 'a \<Rightarrow> exn + 'a" where
  "as_config_error r = (case r of Inl e \<Rightarrow> if is_env_error e then Inl (ConfigError ''at a commit'') else Inl e | Inr x \<Rightarrow> Inr x)"

definition is_config_error :: "exn \<Rightarrow> bool" where
  "is_config_error e = (case e of ConfigError _ \<Rightarrow> True | _ \<Rightarrow> False)"

definition committed_doc :: "history_world \<Rightarrow> string \<Rightarrow> exn + json option" where
  "committed_doc w sha =
     (case hw_show w sha ''pyproject.toml'' of
        Inr text \<Rightarrow> Inr (ce_toml (hw_env w) text)
      | Inl e \<Rightarrow> if is_env_error e then Inr None else Inl e)"

definition in_repo_dir :: "string \<Rightarrow> string option" where
  "in_repo_dir name =
     (let parts = posix_parts name
      in if \<not> startswith name ''./'' \<or> parts = [] \<or> ''..'' \<in> set parts then None else Some (join ''/'' parts))"

section \<open>Resolving the table\<close>

text \<open>\<^verbatim>\<open>out.setdefault("tool", {})["frappe-nix"] = table\<close>.\<close>

definition with_table :: "json \<Rightarrow> jtable \<Rightarrow> exn + json" where
  "with_table doc table =
     (case doc of
        JObj d \<Rightarrow>
          (case raw_get d ''tool'' (JObj []) of
             JObj t \<Rightarrow> Inr (JObj (AList.update ''tool'' (JObj (AList.update TABLE (JObj table) t)) d))
           | _ \<Rightarrow> Inl TypeError)
      | _ \<Rightarrow> Inl AttributeError)"

definition app_request :: "profile_dir option \<Rightarrow> bool \<Rightarrow> resolve_request" where
  "app_request profile_dir provisional =
     \<lparr>q_root = True, q_profile_dir = profile_dir, q_profile_doc = None, q_on_github = None, q_provisional = provisional\<rparr>"

text \<open>The configuration keeps the name of the profile that is not read yet.\<close>

definition name_profile :: "(json \<Rightarrow> string) \<Rightarrow> json \<Rightarrow> resolved \<Rightarrow> resolved" where
  "name_profile txt profile r =
     r\<lparr>r_cfg := (case r_cfg r of JObj c \<Rightarrow> JObj (AList.update ''profile'' profile c) | c \<Rightarrow> c),
       r_profile := (case r_profile r of (n, _, v) \<Rightarrow> (n, text_or txt profile, v))\<rparr>"

definition engine_resolve ::
  "(json \<Rightarrow> string) \<Rightarrow> config_env \<Rightarrow> work_file \<Rightarrow> profile_dir option \<Rightarrow> bool \<Rightarrow> json \<Rightarrow> jtable \<Rightarrow> exn + resolved" where
  "engine_resolve txt e lockfile profile_dir bootstrap pyproject table =
     bindE (if bootstrap \<and> profile_dir = None then profile_locked txt lockfile table else Inr True) (\<lambda>readable.
       if readable then bindE (with_table pyproject table) (resolve_doc e (app_request profile_dir False))
       else bindE (with_table pyproject (AList.update ''profile'' (JStr ''minimal'') table)) (\<lambda>doc.
            bindE (resolve_doc e (app_request None True) doc) (\<lambda>r.
              Inr (name_profile txt (raw_get table ''profile'' (JStr ''minimal'')) r))))"

text \<open>What \<^verbatim>\<open>build\<close> refuses before it resolves: nothing means the table has to be created.\<close>

definition table_given ::
  "(json \<Rightarrow> string) \<Rightarrow> string option \<Rightarrow> string option \<Rightarrow> json option \<Rightarrow> exn + jtable option" where
  "table_given txt standards frappe_version table =
     (case table of
        Some (JObj t) \<Rightarrow>
          (case (standards, frappe_version) of
             (s, v) \<Rightarrow>
               if s \<notin> {None, Some []} \<and> Some (raw_get t ''profile'' (JStr ''minimal'')) \<noteq> map_option JStr s
               then Inl (ConfigError ''already names another profile'')
               else if v \<notin> {None, Some []} \<and> v \<noteq> Some (''version-'' @ text_or txt (raw_get t ''frappe-major'' JNull))
               then Inl (ConfigError ''has another frappe-major'')
               else Inr (Some t))
      | _ \<Rightarrow> if standards \<in> {None, Some []} then Inl (ConfigError ''not opted in'') else Inr None)"

text \<open>The table and its resolution; \<open>new\<close> is \<^verbatim>\<open>new_config\<close>'s answer and \<open>head\<close> what \<^verbatim>\<open>git symbolic-ref\<close> says.\<close>

definition build_resolved ::
  "(json \<Rightarrow> string) \<Rightarrow> config_env \<Rightarrow> work_file \<Rightarrow> profile_dir option \<Rightarrow> bool \<Rightarrow> json \<Rightarrow> string option \<Rightarrow> string option \<Rightarrow>
   (string \<Rightarrow> exn + jtable) \<Rightarrow> string option \<Rightarrow> exn + jtable option \<times> resolved" where
  "build_resolved txt e lockfile profile_dir bootstrap pyproject standards frappe_version new head =
     bindE (tool_frappe_nix pyproject) (\<lambda>table.
     bindE (table_given txt standards frappe_version table) (\<lambda>t.
       let go = engine_resolve txt e lockfile profile_dir bootstrap pyproject in
       case t of
         Some tbl \<Rightarrow> bindE (go tbl) (\<lambda>r. Inr (None, r))
       | None \<Rightarrow>
           bindE (new (case standards of Some s \<Rightarrow> s | None \<Rightarrow> [])) (\<lambda>created0.
           bindE (go created0) (\<lambda>r0.
           let created = with_integration_branch head created0 (r_cfg r0) in
           bindE (go created) (\<lambda>r. Inr (Some created, r))))))"

section \<open>The profile a commit had\<close>

definition committed_blob :: "history_world \<Rightarrow> string \<Rightarrow> string \<Rightarrow> exn + json \<times> string" where
  "committed_blob w sha path =
     as_config_error
       (bindE (hw_tree w sha path) (\<lambda>listing.
        let fields = split_ws (takeWhile (\<lambda>c. c \<noteq> tab) listing) in
        if length fields \<noteq> 3 \<or> fields ! 1 \<noteq> ''blob'' \<or> fields ! 0 = ''120000''
        then Inl (ConfigError ''not a committed regular file'')
        else bindE (hw_blob w (fields ! 2)) (\<lambda>text.
          case ce_toml (hw_env w) text of
            None \<Rightarrow> Inl (ConfigError ''malformed'')
          | Some doc \<Rightarrow> Inr (doc, ''blob:'' @ fields ! 2))))"

definition committed_pin :: "history_world \<Rightarrow> string \<Rightarrow> exn + pin" where
  "committed_pin w sha =
     as_config_error
       (bindE (bindE (hw_show w sha ''flake.lock'') parse_lock) (\<lambda>lock.
        locked_pin (hw_ip_ok w) (ce_depth (hw_env w)) lock PROFILE_INPUT))"

text \<open>The document and what tells it from another; a built-in has none.  What the source caches by the key of a tree is the same
  answer again.\<close>

definition committed_profile :: "history_world \<Rightarrow> string \<Rightarrow> string \<Rightarrow> exn + json option \<times> string" where
  "committed_profile w sha name =
     (if is_builtin name then Inr (None, [])
      else case in_repo_dir name of
        Some directory \<Rightarrow>
          bindE (committed_blob w sha (directory @ ''/profile.toml'')) (\<lambda>(doc, key). Inr (Some doc, key))
      | None \<Rightarrow>
          if \<not> list_ex (startswith name) ORG_PROFILE_PREFIXES then Inl (ConfigError ''not a built-in, a flake URL or ./<dir>'')
          else bindE (committed_pin w sha) (\<lambda>pin.
               bindE (hw_pin w pin) (\<lambda>dir.
               bindE (read_profile_dir (hw_env w) dir) (\<lambda>doc. Inr (Some doc, ''nar:'' @ pin_nar_hash pin)))))"

definition profile_name :: "json \<Rightarrow> exn + string" where
  "profile_name doc =
     bindE (tool_frappe_nix doc) (\<lambda>table.
       Inr (case table of
              Some (JObj t) \<Rightarrow> (case raw_get t ''profile'' (JStr ''minimal'') of JStr s \<Rightarrow> s | _ \<Rightarrow> ''minimal'')
            | _ \<Rightarrow> ''minimal''))"

definition profile_at :: "history_world \<Rightarrow> profile_dir option \<Rightarrow> string \<Rightarrow> json \<Rightarrow> exn + json option \<times> string" where
  "profile_at w profile_dir sha doc =
     bindE (profile_name doc) (\<lambda>name.
       case committed_profile w sha name of
         Inr r \<Rightarrow> Inr r
       | Inl e \<Rightarrow>
           (case profile_dir of
              Some dir \<Rightarrow>
                if is_config_error e \<or> is_env_error e
                then bindE (read_profile_dir (hw_env w) dir) (\<lambda>d. Inr (Some d, ''path:''))
                else Inl e
            | None \<Rightarrow> Inl e))"

definition has_github_dir :: "history_world \<Rightarrow> string \<Rightarrow> exn + bool" where
  "has_github_dir w sha =
     (case hw_marks w sha of Inr out \<Rightarrow> Inr (strip out \<noteq> []) | Inl e \<Rightarrow> if is_env_error e then Inr False else Inl e)"

section \<open>What was on before\<close>

definition state_request :: "json option \<Rightarrow> bool option \<Rightarrow> resolve_request" where
  "state_request profile_doc on_github =
     \<lparr>q_root = True, q_profile_dir = None, q_profile_doc = profile_doc, q_on_github = on_github, q_provisional = False\<rparr>"

definition conf_of :: "resolved \<Rightarrow> conf" where
  "conf_of r = \<lparr>k_cfg = r_cfg r, k_modules = r_modules r\<rparr>"

text \<open>\<^verbatim>\<open>previous\<close>: any exception but the refusal of a table that is no table means nothing is known.\<close>

definition previous :: "history_world \<Rightarrow> profile_dir option \<Rightarrow> exn + conf option" where
  "previous w profile_dir =
     bindE (committed_doc w ''HEAD'') (\<lambda>d.
       case d of
         None \<Rightarrow> Inr None
       | Some doc \<Rightarrow>
           bindE (tool_frappe_nix doc) (\<lambda>table.
             if table = None then Inr None
             else Inr (case bindE (profile_at w profile_dir ''HEAD'' doc) (\<lambda>(p, _). resolve_doc (hw_env w) (state_request p None) doc) of
                         Inr r \<Rightarrow> Some (conf_of r) | Inl _ \<Rightarrow> None)))"

definition HISTORY_DEPTH :: nat where "HISTORY_DEPTH = 300"

text \<open>\<^verbatim>\<open>json.dumps(table, sort_keys=True)\<close> tells two tables apart up to the order of their keys.\<close>

fun key_sorted :: "json \<Rightarrow> json" where
  "key_sorted (JObj d) = JObj (sort_key fst (map (\<lambda>(k, v). (k, key_sorted v)) d))"
| "key_sorted (JArr xs) = JArr (map key_sorted xs)"
| "key_sorted v = v"

type_synonym committed_state = "json \<times> string"

text \<open>The states seen, each with whether it is hosted elsewhere than on GitHub; those also read as hosted there.\<close>

record walked =
  wk_confs :: "conf list"
  wk_unknown :: bool
  wk_seen :: "(committed_state \<times> bool) list"
  wk_hosted :: "committed_state list"

definition off_github :: "resolved \<Rightarrow> bool" where
  "off_github r \<longleftrightarrow> r_host r \<notin> {None, Some ''github.com''} \<and> map_of (r_sources r) ''repo'' = None"

text \<open>A state off GitHub read as on it, once, when \<^verbatim>\<open>HEAD\<close> or its commit was set up for GitHub.\<close>

definition read_hosted :: "history_world \<Rightarrow> string \<Rightarrow> json \<Rightarrow> json option \<Rightarrow> committed_state \<Rightarrow> walked \<Rightarrow> exn + walked" where
  "read_hosted w sha doc profile_doc st k =
     (if map_of (wk_seen k) st \<noteq> Some True \<or> st \<in> set (wk_hosted k) then Inr k
      else bindE (has_github_dir w ''HEAD'') (\<lambda>h.
        bindE (if h then Inr True else has_github_dir w sha) (\<lambda>marked.
          if \<not> marked then Inr k
          else let k1 = k\<lparr>wk_hosted := wk_hosted k @ [st]\<rparr> in
            Inr (case resolve_doc (hw_env w) (state_request profile_doc (Some True)) doc of
                   Inr r \<Rightarrow> k1\<lparr>wk_confs := wk_confs k1 @ [conf_of r]\<rparr> | Inl _ \<Rightarrow> k1))))"

definition read_state :: "history_world \<Rightarrow> string \<Rightarrow> json \<Rightarrow> json \<Rightarrow> json option \<times> string \<Rightarrow> walked \<Rightarrow> exn + walked" where
  "read_state w sha doc table = (\<lambda>(profile_doc, key) k.
     let st = (key_sorted table, key) in
     if map_of (wk_seen k) st \<noteq> None then read_hosted w sha doc profile_doc st k
     else case resolve_doc (hw_env w) (state_request profile_doc None) doc of
       Inl _ \<Rightarrow> Inr k
     | Inr r \<Rightarrow>
         read_hosted w sha doc profile_doc st
           (k\<lparr>wk_confs := wk_confs k @ [conf_of r], wk_seen := wk_seen k @ [(st, off_github r)]\<rparr>))"

text \<open>One commit: \<open>None\<close> when the walk stops there, before the app opted in.\<close>

definition visit :: "history_world \<Rightarrow> profile_dir option \<Rightarrow> string \<Rightarrow> walked \<Rightarrow> exn + walked option" where
  "visit w profile_dir sha k =
     bindE (committed_doc w sha) (\<lambda>d.
       case d of
         None \<Rightarrow> Inr (Some k)
       | Some doc \<Rightarrow>
           bindE (tool_frappe_nix doc) (\<lambda>t.
             case t of
               None \<Rightarrow> Inr None
             | Some table \<Rightarrow>
                 (case profile_at w profile_dir sha doc of
                    Inr p \<Rightarrow> bindE (read_state w sha doc table p k) (\<lambda>k'. Inr (Some k'))
                  | Inl e \<Rightarrow>
                      if is_config_error e then Inr (Some k)
                      else if is_env_error e then Inr (Some (k\<lparr>wk_unknown := True\<rparr>))
                      else Inl e)))"

text \<open>The walk, and whether it stopped before its end.\<close>

fun walk_commits :: "history_world \<Rightarrow> profile_dir option \<Rightarrow> string list \<Rightarrow> walked \<Rightarrow> exn + walked \<times> bool" where
  "walk_commits w profile_dir [] k = Inr (k, False)"
| "walk_commits w profile_dir (sha # shas) k =
     bindE (visit w profile_dir sha k) (\<lambda>r.
       case r of None \<Rightarrow> Inr (k, True) | Some k' \<Rightarrow> walk_commits w profile_dir shas k')"

definition past_of :: "walked \<Rightarrow> bool \<Rightarrow> past" where
  "past_of k truncated = \<lparr>h_confs = wk_confs k, h_truncated = truncated, h_unknown = (if wk_unknown k then ''unreadable'' else [])\<rparr>"

definition no_past :: past where "no_past = \<lparr>h_confs = [], h_truncated = False, h_unknown = []\<rparr>"

definition fresh_walk :: walked where
  "fresh_walk = \<lparr>wk_confs = [], wk_unknown = False, wk_seen = [], wk_hosted = []\<rparr>"

text \<open>\<^verbatim>\<open>git rev-parse --is-shallow-repository\<close>.\<close>

definition is_shallow :: "exn + string \<Rightarrow> exn + bool" where
  "is_shallow answer = (case answer of Inr out \<Rightarrow> Inr (strip out = ''true'') | Inl e \<Rightarrow> if is_env_error e then Inr True else Inl e)"

definition past_from :: "history_world \<Rightarrow> profile_dir option \<Rightarrow> exn + string \<Rightarrow> string list \<Rightarrow> exn + past" where
  "past_from w profile_dir shallow shas =
     bindE (walk_commits w profile_dir shas fresh_walk) (\<lambda>(k, broke).
       let stopped = broke \<or> length shas \<ge> HISTORY_DEPTH in
       if shas \<noteq> [] \<and> \<not> stopped then bindE (is_shallow shallow) (\<lambda>b. Inr (past_of k b))
       else Inr (past_of k False))"

text \<open>The in-repo profiles the tables name, up to the commit before the opt-in.\<close>

fun profile_paths :: "history_world \<Rightarrow> string list \<Rightarrow> string list \<Rightarrow> exn + string list" where
  "profile_paths w [] paths = Inr paths"
| "profile_paths w (sha # shas) paths =
     bindE (committed_doc w sha) (\<lambda>d.
       case d of
         None \<Rightarrow> profile_paths w shas paths
       | Some doc \<Rightarrow>
           bindE (tool_frappe_nix doc) (\<lambda>t.
             case t of
               None \<Rightarrow> Inr paths
             | Some table \<Rightarrow>
                 (case (case table of JObj d \<Rightarrow> raw_get d ''profile'' (JStr []) | _ \<Rightarrow> JStr []) of
                    JStr s \<Rightarrow>
                      (case in_repo_dir s of
                         Some dir \<Rightarrow> profile_paths w shas (if dir \<in> set paths then paths else paths @ [dir])
                       | None \<Rightarrow> profile_paths w shas paths)
                  | _ \<Rightarrow> profile_paths w shas paths)))"

definition log_of :: "history_world \<Rightarrow> string list \<Rightarrow> exn + string list option" where
  "log_of w paths =
     (case hw_log w paths of
        Inr shas \<Rightarrow> Inr (Some (take HISTORY_DEPTH shas)) | Inl e \<Rightarrow> if is_env_error e then Inr None else Inl e)"

definition history_of :: "history_world \<Rightarrow> profile_dir option \<Rightarrow> exn + past" where
  "history_of w profile_dir =
     bindE (log_of w [''pyproject.toml'']) (\<lambda>edits.
       case edits of
         None \<Rightarrow> Inr no_past
       | Some es \<Rightarrow>
           bindE (profile_paths w es [''pyproject.toml'', ''flake.lock'']) (\<lambda>paths.
           bindE (log_of w paths) (\<lambda>shas.
             case shas of None \<Rightarrow> Inr no_past | Some ss \<Rightarrow> past_from w profile_dir (hw_shallow w) ss)))"

section \<open>The verdict of a shallow clone\<close>

lemma read_hosted_grows: "read_hosted w sha doc p st k = Inr k' \<Longrightarrow> set (wk_confs k) \<subseteq> set (wk_confs k')"
  by (auto simp: read_hosted_def Let_def bindE_eq_Inr_iff split: if_splits sum.splits)

lemma read_state_grows: "read_state w sha doc table p k = Inr k' \<Longrightarrow> set (wk_confs k) \<subseteq> set (wk_confs k')"
  unfolding read_state_def Let_def
  by (auto split: prod.splits if_splits sum.splits dest!: read_hosted_grows)

lemma visit_grows:
  assumes "visit w pd sha k = Inr (Some k')"
  shows "set (wk_confs k) \<subseteq> set (wk_confs k')"
proof -
  obtain d where d: "committed_doc w sha = Inr d" using assms by (auto simp: visit_def bindE_eq_Inr_iff)
  show ?thesis
  proof (cases d)
    case None
    with assms d show ?thesis by (simp add: visit_def)
  next
    case (Some doc)
    with assms d obtain table where "tool_frappe_nix doc = Inr (Some table)"
      by (auto simp: visit_def bindE_eq_Inr_iff split: option.splits)
    with assms d Some show ?thesis
      by (cases "profile_at w pd sha doc")
        (auto simp: visit_def bindE_eq_Inr_iff split: if_splits dest: read_state_grows)
  qed
qed

lemma walk_grows: "walk_commits w pd shas k = Inr (k', b) \<Longrightarrow> set (wk_confs k) \<subseteq> set (wk_confs k')"
proof (induction shas arbitrary: k)
  case (Cons sha shas)
  then show ?case
    by (auto simp: bindE_eq_Inr_iff split: option.splits dest: visit_grows) (blast dest: visit_grows)+
qed simp

lemma walk_prefix:
  "walk_commits w pd (take n shas) k = Inr (k1, b1) \<Longrightarrow> walk_commits w pd shas k = Inr (k2, b2) \<Longrightarrow>
   set (wk_confs k1) \<subseteq> set (wk_confs k2) \<and> (if b1 then k2 = k1 \<and> b2 else True)"
proof (induction shas arbitrary: k n)
  case (Cons sha shas)
  show ?case
  proof (cases n)
    case 0
    with Cons.prems walk_grows [OF Cons.prems(2)] show ?thesis by auto
  next
    case (Suc m)
    with Cons.prems(1) obtain r where r: "visit w pd sha k = Inr r" by (auto simp: bindE_eq_Inr_iff)
    show ?thesis
    proof (cases r)
      case None
      with Cons.prems Suc r show ?thesis by simp
    next
      case (Some k')
      with Cons.prems Suc r Cons.IH [of m k'] show ?thesis by simp
    qed
  qed
qed auto

lemma shallow_answers: "is_shallow (Inr ''false'') = Inr False" "is_shallow (Inr ''true'') = Inr True"
  by code_simp+

lemma past_from_Inr:
  assumes "is_shallow shallow = Inr t"
  shows "past_from w pd shallow shas = Inr h \<longleftrightarrow>
    (\<exists>k b. walk_commits w pd shas fresh_walk = Inr (k, b) \<and> h = past_of k (t \<and> shas \<noteq> [] \<and> \<not> b \<and> length shas < HISTORY_DEPTH))"
proof (cases "walk_commits w pd shas fresh_walk")
  case (Inr r)
  obtain k b where "r = (k, b)" by fastforce
  with Inr assms show ?thesis by (cases t) (auto simp: past_from_def Let_def)
qed (simp add: past_from_def)


section \<open>A history of two commits\<close>

text \<open>The app opted in with its newest commit; a clone of that one alone finds what a full one does.\<close>

definition sample_history :: history_world where
  "sample_history =
     \<lparr>hw_env = sample_config\<lparr>ce_toml := (\<lambda>t. if t = ''before'' then Some (JObj []) else Some sample_doc)\<rparr>, hw_log = (\<lambda>_. Inr [''now'', ''before'']),
      hw_show = (\<lambda>sha _. Inr sha), hw_tree = (\<lambda>_ _. Inr []), hw_blob = (\<lambda>_. Inr []), hw_marks = (\<lambda>_. Inr []), hw_shallow = Inr ''false'',
      hw_pin = (\<lambda>_. Inr (Given [])), hw_ip_ok = (\<lambda>_. True)\<rparr>"


end
