(* ===== verification/Baseline.thy ===== *)
theory Baseline
  imports JsonFmt Ratchet Manifest "HOL-Library.Multiset"
begin

text \<open>
  \<^verbatim>\<open>listing/baseline.py\<close>: the baseline of the registry's semgrep findings, a multiset of keys that only shrinks.  \<open>sha1\<close> is
  \<^verbatim>\<open>hashlib.sha1(...).hexdigest()\<close>; the texts of the problems are constructors.  Running semgrep is not modelled.
\<close>

section \<open>Findings\<close>

definition BASELINE_PATH :: string where "BASELINE_PATH = ''marketplace/semgrep-baseline.json''"
definition BASELINE_ENTRY_KEYS :: "string list" where "BASELINE_ENTRY_KEYS = [''rule'', ''path'', ''line_sha1'', ''count'', ''reason'']"

definition SEED_BASELINE :: json where
  "SEED_BASELINE = JObj [(''schema'', JInt 1), (''findings'', JArr [])]"

definition line_sha1 :: "(string \<Rightarrow> string) \<Rightarrow> string \<Rightarrow> string" where
  "line_sha1 sha1 text = sha1 (strip text)"

record hit =
  h_rule :: string
  h_path :: string
  h_line :: int
  h_text :: string
  h_message :: string

type_synonym hkey = "string \<times> string \<times> string"

definition hit_key :: "(string \<Rightarrow> string) \<Rightarrow> hit \<Rightarrow> hkey" where
  "hit_key sha1 h = (h_rule h, h_path h, line_sha1 sha1 (h_text h))"

section \<open>The shape of the file\<close>

datatype baseline_problem =
    NotJson
  | NotObject
  | UnknownKeys "string list"
  | SchemaNotOne
  | RevNotString
  | FindingsNotList
  | EntryNotObject nat
  | EntryUnknownKeys nat "string list"
  | EntryField nat string
  | EntryCount nat
  | EntryReason nat
  | ListedTwice nat

definition beyond :: "string list \<Rightarrow> jtable \<Rightarrow> string list" where
  "beyond known d = sort (filter (\<lambda>k. k \<notin> set known) (map fst d))"

definition bad_field :: "jtable \<Rightarrow> string \<Rightarrow> bool" where
  "bad_field d k = (case map_of d k of Some (JStr s) \<Rightarrow> s = [] | _ \<Rightarrow> True)"

definition bad_count :: "jtable \<Rightarrow> bool" where
  "bad_count d = (case map_of d ''count'' of Some (JInt i) \<Rightarrow> i < 1 | _ \<Rightarrow> True)"

definition bad_reason :: "jtable \<Rightarrow> bool" where
  "bad_reason d = (case map_of d ''reason'' of None \<Rightarrow> False | Some (JStr _) \<Rightarrow> False | Some _ \<Rightarrow> True)"

definition entry_key3 :: "jtable \<Rightarrow> json \<times> json \<times> json" where
  "entry_key3 d = (raw_get d ''rule'' JNull, raw_get d ''path'' JNull, raw_get d ''line_sha1'' JNull)"

definition eq3 :: "json \<times> json \<times> json \<Rightarrow> json \<times> json \<times> json \<Rightarrow> bool" where
  "eq3 a b = (case (a, b) of ((r, p, s), (r', p', s')) \<Rightarrow> py_eq r r' \<and> py_eq p p' \<and> py_eq s s')"

definition hashable3 :: "json \<times> json \<times> json \<Rightarrow> bool" where
  "hashable3 k = (case k of (r, p, s) \<Rightarrow> hashable r \<and> hashable p \<and> hashable s)"

definition entry_problems :: "nat \<Rightarrow> jtable \<Rightarrow> baseline_problem list" where
  "entry_problems i d =
     (if beyond BASELINE_ENTRY_KEYS d \<noteq> [] then [EntryUnknownKeys i (beyond BASELINE_ENTRY_KEYS d)] else []) @
     map (EntryField i) (filter (bad_field d) [''rule'', ''path'', ''line_sha1'']) @
     (if bad_count d then [EntryCount i] else []) @
     (if bad_reason d then [EntryReason i] else [])"

text \<open>The loop over the findings; asking whether a key was seen hashes it.\<close>

fun findings_problems :: "nat \<Rightarrow> (json \<times> json \<times> json) list \<Rightarrow> json list \<Rightarrow> exn + baseline_problem list" where
  "findings_problems i seen [] = Inr []"
| "findings_problems i seen (JObj d # es) =
     (if \<not> hashable3 (entry_key3 d) then Inl TypeError
      else bindE (findings_problems (Suc i) (entry_key3 d # seen) es) (\<lambda>rest.
           Inr (entry_problems i d @ (if list_ex (eq3 (entry_key3 d)) seen then [ListedTwice i] else []) @ rest)))"
| "findings_problems i seen (e # es) =
     bindE (findings_problems (Suc i) seen es) (\<lambda>rest. Inr (EntryNotObject i # rest))"

definition doc_problems :: "json \<Rightarrow> exn + baseline_problem list" where
  "doc_problems doc =
     (case doc of
        JObj d \<Rightarrow>
          let unknown = beyond [''schema'', ''marketplace_rev'', ''findings''] d;
              out = (if unknown \<noteq> [] then [UnknownKeys unknown] else []) @
                    (if \<not> py_eq (raw_get d ''schema'' JNull) (JInt 1) then [SchemaNotOne] else []) @
                    (case map_of d ''marketplace_rev'' of None \<Rightarrow> [] | Some (JStr _) \<Rightarrow> [] | Some _ \<Rightarrow> [RevNotString])
          in (case map_of d ''findings'' of
                Some (JArr es) \<Rightarrow> bindE (findings_problems 0 [] es) (\<lambda>rest. Inr (out @ rest))
              | _ \<Rightarrow> Inr (out @ [FindingsNotList]))
      | _ \<Rightarrow> Inr [NotObject])"

definition baseline_problems :: "string \<Rightarrow> exn + baseline_problem list" where
  "baseline_problems text = (case loads text of None \<Rightarrow> Inr [NotJson] | Some doc \<Rightarrow> doc_problems doc)"

section \<open>Reading it\<close>

type_synonym entries = "(hkey \<times> jtable) list"

text \<open>\<^verbatim>\<open>e["rule"]\<close> of an entry whose fields are strings.\<close>

definition string_item :: "jtable \<Rightarrow> string \<Rightarrow> exn + string" where
  "string_item d k = bindE (ditem (JObj d) k) (\<lambda>v. case v of JStr s \<Rightarrow> Inr s | _ \<Rightarrow> Inl TypeError)"

definition keyed_entry :: "json \<Rightarrow> exn + hkey \<times> jtable" where
  "keyed_entry e =
     (case e of
        JObj d \<Rightarrow>
          bindE (string_item d ''rule'') (\<lambda>r. bindE (string_item d ''path'') (\<lambda>p.
          bindE (string_item d ''line_sha1'') (\<lambda>s. Inr ((r, p, s), d))))
      | _ \<Rightarrow> Inl TypeError)"

definition load_baseline :: "string option \<Rightarrow> exn + entries" where
  "load_baseline file =
     (case file of
        None \<Rightarrow> Inr []
      | Some text \<Rightarrow>
          bindE (baseline_problems text) (\<lambda>bad.
          if bad \<noteq> [] then Inl (ConfigError BASELINE_PATH)
          else case loads text of
            None \<Rightarrow> Inl (ValueError ''not JSON'')
          | Some doc \<Rightarrow> bindE (bindE (ditem doc ''findings'') iter) (\<lambda>es.
                        bindE (mapE keyed_entry es) (\<lambda>kes. Inr (dict_of kes)))))"

section \<open>Comparing a scan with it\<close>

text \<open>\<^verbatim>\<open>Counter(xs)\<close>, and the findings of each key.\<close>

fun count_keys :: "'a list \<Rightarrow> ('a \<times> nat) list \<Rightarrow> ('a \<times> nat) list" where
  "count_keys [] d = d"
| "count_keys (x # xs) d = count_keys xs (AList.update x (case map_of d x of None \<Rightarrow> 1 | Some n \<Rightarrow> Suc n) d)"

fun by_key :: "(string \<Rightarrow> string) \<Rightarrow> hit list \<Rightarrow> (hkey \<times> hit list) list \<Rightarrow> (hkey \<times> hit list) list" where
  "by_key sha1 [] d = d"
| "by_key sha1 (h # hs) d =
     by_key sha1 hs (AList.update (hit_key sha1 h) ((case map_of d (hit_key sha1 h) of None \<Rightarrow> [] | Some gs \<Rightarrow> gs) @ [h]) d)"

datatype l7_problem =
    NewFinding string string nat int "(string \<times> int) list" string
  | StaleEntry string hkey int nat

definition l7_path :: "l7_problem \<Rightarrow> string" where
  "l7_path p = (case p of NewFinding _ path _ _ _ _ \<Rightarrow> path | StaleEntry path _ _ _ \<Rightarrow> path)"

definition allowed_count :: "entries \<Rightarrow> hkey \<Rightarrow> exn + int" where
  "allowed_count es key = (case map_of es key of None \<Rightarrow> Inr 0 | Some d \<Rightarrow> py_int (raw_get d ''count'' (JInt 0)))"

definition sample_text :: "hit \<Rightarrow> string" where
  "sample_text h = (if h_message h \<noteq> [] then h_message h else strip (h_text h))"

definition compare_key :: "(hkey \<times> nat) list \<Rightarrow> (hkey \<times> hit list) list \<Rightarrow> entries \<Rightarrow> hkey \<Rightarrow> exn + l7_problem list" where
  "compare_key tally groups es key =
     (let n = (case map_of tally key of None \<Rightarrow> 0 | Some n \<Rightarrow> n) in
      bindE (allowed_count es key) (\<lambda>allowed.
        if int n > allowed then
          (case map_of groups key of
             Some (h # hs) \<Rightarrow>
               Inr [NewFinding (fst key) (fst (snd key)) n allowed (map (\<lambda>g. (h_path g, h_line g)) (h # hs)) (sample_text h)]
           | _ \<Rightarrow> Inl KeyError)
        else if int n < allowed then Inr [StaleEntry BASELINE_PATH key allowed n]
        else Inr []))"

definition l7_compare :: "(string \<Rightarrow> string) \<Rightarrow> hit list \<Rightarrow> entries \<Rightarrow> exn + l7_problem list" where
  "l7_compare sha1 hits es =
     (let tally = count_keys (map (hit_key sha1) hits) [] in
      bindE (mapE (compare_key tally (by_key sha1 hits []) es) (sort (dedup (map fst tally @ map fst es)))) (\<lambda>out.
      Inr (concat out)))"

section \<open>Writing it\<close>

definition entry_of :: "entries \<Rightarrow> hkey \<Rightarrow> nat \<Rightarrow> jtable" where
  "entry_of previous key n =
     (case key of (r, p, s) \<Rightarrow>
        [(''rule'', JStr r), (''path'', JStr p), (''line_sha1'', JStr s), (''count'', JInt (int n))] @
        (let reason = raw_get (case map_of previous key of None \<Rightarrow> [] | Some d \<Rightarrow> d) ''reason'' JNull in
         if truthy reason then [(''reason'', reason)] else []))"

definition baseline_doc :: "(string \<Rightarrow> string) \<Rightarrow> hit list \<Rightarrow> string \<Rightarrow> entries \<Rightarrow> json" where
  "baseline_doc sha1 hits rv previous =
     (let counts = count_keys (map (hit_key sha1) hits) [] in
      JObj ([(''schema'', JInt 1)] @ (if rv \<noteq> [] then [(''marketplace_rev'', JStr rv)] else []) @
        [(''findings'', JArr (map (\<lambda>key. JObj (entry_of previous key (case map_of counts key of None \<Rightarrow> 0 | Some n \<Rightarrow> n)))
                              (sort (map fst counts))))]))"

definition render_baseline :: "(rat \<Rightarrow> string) \<Rightarrow> (string \<Rightarrow> string) \<Rightarrow> hit list \<Rightarrow> string \<Rightarrow> entries \<Rightarrow> string" where
  "render_baseline fl sha1 hits rv previous = jsonfmt_dumps fl False (baseline_doc sha1 hits rv previous)"


section \<open>A scan passes exactly when it has the baseline's findings\<close>

lemma map_of_counter:
  "map_of (count_keys xs d) k =
     (case map_of d k of
        None \<Rightarrow> if k \<in> set xs then Some (count (mset xs) k) else None
      | Some n \<Rightarrow> Some (n + count (mset xs) k))"
  by (induction xs arbitrary: d) (auto split: option.splits)

lemma map_of_by_key:
  "map_of (by_key sha1 hs d) k =
     (let gs = filter (\<lambda>h. hit_key sha1 h = k) hs in
      case map_of d k of None \<Rightarrow> if gs = [] then None else Some gs | Some fs \<Rightarrow> Some (fs @ gs))"
  by (induction hs arbitrary: d) (auto simp: Let_def split: option.splits)

lemma tally_count:
  "(case map_of (count_keys xs []) k of None \<Rightarrow> 0 | Some n \<Rightarrow> n) = count (mset xs) k"
  by (simp add: map_of_counter not_in_iff)

lemma set_counter: "fst ` set (count_keys xs []) = set xs"
proof -
  have "k \<in> fst ` set (count_keys xs []) \<longleftrightarrow> k \<in> set xs" for k
    by (metis (mono_tags, lifting) map_of_counter map_of_eq_None_iff option.simps(3,4) map_of.simps(1))
  then show ?thesis by blast
qed

lemma compare_key_clean:
  "compare_key (count_keys (map (hit_key sha1) hits) []) (by_key sha1 hits []) es k = Inr [] \<longleftrightarrow>
   allowed_count es k = Inr (int (count (mset (map (hit_key sha1) hits)) k))"
proof (cases "allowed_count es k")
  case (Inr a)
  then show ?thesis
    by (auto simp: compare_key_def tally_count Let_def split: option.split list.split)
qed (simp add: compare_key_def)

lemma mapE_all_empty: "bindE (mapE f ks) (\<lambda>out. Inr (concat out)) = Inr [] \<longleftrightarrow> (\<forall>k \<in> set ks. f k = Inr [])"
proof (induction ks)
  case (Cons k ks)
  then show ?case by (cases "f k"; cases "mapE f ks") auto
qed simp

text \<open>The counts of the baseline are those of the scan, key by key; a key that is in neither has none in both.\<close>

lemma compare_clean_iff:
  "l7_compare sha1 hits es = Inr [] \<longleftrightarrow>
   (\<forall>k. allowed_count es k = Inr (int (count (mset (map (hit_key sha1) hits)) k)))"
proof -
  have "allowed_count es k = Inr (int (count (mset (map (hit_key sha1) hits)) k))"
    if "k \<notin> set (map (hit_key sha1) hits)" "k \<notin> fst ` set es" for k
    using that by (simp add: allowed_count_def map_of_eq_None_iff [THEN iffD2] not_in_iff [THEN iffD1] del: set_map mset_map)
  then have "(\<forall>k \<in> set (map (hit_key sha1) hits) \<union> fst ` set es. allowed_count es k = Inr (int (count (mset (map (hit_key sha1) hits)) k))) \<longleftrightarrow>
      (\<forall>k. allowed_count es k = Inr (int (count (mset (map (hit_key sha1) hits)) k)))"
    by blast
  moreover have "set (map fst (count_keys ks [])) = set ks" "set (map fst es) = fst ` set es" for ks :: "hkey list"
    by (simp_all add: set_counter)
  ultimately show ?thesis
    by (simp add: l7_compare_def Let_def mapE_all_empty compare_key_clean del: mset_map set_map)
qed

section \<open>What is written passes\<close>

text \<open>Entries whose reason, if any, is a string, as the file's shape asks.\<close>

definition reasons_ok :: "entries \<Rightarrow> bool" where
  "reasons_ok es \<longleftrightarrow> (\<forall>kd \<in> set es. \<not> bad_reason (snd kd))"

definition key_ok :: "hkey \<Rightarrow> bool" where
  "key_ok k \<longleftrightarrow> fst k \<noteq> [] \<and> fst (snd k) \<noteq> [] \<and> snd (snd k) \<noteq> []"

lemma reason_cases:
  assumes "reasons_ok es"
  obtains "entry_of es (r, p, s) n = [(''rule'', JStr r), (''path'', JStr p), (''line_sha1'', JStr s), (''count'', JInt (int n))]"
  | t where "entry_of es (r, p, s) n =
      [(''rule'', JStr r), (''path'', JStr p), (''line_sha1'', JStr s), (''count'', JInt (int n)), (''reason'', JStr t)]"
proof (cases "map_of es (r, p, s)")
  case None
  then show ?thesis using that(1) by (simp add: entry_of_def raw_get_def)
next
  case (Some d)
  then have "\<not> bad_reason d" using assms map_of_SomeD by (fastforce simp: reasons_ok_def)
  then consider "map_of d ''reason'' = None" | t where "map_of d ''reason'' = Some (JStr t)"
    by (auto simp: bad_reason_def split: option.splits json.splits)
  then show ?thesis
  proof cases
    case 1
    then show ?thesis using Some that(1) by (simp add: entry_of_def raw_get_def)
  next
    case (2 t)
    then show ?thesis using Some that by (cases "t = []") (simp_all add: entry_of_def raw_get_def)
  qed
qed

lemma entry_facts:
  assumes "reasons_ok es" "key_ok k" "0 < n"
  shows "entry_problems i (entry_of es k n) = []" (is ?problems)
    and "entry_key3 (entry_of es k n) = (JStr (fst k), JStr (fst (snd k)), JStr (snd (snd k)))" (is ?key)
    and "keyed_entry (JObj (entry_of es k n)) = Inr (k, entry_of es k n)" (is ?keyed)
    and "py_int (raw_get (entry_of es k n) ''count'' (JInt 0)) = Inr (int n)" (is ?count)
    and "wf_json (JObj (entry_of es k n))" (is ?wf)
    and "floats_ok fl (JObj (entry_of es k n))" (is ?floats)
proof -
  obtain r p s where k: "k = (r, p, s)" by (cases k)
  have "?problems \<and> ?key \<and> ?keyed \<and> ?count \<and> ?wf \<and> ?floats"
    using assms(2,3) unfolding k
    by (cases rule: reason_cases [OF assms(1), of r p s n])
      (simp_all add: entry_problems_def beyond_def BASELINE_ENTRY_KEYS_def bad_field_def bad_count_def bad_reason_def key_ok_def
        entry_key3_def raw_get_def keyed_entry_def string_item_def ditem_def py_int_def)
  then show ?problems ?key ?keyed ?count ?wf ?floats by blast+
qed

lemma findings_fine:
  assumes "reasons_ok es" "\<forall>k \<in> set ks. key_ok k \<and> 0 < f k" "distinct ks"
    and "\<forall>k \<in> set ks. \<not> list_ex (eq3 (JStr (fst k), JStr (fst (snd k)), JStr (snd (snd k)))) seen"
  shows "findings_problems i seen (map (\<lambda>k. JObj (entry_of es k (f k))) ks) = Inr []"
  using assms(2-)
proof (induction ks arbitrary: i seen)
  case (Cons k ks)
  obtain r p s where k: "k = (r, p, s)" by (cases k)
  have "findings_problems (Suc i) (entry_key3 (entry_of es k (f k)) # seen) (map (\<lambda>k. JObj (entry_of es k (f k))) ks) = Inr []"
    using Cons.prems by (intro Cons.IH) (auto simp: entry_facts(2) [OF assms(1)] eq3_def split: prod.splits)
  with Cons.prems show ?case
    by (simp add: entry_facts(1,2) [OF assms(1)] hashable3_def hashable_def)
qed simp

lemma counter_pos: "k \<in> set xs \<Longrightarrow> 0 < count (mset xs) k"
  by simp

lemma set_sorted_keys: "set (sort (map fst (count_keys xs []))) = set xs"
  by (simp add: set_counter)

lemma distinct_counter: "distinct (map fst d) \<Longrightarrow> distinct (map fst (count_keys xs d))"
  by (induction xs arbitrary: d) (simp_all add: distinct_update)

definition baseline_keys :: "(string \<Rightarrow> string) \<Rightarrow> hit list \<Rightarrow> hkey list" where
  "baseline_keys sha1 hits = sort (map fst (count_keys (map (hit_key sha1) hits) []))"

definition baseline_entries :: "(string \<Rightarrow> string) \<Rightarrow> hit list \<Rightarrow> entries \<Rightarrow> entries" where
  "baseline_entries sha1 hits previous =
     map (\<lambda>k. (k, entry_of previous k (count (mset (map (hit_key sha1) hits)) k))) (baseline_keys sha1 hits)"

lemma baseline_keys_facts:
  "set (baseline_keys sha1 hits) = set (map (hit_key sha1) hits)" "distinct (baseline_keys sha1 hits)"
  by (simp_all add: baseline_keys_def set_counter distinct_counter)

lemma baseline_doc_eq:
  "baseline_doc sha1 hits rv previous =
     JObj ([(''schema'', JInt 1)] @ (if rv \<noteq> [] then [(''marketplace_rev'', JStr rv)] else []) @
       [(''findings'', JArr (map (\<lambda>(k, d). JObj d) (baseline_entries sha1 hits previous)))])"
  by (simp add: baseline_doc_def baseline_entries_def baseline_keys_def tally_count Let_def comp_def del: mset_map)

lemma dict_of_id: "distinct (map fst kvs) \<Longrightarrow> dict_of kvs = kvs"
  by (rule dict_of_distinct)


lemma baseline_doc_fine:
  assumes "reasons_ok previous" "\<forall>h \<in> set hits. key_ok (hit_key sha1 h)"
  shows "doc_problems (baseline_doc sha1 hits rv previous) = Inr []"
    and "mapE keyed_entry (map (\<lambda>(k, d). JObj d) (baseline_entries sha1 hits previous)) =
         Inr (baseline_entries sha1 hits previous)"
    and "wf_json (baseline_doc sha1 hits rv previous)" and "floats_ok fl (baseline_doc sha1 hits rv previous)"
proof -
  let ?f = "\<lambda>k. count (mset (map (hit_key sha1) hits)) k"
  have keys: "\<forall>k \<in> set (baseline_keys sha1 hits). key_ok k \<and> 0 < ?f k"
    using assms(2) by (auto simp: baseline_keys_facts simp del: mset_map intro!: counter_pos)
  note facts = entry_facts [OF assms(1)]
  have entries: "map (\<lambda>(k, d). JObj d) (baseline_entries sha1 hits previous) =
      map (\<lambda>k. JObj (entry_of previous k (?f k))) (baseline_keys sha1 hits)"
    by (simp add: baseline_entries_def)
  have "findings_problems 0 [] (map (\<lambda>k. JObj (entry_of previous k (?f k))) (baseline_keys sha1 hits)) = Inr []"
    using keys by (intro findings_fine assms(1)) (auto simp: baseline_keys_facts)
  then show "doc_problems (baseline_doc sha1 hits rv previous) = Inr []"
    by (simp add: doc_problems_def baseline_doc_eq entries beyond_def raw_get_def py_eq.simps [of "JInt 1"] del: mset_map)
  have "mapE keyed_entry (map (\<lambda>k. JObj (entry_of previous k (?f k))) ks) = Inr (map (\<lambda>k. (k, entry_of previous k (?f k))) ks)"
    if "\<forall>k \<in> set ks. key_ok k \<and> 0 < ?f k" for ks
    using that by (induction ks) (simp_all add: facts(3) del: mset_map)
  from this [OF keys] show "mapE keyed_entry (map (\<lambda>(k, d). JObj d) (baseline_entries sha1 hits previous)) =
      Inr (baseline_entries sha1 hits previous)"
    unfolding entries by (simp only: baseline_entries_def)
  have "wf_json (JObj (entry_of previous k (?f k)))" "floats_ok fl (JObj (entry_of previous k (?f k)))"
    if "k \<in> set (baseline_keys sha1 hits)" for k
    using keys that facts(5,6) by blast+
  then show "wf_json (baseline_doc sha1 hits rv previous)" "floats_ok fl (baseline_doc sha1 hits rv previous)"
    by (simp_all add: baseline_doc_eq entries list_all_iff del: mset_map wf_json.simps(2) floats_ok.simps(3)) (simp_all add: list_all_iff)
qed

lemma load_rendered:
  assumes "reasons_ok previous" "\<forall>h \<in> set hits. key_ok (hit_key sha1 h)"
  shows "load_baseline (Some (render_baseline fl sha1 hits rv previous)) = Inr (baseline_entries sha1 hits previous)"
proof -
  note fine = baseline_doc_fine [OF assms]
  have "loads (render_baseline fl sha1 hits rv previous) = Some (baseline_doc sha1 hits rv previous)"
    unfolding render_baseline_def jsonfmt_dumps_def by (rule loads_spelling [OF emit_spells fine(4,3)])
  moreover have "bindE (ditem (baseline_doc sha1 hits rv previous) ''findings'') iter =
      Inr (map (\<lambda>(k, d). JObj d) (baseline_entries sha1 hits previous))"
    by (simp add: baseline_doc_eq ditem_def)
  moreover have "dict_of (baseline_entries sha1 hits previous) = baseline_entries sha1 hits previous"
    by (rule dict_of_id) (simp add: baseline_entries_def comp_def baseline_keys_facts)
  ultimately show ?thesis using fine(1,2) by (simp add: load_baseline_def baseline_problems_def)
qed

lemma allowed_baseline:
  assumes "reasons_ok previous" "\<forall>h \<in> set hits. key_ok (hit_key sha1 h)"
  shows "allowed_count (baseline_entries sha1 hits previous) k = Inr (int (count (mset (map (hit_key sha1) hits)) k))"
proof (cases "k \<in> set (map (hit_key sha1) hits)")
  case True
  then have "map_of (baseline_entries sha1 hits previous) k = Some (entry_of previous k (count (mset (map (hit_key sha1) hits)) k))"
    unfolding baseline_entries_def by (subst map_of_map_restrict) (simp add: baseline_keys_facts)
  moreover have "key_ok k" using True assms(2) by auto
  ultimately show ?thesis
    using entry_facts(4) [OF assms(1)] counter_pos [OF True] by (simp add: allowed_count_def del: mset_map)
next
  case False
  then have "map_of (baseline_entries sha1 hits previous) k = None"
    unfolding baseline_entries_def by (subst map_of_map_restrict) (simp add: baseline_keys_facts restrict_map_def)
  with False show ?thesis by (simp add: allowed_count_def not_in_iff [THEN iffD1] del: mset_map set_map)
qed

text \<open>C39. The baseline that is written accepts exactly the findings it was written for: it is well formed, reading it
  back gives its entries, and a later scan has no problem with it exactly when it finds the same keys, each as often; one finding more
  of a key and one fewer are both refused, wherever the lines moved.\<close>

theorem baseline_accepts_its_findings:
  assumes "reasons_ok previous" "\<forall>h \<in> set hits. key_ok (hit_key sha1 h)"
  shows "\<exists>es. load_baseline (Some (render_baseline fl sha1 hits rv previous)) = Inr es \<and>
    (\<forall>scan. l7_compare sha1 scan es = Inr [] \<longleftrightarrow> mset (map (hit_key sha1) scan) = mset (map (hit_key sha1) hits))"
proof (intro exI conjI allI)
  show "load_baseline (Some (render_baseline fl sha1 hits rv previous)) = Inr (baseline_entries sha1 hits previous)"
    by (rule load_rendered [OF assms])
  show "l7_compare sha1 scan (baseline_entries sha1 hits previous) = Inr [] \<longleftrightarrow>
      mset (map (hit_key sha1) scan) = mset (map (hit_key sha1) hits)" for scan
    unfolding compare_clean_iff allowed_baseline [OF assms] multiset_eq_iff by auto
qed

definition sample_hit :: "string \<Rightarrow> int \<Rightarrow> hit" where
  "sample_hit line n = \<lparr>h_rule = ''commit'', h_path = ''a/b.py'', h_line = n, h_text = line, h_message = []\<rparr>"

definition sample_previous :: entries where
  "sample_previous = [((''commit'', ''a/b.py'', ''#x''), [(''reason'', JStr ''a patch'')])]"

theorem baseline_accepts_its_findings_witness:
  "\<exists>es. load_baseline (Some (render_baseline (\<lambda>_. []) (\<lambda>s. CHR ''#'' # s) [sample_hit ''x'' 1, sample_hit '' x'' 7] ''r'' sample_previous)) = Inr es \<and>
    (\<forall>scan. l7_compare (\<lambda>s. CHR ''#'' # s) scan es = Inr [] \<longleftrightarrow>
       mset (map (hit_key (\<lambda>s. CHR ''#'' # s)) scan) = mset (map (hit_key (\<lambda>s. CHR ''#'' # s)) [sample_hit ''x'' 1, sample_hit '' x'' 7]))"
  by (rule baseline_accepts_its_findings)
    (simp_all add: reasons_ok_def sample_previous_def bad_reason_def key_ok_def hit_key_def sample_hit_def line_sha1_def)

text \<open>An entry whose key is a list is not reported: the file's check itself ends with a \<^verbatim>\<open>TypeError\<close>.\<close>

lemma unhashable_entry_raises:
  "doc_problems (JObj [(''schema'', JInt 1), (''findings'', JArr [JObj [(''rule'', JArr [])]])]) = Inl TypeError"
  by (simp add: doc_problems_def beyond_def entry_key3_def raw_get_def hashable3_def hashable_def)

end
