(* ===== verification/Readme.thy ===== *)
theory Readme
  imports Managed Rendering KnownApps PyUrl Ratchet JsonFmt Manifest
begin

text \<open>
  \<^verbatim>\<open>listing/readme.py\<close>: the managed blocks of \<^verbatim>\<open>README.md\<close>, found by their markers, rendered, or taken out when the module is off,
  and the values their templates read.  A block's rendered body is a parameter (Jinja's); a line is what \<^verbatim>\<open>split("\n")\<close> gives.
\<close>

section \<open>Markers\<close>

definition README_BLOCKS :: "string list" where
  "README_BLOCKS = [''header'', ''compatibility'', ''installation'', ''support'', ''development'', ''license'']"

definition begin_marker :: "string \<Rightarrow> string" where
  "begin_marker name = ''<!-- frappe-nix:begin '' @ name @ '' -->''"

definition end_marker :: "string \<Rightarrow> string" where
  "end_marker name = ''<!-- frappe-nix:end '' @ name @ '' -->''"

text \<open>\<^verbatim>\<open>^\s*<!--\s*frappe-nix:(begin|end)\s+([a-z-]+)\s*-->\s*$\<close>: whether it begins a block, and the name.  The name is the longest run
  of its characters; where the comment's own dashes follow without a space, the run gives two of them back.\<close>

definition block_name_char :: "char \<Rightarrow> bool" where "block_name_char c \<longleftrightarrow> is_lower c \<or> c = CHR ''-''"

definition all_blank :: "string \<Rightarrow> bool" where "all_blank l \<longleftrightarrow> strip l = []"

definition marker_name :: "string \<Rightarrow> string option" where
  "marker_name s =
     (let r = takeWhile block_name_char s; rest = dropWhile block_name_char s; t = lstrip rest in
      if r = [] then None
      else if startswith t ''-->'' \<and> all_blank (drop 3 t) then Some r
      else if endswith r ''--'' \<and> length r > 2 \<and> startswith rest ''>'' \<and> all_blank (drop 1 rest) then Some (take (length r - 2) r)
      else None)"

definition marker_rest :: "string \<Rightarrow> string option" where
  "marker_rest s = (case s of c # _ \<Rightarrow> if is_ws c then marker_name (lstrip s) else None | [] \<Rightarrow> None)"

definition block_marker :: "string \<Rightarrow> (bool \<times> string) option" where
  "block_marker line =
     (let s = lstrip line; t = lstrip (drop 4 s); u = drop 11 t in
      if \<not> startswith s ''<!--'' \<or> \<not> startswith t ''frappe-nix:'' then None
      else if startswith u ''begin'' then map_option (Pair True) (marker_rest (drop 5 u))
      else if startswith u ''end'' then map_option (Pair False) (marker_rest (drop 3 u))
      else None)"

section \<open>The blocks of a text\<close>

type_synonym block_span = "string \<times> nat \<times> nat"

text \<open>The loop over the numbered lines: what was found, and the block that is open.\<close>

fun scan_blocks ::
  "nat \<Rightarrow> (string \<times> nat) option \<Rightarrow> block_span list \<Rightarrow> string list \<Rightarrow> exn + block_span list \<times> (string \<times> nat) option" where
  "scan_blocks n opened got [] = Inr (got, opened)"
| "scan_blocks n opened got (l # ls) =
     (case block_marker l of
        None \<Rightarrow> scan_blocks (Suc n) opened got ls
      | Some (begins, name) \<Rightarrow>
          if name \<notin> set README_BLOCKS then Inl (ConfigError ''unknown frappe-nix block'')
          else if begins then
            (case opened of
               Some _ \<Rightarrow> Inl (ConfigError ''a block begins inside another'')
             | None \<Rightarrow> scan_blocks (Suc n) (Some (name, n)) got ls)
          else
            (case opened of
               Some (name', start) \<Rightarrow>
                 if name' \<noteq> name then Inl (ConfigError ''closes no open block'')
                 else scan_blocks (Suc n) None (got @ [(name, start, n)]) ls
             | None \<Rightarrow> Inl (ConfigError ''closes no open block'')))"

definition readme_blocks :: "string \<Rightarrow> exn + block_span list" where
  "readme_blocks text =
     bindE (scan_blocks 0 None [] (split_on newline text)) (\<lambda>(got, opened).
       let names = map fst got; missing = filter (\<lambda>name. name \<notin> set names) README_BLOCKS in
       if opened \<noteq> None then Inl (ConfigError ''block is never closed'')
       else if list_ex (\<lambda>name. count_list names name > 1) README_BLOCKS then Inl (ConfigError ''block appears several times'')
       else if missing \<noteq> [] then Inl (ConfigError ''lacks the markers of a block'')
       else if names \<noteq> README_BLOCKS then Inl (ConfigError ''the blocks are in another order'')
       else Inr got)"

definition has_markers :: "string \<Rightarrow> bool" where
  "has_markers text \<longleftrightarrow>
     list_ex (\<lambda>l. case block_marker l of Some (_, name) \<Rightarrow> name \<in> set README_BLOCKS | None \<Rightarrow> False) (split_on newline text)"

section \<open>Taking the blocks out\<close>

text \<open>The lines outside the blocks, and where a block stood among them.\<close>

fun strip_scan :: "string list \<Rightarrow> string list \<Rightarrow> nat list \<Rightarrow> bool \<Rightarrow> string list \<times> nat list" where
  "strip_scan [] kept seams hid = (kept, seams)"
| "strip_scan (l # ls) kept seams hid =
     (case block_marker l of
        Some (begins, name) \<Rightarrow>
          if name \<in> set README_BLOCKS then strip_scan ls kept (seams @ [length kept]) begins
          else strip_scan ls (if hid then kept else kept @ [l]) seams hid
      | None \<Rightarrow> strip_scan ls (if hid then kept else kept @ [l]) seams hid)"

text \<open>A run of blank lines that touches a seam keeps one of them.\<close>

function keep_runs :: "nat list \<Rightarrow> nat \<Rightarrow> string list \<Rightarrow> string list" where
  "keep_runs seams i [] = []"
| "keep_runs seams i (l # ls) =
     (if \<not> all_blank l then l # keep_runs seams (Suc i) ls
      else let rn = takeWhile all_blank (l # ls); stop = i + length rn in
        (if list_ex (\<lambda>s. i \<le> s \<and> s \<le> stop) seams then take 1 rn else rn) @ keep_runs seams stop (dropWhile all_blank (l # ls)))"
  by pat_completeness auto
termination
  by (relation "measure (\<lambda>(seams, i, ls). length ls)") (auto simp: le_imp_less_Suc length_dropWhile_le)

definition strip_blocks :: "string \<Rightarrow> string" where
  "strip_blocks text =
     (case strip_scan (split_on newline text) [] [] False of (kept, seams) \<Rightarrow> join [newline] (keep_runs seams 0 kept))"

section \<open>Rendering\<close>

definition block_lines :: "string \<Rightarrow> string list" where
  "block_lines rendered = (if rendered = [] then [] else [[]] @ split_on newline rendered @ [[]])"

fun render_loop :: "(string \<Rightarrow> exn + string) \<Rightarrow> string list \<Rightarrow> block_span list \<Rightarrow> string list \<Rightarrow> nat \<Rightarrow> exn + string list" where
  "render_loop body lines [] out done_to = Inr (out @ drop done_to lines)"
| "render_loop body lines ((name, start, stop) # bs) out done_to =
     bindE (body name) (\<lambda>rendered.
       render_loop body lines bs
         (out @ take (start + 1 - done_to) (drop done_to lines) @ block_lines (strip_by is_nl rendered) @ [lines ! stop]) (stop + 1))"

definition render_readme :: "(string \<Rightarrow> exn + string) \<Rightarrow> string option \<Rightarrow> exn + string" where
  "render_readme body current =
     (case current of
        None \<Rightarrow> Inl (ConfigError ''does not exist, and the readme module renders blocks into it'')
      | Some cur \<Rightarrow>
          bindE (readme_blocks cur) (\<lambda>bs.
          bindE (render_loop body (split_on newline cur) bs [] 0) (\<lambda>out. Inr (join [newline] out))))"

section \<open>The values the templates read\<close>

text \<open>\<^verbatim>\<open>urllib.parse.quote(text, safe="")\<close> on the bytes of a text, and the path segment of a badge.\<close>

definition upper_hex :: "nat \<Rightarrow> char" where "upper_hex n = char_of (if n < 10 then 48 + n else 55 + n)"

definition url_quote :: "string \<Rightarrow> string" where
  "url_quote s =
     concat (map (\<lambda>c. if is_alnum c \<or> c \<in> {CHR ''_'', CHR ''.'', CHR ''-'', CHR ''~''} then [c]
                       else [CHR ''%'', upper_hex (of_char c div 16), upper_hex (of_char c mod 16)]) s)"

definition shield :: "string \<Rightarrow> string" where
  "shield text = url_quote (replace_all ''_'' ''__'' (replace_all ''-'' ''--'' text))"

text \<open>The repository's facts the values are worked out from; \<open>rd_year\<close> is the year of the first commit, nothing before one, and
  \<open>rd_txt\<close> Python's text of a value that is not a string.\<close>

record readme_ctx =
  rd_cfg :: json
  rd_org :: json
  rd_modules :: "string \<Rightarrow> bool"
  rd_app :: string
  rd_hyphen :: string
  rd_repo :: string
  rd_host :: string
  rd_version :: "string option"
  rd_integration :: string
  rd_release :: "string option"
  rd_year :: "json option"
  rd_major :: nat
  rd_siblings :: "jtable list"
  rd_precommit :: bool
  rd_shots :: work_file
  rd_ships_ci :: bool
  rd_ip_ok :: "string \<Rightarrow> bool"
  rd_txt :: "json \<Rightarrow> string"

definition shot_themes :: "json \<Rightarrow> jtable list \<Rightarrow> exn + json list" where
  "shot_themes name shots =
     mapE (\<lambda>s. if hashable (raw_get s ''theme'' JNull) then Inr (raw_get s ''theme'' JNull) else Inl TypeError)
       (filter (\<lambda>s. py_eq (raw_get s ''name'' JNull) name) shots)"

definition hero :: "readme_ctx \<Rightarrow> exn + json" where
  "hero x =
     (if \<not> rd_modules x ''screenshots'' then Inr JNull
      else case rd_shots x of
        Missing \<Rightarrow> Inr JNull
      | Unreadable \<Rightarrow> Inl (ConfigError ''docs/screenshots/manifest.json'')
      | Text t \<Rightarrow>
          (case loads t of
             None \<Rightarrow> Inl (ConfigError ''docs/screenshots/manifest.json'')
           | Some (JArr ss) \<Rightarrow>
               let shots = filter (\<lambda>s. raw_get s ''readme'' JNull = JStr ''hero'') (concat (map (\<lambda>s. case s of JObj d \<Rightarrow> [d] | _ \<Rightarrow> []) ss)) in
               (case shots of
                  [] \<Rightarrow> Inr JNull
                | s # _ \<Rightarrow>
                    bindE (shot_themes (raw_get s ''name'' JNull) shots) (\<lambda>themes.
                    Inr (JObj [(''name'', raw_get s ''name'' JNull),
                      (''alt'', JStr (text_or (rd_txt x) (jor (raw_get s ''alt'' JNull) (JStr [])))),
                      (''light'', JBool (JStr ''light'' \<in> set themes)), (''dark'', JBool (JStr ''dark'' \<in> set themes))])))
           | Some _ \<Rightarrow> Inl (ConfigError ''docs/screenshots/manifest.json is not a list'')))"

definition ljust :: "nat \<Rightarrow> string \<Rightarrow> string" where
  "ljust w s = s @ replicate (w - text_width s) (CHR '' '')"

definition table_row :: "nat list \<Rightarrow> string list \<Rightarrow> string" where
  "table_row widths cells = ''| '' @ join '' | '' (map (\<lambda>(c, w). ljust w c) (zip cells widths)) @ '' |''"

definition md_table :: "string list \<Rightarrow> string list list \<Rightarrow> string" where
  "md_table heads rows =
     (let widths = map (\<lambda>i. fold max (map (\<lambda>r. text_width (r ! i)) rows) (max 3 (text_width (heads ! i)))) [0..<length heads] in
      join [newline] (table_row widths heads # table_row widths (map (\<lambda>w. replicate w (CHR ''-'')) widths) # map (table_row widths) rows))"

definition text_item :: "json \<Rightarrow> string \<Rightarrow> exn + string" where
  "text_item v k = bindE (ditem v k) (\<lambda>u. case u of JStr s \<Rightarrow> Inr s | _ \<Rightarrow> Inl AttributeError)"

definition template_item :: "readme_ctx \<Rightarrow> string \<Rightarrow> exn + string" where
  "template_item x k =
     bindE (text_item (rd_org x) k) (\<lambda>s. Inr (url_template s (rd_app x) (rd_hyphen x) (Some (rd_repo x))))"

definition main_tags :: "readme_ctx \<Rightarrow> exn + bool" where
  "main_tags x =
     (if \<not> rd_modules x ''releases'' then Inr False
      else bindE (bindE (ditem (rd_cfg x) ''releases'') (\<lambda>r. ditem r ''branching'')) (\<lambda>b. Inr (b = JStr ''main+tags'')))"

definition release_or_integration :: "readme_ctx \<Rightarrow> string" where
  "release_or_integration x = (case rd_release x of Some b \<Rightarrow> if b \<noteq> [] then b else rd_integration x | None \<Rightarrow> rd_integration x)"

definition install_ref :: "readme_ctx \<Rightarrow> json \<Rightarrow> bool \<Rightarrow> exn + json" where
  "install_ref x given tags =
     (if truthy given then Inr given
      else if tags then
        (case rd_version x of
           Some v \<Rightarrow>
             if v = [] then Inl (ConfigError ''has no __version__'')
             else bindE (bindE (ditem (rd_cfg x) ''releases'') (\<lambda>r. ditem r ''tag-prefix'')) (\<lambda>p. Inr (JStr (text_or (rd_txt x) p @ v)))
         | None \<Rightarrow> Inl (ConfigError ''has no __version__''))
      else Inr (JStr (release_or_integration x)))"

definition link_of :: "readme_ctx \<Rightarrow> json \<Rightarrow> exn + json" where
  "link_of x l =
     bindE (ditem l ''label'') (\<lambda>a. bindE (ditem l ''url'') (\<lambda>u.
     Inr (JObj [(''label'', JStr (text_or (rd_txt x) a)), (''url'', JStr (text_or (rd_txt x) u))])))"

definition is_required :: "jtable \<Rightarrow> bool" where "is_required s = truthy (raw_get s ''required'' JNull)"

definition sibling_row :: "readme_ctx \<Rightarrow> jtable \<Rightarrow> string list" where
  "sibling_row x s =
     (let t = (\<lambda>k. text_or (rd_txt x) (raw_get s k JNull)) in
      [''['' @ t ''name'' @ ''](https://github.com/'' @ t ''repo'' @ '')'', ''`'' @ t ''range'' @ ''`''])"

definition on_github :: "readme_ctx \<Rightarrow> bool" where "on_github x \<longleftrightarrow> rd_host x \<in> {[], ''github.com''}"

text \<open>What the values need of the app, in the code's order: the repository, the ref to install, the year, the links, a way to
  ask for support.\<close>

definition readme_needs :: "readme_ctx \<Rightarrow> exn + json \<times> bool \<times> json \<times> string \<times> url_parts \<times> json list" where
  "readme_needs x =
     (if rd_repo x = [] then Inl (ConfigError ''the blocks link the repository, which is unknown'')
      else bindE (main_tags x) (\<lambda>tags.
           bindE (bindE (ditem (rd_cfg x) ''readme'') (\<lambda>r. ditem r ''install-ref'')) (\<lambda>given.
           bindE (install_ref x given tags) (\<lambda>ref.
           case rd_year x of
             None \<Rightarrow> Inl (ConfigError ''there is no commit yet'')
           | Some year \<Rightarrow>
               bindE (text_item (rd_org x) ''docs-url'') (\<lambda>d.
               bindE (if d = [] then Inr [] else template_item x ''docs-url'') (\<lambda>docs_url.
               bindE (urlsplit (rd_ip_ok x) docs_url) (\<lambda>docs.
               bindE (bindE (bindE (ditem (rd_org x) ''readme'') (\<lambda>r. ditem r ''links'')) iter) (\<lambda>ls.
               bindE (mapE (link_of x) ls) (\<lambda>links.
               bindE (ditem (rd_org x) ''support-url'') (\<lambda>support.
               bindE (ditem (rd_org x) ''email'') (\<lambda>email.
               if \<not> truthy support \<and> \<not> truthy email \<and> \<not> on_github x
               then Inl (ConfigError ''needs org.support-url or org.email'')
               else Inr (ref, tags \<and> \<not> truthy given, year, docs_url, docs, links))))))))))))"

definition readme_values :: "readme_ctx \<Rightarrow> exn + jtable" where
  "readme_values x =
     bindE (readme_needs x) (\<lambda>(ref, released, year, docs_url, docs, links).
     bindE (template_item x ''repo-url'') (\<lambda>repo_url.
     bindE (ditem (rd_org x) ''support-url'') (\<lambda>support.
     bindE (if truthy support then template_item x ''support-url'' else Inr []) (\<lambda>support_url.
     bindE (ditem (rd_org x) ''email'') (\<lambda>email.
     bindE (bindE (bindE (ditem (rd_org x) ''readme'') (\<lambda>r. ditem r ''badges'')) iter) (\<lambda>badges.
     bindE (text_item (rd_org x) ''license'') (\<lambda>license.
     bindE (hero x) (\<lambda>shot.
     bindE (bindE (ditem (rd_cfg x) ''listing'') (\<lambda>l. ditem l ''approved'')) (\<lambda>approved.
     bindE (ditem (rd_org x) ''copyright-holder'') (\<lambda>holder.
     bindE (ditem (rd_org x) ''dev-docs-url'') (\<lambda>dev_docs.
     let github = on_github x; branch = release_or_integration x; required = filter is_required (rd_siblings x) in
     if list_ex (\<lambda>b. \<not> is_dict b) badges then Inl TypeError
     else Inr [(''repo_url'', JStr repo_url), (''github'', JBool github),
       (''issues_url'', JStr (if github then ''https://github.com/'' @ rd_repo x @ ''/issues'' else [])),
       (''support_url'', JStr support_url), (''email'', email), (''links'', JArr links), (''badges'', JArr badges),
       (''docs_url'', JStr docs_url), (''docs_label'', JStr (netloc docs @ u_path docs)),
       (''docs_badge'', JStr (if docs_url \<noteq> [] then ''https://img.shields.io/badge/docs-'' @ shield (netloc docs) @ ''-blue'' else [])),
       (''ci_badge'', JBool (rd_modules x ''ci'' \<and> github \<and> rd_ships_ci x)),
       (''release_badge'', JBool (rd_modules x ''releases'' \<and> github)), (''license'', JStr license),
       (''license_badge'', JStr (''https://img.shields.io/badge/license-'' @ shield license @ ''-blue'')),
       (''frappe_badge'', JStr (''https://img.shields.io/badge/Frappe-v'' @ show_nat (rd_major x) @ ''-blue'')),
       (''logo'', JStr (if rd_modules x ''icons'' then rd_app x @ ''/public/images/'' @ rd_app x @ ''-logo.svg'' else [])),
       (''hero'', shot), (''install_ref'', ref), (''release_markers'', JBool released), (''marketplace'', JBool (truthy approved)),
       (''branch'', JStr branch), (''required'', JArr (map JObj required)),
       (''branch_table'', JStr (md_table [''Frappe'', ''Branch''] [[''v'' @ show_nat (rd_major x), ''`'' @ branch @ ''`'']])),
       (''requires_table'', JStr (md_table [''Requires'', ''Version''] (map (sibling_row x) required))),
       (''prek'', JBool (rd_precommit x)), (''tests'', JBool (rd_modules x ''tests'')), (''year'', year),
       (''copyright_holder'', holder), (''dev_docs_url'', dev_docs)])))))))))))"

text \<open>A block's text: from the org profile's template when it has one for the block, and with the values above.\<close>

definition from_profile :: "(string \<Rightarrow> bool) option \<Rightarrow> string \<Rightarrow> bool" where
  "from_profile templates name =
     (case templates of None \<Rightarrow> False | Some is_file \<Rightarrow> is_file (''readme/'' @ name @ ''.md.j2''))"

definition readme_body ::
  "(bool \<Rightarrow> string \<Rightarrow> jtable \<Rightarrow> exn + string) \<Rightarrow> (string \<Rightarrow> bool) option \<Rightarrow> readme_ctx \<Rightarrow> string \<Rightarrow> exn + string" where
  "readme_body jinja templates x name =
     bindE (readme_values x) (\<lambda>vs. jinja (from_profile templates name) (''readme/'' @ name @ ''.md.j2'') vs)"

section \<open>A text in which the blocks stand\<close>

text \<open>A block with the lines before it: these, its first marker, its name, its lines, its last marker.\<close>

type_synonym segment = "string list \<times> string \<times> string \<times> string list \<times> string"

definition plain :: "string list \<Rightarrow> bool" where
  "plain ls \<longleftrightarrow> (\<forall>l \<in> set ls. block_marker l = None)"

fun seg_lines :: "segment list \<Rightarrow> string list" where
  "seg_lines [] = []"
| "seg_lines ((gap, b, name, body, e) # ss) = gap @ b # body @ e # seg_lines ss"

fun seg_ok :: "segment list \<Rightarrow> bool" where
  "seg_ok [] = True"
| "seg_ok ((gap, b, name, body, e) # ss) \<longleftrightarrow>
     plain gap \<and> block_marker b = Some (True, name) \<and> plain body \<and> block_marker e = Some (False, name) \<and> name \<in> set README_BLOCKS \<and> seg_ok ss"

fun seg_spans :: "nat \<Rightarrow> segment list \<Rightarrow> block_span list" where
  "seg_spans n [] = []"
| "seg_spans n ((gap, b, name, body, e) # ss) =
     (name, n + length gap, n + length gap + 1 + length body) # seg_spans (n + length gap + 2 + length body) ss"

fun seg_gaps :: "segment list \<Rightarrow> string list list" where
  "seg_gaps [] = []"
| "seg_gaps ((gap, b, name, body, e) # ss) = gap # seg_gaps ss"

definition seg_names :: "segment list \<Rightarrow> string list" where
  "seg_names ss = map (\<lambda>(gap, b, name, body, e). name) ss"

lemma plain_simps [simp]:
  "plain []" "plain (l # ls) \<longleftrightarrow> block_marker l = None \<and> plain ls" "plain (ks @ ls) \<longleftrightarrow> plain ks \<and> plain ls"
  by (auto simp: plain_def)

lemma seg_names_simps [simp]:
  "seg_names [] = []" "seg_names ((gap, b, name, body, e) # ss) = name # seg_names ss"
  by (simp_all add: seg_names_def)

lemma seg_spans_names [simp]: "map fst (seg_spans n ss) = seg_names ss"
  by (induction n ss rule: seg_spans.induct) simp_all

lemma seg_spans_length [simp]: "length (seg_spans n ss) = length ss"
  by (induction n ss rule: seg_spans.induct) simp_all

text \<open>The scan of plain lines, of a block, and of a whole text.\<close>

lemma scan_plain: "plain ls \<Longrightarrow> scan_blocks n opened got (ls @ ks) = scan_blocks (n + length ls) opened got ks"
  by (induction ls arbitrary: n) simp_all

lemma scan_segs:
  "seg_ok ss \<Longrightarrow> plain after \<Longrightarrow> scan_blocks n None got (seg_lines ss @ after) = Inr (got @ seg_spans n ss, None)"
proof (induction n ss arbitrary: got rule: seg_spans.induct)
  case (1 n)
  then show ?case using scan_plain [of after n None got "[]"] by simp
next
  case (2 n gap b name body e ss)
  then show ?case by (simp add: scan_plain ac_simps)
qed

lemma scan_shape:
  "(scan_blocks n None got ls = Inr (res, None) \<longrightarrow>
     (\<exists>ss after. ls = seg_lines ss @ after \<and> seg_ok ss \<and> plain after \<and> res = got @ seg_spans n ss)) \<and>
   (scan_blocks n (Some (name, start)) got ls = Inr (res, None) \<longrightarrow> name \<in> set README_BLOCKS \<longrightarrow>
     (\<exists>body e ss after. ls = body @ e # seg_lines ss @ after \<and> plain body \<and> block_marker e = Some (False, name) \<and> seg_ok ss \<and> plain after \<and>
        res = got @ (name, start, n + length body) # seg_spans (n + length body + 1) ss))"
proof (induction ls arbitrary: n got name start)
  case Nil
  have "\<exists>ss after. [] = seg_lines ss @ after \<and> seg_ok ss \<and> plain after \<and> got = got @ seg_spans n ss"
    by (rule exI [of _ "[]"]) simp
  then show ?case by simp
next
  case (Cons l ls)
  note outer = Cons.IH [THEN conjunct1, rule_format] and inner = Cons.IH [THEN conjunct2, rule_format]
  show ?case
  proof (intro conjI impI)
    assume s: "scan_blocks n None got (l # ls) = Inr (res, None)"
    show "\<exists>ss after. l # ls = seg_lines ss @ after \<and> seg_ok ss \<and> plain after \<and> res = got @ seg_spans n ss"
    proof (cases "block_marker l")
      case None
      with s have "scan_blocks (Suc n) None got ls = Inr (res, None)" by simp
      from outer [OF this] obtain ss after where r: "ls = seg_lines ss @ after" "seg_ok ss" "plain after" "res = got @ seg_spans (Suc n) ss"
        by blast
      show ?thesis
      proof (cases ss)
        case Nil
        then show ?thesis using r None by (intro exI [of _ "[]"] exI [of _ "l # ls"]) simp
      next
        case (Cons s ss')
        obtain gap b nm body e where s': "s = (gap, b, nm, body, e)" by (cases s)
        show ?thesis
          using r None Cons s' by (intro exI [of _ "(l # gap, b, nm, body, e) # ss'"] exI [of _ after]) simp
      qed
    next
      case (Some bn)
      with s obtain nm where m: "block_marker l = Some (True, nm)" "nm \<in> set README_BLOCKS"
        and s': "scan_blocks (Suc n) (Some (nm, n)) got ls = Inr (res, None)"
        by (cases bn) (auto split: if_splits)
      from inner [OF s' m(2)] obtain body e ss after where r: "ls = body @ e # seg_lines ss @ after" "plain body" "block_marker e = Some (False, nm)"
        "seg_ok ss" "plain after" "res = got @ (nm, n, Suc n + length body) # seg_spans (Suc n + length body + 1) ss"
        by blast
      show ?thesis using r m by (intro exI [of _ "([], l, nm, body, e) # ss"] exI [of _ after]) simp
    qed
  next
    assume s: "scan_blocks n (Some (name, start)) got (l # ls) = Inr (res, None)" and nm: "name \<in> set README_BLOCKS"
    show "\<exists>body e ss after. l # ls = body @ e # seg_lines ss @ after \<and> plain body \<and> block_marker e = Some (False, name) \<and> seg_ok ss \<and> plain after \<and>
        res = got @ (name, start, n + length body) # seg_spans (n + length body + 1) ss"
    proof (cases "block_marker l")
      case None
      with s have "scan_blocks (Suc n) (Some (name, start)) got ls = Inr (res, None)" by simp
      from inner [OF this nm] obtain body e ss after where r: "ls = body @ e # seg_lines ss @ after" "plain body" "block_marker e = Some (False, name)"
        "seg_ok ss" "plain after" "res = got @ (name, start, Suc n + length body) # seg_spans (Suc n + length body + 1) ss"
        by blast
      show ?thesis using r None by (intro exI [of _ "l # body"] exI [of _ e] exI [of _ ss] exI [of _ after]) simp
    next
      case (Some bn)
      with s have m: "block_marker l = Some (False, name)"
        and s': "scan_blocks (Suc n) None (got @ [(name, start, n)]) ls = Inr (res, None)"
        by (cases bn; auto split: if_splits)+
      from outer [OF s'] obtain ss after where r: "ls = seg_lines ss @ after" "seg_ok ss" "plain after"
        "res = (got @ [(name, start, n)]) @ seg_spans (Suc n) ss" by blast
      show ?thesis using r m by (intro exI [of _ "[]"] exI [of _ l] exI [of _ ss] exI [of _ after]) simp
    qed
  qed
qed

lemma distinct_blocks: "distinct README_BLOCKS"
  by (simp add: README_BLOCKS_def)

lemma count_distinct: "distinct xs \<Longrightarrow> count_list xs x \<le> 1"
  by (induction xs) (auto simp: count_list_0_iff)

lemma readme_blocks_iff:
  "readme_blocks text = Inr bs \<longleftrightarrow>
   (\<exists>ss after. split_on newline text = seg_lines ss @ after \<and> seg_ok ss \<and> plain after \<and> seg_names ss = README_BLOCKS \<and>
      bs = seg_spans 0 ss)" (is "?L \<longleftrightarrow> ?R")
proof
  assume ?L
  then have s: "scan_blocks 0 None [] (split_on newline text) = Inr (bs, None)" and names: "map fst bs = README_BLOCKS"
    by (auto simp: readme_blocks_def Let_def sumres simp flip: not_None_eq split: if_splits prod.splits)
  from scan_shape [THEN conjunct1, rule_format, OF s] names show ?R by (metis append_Nil seg_spans_names)
next
  assume ?R
  then obtain ss after where r: "split_on newline text = seg_lines ss @ after" "seg_ok ss" "plain after" "seg_names ss = README_BLOCKS"
    "bs = seg_spans 0 ss" by blast
  have "count_list README_BLOCKS name \<le> 1" for name
    by (rule count_distinct [OF distinct_blocks])
  then show ?L using r scan_segs [OF r(2,3), of 0 "[]"] by (simp add: readme_blocks_def Let_def list_ex_iff not_less)
qed

section \<open>Rendering keeps the app's lines\<close>

fun resegment :: "(string \<Rightarrow> exn + string) \<Rightarrow> segment list \<Rightarrow> exn + segment list" where
  "resegment body [] = Inr []"
| "resegment body ((gap, b, name, old, e) # ss) =
     bindE (body name) (\<lambda>r. bindE (resegment body ss) (\<lambda>rs. Inr ((gap, b, name, block_lines (strip_by is_nl r), e) # rs)))"

lemma render_segs:
  assumes "lines = ahead @ seg_lines ss @ after"
  shows "render_loop body lines (seg_spans (length ahead) ss) out (length ahead) =
         bindE (resegment body ss) (\<lambda>rs. Inr (out @ seg_lines rs @ after))"
  using assms
proof (induction body ss arbitrary: ahead out rule: resegment.induct)
  case (2 body gap b name old e ss)
  let ?ahead = "ahead @ gap @ b # old @ [e]"
  have "lines ! (length ahead + length gap + 1 + length old) = e"
    using 2(2) by (simp add: nth_append)
  moreover have "take (length gap + 1) (drop (length ahead) lines) = gap @ [b]" using 2(2) by simp
  moreover have "length ?ahead = length ahead + length gap + 2 + length old" by simp
  ultimately show ?case
    using 2(1) [of _ ?ahead] 2(2) by (cases "body name") (auto simp: bindE_def add.assoc split: sum.splits)
qed simp

definition readme_ok :: "(string \<Rightarrow> exn + string) \<Rightarrow> bool" where
  "readme_ok body \<longleftrightarrow> (\<forall>name r. body name = Inr r \<longrightarrow> plain (split_on newline (strip_by is_nl r)))"

lemma marker_Nil [simp]: "block_marker [] = None"
  by (simp add: block_marker_def startswith_def lstrip_by_def Let_def)

lemma plain_block: "readme_ok body \<Longrightarrow> body name = Inr r \<Longrightarrow> plain (block_lines (strip_by is_nl r))"
  by (simp add: readme_ok_def block_lines_def)

lemma resegment_facts:
  assumes "resegment body ss = Inr rs"
  shows "seg_names rs = seg_names ss" "readme_ok body \<Longrightarrow> seg_ok ss \<Longrightarrow> seg_ok rs"
    and "resegment body rs = Inr rs"
    and "\<forall>l \<in> set (seg_lines ss). newline \<notin> set l \<Longrightarrow> \<forall>l \<in> set (seg_lines rs). newline \<notin> set l"
proof -
  have block: "newline \<notin> set l" if "l \<in> set (block_lines r)" for l r
    using that split_on_parts [of l newline r] by (auto simp: block_lines_def split: if_splits)
  have "seg_names rs = seg_names ss \<and> (readme_ok body \<longrightarrow> seg_ok ss \<longrightarrow> seg_ok rs) \<and> resegment body rs = Inr rs \<and>
    ((\<forall>l \<in> set (seg_lines ss). newline \<notin> set l) \<longrightarrow> (\<forall>l \<in> set (seg_lines rs). newline \<notin> set l))"
    using assms
  proof (induction body ss arbitrary: rs rule: resegment.induct)
    case (2 body gap b name old e ss)
    then obtain r rs' where r: "body name = Inr r" "resegment body ss = Inr rs'"
      "rs = (gap, b, name, block_lines (strip_by is_nl r), e) # rs'" by (auto simp: sumres)
    with 2 show ?case by (auto simp: plain_block dest: block)
  qed simp
  then show "seg_names rs = seg_names ss" "readme_ok body \<Longrightarrow> seg_ok ss \<Longrightarrow> seg_ok rs" "resegment body rs = Inr rs"
    "\<forall>l \<in> set (seg_lines ss). newline \<notin> set l \<Longrightarrow> \<forall>l \<in> set (seg_lines rs). newline \<notin> set l" by blast+
qed

text \<open>The app's part: what stands around the blocks, the marker lines with it.\<close>

fun outside :: "string list \<Rightarrow> block_span list \<Rightarrow> nat \<Rightarrow> string list list" where
  "outside lines [] k = [drop k lines]"
| "outside lines ((name, start, stop) # bs) k = take (start + 1 - k) (drop k lines) # outside lines bs stop"

definition readme_theirs :: "string option \<Rightarrow> string list list" where
  "readme_theirs current =
     (case current of
        None \<Rightarrow> []
      | Some t \<Rightarrow> (case readme_blocks t of Inl _ \<Rightarrow> [] | Inr bs \<Rightarrow> outside (split_on newline t) bs 0))"

fun seg_outside :: "string list \<Rightarrow> segment list \<Rightarrow> string list \<Rightarrow> string list list" where
  "seg_outside start [] after = [start @ after]"
| "seg_outside start ((gap, b, name, body, e) # ss) after = (start @ gap @ [b]) # seg_outside [e] ss after"

lemma outside_segs:
  assumes "lines = ahead @ start @ seg_lines ss @ after"
  shows "outside lines (seg_spans (length (ahead @ start)) ss) (length ahead) = seg_outside start ss after"
  using assms
proof (induction start ss after arbitrary: ahead rule: seg_outside.induct)
  case (2 start gap b name body e ss after)
  have "take (length start + (length gap + 1)) (drop (length ahead) lines) = start @ gap @ [b]" using 2(2) by simp
  moreover have "outside lines (seg_spans (length ((ahead @ start @ gap @ b # body) @ [e])) ss) (length (ahead @ start @ gap @ b # body)) =
      seg_outside [e] ss after"
    by (rule 2(1)) (simp add: 2(2))
  ultimately show ?case by (simp add: ac_simps)
qed simp

lemma resegment_outside: "resegment body ss = Inr rs \<Longrightarrow> seg_outside start rs after = seg_outside start ss after"
  by (induction body ss arbitrary: rs start rule: resegment.induct) (auto simp: sumres)

lemma theirs_segs:
  assumes "split_on newline t = seg_lines ss @ after" "seg_ok ss" "plain after" "seg_names ss = README_BLOCKS"
  shows "readme_theirs (Some t) = seg_outside [] ss after"
proof -
  have "readme_blocks t = Inr (seg_spans 0 ss)" using assms readme_blocks_iff by blast
  then show ?thesis using outside_segs [of "split_on newline t" "[]" "[]" ss after] assms(1) by (simp add: readme_theirs_def)
qed

text \<open>A README that is rendered: the segments of the old text with the bodies rendered.\<close>

lemma render_shape:
  assumes ok: "readme_ok body" and t: "render_readme body cur = Inr t"
  obtains c ss rs after where "cur = Some c" "split_on newline c = seg_lines ss @ after" "seg_ok ss" "plain after"
    "seg_names ss = README_BLOCKS" "resegment body ss = Inr rs" "split_on newline t = seg_lines rs @ after" "seg_ok rs"
proof -
  obtain c bs out where c: "cur = Some c" "readme_blocks c = Inr bs" and out: "render_loop body (split_on newline c) bs [] 0 = Inr out"
    and joined: "t = join [newline] out" using t by (auto simp: render_readme_def sumres split: option.splits)
  obtain ss after where s: "split_on newline c = seg_lines ss @ after" "seg_ok ss" "plain after" "seg_names ss = README_BLOCKS"
    "bs = seg_spans 0 ss" using c(2) readme_blocks_iff by blast
  obtain rs where rs: "resegment body ss = Inr rs" "out = seg_lines rs @ after"
    using out render_segs [of "split_on newline c" "[]" ss after body "[]"] s(1,5) by (auto simp: bindE_def split: sum.splits)
  note facts = resegment_facts [OF rs(1)]
  have "\<forall>l \<in> set (split_on newline c). newline \<notin> set l" using split_on_parts by blast
  then have "\<forall>l \<in> set out. newline \<notin> set l" using facts(4) s(1) rs(2) by auto
  moreover have "out \<noteq> []"
  proof
    assume "out = []"
    then have "rs = []" using rs(2) by (cases rs rule: seg_lines.cases) simp_all
    then show False using facts(1) s(4) by (simp add: README_BLOCKS_def)
  qed
  ultimately have "split_on newline t = seg_lines rs @ after" using joined rs(2) by (simp add: split_join)
  then show ?thesis using that [OF c(1) s(1-4) rs(1) _ facts(2) [OF ok s(2)]] by blast
qed

interpretation readme: managed_text render_readme readme_ok readme_theirs
proof
  fix body cur t assume ok: "readme_ok body" and t: "render_readme body cur = Inr t"
  obtain c ss rs after where s: "cur = Some c" "split_on newline c = seg_lines ss @ after" "seg_ok ss" "plain after"
    "seg_names ss = README_BLOCKS" "resegment body ss = Inr rs" "split_on newline t = seg_lines rs @ after" "seg_ok rs"
    by (rule render_shape [OF ok t])
  note facts = resegment_facts [OF s(6)]
  have names: "seg_names rs = README_BLOCKS" using facts(1) s(5) by simp
  have blocks: "readme_blocks t = Inr (seg_spans 0 rs)" using s(4,7,8) names readme_blocks_iff by blast
  have "render_loop body (split_on newline t) (seg_spans 0 rs) [] 0 = Inr (split_on newline t)"
    using render_segs [of "split_on newline t" "[]" rs after body "[]"] s(7) facts(3) by simp
  then show "render_readme body (Some t) = Inr t" using blocks by (simp add: render_readme_def)
  show "readme_theirs (Some t) = readme_theirs cur"
    using theirs_segs [OF s(7,8,4) names] theirs_segs [OF s(2-5)] resegment_outside [OF s(6)] s(1) by simp
qed

lemma spans_hold:
  "resegment body ss = Inr rs \<Longrightarrow> lines = ahead @ seg_lines rs @ after \<Longrightarrow>
   \<forall>(name, start, stop) \<in> set (seg_spans (length ahead) rs). \<exists>r. body name = Inr r \<and>
     take (stop - start - 1) (drop (start + 1) lines) = block_lines (strip_by is_nl r)"
proof (induction body ss arbitrary: rs ahead rule: resegment.induct)
  case (2 body gap b name old e ss)
  then obtain r rs' where r: "body name = Inr r" "resegment body ss = Inr rs'"
    "rs = (gap, b, name, block_lines (strip_by is_nl r), e) # rs'" by (auto simp: sumres)
  let ?ahead = "ahead @ gap @ b # block_lines (strip_by is_nl r) @ [e]"
  have "lines = ?ahead @ seg_lines rs' @ after" using 2(3) r(3) by simp
  from 2(1) [OF r(1,2) this] show ?case using r 2(3) by (simp add: ac_simps)
qed (simp)

text \<open>C40. Syncing README.md, whatever stands in its blocks now and whatever the templates render (as long as no rendered block holds
  a marker): every block holds its rendered body, the lines around the blocks stay as they are, to the last character, and a
  second sync changes nothing.\<close>

theorem readme_keeps_the_app:
  assumes "readme_ok body" "render_readme body cur = Inr t"
  shows "readme_theirs (Some t) = readme_theirs cur \<and> render_readme body (Some t) = Inr t \<and>
    (\<exists>bs. readme_blocks t = Inr bs \<and>
       (\<forall>(name, start, stop) \<in> set bs. \<exists>r. body name = Inr r \<and>
          take (stop - start - 1) (drop (start + 1) (split_on newline t)) = block_lines (strip_by is_nl r)))"
proof (intro conjI)
  show "readme_theirs (Some t) = readme_theirs cur" by (rule readme.put_theirs [OF assms])
  show "render_readme body (Some t) = Inr t" by (rule readme.put_again [OF assms])
  obtain c ss rs after where s: "cur = Some c" "split_on newline c = seg_lines ss @ after" "seg_ok ss" "plain after"
    "seg_names ss = README_BLOCKS" "resegment body ss = Inr rs" "split_on newline t = seg_lines rs @ after" "seg_ok rs"
    by (rule render_shape [OF assms])
  have "readme_blocks t = Inr (seg_spans 0 rs)"
    using s(4,5,7,8) resegment_facts(1) [OF s(6)] readme_blocks_iff by metis
  moreover have "\<forall>(name, start, stop) \<in> set (seg_spans 0 rs). \<exists>r. body name = Inr r \<and>
      take (stop - start - 1) (drop (start + 1) (split_on newline t)) = block_lines (strip_by is_nl r)"
    using spans_hold [OF s(6), of "split_on newline t" "[]" after] s(7) by simp
  ultimately show "\<exists>bs. readme_blocks t = Inr bs \<and> (\<forall>(name, start, stop) \<in> set bs. \<exists>r. body name = Inr r \<and>
      take (stop - start - 1) (drop (start + 1) (split_on newline t)) = block_lines (strip_by is_nl r))" by blast
qed

definition sample_readme :: string where
  "sample_readme =
     join [newline] ([''# My app''] @ concat (map (\<lambda>name. [begin_marker name, ''old'', end_marker name, ''mine'']) README_BLOCKS))"

section \<open>Taking the blocks out keeps the app's lines\<close>

definition not_blank :: "string list \<Rightarrow> string list" where
  "not_blank ls = filter (\<lambda>l. \<not> all_blank l) ls"

lemma strip_scan_plain:
  "plain ls \<Longrightarrow> strip_scan (ls @ ks) kept seams hid = strip_scan ks (if hid then kept else kept @ ls) seams hid"
  by (induction ls arbitrary: kept) (auto split: if_splits)

lemma strip_scan_segs:
  "seg_ok ss \<Longrightarrow> plain after \<Longrightarrow>
   fst (strip_scan (seg_lines ss @ after) kept seams False) = kept @ concat (seg_gaps ss) @ after"
proof (induction ss arbitrary: kept seams rule: seg_lines.induct)
  case 1
  then show ?case using strip_scan_plain [of after "[]" kept seams False] by simp
qed (simp add: strip_scan_plain)

definition no_marker :: "string \<Rightarrow> bool" where
  "no_marker l \<longleftrightarrow> (case block_marker l of Some (_, name) \<Rightarrow> name \<notin> set README_BLOCKS | None \<Rightarrow> True)"

lemma strip_scan_no_marker:
  "\<forall>l \<in> set kept. no_marker l \<Longrightarrow> \<forall>l \<in> set (fst (strip_scan ls kept seams hid)). no_marker l"
  by (induction ls kept seams hid rule: strip_scan.induct) (auto simp: no_marker_def split: option.splits if_splits)

lemma strip_scan_set: "set (fst (strip_scan ls kept seams hid)) \<subseteq> set kept \<union> set ls"
  by (induction ls kept seams hid rule: strip_scan.induct) (fastforce split: option.splits if_splits)+

lemma keep_runs_set: "set (keep_runs seams i ls) \<subseteq> set ls"
proof (induction seams i ls rule: keep_runs.induct)
  case (2 seams i l ls)
  have "set (take 1 (takeWhile all_blank (l # ls))) \<subseteq> set (l # ls)" "set (takeWhile all_blank (l # ls)) \<subseteq> set (l # ls)"
    "set (dropWhile all_blank (l # ls)) \<subseteq> set (l # ls)" "set (dropWhile all_blank ls) \<subseteq> set ls"
    by (auto dest: set_takeWhileD set_dropWhileD in_set_takeD)
  with 2 show ?case by (auto simp: Let_def subset_iff)
qed simp

lemma keep_runs_not_blank: "not_blank (keep_runs seams i ls) = not_blank ls"
proof (induction seams i ls rule: keep_runs.induct)
  case (2 seams i l ls)
  have blanks: "not_blank ks = []" if "\<forall>k \<in> set ks. all_blank k" for ks using that by (simp add: not_blank_def)
  have "not_blank (l # ls) = not_blank (takeWhile all_blank (l # ls)) @ not_blank (dropWhile all_blank (l # ls))"
    by (simp only: not_blank_def filter_append [symmetric] takeWhile_dropWhile_id)
  moreover have "not_blank (takeWhile all_blank (l # ls)) = []" "not_blank (take 1 (takeWhile all_blank (l # ls))) = []"
    by (auto intro!: blanks dest: set_takeWhileD in_set_takeD)
  ultimately show ?case using 2 by (auto simp: Let_def not_blank_def)
qed simp

text \<open>The lines of a text joined from lines: none of them gives one that is empty.\<close>

lemma split_joined: "\<forall>l \<in> set ls. newline \<notin> set l \<Longrightarrow> split_on newline (join [newline] ls) = (if ls = [] then [[]] else ls)"
  by (cases "ls = []") (simp_all add: split_join)

lemma filter_plain: "plain ls \<Longrightarrow> filter (\<lambda>l. block_marker l = None) ls = ls"
  by (simp add: plain_def filter_id_conv)

lemma outside_plain:
  "seg_ok ss \<Longrightarrow> plain after \<Longrightarrow>
   filter (\<lambda>l. block_marker l = None) (concat (seg_outside start ss after)) =
   filter (\<lambda>l. block_marker l = None) start @ concat (seg_gaps ss) @ after"
  by (induction start ss after rule: seg_outside.induct) (simp_all add: filter_plain)

lemma not_blank_markers:
  "not_blank (filter (\<lambda>l. block_marker l = None) ls) = filter (\<lambda>l. \<not> all_blank l \<and> block_marker l = None) ls"
  by (simp add: not_blank_def conj_commute)

text \<open>When the \<^verbatim>\<open>readme\<close> module is turned off, no marker of a block is left whatever the text was, and where the blocks stood as
  they should, the lines that are left, but for blank ones, are exactly the app's: those around the blocks, in their order.\<close>

theorem readme_off_leaves_the_app:
  "\<not> has_markers (strip_blocks text) \<and>
   (\<forall>bs. readme_blocks text = Inr bs \<longrightarrow>
      not_blank (split_on newline (strip_blocks text)) =
      filter (\<lambda>l. \<not> all_blank l \<and> block_marker l = None) (concat (readme_theirs (Some text))))"
proof -
  define kept where "kept = fst (strip_scan (split_on newline text) [] [] False)"
  define out where "out = keep_runs (snd (strip_scan (split_on newline text) [] [] False)) 0 kept"
  have joined: "strip_blocks text = join [newline] out"
    by (simp add: strip_blocks_def kept_def out_def case_prod_beta)
  have kept_lines: "set kept \<subseteq> set (split_on newline text)"
    unfolding kept_def using strip_scan_set [of "split_on newline text" "[]" "[]" False] by simp
  have out_kept: "set out \<subseteq> set kept" unfolding out_def by (rule keep_runs_set)
  have lines: "split_on newline (strip_blocks text) = (if out = [] then [[]] else out)"
    unfolding joined using out_kept kept_lines split_on_parts by (intro split_joined) blast
  have "\<forall>l \<in> set kept. no_marker l" unfolding kept_def by (rule strip_scan_no_marker) simp
  then have "\<forall>l \<in> set out. no_marker l" using out_kept by blast
  then have unmarked: "\<not> has_markers (strip_blocks text)"
    unfolding has_markers_def lines by (auto simp: list_ex_iff no_marker_def split: option.splits if_splits)
  have not_blank: "not_blank (split_on newline (strip_blocks text)) = not_blank kept"
  proof -
    have "not_blank out = not_blank kept" unfolding out_def by (rule keep_runs_not_blank)
    then show ?thesis unfolding lines by (cases "out = []") (simp_all add: not_blank_def all_blank_def strip_by_Nil_iff)
  qed
  have "not_blank kept = filter (\<lambda>l. \<not> all_blank l \<and> block_marker l = None) (concat (readme_theirs (Some text)))"
    if bs: "readme_blocks text = Inr bs" for bs
  proof -
    obtain ss after where s: "split_on newline text = seg_lines ss @ after" "seg_ok ss" "plain after" "seg_names ss = README_BLOCKS"
      using bs readme_blocks_iff by blast
    then have "kept = filter (\<lambda>l. block_marker l = None) (concat (readme_theirs (Some text)))"
      by (simp add: kept_def strip_scan_segs theirs_segs [OF s] outside_plain)
    then show ?thesis by (simp add: not_blank_markers)
  qed
  with unmarked not_blank show ?thesis by simp
qed


lemma sample_renders: "\<not> isl (render_readme (\<lambda>_. Inr ''new'') (Some sample_readme))"
  by code_simp

theorem readme_keeps_the_app_witness:
  "\<exists>t. render_readme (\<lambda>_. Inr ''new'') (Some sample_readme) = Inr t \<and> readme_theirs (Some t) = readme_theirs (Some sample_readme) \<and>
     render_readme (\<lambda>_. Inr ''new'') (Some t) = Inr t"
proof -
  obtain t where t: "render_readme (\<lambda>_. Inr ''new'') (Some sample_readme) = Inr t" using sample_renders by (metis sum.collapse(2))
  have "readme_ok (\<lambda>_. Inr ''new'')"
  proof -
    have "plain (split_on newline (strip_by is_nl ''new''))" by code_simp
    then show ?thesis by (simp add: readme_ok_def)
  qed
  from readme_keeps_the_app [OF this t] t show ?thesis by blast
qed

lemma sample_blocks: "\<not> isl (readme_blocks sample_readme)"
  by code_simp

theorem readme_off_leaves_the_app_witness:
  "\<not> has_markers (strip_blocks sample_readme) \<and> not_blank (split_on newline (strip_blocks sample_readme)) =
     filter (\<lambda>l. \<not> all_blank l \<and> block_marker l = None) (concat (readme_theirs (Some sample_readme)))"
  using readme_off_leaves_the_app [of sample_readme] sample_blocks by (metis sum.collapse(2))

end
