(* ===== verification/Spec2Isabelle.thy ===== *)
theory Spec2Isabelle
  imports Wildcards CiVerdict CiGithub CiRelease PortLease PortBench Runner PyUrl RealtimeAuth Realtime
    FlakeLock Nar Report Managed Regions Pyproject Ratchet Schema Config PackageJson Gate TomlRounds RepoRules RepoAudit JsonFmt Manifest PlanSafety SyncSafety
    Pins Policy History Baseline Readme
begin

text \<open>
  A verification development for frappe-nix: the Python tools that keep an app's repository in
  order (\<^verbatim>\<open>py/frappe_nix_tools\<close>), the runtime that serves a bench (\<^verbatim>\<open>runtime/src/frappe_runtime\<close>) and the
  helpers beside them (\<^verbatim>\<open>lib\<close>).  Paths below are relative to \<^verbatim>\<open>src/\<close>; those without a leading
  \<^verbatim>\<open>lib\<close> or \<^verbatim>\<open>runtime\<close> are inside \<^verbatim>\<open>py/frappe_nix_tools/frappe_nix_tools\<close>.

  \<^bold>\<open>The program.\<close>

  An app keeps a table \<^verbatim>\<open>[tool.frappe-nix]\<close> in its \<^verbatim>\<open>pyproject.toml\<close>.  \<^verbatim>\<open>common/config.py\<close> resolves it: a
  profile at the bottom, an organisation's profile read at the commit \<^verbatim>\<open>flake.lock\<close> pins, the app's table on
  top, every layer checked against a JSON schema, and then the module switches brought to a fixpoint.  The
  resolved configuration drives three groups of commands.  \<^verbatim>\<open>frappe-nix sync\<close> (\<^verbatim>\<open>commands/sync.py\<close> and
  \<^verbatim>\<open>scaffold/\<close>) computes, for each entry of a manifest of managed files, the text the file should have, and
  writes, merges or deletes it.  The gates (\<^verbatim>\<open>commands/gate.py\<close>, \<^verbatim>\<open>commands/ratchet.py\<close>, \<^verbatim>\<open>commands/policy.py\<close>)
  run the checks of a pull request, and \<^verbatim>\<open>ci/\<close> decides which of the bot's pull requests merge on their own.
  \<^verbatim>\<open>frappe-nix repo\<close> (\<^verbatim>\<open>commands/repo/\<close>) compares a repository's settings on GitHub with the policy and writes
  the differences.  Beside the tools, \<^verbatim>\<open>lib/port-lease.py\<close> leases TCP ports to development benches, and
  \<^verbatim>\<open>runtime/src/frappe_runtime\<close> is the production process: the restart and drain logic around the web
  server, the job threads and the scheduler, and the realtime server with its permission checks.

  \<^bold>\<open>How the code is modelled.\<close>

  Python values read from JSON, TOML or YAML are the datatype \<open>json\<close> of PyJson; a dictionary is an association
  list in insertion order, with \<open>wf_json\<close> saying its keys are distinct.  A string is a list of characters,
  Python's characters up to 255; numbers of Python are \<open>int\<close>.  A function that may raise
  returns \<open>exn + 'a\<close> and is sequenced with \<open>bindE\<close> (Prelude, Effects); one with effects is a \<open>prog\<close>, a state
  transformer that keeps the effects made before an exception (Effects), with \<open>keeps I m\<close> for an invariant
  every step of \<open>m\<close> keeps, on the way of an exception too.  A \<^verbatim>\<open>try\<close>, a \<^verbatim>\<open>for\<close> with \<^verbatim>\<open>continue\<close> or \<^verbatim>\<open>break\<close>, and a \<^verbatim>\<open>while\<close> are
  \<open>catch\<close>, folds and recursive functions.  Programs that are run, the network, Python's parsers of other languages
  and the libraries (git, gh, nix, uv, yarn, tomllib, yaml, Jinja, \<^verbatim>\<open>packaging\<close>, \<^verbatim>\<open>re\<close> on patterns that are
  data) are fields of an environment record, instantiated concretely by the witnesses; where a theorem needs
  a documented behaviour of one of them it is a named hypothesis.  Patterns that stand in the code are the
  regular expressions of PyRegex.  What is printed is left out where nothing reads it back.

  \<^bold>\<open>Theories and sources.\<close>

  \<^bold>\<open>Prelude, Effects, PyJson, PyJsonText, PyRegex, PyUrl\<close>: strings, lists, dictionaries, exceptions, JSON
  text, \<^verbatim>\<open>re\<close> and \<^verbatim>\<open>urlsplit\<close>, with the generic lemmas the components share.

  \<^bold>\<open>Wildcards, Report\<close>: \<^verbatim>\<open>scaffold/globs.py\<close>; \<^verbatim>\<open>common/report.py\<close>, and the item, plan and managed path of \<^verbatim>\<open>scaffold/engine.py\<close>.

  \<^bold>\<open>CiVerdict, CiGithub, CiRelease\<close>: \<^verbatim>\<open>ci/verdict.py\<close>; \<^verbatim>\<open>common/github.py\<close> and \<^verbatim>\<open>ci/automerge.py\<close>; \<^verbatim>\<open>ci/release.py\<close>,
  \<^verbatim>\<open>ci/branches.py\<close> and \<^verbatim>\<open>ci/relock.py\<close>.  The state is the log of the requests made, so that a property can say
  a merge is only asked for behind the required checks.

  \<^bold>\<open>PortLease, PortBench\<close>: \<^verbatim>\<open>lib/port-lease.py\<close>.  The locale \<open>port_claims\<close> states what a walk needs of a way
  to claim ports; it is interpreted on abstract sockets and on lock files.  PortBench adds the runtime lock, \<^verbatim>\<open>ports.json\<close>, and
  the step relation of several benches that start, die and are shown.

  \<^bold>\<open>Runner\<close>: \<^verbatim>\<open>runtime/src/frappe_runtime/runner.py\<close>: options, routing, the restart and source watches, the
  drain as a state machine over the signals, joining the job threads within one deadline.
  \<^bold>\<open>RealtimeAuth, Realtime\<close>: \<^verbatim>\<open>util.py\<close>, \<^verbatim>\<open>config.py\<close>, \<^verbatim>\<open>auth.py\<close> and \<^verbatim>\<open>statics.py\<close>; \<^verbatim>\<open>registry.py\<close>, \<^verbatim>\<open>dispatch.py\<close>,
  \<^verbatim>\<open>socket.py\<close>, \<^verbatim>\<open>handlers.py\<close> and \<^verbatim>\<open>bridge.py\<close>, with the reachable states of a connected client.

  \<^bold>\<open>FlakeLock, Nar, Pins\<close>: \<^verbatim>\<open>common/flakelock.py\<close>; \<^verbatim>\<open>common/nar.py\<close>; \<^verbatim>\<open>common/pins.py\<close> with the trees under \<^verbatim>\<open>.dev-dist/pins\<close> as state.

  \<^bold>\<open>Schema, Config\<close>: \<^verbatim>\<open>common/schema.py\<close> with the declarative \<open>conforms\<close> it is proved equivalent to;
  \<^verbatim>\<open>common/config.py\<close>, with every value's source.  \<^bold>\<open>Pyproject\<close>: \<^verbatim>\<open>common/pyproject.py\<close>.

  \<^bold>\<open>Managed, Regions\<close>: \<^verbatim>\<open>scaffold/blocks.py\<close> and \<^verbatim>\<open>scaffold/regions.py\<close>, three interpretations of one locale,
  \<open>managed_text\<close>: writing is idempotent, what is written passes the check, and what is the app's stays.
  \<^bold>\<open>Semantic, JsonFmt, Floors, KnownApps\<close>: \<^verbatim>\<open>scaffold/semantic.py\<close>; \<^verbatim>\<open>scaffold/jsonfmt.py\<close>; \<^verbatim>\<open>scaffold/floors.py\<close>; \<^verbatim>\<open>common/known_apps.py\<close> and \<^verbatim>\<open>scaffold/ranges.py\<close>.
  \<^bold>\<open>PackageJson, TomlMerge, TomlRounds\<close>: the merges of \<^verbatim>\<open>scaffold/package_json.py\<close> and \<^verbatim>\<open>scaffold/tomlmerge.py\<close>.
  \<^bold>\<open>Rendering, Manifest\<close>: \<^verbatim>\<open>scaffold/render.py\<close>; \<^verbatim>\<open>scaffold/manifest.py\<close>.

  \<^bold>\<open>Engine, PlanSafety, FlakeText, History\<close>: \<^verbatim>\<open>scaffold/engine.py\<close>: the plan, what a plan may do, the text of
  \<^verbatim>\<open>flake.nix\<close> and its lock, resolving and what the app has committed before.
  \<^bold>\<open>SyncRun, SyncBoot, SyncWrite, SyncSafety\<close>: \<^verbatim>\<open>commands/sync.py\<close> and \<^verbatim>\<open>scaffold/bootstrap.py\<close>.  The locale
  \<open>sync_laws\<close> lists what a predicate of the state must survive to hold after a whole sync; it is interpreted three times:
  nothing is touched (a dry run), only the formatter runs (offline), what is staged stays staged.

  \<^bold>\<open>Gate, Ratchet, Policy\<close>: \<^verbatim>\<open>commands/gate.py\<close> (a locale \<open>watched_ops\<close> for the log of its commands),
  \<^verbatim>\<open>commands/ratchet.py\<close> and \<^verbatim>\<open>commands/policy.py\<close>.
  \<^bold>\<open>RepoPolicy, RepoRules, Targets, RepoApply, RepoAudit\<close>: \<^verbatim>\<open>common/repo_policy.py\<close> and \<^verbatim>\<open>commands/repo/\<close>.

  \<^bold>\<open>What is shown.\<close>

  Safety: auto-merge only behind protected gates (CiGithub), no merge outside the decision table (CiVerdict),
  document rooms only with permission (Realtime), pins and tokens that stay where they belong (FlakeLock,
  Pins), a dry run that changes nothing (SyncSafety, RepoApply), writes and deletions confined to the app's
  own paths (SyncRun, PlanSafety).  Invariants by rule induction: leases of benches that are up are disjoint
  (PortBench); every module that is on has what it needs (Config).  Equivalences with a reference
  definition: the validator and conformance (Schema), a ruleset and GitHub's echo of it (RepoRules), a shallow clone and
  the full one (History).  Refinement: applying a plan implements its effect on the map of texts
  (SyncRun).  Round trips: archives (Nar), JSON text (JsonFmt), Nix literals (Rendering), local regions (Regions).  Totality and
  errors: validation ends (Schema), a condition is a truth value or a configuration error (Rendering), an
  invalid plan is refused before anything is written (SyncSafety).

  \<^bold>\<open>Bounds and fuel.\<close>

  Python's recursion limit is modelled where the code recurses on data it does not control: \<open>node_at\<close>
  (\<^verbatim>\<open>follows\<close> of a lock) and the schema validator take a depth and raise past it, as Python does; results other than that error do
  not depend on the depth (Schema), and a schema of smaller nesting never meets it.  \<^verbatim>\<open>json.loads\<close> runs on
  \<^verbatim>\<open>2 * length + 2\<close> units, more than one for each character and bracket.  An annotated tag is peeled at most ten times,
  as \<^verbatim>\<open>ci/release.py\<close> does.  The module fixpoint ends because each round switches one off (\<open>settle\<close>'s measure).  A
  request follows at most 40 redirects: \<^verbatim>\<open>urllib\<close> visits at most ten addresses and each at most four times.
  \<^verbatim>\<open>HISTORY_DEPTH\<close> is the source's 300.

  \<^bold>\<open>Not modelled.\<close>

  The Nix code, which the tools only call; the drivers of a live bench, database or browser (\<^verbatim>\<open>restore/\<close>,
  \<^verbatim>\<open>app_tools/\<close>, \<^verbatim>\<open>bench/\<close>, \<^verbatim>\<open>deps/\<close>, \<^verbatim>\<open>apps/\<close>), whose steps are calls of git, uv, yarn and bench;
  \<^verbatim>\<open>frappe_init/\<close>, an interactive wizard; \<^verbatim>\<open>icon/\<close>, floating-point geometry; the monkey patches of Frappe under \<^verbatim>\<open>lib/\<close>; argument
  parsers and printing.  In the modelled parts: file modes and times, and links inside a work tree are
  not followed (a write through one is refused by the engine first); the threads of the realtime facade
  and the reconnect loop of its bridge; the text of an exception beyond the words the code tests.
\<close>

end
